(* ===== verification/Prelude.thy ===== *)
theory Prelude
  imports Complex_Main "HOL-Library.Multiset" "HOL-Library.List_Lexorder" "HOL-Library.Char_ord"
begin

text \<open>
  What every component shares: the named theorem collections, early returns over a list of
  checks, Go maps as association lists, the stable sort of the \<open>slices\<close> package with its
  interface, and the interface of a filter stage that never loses an element silently.
\<close>

named_theorems go_defs \<open>definitions a component proof unfolds\<close>
named_theorems err_iff \<open>when a check of the code passes\<close>

section \<open>Strings and pointers\<close>

text \<open>
  A Go \<open>string\<close> is a byte sequence, here a list of 8-bit characters, ordered bytewise.
  A pointer that may be \<open>nil\<close> is an \<open>option\<close>; \<open>time.Time\<close> is the number of
  nanoseconds since Go's zero time (year 1, UTC).
\<close>

type_synonym go_string = string
type_synonym go_time = int

definition is_zero_time :: "go_time \<Rightarrow> bool" where
  "is_zero_time t \<longleftrightarrow> t = 0"

definition day_ns :: int where
  "day_ns = 86400 * 1000000000"

text \<open>\<open>t.AddDate(0, 0, n)\<close> for a time in UTC (no daylight-saving shift).\<close>

definition add_days :: "go_time \<Rightarrow> int \<Rightarrow> go_time" where
  "add_days t n = t + n * day_ns"

section \<open>Early returns\<close>

text \<open>
  An \<open>error\<close> result is an option, \<open>None\<close> for \<open>nil\<close>. A function body of the shape
  \<open>if err := c1; err != nil { return err }; ...\<close> returns the first error of its checks.
\<close>

fun first_err :: "'e option list \<Rightarrow> 'e option" where
  "first_err [] = None"
| "first_err (None # cs) = first_err cs"
| "first_err (Some e # cs) = Some e"

definition fail_if :: "bool \<Rightarrow> 'e \<Rightarrow> 'e option" where
  "fail_if b e = (if b then Some e else None)"

lemma first_err_None [simp, err_iff]: "first_err cs = None \<longleftrightarrow> (\<forall>c \<in> set cs. c = None)"
  by (induction cs rule: first_err.induct) auto

lemma first_err_append: "first_err (xs @ ys) = (case first_err xs of None \<Rightarrow> first_err ys | Some e \<Rightarrow> Some e)"
  by (induction xs rule: first_err.induct) auto

lemma first_err_mem: "first_err cs = Some e \<Longrightarrow> Some e \<in> set cs"
  by (induction cs rule: first_err.induct) auto

lemma fail_if_None [simp, err_iff]: "fail_if b e = None \<longleftrightarrow> \<not> b"
  by (simp add: fail_if_def)

lemma fail_if_Some [simp]: "fail_if b e = Some e' \<longleftrightarrow> b \<and> e' = e"
  by (auto simp: fail_if_def)

text \<open>Sequencing of a fallible computation: \<open>x, err := m; if err != nil { return err }\<close>.\<close>

fun bind_res :: "'e + 'a \<Rightarrow> ('a \<Rightarrow> 'e + 'b) \<Rightarrow> 'e + 'b" where
  "bind_res (Inl e) f = Inl e"
| "bind_res (Inr x) f = f x"

definition guard_res :: "'e option \<Rightarrow> 'e + unit" where
  "guard_res c = (case c of None \<Rightarrow> Inr () | Some e \<Rightarrow> Inl e)"

lemma bind_res_Inr [simp]: "bind_res m f = Inr y \<longleftrightarrow> (\<exists>x. m = Inr x \<and> f x = Inr y)"
  by (cases m) auto

lemma bind_res_Inl: "bind_res m f = Inl e \<longleftrightarrow> m = Inl e \<or> (\<exists>x. m = Inr x \<and> f x = Inl e)"
  by (cases m) auto

lemma guard_res_Inr [simp]: "guard_res c = Inr u \<longleftrightarrow> c = None"
  by (auto simp: guard_res_def split: option.splits)

lemma guard_res_Inl [simp]: "guard_res c = Inl e \<longleftrightarrow> c = Some e"
  by (auto simp: guard_res_def split: option.splits)

section \<open>Maps and slices\<close>

text \<open>
  A Go map is an association list with distinct keys, in the (unspecified) order in which
  the runtime iterates over it; a lookup is \<open>map_of\<close>.
\<close>

type_synonym ('k, 'v) go_map = "('k \<times> 'v) list"

definition slices_contains :: "'a list \<Rightarrow> 'a \<Rightarrow> bool" where
  "slices_contains xs x = (x \<in> set xs)"

lemma slices_contains_iff [simp]: "slices_contains xs x \<longleftrightarrow> x \<in> set xs"
  by (simp add: slices_contains_def)

text \<open>The first element that repeats an earlier one, as a loop over a \<open>seen\<close> set finds it.\<close>

fun first_dup :: "'a list \<Rightarrow> 'a set \<Rightarrow> 'a option" where
  "first_dup [] seen = None"
| "first_dup (x # xs) seen = (if x \<in> seen then Some x else first_dup xs (insert x seen))"

lemma first_dup_None: "first_dup xs seen = None \<longleftrightarrow> distinct xs \<and> set xs \<inter> seen = {}"
  by (induction xs arbitrary: seen) auto

lemma find_None_iff_all: "List.find P xs = None \<longleftrightarrow> (\<forall>x \<in> set xs. \<not> P x)"
  by (auto simp: find_None_iff)

lemma find_SomeD: "List.find P xs = Some x \<Longrightarrow> x \<in> set xs \<and> P x"
  by (auto simp: find_Some_iff)

lemma sum_list_map_filter_pos:
  fixes f :: "'a \<Rightarrow> 'b :: ordered_comm_monoid_add"
  assumes "\<And>x. x \<in> set xs \<Longrightarrow> 0 \<le> f x"
  shows "sum_list (map f (filter P xs)) \<le> sum_list (map f xs)"
  using assms
proof (induction xs)
  case Nil
  then show ?case by simp
next
  case (Cons x xs)
  then have "0 \<le> f x" and "sum_list (map f (filter P xs)) \<le> sum_list (map f xs)" by auto
  then show ?case by (auto intro: add_left_mono add_increasing)
qed

lemma distinct_submset:
  assumes "mset xs \<subseteq># mset ys" and "distinct ys"
  shows "distinct xs"
proof -
  from assms(1) obtain M where "mset ys = mset xs + M" by (auto simp: mset_subset_eq_exists_conv)
  moreover obtain zs where "M = mset zs" by (metis ex_mset)
  ultimately have "mset ys = mset (xs @ zs)" by simp
  with assms(2) have "distinct (xs @ zs)" using mset_eq_imp_distinct_iff by blast
  then show ?thesis by simp
qed

lemma sum_list_submset:
  fixes f :: "'a \<Rightarrow> rat"
  assumes "mset xs \<subseteq># mset ys" and "\<And>y. y \<in> set ys \<Longrightarrow> 0 \<le> f y"
  shows "sum_list (map f xs) \<le> sum_list (map f ys)"
proof -
  from assms(1) obtain M where M: "mset ys = mset xs + M" by (auto simp: mset_subset_eq_exists_conv)
  have "sum_list (map f ys) = sum_mset (image_mset f (mset ys))" by (metis mset_map sum_mset_sum_list)
  also have "\<dots> = sum_list (map f xs) + sum_mset (image_mset f M)"
    unfolding M by (simp add: sum_mset_sum_list [symmetric])
  finally have eq: "sum_list (map f ys) = sum_list (map f xs) + sum_mset (image_mset f M)" .
  have "\<forall>x \<in># M. 0 \<le> f x" using assms(2) M by (auto simp flip: set_mset_mset)
  then have "0 \<le> sum_mset (image_mset f M)" by (induction M) (auto intro: add_nonneg_nonneg)
  with eq show ?thesis by simp
qed

section \<open>Stable sorting\<close>

text \<open>
  \<open>slices.SortStableFunc\<close> returns the stable permutation sorted by its comparison function.
  That permutation is unique, so insertion sort models it; \<open>le a b\<close> stands for
  \<open>cmp(a, b) <= 0\<close>.
\<close>

fun insert_by :: "('a \<Rightarrow> 'a \<Rightarrow> bool) \<Rightarrow> 'a \<Rightarrow> 'a list \<Rightarrow> 'a list" where
  "insert_by le x [] = [x]"
| "insert_by le x (y # ys) = (if le x y then x # y # ys else y # insert_by le x ys)"

definition sort_stable :: "('a \<Rightarrow> 'a \<Rightarrow> bool) \<Rightarrow> 'a list \<Rightarrow> 'a list" where
  "sort_stable le xs = foldr (insert_by le) xs []"

lemma mset_insert_by [simp]: "mset (insert_by le x xs) = add_mset x (mset xs)"
  by (induction xs) auto

lemma mset_sort_stable [simp]: "mset (sort_stable le xs) = mset xs"
  by (induction xs) (auto simp: sort_stable_def)

lemma set_sort_stable [simp]: "set (sort_stable le xs) = set xs"
  by (rule mset_eq_setD) simp

lemma length_sort_stable [simp]: "length (sort_stable le xs) = length xs"
  by (rule mset_eq_length) simp

lemma take_drop_image:
  "image_mset f (mset (take n (sort_stable le xs))) + image_mset f (mset (drop n (sort_stable le xs))) = image_mset f (mset xs)"
  by (metis image_mset_union append_take_drop_id mset_append mset_sort_stable)

text \<open>What a comparison function owes to the sort: a total preorder.\<close>

locale sort_order =
  fixes le :: "'a \<Rightarrow> 'a \<Rightarrow> bool"
  assumes le_total: "le a b \<or> le b a"
    and le_trans: "le a b \<Longrightarrow> le b c \<Longrightarrow> le a c"
begin

lemma sorted_insert_by: "sorted_wrt le xs \<Longrightarrow> sorted_wrt le (insert_by le x xs)"
proof (induction xs)
  case Nil
  then show ?case by simp
next
  case (Cons y ys)
  show ?case
  proof (cases "le x y")
    case True
    with Cons.prems show ?thesis by (auto intro: le_trans)
  next
    case False
    then have "le y x" using le_total by blast
    moreover have "set (insert_by le x ys) = insert x (set ys)"
      by (metis mset_insert_by set_mset_add_mset_insert set_mset_mset)
    ultimately show ?thesis using Cons False by auto
  qed
qed

lemma sorted_sort_stable: "sorted_wrt le (sort_stable le xs)"
  by (induction xs) (auto simp: sort_stable_def intro: sorted_insert_by)

text \<open>What is cut off after the first \<open>n\<close> elements comes no earlier than what is kept.\<close>

lemma take_le_drop:
  assumes "a \<in> set (take n (sort_stable le xs))" and "b \<in> set (drop n (sort_stable le xs))"
  shows "le a b"
proof -
  have "sorted_wrt le (take n (sort_stable le xs) @ drop n (sort_stable le xs))"
    using sorted_sort_stable by simp
  with assms show ?thesis unfolding sorted_wrt_append by blast
qed

end

section \<open>Stages that account for every element\<close>

text \<open>
  A planning stage splits its input into the elements it keeps and one audit record per
  element it drops. The contract: by \<open>key\<close>, nothing is lost and nothing is invented.
\<close>

locale audited_stage =
  fixes stage :: "'a list \<Rightarrow> 'a list \<times> 'h list"
    and key_in :: "'a \<Rightarrow> 'k" and key_drop :: "'h \<Rightarrow> 'k"
  assumes accounted: "image_mset key_in (mset (fst (stage xs))) + image_mset key_drop (mset (snd (stage xs)))
    = image_mset key_in (mset xs)"
begin

lemma kept_or_dropped:
  assumes "x \<in> set xs"
  shows "key_in x \<in> key_in ` set (fst (stage xs)) \<union> key_drop ` set (snd (stage xs))"
proof -
  have "key_in x \<in># image_mset key_in (mset (fst (stage xs))) + image_mset key_drop (mset (snd (stage xs)))"
    unfolding accounted using assms by simp
  then show ?thesis by auto
qed

lemma stage_length: "length (fst (stage xs)) + length (snd (stage xs)) = length xs"
proof -
  have "size (image_mset key_in (mset (fst (stage xs))) + image_mset key_drop (mset (snd (stage xs))))
      = size (image_mset key_in (mset xs))"
    by (simp only: accounted)
  then show ?thesis by simp
qed

lemma no_growth: "length (fst (stage xs)) \<le> length xs"
  using stage_length [of xs] by simp

end

end
