(* ===== verification/Go_Float.thy ===== *)
theory Go_Float
  imports Prelude Complex_Main
begin

text \<open>
  Go's \<open>float64\<close>: IEEE 754 binary64 with round to nearest, ties to even, as the Go
  specification requires of \<open>+ - * /\<close>. A finite value is its exact rational value; the two
  zeros are one value (the code never divides by a zero whose sign it does not know, and
  \<open>-0\<close> compares equal to \<open>0\<close>). Comparisons with \<open>NaN\<close> are false.
\<close>

datatype float64 = Fin rat | PInf | NInf | NaN

section \<open>Rounding\<close>

function nbits :: "int \<Rightarrow> int" where
  "nbits n = (if n \<le> 0 then 0 else 1 + nbits (n div 2))"
  by pat_completeness auto
termination
  by (relation "measure nat") auto

declare nbits.simps [simp del]

text \<open>The exponent \<open>e\<close> with \<open>2 powi e \<le> r < 2 powi (e + 1)\<close> of a positive \<open>r\<close>.\<close>

definition ilog2 :: "rat \<Rightarrow> int" where
  "ilog2 r = (if 1 \<le> r then nbits \<lfloor>r\<rfloor> - 1 else - nbits (\<lceil>1 / r\<rceil> - 1))"

definition round_even :: "rat \<Rightarrow> int" where
  "round_even x = (let f = \<lfloor>x\<rfloor>; d = x - of_int f in
     if d < 1/2 then f else if d > 1/2 then f + 1 else if even f then f else f + 1)"

text \<open>The weight of the last mantissa bit: 53 bits, never below the subnormal unit.\<close>

definition ulp_exp :: "rat \<Rightarrow> int" where
  "ulp_exp r = max (ilog2 \<bar>r\<bar> - 52) (-1074)"

definition round_rat :: "rat \<Rightarrow> rat" where
  "round_rat r = (if r = 0 then 0
     else of_int (round_even (r / 2 powi ulp_exp r)) * 2 powi ulp_exp r)"

definition rnd :: "rat \<Rightarrow> float64" where
  "rnd r = (let v = round_rat r in
     if 2 ^ 1024 \<le> v then PInf else if v \<le> - (2 ^ 1024) then NInf else Fin v)"

section \<open>Operations\<close>

definition is_nan :: "float64 \<Rightarrow> bool" where
  "is_nan x \<longleftrightarrow> x = NaN"

definition is_inf :: "float64 \<Rightarrow> bool" where
  "is_inf x \<longleftrightarrow> x = PInf \<or> x = NInf"

fun feq :: "float64 \<Rightarrow> float64 \<Rightarrow> bool" where
  "feq (Fin a) (Fin b) = (a = b)"
| "feq PInf PInf = True"
| "feq NInf NInf = True"
| "feq _ _ = False"

lemma feq_refl: "feq x x \<longleftrightarrow> x \<noteq> NaN"
  by (cases x) simp_all

lemma feq_sym: "feq x y \<longleftrightarrow> feq y x"
  by (cases x; cases y) auto

lemma feq_trans: "feq x y \<Longrightarrow> feq y z \<Longrightarrow> feq x z"
  by (cases x; cases y; cases z) auto

instantiation float64 :: ord
begin

fun less_eq_float64 :: "float64 \<Rightarrow> float64 \<Rightarrow> bool" where
  "less_eq_float64 NaN _ = False"
| "less_eq_float64 _ NaN = False"
| "less_eq_float64 NInf _ = True"
| "less_eq_float64 _ PInf = True"
| "less_eq_float64 (Fin a) (Fin b) = (a \<le> b)"
| "less_eq_float64 _ _ = False"

definition less_float64 :: "float64 \<Rightarrow> float64 \<Rightarrow> bool" where
  "less_float64 x y \<longleftrightarrow> x \<le> y \<and> \<not> feq x y"

instance ..

end

fun fsign :: "rat \<Rightarrow> float64" where
  "fsign r = (if r > 0 then PInf else if r < 0 then NInf else NaN)"

instantiation float64 :: "{plus, minus, uminus, times, zero, one}"
begin

definition zero_float64 :: float64 where "0 = Fin 0"
definition one_float64 :: float64 where "1 = Fin 1"

fun uminus_float64 :: "float64 \<Rightarrow> float64" where
  "uminus_float64 (Fin a) = Fin (- a)"
| "uminus_float64 PInf = NInf"
| "uminus_float64 NInf = PInf"
| "uminus_float64 NaN = NaN"

fun plus_float64 :: "float64 \<Rightarrow> float64 \<Rightarrow> float64" where
  "plus_float64 (Fin a) (Fin b) = rnd (a + b)"
| "plus_float64 NaN _ = NaN"
| "plus_float64 _ NaN = NaN"
| "plus_float64 PInf NInf = NaN"
| "plus_float64 NInf PInf = NaN"
| "plus_float64 PInf _ = PInf"
| "plus_float64 _ PInf = PInf"
| "plus_float64 NInf _ = NInf"
| "plus_float64 _ NInf = NInf"

definition minus_float64 :: "float64 \<Rightarrow> float64 \<Rightarrow> float64" where
  "minus_float64 x y = x + (- y)"

fun times_float64 :: "float64 \<Rightarrow> float64 \<Rightarrow> float64" where
  "times_float64 (Fin a) (Fin b) = rnd (a * b)"
| "times_float64 NaN _ = NaN"
| "times_float64 _ NaN = NaN"
| "times_float64 (Fin a) PInf = fsign a"
| "times_float64 (Fin a) NInf = - fsign a"
| "times_float64 PInf (Fin a) = fsign a"
| "times_float64 NInf (Fin a) = - fsign a"
| "times_float64 PInf PInf = PInf"
| "times_float64 NInf NInf = PInf"
| "times_float64 _ _ = NInf"

instance ..

end

fun fdiv :: "float64 \<Rightarrow> float64 \<Rightarrow> float64" where
  "fdiv (Fin a) (Fin b) = (if b = 0 then fsign a else rnd (a / b))"
| "fdiv NaN _ = NaN"
| "fdiv _ NaN = NaN"
| "fdiv (Fin a) _ = Fin 0"
| "fdiv PInf (Fin b) = (if b < 0 then NInf else PInf)"
| "fdiv NInf (Fin b) = (if b < 0 then PInf else NInf)"
| "fdiv _ _ = NaN"

text \<open>\<open>big.Rat.SetFloat64\<close>: exact, \<open>nil\<close> when the value is not finite.\<close>

fun set_float64 :: "float64 \<Rightarrow> rat option" where
  "set_float64 (Fin r) = Some r"
| "set_float64 _ = None"

section \<open>Rounding is monotone and exact where it can be\<close>

lemma nbits_bounds: "0 < n \<Longrightarrow> 1 \<le> nbits n \<and> 2 ^ nat (nbits n - 1) \<le> n \<and> n < 2 ^ nat (nbits n)"
proof (induction n rule: nbits.induct)
  case (1 n)
  show ?case
  proof (cases "n = 1")
    case True
    then show ?thesis by (simp add: nbits.simps [of 1] nbits.simps [of 0])
  next
    case False
    with "1.prems" have h: "0 < n div 2" by linarith
    with "1" have IH: "1 \<le> nbits (n div 2)" "2 ^ nat (nbits (n div 2) - 1) \<le> n div 2"
      "n div 2 < 2 ^ nat (nbits (n div 2))" by auto
    define k where "k = nat (nbits (n div 2) - 1)"
    have eq: "nbits n = 1 + nbits (n div 2)" using "1.prems" by (simp add: nbits.simps [of n])
    have k: "nat (nbits n - 1) = Suc k" "nat (nbits n) = Suc (Suc k)" "nat (nbits (n div 2)) = Suc k"
      using IH(1) by (simp_all add: k_def eq)
    have "2 ^ k \<le> n div 2" "n div 2 < 2 * 2 ^ k" using IH k by (simp_all add: k_def)
    then have "2 * 2 ^ k \<le> n" "n < 2 * (2 * 2 ^ k)" by linarith+
    then show ?thesis using IH(1) eq k by simp
  qed
qed

lemma powi2_pos [simp]: "0 < (2 :: rat) powi e"
  by (simp add: zero_less_power_int)

lemma of_int_le_pow2: "n \<le> 2 ^ k \<Longrightarrow> (of_int n :: rat) \<le> 2 ^ k"
  using of_int_le_iff [of n "2 ^ k", where 'a = rat] by simp

lemma pow2_le_of_int: "2 ^ k \<le> n \<Longrightarrow> (2 :: rat) ^ k \<le> of_int n"
  using of_int_le_iff [of "2 ^ k" n, where 'a = rat] by simp

lemma ilog2_bounds:
  assumes "0 < r"
  shows "2 powi ilog2 r \<le> r \<and> r < 2 powi (ilog2 r + 1)"
proof (cases "1 \<le> r")
  case True
  let ?n = "\<lfloor>r\<rfloor>"
  have n: "0 < ?n" using True by linarith
  from nbits_bounds [OF n] have b: "1 \<le> nbits ?n" "2 ^ nat (nbits ?n - 1) \<le> ?n" "?n < 2 ^ nat (nbits ?n)" by auto
  have "(2::rat) ^ nat (nbits ?n - 1) \<le> of_int ?n" using b(2) by (rule pow2_le_of_int)
  then have 1: "(2::rat) ^ nat (nbits ?n - 1) \<le> r" by linarith
  have "?n + 1 \<le> 2 ^ nat (nbits ?n)" using b(3) by simp
  then have "of_int (?n + 1) \<le> (2::rat) ^ nat (nbits ?n)" by (rule of_int_le_pow2)
  then have 2: "r < (2::rat) ^ nat (nbits ?n)" by linarith
  show ?thesis using 1 2 True b(1) by (simp add: ilog2_def power_int_nonneg_exp)
next
  case False
  let ?n = "\<lceil>1 / r\<rceil> - 1"
  have "1 < 1 / r" using assms False by simp
  then have n: "0 < ?n" by linarith
  from nbits_bounds [OF n] have b: "1 \<le> nbits ?n" "2 ^ nat (nbits ?n - 1) \<le> ?n" "?n < 2 ^ nat (nbits ?n)" by auto
  have "(2::rat) ^ nat (nbits ?n - 1) \<le> of_int ?n" using b(2) by (rule pow2_le_of_int)
  then have "(2::rat) ^ nat (nbits ?n - 1) < 1 / r" by linarith
  then have 1: "r < 1 / 2 ^ nat (nbits ?n - 1)" using assms by (simp add: field_simps)
  have "?n + 1 \<le> 2 ^ nat (nbits ?n)" using b(3) by simp
  then have "of_int (?n + 1) \<le> (2::rat) ^ nat (nbits ?n)"
    by (rule of_int_le_pow2)
  then have "1 / r \<le> 2 ^ nat (nbits ?n)" by linarith
  then have 2: "1 / 2 ^ nat (nbits ?n) \<le> r" using assms by (simp add: field_simps)
  have e: "(2::rat) powi (- nbits ?n) = 1 / 2 ^ nat (nbits ?n)"
    using b(1) by (simp add: power_int_minus_divide power_int_nonneg_exp)
  have "(2::rat) powi (- (nbits ?n - 1)) = 1 / 2 ^ nat (nbits ?n - 1)"
    unfolding power_int_minus_divide using b(1) by (simp add: power_int_nonneg_exp)
  then have e': "(2::rat) powi (- nbits ?n + 1) = 1 / 2 ^ nat (nbits ?n - 1)" by simp
  have "ilog2 r = - nbits ?n" using False by (simp add: ilog2_def)
  then show ?thesis using 1 2 e e' by simp
qed

lemma powi2_less_iff [simp]: "(2::rat) powi a < 2 powi b \<longleftrightarrow> a < b"
  by (meson leD leI one_less_numeral_iff power_int_increasing power_int_strict_increasing semiring_norm(76) order.strict_implies_order)

lemma powi2_le_iff [simp]: "(2::rat) powi a \<le> 2 powi b \<longleftrightarrow> a \<le> b"
  by (meson not_le powi2_less_iff)

lemma ilog2_unique:
  assumes "2 powi e \<le> r" and "r < 2 powi (e + 1)"
  shows "ilog2 r = e"
proof -
  have "0 < r" using assms(1) powi2_pos [of e] by linarith
  note b = ilog2_bounds [OF this]
  have "(2::rat) powi e < 2 powi (ilog2 r + 1)" using assms b by linarith
  moreover have "(2::rat) powi ilog2 r < 2 powi (e + 1)" using assms b by linarith
  ultimately show ?thesis by simp
qed

lemma ilog2_mono:
  assumes "0 < r" and "r \<le> s"
  shows "ilog2 r \<le> ilog2 s"
proof -
  have "(2::rat) powi ilog2 r < 2 powi (ilog2 s + 1)"
    using ilog2_bounds [of r] ilog2_bounds [of s] assms by linarith
  then show ?thesis by simp
qed

lemma round_even_of_int [simp]: "round_even (of_int n) = n"
  by (simp add: round_even_def Let_def)

lemma round_even_err: "\<bar>of_int (round_even x) - x\<bar> \<le> 1 / 2"
proof -
  have "of_int \<lfloor>x\<rfloor> \<le> x" "x < of_int \<lfloor>x\<rfloor> + 1" by linarith+
  then show ?thesis by (auto simp: round_even_def Let_def abs_le_iff)
qed

lemma round_even_mono:
  assumes "x \<le> y"
  shows "round_even x \<le> round_even y"
proof (cases "\<lfloor>x\<rfloor> = \<lfloor>y\<rfloor>")
  case True
  with assms show ?thesis by (auto simp: round_even_def Let_def)
next
  case False
  with assms have "\<lfloor>x\<rfloor> + 1 \<le> \<lfloor>y\<rfloor>" using floor_mono [OF assms] by linarith
  moreover have "round_even x \<le> \<lfloor>x\<rfloor> + 1" "\<lfloor>y\<rfloor> \<le> round_even y" by (auto simp: round_even_def Let_def)
  ultimately show ?thesis by linarith
qed

lemma round_even_minus: "round_even (- x) = - round_even x"
proof (cases "x = of_int \<lfloor>x\<rfloor>")
  case True
  then show ?thesis by (metis of_int_minus round_even_of_int)
next
  case False
  then have f: "\<lfloor>- x\<rfloor> = - \<lfloor>x\<rfloor> - 1"
    by (metis (no_types, opaque_lifting) ceiling_altdef floor_minus diff_minus_eq_add minus_add_distrib uminus_add_conv_diff add.commute)
  show ?thesis unfolding round_even_def Let_def f by (auto simp: field_simps)
qed

lemma round_rat_0 [simp]: "round_rat 0 = 0"
  by (simp add: round_rat_def)

lemma round_rat_minus: "round_rat (- r) = - round_rat r"
  by (simp add: round_rat_def ulp_exp_def round_even_minus)

lemma round_even_le_int: "x \<le> of_int n \<Longrightarrow> round_even x \<le> n"
  using round_even_mono [of x "of_int n"] by simp

lemma round_even_ge_int: "of_int n \<le> x \<Longrightarrow> n \<le> round_even x"
  using round_even_mono [of "of_int n" x] by simp

lemma round_rat_nonneg: "0 \<le> r \<Longrightarrow> 0 \<le> round_rat r"
  using round_even_ge_int [of 0 "r / 2 powi ulp_exp r"] by (simp add: round_rat_def)

lemma powi2_add: "(2::rat) powi (a + b) = 2 powi a * 2 powi b"
  by (simp add: power_int_add)

lemma mantissa_bound:
  assumes "0 < r"
  shows "r < 2 powi (ulp_exp r + 53)"
proof -
  have "r < 2 powi (ilog2 r + 1)" using ilog2_bounds [OF assms] by simp
  also have "\<dots> \<le> 2 powi (ulp_exp r + 53)" using assms by (simp add: ulp_exp_def)
  finally show ?thesis .
qed

lemma round_rat_le_binade:
  assumes "0 < r"
  shows "round_rat r \<le> 2 powi (ulp_exp r + 53)"
proof -
  have "r / 2 powi ulp_exp r \<le> of_int (2 ^ 53)"
    using mantissa_bound [OF assms] by (simp add: powi2_add field_simps)
  then have "of_int (round_even (r / 2 powi ulp_exp r)) \<le> (of_int (2 ^ 53) :: rat)"
    using round_even_le_int of_int_le_iff by blast
  then show ?thesis using assms by (simp add: round_rat_def powi2_add mult.commute)
qed

lemma ge_binade_round_rat:
  assumes "0 < r" and "2 powi (ulp_exp r + 52) \<le> r"
  shows "2 powi (ulp_exp r + 52) \<le> round_rat r"
proof -
  have "of_int (2 ^ 52) \<le> r / 2 powi ulp_exp r"
    using assms by (simp add: powi2_add field_simps)
  then have "(of_int (2 ^ 52) :: rat) \<le> of_int (round_even (r / 2 powi ulp_exp r))"
    using round_even_ge_int of_int_le_iff by blast
  then show ?thesis using assms by (simp add: round_rat_def powi2_add mult.commute)
qed

lemma round_rat_mono_pos:
  assumes "0 < r" and "r \<le> s"
  shows "round_rat r \<le> round_rat s"
proof (cases "ulp_exp r = ulp_exp s")
  case True
  have "r / 2 powi ulp_exp s \<le> s / 2 powi ulp_exp s" using assms by (simp add: divide_right_mono)
  then have "(of_int (round_even (r / 2 powi ulp_exp s)) :: rat) \<le> of_int (round_even (s / 2 powi ulp_exp s))"
    using round_even_mono by simp
  with True assms show ?thesis by (simp add: round_rat_def)
next
  case False
  have le: "ilog2 r \<le> ilog2 s" using ilog2_mono assms by blast
  with False assms have lt: "ulp_exp r + 1 \<le> ulp_exp s" and big: "ulp_exp s = ilog2 s - 52"
    by (auto simp: ulp_exp_def)
  have "round_rat r \<le> 2 powi (ulp_exp r + 53)" using round_rat_le_binade assms by blast
  also have "\<dots> \<le> 2 powi (ulp_exp s + 52)" using lt by simp
  also have "\<dots> \<le> round_rat s"
    using ge_binade_round_rat [of s] ilog2_bounds [of s] assms big by simp
  finally show ?thesis .
qed

lemma round_rat_mono:
  assumes "r \<le> s"
  shows "round_rat r \<le> round_rat s"
proof -
  consider "0 < r" | "r \<le> 0" "0 \<le> s" | "s < 0" by linarith
  then show ?thesis
  proof cases
    case 1
    then show ?thesis using assms round_rat_mono_pos by blast
  next
    case 2
    then have "0 \<le> round_rat (- r)" "0 \<le> round_rat s" using round_rat_nonneg by simp_all
    then show ?thesis by (simp add: round_rat_minus)
  next
    case 3
    then have "round_rat (- s) \<le> round_rat (- r)" using assms round_rat_mono_pos [of "- s" "- r"] by simp
    then show ?thesis by (simp add: round_rat_minus)
  qed
qed

lemma rnd_mono: "r \<le> s \<Longrightarrow> rnd r \<le> rnd s"
  using round_rat_mono [of r s] by (simp add: rnd_def Let_def)

lemma ulp_exp_le:
  assumes "0 < r" and "r < 2 powi (e + 53)" and "- 1074 \<le> e"
  shows "ulp_exp r \<le> e"
proof -
  have "(2::rat) powi ilog2 r < 2 powi (e + 53)" using ilog2_bounds [of r] assms by linarith
  then show ?thesis using assms by (simp add: ulp_exp_def)
qed

lemma round_rat_dyadic_pos:
  assumes "0 < m" and "m < 2 ^ 53" and "- 1074 \<le> e"
  shows "round_rat (of_int m * 2 powi e) = of_int m * 2 powi e"
proof -
  let ?r = "of_int m * 2 powi e :: rat"
  have pos: "0 < ?r" using assms by simp
  have "(of_int m :: rat) < of_int (2 ^ 53)" using assms(2) of_int_less_iff by blast
  then have "?r < 2 powi (e + 53)" by (simp add: powi2_add mult.commute)
  then have le: "ulp_exp ?r \<le> e" using ulp_exp_le pos assms(3) by blast
  define k where "k = nat (e - ulp_exp ?r)"
  have e: "e = ulp_exp ?r + int k" using le by (simp add: k_def)
  have "(2::rat) powi e = 2 powi ulp_exp ?r * 2 ^ k"
    by (subst e) (simp add: powi2_add)
  then have "?r = of_int (m * 2 ^ k) * 2 powi ulp_exp ?r" by (simp add: mult.commute)
  then have "?r / 2 powi ulp_exp ?r = of_int (m * 2 ^ k)"
    by (metis nonzero_eq_divide_eq powi2_pos less_irrefl)
  then have "of_int (round_even (?r / 2 powi ulp_exp ?r)) * 2 powi ulp_exp ?r = ?r"
    by (metis nonzero_divide_eq_eq powi2_pos less_irrefl round_even_of_int)
  then show ?thesis using pos by (simp add: round_rat_def)
qed

text \<open>A value that 53 bits can hold is not changed.\<close>

lemma rnd_dyadic:
  assumes "\<bar>m\<bar> < 2 ^ 53" and "- 1074 \<le> e" and "e \<le> 970"
  shows "rnd (of_int m * 2 powi e) = Fin (of_int m * 2 powi e)"
proof -
  let ?r = "of_int m * 2 powi e :: rat"
  have rr: "round_rat ?r = ?r"
  proof -
    consider "m = 0" | "0 < m" | "0 < - m" by linarith
    then show ?thesis
    proof cases
      case 3
      then have "round_rat (of_int (- m) * 2 powi e) = of_int (- m) * 2 powi e"
        using round_rat_dyadic_pos [of "- m" e] assms by simp
      then show ?thesis using round_rat_minus [of ?r] by simp
    qed (use round_rat_dyadic_pos [of m e] assms in auto)
  qed
  have m: "(of_int \<bar>m\<bar> :: rat) < of_int (2 ^ 53)" using assms(1) of_int_less_iff by blast
  have "\<bar>?r\<bar> = of_int \<bar>m\<bar> * 2 powi e" by (simp add: abs_mult)
  also have "\<dots> < of_int (2 ^ 53) * 2 powi e" using m by simp
  also have "\<dots> = 2 powi (e + 53)" by (simp add: powi2_add)
  also have "\<dots> \<le> 2 powi int 1024" using assms(3) by (simp only: powi2_le_iff)
  also have "(2::rat) powi int 1024 = 2 ^ 1024" by (simp only: power_int_of_nat)
  finally have "\<bar>?r\<bar> < 2 ^ 1024" .
  then show ?thesis by (simp add: rnd_def Let_def rr abs_less_iff)
qed

lemma rnd_of_int: "\<bar>m\<bar> < 2 ^ 53 \<Longrightarrow> rnd (of_int m) = Fin (of_int m)"
  using rnd_dyadic [of m 0] by simp

lemma rnd_div_pow2: "\<bar>m\<bar> < 2 ^ 53 \<Longrightarrow> n \<le> 1074 \<Longrightarrow> rnd (of_int m / 2 ^ n) = Fin (of_int m / 2 ^ n)"
  using rnd_dyadic [of m "- int n"] by (simp add: power_int_minus_divide)

lemma rnd_0 [simp]: "rnd 0 = Fin 0" using rnd_of_int [of 0] by simp
lemma rnd_1 [simp]: "rnd 1 = Fin 1" using rnd_of_int [of 1] by simp
lemma rnd_minus_1 [simp]: "rnd (- 1) = Fin (- 1)" using rnd_of_int [of "- 1"] by simp
lemma rnd_numeral [simp]: "numeral w < (2 ^ 53 :: int) \<Longrightarrow> rnd (numeral w) = Fin (numeral w)"
  using rnd_of_int [of "numeral w"] by simp

lemma rnd_not_NaN [simp]: "rnd r \<noteq> NaN"
  by (simp add: rnd_def Let_def)

lemma rnd_finite:
  assumes "\<bar>r\<bar> \<le> 2 ^ 900"
  shows "\<exists>v. rnd r = Fin v"
proof -
  define b :: rat where "b = 2 ^ 900"
  have b: "rnd b = Fin b" "rnd (- b) = Fin (- b)"
    using rnd_dyadic [of 1 900] rnd_dyadic [of "- 1" 900] by (simp_all add: b_def power_int_def)
  have "r \<le> b" "- b \<le> r" using assms unfolding b_def by linarith+
  then have "rnd r \<le> Fin b" "Fin (- b) \<le> rnd r"
    using rnd_mono [of r b] rnd_mono [of "- b" r] b by simp_all
  then show ?thesis by (cases "rnd r") auto
qed

text \<open>Comparisons of finite values are comparisons of rationals.\<close>

lemma fin_less [simp]: "Fin a < Fin b \<longleftrightarrow> a < b"
  by (auto simp: less_float64_def)

lemma float_less_simps [simp]:
  "\<not> NaN < x" "\<not> x < (NaN :: float64)" "Fin a < PInf" "\<not> PInf < x" "NInf < Fin a" "\<not> x < NInf"
  "\<not> Fin a < NInf" "NInf < PInf"
  by (cases x; simp add: less_float64_def)+

lemma float_zero_simps [simp]:
  "(0::float64) = Fin 0" "(1::float64) = Fin 1"
  by (simp_all add: zero_float64_def one_float64_def)

lemma float_trichotomy: "(x::float64) \<le> y \<longleftrightarrow> \<not> y < x \<and> x \<noteq> NaN \<and> y \<noteq> NaN"
  by (cases x; cases y; auto simp: less_float64_def)

lemma float_le_trans: "(x::float64) \<le> y \<Longrightarrow> y \<le> z \<Longrightarrow> x \<le> z"
  by (cases x; cases y; cases z; auto)

lemma float_le_less_trans: "(x::float64) \<le> y \<Longrightarrow> y < z \<Longrightarrow> x < z"
  by (cases x; cases y; cases z; auto simp: less_float64_def)

lemma is_nan_iff [simp]: "is_nan x \<longleftrightarrow> x = NaN" by (simp add: is_nan_def)

lemma is_inf_iff [simp]: "is_inf x \<longleftrightarrow> x = PInf \<or> x = NInf" by (simp add: is_inf_def)

lemma finite_float: "\<not> is_nan x \<Longrightarrow> \<not> is_inf x \<Longrightarrow> \<exists>r. x = Fin r"
  by (cases x) auto

lemma float_nonneg_cmp: "Fin 0 \<le> x \<Longrightarrow> \<not> x < Fin 0" "Fin 0 \<le> x \<Longrightarrow> \<not> Fin 0 < - x"
  by (cases x; auto)+

lemma rnd_nonneg: "0 \<le> r \<Longrightarrow> Fin 0 \<le> rnd r"
  using rnd_mono [of 0 r] by simp

lemma rnd_half [simp]: "rnd (1 / 2) = Fin (1 / 2)"
  using rnd_div_pow2 [of 1 1] by simp

section \<open>Division rounds up enough\<close>

lemma round_rat_multiple:
  assumes "round_rat x = x" and "0 < z" and "z \<le> x"
  shows "\<exists>a. x = of_int a * 2 powi ulp_exp z"
proof -
  have x: "0 < x" using assms by simp
  have "ulp_exp z \<le> ulp_exp x" using ilog2_mono [OF assms(2,3)] assms(2) x by (simp add: ulp_exp_def)
  then obtain k where k: "ulp_exp x = ulp_exp z + int k" using zle_iff_zadd by blast
  define m where "m = round_even (x / 2 powi ulp_exp x)"
  have "x = of_int m * 2 powi ulp_exp x" using assms(1) x by (simp add: round_rat_def m_def)
  moreover have "(2::rat) powi ulp_exp x = of_int (2 ^ k) * 2 powi ulp_exp z" unfolding k by (simp add: powi2_add)
  ultimately have "x = of_int (m * 2 ^ k) * 2 powi ulp_exp z" by simp
  then show ?thesis by blast
qed

lemma float_gap:
  assumes "round_rat x = x" and "round_rat z = z" and "0 < z" and "z < x"
  shows "z + 2 powi (ilog2 z - 52) \<le> x"
proof -
  obtain a where a: "x = of_int a * 2 powi ulp_exp z" using round_rat_multiple [of x z] assms by auto
  obtain b where b: "z = of_int b * 2 powi ulp_exp z" using round_rat_multiple [of z z] assms by auto
  have "(of_int b :: rat) * 2 powi ulp_exp z < of_int a * 2 powi ulp_exp z" using assms(4) a b by simp
  then have "of_int b < (of_int a :: rat)" by simp
  then have "b + 1 \<le> a" by simp
  then have "(of_int (b + 1) :: rat) \<le> of_int a" by (simp only: of_int_le_iff)
  then have "of_int (b + 1) * 2 powi ulp_exp z \<le> (of_int a :: rat) * 2 powi ulp_exp z"
    by (rule mult_right_mono) (simp add: less_imp_le)
  then have "z + 2 powi ulp_exp z \<le> x" using a b by (simp add: distrib_right)
  moreover have "(2::rat) powi (ilog2 z - 52) \<le> 2 powi ulp_exp z" using assms(3) by (simp add: ulp_exp_def)
  ultimately show ?thesis by linarith
qed

lemma round_rat_lower:
  assumes "0 < r" shows "r - 2 powi ulp_exp r / 2 \<le> round_rat r"
proof -
  have "r / 2 powi ulp_exp r - 1 / 2 \<le> of_int (round_even (r / 2 powi ulp_exp r))"
    using round_even_err [of "r / 2 powi ulp_exp r"] by linarith
  then have "(r / 2 powi ulp_exp r - 1 / 2) * 2 powi ulp_exp r \<le> of_int (round_even (r / 2 powi ulp_exp r)) * 2 powi ulp_exp r"
    by (rule mult_right_mono) (simp add: less_imp_le)
  moreover have "(r / 2 powi ulp_exp r - 1 / 2) * 2 powi ulp_exp r = r - 2 powi ulp_exp r / 2"
    by (simp add: left_diff_distrib)
  ultimately show ?thesis using assms by (simp add: round_rat_def)
qed

text \<open>A quotient above an integer stays above it after rounding, when the multiple is a float.\<close>

lemma round_div_gt:
  assumes x: "round_rat x = x" and y: "0 < y" and n: "(0::int) < n"
    and z: "round_rat (of_int n * y) = of_int n * y" and gt: "of_int n * y < x"
  shows "of_int n < round_rat (x / y)"
proof -
  let ?N = "of_int n :: rat" and ?z = "of_int n * y" and ?r = "x / y"
  have N: "1 \<le> ?N" and zpos: "0 < ?z" using n y by auto
  have g: "?z + 2 powi (ilog2 ?z - 52) \<le> x" by (rule float_gap [OF x z zpos gt])
  have rN: "?N < ?r" using gt y by (simp add: pos_less_divide_eq)
  have "y * 2 powi ilog2 ?N \<le> ?z" using ilog2_bounds [of ?N] N y by (simp add: mult.commute)
  also have "\<dots> < 2 powi (ilog2 ?z + 1)" using ilog2_bounds [OF zpos] by simp
  finally have "y * 2 powi ilog2 ?N * 2 powi (- 53) < 2 powi (ilog2 ?z + 1) * 2 powi (- 53)"
    by (rule mult_strict_right_mono) simp
  then have half: "y * 2 powi (ilog2 ?N - 53) < 2 powi (ilog2 ?z - 52)"
    by (simp only: mult.assoc powi2_add [symmetric]) simp
  have "y * (?N + 2 powi (ilog2 ?N - 53)) < x" using g half by (simp add: distrib_left mult.commute)
  then have above: "?N + 2 powi (ilog2 ?N - 53) < ?r" using y by (simp add: pos_less_divide_eq mult.commute)
  have mono: "ilog2 ?N \<le> ilog2 ?r" using ilog2_mono [of ?N ?r] N rN by simp
  have "ilog2 1 = 0" by (rule ilog2_unique) auto
  then have lN: "0 \<le> ilog2 ?N" using ilog2_mono [of 1 ?N] N by simp
  show ?thesis
  proof (cases "ilog2 ?r = ilog2 ?N")
    case True
    moreover have "\<bar>?r\<bar> = ?r" using rN N by linarith
    ultimately have "ulp_exp ?r = ilog2 ?N - 52" using lN unfolding ulp_exp_def by simp
    moreover have "(2::rat) powi (ilog2 ?N - 52) = 2 * 2 powi (ilog2 ?N - 53)"
      using powi2_add [of 1 "ilog2 ?N - 53"] by simp
    ultimately have "?r - 2 powi (ilog2 ?N - 53) \<le> round_rat ?r"
      using round_rat_lower [of ?r] rN N by simp
    with above show ?thesis by linarith
  next
    case False
    then have "(2::rat) powi (ilog2 ?N + 1) \<le> 2 powi ilog2 ?r" using mono by simp
    also have "\<dots> \<le> ?r" using ilog2_bounds [of ?r] rN N by simp
    finally have "round_rat (2 powi (ilog2 ?N + 1)) \<le> round_rat ?r" by (rule round_rat_mono)
    moreover have "round_rat (2 powi (ilog2 ?N + 1)) = 2 powi (ilog2 ?N + 1)"
      using round_rat_dyadic_pos [of 1 "ilog2 ?N + 1"] lN by simp
    moreover have "?N < 2 powi (ilog2 ?N + 1)" using ilog2_bounds [of ?N] N by simp
    ultimately show ?thesis by linarith
  qed
qed

lemma round_rat_of_int: "\<bar>n\<bar> < 2 ^ 53 \<Longrightarrow> round_rat (of_int n) = of_int n"
proof -
  assume n: "\<bar>n\<bar> < 2 ^ 53"
  consider "n = 0" | "0 < n" | "0 < - n" by linarith
  then show ?thesis
  proof cases
    case 2
    with n show ?thesis using round_rat_dyadic_pos [of n 0] by simp
  next
    case 3
    with n show ?thesis using round_rat_dyadic_pos [of "- n" 0] round_rat_minus [of "of_int n"] by simp
  qed simp
qed

lemma round_rat_idem: "round_rat (round_rat r) = round_rat r"
proof -
  have pos: "round_rat (round_rat s) = round_rat s" if s: "0 < s" for s
  proof -
    let ?m = "round_even (s / 2 powi ulp_exp s)" and ?e = "ulp_exp s"
    have v: "round_rat s = of_int ?m * 2 powi ?e" using s by (simp add: round_rat_def)
    have m0: "0 \<le> ?m" using s by (intro round_even_ge_int) simp
    have "of_int ?m * 2 powi ?e \<le> (2::rat) powi (?e + 53)" using round_rat_le_binade [OF s] v by simp
    then have "of_int ?m * 2 powi ?e \<le> 2 ^ 53 * (2::rat) powi ?e" using powi2_add [of 53 ?e] by (simp add: add.commute)
    then have "(of_int ?m :: rat) \<le> of_int (2 ^ 53)" by simp
    then have m53: "?m \<le> 2 ^ 53" by (simp only: of_int_le_iff)
    have e: "- 1074 \<le> ?e" by (simp add: ulp_exp_def)
    consider "?m = 0" | "0 < ?m" "?m < 2 ^ 53" | "?m = 2 ^ 53" using m0 m53 by linarith
    then show ?thesis
    proof cases
      case 1
      then show ?thesis by (simp add: v)
    next
      case 2
      then show ?thesis using round_rat_dyadic_pos [OF 2 e] v by simp
    next
      case 3
      then have "round_rat s = 2 powi (?e + 53)" unfolding v using powi2_add [of 53 ?e] by (simp add: add.commute)
      then show ?thesis using round_rat_dyadic_pos [of 1 "?e + 53"] e by simp
    qed
  qed
  consider "r = 0" | "0 < r" | "0 < - r" by linarith
  then show ?thesis
  proof cases
    case 3
    then show ?thesis using pos [of "- r"] by (simp add: round_rat_minus)
  qed (use pos in auto)
qed

lemma rnd_Fin_iff: "rnd r = Fin v \<longleftrightarrow> v = round_rat r \<and> \<bar>v\<bar> < 2 ^ 1024"
  by (auto simp: rnd_def Let_def abs_less_iff split: if_splits)

lemma rnd_Fin_round: "rnd r = Fin v \<Longrightarrow> round_rat v = v"
  using round_rat_idem by (auto simp: rnd_Fin_iff)

text \<open>
  The rounded-up float quotient of \<open>x\<close> by \<open>y\<close>, as an integer \<open>k\<close>: \<open>k\<close> pieces of size \<open>y\<close>
  cover \<open>x\<close>, and \<open>k - 1\<close> pieces do not.
\<close>

lemma ceil_div_covers:
  assumes "round_rat x = x" and "0 < y" and "y \<le> x"
    and "round_rat (of_int \<lceil>round_rat (x / y)\<rceil> * y) = of_int \<lceil>round_rat (x / y)\<rceil> * y"
  shows "x \<le> of_int \<lceil>round_rat (x / y)\<rceil> * y"
proof (rule ccontr)
  assume "\<not> ?thesis"
  then have lt: "of_int \<lceil>round_rat (x / y)\<rceil> * y < x" by simp
  have "1 \<le> x / y" using assms by simp
  then have "1 \<le> round_rat (x / y)" using round_rat_mono [of 1 "x / y"] round_rat_of_int [of 1] by simp
  then have "0 < \<lceil>round_rat (x / y)\<rceil>" by linarith
  from round_div_gt [OF assms(1,2) this assms(4) lt] show False by linarith
qed

lemma ceil_div_minimal:
  assumes "0 < y" and "0 \<le> x" and "\<lceil>round_rat (x / y)\<rceil> < 2 ^ 53"
  shows "(of_int \<lceil>round_rat (x / y)\<rceil> - 1) * y < x"
proof (rule ccontr)
  let ?k = "\<lceil>round_rat (x / y)\<rceil>"
  assume "\<not> ?thesis"
  then have "x / y \<le> of_int (?k - 1)" using assms(1) by (simp add: pos_divide_le_eq)
  then have "round_rat (x / y) \<le> round_rat (of_int (?k - 1))" by (rule round_rat_mono)
  have "0 \<le> round_rat (x / y)" using assms by (intro round_rat_nonneg) simp
  then have "0 \<le> ?k" by linarith
  moreover have "\<bar>k - 1\<bar> < 2 ^ 53" if "0 \<le> k" "k < 2 ^ 53" for k :: int using that by (simp add: abs_less_iff)
  ultimately have "\<bar>?k - 1\<bar> < 2 ^ 53" using assms(3) by blast
  then have "round_rat (of_int (?k - 1)) = of_int (?k - 1)" by (rule round_rat_of_int)
  with \<open>round_rat (x / y) \<le> round_rat (of_int (?k - 1))\<close> show False by linarith
qed

end
