(* ===== verification/Go_Fmt.thy ===== *)
theory Go_Fmt
  imports Go_Float
begin

text \<open>
  The renderings of numbers the code relies on: decimal integers (\<open>%d\<close>), fixed point
  (\<open>%.nf\<close>), \<open>big.Rat.RatString\<close>, \<open>big.Rat.FloatString\<close>, and the parser
  \<open>big.Rat.SetString\<close>. The main fact is that a rational survives the trip through its
  string, which is how tranche amounts are persisted.
\<close>

section \<open>Integers\<close>

definition digit_char :: "nat \<Rightarrow> char" where
  "digit_char d = char_of (48 + d)"

fun show_nat :: "nat \<Rightarrow> go_string" where
  "show_nat n = (if n < 10 then [digit_char n] else show_nat (n div 10) @ [digit_char (n mod 10)])"

declare show_nat.simps [simp del]

definition show_int :: "int \<Rightarrow> go_string" where
  "show_int i = (if i < 0 then ''-'' @ show_nat (nat (- i)) else show_nat (nat i))"

section \<open>Fixed point\<close>

text \<open>The \<open>p\<close> low decimal digits of \<open>n\<close>, most significant first.\<close>

fun pad_digits :: "nat \<Rightarrow> nat \<Rightarrow> go_string" where
  "pad_digits 0 n = []"
| "pad_digits (Suc p) n = pad_digits p (n div 10) @ [digit_char (n mod 10)]"

definition show_scaled :: "nat \<Rightarrow> bool \<Rightarrow> nat \<Rightarrow> go_string" where
  "show_scaled p neg n = (if neg then ''-'' else []) @ show_nat (n div 10 ^ p)
     @ (if p = 0 then [] else ''.'' @ pad_digits p (n mod 10 ^ p))"

text \<open>\<open>fmt.Sprintf("%.pf", x)\<close>: the exact binary value, ties to even.\<close>

fun fmt_fixed :: "nat \<Rightarrow> float64 \<Rightarrow> go_string" where
  "fmt_fixed p (Fin r) = show_scaled p (r < 0) (nat (round_even (\<bar>r\<bar> * 10 ^ p)))"
| "fmt_fixed p PInf = ''+Inf''"
| "fmt_fixed p NInf = ''-Inf''"
| "fmt_fixed p NaN = ''NaN''"

section \<open>Rationals\<close>

definition rat_string :: "rat \<Rightarrow> go_string" where
  "rat_string r = (case quotient_of r of (a, b) \<Rightarrow>
     if b = 1 then show_int a else show_int a @ ''/'' @ show_int b)"

text \<open>\<open>FloatString\<close> rounds half away from zero.\<close>

definition float_string :: "nat \<Rightarrow> rat \<Rightarrow> go_string" where
  "float_string p r = show_scaled p (r < 0) (nat \<lfloor>\<bar>r\<bar> * 10 ^ p + 1 / 2\<rfloor>)"

section \<open>The parser of \<open>big.Rat.SetString\<close>\<close>

definition digit_val :: "char \<Rightarrow> nat" where
  "digit_val c = (let n = (of_char c :: nat) in
     if 48 \<le> n \<and> n \<le> 57 then n - 48
     else if 97 \<le> n \<and> n \<le> 122 then n - 87
     else if 65 \<le> n \<and> n \<le> 90 then n - 55 else 63)"

text \<open>
  The digit loop of \<open>nat.scan\<close>. \<open>seen_digit\<close> and \<open>seen_sep\<close> say whether the previous
  character was a digit or the separator \<open>_\<close>; \<open>bad\<close> is \<open>invalSep\<close>; \<open>dp\<close> is the digit
  count at the radix point.
\<close>

record scan_state =
  sc_value :: nat
  sc_count :: nat
  sc_dp :: "nat option"
  sc_digit :: bool
  sc_sep :: bool
  sc_bad :: bool

fun scan_digits :: "nat \<Rightarrow> bool \<Rightarrow> scan_state \<Rightarrow> go_string \<Rightarrow> scan_state \<times> go_string" where
  "scan_digits b fr s [] = (s, [])"
| "scan_digits b fr s (c # cs) =
    (if c = CHR ''.'' \<and> fr then
       scan_digits b False (s\<lparr>sc_bad := sc_bad s \<or> sc_sep s, sc_digit := False, sc_sep := False,
         sc_dp := Some (sc_count s)\<rparr>) cs
     else if c = CHR ''_'' then
       scan_digits b fr (s\<lparr>sc_bad := sc_bad s \<or> \<not> sc_digit s, sc_digit := False, sc_sep := True\<rparr>) cs
     else if digit_val c < b then
       scan_digits b fr (s\<lparr>sc_value := sc_value s * b + digit_val c, sc_count := sc_count s + 1,
         sc_digit := True, sc_sep := False\<rparr>) cs
     else (s, c # cs))"

definition scan_init :: "nat \<Rightarrow> bool \<Rightarrow> scan_state" where
  "scan_init n d = \<lparr>sc_value = 0, sc_count = n, sc_dp = None, sc_digit = d, sc_sep = False, sc_bad = False\<rparr>"

text \<open>
  \<open>nat.scan(r, 0, fracOk)\<close>: the value, its base, the digit count (the negated number of
  fractional digits when there was a radix point) and the unread rest.
\<close>

definition scan_finish :: "bool \<Rightarrow> nat \<Rightarrow> scan_state \<times> go_string \<Rightarrow> (nat \<times> nat \<times> int \<times> go_string) option" where
  "scan_finish octal b res = (case res of (s, rest) \<Rightarrow>
     if sc_bad s \<or> sc_sep s then None
     else if sc_count s = 0 then (if octal then Some (0, 10, 1, rest) else None)
     else Some (sc_value s, b,
       case sc_dp s of None \<Rightarrow> int (sc_count s) | Some dp \<Rightarrow> int dp - int (sc_count s), rest))"

fun nat_scan :: "bool \<Rightarrow> go_string \<Rightarrow> (nat \<times> nat \<times> int \<times> go_string) option" where
  "nat_scan fr (c # d # cs) =
    (if c \<noteq> CHR ''0'' then scan_finish False 10 (scan_digits 10 fr (scan_init 0 False) (c # d # cs))
     else if d \<in> {CHR ''b'', CHR ''B''} then scan_finish False 2 (scan_digits 2 fr (scan_init 0 True) cs)
     else if d \<in> {CHR ''o'', CHR ''O''} then scan_finish False 8 (scan_digits 8 fr (scan_init 0 True) cs)
     else if d \<in> {CHR ''x'', CHR ''X''} then scan_finish False 16 (scan_digits 16 fr (scan_init 0 True) cs)
     else if fr then scan_finish False 10 (scan_digits 10 fr (scan_init 1 True) (d # cs))
     else scan_finish True 8 (scan_digits 8 fr (scan_init 0 True) (d # cs)))"
| "nat_scan fr [c] =
    (if c = CHR ''0'' then Some (0, 10, 1, [])
     else scan_finish False 10 (scan_digits 10 fr (scan_init 0 False) [c]))"
| "nat_scan fr [] = None"

fun scan_sign :: "go_string \<Rightarrow> bool \<times> go_string" where
  "scan_sign (c # cs) = (if c = CHR ''-'' then (True, cs) else if c = CHR ''+'' then (False, cs) else (False, c # cs))"
| "scan_sign [] = (False, [])"

text \<open>The digits of \<open>scanExponent\<close>; its value must fit in 64 bits (\<open>strconv.ParseInt\<close>).\<close>

fun scan_exp_digits :: "scan_state \<Rightarrow> go_string \<Rightarrow> scan_state \<times> go_string" where
  "scan_exp_digits s [] = (s, [])"
| "scan_exp_digits s (c # cs) =
    (if digit_val c < 10 then
       scan_exp_digits (s\<lparr>sc_value := sc_value s * 10 + digit_val c, sc_count := sc_count s + 1,
         sc_digit := True, sc_sep := False\<rparr>) cs
     else if c = CHR ''_'' then
       scan_exp_digits (s\<lparr>sc_bad := sc_bad s \<or> \<not> sc_digit s, sc_digit := False, sc_sep := True\<rparr>) cs
     else (s, c # cs))"

fun scan_exponent :: "go_string \<Rightarrow> (int \<times> nat \<times> go_string) option" where
  "scan_exponent [] = Some (0, 10, [])"
| "scan_exponent (c # cs) =
    (if c \<in> {CHR ''e'', CHR ''E'', CHR ''p'', CHR ''P''} then
       (case scan_sign cs of (neg, ds) \<Rightarrow> case scan_exp_digits (scan_init 0 False) ds of (s, rest) \<Rightarrow>
         let v = (if neg then - int (sc_value s) else int (sc_value s)) in
         if sc_count s = 0 \<or> v < - (2 ^ 63) \<or> v \<ge> 2 ^ 63 \<or> sc_bad s \<or> sc_sep s then None
         else Some (v, if c \<in> {CHR ''e'', CHR ''E''} then 10 else 2, rest))
     else Some (0, 10, c # cs))"

definition int_set_string :: "go_string \<Rightarrow> int option" where
  "int_set_string s = (case scan_sign s of (neg, ds) \<Rightarrow> case nat_scan False ds of
     Some (v, b, n, []) \<Rightarrow> Some (if neg then - int v else int v) | _ \<Rightarrow> None)"

definition frac_exp2 :: "nat \<Rightarrow> int \<Rightarrow> int" where
  "frac_exp2 b fc = (if fc < 0 then (if b = 8 then fc * 3 else if b = 16 then fc * 4 else fc) else 0)"

definition frac_exp5 :: "nat \<Rightarrow> int \<Rightarrow> int" where
  "frac_exp5 b fc = (if fc < 0 \<and> b = 10 then fc else 0)"

definition float_set_string :: "go_string \<Rightarrow> rat option" where
  "float_set_string s = (case scan_sign s of (neg, ds) \<Rightarrow> case nat_scan True ds of
     None \<Rightarrow> None
   | Some (v, b, fc, rest) \<Rightarrow> (case scan_exponent rest of
       Some (ex, eb, []) \<Rightarrow>
         (let exp5 = frac_exp5 b fc + (if eb = 10 then ex else 0); exp2 = frac_exp2 b fc + ex in
          if v = 0 then Some 0
          else if \<bar>exp5\<bar> > 1000000 \<or> \<bar>exp2\<bar> > 10000000 then None
          else Some ((if neg then - of_nat v else of_nat v) * 5 powi exp5 * 2 powi exp2))
     | _ \<Rightarrow> None))"

definition set_string :: "go_string \<Rightarrow> rat option" where
  "set_string s = (if CHR ''/'' \<in> set s then
     (let num = takeWhile (\<lambda>c. c \<noteq> CHR ''/'') s; den = tl (dropWhile (\<lambda>c. c \<noteq> CHR ''/'') s) in
      case int_set_string num of None \<Rightarrow> None
      | Some a \<Rightarrow> (case nat_scan False den of
          Some (b, _, _, []) \<Rightarrow> if b = 0 then None else Some (of_int a / of_nat b)
        | _ \<Rightarrow> None))
     else float_set_string s)"

section \<open>The round trip\<close>

lemma of_char_digit: "d < 10 \<Longrightarrow> (of_char (digit_char d) :: nat) = 48 + d"
  by (simp add: digit_char_def)

lemma digit_val_digit [simp]: "d < 10 \<Longrightarrow> digit_val (digit_char d) = d"
  by (simp add: digit_val_def of_char_digit)

definition is_digit :: "char \<Rightarrow> bool" where
  "is_digit c \<longleftrightarrow> 48 \<le> (of_char c :: nat) \<and> (of_char c :: nat) \<le> 57"

lemma is_digit_char [simp]: "d < 10 \<Longrightarrow> is_digit (digit_char d)"
  by (simp add: is_digit_def of_char_digit)

lemma is_digit_not:
  assumes "is_digit c"
  shows "c \<noteq> CHR ''.''" "c \<noteq> CHR ''_''" "c \<noteq> CHR ''/''" "c \<noteq> CHR ''-''" "c \<noteq> CHR ''+''" "digit_val c < 10"
    "c \<notin> {CHR ''b'', CHR ''B''}" "c \<notin> {CHR ''o'', CHR ''O''}" "c \<notin> {CHR ''x'', CHR ''X''}"
  using assms by (auto simp: is_digit_def digit_val_def)

lemma show_nat_digits: "\<forall>c \<in> set (show_nat n). is_digit c"
proof (induction n rule: show_nat.induct)
  case (1 n)
  then show ?case by (cases "n < 10") (auto simp: show_nat.simps [of n])
qed

lemma show_nat_not_empty [simp]: "show_nat n \<noteq> []"
  by (simp add: show_nat.simps [of n])

lemma show_int_not_empty [simp]: "show_int n \<noteq> []"
  by (simp add: show_int_def)

lemma digit_char_zero [simp]: "digit_char 0 = CHR ''0''"
  by code_simp

lemma digit_char_0: "d < 10 \<Longrightarrow> digit_char d = CHR ''0'' \<longleftrightarrow> d = 0"
  using of_char_digit [of d] of_char_digit [of 0] by auto

lemma hd_show_nat: "0 < n \<Longrightarrow> hd (show_nat n) \<noteq> CHR ''0''"
proof (induction n rule: show_nat.induct)
  case (1 n)
  then show ?case by (cases "n < 10") (auto simp: show_nat.simps [of n] digit_char_0 hd_append)
qed

text \<open>Reading digits in base 10.\<close>

definition read_digits :: "scan_state \<Rightarrow> go_string \<Rightarrow> scan_state" where
  "read_digits s ds = (if ds = [] then s else
     s\<lparr>sc_value := foldl (\<lambda>v c. v * 10 + digit_val c) (sc_value s) ds,
       sc_count := sc_count s + length ds, sc_digit := True, sc_sep := False\<rparr>)"

lemma scan_digits_read:
  assumes "\<forall>c \<in> set ds. is_digit c"
  shows "scan_digits 10 fr s ds = (read_digits s ds, [])"
  using assms
proof (induction ds arbitrary: s)
  case Nil
  then show ?case by (simp add: read_digits_def)
next
  case (Cons c ds)
  then have c: "c \<noteq> CHR ''.''" "c \<noteq> CHR ''_''" "digit_val c < 10" using is_digit_not by auto
  from Cons show ?case by (simp add: c read_digits_def)
qed

lemma value_show_nat: "foldl (\<lambda>v c. v * 10 + digit_val c) 0 (show_nat n) = n"
proof (induction n rule: show_nat.induct)
  case (1 n)
  then show ?case by (cases "n < 10") (auto simp: show_nat.simps [of n])
qed

lemma nat_scan_show:
  "\<exists>b k. nat_scan fr (show_nat n) = Some (n, b, int k, []) \<and> b \<in> {8, 10}"
proof (cases "n < 10")
  case True
  then have [simp]: "show_nat n = [digit_char n]" by (simp add: show_nat.simps [of n])
  show ?thesis
  proof (cases "n = 0")
    case True
    moreover have "show_nat 0 = ''0''" by (simp add: show_nat.simps [of 0])
    ultimately show ?thesis using True by (auto intro: exI [of _ "1::nat"])
  next
    case False
    have "\<forall>c \<in> set [digit_char n]. is_digit c" using True by simp
    from scan_digits_read [OF this] False True show ?thesis
      by (simp add: digit_char_0 read_digits_def scan_init_def scan_finish_def)
  qed
next
  case False
  then have "show_nat n = show_nat (n div 10) @ [digit_char (n mod 10)]" by (simp add: show_nat.simps [of n])
  moreover have "show_nat (n div 10) \<noteq> []" by simp
  ultimately obtain c d cs where sn: "show_nat n = c # d # cs"
    by (metis append_Cons append_is_Nil_conv list.exhaust not_Cons_self2)
  have "c \<noteq> CHR ''0''" using hd_show_nat [of n] False by (simp add: sn)
  moreover have "scan_digits 10 fr (scan_init 0 False) (c # d # cs) = (read_digits (scan_init 0 False) (c # d # cs), [])"
    using show_nat_digits [of n] by (intro scan_digits_read) (simp add: sn)
  moreover have "foldl (\<lambda>v c. v * 10 + digit_val c) 0 (c # d # cs) = n"
    using value_show_nat [of n] by (simp add: sn)
  ultimately have "nat_scan fr (show_nat n) = Some (n, 10, int (length (c # d # cs)), [])"
    by (simp add: sn read_digits_def scan_init_def scan_finish_def del: scan_digits.simps)
  then show ?thesis by blast
qed

lemma scan_sign_show_nat: "scan_sign (show_nat n) = (False, show_nat n)"
proof -
  obtain c cs where sn: "show_nat n = c # cs" by (cases "show_nat n") auto
  then have "is_digit c" using show_nat_digits [of n] by simp
  then show ?thesis using is_digit_not [of c] by (simp add: sn)
qed

lemma int_set_string_show: "int_set_string (show_int i) = Some i"
  using nat_scan_show [of False "nat i"] nat_scan_show [of False "nat (- i)"]
  by (auto simp: int_set_string_def show_int_def scan_sign_show_nat)

lemma no_slash_show_nat: "CHR ''/'' \<notin> set (show_nat n)"
  using show_nat_digits [of n] is_digit_not(3) by blast

lemma no_slash_show_int: "CHR ''/'' \<notin> set (show_int i)"
  using no_slash_show_nat by (auto simp: show_int_def)

lemma float_set_string_show: "float_set_string (show_int i) = Some (of_int i)"
proof -
  obtain b k where p: "nat_scan True (show_nat (nat \<bar>i\<bar>)) = Some (nat \<bar>i\<bar>, b, int k, [])"
    using nat_scan_show by blast
  show ?thesis
    using p by (cases "i < 0") (auto simp: float_set_string_def show_int_def scan_sign_show_nat frac_exp5_def frac_exp2_def Let_def)
qed

text \<open>\<open>SetString\<close> reads back exactly what \<open>RatString\<close> wrote.\<close>

lemma set_string_rat_string [simp]: "set_string (rat_string r) = Some r"
proof -
  obtain a b where q: "quotient_of r = (a, b)" by (cases "quotient_of r")
  have b: "0 < b" and r: "r = of_int a / of_int b"
    using quotient_of_denom_pos [OF q] quotient_of_div [OF q] by auto
  show ?thesis
  proof (cases "b = 1")
    case True
    then show ?thesis
      using no_slash_show_int [of a] float_set_string_show [of a] by (simp add: rat_string_def set_string_def q r)
  next
    case False
    let ?s = "show_int a @ ''/'' @ show_nat (nat b)"
    have s: "rat_string r = ?s" using False b by (simp add: rat_string_def q show_int_def)
    have "\<forall>c \<in> set (show_int a). c \<noteq> CHR ''/''" using no_slash_show_int by blast
    then have num: "takeWhile (\<lambda>c. c \<noteq> CHR ''/'') ?s = show_int a"
      and den: "tl (dropWhile (\<lambda>c. c \<noteq> CHR ''/'') ?s) = show_nat (nat b)"
      by (simp_all add: takeWhile_append2 dropWhile_append2)
    obtain bs k where "nat_scan False (show_nat (nat b)) = Some (nat b, bs, int k, [])"
      using nat_scan_show by blast
    with b show ?thesis
      unfolding s set_string_def Let_def num den by (simp add: int_set_string_show r)
  qed
qed

lemma rat_string_inject [simp]: "rat_string r = rat_string s \<longleftrightarrow> r = s"
  by (metis option.inject set_string_rat_string)

lemma rat_string_not_empty [simp]: "rat_string r \<noteq> []"
  by (cases "quotient_of r") (simp add: rat_string_def)

section \<open>The codec interface\<close>

text \<open>What a persisted rational field needs of its rendering and its parser.\<close>

locale rat_codec =
  fixes render :: "rat \<Rightarrow> go_string" and parse :: "go_string \<Rightarrow> rat option"
  assumes parse_render: "parse (render r) = Some r"
    and render_not_empty: "render r \<noteq> []"
begin

lemma render_inject: "render r = render s \<longleftrightarrow> r = s"
  by (metis option.inject parse_render)

text \<open>A sum of amounts is preserved by persisting and reloading each of them.\<close>

lemma stored_sum: "sum_list (map (\<lambda>s. the (parse s)) (map render rs)) = sum_list rs"
  by (simp add: parse_render o_def)

end

interpretation ratio: rat_codec rat_string set_string
  by unfold_locales simp_all

section \<open>Decimals\<close>

lemma pad_digits_digits: "\<forall>c \<in> set (pad_digits p n). is_digit c"
  by (induction p n rule: pad_digits.induct) auto

lemma length_pad_digits [simp]: "length (pad_digits p n) = p"
  by (induction p n rule: pad_digits.induct) auto

lemma value_pad_digits: "foldl (\<lambda>v c. v * 10 + digit_val c) v (pad_digits p n) = v * 10 ^ p + n mod 10 ^ p"
proof (induction p n arbitrary: v rule: pad_digits.induct)
  case (1 n)
  then show ?case by simp
next
  case (2 p n)
  have "n mod 10 ^ Suc p = 10 * (n div 10 mod 10 ^ p) + n mod 10" by (simp add: mod_mult2_eq)
  with 2 show ?case by (simp add: algebra_simps)
qed

text \<open>The digit loop over digits, a radix point and digits.\<close>

lemma scan_digits_append:
  assumes "\<forall>c \<in> set ds. is_digit c"
  shows "scan_digits 10 fr s (ds @ cs) = scan_digits 10 fr (read_digits s ds) cs"
  using assms
proof (induction ds arbitrary: s)
  case Nil
  then show ?case by (simp add: read_digits_def)
next
  case (Cons c ds)
  then have c: "c \<noteq> CHR ''.''" "c \<noteq> CHR ''_''" "digit_val c < 10" using is_digit_not by auto
  from Cons show ?case by (simp add: c read_digits_def)
qed

lemma scan_digits_point:
  assumes a: "\<forall>c \<in> set as. is_digit c" and b: "\<forall>c \<in> set bs. is_digit c"
    and s: "\<not> sc_bad s" "\<not> sc_sep s"
    and v: "foldl (\<lambda>v c. v * 10 + digit_val c) (sc_value s) (as @ bs) = v"
    and n: "0 < sc_count s + length as + length bs" "bs \<noteq> []"
  shows "scan_finish False 10 (scan_digits 10 True s (as @ CHR ''.'' # bs)) = Some (v, 10, - int (length bs), [])"
proof -
  let ?t = "read_digits s as"
  have t: "\<not> sc_bad ?t" "\<not> sc_sep ?t" "sc_count ?t = sc_count s + length as"
    "sc_value ?t = foldl (\<lambda>v c. v * 10 + digit_val c) (sc_value s) as"
    using s by (auto simp: read_digits_def)
  have "scan_digits 10 True s (as @ CHR ''.'' # bs)
     = scan_digits 10 False (?t\<lparr>sc_bad := sc_bad ?t \<or> sc_sep ?t, sc_digit := False, sc_sep := False, sc_dp := Some (sc_count ?t)\<rparr>) bs"
    by (simp add: scan_digits_append [OF a])
  also have "\<dots> = (read_digits (?t\<lparr>sc_bad := sc_bad ?t \<or> sc_sep ?t, sc_digit := False, sc_sep := False, sc_dp := Some (sc_count ?t)\<rparr>) bs, [])"
    by (rule scan_digits_read [OF b])
  finally show ?thesis using t n v by (simp add: scan_finish_def read_digits_def [of _ bs])
qed

lemma nat_scan_decimal:
  assumes "0 < p"
  shows "nat_scan True (show_nat q @ CHR ''.'' # pad_digits p r) = Some (q * 10 ^ p + r mod 10 ^ p, 10, - int p, [])"
proof -
  let ?bs = "pad_digits p r"
  have b: "\<forall>c \<in> set ?bs. is_digit c" and ne: "?bs \<noteq> []" and v: "foldl (\<lambda>v c. v * 10 + digit_val c) 0 (show_nat q @ ?bs) = q * 10 ^ p + r mod 10 ^ p"
    using pad_digits_digits assms length_pad_digits [of p r] by (auto simp: value_show_nat value_pad_digits simp del: length_pad_digits)
  show ?thesis
  proof (cases "q = 0")
    case True
    have z: "show_nat 0 = ''0''" by (simp add: show_nat.simps [of 0])
    have "foldl (\<lambda>v c. v * 10 + digit_val c) 0 ?bs = r mod 10 ^ p" by (simp add: value_pad_digits)
    with scan_digits_point [of "[]" ?bs "scan_init 1 True"] b ne assms show ?thesis
      by (simp add: True z scan_init_def)
  next
    case False
    obtain c cs where sn: "show_nat q = c # cs" by (cases "show_nat q") auto
    then have "c \<noteq> CHR ''0''" using hd_show_nat [of q] False by simp
    moreover obtain d ds where "cs @ CHR ''.'' # ?bs = d # ds" by (cases "cs @ CHR ''.'' # ?bs") auto
    ultimately have "nat_scan True (show_nat q @ CHR ''.'' # ?bs)
        = scan_finish False 10 (scan_digits 10 True (scan_init 0 False) (show_nat q @ CHR ''.'' # ?bs))"
      by (simp add: sn del: scan_digits.simps)
    with scan_digits_point [of "show_nat q" ?bs "scan_init 0 False", OF _ b _ _ _ _ ne] show_nat_digits [of q] v show ?thesis
      by (simp add: scan_init_def del: foldl_append)
  qed
qed

definition scaled_rat :: "nat \<Rightarrow> bool \<Rightarrow> nat \<Rightarrow> rat" where
  "scaled_rat p neg m = (if neg then - (of_nat m / 10 ^ p) else of_nat m / 10 ^ p)"

lemma pow10_split: "(5::rat) powi (- int p) * 2 powi (- int p) = 1 / 10 ^ p"
  by (simp add: power_int_minus power_int_of_nat divide_inverse power_mult_distrib [symmetric] flip: inverse_mult_distrib)

lemma set_string_scaled:
  assumes "0 < p" and "p \<le> 1000000"
  shows "set_string (show_scaled p neg m) = Some (scaled_rat p neg m)"
proof -
  let ?t = "show_nat (m div 10 ^ p) @ CHR ''.'' # pad_digits p (m mod 10 ^ p)"
  have s: "show_scaled p neg m = (if neg then ''-'' else []) @ ?t" using assms by (simp add: show_scaled_def)
  have "CHR ''/'' \<notin> set (pad_digits p (m mod 10 ^ p))" using pad_digits_digits is_digit_not(3) by blast
  then have nos: "CHR ''/'' \<notin> set (show_scaled p neg m)" using no_slash_show_nat by (auto simp: s)
  have sgn: "scan_sign (show_scaled p neg m) = (neg, ?t)"
  proof (cases neg)
    case False
    obtain c cs where sn: "show_nat (m div 10 ^ p) = c # cs" by (cases "show_nat (m div 10 ^ p)") auto
    then have "is_digit c" using show_nat_digits [of "m div 10 ^ p"] by simp
    with False show ?thesis unfolding s using is_digit_not [of c] by (simp add: sn)
  qed (simp add: show_scaled_def assms s)
  have n: "nat_scan True ?t = Some (m, 10, - int p, [])"
    using nat_scan_decimal [OF assms(1), of "m div 10 ^ p" "m mod 10 ^ p"] by (simp only: mod_mod_trivial div_mult_mod_eq)
  have "float_set_string (show_scaled p neg m) = Some (scaled_rat p neg m)"
    using assms
    by (simp add: float_set_string_def sgn n frac_exp5_def frac_exp2_def scaled_rat_def Let_def mult.assoc pow10_split)
  with nos show ?thesis by (simp add: set_string_def)
qed

lemma digit_chars [simp]:
  "digit_char (Suc 0) = CHR ''1''" "digit_char 2 = CHR ''2''" "digit_char 3 = CHR ''3''" "digit_char 4 = CHR ''4''"
  "digit_char 5 = CHR ''5''" "digit_char 6 = CHR ''6''" "digit_char 7 = CHR ''7''" "digit_char 8 = CHR ''8''"
  "digit_char 9 = CHR ''9''"
  by code_simp+

end
