(* ===== verification/Go_Text.thy ===== *)
theory Go_Text
  imports Go_Fmt
begin

text \<open>
  The string and date routines of the standard library the code uses: \<open>strings.TrimSpace\<close>,
  \<open>strings.EqualFold\<close> against an ASCII word, \<open>strings.SplitN(s, ".", 2)\<close> and the
  \<open>2006-01-02\<close> date layout; and the arguments of a formatted message.
\<close>

section \<open>White space\<close>

text \<open>The UTF-8 encodings of the characters \<open>unicode.IsSpace\<close> accepts.\<close>

definition go_spaces :: "go_string list" where
  "go_spaces = map (map char_of) ([[9], [10], [11], [12], [13], [32], [194, 133], [194, 160], [225, 154, 128],
     [226, 128, 168], [226, 128, 169], [226, 128, 175], [226, 129, 159], [227, 128, 128]]
     @ map (\<lambda>k. [226, 128, 128 + k]) [0 ..< 11] :: nat list list)"

definition starts_with :: "go_string \<Rightarrow> go_string \<Rightarrow> bool" where
  "starts_with s p \<longleftrightarrow> take (length p) s = p"

function strip_left :: "go_string list \<Rightarrow> go_string \<Rightarrow> go_string" where
  "strip_left ps s = (case List.find (\<lambda>p. p \<noteq> [] \<and> starts_with s p) ps of
     None \<Rightarrow> s | Some p \<Rightarrow> strip_left ps (drop (length p) s))"
  by pat_completeness auto
termination
proof (relation "measure (length o snd)")
  fix ps :: "go_string list" and s p :: go_string
  assume "List.find (\<lambda>p. p \<noteq> [] \<and> starts_with s p) ps = Some p"
  then have "p \<noteq> []" and "take (length p) s = p" by (auto simp: find_Some_iff starts_with_def)
  then have "s \<noteq> []" by auto
  with \<open>p \<noteq> []\<close> show "((ps, drop (length p) s), ps, s) \<in> measure (length o snd)" by simp
qed simp

declare strip_left.simps [simp del]

definition trim_space :: "go_string \<Rightarrow> go_string" where
  "trim_space s = rev (strip_left (map rev go_spaces) (rev (strip_left go_spaces s)))"

lemma strip_left_nil [simp]: "strip_left ps [] = []"
  by (subst strip_left.simps) (auto split: option.splits simp: find_Some_iff starts_with_def)

lemma trim_space_nil [simp]: "trim_space [] = []"
  by (simp add: trim_space_def)

text \<open>Text that starts and ends with printable ASCII is not changed.\<close>

definition printable :: "char \<Rightarrow> bool" where
  "printable c \<longleftrightarrow> 33 \<le> (of_char c :: nat) \<and> (of_char c :: nat) \<le> 126"

lemma go_spaces_not_printable:
  "\<forall>p \<in> set go_spaces. p \<noteq> [] \<and> \<not> printable (hd p) \<and> \<not> printable (last p)"
  unfolding go_spaces_def printable_def by (simp add: upt_rec)

lemma strip_left_printable:
  assumes "\<forall>p \<in> set ps. p \<noteq> [] \<longrightarrow> \<not> printable (hd p)" and "printable c"
  shows "strip_left ps (c # s) = c # s"
proof -
  have "List.find (\<lambda>p. p \<noteq> [] \<and> starts_with (c # s) p) ps = None"
    unfolding find_None_iff_all
  proof (intro ballI notI)
    fix p assume "p \<in> set ps" "p \<noteq> [] \<and> starts_with (c # s) p"
    from \<open>p \<noteq> [] \<and> starts_with (c # s) p\<close> have "p \<noteq> []" and "take (length p) (c # s) = p"
      by (auto simp: starts_with_def)
    then have "hd p = c" by (metis hd_take length_greater_0_conv list.sel(1))
    then show False using assms \<open>p \<in> set ps\<close> \<open>p \<noteq> []\<close> by auto
  qed
  then show ?thesis by (subst strip_left.simps) simp
qed

lemma trim_space_printable:
  assumes "s \<noteq> []" and "printable (hd s)" and "printable (last s)"
  shows "trim_space s = s"
proof -
  have l: "strip_left go_spaces s = s"
    using strip_left_printable [of go_spaces "hd s" "tl s"] go_spaces_not_printable assms by (cases s) auto
  have "\<forall>p \<in> set (map rev go_spaces). p \<noteq> [] \<longrightarrow> \<not> printable (hd p)"
    using go_spaces_not_printable by (auto simp: hd_rev)
  then have "strip_left (map rev go_spaces) (rev s) = rev s"
    using strip_left_printable [of "map rev go_spaces" "hd (rev s)" "tl (rev s)"] assms by (cases "rev s") (auto simp: hd_rev)
  with l show ?thesis by (simp add: trim_space_def)
qed

section \<open>Case folding and splitting\<close>

definition ascii_lower :: "char \<Rightarrow> char" where
  "ascii_lower c = (let n = (of_char c :: nat) in if 65 \<le> n \<and> n \<le> 90 then char_of (n + 32) else c)"

text \<open>
  \<open>strings.EqualFold\<close> of two strings: ASCII case, and the two non-ASCII characters that fold to
  an ASCII letter (long s and the Kelvin sign). Other non-ASCII letters compare exactly.
\<close>

fun fold_key :: "go_string \<Rightarrow> go_string" where
  "fold_key (a # b # c # s) =
    (if map of_char [a, b] = [197, 191 :: nat] then CHR ''s'' # fold_key (c # s)
     else if map of_char [a, b, c] = [226, 132, 170 :: nat] then CHR ''k'' # fold_key s
     else ascii_lower a # fold_key (b # c # s))"
| "fold_key [a, b] = (if map of_char [a, b] = [197, 191 :: nat] then ''s'' else [ascii_lower a, ascii_lower b])"
| "fold_key [a] = [ascii_lower a]"
| "fold_key [] = []"

definition equal_fold :: "go_string \<Rightarrow> go_string \<Rightarrow> bool" where
  "equal_fold s t \<longleftrightarrow> fold_key s = fold_key t"

text \<open>\<open>strings.SplitN(s, ".", 2)\<close> when the separator occurs, \<open>None\<close> otherwise.\<close>

definition cut_at :: "char \<Rightarrow> go_string \<Rightarrow> (go_string \<times> go_string) option" where
  "cut_at c s = (if c \<in> set s then Some (takeWhile (\<lambda>x. x \<noteq> c) s, tl (dropWhile (\<lambda>x. x \<noteq> c) s)) else None)"

lemma cut_at_Some: "cut_at c s = Some (a, b) \<Longrightarrow> s = a @ c # b \<and> c \<notin> set a"
proof -
  assume "cut_at c s = Some (a, b)"
  then have c: "c \<in> set s" and a: "a = takeWhile (\<lambda>x. x \<noteq> c) s" and b: "b = tl (dropWhile (\<lambda>x. x \<noteq> c) s)"
    by (auto simp: cut_at_def split: if_splits)
  have "dropWhile (\<lambda>x. x \<noteq> c) s \<noteq> []" using c by (simp add: dropWhile_eq_Nil_conv)
  then obtain y ys where y: "dropWhile (\<lambda>x. x \<noteq> c) s = y # ys" by (cases "dropWhile (\<lambda>x. x \<noteq> c) s") auto
  then have "y = c" using hd_dropWhile [of "\<lambda>x. x \<noteq> c" s] by auto
  with y have "s = a @ c # b" using takeWhile_dropWhile_id [of "\<lambda>x. x \<noteq> c" s] by (simp add: a b)
  moreover have "c \<notin> set a" unfolding a using set_takeWhileD by fastforce
  ultimately show ?thesis by blast
qed

lemma cut_at_append: "c \<notin> set a \<Longrightarrow> cut_at c (a @ c # b) = Some (a, b)"
  by (simp add: cut_at_def) (metis (mono_tags, lifting) dropWhile.simps(2) dropWhile_append2 list.sel(3) takeWhile.simps(2) takeWhile_append2 append_Nil2)

section \<open>Dates\<close>

text \<open>Year, month and day of a day number counted from 0001-01-01 (proleptic Gregorian).\<close>

definition civil_date :: "int \<Rightarrow> int \<times> int \<times> int" where
  "civil_date days =
    (let z = days + 306; era = z div 146097; doe = z mod 146097;
         yoe = (doe - doe div 1460 + doe div 36524 - doe div 146096) div 365;
         doy = doe - (365 * yoe + yoe div 4 - yoe div 100);
         mp = (5 * doy + 2) div 153;
         d = doy - (153 * mp + 2) div 5 + 1;
         m = (if mp < 10 then mp + 3 else mp - 9)
     in ((yoe + era * 400) + (if m \<le> 2 then 1 else 0), m, d))"

definition format_date :: "go_time \<Rightarrow> go_string" where
  "format_date t = (case civil_date (t div day_ns) of (y, m, d) \<Rightarrow>
     (if y < 0 then ''-'' else []) @ pad_digits 4 (nat \<bar>y\<bar>) @ ''-'' @ pad_digits 2 (nat m) @ ''-'' @ pad_digits 2 (nat d))"

section \<open>Formatted messages\<close>

datatype fmt_arg = ArgS go_string | ArgI int | ArgF float64 | ArgR rat

text \<open>
  \<open>strconv.Quote\<close> (the \<open>%q\<close> verb): the escapes of the ASCII characters; the bytes of a
  multi-byte character are kept, as they are for valid printable text.
\<close>

definition hex_char :: "nat \<Rightarrow> char" where
  "hex_char d = (if d < 10 then digit_char d else char_of (87 + d))"

definition quote_char :: "char \<Rightarrow> go_string" where
  "quote_char c = (let n = (of_char c :: nat) in
     if n = 34 \<or> n = 92 then [char_of (92 :: nat), c]
     else if n = 7 then [char_of (92 :: nat), CHR ''a'']
     else if n = 8 then [char_of (92 :: nat), CHR ''b'']
     else if n = 9 then [char_of (92 :: nat), CHR ''t'']
     else if n = 10 then [char_of (92 :: nat), CHR ''n'']
     else if n = 11 then [char_of (92 :: nat), CHR ''v'']
     else if n = 12 then [char_of (92 :: nat), CHR ''f'']
     else if n = 13 then [char_of (92 :: nat), CHR ''r'']
     else if n < 32 \<or> n = 127 then [char_of (92 :: nat), CHR ''x'', hex_char (n div 16), hex_char (n mod 16)]
     else [c])"

definition go_quote :: "go_string \<Rightarrow> go_string" where
  "go_quote s = [char_of (34 :: nat)] @ concat (map quote_char s) @ [char_of (34 :: nat)]"

text \<open>
  \<open>fmt.Sprintf\<close> for the verbs the code uses: \<open>%s\<close>, \<open>%v\<close>, \<open>%w\<close> and \<open>%d\<close> print an argument
  as it is, \<open>%q\<close> quotes a string, \<open>%.nf\<close> prints a float with \<open>n\<close> decimals.
\<close>

fun plain_arg :: "fmt_arg \<Rightarrow> go_string" where
  "plain_arg (ArgS s) = s"
| "plain_arg (ArgI i) = show_int i"
| "plain_arg (ArgF x) = fmt_fixed 6 x"
| "plain_arg (ArgR r) = rat_string r"

fun fixed_arg :: "nat \<Rightarrow> fmt_arg \<Rightarrow> go_string" where
  "fixed_arg n (ArgF x) = fmt_fixed n x"
| "fixed_arg n a = plain_arg a"

fun sprintf :: "go_string \<Rightarrow> fmt_arg list \<Rightarrow> go_string" where
  "sprintf [] as = []"
| "sprintf [c] as = [c]"
| "sprintf (c # v # s) as =
    (if c \<noteq> CHR ''%'' then c # sprintf (v # s) as
     else if v = CHR ''%'' then v # sprintf s as
     else (case as of
       [] \<Rightarrow> c # v # sprintf s []
     | a # as' \<Rightarrow>
         if v = CHR ''.'' then (case s of
             d # f # s' \<Rightarrow> fixed_arg (digit_val d) a @ sprintf s' as'
           | _ \<Rightarrow> plain_arg a)
         else if v = CHR ''q'' then go_quote (plain_arg a) @ sprintf s as'
         else plain_arg a @ sprintf s as'))"

lemma sprintf_not_empty: "c \<noteq> CHR ''%'' \<Longrightarrow> sprintf (c # s) as \<noteq> []"
  by (cases s) auto

section \<open>Errors\<close>

text \<open>
  A non-nil \<open>error\<close>: a package-level sentinel (\<open>errors.New\<close>), an error of the AWS SDK, or a
  message of \<open>fmt.Errorf\<close> with the errors its \<open>%w\<close> verbs wrap.
\<close>

record sdk_error =
  sdk_text :: go_string
  sdk_code :: "go_string option"
  sdk_status :: "int option"

datatype go_error = Sentinel go_string | SdkError sdk_error | ErrT go_string "go_error list"

fun err_text :: "go_error \<Rightarrow> go_string" where
  "err_text (Sentinel t) = t"
| "err_text (SdkError e) = sdk_text e"
| "err_text (ErrT t ws) = t"

definition errorf :: "go_string \<Rightarrow> fmt_arg list \<Rightarrow> go_error" where
  "errorf f as = ErrT (sprintf f as) []"

definition wrapf :: "go_string \<Rightarrow> fmt_arg list \<Rightarrow> go_error list \<Rightarrow> go_error" where
  "wrapf f as ws = ErrT (sprintf f as) ws"

text \<open>\<open>errors.Is\<close> for a sentinel, and \<open>errors.As\<close> for the API code and the HTTP status: the first in the tree.\<close>

fun err_is :: "go_string \<Rightarrow> go_error \<Rightarrow> bool" where
  "err_is t (Sentinel u) = (t = u)"
| "err_is t (SdkError e) = False"
| "err_is t (ErrT m ws) = (\<exists>w \<in> set ws. err_is t w)"

fun first_some :: "'a option list \<Rightarrow> 'a option" where
  "first_some [] = None"
| "first_some (None # xs) = first_some xs"
| "first_some (Some x # xs) = Some x"

fun err_api_code :: "go_error \<Rightarrow> go_string option" where
  "err_api_code (Sentinel u) = None"
| "err_api_code (SdkError e) = sdk_code e"
| "err_api_code (ErrT m ws) = first_some (map err_api_code ws)"

fun err_http_status :: "go_error \<Rightarrow> int option" where
  "err_http_status (Sentinel u) = None"
| "err_http_status (SdkError e) = sdk_status e"
| "err_http_status (ErrT m ws) = first_some (map err_http_status ws)"

lemma err_is_wrapf [simp]: "err_is t (wrapf f as ws) \<longleftrightarrow> (\<exists>w \<in> set ws. err_is t w)"
  by (simp add: wrapf_def)

lemma err_is_errorf [simp]: "\<not> err_is t (errorf f as)"
  by (simp add: errorf_def)

end
