(* ===== verification/Ladder_Types.thy ===== *)
theory Ladder_Types
  imports Go_Text
begin

text \<open>
  \<open>pkg/ladder/types.go\<close> and the basis of \<open>allocate_residual.go\<close>: the string enums with
  their validators and parsers, the run configuration with its range checks, and the
  provider data the allocator reads. Every enum is a Go string with named constants, so an
  unknown value is representable and has to be rejected.
\<close>

section \<open>Errors\<close>

text \<open>
  An error is what \<open>fmt.Errorf\<close> was called with, its format (without the explanatory tail
  some messages have) and its arguments, so two
  failures are the same exactly when the code reports the same message about the same
  values; \<open>Ctx\<close> is the wrapping \<open>fmt.Errorf("prefix: %w", err)\<close>.
\<close>

datatype ladder_error = Errorf go_string "fmt_arg list" | Ctx go_string ladder_error

definition ctx :: "go_string \<Rightarrow> ladder_error option \<Rightarrow> ladder_error option" where
  "ctx s e = map_option (Ctx s) e"

lemma ctx_None [simp, err_iff]: "ctx s e = None \<longleftrightarrow> e = None"
  by (simp add: ctx_def)

section \<open>Enums\<close>

type_synonym LayerType = go_string
type_synonym LayerRole = go_string
type_synonym ActionType = go_string
type_synonym LadderMode = go_string
type_synonym LadderCadence = go_string
type_synonym Term = go_string
type_synonym PaymentOption = go_string
type_synonym BaselineBasis = go_string

named_theorems enum_defs \<open>the named constants of the string enums\<close>

definition LayerEC2InstanceSP :: LayerType where [enum_defs]: "LayerEC2InstanceSP = ''ec2-instance-sp''"
definition LayerComputeSP :: LayerType where [enum_defs]: "LayerComputeSP = ''compute-sp''"
definition LayerConvertibleRI :: LayerType where [enum_defs]: "LayerConvertibleRI = ''convertible-ri''"
definition LayerAzureReservation :: LayerType where [enum_defs]: "LayerAzureReservation = ''azure-reservation''"
definition LayerAzureSavingsPlan :: LayerType where [enum_defs]: "LayerAzureSavingsPlan = ''azure-savings-plan''"
definition RoleBase :: LayerRole where [enum_defs]: "RoleBase = ''base''"
definition RoleFlex :: LayerRole where [enum_defs]: "RoleFlex = ''flex''"
definition RoleBuffer :: LayerRole where [enum_defs]: "RoleBuffer = ''buffer''"
definition ActionPurchase :: ActionType where [enum_defs]: "ActionPurchase = ''purchase''"
definition ActionReshape :: ActionType where [enum_defs]: "ActionReshape = ''reshape''"
definition ActionHold :: ActionType where [enum_defs]: "ActionHold = ''hold''"
definition ModeEmailApproval :: LadderMode where [enum_defs]: "ModeEmailApproval = ''email_approval''"
definition ModeAutoApprove :: LadderMode where [enum_defs]: "ModeAutoApprove = ''auto_approve''"
definition CadenceDaily :: LadderCadence where [enum_defs]: "CadenceDaily = ''daily''"
definition CadenceWeekly :: LadderCadence where [enum_defs]: "CadenceWeekly = ''weekly''"
definition Term1Year :: Term where [enum_defs]: "Term1Year = ''1yr''"
definition Term3Year :: Term where [enum_defs]: "Term3Year = ''3yr''"
definition PaymentAllUpfront :: PaymentOption where [enum_defs]: "PaymentAllUpfront = ''all-upfront''"
definition PaymentPartialUpfront :: PaymentOption where [enum_defs]: "PaymentPartialUpfront = ''partial-upfront''"
definition PaymentNoUpfront :: PaymentOption where [enum_defs]: "PaymentNoUpfront = ''no-upfront''"
definition BaselineBasisTotal :: BaselineBasis where [enum_defs]: "BaselineBasisTotal = ''total''"
definition BaselineBasisResidual :: BaselineBasis where [enum_defs]: "BaselineBasisResidual = ''residual''"
definition ProviderAWS :: go_string where [enum_defs]: "ProviderAWS = ''aws''"
definition ProviderAzure :: go_string where [enum_defs]: "ProviderAzure = ''azure''"
definition ProviderGCP :: go_string where [enum_defs]: "ProviderGCP = ''gcp''"

text \<open>The shape of every validator: a switch over the known constants.\<close>

definition known_value :: "go_string \<Rightarrow> go_string list \<Rightarrow> go_string \<Rightarrow> ladder_error option" where
  "known_value what known v = (if v \<in> set known then None else Some (Errorf (''unknown '' @ what @ '' %q'') [ArgS v]))"

text \<open>The shape of every parser: validate, then return the value or the empty string.\<close>

definition parse_enum :: "(go_string \<Rightarrow> ladder_error option) \<Rightarrow> go_string \<Rightarrow> ladder_error + go_string" where
  "parse_enum validate s = (case validate s of Some e \<Rightarrow> Inl e | None \<Rightarrow> Inr s)"

definition LayerType_Validate :: "LayerType \<Rightarrow> ladder_error option" where
  "LayerType_Validate = known_value ''layer type'' [LayerEC2InstanceSP, LayerComputeSP, LayerConvertibleRI,
     LayerAzureReservation, LayerAzureSavingsPlan]"

definition ParseLayerType :: "go_string \<Rightarrow> ladder_error + LayerType" where
  "ParseLayerType = parse_enum LayerType_Validate"

definition LayerRole_Validate :: "LayerRole \<Rightarrow> ladder_error option" where
  "LayerRole_Validate = known_value ''layer role'' [RoleBase, RoleFlex, RoleBuffer]"

definition ParseLayerRole :: "go_string \<Rightarrow> ladder_error + LayerRole" where
  "ParseLayerRole = parse_enum LayerRole_Validate"

definition ActionType_Validate :: "ActionType \<Rightarrow> ladder_error option" where
  "ActionType_Validate = known_value ''action type'' [ActionPurchase, ActionReshape, ActionHold]"

definition ParseActionType :: "go_string \<Rightarrow> ladder_error + ActionType" where
  "ParseActionType = parse_enum ActionType_Validate"

definition LadderMode_Validate :: "LadderMode \<Rightarrow> ladder_error option" where
  "LadderMode_Validate = known_value ''ladder mode'' [ModeEmailApproval, ModeAutoApprove]"

definition ParseLadderMode :: "go_string \<Rightarrow> ladder_error + LadderMode" where
  "ParseLadderMode = parse_enum LadderMode_Validate"

definition LadderCadence_Validate :: "LadderCadence \<Rightarrow> ladder_error option" where
  "LadderCadence_Validate = known_value ''ladder cadence'' [CadenceDaily, CadenceWeekly]"

definition ParseLadderCadence :: "go_string \<Rightarrow> ladder_error + LadderCadence" where
  "ParseLadderCadence = parse_enum LadderCadence_Validate"

definition Term_Validate :: "Term \<Rightarrow> ladder_error option" where
  "Term_Validate = known_value ''term'' [Term1Year, Term3Year]"

definition ParseTerm :: "go_string \<Rightarrow> ladder_error + Term" where
  "ParseTerm = parse_enum Term_Validate"

definition PaymentOption_Validate :: "PaymentOption \<Rightarrow> ladder_error option" where
  "PaymentOption_Validate = known_value ''payment option'' [PaymentAllUpfront, PaymentPartialUpfront, PaymentNoUpfront]"

definition ParsePaymentOption :: "go_string \<Rightarrow> ladder_error + PaymentOption" where
  "ParsePaymentOption = parse_enum PaymentOption_Validate"

definition BaselineBasis_Validate :: "BaselineBasis \<Rightarrow> ladder_error option" where
  "BaselineBasis_Validate = known_value ''baseline basis'' ['''', BaselineBasisTotal, BaselineBasisResidual]"

definition isResidual :: "BaselineBasis \<Rightarrow> bool" where
  "isResidual b = (b = BaselineBasisResidual)"

lemma known_value_None [simp, err_iff]: "known_value w ks v = None \<longleftrightarrow> v \<in> set ks"
  by (simp add: known_value_def)

lemma parse_enum_Inr [simp]: "parse_enum f s = Inr t \<longleftrightarrow> f s = None \<and> t = s"
  by (auto simp: parse_enum_def split: option.splits)

lemma parse_enum_Inl [simp]: "parse_enum f s = Inl e \<longleftrightarrow> f s = Some e"
  by (auto simp: parse_enum_def split: option.splits)

lemmas enum_validators = LayerType_Validate_def LayerRole_Validate_def ActionType_Validate_def
  LadderMode_Validate_def LadderCadence_Validate_def Term_Validate_def PaymentOption_Validate_def
  BaselineBasis_Validate_def

section \<open>Scope, ramp and configuration\<close>

record LayerSpec =
  Type :: LayerType
  Roles :: "LayerRole list"

record Scope =
  Provider :: go_string
  AccountID :: go_string

definition Scope_Validate :: "Scope \<Rightarrow> ladder_error option" where
  "Scope_Validate s = first_err [
     fail_if (Provider s \<notin> {ProviderAWS, ProviderAzure, ProviderGCP}) (Errorf ''unknown provider %q'' [ArgS (Provider s)]),
     fail_if (AccountID s = '''') (Errorf ''account ID is required'' [])]"

record RampStep =
  AfterDays :: int
  Fraction :: float64

record RampSchedule =
  Steps :: "RampStep list"

definition rampSumEpsilon :: float64 where
  "rampSumEpsilon = rnd (1 / 10 ^ 9)"

text \<open>The loop of \<open>RampSchedule.Validate\<close>: index, previous day, running sum.\<close>

fun ramp_loop :: "nat \<Rightarrow> int \<Rightarrow> float64 \<Rightarrow> RampStep list \<Rightarrow> ladder_error + float64" where
  "ramp_loop i prev s0 [] = Inr s0"
| "ramp_loop i prev s0 (s # ss) =
    (if AfterDays s \<le> prev then 
       Inl (Errorf ''ramp step %d: AfterDays %d must be strictly greater than previous %d''
         [ArgI (int i), ArgI (AfterDays s), ArgI prev])
     else if is_nan (Fraction s) \<or> \<not> (Fraction s > 0 \<and> Fraction s \<le> 1) then 
       Inl (Errorf ''ramp step %d: fraction %g must be in (0, 1]'' [ArgI (int i), ArgF (Fraction s)])
     else ramp_loop (i + 1) (AfterDays s) (s0 + Fraction s) ss)"

definition RampSchedule_Validate :: "RampSchedule \<Rightarrow> ladder_error option" where
  "RampSchedule_Validate r = (if Steps r = [] then Some (Errorf ''ramp schedule has no steps'' []) else
     case ramp_loop 0 (- 1) 0 (Steps r) of
       Inl e \<Rightarrow> Some e
     | Inr tot \<Rightarrow>
         if is_nan tot then Some (Errorf ''ramp step fractions sum to NaN'' [])
         else let diff = tot - 1 in
           if diff < - rampSumEpsilon \<or> diff > rampSumEpsilon then 
             Some (Errorf ''ramp step fractions sum to %g, must equal 1.0'' [ArgF tot]) else None)"

record LadderConfig =
  cfg_Scope :: Scope
  Mode :: LadderMode
  Cadence :: LadderCadence
  MaxHourlyCommitPerRun :: "float64 option"
  Ramp :: RampSchedule
  TargetCoveragePct :: float64
  BufferFraction :: float64
  BaselinePercentile :: float64
  cfg_LookbackDays :: int
  MaxActionsPerRun :: int
  BufferUtilizationThresholdPct :: float64

definition withinExclIncl :: "float64 \<Rightarrow> float64 \<Rightarrow> float64 \<Rightarrow> bool" where
  "withinExclIncl v lo hi \<longleftrightarrow> \<not> is_nan v \<and> v > lo \<and> v \<le> hi"

definition validateBaselineBounds :: "LadderConfig \<Rightarrow> ladder_error option" where
  "validateBaselineBounds c = first_err [
     fail_if (\<not> withinExclIncl (TargetCoveragePct c) 0 (Fin 100)) 
       (Errorf ''target_coverage_pct %g must be in (0, 100]'' [ArgF (TargetCoveragePct c)]),
     fail_if (is_nan (BufferFraction c) \<or> \<not> (BufferFraction c \<ge> 0 \<and> BufferFraction c < 1))
       (Errorf ''buffer_fraction %g must be in [0, 1)'' [ArgF (BufferFraction c)]),
     fail_if (\<not> withinExclIncl (BaselinePercentile c) 0 (Fin 50)) 
       (Errorf ''baseline_percentile %g must be in (0, 50]'' [ArgF (BaselinePercentile c)]),
     fail_if (cfg_LookbackDays c \<le> 0) (Errorf ''lookback_days %d must be > 0'' [ArgI (cfg_LookbackDays c)])]"

definition validateRunLimits :: "LadderConfig \<Rightarrow> ladder_error option" where
  "validateRunLimits c = first_err [
     (case MaxHourlyCommitPerRun c of None \<Rightarrow> None
      | Some v \<Rightarrow> fail_if (is_nan v \<or> is_inf v \<or> \<not> v > 0) 
        (Errorf ''max_hourly_commit_per_run %g must be a positive finite number'' [ArgF v])),
     fail_if (MaxActionsPerRun c \<le> 0) (Errorf ''max_actions_per_run %d must be > 0'' [ArgI (MaxActionsPerRun c)]),
     fail_if (\<not> withinExclIncl (BufferUtilizationThresholdPct c) 0 (Fin 100))
       (Errorf ''buffer_utilization_threshold_pct %g must be in (0, 100]''
         [ArgF (BufferUtilizationThresholdPct c)])]"

definition LadderConfig_Validate :: "LadderConfig \<Rightarrow> ladder_error option" where
  "LadderConfig_Validate c = first_err [
     ctx ''scope'' (Scope_Validate (cfg_Scope c)),
     validateBaselineBounds c,
     ctx ''mode'' (LadderMode_Validate (Mode c)),
     ctx ''cadence'' (LadderCadence_Validate (Cadence c)),
     ctx ''ramp'' (RampSchedule_Validate (Ramp c)),
     validateRunLimits c]"

section \<open>Provider data\<close>

record UsageBaseline =
  LowWaterUSDPerHour :: "float64 option"
  StableUSDPerHour :: "float64 option"
  Basis :: BaselineBasis
  Series :: "float64 list"
  LookbackDays :: int
  Percentile :: float64

record LayerState =
  ExistingUSDPerHour :: "float64 option"
  ExpiringUSDPerHour :: "float64 option"
  CoveragePct :: "float64 option"
  UtilizationPct :: "float64 option"
  st_Layer :: LayerType

section \<open>What the validators accept\<close>

lemma withinExclIncl_Fin [simp]:
  "withinExclIncl v (Fin lo) (Fin hi) \<longleftrightarrow> (\<exists>r. v = Fin r \<and> lo < r \<and> r \<le> hi)"
  by (cases v) (auto simp: withinExclIncl_def)

text \<open>A configured percentage or fraction that passed is a finite number in its range.\<close>

lemma unit_fraction [simp]:
  "\<not> is_nan v \<and> v > 0 \<and> v \<le> 1 \<longleftrightarrow> (\<exists>r. v = Fin r \<and> 0 < r \<and> r \<le> 1)"
  by (cases v) auto

definition ascending_days :: "int \<Rightarrow> RampStep list \<Rightarrow> bool" where
  "ascending_days prev ss \<longleftrightarrow> sorted_wrt (<) (prev # map AfterDays ss)"

definition float_total :: "float64 \<Rightarrow> RampStep list \<Rightarrow> float64" where
  "float_total s ss = foldl (+) s (map Fraction ss)"

lemma ramp_loop_Inr:
  "ramp_loop i prev s ss = Inr t \<longleftrightarrow> ascending_days prev ss
     \<and> (\<forall>x \<in> set ss. \<exists>r. Fraction x = Fin r \<and> 0 < r \<and> r \<le> 1) \<and> t = float_total s ss"
proof (induction ss arbitrary: i prev s)
  case Nil
  then show ?case by (auto simp: ascending_days_def float_total_def)
next
  case (Cons a ss)
  have asc: "ascending_days prev (a # ss) \<longleftrightarrow> prev < AfterDays a \<and> ascending_days (AfterDays a) ss"
    by (auto simp: ascending_days_def)
  have fr: "(is_nan (Fraction a) \<or> \<not> (Fraction a > 0 \<and> Fraction a \<le> 1))
      \<longleftrightarrow> \<not> (\<exists>r. Fraction a = Fin r \<and> 0 < r \<and> r \<le> 1)"
    by (cases "Fraction a") auto
  show ?case
    unfolding ramp_loop.simps fr using Cons.IH by (auto simp: asc float_total_def)
qed

lemma ramp_valid_iff [err_iff]:
  "RampSchedule_Validate r = None \<longleftrightarrow> Steps r \<noteq> [] \<and> ascending_days (- 1) (Steps r)
     \<and> (\<forall>x \<in> set (Steps r). \<exists>f. Fraction x = Fin f \<and> 0 < f \<and> f \<le> 1)
     \<and> (let tot = float_total 0 (Steps r) in tot \<noteq> NaN
          \<and> \<not> tot - 1 < - rampSumEpsilon \<and> \<not> tot - 1 > rampSumEpsilon)"
proof -
  have *: "(\<exists>t. ramp_loop 0 (- 1) 0 (Steps r) = Inr t \<and> Q t) \<longleftrightarrow> ascending_days (- 1) (Steps r)
     \<and> (\<forall>x \<in> set (Steps r). \<exists>f. Fraction x = Fin f \<and> 0 < f \<and> f \<le> 1) \<and> Q (float_total 0 (Steps r))" for Q
    unfolding ramp_loop_Inr by blast
  show ?thesis
    unfolding * [of "\<lambda>t. t \<noteq> NaN \<and> \<not> t - 1 < - rampSumEpsilon \<and> \<not> t - 1 > rampSumEpsilon", symmetric] Let_def
    by (auto simp: RampSchedule_Validate_def Let_def split: sum.splits)
qed

lemma scope_valid_iff [err_iff]:
  "Scope_Validate s = None \<longleftrightarrow> Provider s \<in> {ProviderAWS, ProviderAzure, ProviderGCP} \<and> AccountID s \<noteq> []"
  by (auto simp: Scope_Validate_def)

lemma baseline_bounds_iff [err_iff]:
  "validateBaselineBounds c = None \<longleftrightarrow>
     (\<exists>t. TargetCoveragePct c = Fin t \<and> 0 < t \<and> t \<le> 100) \<and> (\<exists>b. BufferFraction c = Fin b \<and> 0 \<le> b \<and> b < 1)
     \<and> (\<exists>p. BaselinePercentile c = Fin p \<and> 0 < p \<and> p \<le> 50) \<and> 0 < cfg_LookbackDays c"
  by (cases "BufferFraction c") (auto simp: validateBaselineBounds_def)

lemma positive_finite: "fail_if (is_nan v \<or> is_inf v \<or> \<not> v > 0) e = None \<longleftrightarrow> (\<exists>m. v = Fin m \<and> 0 < m)"
  by (cases v) simp_all

lemma run_limits_iff [err_iff]:
  "validateRunLimits c = None \<longleftrightarrow>
     (\<forall>v. MaxHourlyCommitPerRun c = Some v \<longrightarrow> (\<exists>m. v = Fin m \<and> 0 < m)) \<and> 0 < MaxActionsPerRun c
     \<and> (\<exists>u. BufferUtilizationThresholdPct c = Fin u \<and> 0 < u \<and> u \<le> 100)"
proof -
  have "(case MaxHourlyCommitPerRun c of None \<Rightarrow> None
      | Some v \<Rightarrow> fail_if (is_nan v \<or> is_inf v \<or> \<not> v > 0)  (Errorf ''max_hourly_commit_per_run %g must be a positive finite number'' [ArgF v])) = None
    \<longleftrightarrow> (\<forall>v. MaxHourlyCommitPerRun c = Some v \<longrightarrow> (\<exists>m. v = Fin m \<and> 0 < m))"
    by (cases "MaxHourlyCommitPerRun c") (simp_all only: option.case positive_finite option.inject, simp_all)
  then show ?thesis unfolding validateRunLimits_def first_err_None list.set ball_simps
    by (simp only: fail_if_None float_zero_simps withinExclIncl_Fin not_le not_not) simp
qed

end
