(* ===== verification/Ladder_Plan.thy ===== *)
theory Ladder_Plan
  imports Ladder_Types
begin

text \<open>
  \<open>pkg/ladder/plan.go\<close>: the planned actions and the plan, with their validators. A
  \<open>*big.Rat\<close> amount is a \<open>rat option\<close>, so a missing amount and a zero amount differ.
\<close>

record PlannedAction =
  Action :: ActionType
  pa_Layer :: LayerType
  pa_AmountUSDPerHour :: "rat option"
  pa_Term :: Term
  pa_PaymentOption :: PaymentOption
  pa_Rationale :: go_string
  pa_DataSources :: "go_string list"

definition validatePurchaseFields :: "PlannedAction \<Rightarrow> ladder_error option" where
  "validatePurchaseFields a = (case pa_AmountUSDPerHour a of
     None \<Rightarrow> Some (Errorf ''purchase action requires a non-nil AmountUSDPerHour'' [])
   | Some v \<Rightarrow> first_err [
       fail_if (v \<le> 0) (Errorf ''purchase action requires a positive AmountUSDPerHour, got %s'' [ArgS (rat_string v)]),
       ctx ''purchase action term'' (Term_Validate (pa_Term a)),
       ctx ''purchase action payment option'' (PaymentOption_Validate (pa_PaymentOption a))])"

definition PlannedAction_Validate :: "PlannedAction \<Rightarrow> ladder_error option" where
  "PlannedAction_Validate a = first_err [
     ctx ''action'' (ActionType_Validate (Action a)),
     ctx ''layer'' (LayerType_Validate (pa_Layer a)),
     fail_if (pa_Rationale a = '''') (Errorf ''rationale is required (money-path auditability)'' []),
     (if Action a = ActionPurchase then validatePurchaseFields a
      else if Action a \<in> {ActionHold, ActionReshape} then first_err [
        (case pa_AmountUSDPerHour a of None \<Rightarrow> None
         | Some v \<Rightarrow> Some (Errorf ''%s action requires nil AmountUSDPerHour, got %s'' [ArgS (Action a), ArgS (rat_string v)])),
        fail_if (pa_Term a \<noteq> '''' \<or> pa_PaymentOption a \<noteq> '''')
          (Errorf ''%s action requires empty Term and PaymentOption'' [ArgS (Action a)])]
      else None)]"

record LadderPlan =
  plan_Scope :: Scope
  GeneratedAt :: go_time
  TargetUSDPerHour :: "rat option"
  plan_ExistingUSDPerHour :: "rat option"
  plan_GapUSDPerHour :: "rat option"
  Actions :: "PlannedAction list"
  plan_Baseline :: UsageBaseline

text \<open>A validating loop over a slice: the first failing element, wrapped with its index.\<close>

fun each_valid :: "(nat \<Rightarrow> 'a \<Rightarrow> ladder_error option) \<Rightarrow> nat \<Rightarrow> 'a list \<Rightarrow> ladder_error option" where
  "each_valid f i [] = None"
| "each_valid f i (x # xs) = (case f i x of Some e \<Rightarrow> Some e | None \<Rightarrow> each_valid f (i + 1) xs)"

definition LadderPlan_Validate :: "LadderPlan \<Rightarrow> ladder_error option" where
  "LadderPlan_Validate p = first_err [
     ctx ''scope'' (Scope_Validate (plan_Scope p)),
     fail_if (is_zero_time (GeneratedAt p)) (Errorf ''generated_at must be set'' []),
     each_valid (\<lambda>i a. ctx (''action['' @ show_nat i @ '']'') (PlannedAction_Validate a)) 0 (Actions p)]"

text \<open>\<open>formatUSDPerHour\<close> keeps an unknown amount apart from a zero one.\<close>

definition formatUSDPerHour :: "rat option \<Rightarrow> go_string" where
  "formatUSDPerHour v = (case v of None \<Rightarrow> ''unknown'' | Some r \<Rightarrow> ''$'' @ float_string 2 r @ ''/hr'')"

section \<open>What the validators accept\<close>

lemma each_valid_None [simp, err_iff]:
  "each_valid f i xs = None \<longleftrightarrow> (\<forall>k < length xs. f (i + k) (xs ! k) = None)"
proof (induction xs arbitrary: i)
  case Nil
  then show ?case by simp
next
  case (Cons x xs)
  have "(\<forall>k < length (x # xs). f (i + k) ((x # xs) ! k) = None)
      \<longleftrightarrow> f i x = None \<and> (\<forall>k < length xs. f (i + 1 + k) (xs ! k) = None)"
    by (auto simp: less_Suc_eq_0_disj)
  then show ?case using Cons by (auto split: option.splits)
qed

lemma purchase_fields_iff [err_iff]:
  "validatePurchaseFields a = None \<longleftrightarrow> (\<exists>v. pa_AmountUSDPerHour a = Some v \<and> 0 < v)
     \<and> Term_Validate (pa_Term a) = None \<and> PaymentOption_Validate (pa_PaymentOption a) = None"
  by (auto simp: validatePurchaseFields_def split: option.splits)

lemma planned_action_iff [err_iff]:
  "PlannedAction_Validate a = None \<longleftrightarrow> LayerType_Validate (pa_Layer a) = None \<and> pa_Rationale a \<noteq> [] \<and>
     (Action a = ActionPurchase \<and> (\<exists>v. pa_AmountUSDPerHour a = Some v \<and> 0 < v)
        \<and> Term_Validate (pa_Term a) = None \<and> PaymentOption_Validate (pa_PaymentOption a) = None
      \<or> Action a \<in> {ActionHold, ActionReshape} \<and> pa_AmountUSDPerHour a = None
        \<and> pa_Term a = [] \<and> pa_PaymentOption a = [])"
  by (cases "pa_AmountUSDPerHour a")
     (auto simp: PlannedAction_Validate_def purchase_fields_iff ActionType_Validate_def enum_defs)

lemma plan_valid_iff [err_iff]:
  "LadderPlan_Validate p = None \<longleftrightarrow> Scope_Validate (plan_Scope p) = None \<and> GeneratedAt p \<noteq> 0
     \<and> (\<forall>a \<in> set (Actions p). PlannedAction_Validate a = None)"
  by (auto simp: LadderPlan_Validate_def is_zero_time_def all_set_conv_all_nth)

text \<open>The informational hold every stage of the allocator emits.\<close>

definition mk_hold :: "LayerType \<Rightarrow> go_string \<Rightarrow> go_string list \<Rightarrow> PlannedAction" where
  "mk_hold l r ds = \<lparr>Action = ActionHold, pa_Layer = l, pa_AmountUSDPerHour = None, pa_Term = '''',
     pa_PaymentOption = '''', pa_Rationale = r, pa_DataSources = ds\<rparr>"

definition mk_reshape :: "LayerType \<Rightarrow> go_string \<Rightarrow> go_string list \<Rightarrow> PlannedAction" where
  "mk_reshape l r ds = (mk_hold l r ds)\<lparr>Action := ActionReshape\<rparr>"

lemma mk_hold_layer [simp]: "pa_Layer (mk_hold l r ds) = l" "Action (mk_hold l r ds) = ActionHold"
  by (simp_all add: mk_hold_def)

lemma mk_reshape_layer [simp]: "pa_Layer (mk_reshape l r ds) = l" "Action (mk_reshape l r ds) = ActionReshape"
  by (simp_all add: mk_reshape_def)

lemma mk_hold_valid [simp]:
  "PlannedAction_Validate (mk_hold l r ds) = None \<longleftrightarrow> LayerType_Validate l = None \<and> r \<noteq> []"
  by (auto simp: planned_action_iff mk_hold_def enum_defs)

lemma mk_reshape_valid [simp]:
  "PlannedAction_Validate (mk_reshape l r ds) = None \<longleftrightarrow> LayerType_Validate l = None \<and> r \<noteq> []"
  by (auto simp: planned_action_iff mk_reshape_def mk_hold_def enum_defs)

text \<open>A hold or a reshape is never mistaken for a purchase.\<close>

lemma passive_actions [simp]: "ActionHold \<noteq> ActionPurchase" "ActionReshape \<noteq> ActionPurchase" "ActionHold \<noteq> ActionReshape"
  by (simp_all add: enum_defs)

end
