(* ===== verification/Ladder_Store.thy ===== *)
theory Ladder_Store
  imports Ladder_Plan
begin

text \<open>
  \<open>pkg/ladder/store.go\<close>: the run and tranche states, their persistent records and the
  validators that guard what is written. The store itself is an interface implemented
  elsewhere; what is modelled is everything the package checks before a row is saved.
\<close>

section \<open>Run status\<close>

type_synonym RunStatus = go_string
type_synonym TrancheStatus = go_string

named_theorems status_defs \<open>the named constants of the lifecycle states\<close>

definition RunStatusPlanned :: RunStatus where [status_defs]: "RunStatusPlanned = ''planned''"
definition RunStatusAwaitingApproval :: RunStatus where [status_defs]: "RunStatusAwaitingApproval = ''awaiting_approval''"
definition RunStatusApproved :: RunStatus where [status_defs]: "RunStatusApproved = ''approved''"
definition RunStatusExecuting :: RunStatus where [status_defs]: "RunStatusExecuting = ''executing''"
definition RunStatusCompleted :: RunStatus where [status_defs]: "RunStatusCompleted = ''completed''"
definition RunStatusFailed :: RunStatus where [status_defs]: "RunStatusFailed = ''failed''"
definition RunStatusCanceled :: RunStatus where [status_defs]: "RunStatusCanceled = ''canceled''"
definition RunStatusExpired :: RunStatus where [status_defs]: "RunStatusExpired = ''expired''"
definition runStatusLegacyCancelled :: RunStatus where [status_defs]: "runStatusLegacyCancelled = ''cancelled''"

definition RunStatus_Validate :: "RunStatus \<Rightarrow> ladder_error option" where
  "RunStatus_Validate = known_value ''run status'' [RunStatusPlanned, RunStatusAwaitingApproval, RunStatusApproved,
     RunStatusExecuting, RunStatusCompleted, RunStatusFailed,
     RunStatusCanceled, runStatusLegacyCancelled, RunStatusExpired]"

definition IsTerminal :: "RunStatus \<Rightarrow> bool" where
  "IsTerminal s \<longleftrightarrow> s \<in> {RunStatusCompleted, RunStatusFailed, RunStatusCanceled, runStatusLegacyCancelled, RunStatusExpired}"

definition ParseRunStatus :: "go_string \<Rightarrow> ladder_error + RunStatus" where
  "ParseRunStatus s = (case RunStatus_Validate s of Some e \<Rightarrow> Inl e
     | None \<Rightarrow> if s = runStatusLegacyCancelled then Inr RunStatusCanceled else Inr s)"

section \<open>Tranche status\<close>

definition TrancheStatusScheduled :: TrancheStatus where [status_defs]: "TrancheStatusScheduled = ''scheduled''"
definition TrancheStatusFired :: TrancheStatus where [status_defs]: "TrancheStatusFired = ''fired''"
definition TrancheStatusCompleted :: TrancheStatus where [status_defs]: "TrancheStatusCompleted = ''completed''"
definition TrancheStatusCanceled :: TrancheStatus where [status_defs]: "TrancheStatusCanceled = ''canceled''"
definition TrancheStatusFailed :: TrancheStatus where [status_defs]: "TrancheStatusFailed = ''failed''"
definition trancheStatusLegacyCancelled :: TrancheStatus where [status_defs]: "trancheStatusLegacyCancelled = ''cancelled''"

definition TrancheStatus_Validate :: "TrancheStatus \<Rightarrow> ladder_error option" where
  "TrancheStatus_Validate = known_value ''tranche status'' [TrancheStatusScheduled, TrancheStatusFired,
     TrancheStatusCompleted, TrancheStatusCanceled, trancheStatusLegacyCancelled, TrancheStatusFailed]"

definition allowsFiredAt :: "TrancheStatus \<Rightarrow> bool" where
  "allowsFiredAt s \<longleftrightarrow> s \<in> {TrancheStatusFired, TrancheStatusCompleted, TrancheStatusFailed}"

definition ParseTrancheStatus :: "go_string \<Rightarrow> ladder_error + TrancheStatus" where
  "ParseTrancheStatus s = (case TrancheStatus_Validate s of Some e \<Rightarrow> Inl e
     | None \<Rightarrow> if s = trancheStatusLegacyCancelled then Inr TrancheStatusCanceled else Inr s)"

section \<open>Records\<close>

record RunRecord =
  run_ID :: go_string
  run_Scope :: Scope
  run_Status :: RunStatus
  CreatedAt :: go_time
  CompletedAt :: "go_time option"
  PlanJSON :: go_string

definition RunRecord_Validate :: "RunRecord \<Rightarrow> ladder_error option" where
  "RunRecord_Validate r = first_err [
     fail_if (run_ID r = '''') (Errorf ''run ID is required'' []),
     ctx ''scope'' (Scope_Validate (run_Scope r)),
     fail_if (is_zero_time (CreatedAt r)) (Errorf ''created_at must be set'' []),
     ctx ''status'' (RunStatus_Validate (run_Status r)),
     fail_if (CompletedAt r \<noteq> None \<and> \<not> IsTerminal (run_Status r))
       (Errorf ''completed_at must be nil for non-terminal status %q'' [ArgS (run_Status r)])]"

record Tranche =
  FireAfter :: go_time
  FiredAt :: "go_time option"
  tr_AmountUSDPerHour :: go_string
  tr_ID :: go_string
  RunID :: go_string
  tr_Status :: TrancheStatus
  tr_Layer :: LayerType
  tr_Term :: Term
  tr_PaymentOption :: PaymentOption
  CommitmentRate :: go_string
  StepIndex :: int

definition validateTrancheAmount :: "Tranche \<Rightarrow> ladder_error option" where
  "validateTrancheAmount t = (if tr_AmountUSDPerHour t = '''' then Some (Errorf ''amount_usd_per_hour is required'' [])
     else case set_string (tr_AmountUSDPerHour t) of
       None \<Rightarrow> Some (Errorf ''amount_usd_per_hour %q must parse as a positive rational'' [ArgS (tr_AmountUSDPerHour t)])
     | Some r \<Rightarrow> fail_if (r \<le> 0) (Errorf ''amount_usd_per_hour must be positive, got %s'' [ArgS (tr_AmountUSDPerHour t)]))"

definition validateTrancheRate :: "Tranche \<Rightarrow> ladder_error option" where
  "validateTrancheRate t = (if CommitmentRate t = '''' then None
     else case set_string (CommitmentRate t) of
       None \<Rightarrow> Some (Errorf ''commitment_rate %q must parse as a rational'' [ArgS (CommitmentRate t)])
     | Some r \<Rightarrow> fail_if (r \<le> 0 \<or> r > 1) (Errorf ''commitment_rate %s must be in (0, 1]'' [ArgS (CommitmentRate t)]))"

definition validateExecutionFields :: "Tranche \<Rightarrow> ladder_error option" where
  "validateExecutionFields t = first_err [
     ctx ''layer'' (LayerType_Validate (tr_Layer t)),
     validateTrancheAmount t,
     ctx ''term'' (Term_Validate (tr_Term t)),
     ctx ''payment_option'' (PaymentOption_Validate (tr_PaymentOption t)),
     validateTrancheRate t]"

definition Tranche_Validate :: "Tranche \<Rightarrow> ladder_error option" where
  "Tranche_Validate t = first_err [
     fail_if (tr_ID t = '''') (Errorf ''tranche ID is required'' []),
     fail_if (RunID t = '''') (Errorf ''tranche RunID is required'' []),
     fail_if (StepIndex t < 0) (Errorf ''step_index %d must be >= 0'' [ArgI (StepIndex t)]),
     fail_if (is_zero_time (FireAfter t)) (Errorf ''fire_after must be set (zero time would fire immediately)'' []),
     validateExecutionFields t,
     ctx ''status'' (TrancheStatus_Validate (tr_Status t)),
     fail_if (FiredAt t \<noteq> None \<and> \<not> allowsFiredAt (tr_Status t))
       (Errorf ''fired_at must be nil for status %q (tranche has not fired)'' [ArgS (tr_Status t)])]"

section \<open>What the validators accept\<close>

lemma tranche_amount_iff [err_iff]:
  "validateTrancheAmount t = None \<longleftrightarrow>
     tr_AmountUSDPerHour t \<noteq> [] \<and> (\<exists>r. set_string (tr_AmountUSDPerHour t) = Some r \<and> 0 < r)"
  by (auto simp: validateTrancheAmount_def split: option.splits)

lemma tranche_rate_iff [err_iff]:
  "validateTrancheRate t = None \<longleftrightarrow>
     CommitmentRate t = [] \<or> (\<exists>r. set_string (CommitmentRate t) = Some r \<and> 0 < r \<and> r \<le> 1)"
  by (auto simp: validateTrancheRate_def split: option.splits)

lemma execution_fields_iff [err_iff]:
  "validateExecutionFields t = None \<longleftrightarrow> LayerType_Validate (tr_Layer t) = None \<and> validateTrancheAmount t = None
     \<and> Term_Validate (tr_Term t) = None \<and> PaymentOption_Validate (tr_PaymentOption t) = None
     \<and> validateTrancheRate t = None"
  by (auto simp: validateExecutionFields_def)

lemma tranche_valid_iff [err_iff]:
  "Tranche_Validate t = None \<longleftrightarrow> tr_ID t \<noteq> [] \<and> RunID t \<noteq> [] \<and> 0 \<le> StepIndex t \<and> FireAfter t \<noteq> 0
     \<and> validateExecutionFields t = None \<and> TrancheStatus_Validate (tr_Status t) = None
     \<and> (FiredAt t = None \<or> allowsFiredAt (tr_Status t))"
  by (auto simp: Tranche_Validate_def is_zero_time_def)

lemma run_record_iff [err_iff]:
  "RunRecord_Validate r = None \<longleftrightarrow> run_ID r \<noteq> [] \<and> Scope_Validate (run_Scope r) = None \<and> CreatedAt r \<noteq> 0
     \<and> RunStatus_Validate (run_Status r) = None \<and> (CompletedAt r = None \<or> IsTerminal (run_Status r))"
  by (auto simp: RunRecord_Validate_def is_zero_time_def)

section \<open>Properties\<close>

text \<open>
  The only status \<open>ParseRunStatus\<close> rewrites is the legacy spelling; whatever it returns is
  valid, current, and terminal exactly when the stored value was.
\<close>

lemma parse_run_status_canonical:
  "ParseRunStatus s = Inr t \<Longrightarrow> RunStatus_Validate t = None \<and> t \<noteq> runStatusLegacyCancelled
     \<and> (IsTerminal t \<longleftrightarrow> IsTerminal s) \<and> ParseRunStatus t = Inr t"
  by (auto simp: ParseRunStatus_def RunStatus_Validate_def IsTerminal_def status_defs split: option.splits if_splits)

lemma parse_run_status_total:
  "(\<exists>t. ParseRunStatus s = Inr t) \<longleftrightarrow> RunStatus_Validate s = None"
  by (auto simp: ParseRunStatus_def split: option.splits)

lemma parse_tranche_status_canonical:
  "ParseTrancheStatus s = Inr t \<Longrightarrow> TrancheStatus_Validate t = None \<and> t \<noteq> trancheStatusLegacyCancelled
     \<and> (allowsFiredAt t \<longleftrightarrow> allowsFiredAt s) \<and> ParseTrancheStatus t = Inr t"
  by (auto simp: ParseTrancheStatus_def TrancheStatus_Validate_def allowsFiredAt_def status_defs split: option.splits if_splits)

end
