(* ===== verification/Ladder_Units.thy ===== *)
theory Ladder_Units
  imports Ladder_Plan
begin

text \<open>
  \<open>pkg/ladder/allocate_units.go\<close> and the conversions of \<open>allocate.go\<close>: the boundary from
  \<open>float64\<close> to exact rationals, commitment rates, in-flight tranches netted back to
  on-demand-equivalent (OD) dollars, and the one conversion of an OD-sized allocation into
  commitment dollars. From here on all money is exact (\<open>*big.Rat\<close> as \<open>rat\<close>).
\<close>

section \<open>The boundary\<close>

definition minAllocatableGap :: rat where
  "minAllocatableGap = 1 / 100"

definition ratFromFloat :: "go_string \<Rightarrow> float64 \<Rightarrow> ladder_error + rat" where
  "ratFromFloat name v =
    (if is_nan v then Inl (Errorf ''%s: NaN is not a valid monetary value'' [ArgS name])
     else if is_inf v then Inl (Errorf ''%s: Inf is not a valid monetary value'' [ArgS name])
     else if v < 0 then Inl (Errorf ''%s: negative value %g is not allowed'' [ArgS name, ArgF v])
     else Inr (the (set_float64 v)))"

definition minRat :: "rat \<Rightarrow> rat \<Rightarrow> rat" where
  "minRat a b = (if a \<le> b then a else b)"

definition fmtRatUSD :: "rat \<Rightarrow> go_string" where
  "fmtRatUSD r = ''$'' @ fmt_fixed 4 (rnd r) @ ''/hr''"

definition fmtRatRate :: "rat \<Rightarrow> go_string" where
  "fmtRatRate r = fmt_fixed 4 (rnd r)"

definition validateCommitmentRate :: "go_string \<Rightarrow> float64 \<Rightarrow> ladder_error + rat" where
  "validateCommitmentRate name v =
    (if is_nan v \<or> is_inf v then Inl (Errorf ''%s: commitment rate %g is not finite'' [ArgS name, ArgF v])
     else if v \<le> 0 \<or> v > 1 then Inl (Errorf ''%s: commitment rate %g must be in (0, 1]'' [ArgS name, ArgF v])
     else Inr (the (set_float64 v)))"

lemma ratFromFloat_Inr [simp]: "ratFromFloat name v = Inr r \<longleftrightarrow> v = Fin r \<and> 0 \<le> r"
  by (cases v) (auto simp: ratFromFloat_def)

lemma validateCommitmentRate_Inr [simp]: "validateCommitmentRate name v = Inr r \<longleftrightarrow> v = Fin r \<and> 0 < r \<and> r \<le> 1"
  by (cases v) (auto simp: validateCommitmentRate_def)

lemma boundary_Fin [simp]:
  "0 \<le> r \<Longrightarrow> ratFromFloat name (Fin r) = Inr r" "0 < r \<Longrightarrow> r \<le> 1 \<Longrightarrow> validateCommitmentRate name (Fin r) = Inr r"
  by simp_all

lemma minRat_min [simp]: "minRat a b = min a b"
  by (simp add: minRat_def min_def)

lemma fmtRatUSD_not_empty [simp]: "fmtRatUSD r \<noteq> []"
  by (simp add: fmtRatUSD_def)

section \<open>Commitment rates\<close>

fun parse_rates :: "(LayerType \<rightharpoonup> rat) \<Rightarrow> (LayerType, float64) go_map \<Rightarrow> ladder_error + (LayerType \<rightharpoonup> rat)" where
  "parse_rates out [] = Inr out"
| "parse_rates out ((layer, v) # rs) =
    (case validateCommitmentRate (''commitment_rates['' @ layer @ '']'') v of
       Inl e \<Rightarrow> Inl e
     | Inr r \<Rightarrow> parse_rates (out(layer \<mapsto> r)) rs)"

definition parseCommitmentRates :: "(LayerType, float64) go_map \<Rightarrow> ladder_error + (LayerType \<rightharpoonup> rat)" where
  "parseCommitmentRates rates = parse_rates Map.empty rates"

lemma parse_rates_range:
  assumes "parse_rates out rs = Inr m" and "\<And>l r. out l = Some r \<Longrightarrow> 0 < r \<and> r \<le> 1"
    and "m l = Some r"
  shows "0 < r \<and> r \<le> 1"
  using assms
proof (induction out rs rule: parse_rates.induct)
  case (1 out)
  then show ?case by simp
next
  case (2 out layer v rs)
  from "2.prems"(1) obtain q where q: "validateCommitmentRate (''commitment_rates['' @ layer @ '']'') v = Inr q"
    and m: "parse_rates (out(layer \<mapsto> q)) rs = Inr m" by (auto split: sum.splits)
  from q have "0 < q \<and> q \<le> 1" by simp
  with "2.prems"(2) have "\<And>k s. (out(layer \<mapsto> q)) k = Some s \<Longrightarrow> 0 < s \<and> s \<le> 1"
    by (metis fun_upd_apply option.inject)
  then show ?case using "2.IH" [OF q m] "2.prems"(3) by blast
qed

lemma rates_in_unit: "parseCommitmentRates rs = Inr m \<Longrightarrow> m l = Some r \<Longrightarrow> 0 < r \<and> r \<le> 1"
  unfolding parseCommitmentRates_def by (erule parse_rates_range) simp_all

lemma parse_rates_mem:
  "parse_rates out rs = Inr m \<Longrightarrow> m l = Some r \<Longrightarrow> out l = Some r \<or> (l, Fin r) \<in> set rs"
proof (induction out rs rule: parse_rates.induct)
  case (2 out layer v rs)
  from "2.prems"(1) obtain q where q: "validateCommitmentRate (''commitment_rates['' @ layer @ '']'') v = Inr q"
    and m: "parse_rates (out(layer \<mapsto> q)) rs = Inr m" by (auto split: sum.splits)
  from q have v: "v = Fin q" by simp
  from "2.IH" [OF q m "2.prems"(2)] show ?case unfolding v by (cases "l = layer") auto
qed simp

lemma rates_supplied: "parseCommitmentRates rs = Inr m \<Longrightarrow> m l = Some r \<Longrightarrow> (l, Fin r) \<in> set rs"
  unfolding parseCommitmentRates_def by (drule (1) parse_rates_mem) simp

lemma parse_rates_dom: "parse_rates out rs = Inr m \<Longrightarrow> dom m = dom out \<union> fst ` set rs"
  by (induction out rs rule: parse_rates.induct) (auto split: sum.splits)

section \<open>In-flight tranches\<close>

record InFlightTranche =
  if_Layer :: LayerType
  CommitmentUSDPerHour :: float64
  if_Rate :: float64

definition in_flight_name :: "nat \<Rightarrow> LayerType \<Rightarrow> go_string" where
  "in_flight_name i l = ''in_flight['' @ show_nat i @ ''] ('' @ l @ '')''"

fun in_flight_loop :: "LayerType list \<Rightarrow> nat \<Rightarrow> (LayerType \<rightharpoonup> rat) \<Rightarrow> rat \<Rightarrow> InFlightTranche list
    \<Rightarrow> ladder_error + (LayerType \<rightharpoonup> rat) \<times> rat" where
  "in_flight_loop known i perLayer tot [] = Inr (perLayer, tot)"
| "in_flight_loop known i perLayer tot (t # ts) =
    (let name = in_flight_name i (if_Layer t) in
     if if_Layer t \<notin> set known
     then Inl (Errorf ''%s: layer is not in the supported layers'' [ArgS name])
     else bind_res (ratFromFloat (name @ ''.commitment_usd_per_hour'') (CommitmentUSDPerHour t)) (\<lambda>c.
       bind_res (validateCommitmentRate name (if_Rate t)) (\<lambda>r.
         let od = c / r in
         in_flight_loop known (i + 1)
           (perLayer(if_Layer t \<mapsto> (case perLayer (if_Layer t) of Some cur \<Rightarrow> cur + od | None \<Rightarrow> od)))
           (tot + od) ts)))"

definition inFlightToOD :: "LayerSpec list \<Rightarrow> InFlightTranche list \<Rightarrow> ladder_error + (LayerType \<rightharpoonup> rat) \<times> rat" where
  "inFlightToOD layers ts = in_flight_loop (map Type layers) 0 Map.empty 0 ts"

text \<open>The exact OD value of one tranche, at the rate stored with it.\<close>

definition tranche_od :: "InFlightTranche \<Rightarrow> rat" where
  "tranche_od t = the (set_float64 (CommitmentUSDPerHour t)) / the (set_float64 (if_Rate t))"

definition layer_od :: "LayerType \<Rightarrow> InFlightTranche list \<Rightarrow> rat" where
  "layer_od l ts = sum_list (map tranche_od (filter (\<lambda>t. if_Layer t = l) ts))"

lemma in_flight_loop_exact:
  assumes "in_flight_loop known i m tot ts = Inr (m', tot')"
  shows "tot' = tot + sum_list (map tranche_od ts)
    \<and> (\<forall>l. (case m' l of None \<Rightarrow> 0 | Some x \<Rightarrow> x) = (case m l of None \<Rightarrow> 0 | Some x \<Rightarrow> x) + layer_od l ts)
    \<and> (\<forall>t \<in> set ts. if_Layer t \<in> set known \<and> 0 \<le> tranche_od t \<and> (\<exists>r. if_Rate t = Fin r \<and> 0 < r \<and> r \<le> 1))"
  using assms
proof (induction ts arbitrary: i m tot)
  case Nil
  then show ?case by (simp add: layer_od_def)
next
  case (Cons t ts)
  from Cons.prems obtain c r where known: "if_Layer t \<in> set known" and c: "CommitmentUSDPerHour t = Fin c" "0 \<le> c"
    and r: "if_Rate t = Fin r" "0 < r" "r \<le> 1"
    and rest: "in_flight_loop known (i + 1)
           (m(if_Layer t \<mapsto> (case m (if_Layer t) of Some cur \<Rightarrow> cur + c / r | None \<Rightarrow> c / r)))
           (tot + c / r) ts = Inr (m', tot')"
    by (auto simp: Let_def split: if_splits)
  have od: "tranche_od t = c / r" using c r by (simp add: tranche_od_def)
  have "0 \<le> tranche_od t" using c r by (simp add: od)
  moreover note Cons.IH [OF rest]
  moreover have "layer_od l (t # ts) = (if if_Layer t = l then c / r else 0) + layer_od l ts" for l
    by (simp add: layer_od_def od)
  ultimately show ?case using known r by (auto simp: od split: option.splits)
qed

text \<open>Netting is exact: what is subtracted is the sum of the tranches' OD values.\<close>

lemma inFlightToOD_exact:
  assumes "inFlightToOD layers ts = Inr (per, tot)"
  shows "tot = sum_list (map tranche_od ts)" and "0 \<le> tot"
    and "(case per l of None \<Rightarrow> 0 | Some x \<Rightarrow> x) = layer_od l ts"
    and "\<forall>t \<in> set ts. if_Layer t \<in> Type ` set layers \<and> 0 \<le> tranche_od t"
proof -
  note * = in_flight_loop_exact [OF assms [unfolded inFlightToOD_def]]
  from * show "tot = sum_list (map tranche_od ts)" by simp
  from * show "(case per l of None \<Rightarrow> 0 | Some x \<Rightarrow> x) = layer_od l ts" by simp
  from * show "\<forall>t \<in> set ts. if_Layer t \<in> Type ` set layers \<and> 0 \<le> tranche_od t" by simp
  from * show "0 \<le> tot" by (auto intro!: sum_list_nonneg)
qed

section \<open>Allocations and their conversion\<close>

text \<open>
  \<open>GapUSDPerHour\<close> and \<open>Rate\<close> are \<open>nil\<close> until the allocation is converted, hence options.
\<close>

record Allocation =
  al_Layer :: LayerType
  GapUSDPerHour :: "rat option"
  OnDemandEquivalentUSDPerHour :: "rat option"
  Rate :: "rat option"
  al_Rationale :: go_string
  al_DataSources :: "go_string list"

definition gap_of :: "Allocation \<Rightarrow> rat" where
  "gap_of a = the (GapUSDPerHour a)"

definition od_of :: "Allocation \<Rightarrow> rat" where
  "od_of a = the (OnDemandEquivalentUSDPerHour a)"

definition no_rate_hold :: "go_string list \<Rightarrow> Allocation \<Rightarrow> PlannedAction" where
  "no_rate_hold ds a = mk_hold (al_Layer a)
     (''no commitment rate for layer '' @ al_Layer a @ '': skipped '' @ fmtRatUSD (od_of a)
      @ '' on-demand-equivalent (never assumed 1:1)'') ds"

definition convert_one :: "rat \<Rightarrow> Allocation \<Rightarrow> Allocation" where
  "convert_one r a = a\<lparr>Rate := Some r, GapUSDPerHour := Some (od_of a * r),
     al_Rationale := al_Rationale a @ ''; commitment_rate='' @ fmtRatRate r @ '', commitment='' @ fmtRatUSD (od_of a * r)\<rparr>"

fun convertAllocations :: "Allocation list \<Rightarrow> (LayerType \<rightharpoonup> rat) \<Rightarrow> go_string list
    \<Rightarrow> Allocation list \<times> PlannedAction list" where
  "convertAllocations [] rates ds = ([], [])"
| "convertAllocations (a # as) rates ds =
    (let (out, holds) = convertAllocations as rates ds in
     case rates (al_Layer a) of
       None \<Rightarrow> (out, no_rate_hold ds a # holds)
     | Some r \<Rightarrow> (convert_one r a # out, holds))"

text \<open>An allocation that was sized: a positive OD amount and a reason.\<close>

definition alloc_sized :: "Allocation \<Rightarrow> bool" where
  "alloc_sized a \<longleftrightarrow> (\<exists>x. OnDemandEquivalentUSDPerHour a = Some x \<and> 0 < x) \<and> al_Rationale a \<noteq> []"

text \<open>
  An allocation that may be bought: moreover its commitment is exactly its OD amount times a
  rate in (0, 1].
\<close>

definition alloc_priced :: "Allocation \<Rightarrow> bool" where
  "alloc_priced a \<longleftrightarrow> alloc_sized a \<and> (\<exists>r. Rate a = Some r \<and> 0 < r \<and> r \<le> 1
     \<and> GapUSDPerHour a = Some (od_of a * r))"

lemma alloc_sized_od: "alloc_sized a \<Longrightarrow> OnDemandEquivalentUSDPerHour a = Some (od_of a) \<and> 0 < od_of a"
  by (auto simp: alloc_sized_def od_of_def)

lemma alloc_priced_gap: "alloc_priced a \<Longrightarrow> GapUSDPerHour a = Some (gap_of a) \<and> 0 < gap_of a \<and> gap_of a \<le> od_of a"
  using alloc_sized_od by (auto simp: alloc_priced_def gap_of_def intro: mult_left_le)

lemma convert_one_simps [simp]:
  "al_Layer (convert_one r a) = al_Layer a" "Rate (convert_one r a) = Some r" "od_of (convert_one r a) = od_of a" "gap_of (convert_one r a) = od_of a * r"
  by (simp_all add: convert_one_def od_of_def gap_of_def)

lemma convert_one_priced: "alloc_sized a \<Longrightarrow> 0 < r \<Longrightarrow> r \<le> 1 \<Longrightarrow> alloc_priced (convert_one r a)"
  by (auto simp: alloc_priced_def alloc_sized_def convert_one_def od_of_def)

lemma layer_od_nonneg: "\<forall>t \<in> set ts. 0 \<le> tranche_od t \<Longrightarrow> 0 \<le> layer_od l ts"
  by (auto simp: layer_od_def intro!: sum_list_nonneg)

lemma no_rate_hold_simps [simp]:
  "pa_Layer (no_rate_hold ds a) = al_Layer a" "Action (no_rate_hold ds a) = ActionHold"
  "PlannedAction_Validate (no_rate_hold ds a) = None \<longleftrightarrow> LayerType_Validate (al_Layer a) = None"
  by (simp_all add: no_rate_hold_def)

text \<open>
  What conversion keeps is the layers with a rate, in order; what it drops is held.
\<close>

lemma convertAllocations_eq:
  "convertAllocations as rates ds =
    (map (\<lambda>a. convert_one (the (rates (al_Layer a))) a) (filter (\<lambda>a. rates (al_Layer a) \<noteq> None) as),
     map (no_rate_hold ds) (filter (\<lambda>a. rates (al_Layer a) = None) as))"
  by (induction as) (auto simp: Let_def split: option.splits)

lemma mset_filter_split: "image_mset f (mset (filter P xs)) + image_mset f (mset (filter (\<lambda>x. \<not> P x) xs))
    = image_mset f (mset xs)"
  by (induction xs) auto

interpretation convert_stage: audited_stage "\<lambda>as. convertAllocations as rates ds" al_Layer pa_Layer
  for rates ds
proof
  fix xs :: "Allocation list"
  show "image_mset al_Layer (mset (fst (convertAllocations xs rates ds)))
      + image_mset pa_Layer (mset (snd (convertAllocations xs rates ds))) = image_mset al_Layer (mset xs)"
    using mset_filter_split [of al_Layer "\<lambda>a. rates (al_Layer a) \<noteq> None" xs]
    by (simp add: convertAllocations_eq image_mset.compositionality o_def)
qed

end
