(* ===== verification/Ladder_Input.thy ===== *)
theory Ladder_Input
  imports Ladder_Units
begin

text \<open>
  The first half of \<open>pkg/ladder/allocate.go\<close>: the input of one run, its validation (configuration,
  layer topology, provider snapshot), the net existing commitment, and the baseline with its
  target. \<open>LayerStates\<close> and \<open>CommitmentRates\<close> are Go maps, \<open>InFlight\<close> and
  \<open>CommitmentRates\<close> may be \<open>nil\<close>, which the validation rejects.
\<close>

section \<open>Input\<close>

record AllocationInput =
  in_Now :: go_time
  LayerStates :: "(LayerType, LayerState) go_map"
  CommitmentRates :: "(LayerType, float64) go_map option"
  Layers :: "LayerSpec list"
  DataSources :: "go_string list"
  InFlight :: "InFlightTranche list option"
  Baseline :: UsageBaseline
  Config :: LadderConfig

text \<open>Indexing a map yields the zero value for a missing key.\<close>

definition zero_state :: LayerState where
  "zero_state = \<lparr>ExistingUSDPerHour = None, ExpiringUSDPerHour = None, CoveragePct = None,
     UtilizationPct = None, st_Layer = ''''\<rparr>"

definition state_of :: "(LayerType, LayerState) go_map \<Rightarrow> LayerType \<Rightarrow> LayerState" where
  "state_of states l = (case map_of states l of Some st \<Rightarrow> st | None \<Rightarrow> zero_state)"

section \<open>Validation\<close>

fun first_repeat :: "LayerType set \<Rightarrow> LayerSpec list \<Rightarrow> ladder_error option" where
  "first_repeat seen [] = None"
| "first_repeat seen (ls # lss) =
    (if Type ls \<in> seen then Some (Errorf ''duplicate layer type %q'' [ArgS (Type ls)])
     else first_repeat (insert (Type ls) seen) lss)"

definition validateLayerUniqueness :: "LayerSpec list \<Rightarrow> ladder_error option" where
  "validateLayerUniqueness layers = first_repeat {} layers"

definition validateLayerEnums :: "LayerSpec \<Rightarrow> ladder_error option" where
  "validateLayerEnums ls = first_err [
     ctx ''layer type'' (LayerType_Validate (Type ls)),
     first_err (map (\<lambda>r. ctx (''layer '' @ Type ls @ '': role'') (LayerRole_Validate r)) (Roles ls))]"

definition validateLayerRoleCombo :: "LayerSpec \<Rightarrow> ladder_error option" where
  "validateLayerRoleCombo ls = fail_if
     (slices_contains (Roles ls) RoleFlex \<and> (slices_contains (Roles ls) RoleBase \<or> slices_contains (Roles ls) RoleBuffer))
     (Errorf ''layer %q: %s role must not be combined with other roles'' [ArgS (Type ls), ArgS RoleFlex])"

definition validateRoleCounts :: "nat \<Rightarrow> nat \<Rightarrow> nat \<Rightarrow> ladder_error option" where
  "validateRoleCounts flexCount baseCount bufferCount = first_err [
     fail_if (flexCount \<noteq> 1) (Errorf ''exactly one %s layer required, got %d'' [ArgS RoleFlex, ArgI (int flexCount)]),
     fail_if (baseCount > 1) (Errorf ''at most one %s layer allowed, got %d'' [ArgS RoleBase, ArgI (int baseCount)]),
     fail_if (bufferCount > 1) (Errorf ''at most one %s layer allowed, got %d'' [ArgS RoleBuffer, ArgI (int bufferCount)])]"

definition bump :: "LayerRole \<Rightarrow> LayerSpec \<Rightarrow> nat \<Rightarrow> nat" where
  "bump role ls n = (if slices_contains (Roles ls) role then n + 1 else n)"

fun layers_loop :: "nat \<Rightarrow> nat \<Rightarrow> nat \<Rightarrow> LayerSpec list \<Rightarrow> ladder_error option" where
  "layers_loop flexCount baseCount bufferCount [] = validateRoleCounts flexCount baseCount bufferCount"
| "layers_loop flexCount baseCount bufferCount (ls # lss) = first_err [
     validateLayerEnums ls,
     validateLayerRoleCombo ls,
     layers_loop (bump RoleFlex ls flexCount) (bump RoleBase ls baseCount) (bump RoleBuffer ls bufferCount) lss]"

definition validateLayers :: "LayerSpec list \<Rightarrow> ladder_error option" where
  "validateLayers layers = first_err [validateLayerUniqueness layers, layers_loop 0 0 0 layers]"

definition validateUtilizationPct :: "LayerType \<Rightarrow> float64 option \<Rightarrow> ladder_error option" where
  "validateUtilizationPct layer pct = (case pct of None \<Rightarrow> None | Some p \<Rightarrow> first_err [
     fail_if (is_nan p \<or> is_inf p) (Errorf ''layer %q: UtilizationPct must be finite, got %g'' [ArgS layer, ArgF p]),
     fail_if (p < 0 \<or> p > Fin 100) (Errorf ''layer %q: UtilizationPct %g must be in [0, 100]'' [ArgS layer, ArgF p])])"

definition validateNoUnknownStateKeys :: "LayerSpec list \<Rightarrow> (LayerType, LayerState) go_map \<Rightarrow> ladder_error option" where
  "validateNoUnknownStateKeys layers states = (case List.find (\<lambda>kv. fst kv \<notin> Type ` set layers) states of
     None \<Rightarrow> None
   | Some kv \<Rightarrow> Some (Errorf ''layer_states contains unknown layer %q'' [ArgS (fst kv)]))"

definition validateLayerState :: "(LayerType, LayerState) go_map \<Rightarrow> LayerSpec \<Rightarrow> ladder_error option" where
  "validateLayerState states ls = (case map_of states (Type ls) of
     None \<Rightarrow> Some (Errorf ''layer %q: missing state entry (provider data incomplete)'' [ArgS (Type ls)])
   | Some st \<Rightarrow> first_err [
       fail_if (ExistingUSDPerHour st = None) (Errorf ''layer %q: ExistingUSDPerHour is nil'' [ArgS (Type ls)]),
       fail_if (ExpiringUSDPerHour st = None) (Errorf ''layer %q: ExpiringUSDPerHour is nil'' [ArgS (Type ls)]),
       validateUtilizationPct (Type ls) (UtilizationPct st)])"

definition validateLayerStates :: "LayerSpec list \<Rightarrow> (LayerType, LayerState) go_map \<Rightarrow> ladder_error option" where
  "validateLayerStates layers states = first_err
     (map (validateLayerState states) layers @ [validateNoUnknownStateKeys layers states])"

definition validateAllocateInput :: "AllocationInput \<Rightarrow> ladder_error option" where
  "validateAllocateInput i = first_err [
     fail_if (InFlight i = None) (Errorf ''InFlight must not be nil'' []),
     fail_if (CommitmentRates i = None) (Errorf ''CommitmentRates must not be nil'' []),
     ctx ''config'' (LadderConfig_Validate (Config i)),
     ctx ''baseline'' (BaselineBasis_Validate (Basis (Baseline i))),
     fail_if (Layers i = []) (Errorf ''layers must not be empty'' []),
     ctx ''layers'' (validateLayers (Layers i)),
     ctx ''layer_states'' (validateLayerStates (Layers i) (LayerStates i))]"

definition findLayerForRole :: "LayerSpec list \<Rightarrow> LayerRole \<Rightarrow> LayerType \<times> bool" where
  "findLayerForRole layers role = (case List.find (\<lambda>ls. slices_contains (Roles ls) role) layers of
     Some ls \<Rightarrow> (Type ls, True) | None \<Rightarrow> ('''', False))"

section \<open>Net existing commitment, baseline and target\<close>

fun net_loop :: "(LayerType, LayerState) go_map \<Rightarrow> (LayerType \<rightharpoonup> rat) \<Rightarrow> rat \<Rightarrow> LayerSpec list
    \<Rightarrow> ladder_error + (LayerType \<rightharpoonup> rat) \<times> rat" where
  "net_loop states nets tot [] = Inr (nets, tot)"
| "net_loop states nets tot (ls # lss) =
    (let st = state_of states (Type ls) in
     bind_res (ratFromFloat (Type ls @ ''.ExistingUSDPerHour'') (the (ExistingUSDPerHour st))) (\<lambda>existing.
     bind_res (ratFromFloat (Type ls @ ''.ExpiringUSDPerHour'') (the (ExpiringUSDPerHour st))) (\<lambda>expiring.
       let net = existing - expiring in
       if net < 0 then Inl (Errorf ''%s: ExpiringUSDPerHour (%s) exceeds ExistingUSDPerHour (%s)''
         [ArgS (Type ls), ArgS (fmtRatUSD expiring), ArgS (fmtRatUSD existing)])
       else net_loop states (nets(Type ls \<mapsto> net)) (tot + net) lss)))"

definition computeNetExisting :: "LayerSpec list \<Rightarrow> (LayerType, LayerState) go_map
    \<Rightarrow> ladder_error + (LayerType \<rightharpoonup> rat) \<times> rat" where
  "computeNetExisting layers states = net_loop states Map.empty 0 layers"

definition computeBaselineAndTarget :: "AllocationInput \<Rightarrow> ladder_error + rat \<times> rat" where
  "computeBaselineAndTarget i =
     bind_res (ratFromFloat ''low_water_usd_per_hour'' (the (LowWaterUSDPerHour (Baseline i)))) (\<lambda>lowWater.
     bind_res (ratFromFloat ''target_coverage_pct'' (TargetCoveragePct (Config i))) (\<lambda>pct.
       Inr (lowWater, lowWater * (pct / 100))))"

text \<open>A residual baseline already excludes existing coverage (\<open>existingForBasis\<close>).\<close>

definition existingForBasis :: "BaselineBasis \<Rightarrow> (LayerType \<rightharpoonup> rat) \<Rightarrow> rat \<Rightarrow> rat \<times> (LayerType \<rightharpoonup> rat)" where
  "existingForBasis basis nets existingTotal =
    (if \<not> isResidual basis then (existingTotal, nets) else (0, Map.empty))"

definition hasExistingCommitment :: "LayerSpec list \<Rightarrow> (LayerType, LayerState) go_map \<Rightarrow> bool" where
  "hasExistingCommitment layers states \<longleftrightarrow>
     list_ex (\<lambda>ls. the (ExistingUSDPerHour (state_of states (Type ls))) > 0) layers"

definition basisNote :: "BaselineBasis \<Rightarrow> go_string" where
  "basisNote basis = (if \<not> isResidual basis then '''' else
     ''; baseline_basis=residual (existing commitment already excluded from low_water, not subtracted again)'')"

section \<open>What validation guarantees\<close>

lemma first_repeat_None: "first_repeat seen lss = None \<longleftrightarrow> distinct (map Type lss) \<and> Type ` set lss \<inter> seen = {}"
  by (induction lss arbitrary: seen) auto

definition role_count :: "LayerRole \<Rightarrow> LayerSpec list \<Rightarrow> nat" where
  "role_count role lss = length (filter (\<lambda>ls. role \<in> set (Roles ls)) lss)"

definition spec_ok :: "LayerSpec \<Rightarrow> bool" where
  "spec_ok ls \<longleftrightarrow> LayerType_Validate (Type ls) = None \<and> (\<forall>r \<in> set (Roles ls). LayerRole_Validate r = None)
     \<and> \<not> (RoleFlex \<in> set (Roles ls) \<and> (RoleBase \<in> set (Roles ls) \<or> RoleBuffer \<in> set (Roles ls)))"

lemma layers_loop_None:
  "layers_loop f b u lss = None \<longleftrightarrow> (\<forall>ls \<in> set lss. spec_ok ls)
     \<and> f + role_count RoleFlex lss = 1 \<and> b + role_count RoleBase lss \<le> 1 \<and> u + role_count RoleBuffer lss \<le> 1"
proof (induction lss arbitrary: f b u)
  case Nil
  then show ?case by (auto simp: validateRoleCounts_def role_count_def)
next
  case (Cons ls lss)
  have ok: "spec_ok ls \<longleftrightarrow> validateLayerEnums ls = None \<and> validateLayerRoleCombo ls = None"
    by (auto simp: spec_ok_def validateLayerEnums_def validateLayerRoleCombo_def)
  have "bump role ls n + role_count role lss = n + role_count role (ls # lss)" for role n
    by (simp add: bump_def role_count_def)
  with Cons ok show ?case by auto
qed

text \<open>The layer topology a run accepts.\<close>

lemma layers_valid_iff [err_iff]:
  "validateLayers lss = None \<longleftrightarrow> distinct (map Type lss) \<and> (\<forall>ls \<in> set lss. spec_ok ls)
     \<and> role_count RoleFlex lss = 1 \<and> role_count RoleBase lss \<le> 1 \<and> role_count RoleBuffer lss \<le> 1"
  by (simp add: validateLayers_def validateLayerUniqueness_def first_repeat_None layers_loop_None)

lemma util_valid_iff [err_iff]:
  "validateUtilizationPct l p = None \<longleftrightarrow> p = None \<or> (\<exists>u. p = Some (Fin u) \<and> 0 \<le> u \<and> u \<le> 100)"
proof (cases p)
  case (Some x)
  then show ?thesis by (cases x) (auto simp: validateUtilizationPct_def)
qed (simp add: validateUtilizationPct_def)

lemma layer_state_valid_iff [err_iff]:
  "validateLayerState states ls = None \<longleftrightarrow> (\<exists>st. map_of states (Type ls) = Some st
     \<and> ExistingUSDPerHour st \<noteq> None \<and> ExpiringUSDPerHour st \<noteq> None
     \<and> validateUtilizationPct (Type ls) (UtilizationPct st) = None)"
  by (auto simp: validateLayerState_def split: option.splits)

lemma layer_states_valid_iff [err_iff]:
  "validateLayerStates layers states = None \<longleftrightarrow> (\<forall>ls \<in> set layers. validateLayerState states ls = None)
     \<and> fst ` set states \<subseteq> Type ` set layers"
  by (auto simp: validateLayerStates_def validateNoUnknownStateKeys_def find_None_iff_all
      split: option.splits dest!: find_SomeD)

lemma config_valid_iff [err_iff]:
  "LadderConfig_Validate c = None \<longleftrightarrow> Scope_Validate (cfg_Scope c) = None \<and> validateBaselineBounds c = None
     \<and> LadderMode_Validate (Mode c) = None \<and> LadderCadence_Validate (Cadence c) = None
     \<and> RampSchedule_Validate (Ramp c) = None \<and> validateRunLimits c = None"
  by (simp add: LadderConfig_Validate_def)

lemma input_valid_iff [err_iff]:
  "validateAllocateInput i = None \<longleftrightarrow> InFlight i \<noteq> None \<and> CommitmentRates i \<noteq> None
     \<and> LadderConfig_Validate (Config i) = None \<and> BaselineBasis_Validate (Basis (Baseline i)) = None
     \<and> Layers i \<noteq> [] \<and> validateLayers (Layers i) = None
     \<and> validateLayerStates (Layers i) (LayerStates i) = None"
  by (simp add: validateAllocateInput_def)

lemma findLayer_Some:
  "findLayerForRole layers role = (l, True) \<Longrightarrow> \<exists>ls \<in> set layers. Type ls = l \<and> role \<in> set (Roles ls)"
  by (auto simp: findLayerForRole_def split: option.splits dest!: find_SomeD)

lemma findLayer_False: "findLayerForRole layers role = (l, False) \<longleftrightarrow> l = [] \<and> (\<forall>ls \<in> set layers. role \<notin> set (Roles ls))"
  by (auto simp: findLayerForRole_def find_None_iff_all split: option.splits dest!: find_SomeD)

text \<open>In a valid topology the flex layer exists and is a configured layer.\<close>

lemma flex_layer_exists:
  assumes "validateLayers layers = None"
  obtains l where "findLayerForRole layers RoleFlex = (l, True)" and "l \<in> Type ` set layers"
    and "LayerType_Validate l = None"
proof -
  have "role_count RoleFlex layers = 1" using assms by (simp add: layers_valid_iff)
  then have "filter (\<lambda>ls. RoleFlex \<in> set (Roles ls)) layers \<noteq> []" by (auto simp: role_count_def)
  then have ex: "\<exists>ls \<in> set layers. RoleFlex \<in> set (Roles ls)" by (auto simp: filter_empty_conv)
  obtain l b where f: "findLayerForRole layers RoleFlex = (l, b)" by fastforce
  with ex have b by (cases b) (auto simp: findLayer_False)
  with f have f': "findLayerForRole layers RoleFlex = (l, True)" by simp
  from findLayer_Some [OF f'] obtain ls where "ls \<in> set layers" "Type ls = l" by blast
  then show thesis using that [OF f'] assms by (auto simp: layers_valid_iff spec_ok_def)
qed

definition net_of :: "(LayerType, LayerState) go_map \<Rightarrow> LayerType \<Rightarrow> rat" where
  "net_of states l = the (set_float64 (the (ExistingUSDPerHour (state_of states l))))
     - the (set_float64 (the (ExpiringUSDPerHour (state_of states l))))"

lemma net_loop_exact:
  assumes "net_loop states m tot lss = Inr (m', tot')" and "distinct (map Type lss)"
    and "Type ` set lss \<inter> dom m = {}"
  shows "tot' = tot + sum_list (map (\<lambda>ls. net_of states (Type ls)) lss)
    \<and> (\<forall>ls \<in> set lss. m' (Type ls) = Some (net_of states (Type ls)) \<and> 0 \<le> net_of states (Type ls))
    \<and> (\<forall>l. l \<notin> Type ` set lss \<longrightarrow> m' l = m l)"
  using assms
proof (induction lss arbitrary: m tot)
  case Nil
  then show ?case by simp
next
  case (Cons ls lss)
  let ?n = "net_of states (Type ls)"
  from Cons.prems(1) have n: "0 \<le> ?n" and rest: "net_loop states (m(Type ls \<mapsto> ?n)) (tot + ?n) lss = Inr (m', tot')"
    by (auto simp: Let_def net_of_def split: if_splits)
  from Cons.prems have "distinct (map Type lss)" "Type ` set lss \<inter> dom (m(Type ls \<mapsto> ?n)) = {}" by auto
  from Cons.IH [OF rest this] Cons.prems(2) n show ?case by auto
qed

text \<open>The reported existing commitment is the exact sum of the layers' nets, never negative.\<close>

lemma computeNetExisting_exact:
  assumes "computeNetExisting layers states = Inr (nets, tot)" and "validateLayers layers = None"
  shows "tot = sum_list (map (\<lambda>ls. net_of states (Type ls)) layers)" and "0 \<le> tot"
    and "ls \<in> set layers \<Longrightarrow> nets (Type ls) = Some (net_of states (Type ls)) \<and> 0 \<le> net_of states (Type ls)"
proof -
  have *: "tot = sum_list (map (\<lambda>ls. net_of states (Type ls)) layers)
    \<and> (\<forall>ls \<in> set layers. nets (Type ls) = Some (net_of states (Type ls)) \<and> 0 \<le> net_of states (Type ls))"
    using net_loop_exact [OF assms(1) [unfolded computeNetExisting_def]] assms(2) by (simp add: layers_valid_iff)
  from * show "tot = sum_list (map (\<lambda>ls. net_of states (Type ls)) layers)" by simp
  from * show "0 \<le> tot" by (auto intro!: sum_list_nonneg)
  from * show "ls \<in> set layers \<Longrightarrow> nets (Type ls) = Some (net_of states (Type ls)) \<and> 0 \<le> net_of states (Type ls)" by simp
qed

text \<open>The target never exceeds the observed floor.\<close>

lemma target_le_low_water:
  assumes "computeBaselineAndTarget i = Inr (lowWater, target)" and "validateAllocateInput i = None"
  shows "0 \<le> target \<and> target \<le> lowWater"
proof -
  from assms obtain p where "TargetCoveragePct (Config i) = Fin p" "0 < p" "p \<le> 100"
    by (auto simp: err_iff)
  with assms(1) have lw: "0 \<le> lowWater" and t: "target = lowWater * (p / 100)"
    by (auto simp: computeBaselineAndTarget_def)
  have "0 \<le> p / 100" "p / 100 \<le> 1" using \<open>0 < p\<close> \<open>p \<le> 100\<close> by simp_all
  with lw show ?thesis unfolding t by (intro conjI mult_nonneg_nonneg mult_left_le)
qed

end
