(* ===== verification/Ladder_Split.thy ===== *)
theory Ladder_Split
  imports Ladder_Input
begin

text \<open>
  The split of the gap across the base, buffer and flex roles (\<open>splitGap\<close> and its helpers in
  \<open>pkg/ladder/allocate.go\<close>). The split is exact: the allocations' OD amounts add up to the
  gap, each is positive, and each names a configured layer, at most one allocation per layer.
\<close>

record allocationContext =
  ac_lowWater :: rat
  ac_target :: rat
  ac_existing :: rat
  ac_gap :: rat
  ac_baseNote :: go_string
  ac_basisNote :: go_string
  ac_dataSources :: "go_string list"
  ac_cfg :: LadderConfig

definition computeBaseGap :: "rat \<Rightarrow> bool \<Rightarrow> UsageBaseline \<Rightarrow> LayerType \<Rightarrow> (LayerType \<rightharpoonup> rat) \<Rightarrow> (LayerType \<rightharpoonup> rat)
    \<Rightarrow> ladder_error + rat \<times> go_string" where
  "computeBaseGap coreGap hasBase baseline baseLayer nets inFlight =
    (if \<not> hasBase then Inr (0, ''no base layer configured; routing all core gap to flex'')
     else case StableUSDPerHour baseline of
       None \<Rightarrow> Inr (0, ''stable usage unknown; routing all core gap to flex'')
     | Some stab \<Rightarrow> bind_res (ratFromFloat ''stable_usd_per_hour'' stab) (\<lambda>stableRat.
         let existingBaseNet = (case nets baseLayer of None \<Rightarrow> 0 | Some n \<Rightarrow> n);
             left1 = stableRat - existingBaseNet;
             left2 = (case inFlight baseLayer of None \<Rightarrow> left1 | Some f \<Rightarrow> left1 - f);
             stableLeft = (if left2 < 0 then 0 else left2)
         in if coreGap \<le> stableLeft then Inr (coreGap, '''') else Inr (stableLeft, '''')))"

definition flexRoutingNote :: "go_string \<Rightarrow> bool \<Rightarrow> rat \<Rightarrow> go_string" where
  "flexRoutingNote note hasBase baseGap = (if note \<noteq> '''' \<and> (\<not> hasBase \<or> baseGap = 0) then note else '''')"

definition mkAllocation :: "allocationContext \<Rightarrow> LayerType \<Rightarrow> rat \<Rightarrow> go_string \<Rightarrow> go_string \<Rightarrow> Allocation" where
  "mkAllocation c layer layerGap role extraNote =
    (let detail = (if extraNote \<noteq> '''' then ''; '' @ extraNote else '''') in
     \<lparr>al_Layer = layer, GapUSDPerHour = None, OnDemandEquivalentUSDPerHour = Some layerGap, Rate = None,
      al_Rationale = role @ '' layer: low_water='' @ fmtRatUSD (ac_lowWater c)
        @ '', target='' @ fmt_fixed 2 (TargetCoveragePct (ac_cfg c)) @ ''%''
        @ '', existing='' @ fmtRatUSD (ac_existing c) @ '', target_od='' @ fmtRatUSD (ac_target c)
        @ '', total_gap='' @ fmtRatUSD (ac_gap c) @ '', '' @ role @ ''_gap='' @ fmtRatUSD layerGap
        @ '', buffer_fraction='' @ fmt_fixed 2 (BufferFraction (ac_cfg c)) @ detail @ ac_basisNote c,
      al_DataSources = ac_dataSources c\<rparr>)"

definition assembleAllocations :: "allocationContext \<Rightarrow> rat \<Rightarrow> rat \<Rightarrow> rat \<Rightarrow> LayerType \<Rightarrow> LayerType \<Rightarrow> LayerType
    \<Rightarrow> bool \<Rightarrow> Allocation list" where
  "assembleAllocations c baseGap flexGap bufferGap baseLayer flexLayer bufferLayer hasBase =
    (let azureMerge = (hasBase \<and> bufferLayer = baseLayer); mergedGap = baseGap + bufferGap in
     (if azureMerge then (if mergedGap > 0 then [mkAllocation c bufferLayer mergedGap ''base+buffer'' ''''] else [])
      else (if hasBase \<and> baseGap > 0 then [mkAllocation c baseLayer baseGap ''base'' (ac_baseNote c)] else [])
        @ (if bufferGap > 0 then [mkAllocation c bufferLayer bufferGap ''buffer'' ''''] else []))
     @ (if flexGap > 0 then [mkAllocation c flexLayer flexGap ''flex'' (flexRoutingNote (ac_baseNote c) hasBase baseGap)] else []))"

definition splitGap :: "AllocationInput \<Rightarrow> rat \<Rightarrow> (LayerType \<rightharpoonup> rat) \<Rightarrow> (LayerType \<rightharpoonup> rat) \<Rightarrow> rat \<Rightarrow> rat \<Rightarrow> rat
    \<Rightarrow> ladder_error + Allocation list" where
  "splitGap i g nets inFlight lw tgt existingTotal =
     bind_res (ratFromFloat ''buffer_fraction'' (BufferFraction (Config i))) (\<lambda>bufferFracRat.
       let bufferGap = g * bufferFracRat;
           coreGap = g - bufferGap;
           flexLayer = fst (findLayerForRole (Layers i) RoleFlex);
           (baseLayer, hasBase) = findLayerForRole (Layers i) RoleBase;
           (bufferLayer, hasBuffer) = findLayerForRole (Layers i) RoleBuffer
       in if bufferGap > 0 \<and> \<not> hasBuffer
          then Inl (Errorf ''buffer_fraction %g > 0 but no buffer-role layer configured'' [ArgF (BufferFraction (Config i))])
          else bind_res (computeBaseGap coreGap hasBase (Baseline i) baseLayer nets inFlight) (\<lambda>(baseGap, note).
            let flexGap = coreGap - baseGap;
                c = \<lparr>ac_lowWater = lw, ac_target = tgt, ac_existing = existingTotal, ac_gap = g, ac_baseNote = note,
                     ac_basisNote = basisNote (Basis (Baseline i)), ac_dataSources = DataSources i, ac_cfg = Config i\<rparr>
            in Inr (assembleAllocations c baseGap flexGap bufferGap baseLayer flexLayer bufferLayer hasBase)))"

section \<open>The base share\<close>

lemma baseGap_bounds:
  assumes "computeBaseGap core hasBase bl l nets fl = Inr (b, note)" and "0 \<le> core"
  shows "0 \<le> b \<and> b \<le> core"
  using assms by (auto simp: computeBaseGap_def Let_def split: if_splits option.splits)

text \<open>The base layer is never sized past the stable level, counting what it already has.\<close>

lemma baseGap_stable:
  assumes "computeBaseGap core True bl l nets fl = Inr (b, note)" and "0 < b"
  shows "\<exists>s. StableUSDPerHour bl = Some (Fin s)
    \<and> (case nets l of None \<Rightarrow> 0 | Some n \<Rightarrow> n) + (case fl l of None \<Rightarrow> 0 | Some f \<Rightarrow> f) + b \<le> s"
  using assms by (auto simp: computeBaseGap_def Let_def split: if_splits option.splits)

section \<open>The assembled allocations\<close>

lemma mkAllocation_simps [simp]:
  "al_Layer (mkAllocation c l g r n) = l" "od_of (mkAllocation c l g r n) = g"
  "alloc_sized (mkAllocation c l g r n) \<longleftrightarrow> 0 < g" "al_DataSources (mkAllocation c l g r n) = ac_dataSources c"
  by (simp_all add: mkAllocation_def od_of_def alloc_sized_def Let_def)

lemma assemble_total:
  assumes "0 \<le> b" "0 \<le> f" "0 \<le> u" and "\<not> hasBase \<Longrightarrow> b = 0"
  shows "sum_list (map od_of (assembleAllocations c b f u bl fl ul hasBase)) = b + f + u"
  using assms by (auto simp: assembleAllocations_def Let_def)

lemma assemble_sized: "\<forall>a \<in> set (assembleAllocations c b f u bl fl ul hasBase). alloc_sized a"
  by (auto simp: assembleAllocations_def Let_def)

lemma assemble_layers:
  assumes "a \<in> set (assembleAllocations c b f u bl fl ul hasBase)"
  shows "al_Layer a = fl \<or> hasBase \<and> al_Layer a = bl \<or> u > 0 \<and> al_Layer a = ul"
  using assms by (auto simp: assembleAllocations_def Let_def split: if_splits)

lemma assemble_distinct:
  assumes "hasBase \<Longrightarrow> bl \<noteq> fl" and "0 < u \<Longrightarrow> ul \<noteq> fl"
  shows "distinct (map al_Layer (assembleAllocations c b f u bl fl ul hasBase))"
  using assms by (auto simp: assembleAllocations_def Let_def)

text \<open>In a valid topology the flex layer carries no other role.\<close>

lemma flex_layer_apart:
  assumes "validateLayers layers = None" and "findLayerForRole layers RoleFlex = (f, True)"
    and "findLayerForRole layers role = (l, True)" and "role = RoleBase \<or> role = RoleBuffer"
  shows "l \<noteq> f"
proof
  assume "l = f"
  from findLayer_Some [OF assms(2)] obtain p where p: "p \<in> set layers" "Type p = f" "RoleFlex \<in> set (Roles p)" by blast
  from findLayer_Some [OF assms(3)] obtain q where q: "q \<in> set layers" "Type q = l" "role \<in> set (Roles q)" by blast
  have "distinct (map Type layers)" using assms(1) by (simp add: layers_valid_iff)
  with p q \<open>l = f\<close> have "p = q" by (auto simp: distinct_map inj_on_def)
  with p q assms(1,4) show False by (auto simp: layers_valid_iff spec_ok_def)
qed

text \<open>Everything \<open>splitGap\<close> promises for a valid input and a positive gap.\<close>

lemma splitGap_spec:
  assumes "splitGap i g nets fl lw tgt ex = Inr as" and "validateAllocateInput i = None" and "0 \<le> g"
  shows "sum_list (map od_of as) = g" and "\<forall>a \<in> set as. alloc_sized a"
    and "\<forall>a \<in> set as. al_Layer a \<in> Type ` set (Layers i)" and "distinct (map al_Layer as)"
proof -
  obtain flex where flex: "findLayerForRole (Layers i) RoleFlex = (flex, True)" "flex \<in> Type ` set (Layers i)"
    using flex_layer_exists [of "Layers i"] assms(2) by (metis input_valid_iff)
  obtain bl hasBase where bl: "findLayerForRole (Layers i) RoleBase = (bl, hasBase)" by fastforce
  obtain ul hasBuffer where ul: "findLayerForRole (Layers i) RoleBuffer = (ul, hasBuffer)" by fastforce
  obtain bf where bf: "BufferFraction (Config i) = Fin bf" "0 \<le> bf" "bf < 1"
    using assms(2) by (auto simp: input_valid_iff config_valid_iff baseline_bounds_iff)
  let ?u = "g * bf" and ?core = "g - g * bf"
  from assms(1) obtain b nt c where hb: "\<not> (0 < ?u \<and> \<not> hasBuffer)"
    and base: "computeBaseGap ?core hasBase (Baseline i) bl nets fl = Inr (b, nt)"
    and as: "as = assembleAllocations c b (?core - b) ?u bl flex ul hasBase"
    by (auto simp: splitGap_def Let_def flex bl ul bf split: if_splits)
  have "g * bf \<le> g * 1" using bf assms(3) by (intro mult_left_mono) auto
  then have core: "0 \<le> ?core" by simp
  have u: "0 \<le> ?u" using bf assms(3) by simp
  note bb = baseGap_bounds [OF base core]
  have nb: "\<not> hasBase \<Longrightarrow> b = 0" using base by (simp add: computeBaseGap_def)
  show "sum_list (map od_of as) = g"
    unfolding as using assemble_total [of b "?core - b" ?u hasBase] bb u nb by simp
  show "\<forall>a \<in> set as. alloc_sized a" unfolding as by (rule assemble_sized)
  have lt: "validateLayers (Layers i) = None" using assms(2) by (simp add: input_valid_iff)
  have buf: "0 < ?u \<Longrightarrow> ul \<in> Type ` set (Layers i) \<and> ul \<noteq> flex"
    using hb ul findLayer_Some [of "Layers i" RoleBuffer ul] flex_layer_apart [OF lt flex(1), of RoleBuffer ul] by auto
  have bas: "hasBase \<Longrightarrow> bl \<in> Type ` set (Layers i) \<and> bl \<noteq> flex"
    using bl findLayer_Some [of "Layers i" RoleBase bl] flex_layer_apart [OF lt flex(1), of RoleBase bl] by auto
  show "\<forall>a \<in> set as. al_Layer a \<in> Type ` set (Layers i)"
    using assemble_layers buf bas flex(2) unfolding as by blast
  show "distinct (map al_Layer as)"
    unfolding as using buf bas by (intro assemble_distinct) auto
qed

end
