(* ===== verification/Ladder_Guards.thy ===== *)
theory Ladder_Guards
  imports Ladder_Split
begin

text \<open>
  The guardrails of \<open>pkg/ladder/allocate.go\<close> applied after the split: reshape detection, the
  hold of purchases on a layer about to be reshaped, the per-run spend cap, the minimum
  amount, and the truncation to the per-run action limit. Each stage that removes an
  allocation turns it into an audit hold.
\<close>

section \<open>Reshape detection\<close>

definition util_unknown_hold :: "go_string list \<Rightarrow> LayerType \<Rightarrow> PlannedAction" where
  "util_unknown_hold ds l = mk_hold l (''buffer layer '' @ l @ '': utilization unknown; reshape not evaluated'') ds"

definition reshape_action :: "go_string list \<Rightarrow> float64 \<Rightarrow> LayerType \<Rightarrow> float64 \<Rightarrow> PlannedAction" where
  "reshape_action ds threshold l u = mk_reshape l (''buffer layer '' @ l @ '': utilization '' @ fmt_fixed 1 u
     @ ''% is below threshold '' @ fmt_fixed 1 threshold @ ''%; reshape recommended'') ds"

fun detectReshapes :: "LayerSpec list \<Rightarrow> (LayerType, LayerState) go_map \<Rightarrow> float64 \<Rightarrow> go_string list
    \<Rightarrow> PlannedAction list \<times> PlannedAction list" where
  "detectReshapes [] states threshold ds = ([], [])"
| "detectReshapes (ls # lss) states threshold ds =
    (let (reshapes, holds) = detectReshapes lss states threshold ds; st = state_of states (Type ls) in
     if \<not> slices_contains (Roles ls) RoleBuffer then (reshapes, holds)
     else if feq (the (ExistingUSDPerHour st)) 0 then (reshapes, holds)
     else case UtilizationPct st of
       None \<Rightarrow> (reshapes, util_unknown_hold ds (Type ls) # holds)
     | Some u \<Rightarrow> if u < threshold then (reshape_action ds threshold (Type ls) u # reshapes, holds)
         else (reshapes, holds))"

text \<open>A reshape is recommended exactly for a non-empty buffer layer measured below the threshold.\<close>

lemma detectReshapes_mem:
  "r \<in> set (fst (detectReshapes lss states th ds)) \<longleftrightarrow> (\<exists>ls \<in> set lss. \<exists>u. RoleBuffer \<in> set (Roles ls)
     \<and> \<not> feq (the (ExistingUSDPerHour (state_of states (Type ls)))) 0
     \<and> UtilizationPct (state_of states (Type ls)) = Some u \<and> u < th \<and> r = reshape_action ds th (Type ls) u)"
proof (induction lss)
  case Nil
  then show ?case by simp
next
  case (Cons ls lss)
  show ?case
    unfolding detectReshapes.simps(2) Let_def case_prod_beta
    by (simp split: if_splits option.splits) (use Cons.IH in \<open>auto simp: Let_def\<close>)
qed

lemma detect_holds_mem:
  "h \<in> set (snd (detectReshapes lss states th ds)) \<longleftrightarrow> (\<exists>ls \<in> set lss. RoleBuffer \<in> set (Roles ls)
     \<and> \<not> feq (the (ExistingUSDPerHour (state_of states (Type ls)))) 0
     \<and> UtilizationPct (state_of states (Type ls)) = None \<and> h = util_unknown_hold ds (Type ls))"
proof (induction lss)
  case Nil
  then show ?case by simp
next
  case (Cons ls lss)
  show ?case
    unfolding detectReshapes.simps(2) Let_def case_prod_beta
    by (simp split: if_splits option.splits) (use Cons.IH in \<open>auto simp: Let_def\<close>)
qed

lemma detect_count: "length (fst (detectReshapes lss states th ds)) \<le> role_count RoleBuffer lss"
  by (induction lss) (auto simp: Let_def role_count_def case_prod_beta split: option.splits)

lemma reshape_action_layer [simp]: "pa_Layer (reshape_action ds th l u) = l"
  by (simp add: reshape_action_def)

section \<open>Reshaped buffer layers\<close>

definition bufferOnly :: "LayerSpec list \<Rightarrow> LayerType \<Rightarrow> bool" where
  "bufferOnly layers l = (case List.find (\<lambda>ls. Type ls = l) (rev layers) of None \<Rightarrow> False
     | Some ls \<Rightarrow> slices_contains (Roles ls) RoleBuffer \<and> \<not> slices_contains (Roles ls) RoleBase)"

definition reshaped_hold :: "go_string list \<Rightarrow> Allocation \<Rightarrow> PlannedAction" where
  "reshaped_hold ds a = mk_hold (al_Layer a)
     (''buffer purchase of '' @ fmtRatUSD (od_of a) @ '' on layer '' @ al_Layer a @ '' withheld: the layer has a pending reshape recommendation, so buying more of an under-utilized layer is deferred'') ds"

definition is_reshaped :: "PlannedAction list \<Rightarrow> LayerSpec list \<Rightarrow> LayerType \<Rightarrow> bool" where
  "is_reshaped reshapes layers l \<longleftrightarrow> l \<in> pa_Layer ` set reshapes \<and> bufferOnly layers l"

definition holdReshapedBufferAllocations :: "Allocation list \<Rightarrow> PlannedAction list \<Rightarrow> LayerSpec list \<Rightarrow> go_string list
    \<Rightarrow> Allocation list \<times> PlannedAction list" where
  "holdReshapedBufferAllocations allocs reshapes layers ds =
    (if reshapes = [] then (allocs, [])
     else (filter (\<lambda>a. \<not> is_reshaped reshapes layers (al_Layer a)) allocs,
       map (reshaped_hold ds) (filter (\<lambda>a. is_reshaped reshapes layers (al_Layer a)) allocs)))"

lemma reshaped_hold_simps [simp]:
  "pa_Layer (reshaped_hold ds a) = al_Layer a" "Action (reshaped_hold ds a) = ActionHold"
  "PlannedAction_Validate (reshaped_hold ds a) = None \<longleftrightarrow> LayerType_Validate (al_Layer a) = None"
  by (simp_all add: reshaped_hold_def)

lemma hold_reshaped_eq:
  "holdReshapedBufferAllocations allocs reshapes layers ds =
    (filter (\<lambda>a. \<not> is_reshaped reshapes layers (al_Layer a)) allocs,
     map (reshaped_hold ds) (filter (\<lambda>a. is_reshaped reshapes layers (al_Layer a)) allocs))"
  by (simp add: holdReshapedBufferAllocations_def is_reshaped_def)

interpretation reshape_stage: audited_stage "\<lambda>as. holdReshapedBufferAllocations as reshapes layers ds" al_Layer pa_Layer
  for reshapes layers ds
proof
  fix xs :: "Allocation list"
  show "image_mset al_Layer (mset (fst (holdReshapedBufferAllocations xs reshapes layers ds)))
      + image_mset pa_Layer (mset (snd (holdReshapedBufferAllocations xs reshapes layers ds))) = image_mset al_Layer (mset xs)"
    using mset_filter_split [of al_Layer "\<lambda>a. \<not> is_reshaped reshapes layers (al_Layer a)" xs]
    by (simp add: hold_reshaped_eq image_mset.compositionality o_def)
qed

section \<open>The spend cap\<close>

definition total_gap :: "Allocation list \<Rightarrow> rat" where
  "total_gap as = sum_list (map gap_of as)"

definition scale_alloc :: "rat \<Rightarrow> Allocation \<Rightarrow> Allocation" where
  "scale_alloc scale a = \<lparr>al_Layer = al_Layer a, GapUSDPerHour = Some (gap_of a * scale),
     OnDemandEquivalentUSDPerHour = Some (od_of a * scale), Rate = Rate a,
     al_Rationale = al_Rationale a @ ''; capped by max_hourly_commit_per_run: scaled to '' @ fmtRatUSD (gap_of a * scale)
       @ '' ('' @ fmt_fixed 2 (rnd (scale * 100)) @ ''% of requested)'',
     al_DataSources = al_DataSources a\<rparr>"

definition applyCapGuardrail :: "Allocation list \<Rightarrow> float64 option \<Rightarrow> ladder_error + Allocation list" where
  "applyCapGuardrail allocs maxPerRun = (case maxPerRun of None \<Rightarrow> Inr allocs
   | Some m \<Rightarrow> if allocs = [] then Inr allocs
     else bind_res (ratFromFloat ''max_hourly_commit_per_run'' m) (\<lambda>capRat.
       let tot = total_gap allocs in
       if tot \<le> 0 \<or> capRat \<ge> tot then Inr allocs
       else Inr (map (scale_alloc (capRat / tot)) allocs)))"

lemma scale_alloc_simps [simp]:
  "al_Layer (scale_alloc s a) = al_Layer a" "Rate (scale_alloc s a) = Rate a" "gap_of (scale_alloc s a) = gap_of a * s" "od_of (scale_alloc s a) = od_of a * s"
  by (simp_all add: scale_alloc_def gap_of_def od_of_def)

lemma scale_alloc_priced: "alloc_priced a \<Longrightarrow> 0 < s \<Longrightarrow> alloc_priced (scale_alloc s a)"
  by (auto simp: alloc_priced_def alloc_sized_def scale_alloc_def od_of_def gap_of_def)

lemma total_gap_scale: "total_gap (map (scale_alloc s) as) = total_gap as * s"
  by (induction as) (simp_all add: total_gap_def algebra_simps)

lemma od_sum_scale: "sum_list (map od_of (map (scale_alloc s) as)) = sum_list (map od_of as) * s"
  by (induction as) (simp_all add: algebra_simps)

text \<open>
  Capping a priced list keeps it priced, on the same layers, never larger, and within the cap;
  when it scales, the total is exactly the cap.
\<close>

lemma cap_spec:
  assumes "applyCapGuardrail as m = Inr bs" and "\<forall>a \<in> set as. alloc_priced a"
    and "\<And>v. m = Some v \<Longrightarrow> \<exists>c. v = Fin c \<and> 0 < c"
  shows "\<forall>b \<in> set bs. alloc_priced b"
    and "map (\<lambda>b. (al_Layer b, Rate b)) bs = map (\<lambda>a. (al_Layer a, Rate a)) as"
    and "sum_list (map od_of bs) \<le> sum_list (map od_of as)"
    and "\<And>c. m = Some (Fin c) \<Longrightarrow> total_gap bs = min c (total_gap as)"
proof -
  have od: "0 \<le> sum_list (map od_of as)"
    using assms(2) alloc_sized_od by (intro sum_list_nonneg) (auto simp: alloc_priced_def less_imp_le)
  consider (same) "bs = as" "\<And>c. m = Some (Fin c) \<Longrightarrow> total_gap as \<le> c"
    | (scaled) c where "m = Some (Fin c)" "0 < c" "c < total_gap as" "bs = map (scale_alloc (c / total_gap as)) as"
  proof (cases m)
    case None
    with assms(1) that(1) show thesis by (simp add: applyCapGuardrail_def)
  next
    case (Some v)
    then obtain c where c: "m = Some (Fin c)" "0 < c" using assms(3) by blast
    show thesis
    proof (cases "as = []")
      case True
      with assms(1) c that(1) show thesis by (auto simp: applyCapGuardrail_def total_gap_def)
    next
      case False
      with assms(1) c have "bs = as \<and> (total_gap as \<le> 0 \<or> total_gap as \<le> c)
          \<or> c < total_gap as \<and> bs = map (scale_alloc (c / total_gap as)) as"
        by (simp add: applyCapGuardrail_def Let_def split: if_splits)
      then show thesis
      proof (elim disjE conjE)
        assume "bs = as" "total_gap as \<le> 0"
        then show thesis using c that(1) by simp
      next
        assume "bs = as" "total_gap as \<le> c"
        then show thesis using c that(1) by simp
      next
        assume "c < total_gap as" "bs = map (scale_alloc (c / total_gap as)) as"
        then show thesis using c that(2) by simp
      qed
    qed
  qed
  note cases = this
  show "\<forall>b \<in> set bs. alloc_priced b"
    using cases assms(2) scale_alloc_priced by cases auto
  show "map (\<lambda>b. (al_Layer b, Rate b)) bs = map (\<lambda>a. (al_Layer a, Rate a)) as"
    using cases by cases auto
  show "sum_list (map od_of bs) \<le> sum_list (map od_of as)"
  proof (cases rule: cases)
    case same
    then show ?thesis by simp
  next
    case (scaled c)
    have "sum_list (map od_of as) * (c / total_gap as) \<le> sum_list (map od_of as)"
      using od scaled by (intro mult_left_le) simp_all
    then show ?thesis unfolding scaled(4) od_sum_scale .
  qed
  show "\<And>c. m = Some (Fin c) \<Longrightarrow> total_gap bs = min c (total_gap as)"
    using cases by cases (auto simp: total_gap_scale)
qed

section \<open>The minimum amount\<close>

definition sub_min_hold :: "go_string list \<Rightarrow> Allocation \<Rightarrow> PlannedAction" where
  "sub_min_hold ds a = mk_hold (al_Layer a) (''allocation of '' @ fmtRatUSD (gap_of a) @ '' on layer '' @ al_Layer a
     @ '' is below minimum allocatable amount; skipped (minimum '' @ fmtRatUSD minAllocatableGap @ '')'') ds"

definition dropSubMinimumAllocations :: "Allocation list \<Rightarrow> go_string list \<Rightarrow> Allocation list \<times> PlannedAction list" where
  "dropSubMinimumAllocations allocs ds =
    (filter (\<lambda>a. \<not> gap_of a < minAllocatableGap) allocs,
     map (sub_min_hold ds) (filter (\<lambda>a. gap_of a < minAllocatableGap) allocs))"

lemma sub_min_hold_simps [simp]:
  "pa_Layer (sub_min_hold ds a) = al_Layer a" "Action (sub_min_hold ds a) = ActionHold"
  "PlannedAction_Validate (sub_min_hold ds a) = None \<longleftrightarrow> LayerType_Validate (al_Layer a) = None"
  by (simp_all add: sub_min_hold_def)

interpretation min_stage: audited_stage "\<lambda>as. dropSubMinimumAllocations as ds" al_Layer pa_Layer for ds
proof
  fix xs :: "Allocation list"
  show "image_mset al_Layer (mset (fst (dropSubMinimumAllocations xs ds)))
      + image_mset pa_Layer (mset (snd (dropSubMinimumAllocations xs ds))) = image_mset al_Layer (mset xs)"
    using mset_filter_split [of al_Layer "\<lambda>a. \<not> gap_of a < minAllocatableGap" xs]
    by (simp add: dropSubMinimumAllocations_def image_mset.compositionality o_def)
qed

section \<open>The action limit\<close>

definition layerUtilPctOrMax :: "(LayerType, LayerState) go_map \<Rightarrow> LayerType \<Rightarrow> float64" where
  "layerUtilPctOrMax states layer = (case map_of states layer of None \<Rightarrow> Fin 100
     | Some st \<Rightarrow> (case UtilizationPct st of None \<Rightarrow> Fin 100 | Some u \<Rightarrow> u))"

definition reshape_le :: "(LayerType, LayerState) go_map \<Rightarrow> PlannedAction \<Rightarrow> PlannedAction \<Rightarrow> bool" where
  "reshape_le states a b = (let au = layerUtilPctOrMax states (pa_Layer a); bu = layerUtilPctOrMax states (pa_Layer b) in
     if au < bu then True else if au > bu then False else \<not> pa_Layer a > pa_Layer b)"

definition dropped_reshape_hold :: "go_string list \<Rightarrow> int \<Rightarrow> PlannedAction \<Rightarrow> PlannedAction" where
  "dropped_reshape_hold ds maxActions r = mk_hold (pa_Layer r) (''deferred to a later run: max_actions_per_run='' @ show_int maxActions
     @ '' reached (dropped reshape on '' @ pa_Layer r @ '')'') ds"

definition truncateReshapes :: "PlannedAction list \<Rightarrow> int \<Rightarrow> (LayerType, LayerState) go_map \<Rightarrow> go_string list
    \<Rightarrow> PlannedAction list \<times> PlannedAction list" where
  "truncateReshapes reshapes maxActions states ds = (let srt = sort_stable (reshape_le states) reshapes in
     (take (nat maxActions) srt, map (dropped_reshape_hold ds maxActions) (drop (nat maxActions) srt)))"

definition purchase_le :: "Allocation \<Rightarrow> Allocation \<Rightarrow> bool" where
  "purchase_le a b = (if gap_of b < gap_of a then True else if gap_of b > gap_of a then False
     else \<not> al_Layer a > al_Layer b)"

definition dropped_purchase_hold :: "go_string list \<Rightarrow> int \<Rightarrow> Allocation \<Rightarrow> PlannedAction" where
  "dropped_purchase_hold ds maxActions a = mk_hold (al_Layer a) (''deferred to a later run: max_actions_per_run='' @ show_int maxActions
     @ '' reached (dropped '' @ fmtRatUSD (gap_of a) @ '' on '' @ al_Layer a @ '')'') ds"

definition truncatePurchases :: "Allocation list \<Rightarrow> int \<Rightarrow> int \<Rightarrow> go_string list \<Rightarrow> Allocation list \<times> PlannedAction list" where
  "truncatePurchases allocs purchaseCap maxActions ds = (let srt = sort_stable purchase_le allocs in
     (take (nat purchaseCap) srt, map (dropped_purchase_hold ds maxActions) (drop (nat purchaseCap) srt)))"

definition truncateToMaxActions :: "Allocation list \<Rightarrow> PlannedAction list \<Rightarrow> int \<Rightarrow> (LayerType, LayerState) go_map
    \<Rightarrow> go_string list \<Rightarrow> Allocation list \<times> PlannedAction list \<times> PlannedAction list" where
  "truncateToMaxActions allocs reshapes maxActions states ds =
    (if int (length allocs) + int (length reshapes) \<le> maxActions then (allocs, reshapes, [])
     else if int (length reshapes) \<ge> maxActions then
       (let (keptReshapes, reshapeHolds) = truncateReshapes reshapes maxActions states ds;
            allocHolds = snd (truncatePurchases allocs 0 maxActions ds)
        in ([], keptReshapes, allocHolds @ reshapeHolds))
     else
       (let (kept, holds) = truncatePurchases allocs (maxActions - int (length reshapes)) maxActions ds
        in (kept, reshapes, holds)))"

lemma dropped_hold_simps [simp]:
  "pa_Layer (dropped_reshape_hold ds m r) = pa_Layer r" "pa_Layer (dropped_purchase_hold ds m a) = al_Layer a"
  "Action (dropped_reshape_hold ds m r) = ActionHold" "Action (dropped_purchase_hold ds m a) = ActionHold"
  "PlannedAction_Validate (dropped_reshape_hold ds m r) = None \<longleftrightarrow> LayerType_Validate (pa_Layer r) = None"
  "PlannedAction_Validate (dropped_purchase_hold ds m a) = None \<longleftrightarrow> LayerType_Validate (al_Layer a) = None"
  by (simp_all add: dropped_reshape_hold_def dropped_purchase_hold_def)

interpretation purchase_order: sort_order purchase_le
proof
  fix a b c :: Allocation
  show "purchase_le a b \<or> purchase_le b a" by (auto simp: purchase_le_def not_less)
  show "purchase_le a b \<Longrightarrow> purchase_le b c \<Longrightarrow> purchase_le a c"
    by (auto simp: purchase_le_def not_less split: if_splits)
qed

text \<open>What truncation keeps is no smaller than what it drops.\<close>

lemma truncate_keeps_largest:
  assumes "a \<in> set (take n (sort_stable purchase_le as))" and "b \<in> set (drop n (sort_stable purchase_le as))"
  shows "gap_of b \<le> gap_of a"
  using purchase_order.take_le_drop [OF assms] by (auto simp: purchase_le_def split: if_splits)

interpretation truncate_stage: audited_stage "\<lambda>as. truncatePurchases as n m ds" al_Layer pa_Layer for n m ds
proof
  fix xs :: "Allocation list"
  show "image_mset al_Layer (mset (fst (truncatePurchases xs n m ds)))
      + image_mset pa_Layer (mset (snd (truncatePurchases xs n m ds))) = image_mset al_Layer (mset xs)"
    by (simp add: truncatePurchases_def Let_def image_mset.compositionality o_def take_drop_image)
qed

interpretation truncate_reshape_stage: audited_stage "\<lambda>rs. truncateReshapes rs m states ds" pa_Layer pa_Layer
  for m states ds
proof
  fix xs :: "PlannedAction list"
  show "image_mset pa_Layer (mset (fst (truncateReshapes xs m states ds)))
      + image_mset pa_Layer (mset (snd (truncateReshapes xs m states ds))) = image_mset pa_Layer (mset xs)"
    by (simp add: truncateReshapes_def Let_def image_mset.compositionality o_def take_drop_image)
qed

text \<open>The limit holds, and every purchase and reshape is kept or held.\<close>

lemma truncate_limit:
  assumes "truncateToMaxActions as rs m states ds = (as', rs', hs)" and "0 \<le> m"
  shows "int (length as') + int (length rs') \<le> m"
proof -
  consider "int (length as) + int (length rs) \<le> m" | "\<not> int (length as) + int (length rs) \<le> m" "int (length rs) \<ge> m"
    | "\<not> int (length as) + int (length rs) \<le> m" "\<not> int (length rs) \<ge> m" by linarith
  then show ?thesis
    using assms by cases (auto simp: truncateToMaxActions_def truncateReshapes_def truncatePurchases_def Let_def)
qed

lemma truncate_accounted:
  assumes "truncateToMaxActions as rs m states ds = (as', rs', hs)"
  shows "image_mset al_Layer (mset as') + image_mset pa_Layer (mset rs') + image_mset pa_Layer (mset hs)
    = image_mset al_Layer (mset as) + image_mset pa_Layer (mset rs)"
proof -
  consider (fits) "int (length as) + int (length rs) \<le> m"
    | (reshapes) "\<not> int (length as) + int (length rs) \<le> m" "int (length rs) \<ge> m"
    | (purchases) "\<not> int (length as) + int (length rs) \<le> m" "\<not> int (length rs) \<ge> m" by linarith
  then show ?thesis
  proof cases
    case fits
    with assms show ?thesis by (simp add: truncateToMaxActions_def)
  next
    case reshapes
    have e: "fst (truncatePurchases as 0 m ds) = []" by (simp add: truncatePurchases_def Let_def)
    show ?thesis
      using assms reshapes truncate_stage.accounted [where xs = as and n = 0 and m = m and ds = ds]
        truncate_reshape_stage.accounted [where xs = rs and m = m and states = states and ds = ds] e
      by (auto simp: truncateToMaxActions_def Let_def case_prod_beta ac_simps)
  next
    case purchases
    then show ?thesis
      using assms truncate_stage.accounted [where xs = as and n = "m - int (length rs)" and m = m and ds = ds]
      by (auto simp: truncateToMaxActions_def Let_def case_prod_beta ac_simps)
  qed
qed

lemma truncate_sub:
  assumes "truncateToMaxActions as rs m states ds = (as', rs', hs)"
  shows "mset as' \<subseteq># mset as" and "set rs' \<subseteq> set rs"
proof -
  have t: "mset (take n (sort_stable purchase_le as)) \<subseteq># mset as" for n
    by (metis append_take_drop_id mset_append mset_sort_stable mset_subset_eq_add_left)
  show "mset as' \<subseteq># mset as"
    using assms t by (auto simp: truncateToMaxActions_def truncatePurchases_def truncateReshapes_def Let_def split: if_splits)
  show "set rs' \<subseteq> set rs"
    using assms set_take_subset [of "nat m" "sort_stable (reshape_le states) rs"]
    by (auto simp: truncateToMaxActions_def truncatePurchases_def truncateReshapes_def Let_def split: if_splits)
qed

text \<open>With a single reshape and a positive limit the reshape is always kept.\<close>

lemma truncate_single_reshape:
  assumes "truncateToMaxActions as rs m states ds = (as', rs', hs)" and "length rs \<le> 1" and "0 < m"
  shows "rs' = rs"
proof (cases rs)
  case Nil
  with assms show ?thesis by (auto simp: truncateToMaxActions_def case_prod_beta Let_def split: if_splits)
next
  case (Cons x xs)
  with assms(2) have rs: "rs = [x]" by simp
  have "nat m \<ge> 1" using assms(3) by simp
  with assms(1) rs show ?thesis
    by (auto simp: truncateToMaxActions_def truncateReshapes_def sort_stable_def case_prod_beta Let_def split: if_splits)
qed

end
