(* ===== verification/Ladder_Allocate.thy ===== *)
theory Ladder_Allocate
  imports Ladder_Guards
begin

text \<open>
  \<open>Allocate\<close> of \<open>pkg/ladder/allocate.go\<close>: the composition of the stages and the properties of
  a whole run.
\<close>

record AllocateResult =
  NetExistingUSDPerHour :: "rat option"
  Allocations :: "Allocation list"
  Reshapes :: "PlannedAction list"
  Holds :: "PlannedAction list"

definition IsNoOp :: "AllocateResult \<Rightarrow> bool" where
  "IsNoOp r \<longleftrightarrow> length (Allocations r) = 0 \<and> length (Reshapes r) = 0"

definition hold_result :: "PlannedAction \<Rightarrow> AllocateResult" where
  "hold_result h = \<lparr>NetExistingUSDPerHour = None, Allocations = [], Reshapes = [], Holds = [h]\<rparr>"

definition withMaintenance :: "AllocateResult \<Rightarrow> PlannedAction list \<Rightarrow> PlannedAction list \<Rightarrow> AllocateResult" where
  "withMaintenance r reshapes maintHolds = r\<lparr>Reshapes := Reshapes r @ reshapes, Holds := Holds r @ maintHolds\<rparr>"

definition baselineUnavailableHold :: "AllocationInput \<Rightarrow> AllocateResult" where
  "baselineUnavailableHold i = hold_result (mk_hold (fst (findLayerForRole (Layers i) RoleFlex))
     ''baseline unavailable: LowWaterUSDPerHour is nil; cannot compute allocation gap'' (DataSources i))"

definition gapBelowMinHold :: "rat \<Rightarrow> rat \<Rightarrow> rat \<Rightarrow> rat \<Rightarrow> rat \<Rightarrow> AllocationInput \<Rightarrow> AllocateResult" where
  "gapBelowMinHold g lw tgt existingTotal inFlight i = hold_result (mk_hold (fst (findLayerForRole (Layers i) RoleFlex))
     (''target already met: low_water='' @ fmtRatUSD lw @ '', target='' @ fmt_fixed 2 (TargetCoveragePct (Config i))
      @ ''%, existing='' @ fmtRatUSD existingTotal @ '', in_flight='' @ fmtRatUSD inFlight @ '', target_od='' @ fmtRatUSD tgt
      @ '', gap='' @ fmtRatUSD g @ '' <= min_allocatable='' @ fmtRatUSD minAllocatableGap @ basisNote (Basis (Baseline i)))
     (DataSources i))"

definition residualPartialTargetHold :: "AllocationInput \<Rightarrow> rat \<Rightarrow> rat \<Rightarrow> AllocateResult option" where
  "residualPartialTargetHold i lw g =
    (if \<not> isResidual (Basis (Baseline i)) \<or> TargetCoveragePct (Config i) \<ge> Fin 100
        \<or> \<not> hasExistingCommitment (Layers i) (LayerStates i) then None
     else Some (hold_result (mk_hold (fst (findLayerForRole (Layers i) RoleFlex))
       (''residual baseline cannot size a partial target: target='' @ fmt_fixed 2 (TargetCoveragePct (Config i))
        @ ''% < 100% with existing commitment; the gap depends on covered usage the residual excludes (upper bound ''
        @ fmtRatUSD g @ '' from low_water='' @ fmtRatUSD lw
        @ ''), so nothing is bought; use target 100% or a total-demand baseline'') (DataSources i))))"

definition buildResult :: "AllocationInput \<Rightarrow> rat \<Rightarrow> rat \<Rightarrow> rat \<Rightarrow> rat \<Rightarrow> (LayerType \<rightharpoonup> rat) \<Rightarrow> (LayerType \<rightharpoonup> rat)
    \<Rightarrow> (LayerType \<rightharpoonup> rat) \<Rightarrow> PlannedAction list \<Rightarrow> PlannedAction list \<Rightarrow> ladder_error + AllocateResult" where
  "buildResult i lw tgt existingTotal g nets inFlight rates reshapes maintHolds =
     bind_res (splitGap i g nets inFlight lw tgt existingTotal) (\<lambda>allocs0.
       let (allocs1, reshapeHolds) = holdReshapedBufferAllocations allocs0 reshapes (Layers i) (DataSources i);
           (allocs2, rateHolds) = convertAllocations allocs1 rates (DataSources i) in
       bind_res (applyCapGuardrail allocs2 (MaxHourlyCommitPerRun (Config i))) (\<lambda>allocs3.
         let (allocs4, skipHolds) = dropSubMinimumAllocations allocs3 (DataSources i);
             (allocs5, reshapes', truncHolds) = truncateToMaxActions allocs4 reshapes (MaxActionsPerRun (Config i))
               (LayerStates i) (DataSources i)
         in Inr \<lparr>NetExistingUSDPerHour = None, Allocations = allocs5, Reshapes = reshapes',
              Holds = maintHolds @ reshapeHolds @ rateHolds @ skipHolds @ truncHolds\<rparr>))"

definition run_gap :: "rat \<Rightarrow> rat \<Rightarrow> rat \<Rightarrow> rat \<Rightarrow> rat" where
  "run_gap lw tgt gapExisting inFlight = minRat (tgt - gapExisting) (lw - gapExisting) - inFlight"

definition allocate :: "AllocationInput \<Rightarrow> (LayerType \<rightharpoonup> rat) \<Rightarrow> rat \<Rightarrow> ladder_error + AllocateResult" where
  "allocate i nets existingTotal =
     bind_res (parseCommitmentRates (the (CommitmentRates i))) (\<lambda>rates.
     bind_res (inFlightToOD (Layers i) (the (InFlight i))) (\<lambda>(inFlightByLayer, inFlight).
       let (reshapes, maintHolds) = detectReshapes (Layers i) (LayerStates i)
             (BufferUtilizationThresholdPct (Config i)) (DataSources i) in
       if LowWaterUSDPerHour (Baseline i) = None
       then Inr (withMaintenance (baselineUnavailableHold i) reshapes maintHolds)
       else bind_res (computeBaselineAndTarget i) (\<lambda>(lw, tgt).
         let (gapExisting, gapNets) = existingForBasis (Basis (Baseline i)) nets existingTotal;
             g = run_gap lw tgt gapExisting inFlight in
         if g \<le> minAllocatableGap
         then Inr (withMaintenance (gapBelowMinHold g lw tgt existingTotal inFlight i) reshapes maintHolds)
         else case residualPartialTargetHold i lw g of
           Some h \<Rightarrow> Inr (withMaintenance h reshapes maintHolds)
         | None \<Rightarrow> buildResult i lw tgt existingTotal g gapNets inFlightByLayer rates reshapes maintHolds)))"

definition Allocate :: "AllocationInput option \<Rightarrow> ladder_error + AllocateResult" where
  "Allocate inp = (case inp of
     None \<Rightarrow> Inl (Errorf ''allocation input must not be nil'' [])
   | Some i \<Rightarrow> (case validateAllocateInput i of
       Some e \<Rightarrow> Inl e
     | None \<Rightarrow> bind_res (computeNetExisting (Layers i) (LayerStates i)) (\<lambda>(nets, existingTotal).
         bind_res (allocate i nets existingTotal) (\<lambda>r.
           Inr (r\<lparr>NetExistingUSDPerHour := Some existingTotal\<rparr>)))))"

section \<open>The stages after the split, as one step\<close>

text \<open>What one run of the pipeline owes for sized allocations on distinct layers.\<close>

lemma pipeline_spec:
  assumes split: "splitGap i g nets fl lw tgt ex = Inr as0"
    and build: "buildResult i lw tgt ex g nets fl rates reshapes mh = Inr r"
    and valid: "validateAllocateInput i = None" and g: "0 \<le> g"
    and rates: "\<And>l q. rates l = Some q \<Longrightarrow> 0 < q \<and> q \<le> 1"
  shows "\<forall>a \<in> set (Allocations r). alloc_priced a \<and> minAllocatableGap \<le> gap_of a \<and> Rate a = rates (al_Layer a)"
    and "image_mset al_Layer (mset (Allocations r)) \<subseteq># image_mset al_Layer (mset (fst (holdReshapedBufferAllocations as0 reshapes (Layers i) (DataSources i))))"
    and "sum_list (map od_of (Allocations r)) \<le> g"
    and "\<And>c. MaxHourlyCommitPerRun (Config i) = Some (Fin c) \<Longrightarrow> total_gap (Allocations r) \<le> c"
    and "int (length (Allocations r)) + int (length (Reshapes r)) \<le> MaxActionsPerRun (Config i)"
    and "image_mset al_Layer (mset (Allocations r)) + image_mset pa_Layer (mset (Reshapes r))
        + image_mset pa_Layer (mset (Holds r))
      = image_mset al_Layer (mset as0) + image_mset pa_Layer (mset reshapes) + image_mset pa_Layer (mset mh)"
    and "set (Reshapes r) \<subseteq> set reshapes"
proof -
  let ?ds = "DataSources i" and ?m = "MaxActionsPerRun (Config i)"
  obtain as1 h1 where s1: "holdReshapedBufferAllocations as0 reshapes (Layers i) ?ds = (as1, h1)" by fastforce
  obtain as2 h2 where s2: "convertAllocations as1 rates ?ds = (as2, h2)" by fastforce
  from build obtain as3 where s3: "applyCapGuardrail as2 (MaxHourlyCommitPerRun (Config i)) = Inr as3"
    by (auto simp: buildResult_def split s1 s2)
  obtain as4 h4 where s4: "dropSubMinimumAllocations as3 ?ds = (as4, h4)" by fastforce
  obtain as5 rs h5 where s5: "truncateToMaxActions as4 reshapes ?m (LayerStates i) ?ds = (as5, rs, h5)"
    by (cases "truncateToMaxActions as4 reshapes ?m (LayerStates i) ?ds") auto
  have r: "Allocations r = as5" "Reshapes r = rs" "Holds r = mh @ h1 @ h2 @ h4 @ h5"
    using build by (auto simp: buildResult_def split s1 s2 s3 s4 s5)
  note sp = splitGap_spec [OF split valid g]
  have lim: "0 < ?m" and cap: "\<And>v. MaxHourlyCommitPerRun (Config i) = Some v \<Longrightarrow> \<exists>c. v = Fin c \<and> 0 < c"
    using valid by (auto simp: input_valid_iff config_valid_iff run_limits_iff)
  have e1: "as1 = filter (\<lambda>a. \<not> is_reshaped reshapes (Layers i) (al_Layer a)) as0" using s1 by (simp add: hold_reshaped_eq)
  have e2: "as2 = map (\<lambda>a. convert_one (the (rates (al_Layer a))) a) (filter (\<lambda>a. rates (al_Layer a) \<noteq> None) as1)"
    using s2 by (simp add: convertAllocations_eq)
  have e4: "as4 = filter (\<lambda>a. \<not> gap_of a < minAllocatableGap) as3" using s4 by (simp add: dropSubMinimumAllocations_def)
  have p2: "\<forall>a \<in> set as2. alloc_priced a"
    unfolding e2 using sp(2) rates by (auto simp: e1 intro!: convert_one_priced)
  note c = cap_spec [OF s3 p2 cap]
  have layers3: "map al_Layer as3 = map al_Layer as2" using arg_cong [OF c(2), of "map fst"] by (simp add: o_def)
  have "\<forall>a \<in> set as2. Rate a = rates (al_Layer a)" unfolding e2 by auto
  then have "\<forall>p \<in> set (map (\<lambda>a. (al_Layer a, Rate a)) as2). snd p = rates (fst p)" by auto
  moreover have "set (map (\<lambda>a. (al_Layer a, Rate a)) as2) = set (map (\<lambda>a. (al_Layer a, Rate a)) as3)"
    by (simp only: c(2))
  ultimately have "\<forall>p \<in> set (map (\<lambda>a. (al_Layer a, Rate a)) as3). snd p = rates (fst p)" by (simp only:)
  then have rate3: "\<forall>a \<in> set as3. Rate a = rates (al_Layer a)" by simp
  have nn: "0 \<le> od_of a" if "alloc_sized a" for a using alloc_sized_od [OF that] by simp
  have od_pos: "0 \<le> od_of a" if "a \<in> set as3" for a using that c(1) nn by (auto simp: alloc_priced_def)
  have gap_pos: "0 \<le> gap_of a" if "a \<in> set as3" for a using that c(1) alloc_priced_gap by (meson less_imp_le)
  note t = truncate_sub [OF s5]
  have sub: "mset as5 \<subseteq># mset as3" using t(1) unfolding e4 by (metis multiset_filter_subset mset_filter subset_mset.order_trans)
  show "\<forall>a \<in> set (Allocations r). alloc_priced a \<and> minAllocatableGap \<le> gap_of a \<and> Rate a = rates (al_Layer a)"
    using t(1) c(1) rate3 unfolding r e4 by (auto dest!: set_mset_mono simp: not_less)
  have "sum_list (map od_of as3) \<le> sum_list (map od_of as2)" by (rule c(3))
  also have "\<dots> = sum_list (map od_of (filter (\<lambda>a. rates (al_Layer a) \<noteq> None) as1))"
    unfolding e2 by (simp add: o_def)
  also have "\<dots> \<le> sum_list (map od_of as1)" using sp(2) nn by (intro sum_list_map_filter_pos) (auto simp: e1)
  also have "\<dots> \<le> sum_list (map od_of as0)" unfolding e1 using sp(2) nn by (intro sum_list_map_filter_pos) auto
  also have "\<dots> = g" by (rule sp(1))
  finally have "sum_list (map od_of as3) \<le> g" .
  with sum_list_submset [OF sub, of od_of] od_pos show "sum_list (map od_of (Allocations r)) \<le> g" unfolding r by simp
  show "\<And>c. MaxHourlyCommitPerRun (Config i) = Some (Fin c) \<Longrightarrow> total_gap (Allocations r) \<le> c"
    using c(4) sum_list_submset [OF sub, of gap_of] gap_pos unfolding r total_gap_def by fastforce
  show "int (length (Allocations r)) + int (length (Reshapes r)) \<le> ?m"
    unfolding r using truncate_limit [OF s5] lim by simp
  show "set (Reshapes r) \<subseteq> set reshapes" unfolding r by (rule t(2))
  have k0: "image_mset al_Layer (mset as1) + image_mset pa_Layer (mset h1) = image_mset al_Layer (mset as0)"
    using reshape_stage.accounted [where xs = as0 and reshapes = reshapes and layers = "Layers i" and ds = ?ds] by (simp add: s1)
  have k1: "image_mset al_Layer (mset as2) + image_mset pa_Layer (mset h2) = image_mset al_Layer (mset as1)"
    using convert_stage.accounted [where xs = as1 and rates = rates and ds = ?ds] by (simp add: s2)
  have k2: "image_mset al_Layer (mset as3) = image_mset al_Layer (mset as2)" using layers3 by (metis mset_map)
  have k3: "image_mset al_Layer (mset as4) + image_mset pa_Layer (mset h4) = image_mset al_Layer (mset as3)"
    using min_stage.accounted [where xs = as3 and ds = ?ds] by (simp add: s4)
  note k4 = truncate_accounted [OF s5]
  show acc: "image_mset al_Layer (mset (Allocations r)) + image_mset pa_Layer (mset (Reshapes r))
        + image_mset pa_Layer (mset (Holds r))
      = image_mset al_Layer (mset as0) + image_mset pa_Layer (mset reshapes) + image_mset pa_Layer (mset mh)"
    unfolding r k0 [symmetric] k1 [symmetric] k2 [symmetric] k3 [symmetric] using k4 by (simp add: ac_simps)
  have "image_mset al_Layer (mset as5) \<subseteq># image_mset al_Layer (mset as3)" using sub by (rule image_mset_subseteq_mono)
  also have "\<dots> \<subseteq># image_mset al_Layer (mset as1)"
    unfolding k2 k1 [symmetric] by simp
  finally show "image_mset al_Layer (mset (Allocations r)) \<subseteq># image_mset al_Layer (mset (fst (holdReshapedBufferAllocations as0 reshapes (Layers i) (DataSources i))))" unfolding r s1 by simp
qed

end
