(* ===== verification/Ladder_Shares.thy ===== *)
theory Ladder_Shares
  imports Ladder_Allocate
begin

text \<open>
  The figures of one \<open>Allocate\<close> run written down from its input alone: the coverage still
  open, the share each role is due, and the reason a run stops before it buys. The lemmas show
  that the stages of \<open>pkg/ladder/allocate.go\<close> compute exactly these figures.
\<close>

section \<open>What a run owes\<close>

definition num :: "float64 \<Rightarrow> rat" where
  "num v = the (set_float64 v)"

text \<open>The first configured layer with a role.\<close>

definition carrier :: "AllocationInput \<Rightarrow> LayerRole \<Rightarrow> LayerType option" where
  "carrier i role = map_option Type (List.find (\<lambda>ls. role \<in> set (Roles ls)) (Layers i))"

text \<open>A residual baseline has the existing commitment taken out already.\<close>

definition owned_on :: "AllocationInput \<Rightarrow> LayerType \<Rightarrow> rat" where
  "owned_on i l = (if isResidual (Basis (Baseline i)) then 0 else net_of (LayerStates i) l)"

definition open_gap :: "AllocationInput \<Rightarrow> rat" where
  "open_gap i = num (the (LowWaterUSDPerHour (Baseline i))) * (num (TargetCoveragePct (Config i)) / 100)
     - sum_list (map (\<lambda>ls. owned_on i (Type ls)) (Layers i)) - sum_list (map tranche_od (the (InFlight i)))"

definition buffer_due :: "AllocationInput \<Rightarrow> rat" where
  "buffer_due i = open_gap i * num (BufferFraction (Config i))"

definition base_due :: "AllocationInput \<Rightarrow> rat" where
  "base_due i = (case carrier i RoleBase of None \<Rightarrow> 0
   | Some l \<Rightarrow> (case StableUSDPerHour (Baseline i) of None \<Rightarrow> 0
     | Some s \<Rightarrow> min (open_gap i - buffer_due i) (max 0 (num s - owned_on i l - layer_od l (the (InFlight i))))))"

definition flex_due :: "AllocationInput \<Rightarrow> rat" where
  "flex_due i = open_gap i - buffer_due i - base_due i"

text \<open>The positive shares, one per layer: base and buffer are one share when one layer carries both.\<close>

definition due_shares :: "AllocationInput \<Rightarrow> (LayerType \<times> rat) list" where
  "due_shares i = filter (\<lambda>p. 0 < snd p)
     ((if carrier i RoleBase \<noteq> None \<and> carrier i RoleBase = carrier i RoleBuffer
       then [(the (carrier i RoleBase), base_due i + buffer_due i)]
       else [(the (carrier i RoleBase), base_due i), (the (carrier i RoleBuffer), buffer_due i)])
      @ [(the (carrier i RoleFlex), flex_due i)])"

text \<open>Why a run stops before the split, if it does.\<close>

definition early_reason :: "AllocationInput \<Rightarrow> go_string option" where
  "early_reason i =
    (if LowWaterUSDPerHour (Baseline i) = None then Some ''baseline unavailable''
     else if open_gap i \<le> minAllocatableGap then Some ''target already met''
     else if isResidual (Basis (Baseline i)) \<and> num (TargetCoveragePct (Config i)) < 100
       \<and> (\<exists>ls \<in> set (Layers i). the (ExistingUSDPerHour (state_of (LayerStates i) (Type ls))) > 0)
     then Some ''residual baseline cannot size a partial target''
     else None)"

text \<open>What the sizing steps still need: a usable floor, and, for a run that reaches the split, a
  buffer layer for a buffer share and a usable stable level for a base layer.\<close>

definition floor_ok :: "AllocationInput \<Rightarrow> bool" where
  "floor_ok i \<longleftrightarrow> (case LowWaterUSDPerHour (Baseline i) of None \<Rightarrow> True | Some v \<Rightarrow> (\<exists>x. v = Fin x \<and> 0 \<le> x))"

definition split_ok :: "AllocationInput \<Rightarrow> bool" where
  "split_ok i \<longleftrightarrow> (num (BufferFraction (Config i)) = 0 \<or> carrier i RoleBuffer \<noteq> None)
     \<and> (carrier i RoleBase = None \<or> (case StableUSDPerHour (Baseline i) of None \<Rightarrow> True | Some v \<Rightarrow> (\<exists>x. v = Fin x \<and> 0 \<le> x)))"

lemma num_Fin [simp]: "num (Fin x) = x"
  by (simp add: num_def)

lemma findLayer_carrier: "findLayerForRole (Layers i) role = (case carrier i role of None \<Rightarrow> ('''', False) | Some l \<Rightarrow> (l, True))"
  by (simp add: findLayerForRole_def carrier_def split: option.splits)

lemma findLayer_eqs:
  "findLayerForRole (Layers i) role = (l, True) \<longleftrightarrow> carrier i role = Some l"
  "snd (findLayerForRole (Layers i) role) \<longleftrightarrow> carrier i role \<noteq> None"
  by (auto simp: findLayer_carrier split: option.splits)

lemma carrier_layer: "carrier i role = Some l \<Longrightarrow> l \<in> Type ` set (Layers i)"
  using findLayer_Some [of "Layers i" role l] by (auto simp: findLayer_eqs)

lemma carrier_flex: "validateAllocateInput i = None \<Longrightarrow> \<exists>l. carrier i RoleFlex = Some l"
  using flex_layer_exists [of "Layers i"] by (metis findLayer_eqs(1) input_valid_iff)

section \<open>The gap of a run\<close>

lemma run_gap_bound:
  assumes "computeBaselineAndTarget i = Inr (lw, tgt)" and "validateAllocateInput i = None"
  shows "run_gap lw tgt ge fl = tgt - ge - fl"
  using target_le_low_water [OF assms] by (simp add: run_gap_def min_def)

lemma computeBaselineAndTarget_Inr:
  assumes "computeBaselineAndTarget i = Inr (lw, tgt)" and "LowWaterUSDPerHour (Baseline i) \<noteq> None"
  obtains p where "LowWaterUSDPerHour (Baseline i) = Some (Fin lw)" "0 \<le> lw" "TargetCoveragePct (Config i) = Fin p"
    "tgt = lw * (p / 100)"
  using assms by (auto simp: computeBaselineAndTarget_def)

lemma run_gap_open:
  assumes "validateAllocateInput i = None" and "computeNetExisting (Layers i) (LayerStates i) = Inr (nets, ex)"
    and "inFlightToOD (Layers i) (the (InFlight i)) = Inr (per, fl)" and "LowWaterUSDPerHour (Baseline i) \<noteq> None"
    and "computeBaselineAndTarget i = Inr (lw, tgt)"
  shows "run_gap lw tgt (fst (existingForBasis (Basis (Baseline i)) nets ex)) fl = open_gap i"
proof -
  obtain p where p: "LowWaterUSDPerHour (Baseline i) = Some (Fin lw)" "TargetCoveragePct (Config i) = Fin p" "tgt = lw * (p / 100)"
    using assms(4,5) by (auto elim: computeBaselineAndTarget_Inr)
  have ex: "ex = sum_list (map (\<lambda>ls. net_of (LayerStates i) (Type ls)) (Layers i))"
    using computeNetExisting_exact(1) [OF assms(2)] assms(1) by (simp add: input_valid_iff)
  have fl: "fl = sum_list (map tranche_od (the (InFlight i)))" using inFlightToOD_exact(1) [OF assms(3)] .
  show ?thesis
    unfolding run_gap_bound [OF assms(5,1)] open_gap_def existingForBasis_def by (simp add: p ex fl owned_on_def)
qed

lemma early_reason_None:
  "early_reason i = None \<longleftrightarrow> LowWaterUSDPerHour (Baseline i) \<noteq> None \<and> minAllocatableGap < open_gap i
    \<and> \<not> (isResidual (Basis (Baseline i)) \<and> num (TargetCoveragePct (Config i)) < 100
       \<and> (\<exists>ls \<in> set (Layers i). the (ExistingUSDPerHour (state_of (LayerStates i) (Type ls))) > 0))"
  by (auto simp: early_reason_def not_le)

lemma residual_hold_iff:
  assumes "validateAllocateInput i = None"
  shows "residualPartialTargetHold i lw g = None \<longleftrightarrow> \<not> (isResidual (Basis (Baseline i)) \<and> num (TargetCoveragePct (Config i)) < 100
       \<and> (\<exists>ls \<in> set (Layers i). the (ExistingUSDPerHour (state_of (LayerStates i) (Type ls))) > 0))"
proof -
  obtain p where "TargetCoveragePct (Config i) = Fin p"
    using assms by (auto simp: input_valid_iff config_valid_iff baseline_bounds_iff)
  then show ?thesis
    by (auto simp: residualPartialTargetHold_def hasExistingCommitment_def list_ex_iff)
qed

section \<open>The shares of a run\<close>

lemma base_gap_due:
  assumes "computeBaseGap (open_gap i - buffer_due i) (carrier i RoleBase \<noteq> None) (Baseline i) (the (carrier i RoleBase))
      (snd (existingForBasis (Basis (Baseline i)) nets ex)) per = Inr (b, note)"
    and "validateAllocateInput i = None" and "computeNetExisting (Layers i) (LayerStates i) = Inr (nets, ex)"
    and "inFlightToOD (Layers i) (the (InFlight i)) = Inr (per, fl)"
  shows "b = base_due i"
proof (cases "carrier i RoleBase")
  case None
  with assms(1) show ?thesis by (simp add: computeBaseGap_def base_due_def)
next
  case l: (Some l)
  have net: "(case snd (existingForBasis (Basis (Baseline i)) nets ex) l of None \<Rightarrow> 0 | Some n \<Rightarrow> n) = owned_on i l"
  proof -
    from carrier_layer [OF l] obtain ls where "ls \<in> set (Layers i)" "Type ls = l" by blast
    with computeNetExisting_exact(3) [OF assms(3), of ls] assms(2)
    show ?thesis by (auto simp: existingForBasis_def owned_on_def input_valid_iff)
  qed
  have per: "(case per l of None \<Rightarrow> x | Some f \<Rightarrow> x - f) = x - layer_od l (the (InFlight i))" for x
    using inFlightToOD_exact(3) [OF assms(4), of l] by (auto split: option.splits)
  show ?thesis
  proof (cases "StableUSDPerHour (Baseline i)")
    case None
    with assms(1) l show ?thesis by (simp add: computeBaseGap_def base_due_def)
  next
    case (Some v)
    with assms(1) l obtain s where "v = Fin s" by (auto simp: computeBaseGap_def)
    with assms(1) l Some show ?thesis
      unfolding computeBaseGap_def base_due_def
      by (simp add: net per Let_def min_def max_def split: if_splits)
  qed
qed

text \<open>In a valid topology the code's comparison of layer names is the comparison of carriers.\<close>

lemma merge_iff:
  assumes "validateAllocateInput i = None"
  shows "snd (findLayerForRole (Layers i) RoleBase)
      \<and> fst (findLayerForRole (Layers i) RoleBuffer) = fst (findLayerForRole (Layers i) RoleBase)
    \<longleftrightarrow> carrier i RoleBase \<noteq> None \<and> carrier i RoleBase = carrier i RoleBuffer"
proof -
  have "l \<noteq> []" if "carrier i RoleBase = Some l" for l
  proof -
    from carrier_layer [OF that] assms have "LayerType_Validate l = None"
      by (auto simp: input_valid_iff layers_valid_iff spec_ok_def)
    then show ?thesis by (auto simp: enum_validators enum_defs)
  qed
  then show ?thesis by (auto simp: findLayer_carrier split: option.splits)
qed

lemma assemble_amounts:
  assumes "\<not> hasBase \<Longrightarrow> b = 0"
  shows "map (\<lambda>a. (al_Layer a, od_of a)) (assembleAllocations c b f u bl fl ul hasBase)
    = filter (\<lambda>p. 0 < snd p) ((if hasBase \<and> ul = bl then [(bl, b + u)] else [(bl, b), (ul, u)]) @ [(fl, f)])"
  using assms by (auto simp: assembleAllocations_def Let_def)

lemma positive_names:
  "0 < b \<longrightarrow> bl = bl' \<Longrightarrow> 0 < u \<longrightarrow> ul = ul' \<Longrightarrow>
    filter (\<lambda>p. 0 < snd p) [(bl, b), (ul, u :: rat)] = filter (\<lambda>p. 0 < snd p) [(bl', b), (ul', u)]"
  by auto

lemma split_shares:
  assumes "splitGap i (open_gap i) (snd (existingForBasis (Basis (Baseline i)) nets ex)) per lw tgt et = Inr as"
    and "validateAllocateInput i = None" and "computeNetExisting (Layers i) (LayerStates i) = Inr (nets, ex)"
    and "inFlightToOD (Layers i) (the (InFlight i)) = Inr (per, fl)"
  shows "map (\<lambda>a. (al_Layer a, od_of a)) as = due_shares i"
proof -
  let ?nets = "snd (existingForBasis (Basis (Baseline i)) nets ex)"
  obtain flex where flex: "carrier i RoleFlex = Some flex" using carrier_flex [OF assms(2)] by blast
  obtain bl hb where bl: "findLayerForRole (Layers i) RoleBase = (bl, hb)" by fastforce
  obtain ul hu where ul: "findLayerForRole (Layers i) RoleBuffer = (ul, hu)" by fastforce
  obtain bf where bf: "BufferFraction (Config i) = Fin bf"
    using assms(2) by (auto simp: input_valid_iff config_valid_iff baseline_bounds_iff)
  have fl: "findLayerForRole (Layers i) RoleFlex = (flex, True)" using flex by (simp add: findLayer_eqs)
  have u: "open_gap i * bf = buffer_due i" by (simp add: buffer_due_def bf)
  from assms(1) obtain b nt c where hu: "\<not> (0 < buffer_due i \<and> \<not> hu)"
    and base: "computeBaseGap (open_gap i - buffer_due i) hb (Baseline i) bl ?nets per = Inr (b, nt)"
    and as: "as = assembleAllocations c b (open_gap i - buffer_due i - b) (buffer_due i) bl flex ul hb"
    by (auto simp: splitGap_def Let_def fl bl ul bf u split: if_splits)
  have hb: "hb \<longleftrightarrow> carrier i RoleBase \<noteq> None" "hb \<longrightarrow> bl = the (carrier i RoleBase)"
    using findLayer_carrier [of i RoleBase] bl by (auto split: option.splits)
  have hu': "hu \<longrightarrow> ul = the (carrier i RoleBuffer)"
    using findLayer_carrier [of i RoleBuffer] ul by (auto split: option.splits)
  have b: "b = base_due i"
  proof (cases hb)
    case True
    with base hb have "computeBaseGap (open_gap i - buffer_due i) (carrier i RoleBase \<noteq> None) (Baseline i)
      (the (carrier i RoleBase)) ?nets per = Inr (b, nt)" by simp
    then show ?thesis by (rule base_gap_due [OF _ assms(2-4)])
  next
    case False
    with base hb show ?thesis by (simp add: computeBaseGap_def base_due_def)
  qed
  have nb: "\<not> hb \<Longrightarrow> base_due i = 0" using hb by (simp add: base_due_def)
  have mg: "hb \<and> ul = bl \<longleftrightarrow> carrier i RoleBase \<noteq> None \<and> carrier i RoleBase = carrier i RoleBuffer"
    using merge_iff [OF assms(2)] by (simp add: bl ul)
  have "map (\<lambda>a. (al_Layer a, od_of a)) as = filter (\<lambda>p. 0 < snd p)
      ((if hb \<and> ul = bl then [(bl, base_due i + buffer_due i)] else [(bl, base_due i), (ul, buffer_due i)]) @ [(flex, flex_due i)])"
    unfolding as b flex_due_def using assemble_amounts [of hb "base_due i"] nb by blast
  also have "\<dots> = due_shares i"
  proof (cases "hb \<and> ul = bl")
    case True
    with mg hb show ?thesis unfolding due_shares_def by (simp add: flex)
  next
    case False
    have "filter (\<lambda>p. 0 < snd p) [(bl, base_due i), (ul, buffer_due i)]
      = filter (\<lambda>p. 0 < snd p) [(the (carrier i RoleBase), base_due i), (the (carrier i RoleBuffer), buffer_due i)]"
      by (rule positive_names) (use hb nb hu hu' in auto)
    with False mg show ?thesis unfolding due_shares_def filter_append by (simp only: if_False flex option.sel)
  qed
  finally show ?thesis .
qed

section \<open>What the later stages do to a share\<close>

lemma cap_scales:
  assumes "applyCapGuardrail as m = Inr bs" and "\<forall>v. m = Some v \<longrightarrow> (\<exists>c. v = Fin c \<and> 0 < c)"
  obtains s where "0 < s" "s \<le> 1" "m = None \<longrightarrow> s = 1"
    "map (\<lambda>b. (al_Layer b, od_of b)) bs = map (\<lambda>a. (al_Layer a, od_of a * s)) as"
proof (cases m)
  case None
  with assms(1) show thesis by (intro that [of 1]) (simp_all add: applyCapGuardrail_def)
next
  case (Some v)
  with assms(2) obtain c where c: "v = Fin c" "0 < c" by blast
  from assms(1) Some c have "bs = as \<or> (\<not> total_gap as \<le> 0 \<and> \<not> total_gap as \<le> c \<and> bs = map (scale_alloc (c / total_gap as)) as)"
    by (simp add: applyCapGuardrail_def Let_def split: if_splits)
  then consider "bs = as" | "\<not> total_gap as \<le> 0" "\<not> total_gap as \<le> c" "bs = map (scale_alloc (c / total_gap as)) as"
    by blast
  then show thesis
  proof cases
    case 1
    then show thesis by (intro that [of 1]) (simp_all add: Some)
  next
    case 2
    with c show thesis by (intro that [of "c / total_gap as"]) (simp_all add: Some)
  qed
qed

text \<open>A purchase is its layer's share, scaled by the one factor of the spend cap.\<close>

lemma build_amounts:
  assumes "buildResult i lw tgt ex g nets fl rates reshapes mh = Inr r" and "splitGap i g nets fl lw tgt ex = Inr as0"
    and "validateAllocateInput i = None"
  shows "\<exists>s. 0 < s \<and> s \<le> 1 \<and> (MaxHourlyCommitPerRun (Config i) = None \<longrightarrow> s = 1)
    \<and> (\<forall>a \<in> set (Allocations r). \<exists>x. (al_Layer a, x) \<in> set (map (\<lambda>a. (al_Layer a, od_of a)) as0) \<and> od_of a = x * s)"
proof -
  let ?ds = "DataSources i" and ?m = "MaxActionsPerRun (Config i)"
  obtain as1 h1 where 1: "holdReshapedBufferAllocations as0 reshapes (Layers i) ?ds = (as1, h1)" by fastforce
  obtain as2 h2 where 2: "convertAllocations as1 rates ?ds = (as2, h2)" by fastforce
  from assms(1) obtain as3 where 3: "applyCapGuardrail as2 (MaxHourlyCommitPerRun (Config i)) = Inr as3"
    by (auto simp: buildResult_def assms(2) 1 2)
  obtain as4 h4 where 4: "dropSubMinimumAllocations as3 ?ds = (as4, h4)" by fastforce
  obtain as5 rs h5 where 5: "truncateToMaxActions as4 reshapes ?m (LayerStates i) ?ds = (as5, rs, h5)"
    by (cases "truncateToMaxActions as4 reshapes ?m (LayerStates i) ?ds") auto
  have r: "Allocations r = as5" using assms(1) by (auto simp: buildResult_def assms(2) 1 2 3 4 5)
  have "\<forall>v. MaxHourlyCommitPerRun (Config i) = Some v \<longrightarrow> (\<exists>c. v = Fin c \<and> 0 < c)"
    using assms(3) by (auto simp: input_valid_iff config_valid_iff run_limits_iff)
  from cap_scales [OF 3 this] obtain s where s: "0 < s" "s \<le> 1" "MaxHourlyCommitPerRun (Config i) = None \<longrightarrow> s = 1"
    and sc: "map (\<lambda>b. (al_Layer b, od_of b)) as3 = map (\<lambda>a. (al_Layer a, od_of a * s)) as2" by blast
  have "\<exists>x. (al_Layer a, x) \<in> set (map (\<lambda>a. (al_Layer a, od_of a)) as0) \<and> od_of a = x * s" if "a \<in> set as5" for a
  proof -
    have "a \<in> set as4" using that truncate_sub(1) [OF 5] by (auto dest!: set_mset_mono)
    then have "a \<in> set as3" using 4 by (auto simp: dropSubMinimumAllocations_def)
    then have "(al_Layer a, od_of a) \<in> set (map (\<lambda>b. (al_Layer b, od_of b)) as3)" by auto
    then obtain b where b: "b \<in> set as2" "al_Layer b = al_Layer a" "od_of a = od_of b * s"
      unfolding sc by auto
    from b(1) 2 obtain a0 where "a0 \<in> set as1" "al_Layer b = al_Layer a0" "od_of b = od_of a0"
      by (auto simp: convertAllocations_eq)
    moreover from this(1) 1 have "a0 \<in> set as0" by (auto simp: hold_reshaped_eq)
    ultimately show ?thesis using b by (auto simp: image_iff)
  qed
  with s show ?thesis unfolding r by (intro exI [of _ s]) simp
qed

end
