(* ===== verification/Ladder_Run.thy ===== *)
theory Ladder_Run
  imports Ladder_Shares
begin

text \<open>
  What a caller of \<open>Allocate\<close> may rely on: which inputs are accepted, what the allocations
  of a run add up to, and that every decision is recorded.
\<close>

section \<open>Accepted snapshots, rates and tranches\<close>

definition snapshot_ok :: "(LayerType, LayerState) go_map \<Rightarrow> LayerSpec list \<Rightarrow> bool" where
  "snapshot_ok states lss \<longleftrightarrow> (\<forall>ls \<in> set lss. \<exists>e x. the (ExistingUSDPerHour (state_of states (Type ls))) = Fin e
     \<and> the (ExpiringUSDPerHour (state_of states (Type ls))) = Fin x \<and> 0 \<le> x \<and> x \<le> e)"

lemma computeNetExisting_ok: "(\<exists>res. computeNetExisting lss states = Inr res) \<longleftrightarrow> snapshot_ok states lss"
proof -
  have "(\<exists>res. net_loop states m tot lss = Inr res) \<longleftrightarrow> snapshot_ok states lss" for m tot
  proof (induction lss arbitrary: m tot)
    case Nil
    then show ?case by (simp add: snapshot_ok_def)
  next
    case (Cons ls lss)
    have sp: "snapshot_ok states (ls # lss) \<longleftrightarrow> (\<exists>e x. the (ExistingUSDPerHour (state_of states (Type ls))) = Fin e
      \<and> the (ExpiringUSDPerHour (state_of states (Type ls))) = Fin x \<and> 0 \<le> x \<and> x \<le> e) \<and> snapshot_ok states lss"
      by (simp add: snapshot_ok_def)
    show ?case unfolding sp using Cons.IH by (fastforce simp: Let_def split: if_splits)
  qed
  then show ?thesis by (simp add: computeNetExisting_def)
qed

definition rates_ok :: "(LayerType, float64) go_map \<Rightarrow> bool" where
  "rates_ok rs \<longleftrightarrow> (\<forall>p \<in> set rs. \<exists>q. snd p = Fin q \<and> 0 < q \<and> q \<le> 1)"

lemma parseCommitmentRates_ok: "(\<exists>m. parseCommitmentRates rs = Inr m) \<longleftrightarrow> rates_ok rs"
proof -
  have "(\<exists>m. parse_rates out rs = Inr m) \<longleftrightarrow> rates_ok rs" for out
  proof (induction out rs rule: parse_rates.induct)
    case (1 out)
    then show ?case by (simp add: rates_ok_def)
  next
    case (2 out layer v rs)
    let ?v = "validateCommitmentRate (''commitment_rates['' @ layer @ '']'') v"
    show ?case
    proof (cases ?v)
      case (Inl e)
      then have "\<not> (\<exists>q. v = Fin q \<and> 0 < q \<and> q \<le> 1)" by (metis validateCommitmentRate_Inr sum.distinct(1))
      with Inl show ?thesis by (simp add: rates_ok_def)
    next
      case (Inr q)
      then have "v = Fin q \<and> 0 < q \<and> q \<le> 1" by simp
      then show ?thesis unfolding parse_rates.simps Inr sum.case "2.IH" [OF Inr] by (simp add: rates_ok_def)
    qed
  qed
  then show ?thesis by (simp add: parseCommitmentRates_def)
qed

definition tranche_ok :: "LayerType set \<Rightarrow> InFlightTranche \<Rightarrow> bool" where
  "tranche_ok known t \<longleftrightarrow> if_Layer t \<in> known \<and> (\<exists>c. CommitmentUSDPerHour t = Fin c \<and> 0 \<le> c)
     \<and> (\<exists>q. if_Rate t = Fin q \<and> 0 < q \<and> q \<le> 1)"

lemma inFlightToOD_ok: "(\<exists>res. inFlightToOD lss ts = Inr res) \<longleftrightarrow> (\<forall>t \<in> set ts. tranche_ok (Type ` set lss) t)"
proof -
  have "(\<exists>res. in_flight_loop known i per tot ts = Inr res) \<longleftrightarrow> (\<forall>t \<in> set ts. tranche_ok (set known) t)" for known i per tot
  proof (induction ts arbitrary: i per tot)
    case Nil
    then show ?case by simp
  next
    case (Cons t ts)
    show ?case
    proof (cases "tranche_ok (set known) t")
      case True
      then obtain c q where "if_Layer t \<in> set known" "CommitmentUSDPerHour t = Fin c" "0 \<le> c"
        "if_Rate t = Fin q" "0 < q" "q \<le> 1" by (auto simp: tranche_ok_def)
      then have "\<exists>per' tot'. in_flight_loop known i per tot (t # ts) = in_flight_loop known (i + 1) per' tot' ts"
        by (simp add: Let_def) blast
      with True Cons.IH show ?thesis by (metis set_ConsD list.set_intros(2))
    next
      case False
      then have "\<not> (\<exists>res. in_flight_loop known i per tot (t # ts) = Inr res)"
        by (auto simp: tranche_ok_def Let_def)
      with False show ?thesis by simp
    qed
  qed
  then show ?thesis by (simp add: inFlightToOD_def)
qed

section \<open>The two kinds of result\<close>

text \<open>
  A successful run either only holds (no allocation, the reshapes as detected), or it comes
  from the pipeline on a gap above the minimum.
\<close>

lemma Allocate_cases:
  assumes "Allocate (Some i) = Inr r"
  obtains (holds) nets ex h why rest where "validateAllocateInput i = None" "computeNetExisting (Layers i) (LayerStates i) = Inr (nets, ex)"
      "NetExistingUSDPerHour r = Some ex" "Allocations r = []"
      "Reshapes r = fst (detectReshapes (Layers i) (LayerStates i) (BufferUtilizationThresholdPct (Config i)) (DataSources i))"
      "Holds r = mk_hold (fst (findLayerForRole (Layers i) RoleFlex)) h (DataSources i)
         # snd (detectReshapes (Layers i) (LayerStates i) (BufferUtilizationThresholdPct (Config i)) (DataSources i))" "h \<noteq> []"
      "early_reason i = Some why" "h = why @ '': '' @ rest"
  | (built) nets ex rates per fl lw tgt r0 where "validateAllocateInput i = None"
      "computeNetExisting (Layers i) (LayerStates i) = Inr (nets, ex)"
      "NetExistingUSDPerHour r = Some ex" "parseCommitmentRates (the (CommitmentRates i)) = Inr rates"
      "inFlightToOD (Layers i) (the (InFlight i)) = Inr (per, fl)" "LowWaterUSDPerHour (Baseline i) \<noteq> None"
      "computeBaselineAndTarget i = Inr (lw, tgt)"
      "minAllocatableGap < run_gap lw tgt (fst (existingForBasis (Basis (Baseline i)) nets ex)) fl"
      "residualPartialTargetHold i lw (run_gap lw tgt (fst (existingForBasis (Basis (Baseline i)) nets ex)) fl) = None"
      "buildResult i lw tgt ex (run_gap lw tgt (fst (existingForBasis (Basis (Baseline i)) nets ex)) fl)
         (snd (existingForBasis (Basis (Baseline i)) nets ex)) per rates
         (fst (detectReshapes (Layers i) (LayerStates i) (BufferUtilizationThresholdPct (Config i)) (DataSources i)))
         (snd (detectReshapes (Layers i) (LayerStates i) (BufferUtilizationThresholdPct (Config i)) (DataSources i))) = Inr r0"
      "Allocations r = Allocations r0" "Reshapes r = Reshapes r0" "Holds r = Holds r0" "early_reason i = None"
      "run_gap lw tgt (fst (existingForBasis (Basis (Baseline i)) nets ex)) fl = open_gap i"
proof -
  let ?det = "detectReshapes (Layers i) (LayerStates i) (BufferUtilizationThresholdPct (Config i)) (DataSources i)"
  from assms obtain nets ex r0 where v: "validateAllocateInput i = None"
    and n: "computeNetExisting (Layers i) (LayerStates i) = Inr (nets, ex)"
    and al: "allocate i nets ex = Inr r0" and r: "r = r0\<lparr>NetExistingUSDPerHour := Some ex\<rparr>"
    by (auto simp: Allocate_def split: option.splits)
  obtain rates per fl where rt: "parseCommitmentRates (the (CommitmentRates i)) = Inr rates"
    and fl: "inFlightToOD (Layers i) (the (InFlight i)) = Inr (per, fl)"
    using al by (auto simp: allocate_def)
  have hold: thesis if "r0 = withMaintenance (hold_result (mk_hold (fst (findLayerForRole (Layers i) RoleFlex)) h (DataSources i))) (fst ?det) (snd ?det)"
    and "early_reason i = Some why" and "h = why @ '': '' @ rest" for h why rest
    using that by (intro holds [OF v n]) (simp_all add: r withMaintenance_def hold_result_def)
  show thesis
  proof (cases "LowWaterUSDPerHour (Baseline i)")
    case None
    with al rt fl show thesis
      by (intro hold [where why = "''baseline unavailable''"])
        (auto simp: allocate_def baselineUnavailableHold_def case_prod_beta early_reason_def)
  next
    case (Some x)
    with al rt fl obtain lw tgt where bt: "computeBaselineAndTarget i = Inr (lw, tgt)"
      by (auto simp: allocate_def case_prod_beta)
    let ?g = "run_gap lw tgt (fst (existingForBasis (Basis (Baseline i)) nets ex)) fl"
    have g: "?g = open_gap i" using run_gap_open [OF v n fl _ bt] Some by simp
    show thesis
    proof (cases "?g \<le> minAllocatableGap")
      case True
      with g Some have "early_reason i = Some ''target already met''" by (simp add: early_reason_def)
      with True al rt fl bt Some show thesis
        by (intro hold [where why = "''target already met''"])
          (auto simp: allocate_def gapBelowMinHold_def case_prod_beta Let_def)
    next
      case False
      show thesis
      proof (cases "residualPartialTargetHold i lw ?g")
        case None
        with False g Some residual_hold_iff [OF v] have "early_reason i = None" by (simp add: early_reason_None)
        with None False al rt fl bt Some g show thesis
          by (intro built [OF v n _ rt fl _ bt]) (auto simp: allocate_def case_prod_beta Let_def r)
      next
        case h: (Some hr)
        with False al rt fl bt Some have "r0 = withMaintenance hr (fst ?det) (snd ?det)"
          by (auto simp: allocate_def case_prod_beta Let_def)
        moreover have "early_reason i = Some ''residual baseline cannot size a partial target''"
          using False g Some h residual_hold_iff [OF v, of lw ?g] by (auto simp: early_reason_def)
        ultimately show thesis using h
          by (intro hold [where why = "''residual baseline cannot size a partial target''"])
            (auto simp: residualPartialTargetHold_def split: if_splits)
      qed
    qed
  qed
qed

section \<open>Purchases\<close>

text \<open>The pipeline behind a run that buys.\<close>

lemma Allocate_pipeline:
  assumes "Allocate (Some i) = Inr r" and "Allocations r \<noteq> []"
  obtains ex rates per fl lw tgt g nets as0 where "validateAllocateInput i = None" "NetExistingUSDPerHour r = Some ex"
      "parseCommitmentRates (the (CommitmentRates i)) = Inr rates"
      "fl = sum_list (map tranche_od (the (InFlight i)))" "LowWaterUSDPerHour (Baseline i) \<noteq> None"
      "computeBaselineAndTarget i = Inr (lw, tgt)" "g = tgt - (if isResidual (Basis (Baseline i)) then 0 else ex) - fl"
      "minAllocatableGap < g" "splitGap i g nets per lw tgt ex = Inr as0"
      "\<forall>a \<in> set (Allocations r). alloc_priced a \<and> minAllocatableGap \<le> gap_of a \<and> Rate a = rates (al_Layer a)"
      "image_mset al_Layer (mset (Allocations r)) \<subseteq># image_mset al_Layer (mset (fst (holdReshapedBufferAllocations as0
         (fst (detectReshapes (Layers i) (LayerStates i) (BufferUtilizationThresholdPct (Config i)) (DataSources i)))
         (Layers i) (DataSources i))))"
      "sum_list (map od_of (Allocations r)) \<le> g"
      "\<And>c. MaxHourlyCommitPerRun (Config i) = Some (Fin c) \<Longrightarrow> total_gap (Allocations r) \<le> c"
  using assms(1)
proof (cases rule: Allocate_cases)
  case holds
  with assms(2) show thesis by simp
next
  case (built nets ex rates per fl lw tgt r0)
  let ?g = "run_gap lw tgt (fst (existingForBasis (Basis (Baseline i)) nets ex)) fl"
  from built obtain as0 where as0: "splitGap i ?g (snd (existingForBasis (Basis (Baseline i)) nets ex)) per lw tgt ex = Inr as0"
    by (auto simp: buildResult_def)
  have g0: "0 \<le> ?g" using built(8) by (simp add: minAllocatableGap_def)
  have fl: "fl = sum_list (map tranche_od (the (InFlight i)))" using inFlightToOD_exact(1) [OF built(5)] .
  have g: "?g = tgt - (if isResidual (Basis (Baseline i)) then 0 else ex) - fl"
    unfolding run_gap_bound [OF built(7,1)] by (simp add: existingForBasis_def)
  note p = pipeline_spec [OF as0 built(10,1) g0 rates_in_unit [OF built(4)]]
  show thesis
    by (rule that [OF built(1,3,4) fl built(6,7) g built(8) as0]) (use p built(11) in auto)
qed

lemma alloc_layers_configured:
  assumes "image_mset al_Layer (mset as) \<subseteq># image_mset al_Layer (mset (fst (holdReshapedBufferAllocations as0 rs (Layers i) ds)))"
    and "splitGap i g nets per lw tgt ex = Inr as0" and "validateAllocateInput i = None" and "0 \<le> g"
  shows "distinct (map al_Layer as) \<and> (\<forall>a \<in> set as. al_Layer a \<in> Type ` set (Layers i) \<and> \<not> is_reshaped rs (Layers i) (al_Layer a))"
proof -
  note sp = splitGap_spec [OF assms(2-4)]
  let ?k = "filter (\<lambda>a. \<not> is_reshaped rs (Layers i) (al_Layer a)) as0"
  have sub: "mset (map al_Layer as) \<subseteq># mset (map al_Layer ?k)" using assms(1) by (simp add: hold_reshaped_eq)
  have dk: "distinct (map al_Layer ?k)" using sp(4) by (simp add: distinct_map_filter)
  have "distinct (map al_Layer as)"
    using sub dk by (rule distinct_submset)
  moreover have "al_Layer a \<in> Type ` set (Layers i) \<and> \<not> is_reshaped rs (Layers i) (al_Layer a)" if "a \<in> set as" for a
  proof -
    have "al_Layer a \<in># mset (map al_Layer as)" using that by simp
    then have "al_Layer a \<in> set (map al_Layer ?k)" using mset_subset_eqD [OF sub] by (metis set_mset_mset)
    then obtain k where k: "k \<in> set ?k" "al_Layer k = al_Layer a" by auto
    then have "k \<in> set as0" "\<not> is_reshaped rs (Layers i) (al_Layer a)" by auto
    with sp(3) k(2) show ?thesis by metis
  qed
  ultimately show ?thesis by blast
qed

text \<open>C20. A run never over-buys: what it newly covers, plus what is already in flight, plus the
  net existing commitment (unless the baseline is residual and already excludes it) stays
  within the configured share of the observed usage floor. All amounts are on-demand
  equivalent and exact.\<close>

theorem allocate_never_overbuys:
  assumes "Allocate (Some i) = Inr r" and "Allocations r \<noteq> []"
  shows "\<exists>lw p. LowWaterUSDPerHour (Baseline i) = Some (Fin lw) \<and> TargetCoveragePct (Config i) = Fin p \<and> p \<le> 100
    \<and> sum_list (map od_of (Allocations r)) + sum_list (map tranche_od (the (InFlight i)))
        + (if isResidual (Basis (Baseline i)) then 0 else the (NetExistingUSDPerHour r)) \<le> lw * (p / 100)"
  using assms
proof (rule Allocate_pipeline)
  fix ex rates per fl lw tgt g nets as0
  assume v: "validateAllocateInput i = None" and ex: "NetExistingUSDPerHour r = Some ex"
    and fl: "fl = sum_list (map tranche_od (the (InFlight i)))" and "LowWaterUSDPerHour (Baseline i) \<noteq> None"
    and "computeBaselineAndTarget i = Inr (lw, tgt)"
    and g: "g = tgt - (if isResidual (Basis (Baseline i)) then 0 else ex) - fl" "sum_list (map od_of (Allocations r)) \<le> g"
  moreover obtain p where "TargetCoveragePct (Config i) = Fin p" "p \<le> 100"
    using v by (auto simp: input_valid_iff config_valid_iff baseline_bounds_iff)
  ultimately show ?thesis
    by (elim computeBaselineAndTarget_Inr) (auto simp: algebra_simps)
qed

text \<open>Every allocation is sized in on-demand dollars and bought at the layer's own supplied
  rate: the commitment equals the on-demand amount times that rate exactly, the rate is in
  (0, 1], and the amount is at least the minimum. Nothing is ever bought at an assumed 1:1.\<close>

theorem allocate_prices_exactly:
  assumes "Allocate (Some i) = Inr r" and "a \<in> set (Allocations r)"
  shows "\<exists>q x. Rate a = Some q \<and> (al_Layer a, Fin q) \<in> set (the (CommitmentRates i)) \<and> 0 < q \<and> q \<le> 1
    \<and> OnDemandEquivalentUSDPerHour a = Some x \<and> GapUSDPerHour a = Some (x * q) \<and> minAllocatableGap \<le> x * q"
proof -
  have ne: "Allocations r \<noteq> []" using assms(2) by auto
  obtain rates where rt: "parseCommitmentRates (the (CommitmentRates i)) = Inr rates"
    and p: "alloc_priced a" "minAllocatableGap \<le> gap_of a" "Rate a = rates (al_Layer a)"
    by (rule Allocate_pipeline [OF assms(1) ne]) (use assms(2) in blast)
  from p(1) obtain q where q: "Rate a = Some q" "0 < q" "q \<le> 1" "GapUSDPerHour a = Some (od_of a * q)"
    by (auto simp: alloc_priced_def)
  have od: "OnDemandEquivalentUSDPerHour a = Some (od_of a)" using p(1) alloc_sized_od by (auto simp: alloc_priced_def)
  have "(al_Layer a, Fin q) \<in> set (the (CommitmentRates i))" using rates_supplied [OF rt] p(3) q(1) by metis
  with q od p(2) show ?thesis by (auto simp: gap_of_def)
qed

text \<open>C25. The per-run spend cap holds for the commitment dollars actually proposed.\<close>

theorem allocate_within_cap:
  assumes "Allocate (Some i) = Inr r" and "MaxHourlyCommitPerRun (Config i) = Some (Fin c)"
  shows "sum_list (map gap_of (Allocations r)) \<le> c"
proof (cases "Allocations r = []")
  case True
  obtain nets where "validateAllocateInput i = None" using assms(1) by (rule Allocate_cases) blast+
  with assms(2) True show ?thesis by (auto simp: input_valid_iff config_valid_iff run_limits_iff)
next
  case False
  show ?thesis unfolding total_gap_def [symmetric]
    by (rule Allocate_pipeline [OF assms(1) False]) (use assms(2) in blast)
qed

lemma run_layers:
  assumes "Allocate (Some i) = Inr r"
  shows "distinct (map al_Layer (Allocations r)) \<and> (\<forall>a \<in> set (Allocations r). al_Layer a \<in> Type ` set (Layers i)
    \<and> LayerType_Validate (al_Layer a) = None
    \<and> \<not> (bufferOnly (Layers i) (al_Layer a) \<and> al_Layer a \<in> pa_Layer ` set (Reshapes r)))"
proof (cases "Allocations r = []")
  case False
  let ?rs = "fst (detectReshapes (Layers i) (LayerStates i) (BufferUtilizationThresholdPct (Config i)) (DataSources i))"
  have rs: "set (Reshapes r) \<subseteq> set ?rs"
    using assms
  proof (cases rule: Allocate_cases)
    case (built nets ex rates per fl lw tgt r0)
    let ?g = "run_gap lw tgt (fst (existingForBasis (Basis (Baseline i)) nets ex)) fl"
    from built obtain as0 where as0: "splitGap i ?g (snd (existingForBasis (Basis (Baseline i)) nets ex)) per lw tgt ex = Inr as0"
      by (auto simp: buildResult_def)
    have "0 \<le> ?g" using built(8) by (simp add: minAllocatableGap_def)
    from pipeline_spec(7) [OF as0 built(10,1) this rates_in_unit [OF built(4)]] built(12) show ?thesis by auto
  qed simp
  obtain g nets per lw tgt ex as0 where v: "validateAllocateInput i = None" and g: "minAllocatableGap < g"
    and as0: "splitGap i g nets per lw tgt ex = Inr as0"
    and sub: "image_mset al_Layer (mset (Allocations r)) \<subseteq># image_mset al_Layer (mset (fst (holdReshapedBufferAllocations as0
         ?rs (Layers i) (DataSources i))))"
    using assms False by (rule Allocate_pipeline) blast
  have "0 \<le> g" using g by (simp add: minAllocatableGap_def)
  from alloc_layers_configured [OF sub as0 v this]
  have "distinct (map al_Layer (Allocations r))" and
    *: "\<forall>a \<in> set (Allocations r). al_Layer a \<in> Type ` set (Layers i) \<and> \<not> is_reshaped ?rs (Layers i) (al_Layer a)" by auto
  moreover have "\<forall>l \<in> Type ` set (Layers i). LayerType_Validate l = None"
    using v by (auto simp: input_valid_iff layers_valid_iff spec_ok_def)
  ultimately show ?thesis using rs by (auto simp: is_reshaped_def)
qed simp

lemma alloc_layers_recognized:
  "Allocate (Some i) = Inr r \<Longrightarrow> \<forall>a \<in> set (Allocations r). LayerType_Validate (al_Layer a) = None"
  using run_layers by blast

text \<open>Purchases only go to configured layers, at most one per layer, and never to a pure
  buffer layer for which the same run recommends a reshape.\<close>

theorem allocate_layers:
  assumes "Allocate (Some i) = Inr r"
  shows "distinct (map al_Layer (Allocations r)) \<and> (\<forall>a \<in> set (Allocations r). al_Layer a \<in> Type ` set (Layers i)
    \<and> LayerType_Validate (al_Layer a) = None
    \<and> \<not> (bufferOnly (Layers i) (al_Layer a) \<and> al_Layer a \<in> pa_Layer ` set (Reshapes r)))"
  using assms by (rule run_layers)

section \<open>Holds and reshapes\<close>

lemma detect_le_1:
  assumes "validateAllocateInput i = None"
  shows "length (fst (detectReshapes (Layers i) states th ds)) \<le> 1"
  using detect_count [of "Layers i" states th ds] assms by (simp add: input_valid_iff layers_valid_iff)

lemma limit_positive:
  "validateAllocateInput i = None \<Longrightarrow> 0 < MaxActionsPerRun (Config i)"
  by (simp add: input_valid_iff config_valid_iff run_limits_iff)

lemma buildResult_truncated:
  assumes "buildResult i lw tgt ex g nets fl rates reshapes mh = Inr r"
  shows "\<exists>as4 hs. truncateToMaxActions as4 reshapes (MaxActionsPerRun (Config i)) (LayerStates i) (DataSources i)
    = (Allocations r, Reshapes r, hs)"
proof -
  let ?ds = "DataSources i" and ?m = "MaxActionsPerRun (Config i)"
  from assms obtain as0 where 0: "splitGap i g nets fl lw tgt ex = Inr as0" by (auto simp: buildResult_def)
  obtain as1 h1 where 1: "holdReshapedBufferAllocations as0 reshapes (Layers i) ?ds = (as1, h1)" by fastforce
  obtain as2 h2 where 2: "convertAllocations as1 rates ?ds = (as2, h2)" by fastforce
  from assms obtain as3 where 3: "applyCapGuardrail as2 (MaxHourlyCommitPerRun (Config i)) = Inr as3"
    by (auto simp: buildResult_def 0 1 2)
  obtain as4 h4 where 4: "dropSubMinimumAllocations as3 ?ds = (as4, h4)" by fastforce
  obtain as5 rs h5 where 5: "truncateToMaxActions as4 reshapes ?m (LayerStates i) ?ds = (as5, rs, h5)"
    by (cases "truncateToMaxActions as4 reshapes ?m (LayerStates i) ?ds") auto
  from assms have "Allocations r = as5" "Reshapes r = rs" by (auto simp: buildResult_def 0 1 2 3 4 5)
  with 5 show ?thesis by blast
qed

lemma reshapes_kept:
  assumes "Allocate (Some i) = Inr r"
  shows "Reshapes r = fst (detectReshapes (Layers i) (LayerStates i) (BufferUtilizationThresholdPct (Config i)) (DataSources i))"
  using assms
proof (cases rule: Allocate_cases)
  case (built nets ex rates per fl lw tgt r0)
  from buildResult_truncated [OF built(10)] obtain as4 hs where
    "truncateToMaxActions as4 (fst (detectReshapes (Layers i) (LayerStates i) (BufferUtilizationThresholdPct (Config i)) (DataSources i)))
      (MaxActionsPerRun (Config i)) (LayerStates i) (DataSources i) = (Allocations r0, Reshapes r0, hs)" by blast
  from truncate_single_reshape [OF this detect_le_1 [OF built(1)] limit_positive [OF built(1)]] built(12)
  show ?thesis by simp
qed simp

text \<open>Reshape detection does not depend on the purchase gap: whatever a run decides about
  buying, it proposes exactly the reshapes of the non-empty buffer layers measured below the
  threshold, and the action limit never drops one.\<close>

theorem allocate_keeps_reshapes:
  assumes "Allocate (Some i) = Inr r"
  shows "Reshapes r = fst (detectReshapes (Layers i) (LayerStates i) (BufferUtilizationThresholdPct (Config i)) (DataSources i))"
  using assms by (rule reshapes_kept)

text \<open>A run proposes at most \<open>MaxActionsPerRun\<close> state-changing actions.\<close>

theorem allocate_action_limit:
  assumes "Allocate (Some i) = Inr r"
  shows "int (length (Allocations r)) + int (length (Reshapes r)) \<le> MaxActionsPerRun (Config i)"
  using assms
proof (cases rule: Allocate_cases)
  case (holds nets ex h)
  have "length (Reshapes r) \<le> 1" unfolding holds(5) by (rule detect_le_1 [OF holds(1)])
  with limit_positive [OF holds(1)] holds(4) show ?thesis by simp
next
  case (built nets ex rates per fl lw tgt r0)
  from buildResult_truncated [OF built(10)] obtain as4 rs hs where
    "truncateToMaxActions as4 rs (MaxActionsPerRun (Config i)) (LayerStates i) (DataSources i) = (Allocations r0, Reshapes r0, hs)"
    by blast
  from truncate_limit [OF this] limit_positive [OF built(1)] built(11,12) show ?thesis by simp
qed

text \<open>C24. No money decision is lost. The input fixes why a run stops early (no measured floor, an
  open gap not above the minimum, a residual baseline under a partial target): such a run buys
  nothing and says that reason in a hold on the flex layer. Any other run divides the open gap
  (the target share of the floor, less what is owned and in flight) into the shares its roles
  are due: the buffer's fraction, the base up to the stable level, the rest to flex. They add up
  to the gap, and every share is either bought or held, one record each, on its own layer
  (beside the reshapes and the holds of unmeasured buffer layers); what is bought is the share
  times the one factor of the spend cap, and the whole share without a cap.\<close>

theorem allocate_audit_complete:
  assumes "Allocate (Some i) = Inr r"
  shows "case early_reason i of
     Some why \<Rightarrow> Allocations r = [] \<and> (\<exists>rest. Holds r = mk_hold (the (carrier i RoleFlex)) (why @ '': '' @ rest) (DataSources i)
        # snd (detectReshapes (Layers i) (LayerStates i) (BufferUtilizationThresholdPct (Config i)) (DataSources i)))
   | None \<Rightarrow> minAllocatableGap < open_gap i \<and> sum_list (map snd (due_shares i)) = open_gap i \<and> distinct (map fst (due_shares i))
       \<and> mset (map al_Layer (Allocations r)) + mset (map pa_Layer (Holds r))
          = mset (map fst (due_shares i)) + mset (map pa_Layer (snd (detectReshapes (Layers i) (LayerStates i)
              (BufferUtilizationThresholdPct (Config i)) (DataSources i))))
       \<and> (\<exists>s. 0 < s \<and> s \<le> 1 \<and> (MaxHourlyCommitPerRun (Config i) = None \<longrightarrow> s = 1)
           \<and> (\<forall>a \<in> set (Allocations r). \<exists>x. (al_Layer a, x) \<in> set (due_shares i) \<and> od_of a = x * s))"
  using assms
proof (cases rule: Allocate_cases)
  case (holds nets ex h why rest)
  obtain l where "carrier i RoleFlex = Some l" using carrier_flex [OF holds(1)] by blast
  then have "fst (findLayerForRole (Layers i) RoleFlex) = the (carrier i RoleFlex)" by (simp add: findLayer_carrier)
  then have "Holds r = mk_hold (the (carrier i RoleFlex)) (why @ '': '' @ rest) (DataSources i)
        # snd (detectReshapes (Layers i) (LayerStates i) (BufferUtilizationThresholdPct (Config i)) (DataSources i))"
    using holds(6,9) by simp
  with holds(4,8) show ?thesis by (simp only: option.case) blast
next
  case (built nets ex rates per fl lw tgt r0)
  note b = built(10) [unfolded built(15)]
  from b obtain as0 where as0: "splitGap i (open_gap i) (snd (existingForBasis (Basis (Baseline i)) nets ex)) per lw tgt ex = Inr as0"
    by (auto simp: buildResult_def)
  have g: "minAllocatableGap < open_gap i" using built(8,15) by simp
  then have g0: "0 \<le> open_gap i" by (simp add: minAllocatableGap_def)
  note sh = split_shares [OF as0 built(1,2,5)]
  have sum: "map od_of as0 = map snd (due_shares i)" and lay: "map al_Layer as0 = map fst (due_shares i)"
    unfolding sh [symmetric] by simp_all
  have "mset (map al_Layer (Allocations r)) + mset (map pa_Layer (Holds r))
      = mset (map al_Layer as0) + mset (map pa_Layer (snd (detectReshapes (Layers i) (LayerStates i)
          (BufferUtilizationThresholdPct (Config i)) (DataSources i))))"
    using pipeline_spec(6) [OF as0 b built(1) g0 rates_in_unit [OF built(4)]] reshapes_kept [OF assms] built(11-13)
    by (simp add: ac_simps)
  moreover note build_amounts [OF b as0 built(1), unfolded sh]
  ultimately show ?thesis
    using g splitGap_spec(1,4) [OF as0 built(1) g0] by (simp only: built(11,14) option.case sum lay simp_thms)
qed

text \<open>Every hold and reshape a run emits is a valid planned action.\<close>

definition actions_ok :: "PlannedAction list \<Rightarrow> bool" where
  "actions_ok hs \<longleftrightarrow> (\<forall>h \<in> set hs. PlannedAction_Validate h = None \<and> Action h \<noteq> ActionPurchase)"

lemma actions_ok_simps [simp]:
  "actions_ok []" "actions_ok (h # hs) \<longleftrightarrow> PlannedAction_Validate h = None \<and> Action h \<noteq> ActionPurchase \<and> actions_ok hs"
  "actions_ok (xs @ ys) \<longleftrightarrow> actions_ok xs \<and> actions_ok ys"
  by (auto simp: actions_ok_def)

lemma layers_recognized:
  "validateAllocateInput i = None \<Longrightarrow> ls \<in> set (Layers i) \<Longrightarrow> LayerType_Validate (Type ls) = None"
  by (simp add: input_valid_iff layers_valid_iff spec_ok_def)

lemma detect_ok:
  assumes "validateAllocateInput i = None"
  shows "actions_ok (fst (detectReshapes (Layers i) states th ds))" "actions_ok (snd (detectReshapes (Layers i) states th ds))"
  using layers_recognized [OF assms]
  by (auto simp: actions_ok_def detectReshapes_mem detect_holds_mem reshape_action_def util_unknown_hold_def)

lemma buildResult_holds_ok:
  assumes "buildResult i lw tgt ex g nets fl rates reshapes mh = Inr r" and "validateAllocateInput i = None"
    and "0 \<le> g" and "actions_ok mh" and "actions_ok reshapes"
  shows "actions_ok (Holds r)"
proof -
  let ?ds = "DataSources i" and ?m = "MaxActionsPerRun (Config i)" and ?ok = "\<lambda>as. \<forall>a \<in> set as. LayerType_Validate (al_Layer a) = None"
  from assms(1) obtain as0 where 0: "splitGap i g nets fl lw tgt ex = Inr as0" by (auto simp: buildResult_def)
  have k0: "?ok as0" using splitGap_spec(3) [OF 0 assms(2,3)] layers_recognized [OF assms(2)] by fastforce
  obtain as1 h1 where 1: "holdReshapedBufferAllocations as0 reshapes (Layers i) ?ds = (as1, h1)" by fastforce
  with k0 have k1: "?ok as1" "actions_ok h1" by (auto simp: hold_reshaped_eq actions_ok_def)
  obtain as2 h2 where 2: "convertAllocations as1 rates ?ds = (as2, h2)" by fastforce
  with k1 have k2: "?ok as2" "actions_ok h2" by (auto simp: convertAllocations_eq actions_ok_def)
  from assms(1) obtain as3 where 3: "applyCapGuardrail as2 (MaxHourlyCommitPerRun (Config i)) = Inr as3"
    by (auto simp: buildResult_def 0 1 2)
  with k2 have k3: "?ok as3" by (auto simp: applyCapGuardrail_def Let_def split: option.splits if_splits)
  obtain as4 h4 where 4: "dropSubMinimumAllocations as3 ?ds = (as4, h4)" by fastforce
  with k3 have k4: "?ok as4" "actions_ok h4" by (auto simp: dropSubMinimumAllocations_def actions_ok_def)
  obtain as5 rs h5 where 5: "truncateToMaxActions as4 reshapes ?m (LayerStates i) ?ds = (as5, rs, h5)"
    by (cases "truncateToMaxActions as4 reshapes ?m (LayerStates i) ?ds") auto
  have "\<forall>p \<in> set reshapes. LayerType_Validate (pa_Layer p) = None"
    using assms(5) by (auto simp: actions_ok_def planned_action_iff)
  with 5 k4 have "actions_ok h5"
    by (auto simp: truncateToMaxActions_def truncateReshapes_def truncatePurchases_def Let_def actions_ok_def
        split: if_splits dest!: in_set_dropD)
  moreover from assms(1) have "Holds r = mh @ h1 @ h2 @ h4 @ h5" by (auto simp: buildResult_def 0 1 2 3 4 5)
  ultimately show ?thesis using k1 k2 k4 assms(4) by simp
qed

text \<open>C26. Every hold and every reshape of a run is a valid planned action: a recognized layer, a
  rationale, and no amount, term or payment option.\<close>

theorem allocate_actions_valid:
  assumes "Allocate (Some i) = Inr r" and "h \<in> set (Holds r) \<union> set (Reshapes r)"
  shows "PlannedAction_Validate h = None \<and> Action h \<noteq> ActionPurchase"
proof -
  have v: "validateAllocateInput i = None" using assms(1) by (rule Allocate_cases) blast+
  have rs: "actions_ok (Reshapes r)" unfolding reshapes_kept [OF assms(1)] by (rule detect_ok [OF v])
  have hs: "actions_ok (Holds r)"
    using assms(1)
  proof (cases rule: Allocate_cases)
    case (holds nets ex h)
    have "LayerType_Validate (fst (findLayerForRole (Layers i) RoleFlex)) = None"
      using flex_layer_exists [of "Layers i"] v by (metis fst_conv input_valid_iff)
    with holds detect_ok [OF v] show ?thesis by simp
  next
    case (built nets ex rates per fl lw tgt r0)
    with detect_ok [OF v] buildResult_holds_ok [OF built(10) v] show ?thesis by (simp add: minAllocatableGap_def)
  qed
  show ?thesis using rs hs assms(2) by (auto simp: actions_ok_def)
qed

section \<open>A concrete run\<close>

text \<open>
  Three AWS layers with one dollar of existing commitment each, one in-flight tranche, a
  16 USD/hr floor and a per-run cap of 4 USD/hr; the buffer layer is under-utilized.
\<close>

definition ex_config :: LadderConfig where
  "ex_config = \<lparr>cfg_Scope = \<lparr>Provider = ''aws'', AccountID = ''123456789012''\<rparr>, Mode = ''auto_approve'', Cadence = ''daily'',
     MaxHourlyCommitPerRun = Some (Fin 4), Ramp = \<lparr>Steps = [\<lparr>AfterDays = 0, Fraction = Fin (1/2)\<rparr>, \<lparr>AfterDays = 30, Fraction = Fin (1/2)\<rparr>]\<rparr>,
     TargetCoveragePct = Fin 100, BufferFraction = Fin (1/8), BaselinePercentile = Fin 5, cfg_LookbackDays = 30,
     MaxActionsPerRun = 3, BufferUtilizationThresholdPct = Fin 90\<rparr>"

definition ex_state :: "LayerType \<Rightarrow> LayerState" where
  "ex_state l = \<lparr>ExistingUSDPerHour = Some (Fin 1), ExpiringUSDPerHour = Some (Fin 0), CoveragePct = None,
     UtilizationPct = Some (Fin 50), st_Layer = l\<rparr>"

definition ex_input :: AllocationInput where
  "ex_input = \<lparr>in_Now = 1000, LayerStates = [(LayerEC2InstanceSP, ex_state LayerEC2InstanceSP), (LayerComputeSP, ex_state LayerComputeSP),
       (LayerConvertibleRI, ex_state LayerConvertibleRI)],
     CommitmentRates = Some [(LayerEC2InstanceSP, Fin (1/2)), (LayerComputeSP, Fin (1/2)), (LayerConvertibleRI, Fin (1/2))],
     Layers = [\<lparr>Type = LayerEC2InstanceSP, Roles = [RoleBase]\<rparr>, \<lparr>Type = LayerComputeSP, Roles = [RoleFlex]\<rparr>,
       \<lparr>Type = LayerConvertibleRI, Roles = [RoleBuffer]\<rparr>],
     DataSources = [''cost-explorer''],
     InFlight = Some [\<lparr>if_Layer = LayerComputeSP, CommitmentUSDPerHour = Fin 1, if_Rate = Fin (1/2)\<rparr>],
     Baseline = \<lparr>LowWaterUSDPerHour = Some (Fin 16), StableUSDPerHour = Some (Fin 4), Basis = ''total'', Series = [], LookbackDays = 30, Percentile = Fin 5\<rparr>,
     Config = ex_config\<rparr>"

lemma eps_nonneg: "\<not> Fin 0 < - rampSumEpsilon" "\<not> rampSumEpsilon < Fin 0"
  unfolding rampSumEpsilon_def by (intro float_nonneg_cmp rnd_nonneg; simp)+

lemma ex_ramp_valid: "RampSchedule_Validate (Ramp ex_config) = None"
  using eps_nonneg by (simp add: RampSchedule_Validate_def ex_config_def minus_float64_def)

lemma ex_config_valid: "LadderConfig_Validate ex_config = None"
  unfolding config_valid_iff using ex_ramp_valid
  by (simp add: ex_config_def scope_valid_iff validateBaselineBounds_def validateRunLimits_def withinExclIncl_def
      enum_validators enum_defs)

lemma ex_fields:
  "Layers ex_input = [\<lparr>Type = LayerEC2InstanceSP, Roles = [RoleBase]\<rparr>, \<lparr>Type = LayerComputeSP, Roles = [RoleFlex]\<rparr>,
       \<lparr>Type = LayerConvertibleRI, Roles = [RoleBuffer]\<rparr>]"
  "LowWaterUSDPerHour (Baseline ex_input) = Some (Fin 16)" "StableUSDPerHour (Baseline ex_input) = Some (Fin 4)"
  "isResidual (Basis (Baseline ex_input)) = False" "Config ex_input = ex_config"
  "CommitmentRates ex_input = Some [(LayerEC2InstanceSP, Fin (1/2)), (LayerComputeSP, Fin (1/2)), (LayerConvertibleRI, Fin (1/2))]"
  by (simp_all add: ex_input_def isResidual_def enum_defs)

lemma ex_state_of: "state_of (LayerStates ex_input) LayerEC2InstanceSP = ex_state LayerEC2InstanceSP"
  "state_of (LayerStates ex_input) LayerComputeSP = ex_state LayerComputeSP"
  "state_of (LayerStates ex_input) LayerConvertibleRI = ex_state LayerConvertibleRI"
  by (simp_all add: state_of_def ex_input_def enum_defs)

lemma layer_neq: "LayerEC2InstanceSP \<noteq> LayerComputeSP" "LayerEC2InstanceSP \<noteq> LayerConvertibleRI" "LayerComputeSP \<noteq> LayerConvertibleRI"
  "LayerComputeSP \<noteq> LayerEC2InstanceSP" "LayerConvertibleRI \<noteq> LayerEC2InstanceSP" "LayerConvertibleRI \<noteq> LayerComputeSP"
  "RoleBase \<noteq> RoleFlex" "RoleBase \<noteq> RoleBuffer" "RoleFlex \<noteq> RoleBuffer"
  "RoleFlex \<noteq> RoleBase" "RoleBuffer \<noteq> RoleBase" "RoleBuffer \<noteq> RoleFlex"
  by (simp_all add: enum_defs)

lemma ex_valid: "validateAllocateInput ex_input = None"
proof -
  have l: "validateLayers (Layers ex_input) = None"
    by (simp add: layers_valid_iff ex_input_def spec_ok_def role_count_def enum_validators enum_defs)
  have s: "validateLayerStates (Layers ex_input) (LayerStates ex_input) = None"
    by (simp add: validateLayerStates_def validateLayerState_def validateNoUnknownStateKeys_def validateUtilizationPct_def
       ex_input_def ex_state_def layer_neq)
  have b: "BaselineBasis_Validate (Basis (Baseline ex_input)) = None" by (simp add: ex_input_def enum_validators enum_defs)
  have c: "Config ex_input = ex_config" by (simp add: ex_input_def)
  show ?thesis unfolding input_valid_iff using ex_config_valid l s b c by (simp add: ex_input_def)
qed

lemma ex_nets: "computeNetExisting (Layers ex_input) (LayerStates ex_input)
   = Inr ([LayerEC2InstanceSP \<mapsto> 1, LayerComputeSP \<mapsto> 1, LayerConvertibleRI \<mapsto> 1], 3)"
  by (simp add: computeNetExisting_def ex_fields Let_def ex_state_of ex_state_def)

lemma ex_rates: "parseCommitmentRates (the (CommitmentRates ex_input))
   = Inr [LayerEC2InstanceSP \<mapsto> 1/2, LayerComputeSP \<mapsto> 1/2, LayerConvertibleRI \<mapsto> 1/2]"
  by (simp add: parseCommitmentRates_def ex_fields)

lemma ex_in_flight: "inFlightToOD (Layers ex_input) (the (InFlight ex_input)) = Inr ([LayerComputeSP \<mapsto> 2], 2)"
  by (simp add: inFlightToOD_def ex_fields Let_def) (simp add: ex_input_def)

lemma ex_bt: "computeBaselineAndTarget ex_input = Inr (16, 16)"
  by (simp add: computeBaselineAndTarget_def ex_fields ex_config_def)

lemma ex_detect: "detectReshapes (Layers ex_input) (LayerStates ex_input) (BufferUtilizationThresholdPct (Config ex_input)) ds
   = ([reshape_action ds (Fin 90) LayerConvertibleRI (Fin 50)], [])"
  by (simp add: ex_fields ex_state_of ex_state_def ex_config_def layer_neq)

lemma ex_roles: "findLayerForRole (Layers ex_input) RoleBase = (LayerEC2InstanceSP, True)"
  "findLayerForRole (Layers ex_input) RoleFlex = (LayerComputeSP, True)"
  "findLayerForRole (Layers ex_input) RoleBuffer = (LayerConvertibleRI, True)"
  by (simp_all add: findLayerForRole_def ex_fields layer_neq)

definition ex_ctx :: allocationContext where
  "ex_ctx = \<lparr>ac_lowWater = 16, ac_target = 16, ac_existing = 3, ac_gap = 11, ac_baseNote = '''', ac_basisNote = '''',
     ac_dataSources = DataSources ex_input, ac_cfg = ex_config\<rparr>"

definition ex_shares :: "Allocation list" where
  "ex_shares = [mkAllocation ex_ctx LayerEC2InstanceSP 3 ''base'' '''', mkAllocation ex_ctx LayerConvertibleRI (11/8) ''buffer'' '''',
     mkAllocation ex_ctx LayerComputeSP (53/8) ''flex'' '''']"

lemma ex_base: "computeBaseGap (77/8) True (Baseline ex_input) LayerEC2InstanceSP
    [LayerEC2InstanceSP \<mapsto> 1, LayerComputeSP \<mapsto> 1, LayerConvertibleRI \<mapsto> 1] [LayerComputeSP \<mapsto> 2] = Inr (3, '''')"
  by (simp add: computeBaseGap_def ex_fields layer_neq)

lemma ex_bufferFraction: "BufferFraction (Config ex_input) = Fin (1/8)"
  by (simp add: ex_input_def ex_config_def)

lemma ex_split: "splitGap ex_input 11 [LayerEC2InstanceSP \<mapsto> 1, LayerComputeSP \<mapsto> 1, LayerConvertibleRI \<mapsto> 1] [LayerComputeSP \<mapsto> 2] 16 16 3
   = Inr ex_shares"
proof -
  have n: "11 - 11 * (1 / 8 :: rat) = 77/8" "77/8 - 3 = (53/8 :: rat)" "11 * (1/8) = (11/8 :: rat)" by simp_all
  have bn: "basisNote (Basis (Baseline ex_input)) = ''''" by (simp add: basisNote_def ex_fields)
  show ?thesis
    unfolding splitGap_def ex_roles ex_bufferFraction Let_def
    by (simp add: n ex_base bn ex_fields(5) ex_shares_def ex_ctx_def [symmetric] assembleAllocations_def layer_neq flexRoutingNote_def
        del: fun_upd_apply)
qed

lemma ex_hold: "holdReshapedBufferAllocations ex_shares [reshape_action ds (Fin 90) LayerConvertibleRI (Fin 50)] (Layers ex_input) ds2
   = ([ex_shares ! 0, ex_shares ! 2], [reshaped_hold ds2 (ex_shares ! 1)])"
  by (simp add: hold_reshaped_eq ex_shares_def is_reshaped_def bufferOnly_def ex_fields layer_neq)

lemma ex_convert: "convertAllocations [ex_shares ! 0, ex_shares ! 2]
     [LayerEC2InstanceSP \<mapsto> 1/2, LayerComputeSP \<mapsto> 1/2, LayerConvertibleRI \<mapsto> 1/2] ds
   = ([convert_one (1/2) (ex_shares ! 0), convert_one (1/2) (ex_shares ! 2)], [])"
  by (simp add: ex_shares_def layer_neq)

lemma ex_cap: "applyCapGuardrail [convert_one (1/2) (ex_shares ! 0), convert_one (1/2) (ex_shares ! 2)] (MaxHourlyCommitPerRun (Config ex_input))
   = Inr [scale_alloc (64/77) (convert_one (1/2) (ex_shares ! 0)), scale_alloc (64/77) (convert_one (1/2) (ex_shares ! 2))]"
  by (simp add: applyCapGuardrail_def ex_fields(5) ex_config_def ex_shares_def total_gap_def)

definition ex_bought :: "Allocation list" where
  "ex_bought = [scale_alloc (64/77) (convert_one (1/2) (ex_shares ! 0)), scale_alloc (64/77) (convert_one (1/2) (ex_shares ! 2))]"

lemma ex_min: "dropSubMinimumAllocations ex_bought ds = (ex_bought, [])"
  by (simp add: dropSubMinimumAllocations_def minAllocatableGap_def ex_bought_def ex_shares_def)

text \<open>Two purchases, scaled to the cap, beside the reshape of the buffer layer.\<close>

lemma ex_run: "\<exists>r. Allocate (Some ex_input) = Inr r \<and> Allocations r = ex_bought \<and> length (Reshapes r) = 1"
proof -
  let ?r = "reshape_action (DataSources ex_input) (Fin 90) LayerConvertibleRI (Fin 50)"
  have g: "run_gap 16 16 3 2 = 11" by (simp add: run_gap_def)
  have t: "truncateToMaxActions ex_bought [?r] (MaxActionsPerRun (Config ex_input)) states ds = (ex_bought, [?r], [])" for states ds
    by (simp add: truncateToMaxActions_def ex_fields(5) ex_config_def ex_bought_def)
  show ?thesis
    unfolding Allocate_def option.case ex_valid ex_nets allocate_def ex_rates ex_in_flight ex_bt ex_detect bind_res.simps
      prod.case existingForBasis_def ex_fields(2,4) Let_def
    by (simp add: g minAllocatableGap_def residualPartialTargetHold_def ex_fields(4) buildResult_def ex_split ex_hold ex_convert ex_cap
      ex_min ex_bought_def [symmetric] t del: fun_upd_apply convertAllocations.simps)
qed

lemma ex_run_obtain:
  obtains r where "Allocate (Some ex_input) = Inr r" "Allocations r \<noteq> []" "Reshapes r \<noteq> []"
proof -
  obtain r where "Allocate (Some ex_input) = Inr r" "Allocations r = ex_bought" "length (Reshapes r) = 1"
    using ex_run by blast
  moreover from this have "Allocations r \<noteq> []" "Reshapes r \<noteq> []" by (auto simp: ex_bought_def)
  ultimately show thesis using that by blast
qed

theorem allocate_never_overbuys_witness:
  "\<exists>r. Allocate (Some ex_input) = Inr r \<and> Allocations r \<noteq> []
    \<and> (\<exists>lw p. LowWaterUSDPerHour (Baseline ex_input) = Some (Fin lw) \<and> TargetCoveragePct (Config ex_input) = Fin p \<and> p \<le> 100
      \<and> sum_list (map od_of (Allocations r)) + sum_list (map tranche_od (the (InFlight ex_input)))
        + (if isResidual (Basis (Baseline ex_input)) then 0 else the (NetExistingUSDPerHour r)) \<le> lw * (p / 100))"
  by (rule ex_run_obtain) (use allocate_never_overbuys [of ex_input] in blast)

theorem allocate_prices_exactly_witness:
  "\<exists>r a q x. Allocate (Some ex_input) = Inr r \<and> a \<in> set (Allocations r) \<and> Rate a = Some q
    \<and> OnDemandEquivalentUSDPerHour a = Some x \<and> GapUSDPerHour a = Some (x * q) \<and> minAllocatableGap \<le> x * q"
proof (rule ex_run_obtain)
  fix r assume r: "Allocate (Some ex_input) = Inr r" "Allocations r \<noteq> []"
  then have a: "hd (Allocations r) \<in> set (Allocations r)" by simp
  from allocate_prices_exactly [OF r(1) a] r(1) a show ?thesis by blast
qed

theorem allocate_within_cap_witness:
  "\<exists>r. Allocate (Some ex_input) = Inr r \<and> Allocations r \<noteq> [] \<and> sum_list (map gap_of (Allocations r)) \<le> 4"
proof (rule ex_run_obtain)
  fix r assume r: "Allocate (Some ex_input) = Inr r" "Allocations r \<noteq> []"
  have "MaxHourlyCommitPerRun (Config ex_input) = Some (Fin 4)" by (simp add: ex_input_def ex_config_def)
  from allocate_within_cap [OF r(1) this] r show ?thesis by blast
qed

theorem allocate_layers_witness:
  "\<exists>r. Allocate (Some ex_input) = Inr r \<and> Allocations r \<noteq> [] \<and> distinct (map al_Layer (Allocations r))
    \<and> LayerConvertibleRI \<notin> al_Layer ` set (Allocations r)"
proof (rule ex_run_obtain)
  fix r assume r: "Allocate (Some ex_input) = Inr r" "Allocations r \<noteq> []"
  have rs: "LayerConvertibleRI \<in> pa_Layer ` set (Reshapes r)"
    using reshapes_kept [OF r(1)] by (simp add: ex_detect)
  have "bufferOnly (Layers ex_input) LayerConvertibleRI" by (simp add: bufferOnly_def ex_fields layer_neq)
  with rs allocate_layers [OF r(1)] have "LayerConvertibleRI \<notin> al_Layer ` set (Allocations r)" by auto
  with allocate_layers [OF r(1)] r show ?thesis by blast
qed

theorem allocate_keeps_reshapes_witness:
  "\<exists>r. Allocate (Some ex_input) = Inr r \<and> map pa_Layer (Reshapes r) = [LayerConvertibleRI]"
proof (rule ex_run_obtain)
  fix r assume r: "Allocate (Some ex_input) = Inr r"
  from allocate_keeps_reshapes [OF r] r show ?thesis by (simp add: ex_detect)
qed

theorem allocate_action_limit_witness:
  "\<exists>r. Allocate (Some ex_input) = Inr r \<and> int (length (Allocations r)) + int (length (Reshapes r)) \<le> 3"
proof (rule ex_run_obtain)
  fix r assume r: "Allocate (Some ex_input) = Inr r"
  from allocate_action_limit [OF r] r show ?thesis by (simp add: ex_input_def ex_config_def)
qed

text \<open>The run's figures: eleven dollars are open, three go to the base layer up to its stable
  level, an eighth to the buffer, the rest to flex; the cap scales both purchases alike.\<close>

lemma ex_open: "open_gap ex_input = 11"
  by (simp add: open_gap_def ex_fields owned_on_def net_of_def ex_state_of ex_state_def ex_config_def)
    (simp add: ex_input_def tranche_od_def)

lemma ex_carriers: "carrier ex_input RoleBase = Some LayerEC2InstanceSP" "carrier ex_input RoleFlex = Some LayerComputeSP"
  "carrier ex_input RoleBuffer = Some LayerConvertibleRI"
  using ex_roles by (simp_all add: findLayer_eqs(1) [symmetric])

lemma ex_due: "due_shares ex_input = [(LayerEC2InstanceSP, 3), (LayerConvertibleRI, 11/8), (LayerComputeSP, 53/8)]"
proof -
  have u: "buffer_due ex_input = 11/8" by (simp add: buffer_due_def ex_open ex_bufferFraction)
  have fl: "layer_od LayerEC2InstanceSP (the (InFlight ex_input)) = 0" by (simp add: layer_od_def ex_input_def layer_neq)
  have b: "base_due ex_input = 3"
    by (simp add: base_due_def ex_carriers ex_fields ex_open u fl owned_on_def net_of_def ex_state_of ex_state_def)
  show ?thesis by (simp add: due_shares_def ex_carriers flex_due_def ex_open u b layer_neq)
qed

lemma ex_early: "early_reason ex_input = None"
  by (simp add: early_reason_None ex_open ex_fields minAllocatableGap_def)

theorem allocate_audit_complete_witness:
  "\<exists>r. Allocate (Some ex_input) = Inr r \<and> Allocations r \<noteq> []
    \<and> mset (map al_Layer (Allocations r)) + mset (map pa_Layer (Holds r)) = {#LayerEC2InstanceSP, LayerConvertibleRI, LayerComputeSP#}"
proof (rule ex_run_obtain)
  fix r assume r: "Allocate (Some ex_input) = Inr r" "Allocations r \<noteq> []"
  from allocate_audit_complete [OF r(1)] r show ?thesis by (simp add: ex_early ex_detect ex_due)
qed

theorem allocate_actions_valid_witness:
  "\<exists>r h. Allocate (Some ex_input) = Inr r \<and> h \<in> set (Reshapes r) \<and> PlannedAction_Validate h = None"
proof (rule ex_run_obtain)
  fix r assume r: "Allocate (Some ex_input) = Inr r" "Reshapes r \<noteq> []"
  then have "hd (Reshapes r) \<in> set (Holds r) \<union> set (Reshapes r)" by simp
  from allocate_actions_valid [OF r(1) this] r show ?thesis by (metis list.set_sel(1))
qed

section \<open>When a run succeeds, and when it buys nothing\<close>

lemma flex_exists: "validateAllocateInput i = None \<Longrightarrow> \<exists>l. findLayerForRole (Layers i) RoleFlex = (l, True)"
  by (metis flex_layer_exists input_valid_iff)

lemma computeBaseGap_ok:
  "(\<exists>res. computeBaseGap core hasBase bl l nets fl = Inr res)
    \<longleftrightarrow> \<not> hasBase \<or> (case StableUSDPerHour bl of None \<Rightarrow> True | Some v \<Rightarrow> (\<exists>x. v = Fin x \<and> 0 \<le> x))"
proof (cases "StableUSDPerHour bl")
  case None
  then show ?thesis by (simp add: computeBaseGap_def)
next
  case (Some v)
  show ?thesis
  proof (cases "ratFromFloat ''stable_usd_per_hour'' v")
    case (Inl e)
    then have "\<not> (\<exists>x. v = Fin x \<and> 0 \<le> x)" by auto
    with Some Inl show ?thesis by (simp add: computeBaseGap_def)
  next
    case (Inr s)
    then have "v = Fin s" "0 \<le> s" by simp_all
    with Some show ?thesis by (simp add: computeBaseGap_def Let_def)
  qed
qed

lemma splitGap_ok:
  assumes "validateAllocateInput i = None" and "0 < g"
  shows "(\<exists>as. splitGap i g nets fl lw tgt ex = Inr as) \<longleftrightarrow> split_ok i"
proof -
  obtain bl hb where bl: "findLayerForRole (Layers i) RoleBase = (bl, hb)" by fastforce
  obtain ul hu where ul: "findLayerForRole (Layers i) RoleBuffer = (ul, hu)" by fastforce
  obtain bf where bf: "BufferFraction (Config i) = Fin bf" "0 \<le> bf"
    using assms(1) by (auto simp: input_valid_iff config_valid_iff baseline_bounds_iff)
  have u: "0 < g * bf \<longleftrightarrow> bf \<noteq> 0" using assms(2) bf(2) by (simp add: zero_less_mult_iff less_le)
  have c: "carrier i RoleBase = None \<longleftrightarrow> \<not> hb" "carrier i RoleBuffer = None \<longleftrightarrow> \<not> hu"
    using findLayer_eqs(2) [of i] bl ul by (metis snd_conv)+
  show ?thesis
    using computeBaseGap_ok [of "g - g * bf" hb "Baseline i" bl nets fl]
    by (auto simp: splitGap_def split_ok_def Let_def bl ul bf u c)
qed

lemma applyCap_ok:
  assumes "validateAllocateInput i = None"
  shows "\<exists>bs. applyCapGuardrail as (MaxHourlyCommitPerRun (Config i)) = Inr bs"
proof (cases "MaxHourlyCommitPerRun (Config i)")
  case None
  then show ?thesis by (simp add: applyCapGuardrail_def)
next
  case (Some v)
  then obtain c where "v = Fin c" "0 < c" using assms by (auto simp: input_valid_iff config_valid_iff run_limits_iff)
  with Some show ?thesis by (simp add: applyCapGuardrail_def Let_def)
qed

lemma buildResult_ok:
  assumes "validateAllocateInput i = None" and "0 < g"
  shows "(\<exists>r. buildResult i lw tgt ex g nets fl rates reshapes mh = Inr r) \<longleftrightarrow> split_ok i"
  using applyCap_ok [OF assms(1)] splitGap_ok [OF assms, of nets fl lw tgt ex]
  by (cases "splitGap i g nets fl lw tgt ex") (auto simp: buildResult_def case_prod_beta Let_def)

text \<open>Past validation, a run fails only on the floor, or in the split it reaches.\<close>

lemma allocate_ok:
  assumes v: "validateAllocateInput i = None" and n: "computeNetExisting (Layers i) (LayerStates i) = Inr (nets, ex)"
    and rt: "parseCommitmentRates (the (CommitmentRates i)) = Inr rates"
    and fl: "inFlightToOD (Layers i) (the (InFlight i)) = Inr (per, fl)"
  shows "(\<exists>r0. allocate i nets ex = Inr r0) \<longleftrightarrow> floor_ok i \<and> (early_reason i = None \<longrightarrow> split_ok i)"
proof (cases "LowWaterUSDPerHour (Baseline i)")
  case None
  then show ?thesis by (simp add: allocate_def rt fl case_prod_beta floor_ok_def early_reason_def)
next
  case (Some x)
  obtain p where p: "TargetCoveragePct (Config i) = Fin p" "0 < p"
    using v by (auto simp: input_valid_iff config_valid_iff baseline_bounds_iff)
  show ?thesis
  proof (cases "floor_ok i")
    case False
    with Some have "\<not> (\<exists>res. computeBaselineAndTarget i = Inr res)"
      by (auto simp: floor_ok_def computeBaselineAndTarget_def)
    with False Some show ?thesis by (auto simp: allocate_def rt fl case_prod_beta)
  next
    case True
    with Some obtain lw where lw: "x = Fin lw" "0 \<le> lw" by (auto simp: floor_ok_def)
    with Some p have "computeBaselineAndTarget i = Inr (lw, lw * (p / 100))" by (simp add: computeBaselineAndTarget_def)
    then obtain tgt where bt: "computeBaselineAndTarget i = Inr (lw, tgt)" by blast
    have g: "run_gap lw tgt (fst (existingForBasis (Basis (Baseline i)) nets ex)) fl = open_gap i"
      using run_gap_open [OF v n fl _ bt] Some by simp
    show ?thesis
    proof (cases "early_reason i = None")
      case e: True
      then have "minAllocatableGap < open_gap i" "residualPartialTargetHold i lw (open_gap i) = None"
        by (simp_all add: early_reason_None residual_hold_iff [OF v])
      moreover from this have "0 < open_gap i" by (simp add: minAllocatableGap_def)
      note buildResult_ok [OF v this]
      ultimately show ?thesis using True e Some
        by (simp add: allocate_def rt fl bt g case_prod_beta Let_def)
    next
      case e: False
      then have "open_gap i \<le> minAllocatableGap \<or> residualPartialTargetHold i lw (open_gap i) \<noteq> None"
        using Some by (auto simp: early_reason_None residual_hold_iff [OF v])
      with True e Some show ?thesis by (auto simp: allocate_def rt fl bt g case_prod_beta Let_def)
    qed
  qed
qed

lemma accepts_iff:
  "(\<exists>r. Allocate (Some i) = Inr r) \<longleftrightarrow> validateAllocateInput i = None \<and> snapshot_ok (LayerStates i) (Layers i)
    \<and> rates_ok (the (CommitmentRates i)) \<and> (\<forall>t \<in> set (the (InFlight i)). tranche_ok (Type ` set (Layers i)) t)
    \<and> floor_ok i \<and> (early_reason i = None \<longrightarrow> split_ok i)"
    (is "?lhs \<longleftrightarrow> ?rhs")
proof
  assume ?lhs
  then obtain nets ex r0 where v: "validateAllocateInput i = None" and n: "computeNetExisting (Layers i) (LayerStates i) = Inr (nets, ex)"
    and al: "allocate i nets ex = Inr r0" by (auto simp: Allocate_def split: option.splits)
  from al obtain rates per fl where rt: "parseCommitmentRates (the (CommitmentRates i)) = Inr rates"
    and fl: "inFlightToOD (Layers i) (the (InFlight i)) = Inr (per, fl)" by (auto simp: allocate_def)
  from v n rt fl al allocate_ok [OF v n rt fl] show ?rhs
    using computeNetExisting_ok parseCommitmentRates_ok inFlightToOD_ok by metis
next
  assume rhs: ?rhs
  then obtain res rates res' where "computeNetExisting (Layers i) (LayerStates i) = Inr res"
    "parseCommitmentRates (the (CommitmentRates i)) = Inr rates" "inFlightToOD (Layers i) (the (InFlight i)) = Inr res'"
    using computeNetExisting_ok parseCommitmentRates_ok inFlightToOD_ok by metis
  then obtain nets ex rates per fl where n: "computeNetExisting (Layers i) (LayerStates i) = Inr (nets, ex)"
    and rt: "parseCommitmentRates (the (CommitmentRates i)) = Inr rates"
    and fl: "inFlightToOD (Layers i) (the (InFlight i)) = Inr (per, fl)" by (cases res; cases res') auto
  have v: "validateAllocateInput i = None" using rhs by blast
  from allocate_ok [OF v n rt fl] rhs show ?lhs by (auto simp: Allocate_def v n)
qed

text \<open>C27. \<open>Allocate\<close> returns a result exactly when the input passes validation and every number it
  uses is sound: each layer's expiring share within its existing commitment, every rate in
  (0, 1], every in-flight tranche on a configured layer with a valid stored rate, a finite
  non-negative floor if there is one, and, for a run that gets as far as the split, a buffer
  layer for a positive buffer fraction and a finite non-negative stable level for a base layer.
  Anything else is an error, never a defaulted figure.\<close>

theorem allocate_accepts_iff:
  "(\<exists>r. Allocate (Some i) = Inr r) \<longleftrightarrow> validateAllocateInput i = None \<and> snapshot_ok (LayerStates i) (Layers i)
    \<and> rates_ok (the (CommitmentRates i)) \<and> (\<forall>t \<in> set (the (InFlight i)). tranche_ok (Type ` set (Layers i)) t)
    \<and> floor_ok i \<and> (early_reason i = None \<longrightarrow> split_ok i)"
  by (rule accepts_iff)

text \<open>Both directions: the concrete run is accepted; with an unusable stable level it is refused.\<close>

definition ex_no_stable :: AllocationInput where
  "ex_no_stable = ex_input\<lparr>Baseline := (Baseline ex_input)\<lparr>StableUSDPerHour := Some NaN\<rparr>\<rparr>"

theorem allocate_accepts_iff_witness:
  "(\<exists>r. Allocate (Some ex_input) = Inr r) \<and> split_ok ex_input \<and> \<not> (\<exists>r. Allocate (Some ex_no_stable) = Inr r)"
proof -
  have same: "Layers ex_no_stable = Layers ex_input" "LayerStates ex_no_stable = LayerStates ex_input" "InFlight ex_no_stable = InFlight ex_input"
    "Config ex_no_stable = Config ex_input" "LowWaterUSDPerHour (Baseline ex_no_stable) = LowWaterUSDPerHour (Baseline ex_input)"
    "Basis (Baseline ex_no_stable) = Basis (Baseline ex_input)" "StableUSDPerHour (Baseline ex_no_stable) = Some NaN"
    by (simp_all add: ex_no_stable_def)
  then have "owned_on ex_no_stable l = owned_on ex_input l" for l by (simp add: owned_on_def)
  with same have f: "open_gap ex_no_stable = open_gap ex_input" "carrier ex_no_stable RoleBase = carrier ex_input RoleBase"
    "LowWaterUSDPerHour (Baseline ex_no_stable) = LowWaterUSDPerHour (Baseline ex_input)"
    "isResidual (Basis (Baseline ex_no_stable)) = isResidual (Basis (Baseline ex_input))"
    "StableUSDPerHour (Baseline ex_no_stable) = Some NaN"
    by (simp_all add: open_gap_def carrier_def)
  have "early_reason ex_no_stable = None" by (simp add: early_reason_None f ex_open ex_fields minAllocatableGap_def)
  moreover have "\<not> split_ok ex_no_stable" by (simp add: split_ok_def f ex_carriers)
  moreover have "split_ok ex_input" by (simp add: split_ok_def ex_carriers ex_fields)
  ultimately show ?thesis using allocate_accepts_iff [of ex_input] allocate_accepts_iff [of ex_no_stable] ex_run by blast
qed

text \<open>A run that proposes no state change always says why.\<close>

theorem allocate_noop_explained:
  assumes "Allocate (Some i) = Inr r" and "IsNoOp r"
  shows "\<exists>h \<in> set (Holds r). pa_Rationale h \<noteq> [] \<and> pa_Layer h \<in> Type ` set (Layers i)"
  using assms(1)
proof (cases rule: Allocate_cases)
  case (holds nets ex h)
  obtain l where l: "findLayerForRole (Layers i) RoleFlex = (l, True)" using flex_exists [OF holds(1)] by blast
  then have "l \<in> Type ` set (Layers i)" using findLayer_Some by blast
  with holds l show ?thesis by (auto simp: mk_hold_def)
next
  case (built nets ex rates per fl lw tgt r0)
  let ?g = "run_gap lw tgt (fst (existingForBasis (Basis (Baseline i)) nets ex)) fl"
  from built obtain as0 where as0: "splitGap i ?g (snd (existingForBasis (Basis (Baseline i)) nets ex)) per lw tgt ex = Inr as0"
    by (auto simp: buildResult_def)
  have g: "0 < ?g" using built(8) by (simp add: minAllocatableGap_def)
  note sp = splitGap_spec [OF as0 built(1) less_imp_le [OF g]]
  from sp(1) g obtain a where a: "a \<in> set as0" by (cases as0) auto
  from assms(2) built(11,12) have "Allocations r0 = []" "Reshapes r0 = []" by (auto simp: IsNoOp_def)
  with pipeline_spec(6) [OF as0 built(10,1) less_imp_le [OF g] rates_in_unit [OF built(4)]]
  have acc: "image_mset pa_Layer (mset (Holds r0)) = image_mset al_Layer (mset as0)
      + image_mset pa_Layer (mset (fst (detectReshapes (Layers i) (LayerStates i) (BufferUtilizationThresholdPct (Config i)) (DataSources i))))
      + image_mset pa_Layer (mset (snd (detectReshapes (Layers i) (LayerStates i) (BufferUtilizationThresholdPct (Config i)) (DataSources i))))"
    by simp
  have "al_Layer a \<in># image_mset pa_Layer (mset (Holds r0))" unfolding acc using a by simp
  then obtain h where h: "h \<in> set (Holds r0)" "pa_Layer h = al_Layer a" by auto
  have "actions_ok (Holds r0)"
    using buildResult_holds_ok [OF built(10,1) less_imp_le [OF g]] detect_ok [OF built(1)] by blast
  with h have "pa_Rationale h \<noteq> []" by (auto simp: actions_ok_def planned_action_iff)
  with h sp(3) a built(13) show ?thesis by auto
qed

text \<open>A residual baseline with a partial target and existing commitment cannot be sized, so the
  run buys nothing.\<close>

theorem residual_partial_target_never_buys:
  assumes "Allocate (Some i) = Inr r" and "isResidual (Basis (Baseline i))" and "TargetCoveragePct (Config i) < Fin 100"
    and "hasExistingCommitment (Layers i) (LayerStates i)"
  shows "Allocations r = [] \<and> Holds r \<noteq> []"
  using assms(1)
proof (cases rule: Allocate_cases)
  case (holds nets ex h)
  then show ?thesis by simp
next
  case (built nets ex rates per fl lw tgt r0)
  have "\<not> TargetCoveragePct (Config i) \<ge> Fin 100" using assms(3) by (cases "TargetCoveragePct (Config i)") auto
  with built(9) assms(2,4) show ?thesis by (simp add: residualPartialTargetHold_def split: if_splits)
qed

text \<open>
  The same account with a laxer reshape threshold and no measured floor, and with a residual
  baseline under a 50\% target.
\<close>

definition ex_idle :: AllocationInput where
  "ex_idle = ex_input\<lparr>Baseline := (Baseline ex_input)\<lparr>LowWaterUSDPerHour := None\<rparr>,
     Config := ex_config\<lparr>BufferUtilizationThresholdPct := Fin 40\<rparr>\<rparr>"

definition ex_residual :: AllocationInput where
  "ex_residual = ex_input\<lparr>Baseline := (Baseline ex_input)\<lparr>Basis := BaselineBasisResidual\<rparr>,
     Config := ex_config\<lparr>TargetCoveragePct := Fin 50\<rparr>\<rparr>"

lemma ex_variant_config: "LadderConfig_Validate (ex_config\<lparr>BufferUtilizationThresholdPct := Fin 40\<rparr>) = None"
  "LadderConfig_Validate (ex_config\<lparr>TargetCoveragePct := Fin 50\<rparr>) = None"
  using ex_config_valid by (auto simp: config_valid_iff baseline_bounds_iff run_limits_iff)

lemma ex_variant_fields:
  "Layers ex_idle = Layers ex_input" "LayerStates ex_idle = LayerStates ex_input" "InFlight ex_idle = InFlight ex_input"
  "CommitmentRates ex_idle = CommitmentRates ex_input" "Config ex_idle = ex_config\<lparr>BufferUtilizationThresholdPct := Fin 40\<rparr>"
  "Baseline ex_idle = (Baseline ex_input)\<lparr>LowWaterUSDPerHour := None\<rparr>"
  "Layers ex_residual = Layers ex_input" "LayerStates ex_residual = LayerStates ex_input" "InFlight ex_residual = InFlight ex_input"
  "CommitmentRates ex_residual = CommitmentRates ex_input" "Config ex_residual = ex_config\<lparr>TargetCoveragePct := Fin 50\<rparr>"
  "Baseline ex_residual = (Baseline ex_input)\<lparr>Basis := BaselineBasisResidual\<rparr>"
  by (simp_all add: ex_idle_def ex_residual_def)

lemma ex_input_sound: "snapshot_ok (LayerStates ex_input) (Layers ex_input) \<and> rates_ok (the (CommitmentRates ex_input))
    \<and> (\<forall>t \<in> set (the (InFlight ex_input)). tranche_ok (Type ` set (Layers ex_input)) t)"
  using computeNetExisting_ok parseCommitmentRates_ok inFlightToOD_ok ex_nets ex_rates ex_in_flight by metis

lemma ex_variants_valid: "validateAllocateInput ex_idle = None" "validateAllocateInput ex_residual = None"
  using ex_valid ex_variant_config
  by (simp_all add: input_valid_iff ex_variant_fields enum_validators)

lemma ex_variants_run: "\<exists>r. Allocate (Some ex_idle) = Inr r" "\<exists>r. Allocate (Some ex_residual) = Inr r"
proof -
  have "carrier ex_residual role = carrier ex_input role" for role by (simp add: carrier_def ex_variant_fields)
  then have "split_ok ex_residual"
    by (simp add: split_ok_def ex_variant_fields ex_fields ex_carriers)
  moreover have "floor_ok ex_idle" "floor_ok ex_residual" "early_reason ex_idle = Some ''baseline unavailable''"
    by (simp_all add: floor_ok_def early_reason_def ex_variant_fields ex_fields)
  ultimately show "\<exists>r. Allocate (Some ex_idle) = Inr r" "\<exists>r. Allocate (Some ex_residual) = Inr r"
    using accepts_iff ex_variants_valid ex_input_sound by (simp_all add: ex_variant_fields)
qed

theorem allocate_noop_explained_witness:
  "\<exists>r. Allocate (Some ex_idle) = Inr r \<and> IsNoOp r \<and> (\<exists>h \<in> set (Holds r). pa_Rationale h \<noteq> [])"
proof -
  obtain r where r: "Allocate (Some ex_idle) = Inr r" using ex_variants_run by blast
  have "Reshapes r = []"
    unfolding reshapes_kept [OF r] by (simp add: ex_variant_fields ex_fields ex_state_of ex_state_def layer_neq)
  moreover have "Allocations r = []"
    using r by (rule Allocate_cases) (simp_all add: ex_variant_fields)
  ultimately have n: "IsNoOp r" by (simp add: IsNoOp_def)
  from allocate_noop_explained [OF r n] r n show ?thesis by blast
qed

theorem residual_partial_target_never_buys_witness:
  "\<exists>r. Allocate (Some ex_residual) = Inr r \<and> Allocations r = [] \<and> Holds r \<noteq> []"
proof -
  obtain r where r: "Allocate (Some ex_residual) = Inr r" using ex_variants_run by blast
  have "isResidual (Basis (Baseline ex_residual))" "TargetCoveragePct (Config ex_residual) < Fin 100"
    "hasExistingCommitment (Layers ex_residual) (LayerStates ex_residual)"
    by (simp_all add: ex_variant_fields isResidual_def hasExistingCommitment_def ex_fields ex_state_of ex_state_def)
  from residual_partial_target_never_buys [OF r this] r show ?thesis by blast
qed

end
