(* ===== verification/Ladder_Tranches.thy ===== *)
theory Ladder_Tranches
  imports Ladder_Store Ladder_Run
begin

text \<open>
  \<open>pkg/ladder/ladder.go\<close>: \<open>BuildTranches\<close> turns every allocation into one persisted tranche
  per ramp step. The injected \<open>NewID\<close> closure is a state transformer on an arbitrary state;
  \<open>Config\<close> and \<open>NewID\<close> may be \<open>nil\<close>.
\<close>

record 's TrancheInput =
  ti_Config :: "LadderConfig option"
  ti_RunID :: go_string
  ti_Term :: Term
  ti_PaymentOption :: PaymentOption
  NewID :: "('s \<Rightarrow> go_string \<times> 's) option"
  Now :: go_time
  ti_Allocations :: "Allocation list"

section \<open>Validation\<close>

definition validateInputAllocation :: "nat \<Rightarrow> Allocation \<Rightarrow> ladder_error option" where
  "validateInputAllocation i a = first_err [
     ctx (''allocation['' @ show_nat i @ '']: layer'') (LayerType_Validate (al_Layer a)),
     fail_if (GapUSDPerHour a = None \<or> gap_of a \<le> 0) (Errorf ''allocation[%d]: gap_usd_per_hour must be positive'' [ArgI (int i)]),
     fail_if (al_Rationale a = '''') (Errorf ''allocation[%d]: rationale is required (money-path auditability)'' [ArgI (int i)]),
     fail_if (Rate a = None \<or> the (Rate a) \<le> 0 \<or> the (Rate a) > 1)
       (Errorf ''allocation[%d]: rate must be in (0, 1]'' [ArgI (int i)])]"

definition validateInputAllocations :: "Allocation list \<Rightarrow> ladder_error option" where
  "validateInputAllocations allocs = each_valid validateInputAllocation 0 allocs"

definition validateTrancheInput :: "'s TrancheInput option \<Rightarrow> ladder_error option" where
  "validateTrancheInput inp = (case inp of
     None \<Rightarrow> Some (Errorf ''tranche input must not be nil'' [])
   | Some i \<Rightarrow> (case ti_Config i of
       None \<Rightarrow> Some (Errorf ''config must not be nil'' [])
     | Some c \<Rightarrow> first_err [
         ctx ''config'' (LadderConfig_Validate c),
         fail_if (ti_RunID i = '''') (Errorf ''run_id is required'' []),
         fail_if (is_zero_time (Now i)) (Errorf ''now must not be zero (inject the run wall-clock time)'' []),
         fail_if (NewID i = None) (Errorf ''new_id must not be nil (inject an ID generator)'' []),
         ctx ''term'' (Term_Validate (ti_Term i)),
         ctx ''payment_option'' (PaymentOption_Validate (ti_PaymentOption i)),
         validateInputAllocations (ti_Allocations i)]))"

fun tranche_ids_loop :: "nat \<Rightarrow> go_string set \<Rightarrow> Tranche list \<Rightarrow> ladder_error option" where
  "tranche_ids_loop i seen [] = None"
| "tranche_ids_loop i seen (tr # trs) =
    (if tr_ID tr = '''' then Some (Errorf ''tranche[%d] (layer %s, step %d): NewID returned an empty ID''
       [ArgI (int i), ArgS (tr_Layer tr), ArgI (StepIndex tr)])
     else if tr_ID tr \<in> seen then Some (Errorf ''tranche[%d] (layer %s, step %d): NewID returned duplicate ID %q''
       [ArgI (int i), ArgS (tr_Layer tr), ArgI (StepIndex tr), ArgS (tr_ID tr)])
     else tranche_ids_loop (i + 1) (insert (tr_ID tr) seen) trs)"

definition validateTrancheIDs :: "Tranche list \<Rightarrow> ladder_error option" where
  "validateTrancheIDs trs = tranche_ids_loop 0 {} trs"

section \<open>Building\<close>

definition computeStepAmount :: "rat \<Rightarrow> float64 \<Rightarrow> bool \<Rightarrow> rat \<Rightarrow> rat" where
  "computeStepAmount g fraction isLast priorSum =
    (let remaining = (if g - priorSum < 0 then 0 else g - priorSum) in
     if isLast then remaining
     else let amount = g * the (set_float64 fraction) in
       if amount > remaining then remaining else amount)"

definition buildTranche :: "'s TrancheInput \<Rightarrow> Allocation \<Rightarrow> RampStep \<Rightarrow> nat \<Rightarrow> rat \<Rightarrow> 's \<Rightarrow> ladder_error + Tranche \<times> 's" where
  "buildTranche i alloc step stepIdx amount s =
    (let (newid, s') = the (NewID i) s;
         tr = \<lparr>FireAfter = add_days (Now i) (AfterDays step), FiredAt = None,
               tr_AmountUSDPerHour = rat_string amount, tr_ID = newid, RunID = ti_RunID i,
               tr_Status = TrancheStatusScheduled, tr_Layer = al_Layer alloc, tr_Term = ti_Term i,
               tr_PaymentOption = ti_PaymentOption i, CommitmentRate = rat_string (the (Rate alloc)),
               StepIndex = int stepIdx\<rparr>
     in case Tranche_Validate tr of
          Some e \<Rightarrow> Inl (Ctx (''tranche (layer '' @ al_Layer alloc @ '', step '' @ show_nat stepIdx @ '')'') e)
        | None \<Rightarrow> Inr (tr, s'))"

fun process_steps :: "'s TrancheInput \<Rightarrow> Allocation \<Rightarrow> nat \<Rightarrow> rat \<Rightarrow> RampStep list \<Rightarrow> Tranche list \<Rightarrow> 's
    \<Rightarrow> ladder_error + Tranche list \<times> 's" where
  "process_steps i alloc k priorSum [] result s = Inr (result, s)"
| "process_steps i alloc k priorSum (step # steps) result s =
    (let isLast = (steps = []);
         amount = computeStepAmount (gap_of alloc) (Fraction step) isLast priorSum;
         priorSum' = (if isLast then priorSum else priorSum + amount)
     in if amount = 0 then process_steps i alloc (k + 1) priorSum' steps result s
        else case buildTranche i alloc step k amount s of
          Inl e \<Rightarrow> Inl e
        | Inr (tr, s') \<Rightarrow> process_steps i alloc (k + 1) priorSum' steps (result @ [tr]) s')"

definition processAllocation :: "'s TrancheInput \<Rightarrow> Allocation \<Rightarrow> RampStep list \<Rightarrow> Tranche list \<Rightarrow> 's
    \<Rightarrow> ladder_error + Tranche list \<times> 's" where
  "processAllocation i alloc steps result s = process_steps i alloc 0 0 steps result s"

fun process_allocations :: "'s TrancheInput \<Rightarrow> RampStep list \<Rightarrow> Allocation list \<Rightarrow> Tranche list \<Rightarrow> 's
    \<Rightarrow> ladder_error + Tranche list \<times> 's" where
  "process_allocations i steps [] result s = Inr (result, s)"
| "process_allocations i steps (a # as) result s =
    (case processAllocation i a steps result s of
       Inl e \<Rightarrow> Inl e
     | Inr (result', s') \<Rightarrow> process_allocations i steps as result' s')"

definition buildTrancheResult :: "'s TrancheInput \<Rightarrow> 's \<Rightarrow> ladder_error + Tranche list \<times> 's" where
  "buildTrancheResult i s =
     (case process_allocations i (Steps (Ramp (the (ti_Config i)))) (ti_Allocations i) [] s of
        Inl e \<Rightarrow> Inl e
      | Inr (trs, s') \<Rightarrow> (case validateTrancheIDs trs of Some e \<Rightarrow> Inl e | None \<Rightarrow> Inr (trs, s')))"

definition BuildTranches :: "'s TrancheInput option \<Rightarrow> 's \<Rightarrow> ladder_error + Tranche list \<times> 's" where
  "BuildTranches inp s = (case validateTrancheInput inp of
     Some e \<Rightarrow> Inl e | None \<Rightarrow> buildTrancheResult (the inp) s)"

section \<open>What validation guarantees\<close>

lemma input_allocation_iff [err_iff]:
  "validateInputAllocation k a = None \<longleftrightarrow> LayerType_Validate (al_Layer a) = None
     \<and> (\<exists>g. GapUSDPerHour a = Some g \<and> 0 < g) \<and> al_Rationale a \<noteq> [] \<and> (\<exists>q. Rate a = Some q \<and> 0 < q \<and> q \<le> 1)"
  by (auto simp: validateInputAllocation_def gap_of_def)

lemma input_allocations_iff [err_iff]:
  "validateInputAllocations as = None \<longleftrightarrow> (\<forall>a \<in> set as. validateInputAllocation 0 a = None)"
  by (simp add: validateInputAllocations_def all_set_conv_all_nth input_allocation_iff)

lemma tranche_input_iff [err_iff]:
  "validateTrancheInput (Some i) = None \<longleftrightarrow> (\<exists>c. ti_Config i = Some c \<and> LadderConfig_Validate c = None)
     \<and> ti_RunID i \<noteq> [] \<and> Now i \<noteq> 0 \<and> NewID i \<noteq> None \<and> Term_Validate (ti_Term i) = None
     \<and> PaymentOption_Validate (ti_PaymentOption i) = None \<and> validateInputAllocations (ti_Allocations i) = None"
  by (auto simp: validateTrancheInput_def is_zero_time_def split: option.splits)

lemma tranche_ids_iff [err_iff]:
  "validateTrancheIDs trs = None \<longleftrightarrow> distinct (map tr_ID trs) \<and> [] \<notin> tr_ID ` set trs"
proof -
  have "tranche_ids_loop k seen trs = None \<longleftrightarrow> distinct (map tr_ID trs) \<and> [] \<notin> tr_ID ` set trs \<and> tr_ID ` set trs \<inter> seen = {}"
    for k seen by (induction trs arbitrary: k seen) auto
  then show ?thesis by (simp add: validateTrancheIDs_def)
qed

section \<open>Exact step amounts\<close>

text \<open>The amounts of the steps, before any is turned into a row.\<close>

fun step_amounts :: "rat \<Rightarrow> rat \<Rightarrow> RampStep list \<Rightarrow> rat list" where
  "step_amounts g prior [] = []"
| "step_amounts g prior (step # steps) =
    (let x = computeStepAmount g (Fraction step) (steps = []) prior in x # step_amounts g (prior + x) steps)"

lemma computeStepAmount_bounds:
  assumes "\<exists>f. fr = Fin f \<and> 0 < f" and "0 < g" and "0 \<le> prior" and "prior \<le> g"
  shows "0 \<le> computeStepAmount g fr l prior" and "prior + computeStepAmount g fr l prior \<le> g"
  using assms by (auto simp: computeStepAmount_def Let_def)

text \<open>Whatever the fractions, the amounts are non-negative and add up to the gap exactly.\<close>

lemma step_amounts_exact:
  assumes "\<forall>st \<in> set steps. \<exists>f. Fraction st = Fin f \<and> 0 < f" and "steps \<noteq> []" and "0 < g" "0 \<le> prior" "prior \<le> g"
  shows "sum_list (step_amounts g prior steps) = g - prior \<and> (\<forall>x \<in> set (step_amounts g prior steps). 0 \<le> x)"
  using assms
proof (induction steps arbitrary: prior)
  case Nil
  then show ?case by simp
next
  case (Cons st steps)
  show ?case
  proof (cases "steps = []")
    case True
    with Cons.prems show ?thesis by (simp add: computeStepAmount_def Let_def)
  next
    case False
    let ?x = "computeStepAmount g (Fraction st) False prior"
    have b: "0 \<le> ?x" "prior + ?x \<le> g" using computeStepAmount_bounds [of "Fraction st" g prior False] Cons.prems by auto
    with Cons.IH [of "prior + ?x"] Cons.prems False show ?thesis by (simp add: Let_def)
  qed
qed

text \<open>The row of one step.\<close>

definition step_row :: "'s TrancheInput \<Rightarrow> Allocation \<Rightarrow> RampStep \<Rightarrow> nat \<Rightarrow> rat \<Rightarrow> Tranche \<Rightarrow> bool" where
  "step_row i a st k x tr \<longleftrightarrow> tr_AmountUSDPerHour tr = rat_string x \<and> FireAfter tr = add_days (Now i) (AfterDays st)
     \<and> StepIndex tr = int k \<and> tr_Layer tr = al_Layer a \<and> CommitmentRate tr = rat_string (the (Rate a))
     \<and> RunID tr = ti_RunID i \<and> tr_Status tr = TrancheStatusScheduled \<and> tr_Term tr = ti_Term i
     \<and> tr_PaymentOption tr = ti_PaymentOption i \<and> Tranche_Validate tr = None"

lemma buildTranche_row: "buildTranche i a st k x s = Inr (tr, s') \<Longrightarrow> step_row i a st k x tr"
  by (auto simp: buildTranche_def step_row_def Let_def split: prod.splits option.splits)

text \<open>The rows of an allocation: one for each non-zero amount, in step order.\<close>

fun rows_of :: "'s TrancheInput \<Rightarrow> Allocation \<Rightarrow> nat \<Rightarrow> rat \<Rightarrow> RampStep list \<Rightarrow> Tranche list \<Rightarrow> bool" where
  "rows_of i a k prior [] trs \<longleftrightarrow> trs = []"
| "rows_of i a k prior (st # sts) trs \<longleftrightarrow>
    (let x = computeStepAmount (gap_of a) (Fraction st) (sts = []) prior in
     if x = 0 then rows_of i a (k + 1) (prior + x) sts trs
     else \<exists>tr trs'. trs = tr # trs' \<and> step_row i a st k x tr \<and> rows_of i a (k + 1) (prior + x) sts trs')"

lemma rows_of_nil_prior: "rows_of i a k p [] trs \<longleftrightarrow> rows_of i a k q [] trs"
  by simp

lemma process_steps_rows:
  assumes "process_steps i a k prior sts res s = Inr (res', s')"
  shows "\<exists>trs. res' = res @ trs \<and> rows_of i a k prior sts trs"
  using assms
proof (induction sts arbitrary: k prior res s)
  case Nil
  then show ?case by simp
next
  case (Cons st sts)
  let ?x = "computeStepAmount (gap_of a) (Fraction st) (sts = []) prior"
  let ?p = "if sts = [] then prior else prior + ?x"
  have norm: "rows_of i a (k + 1) ?p sts trs \<longleftrightarrow> rows_of i a (k + 1) (prior + ?x) sts trs" for trs
    by (cases sts) auto
  show ?case
  proof (cases "?x = 0")
    case True
    with Cons.prems have "process_steps i a (k + 1) ?p sts res s = Inr (res', s')" by (simp add: Let_def)
    from Cons.IH [OF this] norm True show ?thesis by (simp add: Let_def)
  next
    case False
    with Cons.prems obtain tr s1 where b: "buildTranche i a st k ?x s = Inr (tr, s1)"
      and p: "process_steps i a (k + 1) ?p sts (res @ [tr]) s1 = Inr (res', s')"
      by (auto simp: Let_def split: sum.splits)
    from Cons.IH [OF p] obtain trs where "res' = res @ tr # trs" "rows_of i a (k + 1) (prior + ?x) sts trs"
      unfolding norm by auto
    with buildTranche_row [OF b] False show ?thesis by (auto simp: Let_def)
  qed
qed

definition amount_of :: "Tranche \<Rightarrow> rat" where
  "amount_of tr = the (set_string (tr_AmountUSDPerHour tr))"

lemma step_row_amount: "step_row i a st k x tr \<Longrightarrow> amount_of tr = x"
  by (simp add: step_row_def amount_of_def)

lemma rows_of_sum: "rows_of i a k prior sts trs \<Longrightarrow> sum_list (map amount_of trs) = sum_list (step_amounts (gap_of a) prior sts)"
proof (induction sts arbitrary: k prior trs)
  case Nil
  then show ?case by simp
next
  case (Cons st sts)
  then show ?case by (auto simp: Let_def step_row_amount split: if_splits)
qed

lemma rows_of_mem:
  assumes "rows_of i a k prior sts trs" and "tr \<in> set trs"
  shows "\<exists>j < length sts. \<exists>x. x \<noteq> 0 \<and> step_row i a (sts ! j) (k + j) x tr"
  using assms
proof (induction sts arbitrary: k prior trs)
  case Nil
  then show ?case by simp
next
  case (Cons st sts)
  have lift: "\<exists>j < length (st # sts). \<exists>x. x \<noteq> 0 \<and> step_row i a ((st # sts) ! j) (k + j) x tr"
    if "\<exists>j < length sts. \<exists>x. x \<noteq> 0 \<and> step_row i a (sts ! j) (k + 1 + j) x tr"
  proof -
    from that obtain j x where "j < length sts" "x \<noteq> 0" "step_row i a (sts ! j) (k + 1 + j) x tr" by blast
    then show ?thesis by (intro exI [of _ "Suc j"]) auto
  qed
  let ?x = "computeStepAmount (gap_of a) (Fraction st) (sts = []) prior"
  show ?case
  proof (cases "?x = 0")
    case True
    with Cons.prems have "rows_of i a (k + 1) (prior + ?x) sts trs" by (simp add: Let_def)
    from lift [OF Cons.IH [OF this Cons.prems(2)]] show ?thesis .
  next
    case False
    with Cons.prems obtain t ts where t: "trs = t # ts" "step_row i a st k ?x t" "rows_of i a (k + 1) (prior + ?x) sts ts"
      by (auto simp: Let_def)
    show ?thesis
    proof (cases "tr = t")
      case True
      with t(2) False show ?thesis by (intro exI [of _ 0]) auto
    next
      case neq: False
      with Cons.prems(2) t(1) have "tr \<in> set ts" by simp
      from lift [OF Cons.IH [OF t(3) this]] show ?thesis .
    qed
  qed
qed

section \<open>The whole batch\<close>

lemma process_allocations_rows:
  assumes "process_allocations i sts as res s = Inr (res', s')"
  shows "\<exists>tss. res' = res @ concat tss \<and> length tss = length as \<and> (\<forall>k < length as. rows_of i (as ! k) 0 0 sts (tss ! k))"
  using assms
proof (induction as arbitrary: res s)
  case Nil
  then show ?case by (auto intro: exI [of _ "[]"])
next
  case (Cons a as)
  from Cons.prems obtain r1 s1 where p: "process_steps i a 0 0 sts res s = Inr (r1, s1)"
    and q: "process_allocations i sts as r1 s1 = Inr (res', s')"
    by (auto simp: processAllocation_def split: sum.splits)
  from process_steps_rows [OF p] obtain trs where r1: "r1 = res @ trs" and rows: "rows_of i a 0 0 sts trs" by blast
  from Cons.IH [OF q] obtain tss where tss: "res' = r1 @ concat tss" "length tss = length as"
    "\<forall>k < length as. rows_of i (as ! k) 0 0 sts (tss ! k)" by blast
  show ?case
    by (rule exI [of _ "trs # tss"]) (use r1 rows tss in \<open>auto simp: nth_Cons split: nat.splits\<close>)
qed

lemma BuildTranches_parts:
  assumes "BuildTranches (Some i) s = Inr (trs, s')"
  obtains c tss where "ti_Config i = Some c" "LadderConfig_Validate c = None" "validateInputAllocations (ti_Allocations i) = None"
    "trs = concat tss" "length tss = length (ti_Allocations i)" "validateTrancheIDs trs = None"
    "\<forall>k < length (ti_Allocations i). rows_of i (ti_Allocations i ! k) 0 0 (Steps (Ramp c)) (tss ! k)"
proof -
  from assms have v: "validateTrancheInput (Some i) = None" and b: "buildTrancheResult i s = Inr (trs, s')"
    by (auto simp: BuildTranches_def split: option.splits)
  from v obtain c where c: "ti_Config i = Some c" "LadderConfig_Validate c = None" "validateInputAllocations (ti_Allocations i) = None"
    by (auto simp: tranche_input_iff)
  from b c have p: "process_allocations i (Steps (Ramp c)) (ti_Allocations i) [] s = Inr (trs, s')"
    and d: "validateTrancheIDs trs = None"
    by (auto simp: buildTrancheResult_def split: sum.splits option.splits)
  from process_allocations_rows [OF p] c d that show thesis by auto
qed

lemma ramp_steps_ok:
  assumes "LadderConfig_Validate c = None"
  shows "Steps (Ramp c) \<noteq> []" "\<forall>st \<in> set (Steps (Ramp c)). \<exists>f. Fraction st = Fin f \<and> 0 < f"
    "\<forall>st \<in> set (Steps (Ramp c)). 0 \<le> AfterDays st"
proof -
  have r: "RampSchedule_Validate (Ramp c) = None" using assms by (simp add: config_valid_iff)
  then show "Steps (Ramp c) \<noteq> []" "\<forall>st \<in> set (Steps (Ramp c)). \<exists>f. Fraction st = Fin f \<and> 0 < f"
    by (auto simp: ramp_valid_iff)
  from r have "ascending_days (- 1) (Steps (Ramp c))" by (simp add: ramp_valid_iff)
  then show "\<forall>st \<in> set (Steps (Ramp c)). 0 \<le> AfterDays st" by (fastforce simp: ascending_days_def)
qed

text \<open>C21. For every schedule the validator accepts, whatever the binary rounding of its fractions,
  the rows of an allocation carry its layer and rate and their persisted amounts, read back
  from the strings, add up to its gap exactly: no cent is lost, duplicated or over-allocated.\<close>

theorem build_tranches_exact:
  assumes "BuildTranches (Some i) s = Inr (trs, s')"
  shows "\<exists>tss. trs = concat tss \<and> length tss = length (ti_Allocations i)
    \<and> (\<forall>k < length (ti_Allocations i). sum_list (map amount_of (tss ! k)) = gap_of (ti_Allocations i ! k)
        \<and> (\<forall>tr \<in> set (tss ! k). 0 < amount_of tr \<and> tr_Layer tr = al_Layer (ti_Allocations i ! k)
            \<and> set_string (CommitmentRate tr) = Rate (ti_Allocations i ! k)))"
  using assms
proof (rule BuildTranches_parts)
  fix c tss
  assume c: "LadderConfig_Validate c = None" and va: "validateInputAllocations (ti_Allocations i) = None"
    and tss: "trs = concat tss" "length tss = length (ti_Allocations i)"
    and rows: "\<forall>k < length (ti_Allocations i). rows_of i (ti_Allocations i ! k) 0 0 (Steps (Ramp c)) (tss ! k)"
  have "sum_list (map amount_of (tss ! k)) = gap_of (ti_Allocations i ! k)
      \<and> (\<forall>tr \<in> set (tss ! k). 0 < amount_of tr \<and> tr_Layer tr = al_Layer (ti_Allocations i ! k)
            \<and> set_string (CommitmentRate tr) = Rate (ti_Allocations i ! k))" if k: "k < length (ti_Allocations i)" for k
  proof -
    let ?a = "ti_Allocations i ! k"
    from va k have a: "0 < gap_of ?a" "Rate ?a = Some (the (Rate ?a))"
      by (auto simp: input_allocations_iff input_allocation_iff gap_of_def dest!: nth_mem)
    note r = rows [rule_format, OF k]
    have "sum_list (map amount_of (tss ! k)) = gap_of ?a"
      using rows_of_sum [OF r] step_amounts_exact [OF ramp_steps_ok(2) [OF c] ramp_steps_ok(1) [OF c] a(1), of 0] a(1) by simp
    moreover have "0 < amount_of tr \<and> tr_Layer tr = al_Layer ?a \<and> set_string (CommitmentRate tr) = Rate ?a"
      if tr: "tr \<in> set (tss ! k)" for tr
    proof -
      from rows_of_mem [OF r tr] obtain j x where row: "step_row i ?a (Steps (Ramp c) ! j) (0 + j) x tr" by blast
      then have "Tranche_Validate tr = None" by (simp add: step_row_def)
      then have "0 < amount_of tr" by (auto simp: tranche_valid_iff execution_fields_iff tranche_amount_iff amount_of_def)
      with row a(2) show ?thesis by (simp add: step_row_def ratio.parse_render)
    qed
    ultimately show ?thesis by blast
  qed
  with tss show ?thesis by blast
qed

text \<open>Every row is a complete, valid, scheduled tranche of the run: it fires the step's number
  of days after \<open>Now\<close>, and no two rows share an ID, so the upsert by ID can drop none.\<close>

theorem build_tranches_valid:
  assumes "BuildTranches (Some i) s = Inr (trs, s')"
  shows "distinct (map tr_ID trs) \<and> (\<forall>tr \<in> set trs. Tranche_Validate tr = None \<and> tr_ID tr \<noteq> []
    \<and> tr_Status tr = TrancheStatusScheduled \<and> FiredAt tr = None \<and> RunID tr = ti_RunID i
    \<and> (\<exists>st \<in> set (Steps (Ramp (the (ti_Config i)))). FireAfter tr = add_days (Now i) (AfterDays st)))"
  using assms
proof (rule BuildTranches_parts)
  fix c tss
  assume c: "ti_Config i = Some c" and tss: "trs = concat tss" "length tss = length (ti_Allocations i)"
    and ids: "validateTrancheIDs trs = None"
    and rows: "\<forall>k < length (ti_Allocations i). rows_of i (ti_Allocations i ! k) 0 0 (Steps (Ramp c)) (tss ! k)"
  have "Tranche_Validate tr = None \<and> tr_ID tr \<noteq> [] \<and> tr_Status tr = TrancheStatusScheduled \<and> FiredAt tr = None
      \<and> RunID tr = ti_RunID i \<and> (\<exists>st \<in> set (Steps (Ramp (the (ti_Config i)))). FireAfter tr = add_days (Now i) (AfterDays st))"
    if "tr \<in> set trs" for tr
  proof -
    from that tss obtain ts where "ts \<in> set tss" "tr \<in> set ts" by auto
    with tss(2) obtain k where k: "k < length (ti_Allocations i)" "tr \<in> set (tss ! k)" by (metis in_set_conv_nth)
    from rows_of_mem [OF rows [rule_format, OF k(1)] k(2)] obtain j x where
      j: "j < length (Steps (Ramp c))" and row: "step_row i (ti_Allocations i ! k) (Steps (Ramp c) ! j) (0 + j) x tr" by blast
    have "FiredAt tr = None" using row by (auto simp: step_row_def tranche_valid_iff allowsFiredAt_def status_defs)
    with row nth_mem [OF j] c show ?thesis by (auto simp: step_row_def tranche_valid_iff)
  qed
  with ids show ?thesis by (simp add: tranche_ids_iff)
qed

section \<open>Enough good IDs always give a result\<close>

text \<open>The first \<open>n\<close> IDs a generator produces from a state, and the state after them.\<close>

fun gen_run :: "('s \<Rightarrow> go_string \<times> 's) \<Rightarrow> nat \<Rightarrow> 's \<Rightarrow> go_string list \<times> 's" where
  "gen_run gen 0 s = ([], s)"
| "gen_run gen (Suc n) s = (let (x, s1) = gen s; (xs, s2) = gen_run gen n s1 in (x # xs, s2))"

definition good_ids :: "('s \<Rightarrow> go_string \<times> 's) \<Rightarrow> 's \<Rightarrow> bool" where
  "good_ids gen s \<longleftrightarrow> (\<forall>n. distinct (fst (gen_run gen n s)) \<and> [] \<notin> set (fst (gen_run gen n s)))"

lemma gen_run_add: "gen_run gen (m + n) s = (let (xs, s1) = gen_run gen m s; (ys, s2) = gen_run gen n s1 in (xs @ ys, s2))"
  by (induction m arbitrary: s) (auto simp: Let_def case_prod_beta)

lemma process_steps_ok:
  assumes "validateTrancheInput (Some i) = None" and "validateInputAllocation 0 a = None" and "NewID i = Some gen" and "0 < Now i"
    and "\<forall>st \<in> set sts. (\<exists>f. Fraction st = Fin f \<and> 0 < f) \<and> 0 \<le> AfterDays st"
    and "0 \<le> prior" "prior \<le> gap_of a" and "\<forall>n. [] \<notin> set (fst (gen_run gen n s))"
  shows "\<exists>n trs. process_steps i a k prior sts res s = Inr (res @ trs, snd (gen_run gen n s)) \<and> map tr_ID trs = fst (gen_run gen n s)"
  using assms(5-8)
proof (induction sts arbitrary: k prior res s)
  case Nil
  then show ?case by (auto intro: exI [of _ 0])
next
  case (Cons st sts)
  let ?x = "computeStepAmount (gap_of a) (Fraction st) (sts = []) prior" and ?p = "\<lambda>x. if sts = [] then prior else prior + x"
  have g: "0 < gap_of a" "LayerType_Validate (al_Layer a) = None" "\<exists>q. Rate a = Some q \<and> 0 < q \<and> q \<le> 1"
    using assms(2) by (auto simp: input_allocation_iff gap_of_def)
  have b: "0 \<le> ?x" "prior + ?x \<le> gap_of a"
    using computeStepAmount_bounds [of "Fraction st" "gap_of a" prior "sts = []"] Cons.prems g by auto
  then have p: "0 \<le> ?p ?x" "?p ?x \<le> gap_of a" using Cons.prems by auto
  have sts: "\<forall>st \<in> set sts. (\<exists>f. Fraction st = Fin f \<and> 0 < f) \<and> 0 \<le> AfterDays st" using Cons.prems(1) by simp
  show ?case
  proof (cases "?x = 0")
    case True
    then have e: "process_steps i a k prior (st # sts) res s = process_steps i a (k + 1) (?p ?x) sts res s" by (simp add: Let_def)
    from Cons.IH [OF sts p Cons.prems(4)] show ?thesis unfolding e .
  next
    case False
    obtain x s1 where gs: "gen s = (x, s1)" by fastforce
    have nx: "x \<noteq> []" using Cons.prems(4) [rule_format, of 1] gs by simp
    have ids: "\<forall>n. [] \<notin> set (fst (gen_run gen n s1))"
    proof
      fix n show "[] \<notin> set (fst (gen_run gen n s1))"
        using Cons.prems(4) [rule_format, of "Suc n"] gs by (simp add: Let_def case_prod_beta)
    qed
    have fire: "add_days (Now i) (AfterDays st) \<noteq> 0"
    proof -
      have "0 \<le> AfterDays st * day_ns" using Cons.prems(1) by (simp add: day_ns_def)
      then show ?thesis using assms(4) by (simp add: add_days_def)
    qed
    have "0 < ?x" using b(1) False by simp
    with nx fire g assms(1) have v: "Tranche_Validate \<lparr>FireAfter = add_days (Now i) (AfterDays st), FiredAt = None,
               tr_AmountUSDPerHour = rat_string ?x, tr_ID = x, RunID = ti_RunID i,
               tr_Status = TrancheStatusScheduled, tr_Layer = al_Layer a, tr_Term = ti_Term i,
               tr_PaymentOption = ti_PaymentOption i, CommitmentRate = rat_string (the (Rate a)), StepIndex = int k\<rparr> = None"
      by (auto simp: tranche_valid_iff execution_fields_iff tranche_amount_iff tranche_rate_iff tranche_input_iff TrancheStatus_Validate_def)
    obtain tr where bt: "buildTranche i a st k ?x s = Inr (tr, s1)" and id: "tr_ID tr = x"
      using v by (simp add: buildTranche_def assms(3) gs Let_def)
    with False have e: "process_steps i a k prior (st # sts) res s = process_steps i a (k + 1) (?p ?x) sts (res @ [tr]) s1"
      by (simp add: Let_def)
    from Cons.IH [OF sts p ids, of "k + 1" "res @ [tr]"] obtain n trs where
      "process_steps i a (k + 1) (?p ?x) sts (res @ [tr]) s1 = Inr ((res @ [tr]) @ trs, snd (gen_run gen n s1))"
      "map tr_ID trs = fst (gen_run gen n s1)" by blast
    then show ?thesis
      unfolding e by (intro exI [of _ "Suc n"] exI [of _ "tr # trs"]) (simp add: gs id case_prod_beta Let_def)
  qed
qed

lemma process_allocations_ok:
  assumes "validateTrancheInput (Some i) = None" and "NewID i = Some gen" and "0 < Now i"
    and "\<forall>st \<in> set sts. (\<exists>f. Fraction st = Fin f \<and> 0 < f) \<and> 0 \<le> AfterDays st"
    and "\<forall>a \<in> set as. validateInputAllocation 0 a = None" and "\<forall>n. [] \<notin> set (fst (gen_run gen n s))"
  shows "\<exists>n trs s'. process_allocations i sts as res s = Inr (res @ trs, s') \<and> map tr_ID trs = fst (gen_run gen n s)"
  using assms(5,6)
proof (induction as arbitrary: res s)
  case Nil
  then show ?case by (auto intro: exI [of _ 0])
next
  case (Cons a as)
  have a: "validateInputAllocation 0 a = None" and as: "\<forall>a \<in> set as. validateInputAllocation 0 a = None"
    using Cons.prems(1) by simp_all
  have "0 \<le> gap_of a" using a by (auto simp: input_allocation_iff gap_of_def)
  from process_steps_ok [where k = 0 and prior = 0 and res = res, OF assms(1) a assms(2,3,4) _ this Cons.prems(2)] obtain n trs where
    p: "process_steps i a 0 0 sts res s = Inr (res @ trs, snd (gen_run gen n s))" and id: "map tr_ID trs = fst (gen_run gen n s)" by auto
  have ids: "\<forall>m. [] \<notin> set (fst (gen_run gen m (snd (gen_run gen n s))))"
  proof
    fix m show "[] \<notin> set (fst (gen_run gen m (snd (gen_run gen n s))))"
      using Cons.prems(2) [rule_format, of "n + m"] by (simp add: gen_run_add Let_def case_prod_beta)
  qed
  from Cons.IH [OF as ids] obtain m trs' s' where
    "process_allocations i sts as (res @ trs) (snd (gen_run gen n s)) = Inr ((res @ trs) @ trs', s')"
    "map tr_ID trs' = fst (gen_run gen m (snd (gen_run gen n s)))" by blast
  then show ?case
    by (intro exI [of _ "n + m"] exI [of _ "trs @ trs'"] exI [of _ s'])
       (simp add: processAllocation_def p id gen_run_add Let_def case_prod_beta)
qed

lemma tranches_total:
  assumes "validateTrancheInput (Some i) = None" and "NewID i = Some gen" and "0 < Now i" and "good_ids gen s"
  shows "\<exists>trs s'. BuildTranches (Some i) s = Inr (trs, s')"
proof -
  from assms(1) obtain c where c: "ti_Config i = Some c" "LadderConfig_Validate c = None"
    and va: "\<forall>a \<in> set (ti_Allocations i). validateInputAllocation 0 a = None"
    by (auto simp: tranche_input_iff input_allocations_iff)
  have sts: "\<forall>st \<in> set (Steps (Ramp c)). (\<exists>f. Fraction st = Fin f \<and> 0 < f) \<and> 0 \<le> AfterDays st"
    using ramp_steps_ok [OF c(2)] by blast
  have ne: "\<forall>n. [] \<notin> set (fst (gen_run gen n s))" using assms(4) by (simp add: good_ids_def)
  from process_allocations_ok [OF assms(1-3) sts va ne, of "[]"] obtain n trs s' where
    p: "process_allocations i (Steps (Ramp c)) (ti_Allocations i) [] s = Inr (trs, s')" and id: "map tr_ID trs = fst (gen_run gen n s)" by auto
  have "validateTrancheIDs trs = None"
    using assms(4) id by (metis good_ids_def set_map tranche_ids_iff)
  then show ?thesis using assms(1) c p by (simp add: BuildTranches_def buildTrancheResult_def)
qed

text \<open>\<open>BuildTranches\<close> accepts every input its own validator accepts: with a clock after the zero
  time and a generator of distinct non-empty IDs no schedule makes it fail.\<close>

theorem build_tranches_total:
  assumes "validateTrancheInput (Some i) = None" and "NewID i = Some gen" and "0 < Now i" and "good_ids gen s"
  shows "\<exists>trs s'. BuildTranches (Some i) s = Inr (trs, s')"
  using assms by (rule tranches_total)

lemma priced_input_ok:
  assumes "alloc_priced a" and "LayerType_Validate (al_Layer a) = None"
  shows "validateInputAllocation 0 a = None"
  using assms alloc_priced_gap [OF assms(1)] by (auto simp: input_allocation_iff alloc_priced_def alloc_sized_def)

text \<open>The two halves of the engine fit: whatever \<open>Allocate\<close> returns passes the input check of
  \<open>BuildTranches\<close>.\<close>

theorem allocate_feeds_build_tranches:
  assumes "Allocate (Some i) = Inr r"
  shows "validateInputAllocations (Allocations r) = None"
proof (cases "Allocations r = []")
  case True
  then show ?thesis by (simp add: input_allocations_iff)
next
  case False
  from assms have v: "validateAllocateInput i = None" by (rule Allocate_cases) blast+
  have p: "\<forall>a \<in> set (Allocations r). alloc_priced a \<and> minAllocatableGap \<le> gap_of a"
    by (rule Allocate_pipeline [OF assms False]) blast
  have l: "\<forall>a \<in> set (Allocations r). LayerType_Validate (al_Layer a) = None"
    using alloc_layers_recognized [OF assms] .
  then show ?thesis using p priced_input_ok by (auto simp: input_allocations_iff)
qed

text \<open>A counter is a good generator.\<close>

definition counter :: "nat \<Rightarrow> go_string \<times> nat" where
  "counter n = (show_nat n, n + 1)"

lemma show_nat_inject: "show_nat m = show_nat n \<longleftrightarrow> m = n"
  by (metis value_show_nat)

lemma counter_run: "fst (gen_run counter n k) = map show_nat [k..<k + n]"
proof (induction n arbitrary: k)
  case (Suc n)
  then show ?case by (simp add: counter_def Let_def case_prod_beta upt_rec)
qed simp

lemma counter_good: "good_ids counter k"
  by (auto simp: good_ids_def counter_run distinct_map inj_on_def show_nat_inject dest: sym)

definition ex_tranche_input :: "nat TrancheInput" where
  "ex_tranche_input = \<lparr>ti_Config = Some ex_config, ti_RunID = ''run-1'', ti_Term = Term1Year, ti_PaymentOption = PaymentNoUpfront,
     NewID = Some counter, Now = 1000, ti_Allocations = ex_bought\<rparr>"

lemma ex_tranche_valid: "validateTrancheInput (Some ex_tranche_input) = None"
proof -
  have "\<forall>a \<in> set ex_bought. alloc_priced a \<and> LayerType_Validate (al_Layer a) = None"
    by (auto simp: ex_bought_def ex_shares_def enum_validators intro!: scale_alloc_priced convert_one_priced)
  then have "validateInputAllocations ex_bought = None" by (simp add: input_allocations_iff priced_input_ok)
  then show ?thesis using ex_config_valid by (simp add: tranche_input_iff ex_tranche_input_def enum_validators)
qed

lemma ex_tranches: "\<exists>trs s'. BuildTranches (Some ex_tranche_input) 0 = Inr (trs, s')"
  by (rule tranches_total [where gen = counter, OF ex_tranche_valid]) (simp_all add: ex_tranche_input_def counter_good)

theorem build_tranches_exact_witness:
  "\<exists>trs s' tss. BuildTranches (Some ex_tranche_input) 0 = Inr (trs, s') \<and> trs = concat tss \<and> length tss = 2
    \<and> sum_list (map amount_of (tss ! 0)) = gap_of (ex_bought ! 0)"
proof -
  obtain trs s' where b: "BuildTranches (Some ex_tranche_input) 0 = Inr (trs, s')" using ex_tranches by blast
  have l: "length (ti_Allocations ex_tranche_input) = 2" by (simp add: ex_tranche_input_def ex_bought_def)
  from build_tranches_exact [OF b] obtain tss where "trs = concat tss" "length tss = 2"
    "sum_list (map amount_of (tss ! 0)) = gap_of (ti_Allocations ex_tranche_input ! 0)" unfolding l by auto
  with b show ?thesis by (auto simp: ex_tranche_input_def)
qed

theorem build_tranches_valid_witness:
  "\<exists>trs s'. BuildTranches (Some ex_tranche_input) 0 = Inr (trs, s') \<and> distinct (map tr_ID trs)
    \<and> (\<forall>tr \<in> set trs. Tranche_Validate tr = None \<and> RunID tr = ''run-1'')"
proof -
  obtain trs s' where b: "BuildTranches (Some ex_tranche_input) 0 = Inr (trs, s')" using ex_tranches by blast
  from build_tranches_valid [OF b] b show ?thesis by (auto simp: ex_tranche_input_def)
qed

theorem build_tranches_total_witness:
  "validateTrancheInput (Some ex_tranche_input) = None \<and> (\<exists>trs s'. BuildTranches (Some ex_tranche_input) 0 = Inr (trs, s'))"
  using build_tranches_total [OF ex_tranche_valid, of counter 0] ex_tranche_valid
  by (simp add: ex_tranche_input_def counter_good)

theorem allocate_feeds_build_tranches_witness:
  "\<exists>r. Allocate (Some ex_input) = Inr r \<and> Allocations r = ex_bought \<and> validateInputAllocations (Allocations r) = None"
  using ex_run allocate_feeds_build_tranches [of ex_input] by blast

end
