(* ===== verification/Exchange_Quote.thy ===== *)
theory Exchange_Quote
  imports Go_Text
begin

text \<open>
  \<open>pkg/exchange/exchange.go\<close> and \<open>outcome.go\<close>: quoting and executing a Convertible RI exchange.
  EC2 and STS are services outside the program: a client is a record of functions on an
  abstract world, and the state carries the trace of the calls made, with their arguments
  and answers. The lemmas say when the irreversible accept call is made, and what the
  returned error says about it.
\<close>

section \<open>Requests and summaries\<close>

record TargetConfig =
  tc_OfferingID :: go_string
  tc_Count :: int

record ExchangeQuoteRequest =
  q_Region :: go_string
  q_ExpectedAccount :: go_string
  q_TargetOfferingID :: go_string
  q_ReservedIDs :: "go_string list"
  q_Targets :: "TargetConfig list"
  q_TargetCount :: int
  q_DryRun :: bool

record ExchangeExecuteRequest =
  x_MaxPaymentDueUSD :: "rat option"
  x_Region :: go_string
  x_ExpectedAccount :: go_string
  x_TargetOfferingID :: go_string
  x_ReservedIDs :: "go_string list"
  x_Targets :: "TargetConfig list"
  x_TargetCount :: int

record ExchangeQuoteSummary =
  PaymentDueUSD :: "rat option"
  ValidationFailureReason :: go_string
  CurrencyCode :: go_string
  PaymentDueRaw :: go_string
  PaymentDueUSDStr :: go_string
  OutputReservedInstancesExp :: go_string
  SourceHourlyPriceRaw :: go_string
  SourceRemainingUpfrontRaw :: go_string
  SourceRemainingTotalRaw :: go_string
  TargetHourlyPriceRaw :: go_string
  TargetRemainingUpfrontRaw :: go_string
  TargetRemainingTotalRaw :: go_string
  IsValidExchange :: bool

definition ParseDecimalRat :: "go_string \<Rightarrow> go_error + rat" where
  "ParseDecimalRat s0 = (let s = trim_space s0 in
     if s = [] then Inl (errorf ''empty decimal string'' [])
     else case set_string s of
       None \<Rightarrow> Inl (errorf ''invalid decimal: %q'' [ArgS s])
     | Some r \<Rightarrow> Inr r)"

section \<open>The services\<close>

text \<open>The inputs and outputs of the SDK calls; every output field is a pointer.\<close>

record target_request =
  tr_OfferingId :: go_string
  tr_InstanceCount :: int

record quote_input =
  qi_DryRun :: bool
  qi_ReservedInstanceIds :: "go_string list"
  qi_TargetConfigurations :: "target_request list"

record accept_input =
  ai_ReservedInstanceIds :: "go_string list"
  ai_TargetConfigurations :: "target_request list"
  ai_RetryMaxAttempts :: nat

record rollup =
  HourlyPrice :: "go_string option"
  RemainingUpfrontValue :: "go_string option"
  RemainingTotalValue :: "go_string option"

record quote_output =
  out_IsValidExchange :: "bool option"
  out_ValidationFailureReason :: "go_string option"
  out_CurrencyCode :: "go_string option"
  out_PaymentDue :: "go_string option"
  out_WillExpireAt :: "go_time option"
  out_ReservedInstanceValueRollup :: "rollup option"
  out_TargetConfigurationValueRollup :: "rollup option"

text \<open>
  \<open>Account\<close> and \<open>ExchangeId\<close> are pointers in the outputs of STS and of the accept call.
\<close>

record 'w EC2ExchangeAPI =
  api_quote :: "quote_input \<Rightarrow> 'w \<Rightarrow> (go_error + quote_output) \<times> 'w"
  api_accept :: "accept_input \<Rightarrow> 'w \<Rightarrow> (go_error + go_string option) \<times> 'w"

type_synonym 'w stsIdentityAPI = "'w \<Rightarrow> (go_error + go_string option) \<times> 'w"

datatype aws_call =
    IdentityCall "go_error + go_string option"
  | QuoteCall quote_input "go_error + quote_output"
  | AcceptCall accept_input "go_error + go_string option"

record 'w aws_state =
  world :: 'w
  aws_calls :: "aws_call list"

record 'w Client =
  client_ec2 :: "'w EC2ExchangeAPI"
  client_identity :: "'w stsIdentityAPI option"

definition NewExchangeClientFromAPI :: "'w EC2ExchangeAPI \<Rightarrow> 'w Client" where
  "NewExchangeClientFromAPI api = \<lparr>client_ec2 = api, client_identity = None\<rparr>"

definition call_identity :: "'w stsIdentityAPI \<Rightarrow> 'w aws_state \<Rightarrow> (go_error + go_string option) \<times> 'w aws_state" where
  "call_identity f s = (case f (world s) of (r, w) \<Rightarrow> (r, \<lparr>world = w, aws_calls = aws_calls s @ [IdentityCall r]\<rparr>))"

definition call_quote :: "'w EC2ExchangeAPI \<Rightarrow> quote_input \<Rightarrow> 'w aws_state \<Rightarrow> (go_error + quote_output) \<times> 'w aws_state" where
  "call_quote api i s = (case api_quote api i (world s) of (r, w) \<Rightarrow> (r, \<lparr>world = w, aws_calls = aws_calls s @ [QuoteCall i r]\<rparr>))"

definition call_accept :: "'w EC2ExchangeAPI \<Rightarrow> accept_input \<Rightarrow> 'w aws_state \<Rightarrow> (go_error + go_string option) \<times> 'w aws_state" where
  "call_accept api i s = (case api_accept api i (world s) of (r, w) \<Rightarrow> (r, \<lparr>world = w, aws_calls = aws_calls s @ [AcceptCall i r]\<rparr>))"

definition ToString :: "go_string option \<Rightarrow> go_string" where
  "ToString p = (case p of None \<Rightarrow> [] | Some s \<Rightarrow> s)"

definition ToBool :: "bool option \<Rightarrow> bool" where
  "ToBool p \<longleftrightarrow> p = Some True"

section \<open>Targets\<close>

definition buildTargetConfigs :: "TargetConfig list \<Rightarrow> go_string \<Rightarrow> int \<Rightarrow> target_request list" where
  "buildTargetConfigs targets legacyOfferingID legacyCount =
    (if targets \<noteq> [] then map (\<lambda>t. \<lparr>tr_OfferingId = tc_OfferingID t, tr_InstanceCount = tc_Count t\<rparr>) targets
     else [\<lparr>tr_OfferingId = legacyOfferingID, tr_InstanceCount = legacyCount\<rparr>])"

fun targets_loop :: "nat \<Rightarrow> TargetConfig list \<Rightarrow> go_error option" where
  "targets_loop i [] = None"
| "targets_loop i (t # ts) =
    (if trim_space (tc_OfferingID t) = [] then Some (errorf ''targets[%d].offering_id must be non-empty'' [ArgI (int i)])
     else if tc_Count t \<le> 0 then Some (errorf ''targets[%d].count must be >= 1, got %d'' [ArgI (int i), ArgI (tc_Count t)])
     else targets_loop (Suc i) ts)"

definition validateTargets :: "TargetConfig list \<Rightarrow> go_string \<Rightarrow> int \<Rightarrow> go_error option" where
  "validateTargets targets legacyOfferingID legacyCount =
    (if targets \<noteq> [] then targets_loop 0 targets
     else if trim_space legacyOfferingID = [] then
       Some (errorf ''must provide target offering ID (either targets[] or target_offering_id)'' [])
     else if legacyCount \<le> 0 then Some (errorf ''target_count must be >= 1, got %d'' [ArgI legacyCount])
     else None)"

definition quote_targetConfigs :: "ExchangeQuoteRequest \<Rightarrow> target_request list" where
  "quote_targetConfigs r = buildTargetConfigs (q_Targets r) (q_TargetOfferingID r) (q_TargetCount r)"

definition execute_targetConfigs :: "ExchangeExecuteRequest \<Rightarrow> target_request list" where
  "execute_targetConfigs r = buildTargetConfigs (x_Targets r) (x_TargetOfferingID r) (x_TargetCount r)"

section \<open>Quotes\<close>

definition assertAccount :: "'w stsIdentityAPI option \<Rightarrow> go_string \<Rightarrow> 'w aws_state \<Rightarrow> go_error option \<times> 'w aws_state" where
  "assertAccount identity expected s =
    (if expected = [] then (None, s)
     else case identity of
       None \<Rightarrow> (Some (errorf ''cannot verify expected AWS account %q: no identity resolver configured for this exchange client'' [ArgS expected]), s)
     | Some f \<Rightarrow> (case call_identity f s of
         (Inl e, s') \<Rightarrow> (Some e, s')
       | (Inr account, s') \<Rightarrow>
           if ToString account \<noteq> expected
           then (Some (errorf ''unexpected AWS account: got %s want %s'' [ArgS (ToString account), ArgS expected]), s')
           else (None, s')))"

definition payment_of :: "go_string \<Rightarrow> go_error + (rat option \<times> go_string)" where
  "payment_of raw =
    (if raw = [] then Inr (None, [])
     else case ParseDecimalRat raw of
       Inl e \<Rightarrow> Inl (wrapf ''quote returned invalid paymentDue %q: %w'' [ArgS raw, ArgS (err_text e)] [e])
     | Inr p \<Rightarrow> Inr (Some p, float_string 6 p))"

definition rollup_str :: "(rollup \<Rightarrow> go_string option) \<Rightarrow> rollup option \<Rightarrow> go_string" where
  "rollup_str f r = (case r of None \<Rightarrow> [] | Some x \<Rightarrow> ToString (f x))"

definition quote_summary :: "quote_output \<Rightarrow> go_error + ExchangeQuoteSummary" where
  "quote_summary out = (case payment_of (ToString (out_PaymentDue out)) of
     Inl e \<Rightarrow> Inl e
   | Inr (p, str) \<Rightarrow> Inr \<lparr>PaymentDueUSD = p, ValidationFailureReason = ToString (out_ValidationFailureReason out),
       CurrencyCode = ToString (out_CurrencyCode out), PaymentDueRaw = ToString (out_PaymentDue out),
       PaymentDueUSDStr = str,
       OutputReservedInstancesExp = (case out_WillExpireAt out of None \<Rightarrow> [] | Some t \<Rightarrow> format_date t),
       SourceHourlyPriceRaw = rollup_str HourlyPrice (out_ReservedInstanceValueRollup out),
       SourceRemainingUpfrontRaw = rollup_str RemainingUpfrontValue (out_ReservedInstanceValueRollup out),
       SourceRemainingTotalRaw = rollup_str RemainingTotalValue (out_ReservedInstanceValueRollup out),
       TargetHourlyPriceRaw = rollup_str HourlyPrice (out_TargetConfigurationValueRollup out),
       TargetRemainingUpfrontRaw = rollup_str RemainingUpfrontValue (out_TargetConfigurationValueRollup out),
       TargetRemainingTotalRaw = rollup_str RemainingTotalValue (out_TargetConfigurationValueRollup out),
       IsValidExchange = ToBool (out_IsValidExchange out)\<rparr>)"

definition quote_api_input :: "ExchangeQuoteRequest \<Rightarrow> quote_input" where
  "quote_api_input req = \<lparr>qi_DryRun = q_DryRun req, qi_ReservedInstanceIds = q_ReservedIDs req,
     qi_TargetConfigurations = quote_targetConfigs req\<rparr>"

definition quoteWithAPI :: "'w EC2ExchangeAPI \<Rightarrow> ExchangeQuoteRequest \<Rightarrow> 'w aws_state
    \<Rightarrow> (go_error + ExchangeQuoteSummary) \<times> 'w aws_state" where
  "quoteWithAPI client req s =
    (if q_ReservedIDs req = [] then (Inl (errorf ''must provide at least one reserved instance ID'' []), s)
     else case validateTargets (q_Targets req) (q_TargetOfferingID req) (q_TargetCount req) of
       Some e \<Rightarrow> (Inl e, s)
     | None \<Rightarrow> (case call_quote client (quote_api_input req) s of
         (Inl e, s') \<Rightarrow> (Inl e, s')
       | (Inr out, s') \<Rightarrow> (quote_summary out, s')))"

definition getQuoteWithAPI :: "'w EC2ExchangeAPI \<Rightarrow> 'w stsIdentityAPI option \<Rightarrow> ExchangeQuoteRequest \<Rightarrow> 'w aws_state
    \<Rightarrow> (go_error + ExchangeQuoteSummary) \<times> 'w aws_state" where
  "getQuoteWithAPI client identity req s = (case assertAccount identity (q_ExpectedAccount req) s of
     (Some e, s') \<Rightarrow> (Inl e, s')
   | (None, s') \<Rightarrow> quoteWithAPI client req s')"

definition GetQuote :: "'w Client \<Rightarrow> ExchangeQuoteRequest \<Rightarrow> 'w aws_state \<Rightarrow> (go_error + ExchangeQuoteSummary) \<times> 'w aws_state" where
  "GetQuote c req s = getQuoteWithAPI (client_ec2 c) (client_identity c) req s"

section \<open>The guardrails\<close>

definition ErrOutcomeUnknown :: go_error where
  "ErrOutcomeUnknown = Sentinel ''purchase outcome unknown''"

definition ErrQuoteNotUSD :: go_error where
  "ErrQuoteNotUSD = Sentinel ''exchange quote is not denominated in USD''"

definition outcome_unknown :: "go_error \<Rightarrow> bool" where
  "outcome_unknown e \<longleftrightarrow> err_is ''purchase outcome unknown'' e"

definition requireUSDPaymentDue :: "ExchangeQuoteSummary \<Rightarrow> go_error + rat" where
  "requireUSDPaymentDue q = (case PaymentDueUSD q of
     None \<Rightarrow> Inl (errorf ''quote reported no PaymentDue; refusing to enforce the spend cap against an unknown amount'' [])
   | Some p \<Rightarrow>
       if CurrencyCode q = ''USD'' then Inr p
       else if CurrencyCode q = [] then
         Inl (wrapf ''%w: quote reported no CurrencyCode; refusing to enforce the USD spend cap''
           [ArgS (err_text ErrQuoteNotUSD)] [ErrQuoteNotUSD])
       else Inl (wrapf ''%w: quote is in %q; refusing to compare it against the USD spend cap''
           [ArgS (err_text ErrQuoteNotUSD), ArgS (CurrencyCode q)] [ErrQuoteNotUSD]))"

definition checkInitialQuote :: "ExchangeQuoteSummary \<Rightarrow> rat \<Rightarrow> go_error option" where
  "checkInitialQuote q maxPayment =
    (if \<not> IsValidExchange q then Some (errorf ''exchange is not valid: %s'' [ArgS (ValidationFailureReason q)])
     else case requireUSDPaymentDue q of
       Inl e \<Rightarrow> Some e
     | Inr paymentDue \<Rightarrow>
         if paymentDue > maxPayment
         then Some (errorf ''paymentDue %s exceeds max %s'' [ArgS (float_string 2 paymentDue), ArgS (float_string 2 maxPayment)])
         else None)"

definition checkReQuote :: "ExchangeQuoteSummary \<Rightarrow> rat \<Rightarrow> go_error option" where
  "checkReQuote q maxPayment =
    (if \<not> IsValidExchange q then Some (errorf ''exchange no longer valid at accept time: %s'' [ArgS (ValidationFailureReason q)])
     else case requireUSDPaymentDue q of
       Inl e \<Rightarrow> Some (wrapf ''aborting exchange at accept time: %w'' [ArgS (err_text e)] [e])
     | Inr paymentDue \<Rightarrow>
         if paymentDue > maxPayment
         then Some (errorf ''aborting exchange: re-quoted payment %s USD exceeds cap %s USD (pricing changed between initial quote and accept)''
           [ArgS (float_string 2 paymentDue), ArgS (float_string 2 maxPayment)])
         else None)"

section \<open>Execution\<close>

text \<open>
  \<open>outcome.go\<close>. \<open>throttled\<close> stands for the SDK's table \<open>retry.DefaultThrottleErrorCodes\<close>.
\<close>

definition acceptHTTPStatus :: "go_error \<Rightarrow> int" where
  "acceptHTTPStatus e = (case err_http_status e of None \<Rightarrow> 0 | Some n \<Rightarrow> n)"

definition classifyAcceptError :: "(go_string \<Rightarrow> bool) \<Rightarrow> go_error \<Rightarrow> go_error" where
  "classifyAcceptError throttled e =
    (if outcome_unknown e then e
     else
       let unknown = wrapf ''%w: the accept may have been processed and the exchange may exist; reconcile before retrying: %w''
             [ArgS (err_text ErrOutcomeUnknown), ArgS (err_text e)] [ErrOutcomeUnknown, e]
       in case err_api_code e of
         None \<Rightarrow> unknown
       | Some code \<Rightarrow>
           if throttled code then e
           else if 400 \<le> acceptHTTPStatus e \<and> acceptHTTPStatus e < 500 then e
           else unknown)"

type_synonym exec_result = "go_string \<times> ExchangeQuoteSummary option \<times> go_error option"

definition execute_quote_request :: "ExchangeExecuteRequest \<Rightarrow> ExchangeQuoteRequest" where
  "execute_quote_request req = \<lparr>q_Region = x_Region req, q_ExpectedAccount = x_ExpectedAccount req,
     q_TargetOfferingID = x_TargetOfferingID req, q_ReservedIDs = x_ReservedIDs req, q_Targets = x_Targets req,
     q_TargetCount = x_TargetCount req, q_DryRun = False\<rparr>"

definition execute_accept_input :: "ExchangeExecuteRequest \<Rightarrow> accept_input" where
  "execute_accept_input req = \<lparr>ai_ReservedInstanceIds = x_ReservedIDs req,
     ai_TargetConfigurations = execute_targetConfigs req, ai_RetryMaxAttempts = 1\<rparr>"

definition accept_step :: "(go_string \<Rightarrow> bool) \<Rightarrow> 'w EC2ExchangeAPI \<Rightarrow> ExchangeExecuteRequest \<Rightarrow> ExchangeQuoteSummary
    \<Rightarrow> 'w aws_state \<Rightarrow> exec_result \<times> 'w aws_state" where
  "accept_step throttled client req freshQ s = (case call_accept client (execute_accept_input req) s of
     (Inl e, s') \<Rightarrow> (([], Some freshQ, Some (classifyAcceptError throttled e)), s')
   | (Inr exchangeId, s') \<Rightarrow>
       if ToString exchangeId = []
       then (([], Some freshQ, Some (wrapf ''%w: accept returned no exchange ID'' [ArgS (err_text ErrOutcomeUnknown)] [ErrOutcomeUnknown])), s')
       else ((ToString exchangeId, Some freshQ, None), s'))"

definition requote_step :: "(go_string \<Rightarrow> bool) \<Rightarrow> 'w EC2ExchangeAPI \<Rightarrow> ExchangeExecuteRequest \<Rightarrow> rat
    \<Rightarrow> ExchangeQuoteSummary \<Rightarrow> 'w aws_state \<Rightarrow> exec_result \<times> 'w aws_state" where
  "requote_step throttled client req cap q s = (case quoteWithAPI client (execute_quote_request req) s of
     (Inl e, s') \<Rightarrow> (([], Some q, Some (wrapf ''pre-accept re-quote failed: %w'' [ArgS (err_text e)] [e])), s')
   | (Inr freshQ, s') \<Rightarrow> (case checkReQuote freshQ cap of
       Some e \<Rightarrow> (([], Some freshQ, Some e), s')
     | None \<Rightarrow> accept_step throttled client req freshQ s'))"

definition executeWithAPI :: "(go_string \<Rightarrow> bool) \<Rightarrow> 'w EC2ExchangeAPI \<Rightarrow> 'w stsIdentityAPI option \<Rightarrow> ExchangeExecuteRequest
    \<Rightarrow> 'w aws_state \<Rightarrow> exec_result \<times> 'w aws_state" where
  "executeWithAPI throttled client identity req s = (case x_MaxPaymentDueUSD req of
     None \<Rightarrow> (([], None, Some (errorf ''refusing to execute without max-payment-due-usd guardrail'' [])), s)
   | Some cap \<Rightarrow> (case assertAccount identity (x_ExpectedAccount req) s of
       (Some e, s1) \<Rightarrow> (([], None, Some e), s1)
     | (None, s1) \<Rightarrow> (case quoteWithAPI client (execute_quote_request req) s1 of
         (Inl e, s2) \<Rightarrow> (([], None, Some e), s2)
       | (Inr q, s2) \<Rightarrow> (case checkInitialQuote q cap of
           Some e \<Rightarrow> (([], Some q, Some e), s2)
         | None \<Rightarrow> requote_step throttled client req cap q s2))))"

definition Execute :: "(go_string \<Rightarrow> bool) \<Rightarrow> 'w Client \<Rightarrow> ExchangeExecuteRequest \<Rightarrow> 'w aws_state \<Rightarrow> exec_result \<times> 'w aws_state" where
  "Execute throttled c req s = executeWithAPI throttled (client_ec2 c) (client_identity c) req s"

text \<open>
  The package-level wrappers build their client from the default configuration of a region
  (\<open>load\<close>, the SDK's \<open>config.LoadDefaultConfig\<close>); they never default the region.
\<close>

definition loadCfg :: "(go_string \<Rightarrow> go_error + 'w Client) \<Rightarrow> go_string \<Rightarrow> go_error + 'w Client" where
  "loadCfg load region = (if trim_space region = []
     then Inl (errorf ''region must be specified explicitly; refusing to default to us-east-1 on an RI exchange path'' [])
     else load region)"

definition GetExchangeQuote :: "(go_string \<Rightarrow> go_error + 'w Client) \<Rightarrow> ExchangeQuoteRequest \<Rightarrow> 'w aws_state
    \<Rightarrow> (go_error + ExchangeQuoteSummary) \<times> 'w aws_state" where
  "GetExchangeQuote load req s = (case loadCfg load (q_Region req) of
     Inl e \<Rightarrow> (Inl e, s)
   | Inr c \<Rightarrow> getQuoteWithAPI (client_ec2 c) (client_identity c) req s)"

definition ExecuteExchange :: "(go_string \<Rightarrow> bool) \<Rightarrow> (go_string \<Rightarrow> go_error + 'w Client) \<Rightarrow> ExchangeExecuteRequest
    \<Rightarrow> 'w aws_state \<Rightarrow> exec_result \<times> 'w aws_state" where
  "ExecuteExchange throttled load req s = (case x_MaxPaymentDueUSD req of
     None \<Rightarrow> (([], None, Some (errorf ''refusing to execute without max-payment-due-usd guardrail'' [])), s)
   | Some cap \<Rightarrow> (case loadCfg load (x_Region req) of
       Inl e \<Rightarrow> (([], None, Some e), s)
     | Inr c \<Rightarrow> executeWithAPI throttled (client_ec2 c) (client_identity c) req s))"

section \<open>What the guards ensure\<close>

text \<open>A quote answer that justifies paying up to \<open>cap\<close>: valid, in USD, a known amount, within the cap.\<close>

definition payable :: "rat \<Rightarrow> quote_output \<Rightarrow> bool" where
  "payable cap out \<longleftrightarrow> ToBool (out_IsValidExchange out) \<and> out_CurrencyCode out = Some ''USD''
     \<and> (case out_PaymentDue out of None \<Rightarrow> False | Some raw \<Rightarrow>
         (case ParseDecimalRat raw of Inl e \<Rightarrow> False | Inr p \<Rightarrow> p \<le> cap))"

definition account_calls :: "go_string \<Rightarrow> aws_call list" where
  "account_calls expected = (if expected = [] then [] else [IdentityCall (Inr (Some expected))])"

fun is_accept :: "aws_call \<Rightarrow> bool" where
  "is_accept (AcceptCall i r) = True"
| "is_accept (IdentityCall r) = False"
| "is_accept (QuoteCall i r) = False"

lemma ToString_eq: "t \<noteq> [] \<Longrightarrow> ToString p = t \<longleftrightarrow> p = Some t"
  by (auto simp: ToString_def split: option.splits)

lemma assertAccount_ok:
  "assertAccount idn expected s = (None, s') \<Longrightarrow> aws_calls s' = aws_calls s @ account_calls expected"
  by (auto simp: assertAccount_def account_calls_def call_identity_def ToString_eq
      split: if_splits option.splits prod.splits sum.splits)

lemma assertAccount_calls:
  "assertAccount idn expected s = (r, s') \<Longrightarrow> \<exists>cs. aws_calls s' = aws_calls s @ cs \<and> (\<forall>c \<in> set cs. \<not> is_accept c)"
  by (auto simp: assertAccount_def call_identity_def split: if_splits option.splits prod.splits sum.splits)

lemma quoteWithAPI_calls:
  "quoteWithAPI api req s = (r, s') \<Longrightarrow> \<exists>cs. aws_calls s' = aws_calls s @ cs \<and> (\<forall>c \<in> set cs. \<not> is_accept c)"
  by (auto simp: quoteWithAPI_def call_quote_def split: if_splits option.splits prod.splits sum.splits)

lemma quoteWithAPI_ok:
  "quoteWithAPI api req s = (Inr q, s') \<Longrightarrow>
    \<exists>out. aws_calls s' = aws_calls s @ [QuoteCall (quote_api_input req) (Inr out)] \<and> quote_summary out = Inr q"
  by (auto simp: quoteWithAPI_def call_quote_def split: if_splits option.splits prod.splits sum.splits)

lemma quote_summary_payable:
  assumes "quote_summary out = Inr q" and "IsValidExchange q" and "requireUSDPaymentDue q = Inr p" and "p \<le> cap"
  shows "payable cap out"
proof -
  have "ToString (out_CurrencyCode out) = ''USD''" and v: "ToBool (out_IsValidExchange out)"
    and "payment_of (ToString (out_PaymentDue out)) = Inr (Some p, PaymentDueUSDStr q)"
    using assms(1-3) by (auto simp: quote_summary_def requireUSDPaymentDue_def split: sum.splits prod.splits option.splits if_splits)
  then have "out_CurrencyCode out = Some ''USD''" and "ToString (out_PaymentDue out) \<noteq> []"
    and "ParseDecimalRat (ToString (out_PaymentDue out)) = Inr p"
    by (auto simp: ToString_eq payment_of_def split: if_splits sum.splits)
  with v assms(4) show ?thesis
    by (cases "out_PaymentDue out") (auto simp: payable_def ToString_def)
qed

lemma checkInitialQuote_None:
  "checkInitialQuote q cap = None \<longleftrightarrow> IsValidExchange q \<and> (\<exists>p \<le> cap. requireUSDPaymentDue q = Inr p)"
  by (auto simp: checkInitialQuote_def not_less split: sum.splits)

lemma checkReQuote_None:
  "checkReQuote q cap = None \<longleftrightarrow> IsValidExchange q \<and> (\<exists>p \<le> cap. requireUSDPaymentDue q = Inr p)"
  by (auto simp: checkReQuote_def not_less split: sum.splits)

text \<open>What a completed accept call may return: the exchange ID, or a classified error.\<close>

definition accept_verdict :: "(go_string \<Rightarrow> bool) \<Rightarrow> (go_error + go_string option) \<Rightarrow> go_string \<Rightarrow> go_error option \<Rightarrow> bool" where
  "accept_verdict throttled r exid err \<longleftrightarrow> (case err of
     None \<Rightarrow> exid \<noteq> [] \<and> r = Inr (Some exid)
   | Some e \<Rightarrow> exid = [] \<and> (outcome_unknown e \<or>
       r = Inl e \<and> (\<exists>code. err_api_code e = Some code \<and> (throttled code \<or> acceptHTTPStatus e \<in> {400 ..< 500}))))"

lemma classify_verdict:
  "outcome_unknown (classifyAcceptError thr e) \<or> classifyAcceptError thr e = e \<and>
     (\<exists>code. err_api_code e = Some code \<and> (thr code \<or> acceptHTTPStatus e \<in> {400 ..< 500}))"
  by (auto simp: classifyAcceptError_def outcome_unknown_def ErrOutcomeUnknown_def Let_def split: option.splits)

lemma accept_step_verdict:
  assumes "accept_step thr api req fq s = ((exid, q, err), s')"
  shows "\<exists>r. aws_calls s' = aws_calls s @ [AcceptCall (execute_accept_input req) r] \<and> accept_verdict thr r exid err \<and> q = Some fq"
proof -
  obtain r w where c: "call_accept api (execute_accept_input req) s = (r, w)" by (cases "call_accept api (execute_accept_input req) s")
  then have w: "aws_calls w = aws_calls s @ [AcceptCall (execute_accept_input req) r]"
    by (auto simp: call_accept_def split: prod.splits)
  have "accept_verdict thr r exid err \<and> q = Some fq \<and> s' = w"
  proof (cases r)
    case (Inl e)
    with assms c classify_verdict [of thr e] show ?thesis by (auto simp: accept_step_def accept_verdict_def)
  next
    case (Inr x)
    with assms c show ?thesis
      by (auto simp: accept_step_def accept_verdict_def outcome_unknown_def ErrOutcomeUnknown_def ToString_def
          split: if_splits option.splits)
  qed
  with w show ?thesis by blast
qed

text \<open>The two ways an execution can end: stopped before the accept call, or after exactly one.\<close>

definition stopped_early :: "aws_call list \<Rightarrow> go_string \<Rightarrow> go_error option \<Rightarrow> bool" where
  "stopped_early new exid err \<longleftrightarrow> exid = [] \<and> err \<noteq> None \<and> (\<forall>c \<in> set new. \<not> is_accept c)"

definition accepted_once :: "(go_string \<Rightarrow> bool) \<Rightarrow> ExchangeExecuteRequest \<Rightarrow> aws_call list \<Rightarrow> go_string \<Rightarrow> go_error option \<Rightarrow> bool" where
  "accepted_once thr req new exid err \<longleftrightarrow> (\<exists>cap out1 out2 r.
     x_MaxPaymentDueUSD req = Some cap \<and> payable cap out1 \<and> payable cap out2 \<and>
     new = account_calls (x_ExpectedAccount req) @
       [QuoteCall (quote_api_input (execute_quote_request req)) (Inr out1),
        QuoteCall (quote_api_input (execute_quote_request req)) (Inr out2),
        AcceptCall (execute_accept_input req) r] \<and>
     accept_verdict thr r exid err)"

lemma requote_step_cases:
  assumes "requote_step thr api req cap q s = ((exid, q', err), s')"
  shows "\<exists>new. aws_calls s' = aws_calls s @ new \<and> (stopped_early new exid err \<or>
    (\<exists>out r. payable cap out \<and> accept_verdict thr r exid err \<and>
      new = [QuoteCall (quote_api_input (execute_quote_request req)) (Inr out), AcceptCall (execute_accept_input req) r]))"
proof -
  obtain r s1 where r: "quoteWithAPI api (execute_quote_request req) s = (r, s1)"
    by (cases "quoteWithAPI api (execute_quote_request req) s")
  obtain cs where cs: "aws_calls s1 = aws_calls s @ cs" "\<forall>c \<in> set cs. \<not> is_accept c"
    using quoteWithAPI_calls [OF r] by blast
  show ?thesis
  proof (cases "\<exists>fq. r = Inr fq \<and> checkReQuote fq cap = None")
    case False
    with assms r cs show ?thesis
      by (intro exI [of _ cs]) (auto simp: requote_step_def stopped_early_def split: sum.splits option.splits)
  next
    case True
    then obtain fq where fq: "r = Inr fq" "checkReQuote fq cap = None" by blast
    then obtain p where p: "IsValidExchange fq" "p \<le> cap" "requireUSDPaymentDue fq = Inr p"
      unfolding checkReQuote_None by blast
    from quoteWithAPI_ok r fq obtain out where out: "quote_summary out = Inr fq"
      "aws_calls s1 = aws_calls s @ [QuoteCall (quote_api_input (execute_quote_request req)) (Inr out)]" by blast
    have "accept_step thr api req fq s1 = ((exid, q', err), s')"
      using assms r fq by (simp add: requote_step_def)
    from accept_step_verdict [OF this] out quote_summary_payable [OF out(1) p(1,3,2)] show ?thesis by auto
  qed
qed

lemma executeWithAPI_cases:
  assumes "executeWithAPI thr api idn req s = ((exid, q, err), s')"
  shows "\<exists>new. aws_calls s' = aws_calls s @ new \<and> (stopped_early new exid err \<or> accepted_once thr req new exid err)"
proof (cases "x_MaxPaymentDueUSD req")
  case None
  with assms show ?thesis by (intro exI [of _ "[]"]) (auto simp: executeWithAPI_def stopped_early_def)
next
  case (Some cap)
  obtain a s1 where a: "assertAccount idn (x_ExpectedAccount req) s = (a, s1)"
    by (cases "assertAccount idn (x_ExpectedAccount req) s")
  obtain as where as: "aws_calls s1 = aws_calls s @ as" "\<forall>c \<in> set as. \<not> is_accept c"
    using assertAccount_calls [OF a] by blast
  obtain r s2 where r: "quoteWithAPI api (execute_quote_request req) s1 = (r, s2)"
    by (cases "quoteWithAPI api (execute_quote_request req) s1")
  obtain cs where cs: "aws_calls s2 = aws_calls s1 @ cs" "\<forall>c \<in> set cs. \<not> is_accept c"
    using quoteWithAPI_calls [OF r] by blast
  consider (acct) e where "a = Some e"
    | (quote) "a = None" "\<not> (\<exists>fq. r = Inr fq \<and> checkInitialQuote fq cap = None)"
    | (go) fq where "a = None" "r = Inr fq" "checkInitialQuote fq cap = None" by blast
  then show ?thesis
  proof cases
    case acct
    with assms Some a as show ?thesis
      by (intro exI [of _ as]) (auto simp: executeWithAPI_def stopped_early_def)
  next
    case quote
    with assms Some a as r cs show ?thesis
      by (intro exI [of _ "as @ cs"]) (auto simp: executeWithAPI_def stopped_early_def split: sum.splits option.splits dest: sym)
  next
    case go
    then obtain p where p: "IsValidExchange fq" "p \<le> cap" "requireUSDPaymentDue fq = Inr p"
      unfolding checkInitialQuote_None by blast
    from quoteWithAPI_ok r go obtain out where out: "quote_summary out = Inr fq"
      "aws_calls s2 = aws_calls s1 @ [QuoteCall (quote_api_input (execute_quote_request req)) (Inr out)]" by blast
    have pay: "payable cap out" by (rule quote_summary_payable [OF out(1) p(1,3,2)])
    have acct: "aws_calls s1 = aws_calls s @ account_calls (x_ExpectedAccount req)"
      using assertAccount_ok a go by blast
    have "requote_step thr api req cap fq s2 = ((exid, q, err), s')"
      using assms Some a r go by (simp add: executeWithAPI_def)
    then obtain new where new: "aws_calls s' = aws_calls s2 @ new"
      "stopped_early new exid err \<or> (\<exists>out r. payable cap out \<and> accept_verdict thr r exid err \<and>
        new = [QuoteCall (quote_api_input (execute_quote_request req)) (Inr out), AcceptCall (execute_accept_input req) r])"
      using requote_step_cases by blast
    let ?new = "account_calls (x_ExpectedAccount req) @ QuoteCall (quote_api_input (execute_quote_request req)) (Inr out) # new"
    have "aws_calls s' = aws_calls s @ ?new" using new(1) out(2) acct by simp
    moreover have "stopped_early ?new exid err \<or> accepted_once thr req ?new exid err"
      using new(2)
    proof
      assume "stopped_early new exid err"
      then show ?thesis by (auto simp: stopped_early_def account_calls_def)
    next
      assume "\<exists>out r. payable cap out \<and> accept_verdict thr r exid err \<and>
        new = [QuoteCall (quote_api_input (execute_quote_request req)) (Inr out), AcceptCall (execute_accept_input req) r]"
      then have "accepted_once thr req ?new exid err"
        unfolding accepted_once_def using Some pay by auto
      then show ?thesis by blast
    qed
    ultimately show ?thesis by blast
  qed
qed

section \<open>Amounts as text\<close>

lemma printable_digit: "is_digit c \<Longrightarrow> printable c"
  by (auto simp: is_digit_def printable_def)

lemma trim_space_scaled:
  assumes "0 < p"
  shows "trim_space (show_scaled p neg m) = show_scaled p neg m"
proof (rule trim_space_printable)
  obtain c cs where sn: "show_nat (m div 10 ^ p) = c # cs" by (cases "show_nat (m div 10 ^ p)") auto
  then have "is_digit c" using show_nat_digits [of "m div 10 ^ p"] by simp
  then show "printable (hd (show_scaled p neg m))"
    by (auto simp: show_scaled_def sn printable_digit) (simp add: printable_def)
  show "show_scaled p neg m \<noteq> []" by (simp add: show_scaled_def)
  have "pad_digits p (m mod 10 ^ p) \<noteq> []" using assms length_pad_digits [of p] by (metis less_numeral_extra(3) list.size(3))
  then have "last (show_scaled p neg m) = last (pad_digits p (m mod 10 ^ p))" and "last (pad_digits p (m mod 10 ^ p)) \<in> set (pad_digits p (m mod 10 ^ p))"
    using assms by (auto simp: show_scaled_def)
  then show "printable (last (show_scaled p neg m))"
    using pad_digits_digits [of p "m mod 10 ^ p"] by (simp add: printable_digit)
qed

lemma ParseDecimalRat_scaled:
  "0 < p \<Longrightarrow> p \<le> 1000000 \<Longrightarrow> ParseDecimalRat (show_scaled p neg m) = Inr (scaled_rat p neg m)"
  using trim_space_scaled [of p neg m] set_string_scaled [of p neg m]
  by (simp add: ParseDecimalRat_def Let_def show_scaled_def)

lemma abs_scaled_error:
  "\<bar>scaled_rat p (r < 0) (nat \<lfloor>\<bar>r\<bar> * 10 ^ p + 1 / 2\<rfloor>) - r\<bar> \<le> 1 / (2 * 10 ^ p)"
proof -
  let ?n = "\<lfloor>\<bar>r\<bar> * 10 ^ p + 1 / 2\<rfloor>"
  have "0 \<le> ?n" by (simp add: add_nonneg_nonneg)
  then have n: "(of_nat (nat ?n) :: rat) = of_int ?n" by (simp add: of_nat_nat)
  have "\<bar>of_int ?n - \<bar>r\<bar> * 10 ^ p\<bar> \<le> 1 / 2" by linarith
  then have "\<bar>of_int ?n - \<bar>r\<bar> * 10 ^ p\<bar> / 10 ^ p \<le> (1 / 2) / 10 ^ p"
    by (rule divide_right_mono) simp
  then have "\<bar>(of_int ?n - \<bar>r\<bar> * 10 ^ p) / 10 ^ p\<bar> \<le> (1 / 2) / 10 ^ p" by (simp only: abs_divide) simp
  moreover have "(of_int ?n - \<bar>r\<bar> * 10 ^ p) / 10 ^ p = of_int ?n / 10 ^ p - \<bar>r\<bar>" by (simp add: diff_divide_distrib)
  moreover define a where "a = of_int ?n / (10 :: rat) ^ p"
  ultimately have "\<bar>a - \<bar>r\<bar>\<bar> \<le> 1 / (2 * 10 ^ p)" by simp
  then have "\<bar>(if r < 0 then - a else a) - r\<bar> \<le> 1 / (2 * 10 ^ p)" by (auto simp: abs_if split: if_splits)
  then show ?thesis unfolding scaled_rat_def n a_def .
qed

text \<open>An amount printed with six decimals reads back within half a millionth of a dollar.\<close>

lemma ParseDecimalRat_float_string:
  "\<exists>p. ParseDecimalRat (float_string 6 r) = Inr p \<and> \<bar>p - r\<bar> \<le> 1 / 2000000"
  using ParseDecimalRat_scaled [of 6 "r < 0"] abs_scaled_error [of 6 r] by (simp add: float_string_def)

lemma payment_of_Inr:
  assumes "payment_of raw = Inr (p, str)"
  shows "(case p of None \<Rightarrow> raw = [] \<and> str = [] | Some d \<Rightarrow> ParseDecimalRat raw = Inr d \<and>
    (\<exists>d'. ParseDecimalRat str = Inr d' \<and> \<bar>d' - d\<bar> \<le> 1 / 2000000))"
  using assms ParseDecimalRat_float_string by (auto simp: payment_of_def split: if_splits sum.splits)

section \<open>A run\<close>

definition demo_output :: "go_string \<Rightarrow> quote_output" where
  "demo_output amount = \<lparr>out_IsValidExchange = Some True, out_ValidationFailureReason = None,
     out_CurrencyCode = Some ''USD'', out_PaymentDue = Some amount, out_WillExpireAt = Some 0,
     out_ReservedInstanceValueRollup = None, out_TargetConfigurationValueRollup = None\<rparr>"

definition demo_api :: "(go_error + go_string option) \<Rightarrow> nat EC2ExchangeAPI" where
  "demo_api r = \<lparr>api_quote = (\<lambda>i w. (Inr (demo_output (if w \<le> 1 then ''10.5'' else ''99.0'')), w + 1)),
     api_accept = (\<lambda>i w. (r, w + 1))\<rparr>"

definition demo_client :: "(go_error + go_string option) \<Rightarrow> nat Client" where
  "demo_client r = \<lparr>client_ec2 = demo_api r, client_identity = Some (\<lambda>w. (Inr (Some ''123''), w))\<rparr>"

definition demo_request :: "rat \<Rightarrow> ExchangeExecuteRequest" where
  "demo_request cap = \<lparr>x_MaxPaymentDueUSD = Some cap, x_Region = ''eu'', x_ExpectedAccount = ''123'',
     x_TargetOfferingID = ''off'', x_ReservedIDs = [''ri''], x_Targets = [], x_TargetCount = 2\<rparr>"

definition demo_start :: "nat aws_state" where
  "demo_start = \<lparr>world = 0, aws_calls = []\<rparr>"

lemma demo_parse: "ParseDecimalRat ''10.5'' = Inr (21 / 2)"
  using ParseDecimalRat_scaled [of 1 False 105] by (simp add: show_scaled_def scaled_rat_def show_nat.simps)

lemma demo_parse_99: "ParseDecimalRat ''99.0'' = Inr 99"
  using ParseDecimalRat_scaled [of 1 False 990] by (simp add: show_scaled_def scaled_rat_def show_nat.simps)

lemma demo_trim: "trim_space ''off'' = ''off''"
  by (rule trim_space_printable) (simp_all add: printable_def)

lemma demo_account:
  "assertAccount (client_identity (demo_client r)) ''123'' demo_start
    = (None, \<lparr>world = 0, aws_calls = [IdentityCall (Inr (Some ''123''))]\<rparr>)"
  by (simp add: assertAccount_def demo_client_def call_identity_def demo_start_def ToString_def)

lemma demo_run: "fst (Execute (\<lambda>c. False) (demo_client (Inr (Some ''x''))) (demo_request 11) demo_start) = (a, b, c)
  \<Longrightarrow> a = ''x'' \<and> c = None"
  by (auto simp: Execute_def executeWithAPI_def demo_request_def demo_account requote_step_def accept_step_def
     execute_quote_request_def quoteWithAPI_def validateTargets_def demo_trim call_quote_def demo_client_def demo_api_def
     demo_output_def quote_summary_def payment_of_def ToString_def demo_parse ToBool_def checkInitialQuote_def
     requireUSDPaymentDue_def checkReQuote_def call_accept_def demo_start_def assertAccount_def call_identity_def
     split: prod.splits)

section \<open>The properties\<close>

text \<open>The calls a function added to the trace.\<close>

definition new_calls :: "'w aws_state \<Rightarrow> 'w aws_state \<Rightarrow> aws_call list" where
  "new_calls s s' = drop (length (aws_calls s)) (aws_calls s')"

lemma new_calls_append: "aws_calls s' = aws_calls s @ cs \<Longrightarrow> new_calls s s' = cs"
  by (simp add: new_calls_def)

lemma accepted_once_shape:
  assumes "accepted_once thr req cs exid err"
  shows "\<exists>c \<in> set cs. is_accept c"
  using assms by (auto simp: accepted_once_def)

lemma Execute_cases:
  assumes "Execute thr c req s = ((exid, q, err), s')"
  shows "stopped_early (new_calls s s') exid err \<or> accepted_once thr req (new_calls s s') exid err"
  using executeWithAPI_cases assms new_calls_append unfolding Execute_def by metis

text \<open>C28. The irreversible accept call is justified. If an execution makes an accept call at all, the
  request carries a spend cap; the calls made are exactly the identity check of the expected
  account (when one is set, with that account as the answer), two live quotes of the same
  reservations and targets, and one accept of them, sent without SDK retries; and both quotes
  were valid, in USD, of a known amount within the cap.
\<close>

theorem execute_accept_justified:
  assumes "Execute throttled c req s = ((exid, q, err), s')"
    and "AcceptCall i r \<in> set (new_calls s s')"
  shows "\<exists>cap out1 out2. x_MaxPaymentDueUSD req = Some cap \<and> payable cap out1 \<and> payable cap out2 \<and>
    new_calls s s' = account_calls (x_ExpectedAccount req) @
      [QuoteCall \<lparr>qi_DryRun = False, qi_ReservedInstanceIds = ai_ReservedInstanceIds i,
         qi_TargetConfigurations = ai_TargetConfigurations i\<rparr> (Inr out1),
       QuoteCall \<lparr>qi_DryRun = False, qi_ReservedInstanceIds = ai_ReservedInstanceIds i,
         qi_TargetConfigurations = ai_TargetConfigurations i\<rparr> (Inr out2),
       AcceptCall i r] \<and>
    ai_ReservedInstanceIds i = x_ReservedIDs req \<and> ai_TargetConfigurations i = execute_targetConfigs req \<and>
    ai_RetryMaxAttempts i = 1"
proof -
  have "accepted_once throttled req (new_calls s s') exid err"
    using Execute_cases [OF assms(1)] assms(2) by (auto simp: stopped_early_def)
  with assms(2) show ?thesis
    by (auto simp: accepted_once_def execute_accept_input_def quote_api_input_def execute_quote_request_def
        account_calls_def quote_targetConfigs_def execute_targetConfigs_def split: if_splits)
qed

lemma demo_execute:
  "Execute thr (demo_client r) (demo_request 11) demo_start = ((a, b, c), s') \<Longrightarrow>
     AcceptCall (execute_accept_input (demo_request 11)) r \<in> set (new_calls demo_start s') \<and> (\<forall>e. r = Inl e \<longrightarrow> c \<noteq> None)"
  by (auto simp: Execute_def executeWithAPI_def demo_request_def demo_account requote_step_def accept_step_def
     execute_quote_request_def quoteWithAPI_def validateTargets_def demo_trim call_quote_def demo_client_def demo_api_def
     demo_output_def quote_summary_def payment_of_def ToString_def demo_parse ToBool_def checkInitialQuote_def
     requireUSDPaymentDue_def checkReQuote_def call_accept_def demo_start_def assertAccount_def call_identity_def new_calls_def
     split: prod.splits sum.splits if_splits option.splits)

lemma demo_execute_obtain:
  obtains a b c s' where "Execute thr (demo_client r) (demo_request 11) demo_start = ((a, b, c), s')"
  by (cases "Execute thr (demo_client r) (demo_request 11) demo_start") (auto simp: prod.split_sel)

theorem execute_accept_justified_witness:
  "\<exists>cap out. x_MaxPaymentDueUSD (demo_request 11) = Some cap \<and> payable cap out"
  using execute_accept_justified [OF _ demo_execute [THEN conjunct1]] demo_execute_obtain by metis

text \<open>C29. No lost exchange is reported as rejected. When the accept call was made, a result without an
  error carries the non-empty exchange ID the service returned; an error that is not marked
  \<open>ErrOutcomeUnknown\<close> is the service's own answer, an API error with a throttling code or a 4xx
  status; and when it was not made, the result is an error without an exchange ID.
\<close>

theorem execute_outcome_classified:
  assumes "Execute throttled c req s = ((exid, q, err), s')"
  shows "(err = None \<longrightarrow> exid \<noteq> [] \<and> (\<exists>i. AcceptCall i (Inr (Some exid)) \<in> set (new_calls s s')))
    \<and> (\<forall>e. err = Some e \<longrightarrow> exid = [])
    \<and> (\<forall>e i r. err = Some e \<and> \<not> outcome_unknown e \<and> AcceptCall i r \<in> set (new_calls s s') \<longrightarrow>
        r = Inl e \<and> (\<exists>code. err_api_code e = Some code \<and> (throttled code \<or> acceptHTTPStatus e \<in> {400 ..< 500})))"
  using Execute_cases [OF assms]
  by (auto simp: stopped_early_def accepted_once_def accept_verdict_def account_calls_def split: option.splits if_splits)

definition demo_lost :: "go_error + go_string option" where
  "demo_lost = Inl (SdkError \<lparr>sdk_text = ''EOF'', sdk_code = None, sdk_status = None\<rparr>)"

theorem execute_outcome_classified_witness:
  "\<exists>a b e s'. Execute (\<lambda>c. False) (demo_client demo_lost) (demo_request 11) demo_start = ((a, b, Some e), s') \<and> outcome_unknown e"
proof -
  obtain a b c s' where run: "Execute (\<lambda>c. False) (demo_client demo_lost) (demo_request 11) demo_start = ((a, b, c), s')"
    using demo_execute_obtain by blast
  from demo_execute [OF run] obtain e where "c = Some e" by (auto simp: demo_lost_def)
  have "outcome_unknown e"
  proof (rule ccontr)
    assume "\<not> outcome_unknown e"
    with execute_outcome_classified [OF run] demo_execute [OF run] \<open>c = Some e\<close>
    have "demo_lost = Inl e" and "err_api_code e \<noteq> None" by blast+
    then show False by (auto simp: demo_lost_def)
  qed
  with run \<open>c = Some e\<close> show ?thesis by blast
qed

lemma quote_summary_of_payable:
  assumes "payable cap out"
  shows "\<exists>q p. quote_summary out = Inr q \<and> IsValidExchange q \<and> requireUSDPaymentDue q = Inr p \<and> p \<le> cap"
proof -
  obtain raw p where r: "out_PaymentDue out = Some raw" "ParseDecimalRat raw = Inr p" "p \<le> cap"
    and v: "ToBool (out_IsValidExchange out)" "out_CurrencyCode out = Some ''USD''"
    using assms by (auto simp: payable_def split: option.splits sum.splits)
  have "raw \<noteq> []" using r(2) by (auto simp: ParseDecimalRat_def)
  with r v show ?thesis
    by (auto simp: quote_summary_def payment_of_def ToString_def requireUSDPaymentDue_def)
qed

text \<open>C30. An execution goes through when it should. With a cap, an identity service that confirms the
  expected account, and two quotes within the cap, the accept call is made and its exchange ID is
  returned; so the guards above never refuse a justified exchange.
\<close>

theorem execute_goes_through:
  assumes "x_MaxPaymentDueUSD req = Some cap" and "x_ReservedIDs req \<noteq> []"
    and "validateTargets (x_Targets req) (x_TargetOfferingID req) (x_TargetCount req) = None"
    and "x_ExpectedAccount req \<noteq> [] \<longrightarrow> client_identity c = Some (\<lambda>w. (Inr (Some (x_ExpectedAccount req)), f w))"
    and "\<And>w. \<exists>out w'. api_quote (client_ec2 c) (quote_api_input (execute_quote_request req)) w = (Inr out, w') \<and> payable cap out"
    and "\<And>w. \<exists>w'. api_accept (client_ec2 c) (execute_accept_input req) w = (Inr (Some exid), w')" and "exid \<noteq> []"
  shows "\<exists>q s'. Execute throttled c req s = ((exid, Some q, None), s')"
proof -
  have quote: "\<exists>q s'. quoteWithAPI (client_ec2 c) (execute_quote_request req) s0 = (Inr q, s')
      \<and> checkInitialQuote q cap = None \<and> checkReQuote q cap = None" for s0
  proof -
    obtain out w' where o: "api_quote (client_ec2 c) (quote_api_input (execute_quote_request req)) (world s0) = (Inr out, w')"
      "payable cap out" using assms(5) by blast
    from quote_summary_of_payable [OF o(2)] o(1) assms(2,3) show ?thesis
      by (auto simp: quoteWithAPI_def call_quote_def execute_quote_request_def checkInitialQuote_None checkReQuote_None)
  qed
  have account: "\<exists>s1. assertAccount (client_identity c) (x_ExpectedAccount req) s = (None, s1)"
    using assms(4) by (auto simp: assertAccount_def call_identity_def ToString_def)
  have accept: "\<exists>s'. accept_step throttled (client_ec2 c) req q s0 = ((exid, Some q, None), s')" for q s0
    using assms(6) [of "world s0"] assms(7) by (auto simp: accept_step_def call_accept_def ToString_def)
  obtain s1 where s1: "assertAccount (client_identity c) (x_ExpectedAccount req) s = (None, s1)" using account by blast
  obtain q1 s2 where q1: "quoteWithAPI (client_ec2 c) (execute_quote_request req) s1 = (Inr q1, s2)"
    "checkInitialQuote q1 cap = None" using quote by blast
  obtain q2 s3 where q2: "quoteWithAPI (client_ec2 c) (execute_quote_request req) s2 = (Inr q2, s3)"
    "checkReQuote q2 cap = None" using quote by blast
  obtain s4 where "accept_step throttled (client_ec2 c) req q2 s3 = ((exid, Some q2, None), s4)" using accept by blast
  with assms(1) s1 q1 q2 show ?thesis by (simp add: Execute_def executeWithAPI_def requote_step_def)
qed

theorem execute_goes_through_witness:
  "\<exists>q s'. Execute (\<lambda>c. False) (demo_client (Inr (Some ''x''))) (demo_request 100) demo_start = ((''x'', Some q, None), s')"
  by (rule execute_goes_through [where cap = 100 and f = id])
    (auto simp: demo_request_def demo_client_def demo_api_def validateTargets_def demo_trim payable_def
      demo_output_def ToBool_def demo_parse demo_parse_99 split: if_splits)

text \<open>Quoting never executes, and reports what the service said. A quote makes no accept call;
  when it succeeds the expected account was confirmed first, the calls are exactly one quote call
  for the requested targets, and the summary repeats the answer: its validity and currency, and
  its payment, parsed exactly in \<open>PaymentDueUSD\<close> and within half a millionth of a dollar in
  the text for JSON consumers. An absent payment stays absent.
\<close>

theorem quote_faithful:
  assumes "GetQuote c req s = (r, s')"
  shows "(\<forall>i a. AcceptCall i a \<notin> set (new_calls s s')) \<and>
    (\<forall>q. r = Inr q \<longrightarrow> (\<exists>out. new_calls s s' = account_calls (q_ExpectedAccount req) @ [QuoteCall (quote_api_input req) (Inr out)]
      \<and> IsValidExchange q = ToBool (out_IsValidExchange out) \<and> CurrencyCode q = ToString (out_CurrencyCode out)
      \<and> PaymentDueRaw q = ToString (out_PaymentDue out)
      \<and> (case PaymentDueUSD q of
           None \<Rightarrow> ToString (out_PaymentDue out) = [] \<and> PaymentDueUSDStr q = []
         | Some d \<Rightarrow> ParseDecimalRat (ToString (out_PaymentDue out)) = Inr d \<and>
             (\<exists>d'. ParseDecimalRat (PaymentDueUSDStr q) = Inr d' \<and> \<bar>d' - d\<bar> \<le> 1 / 2000000))))"
proof -
  obtain a s1 where a: "assertAccount (client_identity c) (q_ExpectedAccount req) s = (a, s1)"
    by (cases "assertAccount (client_identity c) (q_ExpectedAccount req) s")
  obtain as where as: "aws_calls s1 = aws_calls s @ as" "\<forall>c \<in> set as. \<not> is_accept c"
    using assertAccount_calls [OF a] by blast
  show ?thesis
  proof (cases a)
    case (Some e)
    with assms a as show ?thesis by (auto simp: GetQuote_def getQuoteWithAPI_def new_calls_def)
  next
    case None
    then have run: "quoteWithAPI (client_ec2 c) req s1 = (r, s')"
      using assms a by (simp add: GetQuote_def getQuoteWithAPI_def)
    obtain cs where cs: "aws_calls s' = aws_calls s1 @ cs" "\<forall>c \<in> set cs. \<not> is_accept c"
      using quoteWithAPI_calls [OF run] by blast
    have no: "AcceptCall i r' \<notin> set (new_calls s s')" for i r'
      using as cs by (auto simp: new_calls_def)
    show ?thesis
    proof (intro conjI allI impI no)
      fix q assume "r = Inr q"
      then obtain out where out: "aws_calls s' = aws_calls s1 @ [QuoteCall (quote_api_input req) (Inr out)]" "quote_summary out = Inr q"
        using quoteWithAPI_ok run by blast
      moreover have "aws_calls s1 = aws_calls s @ account_calls (q_ExpectedAccount req)"
        using assertAccount_ok a None by blast
      ultimately have "new_calls s s' = account_calls (q_ExpectedAccount req) @ [QuoteCall (quote_api_input req) (Inr out)]"
        by (simp add: new_calls_def)
      moreover have "payment_of (ToString (out_PaymentDue out)) = Inr (PaymentDueUSD q, PaymentDueUSDStr q)"
        and "IsValidExchange q = ToBool (out_IsValidExchange out)" "CurrencyCode q = ToString (out_CurrencyCode out)"
        "PaymentDueRaw q = ToString (out_PaymentDue out)"
        using out(2) by (auto simp: quote_summary_def split: sum.splits)
      ultimately show "\<exists>out. new_calls s s' = account_calls (q_ExpectedAccount req) @ [QuoteCall (quote_api_input req) (Inr out)]
        \<and> IsValidExchange q = ToBool (out_IsValidExchange out) \<and> CurrencyCode q = ToString (out_CurrencyCode out)
        \<and> PaymentDueRaw q = ToString (out_PaymentDue out)
        \<and> (case PaymentDueUSD q of
             None \<Rightarrow> ToString (out_PaymentDue out) = [] \<and> PaymentDueUSDStr q = []
           | Some d \<Rightarrow> ParseDecimalRat (ToString (out_PaymentDue out)) = Inr d \<and>
               (\<exists>d'. ParseDecimalRat (PaymentDueUSDStr q) = Inr d' \<and> \<bar>d' - d\<bar> \<le> 1 / 2000000))"
        using payment_of_Inr [of "ToString (out_PaymentDue out)"] by (intro exI [of _ out] conjI) auto
    qed
  qed
qed

lemma demo_quote:
  "GetQuote (demo_client demo_lost) (execute_quote_request (demo_request 11)) demo_start = (r, s') \<Longrightarrow>
     \<exists>q. r = Inr q \<and> PaymentDueUSD q = Some (21 / 2)"
  by (auto simp: GetQuote_def getQuoteWithAPI_def demo_request_def demo_client_def demo_start_def assertAccount_def
      call_identity_def ToString_def execute_quote_request_def quoteWithAPI_def validateTargets_def demo_trim call_quote_def
      demo_api_def demo_output_def quote_summary_def payment_of_def demo_parse)

theorem quote_faithful_witness:
  "\<exists>q s' d'. GetQuote (demo_client demo_lost) (execute_quote_request (demo_request 11)) demo_start = (Inr q, s')
     \<and> ParseDecimalRat (PaymentDueUSDStr q) = Inr d' \<and> \<bar>d' - 21 / 2\<bar> \<le> 1 / 2000000"
proof -
  obtain r s' where run: "GetQuote (demo_client demo_lost) (execute_quote_request (demo_request 11)) demo_start = (r, s')"
    by (cases "GetQuote (demo_client demo_lost) (execute_quote_request (demo_request 11)) demo_start")
  from demo_quote [OF run] obtain q where q: "r = Inr q" "PaymentDueUSD q = Some (21 / 2)" by blast
  with quote_faithful [OF run] obtain d' where "ParseDecimalRat (PaymentDueUSDStr q) = Inr d'" "\<bar>d' - 21 / 2\<bar> \<le> 1 / 2000000"
    by auto
  with run q(1) show ?thesis by blast
qed

text \<open>Misconfigured requests are refused before anything is touched. The package entry point makes
  no call at all, and returns an error and no exchange ID, when the request has no spend cap, a
  blank region, or expects an account the client has no means to verify.
\<close>

theorem execute_refused_untouched:
  assumes "x_MaxPaymentDueUSD req = None \<or> trim_space (x_Region req) = []
    \<or> (\<exists>c. load (x_Region req) = Inr c \<and> client_identity c = None \<and> x_ExpectedAccount req \<noteq> [])"
  shows "\<exists>e. ExecuteExchange throttled load req s = (([], None, Some e), s)"
  using assms
  by (auto simp: ExecuteExchange_def loadCfg_def executeWithAPI_def assertAccount_def split: option.splits sum.splits)

theorem execute_refused_untouched_witness:
  "\<exists>e. ExecuteExchange (\<lambda>c. False) (\<lambda>r. Inr (NewExchangeClientFromAPI (demo_api demo_lost))) (demo_request 5) demo_start
     = (([], None, Some e), demo_start)"
  by (rule execute_refused_untouched) (simp add: NewExchangeClientFromAPI_def demo_request_def)

end
