(* ===== verification/Go_Lib.thy ===== *)
theory Go_Lib
  imports Go_Text
begin

text \<open>
  More of Go's standard library, for the recommendation and retry packages: \<open>int64\<close> arithmetic,
  durations and float conversions, integer division, and the functions of \<open>strings\<close> on ASCII text.
\<close>

section \<open>Durations\<close>

text \<open>\<open>time.Duration\<close> is an \<open>int64\<close>: sums and products wrap around.\<close>

definition i64 :: "int \<Rightarrow> int" where
  "i64 x = (x + 2 ^ 63) mod 2 ^ 64 - 2 ^ 63"

definition is_i64 :: "int \<Rightarrow> bool" where
  "is_i64 x \<longleftrightarrow> - (2 ^ 63) \<le> x \<and> x < 2 ^ 63"

lemma i64_id [simp]: "is_i64 x \<Longrightarrow> i64 x = x"
  by (simp add: i64_def is_i64_def)

text \<open>
  The conversion of a \<open>float64\<close> to \<open>int64\<close> drops the fraction; out of the range of \<open>int64\<close>
  its result depends on the machine and is the parameter \<open>ovf\<close>.
\<close>

definition trunc_rat :: "rat \<Rightarrow> int" where
  "trunc_rat r = (if 0 \<le> r then \<lfloor>r\<rfloor> else \<lceil>r\<rceil>)"

fun to_i64 :: "int \<Rightarrow> float64 \<Rightarrow> int" where
  "to_i64 ovf (Fin r) = (if is_i64 (trunc_rat r) then trunc_rat r else ovf)"
| "to_i64 ovf _ = ovf"

text \<open>\<open>Duration.String\<close>: the fraction without its trailing zeros, then seconds, minutes and hours.\<close>

definition frac_string :: "nat \<Rightarrow> nat \<Rightarrow> go_string" where
  "frac_string p u = (let ds = rev (dropWhile (\<lambda>c. c = CHR ''0'') (rev (pad_digits p u))) in
     if ds = [] then [] else CHR ''.'' # ds)"

definition duration_string :: "int \<Rightarrow> go_string" where
  "duration_string d = (let u = nat \<bar>d\<bar>; sign = (if d < 0 then ''-'' else []) in
     if u = 0 then ''0s''
     else if u < 1000 then sign @ show_nat u @ ''ns''
     else if u < 1000000 then sign @ show_nat (u div 1000) @ frac_string 3 u @ map char_of [194, 181 :: nat] @ ''s''
     else if u < 1000000000 then sign @ show_nat (u div 1000000) @ frac_string 6 u @ ''ms''
     else (let s = u div 1000000000; m = s div 60; h = m div 60 in
       sign @ (if h > 0 then show_nat h @ ''h'' else [])
         @ (if m > 0 then show_nat (m mod 60) @ ''m'' else [])
         @ show_nat (s mod 60) @ frac_string 9 u @ ''s''))"

section \<open>Integer division\<close>

text \<open>Go's \<open>/\<close> on integers truncates toward zero.\<close>

definition go_quo :: "int \<Rightarrow> int \<Rightarrow> int" where
  "go_quo a b = sgn a * sgn b * (\<bar>a\<bar> div \<bar>b\<bar>)"

lemma go_quo_div [simp]: "0 \<le> a \<Longrightarrow> 0 < b \<Longrightarrow> go_quo a b = a div b"
  by (cases "a = 0") (simp_all add: go_quo_def)

section \<open>Strings\<close>

text \<open>
  \<open>strings.ToLower\<close>: ASCII letters, and the two other characters whose lower case is an ASCII
  letter (the Kelvin sign and the dotted capital I). Other characters are kept: no word the code
  compares with has one.
\<close>

fun to_lower :: "go_string \<Rightarrow> go_string" where
  "to_lower (a # b # c # s) =
    (if map of_char [a, b] = [196, 176 :: nat] then CHR ''i'' # to_lower (c # s)
     else if map of_char [a, b, c] = [226, 132, 170 :: nat] then CHR ''k'' # to_lower s
     else ascii_lower a # to_lower (b # c # s))"
| "to_lower [a, b] = (if map of_char [a, b] = [196, 176 :: nat] then ''i'' else [ascii_lower a, ascii_lower b])"
| "to_lower [a] = [ascii_lower a]"
| "to_lower [] = []"

definition trim_suffix :: "go_string \<Rightarrow> go_string \<Rightarrow> go_string" where
  "trim_suffix s suf = (if drop (length s - length suf) s = suf \<and> length suf \<le> length s
     then take (length s - length suf) s else s)"

text \<open>\<open>strings.ReplaceAll(s, "c", "")\<close> for a character, \<open>strings.Split(s, "c")\<close> and \<open>strings.Join\<close>.\<close>

definition remove_char :: "char \<Rightarrow> go_string \<Rightarrow> go_string" where
  "remove_char c s = filter (\<lambda>x. x \<noteq> c) s"

fun split_at :: "char \<Rightarrow> go_string \<Rightarrow> go_string list" where
  "split_at c [] = [[]]"
| "split_at c (x # s) = (if x = c then [] # split_at c s
     else (case split_at c s of [] \<Rightarrow> [[x]] | p # ps \<Rightarrow> (x # p) # ps))"

fun join_with :: "go_string \<Rightarrow> go_string list \<Rightarrow> go_string" where
  "join_with sep [] = []"
| "join_with sep [p] = p"
| "join_with sep (p # q # ps) = p @ sep @ join_with sep (q # ps)"

lemma split_at_not_empty [simp]: "split_at c s \<noteq> []"
  by (induction s) (auto split: list.splits)

lemma join_split_at: "join_with [c] (split_at c s) = s"
proof (induction s)
  case Nil
  then show ?case by simp
next
  case (Cons x s)
  obtain p ps where p: "split_at c s = p # ps" by (cases "split_at c s") auto
  with Cons show ?case by (cases ps) auto
qed

end
