(* ===== verification/Common_Sizes.thy ===== *)
theory Common_Sizes
  imports Go_Lib
begin

text \<open>
  The instance sizes of \<open>pkg/common/ec2_size.go\<close> and \<open>rds_size.go\<close>: normalised units of a size,
  families, and what is size-flexible. The reshape analysis and the duplicate check share them.
\<close>

section \<open>EC2\<close>

definition ec2NormalizationFactors :: "(go_string \<times> rat) list" where
  "ec2NormalizationFactors =
    [(''nano'', 1 / 4), (''micro'', 1 / 2), (''small'', 1), (''medium'', 2), (''large'', 4), (''xlarge'', 8),
     (''2xlarge'', 16), (''3xlarge'', 24), (''4xlarge'', 32), (''6xlarge'', 48), (''8xlarge'', 64), (''9xlarge'', 72),
     (''10xlarge'', 80), (''12xlarge'', 96), (''16xlarge'', 128), (''18xlarge'', 144), (''24xlarge'', 192),
     (''32xlarge'', 256), (''48xlarge'', 384), (''56xlarge'', 448), (''96xlarge'', 768), (''112xlarge'', 896)]"

definition EC2NormalizationFactor :: "go_string \<Rightarrow> float64" where
  "EC2NormalizationFactor size' = (case map_of ec2NormalizationFactors size' of None \<Rightarrow> Fin 0 | Some r \<Rightarrow> Fin r)"

definition ec2NotSizeFlexibleFamilies :: "go_string list" where
  "ec2NotSizeFlexibleFamilies = [''g4ad'', ''g4dn'', ''g5'', ''g5g'', ''g6'', ''g6e'', ''g6f'', ''gr6'', ''gr6f'',
     ''hpc7a'', ''p5'', ''inf1'', ''inf2'', ''u7i-6tb'', ''u7i-8tb'']"

definition EC2SizeFlexibleFamily :: "go_string \<Rightarrow> bool" where
  "EC2SizeFlexibleFamily family \<longleftrightarrow> to_lower (trim_space family) \<notin> set ec2NotSizeFlexibleFamilies"

section \<open>RDS\<close>

definition rdsInstanceNU :: "(go_string \<times> rat) list" where
  "rdsInstanceNU = [(''nano'', 1 / 4), (''micro'', 1 / 2), (''small'', 1), (''medium'', 2),
     (''large'', 4), (''xlarge'', 8), (''2xlarge'', 16), (''4xlarge'', 32), (''6xlarge'', 48),
     (''8xlarge'', 64), (''10xlarge'', 80), (''12xlarge'', 96), (''16xlarge'', 128),
     (''24xlarge'', 192), (''32xlarge'', 256)]"

definition RDSInstanceNU :: "go_string \<Rightarrow> float64" where
  "RDSInstanceNU instanceType = (let parts = split_at CHR ''.'' instanceType in
     if length parts < 3 then Fin 0 else (case map_of rdsInstanceNU (last parts) of None \<Rightarrow> Fin 0 | Some r \<Rightarrow> Fin r))"

definition RDSFamily :: "go_string \<Rightarrow> go_string" where
  "RDSFamily instanceType = (let parts = split_at CHR ''.'' instanceType in
     if length parts < 3 then [] else join_with ''.'' (butlast parts))"

definition RDSSizeFlexibleEngine :: "go_string \<Rightarrow> bool" where
  "RDSSizeFlexibleEngine engine = (let e = to_lower (trim_space engine) in
     e = ''mysql'' \<or> e = ''mariadb'' \<or> e = ''postgres'' \<or> e = ''postgresql'' \<or> starts_with e ''aurora'')"

section \<open>Quarter units\<close>

text \<open>\<open>int(nu * 4)\<close>, exact and positive for every entry of the tables.\<close>

definition quarter_units :: "float64 \<Rightarrow> int" where
  "quarter_units nu = to_i64 0 (nu * Fin 4)"

lemma quarter_units_Fin: "0 < r \<Longrightarrow> r \<le> 2 ^ 40 \<Longrightarrow> r * 4 = of_int k \<Longrightarrow> quarter_units (Fin r) = k"
proof -
  assume r: "0 < r" "r \<le> 2 ^ 40" "r * 4 = of_int k"
  then have "(of_int k :: rat) \<le> of_int (2 ^ 42)" "(0 :: rat) < of_int k" by simp_all
  then have k: "0 < k" "k \<le> 2 ^ 42" by (simp_all only: of_int_le_iff of_int_0_less_iff)
  then have "rnd (of_int k) = Fin (of_int k)" by (intro rnd_of_int) simp
  then show ?thesis using r k by (simp add: quarter_units_def trunc_rat_def is_i64_def)
qed

definition good_units :: "rat \<Rightarrow> bool" where
  "good_units r \<longleftrightarrow> 0 < r \<and> r \<le> 2 ^ 40 \<and> r * 4 = of_int \<lfloor>r * 4\<rfloor>"

lemma good_units_pos: "good_units r \<Longrightarrow> 0 < quarter_units (Fin r)"
proof -
  assume "good_units r"
  then have r: "0 < r" "r \<le> 2 ^ 40" "r * 4 = of_int \<lfloor>r * 4\<rfloor>" unfolding good_units_def by blast+
  have "(0 :: rat) < r * 4" using r(1) by simp
  then have "(0 :: rat) < of_int \<lfloor>r * 4\<rfloor>" using r(3) by argo
  then have "0 < \<lfloor>r * 4\<rfloor>" by (simp only: of_int_0_less_iff)
  then show ?thesis using quarter_units_Fin [OF r] by simp
qed

lemma tables_good: "list_all good_units (map snd rdsInstanceNU)" "list_all good_units (map snd ec2NormalizationFactors)"
  by (simp_all add: rdsInstanceNU_def ec2NormalizationFactors_def good_units_def)

lemma table_pos:
  assumes "list_all good_units (map snd m)" and "map_of m k = Some r"
  shows "0 < quarter_units (Fin r)"
  using map_of_SomeD [OF assms(2)] assms(1) good_units_pos by (force simp: list_all_iff)

lemma quarter_units_pos:
  "EC2NormalizationFactor sz \<noteq> Fin 0 \<Longrightarrow> 0 < quarter_units (EC2NormalizationFactor sz)"
  "RDSInstanceNU t \<noteq> Fin 0 \<Longrightarrow> 0 < quarter_units (RDSInstanceNU t)"
  using table_pos [OF tables_good(1)] table_pos [OF tables_good(2)]
  by (auto simp: EC2NormalizationFactor_def RDSInstanceNU_def Let_def split: if_splits option.splits)

end
