(* ===== verification/Exchange_Reshape.thy ===== *)
theory Exchange_Reshape
  imports Common_Sizes
begin

text \<open>
  \<open>pkg/exchange/reshape.go\<close>: which under-used Convertible RIs to
  exchange, and for what. The lemmas say when a recommendation is made, that its target covers
  the observed usage and frees capacity, and which alternatives may be shown next to it.
\<close>

section \<open>Floating-point helpers\<close>

fun float_ceil :: "float64 \<Rightarrow> float64" where
  "float_ceil (Fin r) = Fin (of_int \<lceil>r\<rceil>)"
| "float_ceil x = x"

fun float_abs :: "float64 \<Rightarrow> float64" where
  "float_abs (Fin r) = Fin \<bar>r\<bar>"
| "float_abs NInf = PInf"
| "float_abs x = x"

text \<open>
  The conversion \<open>int32(x)\<close> truncates; its value outside the range of \<open>int32\<close> is
  implementation-specific, and a parameter here.
\<close>

fun to_int32 :: "(float64 \<Rightarrow> int) \<Rightarrow> float64 \<Rightarrow> int" where
  "to_int32 ovf (Fin r) = (let t = (if r < 0 then \<lceil>r\<rceil> else \<lfloor>r\<rfloor>) in
     if - (2 ^ 31) \<le> t \<and> t < 2 ^ 31 then t else ovf (Fin r))"
| "to_int32 ovf x = ovf x"

section \<open>Instance sizes\<close>

definition NormalizationFactorForSize :: "go_string \<Rightarrow> float64" where
  "NormalizationFactorForSize size' = EC2NormalizationFactor size'"

definition sizeOrder :: "go_string list" where
  "sizeOrder = [''nano'', ''micro'', ''small'', ''medium'', ''large'', ''xlarge'', ''2xlarge'', ''3xlarge'', ''4xlarge'',
     ''6xlarge'', ''8xlarge'', ''9xlarge'', ''10xlarge'', ''12xlarge'', ''16xlarge'', ''18xlarge'', ''24xlarge'']"

definition legacySizeLadder :: "go_string list" where
  "legacySizeLadder = rev sizeOrder"

definition parseInstanceType :: "go_string \<Rightarrow> go_string \<times> go_string" where
  "parseInstanceType t = (case cut_at (CHR ''.'') t of None \<Rightarrow> ([], []) | Some p \<Rightarrow> p)"

section \<open>Data\<close>

record RIInfo =
  ri_ID :: go_string
  ri_InstanceType :: go_string
  OfferingClass :: go_string
  ri_CurrencyCode :: go_string
  ri_NormalizationFactor :: float64
  MonthlyCost :: float64
  ri_TermSeconds :: int
  InstanceCount :: int

record UtilizationInfo =
  RIID :: go_string
  u_UtilizationPercent :: float64

record OfferingOption =
  SavingsAbs :: "float64 option"
  off_InstanceType :: go_string
  off_OfferingID :: go_string
  off_CurrencyCode :: go_string
  EffectiveMonthlyCost :: float64
  off_NormalizationFactor :: float64
  off_TermSeconds :: int
  RecommendationCount :: int

record ReshapeRecommendation =
  SourceRIID :: go_string
  SourceInstanceType :: go_string
  TargetInstanceType :: go_string
  Reason :: go_string
  AlternativeTargets :: "OfferingOption list"
  UtilizationPercent :: float64
  NormalizedUsed :: float64
  NormalizedPurchased :: float64
  SourceCount :: int
  TargetCount :: int

section \<open>The score of an alternative\<close>

definition passesDollarUnitsCheck :: "float64 \<Rightarrow> float64 \<Rightarrow> go_string \<Rightarrow> OfferingOption \<Rightarrow> bool" where
  "passesDollarUnitsCheck srcNF srcMonthlyCost srcCurrency target =
    (if srcCurrency \<noteq> [] \<and> off_CurrencyCode target \<noteq> [] \<and> srcCurrency \<noteq> off_CurrencyCode target then False
     else if srcNF \<le> 0 \<or> EffectiveMonthlyCost target \<le> 0 \<or> off_NormalizationFactor target \<le> 0 then False
     else srcNF * srcMonthlyCost \<le> off_NormalizationFactor target * EffectiveMonthlyCost target)"

definition scoreWeightCost :: float64 where "scoreWeightCost = rnd (60 / 100)"
definition scoreWeightFamilyGen :: float64 where "scoreWeightFamilyGen = rnd (15 / 100)"
definition scoreWeightArch :: float64 where "scoreWeightArch = rnd (10 / 100)"
definition scoreWeightConfidence :: float64 where "scoreWeightConfidence = rnd (10 / 100)"
definition scoreWeightNFProximity :: float64 where "scoreWeightNFProximity = rnd (5 / 100)"

definition ConfidenceHighSavingsUSD :: float64 where "ConfidenceHighSavingsUSD = Fin 200"
definition ConfidenceHighMinCount :: int where "ConfidenceHighMinCount = 3"
definition ConfidenceMediumSavingsUSD :: float64 where "ConfidenceMediumSavingsUSD = Fin 50"

definition costComponent :: "OfferingOption \<Rightarrow> RIInfo \<Rightarrow> float64" where
  "costComponent off src =
    (if MonthlyCost src \<le> 0 \<or> EffectiveMonthlyCost off \<le> 0 then Fin (1 / 2)
     else let ratio = fdiv (MonthlyCost src) (EffectiveMonthlyCost off) in fdiv ratio (1 + ratio))"

definition familyPrefix :: "go_string \<Rightarrow> go_string" where
  "familyPrefix family = takeWhile (\<lambda>c. \<not> (CHR ''0'' \<le> c \<and> c \<le> CHR ''9'')) family"

definition familyGenComponent :: "OfferingOption \<Rightarrow> RIInfo \<Rightarrow> float64" where
  "familyGenComponent off src =
    (let srcFamily = fst (parseInstanceType (ri_InstanceType src)); offFamily = fst (parseInstanceType (off_InstanceType off)) in
     if srcFamily = [] \<or> offFamily = [] then Fin 0
     else if familyPrefix srcFamily = familyPrefix offFamily then Fin 1 else Fin 0)"

definition isARMFamily :: "go_string \<Rightarrow> bool" where
  "isARMFamily family =
    (if familyPrefix family \<in> {''im'', ''is''} then False
     else let genSuffix = dropWhile (\<lambda>c. CHR ''a'' \<le> c \<and> c \<le> CHR ''z'') family;
              suffix = dropWhile (\<lambda>c. CHR ''0'' \<le> c \<and> c \<le> CHR ''9'') genSuffix
          in suffix = ''g'' \<or> suffix = ''gd'' \<or> suffix = ''gn'')"

definition archComponent :: "OfferingOption \<Rightarrow> RIInfo \<Rightarrow> float64" where
  "archComponent off src =
    (let srcFamily = fst (parseInstanceType (ri_InstanceType src)); offFamily = fst (parseInstanceType (off_InstanceType off)) in
     if srcFamily = [] \<or> offFamily = [] then Fin (1 / 2)
     else if isARMFamily srcFamily = isARMFamily offFamily then Fin 1 else Fin 0)"

definition confidenceComponent :: "OfferingOption \<Rightarrow> float64" where
  "confidenceComponent off = (case SavingsAbs off of
     None \<Rightarrow> Fin (1 / 2)
   | Some savings \<Rightarrow>
       if RecommendationCount off = 0 then Fin (1 / 2)
       else if ConfidenceHighSavingsUSD \<le> savings \<and> ConfidenceHighMinCount \<le> RecommendationCount off then Fin 1
       else if ConfidenceMediumSavingsUSD \<le> savings then Fin (1 / 2)
       else Fin 0)"

definition nfProximityComponent :: "OfferingOption \<Rightarrow> RIInfo \<Rightarrow> float64" where
  "nfProximityComponent off src =
    (let srcNF = (if ri_NormalizationFactor src \<le> 0
           then EC2NormalizationFactor (snd (parseInstanceType (ri_InstanceType src))) else ri_NormalizationFactor src) in
     if srcNF \<le> 0 \<or> off_NormalizationFactor off \<le> 0 then Fin (1 / 2)
     else let ratio = fdiv (off_NormalizationFactor off) srcNF; deviation = float_abs (ratio - 1) in
          if 1 \<le> deviation then Fin 0 else 1 - deviation)"

definition compositeScore :: "OfferingOption \<Rightarrow> RIInfo \<Rightarrow> float64" where
  "compositeScore off src =
    scoreWeightCost * costComponent off src + scoreWeightFamilyGen * familyGenComponent off src
    + scoreWeightArch * archComponent off src + scoreWeightConfidence * confidenceComponent off
    + scoreWeightNFProximity * nfProximityComponent off src"

section \<open>The offered sizes\<close>

definition nf_ge :: "go_string \<Rightarrow> go_string \<Rightarrow> bool" where
  "nf_ge a b \<longleftrightarrow> \<not> EC2NormalizationFactor b > EC2NormalizationFactor a"

text \<open>
  A catalog entry counts when its family parses and its size has a factor. The Go maps are
  iterated in an unspecified order; the order of the families is irrelevant to a lookup, and
  the order of the sizes is fixed by the sort, as factors are distinct.
\<close>

definition known_offering :: "go_string \<Rightarrow> (go_string \<times> go_string) option" where
  "known_offering it = (case parseInstanceType it of (family, sz) \<Rightarrow>
     if family = [] \<or> EC2NormalizationFactor sz \<le> 0 then None else Some (family, sz))"

definition indexOfferedSizes :: "go_string list \<Rightarrow> (go_string, go_string list) go_map" where
  "indexOfferedSizes instanceTypes =
    (let known = List.map_filter known_offering instanceTypes in
     map (\<lambda>family. (family, sort_stable nf_ge (remdups (map snd (filter (\<lambda>p. fst p = family) known)))))
       (remdups (map fst known)))"

type_synonym reshapeConfig = "(go_string, go_string list) go_map option"

definition WithOfferedInstanceTypes :: "go_string list \<Rightarrow> reshapeConfig" where
  "WithOfferedInstanceTypes instanceTypes = (if instanceTypes = [] then None else Some (indexOfferedSizes instanceTypes))"

definition ladderFor :: "reshapeConfig \<Rightarrow> go_string \<Rightarrow> go_string list option" where
  "ladderFor cfg family = (case cfg of None \<Rightarrow> Some legacySizeLadder | Some offered \<Rightarrow> map_of offered family)"

section \<open>The best fit\<close>

text \<open>The loop of \<open>findBestFit\<close>: the first size of the ladder that fits, with its rounded-up count.\<close>

fun fit_loop :: "float64 \<Rightarrow> float64 \<Rightarrow> go_string list \<Rightarrow> (go_string \<times> float64) option" where
  "fit_loop used purchased [] = None"
| "fit_loop used purchased (s # ss) =
    (let nf = EC2NormalizationFactor s; needed = float_ceil (fdiv used nf) in
     if nf \<le> 0 \<or> nf > used then fit_loop used purchased ss
     else if needed * nf \<le> purchased then Some (s, needed)
     else fit_loop used purchased ss)"

definition findBestFit :: "(float64 \<Rightarrow> int) \<Rightarrow> float64 \<Rightarrow> float64 \<Rightarrow> go_string list \<Rightarrow> go_string \<times> int" where
  "findBestFit ovf normalizedUsed normalizedPurchased ladder =
    (if \<not> (normalizedUsed > 0) \<or> ladder = [] then ([], 0)
     else case fit_loop normalizedUsed normalizedPurchased ladder of
       Some (s, needed) \<Rightarrow> (s, to_int32 ovf needed)
     | None \<Rightarrow>
         let s = last ladder; nf = EC2NormalizationFactor s in
         if normalizedUsed < nf \<and> nf \<le> normalizedPurchased then (s, 1) else ([], 0))"

section \<open>The analysis\<close>

definition resolveNormFactor :: "RIInfo \<Rightarrow> go_string \<Rightarrow> float64" where
  "resolveNormFactor ri sz = (if \<not> feq (ri_NormalizationFactor ri) 0 then ri_NormalizationFactor ri else EC2NormalizationFactor sz)"

definition no_target :: "RIInfo \<Rightarrow> float64 \<Rightarrow> float64 \<Rightarrow> float64 \<Rightarrow> go_string \<Rightarrow> ReshapeRecommendation" where
  "no_target ri util used purchased reason =
    \<lparr>SourceRIID = ri_ID ri, SourceInstanceType = ri_InstanceType ri, TargetInstanceType = [], Reason = reason,
     AlternativeTargets = [], UtilizationPercent = util, NormalizedUsed = used, NormalizedPurchased = purchased,
     SourceCount = InstanceCount ri, TargetCount = 0\<rparr>"

definition reshape_target :: "(float64 \<Rightarrow> int) \<Rightarrow> RIInfo \<Rightarrow> float64 \<Rightarrow> go_string \<Rightarrow> float64 \<Rightarrow> float64 \<Rightarrow> go_string list
    \<Rightarrow> ReshapeRecommendation option" where
  "reshape_target ovf ri util family used purchased ladder = (case findBestFit ovf used purchased ladder of (targetSize, targetCount) \<Rightarrow>
     if targetSize = [] then None
     else if Fin (of_int targetCount) * EC2NormalizationFactor targetSize \<ge> purchased then None
     else Some \<lparr>SourceRIID = ri_ID ri, SourceInstanceType = ri_InstanceType ri,
       TargetInstanceType = family @ ''.'' @ targetSize,
       Reason = sprintf ''RI at %.0f%% utilization (%.1f/%.1f normalized units). Suggest exchanging %dx %s for %dx %s.''
         [ArgF util, ArgF used, ArgF purchased, ArgI (InstanceCount ri), ArgS (ri_InstanceType ri),
          ArgI targetCount, ArgS (family @ ''.'' @ targetSize)],
       AlternativeTargets = [], UtilizationPercent = util, NormalizedUsed = used, NormalizedPurchased = purchased,
       SourceCount = InstanceCount ri, TargetCount = targetCount\<rparr>)"

definition analyzeRI :: "(float64 \<Rightarrow> int) \<Rightarrow> RIInfo \<Rightarrow> (go_string \<Rightarrow> float64 option) \<Rightarrow> float64 \<Rightarrow> reshapeConfig
    \<Rightarrow> ReshapeRecommendation option" where
  "analyzeRI ovf ri utilMap threshold cfg =
    (if \<not> equal_fold (OfferingClass ri) ''convertible'' then None
     else case utilMap (ri_ID ri) of None \<Rightarrow> None
     | Some util \<Rightarrow>
       if util \<ge> threshold then None
       else case parseInstanceType (ri_InstanceType ri) of (family, sz) \<Rightarrow>
         if family = [] then None
         else
           let normFactor = resolveNormFactor ri sz;
               purchased = normFactor * Fin (of_int (InstanceCount ri));
               used = purchased * fdiv util (Fin 100)
           in if feq normFactor 0 then
                Some (no_target ri util 0 0 (sprintf
                  ''No normalization factor known for %s (size %q); set the RI's NormalizationFactor to analyze it. No exchange target recommended.''
                  [ArgS (ri_InstanceType ri), ArgS sz]))
              else if used \<le> 0 then
                Some (no_target ri util 0 purchased (sprintf
                  ''RI is completely unused (%.0f%% utilization, %.1f normalized units wasted). Consider letting it expire or exchanging for needed capacity.''
                  [ArgF util, ArgF purchased]))
              else case ladderFor cfg family of
                None \<Rightarrow> Some (no_target ri util used purchased (sprintf
                  ''instance family not offered in region (%s); no exchange target recommended.'' [ArgS family]))
              | Some ladder \<Rightarrow> reshape_target ovf ri util family used purchased ladder)"

definition util_map :: "UtilizationInfo list \<Rightarrow> go_string \<Rightarrow> float64 option" where
  "util_map us = map_of (rev (map (\<lambda>u. (RIID u, u_UtilizationPercent u)) us))"

definition AnalyzeReshaping :: "(float64 \<Rightarrow> int) \<Rightarrow> RIInfo list \<Rightarrow> UtilizationInfo list \<Rightarrow> float64 \<Rightarrow> reshapeConfig
    \<Rightarrow> ReshapeRecommendation list" where
  "AnalyzeReshaping ovf ris utilization threshold cfg =
    List.map_filter (\<lambda>ri. analyzeRI ovf ri (util_map utilization) threshold cfg) ris"

section \<open>Alternatives\<close>

text \<open>
  \<open>sort.Slice\<close> with the comparison below. Where two alternatives tie on all three keys its
  order is unspecified; the model keeps their input order.
\<close>

definition alternative_less :: "RIInfo \<Rightarrow> OfferingOption \<Rightarrow> OfferingOption \<Rightarrow> bool" where
  "alternative_less src a b =
    (let sa = compositeScore a src; sb = compositeScore b src in
     if \<not> feq sa sb then sa > sb
     else if \<not> feq (EffectiveMonthlyCost a) (EffectiveMonthlyCost b) then EffectiveMonthlyCost a < EffectiveMonthlyCost b
     else off_InstanceType a < off_InstanceType b)"

definition isCrossFamilyAlternative :: "OfferingOption \<Rightarrow> go_string \<Rightarrow> go_string \<Rightarrow> bool" where
  "isCrossFamilyAlternative off srcFamily primaryTarget =
    (let offFamily = fst (parseInstanceType (off_InstanceType off)) in
     if offFamily = [] \<or> equal_fold offFamily srcFamily then False
     else if off_InstanceType off = primaryTarget then False else True)"

definition termMatchesIfKnown :: "RIInfo \<Rightarrow> OfferingOption \<Rightarrow> bool \<Rightarrow> bool" where
  "termMatchesIfKnown src off hasSrc =
    (if \<not> hasSrc \<or> ri_TermSeconds src \<le> 0 \<or> off_TermSeconds off \<le> 0 then True
     else ri_TermSeconds src = off_TermSeconds off)"

definition pricingGatePasses :: "RIInfo \<Rightarrow> OfferingOption \<Rightarrow> bool \<Rightarrow> bool" where
  "pricingGatePasses src off hasSrc =
    (if \<not> hasSrc \<or> MonthlyCost src \<le> 0 then True
     else let srcNF = (if ri_NormalizationFactor src \<le> 0
            then NormalizationFactorForSize (snd (parseInstanceType (ri_InstanceType src))) else ri_NormalizationFactor src)
          in passesDollarUnitsCheck srcNF (MonthlyCost src) (ri_CurrencyCode src) off)"

definition alternativeIsEligible :: "ReshapeRecommendation \<Rightarrow> OfferingOption \<Rightarrow> RIInfo \<Rightarrow> bool \<Rightarrow> go_string \<Rightarrow> bool" where
  "alternativeIsEligible rec off src hasSrc srcFamily =
    (if \<not> isCrossFamilyAlternative off srcFamily (TargetInstanceType rec) then False
     else if \<not> termMatchesIfKnown src off hasSrc then False
     else if \<not> pricingGatePasses src off hasSrc then False
     else True)"

text \<open>The value a Go map returns for a missing key.\<close>

definition zero_RIInfo :: RIInfo where
  "zero_RIInfo = \<lparr>ri_ID = [], ri_InstanceType = [], OfferingClass = [], ri_CurrencyCode = [], ri_NormalizationFactor = 0,
     MonthlyCost = 0, ri_TermSeconds = 0, InstanceCount = 0\<rparr>"

definition ris_by_id :: "RIInfo list \<Rightarrow> go_string \<Rightarrow> RIInfo option" where
  "ris_by_id ris = map_of (rev (map (\<lambda>r. (ri_ID r, r)) ris))"

definition fill_one :: "OfferingOption list \<Rightarrow> (go_string \<Rightarrow> RIInfo option) \<Rightarrow> ReshapeRecommendation \<Rightarrow> ReshapeRecommendation" where
  "fill_one offerings risByID rec =
    (let found = risByID (SourceRIID rec);
         hasSrc = (found \<noteq> None);
         src = (case found of None \<Rightarrow> zero_RIInfo | Some r \<Rightarrow> r);
         srcFamily = fst (parseInstanceType (SourceInstanceType rec));
         filled = filter (\<lambda>off. alternativeIsEligible rec off src hasSrc srcFamily) offerings
     in rec\<lparr>AlternativeTargets := sort_stable (\<lambda>a b. \<not> alternative_less src b a) filled\<rparr>)"

definition fillAlternativesFromRecs :: "ReshapeRecommendation list \<Rightarrow> OfferingOption list \<Rightarrow> (go_string \<Rightarrow> RIInfo option)
    \<Rightarrow> ReshapeRecommendation list" where
  "fillAlternativesFromRecs recs offerings risByID = map (fill_one offerings risByID) recs"

text \<open>\<open>lookup\<close> is the caller's \<open>PurchaseRecLookup\<close>, \<open>None\<close> when nil; it is called at most once.\<close>

definition AnalyzeReshapingWithRecs :: "(float64 \<Rightarrow> int) \<Rightarrow> RIInfo list \<Rightarrow> UtilizationInfo list \<Rightarrow> float64 \<Rightarrow> go_string \<Rightarrow> go_string
    \<Rightarrow> (go_string \<Rightarrow> go_string \<Rightarrow> go_error + OfferingOption list) option \<Rightarrow> reshapeConfig \<Rightarrow> ReshapeRecommendation list" where
  "AnalyzeReshapingWithRecs ovf ris utilization threshold region currencyCode lookup cfg =
    (let recs = AnalyzeReshaping ovf ris utilization threshold cfg in
     case lookup of None \<Rightarrow> recs
     | Some f \<Rightarrow>
       if recs = [] then recs
       else case f region currencyCode of
         Inl e \<Rightarrow> recs
       | Inr offerings \<Rightarrow>
           if offerings = [] then recs
           else fillAlternativesFromRecs recs offerings (ris_by_id ris))"

section \<open>The size table\<close>

definition known_size :: "go_string \<Rightarrow> bool" where
  "known_size sz \<longleftrightarrow> EC2NormalizationFactor sz > 0"

text \<open>Every factor is a positive multiple of a quarter, at most 896.\<close>

lemma factor_quarters:
  assumes "known_size sz"
  shows "\<exists>j::int. EC2NormalizationFactor sz = Fin (of_int j / 4) \<and> 1 \<le> j \<and> j \<le> 3584"
proof -
  have "\<forall>p \<in> set ec2NormalizationFactors. \<exists>j::int. snd p = of_int j / 4 \<and> 1 \<le> j \<and> j \<le> 3584"
  proof -
    have "\<forall>p \<in> set ec2NormalizationFactors. snd p = of_int \<lfloor>snd p * 4\<rfloor> / 4 \<and> 1 \<le> \<lfloor>snd p * 4\<rfloor> \<and> \<lfloor>snd p * 4\<rfloor> \<le> 3584"
      by (simp add: ec2NormalizationFactors_def)
    then show ?thesis by blast
  qed
  moreover obtain r where "map_of ec2NormalizationFactors sz = Some r" and "EC2NormalizationFactor sz = Fin r"
    using assms by (auto simp: known_size_def EC2NormalizationFactor_def split: option.splits)
  ultimately show ?thesis by (force dest: map_of_SomeD)
qed

lemma factors_distinct: "distinct (map snd ec2NormalizationFactors)"
  by (simp add: ec2NormalizationFactors_def)

lemma factor_inj:
  assumes "known_size a" and "known_size b" and "EC2NormalizationFactor a = EC2NormalizationFactor b"
  shows "a = b"
proof -
  obtain r where r: "map_of ec2NormalizationFactors a = Some r" "map_of ec2NormalizationFactors b = Some r"
    using assms by (auto simp: known_size_def EC2NormalizationFactor_def split: option.splits)
  then have "(a, r) \<in> set ec2NormalizationFactors" "(b, r) \<in> set ec2NormalizationFactors" by (auto dest: map_of_SomeD)
  moreover have "inj_on snd (set ec2NormalizationFactors)" using factors_distinct by (simp only: distinct_map)
  ultimately have "(a, r) = (b, r)" by (intro inj_onD [of snd]) auto
  then show ?thesis by simp
qed

lemma factor_Fin: "\<exists>r \<ge> 0. EC2NormalizationFactor sz = Fin r"
proof (cases "map_of ec2NormalizationFactors sz")
  case None
  then show ?thesis by (simp add: EC2NormalizationFactor_def)
next
  case (Some r)
  have "\<forall>p \<in> set ec2NormalizationFactors. 0 \<le> snd p" by (simp add: ec2NormalizationFactors_def)
  with Some show ?thesis by (force simp: EC2NormalizationFactor_def dest: map_of_SomeD)
qed

text \<open>The order of a ladder: a total preorder, so the sort puts the largest size first.\<close>

interpretation ladder_order: sort_order nf_ge
proof
  fix a b c
  obtain x y z where "EC2NormalizationFactor a = Fin x" "EC2NormalizationFactor b = Fin y" "EC2NormalizationFactor c = Fin z"
    using factor_Fin by metis
  then show "nf_ge a b \<or> nf_ge b a" and "nf_ge a b \<Longrightarrow> nf_ge b c \<Longrightarrow> nf_ge a c" by (auto simp: nf_ge_def)
qed

section \<open>The best fit covers the usage\<close>

definition fits :: "float64 \<Rightarrow> float64 \<Rightarrow> go_string \<Rightarrow> bool" where
  "fits used purchased s \<longleftrightarrow> EC2NormalizationFactor s > 0 \<and> EC2NormalizationFactor s \<le> used
     \<and> float_ceil (fdiv used (EC2NormalizationFactor s)) * EC2NormalizationFactor s \<le> purchased"

lemma fit_loop_Some:
  "fit_loop (Fin u) purchased ladder = Some (s, needed) \<Longrightarrow>
    \<exists>larger smaller. ladder = larger @ s # smaller \<and> fits (Fin u) purchased s
      \<and> needed = float_ceil (fdiv (Fin u) (EC2NormalizationFactor s))
      \<and> (\<forall>t \<in> set larger. \<not> fits (Fin u) purchased t)"
proof (induction ladder)
  case Nil
  then show ?case by simp
next
  case (Cons t ladder)
  obtain r where r: "0 \<le> r" "EC2NormalizationFactor t = Fin r" using factor_Fin by blast
  show ?case
  proof (cases "fits (Fin u) purchased t")
    case True
    with Cons.prems r have "s = t" and "needed = float_ceil (fdiv (Fin u) (EC2NormalizationFactor t))"
      by (auto simp: fits_def Let_def split: if_splits)
    with True show ?thesis by (intro exI [of _ "[]"] exI [of _ ladder]) simp
  next
    case False
    with Cons.prems r have "fit_loop (Fin u) purchased ladder = Some (s, needed)"
      by (auto simp: fits_def Let_def split: if_splits)
    from Cons.IH [OF this] obtain larger smaller where "ladder = larger @ s # smaller" "fits (Fin u) purchased s"
      "needed = float_ceil (fdiv (Fin u) (EC2NormalizationFactor s))" "\<forall>x \<in> set larger. \<not> fits (Fin u) purchased x" by blast
    with False show ?thesis by (intro exI [of _ "t # larger"] exI [of _ smaller]) auto
  qed
qed

lemma fit_loop_None: "fit_loop (Fin u) purchased ladder = None \<Longrightarrow> s \<in> set ladder \<Longrightarrow> \<not> fits (Fin u) purchased s"
proof (induction ladder)
  case (Cons t ladder)
  obtain r where r: "0 \<le> r" "EC2NormalizationFactor t = Fin r" using factor_Fin by blast
  with Cons show ?case by (auto simp: fits_def Let_def split: if_splits)
qed simp

text \<open>What it means that \<open>n\<close> instances of a size are a minimal cover of a usage within the purchase.\<close>

definition minimal_cover :: "rat \<Rightarrow> rat \<Rightarrow> go_string \<Rightarrow> int \<Rightarrow> bool" where
  "minimal_cover u p s n \<longleftrightarrow> (\<exists>nf. EC2NormalizationFactor s = Fin nf \<and> 0 < nf \<and> 1 \<le> n
     \<and> u \<le> of_int n * nf \<and> of_int (n - 1) * nf < u \<and> of_int n * nf \<le> p)"

lemma bounded_product_exact:
  assumes "1 \<le> k" and "1 \<le> j" and "rnd (of_int k * (of_int j / 4)) \<le> Fin p" and "p < 2 ^ 29"
  shows "rnd (of_int k * (of_int j / 4)) = Fin (of_int k * (of_int j / 4)) \<and> k * j < 2 ^ 31 \<and> k < 2 ^ 31"
proof -
  have lt: "of_int k * (of_int j / 4) < (2 ^ 29 :: rat)"
  proof (rule ccontr)
    assume "\<not> ?thesis"
    then have "rnd (2 ^ 29) \<le> rnd (of_int k * (of_int j / 4))" by (intro rnd_mono) simp
    also have "rnd (2 ^ 29) = Fin (2 ^ 29)" by simp
    finally show False using assms(3,4) float_le_trans [of "Fin (2 ^ 29)" _ "Fin p"] by fastforce
  qed
  then have "(of_int (k * j) :: rat) < of_int (2 ^ 31)" by simp
  then have kj: "k * j < 2 ^ 31" by (simp only: of_int_less_iff)
  have "0 \<le> k * j" using assms by simp
  then have "rnd (of_int (k * j) / 2 ^ 2) = Fin (of_int (k * j) / 2 ^ 2)" using kj by (intro rnd_div_pow2) auto
  moreover have "k * 1 \<le> k * j" using assms by (intro mult_left_mono) auto
  ultimately show ?thesis using kj by simp
qed

lemma fits_minimal_cover:
  assumes f: "fits (Fin u) (Fin p) s" and u: "round_rat u = u" and p: "p < 2 ^ 29"
  shows "\<exists>k. float_ceil (fdiv (Fin u) (EC2NormalizationFactor s)) = Fin (of_int k) \<and> minimal_cover u p s k \<and> k < 2 ^ 31"
proof -
  have "known_size s" using f by (simp add: fits_def known_size_def)
  then obtain j :: int where j: "EC2NormalizationFactor s = Fin (of_int j / 4)" "1 \<le> j" "j \<le> 3584"
    using factor_quarters by blast
  let ?nf = "of_int j / 4 :: rat" and ?q = "round_rat (u / (of_int j / 4))"
  have nf: "0 < ?nf" "?nf \<le> u" using f j by (auto simp: fits_def)
  have fd: "fdiv (Fin u) (EC2NormalizationFactor s) = rnd (u / ?nf)" using j by simp
  have "Fin 0 \<le> rnd (u / ?nf)" using nf by (intro rnd_nonneg) simp
  moreover have "rnd (u / ?nf) \<noteq> PInf"
  proof
    assume "rnd (u / ?nf) = PInf"
    with f fd nf j show False by (auto simp: fits_def)
  qed
  ultimately obtain q where q: "rnd (u / ?nf) = Fin q" by (cases "rnd (u / ?nf)") auto
  then have qq: "q = ?q" by (simp add: rnd_Fin_iff)
  let ?k = "\<lceil>?q\<rceil>"
  have "1 \<le> u / ?nf" using nf by (simp add: pos_le_divide_eq)
  then have "1 \<le> ?q" using round_rat_mono [of 1 "u / ?nf"] round_rat_of_int [of 1] by simp
  then have k1: "1 \<le> ?k" by linarith
  have ceil: "float_ceil (fdiv (Fin u) (EC2NormalizationFactor s)) = Fin (of_int ?k)" using fd q qq by simp
  have le: "rnd (of_int ?k * ?nf) \<le> Fin p" using f ceil j by (simp add: fits_def)
  from bounded_product_exact [OF k1 j(2) le p]
  have ex: "rnd (of_int ?k * ?nf) = Fin (of_int ?k * ?nf)" and kb: "?k < 2 ^ 31" by auto
  then have "round_rat (of_int ?k * ?nf) = of_int ?k * ?nf" by (simp add: rnd_Fin_iff)
  from ceil_div_covers [OF u nf this] have cov: "u \<le> of_int ?k * ?nf" .
  have "(2::int) ^ 31 < 2 ^ 53" by simp
  then have "?k < 2 ^ 53" using kb by linarith
  from ceil_div_minimal [OF nf(1) _ this] nf have mini: "(of_int ?k - 1) * ?nf < u" by simp
  have "minimal_cover u p s ?k"
    unfolding minimal_cover_def using j(1) nf(1) k1 cov mini le ex by (intro exI [of _ ?nf]) simp
  with ceil kb show ?thesis by blast
qed

lemma findBestFit_sound:
  assumes run: "findBestFit ovf (Fin u) (Fin p) ladder = (s, n)" and s: "s \<noteq> []"
    and u: "round_rat u = u" and p: "p < 2 ^ 29"
  shows "s \<in> set ladder \<and> 0 < u \<and> minimal_cover u p s n"
proof (cases "fit_loop (Fin u) (Fin p) ladder")
  case None
  with run s have l: "ladder \<noteq> []" "0 < u" "s = last ladder" "n = 1"
    and f: "Fin u < EC2NormalizationFactor s" "EC2NormalizationFactor s \<le> Fin p"
    by (auto simp: findBestFit_def Let_def split: if_splits)
  obtain nf where "EC2NormalizationFactor s = Fin nf" using factor_Fin by blast
  with f l show ?thesis by (auto simp: minimal_cover_def)
next
  case (Some r)
  obtain needed where r: "r = (s, needed)" and n: "n = to_int32 ovf needed" and u0: "0 < u"
    using run s Some by (cases r) (auto simp: findBestFit_def Let_def split: if_splits)
  from fit_loop_Some Some r have "s \<in> set ladder" and f: "fits (Fin u) (Fin p) s"
    and nd: "needed = float_ceil (fdiv (Fin u) (EC2NormalizationFactor s))" by fastforce+
  from fits_minimal_cover [OF f u p] nd obtain k where k: "needed = Fin (of_int k)" "minimal_cover u p s k" "k < 2 ^ 31" by auto
  then have "1 \<le> k" by (auto simp: minimal_cover_def)
  then have "n = k" using n k by (simp add: Let_def)
  with k u0 \<open>s \<in> set ladder\<close> show ?thesis by simp
qed

lemma findBestFit_not_finite:
  assumes "findBestFit ovf x y ladder = (s, n)" and "s \<noteq> []" and "y = Fin p"
  shows "\<exists>u. x = Fin u"
proof (cases x)
  case PInf
  have "fit_loop PInf (Fin p) ladder = None"
  proof (induction ladder)
    case (Cons t ladder)
    obtain r where "0 \<le> r" "EC2NormalizationFactor t = Fin r" using factor_Fin by blast
    with Cons show ?case by (auto simp: Let_def)
  qed simp
  with PInf assms show ?thesis by (auto simp: findBestFit_def Let_def split: if_splits)
qed (use assms in \<open>auto simp: findBestFit_def\<close>)

section \<open>The float search is the exact search\<close>

definition exact_fits :: "rat \<Rightarrow> rat \<Rightarrow> go_string \<Rightarrow> bool" where
  "exact_fits u p s \<longleftrightarrow> (case EC2NormalizationFactor s of
     Fin nf \<Rightarrow> 0 < nf \<and> nf \<le> u \<and> of_int \<lceil>u / nf\<rceil> * nf \<le> p | _ \<Rightarrow> False)"

text \<open>The reference: the search of \<open>findBestFit\<close> in rational arithmetic, with an unbounded count.\<close>

definition exact_fit :: "rat \<Rightarrow> rat \<Rightarrow> go_string list \<Rightarrow> go_string \<times> int" where
  "exact_fit u p ladder = (case List.find (exact_fits u p) ladder of
     Some s \<Rightarrow> (s, case EC2NormalizationFactor s of Fin nf \<Rightarrow> \<lceil>u / nf\<rceil> | _ \<Rightarrow> 0)
   | None \<Rightarrow> (case EC2NormalizationFactor (last ladder) of
       Fin nf \<Rightarrow> if u < nf \<and> nf \<le> p then (last ladder, 1) else ([], 0)
     | _ \<Rightarrow> ([], 0)))"

lemma float_quotient_ceil:
  assumes s: "EC2NormalizationFactor s = Fin nf" and nf: "0 < nf" "nf \<le> u" and u: "round_rat u = u" "u < 2 ^ 28"
  shows "float_ceil (fdiv (Fin u) (Fin nf)) = Fin (of_int \<lceil>u / nf\<rceil>)
    \<and> Fin (of_int \<lceil>u / nf\<rceil>) * Fin nf = Fin (of_int \<lceil>u / nf\<rceil> * nf) \<and> 1 \<le> \<lceil>u / nf\<rceil> \<and> \<lceil>u / nf\<rceil> < 2 ^ 31"
proof -
  have "known_size s" using s nf by (simp add: known_size_def)
  then obtain j :: int where j: "nf = of_int j / 4" "1 \<le> j" using factor_quarters [of s] s by auto
  let ?k = "\<lceil>u / nf\<rceil>" and ?q = "round_rat (u / nf)"
  have un: "1 \<le> u / nf" using nf by (simp add: pos_le_divide_eq)
  then have k1: "1 \<le> ?k" by linarith
  have "of_int (?k - 1) < u / nf" by linarith
  then have lt: "of_int (?k - 1) * nf < u" using nf(1) by (simp add: pos_less_divide_eq)
  have bound: "m * j < 2 ^ 30" if m: "of_int m * nf < u" for m
  proof -
    have "(of_int (m * j) :: rat) < of_int (2 ^ 30)" using m u(2) by (simp add: j(1))
    then show ?thesis by (simp only: of_int_less_iff)
  qed
  have kj: "(?k - 1) * j < 2 ^ 30" using bound [OF lt] .
  have "(of_int j :: rat) < of_int (2 ^ 30)" using nf(2) u(2) j(1) by simp
  then have j31: "j < 2 ^ 30" by (simp only: of_int_less_iff)
  have kj0: "0 \<le> (?k - 1) * j" and "?k * j = (?k - 1) * j + j" using k1 j(2) by (auto simp: left_diff_distrib)
  then have kj': "0 \<le> ?k * j" "?k * j < 2 ^ 31" using kj j31 j(2) by auto
  have ex: "rnd (of_int n * nf) = Fin (of_int n * nf)" if "0 \<le> n * j" "n * j < 2 ^ 53" for n :: int
  proof -
    have "rnd (of_int (n * j) / 2 ^ 2) = Fin (of_int (n * j) / 2 ^ 2)" using that by (intro rnd_div_pow2) auto
    then show ?thesis by (simp add: j(1))
  qed
  have "(?k - 1) * 1 \<le> (?k - 1) * j" using k1 j(2) by (intro mult_left_mono) auto
  with kj have km: "?k - 1 < 2 ^ 30" by (metis le_less_trans mult.right_neutral)
  have "n < 2 ^ 31" if "n - 1 < 2 ^ 30" for n :: int using that by simp
  with km have kb: "?k < 2 ^ 31" by blast
  have "\<bar>?k\<bar> < 2 ^ 53" using kb k1 by simp
  then have q_le: "?q \<le> of_int ?k" using round_rat_mono [of "u / nf" "of_int ?k"] round_rat_of_int [of ?k] by simp
  have q_gt: "of_int (?k - 1) < ?q"
  proof (cases "?k = 1")
    case True
    then show ?thesis using round_rat_mono [OF un] round_rat_of_int [of 1] by simp
  next
    case False
    have "(?k - 1) * j < 2 ^ 53" using kj by simp
    then have "round_rat (of_int (?k - 1) * nf) = of_int (?k - 1) * nf" using ex [OF kj0] by (simp only: rnd_Fin_iff)
    moreover have "0 < n - 1" if "1 \<le> n" "n \<noteq> 1" for n :: int using that by simp
    then have "0 < ?k - 1" using k1 False by blast
    ultimately show ?thesis using round_div_gt [OF u(1) nf(1) _ _ lt] by blast
  qed
  have ceil: "\<lceil>?q\<rceil> = ?k" using q_le q_gt by (intro ceiling_unique) auto
  have "?q < 2 ^ 1024" "0 \<le> ?q"
  proof -
    have "(of_int ?k :: rat) < of_int (2 ^ 31)" using kb by (simp only: of_int_less_iff)
    also have "\<dots> \<le> 2 ^ 1024" by simp
    finally show "?q < 2 ^ 1024" using q_le by linarith
    show "0 \<le> ?q" using un by (intro round_rat_nonneg) simp
  qed
  then have "rnd (u / nf) = Fin ?q" by (simp add: rnd_Fin_iff)
  moreover have "rnd (of_int ?k * nf) = Fin (of_int ?k * nf)" using kj' by (intro ex) auto
  ultimately show ?thesis using nf(1) ceil k1 kb by simp
qed

lemma fits_exact:
  assumes "round_rat u = u" and "u < 2 ^ 28"
  shows "fits (Fin u) (Fin p) s = exact_fits u p s"
proof -
  obtain nf where nf: "EC2NormalizationFactor s = Fin nf" using factor_Fin by blast
  show ?thesis
  proof (cases "0 < nf \<and> nf \<le> u")
    case True
    with float_quotient_ceil [OF nf _ _ assms] nf show ?thesis by (simp add: fits_def exact_fits_def del: fdiv.simps times_float64.simps)
  next
    case False
    with nf show ?thesis by (auto simp: fits_def exact_fits_def)
  qed
qed

lemma findBestFit_is_exact:
  assumes "round_rat u = u" and "0 < u" and "u < 2 ^ 28" and "ladder \<noteq> []"
  shows "findBestFit ovf (Fin u) (Fin p) ladder = exact_fit u p ladder"
proof (cases "fit_loop (Fin u) (Fin p) ladder")
  case None
  then have "\<forall>s \<in> set ladder. \<not> exact_fits u p s" using fit_loop_None fits_exact assms by blast
  then have "List.find (exact_fits u p) ladder = None" by (simp add: find_None_iff)
  moreover obtain nf where "EC2NormalizationFactor (last ladder) = Fin nf" using factor_Fin by blast
  ultimately show ?thesis using None assms by (simp add: findBestFit_def exact_fit_def Let_def)
next
  case (Some r)
  then obtain s needed where r: "fit_loop (Fin u) (Fin p) ladder = Some (s, needed)" by (cases r) auto
  from fit_loop_Some [OF r] obtain larger smaller where l: "ladder = larger @ s # smaller" "fits (Fin u) (Fin p) s"
    "needed = float_ceil (fdiv (Fin u) (EC2NormalizationFactor s))" "\<forall>t \<in> set larger. \<not> fits (Fin u) (Fin p) t" by blast
  then have f: "exact_fits u p s" and nf: "\<forall>t \<in> set larger. \<not> exact_fits u p t" using fits_exact assms by auto
  obtain n where n: "EC2NormalizationFactor s = Fin n" using factor_Fin by blast
  have "List.find (exact_fits u p) larger = None" using nf by (simp add: find_None_iff)
  then have "List.find (exact_fits u p) ladder = Some s" using f unfolding l(1) by (induction larger) (auto split: if_splits)
  moreover have "needed = Fin (of_int \<lceil>u / n\<rceil>)" and "1 \<le> \<lceil>u / n\<rceil>" "\<lceil>u / n\<rceil> < 2 ^ 31"
    using float_quotient_ceil [OF n _ _ assms(1,3)] f n l(3) by (auto simp: exact_fits_def)
  ultimately show ?thesis using r assms n by (simp add: findBestFit_def exact_fit_def Let_def)
qed

text \<open>C31. The size search is exact. On a usage that is a float below \<open>2^28\<close> normalized units, the
  search over floats, with its rounded quotients and its conversion to \<open>int32\<close>, returns the same
  size and count as the same search over the rationals with unbounded integers: no rounding
  error ever drops a size that fits, lets one that does not fit pass, or changes a count.
\<close>

theorem findBestFit_exact:
  assumes "round_rat u = u" and "0 < u" and "u < 2 ^ 28" and "ladder \<noteq> []"
  shows "findBestFit ovf (Fin u) (Fin p) ladder = exact_fit u p ladder"
  using assms by (rule findBestFit_is_exact)

theorem findBestFit_exact_witness:
  "findBestFit (\<lambda>x. 0) (Fin 5) (Fin 7) [''large'', ''medium'', ''small''] = (''medium'', 3)"
proof -
  have "round_rat 5 = 5" using round_rat_of_int [of 5] by simp
  with findBestFit_exact [of 5 "[''large'', ''medium'', ''small'']" "\<lambda>x. 0" 7]
  have "findBestFit (\<lambda>x. 0) (Fin 5) (Fin 7) [''large'', ''medium'', ''small''] = exact_fit 5 7 [''large'', ''medium'', ''small'']"
    by simp
  also have "\<dots> = (''medium'', 3)" by code_simp
  finally show ?thesis .
qed

section \<open>Sound recommendations\<close>

lemma times_Fin_round: "x * y = Fin u \<Longrightarrow> round_rat u = u"
  by (cases x; cases y) (auto dest: rnd_Fin_round split: if_splits)

text \<open>Why an RI is analysed at all.\<close>

definition under_used :: "UtilizationInfo list \<Rightarrow> float64 \<Rightarrow> RIInfo \<Rightarrow> bool" where
  "under_used us threshold ri \<longleftrightarrow> equal_fold (OfferingClass ri) ''convertible''
     \<and> (case util_map us (ri_ID ri) of None \<Rightarrow> False | Some util \<Rightarrow> \<not> threshold \<le> util)"

lemma reshape_target_Some:
  assumes "reshape_target ovf ri util family used (Fin p) ladder = Some rec"
    and "round_rat p = p" and p: "p < 2 ^ 29" and u: "\<And>u. used = Fin u \<Longrightarrow> round_rat u = u"
  shows "\<exists>s u. used = Fin u \<and> s \<in> set ladder \<and> TargetInstanceType rec = family @ ''.'' @ s \<and> 0 < u
    \<and> minimal_cover u p s (TargetCount rec) \<and> \<not> minimal_cover p p s (TargetCount rec)
    \<and> NormalizedUsed rec = used \<and> NormalizedPurchased rec = Fin p"
proof -
  obtain s n where f: "findBestFit ovf used (Fin p) ladder = (s, n)" by (cases "findBestFit ovf used (Fin p) ladder")
  with assms(1) have s: "s \<noteq> []" and free: "\<not> Fin p \<le> Fin (of_int n) * EC2NormalizationFactor s"
    and r: "TargetInstanceType rec = family @ ''.'' @ s" "TargetCount rec = n" "NormalizedUsed rec = used" "NormalizedPurchased rec = Fin p"
    by (auto simp: reshape_target_def split: if_splits)
  obtain u where uu: "used = Fin u" using findBestFit_not_finite [OF f s] by blast
  from findBestFit_sound [OF f [unfolded uu] s u [OF uu] p]
  have c: "s \<in> set ladder" "0 < u" "minimal_cover u p s n" by auto
  have "\<not> minimal_cover p p s n"
  proof
    assume m: "minimal_cover p p s n"
    then obtain nf where nf: "EC2NormalizationFactor s = Fin nf" "p = of_int n * nf" by (auto simp: minimal_cover_def)
    then have "rnd (of_int n * nf) = Fin p \<or> rnd (of_int n * nf) = PInf \<or> rnd (of_int n * nf) = NInf"
      using assms(2) by (simp add: rnd_def Let_def)
    moreover have "Fin 0 \<le> rnd (of_int n * nf)" using m nf by (intro rnd_nonneg) (auto simp: minimal_cover_def)
    ultimately show False using free nf by auto
  qed
  with c r uu show ?thesis by blast
qed

lemma not_minimal_strict: "minimal_cover u p s n \<Longrightarrow> \<not> minimal_cover p p s n \<Longrightarrow> u \<le> p \<Longrightarrow>
    \<exists>nf. EC2NormalizationFactor s = Fin nf \<and> of_int n * nf < p"
  by (auto simp: minimal_cover_def)

text \<open>C32. A recommended exchange covers the usage and frees capacity. Each recommendation with a target
  comes from a convertible RI whose known utilisation is not at or above the threshold; its
  target is a size of the ladder of the RI's own family; and, in exact arithmetic, the target
  count covers the used normalized units, one instance fewer would not, and the target is
  strictly smaller than what the RI owns. (For purchases below \<open>2^29\<close> units.)
\<close>

theorem reshape_covers_and_frees:
  assumes "rec \<in> set (AnalyzeReshaping ovf ris us threshold cfg)" and "TargetInstanceType rec \<noteq> []"
    and "NormalizedPurchased rec = Fin p" and "p < 2 ^ 29"
  shows "\<exists>ri \<in> set ris. \<exists>ladder s u nf. under_used us threshold ri \<and> SourceRIID rec = ri_ID ri
    \<and> ladderFor cfg (fst (parseInstanceType (ri_InstanceType ri))) = Some ladder \<and> s \<in> set ladder
    \<and> TargetInstanceType rec = fst (parseInstanceType (ri_InstanceType ri)) @ ''.'' @ s
    \<and> NormalizedUsed rec = Fin u \<and> EC2NormalizationFactor s = Fin nf \<and> 0 < nf \<and> 1 \<le> TargetCount rec
    \<and> u \<le> of_int (TargetCount rec) * nf \<and> of_int (TargetCount rec - 1) * nf < u
    \<and> of_int (TargetCount rec) * nf < p"
proof -
  obtain ri where ri: "ri \<in> set ris" and an: "analyzeRI ovf ri (util_map us) threshold cfg = Some rec"
    using assms(1) by (auto simp: AnalyzeReshaping_def List.map_filter_def)
  obtain util where elig: "equal_fold (OfferingClass ri) ''convertible''" "util_map us (ri_ID ri) = Some util" "\<not> threshold \<le> util"
    using an by (auto simp: analyzeRI_def split: if_splits option.splits)
  obtain family sz where ps: "parseInstanceType (ri_InstanceType ri) = (family, sz)" by (cases "parseInstanceType (ri_InstanceType ri)")
  let ?P = "resolveNormFactor ri sz * Fin (of_int (InstanceCount ri))"
  let ?U = "?P * fdiv util (Fin 100)"
  obtain ladder where l: "ladderFor cfg family = Some ladder"
    and t: "reshape_target ovf ri util family ?U ?P ladder = Some rec"
    using an assms(2) elig ps by (auto simp: analyzeRI_def Let_def no_target_def split: if_splits option.splits)
  have src: "SourceRIID rec = ri_ID ri" "NormalizedPurchased rec = ?P"
    using t by (auto simp: reshape_target_def split: prod.splits if_splits)
  then have P: "?P = Fin p" using assms(3) by simp
  have "round_rat p = p" using P times_Fin_round by blast
  from reshape_target_Some [OF t [unfolded P] this assms(4)] P times_Fin_round obtain s u where
    su: "?U = Fin u" "s \<in> set ladder" "TargetInstanceType rec = family @ ''.'' @ s"
      "minimal_cover u p s (TargetCount rec)" "\<not> minimal_cover p p s (TargetCount rec)" "NormalizedUsed rec = Fin u" by metis
  then obtain nf where nf: "EC2NormalizationFactor s = Fin nf" "0 < nf" "1 \<le> TargetCount rec" "u \<le> of_int (TargetCount rec) * nf"
    "of_int (TargetCount rec - 1) * nf < u" "of_int (TargetCount rec) * nf \<le> p" by (auto simp: minimal_cover_def)
  have "of_int (TargetCount rec) * nf \<noteq> p" using su(5) nf by (auto simp: minimal_cover_def)
  with nf(6) have "of_int (TargetCount rec) * nf < p" by simp
  with ri elig src l su nf ps show ?thesis by (intro bexI [OF _ ri]) (auto simp: under_used_def)
qed

definition demo_ri :: RIInfo where
  "demo_ri = \<lparr>ri_ID = ''ri-1'', ri_InstanceType = ''m5.xlarge'', OfferingClass = ''Convertible'', ri_CurrencyCode = ''USD'',
     ri_NormalizationFactor = Fin 8, MonthlyCost = Fin 100, ri_TermSeconds = 31536000, InstanceCount = 4\<rparr>"

definition demo_util :: "UtilizationInfo list" where
  "demo_util = [\<lparr>RIID = ''ri-1'', u_UtilizationPercent = Fin 50\<rparr>]"

lemma demo_parts:
  "equal_fold ''Convertible'' ''convertible''" "parseInstanceType ''m5.xlarge'' = (''m5'', ''xlarge'')"
  "util_map demo_util ''ri-1'' = Some (Fin 50)"
  by code_simp+

lemma demo_fit: "findBestFit ovf (Fin 16) (Fin 32) legacySizeLadder = (''2xlarge'', 1)"
proof -
  have "round_rat 16 = 16" using round_rat_of_int [of 16] by simp
  then have "findBestFit ovf (Fin 16) (Fin 32) legacySizeLadder = exact_fit 16 32 legacySizeLadder"
    using findBestFit_is_exact [of 16 legacySizeLadder ovf 32] by (simp add: legacySizeLadder_def sizeOrder_def)
  also have "\<dots> = (''2xlarge'', 1)" by code_simp
  finally show ?thesis .
qed

lemma demo_reshape:
  "map (\<lambda>r. (TargetInstanceType r, TargetCount r, NormalizedPurchased r))
     (AnalyzeReshaping ovf [demo_ri] demo_util (Fin 80) None) = [(''m5.2xlarge'', 1, Fin 32)]"
  using demo_parts
  by (simp add: AnalyzeReshaping_def List.map_filter_def analyzeRI_def demo_ri_def resolveNormFactor_def ladderFor_def
      reshape_target_def demo_fit EC2NormalizationFactor_def ec2NormalizationFactors_def Let_def)

theorem reshape_covers_and_frees_witness:
  "\<exists>rec \<in> set (AnalyzeReshaping (\<lambda>x. 0) [demo_ri] demo_util (Fin 80) None).
     \<exists>u nf. NormalizedUsed rec = Fin u \<and> u \<le> of_int (TargetCount rec) * nf \<and> of_int (TargetCount rec) * nf < 32"
proof -
  obtain r where r: "r \<in> set (AnalyzeReshaping (\<lambda>x. 0) [demo_ri] demo_util (Fin 80) None)"
    and "TargetInstanceType r = ''m5.2xlarge''" "NormalizedPurchased r = Fin 32"
    using demo_reshape [of "\<lambda>x. 0"] by auto
  with reshape_covers_and_frees [of r "\<lambda>x. 0" "[demo_ri]" demo_util "Fin 80" None 32] show ?thesis by auto
qed

lemma known_offering_Some:
  assumes "known_offering it = Some (f, s)" shows "it = f @ ''.'' @ s"
proof -
  have "parseInstanceType it = (f, s)" "f \<noteq> []" using assms by (auto simp: known_offering_def split: if_splits prod.splits)
  then obtain a b where "cut_at (CHR ''.'') it = Some (f, s)"
    by (auto simp: parseInstanceType_def split: option.splits)
  then show ?thesis by (auto dest: cut_at_Some)
qed

lemma indexOffered_mem:
  assumes "map_of (indexOfferedSizes types) f = Some ladder" and "s \<in> set ladder"
  shows "f @ ''.'' @ s \<in> set types"
proof -
  have "(f, ladder) \<in> set (indexOfferedSizes types)" using assms(1) by (rule map_of_SomeD)
  then have "s \<in> set (map snd (filter (\<lambda>p. fst p = f) (List.map_filter known_offering types)))"
    using assms(2) by (auto simp: indexOfferedSizes_def Let_def)
  then have "(f, s) \<in> set (List.map_filter known_offering types)" by auto
  then obtain it where "it \<in> set types" "known_offering it = Some (f, s)" by (auto simp: List.map_filter_def)
  then show ?thesis using known_offering_Some by simp
qed

lemma findBestFit_mem: "findBestFit ovf x y ladder = (s, n) \<Longrightarrow> s \<noteq> [] \<Longrightarrow> s \<in> set ladder"
proof -
  have loop: "fit_loop x y l = Some (a, b) \<Longrightarrow> a \<in> set l" for l a b
    by (induction l) (auto simp: Let_def split: if_splits)
  show "findBestFit ovf x y ladder = (s, n) \<Longrightarrow> s \<noteq> [] \<Longrightarrow> s \<in> set ladder"
    by (auto simp: findBestFit_def Let_def split: if_splits option.splits dest: loop)
qed

text \<open>With a catalog of offered instance types, only offered types are recommended, whatever the
  size ladder: the target of every recommendation is an entry of the catalog, and an RI whose
  family the catalog lacks gets none.
\<close>

theorem reshape_targets_offered:
  assumes "rec \<in> set (AnalyzeReshaping ovf ris us threshold (WithOfferedInstanceTypes types))"
    and "types \<noteq> []" and "TargetInstanceType rec \<noteq> []"
  shows "TargetInstanceType rec \<in> set types"
proof -
  have cfg: "WithOfferedInstanceTypes types = Some (indexOfferedSizes types)" using assms(2) by (simp add: WithOfferedInstanceTypes_def)
  obtain ri where an: "analyzeRI ovf ri (util_map us) threshold (Some (indexOfferedSizes types)) = Some rec"
    using assms(1) by (auto simp: AnalyzeReshaping_def List.map_filter_def cfg)
  then obtain util family used purchased ladder where l: "map_of (indexOfferedSizes types) family = Some ladder"
    and t: "reshape_target ovf ri util family used purchased ladder = Some rec"
    using assms(3) by (auto simp: analyzeRI_def Let_def no_target_def ladderFor_def split: if_splits option.splits prod.splits)
  obtain s n where f: "findBestFit ovf used purchased ladder = (s, n)" by (cases "findBestFit ovf used purchased ladder")
  with t have "s \<noteq> []" "TargetInstanceType rec = family @ ''.'' @ s" by (auto simp: reshape_target_def split: if_splits)
  with findBestFit_mem [OF f] indexOffered_mem [OF l] show ?thesis by simp
qed

theorem reshape_targets_offered_witness:
  "''m5.large'' \<in> set [''m5.metal'', ''m5.large'', ''c5.large'']"
proof -
  let ?types = "[''m5.metal'', ''m5.large'', ''c5.large'']"
  have idx: "map_of (indexOfferedSizes ?types) ''m5'' = Some [''large'']" by code_simp
  have "round_rat 16 = 16" using round_rat_of_int [of 16] by simp
  then have "findBestFit (\<lambda>x. 0) (Fin 16) (Fin 32) [''large''] = exact_fit 16 32 [''large'']"
    using findBestFit_is_exact [of 16 "[''large'']" "\<lambda>x. 0" 32] by simp
  also have "\<dots> = (''large'', 4)" by code_simp
  finally have fit: "findBestFit (\<lambda>x. 0) (Fin 16) (Fin 32) [''large''] = (''large'', 4)" .
  have "map TargetInstanceType (AnalyzeReshaping (\<lambda>x. 0) [demo_ri] demo_util (Fin 80) (WithOfferedInstanceTypes ?types)) = [''m5.large'']"
    using demo_parts idx
    by (simp add: AnalyzeReshaping_def List.map_filter_def analyzeRI_def demo_ri_def resolveNormFactor_def ladderFor_def
        reshape_target_def fit WithOfferedInstanceTypes_def EC2NormalizationFactor_def ec2NormalizationFactors_def Let_def)
  then obtain r where "r \<in> set (AnalyzeReshaping (\<lambda>x. 0) [demo_ri] demo_util (Fin 80) (WithOfferedInstanceTypes ?types))"
    and "TargetInstanceType r = ''m5.large''" by (auto simp: Cons_eq_map_conv)
  with reshape_targets_offered [of r] show ?thesis by fastforce
qed

section \<open>Alternatives never change the primary recommendation\<close>

lemma analyzeRI_fields:
  "analyzeRI ovf ri um threshold cfg = Some rec \<Longrightarrow>
     AlternativeTargets rec = [] \<and> SourceRIID rec = ri_ID ri \<and> SourceInstanceType rec = ri_InstanceType ri"
  by (auto simp: analyzeRI_def no_target_def reshape_target_def Let_def split: if_splits option.splits prod.splits)

lemma AnalyzeReshaping_fields:
  "rec \<in> set (AnalyzeReshaping ovf ris us threshold cfg) \<Longrightarrow>
     AlternativeTargets rec = [] \<and> (\<exists>ri \<in> set ris. SourceRIID rec = ri_ID ri \<and> SourceInstanceType rec = ri_InstanceType ri)"
  using analyzeRI_fields by (fastforce simp: AnalyzeReshaping_def List.map_filter_def)

lemma fill_one_clear: "AlternativeTargets rec = [] \<Longrightarrow> (fill_one offs m rec)\<lparr>AlternativeTargets := []\<rparr> = rec"
  by (cases rec) (simp add: fill_one_def Let_def)

text \<open>The enriched analysis recommends exactly what the base analysis recommends: with the
  alternatives removed, the two results are the same list. The automated exchange, which uses the
  base analysis, and the screen that shows alternatives therefore act on the same targets.
\<close>

theorem withRecs_same_targets:
  "map (\<lambda>r. r\<lparr>AlternativeTargets := []\<rparr>) (AnalyzeReshapingWithRecs ovf ris us threshold region cur lookup cfg)
     = AnalyzeReshaping ovf ris us threshold cfg"
proof -
  let ?recs = "AnalyzeReshaping ovf ris us threshold cfg"
  have e: "\<And>r. r \<in> set ?recs \<Longrightarrow> AlternativeTargets r = []" using AnalyzeReshaping_fields by blast
  have "map (\<lambda>r. r\<lparr>AlternativeTargets := []\<rparr>) ?recs = ?recs"
    by (rule map_idI) (use e in \<open>metis ReshapeRecommendation.surjective ReshapeRecommendation.update_convs(5)\<close>)
  moreover have "map (\<lambda>r. r\<lparr>AlternativeTargets := []\<rparr>) (fillAlternativesFromRecs ?recs offs m) = ?recs" for offs m
    unfolding fillAlternativesFromRecs_def map_map by (rule map_idI) (simp add: e fill_one_clear)
  ultimately show ?thesis
    by (simp add: AnalyzeReshapingWithRecs_def Let_def split: option.splits sum.splits)
qed

lemma fill_one_alternative:
  assumes "off \<in> set (AlternativeTargets (fill_one offs m rec))"
  shows "off \<in> set offs \<and> alternativeIsEligible rec off (case m (SourceRIID rec) of None \<Rightarrow> zero_RIInfo | Some r \<Rightarrow> r)
    (m (SourceRIID rec) \<noteq> None) (fst (parseInstanceType (SourceInstanceType rec)))"
  using assms by (auto simp: fill_one_def Let_def)

lemma ris_by_id_Some:
  assumes "ri \<in> set ris" and "ri_ID ri = k"
  shows "\<exists>src \<in> set ris. ris_by_id ris k = Some src \<and> ri_ID src = k"
proof -
  have "k \<in> set (map fst (rev (map (\<lambda>r. (ri_ID r, r)) ris)))" using assms by force
  then have "ris_by_id ris k \<noteq> None" unfolding ris_by_id_def by (simp add: map_of_eq_None_iff)
  then obtain src where s: "ris_by_id ris k = Some src" by blast
  then have "(k, src) \<in> set (map (\<lambda>r. (ri_ID r, r)) ris)"
    unfolding ris_by_id_def by (metis map_of_SomeD set_rev)
  with s show ?thesis by auto
qed

text \<open>Every alternative shown is one an exchange could take: it is an offering the lookup
  returned for this region and currency, its family parses and differs from the source family,
  it is not the primary target, its term equals the source term when both are known, and it
  passes the value check against the source price when that price is known.
\<close>

theorem alternatives_sound:
  assumes "rec \<in> set (AnalyzeReshapingWithRecs ovf ris us threshold region cur lookup cfg)"
    and "off \<in> set (AlternativeTargets rec)"
  shows "\<exists>f offs src. lookup = Some f \<and> f region cur = Inr offs \<and> off \<in> set offs \<and> src \<in> set ris \<and> ri_ID src = SourceRIID rec
    \<and> (let fam = fst (parseInstanceType (off_InstanceType off)) in
        fam \<noteq> [] \<and> \<not> equal_fold fam (fst (parseInstanceType (SourceInstanceType rec))))
    \<and> off_InstanceType off \<noteq> TargetInstanceType rec
    \<and> (0 < ri_TermSeconds src \<and> 0 < off_TermSeconds off \<longrightarrow> off_TermSeconds off = ri_TermSeconds src)
    \<and> (\<not> MonthlyCost src \<le> 0 \<and> \<not> ri_NormalizationFactor src \<le> 0 \<longrightarrow>
        (ri_CurrencyCode src = [] \<or> off_CurrencyCode off = [] \<or> ri_CurrencyCode src = off_CurrencyCode off)
        \<and> ri_NormalizationFactor src * MonthlyCost src \<le> off_NormalizationFactor off * EffectiveMonthlyCost off)"
proof -
  let ?recs = "AnalyzeReshaping ovf ris us threshold cfg"
  have none: "r \<in> set ?recs \<Longrightarrow> AlternativeTargets r = []" for r using AnalyzeReshaping_fields by blast
  from assms none obtain f offs base where f: "lookup = Some f" "f region cur = Inr offs"
    and base: "base \<in> set ?recs" "rec = fill_one offs (ris_by_id ris) base"
    by (auto simp: AnalyzeReshapingWithRecs_def fillAlternativesFromRecs_def Let_def split: option.splits sum.splits if_splits)
  obtain ri where ri: "ri \<in> set ris" "ri_ID ri = SourceRIID base" using AnalyzeReshaping_fields [OF base(1)] by auto
  obtain src where src: "src \<in> set ris" "ris_by_id ris (SourceRIID base) = Some src" "ri_ID src = SourceRIID base"
    using ris_by_id_Some [OF ri] by blast
  have same: "SourceRIID rec = SourceRIID base" "SourceInstanceType rec = SourceInstanceType base"
    "TargetInstanceType rec = TargetInstanceType base" by (simp_all add: base(2) fill_one_def Let_def)
  have el: "off \<in> set offs" "alternativeIsEligible base off src True (fst (parseInstanceType (SourceInstanceType base)))"
    using fill_one_alternative [OF assms(2) [unfolded base(2)]] src(2) by auto
  then show ?thesis using f src same
    by (intro exI [of _ f] exI [of _ offs] exI [of _ src])
      (auto simp: alternativeIsEligible_def isCrossFamilyAlternative_def termMatchesIfKnown_def pricingGatePasses_def
        passesDollarUnitsCheck_def Let_def split: if_splits)
qed

definition demo_off :: OfferingOption where
  "demo_off = \<lparr>SavingsAbs = None, off_InstanceType = ''c5.2xlarge'', off_OfferingID = ''o'', off_CurrencyCode = ''USD'',
     EffectiveMonthlyCost = Fin 90, off_NormalizationFactor = Fin 16, off_TermSeconds = 31536000, RecommendationCount = 0\<rparr>"

lemma demo_alternative:
  "map AlternativeTargets (AnalyzeReshapingWithRecs ovf [demo_ri] demo_util (Fin 80) ''eu'' ''USD'' (Some (\<lambda>r c. Inr [demo_off])) None)
     = [[demo_off]]"
proof -
  let ?R = "AnalyzeReshaping ovf [demo_ri] demo_util (Fin 80) None"
  obtain r where r: "?R = [r]" "TargetInstanceType r = ''m5.2xlarge''"
    using demo_reshape [of ovf] by (auto simp: Cons_eq_map_conv)
  then have src: "SourceRIID r = ''ri-1''" "SourceInstanceType r = ''m5.xlarge''"
    using AnalyzeReshaping_fields [of r ovf "[demo_ri]" demo_util "Fin 80" None] by (auto simp: demo_ri_def)
  have c5: "parseInstanceType ''c5.2xlarge'' = (''c5'', ''2xlarge'')" "\<not> equal_fold ''c5'' ''m5''" by code_simp+
  have by_id: "ris_by_id [demo_ri] ''ri-1'' = Some demo_ri" by (simp add: ris_by_id_def demo_ri_def)
  have el: "alternativeIsEligible r demo_off demo_ri True ''m5''"
    using r(2) c5 by (simp add: alternativeIsEligible_def isCrossFamilyAlternative_def termMatchesIfKnown_def pricingGatePasses_def
        passesDollarUnitsCheck_def demo_off_def demo_ri_def)
  have "fst (parseInstanceType ''m5.xlarge'') = ''m5''" using demo_parts by simp
  with r(1) src by_id el show ?thesis
    by (simp add: AnalyzeReshapingWithRecs_def fillAlternativesFromRecs_def fill_one_def Let_def sort_stable_def)
qed

theorem alternatives_sound_witness:
  "\<exists>rec :: ReshapeRecommendation. demo_off \<in> set (AlternativeTargets rec) \<and> off_InstanceType demo_off \<noteq> TargetInstanceType rec"
proof -
  let ?W = "AnalyzeReshapingWithRecs (\<lambda>x. 0) [demo_ri] demo_util (Fin 80) ''eu'' ''USD'' (Some (\<lambda>r c. Inr [demo_off])) None"
  obtain r where r: "r \<in> set ?W" "demo_off \<in> set (AlternativeTargets r)"
    using demo_alternative [of "\<lambda>x. 0"] by (auto simp: Cons_eq_map_conv)
  from alternatives_sound [OF r] have "off_InstanceType demo_off \<noteq> TargetInstanceType r" by (elim exE conjE)
  with r(2) show ?thesis by blast
qed

text \<open>
  The proximity score of an offering with half the capacity of the source is one half, not the
  zero the comment on \<open>nfProximityComponent\<close> states (twice the capacity does score zero).
\<close>

lemma nfProximity_half:
  "nfProximityComponent (demo_off\<lparr>off_NormalizationFactor := Fin 4\<rparr>) demo_ri = Fin (1 / 2)"
  "nfProximityComponent (demo_off\<lparr>off_NormalizationFactor := Fin 16\<rparr>) demo_ri = Fin 0"
proof -
  have "rnd (- (1 / 2)) = Fin (- (1 / 2))" using rnd_div_pow2 [of "- 1" 1] by simp
  then show "nfProximityComponent (demo_off\<lparr>off_NormalizationFactor := Fin 4\<rparr>) demo_ri = Fin (1 / 2)"
    and "nfProximityComponent (demo_off\<lparr>off_NormalizationFactor := Fin 16\<rparr>) demo_ri = Fin 0"
    by (simp_all add: nfProximityComponent_def demo_off_def demo_ri_def Let_def minus_float64_def)
qed

end
