(* ===== verification/Exchange_Auto.thy ===== *)
theory Exchange_Auto
  imports Exchange_Quote Exchange_Reshape
begin

text \<open>
  \<open>pkg/exchange/auto.go\<close>: the automated exchange run. The store, the exchange client, the
  offering lookup, the random source and the clock are interfaces: a record of functions on an
  abstract world, each call recorded in the trace of the run. The lemmas show that the trace is
  accepted by a protocol automaton, from which the safety properties of the run follow.
\<close>

section \<open>Records\<close>

record ExchangeRecord =
  er_CreatedAt :: go_time
  er_UpdatedAt :: go_time
  er_LadderRunID :: "go_string option"
  er_CompletedAt :: "go_time option"
  er_ExpiresAt :: "go_time option"
  er_ID :: go_string
  er_AccountID :: go_string
  er_ExchangeID :: go_string
  er_Region :: go_string
  er_SourceInstanceType :: go_string
  er_TargetOfferingID :: go_string
  er_TargetInstanceType :: go_string
  er_PaymentDue :: go_string
  er_Status :: go_string
  er_ApprovalToken :: go_string
  er_Error :: go_string
  er_Mode :: go_string
  er_SourceRIIDs :: "go_string list"
  er_SourceCount :: int
  er_TargetCount :: int

record RIExchangeConfig =
  xc_Mode :: go_string
  UtilizationThreshold :: float64
  MaxPaymentPerExchangeUSD :: float64
  MaxPaymentDailyUSD :: float64
  xc_LookbackDays :: int

record LookupOfferingParams =
  lp_InstanceType :: go_string
  lp_ProductDescription :: go_string
  lp_Tenancy :: go_string
  lp_Scope :: go_string
  lp_AvailabilityZone :: go_string
  lp_OfferingType :: go_string
  lp_Duration :: int

record RIMetadataInfo =
  rm_ProductDescription :: go_string
  rm_InstanceTenancy :: go_string
  rm_Scope :: go_string
  rm_AvailabilityZone :: go_string
  rm_OfferingType :: go_string
  rm_Duration :: int

record RunAutoExchangeParams =
  RIMetadata :: "go_string \<Rightarrow> RIMetadataInfo option"
  LadderRunID :: "go_string option"
  ap_AccountID :: go_string
  ap_Region :: go_string
  RIs :: "RIInfo list"
  Utilization :: "UtilizationInfo list"
  OfferedInstanceTypes :: "go_string list"
  Config :: RIExchangeConfig
  DryRun :: bool

record ExchangeOutcome =
  oc_RecordID :: go_string
  oc_ApprovalToken :: go_string
  oc_SourceRIID :: go_string
  oc_SourceInstanceType :: go_string
  oc_TargetInstanceType :: go_string
  oc_TargetOfferingID :: go_string
  oc_PaymentDue :: go_string
  oc_ExchangeID :: go_string
  oc_Error :: go_string
  oc_UtilizationPct :: float64
  oc_TargetCount :: int
  OutcomeUnknown :: bool
  Simulated :: bool

record SkippedRecommendation =
  sk_SourceRIID :: go_string
  sk_SourceInstanceType :: go_string
  sk_Reason :: go_string

record AutoExchangeResult =
  res_Mode :: go_string
  Completed :: "ExchangeOutcome list"
  Pending :: "ExchangeOutcome list"
  Failed :: "ExchangeOutcome list"
  Skipped :: "SkippedRecommendation list"

definition ExchangeModeAuto :: go_string where "ExchangeModeAuto = ''auto''"
definition ExchangeModeManual :: go_string where "ExchangeModeManual = ''manual''"
definition ExchangeOriginStandalone :: go_string where "ExchangeOriginStandalone = ''standalone-ri-exchange''"
definition ExchangeOriginLadder :: go_string where "ExchangeOriginLadder = ''cudly-ladder''"

section \<open>The interfaces and their calls\<close>

text \<open>
  \<open>SaveRIExchangeRecord\<close> and \<open>ReserveRIExchange\<close> receive a pointer and may set the record's
  ID: their second result is the ID afterwards.
\<close>

record 'w auto_env =
  CancelPendingExchangesByOrigin :: "go_string \<Rightarrow> 'w \<Rightarrow> (go_error + int) \<times> 'w"
  GetStaleProcessingExchanges :: "int \<Rightarrow> 'w \<Rightarrow> (go_error + ExchangeRecord list) \<times> 'w"
  SaveRIExchangeRecord :: "ExchangeRecord \<Rightarrow> 'w \<Rightarrow> (go_error option \<times> go_string) \<times> 'w"
  ReserveRIExchange :: "ExchangeRecord \<Rightarrow> go_string \<Rightarrow> go_string \<Rightarrow> 'w \<Rightarrow> ((go_error + go_string) \<times> go_string) \<times> 'w"
  CompleteRIExchangeWithPayment :: "go_string \<Rightarrow> go_string \<Rightarrow> go_string \<Rightarrow> 'w \<Rightarrow> go_error option \<times> 'w"
  FailRIExchange :: "go_string \<Rightarrow> go_string \<Rightarrow> 'w \<Rightarrow> go_error option \<times> 'w"
  ClientGetQuote :: "ExchangeQuoteRequest \<Rightarrow> 'w \<Rightarrow> (go_error + ExchangeQuoteSummary) \<times> 'w"
  ClientExecute :: "ExchangeExecuteRequest \<Rightarrow> 'w \<Rightarrow> exec_result \<times> 'w"
  LookupOffering :: "LookupOfferingParams \<Rightarrow> 'w \<Rightarrow> (go_error + go_string) \<times> 'w"
  GenerateApprovalToken :: "'w \<Rightarrow> (go_error + go_string) \<times> 'w"
  TimeNow :: "'w \<Rightarrow> go_time \<times> 'w"

datatype auto_event =
    EvCancel go_string "go_error + int"
  | EvStale "go_error + ExchangeRecord list"
  | EvLookup LookupOfferingParams "go_error + go_string"
  | EvQuote ExchangeQuoteRequest "go_error + ExchangeQuoteSummary"
  | EvToken "go_error + go_string"
  | EvNow go_time
  | EvSave ExchangeRecord "go_error option \<times> go_string"
  | EvReserve ExchangeRecord go_string go_string "(go_error + go_string) \<times> go_string"
  | EvExecute ExchangeExecuteRequest exec_result
  | EvComplete go_string go_string go_string "go_error option"
  | EvFail go_string go_string "go_error option"

record 'w auto_state =
  auto_world :: 'w
  auto_events :: "auto_event list"

text \<open>A call: run the function of the interface on the world and record the event.\<close>

definition auto_call :: "('w \<Rightarrow> 'r \<times> 'w) \<Rightarrow> ('r \<Rightarrow> auto_event) \<Rightarrow> 'w auto_state \<Rightarrow> 'r \<times> 'w auto_state" where
  "auto_call f ev s = (case f (auto_world s) of (r, w) \<Rightarrow> (r, \<lparr>auto_world = w, auto_events = auto_events s @ [ev r]\<rparr>))"

section \<open>Guards\<close>

definition staleProcessingThreshold :: int where
  "staleProcessingThreshold = 15 * 60 * 1000000000"

definition validateMode :: "go_string \<Rightarrow> go_error option" where
  "validateMode m = (if m = ExchangeModeAuto \<or> m = ExchangeModeManual then None
     else Some (errorf ''invalid exchange mode %q: must be %q or %q'' [ArgS m, ArgS ExchangeModeAuto, ArgS ExchangeModeManual]))"

definition cancelStalePending :: "'w auto_env \<Rightarrow> RunAutoExchangeParams \<Rightarrow> 'w auto_state \<Rightarrow> go_error option \<times> 'w auto_state" where
  "cancelStalePending env params s =
    (if DryRun params then (None, s)
     else
       let origin = (if LadderRunID params \<noteq> None then ExchangeOriginLadder else ExchangeOriginStandalone)
       in case auto_call (CancelPendingExchangesByOrigin env origin) (EvCancel origin) s of
         (Inl e, s') \<Rightarrow> (Some (wrapf ''cancel stale pending exchanges (origin=%s): %w'' [ArgS origin, ArgS (err_text e)] [e]), s')
       | (Inr canceled, s') \<Rightarrow> (None, s'))"

definition skip_rec :: "ReshapeRecommendation \<Rightarrow> go_string \<Rightarrow> SkippedRecommendation" where
  "skip_rec rec reason = \<lparr>sk_SourceRIID = SourceRIID rec, sk_SourceInstanceType = SourceInstanceType rec, sk_Reason = reason\<rparr>"

definition resolveOffering :: "'w auto_env \<Rightarrow> RunAutoExchangeParams \<Rightarrow> ReshapeRecommendation \<Rightarrow> 'w auto_state
    \<Rightarrow> (SkippedRecommendation + go_string) \<times> 'w auto_state" where
  "resolveOffering env params rec s = (case RIMetadata params (SourceRIID rec) of
     None \<Rightarrow> (Inl (skip_rec rec ''missing RI metadata''), s)
   | Some meta \<Rightarrow>
       let p = \<lparr>lp_InstanceType = TargetInstanceType rec, lp_ProductDescription = rm_ProductDescription meta,
                lp_Tenancy = rm_InstanceTenancy meta, lp_Scope = rm_Scope meta, lp_AvailabilityZone = rm_AvailabilityZone meta,
                lp_OfferingType = rm_OfferingType meta, lp_Duration = rm_Duration meta\<rparr>
       in case auto_call (LookupOffering env p) (EvLookup p) s of
         (Inl e, s') \<Rightarrow> (Inl (skip_rec rec (sprintf ''no matching offering found: %v'' [ArgS (err_text e)])), s')
       | (Inr offeringID, s') \<Rightarrow> (Inr offeringID, s'))"

text \<open>
  The quote check. The cap is \<open>nil\<close> when the configured limit is not a finite number; comparing
  with it dereferences \<open>nil\<close> and panics.
\<close>

datatype quote_check = QuoteOk ExchangeQuoteSummary rat | QuoteSkip SkippedRecommendation | QuotePanic

definition auto_quote_request :: "RunAutoExchangeParams \<Rightarrow> ReshapeRecommendation \<Rightarrow> go_string \<Rightarrow> ExchangeQuoteRequest" where
  "auto_quote_request params rec offeringID = \<lparr>q_Region = ap_Region params, q_ExpectedAccount = [],
     q_TargetOfferingID = offeringID, q_ReservedIDs = [SourceRIID rec], q_Targets = [], q_TargetCount = TargetCount rec,
     q_DryRun = False\<rparr>"

definition check_quote :: "RunAutoExchangeParams \<Rightarrow> ReshapeRecommendation \<Rightarrow> rat option \<Rightarrow> go_error + ExchangeQuoteSummary \<Rightarrow> quote_check" where
  "check_quote params rec perExchangeCap r = (case r of
     Inl e \<Rightarrow> QuoteSkip (skip_rec rec (sprintf ''quote failed: %v'' [ArgS (err_text e)]))
   | Inr quote \<Rightarrow>
       if \<not> IsValidExchange quote
       then QuoteSkip (skip_rec rec (sprintf ''invalid exchange: %s'' [ArgS (ValidationFailureReason quote)]))
       else case requireUSDPaymentDue quote of
         Inl e \<Rightarrow> QuoteSkip (skip_rec rec (sprintf ''cannot enforce the per-exchange cap: %v'' [ArgS (err_text e)]))
       | Inr paymentDue \<Rightarrow> (case perExchangeCap of
           None \<Rightarrow> QuotePanic
         | Some cap \<Rightarrow>
             if paymentDue > cap
             then QuoteSkip (skip_rec rec (sprintf ''exceeds per-exchange cap: payment $%s > cap $%.2f''
               [ArgS (float_string 2 paymentDue), ArgF (MaxPaymentPerExchangeUSD (Config params))]))
             else QuoteOk quote paymentDue))"

definition getValidatedQuote :: "'w auto_env \<Rightarrow> RunAutoExchangeParams \<Rightarrow> ReshapeRecommendation \<Rightarrow> go_string \<Rightarrow> rat option
    \<Rightarrow> 'w auto_state \<Rightarrow> quote_check \<times> 'w auto_state" where
  "getValidatedQuote env params rec offeringID perExchangeCap s =
    (let q = auto_quote_request params rec offeringID in
     case auto_call (ClientGetQuote env q) (EvQuote q) s of (r, s') \<Rightarrow> (check_quote params rec perExchangeCap r, s'))"

section \<open>Records and outcomes\<close>

definition exchange_record :: "RunAutoExchangeParams \<Rightarrow> ReshapeRecommendation \<Rightarrow> go_string \<Rightarrow> go_string \<Rightarrow> go_string \<Rightarrow> go_string
    \<Rightarrow> ExchangeRecord" where
  "exchange_record params rec offeringID payment status mode =
    \<lparr>er_CreatedAt = 0, er_UpdatedAt = 0, er_LadderRunID = LadderRunID params, er_CompletedAt = None, er_ExpiresAt = None,
     er_ID = [], er_AccountID = ap_AccountID params, er_ExchangeID = [], er_Region = ap_Region params,
     er_SourceInstanceType = SourceInstanceType rec, er_TargetOfferingID = offeringID,
     er_TargetInstanceType = TargetInstanceType rec, er_PaymentDue = payment, er_Status = status, er_ApprovalToken = [],
     er_Error = [], er_Mode = mode, er_SourceRIIDs = [SourceRIID rec], er_SourceCount = SourceCount rec,
     er_TargetCount = TargetCount rec\<rparr>"

definition base_outcome :: "ReshapeRecommendation \<Rightarrow> go_string \<Rightarrow> go_string \<Rightarrow> ExchangeOutcome" where
  "base_outcome rec offeringID payment =
    \<lparr>oc_RecordID = [], oc_ApprovalToken = [], oc_SourceRIID = SourceRIID rec, oc_SourceInstanceType = SourceInstanceType rec,
     oc_TargetInstanceType = TargetInstanceType rec, oc_TargetOfferingID = offeringID, oc_PaymentDue = payment,
     oc_ExchangeID = [], oc_Error = [], oc_UtilizationPct = UtilizationPercent rec, oc_TargetCount = TargetCount rec,
     OutcomeUnknown = False, Simulated = False\<rparr>"

definition saveFailedRecord :: "'w auto_env \<Rightarrow> RunAutoExchangeParams \<Rightarrow> ReshapeRecommendation \<Rightarrow> go_string \<Rightarrow> go_string
    \<Rightarrow> go_string \<Rightarrow> go_string \<Rightarrow> 'w auto_state \<Rightarrow> 'w auto_state" where
  "saveFailedRecord env params rec offeringID payment errMsg mode s =
    (let r = (exchange_record params rec offeringID payment ''failed'' mode)\<lparr>er_Error := errMsg\<rparr>
     in snd (auto_call (SaveRIExchangeRecord env r) (EvSave r) s))"

definition processManualExchange :: "'w auto_env \<Rightarrow> RunAutoExchangeParams \<Rightarrow> ReshapeRecommendation \<Rightarrow> go_string \<Rightarrow> go_string
    \<Rightarrow> 'w auto_state \<Rightarrow> ExchangeOutcome \<times> 'w auto_state" where
  "processManualExchange env params rec offeringID payment s =
    (let o0 = base_outcome rec offeringID payment in
     if DryRun params then (o0\<lparr>Simulated := True\<rparr>, s)
     else case auto_call (GenerateApprovalToken env) EvToken s of
       (Inl e, s1) \<Rightarrow>
         let errMsg = sprintf ''failed to generate approval token: %v'' [ArgS (err_text e)]
         in (o0\<lparr>oc_Error := errMsg\<rparr>, saveFailedRecord env params rec offeringID payment errMsg ExchangeModeManual s1)
     | (Inr token, s1) \<Rightarrow> (case auto_call (TimeNow env) EvNow s1 of (now, s2) \<Rightarrow>
         let r = (exchange_record params rec offeringID payment ''pending'' ExchangeModeManual)
               \<lparr>er_ApprovalToken := token, er_ExpiresAt := Some (now + day_ns)\<rparr>
         in case auto_call (SaveRIExchangeRecord env r) (EvSave r) s2 of
           ((Some e, id'), s3) \<Rightarrow> (o0\<lparr>oc_Error := sprintf ''failed to save record: %v'' [ArgS (err_text e)]\<rparr>, s3)
         | ((None, id'), s3) \<Rightarrow> (o0\<lparr>oc_RecordID := id', oc_ApprovalToken := token\<rparr>, s3)))"

section \<open>The ledger\<close>

definition maxLedgerAttempts :: nat where
  "maxLedgerAttempts = 3"

text \<open>The loop of \<open>completeLedgerRecord\<close> with \<open>n\<close> attempts left; it returns the last error.\<close>

fun complete_loop :: "nat \<Rightarrow> go_error option \<Rightarrow> 'w auto_env \<Rightarrow> go_string \<Rightarrow> go_string \<Rightarrow> go_string \<Rightarrow> 'w auto_state
    \<Rightarrow> go_error option \<times> 'w auto_state" where
  "complete_loop 0 err env recordID exchangeID amount s = (err, s)"
| "complete_loop (Suc n) err env recordID exchangeID amount s =
    (case auto_call (CompleteRIExchangeWithPayment env recordID exchangeID amount) (EvComplete recordID exchangeID amount) s of
       (None, s') \<Rightarrow> (None, s')
     | (Some e, s') \<Rightarrow> complete_loop n (Some e) env recordID exchangeID amount s')"

definition completeLedgerRecord :: "'w auto_env \<Rightarrow> go_string \<Rightarrow> go_string \<Rightarrow> go_string \<Rightarrow> 'w auto_state
    \<Rightarrow> go_error option \<times> 'w auto_state" where
  "completeLedgerRecord env recordID exchangeID amount s = complete_loop maxLedgerAttempts None env recordID exchangeID amount s"

definition failLedgerRecord :: "'w auto_env \<Rightarrow> go_string \<Rightarrow> go_string \<Rightarrow> 'w auto_state \<Rightarrow> bool \<times> 'w auto_state" where
  "failLedgerRecord env recordID reason s =
    (case auto_call (FailRIExchange env recordID reason) (EvFail recordID reason) s of (e, s') \<Rightarrow> (e \<noteq> None, s'))"

text \<open>\<open>big.Int.Div\<close> by the positive denominator is the floor.\<close>

definition floorCapUSD :: "rat \<Rightarrow> go_string" where
  "floorCapUSD limit = (case quotient_of limit of (num, denom) \<Rightarrow>
     float_string 6 (of_int (num * 1000000 div denom) / 1000000))"

definition acceptedAmountFromQuote :: "ExchangeQuoteSummary option \<Rightarrow> go_string \<Rightarrow> go_string" where
  "acceptedAmountFromQuote freshQ fallback = (case freshQ of
     None \<Rightarrow> fallback
   | Some q \<Rightarrow> if PaymentDueUSDStr q \<noteq> [] then PaymentDueUSDStr q else fallback)"

section \<open>One recommendation\<close>

text \<open>
  How processing a recommendation ends: go on, halt the run, or panic (a nil cap). \<open>rejected\<close>
  and \<open>settle\<close> are the two ends of \<open>processAutoExchange\<close>.
\<close>

datatype step_end = Continue | Halt | Panic

definition rejected :: "'w auto_env \<Rightarrow> go_string \<Rightarrow> go_error \<Rightarrow> ExchangeOutcome \<Rightarrow> 'w auto_state
    \<Rightarrow> ExchangeOutcome \<times> step_end \<times> 'w auto_state" where
  "rejected env recordID execErr o1 s =
    (let o2 = o1\<lparr>oc_Error := err_text execErr\<rparr> in
     if outcome_unknown execErr then (o2\<lparr>OutcomeUnknown := True\<rparr>, Halt, s)
     else case failLedgerRecord env recordID (err_text execErr) s of
       (failed, s') \<Rightarrow> (o2, if failed then Halt else Continue, s'))"

definition settle :: "'w auto_env \<Rightarrow> go_string \<Rightarrow> go_string \<Rightarrow> ExchangeQuoteSummary option \<Rightarrow> go_string \<Rightarrow> ExchangeOutcome
    \<Rightarrow> 'w auto_state \<Rightarrow> ExchangeOutcome \<times> step_end \<times> 'w auto_state" where
  "settle env recordID exchangeID freshQ payment o1 s =
    (let accepted = acceptedAmountFromQuote freshQ payment;
         o2 = o1\<lparr>oc_ExchangeID := exchangeID, oc_PaymentDue := accepted\<rparr>
     in case completeLedgerRecord env recordID exchangeID accepted s of
       (Some e, s') \<Rightarrow> (o2\<lparr>oc_Error := sprintf ''exchange settlement failed after exchange executed: %v'' [ArgS (err_text e)]\<rparr>, Halt, s')
     | (None, s') \<Rightarrow> (o2, Continue, s'))"

definition auto_execute_request :: "RunAutoExchangeParams \<Rightarrow> ReshapeRecommendation \<Rightarrow> go_string \<Rightarrow> rat \<Rightarrow> ExchangeExecuteRequest" where
  "auto_execute_request params rec offeringID cap = \<lparr>x_MaxPaymentDueUSD = Some cap, x_Region = ap_Region params,
     x_ExpectedAccount = [], x_TargetOfferingID = offeringID, x_ReservedIDs = [SourceRIID rec], x_Targets = [],
     x_TargetCount = TargetCount rec\<rparr>"

definition after_reserve :: "'w auto_env \<Rightarrow> RunAutoExchangeParams \<Rightarrow> ReshapeRecommendation \<Rightarrow> go_string \<Rightarrow> go_string
    \<Rightarrow> go_string \<Rightarrow> go_string \<Rightarrow> ExchangeOutcome \<Rightarrow> 'w auto_state \<Rightarrow> ExchangeOutcome \<times> step_end \<times> 'w auto_state" where
  "after_reserve env params rec offeringID payment recordID reservedUSD o1 s =
    (if recordID = [] then (o1\<lparr>oc_Error := ''exchange reservation returned no record ID''\<rparr>, Halt, s)
     else
       let bad = sprintf ''exchange reservation returned invalid ceiling %q'' [ArgS reservedUSD];
           refuse = (case failLedgerRecord env recordID bad s of (failed, s') \<Rightarrow> (o1\<lparr>oc_Error := bad\<rparr>, Halt, s'))
       in case ParseDecimalRat reservedUSD of
         Inl e \<Rightarrow> refuse
       | Inr cap \<Rightarrow>
           if cap < 0 then refuse
           else
             let q = auto_execute_request params rec offeringID cap in
             case auto_call (ClientExecute env q) (EvExecute q) s of
               ((exchangeID, freshQ, Some e), s') \<Rightarrow> rejected env recordID e o1 s'
             | ((exchangeID, freshQ, None), s') \<Rightarrow> settle env recordID exchangeID freshQ payment o1 s')"

definition processAutoExchange :: "'w auto_env \<Rightarrow> RunAutoExchangeParams \<Rightarrow> ReshapeRecommendation \<Rightarrow> go_string \<Rightarrow> go_string
    \<Rightarrow> rat option \<Rightarrow> 'w auto_state \<Rightarrow> ExchangeOutcome \<times> step_end \<times> 'w auto_state" where
  "processAutoExchange env params rec offeringID payment perExchangeCap s =
    (let o0 = base_outcome rec offeringID payment in
     if DryRun params then (o0\<lparr>Simulated := True\<rparr>, Continue, s)
     else case ParseDecimalRat payment of
       Inl e \<Rightarrow>
         let errMsg = sprintf ''failed to parse payment due %q: %v'' [ArgS payment, ArgS (err_text e)]
         in (o0\<lparr>oc_Error := errMsg\<rparr>, Continue,
             saveFailedRecord env params rec offeringID payment errMsg ExchangeModeAuto s)
     | Inr p \<Rightarrow>
         let r = exchange_record params rec offeringID payment ''processing'' ExchangeModeAuto
         in case (set_float64 (MaxPaymentDailyUSD (Config params)), perExchangeCap) of
           (Some dailyCap, Some cap) \<Rightarrow>
             (let d = floorCapUSD dailyCap; c = floorCapUSD cap in
              case auto_call (ReserveRIExchange env r d c) (EvReserve r d c) s of
                ((Inl e, recordID), s') \<Rightarrow> (o0\<lparr>oc_Error := sprintf ''exchange reservation failed: %v'' [ArgS (err_text e)]\<rparr>, Continue, s')
              | ((Inr reservedUSD, recordID), s') \<Rightarrow>
                  after_reserve env params rec offeringID payment recordID reservedUSD (o0\<lparr>oc_RecordID := recordID\<rparr>) s')
         | _ \<Rightarrow> (o0, Panic, s))"

definition add_skipped :: "SkippedRecommendation \<Rightarrow> AutoExchangeResult \<Rightarrow> AutoExchangeResult" where
  "add_skipped sk res = res\<lparr>Skipped := Skipped res @ [sk]\<rparr>"

definition processRecommendation :: "'w auto_env \<Rightarrow> RunAutoExchangeParams \<Rightarrow> ReshapeRecommendation \<Rightarrow> rat option
    \<Rightarrow> AutoExchangeResult \<Rightarrow> 'w auto_state \<Rightarrow> AutoExchangeResult \<times> step_end \<times> 'w auto_state" where
  "processRecommendation env params rec perExchangeCap res s =
    (if TargetInstanceType rec = [] then (add_skipped (skip_rec rec (Reason rec)) res, Continue, s)
     else case resolveOffering env params rec s of
       (Inl sk, s1) \<Rightarrow> (add_skipped sk res, Continue, s1)
     | (Inr offeringID, s1) \<Rightarrow> (case getValidatedQuote env params rec offeringID perExchangeCap s1 of
         (QuoteSkip sk, s2) \<Rightarrow> (add_skipped sk res, Continue, s2)
       | (QuotePanic, s2) \<Rightarrow> (res, Panic, s2)
       | (QuoteOk quote due, s2) \<Rightarrow>
           let payment = float_string 6 due in
           if xc_Mode (Config params) = ExchangeModeManual then
             (case processManualExchange env params rec offeringID payment s2 of (oc, s3) \<Rightarrow>
               (if oc_Error oc \<noteq> [] then res\<lparr>Failed := Failed res @ [oc]\<rparr> else res\<lparr>Pending := Pending res @ [oc]\<rparr>, Continue, s3))
           else
             (case processAutoExchange env params rec offeringID payment perExchangeCap s2 of
               (oc, Panic, s3) \<Rightarrow> (res, Panic, s3)
             | (oc, halt, s3) \<Rightarrow>
                 (if oc_Error oc \<noteq> [] then res\<lparr>Failed := Failed res @ [oc]\<rparr> else res\<lparr>Completed := Completed res @ [oc]\<rparr>, halt, s3))))"

section \<open>The run\<close>

fun process_loop :: "'w auto_env \<Rightarrow> RunAutoExchangeParams \<Rightarrow> rat option \<Rightarrow> ReshapeRecommendation list \<Rightarrow> AutoExchangeResult
    \<Rightarrow> 'w auto_state \<Rightarrow> AutoExchangeResult option \<times> 'w auto_state" where
  "process_loop env params cap [] res s = (Some res, s)"
| "process_loop env params cap (rec # recs) res s =
    (case processRecommendation env params rec cap res s of
       (res', Continue, s') \<Rightarrow> process_loop env params cap recs res' s'
     | (res', Halt, s') \<Rightarrow> (Some res', s')
     | (res', Panic, s') \<Rightarrow> (None, s'))"

text \<open>\<open>Inr None\<close> is a panic; \<open>ovf\<close> is the implementation's \<open>int32\<close> conversion of the reshape analysis.\<close>

definition RunAutoExchange :: "(float64 \<Rightarrow> int) \<Rightarrow> 'w auto_env \<Rightarrow> RunAutoExchangeParams \<Rightarrow> 'w auto_state
    \<Rightarrow> (go_error + AutoExchangeResult option) \<times> 'w auto_state" where
  "RunAutoExchange ovf env params s =
    (case validateMode (xc_Mode (Config params)) of
       Some e \<Rightarrow> (Inl e, s)
     | None \<Rightarrow>
         let res = \<lparr>res_Mode = xc_Mode (Config params), Completed = [], Pending = [], Failed = [], Skipped = []\<rparr>
         in case cancelStalePending env params s of
           (Some e, s1) \<Rightarrow> (Inl e, s1)
         | (None, s1) \<Rightarrow> (case auto_call (GetStaleProcessingExchanges env staleProcessingThreshold) EvStale s1 of
             (stale, s2) \<Rightarrow>
               let recs = AnalyzeReshaping ovf (RIs params) (Utilization params) (UtilizationThreshold (Config params))
                     (WithOfferedInstanceTypes (OfferedInstanceTypes params));
                   cap = set_float64 (MaxPaymentPerExchangeUSD (Config params))
               in if recs = [] then (Inr (Some res), s2)
                  else (case process_loop env params cap recs res s2 of (r, s3) \<Rightarrow> (Inr r, s3))))"

section \<open>The protocol\<close>

text \<open>
  The abstract specification: which calls a run may make, in which order. A phase says what the
  run is committed to; \<open>Stopped\<close> accepts no further call. \<open>ok\<close> is the contract of the exchange
  client: a relation that holds between every execute request and its answer.
\<close>

datatype phase =
    Idle
  | Looked go_string
  | Quoted go_string
  | Tokened go_string
  | Saving
  | Reserved go_string go_string rat
  | Failing go_string
  | Voiding go_string
  | Moved go_string go_string go_string nat
  | Stopped

datatype run_kind = DryKind | ManualKind | AutoKind

fun quote_within :: "rat option \<Rightarrow> go_error + ExchangeQuoteSummary \<Rightarrow> bool option" where
  "quote_within cap (Inl e) = Some False"
| "quote_within cap (Inr q) =
    (if \<not> IsValidExchange q then Some False
     else case requireUSDPaymentDue q of
       Inl e \<Rightarrow> Some False
     | Inr due \<Rightarrow> (case cap of None \<Rightarrow> None | Some c \<Rightarrow> Some (due \<le> c)))"

definition looked_next :: "run_kind \<Rightarrow> rat option \<Rightarrow> go_string \<Rightarrow> ExchangeQuoteRequest \<Rightarrow> go_error + ExchangeQuoteSummary \<Rightarrow> phase option" where
  "looked_next k cap off q r =
    (if q_TargetOfferingID q \<noteq> off \<or> q_DryRun q then None
     else case quote_within cap r of
       None \<Rightarrow> Some Stopped
     | Some ok \<Rightarrow> Some (if \<not> ok \<or> k = DryKind then Idle else Quoted off))"

definition token_next :: "run_kind \<Rightarrow> go_error + go_string \<Rightarrow> phase option" where
  "token_next k r = (if k \<noteq> ManualKind then None else case r of Inl e \<Rightarrow> Some Saving | Inr t \<Rightarrow> Some (Tokened t))"

definition reserve_next :: "run_kind \<Rightarrow> go_string \<Rightarrow> ExchangeRecord \<Rightarrow> (go_error + go_string) \<times> go_string \<Rightarrow> phase option" where
  "reserve_next k off r answer =
    (if k \<noteq> AutoKind \<or> er_TargetOfferingID r \<noteq> off \<or> er_Status r \<noteq> ''processing'' then None
     else case answer of (res, rid) \<Rightarrow> (case res of
       Inl e \<Rightarrow> Some Idle
     | Inr reserved \<Rightarrow>
         if rid = [] then Some Stopped
         else case ParseDecimalRat reserved of
           Inl e \<Rightarrow> Some (Voiding rid)
         | Inr v \<Rightarrow> Some (if v < 0 then Voiding rid else Reserved off rid v)))"

definition execute_next :: "(ExchangeExecuteRequest \<Rightarrow> exec_result \<Rightarrow> bool) \<Rightarrow> go_string \<Rightarrow> go_string \<Rightarrow> rat \<Rightarrow> ExchangeExecuteRequest \<Rightarrow> exec_result \<Rightarrow> phase option" where
  "execute_next ok off rid v q answer =
    (if x_TargetOfferingID q \<noteq> off \<or> x_MaxPaymentDueUSD q \<noteq> Some v \<or> \<not> ok q answer then None
     else case answer of (xid, fq, err) \<Rightarrow> (case err of
       None \<Rightarrow> Some (Moved rid xid (case fq of None \<Rightarrow> [] | Some s \<Rightarrow> PaymentDueUSDStr s) 0)
     | Some e \<Rightarrow> Some (if outcome_unknown e then Stopped else Failing rid)))"

definition complete_next :: "go_string \<Rightarrow> go_string \<Rightarrow> go_string \<Rightarrow> nat \<Rightarrow> go_string \<Rightarrow> go_string \<Rightarrow> go_string \<Rightarrow> go_error option \<Rightarrow> phase option" where
  "complete_next rid xid amt n i x a e =
    (if i \<noteq> rid \<or> x \<noteq> xid \<or> amt \<noteq> [] \<and> a \<noteq> amt then None
     else if e = None then Some Idle
     else if n + 1 < maxLedgerAttempts then Some (Moved rid xid amt (n + 1))
     else Some Stopped)"

definition next_phase :: "(ExchangeExecuteRequest \<Rightarrow> exec_result \<Rightarrow> bool) \<Rightarrow> run_kind \<Rightarrow> rat option \<Rightarrow> phase \<Rightarrow> auto_event \<Rightarrow> phase option" where
  "next_phase ok k cap ph ev = (case ph of
     Idle \<Rightarrow> (case ev of EvLookup p r \<Rightarrow> (case r of Inl e \<Rightarrow> Some Idle | Inr off \<Rightarrow> Some (Looked off)) | _ \<Rightarrow> None)
   | Looked off \<Rightarrow> (case ev of EvQuote q r \<Rightarrow> looked_next k cap off q r | _ \<Rightarrow> None)
   | Quoted off \<Rightarrow> (case ev of EvToken r \<Rightarrow> token_next k r | EvReserve r d c a \<Rightarrow> reserve_next k off r a | _ \<Rightarrow> None)
   | Tokened t \<Rightarrow> (case ev of
         EvNow n \<Rightarrow> Some (Tokened t)
       | EvSave r e \<Rightarrow> if er_ApprovalToken r = t \<and> er_Status r = ''pending'' \<and> er_ExpiresAt r \<noteq> None then Some Idle else None
       | _ \<Rightarrow> None)
   | Saving \<Rightarrow> (case ev of EvSave r e \<Rightarrow> if er_Status r = ''failed'' \<and> er_Error r \<noteq> [] then Some Idle else None | _ \<Rightarrow> None)
   | Reserved off rid v \<Rightarrow> (case ev of EvExecute q a \<Rightarrow> execute_next ok off rid v q a | _ \<Rightarrow> None)
   | Failing rid \<Rightarrow> (case ev of EvFail i why e \<Rightarrow> if i \<noteq> rid then None else Some (if e = None then Idle else Stopped) | _ \<Rightarrow> None)
   | Voiding rid \<Rightarrow> (case ev of EvFail i why e \<Rightarrow> if i \<noteq> rid then None else Some Stopped | _ \<Rightarrow> None)
   | Moved rid xid amt n \<Rightarrow> (case ev of EvComplete i x a e \<Rightarrow> complete_next rid xid amt n i x a e | _ \<Rightarrow> None)
   | Stopped \<Rightarrow> None)"

fun run_phase :: "(ExchangeExecuteRequest \<Rightarrow> exec_result \<Rightarrow> bool) \<Rightarrow> run_kind \<Rightarrow> rat option \<Rightarrow> phase \<Rightarrow> auto_event list \<Rightarrow> phase option" where
  "run_phase ok k cap ph [] = Some ph"
| "run_phase ok k cap ph (e # es) = (case next_phase ok k cap ph e of None \<Rightarrow> None | Some ph' \<Rightarrow> run_phase ok k cap ph' es)"

section \<open>Every run follows the protocol\<close>

lemma run_phase_append:
  "run_phase ok k cap ph (xs @ ys) = (case run_phase ok k cap ph xs of None \<Rightarrow> None | Some ph' \<Rightarrow> run_phase ok k cap ph' ys)"
  by (induction xs arbitrary: ph) (auto split: option.splits)

text \<open>The run \<open>(s, s')\<close> extends the trace by events that lead from \<open>ph\<close> to \<open>ph'\<close>.\<close>

definition steps_to :: "(ExchangeExecuteRequest \<Rightarrow> exec_result \<Rightarrow> bool) \<Rightarrow> run_kind \<Rightarrow> rat option \<Rightarrow> phase \<Rightarrow> 'w auto_state \<Rightarrow> 'w auto_state \<Rightarrow> phase \<Rightarrow> bool" where
  "steps_to ok k cap ph s s' ph' \<longleftrightarrow> (\<exists>es. auto_events s' = auto_events s @ es \<and> run_phase ok k cap ph es = Some ph')"

lemma steps_refl [simp]: "steps_to ok k cap ph s s ph' \<longleftrightarrow> ph' = ph"
  by (auto simp: steps_to_def)

lemma steps_trans: "steps_to ok k cap ph s s1 ph1 \<Longrightarrow> steps_to ok k cap ph1 s1 s2 ph2 \<Longrightarrow> steps_to ok k cap ph s s2 ph2"
  unfolding steps_to_def by (elim exE conjE) (auto simp: run_phase_append intro!: exI)

lemma steps_call:
  "auto_call f ev s = (r, s') \<Longrightarrow> next_phase ok k cap ph (ev r) = Some ph' \<Longrightarrow> steps_to ok k cap ph s s' ph'"
  by (auto simp: auto_call_def steps_to_def split: prod.splits)

definition kind_of :: "RunAutoExchangeParams \<Rightarrow> run_kind" where
  "kind_of params = (if DryRun params then DryKind
     else if xc_Mode (Config params) = ExchangeModeManual then ManualKind else AutoKind)"

definition client_contract :: "(ExchangeExecuteRequest \<Rightarrow> exec_result \<Rightarrow> bool) \<Rightarrow> 'w auto_env \<Rightarrow> bool" where
  "client_contract ok env \<longleftrightarrow> (\<forall>q w. ok q (fst (ClientExecute env q w)))"

text \<open>The phase a recommendation leaves behind, by how its processing ended.\<close>

fun end_phase :: "step_end \<Rightarrow> phase \<Rightarrow> bool" where
  "end_phase Continue ph = (ph = Idle)"
| "end_phase Halt ph = (ph = Stopped)"
| "end_phase Panic ph = True"

lemma resolveOffering_steps:
  "resolveOffering env params rec s = (r, s') \<Longrightarrow>
     steps_to ok k cap Idle s s' (case r of Inl sk \<Rightarrow> Idle | Inr off \<Rightarrow> Looked off)"
  by (auto simp: resolveOffering_def Let_def next_phase_def intro!: steps_call
      split: option.splits prod.splits sum.splits)

lemma check_quote_within:
  "check_quote params rec cap r = QuoteOk q due \<Longrightarrow> quote_within cap r = Some True \<and> (\<exists>c. cap = Some c)"
  "check_quote params rec cap r = QuoteSkip sk \<Longrightarrow> quote_within cap r = Some False"
  "check_quote params rec cap r = QuotePanic \<Longrightarrow> quote_within cap r = None"
  by (auto simp: check_quote_def not_less not_le split: sum.splits if_splits option.splits)

lemma getValidatedQuote_steps:
  assumes "getValidatedQuote env params rec off cap s = (r, s')"
  shows "steps_to ok k cap (Looked off) s s' (case r of
    QuoteOk q due \<Rightarrow> if k = DryKind then Idle else Quoted off | QuoteSkip sk \<Rightarrow> Idle | QuotePanic \<Rightarrow> Stopped)"
proof -
  let ?q = "auto_quote_request params rec off"
  obtain a where c: "auto_call (ClientGetQuote env ?q) (EvQuote ?q) s = (a, s')" and r: "r = check_quote params rec cap a"
    using assms by (auto simp: getValidatedQuote_def Let_def split: prod.splits)
  from check_quote_within [of params rec cap a] r
  have "next_phase ok k cap (Looked off) (EvQuote ?q a) = Some (case r of
    QuoteOk q due \<Rightarrow> if k = DryKind then Idle else Quoted off | QuoteSkip sk \<Rightarrow> Idle | QuotePanic \<Rightarrow> Stopped)"
    unfolding r by (cases "check_quote params rec cap a") (auto simp: next_phase_def looked_next_def auto_quote_request_def)
  with c show ?thesis by (rule steps_call)
qed

lemma saveFailed_steps:
  "err \<noteq> [] \<Longrightarrow> steps_to ok k cap Saving s (saveFailedRecord env params rec off payment err mode s) Idle"
  unfolding saveFailedRecord_def Let_def
  by (rule steps_call [OF surjective_pairing]) (simp add: next_phase_def exchange_record_def)

lemma processManual_steps:
  assumes "processManualExchange env params rec off payment s = (oc, s')" and k: "k = ManualKind" and live: "\<not> DryRun params"
  shows "steps_to ok k cap (Quoted off) s s' Idle"
proof -
  obtain t s1 where t: "auto_call (GenerateApprovalToken env) EvToken s = (t, s1)" by (cases "auto_call (GenerateApprovalToken env) EvToken s")
  show ?thesis
  proof (cases t)
    case (Inl e)
    let ?m = "sprintf ''failed to generate approval token: %v'' [ArgS (err_text e)]"
    have "?m \<noteq> []" by (rule sprintf_not_empty) simp
    moreover have "s' = saveFailedRecord env params rec off payment ?m ExchangeModeManual s1"
      using assms(1) t Inl live by (simp add: processManualExchange_def Let_def del: sprintf.simps)
    ultimately have "steps_to ok k cap Saving s1 s' Idle" using saveFailed_steps by blast
    moreover have "steps_to ok k cap (Quoted off) s s1 Saving"
      using t Inl k by (intro steps_call [OF t]) (simp add: next_phase_def token_next_def)
    ultimately show ?thesis using steps_trans by blast
  next
    case (Inr token)
    obtain now s2 where n: "auto_call (TimeNow env) EvNow s1 = (now, s2)" by (cases "auto_call (TimeNow env) EvNow s1")
    let ?r = "(exchange_record params rec off payment ''pending'' ExchangeModeManual)\<lparr>er_ApprovalToken := token, er_ExpiresAt := Some (now + day_ns)\<rparr>"
    obtain a where a: "auto_call (SaveRIExchangeRecord env ?r) (EvSave ?r) s2 = (a, s')"
      using assms(1) t Inr n live by (auto simp: processManualExchange_def Let_def split: prod.splits option.splits)
    have "steps_to ok k cap (Quoted off) s s1 (Tokened token)"
      using t Inr k by (intro steps_call [OF t]) (simp add: next_phase_def token_next_def)
    moreover have "steps_to ok k cap (Tokened token) s1 s2 (Tokened token)"
      by (rule steps_call [OF n]) (simp add: next_phase_def)
    moreover have "steps_to ok k cap (Tokened token) s2 s' Idle"
      by (rule steps_call [OF a]) (simp add: next_phase_def exchange_record_def)
    ultimately show ?thesis using steps_trans by blast
  qed
qed

lemma failLedger_steps:
  assumes "failLedgerRecord env rid why s = (f, s')"
  shows "steps_to ok k cap (Failing rid) s s' (if f then Stopped else Idle)" "steps_to ok k cap (Voiding rid) s s' Stopped"
  using assms by (auto simp: failLedgerRecord_def next_phase_def split: prod.splits intro!: steps_call)

lemma complete_loop_steps:
  assumes "complete_loop n err env rid xid a s = (e, s')" and "n = maxLedgerAttempts - m" and "m < maxLedgerAttempts" and "amt \<noteq> [] \<longrightarrow> a = amt"
  shows "steps_to ok k cap (Moved rid xid amt m) s s' (if e = None then Idle else Stopped)"
  using assms
proof (induction n arbitrary: err s m)
  case 0
  then show ?case by simp
next
  case (Suc n)
  obtain r s1 where c: "auto_call (CompleteRIExchangeWithPayment env rid xid a) (EvComplete rid xid a) s = (r, s1)"
    by (cases "auto_call (CompleteRIExchangeWithPayment env rid xid a) (EvComplete rid xid a) s")
  show ?case
  proof (cases r)
    case None
    then have "s1 = s'" "e = None" using c Suc.prems(1) by auto
    moreover have "steps_to ok k cap (Moved rid xid amt m) s s1 Idle"
      using None Suc.prems by (intro steps_call [OF c]) (auto simp: next_phase_def complete_next_def)
    ultimately show ?thesis by simp
  next
    case (Some e1)
    have rest: "complete_loop n (Some e1) env rid xid a s1 = (e, s')" using Suc.prems(1) c Some by simp
    show ?thesis
    proof (cases "m + 1 < maxLedgerAttempts")
      case True
      have "steps_to ok k cap (Moved rid xid amt m) s s1 (Moved rid xid amt (m + 1))"
        using Some Suc.prems True by (intro steps_call [OF c]) (auto simp: next_phase_def complete_next_def)
      moreover have "steps_to ok k cap (Moved rid xid amt (m + 1)) s1 s' (if e = None then Idle else Stopped)"
        by (rule Suc.IH [OF rest]) (use Suc True in auto)
      ultimately show ?thesis using steps_trans by blast
    next
      case False
      then have "n = 0" using Suc.prems by simp
      then have "e = Some e1" "s' = s1" using rest by auto
      moreover have "steps_to ok k cap (Moved rid xid amt m) s s1 Stopped"
        using Some Suc.prems False by (intro steps_call [OF c]) (auto simp: next_phase_def complete_next_def)
      ultimately show ?thesis by simp
    qed
  qed
qed

lemma rejected_steps:
  assumes "rejected env rid e o1 s = (oc, fin, s')"
  shows "\<exists>ph. steps_to ok k cap (if outcome_unknown e then Stopped else Failing rid) s s' ph \<and> end_phase fin ph"
proof (cases "outcome_unknown e")
  case True
  with assms show ?thesis by (auto simp: rejected_def)
next
  case False
  obtain f s1 where f: "failLedgerRecord env rid (err_text e) s = (f, s1)" by (cases "failLedgerRecord env rid (err_text e) s")
  with assms False have "s' = s1" "fin = (if f then Halt else Continue)" by (auto simp: rejected_def Let_def)
  with failLedger_steps(1) [OF f] False show ?thesis by (intro exI [of _ "if f then Stopped else Idle"]) auto
qed

lemma accepted_amount: "(case fq of None \<Rightarrow> [] | Some q \<Rightarrow> PaymentDueUSDStr q) \<noteq> [] \<longrightarrow>
    acceptedAmountFromQuote fq payment = (case fq of None \<Rightarrow> [] | Some q \<Rightarrow> PaymentDueUSDStr q)"
  by (auto simp: acceptedAmountFromQuote_def split: option.splits)

lemma settle_steps:
  assumes "settle env rid xid fq payment o1 s = (oc, fin, s')"
  shows "\<exists>ph. steps_to ok k cap (Moved rid xid (case fq of None \<Rightarrow> [] | Some q \<Rightarrow> PaymentDueUSDStr q) 0) s s' ph \<and> end_phase fin ph"
proof -
  obtain e s1 where c: "completeLedgerRecord env rid xid (acceptedAmountFromQuote fq payment) s = (e, s1)"
    by (cases "completeLedgerRecord env rid xid (acceptedAmountFromQuote fq payment) s")
  with assms have "s' = s1" "fin = (if e = None then Continue else Halt)"
    by (auto simp: settle_def Let_def split: option.splits)
  moreover have "steps_to ok k cap (Moved rid xid (case fq of None \<Rightarrow> [] | Some q \<Rightarrow> PaymentDueUSDStr q) 0) s s1 (if e = None then Idle else Stopped)"
    using c unfolding completeLedgerRecord_def
    by (rule complete_loop_steps) (use accepted_amount in \<open>auto simp: maxLedgerAttempts_def\<close>)
  ultimately show ?thesis by (intro exI [of _ "if e = None then Idle else Stopped"]) auto
qed

lemma after_reserve_steps:
  assumes "after_reserve env params rec off payment rid reserved o1 s = (oc, fin, s')"
    and "reserve_next k off' r (Inr reserved, rid) = Some ph" and "off' = off" and cc: "client_contract ok env"
  shows "\<exists>ph'. steps_to ok k cap ph s s' ph' \<and> end_phase fin ph'"
proof -
  have ph: "ph = (if rid = [] then Stopped else case ParseDecimalRat reserved of
      Inl e \<Rightarrow> Voiding rid | Inr v \<Rightarrow> if v < 0 then Voiding rid else Reserved off rid v)"
    using assms(2,3) by (auto simp: reserve_next_def split: if_splits sum.splits)
  consider (noid) "rid = []"
    | (bad) "rid \<noteq> []" "(\<exists>e. ParseDecimalRat reserved = Inl e) \<or> (\<exists>v < 0. ParseDecimalRat reserved = Inr v)"
    | (good) v where "rid \<noteq> []" "ParseDecimalRat reserved = Inr v" "0 \<le> v"
    by (cases "ParseDecimalRat reserved") (use not_less in auto)
  then show ?thesis
  proof cases
    case noid
    with assms(1) ph show ?thesis by (auto simp: after_reserve_def)
  next
    case bad
    let ?bad = "sprintf ''exchange reservation returned invalid ceiling %q'' [ArgS reserved]"
    obtain f s1 where f: "failLedgerRecord env rid ?bad s = (f, s1)" by (cases "failLedgerRecord env rid ?bad s")
    with bad assms(1) have "s' = s1" "fin = Halt"
      by (auto simp: after_reserve_def Let_def simp del: sprintf.simps split: sum.splits)
    moreover have "ph = Voiding rid" using bad ph by (auto split: sum.splits)
    ultimately show ?thesis using failLedger_steps(2) [OF f] by (intro exI [of _ Stopped]) simp
  next
    case good
    let ?q = "auto_execute_request params rec off v"
    obtain xid fq err s1 where c: "auto_call (ClientExecute env ?q) (EvExecute ?q) s = ((xid, fq, err), s1)"
      by (cases "auto_call (ClientExecute env ?q) (EvExecute ?q) s") (metis surj_pair)
    have phr: "ph = Reserved off rid v" using good ph by simp
    have okc: "ok ?q (xid, fq, err)"
      using c cc by (auto simp: auto_call_def client_contract_def split: prod.splits dest: spec [of _ ?q] spec [of _ "auto_world s"]) (metis fst_conv)
    show ?thesis
    proof (cases err)
      case None
      with c good assms(1) have "settle env rid xid fq payment o1 s1 = (oc, fin, s')" by (auto simp: after_reserve_def Let_def)
      from settle_steps [OF this] obtain ph' where "steps_to ok k cap (Moved rid xid (case fq of None \<Rightarrow> [] | Some q \<Rightarrow> PaymentDueUSDStr q) 0) s1 s' ph'"
        "end_phase fin ph'" by blast
      moreover have "steps_to ok k cap ph s s1 (Moved rid xid (case fq of None \<Rightarrow> [] | Some q \<Rightarrow> PaymentDueUSDStr q) 0)"
        using None phr by (intro steps_call [OF c]) (use okc in \<open>simp add: next_phase_def execute_next_def auto_execute_request_def\<close>)
      ultimately show ?thesis using steps_trans by blast
    next
      case (Some e)
      with c good assms(1) have "rejected env rid e o1 s1 = (oc, fin, s')" by (auto simp: after_reserve_def Let_def)
      from rejected_steps [OF this] obtain ph' where "steps_to ok k cap (if outcome_unknown e then Stopped else Failing rid) s1 s' ph'"
        "end_phase fin ph'" by blast
      moreover have "steps_to ok k cap ph s s1 (if outcome_unknown e then Stopped else Failing rid)"
        using Some phr by (intro steps_call [OF c]) (use okc in \<open>simp add: next_phase_def execute_next_def auto_execute_request_def\<close>)
      ultimately show ?thesis using steps_trans by blast
    qed
  qed
qed

lemma processAuto_steps:
  assumes "processAutoExchange env params rec off (float_string 6 due) cap' s = (oc, fin, s')"
    and k: "k = AutoKind" and live: "\<not> DryRun params" and cc: "client_contract ok env"
  shows "\<exists>ph. steps_to ok k cap (Quoted off) s s' ph \<and> end_phase fin ph"
proof -
  obtain p where p: "ParseDecimalRat (float_string 6 due) = Inr p" using ParseDecimalRat_float_string by blast
  let ?r = "exchange_record params rec off (float_string 6 due) ''processing'' ExchangeModeAuto"
  show ?thesis
  proof (cases "\<exists>d c. set_float64 (MaxPaymentDailyUSD (Config params)) = Some d \<and> cap' = Some c")
    case False
    with assms(1) p live have "fin = Panic" and "s' = s"
      by (auto simp: processAutoExchange_def Let_def split: option.splits)
    then show ?thesis by (intro exI [of _ "Quoted off"]) simp
  next
    case True
    then obtain d c where dc: "set_float64 (MaxPaymentDailyUSD (Config params)) = Some d" "cap' = Some c" by blast
    let ?d = "floorCapUSD d" and ?c = "floorCapUSD c"
    obtain res rid s1 where call: "auto_call (ReserveRIExchange env ?r ?d ?c) (EvReserve ?r ?d ?c) s = ((res, rid), s1)"
      by (metis surj_pair)
    show ?thesis
    proof (cases res)
      case (Inl e)
      with assms(1) p live dc call have "fin = Continue" "s' = s1"
        by (auto simp: processAutoExchange_def Let_def simp del: sprintf.simps)
      moreover have "steps_to ok k cap (Quoted off) s s1 Idle"
        using Inl k by (intro steps_call [OF call]) (simp add: next_phase_def reserve_next_def exchange_record_def)
      ultimately show ?thesis by (intro exI [of _ Idle]) simp
    next
      case (Inr reserved)
      let ?o1 = "(base_outcome rec off (float_string 6 due))\<lparr>oc_RecordID := rid\<rparr>"
      have run: "after_reserve env params rec off (float_string 6 due) rid reserved ?o1 s1 = (oc, fin, s')"
        using assms(1) p live dc call Inr by (auto simp: processAutoExchange_def Let_def simp del: sprintf.simps)
      have "\<exists>ph. reserve_next k off ?r (Inr reserved, rid) = Some ph"
        using k by (auto simp: reserve_next_def exchange_record_def split: sum.splits)
      then obtain ph where ph: "reserve_next k off ?r (Inr reserved, rid) = Some ph" by blast
      from after_reserve_steps [OF run ph refl cc] obtain ph' where "steps_to ok k cap ph s1 s' ph'" "end_phase fin ph'" by blast
      moreover have "steps_to ok k cap (Quoted off) s s1 ph"
        using Inr ph by (intro steps_call [OF call]) (simp add: next_phase_def)
      ultimately show ?thesis using steps_trans by blast
    qed
  qed
qed

lemma processRecommendation_steps:
  assumes "processRecommendation env params rec cap res s = (res', fin, s')" and cc: "client_contract ok env"
  shows "\<exists>ph. steps_to ok (kind_of params) cap Idle s s' ph \<and> end_phase fin ph"
proof (cases "TargetInstanceType rec = []")
  case True
  with assms(1) show ?thesis by (auto simp: processRecommendation_def)
next
  case target: False
  let ?k = "kind_of params"
  obtain o' s1 where o: "resolveOffering env params rec s = (o', s1)" by (cases "resolveOffering env params rec s")
  note st1 = resolveOffering_steps [OF o, of ok ?k cap]
  show ?thesis
  proof (cases o')
    case (Inl sk)
    with assms(1) target o st1 show ?thesis by (intro exI [of _ Idle]) (auto simp: processRecommendation_def)
  next
    case (Inr off)
    obtain r s2 where q: "getValidatedQuote env params rec off cap s1 = (r, s2)" by (cases "getValidatedQuote env params rec off cap s1")
    note st2 = steps_trans [OF st1 [unfolded Inr sum.case] getValidatedQuote_steps [OF q, of ok ?k]]
    show ?thesis
    proof (cases r)
      case (QuoteSkip sk)
      with assms(1) target o Inr q st2 show ?thesis by (intro exI [of _ Idle]) (auto simp: processRecommendation_def)
    next
      case QuotePanic
      with assms(1) target o Inr q st2 show ?thesis by (intro exI [of _ Stopped]) (auto simp: processRecommendation_def)
    next
      case (QuoteOk quote due)
      show ?thesis
      proof (cases "xc_Mode (Config params) = ExchangeModeManual")
        case True
        obtain oc s3 where m: "processManualExchange env params rec off (float_string 6 due) s2 = (oc, s3)"
          by (cases "processManualExchange env params rec off (float_string 6 due) s2")
        with assms(1) target o Inr q QuoteOk True have e: "s' = s3" "fin = Continue" by (auto simp: processRecommendation_def Let_def)
        show ?thesis
        proof (cases "DryRun params")
          case dry: True
          with m have "s3 = s2" by (simp add: processManualExchange_def Let_def)
          with e st2 QuoteOk dry show ?thesis by (intro exI [of _ Idle]) (simp add: kind_of_def)
        next
          case live: False
          with True have k: "?k = ManualKind" by (simp add: kind_of_def)
          from processManual_steps [OF m k live] st2 QuoteOk k have "steps_to ok ?k cap Idle s s3 Idle" using steps_trans by fastforce
          with e show ?thesis by (intro exI [of _ Idle]) simp
        qed
      next
        case auto: False
        obtain oc f s3 where m: "processAutoExchange env params rec off (float_string 6 due) cap s2 = (oc, f, s3)"
          by (metis surj_pair)
        with assms(1) target o Inr q QuoteOk auto have e: "s' = s3" "fin = f"
          by (auto simp: processRecommendation_def Let_def split: step_end.splits)
        show ?thesis
        proof (cases "DryRun params")
          case dry: True
          with m have "s3 = s2" "f = Continue" by (auto simp: processAutoExchange_def Let_def)
          with e st2 QuoteOk dry show ?thesis by (intro exI [of _ Idle]) (simp add: kind_of_def)
        next
          case live: False
          with auto have k: "?k = AutoKind" by (simp add: kind_of_def)
          from processAuto_steps [OF m k live cc] obtain ph where "steps_to ok ?k cap (Quoted off) s2 s3 ph" "end_phase f ph" by blast
          with e st2 QuoteOk k show ?thesis using steps_trans by fastforce
        qed
      qed
    qed
  qed
qed

lemma process_loop_steps:
  "client_contract ok env \<Longrightarrow> process_loop env params cap recs res s = (r, s') \<Longrightarrow>
     \<exists>ph. steps_to ok (kind_of params) cap Idle s s' ph \<and> (r \<noteq> None \<longrightarrow> ph = Idle \<or> ph = Stopped)"
proof (induction recs arbitrary: res s)
  case Nil
  then show ?case by auto
next
  case (Cons rec recs)
  obtain res1 fin s1 where p: "processRecommendation env params rec cap res s = (res1, fin, s1)" by (metis surj_pair)
  from processRecommendation_steps [OF p Cons.prems(1)] obtain ph where ph: "steps_to ok (kind_of params) cap Idle s s1 ph" "end_phase fin ph" by blast
  show ?case
  proof (cases fin)
    case Continue
    with Cons.prems(2) p have "process_loop env params cap recs res1 s1 = (r, s')" by simp
    from Cons.IH [OF Cons.prems(1) this] ph Continue show ?thesis using steps_trans by fastforce
  next
    case Halt
    with Cons.prems p ph show ?thesis by (intro exI [of _ Stopped]) auto
  next
    case Panic
    with Cons.prems p ph show ?thesis by auto
  qed
qed

text \<open>The events a run added to the trace.\<close>

definition new_events :: "'w auto_state \<Rightarrow> 'w auto_state \<Rightarrow> auto_event list" where
  "new_events s s' = drop (length (auto_events s)) (auto_events s')"

definition run_cap :: "RunAutoExchangeParams \<Rightarrow> rat option" where
  "run_cap params = set_float64 (MaxPaymentPerExchangeUSD (Config params))"

definition preamble :: "RunAutoExchangeParams \<Rightarrow> (go_error + ExchangeRecord list) \<Rightarrow> int \<Rightarrow> auto_event list" where
  "preamble params stale n = (if DryRun params then []
     else [EvCancel (if LadderRunID params \<noteq> None then ExchangeOriginLadder else ExchangeOriginStandalone) (Inr n)]) @ [EvStale stale]"

lemma cancel_None:
  "cancelStalePending env params s = (None, s') \<Longrightarrow> \<exists>n. auto_events s' = auto_events s @ (if DryRun params then []
     else [EvCancel (if LadderRunID params \<noteq> None then ExchangeOriginLadder else ExchangeOriginStandalone) (Inr n)])"
  by (auto simp: cancelStalePending_def auto_call_def Let_def split: if_splits sum.splits prod.splits)

lemma cancel_Some:
  "cancelStalePending env params s = (Some e, s') \<Longrightarrow> \<exists>e' origin. auto_events s' = auto_events s @ [EvCancel origin (Inl e')]"
  by (auto simp: cancelStalePending_def auto_call_def Let_def split: if_splits sum.splits prod.splits)

lemma run_shape:
  assumes "RunAutoExchange ovf env params s = (r, s')" and cc: "client_contract ok env"
  shows "(\<exists>e. r = Inl e \<and> (new_events s s' = [] \<or> (\<exists>origin e'. new_events s s' = [EvCancel origin (Inl e')])))
    \<or> (\<exists>out stale n es ph. r = Inr out \<and> new_events s s' = preamble params stale n @ es
        \<and> run_phase ok (kind_of params) (run_cap params) Idle es = Some ph \<and> (out \<noteq> None \<longrightarrow> ph = Idle \<or> ph = Stopped)
        \<and> validateMode (xc_Mode (Config params)) = None)"
proof (cases "validateMode (xc_Mode (Config params))")
  case (Some e)
  with assms(1) show ?thesis by (auto simp: RunAutoExchange_def new_events_def)
next
  case mode: None
  obtain c s1 where c: "cancelStalePending env params s = (c, s1)" by (cases "cancelStalePending env params s")
  show ?thesis
  proof (cases c)
    case (Some e)
    with cancel_Some c have "\<exists>e' origin. auto_events s1 = auto_events s @ [EvCancel origin (Inl e')]" by blast
    with assms(1) mode c Some show ?thesis by (auto simp: RunAutoExchange_def new_events_def Let_def)
  next
    case None
    from cancel_None [OF c [unfolded None]] obtain n where n: "auto_events s1 = auto_events s @ (if DryRun params then []
        else [EvCancel (if LadderRunID params \<noteq> None then ExchangeOriginLadder else ExchangeOriginStandalone) (Inr n)])" by blast
    obtain stale s2 where st: "auto_call (GetStaleProcessingExchanges env staleProcessingThreshold) EvStale s1 = (stale, s2)"
      by (cases "auto_call (GetStaleProcessingExchanges env staleProcessingThreshold) EvStale s1")
    then have s2: "auto_events s2 = auto_events s1 @ [EvStale stale]" by (auto simp: auto_call_def split: prod.splits)
    have pre: "auto_events s2 = auto_events s @ preamble params stale n" by (simp add: s2 n preamble_def)
    let ?recs = "AnalyzeReshaping ovf (RIs params) (Utilization params) (UtilizationThreshold (Config params))
      (WithOfferedInstanceTypes (OfferedInstanceTypes params))"
    let ?res = "\<lparr>res_Mode = xc_Mode (Config params), Completed = [], Pending = [], Failed = [], Skipped = []\<rparr>"
    obtain out s3 where p: "process_loop env params (run_cap params) ?recs ?res s2 = (out, s3)" by (metis surj_pair)
    have fin: "r = Inr out" "s' = s3"
      using assms(1) mode c None st p by (auto simp: RunAutoExchange_def run_cap_def Let_def split: if_splits)
    from process_loop_steps [OF cc p] obtain es ph where "auto_events s3 = auto_events s2 @ es"
      "run_phase ok (kind_of params) (run_cap params) Idle es = Some ph" "out \<noteq> None \<longrightarrow> ph = Idle \<or> ph = Stopped"
      by (auto simp: steps_to_def)
    with fin pre mode show ?thesis
      by (intro disjI2 exI [of _ out] exI [of _ stale] exI [of _ n] exI [of _ es] exI [of _ ph]) (simp add: new_events_def)
  qed
qed

section \<open>What the protocol implies\<close>

text \<open>A phase that is not the idle one is entered by exactly one event.\<close>

lemma run_phase_snoc:
  "run_phase ok k cap ph (xs @ [e]) = Some ph' \<longleftrightarrow> (\<exists>m. run_phase ok k cap ph xs = Some m \<and> next_phase ok k cap m e = Some ph')"
  by (auto simp: run_phase_append split: option.splits)

lemma next_reserved:
  "next_phase ok k cap m e = Some (Reserved off rid v) \<Longrightarrow>
     m = Quoted off \<and> k = AutoKind \<and> rid \<noteq> [] \<and> 0 \<le> v \<and>
     (\<exists>r d c reserved. e = EvReserve r d c (Inr reserved, rid) \<and> ParseDecimalRat reserved = Inr v \<and> er_TargetOfferingID r = off)"
  by (auto simp: next_phase_def looked_next_def token_next_def reserve_next_def execute_next_def complete_next_def not_less
      split: phase.splits auto_event.splits if_splits sum.splits option.splits prod.splits)

lemma next_quoted:
  "next_phase ok k cap m e = Some (Quoted off) \<Longrightarrow>
     m = Looked off \<and> (\<exists>q r. e = EvQuote q r \<and> q_TargetOfferingID q = off \<and> quote_within cap r = Some True)"
  by (auto simp: next_phase_def looked_next_def token_next_def reserve_next_def execute_next_def complete_next_def
      split: phase.splits auto_event.splits if_splits sum.splits option.splits prod.splits)

lemma run_last:
  assumes "run_phase ok k cap Idle es = Some ph" and "ph \<noteq> Idle"
  shows "\<exists>xs e m. es = xs @ [e] \<and> run_phase ok k cap Idle xs = Some m \<and> next_phase ok k cap m e = Some ph"
proof (cases es rule: rev_cases)
  case Nil
  with assms show ?thesis by simp
next
  case (snoc xs e)
  with assms(1) show ?thesis by (auto simp: run_phase_snoc)
qed

lemma run_split:
  assumes "run_phase ok k cap ph (xs @ e # ys) = Some ph'"
  shows "\<exists>m m'. run_phase ok k cap ph xs = Some m \<and> next_phase ok k cap m e = Some m' \<and> run_phase ok k cap m' ys = Some ph'"
  using assms by (auto simp: run_phase_append split: option.splits)

lemma stopped_ends: "run_phase ok k cap Stopped ys = Some ph \<Longrightarrow> ys = []"
  by (cases ys) (auto simp: next_phase_def)

end
