(* ===== verification/Exchange_Run.thy ===== *)
theory Exchange_Run
  imports Exchange_Auto
begin

text \<open>
  The properties of an automated exchange run (\<open>pkg/exchange/auto.go\<close>), derived from the
  protocol every run follows, and its composition with the exchange client of
  \<open>pkg/exchange/exchange.go\<close> through the contract of that client.
\<close>

section \<open>Reading the trace\<close>

abbreviation any_client :: "ExchangeExecuteRequest \<Rightarrow> exec_result \<Rightarrow> bool" where
  "any_client \<equiv> \<lambda>q a. True"

lemma any_client [simp]: "client_contract any_client env"
  by (simp add: client_contract_def)

text \<open>An event other than the preamble's lies in the part of the trace the automaton accepts.\<close>

lemma split_after_preamble:
  assumes "preamble params stale n @ es = xs @ e # ys" and "e \<notin> set (preamble params stale n)"
  shows "\<exists>zs. xs = preamble params stale n @ zs \<and> es = zs @ e # ys"
proof -
  from assms(1) consider zs where "preamble params stale n = xs @ zs" "zs @ es = e # ys"
    | zs where "preamble params stale n @ zs = xs" "es = zs @ e # ys"
    by (auto simp: append_eq_append_conv2)
  then show ?thesis
  proof cases
    case 1
    then show ?thesis using assms by (cases zs) auto
  qed auto
qed

lemma preamble_events: "e \<in> set (preamble params stale n) \<Longrightarrow> (\<exists>p r. e = EvCancel p r) \<or> (\<exists>r. e = EvStale r)"
  by (auto simp: preamble_def split: if_splits)

lemma run_at:
  assumes "RunAutoExchange ovf env params s = (r, s')" and "client_contract ok env"
    and "new_events s s' = xs @ e # ys" and "\<And>p a. e \<noteq> EvCancel p a" and "\<And>a. e \<noteq> EvStale a"
  shows "\<exists>out stale n zs m m' ph. r = Inr out \<and> xs = preamble params stale n @ zs
    \<and> run_phase ok (kind_of params) (run_cap params) Idle zs = Some m
    \<and> next_phase ok (kind_of params) (run_cap params) m e = Some m'
    \<and> run_phase ok (kind_of params) (run_cap params) m' ys = Some ph \<and> (out \<noteq> None \<longrightarrow> ph = Idle \<or> ph = Stopped)
    \<and> validateMode (xc_Mode (Config params)) = None"
proof -
  have ne: "new_events s s' \<noteq> []" "\<not> (\<exists>p e'. new_events s s' = [EvCancel p (Inl e')])"
    using assms(3-5) by (auto simp: append_eq_Cons_conv)
  from run_shape [OF assms(1,2)] ne obtain out stale n es ph where r: "r = Inr out" "new_events s s' = preamble params stale n @ es"
    "run_phase ok (kind_of params) (run_cap params) Idle es = Some ph" "out \<noteq> None \<longrightarrow> ph = Idle \<or> ph = Stopped"
    "validateMode (xc_Mode (Config params)) = None" by blast
  have "e \<notin> set (preamble params stale n)" using preamble_events assms(4,5) by blast
  with split_after_preamble r(2) assms(3) obtain zs where zs: "xs = preamble params stale n @ zs" "es = zs @ e # ys" by metis
  with run_split r(3) obtain m m' where "run_phase ok (kind_of params) (run_cap params) Idle zs = Some m"
    "next_phase ok (kind_of params) (run_cap params) m e = Some m'"
    "run_phase ok (kind_of params) (run_cap params) m' ys = Some ph" by metis
  with r zs show ?thesis by blast
qed

text \<open>Which phases make which calls.\<close>

lemma next_execute:
  "next_phase ok k cap m (EvExecute q a) = Some m' \<Longrightarrow>
     \<exists>off rid v. m = Reserved off rid v \<and> execute_next ok off rid v q a = Some m'"
  by (auto simp: next_phase_def split: phase.splits)

lemma next_complete:
  "next_phase ok k cap m (EvComplete i x a e) = Some m' \<Longrightarrow>
     \<exists>rid xid amt n. m = Moved rid xid amt n \<and> complete_next rid xid amt n i x a e = Some m'"
  by (auto simp: next_phase_def split: phase.splits)

lemma next_fail:
  "next_phase ok k cap m (EvFail i why e) = Some m' \<Longrightarrow> (m = Failing i \<or> m = Voiding i) \<and> (e \<noteq> None \<longrightarrow> m' = Stopped)"
  by (auto simp: next_phase_def split: phase.splits if_splits)

lemma next_moved_from:
  "next_phase ok k cap m e = Some (Moved rid xid amt n) \<Longrightarrow>
     (n = 0 \<and> (\<exists>off v q fq. m = Reserved off rid v \<and> e = EvExecute q (xid, fq, None)
         \<and> amt = (case fq of None \<Rightarrow> [] | Some s \<Rightarrow> PaymentDueUSDStr s) \<and> x_MaxPaymentDueUSD q = Some v \<and> ok q (xid, fq, None)))
     \<or> (\<exists>n' a err. n = n' + 1 \<and> m = Moved rid xid amt n' \<and> e = EvComplete rid xid a (Some err) \<and> (amt \<noteq> [] \<longrightarrow> a = amt))"
  by (auto simp: next_phase_def looked_next_def token_next_def reserve_next_def execute_next_def complete_next_def
      split: phase.splits auto_event.splits if_splits sum.splits option.splits prod.splits)

text \<open>A reservation in force was made by the last call, for a quote within the cap made just before it.\<close>

lemma reserved_history:
  assumes "run_phase ok k cap Idle zs = Some (Reserved off rid v)"
  shows "\<exists>ws q quote due c r d c' reserved. zs = ws @ [EvQuote q (Inr quote), EvReserve r d c' (Inr reserved, rid)]
    \<and> q_TargetOfferingID q = off \<and> IsValidExchange quote \<and> requireUSDPaymentDue quote = Inr due \<and> cap = Some c \<and> due \<le> c
    \<and> er_TargetOfferingID r = off \<and> rid \<noteq> [] \<and> ParseDecimalRat reserved = Inr v \<and> 0 \<le> v \<and> k = AutoKind"
proof -
  from run_last [OF assms] obtain xs e m where xs: "zs = xs @ [e]" "run_phase ok k cap Idle xs = Some m"
    "next_phase ok k cap m e = Some (Reserved off rid v)" by auto
  from next_reserved [OF xs(3)] obtain r d c' reserved where e: "m = Quoted off" "k = AutoKind" "rid \<noteq> []" "0 \<le> v"
    "e = EvReserve r d c' (Inr reserved, rid)" "ParseDecimalRat reserved = Inr v" "er_TargetOfferingID r = off" by blast
  from run_last [OF xs(2)] e(1) obtain ws e2 m2 where ws: "xs = ws @ [e2]" "next_phase ok k cap m2 e2 = Some (Quoted off)" by auto
  from next_quoted [OF ws(2)] obtain q a where q: "e2 = EvQuote q a" "q_TargetOfferingID q = off" "quote_within cap a = Some True" by blast
  from q(3) obtain quote due c where "a = Inr quote" "IsValidExchange quote" "requireUSDPaymentDue quote = Inr due" "cap = Some c" "due \<le> c"
    by (cases a) (auto split: if_splits sum.splits option.splits)
  with e q xs ws show ?thesis by (intro exI [of _ ws] exI [of _ q] exI [of _ quote]) auto
qed

section \<open>The properties\<close>

text \<open>C33. Every run follows the protocol. An invalid mode or a failed cancellation of stale requests
  ends the run with an error and nothing else done; otherwise the calls after the preamble are
  accepted by the protocol automaton from \<open>Idle\<close>, and unless the run panicked they end in
  \<open>Idle\<close> or \<open>Stopped\<close>: no quote is left unanswered, no reservation pending, no executed
  exchange unsettled without the run having been halted.
\<close>

theorem auto_run_follows_protocol:
  assumes "RunAutoExchange ovf env params s = (r, s')"
  shows "(\<exists>e. r = Inl e \<and> (new_events s s' = [] \<or> (\<exists>origin e'. new_events s s' = [EvCancel origin (Inl e')])))
    \<or> (\<exists>out stale n es ph. r = Inr out \<and> new_events s s' = preamble params stale n @ es
        \<and> run_phase any_client (kind_of params) (run_cap params) Idle es = Some ph \<and> (out \<noteq> None \<longrightarrow> ph = Idle \<or> ph = Stopped)
        \<and> validateMode (xc_Mode (Config params)) = None)"
  using run_shape [OF assms any_client] .

text \<open>No exchange is executed without a reservation. Every execute call of a run directly follows
  a quote of the same offering that was valid, in USD and within the per-exchange cap, and the
  store's reservation of it, which returned a record and a non-negative ceiling; the call is
  capped by exactly that ceiling. The run is then live and in automatic mode.
\<close>

theorem auto_execute_reserved:
  assumes "RunAutoExchange ovf env params s = (r, s')" and "new_events s s' = xs @ EvExecute q a # ys"
  shows "\<not> DryRun params \<and> xc_Mode (Config params) = ExchangeModeAuto \<and>
    (\<exists>ws qq quote due c rec d c' reserved rid v.
      xs = ws @ [EvQuote qq (Inr quote), EvReserve rec d c' (Inr reserved, rid)]
      \<and> IsValidExchange quote \<and> requireUSDPaymentDue quote = Inr due \<and> run_cap params = Some c \<and> due \<le> c
      \<and> q_TargetOfferingID qq = x_TargetOfferingID q \<and> er_TargetOfferingID rec = x_TargetOfferingID q
      \<and> rid \<noteq> [] \<and> ParseDecimalRat reserved = Inr v \<and> 0 \<le> v \<and> x_MaxPaymentDueUSD q = Some v)"
proof -
  from run_at [OF assms(1) any_client assms(2)] obtain stale n zs m m' where
    z: "xs = preamble params stale n @ zs" "run_phase any_client (kind_of params) (run_cap params) Idle zs = Some m"
      "next_phase any_client (kind_of params) (run_cap params) m (EvExecute q a) = Some m'"
      "validateMode (xc_Mode (Config params)) = None" by auto
  from next_execute [OF z(3)] obtain off rid v where m: "m = Reserved off rid v" "execute_next any_client off rid v q a = Some m'" by blast
  then have q: "x_TargetOfferingID q = off" "x_MaxPaymentDueUSD q = Some v" by (auto simp: execute_next_def split: if_splits)
  from reserved_history [OF z(2) [unfolded m(1)]] obtain ws qq quote due c rec d c' reserved where
    h: "zs = ws @ [EvQuote qq (Inr quote), EvReserve rec d c' (Inr reserved, rid)]" "q_TargetOfferingID qq = off"
      "IsValidExchange quote" "requireUSDPaymentDue quote = Inr due" "run_cap params = Some c" "due \<le> c"
      "er_TargetOfferingID rec = off" "rid \<noteq> []" "ParseDecimalRat reserved = Inr v" "0 \<le> v" "kind_of params = AutoKind" by blast
  from h(11) z(4) have "\<not> DryRun params" "xc_Mode (Config params) = ExchangeModeAuto"
    by (auto simp: kind_of_def validateMode_def split: if_splits)
  moreover have "xs = (preamble params stale n @ ws) @ [EvQuote qq (Inr quote), EvReserve rec d c' (Inr reserved, rid)]"
    using z(1) h(1) by simp
  ultimately show ?thesis using h(2-10) q
    by (intro conjI exI [of _ "preamble params stale n @ ws"] exI [of _ qq] exI [of _ quote] exI [of _ due] exI [of _ c]
      exI [of _ rec] exI [of _ d] exI [of _ c'] exI [of _ reserved] exI [of _ rid] exI [of _ v]) simp_all
qed

text \<open>C34. A run stops when it no longer knows its books. After an execute call whose outcome is unknown,
  and after a ledger update that could not be written (marking a rejected reservation failed),
  no further call is made.
\<close>

theorem auto_halts:
  assumes "RunAutoExchange ovf env params s = (r, s')" and "new_events s s' = xs @ e # ys"
    and "(\<exists>q xid fq err. e = EvExecute q (xid, fq, Some err) \<and> outcome_unknown err) \<or> (\<exists>rid why err. e = EvFail rid why (Some err))"
  shows "ys = []"
proof -
  from run_at [OF assms(1) any_client assms(2)] assms(3) obtain m m' ph where
    z: "next_phase any_client (kind_of params) (run_cap params) m e = Some m'"
      "run_phase any_client (kind_of params) (run_cap params) m' ys = Some ph" by blast
  from assms(3) have "m' = Stopped"
  proof
    assume "\<exists>q xid fq err. e = EvExecute q (xid, fq, Some err) \<and> outcome_unknown err"
    then show ?thesis using z(1) next_execute by (fastforce simp: execute_next_def split: if_splits)
  next
    assume "\<exists>rid why err. e = EvFail rid why (Some err)"
    then show ?thesis using z(1) next_fail by blast
  qed
  with z(2) stopped_ends show ?thesis by blast
qed

section \<open>Settlement\<close>

definition settle_tries :: "go_string \<Rightarrow> go_string \<Rightarrow> go_string \<Rightarrow> go_error list \<Rightarrow> auto_event list" where
  "settle_tries rid xid amt errs = map (\<lambda>e. EvComplete rid xid amt (Some e)) errs"

lemma moved_settles:
  assumes "run_phase ok k cap (Moved rid xid amt n) ys = Some ph" and "ph = Idle \<or> ph = Stopped"
    and "n < maxLedgerAttempts" and "amt \<noteq> []"
  shows "\<exists>errs rest. length errs \<le> maxLedgerAttempts - n \<and>
    (if length errs < maxLedgerAttempts - n then ys = settle_tries rid xid amt errs @ EvComplete rid xid amt None # rest
     else ys = settle_tries rid xid amt errs)"
  using assms
proof (induction ys arbitrary: n)
  case Nil
  then show ?case by auto
next
  case (Cons e ys)
  then obtain m where m: "next_phase ok k cap (Moved rid xid amt n) e = Some m" "run_phase ok k cap m ys = Some ph"
    by (auto split: option.splits)
  then obtain err where e: "e = EvComplete rid xid amt err"
    and ne: "m = (if err = None then Idle else if n + 1 < maxLedgerAttempts then Moved rid xid amt (n + 1) else Stopped)"
    using Cons.prems(4) by (auto simp: next_phase_def complete_next_def split: auto_event.splits if_splits)
  consider (settled) "err = None" | (again) x where "err = Some x" "n + 1 < maxLedgerAttempts"
    | (last) x where "err = Some x" "\<not> n + 1 < maxLedgerAttempts" by (cases err) auto
  then show ?case
  proof cases
    case settled
    with e Cons.prems(3) show ?thesis by (intro exI [of _ "[]"] exI [of _ ys]) (simp add: settle_tries_def)
  next
    case again
    with ne m(2) have "run_phase ok k cap (Moved rid xid amt (n + 1)) ys = Some ph" by simp
    from Cons.IH [OF this Cons.prems(2) again(2) Cons.prems(4)] obtain errs rest where
      h: "length errs \<le> maxLedgerAttempts - (n + 1)"
        "if length errs < maxLedgerAttempts - (n + 1) then ys = settle_tries rid xid amt errs @ EvComplete rid xid amt None # rest
         else ys = settle_tries rid xid amt errs" by blast
    have "length (x # errs) < maxLedgerAttempts - n \<longleftrightarrow> length errs < maxLedgerAttempts - (n + 1)" using again(2) by auto
    with h e again show ?thesis
      by (intro exI [of _ "x # errs"] exI [of _ rest]) (auto simp: settle_tries_def split: if_splits)
  next
    case last
    with ne m(2) stopped_ends have "ys = []" by auto
    moreover have "maxLedgerAttempts - n = 1" using last Cons.prems(3) by simp
    ultimately show ?thesis using e last by (intro exI [of _ "[x]"]) (simp add: settle_tries_def)
  qed
qed

text \<open>C35. An executed exchange is settled, or the run is over. After an execute call that reports
  success with a fresh quote, the next calls write that exchange ID and the freshly quoted
  amount to the reservation that was made for it: at most two failed writes and then a
  successful one, or exactly three failed writes after which the run ends.
\<close>

theorem auto_settles_or_ends:
  assumes "RunAutoExchange ovf env params s = (Inr (Some res), s')"
    and "new_events s s' = xs @ EvReserve rec d c (Inr reserved, rid) # EvExecute q (xid, Some fq, None) # ys"
    and "PaymentDueUSDStr fq \<noteq> []"
  shows "\<exists>errs rest. length errs \<le> 3 \<and>
    (if length errs < 3 then ys = settle_tries rid xid (PaymentDueUSDStr fq) errs @ EvComplete rid xid (PaymentDueUSDStr fq) None # rest
     else ys = settle_tries rid xid (PaymentDueUSDStr fq) errs)"
proof -
  have ev: "new_events s s' = (xs @ [EvReserve rec d c (Inr reserved, rid)]) @ EvExecute q (xid, Some fq, None) # ys"
    using assms(2) by simp
  from run_at [OF assms(1) any_client ev] obtain stale n zs m m' ph where
    z: "xs @ [EvReserve rec d c (Inr reserved, rid)] = preamble params stale n @ zs"
      "run_phase any_client (kind_of params) (run_cap params) Idle zs = Some m"
      "next_phase any_client (kind_of params) (run_cap params) m (EvExecute q (xid, Some fq, None)) = Some m'"
      "run_phase any_client (kind_of params) (run_cap params) m' ys = Some ph" "ph = Idle \<or> ph = Stopped" by auto
  from next_execute [OF z(3)] obtain off rid' v where m: "m = Reserved off rid' v" "execute_next any_client off rid' v q (xid, Some fq, None) = Some m'" by blast
  then have m': "m' = Moved rid' xid (PaymentDueUSDStr fq) 0" by (auto simp: execute_next_def split: if_splits)
  from reserved_history [OF z(2) [unfolded m(1)]] obtain ws e r' d' c' reserved' where
    "zs = ws @ [e, EvReserve r' d' c' (Inr reserved', rid')]" by blast
  with z(1) have "xs @ [EvReserve rec d c (Inr reserved, rid)] = (preamble params stale n @ ws @ [e]) @ [EvReserve r' d' c' (Inr reserved', rid')]"
    by simp
  then have "rid' = rid" by (simp only: append1_eq_conv) simp
  have "0 < maxLedgerAttempts" and three: "maxLedgerAttempts - 0 = 3" by (simp_all add: maxLedgerAttempts_def)
  from moved_settles [OF z(4) [unfolded m'] z(5) this(1) assms(3)] show ?thesis
    unfolding three \<open>rid' = rid\<close> .
qed

section \<open>Runs that must not act\<close>

definition mutates :: "auto_event \<Rightarrow> bool" where
  "mutates e \<longleftrightarrow> (case e of EvStale r \<Rightarrow> False | EvLookup p r \<Rightarrow> False | EvQuote q r \<Rightarrow> q_DryRun q | EvNow t \<Rightarrow> False | _ \<Rightarrow> True)"

definition spends :: "auto_event \<Rightarrow> bool" where
  "spends e \<longleftrightarrow> (case e of EvReserve r d c a \<Rightarrow> True | EvExecute q a \<Rightarrow> True | EvComplete i x a e \<Rightarrow> True | EvFail i w e \<Rightarrow> True | _ \<Rightarrow> False)"

definition dry_phase :: "phase \<Rightarrow> bool" where
  "dry_phase ph \<longleftrightarrow> (case ph of Idle \<Rightarrow> True | Looked off \<Rightarrow> True | Stopped \<Rightarrow> True | _ \<Rightarrow> False)"

definition manual_phase :: "phase \<Rightarrow> bool" where
  "manual_phase ph \<longleftrightarrow> (case ph of Reserved a b c \<Rightarrow> False | Failing a \<Rightarrow> False | Voiding a \<Rightarrow> False | Moved a b c d \<Rightarrow> False | _ \<Rightarrow> True)"

lemma dry_step:
  "next_phase ok DryKind cap ph e = Some ph' \<Longrightarrow> dry_phase ph \<Longrightarrow> dry_phase ph' \<and> \<not> mutates e"
  by (auto simp: next_phase_def looked_next_def dry_phase_def mutates_def
      split: phase.splits auto_event.splits if_splits sum.splits option.splits)

lemma manual_step:
  "next_phase ok ManualKind cap ph e = Some ph' \<Longrightarrow> manual_phase ph \<Longrightarrow> manual_phase ph' \<and> \<not> spends e"
  by (auto simp: next_phase_def looked_next_def token_next_def reserve_next_def manual_phase_def spends_def
      split: phase.splits auto_event.splits if_splits sum.splits option.splits)

lemma dry_run_phase: "run_phase ok DryKind cap ph es = Some ph' \<Longrightarrow> dry_phase ph \<Longrightarrow> \<forall>e \<in> set es. \<not> mutates e"
proof (induction es arbitrary: ph)
  case (Cons e es)
  then obtain m where "next_phase ok DryKind cap ph e = Some m" "run_phase ok DryKind cap m es = Some ph'" by (auto split: option.splits)
  with Cons dry_step show ?case by fastforce
qed simp

lemma manual_run_phase: "run_phase ok ManualKind cap ph es = Some ph' \<Longrightarrow> manual_phase ph \<Longrightarrow> \<forall>e \<in> set es. \<not> spends e"
proof (induction es arbitrary: ph)
  case (Cons e es)
  then obtain m where "next_phase ok ManualKind cap ph e = Some m" "run_phase ok ManualKind cap m es = Some ph'" by (auto split: option.splits)
  with Cons manual_step show ?case by fastforce
qed simp

text \<open>The outcomes of a dry run are all simulated.\<close>

definition simulated_only :: "AutoExchangeResult \<Rightarrow> bool" where
  "simulated_only res \<longleftrightarrow> Failed res = [] \<and> (\<forall>oc \<in> set (Completed res @ Pending res). Simulated oc \<and> oc_ExchangeID oc = [] \<and> oc_ApprovalToken oc = [])"

lemma dry_recommendation:
  assumes "processRecommendation env params rec cap res s = (res', fin, s')" and "DryRun params" and "simulated_only res"
  shows "simulated_only res'"
  using assms
  by (auto simp: processRecommendation_def Let_def add_skipped_def simulated_only_def processManualExchange_def
      processAutoExchange_def base_outcome_def split: if_splits sum.splits prod.splits quote_check.splits step_end.splits)

lemma dry_loop:
  "process_loop env params cap recs res s = (Some res', s') \<Longrightarrow> DryRun params \<Longrightarrow> simulated_only res \<Longrightarrow> simulated_only res'"
proof (induction recs arbitrary: res s)
  case (Cons rec recs)
  obtain res1 fin s1 where p: "processRecommendation env params rec cap res s = (res1, fin, s1)" by (metis surj_pair)
  with dry_recommendation Cons.prems have "simulated_only res1" by blast
  with Cons p show ?case by (auto split: step_end.splits)
qed simp

text \<open>A dry run changes nothing. With \<open>DryRun\<close> set, a run only reads: no cancellation, no record
  saved, no token issued, no reservation, no execution and no ledger write is attempted, and
  every outcome it returns is marked as simulated, with no exchange ID and no approval token.
\<close>

theorem dry_run_changes_nothing:
  assumes "RunAutoExchange ovf env params s = (r, s')" and "DryRun params"
  shows "(\<forall>e \<in> set (new_events s s'). \<not> mutates e) \<and> (\<forall>res. r = Inr (Some res) \<longrightarrow> simulated_only res)"
proof
  have k: "kind_of params = DryKind" using assms(2) by (simp add: kind_of_def)
  have c: "cancelStalePending env params s = (None, s)" for s using assms(2) by (simp add: cancelStalePending_def)
  have none: "\<not> (\<exists>origin e'. new_events s s' = [EvCancel origin (Inl e')])"
  proof
    assume "\<exists>origin e'. new_events s s' = [EvCancel origin (Inl e')]"
    then obtain origin e' where ev: "new_events s s' = [EvCancel origin (Inl e')]" by blast
    with run_shape [OF assms(1) any_client] obtain stale n es where
      "(\<exists>e. r = Inl e) \<or> [EvCancel origin (Inl e')] = preamble params stale n @ es" by auto
    then show False
    proof
      assume "\<exists>e. r = Inl e"
      with assms(1) c have "s' = s" by (auto simp: RunAutoExchange_def Let_def split: option.splits prod.splits if_splits)
      with ev show False by (simp add: new_events_def)
    qed (use assms(2) in \<open>simp add: preamble_def\<close>)
  qed
  from run_shape [OF assms(1) any_client] none show "\<forall>e \<in> set (new_events s s'). \<not> mutates e"
  proof (elim disjE exE conjE)
    fix out stale n es ph
    assume "new_events s s' = preamble params stale n @ es" "run_phase any_client (kind_of params) (run_cap params) Idle es = Some ph"
    with dry_run_phase [of any_client "run_cap params" Idle es ph] k assms(2) show ?thesis
      by (auto simp: preamble_def mutates_def dry_phase_def)
  qed auto
  show "\<forall>res. r = Inr (Some res) \<longrightarrow> simulated_only res"
  proof (intro allI impI)
    fix res assume "r = Inr (Some res)"
    with assms c show "simulated_only res"
      by (auto simp: RunAutoExchange_def Let_def simulated_only_def split: option.splits prod.splits if_splits
          dest!: dry_loop [OF _ assms(2)])
  qed
qed

text \<open>Manual mode never spends. A run in manual mode makes no reservation, executes no exchange
  and writes no settlement: what it can do is save requests that wait for an approval.
\<close>

theorem manual_never_spends:
  assumes "RunAutoExchange ovf env params s = (r, s')" and "xc_Mode (Config params) = ExchangeModeManual"
  shows "\<forall>e \<in> set (new_events s s'). \<not> spends e"
proof -
  have k: "kind_of params = ManualKind \<or> kind_of params = DryKind" using assms(2) by (simp add: kind_of_def)
  have dry: "\<not> mutates e \<Longrightarrow> \<not> spends e" for e by (cases e) (auto simp: mutates_def spends_def)
  have pre: "e \<in> set (preamble params stale n) \<Longrightarrow> \<not> spends e" for e stale n
    using preamble_events by (fastforce simp: spends_def)
  from run_shape [OF assms(1) any_client] show ?thesis
  proof (elim disjE exE conjE)
    fix out stale n es ph
    assume "new_events s s' = preamble params stale n @ es" "run_phase any_client (kind_of params) (run_cap params) Idle es = Some ph"
    with k dry_run_phase [of any_client "run_cap params" Idle es ph] manual_run_phase [of any_client "run_cap params" Idle es ph] pre dry
    show ?thesis by (auto simp: dry_phase_def manual_phase_def)
  qed (auto simp: spends_def)
qed

section \<open>The caps sent to the store\<close>

lemma parse_six_decimals:
  assumes "r = of_int n / 1000000"
  shows "ParseDecimalRat (float_string 6 r) = Inr r"
proof -
  have abs: "\<bar>r\<bar> * 10 ^ 6 = of_int \<bar>n\<bar>" using assms by (simp add: abs_divide)
  have "\<lfloor>\<bar>r\<bar> * 10 ^ 6 + 1 / 2\<rfloor> = \<bar>n\<bar>" unfolding abs by (rule floor_unique) simp_all
  then have "float_string 6 r = show_scaled 6 (r < 0) (nat \<bar>n\<bar>)" by (simp only: float_string_def)
  moreover have "scaled_rat 6 (r < 0) (nat \<bar>n\<bar>) = r"
    using assms by (cases "n < 0") (simp_all add: scaled_rat_def of_nat_nat divide_less_0_iff)
  ultimately show ?thesis using ParseDecimalRat_scaled [of 6 "r < 0" "nat \<bar>n\<bar>"] by simp
qed

text \<open>The caps sent to the store never exceed the configured caps. The six-decimal text of a cap
  reads back as a number at or below the cap, and less than a millionth of a dollar below it.
\<close>

theorem floorCapUSD_rounds_down:
  "\<exists>v. ParseDecimalRat (floorCapUSD limit) = Inr v \<and> v \<le> limit \<and> limit < v + 1 / 1000000"
proof -
  obtain a b where q: "quotient_of limit = (a, b)" by (cases "quotient_of limit")
  have b: "0 < b" and l: "limit = of_int a / of_int b" using quotient_of_denom_pos [OF q] quotient_of_div [OF q] by auto
  let ?n = "a * 1000000 div b"
  let ?v = "of_int ?n / 1000000 :: rat"
  have "of_int ?n = (of_int \<lfloor>limit * 1000000\<rfloor> :: rat)"
    using floor_divide_of_int_eq [of "a * 1000000" b, where 'a = rat] by (simp add: l)
  then have "of_int ?n \<le> limit * 1000000" and "limit * 1000000 < of_int ?n + 1" by linarith+
  then have "?v \<le> limit" and "limit < ?v + 1 / 1000000" by (simp_all add: field_simps)
  moreover have "ParseDecimalRat (floorCapUSD limit) = Inr ?v"
    by (simp only: floorCapUSD_def q prod.case) (rule parse_six_decimals [OF refl])
  ultimately show ?thesis by blast
qed

section \<open>Every recommendation is accounted for\<close>

definition outcome_ids :: "AutoExchangeResult \<Rightarrow> go_string list" where
  "outcome_ids res = map oc_SourceRIID (Completed res @ Pending res @ Failed res) @ map sk_SourceRIID (Skipped res)"

lemma resolve_id: "resolveOffering env params rec s = (Inl sk, s') \<Longrightarrow> sk_SourceRIID sk = SourceRIID rec"
  by (auto simp: resolveOffering_def skip_rec_def Let_def split: option.splits prod.splits sum.splits)

lemma quote_id: "getValidatedQuote env params rec off cap s = (QuoteSkip sk, s') \<Longrightarrow> sk_SourceRIID sk = SourceRIID rec"
  by (auto simp: getValidatedQuote_def check_quote_def skip_rec_def Let_def
      split: option.splits prod.splits sum.splits if_splits)

lemma manual_id: "processManualExchange env params rec off payment s = (oc, s') \<Longrightarrow> oc_SourceRIID oc = SourceRIID rec"
  by (auto simp: processManualExchange_def base_outcome_def Let_def split: option.splits prod.splits sum.splits if_splits)

lemma rejected_id: "rejected env rid e o1 s = (oc, fin, s') \<Longrightarrow> oc_SourceRIID oc = oc_SourceRIID o1"
  by (auto simp: rejected_def Let_def split: prod.splits if_splits)

lemma settle_id: "settle env rid xid fq payment o1 s = (oc, fin, s') \<Longrightarrow> oc_SourceRIID oc = oc_SourceRIID o1"
  by (auto simp: settle_def Let_def split: prod.splits option.splits)

lemma after_reserve_id:
  "after_reserve env params rec off payment rid reserved o1 s = (oc, fin, s') \<Longrightarrow> oc_SourceRIID oc = oc_SourceRIID o1"
  by (auto simp: after_reserve_def Let_def split: prod.splits option.splits sum.splits if_splits dest: rejected_id settle_id)

lemma auto_id: "processAutoExchange env params rec off payment cap s = (oc, fin, s') \<Longrightarrow> oc_SourceRIID oc = SourceRIID rec"
  by (auto simp: processAutoExchange_def base_outcome_def Let_def simp del: sprintf.simps
      split: prod.splits option.splits sum.splits if_splits dest: after_reserve_id)

lemma auto_end: "processAutoExchange env params rec off payment cap s = (oc, Halt, s') \<Longrightarrow> \<not> DryRun params"
  by (auto simp: processAutoExchange_def Let_def split: if_splits)

lemma recommendation_accounted:
  assumes "processRecommendation env params rec cap res s = (res', fin, s')" and "fin \<noteq> Panic"
  shows "mset (outcome_ids res') = add_mset (SourceRIID rec) (mset (outcome_ids res))
    \<and> (fin = Halt \<longrightarrow> \<not> DryRun params \<and> xc_Mode (Config params) \<noteq> ExchangeModeManual)"
proof (cases "TargetInstanceType rec = []")
  case True
  with assms show ?thesis by (auto simp: processRecommendation_def add_skipped_def outcome_ids_def skip_rec_def)
next
  case target: False
  obtain o' s1 where o: "resolveOffering env params rec s = (o', s1)" by (cases "resolveOffering env params rec s")
  show ?thesis
  proof (cases o')
    case (Inl sk)
    with assms target o resolve_id show ?thesis
      by (fastforce simp: processRecommendation_def add_skipped_def outcome_ids_def)
  next
    case (Inr off)
    obtain r s2 where q: "getValidatedQuote env params rec off cap s1 = (r, s2)" by (cases "getValidatedQuote env params rec off cap s1")
    show ?thesis
    proof (cases r)
      case (QuoteSkip sk)
      with assms target o Inr q quote_id show ?thesis
        by (fastforce simp: processRecommendation_def add_skipped_def outcome_ids_def)
    next
      case QuotePanic
      with assms target o Inr q show ?thesis by (simp add: processRecommendation_def)
    next
      case (QuoteOk quote due)
      show ?thesis
      proof (cases "xc_Mode (Config params) = ExchangeModeManual")
        case True
        obtain oc s3 where m: "processManualExchange env params rec off (float_string 6 due) s2 = (oc, s3)"
          by (cases "processManualExchange env params rec off (float_string 6 due) s2")
        with assms target o Inr q QuoteOk True manual_id [OF m] show ?thesis
          by (auto simp: processRecommendation_def Let_def outcome_ids_def)
      next
        case auto: False
        obtain oc f s3 where m: "processAutoExchange env params rec off (float_string 6 due) cap s2 = (oc, f, s3)"
          by (metis surj_pair)
        have "f = Halt \<Longrightarrow> \<not> DryRun params" using auto_end m by blast
        with assms target o Inr q QuoteOk auto auto_id [OF m] m show ?thesis
          by (cases f) (auto simp: processRecommendation_def Let_def outcome_ids_def)
      qed
    qed
  qed
qed

lemma loop_accounted:
  "process_loop env params cap recs res s = (Some res', s') \<Longrightarrow>
    \<exists>n \<le> length recs. mset (outcome_ids res') = mset (outcome_ids res) + mset (map SourceRIID (take n recs))
      \<and> (n < length recs \<longrightarrow> \<not> DryRun params \<and> xc_Mode (Config params) \<noteq> ExchangeModeManual)"
proof (induction recs arbitrary: res s)
  case Nil
  then show ?case by simp
next
  case (Cons rec recs)
  obtain res1 fin s1 where p: "processRecommendation env params rec cap res s = (res1, fin, s1)" by (metis surj_pair)
  show ?case
  proof (cases fin)
    case Continue
    with Cons.prems p have "process_loop env params cap recs res1 s1 = (Some res', s')" by simp
    from Cons.IH [OF this] recommendation_accounted [OF p] Continue obtain n where
      "n \<le> length recs" "mset (outcome_ids res') = mset (outcome_ids res) + mset (map SourceRIID (take (Suc n) (rec # recs)))"
      "n < length recs \<longrightarrow> \<not> DryRun params \<and> xc_Mode (Config params) \<noteq> ExchangeModeManual" by auto
    then show ?thesis by (intro exI [of _ "Suc n"]) simp
  next
    case Halt
    with Cons.prems p have "res' = res1" by simp
    with recommendation_accounted [OF p] Halt show ?thesis by (intro exI [of _ 1]) simp
  next
    case Panic
    with Cons.prems p show ?thesis by simp
  qed
qed

text \<open>Every recommendation is accounted for once. The four lists of the result, taken together, name
  the source RIs of the first recommendations of the analysis, each exactly as often as it was
  recommended; all of them, unless a live automatic run was halted.
\<close>

theorem auto_accounts_for_all:
  assumes "RunAutoExchange ovf env params s = (Inr (Some res), s')"
    and "recs = AnalyzeReshaping ovf (RIs params) (Utilization params) (UtilizationThreshold (Config params))
      (WithOfferedInstanceTypes (OfferedInstanceTypes params))"
  shows "\<exists>n \<le> length recs. mset (outcome_ids res) = mset (map SourceRIID (take n recs))
    \<and> (n < length recs \<longrightarrow> \<not> DryRun params \<and> xc_Mode (Config params) \<noteq> ExchangeModeManual)"
proof -
  let ?res = "\<lparr>res_Mode = xc_Mode (Config params), Completed = [], Pending = [], Failed = [], Skipped = []\<rparr>"
  consider "recs = []" "res = ?res" | s2 s3 where "process_loop env params (run_cap params) recs ?res s2 = (Some res, s3)"
    using assms(1) unfolding assms(2)
    by (auto simp: RunAutoExchange_def Let_def run_cap_def split: option.splits prod.splits if_splits)
  then show ?thesis
  proof cases
    case 1
    then show ?thesis by (simp add: outcome_ids_def)
  next
    case 2
    from loop_accounted [OF 2] show ?thesis by (simp add: outcome_ids_def)
  qed
qed

section \<open>Composition with the exchange client\<close>

text \<open>What an error-free answer of the client owes the caller.\<close>

definition within_ceiling :: "ExchangeExecuteRequest \<Rightarrow> exec_result \<Rightarrow> bool" where
  "within_ceiling q a = (case a of (xid, fq, err) \<Rightarrow> (case err of Some e \<Rightarrow> True | None \<Rightarrow>
     xid \<noteq> [] \<and> (\<exists>s v p. fq = Some s \<and> x_MaxPaymentDueUSD q = Some v \<and> p \<le> v \<and> PaymentDueUSDStr s = float_string 6 p)))"

lemma moved_history:
  "run_phase ok k cap Idle zs = Some (Moved rid xid amt n) \<Longrightarrow>
    \<exists>q fq v r d c reserved. ok q (xid, fq, None) \<and> x_MaxPaymentDueUSD q = Some v
      \<and> amt = (case fq of None \<Rightarrow> [] | Some s \<Rightarrow> PaymentDueUSDStr s)
      \<and> EvReserve r d c (Inr reserved, rid) \<in> set zs \<and> ParseDecimalRat reserved = Inr v \<and> 0 \<le> v"
proof (induction n arbitrary: zs)
  case 0
  from run_last [OF 0] obtain xs e m where xs: "zs = xs @ [e]" "run_phase ok k cap Idle xs = Some m"
    "next_phase ok k cap m e = Some (Moved rid xid amt 0)" by auto
  from next_moved_from [OF xs(3)] obtain off v q fq where h: "m = Reserved off rid v"
    "amt = (case fq of None \<Rightarrow> [] | Some s \<Rightarrow> PaymentDueUSDStr s)" "x_MaxPaymentDueUSD q = Some v" "ok q (xid, fq, None)" by auto
  from reserved_history [OF xs(2) [unfolded h(1)]] obtain ws e1 r d c reserved where
    "xs = ws @ [e1, EvReserve r d c (Inr reserved, rid)]" "ParseDecimalRat reserved = Inr v" "0 \<le> v" by blast
  with h xs(1) show ?case by (intro exI [of _ q] exI [of _ fq] exI [of _ v] exI [of _ r] exI [of _ d] exI [of _ c] exI [of _ reserved]) simp
next
  case (Suc n)
  from run_last [OF Suc.prems] obtain xs e m where xs: "zs = xs @ [e]" "run_phase ok k cap Idle xs = Some m"
    "next_phase ok k cap m e = Some (Moved rid xid amt (Suc n))" by auto
  from next_moved_from [OF xs(3)] have "m = Moved rid xid amt n" by auto
  then have "run_phase ok k cap Idle xs = Some (Moved rid xid amt n)" using xs(2) by simp
  from Suc.IH [OF this] obtain q fq v r d c reserved where h: "ok q (xid, fq, None)" "x_MaxPaymentDueUSD q = Some v"
    "amt = (case fq of None \<Rightarrow> [] | Some s \<Rightarrow> PaymentDueUSDStr s)" "EvReserve r d c (Inr reserved, rid) \<in> set xs"
    "ParseDecimalRat reserved = Inr v" "0 \<le> v" by blast
  from h(4) have "EvReserve r d c (Inr reserved, rid) \<in> set zs" using xs(1) by simp
  with h(1,2,3,5,6) show ?case by blast
qed

lemma six_decimal_error: "p \<le> v \<Longrightarrow> \<exists>a. ParseDecimalRat (float_string 6 p) = Inr a \<and> a \<le> v + 1 / 2000000"
proof -
  assume "p \<le> v"
  moreover obtain a where "ParseDecimalRat (float_string 6 p) = Inr a" and e: "\<bar>a - p\<bar> \<le> 1 / 2000000"
    using ParseDecimalRat_float_string by blast
  moreover have "a - p \<le> 1 / 2000000" using e by (rule order_trans [OF abs_ge_self])
  ultimately show ?thesis by (intro exI [of _ a]) simp
qed

lemma float_string_not_empty: "float_string n p \<noteq> []"
  by (simp add: float_string_def show_scaled_def)

text \<open>
  The interface of the client as the run uses it: an execute call that reports success carries an
  exchange ID and the fresh quote, whose payment is within the ceiling of the request.
\<close>

locale capped_client =
  fixes exec :: "ExchangeExecuteRequest \<Rightarrow> 'w \<Rightarrow> exec_result \<times> 'w"
  assumes success_within: "within_ceiling q (fst (exec q w))"
begin

lemma contract: "ClientExecute env = exec \<Longrightarrow> client_contract within_ceiling env"
  using success_within by (simp add: client_contract_def)

lemma settled_within:
  assumes "ClientExecute env = exec" and "RunAutoExchange ovf env params s = (r, s')"
    and "new_events s s' = xs @ EvComplete rid xid amt e # ys"
  shows "xid \<noteq> [] \<and> (\<exists>rec d c reserved v a. EvReserve rec d c (Inr reserved, rid) \<in> set xs
    \<and> ParseDecimalRat reserved = Inr v \<and> 0 \<le> v \<and> ParseDecimalRat amt = Inr a \<and> a \<le> v + 1 / 2000000)"
proof -
  from run_at [OF assms(2) contract [OF assms(1)] assms(3)] obtain stale n zs m m' where
    z: "xs = preamble params stale n @ zs" "run_phase within_ceiling (kind_of params) (run_cap params) Idle zs = Some m"
      "next_phase within_ceiling (kind_of params) (run_cap params) m (EvComplete rid xid amt e) = Some m'" by auto
  from next_complete [OF z(3)] obtain rid' xid' amt' k where m: "m = Moved rid' xid' amt' k"
    and c: "complete_next rid' xid' amt' k rid xid amt e = Some m'" by blast
  from moved_history [OF z(2) [unfolded m]] obtain q fq v rec d c' reserved where
    h: "within_ceiling q (xid', fq, None)" "x_MaxPaymentDueUSD q = Some v"
      "amt' = (case fq of None \<Rightarrow> [] | Some s \<Rightarrow> PaymentDueUSDStr s)"
      "EvReserve rec d c' (Inr reserved, rid') \<in> set zs" "ParseDecimalRat reserved = Inr v" "0 \<le> v" by blast
  from h(1,2) obtain fs p where p: "xid' \<noteq> []" "fq = Some fs" "p \<le> v" "PaymentDueUSDStr fs = float_string 6 p"
    by (auto simp: within_ceiling_def)
  with h(3) have "amt' = float_string 6 p" by simp
  with c float_string_not_empty have same: "rid' = rid" "xid' = xid" "amt = float_string 6 p"
    by (auto simp: complete_next_def split: if_splits)
  from six_decimal_error [OF p(3)] obtain a where a: "ParseDecimalRat amt = Inr a" "a \<le> v + 1 / 2000000"
    unfolding same(3) by blast
  from h(4) z(1) same(1) have "EvReserve rec d c' (Inr reserved, rid) \<in> set xs" by simp
  with a h(5,6) p(1) same(2) show ?thesis by blast
qed

end

lemma Execute_within:
  "within_ceiling q (fst (Execute thr c q w))"
proof -
  obtain xid fq err w' where run: "Execute thr c q w = ((xid, fq, err), w')" by (metis surj_pair)
  show ?thesis
  proof (cases err)
    case None
    from run None obtain cap q1 s1 s2 q2 s3 where st: "x_MaxPaymentDueUSD q = Some cap"
      "quoteWithAPI (client_ec2 c) (execute_quote_request q) s1 = (Inr q1, s2)"
      "quoteWithAPI (client_ec2 c) (execute_quote_request q) s2 = (Inr q2, s3)"
      "checkReQuote q2 cap = None" "accept_step thr (client_ec2 c) q q2 s3 = ((xid, fq, None), w')"
      by (auto simp: Execute_def executeWithAPI_def requote_step_def split: option.splits sum.splits prod.splits)
    from accept_step_verdict [OF st(5)] have f: "fq = Some q2" "xid \<noteq> []" by (auto simp: accept_verdict_def)
    from st(4) obtain p where p: "p \<le> cap" "requireUSDPaymentDue q2 = Inr p" unfolding checkReQuote_None by blast
    from quoteWithAPI_ok [OF st(3)] obtain out where "quote_summary out = Inr q2" by blast
    with p(2) have "PaymentDueUSDStr q2 = float_string 6 p"
      by (auto simp: quote_summary_def requireUSDPaymentDue_def payment_of_def split: option.splits sum.splits prod.splits if_splits)
    with run None st(1) f p(1) show ?thesis by (auto simp: within_ceiling_def)
  next
    case (Some e)
    with run show ?thesis by (simp add: within_ceiling_def)
  qed
qed

interpretation ec2_client: capped_client "Execute thr c" for thr :: "go_string \<Rightarrow> bool" and c :: "'w Client"
  by unfold_locales (rule Execute_within)

text \<open>What the ledger records is within what was reserved. When the run uses the exchange client of
  this package, every settlement it writes carries a non-empty exchange ID and an amount that is
  at most the ceiling of the reservation it settles, up to half a millionth of a dollar for
  the six-decimal rendering; the re-quote inside the client and the reservation before it together
  enforce the daily and per-exchange budgets.
\<close>

theorem settled_amount_within_ceiling:
  assumes "ClientExecute env = Execute throttled c" and "RunAutoExchange ovf env params s = (r, s')"
    and "new_events s s' = xs @ EvComplete rid xid amt e # ys"
  shows "xid \<noteq> [] \<and> (\<exists>rec d cap reserved v a. EvReserve rec d cap (Inr reserved, rid) \<in> set xs
    \<and> ParseDecimalRat reserved = Inr v \<and> 0 \<le> v \<and> ParseDecimalRat amt = Inr a \<and> a \<le> v + 1 / 2000000)"
  using assms by (rule ec2_client.settled_within)

section \<open>A run\<close>

definition demo_sum :: "go_string \<Rightarrow> rat \<Rightarrow> ExchangeQuoteSummary" where
  "demo_sum raw p = \<lparr>PaymentDueUSD = Some p, ValidationFailureReason = [], CurrencyCode = ''USD'', PaymentDueRaw = raw,
     PaymentDueUSDStr = float_string 6 p, OutputReservedInstancesExp = format_date 0, SourceHourlyPriceRaw = [],
     SourceRemainingUpfrontRaw = [], SourceRemainingTotalRaw = [], TargetHourlyPriceRaw = [], TargetRemainingUpfrontRaw = [],
     TargetRemainingTotalRaw = [], IsValidExchange = True\<rparr>"

lemma demo_summaries:
  "quote_summary (demo_output ''10.5'') = Inr (demo_sum ''10.5'' (21 / 2))"
  "quote_summary (demo_output ''99.0'') = Inr (demo_sum ''99.0'' 99)"
  by (simp_all add: quote_summary_def demo_output_def payment_of_def ToString_def demo_parse demo_parse_99 demo_sum_def
      rollup_str_def ToBool_def)

lemma demo_quoteWithAPI:
  assumes "q_ReservedIDs req \<noteq> []" and "q_Targets req = []" and "q_TargetOfferingID req = ''off''" and "q_TargetCount req = 1"
  shows "\<exists>w'. world w' = world w + 1 \<and> quoteWithAPI (demo_api a) req w =
    (Inr (if world w \<le> 1 then demo_sum ''10.5'' (21 / 2) else demo_sum ''99.0'' 99), w')"
  using assms demo_trim demo_summaries
  by (simp add: quoteWithAPI_def validateTargets_def call_quote_def demo_api_def)

lemma requireUSD_demo: "requireUSDPaymentDue (demo_sum raw p) = Inr p" "IsValidExchange (demo_sum raw p)"
  by (simp_all add: requireUSDPaymentDue_def demo_sum_def)

lemma demo_str: "PaymentDueUSDStr (demo_sum raw p) \<noteq> []"
  by (simp add: demo_sum_def float_string_not_empty)

definition demo_env :: "(go_error + go_string option) \<Rightarrow> nat aws_state auto_env" where
  "demo_env a = \<lparr>CancelPendingExchangesByOrigin = (\<lambda>p w. (Inr 0, w)), GetStaleProcessingExchanges = (\<lambda>t w. (Inr [], w)),
     SaveRIExchangeRecord = (\<lambda>r w. ((None, ''rec-0''), w)), ReserveRIExchange = (\<lambda>r d c w. ((Inr ''99.0'', ''rec-1''), w)),
     CompleteRIExchangeWithPayment = (\<lambda>i x m w. (None, w)), FailRIExchange = (\<lambda>i y w. (None, w)),
     ClientGetQuote = GetQuote (demo_client a), ClientExecute = Execute (\<lambda>c. False) (demo_client a),
     LookupOffering = (\<lambda>p w. (Inr ''off'', w)), GenerateApprovalToken = (\<lambda>w. (Inr ''token'', w)), TimeNow = (\<lambda>w. (0, w))\<rparr>"

definition demo_params :: "go_string \<Rightarrow> bool \<Rightarrow> RunAutoExchangeParams" where
  "demo_params m dry = \<lparr>RIMetadata = (\<lambda>i. Some \<lparr>rm_ProductDescription = ''Linux'', rm_InstanceTenancy = ''default'',
       rm_Scope = ''Region'', rm_AvailabilityZone = [], rm_OfferingType = ''No Upfront'', rm_Duration = 31536000\<rparr>),
     LadderRunID = None, ap_AccountID = ''123'', ap_Region = ''eu'', RIs = [demo_ri], Utilization = demo_util,
     OfferedInstanceTypes = [],
     Config = \<lparr>xc_Mode = m, UtilizationThreshold = Fin 80, MaxPaymentPerExchangeUSD = Fin 100, MaxPaymentDailyUSD = Fin 1000,
       xc_LookbackDays = 30\<rparr>, DryRun = dry\<rparr>"

definition auto_start :: "nat aws_state auto_state" where
  "auto_start = \<lparr>auto_world = demo_start, auto_events = []\<rparr>"

lemma demo_executeWithAPI:
  assumes "x_MaxPaymentDueUSD q = Some 99" and "x_ExpectedAccount q = []" and "x_ReservedIDs q \<noteq> []" and "x_Targets q = []"
    and "x_TargetOfferingID q = ''off''" and "x_TargetCount q = 1"
  shows "\<exists>fq w'. Execute (\<lambda>c. False) (demo_client a) q w = (case a of
      Inl e \<Rightarrow> (([], Some fq, Some (classifyAcceptError (\<lambda>c. False) e)), w')
    | Inr xid \<Rightarrow> if ToString xid = [] then (([], Some fq, Some (wrapf ''%w: accept returned no exchange ID'' [ArgS (err_text ErrOutcomeUnknown)] [ErrOutcomeUnknown])), w')
        else ((ToString xid, Some fq, None), w')) \<and> PaymentDueUSDStr fq \<noteq> []"
proof -
  have acct: "assertAccount (client_identity (demo_client a)) [] w = (None, w)" by (simp add: assertAccount_def)
  have c: "client_ec2 (demo_client a) = demo_api a" by (simp add: demo_client_def)
  have r: "q_ReservedIDs (execute_quote_request q) \<noteq> []" "q_Targets (execute_quote_request q) = []"
    "q_TargetOfferingID (execute_quote_request q) = ''off''" "q_TargetCount (execute_quote_request q) = 1"
    using assms by (simp_all add: execute_quote_request_def)
  obtain q1 w1 where q1: "quoteWithAPI (demo_api a) (execute_quote_request q) w = (Inr q1, w1)" "checkInitialQuote q1 99 = None"
    using demo_quoteWithAPI [OF r, of w a] by (auto simp: checkInitialQuote_def requireUSD_demo split: if_splits)
  obtain q2 w2 where q2: "quoteWithAPI (demo_api a) (execute_quote_request q) w1 = (Inr q2, w2)" "checkReQuote q2 99 = None"
    "PaymentDueUSDStr q2 \<noteq> []"
    using demo_quoteWithAPI [OF r, of w1 a]
    by (auto simp: checkReQuote_def requireUSD_demo demo_str split: if_splits)
  obtain w3 where "call_accept (demo_api a) (execute_accept_input q) w2 = (a, w3)"
    by (simp add: call_accept_def demo_api_def)
  with q1 q2 acct c assms(1,2) show ?thesis
    by (intro exI [of _ q2] exI [of _ w3])
      (auto simp: Execute_def executeWithAPI_def requote_step_def accept_step_def split: sum.splits)
qed

lemma demo_recs:
  "\<exists>rec. AnalyzeReshaping ovf (RIs (demo_params m dry)) (Utilization (demo_params m dry)) (UtilizationThreshold (Config (demo_params m dry)))
      (WithOfferedInstanceTypes (OfferedInstanceTypes (demo_params m dry))) = [rec]
    \<and> TargetInstanceType rec = ''m5.2xlarge'' \<and> TargetCount rec = 1"
  using demo_reshape [of ovf] by (auto simp: demo_params_def WithOfferedInstanceTypes_def Cons_eq_map_conv)

lemma demo_projections:
  "DryRun (demo_params m d) = d" "LadderRunID (demo_params m d) = None" "xc_Mode (Config (demo_params m d)) = m"
  "\<exists>meta. RIMetadata (demo_params m d) i = Some meta" "run_cap (demo_params m d) = Some 100"
  "set_float64 (MaxPaymentDailyUSD (Config (demo_params m d))) = Some 1000"
  "set_float64 (MaxPaymentPerExchangeUSD (Config (demo_params m d))) = Some 100"
  by (simp_all add: demo_params_def run_cap_def)

lemma demo_answers:
  "CancelPendingExchangesByOrigin (demo_env a) o' w = (Inr 0, w)" "GetStaleProcessingExchanges (demo_env a) t w = (Inr [], w)"
  "LookupOffering (demo_env a) p w = (Inr ''off'', w)"
  "ReserveRIExchange (demo_env a) r d c w = ((Inr ''99.0'', ''rec-1''), w)"
  "CompleteRIExchangeWithPayment (demo_env a) i x m w = (None, w)"
  by (simp_all add: demo_env_def)

lemma demo_until_reserve:
  "\<exists>rec p0 p1 l q rc d c o1 w1 pay. TargetCount rec = 1 \<and>
     (\<forall>oc fin s'. after_reserve (demo_env a) (demo_params ''auto'' False) rec ''off'' pay ''rec-1'' ''99.0'' o1
        \<lparr>auto_world = w1, auto_events = [p0, p1, l, q, EvReserve rc d c (Inr ''99.0'', ''rec-1'')]\<rparr> = (oc, fin, s') \<and> fin \<noteq> Panic \<longrightarrow>
        (\<exists>r. RunAutoExchange ovf (demo_env a) (demo_params ''auto'' False) auto_start = (Inr (Some r), s')))"
proof -
  let ?env = "demo_env a" and ?P = "demo_params ''auto'' False"
  obtain rec where rec: "AnalyzeReshaping ovf (RIs ?P) (Utilization ?P) (UtilizationThreshold (Config ?P))
      (WithOfferedInstanceTypes (OfferedInstanceTypes ?P)) = [rec]" "TargetInstanceType rec = ''m5.2xlarge''" "TargetCount rec = 1"
    using demo_recs by blast
  obtain meta where meta: "RIMetadata ?P (SourceRIID rec) = Some meta" using demo_projections(4) by blast
  let ?q = "auto_quote_request ?P rec ''off''"
  obtain w1 where w1: "ClientGetQuote ?env ?q demo_start = (Inr (demo_sum ''10.5'' (21 / 2)), w1)"
    using demo_quoteWithAPI [of ?q demo_start a] rec(3)
    by (auto simp: demo_env_def GetQuote_def getQuoteWithAPI_def assertAccount_def demo_client_def auto_quote_request_def demo_start_def)
  let ?pay = "float_string 6 (21 / 2)"
  obtain p where p: "ParseDecimalRat ?pay = Inr p" using ParseDecimalRat_float_string by blast
  have modes: "validateMode ''auto'' = None" "''auto'' \<noteq> ExchangeModeManual"
    by (simp_all add: validateMode_def ExchangeModeAuto_def ExchangeModeManual_def)
  define lp where "lp = \<lparr>lp_InstanceType = TargetInstanceType rec, lp_ProductDescription = rm_ProductDescription meta,
                lp_Tenancy = rm_InstanceTenancy meta, lp_Scope = rm_Scope meta, lp_AvailabilityZone = rm_AvailabilityZone meta,
                lp_OfferingType = rm_OfferingType meta, lp_Duration = rm_Duration meta\<rparr>"
  define s2 where "s2 = \<lparr>auto_world = demo_start, auto_events = [EvCancel ExchangeOriginStandalone (Inr 0), EvStale (Inr [])]\<rparr>"
  define s3 where "s3 = \<lparr>auto_world = demo_start, auto_events = auto_events s2 @ [EvLookup lp (Inr ''off'')]\<rparr>"
  define s4 where "s4 = \<lparr>auto_world = w1, auto_events = auto_events s3 @ [EvQuote ?q (Inr (demo_sum ''10.5'' (21 / 2)))]\<rparr>"
  define rc where "rc = exchange_record ?P rec ''off'' ?pay ''processing'' ExchangeModeAuto"
  define s5 where "s5 = \<lparr>auto_world = w1, auto_events = auto_events s4 @
    [EvReserve rc (floorCapUSD 1000) (floorCapUSD 100) (Inr ''99.0'', ''rec-1'')]\<rparr>"
  define o1 where "o1 = (base_outcome rec ''off'' ?pay)\<lparr>oc_RecordID := ''rec-1''\<rparr>"
  have look: "resolveOffering ?env ?P rec s2 = (Inr ''off'', s3)"
    using meta demo_answers(3) by (simp add: resolveOffering_def auto_call_def s2_def s3_def Let_def lp_def)
  have quote: "getValidatedQuote ?env ?P rec ''off'' (Some 100) s3 = (QuoteOk (demo_sum ''10.5'' (21 / 2)) (21 / 2), s4)"
    using w1 by (simp add: getValidatedQuote_def auto_call_def s3_def s4_def Let_def check_quote_def requireUSD_demo)
  have reserve: "processAutoExchange ?env ?P rec ''off'' ?pay (Some 100) s4 = after_reserve ?env ?P rec ''off'' ?pay ''rec-1'' ''99.0'' o1 s5"
    using p demo_answers(4) by (simp add: processAutoExchange_def demo_projections Let_def auto_call_def s4_def s5_def rc_def o1_def)
  have "(\<exists>r. RunAutoExchange ovf ?env ?P auto_start = (Inr (Some r), s'))"
    if ar: "after_reserve ?env ?P rec ''off'' ?pay ''rec-1'' ''99.0'' o1 s5 = (oc, fin, s')" "fin \<noteq> Panic" for oc fin s'
  proof -
    have pr: "\<exists>res'. processRecommendation ?env ?P rec (Some 100) res s2 = (res', fin, s')" for res
      using rec(2) look quote modes reserve ar
      by (cases fin) (auto simp: processRecommendation_def demo_projections Let_def)
    have lp: "\<exists>res'. process_loop ?env ?P (Some 100) [rec] res s2 = (Some res', s')" for res
      using pr [of res] ar(2) by (cases fin) auto
    have "cancelStalePending ?env ?P auto_start = (None, \<lparr>auto_world = demo_start, auto_events = [EvCancel ExchangeOriginStandalone (Inr 0)]\<rparr>)"
      by (simp add: cancelStalePending_def demo_projections auto_call_def demo_answers auto_start_def)
    moreover have "auto_call (GetStaleProcessingExchanges ?env staleProcessingThreshold) EvStale
        \<lparr>auto_world = demo_start, auto_events = [EvCancel ExchangeOriginStandalone (Inr 0)]\<rparr> = (Inr [], s2)"
      by (simp add: auto_call_def demo_answers s2_def)
    moreover obtain res' where "process_loop ?env ?P (Some 100) [rec]
        \<lparr>res_Mode = ''auto'', Completed = [], Pending = [], Failed = [], Skipped = []\<rparr> s2 = (Some res', s')" using lp by blast
    ultimately show ?thesis using modes rec(1)
      by (simp add: RunAutoExchange_def demo_projections Let_def)
  qed
  then have "\<forall>oc fin s'. after_reserve ?env ?P rec ''off'' ?pay ''rec-1'' ''99.0'' o1 s5 = (oc, fin, s') \<and> fin \<noteq> Panic \<longrightarrow>
    (\<exists>r. RunAutoExchange ovf ?env ?P auto_start = (Inr (Some r), s'))" by blast
  moreover have "s5 = \<lparr>auto_world = w1, auto_events = [EvCancel ExchangeOriginStandalone (Inr 0), EvStale (Inr []), EvLookup lp (Inr ''off''),
      EvQuote ?q (Inr (demo_sum ''10.5'' (21 / 2))), EvReserve rc (floorCapUSD 1000) (floorCapUSD 100) (Inr ''99.0'', ''rec-1'')]\<rparr>"
    by (simp add: s5_def s4_def s3_def s2_def)
  ultimately show ?thesis using rec(3) by metis
qed

lemma demo_auto_events:
  "\<exists>r s' p0 p1 l q rc d c x fq amt. RunAutoExchange ovf (demo_env (Inr (Some ''x1''))) (demo_params ''auto'' False) auto_start = (Inr (Some r), s')
     \<and> new_events auto_start s' = [p0, p1, l, q] @ EvReserve rc d c (Inr ''99.0'', ''rec-1'') # EvExecute x (''x1'', Some fq, None)
        # [EvComplete ''rec-1'' ''x1'' amt None] \<and> PaymentDueUSDStr fq \<noteq> []"
proof -
  let ?a = "Inr (Some ''x1'') :: go_error + go_string option" and ?P = "demo_params ''auto'' False"
  obtain rec p0 p1 l q rc d c o1 w1 pay where tc: "TargetCount rec = 1" and run:
    "\<And>oc fin s'. after_reserve (demo_env ?a) ?P rec ''off'' pay ''rec-1'' ''99.0'' o1
        \<lparr>auto_world = w1, auto_events = [p0, p1, l, q, EvReserve rc d c (Inr ''99.0'', ''rec-1'')]\<rparr> = (oc, fin, s') \<Longrightarrow> fin \<noteq> Panic \<Longrightarrow>
        (\<exists>r. RunAutoExchange ovf (demo_env ?a) ?P auto_start = (Inr (Some r), s'))"
    using demo_until_reserve [of ?a ovf] by blast
  let ?x = "auto_execute_request ?P rec ''off'' 99"
  obtain fq w2 where x: "ClientExecute (demo_env ?a) ?x w1 = ((''x1'', Some fq, None), w2)" "PaymentDueUSDStr fq \<noteq> []"
    using demo_executeWithAPI [of ?x ?a w1] tc by (auto simp: demo_env_def auto_execute_request_def ToString_def)
  let ?s' = "\<lparr>auto_world = w2, auto_events = [p0, p1, l, q, EvReserve rc d c (Inr ''99.0'', ''rec-1''),
     EvExecute ?x (''x1'', Some fq, None), EvComplete ''rec-1'' ''x1'' (PaymentDueUSDStr fq) None]\<rparr>"
  have "\<exists>oc. after_reserve (demo_env ?a) ?P rec ''off'' pay ''rec-1'' ''99.0'' o1
     \<lparr>auto_world = w1, auto_events = [p0, p1, l, q, EvReserve rc d c (Inr ''99.0'', ''rec-1'')]\<rparr> = (oc, Continue, ?s')"
    using x by (simp add: after_reserve_def Let_def demo_parse_99 auto_call_def settle_def completeLedgerRecord_def
        maxLedgerAttempts_def numeral_3_eq_3 demo_answers acceptedAmountFromQuote_def)
  with run obtain r where "RunAutoExchange ovf (demo_env ?a) ?P auto_start = (Inr (Some r), ?s')" by blast
  moreover have "new_events auto_start ?s' = [p0, p1, l, q] @ EvReserve rc d c (Inr ''99.0'', ''rec-1'') # EvExecute ?x (''x1'', Some fq, None)
        # [EvComplete ''rec-1'' ''x1'' (PaymentDueUSDStr fq) None]" by (simp add: new_events_def auto_start_def)
  ultimately show ?thesis using x(2) by blast
qed

lemma demo_lost_events:
  "\<exists>r s' xs x fq err. RunAutoExchange ovf (demo_env demo_lost) (demo_params ''auto'' False) auto_start = (Inr (Some r), s')
     \<and> new_events auto_start s' = xs @ [EvExecute x ([], Some fq, Some err)] \<and> outcome_unknown err"
proof -
  let ?P = "demo_params ''auto'' False"
  obtain rec p0 p1 l q rc d c o1 w1 pay where tc: "TargetCount rec = 1" and run:
    "\<And>oc fin s'. after_reserve (demo_env demo_lost) ?P rec ''off'' pay ''rec-1'' ''99.0'' o1
        \<lparr>auto_world = w1, auto_events = [p0, p1, l, q, EvReserve rc d c (Inr ''99.0'', ''rec-1'')]\<rparr> = (oc, fin, s') \<Longrightarrow> fin \<noteq> Panic \<Longrightarrow>
        (\<exists>r. RunAutoExchange ovf (demo_env demo_lost) ?P auto_start = (Inr (Some r), s'))"
    using demo_until_reserve [of demo_lost ovf] by blast
  let ?x = "auto_execute_request ?P rec ''off'' 99"
  obtain fq w2 e where x: "ClientExecute (demo_env demo_lost) ?x w1 = (([], Some fq, Some e), w2)" "outcome_unknown e"
    using demo_executeWithAPI [of ?x demo_lost w1] tc
    by (auto simp: demo_env_def auto_execute_request_def demo_lost_def classifyAcceptError_def outcome_unknown_def ErrOutcomeUnknown_def Let_def)
  let ?s' = "\<lparr>auto_world = w2, auto_events = [p0, p1, l, q, EvReserve rc d c (Inr ''99.0'', ''rec-1''), EvExecute ?x ([], Some fq, Some e)]\<rparr>"
  have "\<exists>oc. after_reserve (demo_env demo_lost) ?P rec ''off'' pay ''rec-1'' ''99.0'' o1
     \<lparr>auto_world = w1, auto_events = [p0, p1, l, q, EvReserve rc d c (Inr ''99.0'', ''rec-1'')]\<rparr> = (oc, Halt, ?s')"
    using x by (simp add: after_reserve_def Let_def demo_parse_99 auto_call_def rejected_def)
  with run obtain r where "RunAutoExchange ovf (demo_env demo_lost) ?P auto_start = (Inr (Some r), ?s')" by blast
  moreover have "new_events auto_start ?s' = [p0, p1, l, q, EvReserve rc d c (Inr ''99.0'', ''rec-1'')] @ [EvExecute ?x ([], Some fq, Some e)]"
    by (simp add: new_events_def auto_start_def)
  ultimately show ?thesis using x(2) by blast
qed

theorem auto_run_follows_protocol_witness:
  "\<exists>s' stale n es ph. new_events auto_start s' = preamble (demo_params ''auto'' False) stale n @ es
     \<and> run_phase any_client AutoKind (Some 100) Idle es = Some ph \<and> (ph = Idle \<or> ph = Stopped)"
proof -
  obtain r s' where run: "RunAutoExchange (\<lambda>x. 0) (demo_env (Inr (Some ''x1''))) (demo_params ''auto'' False) auto_start = (Inr (Some r), s')"
    using demo_auto_events by blast
  have "kind_of (demo_params ''auto'' False) = AutoKind"
    by (simp add: kind_of_def demo_projections ExchangeModeManual_def)
  with auto_run_follows_protocol [OF run] obtain stale n es ph where
    "new_events auto_start s' = preamble (demo_params ''auto'' False) stale n @ es"
    "run_phase any_client AutoKind (Some 100) Idle es = Some ph" "ph = Idle \<or> ph = Stopped" by (auto simp: demo_projections)
  then show ?thesis by blast
qed

theorem auto_execute_reserved_witness:
  "\<exists>(q :: ExchangeExecuteRequest) v. x_MaxPaymentDueUSD q = Some v \<and> 0 \<le> v \<and> \<not> DryRun (demo_params ''auto'' False)"
proof -
  obtain r s' p0 p1 l q rc d c x fq amt where run: "RunAutoExchange (\<lambda>x. 0) (demo_env (Inr (Some ''x1''))) (demo_params ''auto'' False) auto_start = (Inr (Some r), s')"
    and ev: "new_events auto_start s' = ([p0, p1, l, q] @ [EvReserve rc d c (Inr ''99.0'', ''rec-1'')]) @ EvExecute x (''x1'', Some fq, None)
        # [EvComplete ''rec-1'' ''x1'' amt None]" using demo_auto_events by fastforce
  from auto_execute_reserved [OF run ev] show ?thesis by blast
qed

theorem auto_halts_witness:
  "\<exists>s' xs x fq err. new_events auto_start s' = xs @ EvExecute x ([], Some fq, Some err) # [] \<and> outcome_unknown err"
proof -
  obtain r s' xs x fq err where run: "RunAutoExchange (\<lambda>x. 0) (demo_env demo_lost) (demo_params ''auto'' False) auto_start = (Inr (Some r), s')"
    and ev: "new_events auto_start s' = xs @ EvExecute x ([], Some fq, Some err) # []" and u: "outcome_unknown err"
    using demo_lost_events by blast
  from auto_halts [OF run ev] u ev show ?thesis by blast
qed

theorem auto_settles_or_ends_witness:
  "\<exists>amt errs rest. length errs < 3 \<and>
     [EvComplete ''rec-1'' ''x1'' amt None] = settle_tries ''rec-1'' ''x1'' amt errs @ EvComplete ''rec-1'' ''x1'' amt None # rest"
proof -
  obtain r s' p0 p1 l q rc d c x fq amt where run: "RunAutoExchange (\<lambda>x. 0) (demo_env (Inr (Some ''x1''))) (demo_params ''auto'' False) auto_start = (Inr (Some r), s')"
    and ev: "new_events auto_start s' = [p0, p1, l, q] @ EvReserve rc d c (Inr ''99.0'', ''rec-1'') # EvExecute x (''x1'', Some fq, None)
        # [EvComplete ''rec-1'' ''x1'' amt None]" and ne: "PaymentDueUSDStr fq \<noteq> []" using demo_auto_events [of "\<lambda>x. 0"] by (elim exE conjE) (rule that)
  from auto_settles_or_ends [OF run ev ne] obtain errs rest where h: "length errs \<le> 3"
    "if length errs < 3 then [EvComplete ''rec-1'' ''x1'' amt None] = settle_tries ''rec-1'' ''x1'' (PaymentDueUSDStr fq) errs
        @ EvComplete ''rec-1'' ''x1'' (PaymentDueUSDStr fq) None # rest
     else [EvComplete ''rec-1'' ''x1'' amt None] = settle_tries ''rec-1'' ''x1'' (PaymentDueUSDStr fq) errs" by blast
  then have amt: "amt = PaymentDueUSDStr fq" by (cases errs) (auto simp: settle_tries_def split: if_splits)
  have short: "length errs < 3"
  proof (rule ccontr)
    assume "\<not> ?thesis"
    with h(2) have "length [EvComplete ''rec-1'' ''x1'' amt None] = length (settle_tries ''rec-1'' ''x1'' (PaymentDueUSDStr fq) errs)"
      by metis
    with \<open>\<not> ?thesis\<close> show False by (simp add: settle_tries_def)
  qed
  with h amt show ?thesis by (intro exI [of _ amt] exI [of _ errs] exI [of _ rest]) simp
qed

theorem dry_run_changes_nothing_witness:
  "filter mutates (new_events auto_start (snd (RunAutoExchange (\<lambda>x. 0) (demo_env demo_lost) (demo_params ''auto'' True) auto_start))) = []"
  using dry_run_changes_nothing [OF surjective_pairing] demo_projections(1) unfolding filter_empty_conv by blast

theorem manual_never_spends_witness:
  "filter spends (new_events auto_start (snd (RunAutoExchange (\<lambda>x. 0) (demo_env demo_lost) (demo_params ''manual'' False) auto_start))) = []"
  unfolding filter_empty_conv
  by (rule manual_never_spends [OF surjective_pairing]) (simp add: demo_projections ExchangeModeManual_def)

theorem auto_accounts_for_all_witness:
  "\<exists>res s' (recs :: ReshapeRecommendation list) n. RunAutoExchange (\<lambda>x. 0) (demo_env (Inr (Some ''x1''))) (demo_params ''auto'' False) auto_start = (Inr (Some res), s')
     \<and> n \<le> length recs \<and> mset (outcome_ids res) = mset (map SourceRIID (take n recs)) \<and> length recs = 1"
proof -
  obtain r s' where run: "RunAutoExchange (\<lambda>x. 0) (demo_env (Inr (Some ''x1''))) (demo_params ''auto'' False) auto_start = (Inr (Some r), s')"
    using demo_auto_events by blast
  obtain rec where "AnalyzeReshaping (\<lambda>x. 0) (RIs (demo_params ''auto'' False)) (Utilization (demo_params ''auto'' False))
      (UtilizationThreshold (Config (demo_params ''auto'' False)))
      (WithOfferedInstanceTypes (OfferedInstanceTypes (demo_params ''auto'' False))) = [rec]" using demo_recs by blast
  from auto_accounts_for_all [OF run this [symmetric]] obtain n where
    "n \<le> length [rec]" "mset (outcome_ids r) = mset (map SourceRIID (take n [rec]))" by blast
  with run show ?thesis by (intro exI [of _ r] exI [of _ s'] exI [of _ "[rec]"] exI [of _ n]) simp
qed

theorem settled_amount_within_ceiling_witness:
  "\<exists>amt a v. ParseDecimalRat amt = Inr a \<and> a \<le> v + 1 / 2000000 \<and> 0 \<le> v"
proof -
  obtain r s' p0 p1 l q rc d c x fq amt where run: "RunAutoExchange (\<lambda>x. 0) (demo_env (Inr (Some ''x1''))) (demo_params ''auto'' False) auto_start = (Inr (Some r), s')"
    and ev: "new_events auto_start s' = [p0, p1, l, q, EvReserve rc d c (Inr ''99.0'', ''rec-1''), EvExecute x (''x1'', Some fq, None)]
        @ EvComplete ''rec-1'' ''x1'' amt None # []" using demo_auto_events by fastforce
  have "ClientExecute (demo_env (Inr (Some ''x1''))) = Execute (\<lambda>c. False) (demo_client (Inr (Some ''x1'')))" by (simp add: demo_env_def)
  from settled_amount_within_ceiling [OF this run ev] show ?thesis by blast
qed

end
