(* ===== verification/Retry.thy ===== *)
theory Retry
  imports Go_Lib
begin

text \<open>
  The exponential backoff helper of \<open>pkg/retry/exponential.go\<close>: the configuration and its
  validation, the delay before an attempt with its \<open>int64\<close> arithmetic and its jitter, and the
  loop that runs an operation until it succeeds, fails for good, is cancelled or runs out of
  attempts. The operation, the caller's context, the random source and the callback are the
  outside world: each answers from the events so far.
\<close>

section \<open>The configuration\<close>

text \<open>\<open>has_hook\<close> is \<open>OnAttempt != nil\<close>; the callback itself only observes the attempt.\<close>

record retry_config =
  has_hook :: bool
  MaxAttempts :: int
  BaseDelay :: int
  MaxDelay :: int
  PerAttemptTimeout :: int
  Jitter :: bool

definition ErrPermanent :: go_string where
  "ErrPermanent = ''retry: permanent error, do not retry''"

definition retry_Validate :: "retry_config \<Rightarrow> go_error option" where
  "retry_Validate c = first_err [
     fail_if (MaxAttempts c \<le> 0) (errorf ''retry: MaxAttempts must be > 0, got %d'' [ArgI (MaxAttempts c)]),
     fail_if (BaseDelay c \<le> 0) (errorf ''retry: BaseDelay must be > 0, got %s'' [ArgS (duration_string (BaseDelay c))]),
     fail_if (MaxDelay c < BaseDelay c) (errorf ''retry: MaxDelay (%s) must be >= BaseDelay (%s)''
       [ArgS (duration_string (MaxDelay c)), ArgS (duration_string (BaseDelay c))])]"

lemma retry_valid_iff [err_iff]:
  "retry_Validate c = None \<longleftrightarrow> 0 < MaxAttempts c \<and> 0 < BaseDelay c \<and> BaseDelay c \<le> MaxDelay c"
  by (auto simp: retry_Validate_def)

section \<open>The delay before an attempt\<close>

text \<open>The doubling loop: \<open>n\<close> iterations left.\<close>

fun double_loop :: "int \<Rightarrow> nat \<Rightarrow> int \<Rightarrow> int" where
  "double_loop mx 0 delay = delay"
| "double_loop mx (Suc n) delay =
    (if i64 (mx - delay) \<le> delay then mx
     else let delay' = i64 (delay * 2) in if mx \<le> delay' then mx else double_loop mx n delay')"

definition clamp_delay :: "int \<Rightarrow> int \<Rightarrow> int" where
  "clamp_delay mx delay = (if mx < delay then mx else delay)"

text \<open>\<open>r\<close> is the sample of \<open>rand.Float64()\<close>.\<close>

definition jitter_delay :: "int \<Rightarrow> float64 \<Rightarrow> int \<Rightarrow> int \<Rightarrow> int" where
  "jitter_delay ovf r mx delay =
    (let factor = Fin (3/4) + r * Fin (1/2); jittered = rnd (of_int delay) * factor in
     if rnd (of_int mx) \<le> jittered then mx else clamp_delay mx (to_i64 ovf jittered))"

definition backoffFor :: "int \<Rightarrow> float64 \<Rightarrow> int \<Rightarrow> retry_config \<Rightarrow> int" where
  "backoffFor ovf r attempt c =
    (let delay = clamp_delay (MaxDelay c) (double_loop (MaxDelay c) (nat (attempt - 2)) (BaseDelay c)) in
     if Jitter c then jitter_delay ovf r (MaxDelay c) delay else clamp_delay (MaxDelay c) delay)"

section \<open>The loop\<close>

text \<open>
  What the loop does is a trace, the latest event first. The context an operation receives is
  the caller's, or the caller's bounded by the per-attempt timeout.
\<close>

datatype op_ctx = OuterCtx | TimeoutCtx int

datatype retry_event = Slept int | Cancelled int | OnAttempt int "go_error option" | RanOp op_ctx int "go_error option"

text \<open>
  \<open>op_result\<close> is what the operation returns, \<open>ctx_done\<close> what the \<open>select\<close> of a backoff finds:
  \<open>ctx.Err()\<close> when the context ends first, \<open>None\<close> when the timer fires; \<open>sample\<close> is the random
  source and \<open>overflowed\<close> the machine's out-of-range conversion.
\<close>

record retry_env =
  op_result :: "retry_event list \<Rightarrow> op_ctx \<Rightarrow> int \<Rightarrow> go_error option"
  ctx_done :: "retry_event list \<Rightarrow> int \<Rightarrow> go_error option"
  sample :: "retry_event list \<Rightarrow> float64"
  overflowed :: int

definition attempt_ctx :: "retry_config \<Rightarrow> op_ctx" where
  "attempt_ctx c = (if PerAttemptTimeout c \<le> 0 then OuterCtx else TimeoutCtx (PerAttemptTimeout c))"

definition runAttempt :: "retry_env \<Rightarrow> retry_config \<Rightarrow> int \<Rightarrow> retry_event list \<Rightarrow> go_error option \<times> retry_event list" where
  "runAttempt env c n tr = (let r = op_result env tr (attempt_ctx c) n in (r, RanOp (attempt_ctx c) n r # tr))"

definition exhausted :: "retry_config \<Rightarrow> go_error option \<Rightarrow> go_error" where
  "exhausted c lastErr = (case lastErr of
     None \<Rightarrow> errorf ''retry: exhausted %d attempts: %s'' [ArgI (MaxAttempts c), ArgS ''%!w(<nil>)'']
   | Some e \<Rightarrow> wrapf ''retry: exhausted %d attempts: %w'' [ArgI (MaxAttempts c), ArgS (err_text e)] [e])"

definition before_attempt :: "retry_env \<Rightarrow> retry_config \<Rightarrow> int \<Rightarrow> retry_event list \<Rightarrow> go_error option \<times> retry_event list" where
  "before_attempt env c n tr =
    (if n > 1 then
       let delay = backoffFor (overflowed env) (sample env tr) n c in
       case ctx_done env tr delay of
         Some e \<Rightarrow> (Some (wrapf ''retry: canceled mid-backoff after %d attempts: %w'' [ArgI (n - 1), ArgS (err_text e)] [e]),
                    Cancelled delay # tr)
       | None \<Rightarrow> (None, Slept delay # tr)
     else (None, tr))"

function retry_loop :: "retry_env \<Rightarrow> retry_config \<Rightarrow> int \<Rightarrow> go_error option \<Rightarrow> retry_event list
    \<Rightarrow> go_error option \<times> retry_event list" where
  "retry_loop env c n lastErr tr =
    (if MaxAttempts c < n then (Some (exhausted c lastErr), tr)
     else case before_attempt env c n tr of
       (Some e, tr1) \<Rightarrow> (Some e, tr1)
     | (None, tr1) \<Rightarrow>
         let tr2 = (if has_hook c then OnAttempt n lastErr # tr1 else tr1) in
         (case runAttempt env c n tr2 of
            (None, tr3) \<Rightarrow> (None, tr3)
          | (Some e, tr3) \<Rightarrow> if err_is ErrPermanent e then (Some e, tr3) else retry_loop env c (n + 1) (Some e) tr3))"
  by pat_completeness auto
termination
  by (relation "measure (\<lambda>(env, c, n, l, tr). nat (MaxAttempts c + 1 - n))") auto

declare retry_loop.simps [simp del]

definition retry_Do :: "retry_env \<Rightarrow> retry_config \<Rightarrow> go_error option \<times> retry_event list" where
  "retry_Do env c = (case retry_Validate c of Some e \<Rightarrow> (Some e, []) | None \<Rightarrow> retry_loop env c 1 None [])"


section \<open>What the delay is\<close>

lemma double_loop_min:
  assumes "0 < d" and "d \<le> mx" and "is_i64 mx"
  shows "double_loop mx n d = min mx (d * 2 ^ n)"
  using assms
proof (induction n arbitrary: d)
  case 0
  then show ?case by simp
next
  case (Suc n)
  have wrap: "i64 (mx - d) = mx - d" using Suc.prems by (intro i64_id) (auto simp: is_i64_def)
  have pow: "d * 2 \<le> d * 2 ^ Suc n" using Suc.prems(1) by simp
  show ?case
  proof (cases "mx - d \<le> d")
    case True
    then have "min mx (d * 2 ^ Suc n) = mx" using pow by linarith
    then show ?thesis using True wrap by simp
  next
    case False
    then have "i64 (d * 2) = d * 2" using Suc.prems by (intro i64_id) (auto simp: is_i64_def)
    then show ?thesis using False wrap Suc.IH [of "d * 2"] Suc.prems by (simp add: mult.assoc)
  qed
qed

definition backoff_base :: "int \<Rightarrow> retry_config \<Rightarrow> int" where
  "backoff_base attempt c = min (MaxDelay c) (BaseDelay c * 2 ^ nat (attempt - 2))"

lemma backoff_base_pos: "retry_Validate c = None \<Longrightarrow> 0 < backoff_base n c \<and> backoff_base n c \<le> MaxDelay c"
  by (auto simp: backoff_base_def retry_valid_iff simp del: first_err_None)

lemma backoff_no_jitter:
  assumes "retry_Validate c = None" and "is_i64 (MaxDelay c)"
  shows "clamp_delay (MaxDelay c) (double_loop (MaxDelay c) (nat (n - 2)) (BaseDelay c)) = backoff_base n c"
  using assms double_loop_min [of "BaseDelay c" "MaxDelay c" "nat (n - 2)"]
  by (simp add: retry_valid_iff backoff_base_def clamp_delay_def)

text \<open>The factor of the jitter and the product, for a sample in \<open>[0, 1)\<close>.\<close>

lemma jitter_factor:
  assumes "0 \<le> q" and "q < 1"
  obtains f where "Fin (3/4) + Fin q * Fin (1/2) = Fin f" and "3/4 \<le> f" and "f \<le> 5/4"
proof -
  have half: "Fin q * Fin (1/2) = rnd (q / 2)" by simp
  have "round_rat 0 \<le> round_rat (q / 2)" "round_rat (q / 2) \<le> round_rat (1 / 2)"
    using assms by (intro round_rat_mono; simp)+
  moreover have r12: "round_rat (1 / 2) = 1 / 2" using rnd_half rnd_Fin_iff by metis
  ultimately have h: "0 \<le> round_rat (q / 2)" "round_rat (q / 2) \<le> 1 / 2" by simp_all
  then have hf: "rnd (q / 2) = Fin (round_rat (q / 2))" by (simp add: rnd_Fin_iff)
  let ?s = "3/4 + round_rat (q / 2)"
  have "round_rat (3/4) = 3/4" using rnd_div_pow2 [of 3 2] rnd_Fin_iff [of "3/4" "3/4"] by simp
  moreover have "round_rat (5/4) = 5/4" using rnd_div_pow2 [of 5 2] rnd_Fin_iff [of "5/4" "5/4"] by simp
  moreover have "round_rat (3/4) \<le> round_rat ?s" "round_rat ?s \<le> round_rat (5/4)"
    using h by (intro round_rat_mono; simp)+
  ultimately have b: "3/4 \<le> round_rat ?s" "round_rat ?s \<le> 5/4" by simp_all
  have "\<bar>round_rat ?s\<bar> < 2 ^ 1024"
  proof -
    have "(5/4 :: rat) < 2 ^ 1024" by simp
    then show ?thesis using b by linarith
  qed
  then have "Fin (3/4) + Fin q * Fin (1/2) = Fin (round_rat ?s)" by (simp add: half hf rnd_Fin_iff)
  with b show ?thesis using that by blast
qed


lemma rnd_cases:
  assumes "0 \<le> r"
  shows "rnd r = PInf \<or> (rnd r = Fin (round_rat r) \<and> 0 \<le> round_rat r)"
  using round_rat_nonneg [OF assms] by (auto simp: rnd_def Let_def)

lemma exact_quarters:
  assumes "\<bar>k\<bar> < 2 ^ 53"
  shows "round_rat (of_int k / 4) = of_int k / 4"
  using rnd_div_pow2 [OF assms, of 2] rnd_Fin_iff [of "of_int k / 4"] by simp

lemma jitter_in_range:
  assumes "0 \<le> d" and "d \<le> mx" and mx: "is_i64 mx" and "0 \<le> q" and "q < 1"
  shows "0 \<le> jitter_delay ovf (Fin q) mx d \<and> jitter_delay ovf (Fin q) mx d \<le> mx"
proof -
  obtain f where f: "Fin (3/4) + Fin q * Fin (1/2) = Fin f" "3/4 \<le> f" "f \<le> 5/4"
    using jitter_factor assms by blast
  have fin: "rnd (of_int n) = Fin (round_rat (of_int n)) \<and> 0 \<le> round_rat (of_int n) \<and> round_rat (of_int n) \<le> 2 ^ 63"
    if "0 \<le> n" "n \<le> mx" for n
  proof -
    have "(of_int n :: rat) \<le> 2 ^ 63" using that mx of_int_le_iff [of n "2 ^ 63", where 'a = rat] by (simp add: is_i64_def)
    then have "round_rat (of_int n) \<le> round_rat (2 ^ 63)" by (rule round_rat_mono)
    moreover have "round_rat (2 ^ 63) = 2 ^ 63" using rnd_dyadic [of 1 63] rnd_Fin_iff [of "2 ^ 63" "2 ^ 63"] by simp
    ultimately have "round_rat (of_int n) \<le> 2 ^ 63" by simp
    moreover have "0 \<le> round_rat (of_int n)" using that by (intro round_rat_nonneg) simp
    moreover have "(2 :: rat) ^ 63 < 2 ^ 1024" by simp
    ultimately show ?thesis by (simp add: rnd_Fin_iff)
  qed
  let ?j = "rnd (round_rat (of_int d) * f)"
  have j: "rnd (of_int d) * Fin f = ?j" using fin [of d] assms by simp
  have jc: "?j = PInf \<or> (?j = Fin (round_rat (round_rat (of_int d) * f)) \<and> 0 \<le> round_rat (round_rat (of_int d) * f))"
    using fin [of d] assms f by (intro rnd_cases) simp
  show ?thesis
  proof (cases "rnd (of_int mx) \<le> ?j")
    case True
    then show ?thesis using assms f j by (simp add: jitter_delay_def)
  next
    case False
    have m: "rnd (of_int mx) = Fin (round_rat (of_int mx))" "round_rat (of_int mx) \<le> 2 ^ 63"
      using fin [of mx] assms by auto
    obtain v where v: "?j = Fin v" "0 \<le> v" using jc False m(1) by auto
    with False m have "v < 2 ^ 63" by simp
    then have "\<lfloor>v\<rfloor> < 2 ^ 63" by (simp add: floor_less_iff)
    then have "is_i64 (trunc_rat v)" using v by (simp add: is_i64_def trunc_rat_def)
    moreover have "0 \<le> trunc_rat v" using v by (simp add: trunc_rat_def)
    ultimately show ?thesis using False assms f j v by (simp add: jitter_delay_def clamp_delay_def Let_def)
  qed
qed

text \<open>For delays of up to \<open>2 ^ 50\<close> ns (13 days) the noise is within a quarter, to the nanosecond.\<close>

lemma jitter_quarter:
  assumes "0 \<le> d" and "d \<le> mx" and mx: "is_i64 mx" and "d < 2 ^ 50" and "0 \<le> q" and "q < 1"
  shows "3 * d < 4 * jitter_delay ovf (Fin q) mx d + 4 \<and> 4 * jitter_delay ovf (Fin q) mx d \<le> 5 * d"
proof -
  obtain f where f: "Fin (3/4) + Fin q * Fin (1/2) = Fin f" "3/4 \<le> f" "f \<le> 5/4"
    using jitter_factor assms by blast
  have d: "rnd (of_int d) = Fin (of_int d)" using assms by (intro rnd_of_int) simp
  let ?v = "round_rat (of_int d * f)"
  have lo: "of_int (3 * d) / 4 \<le> ?v"
  proof -
    have "of_int (3 * d) / 4 \<le> of_int d * f" using f assms mult_left_mono [of "3/4" f "of_int d"] by simp
    then have "round_rat (of_int (3 * d) / 4) \<le> ?v" by (rule round_rat_mono)
    then show ?thesis using exact_quarters [of "3 * d"] assms by simp
  qed
  have hi: "?v \<le> of_int (5 * d) / 4"
  proof -
    have "of_int d * f \<le> of_int (5 * d) / 4" using f assms mult_left_mono [of f "5/4" "of_int d"] by simp
    then have "?v \<le> round_rat (of_int (5 * d) / 4)" by (rule round_rat_mono)
    then show ?thesis using exact_quarters [of "5 * d"] assms by simp
  qed
  have "5 * d < 2 ^ 53" using assms by simp
  then have "(of_int (5 * d) / 4 :: rat) < 2 ^ 51"
    using of_int_less_iff [of "5 * d" "2 ^ 53", where 'a = rat] by simp
  then have v51: "?v < 2 ^ 51" using hi by linarith
  have v0: "0 \<le> ?v" using f assms by (intro round_rat_nonneg mult_nonneg_nonneg) simp_all
  have "(2 :: rat) ^ 51 < 2 ^ 1024" by simp
  then have vr: "rnd (of_int d * f) = Fin ?v" using v51 v0 by (simp add: rnd_Fin_iff)
  then have j: "rnd (of_int d) * Fin f = Fin ?v" using d by simp
  show ?thesis
  proof (cases "rnd (of_int mx) \<le> Fin ?v")
    case True
    have "mx < 2 ^ 53"
    proof (rule ccontr)
      assume "\<not> mx < 2 ^ 53"
      then have "(2 :: rat) ^ 53 \<le> of_int mx" using of_int_le_iff [of "2 ^ 53" mx, where 'a = rat] by simp
      then have "rnd (2 ^ 53) \<le> rnd (of_int mx)" by (rule rnd_mono)
      moreover have "rnd (2 ^ 53) = Fin (2 ^ 53)" using rnd_dyadic [of 1 53] by simp
      ultimately have "Fin (2 ^ 53) \<le> Fin ?v" using True float_le_trans by metis
      then show False using v51 by simp
    qed
    then have "(of_int mx :: rat) \<le> ?v" using True rnd_of_int [of mx] assms by simp
    then have "(of_int (4 * mx) :: rat) \<le> of_int (5 * d)" using hi by simp
    then have "4 * mx \<le> 5 * d" using of_int_le_iff by blast
    moreover have "jitter_delay ovf (Fin q) mx d = mx" using True j f by (simp add: jitter_delay_def)
    ultimately show ?thesis using assms by linarith
  next
    case False
    define k where "k = \<lfloor>?v\<rfloor>"
    have fl: "of_int k \<le> ?v" "?v < of_int k + 1" unfolding k_def by linarith+
    have "(of_int k :: rat) < 2 ^ 51" using fl v51 by linarith
    then have "k < 2 ^ 51" using of_int_less_iff [of k "2 ^ 51", where 'a = rat] by simp
    moreover have "0 \<le> k" using v0 by (simp add: k_def)
    ultimately have i: "is_i64 (trunc_rat ?v)" using v0 by (simp add: is_i64_def trunc_rat_def k_def)
    have e: "jitter_delay ovf (Fin q) mx d = clamp_delay mx k"
      using False j f i v0 by (simp add: jitter_delay_def Let_def trunc_rat_def k_def)
    have "(of_int (3 * d) :: rat) < of_int (4 * k + 4)" "(of_int (4 * k) :: rat) \<le> of_int (5 * d)"
      using lo hi fl by simp_all
    then have "3 * d < 4 * k + 4" "4 * k \<le> 5 * d" using of_int_less_iff of_int_le_iff by blast+
    then show ?thesis using assms e by (auto simp: clamp_delay_def)
  qed
qed


section \<open>What the loop does\<close>

text \<open>The answers of the operation in order, the calls and the backoffs of a trace.\<close>

fun op_runs :: "retry_event list \<Rightarrow> (int \<times> go_error option) list" where
  "op_runs [] = []"
| "op_runs (RanOp x n r # tr) = op_runs tr @ [(n, r)]"
| "op_runs (e # tr) = op_runs tr"

fun slept :: "retry_event list \<Rightarrow> int list" where
  "slept [] = []"
| "slept (Slept d # tr) = slept tr @ [d]"
| "slept (e # tr) = slept tr"

definition retryable :: "go_error option \<Rightarrow> bool" where
  "retryable r \<longleftrightarrow> (\<exists>e. r = Some e \<and> \<not> err_is ErrPermanent e)"

definition last_answer :: "retry_event list \<Rightarrow> go_error option" where
  "last_answer tr = (if op_runs tr = [] then None else snd (last (op_runs tr)))"

text \<open>The loop before attempt \<open>n\<close>: attempts \<open>1\<close> to \<open>n - 1\<close> ran in order and asked for a retry.\<close>

definition loop_inv :: "retry_config \<Rightarrow> int \<Rightarrow> go_error option \<Rightarrow> retry_event list \<Rightarrow> bool" where
  "loop_inv c n lastErr tr \<longleftrightarrow> 1 \<le> n \<and> n \<le> MaxAttempts c + 1 \<and> map fst (op_runs tr) = [1..n - 1]
     \<and> (\<forall>(i, r) \<in> set (op_runs tr). retryable r) \<and> lastErr = last_answer tr \<and> length (slept tr) = nat (n - 2)"

text \<open>How a run may end: success, a permanent error, a cancelled backoff, or no attempt left.\<close>

definition cancel_error :: "int \<Rightarrow> go_error \<Rightarrow> go_error" where
  "cancel_error k e = wrapf ''retry: canceled mid-backoff after %d attempts: %w'' [ArgI k, ArgS (err_text e)] [e]"

definition ended :: "retry_config \<Rightarrow> int \<Rightarrow> go_error option \<Rightarrow> retry_event list \<Rightarrow> bool" where
  "ended c k res tr \<longleftrightarrow> (case res of
       None \<Rightarrow> last_answer tr = None
     | Some e \<Rightarrow> (last_answer tr = Some e \<and> err_is ErrPermanent e)
         \<or> (retryable (last_answer tr) \<and> k < MaxAttempts c \<and> (\<exists>d. hd tr = Cancelled d) \<and> (\<exists>x. e = cancel_error k x))
         \<or> (retryable (last_answer tr) \<and> k = MaxAttempts c \<and> e = exhausted c (last_answer tr)))"

definition run_post :: "retry_config \<Rightarrow> go_error option \<times> retry_event list \<Rightarrow> bool" where
  "run_post c out \<longleftrightarrow> (\<exists>k. 1 \<le> k \<and> k \<le> MaxAttempts c \<and> map fst (op_runs (snd out)) = [1..k]
     \<and> (\<forall>r \<in> set (butlast (map snd (op_runs (snd out)))). retryable r)
     \<and> length (slept (snd out)) = nat (k - 1) \<and> ended c k (fst out) (snd out))"

lemma upto_snoc: "1 \<le> n \<Longrightarrow> [1..n - 1] @ [n] = [1..n :: int]"
  by (simp add: upto_rec2)

lemma upto_empty_iff: "[1..n :: int] = [] \<longleftrightarrow> n < 1"
  by simp

lemma before_attempt_runs [simp]: "op_runs (snd (before_attempt env c n tr)) = op_runs tr"
  by (simp add: before_attempt_def Let_def split: option.splits)

lemma before_attempt_Some:
  "before_attempt env c n tr = (Some e, tr1) \<Longrightarrow> 1 < n \<and> slept tr1 = slept tr \<and> (\<exists>d. hd tr1 = Cancelled d)
     \<and> (\<exists>x. e = cancel_error (n - 1) x)"
  by (auto simp: before_attempt_def Let_def cancel_error_def split: option.splits if_splits)

lemma before_attempt_None:
  "before_attempt env c n tr = (None, tr1) \<Longrightarrow>
     slept tr1 = slept tr @ (if 1 < n then [backoffFor (overflowed env) (sample env tr) n c] else [])"
  by (auto simp: before_attempt_def Let_def split: option.splits if_splits)

lemma loop_post:
  assumes "loop_inv c n lastErr tr" and "0 < MaxAttempts c"
  shows "run_post c (retry_loop env c n lastErr tr)"
  using assms
proof (induction env c n lastErr tr rule: retry_loop.induct)
  case (1 env c n lastErr tr)
  note inv = \<open>loop_inv c n lastErr tr\<close>
  have runs: "map fst (op_runs tr) = [1..n - 1]" and rt: "\<forall>(i, r) \<in> set (op_runs tr). retryable r"
    and n: "1 \<le> n" "n \<le> MaxAttempts c + 1" and la: "lastErr = last_answer tr" and sl: "length (slept tr) = nat (n - 2)"
    using inv by (auto simp: loop_inv_def)
  have bl: "\<forall>r \<in> set (map snd (op_runs tr)). retryable r" using rt by auto
  have blb: "\<forall>r \<in> set (butlast (map snd (op_runs tr))). retryable r" using bl by (meson in_set_butlastD)
  have lst: "1 < n \<Longrightarrow> retryable (last_answer tr)"
  proof -
    assume "1 < n"
    then have "op_runs tr \<noteq> []" using runs upto_empty_iff [of "n - 1"] by (metis list.map_disc_iff linorder_not_le zle_diff1_eq)
    then show ?thesis using bl last_in_set [of "op_runs tr"] by (simp add: last_answer_def)
  qed
  show ?case
  proof (cases "MaxAttempts c < n")
    case True
    then have "n = MaxAttempts c + 1" using n by simp
    then show ?thesis using True runs blb la lst sl "1.prems"(2)
      unfolding run_post_def
      by (intro exI [of _ "MaxAttempts c"], subst (1 2 3 4 5) retry_loop.simps) (auto simp: ended_def)
  next
    case False
    obtain b tr1 where b: "before_attempt env c n tr = (b, tr1)" by fastforce
    then have ops1: "op_runs tr1 = op_runs tr" using before_attempt_runs [of env c n tr] by simp
    show ?thesis
    proof (cases b)
      case (Some e)
      then have "before_attempt env c n tr = (Some e, tr1)" using b by simp
      from before_attempt_Some [OF this] obtain d x where
        s: "1 < n" "slept tr1 = slept tr" "hd tr1 = Cancelled d" "e = cancel_error (n - 1) x" by blast
      have "ended c (n - 1) (Some e) tr1" using s lst ops1 False by (auto simp: ended_def last_answer_def)
      moreover have "retry_loop env c n lastErr tr = (Some e, tr1)" using False b Some by (subst retry_loop.simps) simp
      ultimately show ?thesis using s runs blb sl ops1 False n
        unfolding run_post_def by (intro exI [of _ "n - 1"]) auto
    next
      case None
      define tr2 where "tr2 = (if has_hook c then OnAttempt n lastErr # tr1 else tr1)"
      obtain r where r: "runAttempt env c n tr2 = (r, RanOp (attempt_ctx c) n r # tr2)"
        by (simp add: runAttempt_def Let_def)
      let ?tr3 = "RanOp (attempt_ctx c) n r # tr2"
      have ops2: "op_runs tr2 = op_runs tr" by (simp add: tr2_def ops1)
      have sl1: "length (slept tr2) = nat (n - 1)"
        using before_attempt_None [of env c n tr tr1] b None sl n by (auto simp: tr2_def)
      have runs3: "map fst (op_runs ?tr3) = [1..n]" using runs ops2 upto_snoc [OF n(1)] by simp
      have la3: "last_answer ?tr3 = r" by (simp add: last_answer_def)
      have bl3: "\<forall>r' \<in> set (butlast (map snd (op_runs ?tr3))). retryable r'" using bl ops2 by simp
      show ?thesis
      proof (cases "\<exists>e. r = Some e \<and> \<not> err_is ErrPermanent e")
        case True
        then obtain e where e: "r = Some e" "\<not> err_is ErrPermanent e" by blast
        have "loop_inv c (n + 1) (Some e) ?tr3"
          using n False runs3 rt ops2 e la3 sl1 by (auto simp: loop_inv_def retryable_def)
        then have "run_post c (retry_loop env c (n + 1) (Some e) ?tr3)"
          using "1.IH" [OF False b [symmetric] None tr2_def r [symmetric] e(1) e(2)] "1.prems"(2) by blast
        moreover have "retry_loop env c n lastErr tr = retry_loop env c (n + 1) (Some e) ?tr3"
          using False b None e r by (subst retry_loop.simps) (simp add: tr2_def [symmetric] Let_def)
        ultimately show ?thesis by simp
      next
        case stop: False
        then have "retry_loop env c n lastErr tr = (r, ?tr3)"
          using False b None r by (subst retry_loop.simps) (auto simp: tr2_def [symmetric] Let_def split: option.splits)
        moreover have "ended c n r ?tr3" using stop la3 by (auto simp: ended_def split: option.splits)
        ultimately show ?thesis using runs3 bl3 sl1 False n
          unfolding run_post_def by (intro exI [of _ n]) auto
      qed
    qed
  qed
qed


section \<open>Properties\<close>

definition retry_demo_cfg :: retry_config where
  "retry_demo_cfg = \<lparr>has_hook = True, MaxAttempts = 3, BaseDelay = 1000000000, MaxDelay = 30000000000,
     PerAttemptTimeout = 0, Jitter = True\<rparr>"

lemma retry_demo_cfg_valid: "retry_Validate retry_demo_cfg = None" "is_i64 (MaxDelay retry_demo_cfg)"
  by (simp_all add: retry_demo_cfg_def retry_Validate_def is_i64_def)

text \<open>The delay before attempt \<open>n\<close> is the base delay doubled \<open>n - 2\<close> times and capped at the
  maximum, however large \<open>n\<close> is: the \<open>int64\<close> products never overflow. With jitter the delay never
  leaves \<open>[0, MaxDelay]\<close>, whatever an out-of-range conversion would give, and for delays under
  \<open>2 ^ 50\<close> ns it is within a quarter of that value, rounded down to a nanosecond.\<close>

theorem backoff_doubles_within_cap:
  assumes "retry_Validate c = None" and "is_i64 (MaxDelay c)" and "0 \<le> q" and "q < 1"
  shows "(\<not> Jitter c \<longrightarrow> backoffFor ovf (Fin q) n c = min (MaxDelay c) (BaseDelay c * 2 ^ nat (n - 2)))
    \<and> 0 \<le> backoffFor ovf (Fin q) n c \<and> backoffFor ovf (Fin q) n c \<le> MaxDelay c
    \<and> (Jitter c \<and> min (MaxDelay c) (BaseDelay c * 2 ^ nat (n - 2)) < 2 ^ 50 \<longrightarrow>
        3 * min (MaxDelay c) (BaseDelay c * 2 ^ nat (n - 2)) < 4 * backoffFor ovf (Fin q) n c + 4
        \<and> 4 * backoffFor ovf (Fin q) n c \<le> 5 * min (MaxDelay c) (BaseDelay c * 2 ^ nat (n - 2)))"
proof -
  note base = backoff_no_jitter [OF assms(1,2), of n] backoff_base_pos [OF assms(1), of n]
  have plain: "\<not> Jitter c \<Longrightarrow> backoffFor ovf (Fin q) n c = backoff_base n c"
    using base by (simp add: backoffFor_def clamp_delay_def)
  have jit: "Jitter c \<Longrightarrow> backoffFor ovf (Fin q) n c = jitter_delay ovf (Fin q) (MaxDelay c) (backoff_base n c)"
    using base by (simp add: backoffFor_def)
  have "0 \<le> backoffFor ovf (Fin q) n c \<and> backoffFor ovf (Fin q) n c \<le> MaxDelay c"
    using plain jit base jitter_in_range [of "backoff_base n c" "MaxDelay c" q ovf] assms by (cases "Jitter c") auto
  moreover have "Jitter c \<Longrightarrow> backoff_base n c < 2 ^ 50 \<Longrightarrow> 3 * backoff_base n c < 4 * backoffFor ovf (Fin q) n c + 4
      \<and> 4 * backoffFor ovf (Fin q) n c \<le> 5 * backoff_base n c"
    using jit base jitter_quarter [of "backoff_base n c" "MaxDelay c" q ovf] assms by simp
  ultimately show ?thesis using plain unfolding backoff_base_def by blast
qed

theorem backoff_doubles_within_cap_witness:
  "0 \<le> backoffFor 0 (Fin (1/4)) 4 retry_demo_cfg \<and> backoffFor 0 (Fin (1/4)) 4 retry_demo_cfg \<le> 30000000000
    \<and> 3 * 4000000000 < 4 * backoffFor 0 (Fin (1/4)) 4 retry_demo_cfg + 4"
  using backoff_doubles_within_cap [of retry_demo_cfg "1/4" 0 4] retry_demo_cfg_valid by (simp add: retry_demo_cfg_def)

text \<open>C39. For a valid configuration the loop always ends. It runs the operation on attempts
  \<open>1\<close> to \<open>k\<close> in order, never more than \<open>MaxAttempts\<close>, with one backoff between two attempts; every
  attempt but the last failed with an error that may be retried. The result is \<open>nil\<close> exactly after a
  success; otherwise it is the permanent error of the last attempt itself, the cancellation of a
  backoff before the budget is used up, or the last error wrapped once the budget is used up.\<close>

theorem Do_attempts_and_outcome:
  assumes "retry_Validate c = None" and "retry_Do env c = (res, tr)"
  shows "\<exists>k. 1 \<le> k \<and> k \<le> MaxAttempts c \<and> map fst (op_runs tr) = [1..k]
    \<and> (\<forall>r \<in> set (butlast (map snd (op_runs tr))). \<exists>e. r = Some e \<and> \<not> err_is ErrPermanent e)
    \<and> length (slept tr) = nat (k - 1)
    \<and> (case res of None \<Rightarrow> snd (last (op_runs tr)) = None
       | Some e \<Rightarrow> (snd (last (op_runs tr)) = Some e \<and> err_is ErrPermanent e)
         \<or> (\<exists>l. snd (last (op_runs tr)) = Some l \<and> \<not> err_is ErrPermanent l
            \<and> ((k < MaxAttempts c \<and> (\<exists>d x. hd tr = Cancelled d \<and> e = cancel_error k x))
               \<or> (k = MaxAttempts c \<and> e = exhausted c (Some l)))))"
proof -
  have "loop_inv c 1 None []" using assms(1) by (simp add: loop_inv_def last_answer_def retry_valid_iff)
  moreover have "0 < MaxAttempts c" using assms(1) retry_valid_iff by blast
  ultimately have "run_post c (retry_Do env c)" using loop_post assms(1) by (simp add: retry_Do_def del: first_err_None)
  then obtain k where k: "1 \<le> k" "k \<le> MaxAttempts c" "map fst (op_runs tr) = [1..k]"
    "\<forall>r \<in> set (butlast (map snd (op_runs tr))). retryable r" "length (slept tr) = nat (k - 1)" "ended c k res tr"
    using assms(2) by (auto simp: run_post_def)
  have "last_answer tr = snd (last (op_runs tr))" using k(1,3) by (auto simp: last_answer_def)
  then show ?thesis using k by (auto simp: ended_def retryable_def split: option.splits intro!: exI [of _ k])
qed

definition retry_demo_env :: retry_env where
  "retry_demo_env = \<lparr>op_result = (\<lambda>tr x n. if n < 3 then Some (errorf ''throttled'' []) else None),
     ctx_done = (\<lambda>tr d. None), sample = (\<lambda>tr. Fin (1/2)), overflowed = 0\<rparr>"

theorem Do_attempts_and_outcome_witness:
  "\<exists>k. 1 \<le> k \<and> k \<le> (3 :: int) \<and> map fst (op_runs (snd (retry_Do retry_demo_env retry_demo_cfg))) = [1..k]"
  using Do_attempts_and_outcome [of retry_demo_cfg retry_demo_env "fst (retry_Do retry_demo_env retry_demo_cfg)" "snd (retry_Do retry_demo_env retry_demo_cfg)"]
    retry_demo_cfg_valid(1) by (auto simp: retry_demo_cfg_def)

end
