(* ===== verification/Rec_Common.thy ===== *)
theory Rec_Common
  imports Common_Sizes
begin

text \<open>
  The shared vocabulary of \<open>pkg/common\<close>: recommendations and commitments with their
  service-specific details, the normalisation of engine, platform, tenancy, scope and deployment
  names, cost scaling, and the tally of dropped recommendations.
\<close>

named_theorems rec_consts \<open>the string constants of pkg/common\<close>

section \<open>Constants (common/types.go)\<close>

definition AWS :: go_string where [rec_consts]: "AWS = ''aws''"
definition ServiceCompute :: go_string where [rec_consts]: "ServiceCompute = ''compute''"
definition ServiceRelationalDB :: go_string where [rec_consts]: "ServiceRelationalDB = ''relational-db''"
definition ServiceNoSQL :: go_string where [rec_consts]: "ServiceNoSQL = ''nosql''"
definition ServiceCache :: go_string where [rec_consts]: "ServiceCache = ''cache''"
definition ServiceSearch :: go_string where [rec_consts]: "ServiceSearch = ''search''"
definition ServiceDataWarehouse :: go_string where [rec_consts]: "ServiceDataWarehouse = ''data-warehouse''"
definition ServiceSavingsPlansAll :: go_string where [rec_consts]: "ServiceSavingsPlansAll = ''savingsplans''"
definition ServiceSavingsPlansCompute :: go_string where [rec_consts]: "ServiceSavingsPlansCompute = ''savings-plans-compute''"
definition ServiceSavingsPlansEC2Instance :: go_string where [rec_consts]: "ServiceSavingsPlansEC2Instance = ''savings-plans-ec2instance''"
definition ServiceSavingsPlansSageMaker :: go_string where [rec_consts]: "ServiceSavingsPlansSageMaker = ''savings-plans-sagemaker''"
definition ServiceSavingsPlansDatabase :: go_string where [rec_consts]: "ServiceSavingsPlansDatabase = ''savings-plans-database''"
definition ServiceEC2 :: go_string where [rec_consts]: "ServiceEC2 = ''ec2''"
definition ServiceRDS :: go_string where [rec_consts]: "ServiceRDS = ''rds''"
definition ServiceElastiCache :: go_string where [rec_consts]: "ServiceElastiCache = ''elasticache''"
definition ServiceOpenSearch :: go_string where [rec_consts]: "ServiceOpenSearch = ''opensearch''"
definition ServiceRedshift :: go_string where [rec_consts]: "ServiceRedshift = ''redshift''"
definition ServiceMemoryDB :: go_string where [rec_consts]: "ServiceMemoryDB = ''memorydb''"
definition CommitmentReservedInstance :: go_string where [rec_consts]: "CommitmentReservedInstance = ''reserved-instance''"
definition CommitmentSavingsPlan :: go_string where [rec_consts]: "CommitmentSavingsPlan = ''savings-plan''"

definition SavingsPlansPlanTypes :: "go_string list" where
  "SavingsPlansPlanTypes = [ServiceSavingsPlansCompute, ServiceSavingsPlansEC2Instance,
     ServiceSavingsPlansSageMaker, ServiceSavingsPlansDatabase]"

definition IsSavingsPlan :: "go_string \<Rightarrow> bool" where
  "IsSavingsPlan s \<longleftrightarrow> s \<in> set (ServiceSavingsPlansAll # SavingsPlansPlanTypes) \<or> s = ''savingsplans''"

section \<open>Service details\<close>

record ComputeDetails =
  cd_InstanceType :: go_string
  cd_Platform :: go_string
  cd_Tenancy :: go_string
  cd_Scope :: go_string
  cd_AvailabilityZone :: go_string
  cd_GCPCommitmentType :: go_string
  cd_VCPU :: int
  cd_MemoryGB :: float64

record DatabaseDetails =
  dd_Engine :: go_string
  dd_EngineVersion :: go_string
  dd_AZConfig :: go_string
  dd_InstanceClass :: go_string
  dd_Deployment :: go_string

record CacheDetails =
  hd_Engine :: go_string
  hd_NodeType :: go_string
  hd_Shards :: int

record SearchDetails =
  sd_InstanceType :: go_string
  sd_MasterNodeType :: go_string
  sd_MasterNodeCount :: int

record DataWarehouseDetails =
  wd_NodeType :: go_string
  wd_ClusterType :: go_string
  wd_NumberOfNodes :: int

record NoSQLDetails =
  nd_Engine :: go_string
  nd_APIType :: go_string
  nd_ThroughputUnits :: int

record SavingsPlanDetails =
  pd_PlanType :: go_string
  pd_Currency :: go_string
  pd_Coverage :: go_string
  pd_InstanceFamily :: go_string
  pd_Region :: go_string
  pd_OfferingID :: go_string
  pd_HourlyCommitment :: float64

text \<open>
  A value of the interface \<open>ServiceDetails\<close> holds a details struct by value or by a pointer that
  may be \<open>nil\<close>; a \<open>nil\<close> interface is the \<open>None\<close> of the field.
\<close>

datatype 'a held = ByVal 'a | ByPtr "'a option"

datatype ServiceDetails = ComputeD "ComputeDetails held" | DatabaseD "DatabaseDetails held"
  | CacheD "CacheDetails held" | SearchD "SearchDetails held" | DataWarehouseD "DataWarehouseDetails held"
  | NoSQLD "NoSQLDetails held" | SavingsPlanD "SavingsPlanDetails held"

fun GetServiceType :: "ServiceDetails \<Rightarrow> go_string" where
  "GetServiceType (ComputeD d) = ServiceCompute"
| "GetServiceType (DatabaseD d) = ServiceRelationalDB"
| "GetServiceType (CacheD d) = ServiceCache"
| "GetServiceType (SearchD d) = ServiceSearch"
| "GetServiceType (DataWarehouseD d) = ServiceDataWarehouse"
| "GetServiceType (NoSQLD d) = ServiceNoSQL"
| "GetServiceType (SavingsPlanD d) = ServiceSavingsPlansAll"

section \<open>Recommendations and commitments\<close>

record Recommendation =
  r_Timestamp :: go_time
  r_Details :: "ServiceDetails option"
  r_RecurringMonthlyCost :: "float64 option"
  r_ExistingCoveragePercentExact :: "rat option"
  r_Provider :: go_string
  r_Account :: go_string
  r_AccountName :: go_string
  r_Service :: go_string
  r_Region :: go_string
  r_ResourceType :: go_string
  r_CommitmentType :: go_string
  r_Term :: go_string
  r_PaymentOption :: go_string
  r_CommitmentCurrency :: go_string
  r_SourceRecommendation :: go_string
  r_RawRecommendation :: go_string
  r_UsageHistory :: "float64 list"
  r_Count :: int
  r_OnDemandCost :: float64
  r_CommitmentCost :: float64
  r_EstimatedSavings :: float64
  r_SavingsPercentage :: float64
  r_BreakEvenMonths :: float64
  r_AverageInstancesUsedPerHour :: float64
  r_RecommendedUtilization :: float64
  r_RecommendedCount :: int
  r_ExistingCoveragePct :: float64
  r_ProjectedUtilization :: float64
  r_ProjectedCoverage :: float64
  r_ExistingCoverageKnown :: bool

text \<open>The zero value \<open>Recommendation{}\<close>.\<close>

definition zero_rec :: Recommendation where
  "zero_rec = \<lparr>r_Timestamp = 0, r_Details = None, r_RecurringMonthlyCost = None,
     r_ExistingCoveragePercentExact = None, r_Provider = [], r_Account = [], r_AccountName = [], r_Service = [],
     r_Region = [], r_ResourceType = [], r_CommitmentType = [], r_Term = [], r_PaymentOption = [],
     r_CommitmentCurrency = [], r_SourceRecommendation = [], r_RawRecommendation = [], r_UsageHistory = [],
     r_Count = 0, r_OnDemandCost = 0, r_CommitmentCost = 0, r_EstimatedSavings = 0, r_SavingsPercentage = 0,
     r_BreakEvenMonths = 0, r_AverageInstancesUsedPerHour = 0, r_RecommendedUtilization = 0,
     r_RecommendedCount = 0, r_ExistingCoveragePct = 0, r_ProjectedUtilization = 0, r_ProjectedCoverage = 0,
     r_ExistingCoverageKnown = False\<rparr>"

record Commitment =
  c_StartDate :: go_time
  c_EndDate :: go_time
  c_Provider :: go_string
  c_Account :: go_string
  c_CommitmentID :: go_string
  c_CommitmentType :: go_string
  c_Service :: go_string
  c_Region :: go_string
  c_ResourceType :: go_string
  c_Engine :: go_string
  c_Deployment :: go_string
  c_State :: go_string
  c_Platform :: go_string
  c_Tenancy :: go_string
  c_Scope :: go_string
  c_AvailabilityZone :: go_string
  c_Count :: int
  c_Cost :: float64
  c_CostKnown :: bool
  c_StartDateIsDay :: bool

definition owned_states :: "go_string list" where
  "owned_states = [''active'', ''payment-pending'', ''queued'']"

definition ended_states :: "go_string list" where
  "ended_states = [''retired'', ''pending-return'', ''expired'', ''canceled'', ''failed'']"

section \<open>Scaling and resizing (types.go, resize.go)\<close>

definition scale_details :: "float64 \<Rightarrow> ServiceDetails \<Rightarrow> ServiceDetails" where
  "scale_details ratio d = (case d of
     SavingsPlanD (ByPtr (Some p)) \<Rightarrow> SavingsPlanD (ByPtr (Some (p\<lparr>pd_HourlyCommitment := pd_HourlyCommitment p * ratio\<rparr>)))
   | _ \<Rightarrow> d)"

definition ScaleRecommendationCosts :: "Recommendation \<Rightarrow> float64 \<Rightarrow> Recommendation" where
  "ScaleRecommendationCosts rec ratio = rec\<lparr>
     r_CommitmentCost := r_CommitmentCost rec * ratio,
     r_OnDemandCost := r_OnDemandCost rec * ratio,
     r_EstimatedSavings := r_EstimatedSavings rec * ratio,
     r_RecurringMonthlyCost := map_option (\<lambda>c. c * ratio) (r_RecurringMonthlyCost rec),
     r_Details := map_option (scale_details ratio) (r_Details rec)\<rparr>"

definition float_of_int :: "int \<Rightarrow> float64" where
  "float_of_int n = rnd (of_int n)"

definition rec_name_args :: "Recommendation \<Rightarrow> fmt_arg list" where
  "rec_name_args rec = [ArgS (r_Service rec), ArgS (r_Region rec), ArgS (r_ResourceType rec)]"

definition ResizeCount :: "Recommendation \<Rightarrow> int \<Rightarrow> go_error + Recommendation" where
  "ResizeCount rec newCount =
    (if r_Count rec \<le> 0 then Inl (errorf ''cannot resize %s/%s/%s: source count %d has no per-unit cost''
       (rec_name_args rec @ [ArgI (r_Count rec)]))
     else if newCount < 1 \<or> newCount > r_Count rec then
       Inl (errorf ''cannot resize %s/%s/%s from %d to %d: new count must be in [1, %d]''
         (rec_name_args rec @ [ArgI (r_Count rec), ArgI newCount, ArgI (r_Count rec)]))
     else if newCount = r_Count rec then Inr rec
     else Inr ((ScaleRecommendationCosts rec (fdiv (float_of_int newCount) (float_of_int (r_Count rec))))\<lparr>r_Count := newCount\<rparr>))"

lemma ResizeCount_Inr:
  "1 \<le> n \<Longrightarrow> n \<le> r_Count rec \<Longrightarrow> \<exists>rec'. ResizeCount rec n = Inr rec' \<and> r_Count rec' = n"
  by (auto simp: ResizeCount_def)

lemma ResizeCount_iff: "(\<exists>rec'. ResizeCount rec n = Inr rec') \<longleftrightarrow> 1 \<le> n \<and> n \<le> r_Count rec"
  by (auto simp: ResizeCount_def)

lemma ResizeCount_count: "ResizeCount rec n = Inr rec' \<Longrightarrow> r_Count rec' = n"
  by (auto simp: ResizeCount_def split: if_splits)

text \<open>Scaling and resizing keep what identifies the recommendation.\<close>

lemma Scale_keeps [simp]:
  "r_Count (ScaleRecommendationCosts rec x) = r_Count rec"
  "r_ResourceType (ScaleRecommendationCosts rec x) = r_ResourceType rec"
  "r_Service (ScaleRecommendationCosts rec x) = r_Service rec"
  "r_Provider (ScaleRecommendationCosts rec x) = r_Provider rec"
  "r_Region (ScaleRecommendationCosts rec x) = r_Region rec"
  "r_ExistingCoveragePct (ScaleRecommendationCosts rec x) = r_ExistingCoveragePct rec"
  "r_SavingsPercentage (ScaleRecommendationCosts rec x) = r_SavingsPercentage rec"
  by (simp_all add: ScaleRecommendationCosts_def)

lemma ResizeCount_keeps:
  "ResizeCount rec n = Inr rec' \<Longrightarrow> r_Provider rec' = r_Provider rec \<and> r_Service rec' = r_Service rec
     \<and> r_Region rec' = r_Region rec \<and> r_ResourceType rec' = r_ResourceType rec"
  by (auto simp: ResizeCount_def split: if_splits)

section \<open>Engine, platform, tenancy and scope names (engine.go, deployment.go)\<close>

definition engineNameMap :: "(go_string, go_string) go_map" where
  "engineNameMap = [
     (''aurora postgresql'', ''aurora-postgresql''), (''aurora mysql'', ''aurora-mysql''), (''mysql'', ''mysql''),
     (''postgresql'', ''postgresql''), (''mariadb'', ''mariadb''), (''oracle'', ''oracle''), (''sql server'', ''sqlserver''),
     (''aurora-postgresql'', ''aurora-postgresql''), (''aurora-mysql'', ''aurora-mysql''), (''postgres'', ''postgresql''),
     (''oracle-se'', ''oracle''), (''oracle-se1'', ''oracle''), (''oracle-se2'', ''oracle''), (''oracle-ee'', ''oracle''),
     (''sqlserver-se'', ''sqlserver''), (''sqlserver-ee'', ''sqlserver''), (''sqlserver-ex'', ''sqlserver''),
     (''sqlserver-web'', ''sqlserver'')]"

definition NormalizeEngineName :: "go_string \<Rightarrow> go_string" where
  "NormalizeEngineName engine = (let n = to_lower engine in
     case map_of engineNameMap n of Some e \<Rightarrow> e | None \<Rightarrow> n)"

definition EngineFromDetails :: "ServiceDetails option \<Rightarrow> go_string" where
  "EngineFromDetails details = (case details of
     Some (DatabaseD (ByPtr (Some d))) \<Rightarrow> NormalizeEngineName (dd_Engine d)
   | Some (CacheD (ByPtr (Some d))) \<Rightarrow> NormalizeEngineName (hd_Engine d)
   | _ \<Rightarrow> [])"

definition platformAliases :: "(go_string, go_string) go_map" where
  "platformAliases = [(''linux'', ''linux/unix''), (''unix'', ''linux/unix'')]"

definition NormalizePlatformName :: "go_string \<Rightarrow> go_string" where
  "NormalizePlatformName platform = (let p = trim_suffix (to_lower (trim_space platform)) '' (amazon vpc)'' in
     case map_of platformAliases p of Some a \<Rightarrow> a | None \<Rightarrow> p)"

definition ScopeRegional :: go_string where [rec_consts]: "ScopeRegional = ''regional''"
definition ScopeZonal :: go_string where [rec_consts]: "ScopeZonal = ''zonal''"

definition NormalizeTenancyName :: "go_string \<Rightarrow> go_string" where
  "NormalizeTenancyName tenancy = (let t = to_lower (trim_space tenancy) in
     if t \<in> {''default'', ''shared''} then ''default''
     else if t \<in> {''dedicated'', ''host''} then t else [])"

definition NormalizeScopeName :: "go_string \<Rightarrow> go_string" where
  "NormalizeScopeName scope = (let s = to_lower (trim_space scope) in
     if s \<in> {''region'', ''regional''} then ScopeRegional
     else if s \<in> {''availability zone'', ''availability-zone'', ''zonal''} then ScopeZonal else [])"

text \<open>The key of the engine filters, and the normaliser of the filter's entries.\<close>

definition EngineFilterKey :: "ServiceDetails option \<Rightarrow> go_string \<times> (go_string \<Rightarrow> go_string)" where
  "EngineFilterKey details = (case details of
     Some (ComputeD (ByPtr None)) \<Rightarrow> ([], NormalizeEngineName)
   | Some (ComputeD (ByPtr (Some d))) \<Rightarrow> (NormalizePlatformName (cd_Platform d), NormalizePlatformName)
   | Some (ComputeD (ByVal d)) \<Rightarrow> (NormalizePlatformName (cd_Platform d), NormalizePlatformName)
   | _ \<Rightarrow> (EngineFromDetails details, NormalizeEngineName))"

definition NormalizeDeploymentName :: "go_string \<Rightarrow> go_string" where
  "NormalizeDeploymentName deployment =
     foldl (\<lambda>s c. remove_char c s) (to_lower deployment) '' -_()''"

definition DeploymentFromDetails :: "ServiceDetails option \<Rightarrow> go_string" where
  "DeploymentFromDetails details = (case details of
     Some (DatabaseD (ByPtr (Some d))) \<Rightarrow> dd_AZConfig d
   | _ \<Rightarrow> [])"

text \<open>Reading a Go map gives the zero value of a missing key.\<close>

definition map_get :: "'v \<Rightarrow> ('k, 'v) go_map \<Rightarrow> 'k \<Rightarrow> 'v" where
  "map_get z m k = (case map_of m k of Some v \<Rightarrow> v | None \<Rightarrow> z)"

section \<open>Dropped recommendations (drop_summary.go)\<close>

text \<open>
  A \<open>*DropSummary\<close>: \<open>None\<close> is a nil pointer. \<open>Add\<close> panics on a negative count; the map is kept
  in the order of its first additions.
\<close>

type_synonym DropSummary = "(go_string, int) go_map option"

fun tally :: "go_string \<Rightarrow> int \<Rightarrow> (go_string, int) go_map \<Rightarrow> (go_string, int) go_map" where
  "tally reason n [] = [(reason, n)]"
| "tally reason n ((r, k) # m) = (if r = reason then (r, k + n) # m else (r, k) # tally reason n m)"

definition DropSummary_Add :: "DropSummary \<Rightarrow> go_string \<Rightarrow> int \<Rightarrow> go_string + DropSummary" where
  "DropSummary_Add d reason n =
    (if n < 0 then Inl (sprintf ''common.DropSummary.Add: negative count %d for reason %q'' [ArgI n, ArgS reason])
     else if n = 0 then Inr d else Inr (map_option (tally reason n) d))"

definition DropSummary_Total :: "DropSummary \<Rightarrow> int" where
  "DropSummary_Total d = (case d of None \<Rightarrow> 0 | Some m \<Rightarrow> sum_list (map snd m))"

definition DropSummary_IsEmpty :: "DropSummary \<Rightarrow> bool" where
  "DropSummary_IsEmpty d \<longleftrightarrow> d = None \<or> d = Some []"

definition DropSummary_FormatOneLine :: "DropSummary \<Rightarrow> go_string" where
  "DropSummary_FormatOneLine d = (if DropSummary_IsEmpty d then [] else
     let m = the d; reasons = sort (map fst m);
         parts = map (\<lambda>r. sprintf ''%s=%d'' [ArgS r, ArgI (map_get 0 m r)]) reasons
     in sprintf ''Dropped %d recs: %s'' [ArgI (DropSummary_Total d), ArgS (join_with '', '' parts)])"

text \<open>The call sites, whose counts are lengths of lists: \<open>Add\<close> cannot panic there.\<close>

definition drop_add :: "DropSummary \<Rightarrow> go_string \<Rightarrow> nat \<Rightarrow> DropSummary" where
  "drop_add d reason n = (case DropSummary_Add d reason (int n) of Inr d' \<Rightarrow> d' | Inl _ \<Rightarrow> d)"

lemma drop_add_total [simp]: "DropSummary_Total (drop_add (Some m) r n) = DropSummary_Total (Some m) + int n"
proof -
  have "sum_list (map snd (tally r k m)) = sum_list (map snd m) + k" for k
    by (induction r k m rule: tally.induct) auto
  then show ?thesis by (simp add: drop_add_def DropSummary_Add_def DropSummary_Total_def)
qed

lemma drop_add_Some: "\<exists>m'. drop_add (Some m) r n = Some m'"
  by (simp add: drop_add_def DropSummary_Add_def)

end
