(* ===== verification/Rec_EC2.thy ===== *)
theory Rec_EC2
  imports Rec_Common
begin

text \<open>
  The EC2 side of the duplicate check (\<open>pkg/recfilter/dedupe_ec2.go\<close>, \<open>dedupe_ec2_flex.go\<close>): the
  recent EC2 commitments as entries with a budget of nodes or, for size-flexible reservations, of
  quarter normalised units, and the consumption of those budgets by recommendations. An entry is
  reachable through its exact instance type and through its family, so the entries live in a heap
  and both maps hold their addresses. The log lines and their \<open>warned\<close> set are left out.
\<close>

section \<open>Scopes\<close>

datatype scopeKind = scopeUnknown | scopeRegionalKind | scopeZonalKind

record scopeState =
  sc_az :: go_string
  sc_kind :: scopeKind

definition newScopeState :: "go_string \<Rightarrow> go_string \<Rightarrow> scopeState" where
  "newScopeState rawScope rawAz = (let az = to_lower (trim_space rawAz); scope = NormalizeScopeName rawScope in
     if az \<noteq> [] \<or> scope = ScopeZonal then \<lparr>sc_az = az, sc_kind = scopeZonalKind\<rparr>
     else if scope = ScopeRegional then \<lparr>sc_az = [], sc_kind = scopeRegionalKind\<rparr>
     else \<lparr>sc_az = [], sc_kind = scopeUnknown\<rparr>)"

definition scopeCovers :: "scopeState \<Rightarrow> scopeState \<Rightarrow> bool" where
  "scopeCovers entry rec =
    (if sc_kind entry = scopeUnknown \<or> sc_kind rec = scopeUnknown then True
     else if sc_kind entry = scopeRegionalKind then True
     else if sc_kind rec \<noteq> scopeZonalKind then False
     else sc_az entry = [] \<or> sc_az rec = [] \<or> sc_az entry = sc_az rec)"

section \<open>Entries\<close>

record ec2Entry =
  e_platform :: go_string
  e_tenancy :: go_string
  e_scope :: scopeState
  e_count :: int
  e_wildcards :: int
  e_flexUnits :: int
  e_flexLeft :: int

definition ec2_covers :: "ec2Entry \<Rightarrow> go_string \<Rightarrow> go_string \<Rightarrow> scopeState \<Rightarrow> bool" where
  "ec2_covers e platform tenancy scope \<longleftrightarrow>
     (e_platform e = [] \<or> platform = [] \<or> e_platform e = platform) \<and>
     (e_tenancy e = [] \<or> tenancy = [] \<or> e_tenancy e = tenancy) \<and> scopeCovers (e_scope e) scope"

definition nodesLeft :: "ec2Entry \<Rightarrow> int" where
  "nodesLeft e = (if e_flexUnits e > 0 then go_quo (e_flexLeft e) (e_flexUnits e) else e_count e)"

definition spend :: "ec2Entry \<Rightarrow> int \<Rightarrow> ec2Entry" where
  "spend e nodes = (if e_flexUnits e > 0 then e\<lparr>e_flexLeft := e_flexLeft e - nodes * e_flexUnits e\<rparr>
     else e\<lparr>e_count := e_count e - nodes\<rparr>)"

definition wildcardCount :: "ec2Entry \<Rightarrow> int" where
  "wildcardCount e = int (length (filter id [e_platform e = [], e_tenancy e = [], sc_kind (e_scope e) = scopeUnknown,
     sc_kind (e_scope e) = scopeZonalKind \<and> sc_az (e_scope e) = []]))"

definition isAWSCompute :: "go_string \<Rightarrow> go_string \<Rightarrow> bool" where
  "isAWSCompute p s \<longleftrightarrow> p = AWS \<and> (s = ServiceEC2 \<or> s = ServiceCompute)"

definition ec2BaseKey :: "go_string \<Rightarrow> go_string \<Rightarrow> go_string" where
  "ec2BaseKey resourceType region = ''ec2|'' @ resourceType @ ''|'' @ region"

definition ec2_normalize :: "go_string \<Rightarrow> go_string \<Rightarrow> go_string \<Rightarrow> go_string \<Rightarrow> go_string \<times> go_string \<times> scopeState" where
  "ec2_normalize rawPlatform rawTenancy rawScope az =
     (NormalizePlatformName rawPlatform, NormalizeTenancyName rawTenancy, newScopeState rawScope az)"

definition ec2FlexKey :: "go_string \<Rightarrow> go_string \<Rightarrow> go_string \<Rightarrow> go_string \<Rightarrow> (go_string \<times> int) option" where
  "ec2FlexKey resourceType region platform tenancy =
    (if platform \<noteq> ''linux/unix'' \<or> tenancy \<noteq> ''default'' then None
     else case cut_at CHR ''.'' resourceType of
       None \<Rightarrow> None
     | Some (prefix, sz) \<Rightarrow>
         let nf = EC2NormalizationFactor sz in
         if prefix = [] \<or> feq nf (Fin 0) \<or> \<not> EC2SizeFlexibleFamily prefix then None
         else Some (''ec2flex|'' @ to_lower prefix @ ''|'' @ region, quarter_units nf))"

section \<open>The budgets of the recent commitments\<close>

record ec2Dedupe =
  d_heap :: "ec2Entry list"
  d_entries :: "go_string \<Rightarrow> nat list"
  d_families :: "go_string \<Rightarrow> nat list"

definition map_append :: "(go_string \<Rightarrow> nat list) \<Rightarrow> go_string \<Rightarrow> nat \<Rightarrow> go_string \<Rightarrow> nat list" where
  "map_append m k i = m(k := m k @ [i])"

definition new_entry :: "Commitment \<Rightarrow> ec2Entry" where
  "new_entry c = (case ec2_normalize (c_Platform c) (c_Tenancy c) (c_Scope c) (c_AvailabilityZone c) of
     (platform, tenancy, scope) \<Rightarrow>
       let e = \<lparr>e_platform = platform, e_tenancy = tenancy, e_scope = scope, e_count = c_Count c,
                e_wildcards = 0, e_flexUnits = 0, e_flexLeft = 0\<rparr> in
       e\<lparr>e_wildcards := wildcardCount e\<rparr>)"

definition add_commitment :: "ec2Dedupe \<Rightarrow> Commitment \<Rightarrow> ec2Dedupe" where
  "add_commitment d c =
    (if \<not> isAWSCompute (c_Provider c) (c_Service c) then d
     else let e = new_entry c; i = length (d_heap d);
              entries = map_append (d_entries d) (ec2BaseKey (c_ResourceType c) (c_Region c)) i in
       case ec2FlexKey (c_ResourceType c) (c_Region c) (e_platform e) (e_tenancy e) of
         Some (family, units) \<Rightarrow>
           if sc_kind (e_scope e) = scopeRegionalKind then
             \<lparr>d_heap = d_heap d @ [e\<lparr>e_flexUnits := units, e_flexLeft := max (e_count e) 0 * units\<rparr>],
              d_entries = entries, d_families = map_append (d_families d) family i\<rparr>
           else d\<lparr>d_heap := d_heap d @ [e], d_entries := entries\<rparr>
       | None \<Rightarrow> d\<lparr>d_heap := d_heap d @ [e], d_entries := entries\<rparr>)"

definition newEC2Dedupe :: "Commitment list \<Rightarrow> ec2Dedupe" where
  "newEC2Dedupe commitments =
    (let d = foldl add_commitment \<lparr>d_heap = [], d_entries = (\<lambda>_. []), d_families = (\<lambda>_. [])\<rparr> commitments;
         le = (\<lambda>i j. e_wildcards (d_heap d ! i) \<le> e_wildcards (d_heap d ! j)) in
     d\<lparr>d_entries := (\<lambda>k. sort_stable le (d_entries d k))\<rparr>)"

section \<open>Consuming the budgets\<close>

definition ec2DimsFromDetails :: "ServiceDetails option \<Rightarrow> go_string \<times> go_string \<times> go_string \<times> go_string" where
  "ec2DimsFromDetails details = (case details of
     Some (ComputeD (ByVal d)) \<Rightarrow> (cd_Platform d, cd_Tenancy d, cd_Scope d, cd_AvailabilityZone d)
   | Some (ComputeD (ByPtr (Some d))) \<Rightarrow> (cd_Platform d, cd_Tenancy d, cd_Scope d, cd_AvailabilityZone d)
   | _ \<Rightarrow> ([], [], [], []))"

definition ec2_handles :: "Recommendation \<Rightarrow> bool" where
  "ec2_handles rec = isAWSCompute (r_Provider rec) (r_Service rec)"

fun spend_loop :: "go_string \<Rightarrow> go_string \<Rightarrow> scopeState \<Rightarrow> nat list \<Rightarrow> ec2Entry list \<Rightarrow> int \<Rightarrow> ec2Entry list \<times> int" where
  "spend_loop p t s [] heap remaining = (heap, remaining)"
| "spend_loop p t s (i # is) heap remaining =
    (if remaining \<le> 0 then (heap, remaining)
     else if nodesLeft (heap ! i) \<le> 0 \<or> \<not> ec2_covers (heap ! i) p t s then spend_loop p t s is heap remaining
     else let n = min (nodesLeft (heap ! i)) remaining in
       spend_loop p t s is (heap[i := spend (heap ! i) n]) (remaining - n))"

fun take_loop :: "nat list \<Rightarrow> ec2Entry list \<Rightarrow> int \<Rightarrow> ec2Entry list" where
  "take_loop [] heap need = heap"
| "take_loop (i # is) heap need =
    (if need \<le> 0 then heap
     else let e = heap ! i; k = min (e_flexLeft e) need in
       take_loop is (heap[i := e\<lparr>e_flexLeft := e_flexLeft e - k\<rparr>]) (need - k))"

definition consumeFamily :: "ec2Dedupe \<Rightarrow> Recommendation \<Rightarrow> go_string \<Rightarrow> go_string \<Rightarrow> int \<Rightarrow> ec2Dedupe \<times> int" where
  "consumeFamily d rec platform tenancy remaining =
    (case ec2FlexKey (r_ResourceType rec) (r_Region rec) platform tenancy of
       None \<Rightarrow> (d, remaining)
     | Some (family, recUnits) \<Rightarrow>
         if remaining \<le> 0 then (d, remaining)
         else let entries = d_families d family;
                  budget = sum_list (map (\<lambda>i. e_flexLeft (d_heap d ! i)) entries);
                  covered = min (go_quo budget recUnits) remaining in
           (d\<lparr>d_heap := take_loop entries (d_heap d) (covered * recUnits)\<rparr>, remaining - covered))"

definition ec2_adjust :: "ec2Dedupe \<Rightarrow> Recommendation \<Rightarrow> ec2Dedupe \<times> (go_error + Recommendation)" where
  "ec2_adjust d rec =
    (case ec2DimsFromDetails (r_Details rec) of (rp, rt, rs, raz) \<Rightarrow>
     case ec2_normalize rp rt rs raz of (platform, tenancy, scope) \<Rightarrow>
     case spend_loop platform tenancy scope (d_entries d (ec2BaseKey (r_ResourceType rec) (r_Region rec))) (d_heap d) (r_Count rec) of
       (heap, rem1) \<Rightarrow>
     case consumeFamily (d\<lparr>d_heap := heap\<rparr>) rec platform tenancy rem1 of (d', rem2) \<Rightarrow>
       (d', if rem2 \<le> 0 then Inr (zero_rec\<lparr>r_Count := 0\<rparr>) else ResizeCount rec rem2))"


section \<open>Budgets in units\<close>

text \<open>
  One node of a type weighs its quarter units when the type can be size-flexible, and one
  otherwise. \<open>ts\<close> lists the instance types of the heap's entries.
\<close>

definition unit_weight :: "go_string \<Rightarrow> int" where
  "unit_weight rt = (case ec2FlexKey rt [] ''linux/unix'' ''default'' of None \<Rightarrow> 1 | Some (f, u) \<Rightarrow> u)"

definition entry_cap :: "go_string \<Rightarrow> ec2Entry \<Rightarrow> int" where
  "entry_cap t e = (if e_flexUnits e > 0 then e_flexLeft e else max (e_count e) 0 * unit_weight t)"

definition heap_cap :: "go_string list \<Rightarrow> ec2Entry list \<Rightarrow> int" where
  "heap_cap ts heap = (\<Sum>i < length heap. entry_cap (ts ! i) (heap ! i))"

definition entry_ok :: "go_string \<Rightarrow> ec2Entry \<Rightarrow> bool" where
  "entry_ok t e \<longleftrightarrow> (e_flexUnits e = 0 \<or> (0 < e_flexUnits e \<and> e_flexUnits e = unit_weight t \<and> 0 \<le> e_flexLeft e))"

definition heap_ok :: "go_string list \<Rightarrow> ec2Entry list \<Rightarrow> bool" where
  "heap_ok ts heap \<longleftrightarrow> length ts = length heap \<and> (\<forall>i < length heap. entry_ok (ts ! i) (heap ! i))"

definition maps_ok :: "go_string list \<Rightarrow> ec2Dedupe \<Rightarrow> bool" where
  "maps_ok ts d \<longleftrightarrow>
     (\<forall>k. \<forall>i \<in> set (d_entries d k). i < length ts \<and> (\<exists>region. k = ec2BaseKey (ts ! i) region)) \<and>
     (\<forall>k. distinct (d_families d k) \<and> (\<forall>i \<in> set (d_families d k). i < length ts \<and> 0 < e_flexUnits (d_heap d ! i)))"

lemma flex_key_weight: "ec2FlexKey rt region p t = Some (f, u) \<Longrightarrow> u = unit_weight rt \<and> 0 < u"
proof -
  assume "ec2FlexKey rt region p t = Some (f, u)"
  then obtain a b where c: "p = ''linux/unix''" "t = ''default''" "cut_at CHR ''.'' rt = Some (a, b)"
    "a \<noteq> []" "\<not> feq (EC2NormalizationFactor b) (Fin 0)" "EC2SizeFlexibleFamily a" "u = quarter_units (EC2NormalizationFactor b)"
    by (auto simp: ec2FlexKey_def Let_def split: if_splits option.splits)
  then have "unit_weight rt = u" by (simp add: unit_weight_def ec2FlexKey_def Let_def)
  moreover have "EC2NormalizationFactor b \<noteq> Fin 0" using c(5) by auto
  then have "0 < u" using quarter_units_pos(1) unfolding c(7) by blast
  ultimately show ?thesis by simp
qed

lemma unit_weight_pos [simp]: "0 < unit_weight rt"
proof (cases "ec2FlexKey rt [] ''linux/unix'' ''default''")
  case None
  then show ?thesis by (simp add: unit_weight_def)
next
  case (Some fu)
  then show ?thesis using flex_key_weight [of rt "[]" "''linux/unix''" "''default''" "fst fu" "snd fu"] by simp
qed

lemma unit_weight_nonneg [simp]: "0 \<le> unit_weight rt"
  using unit_weight_pos [of rt] by linarith

lemma heap_cap_update:
  assumes "i < length heap"
  shows "heap_cap ts (heap[i := e]) = heap_cap ts heap - entry_cap (ts ! i) (heap ! i) + entry_cap (ts ! i) e"
proof -
  have "(\<Sum>j \<in> {..<length heap} - {i}. entry_cap (ts ! j) (heap[i := e] ! j)) = (\<Sum>j \<in> {..<length heap} - {i}. entry_cap (ts ! j) (heap ! j))"
    by (intro sum.cong) auto
  then show ?thesis using assms unfolding heap_cap_def by (simp add: sum.remove [of _ i])
qed

lemma heap_ok_update: "heap_ok ts heap \<Longrightarrow> entry_ok (ts ! i) e \<Longrightarrow> heap_ok ts (heap[i := e])"
  by (cases "i < length heap") (auto simp: heap_ok_def nth_list_update)

lemma heap_cap_nonneg:
  assumes "heap_ok ts heap"
  shows "0 \<le> heap_cap ts heap"
  unfolding heap_cap_def
proof (intro sum_nonneg)
  fix i assume "i \<in> {..<length heap}"
  then have "entry_ok (ts ! i) (heap ! i)" using assms by (simp add: heap_ok_def)
  then show "0 \<le> entry_cap (ts ! i) (heap ! i)"
    by (auto simp: entry_ok_def entry_cap_def)
qed

lemma spend_entry:
  assumes "entry_ok t e" and "0 \<le> n" and "n \<le> nodesLeft e" and "0 < nodesLeft e"
  shows "entry_ok t (spend e n) \<and> entry_cap t (spend e n) = entry_cap t e - n * unit_weight t \<and> e_flexUnits (spend e n) = e_flexUnits e"
proof (cases "0 < e_flexUnits e")
  case True
  then have u: "e_flexUnits e = unit_weight t" "0 \<le> e_flexLeft e" using assms(1) by (auto simp: entry_ok_def)
  then have "n \<le> e_flexLeft e div unit_weight t" using assms(3) True by (simp add: nodesLeft_def)
  then have "n * unit_weight t \<le> e_flexLeft e div unit_weight t * unit_weight t"
    by (intro mult_right_mono) simp_all
  also have "\<dots> \<le> e_flexLeft e" by (simp flip: minus_mod_eq_div_mult)
  finally have "n * unit_weight t \<le> e_flexLeft e" .
  then show ?thesis using True u by (simp add: spend_def entry_ok_def entry_cap_def)
next
  case False
  then show ?thesis using assms by (auto simp: spend_def entry_ok_def entry_cap_def nodesLeft_def max_def left_diff_distrib)
qed

lemma spend_loop_credit:
  assumes "spend_loop p t s is heap rem = (heap', rem')" and "heap_ok ts heap"
    and "\<forall>i \<in> set is. i < length ts \<and> ts ! i = rt"
  shows "heap_ok ts heap' \<and> map e_flexUnits heap' = map e_flexUnits heap \<and> rem' \<le> rem \<and> (0 \<le> rem \<longrightarrow> 0 \<le> rem')
    \<and> heap_cap ts heap' = heap_cap ts heap - (rem - rem') * unit_weight rt"
  using assms
proof (induction p t s "is" heap rem rule: spend_loop.induct)
  case (1 p t s heap remaining)
  then show ?case by simp
next
  case (2 p t s i "is" heap remaining)
  let ?e = "heap ! i"
  consider (stop) "remaining \<le> 0" | (skip) "\<not> remaining \<le> 0" "nodesLeft ?e \<le> 0 \<or> \<not> ec2_covers ?e p t s"
    | (use) "\<not> remaining \<le> 0" "\<not> (nodesLeft ?e \<le> 0 \<or> \<not> ec2_covers ?e p t s)" by blast
  then show ?case
  proof cases
    case stop
    then show ?thesis using "2.prems" by simp
  next
    case skip
    then show ?thesis using "2.prems" "2.IH"(1) by simp
  next
    case use
    define n where "n = min (nodesLeft ?e) remaining"
    have i: "i < length heap" "ts ! i = rt" using "2.prems"(2,3) by (auto simp: heap_ok_def)
    have n: "0 \<le> n" "n \<le> nodesLeft ?e" "n \<le> remaining" "0 < nodesLeft ?e" using use by (auto simp: n_def)
    have e: "entry_ok rt (spend ?e n)" "entry_cap rt (spend ?e n) = entry_cap rt ?e - n * unit_weight rt"
      "e_flexUnits (spend ?e n) = e_flexUnits ?e"
      using spend_entry [of rt ?e n] "2.prems"(2) i n by (auto simp: heap_ok_def)
    have step: "spend_loop p t s is (heap[i := spend ?e n]) (remaining - n) = (heap', rem')"
      using "2.prems"(1) use by (simp add: n_def Let_def)
    have ok: "heap_ok ts (heap[i := spend ?e n])" using heap_ok_update "2.prems"(2) e i by blast
    have "heap_cap ts (heap[i := spend ?e n]) = heap_cap ts heap - n * unit_weight rt"
      using heap_cap_update [OF i(1), of ts] e i by simp
    moreover have "map e_flexUnits (heap[i := spend ?e n]) = map e_flexUnits heap"
      using e i by (metis list_update_id map_update nth_map)
    ultimately show ?thesis
      using "2.IH"(2) [OF use(1,2) n_def step [unfolded n_def, folded n_def] ok] "2.prems"(3) n
      by (auto simp: left_diff_distrib)
  qed
qed

lemma take_loop_credit:
  assumes "heap_ok ts heap" and "distinct is" and "\<forall>i \<in> set is. i < length ts \<and> 0 < e_flexUnits (heap ! i)"
    and "0 \<le> need" and "need \<le> sum_list (map (\<lambda>i. e_flexLeft (heap ! i)) is)"
  shows "heap_ok ts (take_loop is heap need) \<and> map e_flexUnits (take_loop is heap need) = map e_flexUnits heap
    \<and> heap_cap ts (take_loop is heap need) = heap_cap ts heap - need"
  using assms
proof (induction "is" heap need rule: take_loop.induct)
  case (1 heap need)
  then show ?case by simp
next
  case (2 i "is" heap need)
  show ?case
  proof (cases "need \<le> 0")
    case True
    then show ?thesis using "2.prems" by simp
  next
    case False
    let ?e = "heap ! i"
    define k where "k = min (e_flexLeft ?e) need"
    define e' where "e' = ?e\<lparr>e_flexLeft := e_flexLeft ?e - k\<rparr>"
    have i: "i < length heap" "0 < e_flexUnits ?e" "entry_ok (ts ! i) ?e" using "2.prems" by (auto simp: heap_ok_def)
    then have k: "0 \<le> k" "k \<le> e_flexLeft ?e" "k \<le> need" using False by (auto simp: k_def entry_ok_def)
    have e': "entry_ok (ts ! i) e'" "entry_cap (ts ! i) e' = entry_cap (ts ! i) ?e - k" "e_flexUnits e' = e_flexUnits ?e"
      using i k by (auto simp: e'_def entry_ok_def entry_cap_def)
    let ?heap = "heap[i := e']"
    have ok: "heap_ok ts ?heap" using heap_ok_update "2.prems"(1) e' by blast
    have cap: "heap_cap ts ?heap = heap_cap ts heap - k" using heap_cap_update [OF i(1), of ts] e' by simp
    have fl: "map e_flexUnits ?heap = map e_flexUnits heap" using e' i by (metis list_update_id map_update nth_map)
    have rest: "map (\<lambda>j. e_flexLeft (?heap ! j)) is = map (\<lambda>j. e_flexLeft (heap ! j)) is"
      using "2.prems"(2) i(1) by (auto simp: nth_list_update)
    have left: "0 \<le> sum_list (map (\<lambda>j. e_flexLeft (heap ! j)) is)"
    proof (intro sum_list_nonneg)
      fix x assume "x \<in> set (map (\<lambda>j. e_flexLeft (heap ! j)) is)"
      then obtain j where "j \<in> set is" "x = e_flexLeft (heap ! j)" by auto
      moreover from this have "entry_ok (ts ! j) (heap ! j)" "0 < e_flexUnits (heap ! j)"
        using "2.prems"(1,3) by (auto simp: heap_ok_def)
      ultimately show "0 \<le> x" by (auto simp: entry_ok_def)
    qed
    have need: "0 \<le> need - k" "need - k \<le> sum_list (map (\<lambda>j. e_flexLeft (?heap ! j)) is)"
      using k "2.prems"(2,5) left unfolding rest by (auto simp: k_def)
    have ix: "\<forall>j \<in> set is. j < length ts \<and> 0 < e_flexUnits (?heap ! j)"
      using "2.prems"(3) e' i(1) by (auto simp: nth_list_update)
    have "take_loop (i # is) heap need = take_loop is ?heap (need - k)"
      using False by (simp add: Let_def k_def e'_def)
    moreover have "heap_ok ts (take_loop is ?heap (need - k)) \<and> map e_flexUnits (take_loop is ?heap (need - k)) = map e_flexUnits ?heap
        \<and> heap_cap ts (take_loop is ?heap (need - k)) = heap_cap ts ?heap - (need - k)"
      using "2.IH" [OF False refl k_def] ok "2.prems"(2) ix need by (simp add: e'_def)
    ultimately show ?thesis using cap fl by simp
  qed
qed


definition no_pipe :: "go_string \<Rightarrow> bool" where
  "no_pipe s \<longleftrightarrow> CHR ''|'' \<notin> set s"

lemma ec2BaseKey_type: "ec2BaseKey t r = ec2BaseKey t' r' \<Longrightarrow> no_pipe t \<Longrightarrow> no_pipe t' \<Longrightarrow> t = t'"
proof -
  assume a: "ec2BaseKey t r = ec2BaseKey t' r'" "no_pipe t" "no_pipe t'"
  then have "t @ CHR ''|'' # r = t' @ CHR ''|'' # r'" by (simp add: ec2BaseKey_def)
  then have "cut_at CHR ''|'' (t @ CHR ''|'' # r) = cut_at CHR ''|'' (t' @ CHR ''|'' # r')" by simp
  then show "t = t'" using a cut_at_append unfolding no_pipe_def by (metis option.inject prod.inject)
qed

lemma flexUnits_same:
  assumes "map e_flexUnits heap' = map e_flexUnits heap" and "i < length heap"
  shows "e_flexUnits (heap' ! i) = e_flexUnits (heap ! i)"
  using assms by (metis length_map nth_map)

lemma maps_ok_heap:
  assumes "maps_ok ts d" and "length ts = length (d_heap d)" and "map e_flexUnits heap' = map e_flexUnits (d_heap d)"
  shows "maps_ok ts (d\<lparr>d_heap := heap'\<rparr>)"
  using assms flexUnits_same [OF assms(3)] by (auto simp: maps_ok_def)

text \<open>What one recommendation costs: the budgets shrink by exactly the nodes it was relieved of.\<close>

definition ec2_state_ok :: "go_string list \<Rightarrow> ec2Dedupe \<Rightarrow> bool" where
  "ec2_state_ok ts d \<longleftrightarrow> heap_ok ts (d_heap d) \<and> maps_ok ts d \<and> (\<forall>t \<in> set ts. no_pipe t)"

lemma consumeFamily_credit:
  assumes "consumeFamily d rec p t rem = (d', rem')" and "ec2_state_ok ts d"
  shows "ec2_state_ok ts d' \<and> rem' \<le> rem \<and> (0 \<le> rem \<longrightarrow> 0 \<le> rem')
    \<and> heap_cap ts (d_heap d') = heap_cap ts (d_heap d) - (rem - rem') * unit_weight (r_ResourceType rec)"
proof (cases "ec2FlexKey (r_ResourceType rec) (r_Region rec) p t")
  case None
  then show ?thesis using assms by (simp add: consumeFamily_def)
next
  case (Some fu)
  obtain family units where fu: "fu = (family, units)" by fastforce
  note u = flex_key_weight [OF Some [unfolded fu]]
  show ?thesis
  proof (cases "rem \<le> 0")
    case True
    then show ?thesis using assms Some fu by (simp add: consumeFamily_def)
  next
    case False
    define ixs where "ixs = d_families d family"
    define budget where "budget = sum_list (map (\<lambda>i. e_flexLeft (d_heap d ! i)) ixs)"
    define covered where "covered = min (go_quo budget units) rem"
    have ixs: "distinct ixs" "\<forall>i \<in> set ixs. i < length ts \<and> 0 < e_flexUnits (d_heap d ! i)"
      using assms(2) by (auto simp: ec2_state_ok_def maps_ok_def ixs_def)
    have ok: "heap_ok ts (d_heap d)" using assms(2) by (simp add: ec2_state_ok_def)
    have b: "0 \<le> budget"
      unfolding budget_def
    proof (intro sum_list_nonneg)
      fix x assume "x \<in> set (map (\<lambda>i. e_flexLeft (d_heap d ! i)) ixs)"
      then obtain i where i: "i \<in> set ixs" "x = e_flexLeft (d_heap d ! i)" by auto
      then have "entry_ok (ts ! i) (d_heap d ! i)" using ixs(2) ok by (auto simp: heap_ok_def)
      then show "0 \<le> x" using i ixs(2) by (auto simp: entry_ok_def)
    qed
    have c: "0 \<le> covered" "covered \<le> rem" "covered \<le> budget div units"
      using b u False by (auto simp: covered_def pos_imp_zdiv_nonneg_iff)
    have "covered * units \<le> budget div units * units" using c(3) u by (intro mult_right_mono) auto
    also have "\<dots> \<le> budget" using u by (simp flip: minus_mod_eq_div_mult)
    finally have need: "0 \<le> covered * units" "covered * units \<le> sum_list (map (\<lambda>i. e_flexLeft (d_heap d ! i)) ixs)"
      using c(1) u by (auto simp: budget_def)
    let ?h = "take_loop ixs (d_heap d) (covered * units)"
    have e: "d' = d\<lparr>d_heap := ?h\<rparr>" "rem' = rem - covered"
      using assms(1) Some fu False by (auto simp: consumeFamily_def Let_def ixs_def budget_def covered_def)
    note t = take_loop_credit [OF ok ixs need]
    have "maps_ok ts (d\<lparr>d_heap := ?h\<rparr>)"
      using maps_ok_heap [of ts d ?h] assms(2) t by (auto simp: ec2_state_ok_def heap_ok_def)
    then show ?thesis using t e c u assms(2) by (simp add: ec2_state_ok_def)
  qed
qed

lemma ec2_adjust_credit:
  assumes "ec2_state_ok ts d" and "no_pipe (r_ResourceType rec)"
  obtains d' rec' where "ec2_adjust d rec = (d', Inr rec')" and "ec2_state_ok ts d'"
    and "0 \<le> r_Count rec'" and "r_Count rec' \<le> max 0 (r_Count rec)"
    and "heap_cap ts (d_heap d') = heap_cap ts (d_heap d) - (max 0 (r_Count rec) - r_Count rec') * unit_weight (r_ResourceType rec)"
    and "0 < r_Count rec' \<longrightarrow> ResizeCount rec (r_Count rec') = Inr rec'"
proof -
  obtain p t s where dims: "(case ec2DimsFromDetails (r_Details rec) of (rp, rt, rs, raz) \<Rightarrow> ec2_normalize rp rt rs raz) = (p, t, s)"
    using prod_cases3 by blast
  let ?is = "d_entries d (ec2BaseKey (r_ResourceType rec) (r_Region rec))"
  obtain h rem1 where h: "spend_loop p t s ?is (d_heap d) (r_Count rec) = (h, rem1)" by fastforce
  obtain d' rem2 where f: "consumeFamily (d\<lparr>d_heap := h\<rparr>) rec p t rem1 = (d', rem2)" by fastforce
  have ok: "heap_ok ts (d_heap d)" "maps_ok ts d" "\<forall>t \<in> set ts. no_pipe t" using assms(1) by (auto simp: ec2_state_ok_def)
  have "is": "\<forall>i \<in> set ?is. i < length ts \<and> ts ! i = r_ResourceType rec"
    using ok assms(2) ec2BaseKey_type unfolding maps_ok_def by (metis nth_mem)
  note c1 = spend_loop_credit [OF h ok(1) "is"]
  have "maps_ok ts (d\<lparr>d_heap := h\<rparr>)" using maps_ok_heap [of ts d h] ok c1 by (auto simp: heap_ok_def)
  then have ok1: "ec2_state_ok ts (d\<lparr>d_heap := h\<rparr>)" using c1 ok by (simp add: ec2_state_ok_def)
  note c2 = consumeFamily_credit [OF f ok1]
  have adj: "ec2_adjust d rec = (d', if rem2 \<le> 0 then Inr (zero_rec\<lparr>r_Count := 0\<rparr>) else ResizeCount rec rem2)"
    using dims h f by (auto simp: ec2_adjust_def split: prod.splits)
  have cap: "heap_cap ts (d_heap d') = heap_cap ts (d_heap d) - (r_Count rec - rem2) * unit_weight (r_ResourceType rec)"
    using c1 c2 by (simp add: left_diff_distrib)
  show ?thesis
  proof (cases "rem2 \<le> 0")
    case True
    have "r_Count rec \<le> 0 \<Longrightarrow> rem2 = r_Count rec"
    proof -
      assume "r_Count rec \<le> 0"
      then have "spend_loop p t s ?is (d_heap d) (r_Count rec) = (d_heap d, r_Count rec)" by (cases ?is) auto
      then have "rem1 = r_Count rec" using h by simp
      then show "rem2 = r_Count rec" using f \<open>r_Count rec \<le> 0\<close> by (auto simp: consumeFamily_def split: option.splits prod.splits)
    qed
    then have "r_Count rec - rem2 = max 0 (r_Count rec)" using True c1 c2 by (cases "r_Count rec \<le> 0") auto
    then show ?thesis using that [of d' "zero_rec\<lparr>r_Count := 0\<rparr>"] True adj cap c2 by simp
  next
    case False
    then have "1 \<le> rem2" "rem2 \<le> r_Count rec" using c1 c2 by auto
    then obtain rec' where r: "ResizeCount rec rem2 = Inr rec'" "r_Count rec' = rem2" using ResizeCount_Inr by blast
    moreover have "max 0 (r_Count rec) = r_Count rec" using \<open>1 \<le> rem2\<close> \<open>rem2 \<le> r_Count rec\<close> by simp
    ultimately show ?thesis using that [of d' rec'] False adj cap c2 \<open>rem2 \<le> r_Count rec\<close> by simp
  qed
qed

section \<open>The initial budgets\<close>

definition ec2_types :: "Commitment list \<Rightarrow> go_string list" where
  "ec2_types cs = map c_ResourceType (filter (\<lambda>c. isAWSCompute (c_Provider c) (c_Service c)) cs)"

definition ec2_owned :: "Commitment list \<Rightarrow> int" where
  "ec2_owned cs = sum_list (map (\<lambda>c. max (c_Count c) 0 * unit_weight (c_ResourceType c))
     (filter (\<lambda>c. isAWSCompute (c_Provider c) (c_Service c)) cs))"

lemma heap_cap_append:
  assumes "length ts = length heap"
  shows "heap_cap (ts @ [t]) (heap @ [e]) = heap_cap ts heap + entry_cap t e"
proof -
  have "(\<Sum>i < length heap. entry_cap ((ts @ [t]) ! i) ((heap @ [e]) ! i)) = (\<Sum>i < length heap. entry_cap (ts ! i) (heap ! i))"
    using assms by (intro sum.cong) (auto simp: nth_append)
  then show ?thesis using assms unfolding heap_cap_def by (simp add: nth_append)
qed

definition built_ok :: "Commitment list \<Rightarrow> ec2Dedupe \<Rightarrow> bool" where
  "built_ok cs d \<longleftrightarrow> heap_ok (ec2_types cs) (d_heap d) \<and> maps_ok (ec2_types cs) d \<and> heap_cap (ec2_types cs) (d_heap d) = ec2_owned cs"

lemma maps_ok_append:
  assumes "maps_ok ts d" and "length ts = length (d_heap d)"
    and "d' = \<lparr>d_heap = d_heap d @ [e], d_entries = map_append (d_entries d) (ec2BaseKey t r) (length (d_heap d)),
               d_families = F\<rparr>"
    and "F = d_families d \<or> (0 < e_flexUnits e \<and> F = map_append (d_families d) f (length (d_heap d)))"
  shows "maps_ok (ts @ [t]) d'"
proof -
  let ?n = "length (d_heap d)"
  have old: "\<And>k i. i \<in> set (d_entries d k) \<Longrightarrow> i < ?n \<and> (\<exists>region. k = ec2BaseKey (ts ! i) region)"
    "\<And>k. distinct (d_families d k)" "\<And>k i. i \<in> set (d_families d k) \<Longrightarrow> i < ?n \<and> 0 < e_flexUnits (d_heap d ! i)"
    using assms(1,2) by (auto simp: maps_ok_def)
  have 1: "i < length (ts @ [t]) \<and> (\<exists>region. k = ec2BaseKey ((ts @ [t]) ! i) region)" if "i \<in> set (d_entries d' k)" for k i
  proof (cases "i \<in> set (d_entries d k)")
    case True
    then show ?thesis using old(1) [OF True] assms(2) by (auto simp: nth_append)
  next
    case False
    then have "i = ?n" "k = ec2BaseKey t r" using that assms(3) by (auto simp: map_append_def split: if_splits)
    then show ?thesis using assms(2) [symmetric] by (auto simp: nth_append)
  qed
  have 2: "distinct (d_families d' k) \<and> (\<forall>i \<in> set (d_families d' k). i < length (ts @ [t]) \<and> 0 < e_flexUnits (d_heap d' ! i))" for k
  proof -
    have "?n \<notin> set (d_families d k)" using old(3) by blast
    then show ?thesis using assms(2,3,4) old(2) [of k] old(3) [of _ k] 
      by (auto simp: map_append_def nth_append split: if_splits dest: old(3))
  qed
  from 1 2 show ?thesis unfolding maps_ok_def by blast
qed


lemma new_entry_plain: "e_flexUnits (new_entry c) = 0 \<and> e_count (new_entry c) = c_Count c"
  by (auto simp: new_entry_def Let_def split: prod.splits)

lemma heap_ok_append: "heap_ok ts heap \<Longrightarrow> entry_ok t e \<Longrightarrow> heap_ok (ts @ [t]) (heap @ [e])"
  by (auto simp: heap_ok_def nth_append less_Suc_eq)

lemma add_commitment_ok:
  assumes "built_ok cs d"
  shows "built_ok (cs @ [c]) (add_commitment d c)"
proof (cases "isAWSCompute (c_Provider c) (c_Service c)")
  case False
  then show ?thesis using assms by (simp add: built_ok_def add_commitment_def ec2_types_def ec2_owned_def)
next
  case True
  let ?ts = "ec2_types cs" and ?t = "c_ResourceType c" and ?e = "new_entry c" and ?i = "length (d_heap d)"
  have ok: "heap_ok ?ts (d_heap d)" "maps_ok ?ts d" "heap_cap ?ts (d_heap d) = ec2_owned cs" "length ?ts = ?i"
    using assms by (auto simp: built_ok_def heap_ok_def)
  have ts: "ec2_types (cs @ [c]) = ?ts @ [?t]" "ec2_owned (cs @ [c]) = ec2_owned cs + max (c_Count c) 0 * unit_weight ?t"
    using True by (simp_all add: ec2_types_def ec2_owned_def)
  define d' where "d' = add_commitment d c"
  obtain e F f where d': "d' = \<lparr>d_heap = d_heap d @ [e], d_entries = map_append (d_entries d) (ec2BaseKey ?t (c_Region c)) ?i, d_families = F\<rparr>"
    and F: "F = d_families d \<or> (0 < e_flexUnits e \<and> F = map_append (d_families d) f ?i)"
    and e: "entry_ok ?t e" "entry_cap ?t e = max (c_Count c) 0 * unit_weight ?t"
  proof (cases "\<exists>f u. ec2FlexKey ?t (c_Region c) (e_platform ?e) (e_tenancy ?e) = Some (f, u) \<and> sc_kind (e_scope ?e) = scopeRegionalKind")
    case True
    then obtain f u where fu: "ec2FlexKey ?t (c_Region c) (e_platform ?e) (e_tenancy ?e) = Some (f, u)"
      "sc_kind (e_scope ?e) = scopeRegionalKind" by blast
    note u = flex_key_weight [OF fu(1)]
    let ?e' = "?e\<lparr>e_flexUnits := u, e_flexLeft := max (e_count ?e) 0 * u\<rparr>"
    show ?thesis
      using that [of ?e' "map_append (d_families d) f ?i" f] fu u \<open>isAWSCompute _ _\<close> new_entry_plain [of c]
      by (simp add: d'_def add_commitment_def Let_def entry_ok_def entry_cap_def)
  next
    case False
    then show ?thesis
      using that [of ?e "d_families d" "[]"] \<open>isAWSCompute _ _\<close> new_entry_plain [of c]
      by (auto simp: d'_def add_commitment_def Let_def entry_ok_def entry_cap_def split: option.splits prod.splits)
  qed
  have "maps_ok (?ts @ [?t]) d'" using maps_ok_append [OF ok(2,4) d' F] .
  moreover have "heap_ok (?ts @ [?t]) (d_heap d')" using heap_ok_append [OF ok(1) e(1)] d' by simp
  moreover have "heap_cap (?ts @ [?t]) (d_heap d') = ec2_owned (cs @ [c])"
    using heap_cap_append [OF ok(4), of ?t e] d' e ok(3) ts by simp
  ultimately show ?thesis by (simp add: built_ok_def ts d'_def)
qed

lemma new_ec2_ok:
  assumes "\<forall>c \<in> set cs. no_pipe (c_ResourceType c)"
  shows "ec2_state_ok (ec2_types cs) (newEC2Dedupe cs) \<and> heap_cap (ec2_types cs) (d_heap (newEC2Dedupe cs)) = ec2_owned cs"
proof -
  let ?d0 = "\<lparr>d_heap = [], d_entries = (\<lambda>_. []), d_families = (\<lambda>_. [])\<rparr>"
  have "built_ok cs (foldl add_commitment ?d0 cs)"
  proof (induction cs rule: rev_induct)
    case Nil
    then show ?case by (simp add: built_ok_def heap_ok_def maps_ok_def ec2_types_def ec2_owned_def heap_cap_def)
  next
    case (snoc c cs)
    then show ?case using add_commitment_ok by simp
  qed
  moreover have "\<forall>t \<in> set (ec2_types cs). no_pipe t" using assms by (auto simp: ec2_types_def)
  ultimately show ?thesis by (simp add: built_ok_def ec2_state_ok_def newEC2Dedupe_def Let_def maps_ok_def)
qed

end
