(* ===== verification/Rec_Charges.thy ===== *)
theory Rec_Charges
  imports Rec_EC2
begin

text \<open>
  Who pays for an EC2 node the duplicate check drops: \<open>pays_for\<close> says, from the two payloads alone, when a commitment
  covers a recommendation; every unit a recommendation is relieved of is charged to one commitment that does, and what is
  not charged could not have been.
\<close>

section \<open>When a commitment covers a recommendation\<close>

text \<open>The size-flexible family of an instance type.\<close>

definition flex_family :: "go_string \<Rightarrow> go_string option" where
  "flex_family rt = (case cut_at CHR ''.'' rt of None \<Rightarrow> None
   | Some (prefix, sz) \<Rightarrow> if prefix \<noteq> [] \<and> \<not> feq (EC2NormalizationFactor sz) (Fin 0) \<and> EC2SizeFlexibleFamily prefix
       then Some (to_lower prefix) else None)"

definition commitment_dims :: "Commitment \<Rightarrow> go_string \<times> go_string \<times> scopeState" where
  "commitment_dims c = (NormalizePlatformName (c_Platform c), NormalizeTenancyName (c_Tenancy c), newScopeState (c_Scope c) (c_AvailabilityZone c))"

definition rec_dims :: "Recommendation \<Rightarrow> go_string \<times> go_string \<times> scopeState" where
  "rec_dims r = (case ec2DimsFromDetails (r_Details r) of (p, t, s, az) \<Rightarrow>
     (NormalizePlatformName p, NormalizeTenancyName t, newScopeState s az))"

text \<open>
  The commitment is for the same type, or for any size of the same family when it is a regional reservation of Linux on
  default tenancy; a platform, tenancy or zone that one of the two does not name is not held against it.
\<close>

definition same_type_pays :: "Commitment \<Rightarrow> Recommendation \<Rightarrow> bool" where
  "same_type_pays c r \<longleftrightarrow> c_ResourceType c = r_ResourceType r \<and>
     (case (commitment_dims c, rec_dims r) of ((pc, tc, sc), (pr, tr, sr)) \<Rightarrow>
        (pc = pr \<or> pc = [] \<or> pr = []) \<and> (tc = tr \<or> tc = [] \<or> tr = [])
      \<and> (sc_kind sc = scopeUnknown \<or> sc_kind sr = scopeUnknown \<or> sc_kind sc = scopeRegionalKind
         \<or> sc_kind sr = scopeZonalKind \<and> (sc_az sc = sc_az sr \<or> sc_az sc = [] \<or> sc_az sr = [])))"

definition family_pays :: "Commitment \<Rightarrow> Recommendation \<Rightarrow> bool" where
  "family_pays c r \<longleftrightarrow> flex_family (c_ResourceType c) \<noteq> None \<and> flex_family (c_ResourceType c) = flex_family (r_ResourceType r)
     \<and> fst (commitment_dims c) = ''linux/unix'' \<and> fst (snd (commitment_dims c)) = ''default''
     \<and> sc_kind (snd (snd (commitment_dims c))) = scopeRegionalKind
     \<and> fst (rec_dims r) = ''linux/unix'' \<and> fst (snd (rec_dims r)) = ''default''"

definition pays_for :: "Commitment \<Rightarrow> Recommendation \<Rightarrow> bool" where
  "pays_for c r \<longleftrightarrow> isAWSCompute (c_Provider c) (c_Service c) \<and> isAWSCompute (r_Provider r) (r_Service r)
     \<and> c_Region c = r_Region r \<and> (same_type_pays c r \<or> family_pays c r)"

section \<open>Keys\<close>

lemma ascii_lower_pipe: "ascii_lower c = CHR ''|'' \<longleftrightarrow> c = CHR ''|''"
proof
  assume a: "ascii_lower c = CHR ''|''"
  show "c = CHR ''|''"
  proof (cases "65 \<le> (of_char c :: nat) \<and> of_char c \<le> (90 :: nat)")
    case True
    with a have "char_of (of_char c + 32 :: nat) = CHR ''|''" by (simp add: ascii_lower_def Let_def)
    then have "of_char (char_of (of_char c + 32 :: nat)) = (of_char (CHR ''|'') :: nat)" by simp
    then have "((of_char c :: nat) + 32) mod 256 = 124" by simp
    with True show ?thesis by simp
  qed (use a in \<open>auto simp: ascii_lower_def Let_def\<close>)
qed (simp add: ascii_lower_def)

lemma to_lower_pipe: "CHR ''|'' \<in> set (to_lower s) \<Longrightarrow> CHR ''|'' \<in> set s"
  by (induction s rule: to_lower.induct) (auto simp: ascii_lower_pipe eq_commute [of "CHR ''|''" "ascii_lower _"] split: if_splits)

lemma flex_family_no_pipe: "flex_family rt = Some f \<Longrightarrow> no_pipe rt \<Longrightarrow> no_pipe f"
  by (auto simp: flex_family_def no_pipe_def split: option.splits if_splits dest!: to_lower_pipe cut_at_Some)

lemma flex_key_iff: "ec2FlexKey rt region p t = Some (k, u) \<longleftrightarrow>
    p = ''linux/unix'' \<and> t = ''default'' \<and> u = unit_weight rt \<and> (\<exists>f. flex_family rt = Some f \<and> k = ''ec2flex|'' @ f @ ''|'' @ region)"
  by (auto simp: ec2FlexKey_def flex_family_def unit_weight_def Let_def split: option.splits)

lemma piped: "no_pipe a \<Longrightarrow> no_pipe b \<Longrightarrow> a @ CHR ''|'' # r = b @ CHR ''|'' # r' \<longleftrightarrow> a = b \<and> r = r'"
  using cut_at_append [of "CHR ''|''"] unfolding no_pipe_def by (metis option.inject prod.inject)

lemma base_key_iff: "no_pipe t \<Longrightarrow> no_pipe t' \<Longrightarrow> ec2BaseKey t r = ec2BaseKey t' r' \<longleftrightarrow> t = t' \<and> r = r'"
  by (simp add: ec2BaseKey_def piped)

section \<open>What never changes in the budgets\<close>

definition ec2_commitments :: "Commitment list \<Rightarrow> Commitment list" where
  "ec2_commitments cs = filter (\<lambda>c. isAWSCompute (c_Provider c) (c_Service c)) cs"

lemma ec2_types_map: "ec2_types cs = map c_ResourceType (ec2_commitments cs)"
  by (simp add: ec2_types_def ec2_commitments_def)

definition dims :: "ec2Entry \<Rightarrow> go_string \<times> go_string \<times> scopeState \<times> int" where
  "dims e = (e_platform e, e_tenancy e, e_scope e, e_flexUnits e)"

definition flexible :: "Commitment \<Rightarrow> (go_string \<times> int) option" where
  "flexible c = (case commitment_dims c of (p, t, s) \<Rightarrow>
     if sc_kind s = scopeRegionalKind then ec2FlexKey (c_ResourceType c) (c_Region c) p t else None)"

definition entry_dims :: "Commitment \<Rightarrow> go_string \<times> go_string \<times> scopeState \<times> int" where
  "entry_dims c = (case commitment_dims c of (p, t, s) \<Rightarrow> (p, t, s, case flexible c of None \<Rightarrow> 0 | Some (f, u) \<Rightarrow> u))"

text \<open>The entries stand for the commitments in order, and the two maps index all of them.\<close>

definition indexed :: "Commitment list \<Rightarrow> ec2Dedupe \<Rightarrow> bool" where
  "indexed own d \<longleftrightarrow> map dims (d_heap d) = map entry_dims own
     \<and> (\<forall>k. set (d_entries d k) = {j. j < length own \<and> k = ec2BaseKey (c_ResourceType (own ! j)) (c_Region (own ! j))})
     \<and> (\<forall>k. set (d_families d k) = {j. j < length own \<and> map_option fst (flexible (own ! j)) = Some k})"

lemma indexed_length: "indexed own d \<Longrightarrow> length (d_heap d) = length own"
  unfolding indexed_def by (metis length_map)

lemma indexed_heap: "indexed own d \<Longrightarrow> map dims heap = map dims (d_heap d) \<Longrightarrow> indexed own (d\<lparr>d_heap := heap\<rparr>)"
  by (simp add: indexed_def)

lemma indexed_dims: "indexed own d \<Longrightarrow> j < length own \<Longrightarrow> dims (d_heap d ! j) = entry_dims (own ! j)"
proof -
  assume a: "indexed own d" "j < length own"
  then have "map dims (d_heap d) ! j = map entry_dims own ! j" unfolding indexed_def by simp
  with a(2) indexed_length [OF a(1)] show ?thesis by simp
qed

lemma new_entry_dims: "(e_platform (new_entry c), e_tenancy (new_entry c), e_scope (new_entry c)) = commitment_dims c"
  by (simp add: new_entry_def commitment_dims_def ec2_normalize_def Let_def)

lemma map_append_set: "set (map_append m key n k) = set (m k) \<union> (if k = key then {n} else {})"
  by (simp only: map_append_def fun_upd_apply split: if_splits)
    simp

lemma indexed_append:
  assumes i: "indexed own d" and e: "dims e = entry_dims c"
  shows "indexed (own @ [c]) \<lparr>d_heap = d_heap d @ [e], d_entries = map_append (d_entries d) (ec2BaseKey (c_ResourceType c) (c_Region c)) (length (d_heap d)),
     d_families = (case flexible c of None \<Rightarrow> d_families d | Some (f, u) \<Rightarrow> map_append (d_families d) f (length (d_heap d)))\<rparr>"
proof -
  note len = indexed_length [OF i]
  have less: "{j. j < Suc n \<and> P j} = {j. j < n \<and> P j} \<union> (if P n then {n} else {})" for n :: nat and P
    by (auto simp: less_Suc_eq)
  have snoc: "{j. j < length (own @ [c]) \<and> P ((own @ [c]) ! j)} = {j. j < length own \<and> P (own ! j)} \<union> (if P c then {length own} else {})" for P
    unfolding length_append_singleton less by (auto simp: nth_append)
  from i have entries: "set (d_entries d k) = {j. j < length own \<and> k = ec2BaseKey (c_ResourceType (own ! j)) (c_Region (own ! j))}"
    and families: "set (d_families d k) = {j. j < length own \<and> map_option fst (flexible (own ! j)) = Some k}" for k
    unfolding indexed_def by blast+
  have 1: "map dims (d_heap d @ [e]) = map entry_dims (own @ [c])" using i e by (simp add: indexed_def)
  have 2: "set (map_append (d_entries d) (ec2BaseKey (c_ResourceType c) (c_Region c)) (length (d_heap d)) k)
      = {j. j < length (own @ [c]) \<and> k = ec2BaseKey (c_ResourceType ((own @ [c]) ! j)) (c_Region ((own @ [c]) ! j))}" for k
    unfolding snoc [of "\<lambda>c. k = ec2BaseKey (c_ResourceType c) (c_Region c)"] map_append_set entries len ..
  have 3: "set ((case flexible c of None \<Rightarrow> d_families d | Some (f, u) \<Rightarrow> map_append (d_families d) f (length (d_heap d))) k)
      = {j. j < length (own @ [c]) \<and> map_option fst (flexible ((own @ [c]) ! j)) = Some k}" for k
    unfolding snoc [of "\<lambda>c. map_option fst (flexible c) = Some k"]
    by (cases "flexible c") (auto simp: families map_append_set len)
  from 1 2 3 show ?thesis unfolding indexed_def by simp
qed

lemma add_commitment_indexed:
  assumes "indexed (ec2_commitments cs) d"
  shows "indexed (ec2_commitments (cs @ [c])) (add_commitment d c)"
proof (cases "isAWSCompute (c_Provider c) (c_Service c)")
  case False
  then show ?thesis using assms by (simp add: ec2_commitments_def add_commitment_def)
next
  case True
  let ?e = "new_entry c"
  obtain p t s where dm: "commitment_dims c = (p, t, s)" by (metis prod_cases3)
  with new_entry_dims [of c] have e: "e_platform ?e = p" "e_tenancy ?e = t" "e_scope ?e = s" by simp_all
  have plain: "e_flexUnits ?e = 0" using new_entry_plain by blast
  define e' where "e' = (case flexible c of None \<Rightarrow> ?e | Some (f, u) \<Rightarrow> ?e\<lparr>e_flexUnits := u, e_flexLeft := max (e_count ?e) 0 * u\<rparr>)"
  have "dims e' = entry_dims c"
    using e plain by (auto simp: e'_def dims_def entry_dims_def dm split: option.splits)
  note new = indexed_append [OF assms this]
  have "add_commitment d c = \<lparr>d_heap = d_heap d @ [e'], d_entries = map_append (d_entries d) (ec2BaseKey (c_ResourceType c) (c_Region c)) (length (d_heap d)),
     d_families = (case flexible c of None \<Rightarrow> d_families d | Some (f, u) \<Rightarrow> map_append (d_families d) f (length (d_heap d)))\<rparr>"
    by (cases d) (use True in \<open>auto simp: add_commitment_def flexible_def dm e e'_def Let_def split: option.splits\<close>)
  with new True show ?thesis by (simp add: ec2_commitments_def)
qed

definition no_budgets :: ec2Dedupe where
  "no_budgets = \<lparr>d_heap = [], d_entries = (\<lambda>_. []), d_families = (\<lambda>_. [])\<rparr>"

lemma foldl_indexed: "indexed (ec2_commitments cs) (foldl add_commitment no_budgets cs)"
proof (induction cs rule: rev_induct)
  case Nil
  then show ?case by (simp add: indexed_def ec2_commitments_def no_budgets_def)
next
  case (snoc c cs)
  then show ?case using add_commitment_indexed by simp
qed

lemma new_indexed: "indexed (ec2_commitments cs) (newEC2Dedupe cs)"
  using foldl_indexed [of cs] by (simp add: newEC2Dedupe_def Let_def indexed_def no_budgets_def)

section \<open>Which entry pays\<close>

text \<open>\<open>drawn ts heap heap' S\<close>: only entries of \<open>S\<close> paid, and none gained.\<close>

definition drawn :: "go_string list \<Rightarrow> ec2Entry list \<Rightarrow> ec2Entry list \<Rightarrow> nat set \<Rightarrow> bool" where
  "drawn ts heap heap' S \<longleftrightarrow> map dims heap' = map dims heap
     \<and> (\<forall>j < length heap. entry_cap (ts ! j) (heap' ! j) \<le> entry_cap (ts ! j) (heap ! j)
          \<and> (entry_cap (ts ! j) (heap' ! j) \<noteq> entry_cap (ts ! j) (heap ! j) \<longrightarrow> j \<in> S))"

lemma drawn_refl [simp]: "drawn ts heap heap S"
  by (simp add: drawn_def)

lemma drawn_length: "drawn ts heap heap' S \<Longrightarrow> length heap' = length heap"
  unfolding drawn_def by (metis length_map)

lemma drawn_trans: "drawn ts a b S \<Longrightarrow> drawn ts b c S' \<Longrightarrow> drawn ts a c (S \<union> S')"
  using drawn_length [of ts a b S] unfolding drawn_def by fastforce

lemma drawn_mono: "drawn ts a b S \<Longrightarrow> S \<subseteq> S' \<Longrightarrow> drawn ts a b S'"
  unfolding drawn_def by blast

lemma drawn_update:
  assumes "dims e = dims (heap ! i)" and "entry_cap (ts ! i) e \<le> entry_cap (ts ! i) (heap ! i)"
  shows "drawn ts heap (heap[i := e]) {i}"
proof (cases "i < length heap")
  case True
  then have "map dims (heap[i := e]) = map dims heap" using assms(1) by (metis list_update_id map_update nth_map)
  then show ?thesis using assms(2) True by (auto simp: drawn_def nth_list_update)
qed (simp add: list_update_beyond)

lemma dims_covers: "dims e = dims e' \<Longrightarrow> ec2_covers e p t s \<longleftrightarrow> ec2_covers e' p t s"
  by (simp add: dims_def ec2_covers_def)

lemma drawn_dims: "drawn ts heap heap' S \<Longrightarrow> j < length heap \<Longrightarrow> dims (heap' ! j) = dims (heap ! j)"
  using drawn_length unfolding drawn_def by (metis nth_map)

text \<open>An entry has no node left exactly when its budget is below the units of one node.\<close>

lemma nodesLeft_cap:
  assumes "entry_ok t e"
  shows "nodesLeft e \<le> 0 \<longleftrightarrow> entry_cap t e < unit_weight t"
proof (cases "0 < e_flexUnits e")
  case True
  then have u: "e_flexUnits e = unit_weight t" "0 \<le> e_flexLeft e" using assms by (auto simp: entry_ok_def)
  then have "0 < e_flexLeft e div unit_weight t \<longleftrightarrow> unit_weight t \<le> e_flexLeft e"
    by (simp add: pos_imp_zdiv_pos_iff)
  with u True show ?thesis by (auto simp: nodesLeft_def entry_cap_def)
next
  case False
  have "e_count e \<le> 0 \<or> unit_weight t \<le> e_count e * unit_weight t"
    using mult_right_mono [of 1 "e_count e" "unit_weight t"] by (cases "e_count e \<le> 0") auto
  with False show ?thesis by (auto simp: nodesLeft_def entry_cap_def max_def)
qed

lemma nodesLeft_all:
  assumes "entry_ok t e" and "0 < nodesLeft e"
  shows "entry_cap t e - nodesLeft e * unit_weight t < unit_weight t"
proof (cases "0 < e_flexUnits e")
  case True
  then have u: "e_flexUnits e = unit_weight t" "0 \<le> e_flexLeft e" using assms by (auto simp: entry_ok_def)
  then have "e_flexLeft e - e_flexLeft e div unit_weight t * unit_weight t = e_flexLeft e mod unit_weight t"
    by (simp add: minus_div_mult_eq_mod)
  with u True show ?thesis by (simp add: nodesLeft_def entry_cap_def)
qed (use assms in \<open>simp add: nodesLeft_def entry_cap_def\<close>)

lemma spend_dims: "dims (spend e n) = dims e"
  by (simp add: spend_def dims_def)

lemma spend_loop_drawn:
  assumes "spend_loop p t s is heap rem = (heap', rem')" and "heap_ok ts heap"
    and "\<forall>i \<in> set is. i < length ts \<and> ts ! i = rt"
  shows "drawn ts heap heap' {i \<in> set is. ec2_covers (heap ! i) p t s}
    \<and> (0 < rem' \<longrightarrow> (\<forall>i \<in> set is. ec2_covers (heap ! i) p t s \<longrightarrow> entry_cap rt (heap' ! i) < unit_weight rt))"
  using assms
proof (induction p t s "is" heap rem rule: spend_loop.induct)
  case (1 p t s heap remaining)
  then show ?case by simp
next
  case (2 p t s i "is" heap remaining)
  let ?e = "heap ! i"
  have i: "i < length heap" "ts ! i = rt" "entry_ok rt ?e" using "2.prems"(2,3) by (auto simp: heap_ok_def)
  consider (stop) "remaining \<le> 0" | (skip) "\<not> remaining \<le> 0" "nodesLeft ?e \<le> 0 \<or> \<not> ec2_covers ?e p t s"
    | (use) "\<not> remaining \<le> 0" "\<not> (nodesLeft ?e \<le> 0 \<or> \<not> ec2_covers ?e p t s)" by blast
  then show ?case
  proof cases
    case stop
    then show ?thesis using "2.prems" by auto
  next
    case skip
    with "2.prems" "2.IH"(1) have IH: "drawn ts heap heap' {j \<in> set is. ec2_covers (heap ! j) p t s}"
      "0 < rem' \<longrightarrow> (\<forall>j \<in> set is. ec2_covers (heap ! j) p t s \<longrightarrow> entry_cap rt (heap' ! j) < unit_weight rt)" by auto
    have "entry_cap rt (heap' ! i) < unit_weight rt" if "ec2_covers ?e p t s"
    proof -
      have "entry_cap rt ?e < unit_weight rt" using skip(2) that nodesLeft_cap [OF i(3)] by simp
      moreover have "entry_cap rt (heap' ! i) \<le> entry_cap rt ?e" using IH(1) i(1,2) by (auto simp: drawn_def)
      ultimately show ?thesis by linarith
    qed
    moreover have "drawn ts heap heap' {j \<in> set (i # is). ec2_covers (heap ! j) p t s}" by (rule drawn_mono [OF IH(1)]) auto
    ultimately show ?thesis using IH(2) by simp
  next
    case use
    define n where "n = min (nodesLeft ?e) remaining"
    have n: "0 \<le> n" "n \<le> nodesLeft ?e" "n \<le> remaining" "0 < nodesLeft ?e" using use by (auto simp: n_def)
    let ?h = "heap[i := spend ?e n]"
    have e: "entry_ok rt (spend ?e n)" "entry_cap rt (spend ?e n) = entry_cap rt ?e - n * unit_weight rt"
      using spend_entry [OF i(3) n(1,2,4)] by auto
    have step: "spend_loop p t s is ?h (remaining - n) = (heap', rem')" using "2.prems"(1) use by (simp add: n_def Let_def)
    have ok: "heap_ok ts ?h" using heap_ok_update "2.prems"(2) e i by blast
    have d1: "drawn ts heap ?h {i}" using e(2) n(1) i(2) by (intro drawn_update) (simp_all add: spend_dims)
    from "2.IH"(2) [OF use(1,2) n_def step [unfolded n_def, folded n_def] ok] "2.prems"(3)
    have IH: "drawn ts ?h heap' {j \<in> set is. ec2_covers (?h ! j) p t s}"
      "0 < rem' \<longrightarrow> (\<forall>j \<in> set is. ec2_covers (?h ! j) p t s \<longrightarrow> entry_cap rt (heap' ! j) < unit_weight rt)" by auto
    have same: "ec2_covers (?h ! j) p t s \<longleftrightarrow> ec2_covers (heap ! j) p t s" for j
      using i(1) dims_covers [OF spend_dims [of ?e n]] by (cases "j = i") simp_all
    have "drawn ts heap heap' {j \<in> set (i # is). ec2_covers (heap ! j) p t s}"
      by (rule drawn_mono [OF drawn_trans [OF d1 IH(1)]]) (use use(2) in \<open>auto simp: same\<close>)
    moreover have "entry_cap rt (heap' ! i) < unit_weight rt" if "0 < rem'"
    proof -
      have "rem' \<le> remaining - n" using spend_loop_credit [OF step ok, of rt] "2.prems"(3) by simp
      then have "n = nodesLeft ?e" using that by (simp add: n_def)
      then have "entry_cap rt (?h ! i) < unit_weight rt" using nodesLeft_all [OF i(3) n(4)] e(2) i(1) by simp
      moreover have "entry_cap rt (heap' ! i) \<le> entry_cap rt (?h ! i)" using IH(1) i(1,2) by (auto simp: drawn_def)
      ultimately show ?thesis by linarith
    qed
    ultimately show ?thesis using IH(2) unfolding same by simp
  qed
qed

lemma take_loop_drawn:
  assumes "heap_ok ts heap" and "\<forall>i \<in> set is. i < length ts \<and> 0 < e_flexUnits (heap ! i)"
  shows "drawn ts heap (take_loop is heap need) (set is)"
  using assms
proof (induction "is" heap need rule: take_loop.induct)
  case (1 heap need)
  then show ?case by simp
next
  case (2 i "is" heap need)
  show ?case
  proof (cases "need \<le> 0")
    case True
    then show ?thesis by simp
  next
    case False
    let ?e = "heap ! i"
    define k where "k = min (e_flexLeft ?e) need"
    define e' where "e' = ?e\<lparr>e_flexLeft := e_flexLeft ?e - k\<rparr>"
    have i: "i < length heap" "0 < e_flexUnits ?e" "entry_ok (ts ! i) ?e" using "2.prems" by (auto simp: heap_ok_def)
    then have k: "0 \<le> k" "k \<le> e_flexLeft ?e" using False by (auto simp: k_def entry_ok_def)
    have e': "dims e' = dims ?e" "entry_cap (ts ! i) e' \<le> entry_cap (ts ! i) ?e" "entry_ok (ts ! i) e'"
      using i k by (auto simp: e'_def dims_def entry_cap_def entry_ok_def)
    let ?h = "heap[i := e']"
    have ok: "heap_ok ts ?h" by (rule heap_ok_update [OF "2.prems"(1) e'(3)])
    have flex: "\<forall>j \<in> set is. j < length ts \<and> 0 < e_flexUnits (?h ! j)"
      using "2.prems"(2) e'(1) i(1) by (auto simp: dims_def nth_list_update)
    have "take_loop (i # is) heap need = take_loop is ?h (need - k)"
      using False by (simp add: Let_def k_def e'_def)
    moreover have "drawn ts ?h (take_loop is ?h (need - k)) (set is)"
      using "2.IH" [OF False refl k_def] ok flex by (simp add: e'_def)
    ultimately show ?thesis using drawn_trans [OF drawn_update [of e' heap i ts, OF e'(1,2)]] by simp
  qed
qed

text \<open>What a family has left is what its entries have left.\<close>

lemma family_cap:
  assumes "heap_ok ts heap" and "distinct is" and "\<forall>i \<in> set is. i < length ts \<and> 0 < e_flexUnits (heap ! i)"
  shows "sum_list (map (\<lambda>i. e_flexLeft (heap ! i)) is) = (\<Sum>i \<in> set is. entry_cap (ts ! i) (heap ! i))"
proof -
  have "(\<Sum>i \<in> set is. entry_cap (ts ! i) (heap ! i)) = (\<Sum>i \<in> set is. e_flexLeft (heap ! i))"
    using assms(3) by (intro sum.cong) (auto simp: entry_cap_def)
  then show ?thesis using assms(2) by (simp add: sum_list_distinct_conv_sum_set)
qed

lemma drawn_rest:
  assumes "drawn ts heap heap' S" and "S \<subseteq> {..< length heap}"
  shows "heap_cap ts heap - heap_cap ts heap' = (\<Sum>i \<in> S. entry_cap (ts ! i) (heap ! i)) - (\<Sum>i \<in> S. entry_cap (ts ! i) (heap' ! i))"
proof -
  have "(\<Sum>i \<in> {..< length heap} - S. entry_cap (ts ! i) (heap ! i)) = (\<Sum>i \<in> {..< length heap} - S. entry_cap (ts ! i) (heap' ! i))"
    using assms(1) by (intro sum.cong) (auto simp: drawn_def)
  then show ?thesis unfolding heap_cap_def drawn_length [OF assms(1)]
    using sum.subset_diff [OF assms(2), of "\<lambda>i. entry_cap (ts ! i) (heap ! i)"] sum.subset_diff [OF assms(2), of "\<lambda>i. entry_cap (ts ! i) (heap' ! i)"]
    by simp
qed

lemma entry_cap_nonneg: "entry_ok t e \<Longrightarrow> 0 \<le> entry_cap t e"
  by (auto simp: entry_ok_def entry_cap_def)

lemma consumeFamily_drawn:
  assumes "consumeFamily d rec p t rem = (d', rem')" and "ec2_state_ok ts d"
    and "ec2FlexKey (r_ResourceType rec) (r_Region rec) p t = Some (family, units)"
  shows "drawn ts (d_heap d) (d_heap d') (set (d_families d family)) \<and> d' = d\<lparr>d_heap := d_heap d'\<rparr>
    \<and> (0 < rem' \<longrightarrow> (\<forall>i \<in> set (d_families d family). entry_cap (ts ! i) (d_heap d' ! i) < units))"
proof -
  note u = flex_key_weight [OF assms(3)]
  define ixs where "ixs = d_families d family"
  have ixs: "distinct ixs" "\<forall>i \<in> set ixs. i < length ts \<and> 0 < e_flexUnits (d_heap d ! i)"
    using assms(2) by (auto simp: ec2_state_ok_def maps_ok_def ixs_def)
  have ok: "heap_ok ts (d_heap d)" using assms(2) by (simp add: ec2_state_ok_def)
  show ?thesis
  proof (cases "rem \<le> 0")
    case True
    then show ?thesis using assms by (simp add: consumeFamily_def)
  next
    case False
    define budget where "budget = sum_list (map (\<lambda>i. e_flexLeft (d_heap d ! i)) ixs)"
    define covered where "covered = min (go_quo budget units) rem"
    let ?h = "take_loop ixs (d_heap d) (covered * units)"
    have e: "d' = d\<lparr>d_heap := ?h\<rparr>" "rem' = rem - covered"
      using assms(1,3) False by (auto simp: consumeFamily_def Let_def ixs_def budget_def covered_def)
    note dr = take_loop_drawn [OF ok ixs(2), of "covered * units"]
    have caps: "budget = (\<Sum>i \<in> set ixs. entry_cap (ts ! i) (d_heap d ! i))" unfolding budget_def by (rule family_cap [OF ok ixs])
    have okn: "0 \<le> entry_cap (ts ! i) (d_heap d ! i)" if "i \<in> set ixs" for i
      using entry_cap_nonneg ok ixs(2) that by (auto simp: heap_ok_def)
    have b: "0 \<le> budget" unfolding caps by (rule sum_nonneg) (rule okn)
    have sub: "set ixs \<subseteq> {..< length (d_heap d)}" using ixs(2) ok by (auto simp: heap_ok_def)
    have cap': "heap_cap ts (d_heap d) - heap_cap ts ?h = covered * units"
      using consumeFamily_credit [OF assms(1,2)] u e by simp
    have ok': "heap_ok ts ?h" using consumeFamily_credit [OF assms(1,2)] e by (simp add: ec2_state_ok_def)
    have "entry_cap (ts ! i) (?h ! i) < units" if "0 < rem'" "i \<in> set ixs" for i
    proof -
      have "covered = budget div units" using that(1) e b u by (simp add: covered_def)
      then have "budget - covered * units < units" using u by (simp add: minus_div_mult_eq_mod)
      moreover have "(\<Sum>i \<in> set ixs. entry_cap (ts ! i) (?h ! i)) = budget - covered * units"
        using drawn_rest [OF dr sub] cap' caps by simp
      moreover have "entry_cap (ts ! i) (?h ! i) \<le> (\<Sum>i \<in> set ixs. entry_cap (ts ! i) (?h ! i))"
        by (rule member_le_sum [OF that(2)]) (use ok' ixs(2) entry_cap_nonneg in \<open>auto simp: heap_ok_def\<close>)
      ultimately show ?thesis by linarith
    qed
    with dr e show ?thesis by (simp add: ixs_def)
  qed
qed

section \<open>One recommendation\<close>

lemma covers_same_type:
  assumes "dims e = entry_dims c" and "rec_dims r = (p, t, s)" and "c_ResourceType c = r_ResourceType r"
  shows "ec2_covers e p t s \<longleftrightarrow> same_type_pays c r"
proof -
  obtain pc tc sc where c: "commitment_dims c = (pc, tc, sc)" by (metis prod_cases3)
  with assms(1) have e: "e_platform e = pc" "e_tenancy e = tc" "e_scope e = sc" by (auto simp: dims_def entry_dims_def)
  show ?thesis
    by (cases "sc_kind sc"; cases "sc_kind s")
      (auto simp: ec2_covers_def e same_type_pays_def c assms scopeCovers_def)
qed

lemma flexible_iff:
  assumes "no_pipe (c_ResourceType c)" and "no_pipe (r_ResourceType r)" and "rec_dims r = (p, t, s)"
    and "ec2FlexKey (r_ResourceType r) (r_Region r) p t = Some (family, units)"
  shows "map_option fst (flexible c) = Some family \<longleftrightarrow> c_Region c = r_Region r \<and> family_pays c r"
proof -
  from assms(4) obtain f where f: "p = ''linux/unix''" "t = ''default''" "flex_family (r_ResourceType r) = Some f"
    "family = ''ec2flex|'' @ f @ ''|'' @ r_Region r" by (auto simp: flex_key_iff)
  obtain pc tc sc where c: "commitment_dims c = (pc, tc, sc)" by (metis prod_cases3)
  have "map_option fst (flexible c) = Some family \<longleftrightarrow> sc_kind sc = scopeRegionalKind \<and> pc = ''linux/unix'' \<and> tc = ''default''
      \<and> (\<exists>g. flex_family (c_ResourceType c) = Some g \<and> g @ CHR ''|'' # c_Region c = f @ CHR ''|'' # r_Region r)"
    by (auto simp: flexible_def c flex_key_iff f)
  also have "\<dots> \<longleftrightarrow> sc_kind sc = scopeRegionalKind \<and> pc = ''linux/unix'' \<and> tc = ''default''
      \<and> flex_family (c_ResourceType c) = Some f \<and> c_Region c = r_Region r"
    using piped [OF _ flex_family_no_pipe [OF f(3) assms(2)]] flex_family_no_pipe [OF _ assms(1)] by blast
  also have "\<dots> \<longleftrightarrow> c_Region c = r_Region r \<and> family_pays c r"
    by (auto simp: family_pays_def c assms(3) f)
  finally show ?thesis .
qed

lemma ec2_adjust_charge:
  assumes ok: "ec2_state_ok ts d" and ts: "ts = map c_ResourceType own" and ix: "indexed own d"
    and own: "\<forall>c \<in> set own. isAWSCompute (c_Provider c) (c_Service c)"
    and r: "ec2_handles rec" "no_pipe (r_ResourceType rec)" and adj: "ec2_adjust d rec = (d', Inr rec')"
  shows "indexed own d' \<and> drawn ts (d_heap d) (d_heap d') {j. j < length own \<and> pays_for (own ! j) rec}
    \<and> (0 < r_Count rec' \<longrightarrow> (\<forall>j < length own. pays_for (own ! j) rec \<longrightarrow> entry_cap (ts ! j) (d_heap d' ! j) < unit_weight (r_ResourceType rec)))"
proof -
  obtain p t s where dm: "rec_dims rec = (p, t, s)" by (metis prod_cases3)
  then have norm: "(case ec2DimsFromDetails (r_Details rec) of (rp, rt, rs, raz) \<Rightarrow> ec2_normalize rp rt rs raz) = (p, t, s)"
    by (simp add: rec_dims_def ec2_normalize_def split: prod.splits)
  let ?is = "d_entries d (ec2BaseKey (r_ResourceType rec) (r_Region rec))" and ?W = "unit_weight (r_ResourceType rec)"
  obtain h rem1 where h: "spend_loop p t s ?is (d_heap d) (r_Count rec) = (h, rem1)" by fastforce
  obtain d2 rem2 where f: "consumeFamily (d\<lparr>d_heap := h\<rparr>) rec p t rem1 = (d2, rem2)" by fastforce
  have out: "d' = d2" "(if rem2 \<le> 0 then Inr (zero_rec\<lparr>r_Count := 0\<rparr>) else ResizeCount rec rem2) = Inr rec'"
    using adj norm h f by (auto simp: ec2_adjust_def split: prod.splits)
  then have rem2: "0 < r_Count rec' \<Longrightarrow> 0 < rem2" by (auto split: if_splits)
  have heap: "heap_ok ts (d_heap d)" "maps_ok ts d" "\<forall>t \<in> set ts. no_pipe t" using ok by (auto simp: ec2_state_ok_def)
  have len: "length own = length (d_heap d)" "length ts = length own" using indexed_length [OF ix] ts by simp_all
  have pipe: "no_pipe (c_ResourceType (own ! j))" if "j < length own" for j using heap(3) ts that by simp
  have aws: "isAWSCompute (c_Provider (own ! j)) (c_Service (own ! j))" "isAWSCompute (r_Provider rec) (r_Service rec)" if "j < length own" for j
    using own r(1) that by (simp_all add: ec2_handles_def)
  have "is": "set ?is = {j. j < length own \<and> c_ResourceType (own ! j) = r_ResourceType rec \<and> c_Region (own ! j) = r_Region rec}"
    using ix base_key_iff [OF r(2) pipe] by (auto simp: indexed_def)
  have types: "\<forall>i \<in> set ?is. i < length ts \<and> ts ! i = r_ResourceType rec" using len ts by (auto simp: "is")
  have cov: "ec2_covers (d_heap d ! j) p t s \<longleftrightarrow> same_type_pays (own ! j) rec" if "j \<in> set ?is" for j
    using covers_same_type [OF indexed_dims [OF ix] dm] that by (auto simp: "is")
  have exact: "j \<in> set ?is \<and> ec2_covers (d_heap d ! j) p t s \<longleftrightarrow> j < length own \<and> c_Region (own ! j) = r_Region rec \<and> same_type_pays (own ! j) rec" for j
    using cov [of j] by (auto simp: "is" same_type_pays_def)
  note sd = spend_loop_drawn [OF h heap(1) types] and sc = spend_loop_credit [OF h heap(1) types]
  let ?d1 = "d\<lparr>d_heap := h\<rparr>" and ?P = "{j. j < length own \<and> pays_for (own ! j) rec}"
  have dr1: "drawn ts (d_heap d) h ?P"
    by (rule drawn_mono [OF sd [THEN conjunct1]]) (use exact aws in \<open>auto simp: pays_for_def\<close>)
  have low1: "entry_cap (ts ! j) (h ! j) < ?W" if "0 < rem1" "j < length own" "c_Region (own ! j) = r_Region rec" "same_type_pays (own ! j) rec" for j
    using sd that exact [of j] types by auto
  have ix1: "indexed own ?d1" using indexed_heap [OF ix] dr1 by (simp add: drawn_def)
  have "maps_ok ts ?d1" using maps_ok_heap [of ts d h] heap sc by (auto simp: heap_ok_def)
  then have ok1: "ec2_state_ok ts ?d1" using sc heap by (simp add: ec2_state_ok_def)
  have rem: "0 < rem2 \<Longrightarrow> 0 < rem1" using consumeFamily_credit [OF f ok1] by linarith
  show ?thesis
  proof (cases "ec2FlexKey (r_ResourceType rec) (r_Region rec) p t")
    case None
    then have d2: "d2 = ?d1" using f by (simp add: consumeFamily_def)
    have "\<not> family_pays (own ! j) rec" for j
    proof
      assume "family_pays (own ! j) rec"
      then obtain f where "flex_family (r_ResourceType rec) = Some f" "p = ''linux/unix''" "t = ''default''" by (auto simp: family_pays_def dm)
      then have "ec2FlexKey (r_ResourceType rec) (r_Region rec) p t = Some (''ec2flex|'' @ f @ ''|'' @ r_Region rec, ?W)"
        by (intro flex_key_iff [THEN iffD2]) simp
      with None show False by simp
    qed
    then show ?thesis using dr1 ix1 low1 rem rem2 out(1) d2 by (auto simp: pays_for_def)
  next
    case (Some fu)
    obtain family units where fu: "fu = (family, units)" by fastforce
    note key = Some [unfolded fu]
    have units: "units = ?W" using flex_key_weight [OF key] by simp
    note cd = consumeFamily_drawn [OF f ok1 key]
    have fam: "set (d_families d family) = {j. j < length own \<and> c_Region (own ! j) = r_Region rec \<and> family_pays (own ! j) rec}"
      using ix flexible_iff [OF pipe r(2) dm key] by (auto simp: indexed_def)
    have dr2: "drawn ts h (d_heap d2) ?P"
      using cd [THEN conjunct1] by (rule_tac drawn_mono) (use fam aws in \<open>auto simp: pays_for_def\<close>)
    have ix2: "indexed own d2" using indexed_heap [OF ix1, of "d_heap d2"] cd dr2 by (simp add: drawn_def)
    have low: "entry_cap (ts ! j) (d_heap d2 ! j) < ?W" if "0 < rem2" "j < length own" "pays_for (own ! j) rec" for j
    proof (cases "same_type_pays (own ! j) rec")
      case True
      then have "entry_cap (ts ! j) (h ! j) < ?W" using low1 rem that by (simp add: pays_for_def)
      moreover have "entry_cap (ts ! j) (d_heap d2 ! j) \<le> entry_cap (ts ! j) (h ! j)"
        using dr2 that(2) len drawn_length [OF dr1] by (simp add: drawn_def)
      ultimately show ?thesis by linarith
    next
      case False
      with that have "j \<in> set (d_families d family)" by (simp add: fam pays_for_def)
      with cd that(1) units show ?thesis by simp
    qed
    have "drawn ts (d_heap d) (d_heap d2) ?P" using drawn_trans [OF dr1 dr2] by simp
    with ix2 low rem2 out(1) show ?thesis by simp
  qed
qed

section \<open>The account of all recommendations\<close>

text \<open>
  The units a commitment holds, and the ledger of a run: each recommendation with the nodes it keeps and what it charges to each
  commitment. A charge is within what is left, is only made to a commitment that covers the recommendation, and the charges of a
  recommendation are the units of the nodes it gives up; it keeps a node only when no commitment that covers it has the units of
  one left.
\<close>

definition owned_units :: "Commitment list \<Rightarrow> nat \<Rightarrow> int" where
  "owned_units own j = max (c_Count (own ! j)) 0 * unit_weight (c_ResourceType (own ! j))"

type_synonym ledger = "(Recommendation \<times> int \<times> (nat \<Rightarrow> int)) list"

fun ledger_ok :: "Commitment list \<Rightarrow> (nat \<Rightarrow> int) \<Rightarrow> ledger \<Rightarrow> bool" where
  "ledger_ok own left [] \<longleftrightarrow> True"
| "ledger_ok own left ((r, kept, charge) # es) \<longleftrightarrow> 0 \<le> kept \<and> kept \<le> max 0 (r_Count r)
     \<and> (\<forall>j < length own. 0 \<le> charge j \<and> charge j \<le> left j \<and> (charge j \<noteq> 0 \<longrightarrow> pays_for (own ! j) r))
     \<and> (ec2_handles r \<longrightarrow> (\<Sum>j < length own. charge j) = (max 0 (r_Count r) - kept) * unit_weight (r_ResourceType r)
          \<and> (0 < kept \<longrightarrow> (\<forall>j < length own. pays_for (own ! j) r \<longrightarrow> left j - charge j < unit_weight (r_ResourceType r))))
     \<and> ledger_ok own (\<lambda>j. left j - charge j) es"

lemma ledger_cong: "(\<And>j. j < length own \<Longrightarrow> a j = b j) \<Longrightarrow> ledger_ok own a es \<longleftrightarrow> ledger_ok own b es"
proof (induction es arbitrary: a b)
  case (Cons e es)
  obtain r kept charge where e: "e = (r, kept, charge)" by (metis prod_cases3)
  have "ledger_ok own (\<lambda>j. a j - charge j) es \<longleftrightarrow> ledger_ok own (\<lambda>j. b j - charge j) es"
    by (rule Cons.IH) (simp add: Cons.prems)
  then show ?case using Cons.prems by (auto simp: e)
qed simp

lemma new_entry_cap:
  "entry_cap (c_ResourceType c) (case flexible c of None \<Rightarrow> new_entry c
      | Some (f, u) \<Rightarrow> (new_entry c)\<lparr>e_flexUnits := u, e_flexLeft := max (e_count (new_entry c)) 0 * u\<rparr>)
    = max (c_Count c) 0 * unit_weight (c_ResourceType c)"
  using new_entry_plain [of c]
  by (auto simp: entry_cap_def flexible_def flex_key_iff split: option.splits prod.splits if_splits)

lemma foldl_caps:
  "j < length (ec2_commitments cs) \<Longrightarrow>
     entry_cap (c_ResourceType (ec2_commitments cs ! j)) (d_heap (foldl add_commitment no_budgets cs) ! j) = owned_units (ec2_commitments cs) j"
proof (induction cs rule: rev_induct)
  case Nil
  then show ?case by (simp add: ec2_commitments_def)
next
  case (snoc c cs)
  note len = indexed_length [OF foldl_indexed [of cs]]
  show ?case
  proof (cases "isAWSCompute (c_Provider c) (c_Service c)")
    case False
    then show ?thesis using snoc by (simp add: ec2_commitments_def add_commitment_def)
  next
    case True
    define e' where "e' = (case flexible c of None \<Rightarrow> new_entry c
      | Some (f, u) \<Rightarrow> (new_entry c)\<lparr>e_flexUnits := u, e_flexLeft := max (e_count (new_entry c)) 0 * u\<rparr>)"
    obtain p t s where dm: "commitment_dims c = (p, t, s)" by (metis prod_cases3)
    have "d_heap (add_commitment (foldl add_commitment no_budgets cs) c) = d_heap (foldl add_commitment no_budgets cs) @ [e']"
      using True new_entry_dims [of c] by (auto simp: add_commitment_def flexible_def dm e'_def Let_def split: option.splits)
    then show ?thesis using snoc len True new_entry_cap [of c, folded e'_def]
      by (auto simp: ec2_commitments_def owned_units_def nth_append less_Suc_eq)
  qed
qed

lemma new_caps:
  "j < length (ec2_commitments cs) \<Longrightarrow>
     entry_cap (c_ResourceType (ec2_commitments cs ! j)) (d_heap (newEC2Dedupe cs) ! j) = owned_units (ec2_commitments cs) j"
  using foldl_caps by (simp add: newEC2Dedupe_def Let_def no_budgets_def)

end
