(* ===== verification/Rec_Dedupe.thy ===== *)
theory Rec_Dedupe
  imports Rec_Charges
begin

text \<open>
  The duplicate check of \<open>pkg/recfilter/dedupe.go\<close> and \<open>dedupe_rds.go\<close>: which commitments are
  recent, the budgets of recent commitments by resource type, region, engine and deployment, the
  engines whose reservations cover an ElastiCache node, size-flexible RDS classes, and the loop that
  relieves each recommendation of what the budgets cover. The cloud client is a parameter, log lines
  are left out.
\<close>

section \<open>Recent commitments\<close>

definition hour_ns :: int where
  "hour_ns = 3600 * 1000000000"

definition DefaultDuplicateCheckLookbackHours :: int where
  "DefaultDuplicateCheckLookbackHours = 24"

text \<open>\<open>NewDuplicateChecker\<close>: the lookback of the checker it returns.\<close>

definition NewDuplicateChecker :: "int \<Rightarrow> int" where
  "NewDuplicateChecker hours = (if hours \<le> 0 then DefaultDuplicateCheckLookbackHours else hours)"

definition isRecentActiveCommitment :: "Commitment \<Rightarrow> go_time \<Rightarrow> bool" where
  "isRecentActiveCommitment c cutoffTime =
    (if c_State c \<notin> set owned_states \<and> c_State c \<in> set ended_states then False
     else if c_StartDateIsDay c then cutoffTime < c_StartDate c + 24 * hour_ns
     else cutoffTime < c_StartDate c)"

definition filterRecentCommitments :: "int \<Rightarrow> go_time \<Rightarrow> Commitment list \<Rightarrow> Commitment list" where
  "filterRecentCommitments lookbackHours now existing =
     (let cutoffTime = now + i64 (i64 (- lookbackHours) * hour_ns) in
      filter (\<lambda>c. isRecentActiveCommitment c cutoffTime) existing)"

section \<open>Keys\<close>

definition dedupeKey :: "go_string \<Rightarrow> go_string \<Rightarrow> go_string \<Rightarrow> go_string \<Rightarrow> go_string" where
  "dedupeKey resourceType region engine deployment = join_with ''|'' [resourceType, region, engine, deployment]"

definition elastiCacheEnginePrefix :: go_string where [rec_consts]: "elastiCacheEnginePrefix = ''elasticache:''"
definition unknownElastiCacheEngine :: go_string where [rec_consts]: "unknownElastiCacheEngine = ''elasticache:*''"
definition elastiCacheRedisEngine :: go_string where [rec_consts]: "elastiCacheRedisEngine = ''elasticache:redis''"
definition elastiCacheValkeyEngine :: go_string where [rec_consts]: "elastiCacheValkeyEngine = ''elasticache:valkey''"

definition dedupeEngine :: "go_string \<Rightarrow> go_string \<Rightarrow> go_string \<Rightarrow> go_string \<times> bool" where
  "dedupeEngine providerType service rawEngine = (let engine = NormalizeEngineName rawEngine in
     if providerType \<noteq> AWS \<or> (service \<noteq> ServiceCache \<and> service \<noteq> ServiceElastiCache) then (engine, False)
     else if engine = [] then (unknownElastiCacheEngine, True)
     else (elastiCacheEnginePrefix @ engine, True))"

section \<open>Engines that cover a node\<close>

record elastiCacheCover =
  cov_engine :: go_string
  cov_nodes :: int
  cov_reserved :: int

definition valkeyPerRedisNodes :: int where "valkeyPerRedisNodes = 5"
definition redisPerValkeyNodes :: int where "redisPerValkeyNodes = 4"

definition cover :: "go_string \<Rightarrow> int \<Rightarrow> int \<Rightarrow> elastiCacheCover" where
  "cover engine nodes reserved = \<lparr>cov_engine = engine, cov_nodes = nodes, cov_reserved = reserved\<rparr>"

definition coveringElastiCacheEngines :: "go_string \<Rightarrow> elastiCacheCover list" where
  "coveringElastiCacheEngines engine =
    (if engine = unknownElastiCacheEngine then [cover unknownElastiCacheEngine 1 1]
     else if engine = elastiCacheValkeyEngine then
       [cover elastiCacheValkeyEngine 1 1, cover elastiCacheRedisEngine valkeyPerRedisNodes redisPerValkeyNodes,
        cover unknownElastiCacheEngine 1 1]
     else [cover engine 1 1, cover unknownElastiCacheEngine 1 1])"

definition consume :: "elastiCacheCover \<Rightarrow> int \<Rightarrow> int \<Rightarrow> int \<times> int" where
  "consume c available want =
    (let covered = min (go_quo (available * cov_nodes c) (cov_reserved c)) want;
         spent = go_quo (covered * cov_reserved c + cov_nodes c - 1) (cov_nodes c) in (covered, spent))"

section \<open>Size-flexible RDS classes (dedupe_rds.go)\<close>

definition rdsFlexKey :: "go_string \<Rightarrow> go_string \<Rightarrow> go_string \<Rightarrow> go_string \<Rightarrow> (go_string \<times> int) option" where
  "rdsFlexKey providerType service engine resourceType =
    (if providerType \<noteq> AWS \<or> (service \<noteq> ServiceRDS \<and> service \<noteq> ServiceRelationalDB) \<or> \<not> RDSSizeFlexibleEngine engine then None
     else let nu = RDSInstanceNU resourceType in
       if feq nu (Fin 0) then None else Some (to_lower (RDSFamily resourceType) @ ''.*'', quarter_units nu))"

definition rdsSingleAZ :: go_string where [rec_consts]: "rdsSingleAZ = ''singleaz''"
definition rdsMultiAZ :: go_string where [rec_consts]: "rdsMultiAZ = ''multiaz''"

definition rdsDeploymentFactor :: "go_string \<Rightarrow> int" where
  "rdsDeploymentFactor d = (if d = rdsMultiAZ then 2 else 1)"

definition rdsBudgetDeployment :: "go_string \<Rightarrow> go_string" where
  "rdsBudgetDeployment d = (if d = rdsSingleAZ \<or> d = rdsMultiAZ then rdsSingleAZ @ ''|'' @ rdsMultiAZ else d)"

section \<open>Budgets\<close>

text \<open>A \<open>map[string]int\<close>, which reads as zero where it has no key.\<close>

type_synonym budgets = "go_string \<Rightarrow> int"

definition commitment_budget :: "Commitment \<Rightarrow> go_string \<times> int" where
  "commitment_budget c =
    (let engine = fst (dedupeEngine (c_Provider c) (c_Service c) (c_Engine c));
         deployment = NormalizeDeploymentName (c_Deployment c) in
     case rdsFlexKey (c_Provider c) (c_Service c) engine (c_ResourceType c) of
       Some (family, units) \<Rightarrow> (dedupeKey family (c_Region c) engine (rdsBudgetDeployment deployment),
                                 c_Count c * (units * rdsDeploymentFactor deployment))
     | None \<Rightarrow> (dedupeKey (c_ResourceType c) (c_Region c) engine deployment, c_Count c * 1))"

definition buildExistingCommitmentsMap :: "Commitment list \<Rightarrow> budgets" where
  "buildExistingCommitmentsMap cs =
     foldl (\<lambda>m c. case commitment_budget c of (k, n) \<Rightarrow> m(k := m k + n)) (\<lambda>_. 0) cs"

section \<open>One recommendation\<close>

text \<open>What a recommendation consumes: the key of each covering engine, and the covers in order.\<close>

definition rec_covers :: "Recommendation \<Rightarrow> (go_string \<Rightarrow> go_string) \<times> elastiCacheCover list" where
  "rec_covers rec =
    (case dedupeEngine (r_Provider rec) (r_Service rec) (EngineFromDetails (r_Details rec)) of (engine, isElastiCache) \<Rightarrow>
     let deployment = NormalizeDeploymentName (DeploymentFromDetails (r_Details rec)) in
     case (case rdsFlexKey (r_Provider rec) (r_Service rec) engine (r_ResourceType rec) of
             Some (family, units) \<Rightarrow> (family, [cover engine 1 (units * rdsDeploymentFactor deployment)], rdsBudgetDeployment deployment)
           | None \<Rightarrow> (r_ResourceType rec, [cover engine 1 1], deployment)) of
       (resourceType, covers, dep) \<Rightarrow>
         ((\<lambda>e. dedupeKey resourceType (r_Region rec) e dep),
          if isElastiCache then coveringElastiCacheEngines engine else covers))"

fun cover_loop :: "(go_string \<Rightarrow> go_string) \<Rightarrow> elastiCacheCover list \<Rightarrow> budgets \<Rightarrow> int \<Rightarrow> budgets \<times> int" where
  "cover_loop key [] m remaining = (m, remaining)"
| "cover_loop key (c # cs) m remaining =
    (let candidate = key (cov_engine c); available = m candidate in
     if available > 0 then
       (case consume c available remaining of (covered, spent) \<Rightarrow>
          cover_loop key cs (m(candidate := m candidate - spent)) (remaining - covered))
     else cover_loop key cs m remaining)"

definition adjustSingleRecommendation :: "Recommendation \<Rightarrow> budgets \<Rightarrow> budgets \<times> (go_error + Recommendation)" where
  "adjustSingleRecommendation rec m =
    (if r_Count rec \<le> 0 then (m, Inr (zero_rec\<lparr>r_Count := 0\<rparr>))
     else case rec_covers rec of (key, covers) \<Rightarrow>
       case cover_loop key covers m (r_Count rec) of (m', remaining) \<Rightarrow>
         (m', if remaining \<le> 0 then Inr (zero_rec\<lparr>r_Count := 0\<rparr>) else ResizeCount rec remaining))"

section \<open>All recommendations\<close>

fun adjust_loop :: "Recommendation list \<Rightarrow> budgets \<Rightarrow> ec2Dedupe \<Rightarrow> Recommendation list \<Rightarrow> Recommendation list
    \<Rightarrow> go_error + (Recommendation list \<times> Recommendation list) \<times> budgets \<times> ec2Dedupe" where
  "adjust_loop [] m d passed filtered = Inr ((passed, filtered), m, d)"
| "adjust_loop (rec # recs) m d passed filtered =
    (case (if ec2_handles rec then (case ec2_adjust d rec of (d', a) \<Rightarrow> (m, d', a))
           else (case adjustSingleRecommendation rec m of (m', a) \<Rightarrow> (m', d, a))) of
       (m', d', Inl err) \<Rightarrow> Inl err
     | (m', d', Inr adjusted) \<Rightarrow>
         if r_Count adjusted > 0 then adjust_loop recs m' d' (passed @ [adjusted]) filtered
         else adjust_loop recs m' d' passed (filtered @ [rec]))"

definition adjustRecommendationsAgainstExisting :: "Recommendation list \<Rightarrow> budgets \<Rightarrow> ec2Dedupe
    \<Rightarrow> go_error + (Recommendation list \<times> Recommendation list) \<times> budgets \<times> ec2Dedupe" where
  "adjustRecommendationsAgainstExisting recs m d = adjust_loop recs m d [] []"

text \<open>
  The client: its inventory, the wider covering list and the provider's own filter when it has
  them. The result is \<open>(passed, filtered, err)\<close>, as the code returns it.
\<close>

record dedupe_client =
  GetExistingCommitments :: "go_error + Commitment list"
  GetCoveringCommitments :: "(go_error + Commitment list) option"
  FilterForRecentCommitments :: "(Recommendation list \<Rightarrow> Commitment list \<Rightarrow> Recommendation list \<times> Recommendation list \<times> go_error option) option"

definition commitmentsForDedupe :: "dedupe_client \<Rightarrow> go_error + Commitment list" where
  "commitmentsForDedupe client = (case GetCoveringCommitments client of Some r \<Rightarrow> r | None \<Rightarrow> GetExistingCommitments client)"

definition AdjustRecommendationsForExisting ::
    "int \<Rightarrow> go_time \<Rightarrow> dedupe_client \<Rightarrow> Recommendation list \<Rightarrow> Recommendation list \<times> Recommendation list \<times> go_error option" where
  "AdjustRecommendationsForExisting lookbackHours now client recs =
    (case commitmentsForDedupe client of
       Inl err \<Rightarrow> (recs, [], Some err)
     | Inr existing \<Rightarrow>
         let recent = filterRecentCommitments lookbackHours now existing in
         if recent = [] then (recs, [], None)
         else case FilterForRecentCommitments client of
           Some f \<Rightarrow> f recs recent
         | None \<Rightarrow>
             (case adjustRecommendationsAgainstExisting recs (buildExistingCommitmentsMap recent) (newEC2Dedupe recent) of
                Inl err \<Rightarrow> ([], [], Some err)
              | Inr ((passed, filtered), _) \<Rightarrow> (passed, filtered, None)))"


section \<open>Credit of one consumption\<close>

definition cover_pos :: "elastiCacheCover \<Rightarrow> bool" where
  "cover_pos c \<longleftrightarrow> 0 < cov_nodes c \<and> 0 < cov_reserved c"

text \<open>
  \<open>n\<close> nodes paid for out of a budget that goes from \<open>a\<close> to \<open>b\<close>: in units of the covered engine
  the spent budget is worth the nodes and less than one reserved unit more.
\<close>

definition paid :: "elastiCacheCover \<Rightarrow> int \<Rightarrow> int \<Rightarrow> int \<Rightarrow> bool" where
  "paid c n a b \<longleftrightarrow> 0 \<le> n \<and> 0 \<le> b \<and> b \<le> a
     \<and> n * cov_reserved c \<le> (a - b) * cov_nodes c \<and> (a - b) * cov_nodes c < n * cov_reserved c + cov_nodes c"

lemma paid_zero [simp]: "0 \<le> a \<Longrightarrow> cover_pos c \<Longrightarrow> paid c 0 a a"
  by (simp add: paid_def cover_pos_def)

lemma ceil_quo:
  fixes x n :: int
  assumes "0 \<le> x" and "0 < n"
  shows "x \<le> (x + n - 1) div n * n \<and> (x + n - 1) div n * n < x + n"
proof -
  have "(x + n - 1) div n * n = x + n - 1 - (x + n - 1) mod n" by (simp add: minus_mod_eq_div_mult)
  moreover have "0 \<le> (x + n - 1) mod n" "(x + n - 1) mod n < n" using assms by simp_all
  ultimately show ?thesis by linarith
qed

lemma consume_paid:
  assumes "consume c a want = (n, spent)" and "cover_pos c" and "0 < a" and "0 \<le> want"
  shows "paid c n a (a - spent) \<and> n \<le> want \<and> (n < want \<longrightarrow> (a - spent) * cov_nodes c < cov_reserved c)"
proof -
  let ?N = "cov_nodes c" and ?R = "cov_reserved c"
  have pos: "0 < ?N" "0 < ?R" using assms(2) by (auto simp: cover_pos_def)
  let ?q = "a * ?N div ?R"
  have q: "0 \<le> ?q" "?q * ?R \<le> a * ?N" "a * ?N < ?q * ?R + ?R"
  proof -
    show "0 \<le> ?q" using assms(3) pos by (simp add: pos_imp_zdiv_nonneg_iff)
    have "?q * ?R = a * ?N - (a * ?N) mod ?R" by (simp add: minus_mod_eq_div_mult)
    moreover have "0 \<le> (a * ?N) mod ?R" "(a * ?N) mod ?R < ?R" using pos by simp_all
    ultimately show "?q * ?R \<le> a * ?N" "a * ?N < ?q * ?R + ?R" by linarith+
  qed
  have n: "n = min ?q want" "0 \<le> n" using assms pos q(1) by (auto simp: consume_def Let_def)
  have nr: "0 \<le> n * ?R" using n(2) pos by simp
  have spent: "spent = (n * ?R + ?N - 1) div ?N" proof -
    have "0 \<le> n * ?R + ?N - 1" using nr pos by linarith
    then have "go_quo (n * ?R + ?N - 1) ?N = (n * ?R + ?N - 1) div ?N" using pos by simp
    then show ?thesis using assms(1) by (auto simp: consume_def Let_def)
  qed
  have s: "n * ?R \<le> spent * ?N" "spent * ?N < n * ?R + ?N" using ceil_quo [OF nr pos(1)] spent by simp_all
  have "n * ?R \<le> ?q * ?R" using n pos by (intro mult_right_mono) auto
  then have le: "n * ?R \<le> a * ?N" using q by linarith
  have "spent * ?N < a * ?N + ?N" using s le by linarith
  then have "spent * ?N < (a + 1) * ?N" by (simp add: distrib_right)
  then have "spent \<le> a" using pos mult_less_cancel_right [of spent ?N "a + 1"] by simp
  moreover have "0 \<le> spent"
  proof -
    have "0 \<le> spent * ?N" using s nr by linarith
    then show ?thesis using pos by (simp add: zero_le_mult_iff)
  qed
  ultimately have "paid c n a (a - spent)" using s n by (simp add: paid_def)
  moreover have "(a - spent) * ?N < ?R" if "n < want"
  proof -
    have "n = ?q" using that n by auto
    then have "a * ?N < n * ?R + ?R" using q by simp
    then show ?thesis using s by (simp add: left_diff_distrib)
  qed
  ultimately show ?thesis using n by simp
qed

text \<open>The loop over the covers of a recommendation, whose keys are distinct.\<close>

lemma cover_loop_paid:
  assumes "cover_loop key cs m rem = (m', rem')" and "\<forall>c \<in> set cs. cover_pos c"
    and "distinct (map (key \<circ> cov_engine) cs)" and "\<forall>k. 0 \<le> m k" and "0 \<le> rem"
  shows "(\<forall>k. 0 \<le> m' k) \<and> (\<forall>k. k \<notin> (key \<circ> cov_engine) ` set cs \<longrightarrow> m' k = m k) \<and> 0 \<le> rem'
    \<and> (\<exists>f. sum_list (map f cs) = rem - rem' \<and> (\<forall>c \<in> set cs. paid c (f c) (m (key (cov_engine c))) (m' (key (cov_engine c)))))
    \<and> (0 < rem' \<longrightarrow> (\<forall>c \<in> set cs. m' (key (cov_engine c)) * cov_nodes c < cov_reserved c))"
  using assms
proof (induction cs arbitrary: m rem)
  case Nil
  then show ?case by simp
next
  case (Cons c cs)
  let ?k = "key (cov_engine c)"
  have c: "cover_pos c" "c \<notin> set cs" "?k \<notin> (key \<circ> cov_engine) ` set cs" using Cons.prems(2,3) by auto
  obtain n m1 where step: "cover_loop key cs m1 (rem - n) = (m', rem')"
    and n: "paid c n (m ?k) (m1 ?k)" "n \<le> rem" "n < rem \<longrightarrow> m1 ?k * cov_nodes c < cov_reserved c"
    and m1: "\<forall>k. k \<noteq> ?k \<longrightarrow> m1 k = m k"
  proof (cases "m ?k > 0")
    case True
    obtain n spent where u: "consume c (m ?k) rem = (n, spent)" by fastforce
    show ?thesis
      using that [of "m(?k := m ?k - spent)" n] Cons.prems(1) True u
        consume_paid [OF u c(1) True Cons.prems(5)] by (simp add: Let_def)
  next
    case False
    then have "m ?k = 0" using Cons.prems(4) by (simp add: order_antisym)
    then show ?thesis
      using that [of m 0] Cons.prems(1) False c(1) Cons.prems(5) by (simp add: Let_def cover_pos_def)
  qed
  have m1pos: "\<forall>k. 0 \<le> m1 k" using m1 Cons.prems(4) n(1) by (metis paid_def)
  have cs: "\<forall>c \<in> set cs. cover_pos c" "distinct (map (key \<circ> cov_engine) cs)" using Cons.prems(2,3) by (auto simp: comp_def)
  from Cons.IH [OF step cs m1pos] n(2) obtain f where
    I: "\<forall>k. 0 \<le> m' k" "\<forall>k. k \<notin> (key \<circ> cov_engine) ` set cs \<longrightarrow> m' k = m1 k" "0 \<le> rem'"
      "sum_list (map f cs) = rem - n - rem'"
      "\<forall>c \<in> set cs. paid c (f c) (m1 (key (cov_engine c))) (m' (key (cov_engine c)))"
      "0 < rem' \<longrightarrow> (\<forall>c \<in> set cs. m' (key (cov_engine c)) * cov_nodes c < cov_reserved c)" by auto
  have mk: "m' ?k = m1 ?k" using I(2) c(3) by blast
  have other: "m1 (key (cov_engine c')) = m (key (cov_engine c'))" if "c' \<in> set cs" for c'
    using m1 c(3) that by (metis comp_apply image_eqI)
  let ?f = "f(c := n)"
  have "sum_list (map ?f (c # cs)) = rem - rem'"
    using I(4) c(2) by (simp add: map_fun_upd)
  moreover have "\<forall>c' \<in> set (c # cs). paid c' (?f c') (m (key (cov_engine c'))) (m' (key (cov_engine c')))"
    using I(5) n(1) mk other c(2) by auto
  moreover have "0 < rem' \<longrightarrow> (\<forall>c' \<in> set (c # cs). m' (key (cov_engine c')) * cov_nodes c' < cov_reserved c')"
  proof
    assume r: "0 < rem'"
    have "0 \<le> sum_list (map f cs)" using I(5) by (intro sum_list_nonneg) (auto simp: paid_def)
    then have "n < rem" using I(4) r by linarith
    then show "\<forall>c' \<in> set (c # cs). m' (key (cov_engine c')) * cov_nodes c' < cov_reserved c'" using I(6) r n(3) mk by auto
  qed
  moreover have "\<forall>k. k \<notin> (key \<circ> cov_engine) ` set (c # cs) \<longrightarrow> m' k = m k" using I(2) m1 by auto
  ultimately show ?case using I(1,3) by blast
qed


section \<open>The covers of a recommendation\<close>

lemma dedupeKey_engine [simp]: "dedupeKey t r e d = dedupeKey t r e' d \<longleftrightarrow> e = e'"
  by (simp add: dedupeKey_def)

lemma rds_units_pos: "rdsFlexKey p s e t = Some (f, u) \<Longrightarrow> 0 < u"
proof -
  assume "rdsFlexKey p s e t = Some (f, u)"
  then have "RDSInstanceNU t \<noteq> Fin 0" "u = quarter_units (RDSInstanceNU t)"
    by (auto simp: rdsFlexKey_def Let_def split: if_splits)
  then show "0 < u" using quarter_units_pos(2) by blast
qed

lemma elastiCache_covers:
  "\<forall>c \<in> set (coveringElastiCacheEngines e). cover_pos c" "distinct (map cov_engine (coveringElastiCacheEngines e))"
  by (auto simp: coveringElastiCacheEngines_def cover_def cover_pos_def valkeyPerRedisNodes_def redisPerValkeyNodes_def rec_consts)

lemma rec_covers_ok:
  assumes "rec_covers rec = (key, covers)"
  shows "(\<forall>c \<in> set covers. cover_pos c) \<and> distinct (map (key \<circ> cov_engine) covers)"
proof -
  obtain engine ec where e: "dedupeEngine (r_Provider rec) (r_Service rec) (EngineFromDetails (r_Details rec)) = (engine, ec)" by fastforce
  let ?flex = "rdsFlexKey (r_Provider rec) (r_Service rec) engine (r_ResourceType rec)"
  define dep where "dep = NormalizeDeploymentName (DeploymentFromDetails (r_Details rec))"
  have ex: "\<exists>r' > 0. cover engine 1 r = cover engine 1 r'" if "0 < r" for r using that by blast
  obtain t d where k: "key = (\<lambda>e. dedupeKey t (r_Region rec) e d)"
    and c: "covers = coveringElastiCacheEngines engine \<or> (\<exists>r > 0. covers = [cover engine 1 r])"
  proof (cases ?flex)
    case None
    then show ?thesis using assms that [of "r_ResourceType rec" dep] e
      ex [of 1] by (cases ec) (auto simp: rec_covers_def Let_def dep_def)
  next
    case (Some fu)
    then have "0 < snd fu" using rds_units_pos [of _ _ _ _ "fst fu" "snd fu"] by simp
    then have "0 < snd fu * rdsDeploymentFactor dep" (is "0 < ?r") by (simp add: rdsDeploymentFactor_def)
    then show ?thesis using assms that [of "fst fu" "rdsBudgetDeployment dep"] e Some
      ex [of ?r] by (cases ec; cases fu) (auto simp: rec_covers_def Let_def dep_def)
  qed
  have "inj_on key S" for S by (simp add: k inj_on_def)
  then have "distinct (map (key \<circ> cov_engine) covers) \<longleftrightarrow> distinct (map cov_engine covers)"
    by (simp add: distinct_map comp_inj_on_iff [symmetric] flip: map_map)
  then show ?thesis using c elastiCache_covers [of engine] by (auto simp: cover_def cover_pos_def)
qed


section \<open>Properties\<close>

lemma build_nonneg:
  assumes "\<forall>c \<in> set cs. 0 \<le> c_Count c"
  shows "0 \<le> buildExistingCommitmentsMap cs k"
proof -
  have one: "0 \<le> snd (commitment_budget c)" if "0 \<le> c_Count c" for c
  proof -
    let ?e = "fst (dedupeEngine (c_Provider c) (c_Service c) (c_Engine c))"
    show ?thesis
    proof (cases "rdsFlexKey (c_Provider c) (c_Service c) ?e (c_ResourceType c)")
      case None
      then show ?thesis using that by (simp add: commitment_budget_def Let_def)
    next
      case (Some fu)
      then have "0 < snd fu" using rds_units_pos [of _ _ _ _ "fst fu" "snd fu"] by simp
      then show ?thesis using that Some by (cases fu) (simp add: commitment_budget_def Let_def rdsDeploymentFactor_def)
    qed
  qed
  have "0 \<le> foldl (\<lambda>m c. case commitment_budget c of (k, n) \<Rightarrow> m(k := m k + n)) m cs k" if "\<And>k. (0::int) \<le> m k" for m k
    using assms that
  proof (induction cs arbitrary: m k)
    case Nil
    then show ?case by simp
  next
    case (Cons c cs)
    have m1: "0 \<le> (case commitment_budget c of (k, n) \<Rightarrow> m(k := m k + n)) k'" for k'
      using one [of c] Cons.prems by (auto split: prod.splits)
    show ?case unfolding foldl_Cons by (rule Cons.IH [OF _ m1]) (use Cons.prems(1) in simp)
  qed
  then show ?thesis by (simp add: buildExistingCommitmentsMap_def)
qed

text \<open>For nodes outside EC2 the check credits exactly what the budgets pay for. Each covering
  engine's budget goes down by the reserved units worth the nodes it covered and by less than one
  reserved unit more, never below zero; budgets of other keys are untouched. The recommendation keeps
  the nodes not covered, with its costs scaled. When it keeps any, no covering budget could have paid
  for one more node.\<close>

theorem adjust_single_exact:
  assumes "0 < r_Count rec" and "\<forall>k. 0 \<le> m k" and "rec_covers rec = (key, covers)"
    and "adjustSingleRecommendation rec m = (m', result)"
  shows "(\<forall>k. k \<notin> (key \<circ> cov_engine) ` set covers \<longrightarrow> m' k = m k)
    \<and> (\<exists>f adj. result = Inr adj \<and> 0 \<le> r_Count adj \<and> sum_list (map f covers) = r_Count rec - r_Count adj
        \<and> (0 < r_Count adj \<longrightarrow> ResizeCount rec (r_Count adj) = Inr adj)
        \<and> (\<forall>c \<in> set covers. paid c (f c) (m (key (cov_engine c))) (m' (key (cov_engine c)))
             \<and> (0 < r_Count adj \<longrightarrow> m' (key (cov_engine c)) * cov_nodes c < cov_reserved c)))"
proof -
  obtain rem where loop: "cover_loop key covers m (r_Count rec) = (m', rem)"
    and res: "result = (if rem \<le> 0 then Inr (zero_rec\<lparr>r_Count := 0\<rparr>) else ResizeCount rec rem)"
    using assms by (auto simp: adjustSingleRecommendation_def split: prod.splits)
  from cover_loop_paid [OF loop] rec_covers_ok [OF assms(3)] assms(1,2) obtain f where
    L: "\<forall>k. k \<notin> (key \<circ> cov_engine) ` set covers \<longrightarrow> m' k = m k" "0 \<le> rem" "sum_list (map f covers) = r_Count rec - rem"
      "\<forall>c \<in> set covers. paid c (f c) (m (key (cov_engine c))) (m' (key (cov_engine c)))"
      "0 < rem \<longrightarrow> (\<forall>c \<in> set covers. m' (key (cov_engine c)) * cov_nodes c < cov_reserved c)" by auto
  have "0 \<le> sum_list (map f covers)" using L(4) by (intro sum_list_nonneg) (auto simp: paid_def)
  then have le: "rem \<le> r_Count rec" using L(3) by simp
  have "\<exists>adj. result = Inr adj \<and> r_Count adj = rem \<and> (0 < rem \<longrightarrow> ResizeCount rec rem = Inr adj)"
    using res L(2) le ResizeCount_Inr [of rem rec] by (cases "rem \<le> 0") auto
  then show ?thesis using L by blast
qed

definition demo_rec :: Recommendation where
  "demo_rec = zero_rec\<lparr>r_Provider := AWS, r_Service := ServiceElastiCache, r_Region := ''eu-west-1'',
     r_ResourceType := ''cache.r6g.large'', r_Count := 7,
     r_Details := Some (CacheD (ByPtr (Some \<lparr>hd_Engine = ''valkey'', hd_NodeType = ''cache.r6g.large'', hd_Shards = 0\<rparr>)))\<rparr>"

definition demo_budgets :: budgets where
  "demo_budgets = (\<lambda>k. if k = ''cache.r6g.large|eu-west-1|elasticache:redis|'' then 5 else 0)"

text \<open>Five Redis nodes cover six of seven Valkey nodes.\<close>

lemma demo_covers:
  "rec_covers demo_rec = ((\<lambda>e. dedupeKey ''cache.r6g.large'' ''eu-west-1'' e []), coveringElastiCacheEngines elastiCacheValkeyEngine)"
  by (simp add: rec_covers_def demo_rec_def rec_consts dedupeEngine_def EngineFromDetails_def NormalizeEngineName_def ascii_lower_def
      engineNameMap_def DeploymentFromDetails_def NormalizeDeploymentName_def remove_char_def rdsFlexKey_def zero_rec_def Let_def)

theorem adjust_single_exact_witness:
  "\<exists>f adj. snd (adjustSingleRecommendation demo_rec demo_budgets) = Inr adj
     \<and> sum_list (map f (coveringElastiCacheEngines elastiCacheValkeyEngine)) = 7 - r_Count adj"
proof -
  have "0 < r_Count demo_rec" "\<forall>k. 0 \<le> demo_budgets k" by (simp_all add: demo_rec_def demo_budgets_def)
  from adjust_single_exact [OF this demo_covers, of "fst (adjustSingleRecommendation demo_rec demo_budgets)"
      "snd (adjustSingleRecommendation demo_rec demo_budgets)"]
  have "\<exists>f adj. snd (adjustSingleRecommendation demo_rec demo_budgets) = Inr adj
     \<and> sum_list (map f (coveringElastiCacheEngines elastiCacheValkeyEngine)) = r_Count demo_rec - r_Count adj"
    by auto
  then show ?thesis by (simp add: demo_rec_def)
qed

lemma demo_adjusted: "r_Count (projr (snd (adjustSingleRecommendation demo_rec demo_budgets))) = 1"
  unfolding adjustSingleRecommendation_def demo_covers
  by (simp add: demo_budgets_def demo_rec_def zero_rec_def coveringElastiCacheEngines_def rec_consts cover_def dedupeKey_def
      consume_def Let_def valkeyPerRedisNodes_def redisPerValkeyNodes_def ResizeCount_def)

text \<open>One recommendation of the loop: the nodes it keeps and, for EC2, what it charges to each commitment.\<close>

definition adjust_one :: "Recommendation \<Rightarrow> budgets \<Rightarrow> ec2Dedupe \<Rightarrow> budgets \<times> ec2Dedupe \<times> (go_error + Recommendation)" where
  "adjust_one rec m d = (if ec2_handles rec then (case ec2_adjust d rec of (d', a) \<Rightarrow> (m, d', a))
     else (case adjustSingleRecommendation rec m of (m', a) \<Rightarrow> (m', d, a)))"

definition left_units :: "Commitment list \<Rightarrow> ec2Dedupe \<Rightarrow> nat \<Rightarrow> int" where
  "left_units own d j = entry_cap (c_ResourceType (own ! j)) (d_heap d ! j)"

definition run_ok :: "Commitment list \<Rightarrow> budgets \<Rightarrow> ec2Dedupe \<Rightarrow> bool" where
  "run_ok own m d \<longleftrightarrow> ec2_state_ok (map c_ResourceType own) d \<and> indexed own d \<and> (\<forall>k. 0 \<le> m k)
     \<and> (\<forall>c \<in> set own. isAWSCompute (c_Provider c) (c_Service c))"

lemma left_units_nonneg: "run_ok own m d \<Longrightarrow> j < length own \<Longrightarrow> 0 \<le> left_units own d j"
proof -
  assume a: "run_ok own m d" "j < length own"
  then have "heap_ok (map c_ResourceType own) (d_heap d)" "indexed own d" by (simp_all add: run_ok_def ec2_state_ok_def)
  with a(2) indexed_length [OF this(2)] have "entry_ok (c_ResourceType (own ! j)) (d_heap d ! j)" unfolding heap_ok_def by fastforce
  then show ?thesis unfolding left_units_def by (rule entry_cap_nonneg)
qed

lemma adjust_one_single:
  assumes ok: "run_ok own m d" and r: "\<not> ec2_handles rec"
  shows "\<exists>m1 adj. adjust_one rec m d = (m1, d, Inr adj) \<and> run_ok own m1 d \<and> 0 \<le> r_Count adj \<and> r_Count adj \<le> max 0 (r_Count rec)
     \<and> (0 < r_Count adj \<longrightarrow> ResizeCount rec (r_Count adj) = Inr adj)"
proof (cases "r_Count rec \<le> 0")
  case True
  then show ?thesis using ok r by (simp add: adjust_one_def adjustSingleRecommendation_def)
next
  case pos: False
  obtain key covers where kc: "rec_covers rec = (key, covers)" by fastforce
  obtain m' rem where loop: "cover_loop key covers m (r_Count rec) = (m', rem)" by fastforce
  have m: "\<forall>k. 0 \<le> m k" using ok by (simp add: run_ok_def)
  from cover_loop_paid [OF loop] rec_covers_ok [OF kc] pos m obtain f where
    L: "\<forall>k. 0 \<le> m' k" "0 \<le> rem" "sum_list (map f covers) = r_Count rec - rem"
      "\<forall>c \<in> set covers. paid c (f c) (m (key (cov_engine c))) (m' (key (cov_engine c)))" by auto
  have "0 \<le> sum_list (map f covers)" using L(4) by (intro sum_list_nonneg) (auto simp: paid_def)
  then have le: "rem \<le> r_Count rec" using L(3) by simp
  have "adjust_one rec m d = (m', d, if rem \<le> 0 then Inr (zero_rec\<lparr>r_Count := 0\<rparr>) else ResizeCount rec rem)"
    using pos kc loop r by (simp add: adjust_one_def adjustSingleRecommendation_def)
  moreover have "run_ok own m' d" using ok L(1) by (simp add: run_ok_def)
  ultimately show ?thesis using le L(2) ResizeCount_Inr [of rem rec] by (cases "rem \<le> 0") auto
qed

lemma adjust_one_ok:
  assumes ok: "run_ok own m d" and pipe: "no_pipe (r_ResourceType rec)"
  shows "\<exists>m1 d1 adj. adjust_one rec m d = (m1, d1, Inr adj) \<and> run_ok own m1 d1
     \<and> (0 < r_Count adj \<longrightarrow> ResizeCount rec (r_Count adj) = Inr adj)
     \<and> (\<forall>es. ledger_ok own (left_units own d1) es \<longrightarrow>
          ledger_ok own (left_units own d) ((rec, r_Count adj, \<lambda>j. left_units own d j - left_units own d1 j) # es))"
proof (cases "ec2_handles rec")
  case False
  from adjust_one_single [OF ok this] show ?thesis using False left_units_nonneg [OF ok] by fastforce
next
  case True
  let ?ts = "map c_ResourceType own" and ?W = "unit_weight (r_ResourceType rec)"
  have o: "ec2_state_ok ?ts d" "indexed own d" "\<forall>c \<in> set own. isAWSCompute (c_Provider c) (c_Service c)" using ok by (auto simp: run_ok_def)
  obtain d1 adj where a: "ec2_adjust d rec = (d1, Inr adj)" "ec2_state_ok ?ts d1" "0 \<le> r_Count adj" "r_Count adj \<le> max 0 (r_Count rec)"
    "heap_cap ?ts (d_heap d1) = heap_cap ?ts (d_heap d) - (max 0 (r_Count rec) - r_Count adj) * ?W"
    "0 < r_Count adj \<longrightarrow> ResizeCount rec (r_Count adj) = Inr adj"
    by (rule ec2_adjust_credit [OF o(1) pipe])
  note ch = ec2_adjust_charge [OF o(1) refl o(2,3) True pipe a(1)]
  note len = indexed_length [OF o(2)]
  have ok1: "run_ok own m d1" using ok a(2) ch by (simp add: run_ok_def)
  have cap: "heap_cap ?ts (d_heap e) = (\<Sum>j < length own. left_units own e j)" if "indexed own e" for e
    unfolding heap_cap_def indexed_length [OF that] by (intro sum.cong) (simp_all add: left_units_def)
  have total: "(\<Sum>j < length own. left_units own d j - left_units own d1 j) = (max 0 (r_Count rec) - r_Count adj) * ?W"
    using a(5) cap [OF o(2)] cap [of d1] ch by (simp add: sum_subtractf)
  have each: "left_units own d1 j \<le> left_units own d j \<and> (left_units own d j - left_units own d1 j \<noteq> 0 \<longrightarrow> pays_for (own ! j) rec)"
    if "j < length own" for j
    using ch that len by (auto simp: drawn_def left_units_def)
  have none: "left_units own d1 j < ?W" if "0 < r_Count adj" "j < length own" "pays_for (own ! j) rec" for j
    using ch that by (simp add: left_units_def)
  have "ledger_ok own (left_units own d) ((rec, r_Count adj, \<lambda>j. left_units own d j - left_units own d1 j) # es)"
    if "ledger_ok own (left_units own d1) es" for es
    using that a(3,4) total each none left_units_nonneg [OF ok1] True by simp
  with a(1,6) ok1 True show ?thesis by (auto simp: adjust_one_def)
qed

definition kept_of :: "ledger \<Rightarrow> (Recommendation \<times> int) list" where
  "kept_of es = map (\<lambda>(r, k, charge). (r, k)) (filter (\<lambda>(r, k, charge). 0 < k) es)"

definition dropped_of :: "ledger \<Rightarrow> Recommendation list" where
  "dropped_of es = map fst (filter (\<lambda>(r, k, charge). k \<le> 0) es)"

lemma adjust_loop_ledger:
  assumes "run_ok own m d" and "\<forall>r \<in> set recs. no_pipe (r_ResourceType r)"
  shows "\<exists>es p m' d'. adjust_loop recs m d passed filtered = Inr ((passed @ p, filtered @ dropped_of es), m', d')
    \<and> map fst es = recs \<and> ledger_ok own (left_units own d) es \<and> list_all2 (\<lambda>(r, k) q. ResizeCount r k = Inr q \<and> r_Count q = k) (kept_of es) p"
  using assms
proof (induction recs arbitrary: m d passed filtered)
  case Nil
  then show ?case by (intro exI [of _ "[]"]) (simp add: dropped_of_def kept_of_def)
next
  case (Cons rec recs)
  from adjust_one_ok [OF Cons.prems(1), of rec] Cons.prems(2) obtain m1 d1 adj where
    one: "adjust_one rec m d = (m1, d1, Inr adj)" "run_ok own m1 d1" "0 < r_Count adj \<longrightarrow> ResizeCount rec (r_Count adj) = Inr adj"
    and led: "\<And>es. ledger_ok own (left_units own d1) es \<Longrightarrow>
      ledger_ok own (left_units own d) ((rec, r_Count adj, \<lambda>j. left_units own d j - left_units own d1 j) # es)" by auto
  let ?p1 = "if r_Count adj > 0 then [adj] else []" and ?f1 = "if r_Count adj > 0 then [] else [rec]"
  have step: "adjust_loop (rec # recs) m d passed filtered = adjust_loop recs m1 d1 (passed @ ?p1) (filtered @ ?f1)"
    using one(1) by (simp add: adjust_one_def)
  from Cons.IH [OF one(2), of "passed @ ?p1" "filtered @ ?f1"] Cons.prems(2) obtain es p m' d' where
    IH: "adjust_loop recs m1 d1 (passed @ ?p1) (filtered @ ?f1) = Inr (((passed @ ?p1) @ p, (filtered @ ?f1) @ dropped_of es), m', d')"
      "map fst es = recs" "ledger_ok own (left_units own d1) es"
      "list_all2 (\<lambda>(r, k) q. ResizeCount r k = Inr q \<and> r_Count q = k) (kept_of es) p" by auto
  let ?e = "(rec, r_Count adj, \<lambda>j. left_units own d j - left_units own d1 j)"
  have "?p1 @ p = (if 0 < r_Count adj then [adj] else []) @ p" "dropped_of (?e # es) = ?f1 @ dropped_of es"
    "kept_of (?e # es) = (if 0 < r_Count adj then [(rec, r_Count adj)] else []) @ kept_of es" by (simp_all add: dropped_of_def kept_of_def)
  then show ?case using step IH led [OF IH(3)] one(3)
    by (intro exI [of _ "?e # es"] exI [of _ "?p1 @ p"] exI [of _ m'] exI [of _ d']) simp
qed

text \<open>C22. The whole check never fails and accounts for every recommendation: in order, each one is either passed with the nodes it
  keeps and its costs scaled to them, or reported as filtered when it keeps none. For EC2 there is a ledger: every node a
  recommendation gives up is charged, in units of its size, to commitments that cover it (same region, and the same type with
  compatible platform, tenancy and scope, or the size-flexible family of a regional Linux reservation), no commitment pays more
  units than it holds, and a recommendation keeps a node only when no commitment that covers it has the units of one left.\<close>

theorem dedupe_buys_what_is_not_owned:
  assumes "\<forall>c \<in> set cs. no_pipe (c_ResourceType c) \<and> 0 \<le> c_Count c" and "\<forall>r \<in> set recs. no_pipe (r_ResourceType r)"
  shows "\<exists>es passed m d.
      adjustRecommendationsAgainstExisting recs (buildExistingCommitmentsMap cs) (newEC2Dedupe cs) = Inr ((passed, dropped_of es), m, d)
    \<and> map fst es = recs \<and> list_all2 (\<lambda>(r, k) p. ResizeCount r k = Inr p \<and> r_Count p = k) (kept_of es) passed
    \<and> ledger_ok (ec2_commitments cs) (owned_units (ec2_commitments cs)) es"
proof -
  let ?own = "ec2_commitments cs" and ?d = "newEC2Dedupe cs"
  have "ec2_state_ok (map c_ResourceType ?own) ?d" using new_ec2_ok [of cs] assms(1) by (simp add: ec2_types_map)
  then have ok: "run_ok ?own (buildExistingCommitmentsMap cs) ?d"
    using new_indexed build_nonneg assms(1) by (auto simp: run_ok_def ec2_commitments_def)
  have "ledger_ok ?own (left_units ?own ?d) es \<longleftrightarrow> ledger_ok ?own (owned_units ?own) es" for es
    by (rule ledger_cong) (simp add: left_units_def new_caps)
  with adjust_loop_ledger [OF ok assms(2), of "[]" "[]"] show ?thesis
    unfolding adjustRecommendationsAgainstExisting_def by fastforce
qed

text \<open>Two 2xlarge reservations pay for four of five xlarge nodes of the family.\<close>

definition demo_commitment :: Commitment where
  "demo_commitment = \<lparr>c_StartDate = 0, c_EndDate = 0, c_Provider = AWS, c_Account = [], c_CommitmentID = ''ri-1'',
     c_CommitmentType = CommitmentReservedInstance, c_Service = ServiceEC2, c_Region = ''eu-west-1'',
     c_ResourceType = ''m5.2xlarge'', c_Engine = [], c_Deployment = [], c_State = ''active'', c_Platform = ''linux/unix'',
     c_Tenancy = ''default'', c_Scope = ''regional'', c_AvailabilityZone = [], c_Count = 2, c_Cost = 0, c_CostKnown = False,
     c_StartDateIsDay = False\<rparr>"

definition demo_ec2_rec :: Recommendation where
  "demo_ec2_rec = zero_rec\<lparr>r_Provider := AWS, r_Service := ServiceEC2, r_Region := ''eu-west-1'',
     r_ResourceType := ''m5.xlarge'', r_Count := 5, r_Details := Some (ComputeD (ByVal \<lparr>cd_InstanceType = ''m5.xlarge'',
       cd_Platform = ''linux/unix'', cd_Tenancy = ''default'', cd_Scope = [], cd_AvailabilityZone = [], cd_GCPCommitmentType = [],
       cd_VCPU = 0, cd_MemoryGB = 0\<rparr>))\<rparr>"

lemma demo_weights: "unit_weight ''m5.2xlarge'' = 64" "unit_weight ''m5.xlarge'' = 32"
  by (simp_all add: unit_weight_def ec2FlexKey_def cut_at_def EC2NormalizationFactor_def ec2NormalizationFactors_def
      EC2SizeFlexibleFamily_def ec2NotSizeFlexibleFamilies_def quarter_units_def trunc_rat_def is_i64_def Let_def
      trim_space_printable printable_def ascii_lower_def)

lemma demo_pays: "pays_for demo_commitment demo_ec2_rec"
proof -
  have fam: "flex_family ''m5.2xlarge'' = Some ''m5''" "flex_family ''m5.xlarge'' = Some ''m5''"
    by (simp_all add: flex_family_def cut_at_def EC2NormalizationFactor_def ec2NormalizationFactors_def EC2SizeFlexibleFamily_def
        ec2NotSizeFlexibleFamilies_def trim_space_printable printable_def ascii_lower_def)
  have n: "NormalizePlatformName ''linux/unix'' = ''linux/unix''" "NormalizeTenancyName ''default'' = ''default''"
    "sc_kind (newScopeState ''regional'' []) = scopeRegionalKind"
    by (simp_all add: NormalizePlatformName_def NormalizeTenancyName_def newScopeState_def NormalizeScopeName_def trim_space_printable printable_def
        ascii_lower_def platformAliases_def trim_suffix_def rec_consts)
  have "family_pays demo_commitment demo_ec2_rec"
    by (simp add: family_pays_def commitment_dims_def rec_dims_def ec2DimsFromDetails_def demo_ec2_rec_def demo_commitment_def n fam)
  then show ?thesis by (simp add: pays_for_def) (simp add: demo_commitment_def demo_ec2_rec_def isAWSCompute_def rec_consts)
qed

theorem dedupe_buys_what_is_not_owned_witness:
  "\<exists>p m d. adjustRecommendationsAgainstExisting [demo_ec2_rec] (buildExistingCommitmentsMap [demo_commitment]) (newEC2Dedupe [demo_commitment])
     = Inr (([p], []), m, d) \<and> ResizeCount demo_ec2_rec 1 = Inr p"
proof -
  have "\<forall>c \<in> set [demo_commitment]. no_pipe (c_ResourceType c) \<and> 0 \<le> c_Count c" "\<forall>r \<in> set [demo_ec2_rec]. no_pipe (r_ResourceType r)"
    by (simp_all add: demo_commitment_def demo_ec2_rec_def no_pipe_def)
  from dedupe_buys_what_is_not_owned [OF this] obtain es passed m d where
    w: "adjustRecommendationsAgainstExisting [demo_ec2_rec] (buildExistingCommitmentsMap [demo_commitment]) (newEC2Dedupe [demo_commitment])
        = Inr ((passed, dropped_of es), m, d)" "map fst es = [demo_ec2_rec]"
      "list_all2 (\<lambda>(r, k) p. ResizeCount r k = Inr p \<and> r_Count p = k) (kept_of es) passed"
      "ledger_ok (ec2_commitments [demo_commitment]) (owned_units (ec2_commitments [demo_commitment])) es"
    by (elim exE conjE) (rule that)
  then obtain k charge where es: "es = [(demo_ec2_rec, k, charge)]" by (cases es) auto
  have own: "ec2_commitments [demo_commitment] = [demo_commitment]" "owned_units [demo_commitment] 0 = 128"
    and r: "ec2_handles demo_ec2_rec" "r_Count demo_ec2_rec = 5" "unit_weight (r_ResourceType demo_ec2_rec) = 32"
    using demo_weights by (simp_all add: ec2_commitments_def owned_units_def demo_ec2_rec_def demo_commitment_def ec2_handles_def isAWSCompute_def rec_consts)
  have "k = 1" using w(4) by (auto simp: es own r demo_pays)
  with w show ?thesis by (auto simp: es dropped_of_def kept_of_def list_all2_Cons1)
qed

end
