(* ===== verification/Rec_Sizing.thy ===== *)
theory Rec_Sizing
  imports Rec_Common
begin

text \<open>
  Filtering and sizing of recommendations (\<open>pkg/recfilter/filters.go\<close>, \<open>sizing.go\<close>): the
  dimension filters, the minimum pool size, the coverage percentage and the target coverage. \<open>ovf\<close>
  is what the machine makes of a \<open>float64\<close> outside the range of \<open>int\<close>; log lines are left out.
\<close>

section \<open>Filters (filters.go)\<close>

record Filters =
  IncludeRegions :: "go_string list"
  ExcludeRegions :: "go_string list"
  IncludeInstanceTypes :: "go_string list"
  ExcludeInstanceTypes :: "go_string list"
  IncludeEngines :: "go_string list"
  ExcludeEngines :: "go_string list"
  MinPoolSize :: float64

definition IncludesRegion :: "Filters \<Rightarrow> go_string \<Rightarrow> bool" where
  "IncludesRegion f region =
    (if IncludeRegions f \<noteq> [] \<and> \<not> slices_contains (IncludeRegions f) region then False
     else if slices_contains (ExcludeRegions f) region then False else True)"

definition IncludesInstanceType :: "Filters \<Rightarrow> go_string \<Rightarrow> bool" where
  "IncludesInstanceType f t =
    (if IncludeInstanceTypes f \<noteq> [] \<and> \<not> slices_contains (IncludeInstanceTypes f) t then False
     else if slices_contains (ExcludeInstanceTypes f) t then False else True)"

definition matchesEngine :: "go_string list \<Rightarrow> go_string \<Rightarrow> (go_string \<Rightarrow> go_string) \<Rightarrow> bool" where
  "matchesEngine filters engine norm_name = list_ex (\<lambda>e. norm_name e = engine) filters"

definition IncludesEngine :: "Filters \<Rightarrow> Recommendation \<Rightarrow> bool" where
  "IncludesEngine f rec = (case EngineFilterKey (r_Details rec) of (key, norm_name) \<Rightarrow>
     if key = [] then IncludeEngines f = []
     else let engine = to_lower key in
       if IncludeEngines f \<noteq> [] \<and> \<not> matchesEngine (IncludeEngines f) engine norm_name then False
       else \<not> matchesEngine (ExcludeEngines f) engine norm_name)"

definition IncludesPoolSize :: "Filters \<Rightarrow> Recommendation \<Rightarrow> bool" where
  "IncludesPoolSize f rec =
    (if MinPoolSize f \<le> Fin 0 then True
     else if r_AverageInstancesUsedPerHour rec \<le> Fin 0 then True
     else MinPoolSize f \<le> r_AverageInstancesUsedPerHour rec)"

definition DropMinPoolSize :: go_string where [rec_consts]: "DropMinPoolSize = ''--min-pool-size''"
definition DropCoverageSizedToZero :: go_string where [rec_consts]: "DropCoverageSizedToZero = ''--coverage-sized-to-zero''"
definition DropTargetAlreadyMet :: go_string where [rec_consts]: "DropTargetAlreadyMet = ''target-already-met''"
definition DropTargetSizedToZero :: go_string where [rec_consts]: "DropTargetSizedToZero = ''target-sized-to-zero''"
definition DropTargetInputInvalid :: go_string where [rec_consts]: "DropTargetInputInvalid = ''target-input-invalid''"
definition DropTargetCoverageUnknown :: go_string where [rec_consts]: "DropTargetCoverageUnknown = ''target-coverage-unknown''"

fun pool_loop :: "Filters \<Rightarrow> Recommendation list \<Rightarrow> Recommendation list \<Rightarrow> DropSummary \<Rightarrow> Recommendation list \<times> DropSummary" where
  "pool_loop f [] kept drops = (kept, drops)"
| "pool_loop f (r # recs) kept drops =
    (if IncludesPoolSize f r then pool_loop f recs (kept @ [r]) drops
     else pool_loop f recs kept (drop_add drops DropMinPoolSize 1))"

definition ApplyMinPoolSize :: "Filters \<Rightarrow> Recommendation list \<Rightarrow> DropSummary \<Rightarrow> Recommendation list \<times> DropSummary" where
  "ApplyMinPoolSize f recs drops = (if MinPoolSize f \<le> Fin 0 then (recs, drops) else pool_loop f recs [] drops)"

section \<open>Coverage percentage (sizing.go, ApplyCoverage)\<close>

definition sp_details :: "Recommendation \<Rightarrow> SavingsPlanDetails option" where
  "sp_details rec = (case r_Details rec of Some (SavingsPlanD (ByPtr (Some d))) \<Rightarrow> Some d | _ \<Rightarrow> None)"

text \<open>One recommendation: what is kept of it.\<close>

definition coverage_one :: "int \<Rightarrow> float64 \<Rightarrow> Recommendation \<Rightarrow> Recommendation option" where
  "coverage_one ovf ratio rec =
    (if IsSavingsPlan (r_Service rec) then
       Some (if sp_details rec \<noteq> None then ScaleRecommendationCosts rec ratio else rec)
     else let newCount = to_i64 ovf (float_of_int (r_Count rec) * ratio) in
       if newCount > 0 then
         Some ((ScaleRecommendationCosts rec (fdiv (float_of_int newCount) (float_of_int (r_Count rec))))\<lparr>r_Count := newCount\<rparr>)
       else None)"

fun coverage_loop :: "int \<Rightarrow> float64 \<Rightarrow> Recommendation list \<Rightarrow> Recommendation list \<Rightarrow> DropSummary \<Rightarrow> Recommendation list \<times> DropSummary" where
  "coverage_loop ovf ratio [] result drops = (result, drops)"
| "coverage_loop ovf ratio (r # recs) result drops =
    (case coverage_one ovf ratio r of
       Some a \<Rightarrow> coverage_loop ovf ratio recs (result @ [a]) drops
     | None \<Rightarrow> coverage_loop ovf ratio recs result (drop_add drops DropCoverageSizedToZero 1))"

definition ApplyCoverage :: "int \<Rightarrow> Recommendation list \<Rightarrow> float64 \<Rightarrow> DropSummary \<Rightarrow> Recommendation list \<times> DropSummary" where
  "ApplyCoverage ovf recs coverage drops =
    (if Fin 100 \<le> coverage then (recs, drops)
     else if coverage \<le> Fin 0 then ([], drop_add drops DropCoverageSizedToZero (length recs))
     else coverage_loop ovf (fdiv coverage (Fin 100)) recs [] drops)"

section \<open>Target coverage (sizing.go, ApplyTargetCoverage)\<close>

definition isFiniteTarget :: "float64 \<Rightarrow> bool" where
  "isFiniteTarget t \<longleftrightarrow> \<not> is_nan t \<and> \<not> is_inf t"

definition finiteTargetOutOfRange :: "float64 \<Rightarrow> bool" where
  "finiteTargetOutOfRange t \<longleftrightarrow> isFiniteTarget t \<and> (t \<le> Fin 0 \<or> Fin 100 < t)"

definition targetCoverageInputsValid :: "Recommendation \<Rightarrow> float64 \<Rightarrow> bool" where
  "targetCoverageInputsValid rec t \<longleftrightarrow>
     list_all (\<lambda>v. \<not> (is_nan v \<or> is_inf v)) [r_AverageInstancesUsedPerHour rec, r_ExistingCoveragePct rec, t]
     \<and> Fin 0 \<le> r_ExistingCoveragePct rec"

fun float_floor :: "float64 \<Rightarrow> float64" where
  "float_floor (Fin r) = Fin (of_int \<lfloor>r\<rfloor>)"
| "float_floor x = x"

text \<open>\<open>None\<close> is \<open>valid = false\<close>; otherwise the count and \<open>alreadyMet\<close>.\<close>

definition exact_count :: "rat \<Rightarrow> float64 \<Rightarrow> float64 \<Rightarrow> (int \<times> bool) option" where
  "exact_count exact avg t =
    (if exact < 0 then None
     else let gap = the (set_float64 t) - exact in
       if gap \<le> 0 then Some (0, True)
       else let quantity = gap * the (set_float64 avg) / 100;
                whole = go_quo (fst (quotient_of quantity)) (snd (quotient_of quantity)) in
         if 2 ^ 63 \<le> \<bar>whole\<bar> then None else Some (whole, False))"

definition float_count :: "int \<Rightarrow> float64 \<Rightarrow> float64 \<Rightarrow> float64 \<Rightarrow> (int \<times> bool) option" where
  "float_count ovf pct avg t =
    (let gap = t - pct in
     if gap \<le> Fin 0 then Some (0, True)
     else let quantity = float_floor (fdiv (avg * gap) (Fin 100)) in
       if rnd (2 ^ 63 - 1) \<le> quantity then None else Some (to_i64 ovf quantity, False))"

definition targetCoverageRICount :: "int \<Rightarrow> Recommendation \<Rightarrow> float64 \<Rightarrow> (int \<times> bool) option" where
  "targetCoverageRICount ovf rec t =
    (case r_ExistingCoveragePercentExact rec of
       Some exact \<Rightarrow> if feq (rnd exact) (r_ExistingCoveragePct rec)
         then exact_count exact (r_AverageInstancesUsedPerHour rec) t
         else float_count ovf (r_ExistingCoveragePct rec) (r_AverageInstancesUsedPerHour rec) t
     | None \<Rightarrow> float_count ovf (r_ExistingCoveragePct rec) (r_AverageInstancesUsedPerHour rec) t)"

definition capped :: "float64 \<Rightarrow> float64" where
  "capped x = (if Fin 100 < x then Fin 100 else x)"

text \<open>The result, \<open>ok\<close> and the drop reason; an empty reason with \<open>ok = false\<close> is "no signal".\<close>

definition applyTargetCoverageRI :: "int \<Rightarrow> Recommendation \<Rightarrow> float64 \<Rightarrow> Recommendation \<times> bool \<times> go_string" where
  "applyTargetCoverageRI ovf rec t =
    (if \<not> targetCoverageInputsValid rec t then (rec, False, DropTargetInputInvalid)
     else if r_AverageInstancesUsedPerHour rec \<le> Fin 0 then (rec, False, [])
     else if \<not> r_ExistingCoverageKnown rec then (rec, False, DropTargetCoverageUnknown)
     else let avg = r_AverageInstancesUsedPerHour rec in
       case targetCoverageRICount ovf rec t of
         None \<Rightarrow> (rec, False, DropTargetInputInvalid)
       | Some (nTarget, alreadyMet) \<Rightarrow>
           if alreadyMet then (rec, False, DropTargetAlreadyMet)
           else if nTarget = 0 then (rec, False, DropTargetSizedToZero)
           else if r_Count rec \<le> 0 then (rec, False, DropTargetInputInvalid)
           else let adjusted = (ScaleRecommendationCosts rec (fdiv (float_of_int nTarget) (float_of_int (r_Count rec))))\<lparr>r_Count := nTarget\<rparr>;
                    projUtil = capped (fdiv avg (float_of_int nTarget) * Fin 100);
                    projCov = capped (r_ExistingCoveragePct rec + fdiv (float_of_int nTarget) avg * Fin 100) in
             (adjusted\<lparr>r_ProjectedUtilization := projUtil, r_ProjectedCoverage := projCov\<rparr>, True, []))"

definition applyTargetCoverageSP :: "Recommendation \<Rightarrow> float64 \<Rightarrow> Recommendation \<times> bool" where
  "applyTargetCoverageSP rec t =
    (if r_RecommendedUtilization rec \<le> Fin 0 then (rec, False)
     else case sp_details rec of
       None \<Rightarrow> (rec, True)
     | Some details \<Rightarrow>
         if pd_HourlyCommitment details \<le> Fin 0 then (rec, False)
         else let ratio = fdiv t (Fin 100); adjusted = ScaleRecommendationCosts rec ratio;
                  projUtil = capped (fdiv (r_RecommendedUtilization rec) ratio) in
           (adjusted\<lparr>r_ProjectedUtilization := projUtil\<rparr>, True))"

text \<open>\<open>(result, kept, missingSignal, drop)\<close>.\<close>

definition applyTargetCoverageOne :: "int \<Rightarrow> Recommendation \<Rightarrow> float64 \<Rightarrow> Recommendation \<times> bool \<times> bool \<times> go_string" where
  "applyTargetCoverageOne ovf rec t =
    (if IsSavingsPlan (r_Service rec) then
       if \<not> isFiniteTarget t then (rec, True, False, [])
       else (case applyTargetCoverageSP rec t of (adjusted, ok) \<Rightarrow>
         if \<not> ok then (rec, True, True, []) else (adjusted, True, False, []))
     else if r_CommitmentType rec = CommitmentReservedInstance then
       (case applyTargetCoverageRI ovf rec t of (adjusted, ok, dropReason) \<Rightarrow>
         if \<not> ok then if dropReason = [] then (rec, True, True, []) else (rec, False, False, dropReason)
         else (adjusted, True, False, []))
     else (rec, True, False, []))"

fun target_loop :: "int \<Rightarrow> float64 \<Rightarrow> Recommendation list \<Rightarrow> Recommendation list \<Rightarrow> DropSummary \<Rightarrow> Recommendation list \<times> DropSummary" where
  "target_loop ovf t [] result drops = (result, drops)"
| "target_loop ovf t (r # recs) result drops =
    (case applyTargetCoverageOne ovf r t of (adjusted, kept, missing, dropReason) \<Rightarrow>
       if kept then target_loop ovf t recs (result @ [adjusted]) drops
       else if dropReason \<noteq> [] then target_loop ovf t recs result (drop_add drops dropReason 1)
       else target_loop ovf t recs result drops)"

definition ApplyTargetCoverage :: "int \<Rightarrow> Recommendation list \<Rightarrow> float64 \<Rightarrow> DropSummary \<Rightarrow> Recommendation list \<times> DropSummary" where
  "ApplyTargetCoverage ovf recs t drops =
    (if finiteTargetOutOfRange t then (recs, drops) else target_loop ovf t recs [] drops)"


section \<open>Every recommendation is kept or counted\<close>

text \<open>
  A stage maps recommendations to what it keeps and a tally. The contract: the tally grows by
  the number of recommendations not kept.
\<close>

locale counted_stage =
  fixes stage :: "Recommendation list \<Rightarrow> DropSummary \<Rightarrow> Recommendation list \<times> DropSummary"
  assumes counted: "\<exists>m'. snd (stage recs (Some m)) = Some m' \<and>
      DropSummary_Total (Some m') = DropSummary_Total (Some m) + (int (length recs) - int (length (fst (stage recs (Some m)))))"
begin

lemma total_after:
  "DropSummary_Total (snd (stage recs (Some m))) = DropSummary_Total (Some m) + (int (length recs) - int (length (fst (stage recs (Some m)))))"
  using counted [of recs m] by auto

text \<open>Two stages in sequence account for everything between the input and the final output.\<close>

lemma chained:
  assumes "counted_stage stage'"
  shows "counted_stage (\<lambda>recs d. stage' (fst (stage recs d)) (snd (stage recs d)))"
proof
  fix recs :: "Recommendation list" and m :: "(go_string, int) go_map"
  show "\<exists>m'. snd (stage' (fst (stage recs (Some m))) (snd (stage recs (Some m)))) = Some m' \<and>
      DropSummary_Total (Some m') = DropSummary_Total (Some m)
        + (int (length recs) - int (length (fst (stage' (fst (stage recs (Some m))) (snd (stage recs (Some m)))))))"
    using counted [of recs m] counted_stage.counted [OF assms] by (metis (no_types, opaque_lifting) add.assoc add_diff_eq diff_add_cancel)
qed

end

lemma pool_loop_counted:
  "\<exists>m'. snd (pool_loop f recs kept (Some m)) = Some m' \<and>
     DropSummary_Total (Some m') = DropSummary_Total (Some m) + (int (length kept + length recs) - int (length (fst (pool_loop f recs kept (Some m)))))"
proof (induction recs arbitrary: kept m)
  case Nil
  then show ?case by simp
next
  case (Cons r recs)
  obtain m1 where "drop_add (Some m) DropMinPoolSize 1 = Some m1" using drop_add_Some by blast
  moreover from this have "DropSummary_Total (Some m1) = DropSummary_Total (Some m) + 1"
    using drop_add_total [of m DropMinPoolSize 1] by simp
  ultimately show ?case using Cons.IH [of "kept @ [r]" m] Cons.IH [of kept m1] by auto
qed

lemma coverage_loop_counted:
  "\<exists>m'. snd (coverage_loop ovf ratio recs kept (Some m)) = Some m' \<and>
     DropSummary_Total (Some m') = DropSummary_Total (Some m)
       + (int (length kept + length recs) - int (length (fst (coverage_loop ovf ratio recs kept (Some m)))))"
proof (induction recs arbitrary: kept m)
  case Nil
  then show ?case by simp
next
  case (Cons r recs)
  obtain m1 where "drop_add (Some m) DropCoverageSizedToZero 1 = Some m1" using drop_add_Some by blast
  moreover from this have "DropSummary_Total (Some m1) = DropSummary_Total (Some m) + 1"
    using drop_add_total [of m DropCoverageSizedToZero 1] by simp
  ultimately show ?case
    using Cons.IH [of "kept @ [a]" m for a] Cons.IH [of kept m1] by (cases "coverage_one ovf ratio r") auto
qed

lemma target_one_reason: "applyTargetCoverageOne ovf rec t = (a, False, ms, reason) \<Longrightarrow> reason \<noteq> []"
  by (auto simp: applyTargetCoverageOne_def split: if_splits prod.splits)

lemma target_loop_counted:
  "\<exists>m'. snd (target_loop ovf t recs kept (Some m)) = Some m' \<and>
     DropSummary_Total (Some m') = DropSummary_Total (Some m)
       + (int (length kept + length recs) - int (length (fst (target_loop ovf t recs kept (Some m)))))"
proof (induction recs arbitrary: kept m)
  case Nil
  then show ?case by simp
next
  case (Cons r recs)
  obtain a k ms reason where o: "applyTargetCoverageOne ovf r t = (a, k, ms, reason)" using prod_cases4 by blast
  show ?case
  proof (cases k)
    case True
    then show ?thesis using Cons.IH [of "kept @ [a]" m] o by auto
  next
    case False
    then have "reason \<noteq> []" using o target_one_reason by simp
    obtain m1 where "drop_add (Some m) reason 1 = Some m1" using drop_add_Some by blast
    moreover from this have "DropSummary_Total (Some m1) = DropSummary_Total (Some m) + 1"
      using drop_add_total [of m reason 1] by simp
    ultimately show ?thesis using Cons.IH [of kept m1] o False \<open>reason \<noteq> []\<close> by auto
  qed
qed

interpretation pool: counted_stage "ApplyMinPoolSize f"
proof
  fix recs :: "Recommendation list" and m :: "(go_string, int) go_map"
  show "\<exists>m'. snd (ApplyMinPoolSize f recs (Some m)) = Some m' \<and> DropSummary_Total (Some m')
      = DropSummary_Total (Some m) + (int (length recs) - int (length (fst (ApplyMinPoolSize f recs (Some m)))))"
    using pool_loop_counted [of f recs "[]" m] by (auto simp: ApplyMinPoolSize_def)
qed

interpretation coverage: counted_stage "\<lambda>recs. ApplyCoverage ovf recs pct"
proof
  fix recs :: "Recommendation list" and m :: "(go_string, int) go_map"
  obtain m1 where "drop_add (Some m) DropCoverageSizedToZero (length recs) = Some m1" using drop_add_Some by blast
  then show "\<exists>m'. snd (ApplyCoverage ovf recs pct (Some m)) = Some m' \<and> DropSummary_Total (Some m')
      = DropSummary_Total (Some m) + (int (length recs) - int (length (fst (ApplyCoverage ovf recs pct (Some m)))))"
    using coverage_loop_counted [of ovf "fdiv pct (Fin 100)" recs "[]" m]
      drop_add_total [of m DropCoverageSizedToZero "length recs"] by (auto simp: ApplyCoverage_def)
qed

interpretation target: counted_stage "\<lambda>recs. ApplyTargetCoverage ovf recs t"
proof
  fix recs :: "Recommendation list" and m :: "(go_string, int) go_map"
  show "\<exists>m'. snd (ApplyTargetCoverage ovf recs t (Some m)) = Some m' \<and> DropSummary_Total (Some m')
      = DropSummary_Total (Some m) + (int (length recs) - int (length (fst (ApplyTargetCoverage ovf recs t (Some m)))))"
    using target_loop_counted [of ovf t recs "[]" m] by (auto simp: ApplyTargetCoverage_def)
qed


section \<open>Target coverage is a ceiling\<close>

lemma quo_floor: "0 \<le> q \<Longrightarrow> go_quo (fst (quotient_of q)) (snd (quotient_of q)) = \<lfloor>q\<rfloor>"
proof -
  assume q: "0 \<le> q"
  obtain n d where nd: "quotient_of q = (n, d)" by fastforce
  then have d: "0 < d" "q = of_int n / of_int d" using quotient_of_denom_pos quotient_of_div by auto
  then have "0 \<le> n" using q by (simp add: zero_le_divide_iff)
  then show ?thesis using nd d by (simp add: rat_floor_code)
qed

lemma exact_count_cases:
  assumes "0 \<le> x" and "0 < a"
  shows "exact_count x (Fin a) (Fin tp) =
    (if tp \<le> x then Some (0, True)
     else if (2 :: int) ^ 63 \<le> \<lfloor>(tp - x) * a / 100\<rfloor> then None else Some (\<lfloor>(tp - x) * a / 100\<rfloor>, False))"
proof (cases "tp \<le> x")
  case True
  then show ?thesis using assms by (simp add: exact_count_def)
next
  case False
  then have "0 \<le> (tp - x) * a / 100" using assms by simp
  then show ?thesis using assms False by (simp add: exact_count_def Let_def quo_floor)
qed

text \<open>
  The exact path. It is taken when the expiry of existing commitments left an exact coverage behind that still rounds to the
  one shown.
\<close>

lemma ri_exact_outcome:
  assumes "r_ExistingCoveragePercentExact rec = Some x" and "0 \<le> x" and "rnd x = Fin pct"
    and "r_ExistingCoveragePct rec = Fin pct" and "r_AverageInstancesUsedPerHour rec = Fin a" and "0 < a"
  shows "targetCoverageRICount ovf rec (Fin tp) = (if tp \<le> x then Some (0, True)
     else let n = \<lfloor>(tp - x) * a / 100\<rfloor> in if 2 ^ 63 \<le> n then None else Some (n, False))"
  using assms exact_count_cases [OF assms(2,6), of tp] by (simp add: targetCoverageRICount_def Let_def)

text \<open>
  The \<open>float64\<close> path, everywhere else: three roundings, each within \<open>2\<close> to the \<open>-53\<close> of its argument.
\<close>

lemma round_rat_rel:
  assumes "1 / 2 ^ 1022 \<le> r"
  shows "r * (1 - 1 / 2 ^ 53) \<le> round_rat r \<and> round_rat r \<le> r * (1 + 1 / 2 ^ 53)"
proof -
  have r: "0 < r" using assms by (rule less_le_trans [rotated]) simp
  have "(2 :: rat) powi (- 1022) \<le> r" using assms by (simp add: power_int_minus field_simps)
  then have "(2 :: rat) powi (- 1022) < 2 powi (ilog2 r + 1)" using ilog2_bounds [OF r] by linarith
  then have "- 1022 < ilog2 r + 1" by (simp only: powi2_less_iff)
  then have e: "ulp_exp r = ilog2 r - 52" using r by (simp add: ulp_exp_def)
  let ?U = "(2 :: rat) powi ulp_exp r"
  have "?U * 2 ^ 52 = 2 powi ilog2 r" using powi2_add [of "ulp_exp r" 52] by (simp add: e)
  then have U: "?U * 2 ^ 52 \<le> r" using ilog2_bounds [OF r] by simp
  have "round_rat r - r = (of_int (round_even (r / ?U)) - r / ?U) * ?U" using r by (simp add: round_rat_def left_diff_distrib)
  then have "\<bar>round_rat r - r\<bar> = \<bar>of_int (round_even (r / ?U)) - r / ?U\<bar> * ?U" by (simp add: abs_mult)
  also have "\<dots> \<le> 1 / 2 * ?U" by (rule mult_right_mono [OF round_even_err]) (simp add: less_imp_le)
  finally have "\<bar>round_rat r - r\<bar> \<le> r / 2 ^ 53" using U by simp
  then have "round_rat r - r \<le> r / 2 ^ 53" "- (round_rat r - r) \<le> r / 2 ^ 53" by linarith+
  then show ?thesis by (simp add: right_diff_distrib distrib_left)
qed

definition float_quantity :: "rat \<Rightarrow> rat \<Rightarrow> rat" where
  "float_quantity a d = round_rat (round_rat (a * round_rat d) / 100)"

lemma float_quantity_close:
  assumes d: "1 / 2 ^ 1022 \<le> d" and a: "0 < a" and big: "1 / 2 ^ 1000 \<le> a * d"
  shows "a * d / 100 * (1 - 1 / 2 ^ 51) \<le> float_quantity a d \<and> float_quantity a d \<le> a * d / 100 * (1 + 1 / 2 ^ 51)"
proof -
  let ?u = "1 / 2 ^ 53 :: rat" and ?g = "round_rat d"
  have lo: "(1 - ?u) ^ 3 \<ge> 1 - 1 / 2 ^ 51" and hi: "(1 + ?u) ^ 3 \<le> 1 + 1 / 2 ^ 51" by (simp_all add: power3_eq_cube field_simps)
  have half: "1 / 2 \<le> 1 - ?u" by simp
  have ad: "0 < a * d" by (rule less_le_trans [OF _ big]) simp
  from round_rat_rel [OF d] have g: "a * d * (1 - ?u) \<le> a * ?g" "a * ?g \<le> a * d * (1 + ?u)"
    using a mult_left_mono [of "d * (1 - ?u)" ?g a] mult_left_mono [of ?g "d * (1 + ?u)" a] by (simp_all add: mult.assoc)
  have "1 / 2 ^ 1000 * (1 / 2) \<le> a * d * (1 - ?u)" using mult_mono [OF big half] ad by simp
  then have n1: "1 / 2 ^ 1001 \<le> a * ?g" using g(1) by simp
  let ?v = "round_rat (a * ?g)"
  have "1 / 2 ^ 1022 \<le> a * ?g" using n1 by (rule order_trans [rotated]) simp
  from round_rat_rel [OF this] have v: "a * ?g * (1 - ?u) \<le> ?v" "?v \<le> a * ?g * (1 + ?u)" by simp_all
  have v': "a * d * (1 - ?u) * (1 - ?u) \<le> ?v" "?v \<le> a * d * (1 + ?u) * (1 + ?u)"
    using mult_right_mono [OF g(1), of "1 - ?u"] mult_right_mono [OF g(2), of "1 + ?u"] v by simp_all
  have "1 / 2 ^ 1001 * (1 / 2) \<le> a * ?g * (1 - ?u)" using n1 half by (intro mult_mono) auto
  then have "1 / 2 ^ 1002 \<le> ?v" using v(1) by simp
  then have "1 / 2 ^ 1022 \<le> ?v / 100" by (simp add: field_simps)
  from round_rat_rel [OF this] have q: "?v / 100 * (1 - ?u) \<le> float_quantity a d" "float_quantity a d \<le> ?v / 100 * (1 + ?u)"
    by (simp_all add: float_quantity_def)
  have "a * d / 100 * (1 - ?u) ^ 3 \<le> ?v / 100 * (1 - ?u)"
    using mult_right_mono [OF v'(1), of "(1 - ?u) / 100"] by (simp add: power3_eq_cube mult.assoc)
  moreover have "?v / 100 * (1 + ?u) \<le> a * d / 100 * (1 + ?u) ^ 3"
    using mult_right_mono [OF v'(2), of "(1 + ?u) / 100"] by (simp add: power3_eq_cube mult.assoc)
  moreover have "a * d / 100 * (1 - 1 / 2 ^ 51) \<le> a * d / 100 * (1 - ?u) ^ 3" using lo ad by (intro mult_left_mono) simp_all
  moreover have "a * d / 100 * (1 + ?u) ^ 3 \<le> a * d / 100 * (1 + 1 / 2 ^ 51)" using hi ad by (intro mult_left_mono) simp_all
  ultimately show ?thesis using q by linarith
qed

lemma float_quantity_small:
  assumes d: "1 / 2 ^ 1022 \<le> d" and a: "0 < a" and small: "a * d < 1 / 2 ^ 1000"
  shows "float_quantity a d < 1 \<and> a * d / 100 < 1"
proof -
  have d0: "0 < d" using d by (rule less_le_trans [rotated]) simp
  have "round_rat d \<le> d * 2" using round_rat_rel [OF d] d0 mult_left_mono [of "1 + 1 / 2 ^ 53" 2 d] by simp
  then have "a * round_rat d \<le> a * (d * 2)" using a by (intro mult_left_mono) simp_all
  also have "\<dots> \<le> 1" using small by (simp add: field_simps)
  finally have "round_rat (a * round_rat d) \<le> 1" using round_rat_mono round_rat_of_int [of 1] by fastforce
  then have "float_quantity a d \<le> round_rat (1 / 2)" unfolding float_quantity_def by (intro round_rat_mono) simp
  also have "\<dots> = 1 / 2" using rnd_half rnd_Fin_iff by metis
  finally have "float_quantity a d < 1" by simp
  moreover have "a * d / 100 < 1"
  proof -
    have "a * d < 1" using small by (rule less_le_trans) simp
    then show ?thesis by simp
  qed
  ultimately show ?thesis by simp
qed

lemma rnd_max_int: "rnd (2 ^ 63 - 1) = Fin (2 ^ 63)"
proof -
  have "ilog2 (2 ^ 63 - 1) = 62" by (rule ilog2_unique) (simp_all add: power_int_def)
  then have e: "ulp_exp 9223372036854775807 = 10" by (simp add: ulp_exp_def)
  have "\<lfloor>(2 ^ 63 - 1) / 1024 :: rat\<rfloor> = 2 ^ 53 - 1" by (simp add: floor_eq_iff)
  then have "round_even ((2 ^ 63 - 1) / 1024) = 2 ^ 53" by (simp add: round_even_def Let_def)
  then show ?thesis by (simp add: rnd_Fin_iff round_rat_def e power_int_def)
qed

lemma round_rat_finite: "0 \<le> r \<Longrightarrow> r \<le> 2 ^ 1022 \<Longrightarrow> rnd r = Fin (round_rat r)"
proof -
  assume r: "0 \<le> r" "r \<le> 2 ^ 1022"
  have p: "(2 :: rat) ^ 1022 = of_int (2 ^ 52) * 2 powi 970" by simp
  have "rnd (2 ^ 1022) = Fin (2 ^ 1022)" unfolding p by (rule rnd_dyadic) simp_all
  then have "round_rat (2 ^ 1022) = 2 ^ 1022" unfolding rnd_Fin_iff by (rule conjunct1 [THEN sym])
  then have "round_rat r \<le> 2 ^ 1022" using round_rat_mono [OF r(2)] by simp
  moreover have "(2 :: rat) ^ 1022 < 2 ^ 1024" by simp
  ultimately have "round_rat r < 2 ^ 1024" by linarith
  then show ?thesis using round_rat_nonneg [OF r(1)] by (simp add: rnd_Fin_iff)
qed

lemma float_count_cases:
  assumes p: "0 \<le> p" and a: "0 < a" and t: "tp \<le> 100" and gap: "tp \<le> p \<or> 1 / 2 ^ 1022 \<le> tp - p"
  shows "float_count ovf (Fin p) (Fin a) (Fin tp) = (if tp \<le> p then Some (0, True)
     else let n = \<lfloor>float_quantity a (tp - p)\<rfloor> in if 2 ^ 63 \<le> n then None else Some (n, False))"
proof (cases "tp \<le> p")
  case True
  then have "round_rat (tp - p) \<le> 0" using round_rat_mono [of "tp - p" 0] by simp
  then have "Fin tp - Fin p \<le> Fin 0" by (simp add: minus_float64_def rnd_def Let_def)
  then show ?thesis using True by (simp add: float_count_def Let_def)
next
  case False
  with gap have d: "1 / 2 ^ 1022 \<le> tp - p" by simp
  let ?d = "tp - p"
  have "?d \<le> 100" "0 \<le> ?d" using p t False by simp_all
  moreover have "(100 :: rat) \<le> 2 ^ 1022" by simp
  ultimately have g: "Fin tp - Fin p = Fin (round_rat ?d)" by (simp add: minus_float64_def round_rat_finite)
  have "0 < ?d * (1 - 1 / 2 ^ 53)" using False by simp
  then have g0: "0 < round_rat ?d" using round_rat_rel [OF d] by linarith
  have gap0: "\<not> Fin tp - Fin p \<le> Fin 0" using g0 by (simp add: g)
  let ?v = "round_rat (a * round_rat ?d)"
  have v0: "0 \<le> ?v" using a g0 by (intro round_rat_nonneg) simp
  show ?thesis
  proof (cases "?v < 2 ^ 1024")
    case True
    have v: "Fin a * Fin (round_rat ?d) = Fin ?v" using True v0 by (simp add: rnd_Fin_iff)
    have "?v / 100 \<le> 2 ^ 1022" using True by simp
    then have "fdiv (Fin ?v) (Fin 100) = Fin (float_quantity a ?d)"
      using v0 by (simp add: float_quantity_def round_rat_finite)
    then have q: "float_floor (fdiv (Fin a * (Fin tp - Fin p)) (Fin 100)) = Fin (of_int \<lfloor>float_quantity a ?d\<rfloor>)" by (simp only: g v float_floor.simps)
    have "0 \<le> float_quantity a ?d" unfolding float_quantity_def using v0 by (intro round_rat_nonneg) simp
    moreover have "rnd (2 ^ 63 - 1) \<le> Fin (of_int n) \<longleftrightarrow> 2 ^ 63 \<le> n" for n
    proof -
      have "(2 ^ 63 :: rat) \<le> of_int n \<longleftrightarrow> (of_int (2 ^ 63) :: rat) \<le> of_int n" by simp
      then show ?thesis unfolding rnd_max_int less_eq_float64.simps by (simp only: of_int_le_iff)
    qed
    moreover have "to_i64 ovf (Fin (of_int n)) = n" if "0 \<le> n" "\<not> 2 ^ 63 \<le> n" for n using that by (simp add: is_i64_def trunc_rat_def)
    ultimately show ?thesis using False gap0 unfolding float_count_def Let_def q by simp
  next
    case big: False
    then have v: "Fin a * Fin (round_rat ?d) = PInf" by (simp add: rnd_def Let_def)
    then have q: "float_floor (fdiv (Fin a * (Fin tp - Fin p)) (Fin 100)) = PInf" by (simp add: g)
    have "round_rat (2 ^ 63) = 2 ^ 63" using rnd_max_int rnd_Fin_round by blast
    moreover have "(2 ^ 63 :: rat) \<le> ?v / 100"
    proof -
      have "(2 ^ 63 :: rat) * 100 \<le> 2 ^ 1024" by simp
      with big show ?thesis by simp
    qed
    ultimately have "2 ^ 63 \<le> float_quantity a ?d" unfolding float_quantity_def using round_rat_mono [of "2 ^ 63" "?v / 100"] by simp
    then have "2 ^ 63 \<le> \<lfloor>float_quantity a ?d\<rfloor>" by (simp add: le_floor_iff)
    moreover have "rnd (2 ^ 63 - 1) \<le> PInf" unfolding rnd_max_int by simp
    ultimately show ?thesis using False gap0 unfolding float_count_def Let_def q by (simp only: if_True if_False)
  qed
qed


lemma feq_Fin: "feq u (Fin v) \<longleftrightarrow> u = Fin v"
  by (cases u) auto

lemma ri_count_outcome:
  assumes "r_ExistingCoveragePct rec = Fin p" and "0 \<le> p" and "r_AverageInstancesUsedPerHour rec = Fin a" and "0 < a"
    and "r_ExistingCoverageKnown rec" and "0 < r_Count rec"
    and "applyTargetCoverageRI ovf rec (Fin tp) = (sized, ok, reason)"
    and count: "targetCoverageRICount ovf rec (Fin tp) = (if tp \<le> x then Some (0, True)
      else let n = \<lfloor>q\<rfloor> in if 2 ^ 63 \<le> n then None else Some (n, False))" and q: "x < tp \<Longrightarrow> 0 \<le> q"
  shows "if ok then x < tp \<and> r_Count sized = \<lfloor>q\<rfloor> \<and> 1 \<le> q \<and> \<lfloor>q\<rfloor> < 2 ^ 63
    else sized = rec \<and> (tp \<le> x \<and> reason = DropTargetAlreadyMet \<or> x < tp \<and> q < 1 \<and> reason = DropTargetSizedToZero
      \<or> x < tp \<and> 2 ^ 63 \<le> q \<and> reason = DropTargetInputInvalid)"
proof -
  have valid: "targetCoverageInputsValid rec (Fin tp)" "\<not> r_AverageInstancesUsedPerHour rec \<le> Fin 0"
    using assms(1-4) by (simp_all add: targetCoverageInputsValid_def)
  note run = assms(7) [unfolded applyTargetCoverageRI_def, simplified valid assms(5) if_True if_False not_True_eq_False not_False_eq_True]
  consider (met) "tp \<le> x" | (big) "x < tp" "2 ^ 63 \<le> \<lfloor>q\<rfloor>" | (zero) "x < tp" "\<lfloor>q\<rfloor> = 0" | (some) "x < tp" "0 < \<lfloor>q\<rfloor>" "\<lfloor>q\<rfloor> < 2 ^ 63"
    using q by (metis linorder_not_le zero_le_floor order_le_less)
  then show ?thesis
  proof cases
    case met
    with count have "targetCoverageRICount ovf rec (Fin tp) = Some (0, True)" by simp
    then show ?thesis using run met by simp
  next
    case big
    then have "targetCoverageRICount ovf rec (Fin tp) = None" unfolding count Let_def by simp
    moreover have "2 ^ 63 \<le> q" using big(2) by (simp add: le_floor_iff)
    ultimately show ?thesis using run big(1) by simp
  next
    case zero
    then have "targetCoverageRICount ovf rec (Fin tp) = Some (0, False)" unfolding count Let_def by simp
    moreover have "q < 1" using zero(2) by (simp add: floor_eq_iff)
    ultimately show ?thesis using run zero(1) by simp
  next
    case some
    then have "targetCoverageRICount ovf rec (Fin tp) = Some (\<lfloor>q\<rfloor>, False)" unfolding count Let_def by simp
    moreover have "1 \<le> q" using some(2) by simp
    ultimately show ?thesis using run some assms(6) by (auto simp: Let_def)
  qed
qed

text \<open>
  The coverage a recommendation is sized against, and the part of the gap that rounding may add or take: none on the exact path,
  less than one part in \<open>2\<close> to the \<open>51\<close> elsewhere.
\<close>

definition sized_against :: "Recommendation \<Rightarrow> rat \<Rightarrow> rat \<times> rat" where
  "sized_against rec p = (case r_ExistingCoveragePercentExact rec of
     Some x \<Rightarrow> if rnd x = Fin p then (x, 0) else (p, 1 / 2 ^ 51) | None \<Rightarrow> (p, 1 / 2 ^ 51))"

text \<open>C23. The target is a ceiling. A reserved-instance recommendation with known coverage and demand is sized to the largest
  count whose coverage, together with the existing coverage, does not exceed the target, so that one instance more would: exactly
  so when the exact coverage is at hand, and otherwise in \<open>float64\<close> arithmetic, where rounding may move the ceiling by less than
  one part in \<open>2\<close> to the \<open>51\<close> of the gap. When that count is zero, or the target is already met, or the count does not fit an
  \<open>int\<close>, the recommendation is dropped under the reason that says so, and never kept at the provider's own count.\<close>

theorem target_coverage_is_ceiling:
  assumes "r_ExistingCoveragePct rec = Fin p" and "0 \<le> p" and "r_AverageInstancesUsedPerHour rec = Fin a" and "0 < a"
    and "r_ExistingCoverageKnown rec" and "0 < r_Count rec" and "tp \<le> 100"
    and "sized_against rec p = (x, e)" and "0 \<le> x" and "e = 0 \<or> tp \<le> x \<or> 1 / 2 ^ 1022 \<le> tp - x"
    and "applyTargetCoverageRI ovf rec (Fin tp) = (sized, ok, reason)"
  shows "if ok then 1 \<le> r_Count sized \<and> r_Count sized < 2 ^ 63
       \<and> x + of_int (r_Count sized) / a * 100 \<le> tp + e * (tp - x) \<and> tp - e * (tp - x) < x + of_int (r_Count sized + 1) / a * 100
     else sized = rec \<and> ((tp \<le> x \<and> reason = DropTargetAlreadyMet)
       \<or> (x < tp \<and> tp - e * (tp - x) < x + 1 / a * 100 \<and> reason = DropTargetSizedToZero)
       \<or> (x < tp \<and> x + 2 ^ 63 / a * 100 \<le> tp + e * (tp - x) \<and> reason = DropTargetInputInvalid))"
proof -
  let ?Q = "a * (tp - x) / 100"
  obtain q where count: "targetCoverageRICount ovf rec (Fin tp) = (if tp \<le> x then Some (0, True)
      else let n = \<lfloor>q\<rfloor> in if 2 ^ 63 \<le> n then None else Some (n, False))"
    and close: "x < tp \<Longrightarrow> 0 \<le> q \<and> (1 \<le> q \<longrightarrow> q \<le> ?Q * (1 + e) \<and> ?Q * (1 - e) \<le> q) \<and> (q < 1 \<longrightarrow> ?Q * (1 - e) < 1)"
  proof (cases "\<exists>y. r_ExistingCoveragePercentExact rec = Some y \<and> rnd y = Fin p")
    case True
    then have ex: "r_ExistingCoveragePercentExact rec = Some x" "rnd x = Fin p" "e = 0" using assms(8) by (auto simp: sized_against_def)
    show ?thesis
    proof (rule that)
      show "targetCoverageRICount ovf rec (Fin tp) = (if tp \<le> x then Some (0, True)
          else let n = \<lfloor>(tp - x) * a / 100\<rfloor> in if 2 ^ 63 \<le> n then None else Some (n, False))"
        by (rule ri_exact_outcome [OF ex(1) assms(9) ex(2) assms(1,3,4)])
    qed (use assms(4) ex(3) in \<open>simp add: mult.commute\<close>)
  next
    case False
    then have ex: "x = p" "e = 1 / 2 ^ 51" "targetCoverageRICount ovf rec (Fin tp) = float_count ovf (Fin p) (Fin a) (Fin tp)"
      using assms(1,3,8) by (auto simp: sized_against_def targetCoverageRICount_def feq_Fin split: option.splits if_splits)
    have gap: "tp \<le> p \<or> 1 / 2 ^ 1022 \<le> tp - p" using assms(10) ex(1,2) by simp
    show ?thesis
    proof (rule that)
      show "targetCoverageRICount ovf rec (Fin tp) = (if tp \<le> x then Some (0, True)
          else let n = \<lfloor>float_quantity a (tp - p)\<rfloor> in if 2 ^ 63 \<le> n then None else Some (n, False))"
        unfolding ex(1,3) by (rule float_count_cases [OF assms(2,4,7) gap])
      assume t: "x < tp"
      with gap ex(1) have d: "1 / 2 ^ 1022 \<le> tp - p" by simp
      have "0 \<le> float_quantity a (tp - p)" unfolding float_quantity_def
        using t ex(1) assms(4) by (intro round_rat_nonneg divide_nonneg_nonneg mult_nonneg_nonneg) simp_all
      moreover have "a * (tp - p) / 100 * (1 - 1 / 2 ^ 51) < 1" if "a * (tp - p) / 100 < 1"
      proof -
        have "a * (tp - p) / 100 * (1 - 1 / 2 ^ 51) \<le> a * (tp - p) / 100" using t ex(1) assms(4) by (intro mult_left_le) simp_all
        with that show ?thesis by linarith
      qed
      ultimately show "0 \<le> float_quantity a (tp - p) \<and> (1 \<le> float_quantity a (tp - p) \<longrightarrow> float_quantity a (tp - p) \<le> ?Q * (1 + e)
          \<and> ?Q * (1 - e) \<le> float_quantity a (tp - p)) \<and> (float_quantity a (tp - p) < 1 \<longrightarrow> ?Q * (1 - e) < 1)"
        using float_quantity_close [OF d assms(4)] float_quantity_small [OF d assms(4)] unfolding ex(1,2) by linarith
    qed
  qed
  have scale: "x + c / a * 100 \<le> tp + e * (tp - x) \<longleftrightarrow> c \<le> ?Q * (1 + e)" "tp - e * (tp - x) < x + c / a * 100 \<longleftrightarrow> ?Q * (1 - e) < c" for c
    using assms(4) by (simp_all add: field_simps)
  from ri_count_outcome [OF assms(1-6,11) count] close
  have out: "if ok then x < tp \<and> r_Count sized = \<lfloor>q\<rfloor> \<and> 1 \<le> q \<and> \<lfloor>q\<rfloor> < 2 ^ 63
    else sized = rec \<and> (tp \<le> x \<and> reason = DropTargetAlreadyMet \<or> x < tp \<and> q < 1 \<and> reason = DropTargetSizedToZero
      \<or> x < tp \<and> 2 ^ 63 \<le> q \<and> reason = DropTargetInputInvalid)" by blast
  show ?thesis
  proof (cases ok)
    case True
    with out close have "1 \<le> q" "q \<le> ?Q * (1 + e)" "?Q * (1 - e) \<le> q" by auto
    moreover have "of_int \<lfloor>q\<rfloor> \<le> q" "q < of_int (\<lfloor>q\<rfloor> + 1)" by linarith+
    ultimately have "of_int \<lfloor>q\<rfloor> \<le> ?Q * (1 + e)" "?Q * (1 - e) < of_int (\<lfloor>q\<rfloor> + 1)" "1 \<le> \<lfloor>q\<rfloor>" by (linarith, linarith, simp)
    with True out show ?thesis unfolding scale by simp
  next
    case False
    with out close show ?thesis unfolding scale by (auto intro: order_trans)
  qed
qed

definition sizing_demo :: Recommendation where
  "sizing_demo = zero_rec\<lparr>r_Provider := AWS, r_Service := ServiceRDS, r_CommitmentType := CommitmentReservedInstance,
     r_Count := 8, r_AverageInstancesUsedPerHour := Fin 10, r_ExistingCoveragePct := Fin 50,
     r_ExistingCoveragePercentExact := Some 50, r_ExistingCoverageKnown := True\<rparr>"

theorem target_coverage_is_ceiling_witness:
  "\<exists>s1 s2. applyTargetCoverageRI 0 sizing_demo (Fin 85) = (s1, True, []) \<and> r_Count s1 = 3
     \<and> applyTargetCoverageRI 0 (sizing_demo\<lparr>r_ExistingCoveragePercentExact := None\<rparr>) (Fin 85) = (s2, True, []) \<and> r_Count s2 = 3"
proof -
  have one: "\<exists>s. applyTargetCoverageRI 0 rec (Fin 85) = (s, True, []) \<and> r_Count s = 3"
    if rec: "rec = sizing_demo \<or> rec = sizing_demo\<lparr>r_ExistingCoveragePercentExact := None\<rparr>" for rec
  proof -
    obtain s ok r where run: "applyTargetCoverageRI 0 rec (Fin 85) = (s, ok, r)" using prod_cases3 by blast
    have h: "r_ExistingCoveragePct rec = Fin 50" "r_AverageInstancesUsedPerHour rec = Fin 10" "r_ExistingCoverageKnown rec" "0 < r_Count rec"
      using rec by (auto simp: sizing_demo_def)
    obtain e :: rat where e: "sized_against rec 50 = (50, e)" "0 \<le> e" "e \<le> 1 / 2 ^ 51"
    proof (cases "rec = sizing_demo")
      case True
      then show ?thesis using that [of 0] by (simp add: sized_against_def sizing_demo_def)
    next
      case False
      with rec show ?thesis using that [of "1 / 2 ^ 51"] by (auto simp: sized_against_def sizing_demo_def)
    qed
    have gap: "e = 0 \<or> (85 :: rat) \<le> 50 \<or> 1 / 2 ^ 1022 \<le> (85 :: rat) - 50" by simp
    from target_coverage_is_ceiling [OF h(1) _ h(2) _ h(3,4) _ e(1) _ gap run] e
    have b: "ok" "50 + of_int (r_Count s) * 10 \<le> 85 + e * 35" "85 - e * 35 < 50 + of_int (r_Count s + 1) * (10 :: rat)"
      by (auto split: if_splits)
    define k :: rat where "k = of_int (r_Count s)"
    have "e * 35 < 5" using e(3) by simp
    then have "k < 4" "2 < k" using b(2,3) unfolding of_int_add of_int_1 k_def [symmetric] by simp_all
    then have "r_Count s = 3" by (simp add: k_def)
    moreover have "r = []" using run b(1) by (auto simp: applyTargetCoverageRI_def Let_def split: if_splits option.splits)
    ultimately show ?thesis using run b(1) by simp
  qed
  from one [of sizing_demo] one [of "sizing_demo\<lparr>r_ExistingCoveragePercentExact := None\<rparr>"] show ?thesis by simp
qed

text \<open>
  The \<open>float64\<close> path can pass the ceiling by a rounding error: an average of \<open>46.666666666666664\<close> and a gap of \<open>30\<close> points buy
  14 instances, whose coverage is above the target; 13 is the largest count that stays within it.
\<close>

definition drifting_average :: rat where
  "drifting_average = 6567749456581973 / 2 ^ 47"

lemma drifting_quantity: "float_quantity drifting_average 30 = 14"
proof -
  let ?p = "drifting_average * 30"
  have "ilog2 ?p = 10" by (rule ilog2_unique) (simp_all add: drifting_average_def)
  then have e: "ulp_exp ?p = - 42" by (simp add: ulp_exp_def drifting_average_def)
  have "\<lfloor>?p * 2 ^ 42\<rfloor> = 1400 * 2 ^ 42 - 1" by (simp add: floor_eq_iff drifting_average_def)
  then have "round_even (?p * 2 ^ 42) = 1400 * 2 ^ 42" by (simp add: round_even_def Let_def) (simp add: drifting_average_def)
  moreover have "?p / 2 powi (- 42) = ?p * 2 ^ 42" by (simp add: power_int_minus)
  ultimately have "round_rat ?p = 1400" unfolding round_rat_def e by (simp add: drifting_average_def power_int_minus)
  moreover have "round_rat 30 = 30" "round_rat 14 = 14" using round_rat_of_int [of 30] round_rat_of_int [of 14] by simp_all
  ultimately show ?thesis by (simp add: float_quantity_def)
qed

lemma float_path_overshoots:
  "float_count ovf (Fin 50) (Fin drifting_average) (Fin 80) = Some (14, False)"
  "80 < 50 + 14 / drifting_average * 100" "50 + 13 / drifting_average * 100 \<le> 80"
proof -
  have "0 < drifting_average" by (simp add: drifting_average_def)
  from float_count_cases [of 50 drifting_average 80 ovf, OF _ this] show "float_count ovf (Fin 50) (Fin drifting_average) (Fin 80) = Some (14, False)"
    by (simp add: drifting_quantity)
  show "80 < 50 + 14 / drifting_average * 100" "50 + 13 / drifting_average * 100 \<le> 80" by (simp_all add: drifting_average_def)
qed

end
