(* ===== verification/Go_Sha.thy ===== *)
theory Go_Sha
  imports Go_Text "HOL-Library.Word"
begin

text \<open>
  The hash functions of the standard library the code derives its tokens with:
  \<open>crypto/sha256\<close> (FIPS 180-4) on 32-bit words, \<open>crypto/hmac\<close> with it (RFC 2104),
  \<open>encoding/hex\<close>. Strings are their bytes.
\<close>

unbundle bit_operations_syntax

section \<open>SHA-256\<close>

type_synonym sha_word = "32 word"

text \<open>
  The constants of the standard are the first 32 bits of the fractional parts of roots of the first
  primes: \<open>root_bits k n x r\<close> finds the \<open>k\<close>-th root of \<open>x\<close>, rounded down, from its \<open>n\<close> low bits and the rest \<open>r\<close>.
\<close>

fun root_bits :: "nat \<Rightarrow> nat \<Rightarrow> int \<Rightarrow> int \<Rightarrow> int" where
  "root_bits k 0 x r = r"
| "root_bits k (Suc n) x r = root_bits k n x (if (r + 2 ^ n) ^ k \<le> x then r + 2 ^ n else r)"

definition fraction_bits :: "nat \<Rightarrow> nat \<Rightarrow> sha_word" where
  "fraction_bits k p = of_int (root_bits k 36 (int p * 2 ^ (32 * k)) 0)"

definition sha_primes :: "nat list" where
  "sha_primes = filter (\<lambda>p. list_all (\<lambda>d. p mod d \<noteq> 0) [2 ..< p]) [2 ..< 312]"

definition sha_init :: "sha_word list" where
  "sha_init = map (fraction_bits 2) (take 8 sha_primes)"

definition sha_constants :: "sha_word list" where
  "sha_constants = map (fraction_bits 3) sha_primes"

definition rotate_right :: "nat \<Rightarrow> sha_word \<Rightarrow> sha_word" where
  "rotate_right n x = drop_bit n x OR push_bit (32 - n) x"

text \<open>The message schedule, latest word first.\<close>

fun schedule :: "nat \<Rightarrow> sha_word list \<Rightarrow> sha_word list" where
  "schedule 0 ws = ws"
| "schedule (Suc n) ws = (let a = ws ! 1; b = ws ! 14 in
     schedule n (((rotate_right 17 a XOR rotate_right 19 a XOR drop_bit 10 a) + ws ! 6
       + (rotate_right 7 b XOR rotate_right 18 b XOR drop_bit 3 b) + ws ! 15) # ws))"

type_synonym sha_state = "sha_word \<times> sha_word \<times> sha_word \<times> sha_word \<times> sha_word \<times> sha_word \<times> sha_word \<times> sha_word"

fun sha_round :: "sha_word \<times> sha_word \<Rightarrow> sha_state \<Rightarrow> sha_state" where
  "sha_round (k, w) (a, b, c, d, e, f, g, h) =
    (let t1 = h + (rotate_right 6 e XOR rotate_right 11 e XOR rotate_right 25 e)
           + ((e AND f) XOR (NOT e AND g)) + k + w;
         t2 = (rotate_right 2 a XOR rotate_right 13 a XOR rotate_right 22 a)
           + ((a AND b) XOR (a AND c) XOR (b AND c))
     in (t1 + t2, a, b, c, d + t1, e, f, g))"

fun sha_add :: "sha_state \<Rightarrow> sha_state \<Rightarrow> sha_state" where
  "sha_add (a, b, c, d, e, f, g, h) (a', b', c', d', e', f', g', h') =
     (a + a', b + b', c + c', d + d', e + e', f + f', g + g', h + h')"

definition sha_block :: "sha_word list \<Rightarrow> sha_state \<Rightarrow> sha_state" where
  "sha_block ws s = sha_add s (fold sha_round (zip sha_constants (rev (schedule 48 (rev ws)))) s)"

text \<open>Bytes are numbers below 256, most significant first.\<close>

definition be_number :: "nat list \<Rightarrow> int" where
  "be_number bs = foldl (\<lambda>n b. n * 256 + int b) 0 bs"

definition be_bytes :: "nat \<Rightarrow> int \<Rightarrow> nat list" where
  "be_bytes k n = map (\<lambda>i. nat (n div 256 ^ (k - 1 - i) mod 256)) [0 ..< k]"

function chunks :: "nat \<Rightarrow> 'a list \<Rightarrow> 'a list list" where
  "chunks n xs = (if xs = [] \<or> n = 0 then [] else take n xs # chunks n (drop n xs))"
  by pat_completeness auto
termination
  by (relation "measure (\<lambda>(n, xs). length xs)") auto

declare chunks.simps [simp del]

definition sha_pad :: "nat list \<Rightarrow> nat list" where
  "sha_pad m = m @ [128] @ replicate ((119 - length m mod 64) mod 64) 0 @ be_bytes 8 (8 * int (length m))"

fun sha_digest :: "sha_state \<Rightarrow> nat list" where
  "sha_digest (a, b, c, d, e, f, g, h) = concat (map (\<lambda>x. be_bytes 4 (uint x)) [a, b, c, d, e, f, g, h])"

definition sha_start :: sha_state where
  "sha_start = (case sha_init of [a, b, c, d, e, f, g, h] \<Rightarrow> (a, b, c, d, e, f, g, h))"

definition sha256 :: "nat list \<Rightarrow> nat list" where
  "sha256 m = sha_digest (fold (\<lambda>blk. sha_block (map (\<lambda>q. of_int (be_number q)) (chunks 4 blk)))
     (chunks 64 (sha_pad m)) sha_start)"

definition bytes_of :: "go_string \<Rightarrow> nat list" where
  "bytes_of s = map of_char s"

section \<open>Hexadecimal\<close>

definition hex_encode :: "nat list \<Rightarrow> go_string" where
  "hex_encode bs = concat (map (\<lambda>b. [hex_char (b div 16 mod 16), hex_char (b mod 16)]) bs)"

section \<open>HMAC\<close>

text \<open>Keys longer than a block are hashed first; shorter ones are padded with zeros.\<close>

definition hmac_sha256 :: "nat list \<Rightarrow> nat list \<Rightarrow> nat list" where
  "hmac_sha256 key m =
    (let k = (if length key > 64 then sha256 key else key);
         block = k @ replicate (64 - length k) 0
     in sha256 (map (\<lambda>b. b XOR 92) block @ sha256 (map (\<lambda>b. b XOR 54) block @ m)))"

section \<open>Lengths\<close>

lemma length_be_bytes [simp]: "length (be_bytes k n) = k"
  by (simp add: be_bytes_def)

lemma length_sha_digest [simp]: "length (sha_digest s) = 32"
  by (cases s rule: sha_digest.cases) simp

lemma be_bytes_byte: "b \<in> set (be_bytes k n) \<Longrightarrow> b < 256"
  by (auto simp: be_bytes_def nat_less_iff)

lemma sha_digest_byte: "b \<in> set (sha_digest s) \<Longrightarrow> b < 256"
  by (cases s rule: sha_digest.cases) (auto dest: be_bytes_byte)

lemma length_sha256 [simp]: "length (sha256 m) = 32"
  by (simp add: sha256_def)

lemma length_hmac_sha256 [simp]: "length (hmac_sha256 k m) = 32"
  by (simp add: hmac_sha256_def Let_def)

lemma length_hex_encode [simp]: "length (hex_encode bs) = 2 * length bs"
  by (induction bs) (auto simp: hex_encode_def)

end
