(* ===== verification/Rec_Names.thy ===== *)
theory Rec_Names
  imports Rec_Common Go_Sha
begin

text \<open>
  Identifiers of purchases in \<open>pkg/common\<close>: sanitised reservation IDs and reservation names of at
  most 60 characters (\<open>identifiers.go\<close>, \<open>reservation_name.go\<close>), masked tokens and the GUID derived
  from an idempotency token (\<open>tokens.go\<close>), and the records of the attempt journal
  (\<open>attempt_journal.go\<close>). The clock and the random source are parameters. Tokens derived by
  SHA-256 and HMAC are in \<open>Rec_Tokens\<close>.
\<close>

section \<open>Sanitised identifiers (identifiers.go)\<close>

definition isAllowedIDChar :: "char \<Rightarrow> bool" where
  "isAllowedIDChar c = (let n = (of_char c :: nat) in
     (97 \<le> n \<and> n \<le> 122) \<or> (65 \<le> n \<and> n \<le> 90) \<or> (48 \<le> n \<and> n \<le> 57) \<or> c = CHR ''-'')"

text \<open>
  The code walks over runes; every byte of a multi-byte rune is outside the allowed characters, so
  the walk over bytes drops exactly the same runes.
\<close>

fun id_chars :: "go_string \<Rightarrow> go_string" where
  "id_chars [] = []"
| "id_chars (c # s) = (if isAllowedIDChar c then c # id_chars s
     else if c = CHR ''.'' then CHR ''-'' # id_chars s else id_chars s)"

fun has_double :: "go_string \<Rightarrow> bool" where
  "has_double (a # b # s) = ((a = CHR ''-'' \<and> b = CHR ''-'') \<or> has_double (b # s))"
| "has_double _ = False"

text \<open>\<open>strings.ReplaceAll(s, "--", "-")\<close>: left to right, not overlapping.\<close>

fun replace_double :: "go_string \<Rightarrow> go_string" where
  "replace_double (a # b # s) = (if a = CHR ''-'' \<and> b = CHR ''-'' then CHR ''-'' # replace_double s
     else a # replace_double (b # s))"
| "replace_double s = s"

lemma replace_double_le: "length (replace_double s) \<le> length s"
  by (induction s rule: replace_double.induct) auto

lemma replace_double_less: "has_double s \<Longrightarrow> length (replace_double s) < length s"
proof (induction s rule: replace_double.induct)
  case (1 a b s)
  then show ?case using replace_double_le [of s] by (auto simp: less_Suc_eq_le)
qed auto

function collapse :: "go_string \<Rightarrow> go_string" where
  "collapse s = (if has_double s then collapse (replace_double s) else s)"
  by pat_completeness auto
termination
  by (relation "measure length") (auto simp: replace_double_less)

declare collapse.simps [simp del]

definition trim_right_char :: "char \<Rightarrow> go_string \<Rightarrow> go_string" where
  "trim_right_char c s = rev (dropWhile (\<lambda>x. x = c) (rev s))"

definition trim_char :: "char \<Rightarrow> go_string \<Rightarrow> go_string" where
  "trim_char c s = trim_right_char c (dropWhile (\<lambda>x. x = c) s)"

text \<open>\<open>unix\<close> is \<open>time.Now().Unix()\<close>.\<close>

definition SanitizeReservationID :: "int \<Rightarrow> go_string \<Rightarrow> go_string \<Rightarrow> go_string" where
  "SanitizeReservationID unix ident fallbackPrefix =
    (let s = trim_char CHR ''-'' (collapse (id_chars ident)) in
     if s = [] then fallbackPrefix @ show_int unix else s)"

definition idempotencyIDTokenLen :: nat where
  "idempotencyIDTokenLen = 40"

definition IdempotentReservationID :: "int \<Rightarrow> go_string \<Rightarrow> go_string \<Rightarrow> go_string" where
  "IdempotentReservationID unix prefix token =
    (if token = [] then []
     else SanitizeReservationID unix (prefix @ (if length token > idempotencyIDTokenLen then take idempotencyIDTokenLen token else token)) prefix)"

section \<open>Reservation names (reservation_name.go)\<close>

definition awsReservationNameMaxLen :: nat where
  "awsReservationNameMaxLen = 60"

text \<open>\<open>n_rand\<close> is the test hook \<open>randSource\<close>; bytes are numbers below 256.\<close>

record ReservationNameFields =
  n_Now :: go_time
  n_Service :: go_string
  n_Region :: go_string
  n_ResourceType :: go_string
  n_Term :: go_string
  n_Payment :: go_string
  n_rand :: "nat list"
  n_Count :: int

text \<open>\<open>entropy\<close> is what \<open>crypto/rand\<close> delivers, \<open>None\<close> when it fails.\<close>

definition generateReservationRandSuffix :: "nat list option \<Rightarrow> nat list \<Rightarrow> go_string" where
  "generateReservationRandSuffix entropy src =
    (if 4 \<le> length src then hex_encode (take 4 src)
     else case entropy of None \<Rightarrow> [] | Some b \<Rightarrow> hex_encode (take 4 b))"

definition normalizeReservationSegment :: "int \<Rightarrow> go_string \<Rightarrow> go_string" where
  "normalizeReservationSegment unix s = SanitizeReservationID unix s []"

definition normalizeReservationTerm :: "int \<Rightarrow> go_string \<Rightarrow> go_string" where
  "normalizeReservationTerm unix s = (let t = to_lower (trim_space s) in
     if t \<in> {''1'', ''1yr'', ''1y'', ''p1y''} then ''1yr''
     else if t \<in> {''3'', ''3yr'', ''3y'', ''p3y''} then ''3yr''
     else normalizeReservationSegment unix s)"

definition normalizeReservationPayment :: "int \<Rightarrow> go_string \<Rightarrow> go_string" where
  "normalizeReservationPayment unix s = (let t = to_lower (trim_space s) in
     if t \<in> {''all-upfront'', ''allupfront'', ''upfront''} then ''allup''
     else if t \<in> {''no-upfront'', ''noupfront''} then ''noup''
     else if t \<in> {''partial-upfront'', ''partialupfront'', ''partial''} then ''partup''
     else if t = [] then []
     else let out = normalizeReservationSegment unix s in if length out > 6 then take 6 out else out)"

definition joinReservationNonEmpty :: "go_string list \<Rightarrow> go_string \<Rightarrow> go_string" where
  "joinReservationNonEmpty parts sep = join_with sep (filter (\<lambda>p. p \<noteq> []) parts)"

definition assembleReservationName :: "int \<Rightarrow> go_string list \<Rightarrow> go_string list \<Rightarrow> go_string \<Rightarrow> go_string \<Rightarrow> go_string" where
  "assembleReservationName unix required optional suffix fallbackPrefix =
     SanitizeReservationID unix (joinReservationNonEmpty (required @ optional @ [suffix]) ''-'') fallbackPrefix"

text \<open>\<open>t.UTC().Format("20060102T150405")\<close>.\<close>

definition compact_time :: "go_time \<Rightarrow> go_string" where
  "compact_time t = (case civil_date (t div day_ns) of (y, m, d) \<Rightarrow>
     let sec = nat (t mod day_ns) div 1000000000 in
     (if y < 0 then ''-'' else []) @ pad_digits 4 (nat \<bar>y\<bar>) @ pad_digits 2 (nat m) @ pad_digits 2 (nat d) @ ''T''
       @ pad_digits 2 (sec div 3600) @ pad_digits 2 (sec div 60 mod 60) @ pad_digits 2 (sec mod 60))"

fun first_fit :: "(go_string list \<Rightarrow> go_string) \<Rightarrow> go_string list list \<Rightarrow> go_string option" where
  "first_fit asm [] = None"
| "first_fit asm (opt # opts) =
    (if length (asm opt) \<le> awsReservationNameMaxLen then Some (asm opt) else first_fit asm opts)"

text \<open>The last resort: the SKU is cut, then the joined name.\<close>

definition cut_sku :: "int \<Rightarrow> go_string list \<Rightarrow> go_string \<Rightarrow> go_string \<Rightarrow> go_string list" where
  "cut_sku unix required randHex fallbackPrefix =
    (let overflow = int (length (assembleReservationName unix required [] randHex fallbackPrefix)) - int awsReservationNameMaxLen;
         sku = required ! 2 in
     if overflow > 0 then
       (let newLen = int (length sku) - overflow; newLen' = (if newLen < 1 then 1 else newLen) in
        required[2 := take (nat newLen') sku])
     else required)"

definition cut_base :: "int \<Rightarrow> go_string list \<Rightarrow> go_string \<Rightarrow> go_string \<Rightarrow> go_string" where
  "cut_base unix required randHex fallbackPrefix =
    (let base = trim_right_char CHR ''-'' (joinReservationNonEmpty required ''-'');
         keep = int awsReservationNameMaxLen - int (length randHex) - 1;
         keep1 = (if keep < 1 then 1 else keep);
         keep2 = (if keep1 > int (length base) then int (length base) else keep1) in
     SanitizeReservationID unix (trim_right_char CHR ''-'' (take (nat keep2) base) @ ''-'' @ randHex) fallbackPrefix)"

definition BuildReservationName :: "int \<Rightarrow> go_time \<Rightarrow> nat list option \<Rightarrow> ReservationNameFields \<Rightarrow> go_string \<Rightarrow> go_string" where
  "BuildReservationName unix now entropy f fallbackPrefix =
    (let svc = normalizeReservationSegment unix (n_Service f);
         region = normalizeReservationSegment unix (n_Region f);
         sku = normalizeReservationSegment unix (n_ResourceType f);
         count = show_int (n_Count f) @ ''x'';
         term = normalizeReservationTerm unix (n_Term f);
         paymt = normalizeReservationPayment unix (n_Payment f);
         ts = compact_time (if is_zero_time (n_Now f) then now else n_Now f);
         randHex = generateReservationRandSuffix entropy (n_rand f);
         required = [svc, region, sku, count, term] in
     case first_fit (\<lambda>opt. assembleReservationName unix required opt randHex fallbackPrefix) [[paymt, ts], [paymt], []] of
       Some candidate \<Rightarrow> candidate
     | None \<Rightarrow>
         let required' = cut_sku unix required randHex fallbackPrefix;
             out = assembleReservationName unix required' [] randHex fallbackPrefix in
         if length out > awsReservationNameMaxLen then cut_base unix required' randHex fallbackPrefix else out)"

section \<open>Tokens (tokens.go)\<close>

definition MaskToken :: "go_string \<Rightarrow> go_string" where
  "MaskToken token = (if token = [] then ''(none)'' else if length token \<le> 8 then ''(redacted)'' else take 8 token @ ''...'')"

definition is_hex :: "char \<Rightarrow> bool" where
  "is_hex c = (let n = (of_char c :: nat) in (48 \<le> n \<and> n \<le> 57) \<or> (97 \<le> n \<and> n \<le> 102) \<or> (65 \<le> n \<and> n \<le> 70))"

text \<open>\<open>hex.DecodeString\<close> fails on an odd length or on a character that is not hexadecimal.\<close>

definition hex_decodes :: "go_string \<Rightarrow> bool" where
  "hex_decodes s \<longleftrightarrow> even (length s) \<and> list_all is_hex s"

definition slice :: "nat \<Rightarrow> nat \<Rightarrow> go_string \<Rightarrow> go_string" where
  "slice i j s = take (j - i) (drop i s)"

definition IdempotencyGUID :: "go_string \<Rightarrow> go_string" where
  "IdempotencyGUID token =
    (if length token < 32 then []
     else let h = to_lower (take 32 token) in
       if \<not> hex_decodes h then []
       else sprintf ''%s-%s-%s-%s-%s'' (map ArgS [slice 0 8 h, slice 8 12 h, slice 12 16 h, slice 16 20 h, slice 20 32 h]))"

definition ErrInvalidIdempotencyToken :: go_string where
  "ErrInvalidIdempotencyToken = ''common: invalid idempotency token''"

definition OrderIDFromToken :: "go_string \<Rightarrow> go_string \<Rightarrow> go_error + go_string" where
  "OrderIDFromToken token fallback =
    (if token = [] then Inr fallback
     else let guid = IdempotencyGUID token in
       if guid = [] then Inl (wrapf ''%w: %s'' [ArgS ErrInvalidIdempotencyToken, ArgS (MaskToken token)] [Sentinel ErrInvalidIdempotencyToken])
       else Inr guid)"

section \<open>The attempt journal (attempt_journal.go)\<close>

record AttemptRecord =
  a_IdempotencyToken :: go_string
  a_ExecutionID :: go_string
  a_State :: go_string
  a_ReservationID :: go_string
  a_OfferingID :: go_string

definition AttemptRecord_Validate :: "AttemptRecord \<Rightarrow> go_error option" where
  "AttemptRecord_Validate r =
    (if a_IdempotencyToken r = [] then Some (errorf ''attempt record: idempotency token is required'' [])
     else if a_ExecutionID r = [] then
       Some (errorf ''attempt record %s: execution ID is required'' [ArgS (MaskToken (a_IdempotencyToken r))])
     else if a_State r = ''sending'' \<or> a_State r = ''outcome_unknown'' then
       if a_ReservationID r \<noteq> [] then
         Some (errorf ''attempt record %s: reservation ID is only valid in state %q, got %q''
           [ArgS (MaskToken (a_IdempotencyToken r)), ArgS ''purchased'', ArgS (a_State r)])
       else None
     else if a_State r = ''purchased'' then
       if a_ReservationID r = [] then
         Some (errorf ''attempt record %s: state %q requires a reservation ID''
           [ArgS (MaskToken (a_IdempotencyToken r)), ArgS ''purchased''])
       else None
     else Some (errorf ''attempt record %s: unknown state %q'' [ArgS (MaskToken (a_IdempotencyToken r)), ArgS (a_State r)]))"

lemma attempt_valid_iff [err_iff]:
  "AttemptRecord_Validate r = None \<longleftrightarrow> a_IdempotencyToken r \<noteq> [] \<and> a_ExecutionID r \<noteq> []
     \<and> a_State r \<in> {''sending'', ''outcome_unknown'', ''purchased''}
     \<and> (a_ReservationID r \<noteq> [] \<longleftrightarrow> a_State r = ''purchased'')"
  by (auto simp: AttemptRecord_Validate_def)


section \<open>What sanitising guarantees\<close>

definition clean_id :: "go_string \<Rightarrow> bool" where
  "clean_id s \<longleftrightarrow> s \<noteq> [] \<and> list_all isAllowedIDChar s \<and> \<not> has_double s \<and> hd s \<noteq> CHR ''-'' \<and> last s \<noteq> CHR ''-''"

text \<open>A suffix of allowed characters other than the hyphen passes through unchanged.\<close>

definition solid :: "go_string \<Rightarrow> bool" where
  "solid r \<longleftrightarrow> r \<noteq> [] \<and> list_all isAllowedIDChar r \<and> CHR ''-'' \<notin> set r"

lemma isAllowed_hyphen [simp]: "isAllowedIDChar CHR ''-''"
  by (simp add: isAllowedIDChar_def)

lemma id_chars_append: "id_chars (x @ y) = id_chars x @ id_chars y"
  by (induction x) auto

lemma id_chars_allowed: "list_all isAllowedIDChar (id_chars s)"
  by (induction s) auto

lemma id_chars_id: "list_all isAllowedIDChar s \<Longrightarrow> id_chars s = s"
  by (induction s) auto

lemma length_id_chars: "length (id_chars s) \<le> length s"
  by (induction s) auto

lemma has_double_hyphen: "has_double s \<Longrightarrow> CHR ''-'' \<in> set s"
  by (induction s rule: has_double.induct) auto

lemma has_double_append: "solid r \<Longrightarrow> has_double (x @ r) = has_double x"
proof (induction x rule: induct_list012)
  case 1
  then show ?case using has_double_hyphen [of r] by (auto simp: solid_def)
next
  case (3 a b s)
  then show ?case by simp
next
  case (2 a)
  then show ?case using has_double_hyphen [of r] by (cases r) (auto simp: solid_def)
qed

lemma replace_double_id: "CHR ''-'' \<notin> set s \<Longrightarrow> replace_double s = s"
  by (induction s rule: replace_double.induct) auto

lemma replace_double_append: "solid r \<Longrightarrow> replace_double (x @ r) = replace_double x @ r"
proof (induction x rule: induct_list012)
  case 1
  then show ?case using replace_double_id [of r] by (auto simp: solid_def)
next
  case (3 a b s)
  then show ?case by simp
next
  case (2 a)
  then show ?case using replace_double_id [of r] by (cases r) (auto simp: solid_def)
qed

lemma collapse_append: "solid r \<Longrightarrow> collapse (x @ r) = collapse x @ r"
proof (induction x rule: collapse.induct)
  case (1 s)
  then show ?case
    by (subst (1 2) collapse.simps) (simp add: has_double_append replace_double_append)
qed

lemma length_collapse: "length (collapse s) \<le> length s"
proof (induction s rule: collapse.induct)
  case (1 s)
  then show ?case using replace_double_less [of s] by (subst collapse.simps) auto
qed

lemma collapse_single: "\<not> has_double (collapse s)"
  by (induction s rule: collapse.induct) (subst collapse.simps, simp)

lemma set_replace_double: "set (replace_double s) \<subseteq> set s"
  by (induction s rule: replace_double.induct) auto

lemma set_collapse: "set (collapse s) \<subseteq> set s"
proof (induction s rule: collapse.induct)
  case (1 s)
  then show ?case using set_replace_double [of s] by (subst collapse.simps) auto
qed

lemma has_double_suffix: "has_double y \<Longrightarrow> has_double (x @ y)"
  by (induction x) (auto elim: has_double.elims)

lemma has_double_prefix: "has_double x \<Longrightarrow> has_double (x @ y)"
  by (induction x rule: has_double.induct) auto

lemma trim_right_split: "\<exists>h. s = trim_right_char c s @ h"
proof -
  have "s = rev (takeWhile (\<lambda>x. x = c) (rev s) @ dropWhile (\<lambda>x. x = c) (rev s))" by simp
  then have "s = trim_right_char c s @ rev (takeWhile (\<lambda>x. x = c) (rev s))"
    unfolding trim_right_char_def by (simp only: rev_append)
  then show ?thesis by blast
qed

lemma trim_right_last: "trim_right_char c s \<noteq> [] \<Longrightarrow> last (trim_right_char c s) \<noteq> c"
proof -
  assume "trim_right_char c s \<noteq> []"
  then have "dropWhile (\<lambda>x. x = c) (rev s) \<noteq> []" by (simp add: trim_right_char_def)
  then have "hd (dropWhile (\<lambda>x. x = c) (rev s)) \<noteq> c" by (rule hd_dropWhile)
  then show ?thesis using \<open>dropWhile _ _ \<noteq> []\<close> by (simp add: trim_right_char_def last_rev)
qed

lemma trim_right_solid: "solid r \<Longrightarrow> trim_right_char CHR ''-'' (x @ r) = x @ r"
proof -
  assume "solid r"
  then have "dropWhile (\<lambda>x. x = CHR ''-'') (rev r @ rev x) = rev r @ rev x"
    by (cases "rev r") (auto simp: solid_def dest: arg_cong [where f = set])
  then show ?thesis by (simp add: trim_right_char_def)
qed

lemma dropWhile_solid: "solid r \<Longrightarrow> dropWhile (\<lambda>x. x = CHR ''-'') (x @ r) = dropWhile (\<lambda>x. x = CHR ''-'') x @ r"
proof (induction x)
  case Nil
  then show ?case by (cases r) (auto simp: solid_def)
qed simp

text \<open>The result is a clean identifier unless nothing is left of the input.\<close>

lemma trimmed_clean:
  assumes "t = trim_char CHR ''-'' (collapse (id_chars s))" and "t \<noteq> []"
  shows "clean_id t"
proof -
  let ?c = "collapse (id_chars s)"
  let ?d = "dropWhile (\<lambda>x. x = CHR ''-'') ?c"
  obtain h where h: "?d = t @ h" using trim_right_split [of ?d "CHR ''-''"] assms(1) by (auto simp: trim_char_def)
  have c: "?c = takeWhile (\<lambda>x. x = CHR ''-'') ?c @ ?d" by simp
  have "\<not> has_double ?d" using collapse_single has_double_suffix c by metis
  then have "\<not> has_double t" using has_double_prefix h by metis
  moreover have "set t \<subseteq> set (id_chars s)"
  proof -
    have "set t \<subseteq> set ?d" using h by simp
    also have "\<dots> \<subseteq> set ?c" by (meson set_dropWhileD subsetI)
    also have "\<dots> \<subseteq> set (id_chars s)" by (rule set_collapse)
    finally show ?thesis .
  qed
  then have "list_all isAllowedIDChar t" using id_chars_allowed [of s] by (auto simp: list_all_iff)
  moreover have "hd t \<noteq> CHR ''-''"
  proof -
    have "hd ?d \<noteq> CHR ''-''" using h assms(2) hd_dropWhile [of "\<lambda>x. x = CHR ''-''" ?c] by auto
    then show ?thesis using h assms(2) by simp
  qed
  moreover have "last t \<noteq> CHR ''-''" using trim_right_last assms by (simp add: trim_char_def)
  ultimately show ?thesis using assms(2) by (simp add: clean_id_def)
qed

lemma sanitize_solid:
  assumes "solid r"
  obtains p where "SanitizeReservationID unix (x @ r) pre = p @ r" and "length p \<le> length x"
    and "clean_id (p @ r)"
proof -
  let ?p = "dropWhile (\<lambda>x. x = CHR ''-'') (collapse (id_chars x))"
  have "id_chars r = r" using assms by (intro id_chars_id) (simp add: solid_def)
  then have t: "trim_char CHR ''-'' (collapse (id_chars (x @ r))) = ?p @ r"
    using assms by (simp add: trim_char_def id_chars_append collapse_append dropWhile_solid trim_right_solid)
  moreover have ne: "?p @ r \<noteq> []" using assms by (simp add: solid_def)
  ultimately have "SanitizeReservationID unix (x @ r) pre = ?p @ r"
    unfolding SanitizeReservationID_def Let_def by (simp only: if_False)
  moreover have "length ?p \<le> length x"
    using length_dropWhile_le [of "\<lambda>x. x = CHR ''-''" "collapse (id_chars x)"] length_collapse [of "id_chars x"] length_id_chars [of x]
    by linarith
  moreover have "clean_id (?p @ r)" using trimmed_clean [OF t [symmetric]] ne by simp
  ultimately show ?thesis using that by blast
qed


section \<open>What a reservation name guarantees\<close>

lemma join_snoc: "join_with sep (ps @ [r]) = (if ps = [] then r else join_with sep ps @ sep @ r)"
proof (induction ps)
  case Nil
  then show ?case by simp
next
  case (Cons p ps)
  then show ?case by (cases ps) auto
qed

lemma assemble_solid:
  assumes "solid r"
  obtains p where "assembleReservationName unix required opt r pre = p @ r" and "clean_id (p @ r)"
proof -
  have "filter (\<lambda>p. p \<noteq> []) (required @ opt @ [r]) = filter (\<lambda>p. p \<noteq> []) (required @ opt) @ [r]"
    using assms by (simp add: solid_def)
  then have "\<exists>x. joinReservationNonEmpty (required @ opt @ [r]) ''-'' = x @ r"
    unfolding joinReservationNonEmpty_def by (simp only: join_snoc) (metis append.assoc append_Nil)
  then obtain x where x: "joinReservationNonEmpty (required @ opt @ [r]) ''-'' = x @ r" by blast
  from sanitize_solid [OF assms, of unix x pre] obtain p where
    "SanitizeReservationID unix (x @ r) pre = p @ r" "clean_id (p @ r)" by blast
  then show ?thesis using that by (simp add: assembleReservationName_def x)
qed

lemma first_fit_Some: "first_fit asm opts = Some s \<Longrightarrow> length s \<le> awsReservationNameMaxLen \<and> (\<exists>opt. s = asm opt)"
  by (induction asm opts rule: first_fit.induct) (auto split: if_splits)

lemma cut_base_solid:
  assumes "solid r" and "length r = 8"
  obtains p where "cut_base unix required r pre = p @ r" and "clean_id (p @ r)" and "length (p @ r) \<le> awsReservationNameMaxLen"
proof -
  define base where "base = trim_right_char CHR ''-'' (joinReservationNonEmpty required ''-'')"
  define keep where "keep = nat (if (51 :: int) > int (length base) then int (length base) else 51)"
  define x where "x = trim_right_char CHR ''-'' (take keep base) @ ''-''"
  have b: "cut_base unix required r pre = SanitizeReservationID unix (x @ r) pre"
    using assms(2) by (simp add: cut_base_def Let_def base_def x_def keep_def awsReservationNameMaxLen_def)
  obtain h where "take keep base = trim_right_char CHR ''-'' (take keep base) @ h" using trim_right_split by blast
  then have "length (trim_right_char CHR ''-'' (take keep base)) \<le> length (take keep base)" by (metis le_add1 length_append)
  also have "length (take keep base) \<le> 51" by (auto simp: keep_def)
  finally have "length x \<le> 52" by (simp add: x_def)
  moreover obtain p where p: "SanitizeReservationID unix (x @ r) pre = p @ r" "length p \<le> length x" "clean_id (p @ r)"
    using sanitize_solid [OF assms(1)] by blast
  ultimately have "length (p @ r) \<le> awsReservationNameMaxLen" using assms(2) by (simp add: awsReservationNameMaxLen_def)
  then show ?thesis using that [of p] p b by simp
qed

lemma hex_char_solid: "d < 16 \<Longrightarrow> isAllowedIDChar (hex_char d) \<and> hex_char d \<noteq> CHR ''-''"
proof -
  assume d: "d < 16"
  then have n: "(of_char (hex_char d) :: nat) = (if d < 10 then 48 + d else 87 + d)"
    by (simp add: hex_char_def of_char_digit)
  then have "isAllowedIDChar (hex_char d)" using d by (simp add: isAllowedIDChar_def Let_def split: if_splits)
  moreover have "hex_char d \<noteq> CHR ''-''"
  proof
    assume "hex_char d = CHR ''-''"
    then have "(of_char (hex_char d) :: nat) = 45" by simp
    then show False using n by (simp split: if_splits)
  qed
  ultimately show ?thesis by simp
qed

lemma hex_encode_solid: "length bs = 4 \<Longrightarrow> solid (hex_encode bs) \<and> length (hex_encode bs) = 8"
proof -
  assume "length bs = 4"
  then obtain a b c d where bs: "bs = [a, b, c, d]"
    by (auto simp: length_Suc_conv eval_nat_numeral)
  have hx: "isAllowedIDChar (hex_char (x mod 16))" "CHR ''-'' \<noteq> hex_char (x mod 16)" for x
    using hex_char_solid [of "x mod 16"] by fastforce+
  show ?thesis unfolding bs by (simp add: hex_encode_def solid_def hx)
qed

text \<open>A reservation name fits the 60-character limit of every AWS service, however long its
  parts are, and always ends with its random suffix, so two purchases with different suffixes never get
  the same name. It consists of letters, digits and single hyphens and neither starts nor ends with a
  hyphen.\<close>

theorem reservation_name_fits:
  assumes "4 \<le> length (n_rand f) \<or> (\<exists>b. entropy = Some b \<and> 4 \<le> length b)"
  shows "length (BuildReservationName unix now entropy f pre) \<le> 60
    \<and> clean_id (BuildReservationName unix now entropy f pre)
    \<and> (\<exists>p. BuildReservationName unix now entropy f pre = p @ generateReservationRandSuffix entropy (n_rand f))
    \<and> length (generateReservationRandSuffix entropy (n_rand f)) = 8"
proof -
  let ?r = "generateReservationRandSuffix entropy (n_rand f)"
  have r: "solid ?r" "length ?r = 8"
    using assms hex_encode_solid [of "take 4 (n_rand f)"] hex_encode_solid [of "take 4 (the entropy)"]
    by (auto simp: generateReservationRandSuffix_def)
  define required where "required = [normalizeReservationSegment unix (n_Service f), normalizeReservationSegment unix (n_Region f),
    normalizeReservationSegment unix (n_ResourceType f), show_int (n_Count f) @ ''x'', normalizeReservationTerm unix (n_Term f)]"
  define asm where "asm = (\<lambda>opt. assembleReservationName unix required opt ?r pre)"
  define opts where "opts = (let paymt = normalizeReservationPayment unix (n_Payment f);
    ts = compact_time (if is_zero_time (n_Now f) then now else n_Now f) in [[paymt, ts], [paymt], []])"
  define required' where "required' = cut_sku unix required ?r pre"
  define out where "out = assembleReservationName unix required' [] ?r pre"
  have name: "BuildReservationName unix now entropy f pre = (case first_fit asm opts of Some c \<Rightarrow> c
    | None \<Rightarrow> if length out > awsReservationNameMaxLen then cut_base unix required' ?r pre else out)"
    by (simp only: BuildReservationName_def Let_def required_def asm_def opts_def required'_def out_def)
  have good: "length s \<le> 60 \<and> clean_id s \<and> (\<exists>p. s = p @ ?r)"
    if "length s \<le> awsReservationNameMaxLen" "s = assembleReservationName unix req opt ?r pre" for s req opt
    using assemble_solid [OF r(1), of unix req opt pre] that by (metis awsReservationNameMaxLen_def)
  have "length (BuildReservationName unix now entropy f pre) \<le> 60 \<and> clean_id (BuildReservationName unix now entropy f pre)
    \<and> (\<exists>p. BuildReservationName unix now entropy f pre = p @ ?r)"
  proof (cases "first_fit asm opts")
    case (Some c)
    then show ?thesis using first_fit_Some [OF Some] good name by (auto simp: asm_def)
  next
    case None
    show ?thesis
    proof (cases "length out > awsReservationNameMaxLen")
      case True
      then show ?thesis using cut_base_solid [OF r, of unix required' pre] name None by (metis awsReservationNameMaxLen_def option.case(1))
    next
      case False
      then show ?thesis using good [of out required' "[]"] name None by (simp add: out_def)
    qed
  qed
  then show ?thesis using r by simp
qed

definition demo_fields :: ReservationNameFields where
  "demo_fields = \<lparr>n_Now = 5, n_Service = ''opensearch'', n_Region = ''us-east-1'', n_ResourceType = ''r6gd.large.search'',
     n_Term = ''1yr'', n_Payment = ''all-upfront'', n_rand = [161, 178, 195, 212], n_Count = 3\<rparr>"

theorem reservation_name_fits_witness:
  "length (BuildReservationName 0 0 None demo_fields ''rds-'') \<le> 60
    \<and> (\<exists>p. BuildReservationName 0 0 None demo_fields ''rds-'' = p @ ''a1b2c3d4'')"
proof -
  have "4 \<le> length (n_rand demo_fields) \<or> (\<exists>b. (None :: nat list option) = Some b \<and> 4 \<le> length b)" by (simp add: demo_fields_def)
  moreover have "generateReservationRandSuffix None (n_rand demo_fields) = ''a1b2c3d4''" by code_simp
  ultimately show ?thesis using reservation_name_fits [of demo_fields None 0 0 "''rds-''"] by auto
qed

section \<open>Order IDs\<close>

lemma remove_char_append [simp]: "remove_char c (x @ y) = remove_char c x @ remove_char c y"
  by (simp add: remove_char_def)

lemma is_hex_not_hyphen: "is_hex c \<Longrightarrow> c \<noteq> CHR ''-''"
  by (auto simp: is_hex_def)

lemma remove_hyphen_hex: "list_all is_hex s \<Longrightarrow> remove_char CHR ''-'' s = s"
  using is_hex_not_hyphen by (auto simp: remove_char_def list_all_iff intro!: filter_True)

lemma to_lower_hex_length: "list_all is_hex (to_lower s) \<Longrightarrow> length (to_lower s) = length s"
  by (induction s rule: to_lower.induct) (auto simp: is_hex_def split: if_splits)

lemma slices_join:
  assumes "length h = 32"
  shows "slice 0 8 h @ slice 8 12 h @ slice 12 16 h @ slice 16 20 h @ slice 20 32 h = h"
proof -
  have glue: "slice i j h @ slice j k h = slice i k h" if "i \<le> j" "j \<le> k" for i j k
  proof -
    have "drop j h = drop (j - i) (drop i h)" using that by simp
    moreover have "k - i = (j - i) + (k - j)" using that by simp
    ultimately show ?thesis unfolding slice_def by (metis take_add)
  qed
  have "slice 0 8 h @ slice 8 12 h @ slice 12 16 h @ slice 16 20 h @ slice 20 32 h = slice 0 32 h"
    using glue [of 16 20 32] glue [of 12 16 32] glue [of 8 12 32] glue [of 0 8 32] by simp
  then show ?thesis using assms by (simp add: slice_def)
qed

lemma slice_hex: "list_all is_hex h \<Longrightarrow> list_all is_hex (slice i j h)"
  by (auto simp: slice_def list_all_iff dest: in_set_takeD in_set_dropD)

text \<open>Which characters a usable token may have, spelled out.\<close>

definition hex_digits :: "char set" where
  "hex_digits = set ''0123456789abcdefABCDEF''"

lemma hex_digits_codes: "hex_digits = char_of ` ({48..<58} \<union> {97..<103} \<union> {65..<71 :: nat})"
proof -
  have "''0123456789abcdefABCDEF'' = map char_of ([48..<58] @ [97..<103] @ [65..<71 :: nat])" by code_simp
  then have "hex_digits = char_of ` set ([48..<58] @ [97..<103] @ [65..<71 :: nat])" by (simp only: hex_digits_def set_map)
  then show ?thesis by (simp only: set_append set_upt Un_assoc)
qed

lemma hex_digits_code: "c \<in> hex_digits \<longleftrightarrow> (of_char c :: nat) \<in> {48..<58} \<union> {97..<103} \<union> {65..<71}"
proof
  assume "c \<in> hex_digits"
  then obtain n :: nat where n: "c = char_of n" "n \<in> {48..<58} \<union> {97..<103} \<union> {65..<71}"
    unfolding hex_digits_codes by blast
  then have "of_char c = n" by auto
  with n(2) show "(of_char c :: nat) \<in> {48..<58} \<union> {97..<103} \<union> {65..<71}" by simp
next
  assume "(of_char c :: nat) \<in> {48..<58} \<union> {97..<103} \<union> {65..<71}"
  then have "char_of (of_char c :: nat) \<in> hex_digits" unfolding hex_digits_codes by (rule imageI)
  then show "c \<in> hex_digits" by simp
qed

lemma is_hex_lower: "is_hex (ascii_lower c) \<longleftrightarrow> c \<in> hex_digits"
  unfolding hex_digits_code by (auto simp: is_hex_def ascii_lower_def Let_def)

lemma lower_hex_iff: "list_all is_hex (to_lower s) \<longleftrightarrow> set s \<subseteq> hex_digits"
proof -
  have "\<not> is_hex CHR ''i''" "\<not> is_hex CHR ''k''" by code_simp+
  then show ?thesis
    by (induction s rule: to_lower.induct) (auto simp: is_hex_lower, auto simp: hex_digits_code)
qed

definition guid_of :: "go_string list \<Rightarrow> go_string" where
  "guid_of gs = concat (map (\<lambda>g. g @ ''-'') (butlast gs)) @ last gs"

lemma guid_of_five: "guid_of [a, b, c, d, e] = a @ ''-'' @ b @ ''-'' @ c @ ''-'' @ d @ ''-'' @ e"
  by (simp add: guid_of_def)

lemma guid_of_length: "map length gs = [8, 4, 4, 4, 12] \<Longrightarrow> length (guid_of gs) = 36"
  by (auto simp: guid_of_five)

lemma order_id_cases:
  "if token = [] then OrderIDFromToken token fallback = Inr fallback
   else if 32 \<le> length token \<and> set (take 32 token) \<subseteq> hex_digits
   then \<exists>gs. map length gs = [8, 4, 4, 4, 12] \<and> concat gs = to_lower (take 32 token)
     \<and> OrderIDFromToken token fallback = Inr (guid_of gs) \<and> remove_char CHR ''-'' (guid_of gs) = to_lower (take 32 token)
   else \<exists>e. OrderIDFromToken token fallback = Inl e \<and> err_is ErrInvalidIdempotencyToken e"
proof (cases "32 \<le> length token \<and> set (take 32 token) \<subseteq> hex_digits")
  case True
  let ?h = "to_lower (take 32 token)"
  let ?gs = "[slice 0 8 ?h, slice 8 12 ?h, slice 12 16 ?h, slice 16 20 ?h, slice 20 32 ?h]"
  have h: "list_all is_hex ?h" using True by (simp add: lower_hex_iff)
  then have l: "length ?h = 32" using to_lower_hex_length [of "take 32 token"] True by simp
  have g: "IdempotencyGUID token = guid_of ?gs"
    using True h l by (simp add: IdempotencyGUID_def Let_def hex_decodes_def guid_of_def)
  moreover have "guid_of ?gs \<noteq> []" by (simp add: guid_of_def)
  ultimately have "token \<noteq> [] \<Longrightarrow> OrderIDFromToken token fallback = Inr (guid_of ?gs)"
    by (simp add: OrderIDFromToken_def)
  moreover have "map length ?gs = [8, 4, 4, 4, 12]" using l by (simp add: slice_def)
  moreover have "concat ?gs = ?h" using slices_join [OF l] by simp
  moreover have "remove_char CHR ''-'' (guid_of ?gs) = ?h"
  proof -
    have "remove_char CHR ''-'' ''-'' = []" by (simp add: remove_char_def)
    then show ?thesis using slices_join [OF l] slice_hex [OF h] by (simp only: guid_of_five remove_char_append remove_hyphen_hex append_Nil)
  qed
  ultimately have "token \<noteq> [] \<longrightarrow> (\<exists>gs. map length gs = [8, 4, 4, 4, 12] \<and> concat gs = ?h
     \<and> OrderIDFromToken token fallback = Inr (guid_of gs) \<and> remove_char CHR ''-'' (guid_of gs) = ?h)"
    by (intro impI exI [of _ ?gs]) simp
  with True show ?thesis by (simp add: OrderIDFromToken_def)
next
  case False
  then have "IdempotencyGUID token = []"
    by (auto simp: IdempotencyGUID_def Let_def hex_decodes_def lower_hex_iff)
  with False show ?thesis by (auto simp: OrderIDFromToken_def wrapf_def)
qed

text \<open>C40. The reservation order ID of a purchase is a function of the first 128 bits of its token and
  determines them: a token of at least 32 characters whose first 32 are hexadecimal digits gives the
  GUID of those digits in lower case, grouped 8-4-4-4-12, and removing the hyphens gives them back. So a
  re-driven purchase gets the same order and purchases whose tokens differ there never share one. Any
  other token that is not empty is an error and never falls back to the caller's ID; an empty one
  gives that ID.\<close>

theorem order_id_roundtrip:
  "if token = [] then OrderIDFromToken token fallback = Inr fallback
   else if 32 \<le> length token \<and> set (take 32 token) \<subseteq> hex_digits
   then \<exists>gs. map length gs = [8, 4, 4, 4, 12] \<and> concat gs = to_lower (take 32 token)
     \<and> OrderIDFromToken token fallback = Inr (guid_of gs) \<and> remove_char CHR ''-'' (guid_of gs) = to_lower (take 32 token)
   else \<exists>e. OrderIDFromToken token fallback = Inl e \<and> err_is ErrInvalidIdempotencyToken e"
  by (rule order_id_cases)

theorem order_id_roundtrip_witness:
  "(\<exists>g. OrderIDFromToken ''0123456789ABCDEF0123456789abcdef-tail'' ''fb'' = Inr g
     \<and> remove_char CHR ''-'' g = ''0123456789abcdef0123456789abcdef'')
   \<and> (\<exists>e. OrderIDFromToken ''0123456789ABCDEF0123456789abcdeg-tail'' ''fb'' = Inl e \<and> err_is ErrInvalidIdempotencyToken e)"
proof (rule conjI)
  have l: "to_lower (take 32 ''0123456789ABCDEF0123456789abcdef-tail'') = ''0123456789abcdef0123456789abcdef''" by code_simp
  have h: "set (take 32 ''0123456789ABCDEF0123456789abcdef-tail'') \<subseteq> hex_digits"
    unfolding hex_digits_def by code_simp
  show "\<exists>g. OrderIDFromToken ''0123456789ABCDEF0123456789abcdef-tail'' ''fb'' = Inr g
     \<and> remove_char CHR ''-'' g = ''0123456789abcdef0123456789abcdef''"
    using order_id_roundtrip [of "''0123456789ABCDEF0123456789abcdef-tail''" "''fb''"] h unfolding l by auto
  have n: "\<not> set (take 32 ''0123456789ABCDEF0123456789abcdeg-tail'') \<subseteq> hex_digits"
    unfolding hex_digits_def by code_simp
  show "\<exists>e. OrderIDFromToken ''0123456789ABCDEF0123456789abcdeg-tail'' ''fb'' = Inl e \<and> err_is ErrInvalidIdempotencyToken e"
    using order_id_roundtrip [of "''0123456789ABCDEF0123456789abcdeg-tail''" "''fb''"] n by (simp only: if_False list.distinct(2)) auto
qed

end
