(* ===== verification/Rec_Tokens.thy ===== *)
theory Rec_Tokens
  imports Rec_Names
begin

text \<open>
  The tokens of \<open>pkg/common/tokens.go\<close>: random approval tokens, the idempotency token of a
  purchase, and the signed tokens of muted notifications. The random source and the environment
  are parameters; the hash functions are those of \<open>Go_Sha\<close>.
\<close>

section \<open>Tokens (tokens.go)\<close>

definition muteSecretEnvVar :: go_string where
  "muteSecretEnvVar = ''NOTIFICATION_MUTE_SECRET''"

definition ErrMuteSecretMissing :: go_error where
  "ErrMuteSecretMissing = Sentinel ''common: NOTIFICATION_MUTE_SECRET is required''"

definition ResolveMuteSecret :: "(go_string \<Rightarrow> go_string) \<Rightarrow> go_error + nat list" where
  "ResolveMuteSecret getenv = (let v = getenv muteSecretEnvVar in
     if v \<noteq> [] then Inr (bytes_of v) else Inl ErrMuteSecretMissing)"

text \<open>\<open>entropy\<close> is what \<open>rand.Read\<close> puts into the 32 bytes, or its error.\<close>

definition GenerateApprovalToken :: "go_error + nat list \<Rightarrow> go_error + go_string" where
  "GenerateApprovalToken entropy = (case entropy of
     Inl e \<Rightarrow> Inl (wrapf ''generate approval token: %w'' [ArgS (err_text e)] [e])
   | Inr b \<Rightarrow> Inr (hex_encode (take 32 b)))"

definition DeriveIdempotencyToken :: "go_string \<Rightarrow> int \<Rightarrow> go_string" where
  "DeriveIdempotencyToken executionID recIndex =
     hex_encode (sha256 (bytes_of (sprintf ''%s:%d'' [ArgS executionID, ArgI recIndex])))"

definition ScopePurchaseApprovals :: go_string where "ScopePurchaseApprovals = ''purchase_approvals''"
definition ScopeRIExchangeApprovals :: go_string where "ScopeRIExchangeApprovals = ''ri_exchange_approvals''"

definition DeriveMuteToken :: "nat list \<Rightarrow> go_string \<Rightarrow> go_string \<Rightarrow> go_string" where
  "DeriveMuteToken key email scope = (if key = [] then [] else
     hex_encode (hmac_sha256 key (bytes_of (to_lower email) @ bytes_of ''|'' @ bytes_of scope)))"

definition VerifyMuteToken :: "nat list \<Rightarrow> go_string \<Rightarrow> go_string \<Rightarrow> go_string \<Rightarrow> bool" where
  "VerifyMuteToken key email scope token = (let want = DeriveMuteToken key email scope in
     if want = [] then False else want = token)"

section \<open>What the tokens are good for\<close>

lemma hex_char_lower_hex: "d < 16 \<Longrightarrow> is_hex (hex_char d) \<and> ascii_lower (hex_char d) = hex_char d \<and> (of_char (hex_char d) :: nat) < 128"
proof -
  assume d: "d < 16"
  then have n: "(of_char (hex_char d) :: nat) = (if d < 10 then 48 + d else 87 + d)"
    by (simp add: hex_char_def of_char_digit)
  with d show ?thesis by (simp add: is_hex_def ascii_lower_def Let_def)
qed

definition lower_hex :: "go_string \<Rightarrow> bool" where
  "lower_hex s \<longleftrightarrow> list_all (\<lambda>c. is_hex c \<and> ascii_lower c = c \<and> (of_char c :: nat) < 128) s"

lemma lower_hex_encode: "lower_hex (hex_encode bs)"
  by (induction bs) (auto simp: lower_hex_def hex_encode_def hex_char_lower_hex)

lemma to_lower_lower_hex: "lower_hex s \<Longrightarrow> to_lower s = s"
  by (induction s rule: to_lower.induct) (auto simp: lower_hex_def)

lemma lower_hex_take: "lower_hex s \<Longrightarrow> lower_hex (take n s)"
  by (auto simp: lower_hex_def list_all_iff dest: in_set_takeD)

lemma lower_hex_is_hex: "lower_hex s \<Longrightarrow> list_all is_hex s"
  by (auto simp: lower_hex_def list_all_iff)

lemma length_DeriveIdempotencyToken [simp]: "length (DeriveIdempotencyToken e i) = 64"
  by (simp add: DeriveIdempotencyToken_def)

lemma DeriveIdempotencyToken_hex: "lower_hex (DeriveIdempotencyToken e i)"
  by (simp add: DeriveIdempotencyToken_def lower_hex_encode)

lemma DeriveMuteToken_empty_iff: "DeriveMuteToken key email scope = [] \<longleftrightarrow> key = []"
proof
  assume "DeriveMuteToken key email scope = []"
  then have "key \<noteq> [] \<Longrightarrow> length (hex_encode (hmac_sha256 key (bytes_of (to_lower email) @ bytes_of ''|'' @ bytes_of scope))) = 0"
    by (simp add: DeriveMuteToken_def)
  then show "key = []" by (simp only: length_hex_encode length_hmac_sha256) auto
qed (simp add: DeriveMuteToken_def)

text \<open>
  The token of a purchase is 64 lower-case hexadecimal characters; as an Azure order ID it is
  always usable, and the ID is the GUID of its first 32 characters whatever the fallback.
\<close>

lemma derived_token_usable:
  "\<exists>g. OrderIDFromToken (DeriveIdempotencyToken e i) fallback = Inr g
     \<and> remove_char CHR ''-'' g = take 32 (DeriveIdempotencyToken e i) \<and> length g = 36"
proof -
  let ?t = "DeriveIdempotencyToken e i"
  have "lower_hex (take 32 ?t)" by (simp add: lower_hex_take DeriveIdempotencyToken_hex)
  then have h: "to_lower (take 32 ?t) = take 32 ?t" "list_all is_hex (take 32 ?t)"
    by (simp_all add: to_lower_lower_hex lower_hex_is_hex)
  have "?t \<noteq> []" using length_DeriveIdempotencyToken [of e i] by force
  moreover have "set (take 32 ?t) \<subseteq> hex_digits" using h lower_hex_iff [of "take 32 ?t"] by simp
  ultimately obtain gs where "map length gs = [8, 4, 4, 4, 12]" "OrderIDFromToken ?t fallback = Inr (guid_of gs)"
    "remove_char CHR ''-'' (guid_of gs) = to_lower (take 32 ?t)"
    using order_id_cases [of ?t fallback] by (simp only: length_DeriveIdempotencyToken) force
  with h guid_of_length show ?thesis by simp
qed

text \<open>
  A mute token is accepted exactly when it is the one derived for the same address, up to case,
  and scope under a non-empty key.
\<close>

lemma VerifyMuteToken_iff:
  "VerifyMuteToken key email scope token \<longleftrightarrow> key \<noteq> [] \<and> token = DeriveMuteToken key email scope"
  by (auto simp: VerifyMuteToken_def Let_def DeriveMuteToken_empty_iff)

lemma VerifyMuteToken_missing_secret:
  "ResolveMuteSecret getenv = Inl e \<Longrightarrow> e = ErrMuteSecretMissing \<and> \<not> VerifyMuteToken (bytes_of (getenv muteSecretEnvVar)) email scope token"
  by (auto simp: ResolveMuteSecret_def Let_def bytes_of_def VerifyMuteToken_iff split: if_splits)

end
