(* ===== verification/Rec_Score.thy ===== *)
theory Rec_Score
  imports Rec_Names "HOL-Library.List_Lexorder" "HOL-Library.Char_ord"
begin

text \<open>
  The scorer (\<open>pkg/scorer/scorer.go\<close>) and the break-even it filters on (\<open>pkg/common/breakeven.go\<close>). The
  unstable \<open>sort.Slice\<close> is a parameter under the contract \<open>go_sort\<close>; \<open>unix\<close> is the clock that
  \<open>normalizeReservationTerm\<close> falls back to.
\<close>

section \<open>Break-even (breakeven.go)\<close>

definition isFinite :: "float64 \<Rightarrow> bool" where
  "isFinite v \<longleftrightarrow> \<not> is_nan v \<and> \<not> is_inf v"

definition UpfrontPriceUnknown :: "Recommendation \<Rightarrow> bool" where
  "UpfrontPriceUnknown rec =
    (if \<not> feq (r_CommitmentCost rec) 0 then False
     else remove_char CHR '' '' (remove_char CHR ''_'' (remove_char CHR ''-'' (to_lower (trim_space (r_PaymentOption rec)))))
       \<in> {''allupfront'', ''upfront'', ''partialupfront'', ''partial''})"

definition breakEvenTermMonths :: "int \<Rightarrow> go_string \<Rightarrow> float64 option" where
  "breakEvenTermMonths unix s = (let t = normalizeReservationTerm unix s in
     if t = ''1yr'' then Some (Fin 12) else if t = ''3yr'' then Some (Fin 36) else None)"

text \<open>\<open>None\<close> is an unknown break-even.\<close>

definition BreakEven :: "int \<Rightarrow> Recommendation \<Rightarrow> float64 option" where
  "BreakEven unix rec =
    (if r_BreakEvenMonths rec > 0 \<and> \<not> is_inf (r_BreakEvenMonths rec) \<and> \<not> is_nan (r_BreakEvenMonths rec)
     then Some (r_BreakEvenMonths rec)
     else let upfront = r_CommitmentCost rec; savings = r_EstimatedSavings rec in
       if \<not> isFinite upfront \<or> \<not> isFinite savings \<or> upfront < 0 then None
       else if feq upfront 0 then (if UpfrontPriceUnknown rec then None else Some 0)
       else (case breakEvenTermMonths unix (r_Term rec) of None \<Rightarrow> None
         | Some termMonths \<Rightarrow> let gross = savings + fdiv upfront termMonths in
             if gross \<le> 0 then Some PInf else Some (fdiv upfront gross)))"

section \<open>Filters (scorer.go)\<close>

record score_config =
  EnabledServices :: "go_string list"
  sc_MinSavingsPct :: float64
  MaxBreakEvenMonths :: int
  sc_MinCount :: int
  MinSavingsPctSet :: bool

definition score_Validate :: "score_config \<Rightarrow> go_error option" where
  "score_Validate c =
    (if is_nan (sc_MinSavingsPct c) \<or> is_inf (sc_MinSavingsPct c) then Some (errorf ''min_savings_pct must be a finite number'' [])
     else if sc_MinSavingsPct c < 0 then Some (errorf (''min_savings_pct must be '' @ map char_of [226, 137, 165 :: nat] @ '' 0'') [])
     else None)"

definition FilterReasonPriceUnknown :: go_string where
  "FilterReasonPriceUnknown = ''price-unknown''"

record FilteredRecommendation =
  FilterReason :: go_string
  fr_Recommendation :: Recommendation

record ScoredResult =
  Passed :: "Recommendation list"
  Filtered :: "FilteredRecommendation list"

definition minCountReason :: "Recommendation \<Rightarrow> int \<Rightarrow> go_string" where
  "minCountReason rec minCount =
    (if minCount > 0 \<and> r_CommitmentType rec \<noteq> CommitmentSavingsPlan \<and> r_Count rec < minCount
     then sprintf ''count %d below minimum %d'' [ArgI (r_Count rec), ArgI minCount] else [])"

definition breakEvenReason :: "int \<Rightarrow> Recommendation \<Rightarrow> int \<Rightarrow> go_string" where
  "breakEvenReason unix rec maxMonths = (case BreakEven unix rec of
     None \<Rightarrow>
       if UpfrontPriceUnknown rec then
         sprintf ''%s: no upfront price for payment option %q; --max-break-even-months %d cannot be enforced''
           [ArgS FilterReasonPriceUnknown, ArgS (r_PaymentOption rec), ArgI maxMonths]
       else sprintf ''break-even cannot be computed (upfront %.2f, savings %.2f, term %q); --max-break-even-months %d cannot be enforced''
           [ArgF (r_CommitmentCost rec), ArgF (r_EstimatedSavings rec), ArgS (r_Term rec), ArgI maxMonths]
   | Some months \<Rightarrow>
       if float_of_int maxMonths < months then
         sprintf ''break-even %.1f months exceeds maximum %d months'' [ArgF months, ArgI maxMonths]
       else [])"

definition buildServiceSet :: "go_string list \<Rightarrow> go_string list" where
  "buildServiceSet services = map to_lower services"

definition filterReason :: "int \<Rightarrow> Recommendation \<Rightarrow> score_config \<Rightarrow> go_string list \<Rightarrow> go_string" where
  "filterReason unix rec cfg enabled =
    (if enabled \<noteq> [] \<and> to_lower (r_Service rec) \<notin> set enabled then
       sprintf ''service %q not in enabled list'' [ArgS (r_Service rec)]
     else if (sc_MinSavingsPct cfg > 0 \<or> MinSavingsPctSet cfg) \<and> \<not> (sc_MinSavingsPct cfg \<le> r_SavingsPercentage rec) then
       sprintf ''savings %.1f%% below minimum %.1f%%'' [ArgF (r_SavingsPercentage rec), ArgF (sc_MinSavingsPct cfg)]
     else let b = (if MaxBreakEvenMonths cfg > 0 then breakEvenReason unix rec (MaxBreakEvenMonths cfg) else []) in
       if b \<noteq> [] then b else minCountReason rec (sc_MinCount cfg))"

definition with_break_even :: "int \<Rightarrow> Recommendation \<Rightarrow> Recommendation" where
  "with_break_even unix rec = (case BreakEven unix rec of
     Some months \<Rightarrow> if months > 0 \<and> \<not> is_inf months then rec\<lparr>r_BreakEvenMonths := months\<rparr> else rec
   | None \<Rightarrow> rec)"

definition rank_key :: "Recommendation \<Rightarrow> go_string" where
  "rank_key r = r_Service r @ ''|'' @ r_Region r @ ''|'' @ r_ResourceType r"

text \<open>The comparator of \<open>sort.Slice\<close>.\<close>

definition ranks_before :: "Recommendation \<Rightarrow> Recommendation \<Rightarrow> bool" where
  "ranks_before a b =
    (if \<not> feq (r_SavingsPercentage a) (r_SavingsPercentage b) then r_SavingsPercentage b < r_SavingsPercentage a
     else if \<not> feq (r_EstimatedSavings a) (r_EstimatedSavings b) then r_EstimatedSavings b < r_EstimatedSavings a
     else rank_key a < rank_key b)"

fun score_loop :: "int \<Rightarrow> score_config \<Rightarrow> go_string list \<Rightarrow> Recommendation list \<Rightarrow> ScoredResult" where
  "score_loop unix cfg enabled [] = \<lparr>Passed = [], Filtered = []\<rparr>"
| "score_loop unix cfg enabled (rec # recs) =
    (let reason = filterReason unix rec cfg enabled; r = score_loop unix cfg enabled recs in
     if reason \<noteq> [] then r\<lparr>Filtered := \<lparr>FilterReason = reason, fr_Recommendation = rec\<rparr> # Filtered r\<rparr>
     else r\<lparr>Passed := with_break_even unix rec # Passed r\<rparr>)"

definition Score :: "((Recommendation \<Rightarrow> Recommendation \<Rightarrow> bool) \<Rightarrow> Recommendation list \<Rightarrow> Recommendation list)
    \<Rightarrow> int \<Rightarrow> Recommendation list \<Rightarrow> score_config \<Rightarrow> ScoredResult" where
  "Score srt unix recs cfg = (let r = score_loop unix cfg (buildServiceSet (EnabledServices cfg)) recs in
     r\<lparr>Passed := srt ranks_before (Passed r)\<rparr>)"

section \<open>The contract of sort.Slice\<close>

definition weak_order_on :: "'a set \<Rightarrow> ('a \<Rightarrow> 'a \<Rightarrow> bool) \<Rightarrow> bool" where
  "weak_order_on A lt \<longleftrightarrow> (\<forall>x \<in> A. \<forall>y \<in> A. lt x y \<longrightarrow> \<not> lt y x)
     \<and> (\<forall>x \<in> A. \<forall>y \<in> A. \<forall>z \<in> A. \<not> lt y x \<longrightarrow> \<not> lt z y \<longrightarrow> \<not> lt z x)"

locale go_sort =
  fixes srt :: "('a \<Rightarrow> 'a \<Rightarrow> bool) \<Rightarrow> 'a list \<Rightarrow> 'a list"
  assumes srt_mset: "mset (srt lt xs) = mset xs"
    and srt_sorted: "weak_order_on (set xs) lt \<Longrightarrow> sorted_wrt (\<lambda>x y. \<not> lt y x) (srt lt xs)"
begin

lemma srt_set [simp]: "set (srt lt xs) = set xs"
  by (metis srt_mset set_mset_mset)

lemma srt_length: "length (srt lt xs) = length xs"
  by (metis srt_mset size_mset)

text \<open>The first element is a best one.\<close>

lemma srt_hd:
  assumes "weak_order_on (set xs) lt" and "x \<in> set xs"
  shows "\<not> lt x (hd (srt lt xs))"
proof -
  have "srt lt xs \<noteq> []" using assms(2) srt_set [of lt xs] by (metis empty_iff list.set(1))
  then obtain y ys where y: "srt lt xs = y # ys" by (cases "srt lt xs") auto
  have in_xs: "y \<in> set xs" using srt_set [of lt xs] unfolding y by (metis list.set_intros(1))
  have "x = y \<or> x \<in> set ys" using assms(2) srt_set [of lt xs] unfolding y by (metis set_ConsD)
  then show ?thesis
  proof
    assume "x = y"
    then show ?thesis using assms(1) in_xs unfolding weak_order_on_def y list.sel(1) by blast
  next
    assume "x \<in> set ys"
    then show ?thesis using srt_sorted [OF assms(1)] unfolding y by simp
  qed
qed

end

text \<open>Insertion sort meets the contract.\<close>

definition insertion_sort :: "('a \<Rightarrow> 'a \<Rightarrow> bool) \<Rightarrow> 'a list \<Rightarrow> 'a list" where
  "insertion_sort lt xs = sort_stable (\<lambda>x y. \<not> lt y x) xs"

lemma insert_by_sorted_on:
  assumes "weak_order_on A lt" and "insert x (set xs) \<subseteq> A" and "sorted_wrt (\<lambda>x y. \<not> lt y x) xs"
  shows "sorted_wrt (\<lambda>x y. \<not> lt y x) (insert_by (\<lambda>x y. \<not> lt y x) x xs)"
  using assms(2,3)
proof (induction xs)
  case (Cons y ys)
  have set: "set (insert_by (\<lambda>x y. \<not> lt y x) x ys) = insert x (set ys)"
    by (metis mset_insert_by set_mset_add_mset_insert set_mset_mset)
  show ?case
  proof (cases "lt y x")
    case True
    have sub: "insert x (set ys) \<subseteq> A" "y \<in> A" "x \<in> A" using Cons.prems(1) by simp_all
    have "\<not> lt x y" using assms(1) sub(2,3) True unfolding weak_order_on_def by blast
    moreover have "sorted_wrt (\<lambda>x y. \<not> lt y x) (insert_by (\<lambda>x y. \<not> lt y x) x ys)"
      by (rule Cons.IH [OF sub(1)]) (use Cons.prems(2) in simp)
    ultimately show ?thesis using True Cons.prems(2) by (simp add: set)
  next
    case False
    have "\<not> lt z x" if "z \<in> set ys" for z
    proof -
      have "\<not> lt z y" using Cons.prems(2) that by simp
      moreover have "x \<in> A" "y \<in> A" "z \<in> A" using Cons.prems(1) that by auto
      ultimately show ?thesis using assms(1) False unfolding weak_order_on_def by blast
    qed
    then show ?thesis using False Cons.prems(2) by simp
  qed
qed simp

lemma insertion_sorted_on:
  assumes "weak_order_on A lt"
  shows "set xs \<subseteq> A \<Longrightarrow> sorted_wrt (\<lambda>x y. \<not> lt y x) (insertion_sort lt xs)"
proof (induction xs)
  case (Cons x xs)
  then have "sorted_wrt (\<lambda>x y. \<not> lt y x) (insertion_sort lt xs)" "insert x (set (insertion_sort lt xs)) \<subseteq> A"
    by (simp_all add: insertion_sort_def)
  from insert_by_sorted_on [OF assms this(2,1)] show ?case by (simp add: insertion_sort_def sort_stable_def)
qed (simp add: insertion_sort_def sort_stable_def)

interpretation insertion: go_sort insertion_sort
  by unfold_locales (simp add: insertion_sort_def, rule insertion_sorted_on, assumption, simp)

section \<open>The order of the scorer\<close>

text \<open>The savings of a recommendation that can be ranked are numbers.\<close>

definition ranked :: "Recommendation \<Rightarrow> bool" where
  "ranked r \<longleftrightarrow> r_SavingsPercentage r \<noteq> NaN \<and> r_EstimatedSavings r \<noteq> NaN"

lemma float_linear: "x \<noteq> NaN \<Longrightarrow> y \<noteq> NaN \<Longrightarrow> x < y \<or> feq x y \<or> (y::float64) < x"
  by (cases x; cases y) (auto simp: less_float64_def)

lemma feq_less: "feq x y \<Longrightarrow> x < z \<longleftrightarrow> y < (z::float64)" "feq x y \<Longrightarrow> z < x \<longleftrightarrow> z < (y::float64)"
  by (cases x; cases y; cases z; auto simp: less_float64_def)+

lemma float_less_irrefl: "\<not> (x::float64) < x" "x < y \<Longrightarrow> \<not> y < (x::float64)" "feq x y \<Longrightarrow> \<not> x < y" "x < y \<Longrightarrow> y < z \<Longrightarrow> x < (z::float64)"
  by (cases x; cases y; cases z; auto simp: less_float64_def)+

lemma feq_not_less: "feq x y \<Longrightarrow> \<not> x < y \<and> \<not> y < (x::float64)"
  by (cases x; cases y; auto simp: less_float64_def)

lemma lex_trans:
  fixes a b c :: float64
  assumes "b < a \<or> feq a b \<and> P" and "c < b \<or> feq b c \<and> Q" and "P \<Longrightarrow> Q \<Longrightarrow> R"
  shows "c < a \<or> feq a c \<and> R"
proof (cases "feq a b \<and> P")
  case True
  then have ab: "feq a b" "P" by simp_all
  show ?thesis
  proof (cases "feq b c \<and> Q")
    case True
    then show ?thesis using ab assms(3) feq_trans [of a b c] by simp
  next
    case False
    then have "c < b" using assms(2) by blast
    then show ?thesis using feq_less(2) [OF ab(1), of c] by simp
  qed
next
  case False
  then have ba: "b < a" using assms(1) by blast
  then show ?thesis using assms(2) feq_less(1) [of b c a] float_less_irrefl(4) [of c b a] by auto
qed

lemma ranks_before_weak_order: "weak_order_on (Collect ranked) ranks_before"
proof -
  have asym: "\<not> ranks_before y x" if "ranks_before x y" for x y
    using that by (auto simp: ranks_before_def feq_sym float_less_irrefl(1,3) dest: float_less_irrefl(2) split: if_splits)
  have le: "\<not> ranks_before y x \<longleftrightarrow> r_SavingsPercentage y < r_SavingsPercentage x
      \<or> (feq (r_SavingsPercentage x) (r_SavingsPercentage y) \<and> (r_EstimatedSavings y < r_EstimatedSavings x
         \<or> (feq (r_EstimatedSavings x) (r_EstimatedSavings y) \<and> rank_key x \<le> rank_key y)))" if "ranked x" "ranked y" for x y
    using that float_linear [of "r_SavingsPercentage x" "r_SavingsPercentage y"] float_linear [of "r_EstimatedSavings x" "r_EstimatedSavings y"]
    by (auto simp: ranks_before_def ranked_def feq_sym not_less dest: float_less_irrefl(2) feq_not_less)
  have "\<not> ranks_before z x" if "ranked x" "ranked y" "ranked z" "\<not> ranks_before y x" "\<not> ranks_before z y" for x y z
  proof -
    note xy = that(4) [unfolded le [OF that(1,2)]] and yz = that(5) [unfolded le [OF that(2,3)]]
    show ?thesis unfolding le [OF that(1,3)]
      by (rule lex_trans [OF xy yz]) (rule lex_trans, assumption+, rule order_trans)
  qed
  with asym show ?thesis unfolding weak_order_on_def by blast
qed

section \<open>What passes\<close>

text \<open>The filters as conditions on the recommendation.\<close>

definition admissible :: "int \<Rightarrow> score_config \<Rightarrow> Recommendation \<Rightarrow> bool" where
  "admissible unix cfg rec \<longleftrightarrow>
     (EnabledServices cfg = [] \<or> to_lower (r_Service rec) \<in> to_lower ` set (EnabledServices cfg))
   \<and> (0 < sc_MinSavingsPct cfg \<or> MinSavingsPctSet cfg \<longrightarrow> sc_MinSavingsPct cfg \<le> r_SavingsPercentage rec)
   \<and> (0 < MaxBreakEvenMonths cfg \<longrightarrow> (case BreakEven unix rec of
        Some months \<Rightarrow> \<not> float_of_int (MaxBreakEvenMonths cfg) < months | None \<Rightarrow> False))
   \<and> (0 < sc_MinCount cfg \<longrightarrow> r_CommitmentType rec = CommitmentSavingsPlan \<or> sc_MinCount cfg \<le> r_Count rec)"

lemma sprintf_string: "sprintf (CHR ''%'' # CHR ''s'' # f) (ArgS s # as) = s @ sprintf f as"
  by simp

lemma breakEvenReason_empty:
  "breakEvenReason unix rec m = [] \<longleftrightarrow> (case BreakEven unix rec of Some months \<Rightarrow> \<not> float_of_int m < months | None \<Rightarrow> False)"
  by (auto simp: breakEvenReason_def FilterReasonPriceUnknown_def sprintf_string sprintf_not_empty split: option.splits simp del: sprintf.simps)

lemma minCountReason_empty:
  "minCountReason rec m = [] \<longleftrightarrow> (0 < m \<longrightarrow> r_CommitmentType rec = CommitmentSavingsPlan \<or> m \<le> r_Count rec)"
  by (auto simp: minCountReason_def sprintf_not_empty simp del: sprintf.simps)

lemma filterReason_empty:
  "filterReason unix rec cfg (buildServiceSet (EnabledServices cfg)) = [] \<longleftrightarrow> admissible unix cfg rec"
  by (auto simp: filterReason_def admissible_def buildServiceSet_def Let_def breakEvenReason_empty minCountReason_empty
      sprintf_not_empty simp del: sprintf.simps)

lemma score_loop_splits:
  "score_loop unix cfg (buildServiceSet (EnabledServices cfg)) recs = \<lparr>
     Passed = map (with_break_even unix) (filter (admissible unix cfg) recs),
     Filtered = map (\<lambda>rec. \<lparr>FilterReason = filterReason unix rec cfg (buildServiceSet (EnabledServices cfg)), fr_Recommendation = rec\<rparr>)
       (filter (\<lambda>rec. \<not> admissible unix cfg rec) recs)\<rparr>"
  by (induction recs) (simp_all add: Let_def filterReason_empty)

lemma with_break_even_keeps [simp]:
  "r_SavingsPercentage (with_break_even unix r) = r_SavingsPercentage r"
  "r_EstimatedSavings (with_break_even unix r) = r_EstimatedSavings r"
  by (simp_all add: with_break_even_def split: option.splits)

text \<open>
  The conditions in the order they apply, each with what a recommendation that fails it is told: an enabled service, the
  minimum savings, the maximum break-even (unknown for want of a price, not computable, or too long), the minimum count.
\<close>

definition score_conditions :: "int \<Rightarrow> score_config \<Rightarrow> Recommendation \<Rightarrow> (bool \<times> go_string) list" where
  "score_conditions unix cfg rec =
     [(EnabledServices cfg = [] \<or> to_lower (r_Service rec) \<in> to_lower ` set (EnabledServices cfg),
       sprintf ''service %q not in enabled list'' [ArgS (r_Service rec)]),
      (0 < sc_MinSavingsPct cfg \<or> MinSavingsPctSet cfg \<longrightarrow> sc_MinSavingsPct cfg \<le> r_SavingsPercentage rec,
       sprintf ''savings %.1f%% below minimum %.1f%%'' [ArgF (r_SavingsPercentage rec), ArgF (sc_MinSavingsPct cfg)]),
      (0 < MaxBreakEvenMonths cfg \<longrightarrow> BreakEven unix rec \<noteq> None \<or> \<not> UpfrontPriceUnknown rec,
       sprintf ''price-unknown: no upfront price for payment option %q; --max-break-even-months %d cannot be enforced''
         [ArgS (r_PaymentOption rec), ArgI (MaxBreakEvenMonths cfg)]),
      (0 < MaxBreakEvenMonths cfg \<longrightarrow> BreakEven unix rec \<noteq> None,
       sprintf ''break-even cannot be computed (upfront %.2f, savings %.2f, term %q); --max-break-even-months %d cannot be enforced''
         [ArgF (r_CommitmentCost rec), ArgF (r_EstimatedSavings rec), ArgS (r_Term rec), ArgI (MaxBreakEvenMonths cfg)]),
      (0 < MaxBreakEvenMonths cfg \<longrightarrow> \<not> float_of_int (MaxBreakEvenMonths cfg) < the (BreakEven unix rec),
       sprintf ''break-even %.1f months exceeds maximum %d months'' [ArgF (the (BreakEven unix rec)), ArgI (MaxBreakEvenMonths cfg)]),
      (0 < sc_MinCount cfg \<longrightarrow> r_CommitmentType rec = CommitmentSavingsPlan \<or> sc_MinCount cfg \<le> r_Count rec,
       sprintf ''count %d below minimum %d'' [ArgI (r_Count rec), ArgI (sc_MinCount cfg)])]"

fun first_failure :: "(bool \<times> go_string) list \<Rightarrow> go_string option" where
  "first_failure [] = None"
| "first_failure ((holds, what) # rest) = (if holds then first_failure rest else Some what)"

lemma admissible_conditions: "admissible unix cfg rec \<longleftrightarrow> first_failure (score_conditions unix cfg rec) = None"
  by (auto simp: admissible_def score_conditions_def split: option.splits simp del: sprintf.simps)

lemma breakEvenReason_failure:
  assumes "0 < m"
  shows "(if breakEvenReason unix rec m = [] then None else Some (breakEvenReason unix rec m)) = first_failure
     [(BreakEven unix rec \<noteq> None \<or> \<not> UpfrontPriceUnknown rec,
       sprintf ''price-unknown: no upfront price for payment option %q; --max-break-even-months %d cannot be enforced''
         [ArgS (r_PaymentOption rec), ArgI m]),
      (BreakEven unix rec \<noteq> None,
       sprintf ''break-even cannot be computed (upfront %.2f, savings %.2f, term %q); --max-break-even-months %d cannot be enforced''
         [ArgF (r_CommitmentCost rec), ArgF (r_EstimatedSavings rec), ArgS (r_Term rec), ArgI m]),
      (\<not> float_of_int m < the (BreakEven unix rec),
       sprintf ''break-even %.1f months exceeds maximum %d months'' [ArgF (the (BreakEven unix rec)), ArgI m])]"
proof (cases "BreakEven unix rec")
  case None
  have "sprintf ''%s: no upfront price for payment option %q; --max-break-even-months %d cannot be enforced''
       [ArgS FilterReasonPriceUnknown, ArgS (r_PaymentOption rec), ArgI m]
     = sprintf ''price-unknown: no upfront price for payment option %q; --max-break-even-months %d cannot be enforced''
       [ArgS (r_PaymentOption rec), ArgI m]"
    by (simp add: FilterReasonPriceUnknown_def)
  with None show ?thesis by (simp add: breakEvenReason_def sprintf_not_empty del: sprintf.simps)
next
  case (Some months)
  then show ?thesis by (simp add: breakEvenReason_def sprintf_not_empty del: sprintf.simps)
qed

lemma first_failure_append: "first_failure (xs @ ys) = (case first_failure xs of None \<Rightarrow> first_failure ys | Some w \<Rightarrow> Some w)"
  by (induction xs rule: first_failure.induct) auto

lemma filterReason_first:
  assumes "\<not> admissible unix cfg rec"
  shows "first_failure (score_conditions unix cfg rec) = Some (filterReason unix rec cfg (buildServiceSet (EnabledServices cfg)))"
proof -
  let ?s = "EnabledServices cfg = [] \<or> to_lower (r_Service rec) \<in> to_lower ` set (EnabledServices cfg)"
  let ?v = "0 < sc_MinSavingsPct cfg \<or> MinSavingsPctSet cfg \<longrightarrow> sc_MinSavingsPct cfg \<le> r_SavingsPercentage rec"
  show ?thesis
  proof (cases "?s \<and> ?v")
    case False
    then show ?thesis
      by (auto simp: score_conditions_def filterReason_def buildServiceSet_def Let_def simp del: sprintf.simps)
  next
    case True
    let ?b = "if 0 < MaxBreakEvenMonths cfg then breakEvenReason unix rec (MaxBreakEvenMonths cfg) else []"
    have reason: "filterReason unix rec cfg (buildServiceSet (EnabledServices cfg)) = (if ?b \<noteq> [] then ?b else minCountReason rec (sc_MinCount cfg))"
      using True by (auto simp: filterReason_def buildServiceSet_def Let_def simp del: sprintf.simps)
    have split: "first_failure (score_conditions unix cfg rec) = (case first_failure (take 3 (drop 2 (score_conditions unix cfg rec))) of
        None \<Rightarrow> first_failure (drop 5 (score_conditions unix cfg rec)) | Some w \<Rightarrow> Some w)"
      using True by (simp add: score_conditions_def del: sprintf.simps)
    have "first_failure (take 3 (drop 2 (score_conditions unix cfg rec))) = (if ?b = [] then None else Some ?b)"
    proof (cases "0 < MaxBreakEvenMonths cfg")
      case True
      note three = breakEvenReason_failure [OF True, of unix rec]
      have "first_failure (take 3 (drop 2 (score_conditions unix cfg rec)))
          = (if breakEvenReason unix rec (MaxBreakEvenMonths cfg) = [] then None else Some (breakEvenReason unix rec (MaxBreakEvenMonths cfg)))"
        unfolding three using True by (simp add: score_conditions_def del: sprintf.simps)
      with True show ?thesis by (simp only: if_True)
    next
      case False
      then show ?thesis by (simp add: score_conditions_def del: sprintf.simps)
    qed
    moreover have "first_failure (drop 5 (score_conditions unix cfg rec)) = Some (minCountReason rec (sc_MinCount cfg))" if "?b = []"
    proof -
      have "minCountReason rec (sc_MinCount cfg) \<noteq> []"
        using assms that reason by (metis filterReason_empty)
      then show ?thesis
        by (auto simp: score_conditions_def minCountReason_def simp del: sprintf.simps split: if_splits)
    qed
    ultimately show ?thesis unfolding split reason by simp
  qed
qed

text \<open>C19. Score loses and invents nothing: the recommendations that meet every condition pass, up to the break-even filled in, and
  the others are returned in order, each with the reason of the first condition it fails: its service is not enabled, its savings
  are below the minimum, its break-even is unknown for want of an upfront price, cannot be computed or is too long, its count is
  below the minimum, in this order.\<close>

theorem score_accounts_for_all:
  assumes "go_sort srt"
  shows "mset (Passed (Score srt unix recs cfg)) = mset (map (with_break_even unix) (filter (admissible unix cfg) recs))
     \<and> map fr_Recommendation (Filtered (Score srt unix recs cfg)) = filter (\<lambda>r. \<not> admissible unix cfg r) recs
     \<and> list_all (\<lambda>f. first_failure (score_conditions unix cfg (fr_Recommendation f)) = Some (FilterReason f) \<and> FilterReason f \<noteq> [])
         (Filtered (Score srt unix recs cfg))
     \<and> list_all (\<lambda>r. admissible unix cfg r \<longleftrightarrow> first_failure (score_conditions unix cfg r) = None) recs"
proof -
  have "list_all (\<lambda>f. first_failure (score_conditions unix cfg (fr_Recommendation f)) = Some (FilterReason f) \<and> FilterReason f \<noteq> [])
      (Filtered (score_loop unix cfg (buildServiceSet (EnabledServices cfg)) recs))"
    unfolding score_loop_splits by (simp add: list_all_iff filterReason_empty filterReason_first)
  moreover have "map fr_Recommendation (Filtered (score_loop unix cfg (buildServiceSet (EnabledServices cfg)) recs))
      = filter (\<lambda>r. \<not> admissible unix cfg r) recs"
    unfolding score_loop_splits by (simp add: comp_def)
  ultimately show ?thesis using go_sort.srt_mset [OF assms]
    by (simp add: Score_def Let_def list_all_iff admissible_conditions [symmetric]) (simp add: score_loop_splits)
qed

text \<open>When savings are numbers, the passed recommendations are ranked: by savings percentage, then by
  savings, then by service, region and type, whatever order the unstable sort leaves equal ones in.\<close>

theorem score_ranks:
  assumes "go_sort srt" and "list_all ranked recs"
  shows "sorted_wrt (\<lambda>a b. \<not> ranks_before b a) (Passed (Score srt unix recs cfg))"
proof -
  let ?p = "Passed (score_loop unix cfg (buildServiceSet (EnabledServices cfg)) recs)"
  have "set ?p \<subseteq> Collect ranked"
    using assms(2) unfolding score_loop_splits by (auto simp: list_all_iff ranked_def)
  then have "weak_order_on (set ?p) ranks_before"
    using ranks_before_weak_order unfolding weak_order_on_def by blast
  from go_sort.srt_sorted [OF assms(1) this] show ?thesis by (simp add: Score_def Let_def)
qed

definition demo_score_recs :: "Recommendation list" where
  "demo_score_recs = [zero_rec\<lparr>r_SavingsPercentage := Fin 10, r_Count := 2\<rparr>, zero_rec\<lparr>r_SavingsPercentage := Fin 30, r_Count := 1\<rparr>,
     zero_rec\<lparr>r_SavingsPercentage := Fin 20, r_Count := 2\<rparr>]"

definition demo_score_cfg :: score_config where
  "demo_score_cfg = \<lparr>EnabledServices = [], sc_MinSavingsPct = Fin 0, MaxBreakEvenMonths = 0, sc_MinCount = 2, MinSavingsPctSet = False\<rparr>"

lemma demo_admissible:
  "admissible 0 demo_score_cfg r \<longleftrightarrow> r_CommitmentType r = CommitmentSavingsPlan \<or> 2 \<le> r_Count r"
  by (simp add: admissible_def demo_score_cfg_def)

theorem score_accounts_for_all_witness:
  "map fr_Recommendation (Filtered (Score insertion_sort 0 demo_score_recs demo_score_cfg)) = [demo_score_recs ! 1]
   \<and> map FilterReason (Filtered (Score insertion_sort 0 demo_score_recs demo_score_cfg)) = [sprintf ''count %d below minimum %d'' [ArgI 1, ArgI 2]]"
proof -
  note t = score_accounts_for_all [OF insertion.go_sort_axioms, of 0 demo_score_recs demo_score_cfg]
  have r: "map fr_Recommendation (Filtered (Score insertion_sort 0 demo_score_recs demo_score_cfg)) = [demo_score_recs ! 1]"
    using t by (simp add: demo_admissible) (simp add: demo_score_recs_def zero_rec_def CommitmentSavingsPlan_def)
  then obtain f where f: "Filtered (Score insertion_sort 0 demo_score_recs demo_score_cfg) = [f]" "fr_Recommendation f = demo_score_recs ! 1" by auto
  have "first_failure (score_conditions 0 demo_score_cfg (demo_score_recs ! 1)) = Some (sprintf ''count %d below minimum %d'' [ArgI 1, ArgI 2])"
    by (simp add: score_conditions_def demo_score_recs_def demo_score_cfg_def zero_rec_def CommitmentSavingsPlan_def del: sprintf.simps)
  with t f r show ?thesis by (simp del: sprintf.simps)
qed

theorem score_ranks_witness:
  "sorted_wrt (\<lambda>a b. \<not> ranks_before b a) (Passed (Score insertion_sort 0 demo_score_recs demo_score_cfg))
   \<and> length (Passed (Score insertion_sort 0 demo_score_recs demo_score_cfg)) = 2"
proof
  show "sorted_wrt (\<lambda>a b. \<not> ranks_before b a) (Passed (Score insertion_sort 0 demo_score_recs demo_score_cfg))"
    by (rule score_ranks [OF insertion.go_sort_axioms]) (simp add: demo_score_recs_def ranked_def zero_rec_def)
  show "length (Passed (Score insertion_sort 0 demo_score_recs demo_score_cfg)) = 2"
    by (simp add: Score_def Let_def insertion.srt_length score_loop_splits demo_admissible)
      (simp add: demo_score_recs_def demo_admissible zero_rec_def CommitmentSavingsPlan_def)
qed

end
