(* ===== verification/Az_Names.thy ===== *)
theory Az_Names
  imports Rec_Tokens
begin

text \<open>
  Display names of Azure reservations: \<open>displayname.go\<close> composes and sanitises a name of at most 64
  characters, \<open>idempotencymarker.go\<close> appends the marker that identifies the purchase to a later
  lookup. The lemmas show that the marker survives every truncation and is found again.
\<close>

section \<open>Sanitised names (displayname.go)\<close>

definition azureDisplayNameMaxLen :: nat where
  "azureDisplayNameMaxLen = 64"

definition isAllowedDisplayNameChar :: "char \<Rightarrow> bool" where
  "isAllowedDisplayNameChar r = (let n = (of_char r :: nat) in
     (65 \<le> n \<and> n \<le> 90) \<or> (97 \<le> n \<and> n \<le> 122) \<or> (48 \<le> n \<and> n \<le> 57) \<or> r = CHR ''-'')"

text \<open>
  The loop over the runes: a run of characters that are not allowed is one underscore. The bytes of
  a longer rune are all not allowed, so walking over bytes writes the same.
\<close>

fun sanitize_loop :: "bool \<Rightarrow> go_string \<Rightarrow> go_string" where
  "sanitize_loop lastWasUnderscore [] = []"
| "sanitize_loop lastWasUnderscore (r # s) =
    (if isAllowedDisplayNameChar r \<or> r = CHR ''_'' then r # sanitize_loop (r = CHR ''_'') s
     else if \<not> lastWasUnderscore then CHR ''_'' # sanitize_loop True s
     else sanitize_loop lastWasUnderscore s)"

definition SanitizeDisplayName :: "go_string \<Rightarrow> go_string" where
  "SanitizeDisplayName s = (let result = sanitize_loop False s in
     if length result > azureDisplayNameMaxLen then take azureDisplayNameMaxLen result else result)"

record DisplayNameFields =
  f_Now :: go_time
  f_Service :: go_string
  f_Region :: go_string
  f_ResourceType :: go_string
  f_Term :: go_string
  f_Payment :: go_string
  f_rand :: "nat list"
  f_Count :: int

definition WithRandSource :: "DisplayNameFields \<Rightarrow> nat list \<Rightarrow> DisplayNameFields" where
  "WithRandSource f b = f\<lparr>f_rand := b\<rparr>"

definition normalizeSegment :: "go_string \<Rightarrow> go_string" where
  "normalizeSegment s = SanitizeDisplayName (map (\<lambda>c. if c = CHR ''-'' then CHR ''_'' else c) s)"

definition normalizeTerm :: "go_string \<Rightarrow> go_string" where
  "normalizeTerm s = (let t = to_lower (trim_space s) in
     if t \<in> {''1'', ''1yr'', ''1y'', ''p1y''} then ''1yr''
     else if t \<in> {''3'', ''3yr'', ''3y'', ''p3y''} then ''3yr''
     else normalizeSegment s)"

definition normalizePayment :: "go_string \<Rightarrow> go_string" where
  "normalizePayment s = (let t = to_lower (trim_space s) in
     if t \<in> {''all-upfront'', ''allupfront'', ''upfront''} then ''allup''
     else if t \<in> {''no-upfront'', ''noupfront''} then ''noup''
     else if t \<in> {''partial-upfront'', ''partialupfront'', ''partial''} then ''partup''
     else if t = ''monthly'' then ''monthly''
     else if t = [] then []
     else let out = normalizeSegment s in if length out > 6 then take 6 out else out)"

definition joinNonEmpty :: "go_string list \<Rightarrow> go_string \<Rightarrow> go_string" where
  "joinNonEmpty parts sep = join_with sep (filter (\<lambda>p. p \<noteq> []) parts)"

text \<open>\<open>entropy\<close> is what \<open>crypto/rand\<close> delivers, \<open>None\<close> when it fails.\<close>

definition generateRandSuffix :: "nat list option \<Rightarrow> nat list \<Rightarrow> go_string" where
  "generateRandSuffix entropy src =
    (if 4 \<le> length src then hex_encode (take 4 src)
     else case entropy of None \<Rightarrow> [] | Some b \<Rightarrow> hex_encode (take 4 b))"

text \<open>The loop that drops segments from the right; \<open>keep\<close> counts the optional ones kept.\<close>

fun display_loop :: "go_string list \<Rightarrow> go_string list \<Rightarrow> nat \<Rightarrow> go_string option" where
  "display_loop required tail keep =
    (let candidate = joinNonEmpty (required @ take keep tail) ''-'' in
     if length candidate \<le> azureDisplayNameMaxLen then Some (SanitizeDisplayName candidate)
     else case keep of 0 \<Rightarrow> None | Suc k \<Rightarrow> display_loop required tail k)"

definition display_required :: "DisplayNameFields \<Rightarrow> go_string list" where
  "display_required f = [normalizeSegment (f_Service f), normalizeSegment (f_Region f),
     normalizeSegment (f_ResourceType f), sprintf ''%dx'' [ArgI (f_Count f)], normalizeTerm (f_Term f)]"

definition BuildDisplayName :: "go_time \<Rightarrow> nat list option \<Rightarrow> DisplayNameFields \<Rightarrow> go_string" where
  "BuildDisplayName clock entropy f =
    (let required = display_required f;
         paymt = normalizePayment (f_Payment f);
         ts = compact_time (if is_zero_time (f_Now f) then clock else f_Now f);
         randHex = generateRandSuffix entropy (f_rand f);
         tail = [paymt, ts, randHex]
     in case display_loop required tail (length tail) of
          Some name \<Rightarrow> name
        | None \<Rightarrow> SanitizeDisplayName (joinNonEmpty required ''-''))"

section \<open>The idempotency marker (idempotencymarker.go)\<close>

definition idempotencyMarkerPrefix :: go_string where
  "idempotencyMarkerPrefix = ''cudly''"

definition idempotencyMarkerHexLen :: nat where
  "idempotencyMarkerHexLen = 16"

definition idempotencyDisplayNameMarker :: "go_string \<Rightarrow> go_string" where
  "idempotencyDisplayNameMarker token =
     idempotencyMarkerPrefix @ take idempotencyMarkerHexLen (hex_encode (sha256 (bytes_of token)))"

definition has_suffix :: "go_string \<Rightarrow> go_string \<Rightarrow> bool" where
  "has_suffix s suf \<longleftrightarrow> length suf \<le> length s \<and> drop (length s - length suf) s = suf"

definition displayNameCarriesToken :: "go_string \<Rightarrow> go_string \<Rightarrow> bool" where
  "displayNameCarriesToken displayName token = (let marker = idempotencyDisplayNameMarker token in
     displayName = marker \<or> has_suffix displayName (''-'' @ marker))"

text \<open>\<open>utf8.RuneStart\<close>: not a continuation byte.\<close>

definition rune_start :: "char \<Rightarrow> bool" where
  "rune_start c \<longleftrightarrow> \<not> (128 \<le> (of_char c :: nat) \<and> (of_char c :: nat) < 192)"

fun back_to_rune :: "go_string \<Rightarrow> nat \<Rightarrow> nat" where
  "back_to_rune s 0 = 0"
| "back_to_rune s (Suc i) = (if \<not> rune_start (s ! Suc i) then back_to_rune s i else Suc i)"

definition truncateToRuneBoundary :: "go_string \<Rightarrow> nat \<Rightarrow> go_string" where
  "truncateToRuneBoundary s maxBytes = (if length s \<le> maxBytes then s else take (back_to_rune s maxBytes) s)"

text \<open>\<open>strings.LastIndexByte\<close>, \<open>None\<close> for \<open>-1\<close>.\<close>

fun last_index :: "char \<Rightarrow> go_string \<Rightarrow> nat option" where
  "last_index c [] = None"
| "last_index c (x # s) = (case last_index c s of Some i \<Rightarrow> Some (Suc i) | None \<Rightarrow> if x = c then Some 0 else None)"

lemma last_index_less: "last_index c s = Some i \<Longrightarrow> i < length s"
  by (induction s arbitrary: i) (auto split: option.splits if_splits)

lemma length_trim_right: "length (trim_right_char c s) \<le> length s"
  using length_dropWhile_le [of "\<lambda>x. x = c" "rev s"] by (simp add: trim_right_char_def)

function shorten_name :: "nat \<Rightarrow> go_string \<Rightarrow> go_string" where
  "shorten_name room name =
    (if length name \<le> room then name
     else case last_index CHR ''-'' name of
       None \<Rightarrow> truncateToRuneBoundary name room
     | Some i \<Rightarrow> if i = 0 then truncateToRuneBoundary name room
         else shorten_name room (trim_right_char CHR ''-'' (take i name)))"
  by pat_completeness auto
termination
proof (relation "measure (length o snd)")
  fix room name i
  assume "last_index CHR ''-'' name = Some i" "i \<noteq> (0 :: nat)"
  then have "length (take i name) < length name" by (auto dest: last_index_less)
  then show "((room, trim_right_char CHR ''-'' (take i name)), room, name) \<in> measure (length o snd)"
    using length_trim_right [of "CHR ''-''" "take i name"] by simp
qed simp

declare shorten_name.simps [simp del]

definition withIdempotencyMarker :: "go_string \<Rightarrow> go_string \<Rightarrow> go_string" where
  "withIdempotencyMarker displayName token =
    (let marker = idempotencyDisplayNameMarker token;
         room = azureDisplayNameMaxLen - length marker - 1;
         name = shorten_name room (trim_right_char CHR ''-'' displayName)
     in if name = [] then marker else name @ ''-'' @ marker)"

section \<open>Names fit and keep their marker\<close>

lemma length_marker [simp]: "length (idempotencyDisplayNameMarker token) = 21"
  by (simp add: idempotencyDisplayNameMarker_def idempotencyMarkerPrefix_def idempotencyMarkerHexLen_def)

lemma back_to_rune_le: "back_to_rune s n \<le> n"
  by (induction n) auto

lemma length_truncateToRuneBoundary: "length (truncateToRuneBoundary s n) \<le> n"
  using back_to_rune_le [of s n] by (auto simp: truncateToRuneBoundary_def)

lemma length_shorten_name: "length (shorten_name room name) \<le> room"
proof (induction room name rule: shorten_name.induct)
  case (1 room name)
  then show ?case
    by (subst shorten_name.simps) (auto simp: length_truncateToRuneBoundary split: option.splits)
qed

lemma trim_right_prefix: "\<exists>rest. s = trim_right_char c s @ rest"
  by (metis rev_append rev_rev_ident takeWhile_dropWhile_id trim_right_char_def)

lemma shorten_name_prefix: "\<exists>rest. name = shorten_name room name @ rest"
proof (induction room name rule: shorten_name.induct)
  case (1 room name)
  have t: "\<exists>rest. name = truncateToRuneBoundary name n @ rest" for n
    by (metis append_Nil2 append_take_drop_id truncateToRuneBoundary_def)
  show ?case
  proof (cases "length name \<le> room \<or> last_index CHR ''-'' name \<in> {None, Some 0}")
    case True
    then show ?thesis using t by (subst shorten_name.simps) (auto split: option.splits)
  next
    case False
    then obtain i where i: "last_index CHR ''-'' name = Some i" "i \<noteq> 0" "\<not> length name \<le> room" by auto
    then have "shorten_name room name = shorten_name room (trim_right_char CHR ''-'' (take i name))"
      by (subst shorten_name.simps) simp
    with 1 [OF i(3,1,2)] obtain r where "trim_right_char CHR ''-'' (take i name) = shorten_name room name @ r" by auto
    then show ?thesis using trim_right_prefix [of "take i name" "CHR ''-''"] by (metis append.assoc append_take_drop_id)
  qed
qed

text \<open>
  The marked name fits into Azure's limit, carries the marker of its token, and starts with what is
  left of the name it was made from.
\<close>

lemma withIdempotencyMarker_carries:
  "displayNameCarriesToken (withIdempotencyMarker name token) token
   \<and> length (withIdempotencyMarker name token) \<le> azureDisplayNameMaxLen"
proof -
  let ?n = "shorten_name (azureDisplayNameMaxLen - length (idempotencyDisplayNameMarker token) - 1) (trim_right_char CHR ''-'' name)"
  have "length ?n \<le> 42"
    using length_shorten_name [of 42] by (simp add: azureDisplayNameMaxLen_def)
  then show ?thesis
    by (auto simp: withIdempotencyMarker_def displayNameCarriesToken_def has_suffix_def Let_def azureDisplayNameMaxLen_def)
qed


text \<open>Sanitised text: at most 64 characters, all of them allowed; text that is so already is kept.\<close>

definition display_char :: "char \<Rightarrow> bool" where
  "display_char c \<longleftrightarrow> isAllowedDisplayNameChar c \<or> c = CHR ''_''"

lemma sanitize_loop_allowed: "list_all display_char (sanitize_loop b s)"
  by (induction b s rule: sanitize_loop.induct) (auto simp: display_char_def)

lemma sanitize_loop_id: "list_all display_char s \<Longrightarrow> sanitize_loop b s = s"
  by (induction s arbitrary: b) (auto simp: display_char_def)

lemma list_all_take: "list_all P s \<Longrightarrow> list_all P (take n s)"
  by (auto simp: list_all_iff dest: in_set_takeD)

lemma SanitizeDisplayName_fits:
  "length (SanitizeDisplayName s) \<le> azureDisplayNameMaxLen \<and> list_all display_char (SanitizeDisplayName s)"
  by (auto simp: SanitizeDisplayName_def Let_def sanitize_loop_allowed list_all_take)

lemma SanitizeDisplayName_id:
  "list_all display_char s \<Longrightarrow> length s \<le> azureDisplayNameMaxLen \<Longrightarrow> SanitizeDisplayName s = s"
  by (simp add: SanitizeDisplayName_def sanitize_loop_id)

lemma BuildDisplayName_fits:
  "length (BuildDisplayName clock entropy f) \<le> azureDisplayNameMaxLen
   \<and> list_all display_char (BuildDisplayName clock entropy f)"
proof -
  have "\<exists>t. name = SanitizeDisplayName t" if "display_loop r t k = Some name" for r t k name
    using that by (induction r t k rule: display_loop.induct) (auto simp: Let_def split: if_splits nat.splits)
  then show ?thesis
    using SanitizeDisplayName_fits by (auto simp: BuildDisplayName_def Let_def split: option.splits)
qed

text \<open>A segment has no hyphen, so the name splits back into its segments.\<close>

definition segment :: "go_string \<Rightarrow> bool" where
  "segment s \<longleftrightarrow> list_all display_char s \<and> CHR ''-'' \<notin> set s"

lemma sanitize_loop_no_hyphen: "CHR ''-'' \<notin> set s \<Longrightarrow> CHR ''-'' \<notin> set (sanitize_loop b s)"
  by (induction b s rule: sanitize_loop.induct) auto

lemma segment_normalizeSegment: "segment (normalizeSegment s)"
proof -
  have "CHR ''-'' \<notin> set (SanitizeDisplayName t)" if "CHR ''-'' \<notin> set t" for t
    using sanitize_loop_no_hyphen [OF that] by (auto simp: SanitizeDisplayName_def Let_def dest: in_set_takeD)
  moreover have "CHR ''-'' \<notin> set (map (\<lambda>c. if c = CHR ''-'' then CHR ''_'' else c) s)" by auto
  ultimately show ?thesis using SanitizeDisplayName_fits by (simp add: normalizeSegment_def segment_def)
qed

lemma segment_take: "segment s \<Longrightarrow> segment (take n s)"
  by (auto simp: segment_def list_all_take dest: in_set_takeD)

lemma segment_words: "segment ''1yr''" "segment ''3yr''" "segment ''allup''" "segment ''noup''" "segment ''partup''" "segment ''monthly''" "segment []"
  by code_simp+

lemma segment_normalizeTerm: "segment (normalizeTerm s)"
  by (simp add: normalizeTerm_def Let_def segment_words segment_normalizeSegment)

lemma segment_normalizePayment: "segment (normalizePayment s)"
  by (simp add: normalizePayment_def Let_def segment_words segment_normalizeSegment segment_take)

lemma segment_append: "segment (s @ t) \<longleftrightarrow> segment s \<and> segment t"
  by (auto simp: segment_def)

lemma split_join: "ps \<noteq> [] \<Longrightarrow> \<forall>p \<in> set ps. c \<notin> set p \<Longrightarrow> split_at c (join_with [c] ps) = ps"
proof (induction "[c]" ps rule: join_with.induct)
  case (2 p)
  then show ?case by (induction p) auto
next
  case (3 p q ps)
  have "split_at c (p @ c # s) = p # split_at c s" if "c \<notin> set p" for s
    using that by (induction p) auto
  with 3 show ?case by simp
qed simp

lemma join_display: "\<forall>p \<in> set ps. segment p \<Longrightarrow> list_all display_char (join_with ''-'' ps)"
proof (induction "''-''" ps rule: join_with.induct)
  case (3 p q ps)
  have "display_char CHR ''-''" by code_simp
  with 3 show ?case by (simp add: segment_def)
qed (auto simp: segment_def)

lemma digit_char_display: "d < 10 \<Longrightarrow> display_char (digit_char d) \<and> digit_char d \<noteq> CHR ''-''"
proof -
  assume d: "d < 10"
  then have n: "(of_char (digit_char d) :: nat) = 48 + d" by (simp add: of_char_digit)
  with d have "display_char (digit_char d)" by (simp add: display_char_def isAllowedDisplayNameChar_def Let_def)
  moreover have "digit_char d \<noteq> CHR ''-''"
  proof
    assume "digit_char d = CHR ''-''"
    then have "(of_char (digit_char d) :: nat) = 45" by simp
    with n show False by simp
  qed
  ultimately show ?thesis ..
qed

lemma segment_single: "segment [c] \<longleftrightarrow> display_char c \<and> c \<noteq> CHR ''-''"
  by (auto simp: segment_def)

lemma segment_show_nat: "segment (show_nat n)"
  by (induction n rule: show_nat.induct) (subst show_nat.simps, auto simp: segment_append segment_single digit_char_display segment_words)

lemma display_required_segments:
  assumes "0 \<le> f_Count f"
  shows "\<forall>p \<in> set (display_required f). segment p"
proof -
  have "segment ''x''" by code_simp
  then have "segment (sprintf ''%dx'' [ArgI (f_Count f)])"
    using assms by (simp add: show_int_def segment_append segment_show_nat)
  then show ?thesis by (simp add: display_required_def segment_normalizeSegment segment_normalizeTerm)
qed


lemma split_prefix:
  "\<forall>p \<in> set ps. c \<notin> set p \<Longrightarrow> take (length ps) (split_at c (join_with [c] (ps @ qs))) = ps"
proof (induction ps)
  case (Cons p ps)
  have step: "split_at c (p @ c # s) = p # split_at c s" if "c \<notin> set p" for s
    using that by (induction p) auto
  have last: "split_at c p = [p]" if "c \<notin> set p"
    using that by (induction p) auto
  show ?case
  proof (cases "ps @ qs")
    case Nil
    then show ?thesis using last Cons.prems by simp
  next
    case (Cons q rs)
    with step Cons.prems Cons.IH show ?thesis by simp
  qed
qed simp

lemma pad_digits_display: "list_all display_char (pad_digits p n)"
  by (induction p n rule: pad_digits.induct) (auto simp: digit_char_display)

lemma compact_time_display: "list_all display_char (compact_time t)"
proof -
  have "list_all display_char ''T''" "list_all display_char ''-''" by code_simp+
  then show ?thesis by (auto simp: compact_time_def Let_def pad_digits_display split: prod.splits)
qed

lemma hex_encode_display: "list_all display_char (hex_encode bs)"
proof -
  have "display_char (hex_char (d mod 16))" for d
    using hex_char_solid [of "d mod 16"]
    by (auto simp: display_char_def isAllowedDisplayNameChar_def isAllowedIDChar_def Let_def)
  then show ?thesis by (induction bs) (auto simp: hex_encode_def)
qed

lemma join_display_all: "\<forall>p \<in> set ps. list_all display_char p \<Longrightarrow> list_all display_char (join_with ''-'' ps)"
proof (induction "''-''" ps rule: join_with.induct)
  case (3 p q ps)
  have "display_char CHR ''-''" by code_simp
  with 3 show ?case by simp
qed auto

lemma display_loop_keeps:
  assumes "\<forall>p \<in> set (required @ tail). list_all display_char p"
    and "\<forall>p \<in> set required. p \<noteq> []" and "length (join_with ''-'' required) \<le> azureDisplayNameMaxLen"
  shows "\<exists>qs. display_loop required tail k = Some (join_with ''-'' (required @ qs)) \<and> set qs \<subseteq> set tail"
proof (induction k)
  case 0
  have "filter (\<lambda>p. p \<noteq> []) required = required" using assms(2) by simp
  then show ?case
    using assms join_display_all [of required] by (simp add: joinNonEmpty_def Let_def SanitizeDisplayName_id exI [of _ "[]"])
next
  case (Suc k)
  let ?qs = "filter (\<lambda>p. p \<noteq> []) (take (Suc k) tail)"
  have qs: "set ?qs \<subseteq> set tail" by (auto dest: in_set_takeD)
  have j: "joinNonEmpty (required @ take (Suc k) tail) ''-'' = join_with ''-'' (required @ ?qs)"
    using assms(2) by (simp add: joinNonEmpty_def)
  have "list_all display_char (join_with ''-'' (required @ ?qs))"
    using assms(1) qs by (intro join_display_all) auto
  then show ?case
  proof (cases "length (join_with ''-'' (required @ ?qs)) \<le> azureDisplayNameMaxLen")
    case True
    with \<open>list_all display_char _\<close> j have "display_loop required tail (Suc k) = Some (join_with ''-'' (required @ ?qs))"
      by (subst display_loop.simps) (simp add: Let_def SanitizeDisplayName_id)
    with qs show ?thesis by blast
  next
    case False
    with Suc j show ?thesis by (subst display_loop.simps) (simp add: Let_def del: display_loop.simps)
  qed
qed

lemma BuildDisplayName_parses:
  assumes "0 \<le> f_Count f" and "\<forall>p \<in> set (display_required f). p \<noteq> []"
    and "length (join_with ''-'' (display_required f)) \<le> azureDisplayNameMaxLen"
  shows "take 5 (split_at CHR ''-'' (BuildDisplayName clock entropy f)) = display_required f"
proof -
  let ?tail = "[normalizePayment (f_Payment f), compact_time (if is_zero_time (f_Now f) then clock else f_Now f),
    generateRandSuffix entropy (f_rand f)]"
  note seg = display_required_segments [OF assms(1)]
  have "list_all display_char (normalizePayment (f_Payment f))"
    using segment_normalizePayment by (simp add: segment_def)
  moreover have "list_all display_char (generateRandSuffix entropy (f_rand f))"
    by (simp add: generateRandSuffix_def hex_encode_display split: option.splits)
  ultimately have "\<forall>p \<in> set (display_required f @ ?tail). list_all display_char p"
    using seg by (auto simp: segment_def compact_time_display)
  from display_loop_keeps [OF this assms(2,3), of "length ?tail"]
  obtain qs where "BuildDisplayName clock entropy f = join_with ''-'' (display_required f @ qs)"
    by (auto simp: BuildDisplayName_def Let_def simp del: display_loop.simps)
  moreover have "length (display_required f) = 5" by (simp add: display_required_def)
  ultimately show ?thesis using split_prefix [of "display_required f" "CHR ''-''" qs] seg by (simp add: segment_def)
qed

end
