(* ===== verification/Az_Purchase.thy ===== *)
theory Az_Purchase
  imports Az_Names Exchange_Quote "HOL-Library.AList"
begin

text \<open>
  \<open>purchase.go\<close>, \<open>purchasecommitment.go\<close> and \<open>term.go\<close> of the Azure reservations package: the request
  body, the listing that looks for an order carrying the idempotency token, and the two-step
  purchase with its retries. Azure is a function from requests and an abstract world to responses;
  the state carries the log of the requests sent and their answers. \<open>json.Unmarshal\<close> into the two
  response structs, \<open>url.Parse\<close> and the wait between attempts are parameters of the environment.
\<close>

section \<open>Terms and billing plans\<close>

definition ParseTermYears :: "go_string \<Rightarrow> go_error + int" where
  "ParseTermYears term = (let t = to_lower (trim_space term) in
     if t \<in> {[], ''1'', ''1yr'', ''1y''} then Inr 1
     else if t \<in> {''3'', ''3yr'', ''3y''} then Inr 3
     else Inl (errorf ''unsupported reservation term: %s'' [ArgS term]))"

definition ReservationTermForYears :: "int \<Rightarrow> go_error + go_string" where
  "ReservationTermForYears years =
    (if years = 1 then Inr ''P1Y'' else if years = 3 then Inr ''P3Y''
     else Inl (errorf ''unsupported reservation term: %d years'' [ArgI years]))"

definition ReservationBillingPlanUpfront :: go_string where "ReservationBillingPlanUpfront = ''Upfront''"
definition ReservationBillingPlanMonthly :: go_string where "ReservationBillingPlanMonthly = ''Monthly''"

definition BillingPlanForPaymentOption :: "go_string \<Rightarrow> go_error + go_string" where
  "BillingPlanForPaymentOption paymentOption = (let p = to_lower (trim_space paymentOption) in
     if p \<in> {''all-upfront'', ''upfront''} then Inr ReservationBillingPlanUpfront
     else if p \<in> {''no-upfront'', ''monthly''} then Inr ReservationBillingPlanMonthly
     else if p = [] then Inl (errorf (''azure reservations support only upfront or monthly billing, and no payment option was supplied; ''
       @ ''set it explicitly (upfront or monthly) rather than relying on a default, because Azure's own ''
       @ ''default is upfront and would charge the whole commitment immediately'') [])
     else if p = ''partial-upfront'' then Inl (errorf
       ''azure reservations support only upfront or monthly billing; %q is not available (partial-upfront has no azure equivalent)''
       [ArgS paymentOption])
     else Inl (errorf ''azure reservations support only upfront or monthly billing; %q is not a recognized payment option''
       [ArgS paymentOption]))"

definition UpfrontCostForBillingPlan :: "go_string \<Rightarrow> float64 option" where
  "UpfrontCostForBillingPlan billingPlan = (if billingPlan = ReservationBillingPlanMonthly then Some 0 else None)"

section \<open>The request body\<close>

text \<open>
  The values of a \<open>map[string]interface{}\<close> the clients build: a \<open>map[string]string\<close> is a type of its
  own. \<open>json.Marshal\<close> writes the keys of a map in order and escapes strings (for valid UTF-8 text
  without the line separators U+2028 and U+2029).
\<close>

datatype go_any = AnyS go_string | AnyI int | AnyB bool
  | AnyStrMap "(go_string, go_string) go_map" | AnyMap "(go_string \<times> go_any) list"

definition json_char :: "char \<Rightarrow> go_string" where
  "json_char c = (let n = (of_char c :: nat); bs = char_of (92 :: nat) in
     if n = 34 \<or> n = 92 then [bs, c]
     else if n = 8 then [bs, CHR ''b''] else if n = 9 then [bs, CHR ''t''] else if n = 10 then [bs, CHR ''n'']
     else if n = 12 then [bs, CHR ''f''] else if n = 13 then [bs, CHR ''r'']
     else if n < 32 \<or> n \<in> {38, 60, 62} then [bs, CHR ''u'', CHR ''0'', CHR ''0'', hex_char (n div 16), hex_char (n mod 16)]
     else [c])"

definition json_string :: "go_string \<Rightarrow> go_string" where
  "json_string s = [char_of (34 :: nat)] @ concat (map json_char s) @ [char_of (34 :: nat)]"

definition json_object :: "(go_string \<times> go_string) list \<Rightarrow> go_string" where
  "json_object kvs = ''{'' @ join_with '','' (map (\<lambda>(k, v). json_string k @ '':'' @ v) (sort_key fst kvs)) @ ''}''"

fun Marshal :: "go_any \<Rightarrow> go_string" where
  "Marshal (AnyS s) = json_string s"
| "Marshal (AnyI i) = show_int i"
| "Marshal (AnyB b) = (if b then ''true'' else ''false'')"
| "Marshal (AnyStrMap m) = json_object (map (\<lambda>(k, v). (k, json_string v)) m)"
| "Marshal (AnyMap m) = json_object (map (\<lambda>(k, v). (k, Marshal v)) m)"

definition PurchaseTagKey :: go_string where "PurchaseTagKey = ''purchase-automation''"
definition IdempotencyTagKey :: go_string where "IdempotencyTagKey = ''cudly-idempotency-token''"

type_synonym go_body = "(go_string \<times> go_any) list"

definition applyIdempotencyDisplayName :: "go_body \<Rightarrow> go_string \<Rightarrow> go_body" where
  "applyIdempotencyDisplayName body token =
    (let put = (\<lambda>props. AList.update ''properties'' (AnyMap (AList.update ''displayName''
           (AnyS (withIdempotencyMarker (case map_of props ''displayName'' of Some (AnyS s) \<Rightarrow> s | _ \<Rightarrow> []) token)) props)) body)
     in case map_of body ''properties'' of
       Some (AnyMap props) \<Rightarrow> put props
     | None \<Rightarrow> put []
     | Some _ \<Rightarrow> body)"

definition ApplyPurchaseTags :: "go_body \<Rightarrow> go_string \<Rightarrow> go_string \<Rightarrow> go_body" where
  "ApplyPurchaseTags body source idempotencyToken =
    (if source = [] \<and> idempotencyToken = [] then body
     else
       let body1 = (if idempotencyToken \<noteq> [] then applyIdempotencyDisplayName body idempotencyToken else body);
           tags1 = (if source \<noteq> [] then [(PurchaseTagKey, source)] else []);
           tags2 = (if idempotencyToken \<noteq> [] then AList.update IdempotencyTagKey idempotencyToken tags1 else tags1)
       in AList.update ''tags'' (AnyStrMap tags2) body1)"

text \<open>The options the Azure services read.\<close>

record PurchaseOptions =
  o_RequestedAt :: go_time
  o_Source :: go_string
  o_ReservationID :: go_string
  o_IdempotencyToken :: go_string
  o_ExecutionID :: go_string

record PurchaseParams =
  p_DisplayName :: "Recommendation \<Rightarrow> go_string"
  p_ReservedResourceType :: go_string

definition purchase_literal :: "PurchaseParams \<Rightarrow> Recommendation \<Rightarrow> go_string \<Rightarrow> go_string \<Rightarrow> go_string \<Rightarrow> go_string \<Rightarrow> go_body" where
  "purchase_literal p rec region subscriptionID plan term =
    [(''sku'', AnyStrMap [(''name'', r_ResourceType rec)]),
     (''location'', AnyS region),
     (''properties'', AnyMap [
       (''reservedResourceType'', AnyS (p_ReservedResourceType p)),
       (''billingScopeId'', AnyS (sprintf ''/subscriptions/%s'' [ArgS subscriptionID])),
       (''billingPlan'', AnyS plan),
       (''term'', AnyS term),
       (''quantity'', AnyI (r_Count rec)),
       (''displayName'', AnyS (p_DisplayName p rec)),
       (''appliedScopeType'', AnyS ''Shared''),
       (''renew'', AnyB False)])]"

definition purchase_body :: "PurchaseParams \<Rightarrow> Recommendation \<Rightarrow> PurchaseOptions \<Rightarrow> go_string \<Rightarrow> go_string \<Rightarrow> go_string
    \<Rightarrow> go_error + go_body" where
  "purchase_body p rec opts region subscriptionID plan = (case ParseTermYears (r_Term rec) of
     Inl e \<Rightarrow> Inl e
   | Inr termYears \<Rightarrow> (case ReservationTermForYears termYears of
       Inl e \<Rightarrow> Inl e
     | Inr term \<Rightarrow> Inr (ApplyPurchaseTags (purchase_literal p rec region subscriptionID plan term)
         (o_Source opts) (o_IdempotencyToken opts))))"

definition BuildPurchaseBody :: "PurchaseParams \<Rightarrow> Recommendation \<Rightarrow> PurchaseOptions \<Rightarrow> go_string \<Rightarrow> go_string \<Rightarrow> go_string
    \<Rightarrow> go_error + go_string" where
  "BuildPurchaseBody p rec opts region subscriptionID plan =
     map_sum id (\<lambda>b. Marshal (AnyMap b)) (purchase_body p rec opts region subscriptionID plan)"

section \<open>Endpoints and responses\<close>

definition apiVersion :: go_string where "apiVersion = ''2022-11-01''"
definition BaseURL :: go_string where "BaseURL = ''https://management.azure.com''"

definition CalculatePriceURL :: go_string where
  "CalculatePriceURL = BaseURL @ ''/providers/Microsoft.Capacity/calculatePrice?api-version='' @ apiVersion"

definition PurchaseURL :: "go_string \<Rightarrow> go_string" where
  "PurchaseURL reservationOrderID = sprintf ''%s/providers/Microsoft.Capacity/reservationOrders/%s/purchase?api-version=%s''
     [ArgS BaseURL, ArgS reservationOrderID, ArgS apiVersion]"

definition ReservationOrdersListURL :: go_string where
  "ReservationOrdersListURL = BaseURL @ ''/providers/Microsoft.Capacity/reservationOrders?api-version='' @ apiVersion"

record calculatePriceResponse =
  cp_ReservationOrderID :: go_string
  cp_CurrencyCode :: go_string

record listed_order =
  lo_Name :: go_string
  lo_Tags :: "(go_string, go_string) go_map"
  lo_ProvisioningState :: go_string
  lo_DisplayName :: go_string

record reservationOrdersListResponse =
  pg_NextLink :: go_string
  pg_Value :: "listed_order list"

definition ErrCurrencyNotAccepted :: go_error where
  "ErrCurrencyNotAccepted = Sentinel ''currency not accepted''"

definition defaultCommitmentCurrency :: go_string where "defaultCommitmentCurrency = ''USD''"

definition CheckCurrency :: "go_string \<Rightarrow> go_string \<Rightarrow> go_string \<Rightarrow> go_string \<Rightarrow> go_error option" where
  "CheckCurrency source reported expected action =
    (if reported = [] then Some (wrapf ''%s reported no billing currency code; refusing to %s: %w''
       [ArgS source, ArgS action, ArgS (err_text ErrCurrencyNotAccepted)] [ErrCurrencyNotAccepted])
     else let want = (if expected = [] then defaultCommitmentCurrency else expected) in
       if \<not> equal_fold reported want then
         Some (wrapf ''%s bills in %s but the expected currency is %s; refusing to %s: %w''
           [ArgS source, ArgS reported, ArgS want, ArgS action, ArgS (err_text ErrCurrencyNotAccepted)] [ErrCurrencyNotAccepted])
       else None)"

definition checkBillingCurrency :: "go_string \<Rightarrow> go_string \<Rightarrow> go_error option" where
  "checkBillingCurrency billing commitmentCurrency =
     CheckCurrency ''calculatePrice'' billing commitmentCurrency ''purchase''"

definition sessionTimeoutFragment :: go_string where "sessionTimeoutFragment = ''Session timed out''"

definition errRetryabilityUnknown :: go_error where
  "errRetryabilityUnknown = Sentinel ''purchase retryability unknown: response body did not read completely''"

fun str_contains :: "go_string \<Rightarrow> go_string \<Rightarrow> bool" where
  "str_contains [] sub = (sub = [])"
| "str_contains (c # s) sub = (starts_with (c # s) sub \<or> str_contains s sub)"

definition IsSessionTimeout :: "go_error option \<Rightarrow> bool" where
  "IsSessionTimeout err = (case err of None \<Rightarrow> False | Some e \<Rightarrow> str_contains (err_text e) sessionTimeoutFragment)"

section \<open>The HTTP client\<close>

record http_request =
  rq_Method :: go_string
  rq_URL :: go_string
  rq_Bearer :: go_string
  rq_Body :: go_string

text \<open>\<open>rs_Body\<close> holds the bytes \<open>io.ReadAll\<close> delivered, \<open>rs_ReadErr\<close> its error.\<close>

record http_response =
  rs_StatusCode :: int
  rs_Body :: go_string
  rs_ReadErr :: "go_error option"

record 'w azure_env =
  hc_Do :: "http_request \<Rightarrow> 'w \<Rightarrow> (go_error + http_response) \<times> 'w"
  az_wait :: "'w \<Rightarrow> go_error option \<times> 'w"
  az_badURL :: "go_string \<Rightarrow> go_error option"
  json_price :: "go_string \<Rightarrow> go_error + calculatePriceResponse"
  json_orders :: "go_string \<Rightarrow> go_error + reservationOrdersListResponse"

datatype az_event = Sent http_request "go_error + http_response" | Waited "go_error option"

record 'w az_state =
  az_world :: 'w
  az_log :: "az_event list"

definition az_send :: "'w azure_env \<Rightarrow> http_request \<Rightarrow> 'w az_state \<Rightarrow> (go_error + http_response) \<times> 'w az_state" where
  "az_send env rq s = (case hc_Do env rq (az_world s) of (r, w) \<Rightarrow>
     (r, \<lparr>az_world = w, az_log = az_log s @ [Sent rq r]\<rparr>))"

definition get_request :: "go_string \<Rightarrow> go_string \<Rightarrow> http_request" where
  "get_request url bearer = \<lparr>rq_Method = ''GET'', rq_URL = url, rq_Bearer = bearer, rq_Body = []\<rparr>"

definition post_request :: "go_string \<Rightarrow> go_string \<Rightarrow> go_string \<Rightarrow> http_request" where
  "post_request url body bearer = \<lparr>rq_Method = ''POST'', rq_URL = url, rq_Bearer = bearer, rq_Body = body\<rparr>"

definition ok_2xx :: "int \<Rightarrow> bool" where
  "ok_2xx n \<longleftrightarrow> 200 \<le> n \<and> n < 300"

section \<open>Looking for an order of the same purchase\<close>

datatype orderDisposition = orderAdopt | orderRetryable | orderBlocked

definition ErrReservationOrderBlocked :: go_error where
  "ErrReservationOrderBlocked = Sentinel ''reservation order blocked''"

definition reservationOrderDispositions :: "(go_string, orderDisposition) go_map" where
  "reservationOrderDispositions = [
     (''Failed'', orderRetryable), (''Cancelled'', orderRetryable), (''Expired'', orderRetryable),
     (''BillingFailed'', orderBlocked), (''Merged'', orderAdopt), (''Split'', orderAdopt),
     (''Succeeded'', orderAdopt), (''Created'', orderAdopt), (''Creating'', orderAdopt),
     (''PendingBilling'', orderAdopt), (''ConfirmedBilling'', orderAdopt),
     (''PendingResourceHold'', orderAdopt), (''ConfirmedResourceHold'', orderAdopt)]"

definition dispositionOf :: "go_string \<Rightarrow> orderDisposition" where
  "dispositionOf state = (case map_of reservationOrderDispositions state of
     Some d \<Rightarrow> d
   | None \<Rightarrow> if state \<noteq> [] then orderBlocked else orderAdopt)"

definition maxOrderPages :: nat where
  "maxOrderPages = 50"

definition order_carries :: "listed_order \<Rightarrow> go_string \<Rightarrow> bool" where
  "order_carries order token \<longleftrightarrow> map_get [] (lo_Tags order) IdempotencyTagKey = token
     \<or> displayNameCarriesToken (lo_DisplayName order) token"

fun match_orders :: "listed_order list \<Rightarrow> go_string \<Rightarrow> go_error + go_string option" where
  "match_orders [] token = Inr None"
| "match_orders (order # rest) token =
    (if \<not> order_carries order token then match_orders rest token
     else case dispositionOf (lo_ProvisioningState order) of
       orderRetryable \<Rightarrow> match_orders rest token
     | orderBlocked \<Rightarrow> Inl (wrapf (''reservation order %q for this idempotency token is in state %s; refusing to adopt it or buy again ''
         @ ''(resolve or cancel the order in Azure, or start a new execution): %w'')
         [ArgS (lo_Name order), ArgS (lo_ProvisioningState order), ArgS (err_text ErrReservationOrderBlocked)] [ErrReservationOrderBlocked])
     | orderAdopt \<Rightarrow> if lo_Name order = [] then match_orders rest token else Inr (Some (lo_Name order)))"

definition matchReservationOrderInPage :: "reservationOrdersListResponse \<Rightarrow> go_string \<Rightarrow> go_error + go_string option" where
  "matchReservationOrderInPage page token = match_orders (pg_Value page) token"

definition fetchReservationOrdersPage :: "'w azure_env \<Rightarrow> go_string \<Rightarrow> go_string \<Rightarrow> 'w az_state
    \<Rightarrow> (go_error + reservationOrdersListResponse) \<times> 'w az_state" where
  "fetchReservationOrdersPage env pageURL bearer s = (case az_badURL env pageURL of
     Some e \<Rightarrow> (Inl (wrapf ''build list reservation orders request: %w'' [ArgS (err_text e)] [e]), s)
   | None \<Rightarrow> (case az_send env (get_request pageURL bearer) s of
       (Inl e, s') \<Rightarrow> (Inl (wrapf ''list reservation orders HTTP call: %w'' [ArgS (err_text e)] [e]), s')
     | (Inr resp, s') \<Rightarrow> (case rs_ReadErr resp of
         Some e \<Rightarrow> (Inl (wrapf ''read list reservation orders response: %w'' [ArgS (err_text e)] [e]), s')
       | None \<Rightarrow>
           if \<not> ok_2xx (rs_StatusCode resp) then
             (Inl (errorf ''list reservation orders failed with status %d: %s'' [ArgI (rs_StatusCode resp), ArgS (rs_Body resp)]), s')
           else (case json_orders env (rs_Body resp) of
             Inl e \<Rightarrow> (Inl (wrapf ''decode list reservation orders response: %w'' [ArgS (err_text e)] [e]), s')
           | Inr page \<Rightarrow> (Inr page, s')))))"

text \<open>The listing: \<open>Inr None\<close> when the whole of it was read and holds no order to adopt.\<close>

function list_loop :: "'w azure_env \<Rightarrow> go_string \<Rightarrow> go_string \<Rightarrow> nat \<Rightarrow> go_string set \<Rightarrow> go_string \<Rightarrow> 'w az_state
    \<Rightarrow> (go_error + go_string option) \<times> 'w az_state" where
  "list_loop env bearer token pageIdx seen nextURL s =
    (if nextURL = [] then (Inr None, s)
     else if pageIdx \<ge> maxOrderPages then
       (Inl (errorf ''reservation orders listing exceeds the %d-page cap (nextLink still set)'' [ArgI (int maxOrderPages)]), s)
     else if nextURL \<in> seen then
       (Inl (errorf ''reservation orders listing returned a self-referential nextLink (page %d)'' [ArgI (int pageIdx)]), s)
     else case fetchReservationOrdersPage env nextURL bearer s of
       (Inl e, s') \<Rightarrow> (Inl e, s')
     | (Inr page, s') \<Rightarrow> (case matchReservationOrderInPage page token of
         Inl e \<Rightarrow> (Inl e, s')
       | Inr (Some orderID) \<Rightarrow> (Inr (Some orderID), s')
       | Inr None \<Rightarrow> list_loop env bearer token (Suc pageIdx) (insert nextURL seen) (pg_NextLink page) s'))"
  by pat_completeness auto
termination
  by (relation "measure (\<lambda>(env, bearer, token, pageIdx, seen, nextURL, s). maxOrderPages - pageIdx)") auto

declare list_loop.simps [simp del]

definition FindReservationOrderByIdempotencyToken :: "'w azure_env \<Rightarrow> go_string \<Rightarrow> go_string \<Rightarrow> 'w az_state
    \<Rightarrow> (go_error + go_string option) \<times> 'w az_state" where
  "FindReservationOrderByIdempotencyToken env bearer token s =
    (if token = [] then (Inr None, s) else list_loop env bearer token 0 {} ReservationOrdersListURL s)"

section \<open>The two steps\<close>

definition doCalculatePrice :: "'w azure_env \<Rightarrow> go_string \<Rightarrow> go_string \<Rightarrow> go_string \<Rightarrow> go_string \<Rightarrow> 'w az_state
    \<Rightarrow> (go_error + go_string) \<times> 'w az_state" where
  "doCalculatePrice env calcURL body bearer commitmentCurrency s = (case az_badURL env calcURL of
     Some e \<Rightarrow> (Inl (wrapf ''build calculatePrice request: %w'' [ArgS (err_text e)] [e]), s)
   | None \<Rightarrow> (case az_send env (post_request calcURL body bearer) s of
       (Inl e, s') \<Rightarrow> (Inl (wrapf ''calculatePrice HTTP call: %w'' [ArgS (err_text e)] [e]), s')
     | (Inr resp, s') \<Rightarrow> (case rs_ReadErr resp of
         Some e \<Rightarrow> (Inl (wrapf ''read calculatePrice response: %w'' [ArgS (err_text e)] [e]), s')
       | None \<Rightarrow>
           if \<not> ok_2xx (rs_StatusCode resp) then
             (Inl (errorf ''calculatePrice failed with status %d: %s'' [ArgI (rs_StatusCode resp), ArgS (rs_Body resp)]), s')
           else (case json_price env (rs_Body resp) of
             Inl e \<Rightarrow> (Inl (wrapf ''decode calculatePrice response: %w'' [ArgS (err_text e)] [e]), s')
           | Inr result \<Rightarrow>
               if cp_ReservationOrderID result = [] then
                 (Inl (errorf ''calculatePrice returned empty reservationOrderId (body: %s)'' [ArgS (rs_Body resp)]), s')
               else (case checkBillingCurrency (cp_CurrencyCode result) commitmentCurrency of
                 Some e \<Rightarrow> (Inl e, s')
               | None \<Rightarrow> (Inr (cp_ReservationOrderID result), s'))))))"

definition purchase_answer :: "go_error + http_response \<Rightarrow> go_error option" where
  "purchase_answer r = (case r of
     Inl e \<Rightarrow> Some (wrapf ''failed to purchase reservation: %w'' [ArgS (err_text e)] [e])
   | Inr resp \<Rightarrow>
       if rs_StatusCode resp \<in> {200, 201, 202} then None
       else (case rs_ReadErr resp of
         Some readErr \<Rightarrow>
           if rs_StatusCode resp = 400 then
             Some (wrapf ''reservation purchase failed with status %d (partial body: %q): %w: %w''
               [ArgI (rs_StatusCode resp), ArgS (rs_Body resp), ArgS (err_text errRetryabilityUnknown), ArgS (err_text readErr)]
               [errRetryabilityUnknown, readErr])
           else Some (errorf ''reservation purchase failed with status %d: %s'' [ArgI (rs_StatusCode resp), ArgS (rs_Body resp)])
       | None \<Rightarrow> Some (errorf ''reservation purchase failed with status %d: %s'' [ArgI (rs_StatusCode resp), ArgS (rs_Body resp)])))"

definition doPurchase :: "'w azure_env \<Rightarrow> go_string \<Rightarrow> go_string \<Rightarrow> go_string \<Rightarrow> 'w az_state \<Rightarrow> go_error option \<times> 'w az_state" where
  "doPurchase env purchaseURL body bearer s = (case az_badURL env purchaseURL of
     Some e \<Rightarrow> (Some (wrapf ''build purchase request: %w'' [ArgS (err_text e)] [e]), s)
   | None \<Rightarrow> (case az_send env (post_request purchaseURL body bearer) s of (r, s') \<Rightarrow> (purchase_answer r, s')))"

definition purchaseMaxAttempts :: nat where
  "purchaseMaxAttempts = 3"

definition purchaseIsRetryable :: "go_error \<Rightarrow> nat \<Rightarrow> bool" where
  "purchaseIsRetryable e attempt \<longleftrightarrow> \<not> attempt \<ge> purchaseMaxAttempts
     \<and> (IsSessionTimeout (Some e) \<or> err_is ''purchase retryability unknown: response body did not read completely'' e)"

definition waitBeforeRetry :: "'w azure_env \<Rightarrow> 'w az_state \<Rightarrow> go_error option \<times> 'w az_state" where
  "waitBeforeRetry env s = (case az_wait env (az_world s) of (r, w) \<Rightarrow>
     (map_option (\<lambda>e. wrapf ''reservation purchase canceled during retry delay: %w'' [ArgS (err_text e)] [e]) r,
      \<lparr>az_world = w, az_log = az_log s @ [Waited r]\<rparr>))"

definition recheckAlreadyPurchased :: "'w azure_env \<Rightarrow> go_string \<Rightarrow> go_string \<Rightarrow> nat \<Rightarrow> 'w az_state
    \<Rightarrow> (go_error + go_string option) \<times> 'w az_state" where
  "recheckAlreadyPurchased env bearer token attempt s =
    (if attempt = 1 \<or> token = [] then (Inr None, s)
     else case FindReservationOrderByIdempotencyToken env bearer token s of
       (Inl e, s') \<Rightarrow> (Inl (wrapf ''idempotency re-check before purchase retry %d/%d failed (refusing to retry to avoid a possible double-buy): %w''
         [ArgI (int attempt), ArgI (int purchaseMaxAttempts), ArgS (err_text e)] [e]), s')
     | (Inr r, s') \<Rightarrow> (Inr r, s'))"

definition afterUncertainAttempt :: "nat \<Rightarrow> go_error \<Rightarrow> go_error" where
  "afterUncertainAttempt attempt e =
    (if attempt \<le> 1 then e
     else wrapf ''%w: attempt %d/%d failed after an earlier purchase attempt that may have committed: %w''
       [ArgS (err_text ErrOutcomeUnknown), ArgI (int attempt), ArgI (int purchaseMaxAttempts), ArgS (err_text e)] [ErrOutcomeUnknown, e])"

text \<open>The result is the order ID and whether it was adopted.\<close>

function purchase_loop :: "'w azure_env \<Rightarrow> go_string \<Rightarrow> go_string \<Rightarrow> go_string \<Rightarrow> go_string \<Rightarrow> go_string \<Rightarrow> nat \<Rightarrow> 'w az_state
    \<Rightarrow> (go_error + go_string \<times> bool) \<times> 'w az_state" where
  "purchase_loop env calcURL body bearer token currency attempt s =
    (if attempt > purchaseMaxAttempts then
       (Inl (afterUncertainAttempt purchaseMaxAttempts
          (errorf ''reservation purchase exhausted %d attempts'' [ArgI (int purchaseMaxAttempts)])), s)
     else case recheckAlreadyPurchased env bearer token attempt s of
       (Inl e, s1) \<Rightarrow> (Inl (afterUncertainAttempt attempt e), s1)
     | (Inr (Some existingID), s1) \<Rightarrow> (Inr (existingID, True), s1)
     | (Inr None, s1) \<Rightarrow> (case doCalculatePrice env calcURL body bearer currency s1 of
         (Inl e, s2) \<Rightarrow> (Inl (afterUncertainAttempt attempt (wrapf ''calculatePrice (attempt %d/%d): %w''
           [ArgI (int attempt), ArgI (int purchaseMaxAttempts), ArgS (err_text e)] [e])), s2)
       | (Inr orderID, s2) \<Rightarrow> (case doPurchase env (PurchaseURL orderID) body bearer s2 of
           (None, s3) \<Rightarrow> (Inr (orderID, False), s3)
         | (Some e, s3) \<Rightarrow>
             if \<not> purchaseIsRetryable e attempt then (Inl (afterUncertainAttempt attempt e), s3)
             else (case waitBeforeRetry env s3 of
               (Some e', s4) \<Rightarrow> (Inl (afterUncertainAttempt (attempt + 1) e'), s4)
             | (None, s4) \<Rightarrow> purchase_loop env calcURL body bearer token currency (Suc attempt) s4))))"
  by pat_completeness auto
termination
  by (relation "measure (\<lambda>(env, calcURL, body, bearer, token, currency, attempt, s). Suc purchaseMaxAttempts - attempt)") auto

declare purchase_loop.simps [simp del]

definition purchaseTwoStepGuarded :: "'w azure_env \<Rightarrow> go_string \<Rightarrow> go_string \<Rightarrow> go_string \<Rightarrow> go_string \<Rightarrow> go_string \<Rightarrow> 'w az_state
    \<Rightarrow> (go_error + go_string \<times> bool) \<times> 'w az_state" where
  "purchaseTwoStepGuarded env calcURL body bearer token currency s =
     purchase_loop env calcURL body bearer token currency 1 s"

definition DoPurchaseTwoStep :: "'w azure_env \<Rightarrow> go_string \<Rightarrow> go_string \<Rightarrow> go_string \<Rightarrow> 'w az_state
    \<Rightarrow> (go_error + go_string) \<times> 'w az_state" where
  "DoPurchaseTwoStep env calcURL body bearer s = (case purchaseTwoStepGuarded env calcURL body bearer [] [] s of
     (r, s') \<Rightarrow> (map_sum id fst r, s'))"

definition DoIdempotentPurchaseTwoStep :: "'w azure_env \<Rightarrow> go_string \<Rightarrow> go_string \<Rightarrow> go_string \<Rightarrow> go_string \<Rightarrow> go_string \<Rightarrow> 'w az_state
    \<Rightarrow> (go_error + go_string \<times> bool) \<times> 'w az_state" where
  "DoIdempotentPurchaseTwoStep env calcURL body bearer token currency s =
    (if token \<noteq> [] then (case FindReservationOrderByIdempotencyToken env bearer token s of
       (Inl e, s') \<Rightarrow> (Inl (wrapf ''idempotency lookup failed before Azure reservation purchase (refusing to purchase to avoid a possible double-buy): %w''
         [ArgS (err_text e)] [e]), s')
     | (Inr (Some existingID), s') \<Rightarrow> (Inr (existingID, True), s')
     | (Inr None, s') \<Rightarrow> purchaseTwoStepGuarded env calcURL body bearer token currency s')
     else purchaseTwoStepGuarded env calcURL body bearer token currency s)"

text \<open>\<open>get_token\<close> is \<open>cred.GetToken\<close>.\<close>

definition Submit :: "'w azure_env \<Rightarrow> ('w \<Rightarrow> (go_error + go_string) \<times> 'w) \<Rightarrow> go_string \<Rightarrow> PurchaseOptions \<Rightarrow> go_string
    \<Rightarrow> 'w az_state \<Rightarrow> (go_error + go_string \<times> bool) \<times> 'w az_state" where
  "Submit env get_token body opts commitmentCurrency s = (case get_token (az_world s) of
     (Inl e, w) \<Rightarrow> (Inl (wrapf ''failed to get access token: %w'' [ArgS (err_text e)] [e]), s\<lparr>az_world := w\<rparr>)
   | (Inr token, w) \<Rightarrow> DoIdempotentPurchaseTwoStep env CalculatePriceURL body token (o_IdempotencyToken opts)
       commitmentCurrency (s\<lparr>az_world := w\<rparr>))"


section \<open>What the body carries\<close>

lemma map_of_update [simp]: "map_of (AList.update k v al) k' = (if k' = k then Some v else map_of al k')"
  by (simp add: update_conv')

text \<open>The order as it would be listed: its tags and display name are those of the request body.\<close>

definition body_order :: "go_body \<Rightarrow> go_string \<Rightarrow> go_string \<Rightarrow> listed_order" where
  "body_order body name state = \<lparr>lo_Name = name,
     lo_Tags = (case map_of body ''tags'' of Some (AnyStrMap m) \<Rightarrow> m | _ \<Rightarrow> []),
     lo_ProvisioningState = state,
     lo_DisplayName = (case map_of body ''properties'' of
        Some (AnyMap props) \<Rightarrow> (case map_of props ''displayName'' of Some (AnyS s) \<Rightarrow> s | _ \<Rightarrow> []) | _ \<Rightarrow> [])\<rparr>"

lemma purchase_body_Inr:
  "purchase_body p rec opts region subscriptionID plan = Inr body \<Longrightarrow>
     \<exists>term. body = ApplyPurchaseTags (purchase_literal p rec region subscriptionID plan term) (o_Source opts) (o_IdempotencyToken opts)"
  by (auto simp: purchase_body_def split: sum.splits)

lemma purchase_body_marked:
  assumes "purchase_body p rec opts region subscriptionID plan = Inr body" and "o_IdempotencyToken opts \<noteq> []"
  shows "lo_DisplayName (body_order body name state) = withIdempotencyMarker (p_DisplayName p rec) (o_IdempotencyToken opts)
    \<and> map_get [] (lo_Tags (body_order body name state)) IdempotencyTagKey = o_IdempotencyToken opts"
proof -
  from purchase_body_Inr [OF assms(1)] obtain t where
    b: "body = ApplyPurchaseTags (purchase_literal p rec region subscriptionID plan t) (o_Source opts) (o_IdempotencyToken opts)" by blast
  show ?thesis
    using assms(2) by (simp add: b ApplyPurchaseTags_def applyIdempotencyDisplayName_def purchase_literal_def body_order_def
      map_get_def Let_def)
qed

text \<open>Every purchase body identifies its purchase.\<close>

theorem purchase_body_found_again:
  assumes "purchase_body p rec opts region subscriptionID plan = Inr body" and "o_IdempotencyToken opts \<noteq> []"
    and "lo_DisplayName order = lo_DisplayName (body_order body (lo_Name order) (lo_ProvisioningState order))"
  shows "length (lo_DisplayName order) \<le> 64 \<and> order_carries order (o_IdempotencyToken opts)
    \<and> (lo_Name order \<noteq> [] \<and> dispositionOf (lo_ProvisioningState order) = orderAdopt \<longrightarrow>
         match_orders [order] (o_IdempotencyToken opts) = Inr (Some (lo_Name order)))"
proof -
  have d: "lo_DisplayName order = withIdempotencyMarker (p_DisplayName p rec) (o_IdempotencyToken opts)"
    using purchase_body_marked [OF assms(1,2)] assms(3) by simp
  with withIdempotencyMarker_carries [of "p_DisplayName p rec" "o_IdempotencyToken opts"]
  show ?thesis by (auto simp: order_carries_def azureDisplayNameMaxLen_def)
qed


definition demo_params :: PurchaseParams where
  "demo_params = \<lparr>p_DisplayName = (\<lambda>rec. ''vm-eastus-'' @ r_ResourceType rec), p_ReservedResourceType = ''VirtualMachines''\<rparr>"

definition demo_opts :: PurchaseOptions where
  "demo_opts = \<lparr>o_RequestedAt = 0, o_Source = ''cudly-cli'', o_ReservationID = [], o_IdempotencyToken = ''token'', o_ExecutionID = []\<rparr>"

definition demo_purchase_rec :: Recommendation where
  "demo_purchase_rec = zero_rec\<lparr>r_Term := ''3yr'', r_ResourceType := ''Standard_D2s_v5'', r_Count := 2\<rparr>"

definition demo_body :: go_body where
  "demo_body = ApplyPurchaseTags (purchase_literal demo_params demo_purchase_rec ''eastus'' ''sub-1'' ''Upfront'' ''P3Y'')
     ''cudly-cli'' ''token''"

theorem purchase_body_found_again_witness:
  "purchase_body demo_params demo_purchase_rec demo_opts ''eastus'' ''sub-1'' ''Upfront'' = Inr demo_body
   \<and> match_orders [body_order demo_body ''order-1'' ''Succeeded''] ''token'' = Inr (Some ''order-1'')"
proof -
  have "ParseTermYears ''3yr'' = Inr 3" "ReservationTermForYears 3 = Inr ''P3Y''"
    by (simp_all add: ParseTermYears_def trim_space_printable printable_def ascii_lower_def ReservationTermForYears_def)
  then have b: "purchase_body demo_params demo_purchase_rec demo_opts ''eastus'' ''sub-1'' ''Upfront'' = Inr demo_body"
    by (simp add: purchase_body_def demo_body_def demo_purchase_rec_def demo_opts_def)
  have d: "dispositionOf ''Succeeded'' = orderAdopt" by code_simp
  from purchase_body_found_again [OF b, of "body_order demo_body ''order-1'' ''Succeeded''"] b d
  show ?thesis by (simp add: demo_opts_def body_order_def)
qed

end
