(* ===== verification/Az_Guard.thy ===== *)
theory Az_Guard
  imports Az_Purchase
begin

text \<open>
  What the two-step purchase promises. \<open>purchase_run\<close> is the specification: which requests may be
  sent, in which order and after which answers, and what the result says about them. The code refines
  it; and when Azure's listing is truthful, re-driving one purchase any number of times never buys it twice.
\<close>

section \<open>Runs\<close>

inductive az_run :: "'w azure_env \<Rightarrow> 'w az_state \<Rightarrow> az_event list \<Rightarrow> 'w az_state \<Rightarrow> bool" for env where
  run_nil: "az_run env s [] s"
| run_send: "az_send env rq s = (r, s1) \<Longrightarrow> az_run env s1 evs s2 \<Longrightarrow> az_run env s (Sent rq r # evs) s2"
| run_wait: "az_wait env (az_world s) = (r, w) \<Longrightarrow> az_run env \<lparr>az_world = w, az_log = az_log s @ [Waited r]\<rparr> evs s2
    \<Longrightarrow> az_run env s (Waited r # evs) s2"

inductive_simps az_run_simps [simp]: "az_run env s [] s2" "az_run env s (Sent rq r # evs) s2" "az_run env s (Waited w # evs) s2"

lemma az_run_append: "az_run env s (xs @ ys) s2 \<longleftrightarrow> (\<exists>s1. az_run env s xs s1 \<and> az_run env s1 ys s2)"
proof (induction xs arbitrary: s)
  case Nil
  then show ?case by simp
next
  case (Cons x xs)
  then show ?case by (cases x) auto
qed

lemma az_run_log: "az_run env s evs s2 \<Longrightarrow> az_log s2 = az_log s @ evs"
  by (induction rule: az_run.induct) (auto simp: az_send_def split: prod.splits)

definition page_answer :: "'w azure_env \<Rightarrow> go_error + http_response \<Rightarrow> reservationOrdersListResponse option" where
  "page_answer env r = (case r of Inl e \<Rightarrow> None | Inr resp \<Rightarrow>
     if rs_ReadErr resp = None \<and> ok_2xx (rs_StatusCode resp)
     then (case json_orders env (rs_Body resp) of Inr page \<Rightarrow> Some page | Inl e \<Rightarrow> None) else None)"

definition price_answer :: "'w azure_env \<Rightarrow> go_string \<Rightarrow> go_error + http_response \<Rightarrow> go_string option" where
  "price_answer env currency r = (case r of Inl e \<Rightarrow> None | Inr resp \<Rightarrow>
     if rs_ReadErr resp = None \<and> ok_2xx (rs_StatusCode resp)
     then (case json_price env (rs_Body resp) of
       Inr p \<Rightarrow> if cp_ReservationOrderID p \<noteq> [] \<and> checkBillingCurrency (cp_CurrencyCode p) currency = None
         then Some (cp_ReservationOrderID p) else None
     | Inl e \<Rightarrow> None) else None)"

text \<open>A listing read to its end without an order to adopt, and one that ends at such an order.\<close>

fun clean_listing :: "'w azure_env \<Rightarrow> go_string \<Rightarrow> go_string \<Rightarrow> go_string \<Rightarrow> az_event list \<Rightarrow> bool" where
  "clean_listing env bearer token url [] = (url = [])"
| "clean_listing env bearer token url (Sent rq r # evs) = (url \<noteq> [] \<and> rq = get_request url bearer
     \<and> (case page_answer env r of None \<Rightarrow> False | Some page \<Rightarrow>
         matchReservationOrderInPage page token = Inr None \<and> clean_listing env bearer token (pg_NextLink page) evs))"
| "clean_listing env bearer token url (Waited r # evs) = False"

fun finding_listing :: "'w azure_env \<Rightarrow> go_string \<Rightarrow> go_string \<Rightarrow> go_string \<Rightarrow> go_string \<Rightarrow> az_event list \<Rightarrow> bool" where
  "finding_listing env bearer token orderID url [] = False"
| "finding_listing env bearer token orderID url (Sent rq r # evs) = (url \<noteq> [] \<and> rq = get_request url bearer
     \<and> (case page_answer env r of None \<Rightarrow> False | Some page \<Rightarrow>
         (case matchReservationOrderInPage page token of
           Inr (Some i) \<Rightarrow> i = orderID \<and> evs = []
         | Inr None \<Rightarrow> finding_listing env bearer token orderID (pg_NextLink page) evs
         | Inl e \<Rightarrow> False)))"
| "finding_listing env bearer token orderID url (Waited r # evs) = False"

definition only_gets :: "az_event list \<Rightarrow> bool" where
  "only_gets evs \<longleftrightarrow> list_all (\<lambda>ev. case ev of Sent rq r \<Rightarrow> rq_Method rq = ''GET'' | Waited r \<Rightarrow> False) evs"

lemma only_gets_simps [simp]: "only_gets []" "only_gets (Sent rq r # evs) \<longleftrightarrow> rq_Method rq = ''GET'' \<and> only_gets evs"
  "only_gets (Waited w # evs) = False"
  by (simp_all add: only_gets_def)

lemma clean_listing_gets: "clean_listing env b t url evs \<Longrightarrow> only_gets evs"
  by (induction env b t url evs rule: clean_listing.induct) (auto simp: get_request_def split: option.splits)

section \<open>The listing\<close>

lemma fetch_run:
  assumes "fetchReservationOrdersPage env url bearer s = (res, s')"
  shows "(\<exists>e. res = Inl e \<and> s' = s) \<or> (\<exists>r. az_send env (get_request url bearer) s = (r, s')
           \<and> (case page_answer env r of Some page \<Rightarrow> res = Inr page | None \<Rightarrow> \<exists>e. res = Inl e))"
  using assms unfolding fetchReservationOrdersPage_def page_answer_def
  by (auto split: option.splits prod.splits sum.splits if_splits)

lemma list_loop_run:
  "list_loop env bearer token pageIdx seen url s = (res, s') \<Longrightarrow>
   \<exists>evs. az_run env s evs s' \<and> only_gets evs \<and> length evs \<le> maxOrderPages - pageIdx
     \<and> (case res of Inl e \<Rightarrow> True | Inr None \<Rightarrow> clean_listing env bearer token url evs
        | Inr (Some i) \<Rightarrow> finding_listing env bearer token i url evs)"
proof (induction env bearer token pageIdx seen url s arbitrary: res s' rule: list_loop.induct)
  case (1 env bearer token pageIdx seen url s)
  show ?case
  proof (cases "url = [] \<or> pageIdx \<ge> maxOrderPages \<or> url \<in> seen")
    case True
    with 1(2) show ?thesis
      by (subst (asm) list_loop.simps) (auto intro!: exI [of _ "[]"] split: if_splits)
  next
    case False
    then have len: "Suc 0 \<le> maxOrderPages - pageIdx" by arith
    obtain pr s1 where f: "fetchReservationOrdersPage env url bearer s = (pr, s1)" by fastforce
    show ?thesis
    proof (cases pr)
      case (Inl e)
      with False f 1(2) have "res = Inl e" "s' = s1" by (simp_all add: list_loop.simps [of env bearer token pageIdx])
      note res = this
      from fetch_run [OF f] show ?thesis
      proof (elim disjE exE conjE)
        assume "s1 = s"
        with res show ?thesis by (intro exI [of _ "[]"]) simp
      next
        fix r assume "az_send env (get_request url bearer) s = (r, s1)"
        with res False len show ?thesis
          by (intro exI [of _ "[Sent (get_request url bearer) r]"]) (simp add: get_request_def)
      qed
    next
      case (Inr page)
      with fetch_run [OF f] obtain r where r: "az_send env (get_request url bearer) s = (r, s1)" "page_answer env r = Some page"
        by (auto split: option.splits)
      show ?thesis
      proof (cases "matchReservationOrderInPage page token")
        case (Inl e)
        with False f Inr 1(2) have "res = Inl e" "s' = s1" by (simp_all add: list_loop.simps [of env bearer token pageIdx])
        with r False len show ?thesis
          by (intro exI [of _ "[Sent (get_request url bearer) r]"]) (simp add: get_request_def)
      next
        case m: (Inr o')
        show ?thesis
        proof (cases o')
          case (Some i)
          with False f Inr m 1(2) have "res = Inr (Some i)" "s' = s1" by (simp_all add: list_loop.simps [of env bearer token pageIdx])
          with r False len m Some show ?thesis
            by (intro exI [of _ "[Sent (get_request url bearer) r]"]) (simp add: get_request_def)
        next
          case None
          with False f Inr m 1(2) have "list_loop env bearer token (Suc pageIdx) (insert url seen) (pg_NextLink page) s1 = (res, s')"
            by (simp add: list_loop.simps [of env bearer token pageIdx])
          from 1(1) [OF _ _ _ f [symmetric] Inr m None this] False obtain evs where
            "az_run env s1 evs s'" "only_gets evs" "length evs \<le> maxOrderPages - Suc pageIdx"
            "case res of Inl e \<Rightarrow> True | Inr None \<Rightarrow> clean_listing env bearer token (pg_NextLink page) evs
               | Inr (Some i) \<Rightarrow> finding_listing env bearer token i (pg_NextLink page) evs" by auto
          with r False len m None show ?thesis
            by (intro exI [of _ "Sent (get_request url bearer) r # evs"])
              (auto simp: get_request_def split: sum.splits option.splits)
        qed
      qed
    qed
  qed
qed


lemma Find_run:
  assumes "FindReservationOrderByIdempotencyToken env bearer token s = (res, s')" and "token \<noteq> []"
  shows "\<exists>evs. az_run env s evs s' \<and> only_gets evs \<and> length evs \<le> maxOrderPages
     \<and> (case res of Inl e \<Rightarrow> True | Inr None \<Rightarrow> clean_listing env bearer token ReservationOrdersListURL evs
        | Inr (Some i) \<Rightarrow> finding_listing env bearer token i ReservationOrdersListURL evs)"
  using list_loop_run [of env bearer token 0 "{}" ReservationOrdersListURL s res s'] assms
  by (simp add: FindReservationOrderByIdempotencyToken_def)

section \<open>The specification of a purchase\<close>

text \<open>One attempt: the listing (with a token), the price, the purchase of the order just priced.\<close>

definition listing_part :: "'w azure_env \<Rightarrow> go_string \<Rightarrow> go_string \<Rightarrow> az_event list \<Rightarrow> bool" where
  "listing_part env bearer token evs \<longleftrightarrow>
     (if token = [] then evs = [] else clean_listing env bearer token ReservationOrdersListURL evs)"

definition attempt_made :: "'w azure_env \<Rightarrow> go_string \<Rightarrow> go_string \<Rightarrow> go_string \<Rightarrow> go_string \<Rightarrow> go_string
    \<Rightarrow> az_event list \<Rightarrow> go_string \<Rightarrow> (go_error + http_response) \<Rightarrow> bool" where
  "attempt_made env calcURL body bearer token currency evs orderID ans \<longleftrightarrow>
     (\<exists>lst a. listing_part env bearer token lst \<and> price_answer env currency a = Some orderID
        \<and> evs = lst @ [Sent (post_request calcURL body bearer) a, Sent (post_request (PurchaseURL orderID) body bearer) ans])"

text \<open>Nothing was bought: a listing that may have been cut short, and at most a price.\<close>

definition quiet :: "go_string \<Rightarrow> go_string \<Rightarrow> go_string \<Rightarrow> az_event list \<Rightarrow> bool" where
  "quiet calcURL body bearer evs \<longleftrightarrow> (\<exists>lst cs. evs = lst @ cs \<and> only_gets lst
     \<and> (cs = [] \<or> (\<exists>a. cs = [Sent (post_request calcURL body bearer) a])))"

definition unsuccessful :: "'w azure_env \<Rightarrow> go_string \<Rightarrow> go_string \<Rightarrow> go_string \<Rightarrow> go_string \<Rightarrow> go_string \<Rightarrow> nat
    \<Rightarrow> az_event list \<Rightarrow> bool" where
  "unsuccessful env calcURL body bearer token currency k evs \<longleftrightarrow> k < purchaseMaxAttempts
     \<and> (quiet calcURL body bearer evs
        \<or> (\<exists>orderID ans e. attempt_made env calcURL body bearer token currency evs orderID ans
             \<and> purchase_answer ans = Some e \<and> purchaseIsRetryable e k))"

inductive purchase_run :: "'w azure_env \<Rightarrow> go_string \<Rightarrow> go_string \<Rightarrow> go_string \<Rightarrow> go_string \<Rightarrow> go_string \<Rightarrow> nat
    \<Rightarrow> az_event list \<Rightarrow> (go_error + go_string \<times> bool) \<Rightarrow> bool"
  for env calcURL body bearer token currency where
  adopted: "token \<noteq> [] \<Longrightarrow> finding_listing env bearer token orderID ReservationOrdersListURL evs
    \<Longrightarrow> purchase_run env calcURL body bearer token currency k evs (Inr (orderID, True))"
| bought: "attempt_made env calcURL body bearer token currency evs orderID ans \<Longrightarrow> purchase_answer ans = None
    \<Longrightarrow> purchase_run env calcURL body bearer token currency k evs (Inr (orderID, False))"
| refused: "quiet calcURL body bearer evs \<Longrightarrow> (1 < k \<Longrightarrow> outcome_unknown e)
    \<Longrightarrow> purchase_run env calcURL body bearer token currency k evs (Inl e)"
| failed: "attempt_made env calcURL body bearer token currency evs orderID ans \<Longrightarrow> purchase_answer ans = Some e
    \<Longrightarrow> \<not> purchaseIsRetryable e k \<Longrightarrow> (1 < k \<Longrightarrow> outcome_unknown e') \<Longrightarrow> (k = 1 \<Longrightarrow> e' = e)
    \<Longrightarrow> purchase_run env calcURL body bearer token currency k evs (Inl e')"
| gave_up: "unsuccessful env calcURL body bearer token currency k evs \<Longrightarrow> outcome_unknown e'
    \<Longrightarrow> purchase_run env calcURL body bearer token currency k (evs @ [Waited (Some e)]) (Inl e')"
| retried: "unsuccessful env calcURL body bearer token currency k evs
    \<Longrightarrow> purchase_run env calcURL body bearer token currency (Suc k) evs' res
    \<Longrightarrow> purchase_run env calcURL body bearer token currency k (evs @ [Waited None] @ evs') res"

section \<open>The code keeps to the specification\<close>

lemma outcome_unknown_after: "1 < k \<Longrightarrow> outcome_unknown (afterUncertainAttempt k e)"
  by (simp add: afterUncertainAttempt_def outcome_unknown_def ErrOutcomeUnknown_def)

lemma calc_run:
  assumes "doCalculatePrice env calcURL body bearer currency s = (res, s')"
  shows "(\<exists>e. res = Inl e \<and> s' = s) \<or> (\<exists>a. az_send env (post_request calcURL body bearer) s = (a, s')
           \<and> (case price_answer env currency a of Some orderID \<Rightarrow> res = Inr orderID | None \<Rightarrow> \<exists>e. res = Inl e))"
  using assms unfolding doCalculatePrice_def price_answer_def
  by (auto split: option.splits prod.splits sum.splits if_splits)

lemma purchase_step:
  assumes "doPurchase env url body bearer s = (res, s')"
  shows "(\<exists>e. res = Some e \<and> s' = s) \<or> (\<exists>a. az_send env (post_request url body bearer) s = (a, s') \<and> res = purchase_answer a)"
  using assms by (auto simp: doPurchase_def split: option.splits prod.splits)

lemma recheck_run:
  assumes "recheckAlreadyPurchased env bearer token k s = (res, s')"
    and "k = 1 \<Longrightarrow> listing_part env bearer token lst" and "k \<noteq> 1 \<Longrightarrow> lst = []"
  shows "\<exists>evs. az_run env s evs s' \<and> only_gets (lst @ evs)
     \<and> (case res of Inl e \<Rightarrow> k \<noteq> 1 | Inr None \<Rightarrow> listing_part env bearer token (lst @ evs)
        | Inr (Some i) \<Rightarrow> token \<noteq> [] \<and> finding_listing env bearer token i ReservationOrdersListURL (lst @ evs))"
proof (cases "k = 1 \<or> token = []")
  case True
  have "only_gets lst \<and> listing_part env bearer token lst"
    using assms(2,3) True by (cases "k = 1") (auto simp: listing_part_def split: if_splits dest: clean_listing_gets)
  with assms(1) True show ?thesis by (auto simp: recheckAlreadyPurchased_def intro!: exI [of _ "[]"])
next
  case False
  obtain r s1 where f: "FindReservationOrderByIdempotencyToken env bearer token s = (r, s1)" by fastforce
  from Find_run [OF f] False assms show ?thesis
    by (auto simp: recheckAlreadyPurchased_def f listing_part_def split: sum.splits option.splits)
qed


lemma az_send_run: "az_send env rq s = (r, s1) \<Longrightarrow> az_run env s [Sent rq r] s1"
  by simp

lemma az_run_trans: "az_run env s xs s1 \<Longrightarrow> az_run env s1 ys s2 \<Longrightarrow> az_run env s (xs @ ys) s2"
  by (auto simp: az_run_append)

text \<open>One attempt up to the answer of the purchase: it is quiet, or the purchase was sent.\<close>

lemma attempt_run:
  assumes "doCalculatePrice env calcURL body bearer currency s1 = (cres, s2)"
    and "only_gets lst" and "listing_part env bearer token lst"
  shows "(\<exists>e. cres = Inl e \<and> (\<exists>evs. az_run env s1 evs s2 \<and> quiet calcURL body bearer (lst @ evs)))
    \<or> (\<exists>orderID. cres = Inr orderID \<and> (\<forall>res s3. doPurchase env (PurchaseURL orderID) body bearer s2 = (res, s3) \<longrightarrow>
        (\<exists>evs. az_run env s1 evs s3 \<and> ((\<exists>e. res = Some e) \<and> quiet calcURL body bearer (lst @ evs)
           \<or> (\<exists>ans. res = purchase_answer ans \<and> attempt_made env calcURL body bearer token currency (lst @ evs) orderID ans)))))"
proof -
  from calc_run [OF assms(1)] consider (unsent) e where "cres = Inl e" "s2 = s1"
    | (sent) a where "az_send env (post_request calcURL body bearer) s1 = (a, s2)"
        "case price_answer env currency a of Some orderID \<Rightarrow> cres = Inr orderID | None \<Rightarrow> \<exists>e. cres = Inl e" by blast
  then show ?thesis
  proof cases
    case unsent
    moreover have "quiet calcURL body bearer (lst @ [])" using assms(2) by (auto simp: quiet_def)
    ultimately show ?thesis using run_nil by blast
  next
    case sent
    let ?c = "Sent (post_request calcURL body bearer) a"
    have q: "quiet calcURL body bearer (lst @ [?c])" using assms(2) by (auto simp: quiet_def)
    show ?thesis
    proof (cases "price_answer env currency a")
      case None
      with sent q az_send_run [OF sent(1)] show ?thesis by auto
    next
      case (Some orderID)
      have "\<exists>evs. az_run env s1 evs s3 \<and> ((\<exists>e. res = Some e) \<and> quiet calcURL body bearer (lst @ evs)
           \<or> (\<exists>ans. res = purchase_answer ans \<and> attempt_made env calcURL body bearer token currency (lst @ evs) orderID ans))"
        if d: "doPurchase env (PurchaseURL orderID) body bearer s2 = (res, s3)" for res s3
      proof -
        from purchase_step [OF d] consider e where "res = Some e" "s3 = s2"
          | ans where "az_send env (post_request (PurchaseURL orderID) body bearer) s2 = (ans, s3)" "res = purchase_answer ans" by blast
        then show ?thesis
        proof cases
          case 1
          with sent(1) q show ?thesis by (intro exI [of _ "[?c]"]) auto
        next
          case 2
          with sent(1) Some assms(3) show ?thesis
            by (intro exI [of _ "[?c, Sent (post_request (PurchaseURL orderID) body bearer) ans]"])
              (auto simp: attempt_made_def)
        qed
      qed
      with sent Some show ?thesis by auto
    qed
  qed
qed

lemma purchase_loop_run:
  "purchase_loop env calcURL body bearer token currency k s = (res, s') \<Longrightarrow> 1 \<le> k \<Longrightarrow> k \<le> purchaseMaxAttempts
   \<Longrightarrow> (k = 1 \<Longrightarrow> listing_part env bearer token lst) \<Longrightarrow> (k \<noteq> 1 \<Longrightarrow> lst = []) \<Longrightarrow>
   \<exists>evs. az_run env s evs s' \<and> purchase_run env calcURL body bearer token currency k (lst @ evs) res"
proof (induction env calcURL body bearer token currency k s arbitrary: res s' lst rule: purchase_loop.induct)
  case (1 env calcURL body bearer token currency k s)
  note IH = 1(1) and run = 1(2) and k = 1(3,4) and lst = 1(5,6)
  have loop: "\<not> k > purchaseMaxAttempts" using k by simp
  note eq = run [unfolded purchase_loop.simps [of env calcURL body bearer token currency k s] if_not_P [OF loop]]
  obtain rres s1 where re: "recheckAlreadyPurchased env bearer token k s = (rres, s1)" by fastforce
  from recheck_run [OF re lst] obtain l where l: "az_run env s l s1" "only_gets (lst @ l)"
    and lc: "case rres of Inl e \<Rightarrow> k \<noteq> 1 | Inr None \<Rightarrow> listing_part env bearer token (lst @ l)
      | Inr (Some i) \<Rightarrow> token \<noteq> [] \<and> finding_listing env bearer token i ReservationOrdersListURL (lst @ l)" by blast
  show ?case
  proof (cases rres)
    case (Inl e)
    have "quiet calcURL body bearer (lst @ l)" using l(2) by (auto simp: quiet_def)
    moreover have "1 < k" using Inl lc k by simp
    ultimately show ?thesis using eq Inl re l(1) by (auto intro!: exI [of _ l] refused outcome_unknown_after)
  next
    case (Inr o')
    show ?thesis
    proof (cases o')
      case (Some i)
      with Inr eq re l(1) lc show ?thesis by (auto intro!: exI [of _ l] adopted)
    next
      case None
      obtain cres s2 where c: "doCalculatePrice env calcURL body bearer currency s1 = (cres, s2)" by fastforce
      have lp: "listing_part env bearer token (lst @ l)" using lc Inr None by simp
      show ?thesis
      proof (cases cres)
        case (Inl e)
        with attempt_run [OF c l(2) lp] obtain evs where "az_run env s1 evs s2" "quiet calcURL body bearer ((lst @ l) @ evs)" by blast
        with eq Inr None re c Inl l(1) show ?thesis
          by (auto intro!: exI [of _ "l @ evs"] az_run_trans refused outcome_unknown_after)
      next
        case orderID: (Inr orderID)
        obtain pres s3 where d: "doPurchase env (PurchaseURL orderID) body bearer s2 = (pres, s3)" by fastforce
        with attempt_run [OF c l(2) lp] orderID obtain evs where run3: "az_run env s1 evs s3"
          and at: "(\<exists>e. pres = Some e) \<and> quiet calcURL body bearer ((lst @ l) @ evs)
           \<or> (\<exists>ans. pres = purchase_answer ans \<and> attempt_made env calcURL body bearer token currency ((lst @ l) @ evs) orderID ans)"
          by blast
        have run3': "az_run env s (l @ evs) s3" using az_run_trans l(1) run3 by blast
        show ?thesis
        proof (cases pres)
          case p: None
          with at obtain ans where "purchase_answer ans = None" "attempt_made env calcURL body bearer token currency (lst @ l @ evs) orderID ans"
            by (metis append.assoc option.distinct(1))
          with eq Inr None re c orderID d p run3' show ?thesis by (auto intro!: exI [of _ "l @ evs"] bought)
        next
          case p: (Some e)
          show ?thesis
          proof (cases "purchaseIsRetryable e k")
            case False
            have "purchase_run env calcURL body bearer token currency k (lst @ l @ evs) (Inl (afterUncertainAttempt k e))"
              using at
            proof (elim disjE exE conjE)
              assume "quiet calcURL body bearer ((lst @ l) @ evs)"
              then show ?thesis by (auto intro: refused outcome_unknown_after)
            next
              fix ans assume a: "pres = purchase_answer ans"
                "attempt_made env calcURL body bearer token currency ((lst @ l) @ evs) orderID ans"
              have "k = 1 \<Longrightarrow> afterUncertainAttempt k e = e" by (simp add: afterUncertainAttempt_def)
              with a p failed [OF a(2) _ False outcome_unknown_after] show ?thesis by simp
            qed
            with eq Inr None re c orderID d p False run3' show ?thesis by (auto intro!: exI [of _ "l @ evs"])
          next
            case True
            then have k3: "k < purchaseMaxAttempts" by (simp add: purchaseIsRetryable_def)
            have u: "unsuccessful env calcURL body bearer token currency k (lst @ l @ evs)"
              using at p True k3 by (auto simp: unsuccessful_def)
            obtain wres w where w: "az_wait env (az_world s3) = (wres, w)" by fastforce
            let ?s4 = "\<lparr>az_world = w, az_log = az_log s3 @ [Waited wres]\<rparr>"
            have run4: "az_run env s ((l @ evs) @ [Waited wres]) ?s4"
              by (rule az_run_trans [OF run3']) (simp add: w)
            show ?thesis
            proof (cases wres)
              case (Some e')
              with eq Inr None re c orderID d p True w have "s' = ?s4"
                "res = Inl (afterUncertainAttempt (Suc k) (wrapf ''reservation purchase canceled during retry delay: %w'' [ArgS (err_text e')] [e']))"
                by (auto simp: waitBeforeRetry_def)
              with run4 Some gave_up [OF u outcome_unknown_after [of "Suc k"]] k show ?thesis
                by (intro exI [of _ "(l @ evs) @ [Waited wres]"]) simp
            next
              case wn: None
              with eq Inr None re c orderID d p True w have next': "purchase_loop env calcURL body bearer token currency (Suc k) ?s4 = (res, s')"
                by (auto simp: waitBeforeRetry_def)
              have "waitBeforeRetry env s3 = (None, ?s4)" using w wn by (simp add: waitBeforeRetry_def)
              from IH [OF loop re [symmetric] Inr None c [symmetric] orderID d [symmetric] p _ this [symmetric] refl next', of "[]"] True k k3
              obtain evs' where ev: "az_run env ?s4 evs' s'" "purchase_run env calcURL body bearer token currency (Suc k) evs' res" by auto
              have "az_run env s (((l @ evs) @ [Waited wres]) @ evs') s'" using az_run_trans [OF run4 ev(1)] by simp
              moreover have "purchase_run env calcURL body bearer token currency k (lst @ ((l @ evs) @ [Waited wres]) @ evs') res"
                using retried [OF u ev(2)] wn by simp
              ultimately show ?thesis by blast
            qed
          qed
        qed
      qed
    qed
  qed
qed

lemma purchase_kept:
  "case DoIdempotentPurchaseTwoStep env calcURL body bearer token currency s of (res, s') \<Rightarrow>
     \<exists>evs. az_run env s evs s' \<and> purchase_run env calcURL body bearer token currency 1 evs res"
proof -
  obtain res s' where d: "DoIdempotentPurchaseTwoStep env calcURL body bearer token currency s = (res, s')" by fastforce
  have "\<exists>evs. az_run env s evs s' \<and> purchase_run env calcURL body bearer token currency 1 evs res"
  proof (cases "token = []")
    case True
    with d purchase_loop_run [of env calcURL body bearer token currency 1 s res s' "[]"] show ?thesis
      by (auto simp: DoIdempotentPurchaseTwoStep_def purchaseTwoStepGuarded_def listing_part_def purchaseMaxAttempts_def)
  next
    case False
    obtain r s1 where f: "FindReservationOrderByIdempotencyToken env bearer token s = (r, s1)" by fastforce
    from Find_run [OF f False] obtain l where l: "az_run env s l s1" "only_gets l"
      "case r of Inl e \<Rightarrow> True | Inr None \<Rightarrow> clean_listing env bearer token ReservationOrdersListURL l
        | Inr (Some i) \<Rightarrow> finding_listing env bearer token i ReservationOrdersListURL l" by blast
    show ?thesis
    proof (cases r)
      case (Inl e)
      have "quiet calcURL body bearer l" using l(2) by (auto simp: quiet_def)
      with d f False Inl l(1) show ?thesis by (auto simp: DoIdempotentPurchaseTwoStep_def intro!: exI [of _ l] refused)
    next
      case (Inr o')
      show ?thesis
      proof (cases o')
        case (Some i)
        with d f False Inr l show ?thesis by (auto simp: DoIdempotentPurchaseTwoStep_def intro!: exI [of _ l] adopted)
      next
        case None
        with d f False Inr have "purchase_loop env calcURL body bearer token currency 1 s1 = (res, s')"
          by (simp add: DoIdempotentPurchaseTwoStep_def purchaseTwoStepGuarded_def)
        from purchase_loop_run [OF this, of l] l(3) Inr None False obtain evs where
          "az_run env s1 evs s'" "purchase_run env calcURL body bearer token currency 1 (l @ evs) res"
          by (auto simp: listing_part_def purchaseMaxAttempts_def)
        with az_run_trans [OF l(1)] show ?thesis by blast
      qed
    qed
  qed
  with d show ?thesis by simp
qed

text \<open>C4. The calls of a guarded purchase.\<close>

theorem purchase_refines_spec:
  "case DoIdempotentPurchaseTwoStep env calcURL body bearer token currency s of (res, s') \<Rightarrow>
     \<exists>evs. az_run env s evs s' \<and> purchase_run env calcURL body bearer token currency 1 evs res"
  by (rule purchase_kept)

end
