(* ===== verification/Az_Once.thy ===== *)
theory Az_Once
  imports Az_Guard
begin

text \<open>
  Buying at most once. \<open>truthful\<close> is what the guard needs of Azure: reading changes nothing, a purchase
  request makes at most one commitment, and a listing read to its end without an order to adopt means
  that there is no commitment for the token (the API is strongly consistent).
\<close>

definition truthful :: "'w azure_env \<Rightarrow> go_string \<Rightarrow> go_string \<Rightarrow> go_string \<Rightarrow> go_string \<Rightarrow> ('w \<Rightarrow> nat) \<Rightarrow> bool" where
  "truthful env calcURL body bearer token live \<longleftrightarrow>
     (\<forall>rq w. rq_Method rq = ''GET'' \<longrightarrow> snd (hc_Do env rq w) = w)
   \<and> (\<forall>w evs. clean_listing env bearer token ReservationOrdersListURL evs
        \<and> (\<forall>rq r. Sent rq r \<in> set evs \<longrightarrow> fst (hc_Do env rq w) = r) \<longrightarrow> live w = 0)
   \<and> (\<forall>w. live (snd (hc_Do env (post_request calcURL body bearer) w)) = live w)
   \<and> (\<forall>orderID w. live (snd (hc_Do env (post_request (PurchaseURL orderID) body bearer) w)) \<le> Suc (live w))
   \<and> (\<forall>w. live (snd (az_wait env w)) = live w)"

lemma truthful_get: "truthful env calcURL body bearer token live \<Longrightarrow> rq_Method rq = ''GET'' \<Longrightarrow> snd (hc_Do env rq w) = w"
  by (simp add: truthful_def)

lemma truthful_listing:
  "truthful env calcURL body bearer token live \<Longrightarrow> clean_listing env bearer token ReservationOrdersListURL evs
   \<Longrightarrow> (\<And>rq r. Sent rq r \<in> set evs \<Longrightarrow> fst (hc_Do env rq w) = r) \<Longrightarrow> live w = 0"
  unfolding truthful_def by blast

lemma truthful_price: "truthful env calcURL body bearer token live
    \<Longrightarrow> live (snd (hc_Do env (post_request calcURL body bearer) w)) = live w"
  by (simp add: truthful_def)

lemma truthful_purchase: "truthful env calcURL body bearer token live
    \<Longrightarrow> live (snd (hc_Do env (post_request (PurchaseURL orderID) body bearer) w)) \<le> Suc (live w)"
  by (simp add: truthful_def)

lemma truthful_wait: "truthful env calcURL body bearer token live \<Longrightarrow> az_wait env w = (r, w') \<Longrightarrow> live w' = live w"
  unfolding truthful_def by (metis snd_conv)

lemma gets_read_only:
  assumes "truthful env calcURL body bearer token live"
  shows "only_gets evs \<Longrightarrow> az_run env s evs s' \<Longrightarrow>
    az_world s' = az_world s \<and> (\<forall>rq r. Sent rq r \<in> set evs \<longrightarrow> fst (hc_Do env rq (az_world s)) = r)"
proof (induction evs arbitrary: s)
  case (Cons ev evs)
  then obtain rq r s1 where ev: "ev = Sent rq r" "rq_Method rq = ''GET''" "az_send env rq s = (r, s1)" "az_run env s1 evs s'"
    by (cases ev) auto
  have "snd (hc_Do env rq (az_world s)) = az_world s" using truthful_get [OF assms ev(2)] .
  with ev(3) have "az_world s1 = az_world s \<and> fst (hc_Do env rq (az_world s)) = r"
    by (auto simp: az_send_def split: prod.splits)
  with Cons.IH [OF _ ev(4)] Cons.prems ev show ?case by auto
qed simp

lemma send_world: "az_send env rq s = (r, s1) \<Longrightarrow> az_world s1 = snd (hc_Do env rq (az_world s))"
  by (auto simp: az_send_def split: prod.splits)

text \<open>What the parts of a run do to the number of commitments.\<close>

lemma quiet_live:
  assumes "truthful env calcURL body bearer token live" and "quiet calcURL body bearer evs" and "az_run env s evs s'"
  shows "live (az_world s') = live (az_world s)"
proof -
  from assms(2) obtain lst cs where q: "evs = lst @ cs" "only_gets lst"
    "cs = [] \<or> (\<exists>a. cs = [Sent (post_request calcURL body bearer) a])" by (auto simp: quiet_def)
  with assms(3) obtain s1 where s1: "az_run env s lst s1" "az_run env s1 cs s'" by (auto simp: az_run_append)
  have "az_world s1 = az_world s" using gets_read_only [OF assms(1) q(2) s1(1)] by blast
  then show ?thesis using q(3) s1(2) truthful_price [OF assms(1)] by (auto dest!: send_world)
qed

lemma listing_none:
  assumes "truthful env calcURL body bearer token live" and "token \<noteq> []"
    and "listing_part env bearer token lst" and "az_run env s lst s'"
  shows "live (az_world s') = 0"
proof -
  have c: "clean_listing env bearer token ReservationOrdersListURL lst" using assms(2,3) by (simp add: listing_part_def)
  from gets_read_only [OF assms(1) clean_listing_gets [OF c] assms(4)]
  have "az_world s' = az_world s" "\<forall>rq r. Sent rq r \<in> set lst \<longrightarrow> fst (hc_Do env rq (az_world s)) = r" by simp_all
  with truthful_listing [OF assms(1) c, of "az_world s"] show ?thesis by simp
qed

lemma attempt_live:
  assumes "truthful env calcURL body bearer token live" and "token \<noteq> []"
    and "attempt_made env calcURL body bearer token currency evs orderID ans" and "az_run env s evs s'"
  shows "live (az_world s') \<le> 1"
proof -
  from assms(3) obtain lst a where l: "listing_part env bearer token lst"
    "evs = lst @ [Sent (post_request calcURL body bearer) a, Sent (post_request (PurchaseURL orderID) body bearer) ans]"
    by (auto simp: attempt_made_def)
  with assms(4) obtain s1 s2 where r: "az_run env s lst s1" "az_send env (post_request calcURL body bearer) s1 = (a, s2)"
    "az_send env (post_request (PurchaseURL orderID) body bearer) s2 = (ans, s')" by (auto simp: az_run_append)
  have "live (az_world s2) = 0"
    using listing_none [OF assms(1,2) l(1) r(1)] truthful_price [OF assms(1), of "az_world s1"] send_world [OF r(2)] by simp
  then show ?thesis using truthful_purchase [OF assms(1), of orderID "az_world s2"] send_world [OF r(3)] by simp
qed

lemma finding_gets: "finding_listing env b t i url evs \<Longrightarrow> only_gets evs"
  by (induction env b t i url evs rule: finding_listing.induct)
    (auto simp: get_request_def split: option.splits sum.splits)

lemma unsuccessful_live:
  assumes "truthful env calcURL body bearer token live" and "token \<noteq> []"
    and "unsuccessful env calcURL body bearer token currency k evs" and "az_run env s evs s'"
    and "live (az_world s) \<le> 1"
  shows "live (az_world s') \<le> 1"
  using assms quiet_live [OF assms(1) _ assms(4)] attempt_live [OF assms(1,2) _ assms(4)]
  by (auto simp: unsuccessful_def)

lemma purchase_run_live:
  assumes "truthful env calcURL body bearer token live" and "token \<noteq> []"
  shows "purchase_run env calcURL body bearer token currency k evs res \<Longrightarrow> az_run env s evs s' \<Longrightarrow>
    live (az_world s) \<le> 1 \<Longrightarrow> live (az_world s') \<le> 1"
proof (induction arbitrary: s rule: purchase_run.induct)
  case (adopted orderID evs k)
  have "az_world s' = az_world s"
    using gets_read_only [OF assms(1) finding_gets [OF adopted(2)] adopted(3)] by blast
  with adopted show ?case by simp
next
  case (bought evs orderID ans k)
  then show ?case using attempt_live [OF assms] by blast
next
  case (refused evs k e)
  then show ?case using quiet_live [OF assms(1)] by simp
next
  case (failed evs orderID ans e k e')
  then show ?case using attempt_live [OF assms] by blast
next
  case (gave_up k evs e' e)
  then obtain s1 where s1: "az_run env s evs s1" "az_run env s1 [Waited (Some e)] s'" by (auto simp: az_run_append)
  have "live (az_world s1) \<le> 1" using unsuccessful_live [OF assms gave_up(1) s1(1) gave_up(4)] .
  moreover have "live (az_world s') = live (az_world s1)" using s1(2) by (auto dest: truthful_wait [OF assms(1)])
  ultimately show ?case by simp
next
  case (retried k evs evs' res)
  then obtain s1 w where s1: "az_run env s evs s1" "az_wait env (az_world s1) = (None, w)"
    "az_run env \<lparr>az_world = w, az_log = az_log s1 @ [Waited None]\<rparr> evs' s'" by (auto simp: az_run_append)
  have "live (az_world s1) \<le> 1" using unsuccessful_live [OF assms retried(1) s1(1) retried(5)] .
  moreover have "live w = live (az_world s1)" using truthful_wait [OF assms(1) s1(2)] .
  ultimately show ?case using retried(3) [OF s1(3)] by simp
qed

text \<open>Driving the same purchase again, from the state the last drive left.\<close>

definition redrive :: "'w azure_env \<Rightarrow> go_string \<Rightarrow> go_string \<Rightarrow> go_string \<Rightarrow> go_string \<Rightarrow> go_string \<Rightarrow> 'w az_state \<Rightarrow> 'w az_state" where
  "redrive env calcURL body bearer token currency s = snd (DoIdempotentPurchaseTwoStep env calcURL body bearer token currency s)"

lemma redrive_live:
  assumes "truthful env calcURL body bearer token live" and "token \<noteq> []" and "live (az_world s) \<le> 1"
  shows "live (az_world (redrive env calcURL body bearer token currency s)) \<le> 1"
proof -
  obtain evs where "az_run env s evs (redrive env calcURL body bearer token currency s)"
    "purchase_run env calcURL body bearer token currency 1 evs (fst (DoIdempotentPurchaseTwoStep env calcURL body bearer token currency s))"
    using purchase_kept [where env = env and calcURL = calcURL and body = body and bearer = bearer and token = token
      and currency = currency and s = s] by (auto simp: redrive_def split: prod.splits)
  then show ?thesis using purchase_run_live [OF assms(1,2) _ _ assms(3)] by blast
qed

text \<open>C3. Bought at most once.\<close>

theorem redriven_purchase_buys_once:
  assumes "\<forall>(body, bearer, currency) \<in> set drives. truthful env calcURL body bearer token live"
    and "token \<noteq> []" and "live (az_world s) \<le> 1"
  shows "live (az_world (fold (\<lambda>(body, bearer, currency). redrive env calcURL body bearer token currency) drives s)) \<le> 1"
  using assms(1,3)
proof (induction drives arbitrary: s)
  case (Cons d drives)
  obtain body bearer currency where d: "d = (body, bearer, currency)" by (cases d)
  have t: "truthful env calcURL body bearer token live" using Cons.prems(1) d by simp
  have "live (az_world (redrive env calcURL body bearer token currency s)) \<le> 1"
    by (rule redrive_live [OF t assms(2) Cons.prems(2)])
  from Cons.IH [OF _ this] Cons.prems(1) show ?case by (simp add: d)
qed simp

text \<open>
  An Azure with one kind of order: the world counts the orders made, the first purchase is carried
  out and reported as a failure whose body breaks off, and the listing shows every order.
\<close>

definition demo_env :: "nat azure_env" where
  "demo_env = \<lparr>
     hc_Do = (\<lambda>rq n. if rq_Method rq = ''GET'' then (Inr \<lparr>rs_StatusCode = 200, rs_Body = replicate n CHR ''o'', rs_ReadErr = None\<rparr>, n)
       else if rq_URL rq = CalculatePriceURL then (Inr \<lparr>rs_StatusCode = 200, rs_Body = [], rs_ReadErr = None\<rparr>, n)
       else (Inr \<lparr>rs_StatusCode = 400, rs_Body = [], rs_ReadErr = Some (Sentinel ''unexpected EOF'')\<rparr>, Suc n)),
     az_wait = (\<lambda>n. (None, n)), az_badURL = (\<lambda>url. None),
     json_price = (\<lambda>body. Inr \<lparr>cp_ReservationOrderID = ''order-1'', cp_CurrencyCode = ''USD''\<rparr>),
     json_orders = (\<lambda>body. Inr \<lparr>pg_NextLink = [], pg_Value = map (\<lambda>c. \<lparr>lo_Name = ''order-1'',
       lo_Tags = [(IdempotencyTagKey, ''token'')], lo_ProvisioningState = ''Succeeded'', lo_DisplayName = []\<rparr>) body\<rparr>)\<rparr>"


lemma demo_truthful: "truthful demo_env CalculatePriceURL ''{}'' ''bearer'' ''token'' id"
proof -
  have "w = 0" if c: "clean_listing demo_env ''bearer'' ''token'' ReservationOrdersListURL evs"
    and a: "\<forall>rq r. Sent rq r \<in> set evs \<longrightarrow> fst (hc_Do demo_env rq w) = r" for w evs
  proof (cases evs)
    case Nil
    with c show ?thesis by (simp add: ReservationOrdersListURL_def BaseURL_def)
  next
    case (Cons ev rest)
    with c obtain r where ev: "ev = Sent (get_request ReservationOrdersListURL ''bearer'') r" by (cases ev) auto
    with a Cons have "r = fst (hc_Do demo_env (get_request ReservationOrdersListURL ''bearer'') w)" by simp
    with c Cons ev show ?thesis
      by (cases w) (auto simp: demo_env_def get_request_def page_answer_def ok_2xx_def matchReservationOrderInPage_def
        order_carries_def map_get_def dispositionOf_def reservationOrderDispositions_def)
  qed
  then show ?thesis
    unfolding truthful_def by (auto simp: demo_env_def post_request_def)
qed

theorem redriven_purchase_buys_once_witness:
  "truthful demo_env CalculatePriceURL ''{}'' ''bearer'' ''token'' id
   \<and> az_world (fold (\<lambda>(body, bearer, currency). redrive demo_env CalculatePriceURL body bearer ''token'' currency)
       [(''{}'', ''bearer'', ''USD''), (''{}'', ''bearer'', ''EUR'')] \<lparr>az_world = 0, az_log = []\<rparr>) \<le> 1"
proof -
  let ?drives = "[(''{}'', ''bearer'', ''USD''), (''{}'', ''bearer'', ''EUR'')]"
  have "\<forall>(body, bearer, currency) \<in> set ?drives. truthful demo_env CalculatePriceURL body bearer ''token'' id"
    using demo_truthful by simp
  from redriven_purchase_buys_once [where live = id and drives = ?drives and s = "\<lparr>az_world = 0, az_log = []\<rparr>", OF this]
  show ?thesis using demo_truthful by simp
qed

section \<open>What an error says\<close>





lemma unknown_simps [simp]: "\<not> outcome_unknown (errorf f as)"
  "outcome_unknown (wrapf f as ws) \<longleftrightarrow> (\<exists>w \<in> set ws. outcome_unknown w)"
  by (simp_all add: outcome_unknown_def errorf_def wrapf_def)

lemma unknown_sentinels [simp]: "\<not> outcome_unknown ErrCurrencyNotAccepted" "\<not> outcome_unknown ErrReservationOrderBlocked"
  "\<not> outcome_unknown errRetryabilityUnknown"
  by (simp_all add: outcome_unknown_def ErrCurrencyNotAccepted_def ErrReservationOrderBlocked_def errRetryabilityUnknown_def)









section \<open>How many requests\<close>

definition is_buy :: "go_string \<Rightarrow> az_event \<Rightarrow> bool" where
  "is_buy calcURL ev \<longleftrightarrow> (case ev of Sent rq r \<Rightarrow> rq_Method rq = ''POST'' \<and> rq_URL rq \<noteq> calcURL | Waited r \<Rightarrow> False)"

definition buys :: "go_string \<Rightarrow> az_event list \<Rightarrow> nat" where
  "buys calcURL evs = length (filter (is_buy calcURL) evs)"

lemma buys_append [simp]: "buys calcURL (xs @ ys) = buys calcURL xs + buys calcURL ys"
  by (simp add: buys_def)

lemma buys_gets [simp]: "only_gets evs \<Longrightarrow> buys calcURL evs = 0"
  by (induction evs) (auto simp: buys_def is_buy_def only_gets_def split: az_event.splits)

lemma buys_quiet [simp]: "quiet calcURL body bearer evs \<Longrightarrow> buys calcURL evs = 0"
  by (auto simp: quiet_def) (simp add: buys_def is_buy_def post_request_def)

lemma buys_wait [simp]: "buys calcURL (Waited r # evs) = buys calcURL evs"
  by (simp add: buys_def is_buy_def)

lemma listing_part_gets: "listing_part env bearer token lst \<Longrightarrow> only_gets lst"
  by (auto simp: listing_part_def dest: clean_listing_gets split: if_splits)

lemma buys_attempt: "attempt_made env calcURL body bearer token currency evs orderID ans \<Longrightarrow> buys calcURL evs \<le> 1"
  by (auto simp: attempt_made_def dest!: listing_part_gets) (simp add: buys_def is_buy_def post_request_def)

lemma buys_unsuccessful: "unsuccessful env calcURL body bearer token currency k evs \<Longrightarrow> buys calcURL evs \<le> 1"
  by (auto simp: unsuccessful_def dest: buys_attempt)

lemma purchase_run_buys:
  "purchase_run env calcURL body bearer token currency k evs res \<Longrightarrow> k \<le> purchaseMaxAttempts
   \<Longrightarrow> buys calcURL evs \<le> Suc purchaseMaxAttempts - k"
proof (induction rule: purchase_run.induct)
  case (adopted orderID evs k)
  then show ?case by (simp add: finding_gets)
next
  case (bought evs orderID ans k)
  then show ?case using buys_attempt [OF bought(1)] by simp
next
  case (failed evs orderID ans e k e')
  then show ?case using buys_attempt [OF failed(1)] by simp
next
  case (gave_up k evs e' e)
  then show ?case using buys_unsuccessful [OF gave_up(1)] by (simp add: buys_def is_buy_def)
next
  case (retried k evs evs' res)
  moreover have "k < purchaseMaxAttempts" using retried(1) by (simp add: unsuccessful_def)
  ultimately show ?case using buys_unsuccessful [OF retried(1)] by simp
qed simp


text \<open>At most three purchase requests.\<close>

theorem purchase_requests_bounded:
  "case DoIdempotentPurchaseTwoStep env calcURL body bearer token currency s of (res, s') \<Rightarrow>
     \<exists>evs. az_log s' = az_log s @ evs \<and> buys calcURL evs \<le> purchaseMaxAttempts"
proof -
  obtain res s' where d: "DoIdempotentPurchaseTwoStep env calcURL body bearer token currency s = (res, s')" by fastforce
  obtain evs where "az_run env s evs s'" "purchase_run env calcURL body bearer token currency 1 evs res"
    using purchase_kept [where env = env and calcURL = calcURL and body = body and bearer = bearer and token = token
      and currency = currency and s = s] d by auto
  with purchase_run_buys [of env calcURL body bearer token currency 1 evs res] show ?thesis
    by (auto simp: d purchaseMaxAttempts_def dest: az_run_log)
qed

section \<open>What a lookup says\<close>

definition listed_pages :: "'w azure_env \<Rightarrow> az_event list \<Rightarrow> reservationOrdersListResponse list" where
  "listed_pages env evs = concat (map (\<lambda>ev. case ev of
     Sent rq r \<Rightarrow> (case page_answer env r of Some page \<Rightarrow> [page] | None \<Rightarrow> []) | Waited r \<Rightarrow> []) evs)"

lemma listed_pages_simps [simp]: "listed_pages env [] = []"
  "page_answer env r = Some page \<Longrightarrow> listed_pages env (Sent rq r # evs) = page # listed_pages env evs"
  by (simp_all add: listed_pages_def)

definition rolled_back :: "listed_order \<Rightarrow> bool" where
  "rolled_back order \<longleftrightarrow> dispositionOf (lo_ProvisioningState order) = orderRetryable
     \<or> (dispositionOf (lo_ProvisioningState order) = orderAdopt \<and> lo_Name order = [])"

lemma match_orders_None: "match_orders orders token = Inr None \<Longrightarrow> order \<in> set orders \<Longrightarrow> order_carries order token \<Longrightarrow> rolled_back order"
  by (induction orders token rule: match_orders.induct) (auto simp: rolled_back_def split: if_splits orderDisposition.splits)

lemma match_orders_Some: "match_orders orders token = Inr (Some i) \<Longrightarrow>
    \<exists>order \<in> set orders. order_carries order token \<and> dispositionOf (lo_ProvisioningState order) = orderAdopt \<and> lo_Name order = i \<and> i \<noteq> []"
  by (induction orders token rule: match_orders.induct) (auto split: if_splits orderDisposition.splits)

lemma clean_listing_pages: "clean_listing env b token url evs \<Longrightarrow> page \<in> set (listed_pages env evs) \<Longrightarrow>
    order \<in> set (pg_Value page) \<Longrightarrow> order_carries order token \<Longrightarrow> rolled_back order"
  by (induction env b token url evs rule: clean_listing.induct)
    (auto split: option.splits simp: matchReservationOrderInPage_def dest: match_orders_None)

lemma clean_listing_end: "clean_listing env b token url evs \<Longrightarrow>
    (if evs = [] then url else pg_NextLink (last (listed_pages env evs))) = []"
proof (induction env b token url evs rule: clean_listing.induct)
  case (2 env b token url rq r evs)
  then obtain page where p: "page_answer env r = Some page" "clean_listing env b token (pg_NextLink page) evs"
    by (auto split: option.splits)
  have "listed_pages env evs \<noteq> []" if "evs \<noteq> []"
    using p(2) that by (cases evs) (auto split: option.splits elim!: clean_listing.elims)
  with 2 p show ?case by (cases "evs = []") auto
qed auto

lemma finding_listing_order: "finding_listing env b token i url evs \<Longrightarrow>
    \<exists>page \<in> set (listed_pages env evs). \<exists>order \<in> set (pg_Value page).
      order_carries order token \<and> dispositionOf (lo_ProvisioningState order) = orderAdopt \<and> lo_Name order = i \<and> i \<noteq> []"
proof (induction env b token i url evs rule: finding_listing.induct)
  case (2 env b token i url rq r evs)
  then obtain page where p: "page_answer env r = Some page" by (auto split: option.splits)
  show ?case
  proof (cases "matchReservationOrderInPage page token")
    case (Inl e)
    with 2(2) p show ?thesis by simp
  next
    case (Inr o')
    with 2 p show ?thesis
      by (cases o') (auto simp: matchReservationOrderInPage_def dest: match_orders_Some)
  qed
qed auto

text \<open>C37. The lookup of a purchase.\<close>

theorem lookup_complete:
  "case FindReservationOrderByIdempotencyToken env bearer token s of (res, s') \<Rightarrow>
     \<exists>evs. az_log s' = az_log s @ evs \<and> only_gets evs \<and> length evs \<le> 50
       \<and> (case res of
            Inl e \<Rightarrow> token \<noteq> []
          | Inr None \<Rightarrow> token = [] \<or> (clean_listing env bearer token ReservationOrdersListURL evs
              \<and> pg_NextLink (last (listed_pages env evs)) = []
              \<and> list_all (\<lambda>page. list_all rolled_back (filter (\<lambda>order. order_carries order token) (pg_Value page))) (listed_pages env evs))
          | Inr (Some i) \<Rightarrow> i \<noteq> [] \<and> list_ex (\<lambda>page. list_ex (\<lambda>order. order_carries order token
              \<and> dispositionOf (lo_ProvisioningState order) = orderAdopt \<and> lo_Name order = i) (pg_Value page)) (listed_pages env evs))"
proof (cases "token = []")
  case True
  then show ?thesis by (auto simp: FindReservationOrderByIdempotencyToken_def)
next
  case False
  obtain res s' where f: "FindReservationOrderByIdempotencyToken env bearer token s = (res, s')" by fastforce
  from Find_run [OF f False] obtain evs where evs: "az_run env s evs s'" "only_gets evs" "length evs \<le> maxOrderPages"
    and r: "case res of Inl e \<Rightarrow> True | Inr None \<Rightarrow> clean_listing env bearer token ReservationOrdersListURL evs
      | Inr (Some i) \<Rightarrow> finding_listing env bearer token i ReservationOrdersListURL evs" by blast
  have len: "length evs \<le> 50" using evs(3) by (simp add: maxOrderPages_def)
  note log = az_run_log [OF evs(1)]
  show ?thesis
  proof (cases res)
    case (Inl e)
    with f log evs(2) len False show ?thesis by auto
  next
    case (Inr o')
    show ?thesis
    proof (cases o')
      case None
      with r Inr have c: "clean_listing env bearer token ReservationOrdersListURL evs" by simp
      have "evs \<noteq> []" using c by (auto simp: ReservationOrdersListURL_def BaseURL_def)
      with clean_listing_end [OF c] clean_listing_pages [OF c] c f log evs(2) len Inr None show ?thesis
        by (auto simp: list_all_iff)
    next
      case (Some i)
      with r Inr finding_listing_order have "\<exists>page \<in> set (listed_pages env evs). \<exists>order \<in> set (pg_Value page).
        order_carries order token \<and> dispositionOf (lo_ProvisioningState order) = orderAdopt \<and> lo_Name order = i \<and> i \<noteq> []" by fastforce
      with f log evs(2) len Inr Some show ?thesis by (auto simp: list_ex_iff)
    qed
  qed
qed


section \<open>A working service\<close>

lemma fetch_page:
  assumes "az_badURL env url = None" and "hc_Do env (get_request url bearer) (az_world s) = (r, w)"
    and "page_answer env r = Some page"
  shows "fetchReservationOrdersPage env url bearer s
    = (Inr page, \<lparr>az_world = w, az_log = az_log s @ [Sent (get_request url bearer) r]\<rparr>)"
  using assms by (auto simp: fetchReservationOrdersPage_def az_send_def page_answer_def split: sum.splits if_splits)

lemma calculate_price:
  assumes "az_badURL env calcURL = None" and "hc_Do env (post_request calcURL body bearer) (az_world s) = (r, w)"
    and "price_answer env currency r = Some orderID"
  shows "doCalculatePrice env calcURL body bearer currency s
    = (Inr orderID, \<lparr>az_world = w, az_log = az_log s @ [Sent (post_request calcURL body bearer) r]\<rparr>)"
  using assms by (auto simp: doCalculatePrice_def az_send_def price_answer_def split: sum.splits if_splits)

text \<open>C38. A purchase that nothing stands against goes through.\<close>

theorem purchase_goes_through:
  assumes "token \<noteq> []" and "\<And>url. az_badURL env url = None"
    and "hc_Do env (get_request ReservationOrdersListURL bearer) (az_world s) = (lr, w1)"
    and "page_answer env lr = Some page" and "pg_NextLink page = []" and "matchReservationOrderInPage page token = Inr None"
    and "hc_Do env (post_request calcURL body bearer) w1 = (pr, w2)" and "price_answer env currency pr = Some orderID"
    and "hc_Do env (post_request (PurchaseURL orderID) body bearer) w2 = (ans, w3)" and "purchase_answer ans = None"
  shows "DoIdempotentPurchaseTwoStep env calcURL body bearer token currency s = (Inr (orderID, False),
    \<lparr>az_world = w3, az_log = az_log s @ [Sent (get_request ReservationOrdersListURL bearer) lr,
       Sent (post_request calcURL body bearer) pr, Sent (post_request (PurchaseURL orderID) body bearer) ans]\<rparr>)"
proof -
  let ?s1 = "\<lparr>az_world = w1, az_log = az_log s @ [Sent (get_request ReservationOrdersListURL bearer) lr]\<rparr>"
  have u: "ReservationOrdersListURL \<noteq> []" by (simp add: ReservationOrdersListURL_def BaseURL_def)
  have "list_loop env bearer token 0 {} ReservationOrdersListURL s = (Inr None, ?s1)"
    using u fetch_page [OF assms(2,3,4)] assms(5,6)
    by (subst list_loop.simps) (simp add: maxOrderPages_def list_loop.simps [of env bearer token "Suc 0"])
  then have l: "FindReservationOrderByIdempotencyToken env bearer token s = (Inr None, ?s1)"
    using assms(1) by (simp add: FindReservationOrderByIdempotencyToken_def)
  have c: "doCalculatePrice env calcURL body bearer currency ?s1
    = (Inr orderID, \<lparr>az_world = w2, az_log = az_log ?s1 @ [Sent (post_request calcURL body bearer) pr]\<rparr>)"
    using calculate_price [of env calcURL body bearer ?s1 pr w2 currency orderID] assms(2,7,8) by simp
  show ?thesis
    using assms(1,2,9,10) l c
    by (simp add: DoIdempotentPurchaseTwoStep_def purchaseTwoStepGuarded_def recheckAlreadyPurchased_def doPurchase_def
      az_send_def purchaseMaxAttempts_def purchase_loop.simps [of env calcURL body bearer token currency "Suc 0"])
qed

definition demo_env_ok :: "nat azure_env" where
  "demo_env_ok = demo_env\<lparr>hc_Do := (\<lambda>rq n. (Inr \<lparr>rs_StatusCode = 200, rs_Body = replicate n CHR ''o'', rs_ReadErr = None\<rparr>,
     if rq_Method rq = ''POST'' \<and> rq_URL rq \<noteq> CalculatePriceURL then Suc n else n))\<rparr>"

theorem purchase_goes_through_witness:
  "\<exists>s'. DoIdempotentPurchaseTwoStep demo_env_ok CalculatePriceURL ''{}'' ''bearer'' ''token'' ''usd'' \<lparr>az_world = 0, az_log = []\<rparr>
     = (Inr (''order-1'', False), s') \<and> length (az_log s') = 3"
proof -
  let ?ok = "Inr \<lparr>rs_StatusCode = 200, rs_Body = [], rs_ReadErr = None\<rparr> :: go_error + http_response"
  let ?s = "\<lparr>az_world = 0 :: nat, az_log = []\<rparr>"
  have b: "az_badURL demo_env_ok url = None" for url by (simp add: demo_env_ok_def demo_env_def)
  have l: "hc_Do demo_env_ok (get_request ReservationOrdersListURL ''bearer'') (az_world ?s) = (?ok, 0)"
    by (simp add: demo_env_ok_def get_request_def)
  have p: "page_answer demo_env_ok ?ok = Some \<lparr>pg_NextLink = [], pg_Value = []\<rparr>"
    by (simp add: demo_env_ok_def demo_env_def page_answer_def ok_2xx_def)
  have c: "hc_Do demo_env_ok (post_request CalculatePriceURL ''{}'' ''bearer'') 0 = (?ok, 0)"
    by (simp add: demo_env_ok_def post_request_def)
  have "checkBillingCurrency ''USD'' ''usd'' = None" by code_simp
  then have pr: "price_answer demo_env_ok ''usd'' ?ok = Some ''order-1''"
    by (simp add: demo_env_ok_def demo_env_def price_answer_def ok_2xx_def)
  obtain w where q: "hc_Do demo_env_ok (post_request (PurchaseURL ''order-1'') ''{}'' ''bearer'') 0 = (?ok, w)"
    by (simp add: demo_env_ok_def)
  from purchase_goes_through [OF _ b l p _ _ c pr q, of "''token''"] show ?thesis
    by (simp add: matchReservationOrderInPage_def purchase_answer_def)
qed

section \<open>The errors of two runs\<close>









end
