(* ===== verification/Az_Services.thy ===== *)
theory Az_Services
  imports Az_Once
begin

text \<open>
  The purchase operation of the Azure service clients (virtual machines, SQL, search, Managed Redis,
  Synapse, Cosmos DB; \<open>services/*/client.go\<close>) and their offering details. The clients differ in the
  reserved resource type, the name of the service and their messages. The credential, the clock
  (\<open>time.Now\<close> for the result and for the display name) and the random source are parameters; so is
  the price lookup of the offering details.
\<close>

section \<open>Results\<close>

record PurchaseResult =
  pr_Timestamp :: go_time
  pr_Error :: "go_error option"
  pr_Cost :: "float64 option"
  pr_CommitmentID :: go_string
  pr_Recommendation :: Recommendation
  pr_Success :: bool
  pr_DryRun :: bool
  pr_ExistingCommitment :: bool

definition new_result :: "Recommendation \<Rightarrow> go_time \<Rightarrow> PurchaseResult" where
  "new_result rec now = \<lparr>pr_Timestamp = now, pr_Error = None, pr_Cost = None, pr_CommitmentID = [], pr_Recommendation = rec,
     pr_Success = False, pr_DryRun = False, pr_ExistingCommitment = False\<rparr>"

definition failed_result :: "Recommendation \<Rightarrow> go_time \<Rightarrow> go_error \<Rightarrow> PurchaseResult" where
  "failed_result rec now e = (new_result rec now)\<lparr>pr_Error := Some e\<rparr>"

definition bought_result :: "Recommendation \<Rightarrow> go_time \<Rightarrow> go_string \<Rightarrow> go_string \<times> bool \<Rightarrow> PurchaseResult" where
  "bought_result rec now billingPlan r = (new_result rec now)\<lparr>pr_Success := True, pr_ExistingCommitment := snd r,
     pr_CommitmentID := fst r, pr_Cost := UpfrontCostForBillingPlan billingPlan\<rparr>"

section \<open>Purchases\<close>

record azure_client =
  ac_region :: go_string
  ac_subscriptionID :: go_string

text \<open>What the guards of every client let through: the billing plan.\<close>

definition purchase_checks :: "Recommendation \<Rightarrow> PurchaseOptions \<Rightarrow> go_error + go_string" where
  "purchase_checks rec opts =
    (if o_Source opts = [] then Inl (errorf ''purchase source is required for Azure reservation purchases'' [])
     else if trim_space (r_ResourceType rec) = [] then Inl (errorf ''resource type is required'' [])
     else if r_Count rec \<le> 0 then Inl (errorf ''quantity must be greater than zero, got %d'' [ArgI (r_Count rec)])
     else case ParseTermYears (r_Term rec) of Inl e \<Rightarrow> Inl e
     | Inr termYears \<Rightarrow> (case ReservationTermForYears termYears of Inl e \<Rightarrow> Inl e
       | Inr t \<Rightarrow> BillingPlanForPaymentOption (r_PaymentOption rec)))"

definition service_display_name :: "go_string \<Rightarrow> azure_client \<Rightarrow> go_time \<Rightarrow> nat list option \<Rightarrow> Recommendation \<Rightarrow> go_string" where
  "service_display_name svc c clock entropy r = BuildDisplayName clock entropy
     \<lparr>f_Now = clock, f_Service = svc, f_Region = ac_region c, f_ResourceType = r_ResourceType r, f_Term = r_Term r,
      f_Payment = r_PaymentOption r, f_rand = [], f_Count = r_Count r\<rparr>"

definition service_params :: "go_string \<Rightarrow> go_string \<Rightarrow> azure_client \<Rightarrow> go_time \<Rightarrow> nat list option \<Rightarrow> PurchaseParams" where
  "service_params svc reservedType c clock entropy =
     \<lparr>p_DisplayName = service_display_name svc c clock entropy, p_ReservedResourceType = reservedType\<rparr>"

text \<open>\<open>prepare\<close> is what a client does between building the body and submitting it.\<close>

definition reservation_purchase :: "go_string \<Rightarrow> go_string \<Rightarrow> ('w az_state \<Rightarrow> 'w az_state) \<Rightarrow> 'w azure_env
    \<Rightarrow> ('w \<Rightarrow> (go_error + go_string) \<times> 'w) \<Rightarrow> azure_client \<Rightarrow> go_time \<Rightarrow> go_time \<Rightarrow> nat list option
    \<Rightarrow> Recommendation \<Rightarrow> PurchaseOptions \<Rightarrow> 'w az_state \<Rightarrow> PurchaseResult \<times> 'w az_state" where
  "reservation_purchase svc reservedType prepare env get_token c now clock entropy rec opts s =
    (case purchase_checks rec opts of
       Inl e \<Rightarrow> (failed_result rec now e, s)
     | Inr billingPlan \<Rightarrow>
         (case BuildPurchaseBody (service_params svc reservedType c clock entropy) rec opts (ac_region c) (ac_subscriptionID c) billingPlan of
            Inl e \<Rightarrow> (failed_result rec now (wrapf ''failed to marshal request: %w'' [ArgS (err_text e)] [e]), s)
          | Inr body \<Rightarrow> (case Submit env get_token body opts (r_CommitmentCurrency rec) (prepare s) of
              (Inl e, s') \<Rightarrow> (failed_result rec now e, s')
            | (Inr r, s') \<Rightarrow> (bought_result rec now billingPlan r, s'))))"

definition database_PurchaseCommitment :: "'w azure_env \<Rightarrow> ('w \<Rightarrow> (go_error + go_string) \<times> 'w) \<Rightarrow> azure_client \<Rightarrow> go_time
    \<Rightarrow> go_time \<Rightarrow> nat list option \<Rightarrow> Recommendation \<Rightarrow> PurchaseOptions \<Rightarrow> 'w az_state \<Rightarrow> PurchaseResult \<times> 'w az_state" where
  "database_PurchaseCommitment = reservation_purchase ''sql'' ''SqlDatabases'' id"

definition search_PurchaseCommitment :: "'w azure_env \<Rightarrow> ('w \<Rightarrow> (go_error + go_string) \<times> 'w) \<Rightarrow> azure_client \<Rightarrow> go_time
    \<Rightarrow> go_time \<Rightarrow> nat list option \<Rightarrow> Recommendation \<Rightarrow> PurchaseOptions \<Rightarrow> 'w az_state \<Rightarrow> PurchaseResult \<times> 'w az_state" where
  "search_PurchaseCommitment = reservation_purchase ''search'' ''SearchService'' id"

definition managedredis_PurchaseCommitment :: "'w azure_env \<Rightarrow> ('w \<Rightarrow> (go_error + go_string) \<times> 'w) \<Rightarrow> azure_client \<Rightarrow> go_time
    \<Rightarrow> go_time \<Rightarrow> nat list option \<Rightarrow> Recommendation \<Rightarrow> PurchaseOptions \<Rightarrow> 'w az_state \<Rightarrow> PurchaseResult \<times> 'w az_state" where
  "managedredis_PurchaseCommitment = reservation_purchase ''redis'' ''RedisCache'' id"

definition synapse_PurchaseCommitment :: "'w azure_env \<Rightarrow> ('w \<Rightarrow> (go_error + go_string) \<times> 'w) \<Rightarrow> azure_client \<Rightarrow> go_time
    \<Rightarrow> go_time \<Rightarrow> nat list option \<Rightarrow> Recommendation \<Rightarrow> PurchaseOptions \<Rightarrow> 'w az_state \<Rightarrow> PurchaseResult \<times> 'w az_state" where
  "synapse_PurchaseCommitment = reservation_purchase ''synapse'' ''SqlDataWarehouse'' id"

definition cosmosdb_PurchaseCommitment :: "'w azure_env \<Rightarrow> ('w \<Rightarrow> (go_error + go_string) \<times> 'w) \<Rightarrow> azure_client \<Rightarrow> go_time
    \<Rightarrow> go_time \<Rightarrow> nat list option \<Rightarrow> Recommendation \<Rightarrow> PurchaseOptions \<Rightarrow> 'w az_state \<Rightarrow> PurchaseResult \<times> 'w az_state" where
  "cosmosdb_PurchaseCommitment = reservation_purchase ''cosmos'' ''CosmosDb'' id"

definition ErrRefusedBeforePurchase :: go_error where
  "ErrRefusedBeforePurchase = Sentinel ''refused before purchase''"

definition cache_PurchaseCommitment :: "go_time \<Rightarrow> Recommendation \<Rightarrow> PurchaseResult" where
  "cache_PurchaseCommitment now rec = failed_result rec now
     (wrapf ''%w: Azure Redis reservations are purchased through the %s service, not %s''
       [ArgS (err_text ErrRefusedBeforePurchase), ArgS ServiceMemoryDB, ArgS ServiceCache] [ErrRefusedBeforePurchase])"

section \<open>Registering the resource provider (compute)\<close>

text \<open>\<open>json_state\<close> decodes the registration state of the provider.\<close>

definition fetchCapacityProviderState :: "'w azure_env \<Rightarrow> (go_string \<Rightarrow> go_error + go_string) \<Rightarrow> azure_client \<Rightarrow> go_string \<Rightarrow> go_string
    \<Rightarrow> 'w az_state \<Rightarrow> (go_error + go_string) \<times> 'w az_state" where
  "fetchCapacityProviderState env json_state c bearer version s =
    (let checkURL = sprintf ''https://management.azure.com/subscriptions/%s/providers/Microsoft.Capacity?api-version=%s''
           [ArgS (ac_subscriptionID c), ArgS version]
     in case az_badURL env checkURL of
       Some e \<Rightarrow> (Inl (wrapf ''build request: %w'' [ArgS (err_text e)] [e]), s)
     | None \<Rightarrow> (case az_send env (get_request checkURL bearer) s of
         (Inl e, s') \<Rightarrow> (Inl (wrapf ''check provider: %w'' [ArgS (err_text e)] [e]), s')
       | (Inr resp, s') \<Rightarrow> (case rs_ReadErr resp of
           Some e \<Rightarrow> (Inl (wrapf ''read provider check response: %w'' [ArgS (err_text e)] [e]), s')
         | None \<Rightarrow>
             if \<not> ok_2xx (rs_StatusCode resp) then
               (Inl (errorf ''check Microsoft.Capacity provider status returned HTTP %d: %s''
                 [ArgI (rs_StatusCode resp), ArgS (rs_Body resp)]), s')
             else (case json_state (rs_Body resp) of
               Inl e \<Rightarrow> (Inl (wrapf ''decode provider state: %w'' [ArgS (err_text e)] [e]), s')
             | Inr state \<Rightarrow> (Inr state, s')))))"

definition triggerCapacityProviderRegistration :: "'w azure_env \<Rightarrow> azure_client \<Rightarrow> go_string \<Rightarrow> go_string
    \<Rightarrow> 'w az_state \<Rightarrow> go_error option \<times> 'w az_state" where
  "triggerCapacityProviderRegistration env c bearer version s =
    (let registerURL = sprintf ''https://management.azure.com/subscriptions/%s/providers/Microsoft.Capacity/register?api-version=%s''
           [ArgS (ac_subscriptionID c), ArgS version]
     in case az_badURL env registerURL of
       Some e \<Rightarrow> (Some (wrapf ''build register request: %w'' [ArgS (err_text e)] [e]), s)
     | None \<Rightarrow> (case az_send env (post_request registerURL [] bearer) s of
         (Inl e, s') \<Rightarrow> (Some (wrapf ''register provider: %w'' [ArgS (err_text e)] [e]), s')
       | (Inr resp, s') \<Rightarrow> (case rs_ReadErr resp of
           Some e \<Rightarrow> (Some (wrapf ''read register-provider response: %w'' [ArgS (err_text e)] [e]), s')
         | None \<Rightarrow>
             if \<not> ok_2xx (rs_StatusCode resp) then
               (Some (errorf ''register Microsoft.Capacity provider returned HTTP %d: %s''
                 [ArgI (rs_StatusCode resp), ArgS (rs_Body resp)]), s')
             else (None, s'))))"

text \<open>\<open>get_token\<close> is \<open>None\<close> for a client without credential.\<close>

definition checkAndRegisterCapacityProvider :: "'w azure_env \<Rightarrow> (go_string \<Rightarrow> go_error + go_string)
    \<Rightarrow> ('w \<Rightarrow> (go_error + go_string) \<times> 'w) option \<Rightarrow> azure_client \<Rightarrow> 'w az_state \<Rightarrow> go_error option \<times> 'w az_state" where
  "checkAndRegisterCapacityProvider env json_state cred c s = (case cred of
     None \<Rightarrow> (None, s)
   | Some get_token \<Rightarrow> (case get_token (az_world s) of
       (Inl e, w) \<Rightarrow> (Some (wrapf ''get token: %w'' [ArgS (err_text e)] [e]), s\<lparr>az_world := w\<rparr>)
     | (Inr token, w) \<Rightarrow> (case fetchCapacityProviderState env json_state c token ''2021-04-01'' (s\<lparr>az_world := w\<rparr>) of
         (Inl e, s') \<Rightarrow> (Some e, s')
       | (Inr state, s') \<Rightarrow> if state = ''Registered'' then (None, s')
           else triggerCapacityProviderRegistration env c token ''2021-04-01'' s')))"

text \<open>\<open>once\<close> is whether \<open>capacityProviderOnce\<close> has fired; the error is logged only.\<close>

definition ensureCapacityProviderRegistered :: "bool \<Rightarrow> 'w azure_env \<Rightarrow> (go_string \<Rightarrow> go_error + go_string)
    \<Rightarrow> ('w \<Rightarrow> (go_error + go_string) \<times> 'w) option \<Rightarrow> azure_client \<Rightarrow> 'w az_state \<Rightarrow> 'w az_state" where
  "ensureCapacityProviderRegistered once env json_state cred c s =
    (if once then s else snd (checkAndRegisterCapacityProvider env json_state cred c s))"

definition compute_PurchaseCommitment :: "bool \<Rightarrow> (go_string \<Rightarrow> go_error + go_string) \<Rightarrow> 'w azure_env
    \<Rightarrow> ('w \<Rightarrow> (go_error + go_string) \<times> 'w) \<Rightarrow> azure_client \<Rightarrow> go_time \<Rightarrow> go_time \<Rightarrow> nat list option
    \<Rightarrow> Recommendation \<Rightarrow> PurchaseOptions \<Rightarrow> 'w az_state \<Rightarrow> PurchaseResult \<times> 'w az_state" where
  "compute_PurchaseCommitment once json_state env get_token c =
     reservation_purchase ''vm'' ''VirtualMachines'' (ensureCapacityProviderRegistered once env json_state (Some get_token) c)
       env get_token c"

section \<open>Offering details\<close>

record OfferingDetails =
  od_OfferingID :: go_string
  od_ResourceType :: go_string
  od_Term :: go_string
  od_PaymentOption :: go_string
  od_Currency :: go_string
  od_UpfrontCost :: float64
  od_RecurringCost :: float64
  od_TotalCost :: float64
  od_EffectiveHourlyRate :: float64

record azure_pricing =
  ap_Currency :: go_string
  ap_HourlyRate :: float64
  ap_ReservationPrice :: float64

text \<open>
  \<open>wrap_term\<close> tells the clients that wrap a term error from those that return it as it is; \<open>tag\<close> and
  \<open>label\<close> are the names in the offering ID and in the message.
\<close>

definition offering_details :: "bool \<Rightarrow> go_string \<Rightarrow> go_string \<Rightarrow> (go_string \<Rightarrow> go_string \<Rightarrow> int \<Rightarrow> go_error + azure_pricing)
    \<Rightarrow> azure_client \<Rightarrow> Recommendation \<Rightarrow> go_error + OfferingDetails" where
  "offering_details wrap_term tag label get_pricing c rec = (case ParseTermYears (r_Term rec) of
     Inl e \<Rightarrow> Inl (if wrap_term then wrapf ''invalid term: %w'' [ArgS (err_text e)] [e] else e)
   | Inr termYears \<Rightarrow> (case get_pricing (r_ResourceType rec) (ac_region c) termYears of
       Inl e \<Rightarrow> Inl (wrapf ''failed to get pricing: %w'' [ArgS (err_text e)] [e])
     | Inr p \<Rightarrow>
         let totalCost = ap_ReservationPrice p;
             mk = (\<lambda>upfront recurring. Inr \<lparr>
               od_OfferingID = sprintf ''azure-%s-%s-%s-%s'' [ArgS tag, ArgS (r_ResourceType rec), ArgS (ac_region c), ArgS (r_Term rec)],
               od_ResourceType = r_ResourceType rec, od_Term = r_Term rec, od_PaymentOption = r_PaymentOption rec,
               od_Currency = ap_Currency p, od_UpfrontCost = upfront, od_RecurringCost = recurring, od_TotalCost = totalCost,
               od_EffectiveHourlyRate = ap_HourlyRate p\<rparr>)
         in if r_PaymentOption rec \<in> {''all-upfront'', ''upfront''} then mk totalCost 0
            else if r_PaymentOption rec \<in> {''monthly'', ''no-upfront''} then
              mk 0 (fdiv totalCost (float_of_int termYears * Fin 12))
            else Inl (errorf ''unsupported payment option for Azure %s offering details: %q'' [ArgS label, ArgS (r_PaymentOption rec)])))"

definition compute_GetOfferingDetails :: "(go_string \<Rightarrow> go_string \<Rightarrow> int \<Rightarrow> go_error + azure_pricing)
    \<Rightarrow> azure_client \<Rightarrow> Recommendation \<Rightarrow> go_error + OfferingDetails" where
  "compute_GetOfferingDetails = offering_details True ''vm'' ''VM''"

definition database_GetOfferingDetails :: "(go_string \<Rightarrow> go_string \<Rightarrow> int \<Rightarrow> go_error + azure_pricing)
    \<Rightarrow> azure_client \<Rightarrow> Recommendation \<Rightarrow> go_error + OfferingDetails" where
  "database_GetOfferingDetails = offering_details True ''sql'' ''SQL Database''"

definition search_GetOfferingDetails :: "(go_string \<Rightarrow> go_string \<Rightarrow> int \<Rightarrow> go_error + azure_pricing)
    \<Rightarrow> azure_client \<Rightarrow> Recommendation \<Rightarrow> go_error + OfferingDetails" where
  "search_GetOfferingDetails = offering_details True ''search'' ''AI Search''"

definition managedredis_GetOfferingDetails :: "(go_string \<Rightarrow> go_string \<Rightarrow> int \<Rightarrow> go_error + azure_pricing)
    \<Rightarrow> azure_client \<Rightarrow> Recommendation \<Rightarrow> go_error + OfferingDetails" where
  "managedredis_GetOfferingDetails = offering_details False ''managed-redis'' ''Managed Redis''"

definition synapse_GetOfferingDetails :: "(go_string \<Rightarrow> go_string \<Rightarrow> int \<Rightarrow> go_error + azure_pricing)
    \<Rightarrow> azure_client \<Rightarrow> Recommendation \<Rightarrow> go_error + OfferingDetails" where
  "synapse_GetOfferingDetails = offering_details False ''synapse'' ''Synapse''"

definition cosmosdb_GetOfferingDetails :: "(go_string \<Rightarrow> go_string \<Rightarrow> int \<Rightarrow> go_error + azure_pricing)
    \<Rightarrow> azure_client \<Rightarrow> Recommendation \<Rightarrow> go_error + OfferingDetails" where
  "cosmosdb_GetOfferingDetails = offering_details True ''cosmos'' ''Cosmos DB''"

definition cache_GetOfferingDetails :: "(go_string \<Rightarrow> go_string \<Rightarrow> int \<Rightarrow> go_error + azure_pricing)
    \<Rightarrow> azure_client \<Rightarrow> Recommendation \<Rightarrow> go_error + OfferingDetails" where
  "cache_GetOfferingDetails = offering_details True ''redis'' ''Cache for Redis''"

text \<open>\<open>ValidateOffering\<close>: \<open>get_types\<close> lists the valid resource types.\<close>

definition validate_offering :: "go_string \<Rightarrow> go_error + go_string list \<Rightarrow> Recommendation \<Rightarrow> go_error option" where
  "validate_offering label types rec = (case types of
     Inl e \<Rightarrow> Some (wrapf ''failed to get valid SKUs: %w'' [ArgS (err_text e)] [e])
   | Inr skus \<Rightarrow> if \<exists>sku \<in> set skus. equal_fold sku (trim_space (r_ResourceType rec)) then None
       else Some (errorf ''invalid Azure %s SKU: %s'' [ArgS label, ArgS (r_ResourceType rec)]))"

definition compute_ValidateOffering :: "go_error + go_string list \<Rightarrow> Recommendation \<Rightarrow> go_error option" where
  "compute_ValidateOffering = validate_offering ''VM''"
definition database_ValidateOffering :: "go_error + go_string list \<Rightarrow> Recommendation \<Rightarrow> go_error option" where
  "database_ValidateOffering = validate_offering ''SQL Database''"
definition search_ValidateOffering :: "go_error + go_string list \<Rightarrow> Recommendation \<Rightarrow> go_error option" where
  "search_ValidateOffering = validate_offering ''Search''"
definition synapse_ValidateOffering :: "go_error + go_string list \<Rightarrow> Recommendation \<Rightarrow> go_error option" where
  "synapse_ValidateOffering = validate_offering ''Synapse''"
definition cosmosdb_ValidateOffering :: "go_error + go_string list \<Rightarrow> Recommendation \<Rightarrow> go_error option" where
  "cosmosdb_ValidateOffering = validate_offering ''Cosmos DB''"
definition cache_ValidateOffering :: "go_error + go_string list \<Rightarrow> Recommendation \<Rightarrow> go_error option" where
  "cache_ValidateOffering = validate_offering ''Redis Cache''"

definition managedredis_ValidateOffering :: "go_error + go_string list \<Rightarrow> Recommendation \<Rightarrow> go_error option" where
  "managedredis_ValidateOffering types rec = (case types of
     Inl e \<Rightarrow> Some (wrapf ''failed to get valid SKUs: %w'' [ArgS (err_text e)] [e])
   | Inr skus \<Rightarrow> if r_ResourceType rec \<in> set skus then None
       else Some (errorf ''invalid Azure Cache for Redis SKU: %s'' [ArgS (r_ResourceType rec)]))"


section \<open>What a result says\<close>

lemma body_of_checked:
  "purchase_checks rec opts = Inr plan \<Longrightarrow> \<exists>body. BuildPurchaseBody p rec opts region sub plan' = Inr body"
  by (auto simp: purchase_checks_def BuildPurchaseBody_def purchase_body_def split: if_splits sum.splits)

lemma price_answer_order: "price_answer env currency a = Some i \<Longrightarrow> i \<noteq> []"
  by (auto simp: price_answer_def split: sum.splits if_splits)

lemma purchase_run_order: "purchase_run env calcURL body bearer token currency k evs res \<Longrightarrow> res = Inr (i, e) \<Longrightarrow> i \<noteq> []"
proof (induction rule: purchase_run.induct)
  case (adopted orderID evs k)
  then show ?case using finding_listing_order by fastforce
next
  case (bought evs orderID ans k)
  then show ?case by (auto simp: attempt_made_def dest: price_answer_order)
qed auto

lemma Submit_order:
  assumes "Submit env get_token body opts currency s = (Inr (i, e), s')"
  shows "i \<noteq> []"
proof -
  obtain tok w where d: "DoIdempotentPurchaseTwoStep env CalculatePriceURL body tok (o_IdempotencyToken opts) currency (s\<lparr>az_world := w\<rparr>)
      = (Inr (i, e), s')"
    using assms by (auto simp: Submit_def split: prod.splits sum.splits)
  show ?thesis
    using purchase_kept [where env = env and calcURL = CalculatePriceURL and body = body and bearer = tok
      and token = "o_IdempotencyToken opts" and currency = currency and s = "s\<lparr>az_world := w\<rparr>"] d
    by (auto dest: purchase_run_order)
qed

text \<open>The result of a purchase of any Azure reservation service.\<close>

theorem azure_purchase_result:
  "case reservation_purchase svc reservedType prepare env get_token c now clock entropy rec opts s of (r, s') \<Rightarrow>
     (pr_Success r \<longleftrightarrow> pr_Error r = None) \<and> (pr_Success r \<longleftrightarrow> pr_CommitmentID r \<noteq> [])
     \<and> pr_Cost r = (if pr_Success r \<and> purchase_checks rec opts = Inr ReservationBillingPlanMonthly then Some 0 else None)
     \<and> pr_Recommendation r = rec
     \<and> (case purchase_checks rec opts of Inl e \<Rightarrow> s' = s \<and> pr_Error r = Some e | Inr plan \<Rightarrow>
          \<exists>body. BuildPurchaseBody (service_params svc reservedType c clock entropy) rec opts (ac_region c) (ac_subscriptionID c) plan = Inr body
            \<and> s' = snd (Submit env get_token body opts (r_CommitmentCurrency rec) (prepare s)))"
proof (cases "purchase_checks rec opts")
  case (Inl e)
  then show ?thesis by (simp add: reservation_purchase_def failed_result_def new_result_def)
next
  case (Inr plan)
  let ?p = "service_params svc reservedType c clock entropy"
  from body_of_checked [OF Inr] obtain body where
    b: "BuildPurchaseBody ?p rec opts (ac_region c) (ac_subscriptionID c) plan = Inr body" by blast
  obtain res s' where sub: "Submit env get_token body opts (r_CommitmentCurrency rec) (prepare s) = (res, s')" by fastforce
  show ?thesis
  proof (cases res)
    case (Inl e)
    with Inr b sub show ?thesis by (simp add: reservation_purchase_def failed_result_def new_result_def)
  next
    case r: (Inr r)
    obtain i e where ie: "r = (i, e)" by fastforce
    have "i \<noteq> []" using Submit_order sub r ie by blast
    with Inr b sub r ie show ?thesis
      by (auto simp: reservation_purchase_def bought_result_def new_result_def UpfrontCostForBillingPlan_def)
  qed
qed

text \<open>
  A commitment is bought only for a count, a term and a payment option Azure can express, and for a source.
\<close>

lemma purchase_checks_iff:
  "(\<exists>plan. purchase_checks rec opts = Inr plan) \<longleftrightarrow> o_Source opts \<noteq> [] \<and> trim_space (r_ResourceType rec) \<noteq> [] \<and> 0 < r_Count rec
     \<and> to_lower (trim_space (r_Term rec)) \<in> {[], ''1'', ''1yr'', ''1y'', ''3'', ''3yr'', ''3y''}
     \<and> to_lower (trim_space (r_PaymentOption rec)) \<in> {''all-upfront'', ''upfront'', ''no-upfront'', ''monthly''}"
  by (auto simp: purchase_checks_def ParseTermYears_def ReservationTermForYears_def BillingPlanForPaymentOption_def Let_def)

text \<open>Offering details split one price.\<close>

theorem offering_details_exact:
  assumes "offering_details wrap_term tag label get_pricing c rec = Inr d"
  shows "\<exists>years p. ParseTermYears (r_Term rec) = Inr years \<and> years \<in> {1, 3}
    \<and> get_pricing (r_ResourceType rec) (ac_region c) years = Inr p
    \<and> od_TotalCost d = ap_ReservationPrice p \<and> od_Currency d = ap_Currency p
    \<and> ((od_UpfrontCost d = od_TotalCost d \<and> od_RecurringCost d = 0)
       \<or> (od_UpfrontCost d = 0 \<and> od_RecurringCost d = fdiv (od_TotalCost d) (Fin (12 * of_int years))))"
proof -
  obtain years p where y: "ParseTermYears (r_Term rec) = Inr years"
    and p: "get_pricing (r_ResourceType rec) (ac_region c) years = Inr p"
    using assms by (auto simp: offering_details_def split: sum.splits)
  have years: "years \<in> {1, 3}" using y by (auto simp: ParseTermYears_def Let_def split: if_splits)
  then have m: "float_of_int years * Fin 12 = Fin (12 * of_int years)" by (auto simp: float_of_int_def)
  note d = assms [unfolded offering_details_def Let_def y sum.case p m]
  show ?thesis
  proof (cases "r_PaymentOption rec \<in> {''all-upfront'', ''upfront''}")
    case True
    with d years y p show ?thesis by (simp only: if_True) auto
  next
    case False
    with d have "r_PaymentOption rec \<in> {''monthly'', ''no-upfront''}" by (simp only: if_False split: if_splits) simp
    with False d years y p show ?thesis by (simp only: if_False if_True) auto
  qed
qed


definition demo_price_lookup :: "go_string \<Rightarrow> go_string \<Rightarrow> int \<Rightarrow> go_error + azure_pricing" where
  "demo_price_lookup sku region years = Inr \<lparr>ap_Currency = ''USD'', ap_HourlyRate = Fin (1 / 8), ap_ReservationPrice = Fin 1200\<rparr>"

definition demo_monthly :: Recommendation where
  "demo_monthly = zero_rec\<lparr>r_Term := ''1yr'', r_ResourceType := ''D2s'', r_PaymentOption := ''monthly''\<rparr>"

theorem offering_details_exact_witness:
  "\<exists>d. compute_GetOfferingDetails demo_price_lookup \<lparr>ac_region = ''eastus'', ac_subscriptionID = ''s''\<rparr> demo_monthly = Inr d
     \<and> od_UpfrontCost d = 0 \<and> od_RecurringCost d = Fin 100 \<and> od_TotalCost d = Fin 1200"
proof -
  let ?c = "\<lparr>ac_region = ''eastus'', ac_subscriptionID = ''s''\<rparr>"
  have t: "ParseTermYears ''1yr'' = Inr 1"
    by (simp add: ParseTermYears_def trim_space_printable printable_def ascii_lower_def)
  have f: "r_Term demo_monthly = ''1yr''" "r_PaymentOption demo_monthly = ''monthly''" by (simp_all add: demo_monthly_def)
  have n: "''monthly'' \<notin> {''all-upfront'', ''upfront''}" "''monthly'' \<in> {''monthly'', ''no-upfront''}" by simp_all
  have m: "(1200 :: rat) / (12 * of_int 1) = 100" by simp
  obtain d where d: "offering_details True ''vm'' ''VM'' demo_price_lookup ?c demo_monthly = Inr d" and u: "od_UpfrontCost d = 0"
    unfolding offering_details_def Let_def f t sum.case demo_price_lookup_def if_not_P [OF n(1)] if_P [OF n(2)] by (simp del: sprintf.simps)
  from offering_details_exact [OF d] have "od_TotalCost d = Fin 1200 \<and> od_RecurringCost d = fdiv (Fin 1200) (Fin (12 * of_int 1))"
    using u t unfolding f by (auto simp: demo_price_lookup_def zero_float64_def)
  then show ?thesis using d u by (simp only: compute_GetOfferingDetails_def m fdiv.simps) (intro exI [of _ d], simp)
qed

end
