(* ===== verification/Az_Inventory.thy ===== *)
theory Az_Inventory
  imports Az_Services
begin

text \<open>
  The inventory of Azure reservations the duplicate check reads: \<open>inventory.go\<close> lists the orders applied to
  a subscription and pages through their reservations, \<open>strict.go\<close> converts them and fails closed on
  what it cannot classify, \<open>dedupe.go\<close> collapses daily usage rows; and the \<open>GetExistingCommitments\<close> of the
  service clients. The responses of the SDK are records of optional fields; a pager is a state with
  \<open>more\<close> and \<open>next\<close>, whose error may also be a failed wait for a request slot.
\<close>

section \<open>Responses\<close>

record reservation_properties =
  rp_ReservedResourceType :: "go_string option"
  rp_ProvisioningState :: "go_string option"
  rp_AppliedScopeType :: "go_string option"
  rp_AppliedScopes :: "go_string option list"
  rp_BillingScopeID :: "go_string option"
  rp_Quantity :: "int option"
  rp_PurchaseDate :: "go_time option"
  rp_ExpiryDate :: "go_time option"

record reservation_response =
  rr_ID :: "go_string option"
  rr_Location :: "go_string option"
  rr_SKUName :: "go_string option"
  rr_Properties :: "reservation_properties option"

record ('p, 'a) sdk_pager =
  pgr_more :: "'p \<Rightarrow> bool"
  pgr_next :: "'p \<Rightarrow> (go_error + 'a) \<times> 'p"

section \<open>Listing (inventory.go)\<close>

definition subscriptionFromAppliedScope :: "go_string \<Rightarrow> go_error + go_string" where
  "subscriptionFromAppliedScope scope =
    (let bad = Inl (errorf ''invalid applied scope %q'' [ArgS scope]);
         segments = split_at CHR ''/'' scope
     in if \<not> starts_with scope ''/'' then bad
        else if length segments \<noteq> 3 \<and> length segments \<noteq> 5 then bad
        else if \<not> equal_fold (segments ! 1) ''subscriptions'' \<or> segments ! 2 = [] then bad
        else if length segments = 5 \<and> (\<not> equal_fold (segments ! 3) ''resourceGroups'' \<or> segments ! 4 = []) then bad
        else Inr (segments ! 2))"

text \<open>\<open>strings.IndexFunc(s, unicode.IsSpace) >= 0\<close>\<close>

fun has_space :: "go_string \<Rightarrow> bool" where
  "has_space [] = False"
| "has_space (c # s) = ((\<exists>p \<in> set go_spaces. starts_with (c # s) p) \<or> has_space s)"

definition singleScopeMatchesSubscription :: "go_string option list \<Rightarrow> go_string \<Rightarrow> go_error + bool" where
  "singleScopeMatchesSubscription scopes subscriptionID = (case scopes of
     [raw] \<Rightarrow> (case raw of
         None \<Rightarrow> Inl (errorf ''single scope has an empty applied scope'' [])
       | Some scope \<Rightarrow>
           if trim_space scope = [] then Inl (errorf ''single scope has an empty applied scope'' [])
           else (case subscriptionFromAppliedScope scope of
             Inl e \<Rightarrow> Inl e
           | Inr sub \<Rightarrow> if has_space sub then Inl (errorf ''invalid applied scope %q'' [ArgS scope])
               else Inr (equal_fold sub subscriptionID)))
   | _ \<Rightarrow> Inl (errorf ''single scope requires exactly one applied scope, got %d'' [ArgI (int (length scopes))]))"

fun filterAppliedReservations :: "reservation_response option list \<Rightarrow> go_string \<Rightarrow> go_error + reservation_response option list" where
  "filterAppliedReservations [] subscriptionID = Inr []"
| "filterAppliedReservations (r # page) subscriptionID =
    (let keep = map_sum id (\<lambda>rs. r # rs) (filterAppliedReservations page subscriptionID) in
     case r of None \<Rightarrow> keep
     | Some x \<Rightarrow> (case rr_Properties x of None \<Rightarrow> keep
       | Some props \<Rightarrow>
           if rp_AppliedScopeType props \<noteq> Some ''Single'' then keep
           else (case singleScopeMatchesSubscription (rp_AppliedScopes props) subscriptionID of
             Inl e \<Rightarrow> Inl e
           | Inr matches \<Rightarrow> if matches then keep else filterAppliedReservations page subscriptionID)))"

text \<open>
  The applied-list response: \<open>None\<close> when the properties or the list are missing, else its \<open>nextLink\<close>
  and its values.
\<close>

type_synonym applied_list = "(go_string option \<times> go_string option list) option"

fun order_ids :: "go_string list \<Rightarrow> go_string option list \<Rightarrow> go_string list" where
  "order_ids seen [] = []"
| "order_ids seen (None # rest) = order_ids seen rest"
| "order_ids seen (Some raw # rest) = (let i = last (split_at CHR ''/'' (trim_suffix raw ''/'')) in
     if i = [] \<or> i \<in> set seen then order_ids seen rest else i # order_ids (i # seen) rest)"

definition appliedOrderIDs :: "applied_list \<Rightarrow> go_error + go_string list" where
  "appliedOrderIDs resp = (case resp of
     None \<Rightarrow> Inr []
   | Some (nextLink, vals) \<Rightarrow>
       if nextLink \<noteq> None \<and> nextLink \<noteq> Some [] then
         Inl (errorf ''applied reservation order list is truncated (nextLink present); refusing to build a partial inventory'' [])
       else Inr (order_ids [] vals))"

text \<open>
  A loop over the pages of a pager with the messages of its errors: the context, the cap, the call.
  \<open>ctx_err i\<close> is \<open>ctx.Err()\<close> before page \<open>i\<close>.
\<close>

record page_messages =
  msg_cancelled :: "go_error \<Rightarrow> go_error"
  msg_cap :: go_error
  msg_list :: "go_error \<Rightarrow> go_error"

function page_loop :: "nat \<Rightarrow> (nat \<Rightarrow> go_error option) \<Rightarrow> page_messages \<Rightarrow> ('p, 'a) sdk_pager \<Rightarrow> ('a \<Rightarrow> go_error + 'b list)
    \<Rightarrow> nat \<Rightarrow> 'p \<Rightarrow> go_error + 'b list" where
  "page_loop cap ctx_err msg pgr handle pageIdx p =
    (if \<not> pgr_more pgr p then Inr []
     else case ctx_err pageIdx of Some e \<Rightarrow> Inl (msg_cancelled msg e)
     | None \<Rightarrow>
         if pageIdx \<ge> cap then Inl (msg_cap msg)
         else (case pgr_next pgr p of
           (Inl e, p') \<Rightarrow> Inl (msg_list msg e)
         | (Inr page, p') \<Rightarrow> (case handle page of
             Inl e \<Rightarrow> Inl e
           | Inr xs \<Rightarrow> map_sum id (\<lambda>ys. xs @ ys) (page_loop cap ctx_err msg pgr handle (Suc pageIdx) p'))))"
  by pat_completeness auto
termination
  by (relation "measure (\<lambda>(cap, ctx_err, msg, pgr, handle, pageIdx, p). cap - pageIdx)") auto

declare page_loop.simps [simp del]

definition order_messages :: "go_string \<Rightarrow> nat \<Rightarrow> page_messages" where
  "order_messages orderID maxPagesPerOrder = \<lparr>
     msg_cancelled = (\<lambda>e. wrapf ''context canceled during reservation listing for order %s: %w'' [ArgS orderID, ArgS (err_text e)] [e]),
     msg_cap = errorf ''reservation listing for order %s exceeded pagination cap (%d pages)'' [ArgS orderID, ArgI (int maxPagesPerOrder)],
     msg_list = (\<lambda>e. wrapf ''list reservations for order %s: %w'' [ArgS orderID, ArgS (err_text e)] [e])\<rparr>"

definition order_page :: "go_string \<Rightarrow> go_string \<Rightarrow> reservation_response option list \<Rightarrow> go_error + reservation_response option list" where
  "order_page orderID subscriptionID page = (case filterAppliedReservations page subscriptionID of
     Inl e \<Rightarrow> Inl (wrapf ''reservation in order %s: %w'' [ArgS orderID, ArgS (err_text e)] [e])
   | Inr rs \<Rightarrow> Inr rs)"

fun orders_loop :: "nat \<Rightarrow> (go_string \<Rightarrow> nat \<Rightarrow> go_error option) \<Rightarrow> (go_string \<Rightarrow> 'p)
    \<Rightarrow> ('p, reservation_response option list) sdk_pager \<Rightarrow> go_string \<Rightarrow> go_string list \<Rightarrow> go_error + reservation_response option list" where
  "orders_loop cap ctx_err new_pager pgr subscriptionID [] = Inr []"
| "orders_loop cap ctx_err new_pager pgr subscriptionID (orderID # rest) =
    (case page_loop cap (ctx_err orderID) (order_messages orderID cap) pgr (order_page orderID subscriptionID) 0 (new_pager orderID) of
       Inl e \<Rightarrow> Inl e
     | Inr rs \<Rightarrow> map_sum id (\<lambda>ys. rs @ ys) (orders_loop cap ctx_err new_pager pgr subscriptionID rest))"

text \<open>\<open>lister\<close>: the error of the constructor, or the answer of \<open>GetAppliedReservationList\<close>.\<close>

definition ListAppliedReservations :: "go_string \<Rightarrow> go_error + (go_error + applied_list) \<Rightarrow> (go_string \<Rightarrow> nat \<Rightarrow> go_error option)
    \<Rightarrow> (go_string \<Rightarrow> 'p) \<Rightarrow> ('p, reservation_response option list) sdk_pager \<Rightarrow> nat \<Rightarrow> go_error + reservation_response option list" where
  "ListAppliedReservations subscriptionID lister ctx_err new_pager pgr maxPagesPerOrder = (case lister of
     Inl e \<Rightarrow> Inl (wrapf ''create applied reservations lister: %w'' [ArgS (err_text e)] [e])
   | Inr (Inl e) \<Rightarrow> Inl (wrapf ''list applied reservations for subscription %s: %w'' [ArgS subscriptionID, ArgS (err_text e)] [e])
   | Inr (Inr applied) \<Rightarrow> (case appliedOrderIDs applied of
       Inl e \<Rightarrow> Inl e
     | Inr orderIDs \<Rightarrow> orders_loop maxPagesPerOrder ctx_err new_pager pgr subscriptionID orderIDs))"

section \<open>Conversion\<close>

definition zero_commitment :: Commitment where
  "zero_commitment = \<lparr>c_StartDate = 0, c_EndDate = 0, c_Provider = [], c_Account = [], c_CommitmentID = [],
     c_CommitmentType = [], c_Service = [], c_Region = [], c_ResourceType = [], c_Engine = [], c_Deployment = [],
     c_State = [], c_Platform = [], c_Tenancy = [], c_Scope = [], c_AvailabilityZone = [], c_Count = 0, c_Cost = 0,
     c_CostKnown = False, c_StartDateIsDay = False\<rparr>"

definition commitmentStateFromProvisioning :: "go_string option \<Rightarrow> go_time option \<Rightarrow> go_time \<Rightarrow> go_string" where
  "commitmentStateFromProvisioning state expiry now = (case state of
     None \<Rightarrow> []
   | Some st \<Rightarrow>
       if st = ''Succeeded'' then
         (case expiry of Some t \<Rightarrow> if \<not> t > now then ''expired'' else ''active'' | None \<Rightarrow> ''active'')
       else if st \<in> {''Creating'', ''Created'', ''PendingBilling'', ''ConfirmedBilling'', ''PendingResourceHold'', ''ConfirmedResourceHold''}
         then ''payment-pending''
       else if st = ''Cancelled'' then ''canceled''
       else if st = ''Expired'' then ''expired''
       else if st \<in> {''Failed'', ''BillingFailed''} then ''failed''
       else if st \<in> {''Split'', ''Merged''} then ''retired''
       else [])"

definition populateCommitmentFields :: "Commitment \<Rightarrow> reservation_response \<Rightarrow> reservation_properties \<Rightarrow> Commitment" where
  "populateCommitmentFields c r props = c\<lparr>
     c_CommitmentID := (case rr_ID r of Some i \<Rightarrow> i | None \<Rightarrow> c_CommitmentID c),
     c_Region := (case rr_Location r of Some l \<Rightarrow> l | None \<Rightarrow> c_Region c),
     c_ResourceType := (case rr_SKUName r of Some n \<Rightarrow> n | None \<Rightarrow> c_ResourceType c),
     c_Count := (case rp_Quantity props of Some q \<Rightarrow> q | None \<Rightarrow> c_Count c),
     c_StartDate := (case rp_PurchaseDate props of Some t \<Rightarrow> t | None \<Rightarrow> c_StartDate c),
     c_StartDateIsDay := (case rp_PurchaseDate props of Some t \<Rightarrow> True | None \<Rightarrow> c_StartDateIsDay c),
     c_EndDate := (case rp_ExpiryDate props of Some t \<Rightarrow> t | None \<Rightarrow> c_EndDate c)\<rparr>"

definition CommitmentFromReservation :: "reservation_response option \<Rightarrow> go_string \<Rightarrow> go_string \<Rightarrow> go_string \<Rightarrow> go_time \<Rightarrow> Commitment option" where
  "CommitmentFromReservation r account service wantType now = (case r of None \<Rightarrow> None
   | Some x \<Rightarrow> (case rr_Properties x of None \<Rightarrow> None
     | Some props \<Rightarrow> (case rp_ReservedResourceType props of None \<Rightarrow> None
       | Some t \<Rightarrow>
           if \<not> equal_fold t wantType then None
           else Some (populateCommitmentFields (zero_commitment\<lparr>c_Provider := ''azure'', c_Account := account,
             c_CommitmentType := CommitmentReservedInstance, c_Service := service,
             c_State := commitmentStateFromProvisioning (rp_ProvisioningState props) (rp_ExpiryDate props) now\<rparr>) x props))))"

section \<open>Failing closed (strict.go)\<close>

record StrictLabels =
  sl_Service :: go_string
  sl_Resource :: go_string

definition reservationLabel :: "reservation_response option \<Rightarrow> go_string" where
  "reservationLabel r = (case r of None \<Rightarrow> ''(no id)'' | Some x \<Rightarrow>
     (case rr_ID x of None \<Rightarrow> ''(no id)'' | Some i \<Rightarrow> sprintf ''%q'' [ArgS i]))"

definition isTerminalCommitmentState :: "go_string \<Rightarrow> bool" where
  "isTerminalCommitmentState s \<longleftrightarrow> s \<in> {''canceled'', ''expired'', ''failed'', ''retired''}"

definition missing_fields :: "reservation_response \<Rightarrow> reservation_properties \<Rightarrow> go_string list" where
  "missing_fields r props =
     (case rr_SKUName r of Some n \<Rightarrow> if trim_space n = [] then [''sku.name''] else [] | None \<Rightarrow> [''sku.name''])
   @ (case rr_Location r of Some l \<Rightarrow> if trim_space l = [] then [''location''] else [] | None \<Rightarrow> [''location''])
   @ (case rp_Quantity props of Some q \<Rightarrow> if q \<le> 0 then [''quantity''] else [] | None \<Rightarrow> [''quantity''])
   @ (case rp_PurchaseDate props of Some t \<Rightarrow> [] | None \<Rightarrow> [''purchaseDate''])"

definition validateLiveReservationFields :: "reservation_response \<Rightarrow> reservation_properties \<Rightarrow> go_string \<Rightarrow> go_string \<Rightarrow> StrictLabels
    \<Rightarrow> go_error option" where
  "validateLiveReservationFields r props reservationID subscriptionID labels = (let missing = missing_fields r props in
     if missing \<noteq> [] then Some (errorf ''%s: incomplete live %s reservation %q in subscription %q: missing or invalid %s''
       [ArgS (sl_Service labels), ArgS (sl_Resource labels), ArgS reservationID, ArgS subscriptionID, ArgS (join_with '', '' missing)])
     else None)"

definition billingSubscriptionID :: "go_string option \<Rightarrow> go_string option" where
  "billingSubscriptionID scope = (case scope of None \<Rightarrow> None
   | Some s \<Rightarrow> (let segments = split_at CHR ''/'' s in
       if length segments \<noteq> 3 \<or> segments ! 0 \<noteq> [] \<or> \<not> equal_fold (segments ! 1) ''subscriptions'' then None
       else let sub = segments ! 2 in if sub = [] \<or> has_space sub then None else Some sub))"

definition reservationOwnedBy :: "reservation_properties \<Rightarrow> go_string \<Rightarrow> go_string \<Rightarrow> StrictLabels \<Rightarrow> go_error + bool" where
  "reservationOwnedBy props reservationID subscriptionID labels =
    (let args = [ArgS (sl_Service labels), ArgS (sl_Resource labels), ArgS reservationID, ArgS subscriptionID] in
     case rp_AppliedScopeType props of
       None \<Rightarrow> Inl (errorf ''%s: cannot attribute %s reservation %q to subscription %q: missing applied scope type'' args)
     | Some scopeType \<Rightarrow>
         if scopeType = ''Single'' then Inr True
         else if scopeType = ''Shared'' then
           (case billingSubscriptionID (rp_BillingScopeID props) of
              None \<Rightarrow> Inl (errorf ''%s: cannot attribute %s reservation %q to subscription %q: Shared scope without a subscription billingScopeId'' args)
            | Some billingSubscription \<Rightarrow> Inr (equal_fold billingSubscription subscriptionID))
         else Inl (errorf ''%s: cannot attribute %s reservation %q to subscription %q: unsupported applied scope type %q'' (args @ [ArgS scopeType])))"

definition validateReservationExpiry :: "reservation_properties \<Rightarrow> go_string \<Rightarrow> go_string \<Rightarrow> StrictLabels \<Rightarrow> go_time \<Rightarrow> go_error option" where
  "validateReservationExpiry props reservationID subscriptionID labels now = (case rp_ExpiryDate props of
     None \<Rightarrow> None
   | Some expiry \<Rightarrow>
       if rp_ProvisioningState props = Some ''Succeeded'' \<and> format_date expiry = format_date now then
         Some (errorf ''%s: cannot determine lifecycle for %s reservation %q in subscription %q: reservations API date-only expiryDate %s falls on the current UTC date''
           [ArgS (sl_Service labels), ArgS (sl_Resource labels), ArgS reservationID, ArgS subscriptionID, ArgS (format_date expiry)])
       else None)"

definition attributeReservation :: "reservation_properties \<Rightarrow> Commitment \<Rightarrow> go_string \<Rightarrow> StrictLabels \<Rightarrow> go_time \<Rightarrow> go_error + bool" where
  "attributeReservation props commitment subscriptionID labels now =
    (case reservationOwnedBy props (c_CommitmentID commitment) subscriptionID labels of
       Inr False \<Rightarrow> Inr False
     | owned \<Rightarrow> (case validateReservationExpiry props (c_CommitmentID commitment) subscriptionID labels now of
         Some e \<Rightarrow> Inl e
       | None \<Rightarrow> (case owned of
           Inl ownErr \<Rightarrow> if \<not> isTerminalCommitmentState (c_State commitment) then Inl ownErr else Inr True
         | Inr b \<Rightarrow> Inr True)))"

definition StrictCommitment :: "reservation_response option \<Rightarrow> go_string \<Rightarrow> go_string \<Rightarrow> go_string \<Rightarrow> StrictLabels \<Rightarrow> go_time
    \<Rightarrow> go_error + Commitment option" where
  "StrictCommitment r subscriptionID service wantType labels now =
    (let unclassified = Inl (errorf ''%s: cannot classify reservation %s in subscription %q: missing properties or reservedResourceType''
           [ArgS (sl_Service labels), ArgS (reservationLabel r), ArgS subscriptionID])
     in case r of None \<Rightarrow> unclassified
     | Some x \<Rightarrow> (case rr_Properties x of None \<Rightarrow> unclassified
       | Some props \<Rightarrow>
           if rp_ReservedResourceType props = None then unclassified
           else (case CommitmentFromReservation r subscriptionID service wantType now of
             None \<Rightarrow> Inr None
           | Some commitment \<Rightarrow> (case attributeReservation props commitment subscriptionID labels now of
               Inl e \<Rightarrow> Inl e
             | Inr keep \<Rightarrow>
                 if \<not> keep then Inr None
                 else if \<not> isTerminalCommitmentState (c_State commitment) then
                   (case validateLiveReservationFields x props (c_CommitmentID commitment) subscriptionID labels of
                      Some e \<Rightarrow> Inl e | None \<Rightarrow> Inr (Some commitment))
                 else Inr (Some commitment)))))"

section \<open>Inventories of the services\<close>

fun strict_loop :: "(Commitment \<Rightarrow> Commitment) \<Rightarrow> go_string \<Rightarrow> go_string \<Rightarrow> go_string \<Rightarrow> StrictLabels \<Rightarrow> go_time
    \<Rightarrow> reservation_response option list \<Rightarrow> go_error + Commitment list" where
  "strict_loop finish subscriptionID service wantType labels now [] = Inr []"
| "strict_loop finish subscriptionID service wantType labels now (r # rs) =
    (case StrictCommitment r subscriptionID service wantType labels now of
       Inl e \<Rightarrow> Inl e
     | Inr None \<Rightarrow> strict_loop finish subscriptionID service wantType labels now rs
     | Inr (Some c) \<Rightarrow> map_sum id (\<lambda>cs. finish c # cs) (strict_loop finish subscriptionID service wantType labels now rs))"

definition maxReservationsPages :: nat where
  "maxReservationsPages = 50"

definition compute_GetExistingCommitments :: "go_string \<Rightarrow> go_error + (go_error + applied_list) \<Rightarrow> (go_string \<Rightarrow> nat \<Rightarrow> go_error option)
    \<Rightarrow> (go_string \<Rightarrow> 'p) \<Rightarrow> ('p, reservation_response option list) sdk_pager \<Rightarrow> go_time \<Rightarrow> go_error + Commitment list" where
  "compute_GetExistingCommitments subscriptionID lister ctx_err new_pager pgr now =
    (case ListAppliedReservations subscriptionID lister ctx_err new_pager pgr maxReservationsPages of
       Inl e \<Rightarrow> Inl (wrapf ''compute: list applied reservations: %w'' [ArgS (err_text e)] [e])
     | Inr responses \<Rightarrow> strict_loop id subscriptionID ServiceCompute ''VirtualMachines''
         \<lparr>sl_Service = ''compute'', sl_Resource = ''VM''\<rparr> now responses)"

definition managedredis_GetExistingCommitments :: "go_string \<Rightarrow> go_error + (go_error + applied_list) \<Rightarrow> (go_string \<Rightarrow> nat \<Rightarrow> go_error option)
    \<Rightarrow> (go_string \<Rightarrow> 'p) \<Rightarrow> ('p, reservation_response option list) sdk_pager \<Rightarrow> go_time \<Rightarrow> go_error + Commitment list" where
  "managedredis_GetExistingCommitments subscriptionID lister ctx_err new_pager pgr now =
    (case ListAppliedReservations subscriptionID lister ctx_err new_pager pgr maxReservationsPages of
       Inl e \<Rightarrow> Inl (wrapf ''managedredis: list applied reservations: %w'' [ArgS (err_text e)] [e])
     | Inr responses \<Rightarrow> strict_loop (\<lambda>c. c\<lparr>c_Engine := ''redis''\<rparr>) subscriptionID ServiceMemoryDB ''RedisCache''
         \<lparr>sl_Service = ''managedredis'', sl_Resource = ''Redis''\<rparr> now responses)"

section \<open>What a listing holds\<close>

text \<open>The pages a pager yields from a state on, when it yields all of them.\<close>

inductive pager_pages :: "('p, 'a) sdk_pager \<Rightarrow> 'p \<Rightarrow> 'a list \<Rightarrow> bool" for pgr where
  done_pages: "\<not> pgr_more pgr p \<Longrightarrow> pager_pages pgr p []"
| more_pages: "pgr_more pgr p \<Longrightarrow> pgr_next pgr p = (Inr page, p') \<Longrightarrow> pager_pages pgr p' pages \<Longrightarrow> pager_pages pgr p (page # pages)"

inductive_cases pager_pages_nilE: "pager_pages pgr p []"
inductive_cases pager_pages_consE: "pager_pages pgr p (page # pages)"

lemma pager_pages_det: "pager_pages pgr p xs \<Longrightarrow> pager_pages pgr p ys \<Longrightarrow> xs = ys"
proof (induction arbitrary: ys rule: pager_pages.induct)
  case (done_pages p)
  from done_pages.prems done_pages.hyps show ?case by cases simp_all
next
  case (more_pages p page p' pages)
  from more_pages.prems show ?case
  proof cases
    case done_pages
    then show ?thesis using more_pages.hyps(1) by simp
  next
    case (more_pages page2 p2 pages2)
    then have "page2 = page" "p2 = p'" using \<open>pgr_next pgr p = (Inr page, p')\<close> by simp_all
    then show ?thesis using more_pages \<open>\<And>ys. pager_pages pgr p' ys \<Longrightarrow> pages = ys\<close> by simp
  qed
qed

lemma page_loop_step:
  assumes "page_loop cap ctx_err msg pgr handle i p = Inr xs" and "pgr_more pgr p"
  obtains page p' ys zs where "ctx_err i = None" and "i < cap" and "pgr_next pgr p = (Inr page, p')" and "handle page = Inr ys"
    and "page_loop cap ctx_err msg pgr handle (Suc i) p' = Inr zs" and "xs = ys @ zs"
proof -
  obtain r p' where n: "pgr_next pgr p = (r, p')" by (cases "pgr_next pgr p")
  note unroll = page_loop.simps [of cap ctx_err msg pgr handle i p]
  have c: "ctx_err i = None" using assms by (cases "ctx_err i") (simp_all add: unroll)
  have d: "i < cap" using assms c by (cases "i < cap") (simp_all add: unroll)
  have e: "(case r of Inl e \<Rightarrow> Inl (msg_list msg e) | Inr page \<Rightarrow> (case handle page of Inl e \<Rightarrow> Inl e
      | Inr ys \<Rightarrow> map_sum id (\<lambda>zs. ys @ zs) (page_loop cap ctx_err msg pgr handle (Suc i) p'))) = Inr xs"
    using assms c d n by (simp add: unroll)
  then obtain page where r: "r = Inr page" by (cases r) auto
  with e obtain ys where h: "handle page = Inr ys" by (cases "handle page") auto
  with e r obtain zs where "page_loop cap ctx_err msg pgr handle (Suc i) p' = Inr zs" "xs = ys @ zs"
    by (cases "page_loop cap ctx_err msg pgr handle (Suc i) p'") auto
  with that c d n r h show ?thesis by blast
qed

lemma page_loop_reads_all:
  "page_loop cap ctx_err msg pgr handle i p = Inr xs \<Longrightarrow>
   \<exists>pages yss. pager_pages pgr p pages \<and> i + length pages \<le> max i cap
     \<and> list_all2 (\<lambda>page ys. handle page = Inr ys) pages yss \<and> xs = concat yss"
proof (induction "cap - i" arbitrary: i p xs rule: less_induct)
  case less
  show ?case
  proof (cases "pgr_more pgr p")
    case False
    then have "xs = []" using less.prems by (simp add: page_loop.simps [of cap ctx_err msg pgr handle i p])
    then show ?thesis using done_pages [OF False] by fastforce
  next
    case True
    from page_loop_step [OF less.prems True] obtain page p' ys zs where s: "i < cap" "pgr_next pgr p = (Inr page, p')"
      "handle page = Inr ys" "page_loop cap ctx_err msg pgr handle (Suc i) p' = Inr zs" "xs = ys @ zs" by metis
    have "cap - Suc i < cap - i" using s(1) by simp
    from less.hyps [OF this s(4)] s(1) obtain pages yss where P: "pager_pages pgr p' pages"
      "Suc i + length pages \<le> max (Suc i) cap" "list_all2 (\<lambda>page ys. handle page = Inr ys) pages yss" "zs = concat yss" by blast
    have "pager_pages pgr p (page # pages)" by (rule more_pages [OF True s(2) P(1)])
    then show ?thesis using P s by (intro exI [of _ "page # pages"] exI [of _ "ys # yss"]) simp
  qed
qed

text \<open>The rows \<open>filterAppliedReservations\<close> keeps: all but those whose single scope is another subscription's.\<close>

definition applies_here :: "go_string \<Rightarrow> reservation_response option \<Rightarrow> bool" where
  "applies_here subscriptionID r = (case r of Some x \<Rightarrow> (case rr_Properties x of
       Some props \<Rightarrow> rp_AppliedScopeType props = Some ''Single'' \<longrightarrow>
         singleScopeMatchesSubscription (rp_AppliedScopes props) subscriptionID = Inr True
     | None \<Rightarrow> True) | None \<Rightarrow> True)"

lemma filterApplied_step:
  assumes "filterAppliedReservations (r # page) sub = Inr ys"
  shows "\<exists>zs. filterAppliedReservations page sub = Inr zs \<and> ys = (if applies_here sub r then r # zs else zs)"
proof -
  have keep: "\<exists>zs. filterAppliedReservations page sub = Inr zs \<and> ys = r # zs"
    if "map_sum id (\<lambda>rs. r # rs) (filterAppliedReservations page sub) = Inr ys"
    using that by (cases "filterAppliedReservations page sub") auto
  show ?thesis
  proof (cases "\<exists>x props. r = Some x \<and> rr_Properties x = Some props \<and> rp_AppliedScopeType props = Some ''Single''")
    case True
    then obtain x props where x: "r = Some x" "rr_Properties x = Some props" "rp_AppliedScopeType props = Some ''Single''" by blast
    then show ?thesis using assms keep
      by (auto simp: applies_here_def Let_def split: sum.splits if_splits)
  next
    case False
    then have "applies_here sub r" by (auto simp: applies_here_def split: option.splits)
    moreover have "map_sum id (\<lambda>rs. r # rs) (filterAppliedReservations page sub) = Inr ys"
      using assms False by (auto simp: Let_def split: option.splits if_splits)
    ultimately show ?thesis using keep by simp
  qed
qed

lemma filterApplied_keeps:
  "filterAppliedReservations page sub = Inr ys \<Longrightarrow> ys = filter (applies_here sub) page"
proof (induction page arbitrary: ys)
  case (Cons r page)
  from filterApplied_step [OF Cons.prems] Cons.IH show ?case by auto
qed simp

lemma set_order_ids:
  "set (order_ids seen vals) = {i. i \<noteq> [] \<and> i \<notin> set seen \<and>
     (\<exists>raw. Some raw \<in> set vals \<and> i = last (split_at CHR ''/'' (trim_suffix raw ''/'')))}"
  by (induction seen vals rule: order_ids.induct) (auto simp: Let_def)

lemma distinct_order_ids: "distinct (order_ids seen vals)"
  by (induction seen vals rule: order_ids.induct) (auto simp: Let_def set_order_ids)

lemma order_page_keeps:
  "order_page orderID subscriptionID page = Inr ys \<Longrightarrow> ys = filter (applies_here subscriptionID) page"
  by (auto simp: order_page_def filterApplied_keeps split: sum.splits)

lemma order_pages_keep:
  "list_all2 (\<lambda>page ys. order_page orderID subscriptionID page = Inr ys) pages yss \<Longrightarrow>
   concat yss = filter (applies_here subscriptionID) (concat pages)"
  by (induction pages yss rule: list_all2_induct) (auto dest: order_page_keeps)

lemma orders_loop_reads_all:
  "orders_loop cap ctx_err new_pager pgr subscriptionID orders = Inr rs \<Longrightarrow> orderID \<in> set orders \<Longrightarrow>
   \<exists>pages. pager_pages pgr (new_pager orderID) pages \<and> length pages \<le> cap
     \<and> set (filter (applies_here subscriptionID) (concat pages)) \<subseteq> set rs"
proof (induction orders arbitrary: rs)
  case (Cons i orders)
  from Cons.prems(1) obtain xs ys where x: "page_loop cap (ctx_err i) (order_messages i cap) pgr (order_page i subscriptionID) 0 (new_pager i) = Inr xs"
    and y: "orders_loop cap ctx_err new_pager pgr subscriptionID orders = Inr ys" and rs: "rs = xs @ ys"
    by (auto split: sum.splits simp: map_sum_def)
  show ?case
  proof (cases "orderID = i")
    case True
    from page_loop_reads_all [OF x] obtain pages yss where P: "pager_pages pgr (new_pager i) pages" "length pages \<le> cap"
      "list_all2 (\<lambda>page ys. order_page i subscriptionID page = Inr ys) pages yss" "xs = concat yss" by auto
    have xs: "xs = filter (applies_here subscriptionID) (concat pages)" using order_pages_keep [OF P(3)] P(4) by simp
    then have "set (filter (applies_here subscriptionID) (concat pages)) \<subseteq> set rs" unfolding rs by auto
    with P(1,2) True show ?thesis by blast
  next
    case False
    then have "orderID \<in> set orders" using Cons.prems(2) by simp
    from Cons.IH [OF y this] obtain pages where "pager_pages pgr (new_pager orderID) pages" "length pages \<le> cap"
      "set (filter (applies_here subscriptionID) (concat pages)) \<subseteq> set ys" by blast
    then show ?thesis unfolding rs by auto
  qed
qed simp

lemma listing_reads_all:
  assumes "ListAppliedReservations subscriptionID lister ctx_err new_pager pgr cap = Inr rs"
  shows "\<exists>applied. lister = Inr (Inr applied) \<and> (\<forall>link values. applied = Some (link, vals) \<longrightarrow>
     (link = None \<or> link = Some []) \<and> (\<forall>orderID \<in> set (order_ids [] vals). \<exists>pages. pager_pages pgr (new_pager orderID) pages
        \<and> length pages \<le> cap \<and> set (filter (applies_here subscriptionID) (concat pages)) \<subseteq> set rs))"
proof -
  from assms obtain applied where a: "lister = Inr (Inr applied)" by (auto simp: ListAppliedReservations_def split: sum.splits)
  from assms a obtain orders where o1: "appliedOrderIDs applied = Inr orders"
    and o2: "orders_loop cap ctx_err new_pager pgr subscriptionID orders = Inr rs"
    by (auto simp: ListAppliedReservations_def split: sum.splits)
  have "(link = None \<or> link = Some []) \<and> orders = order_ids [] vals" if "applied = Some (link, vals)" for link vals
    using o1 that by (auto simp: appliedOrderIDs_def split: if_splits)
  with a orders_loop_reads_all [OF o2] show ?thesis by blast
qed

section \<open>What a strict inventory holds\<close>

lemma StrictCommitment_None:
  assumes "StrictCommitment r sub svc want labels now = Inr None"
  obtains x props t where "r = Some x" and "rr_Properties x = Some props" and "rp_ReservedResourceType props = Some t"
    and "\<not> equal_fold t want \<or> reservationOwnedBy props (case rr_ID x of Some i \<Rightarrow> i | None \<Rightarrow> []) sub labels = Inr False"
proof -
  obtain x props t where x: "r = Some x" "rr_Properties x = Some props" "rp_ReservedResourceType props = Some t"
    using assms by (auto simp: StrictCommitment_def Let_def split: option.splits if_splits)
  show ?thesis
  proof (cases "equal_fold t want")
    case True
    then obtain c where c: "CommitmentFromReservation r sub svc want now = Some c"
      "c_CommitmentID c = (case rr_ID x of Some i \<Rightarrow> i | None \<Rightarrow> [])"
      using x by (auto simp: CommitmentFromReservation_def populateCommitmentFields_def zero_commitment_def split: option.splits)
    from assms x c have "attributeReservation props c sub labels now = Inr False"
      by (auto simp: StrictCommitment_def Let_def split: option.splits if_splits sum.splits)
    then have "reservationOwnedBy props (c_CommitmentID c) sub labels = Inr False"
      by (auto simp: attributeReservation_def split: sum.splits option.splits if_splits bool.splits)
    with that x c show ?thesis by auto
  qed (use that x in blast)
qed

lemma StrictCommitment_Some:
  assumes "StrictCommitment r sub svc want labels now = Inr (Some c)"
  obtains x props where "r = Some x" and "rr_Properties x = Some props"
    and "CommitmentFromReservation r sub svc want now = Some c"
    and "attributeReservation props c sub labels now = Inr True"
    and "\<not> isTerminalCommitmentState (c_State c) \<Longrightarrow> missing_fields x props = []"
proof -
  obtain x props where x: "r = Some x" "rr_Properties x = Some props"
    using assms by (auto simp: StrictCommitment_def Let_def split: option.splits if_splits)
  from assms x have c: "CommitmentFromReservation r sub svc want now = Some c"
    and k: "attributeReservation props c sub labels now = Inr True"
    and m: "\<not> isTerminalCommitmentState (c_State c) \<Longrightarrow> validateLiveReservationFields x props (c_CommitmentID c) sub labels = None"
    by (auto simp: StrictCommitment_def Let_def split: option.splits if_splits sum.splits)
  have "missing_fields x props = []" if "\<not> isTerminalCommitmentState (c_State c)"
    using m [OF that] by (auto simp: validateLiveReservationFields_def Let_def split: if_splits)
  then show ?thesis by (rule that [OF x c k])
qed

lemma strict_loop_covers:
  "strict_loop finish sub svc want labels now rs = Inr cs \<Longrightarrow> r \<in> set rs \<Longrightarrow>
   StrictCommitment r sub svc want labels now = Inr None
   \<or> (\<exists>c. StrictCommitment r sub svc want labels now = Inr (Some c) \<and> finish c \<in> set cs)"
  by (induction rs arbitrary: cs) (auto split: sum.splits option.splits simp: map_sum_def)

lemma strict_loop_members:
  "strict_loop finish sub svc want labels now rs = Inr cs \<Longrightarrow> c \<in> set cs \<Longrightarrow>
   \<exists>r \<in> set rs. \<exists>c0. StrictCommitment r sub svc want labels now = Inr (Some c0) \<and> c = finish c0"
  by (induction rs arbitrary: cs) (auto split: sum.splits option.splits simp: map_sum_def)

end
