(* ===== verification/Az_Rows.thy ===== *)
theory Az_Rows
  imports Az_Inventory Rec_Dedupe "HOL-Library.Sublist"
begin

text \<open>
  Azure inventories and the duplicate check. The services database, search, synapse, cosmosdb and cache read
  their reservations from the daily usage rows of \<open>ReservationsDetails\<close>, collapsed by \<open>dedupe.go\<close>; compute and
  managedredis read the reservations themselves. The theorems compose both kinds with
  \<open>AdjustRecommendationsForExisting\<close>.
\<close>

section \<open>Usage rows\<close>

record usage_detail =
  ud_SKUName :: "go_string option"
  ud_ReservationID :: "go_string option"

text \<open>A row of a page: a nil pointer, or a detail whose properties may be missing.\<close>

type_synonym usage_row = "usage_detail option option"

text \<open>The value that stands for the panic of \<open>detail.Properties\<close> on a nil row.\<close>

definition nil_dereference :: go_error where
  "nil_dereference = errorf ''runtime error: invalid memory address or nil pointer dereference'' []"

definition usage_commitment :: "azure_client \<Rightarrow> go_string \<Rightarrow> usage_detail \<Rightarrow> go_string \<Rightarrow> Commitment" where
  "usage_commitment c service props sku = zero_commitment\<lparr>c_Provider := ''azure'', c_Account := ac_subscriptionID c,
     c_CommitmentType := CommitmentReservedInstance, c_Service := service, c_Region := ac_region c, c_State := ''active'',
     c_CommitmentID := (case ud_ReservationID props of Some i \<Rightarrow> i | None \<Rightarrow> []), c_ResourceType := sku\<rparr>"

definition convert_containing :: "go_string \<Rightarrow> go_string \<Rightarrow> azure_client \<Rightarrow> usage_row \<Rightarrow> go_error + Commitment option" where
  "convert_containing service word c row = (case row of
     None \<Rightarrow> Inl nil_dereference
   | Some None \<Rightarrow> Inr None
   | Some (Some props) \<Rightarrow> (case ud_SKUName props of
       None \<Rightarrow> Inr None
     | Some sku \<Rightarrow> if \<not> str_contains (to_lower sku) word then Inr None
         else Inr (Some (usage_commitment c service props sku))))"

definition convertSQLReservation :: "azure_client \<Rightarrow> usage_row \<Rightarrow> go_error + Commitment option" where
  "convertSQLReservation = convert_containing ServiceRelationalDB ''sql''"

definition convertSearchReservation :: "azure_client \<Rightarrow> usage_row \<Rightarrow> go_error + Commitment option" where
  "convertSearchReservation = convert_containing ServiceSearch ''search''"

definition convertCosmosReservation :: "azure_client \<Rightarrow> usage_row \<Rightarrow> go_error + Commitment option" where
  "convertCosmosReservation = convert_containing ServiceNoSQL ''cosmos''"

definition convertRedisReservation :: "azure_client \<Rightarrow> usage_row \<Rightarrow> go_error + Commitment option" where
  "convertRedisReservation = convert_containing ServiceCache ''redis''"

definition convertSynapseReservation :: "azure_client \<Rightarrow> usage_row \<Rightarrow> go_error + Commitment option" where
  "convertSynapseReservation c row = (case row of
     Some (Some props) \<Rightarrow> (case ud_SKUName props of
       None \<Rightarrow> Inr None
     | Some sku \<Rightarrow> (let skuLower = to_lower sku in
         if \<not> starts_with skuLower ''dw'' \<and> \<not> starts_with skuLower ''scu'' \<and> \<not> str_contains skuLower ''synapse'' then Inr None
         else Inr (Some (usage_commitment c ServiceDataWarehouse props sku))))
   | _ \<Rightarrow> Inr None)"

fun dedupe_loop :: "go_string list \<Rightarrow> Commitment list \<Rightarrow> Commitment list" where
  "dedupe_loop seen [] = []"
| "dedupe_loop seen (c # cs) =
    (if c_CommitmentID c = [] then c # dedupe_loop seen cs
     else if c_CommitmentID c \<in> set seen then dedupe_loop seen cs
     else c # dedupe_loop (c_CommitmentID c # seen) cs)"

definition DedupeCommitmentsByID :: "Commitment list \<Rightarrow> Commitment list" where
  "DedupeCommitmentsByID commitments = dedupe_loop [] commitments"

fun usage_page :: "(usage_row \<Rightarrow> go_error + Commitment option) \<Rightarrow> usage_row list \<Rightarrow> go_error + Commitment list" where
  "usage_page convert [] = Inr []"
| "usage_page convert (row # rows) = (case convert row of
     Inl e \<Rightarrow> Inl e
   | Inr None \<Rightarrow> usage_page convert rows
   | Inr (Some c) \<Rightarrow> map_sum id (\<lambda>cs. c # cs) (usage_page convert rows))"

definition usage_messages :: "go_string \<Rightarrow> page_messages" where
  "usage_messages name = \<lparr>
     msg_cancelled = (\<lambda>e. wrapf ''context canceled during pagination: %w'' [ArgS (err_text e)] [e]),
     msg_cap = errorf (name @ '': GetExistingCommitments pagination cap (%d pages) reached'') [ArgI (int maxReservationsPages)],
     msg_list = (\<lambda>e. wrapf (name @ '': list reservations: %w'') [ArgS (err_text e)] [e])\<rparr>"

text \<open>\<open>pager\<close> is the outcome of \<open>createReservationsPager\<close>: the injected or the created pager's state.\<close>

definition usage_inventory :: "go_string \<Rightarrow> (azure_client \<Rightarrow> usage_row \<Rightarrow> go_error + Commitment option) \<Rightarrow> azure_client
    \<Rightarrow> (nat \<Rightarrow> go_error option) \<Rightarrow> go_error + 'p \<Rightarrow> ('p, usage_row list) sdk_pager \<Rightarrow> go_error + Commitment list" where
  "usage_inventory name convert c ctx_err pager pgr = (case pager of
     Inl e \<Rightarrow> Inl (wrapf (name @ '': create reservations pager: %w'') [ArgS (err_text e)] [e])
   | Inr p \<Rightarrow> map_sum id DedupeCommitmentsByID
       (page_loop maxReservationsPages ctx_err (usage_messages name) pgr (usage_page (convert c)) 0 p))"

definition database_GetExistingCommitments :: "azure_client \<Rightarrow> (nat \<Rightarrow> go_error option) \<Rightarrow> go_error + 'p
    \<Rightarrow> ('p, usage_row list) sdk_pager \<Rightarrow> go_error + Commitment list" where
  "database_GetExistingCommitments = usage_inventory ''database'' convertSQLReservation"

definition search_GetExistingCommitments :: "azure_client \<Rightarrow> (nat \<Rightarrow> go_error option) \<Rightarrow> go_error + 'p
    \<Rightarrow> ('p, usage_row list) sdk_pager \<Rightarrow> go_error + Commitment list" where
  "search_GetExistingCommitments = usage_inventory ''search'' convertSearchReservation"

definition cosmosdb_GetExistingCommitments :: "azure_client \<Rightarrow> (nat \<Rightarrow> go_error option) \<Rightarrow> go_error + 'p
    \<Rightarrow> ('p, usage_row list) sdk_pager \<Rightarrow> go_error + Commitment list" where
  "cosmosdb_GetExistingCommitments = usage_inventory ''cosmosdb'' convertCosmosReservation"

definition synapse_GetExistingCommitments :: "azure_client \<Rightarrow> (nat \<Rightarrow> go_error option) \<Rightarrow> go_error + 'p
    \<Rightarrow> ('p, usage_row list) sdk_pager \<Rightarrow> go_error + Commitment list" where
  "synapse_GetExistingCommitments = usage_inventory ''synapse'' convertSynapseReservation"

definition cache_GetExistingCommitments :: "azure_client \<Rightarrow> (nat \<Rightarrow> go_error option) \<Rightarrow> go_error + 'p
    \<Rightarrow> ('p, usage_row list) sdk_pager \<Rightarrow> go_error + Commitment list" where
  "cache_GetExistingCommitments = usage_inventory ''cache'' convertRedisReservation"

definition usage_services :: "(azure_client \<Rightarrow> (nat \<Rightarrow> go_error option) \<Rightarrow> go_error + 'p
    \<Rightarrow> ('p, usage_row list) sdk_pager \<Rightarrow> go_error + Commitment list) list" where
  "usage_services = [database_GetExistingCommitments, search_GetExistingCommitments, cosmosdb_GetExistingCommitments,
     synapse_GetExistingCommitments, cache_GetExistingCommitments]"

section \<open>Collapsing usage rows\<close>

lemma dedupe_loop_fresh:
  "c \<in> set (dedupe_loop seen cs) \<Longrightarrow> c_CommitmentID c \<noteq> [] \<Longrightarrow> c_CommitmentID c \<notin> set seen"
  by (induction seen cs rule: dedupe_loop.induct) (auto split: if_splits)

lemma dedupe_loop_distinct:
  "distinct (filter (\<lambda>i. i \<noteq> []) (map c_CommitmentID (dedupe_loop seen cs)))"
proof (induction seen cs rule: dedupe_loop.induct)
  case (2 seen c cs)
  have "c_CommitmentID c \<notin> c_CommitmentID ` set (dedupe_loop (c_CommitmentID c # seen) cs)" if "c_CommitmentID c \<noteq> []"
  proof
    assume "c_CommitmentID c \<in> c_CommitmentID ` set (dedupe_loop (c_CommitmentID c # seen) cs)"
    then obtain d where d: "d \<in> set (dedupe_loop (c_CommitmentID c # seen) cs)" "c_CommitmentID d = c_CommitmentID c" by auto
    from dedupe_loop_fresh [OF d(1)] d(2) that show False by simp
  qed
  with 2 show ?case by simp
qed simp

lemma dedupe_loop_anonymous:
  "filter (\<lambda>c. c_CommitmentID c = []) (dedupe_loop seen cs) = filter (\<lambda>c. c_CommitmentID c = []) cs"
  by (induction seen cs rule: dedupe_loop.induct) auto

lemma dedupe_loop_subseq: "subseq (dedupe_loop seen cs) cs"
  by (induction seen cs rule: dedupe_loop.induct) auto

lemma dedupe_loop_first:
  "i \<noteq> [] \<Longrightarrow> i \<notin> set seen \<Longrightarrow> List.find (\<lambda>c. c_CommitmentID c = i) (dedupe_loop seen cs) = List.find (\<lambda>c. c_CommitmentID c = i) cs"
  by (induction seen cs rule: dedupe_loop.induct) auto

text \<open>\<open>DedupeCommitmentsByID\<close> keeps, in order, the first row of every reservation and every row
  without an id: one row per id, none lost, and the sum over reservations no longer counts usage days.\<close>

theorem one_row_per_reservation:
  "subseq (DedupeCommitmentsByID cs) cs
   \<and> distinct (filter (\<lambda>i. i \<noteq> []) (map c_CommitmentID (DedupeCommitmentsByID cs)))
   \<and> (\<forall>i. List.find (\<lambda>c. c_CommitmentID c = i) (DedupeCommitmentsByID cs) = List.find (\<lambda>c. c_CommitmentID c = i) cs)
   \<and> filter (\<lambda>c. c_CommitmentID c = []) (DedupeCommitmentsByID cs) = filter (\<lambda>c. c_CommitmentID c = []) cs"
proof -
  have "List.find (\<lambda>c. c_CommitmentID c = i) (dedupe_loop [] cs) = List.find (\<lambda>c. c_CommitmentID c = i) cs" for i
  proof (cases "i = []")
    case True
    have find_filter: "List.find P xs = (case filter P xs of [] \<Rightarrow> None | x # _ \<Rightarrow> Some x)" for P and xs :: "Commitment list"
      by (induction xs) auto
    show ?thesis unfolding True by (simp add: find_filter dedupe_loop_anonymous)
  qed (simp add: dedupe_loop_first)
  then show ?thesis unfolding DedupeCommitmentsByID_def
    using dedupe_loop_subseq dedupe_loop_distinct [of "[]" cs] dedupe_loop_anonymous by simp
qed

section \<open>Usage rows and the duplicate check\<close>

text \<open>A client without a wider listing or a filter of its own, as the Azure reservation clients are.\<close>

definition plain_client :: "go_error + Commitment list \<Rightarrow> dedupe_client" where
  "plain_client existing = \<lparr>GetExistingCommitments = existing, GetCoveringCommitments = None, FilterForRecentCommitments = None\<rparr>"

definition usage_converters :: "(azure_client \<Rightarrow> usage_row \<Rightarrow> go_error + Commitment option) list" where
  "usage_converters = [convertSQLReservation, convertSearchReservation, convertCosmosReservation, convertSynapseReservation,
     convertRedisReservation]"

lemma usage_services_inventory:
  assumes "existing \<in> set usage_services"
  shows "\<exists>name. \<exists>convert \<in> set usage_converters. existing = usage_inventory name convert"
proof -
  from assms consider "existing = database_GetExistingCommitments" | "existing = search_GetExistingCommitments"
    | "existing = cosmosdb_GetExistingCommitments" | "existing = synapse_GetExistingCommitments" | "existing = cache_GetExistingCommitments"
    unfolding usage_services_def by (simp only: list.set insert_iff empty_iff) blast
  then show ?thesis
    unfolding database_GetExistingCommitments_def search_GetExistingCommitments_def cosmosdb_GetExistingCommitments_def
      synapse_GetExistingCommitments_def cache_GetExistingCommitments_def usage_converters_def list.set
    by cases blast+
qed

lemma convert_dateless:
  assumes "convert \<in> set usage_converters" and "convert c row = Inr (Some x)"
  shows "c_StartDate x = 0 \<and> \<not> c_StartDateIsDay x \<and> c_Count x = 0"
  using assms by (auto simp: usage_converters_def convertSQLReservation_def convertSearchReservation_def convertCosmosReservation_def
      convertRedisReservation_def convert_containing_def convertSynapseReservation_def usage_commitment_def zero_commitment_def Let_def
      split: option.splits if_splits)

lemma usage_page_members:
  "usage_page convert rows = Inr cs \<Longrightarrow> x \<in> set cs \<Longrightarrow> \<exists>row \<in> set rows. convert row = Inr (Some x)"
  by (induction rows arbitrary: cs) (auto split: sum.splits option.splits simp: map_sum_def)

lemma usage_inventory_members:
  assumes "usage_inventory name convert c ctx_err pager pgr = Inr cs" and "x \<in> set cs"
  shows "\<exists>row. convert c row = Inr (Some x)"
proof -
  obtain p xs where "page_loop maxReservationsPages ctx_err (usage_messages name) pgr (usage_page (convert c)) 0 p = Inr xs"
    and cs: "cs = DedupeCommitmentsByID xs"
    using assms by (auto simp: usage_inventory_def map_sum_def split: sum.splits)
  from page_loop_reads_all [OF this(1)] obtain pages yss where
    y: "list_all2 (\<lambda>page ys. usage_page (convert c) page = Inr ys) pages yss" "xs = concat yss" by blast
  have "x \<in> set xs" using assms(2) list_emb_set [OF dedupe_loop_subseq] unfolding cs DedupeCommitmentsByID_def by blast
  then obtain ys where "ys \<in> set yss" "x \<in> set ys" using y(2) by auto
  obtain i where "i < length yss" "yss ! i = ys" using \<open>ys \<in> set yss\<close> by (auto simp: in_set_conv_nth)
  then have "usage_page (convert c) (pages ! i) = Inr ys" using list_all2_nthD2 [OF y(1)] by auto
  from usage_page_members [OF this \<open>x \<in> set ys\<close>] show ?thesis by blast
qed

lemma cutoff_nonneg: "2 ^ 63 \<le> now \<Longrightarrow> 0 \<le> now + i64 x"
  using pos_mod_sign [of "2 ^ 64" "x + 2 ^ 63"] by (simp add: i64_def)

text \<open>The inventories of the five services that read usage rows have no purchase dates, so the duplicate
  check finds no recent commitment in them: whatever was bought a moment ago, every recommendation passes.\<close>

theorem usage_rows_never_suppress:
  assumes "existing \<in> set usage_services" and "existing c ctx_err pager pgr = Inr cs" and "2 ^ 63 \<le> now"
  shows "AdjustRecommendationsForExisting (NewDuplicateChecker hours) now (plain_client (existing c ctx_err pager pgr)) recs = (recs, [], None)"
proof -
  have d: "c_StartDate x = 0 \<and> \<not> c_StartDateIsDay x" if "x \<in> set cs" for x
  proof -
    obtain name convert where k: "convert \<in> set usage_converters" and e: "existing = usage_inventory name convert"
      using usage_services_inventory [OF assms(1)] by (elim exE bexE)
    have u: "usage_inventory name convert c ctx_err pager pgr = Inr cs" using assms(2) unfolding e .
    from usage_inventory_members [OF u that] obtain row where "convert c row = Inr (Some x)" by blast
    from convert_dateless [OF k this] show ?thesis by simp
  qed
  then have "filterRecentCommitments (NewDuplicateChecker hours) now cs = []"
    using cutoff_nonneg [OF assms(3)] by (auto simp: filterRecentCommitments_def filter_empty_conv isRecentActiveCommitment_def not_less)
  then show ?thesis using assms(2)
    by (simp add: AdjustRecommendationsForExisting_def commitmentsForDedupe_def plain_client_def)
qed

definition demo_rows :: "(usage_row list list, usage_row list) sdk_pager" where
  "demo_rows = \<lparr>pgr_more = (\<lambda>p. p \<noteq> []), pgr_next = (\<lambda>p. (Inr (hd p), tl p))\<rparr>"

definition demo_row :: usage_row where
  "demo_row = Some (Some \<lparr>ud_SKUName = Some ''sql_gp_gen5'', ud_ReservationID = Some ''r1''\<rparr>)"

definition demo_existing :: "go_error + Commitment list" where
  "demo_existing = database_GetExistingCommitments \<lparr>ac_region = ''westeurope'', ac_subscriptionID = ''s1''\<rparr> (\<lambda>_. None)
     (Inr [[demo_row, demo_row]]) demo_rows"

lemma demo_existing_one: "map_sum id (map c_CommitmentID) demo_existing = Inr [''r1'']"
  by (simp add: demo_existing_def database_GetExistingCommitments_def usage_inventory_def page_loop.simps demo_rows_def
      maxReservationsPages_def demo_row_def convertSQLReservation_def convert_containing_def       DedupeCommitmentsByID_def usage_commitment_def zero_commitment_def starts_with_def ascii_lower_def)

theorem usage_rows_never_suppress_witness:
  "AdjustRecommendationsForExisting (NewDuplicateChecker 24) (2 ^ 63) (plain_client demo_existing) [zero_rec\<lparr>r_Count := 3\<rparr>]
    = ([zero_rec\<lparr>r_Count := 3\<rparr>], [], None)"
proof -
  obtain cs where "demo_existing = Inr cs" using demo_existing_one by (cases demo_existing) (metis map_sum.simps(1) sum.distinct(1), blast)
  then show ?thesis unfolding demo_existing_def
    by (intro usage_rows_never_suppress) (auto simp: usage_services_def)
qed

end
