(* ===== verification/Az_Covered.thy ===== *)
theory Az_Covered
  imports Az_Rows
begin

text \<open>
  The strict inventories of compute and managedredis under the duplicate check: every live reservation of the
  subscription that the listing holds is in the budgets, so what was bought within the lookback is not bought again.
\<close>

section \<open>Budgets of Azure commitments\<close>

lemma azure_budget:
  "c_Provider c = ''azure'' \<Longrightarrow> commitment_budget c = (dedupeKey (c_ResourceType c) (c_Region c)
     (NormalizeEngineName (c_Engine c)) (NormalizeDeploymentName (c_Deployment c)), c_Count c)"
  by (simp add: commitment_budget_def dedupeEngine_def rdsFlexKey_def AWS_def Let_def)

lemma build_ge:
  assumes "\<forall>c \<in> set cs. c_Provider c = ''azure'' \<and> 0 \<le> c_Count c" and "x \<in> set cs"
  shows "c_Count x \<le> buildExistingCommitmentsMap cs (fst (commitment_budget x))"
proof -
  let ?step = "\<lambda>m c. case commitment_budget c of (k, n) \<Rightarrow> m(k := (m k :: int) + n)"
  have grows: "m k \<le> foldl ?step m xs k" if "\<forall>c \<in> set xs. c_Provider c = ''azure'' \<and> 0 \<le> c_Count c" for m k xs
    using that
  proof (induction xs arbitrary: m)
    case (Cons c xs)
    have "m k \<le> ?step m c k" using Cons.prems by (auto simp: azure_budget)
    also have "\<dots> \<le> foldl ?step (?step m c) xs k" by (rule Cons.IH) (use Cons.prems in simp)
    finally show ?case unfolding foldl_Cons .
  qed simp
  obtain as bs where cs: "cs = as @ x # bs" using split_list [OF assms(2)] by blast
  let ?m = "foldl ?step (\<lambda>_. 0) as" and ?k = "fst (commitment_budget x)"
  have "0 \<le> ?m ?k" using grows [of as "\<lambda>_. 0"] assms(1) cs by simp
  then have "c_Count x \<le> ?step ?m x ?k" using assms cs by (simp add: azure_budget)
  also have "\<dots> \<le> foldl ?step (?step ?m x) bs ?k" by (rule grows) (use assms(1) cs in auto)
  finally show ?thesis by (simp add: buildExistingCommitmentsMap_def cs)
qed

lemma azure_rec_covers:
  "r_Provider rec = ''azure'' \<Longrightarrow> rec_covers rec = (\<lambda>e. dedupeKey (r_ResourceType rec) (r_Region rec) e
     (NormalizeDeploymentName (DeploymentFromDetails (r_Details rec))),
     [cover (NormalizeEngineName (EngineFromDetails (r_Details rec))) 1 1])"
  by (simp add: rec_covers_def dedupeEngine_def rdsFlexKey_def AWS_def Let_def)

text \<open>Commitment and recommendation have one budget key.\<close>

definition same_budget :: "Commitment \<Rightarrow> Recommendation \<Rightarrow> bool" where
  "same_budget c rec \<longleftrightarrow> c_Provider c = ''azure'' \<and> r_Provider rec = ''azure'' \<and> c_ResourceType c = r_ResourceType rec
     \<and> c_Region c = r_Region rec \<and> NormalizeEngineName (c_Engine c) = NormalizeEngineName (EngineFromDetails (r_Details rec))
     \<and> NormalizeDeploymentName (c_Deployment c) = NormalizeDeploymentName (DeploymentFromDetails (r_Details rec))"

lemma covered_rec_filtered:
  assumes "\<forall>c \<in> set cs. c_Provider c = ''azure'' \<and> 0 \<le> c_Count c" and "x \<in> set cs" and "same_budget x rec"
    and "0 < r_Count rec" and "r_Count rec \<le> c_Count x"
  shows "\<exists>m d. adjustRecommendationsAgainstExisting [rec] (buildExistingCommitmentsMap cs) (newEC2Dedupe cs) = Inr (([], [rec]), m, d)"
proof -
  let ?m = "buildExistingCommitmentsMap cs"
  let ?k = "fst (commitment_budget x)"
  have az: "r_Provider rec = ''azure''" "c_Provider x = ''azure''" using assms(3) by (simp_all add: same_budget_def)
  have avail: "r_Count rec \<le> ?m ?k" using build_ge [OF assms(1,2)] assms(5) by simp
  have key: "?k = dedupeKey (r_ResourceType rec) (r_Region rec) (NormalizeEngineName (EngineFromDetails (r_Details rec)))
     (NormalizeDeploymentName (DeploymentFromDetails (r_Details rec)))"
    using assms(3) by (simp add: azure_budget same_budget_def)
  have "\<exists>m'. adjustSingleRecommendation rec ?m = (m', Inr (zero_rec\<lparr>r_Count := 0\<rparr>))"
    using assms(4) avail key by (simp add: adjustSingleRecommendation_def azure_rec_covers [OF az(1)] consume_def cover_def Let_def min_absorb2)
  moreover have "\<not> ec2_handles rec" using az by (simp add: ec2_handles_def isAWSCompute_def AWS_def)
  ultimately show ?thesis by (auto simp: adjustRecommendationsAgainstExisting_def)
qed

section \<open>Live reservations of the subscription\<close>

definition billed_elsewhere :: "go_string \<Rightarrow> reservation_properties \<Rightarrow> bool" where
  "billed_elsewhere sub props \<longleftrightarrow> rp_AppliedScopeType props = Some ''Shared''
     \<and> (case billingSubscriptionID (rp_BillingScopeID props) of Some b \<Rightarrow> \<not> equal_fold b sub | None \<Rightarrow> False)"

definition live_reservation :: "reservation_properties \<Rightarrow> go_time \<Rightarrow> bool" where
  "live_reservation props now \<longleftrightarrow>
     \<not> isTerminalCommitmentState (commitmentStateFromProvisioning (rp_ProvisioningState props) (rp_ExpiryDate props) now)"

lemma owned_unless_billed_elsewhere:
  "reservationOwnedBy props i sub labels = Inr False \<longleftrightarrow> billed_elsewhere sub props"
  by (auto simp: reservationOwnedBy_def billed_elsewhere_def Let_def split: option.splits)

lemma converted_fields:
  assumes "CommitmentFromReservation (Some x) sub svc want now = Some c" and "rr_Properties x = Some props"
  shows "c_Provider c = ''azure''" and "c_Engine c = []" and "c_Deployment c = []"
    and "c_State c = commitmentStateFromProvisioning (rp_ProvisioningState props) (rp_ExpiryDate props) now"
    and "rr_SKUName x = Some n \<Longrightarrow> c_ResourceType c = n" and "rr_Location x = Some l \<Longrightarrow> c_Region c = l"
    and "rp_Quantity props = Some q \<Longrightarrow> c_Count c = q"
    and "rp_PurchaseDate props = Some d \<Longrightarrow> c_StartDate c = d \<and> c_StartDateIsDay c"
  using assms by (auto simp: CommitmentFromReservation_def populateCommitmentFields_def zero_commitment_def split: option.splits if_splits)

lemma strict_live_counts:
  assumes "StrictCommitment r sub svc want labels now = Inr (Some c)"
  shows "c_Provider c = ''azure'' \<and> (\<not> isTerminalCommitmentState (c_State c) \<longrightarrow> 0 < c_Count c)"
proof -
  obtain x props where x: "r = Some x" "rr_Properties x = Some props" "CommitmentFromReservation r sub svc want now = Some c"
    and m: "\<not> isTerminalCommitmentState (c_State c) \<Longrightarrow> missing_fields x props = []"
    using StrictCommitment_Some [OF assms] by metis
  note f = converted_fields [OF x(3) [unfolded x(1)] x(2)]
  have "0 < c_Count c" if "\<not> isTerminalCommitmentState (c_State c)"
  proof -
    from m [OF that] obtain q where "rp_Quantity props = Some q" "0 < q"
      by (auto simp: missing_fields_def split: option.splits if_splits)
    then show ?thesis using f(7) by simp
  qed
  with f(1) show ?thesis by blast
qed

lemma recent_not_terminal: "isRecentActiveCommitment c t \<Longrightarrow> \<not> isTerminalCommitmentState (c_State c)"
  by (auto simp: isRecentActiveCommitment_def isTerminalCommitmentState_def owned_states_def ended_states_def split: if_splits)

text \<open>A live row of the listing in a strict inventory.\<close>

lemma strict_inventory_holds:
  assumes "strict_loop finish sub svc want labels now rs = Inr cs" and "Some x \<in> set rs" and "rr_Properties x = Some props"
    and "rp_ReservedResourceType props = Some t" and "equal_fold t want" and "\<not> billed_elsewhere sub props"
  shows "\<exists>c. CommitmentFromReservation (Some x) sub svc want now = Some c \<and> finish c \<in> set cs"
proof -
  have "StrictCommitment (Some x) sub svc want labels now \<noteq> Inr None"
  proof
    assume "StrictCommitment (Some x) sub svc want labels now = Inr None"
    then show False
    proof (rule StrictCommitment_None)
      fix y p u
      assume y: "Some x = Some y" "rr_Properties y = Some p" "rp_ReservedResourceType p = Some u"
        and n: "\<not> equal_fold u want \<or> reservationOwnedBy p (case rr_ID y of Some i \<Rightarrow> i | None \<Rightarrow> []) sub labels = Inr False"
      from y have "p = props" "u = t" using assms(3,4) by simp_all
      with n show False using assms(5,6) by (simp add: owned_unless_billed_elsewhere)
    qed
  qed
  with strict_loop_covers [OF assms(1,2)] obtain c where
    c: "StrictCommitment (Some x) sub svc want labels now = Inr (Some c)" "finish c \<in> set cs" by blast
  from StrictCommitment_Some [OF c(1)] have "CommitmentFromReservation (Some x) sub svc want now = Some c" by blast
  with c(2) show ?thesis by blast
qed

lemma row_in_responses:
  assumes "ListAppliedReservations sub (Inr (Inr (Some (link, vals)))) ctx_err new_pager pgr cap = Inr rs"
    and "orderID \<in> set (order_ids [] vals)" and "pager_pages pgr (new_pager orderID) pages" and "r \<in> set (concat pages)"
    and "applies_here sub r"
  shows "r \<in> set rs"
proof -
  from listing_reads_all [OF assms(1)] have
    "\<exists>pages. pager_pages pgr (new_pager orderID) pages \<and> length pages \<le> cap
      \<and> set (filter (applies_here sub) (concat pages)) \<subseteq> set rs" using assms(2) by simp
  then obtain pages' where p: "pager_pages pgr (new_pager orderID) pages'"
    "set (filter (applies_here sub) (concat pages')) \<subseteq> set rs" by (elim exE conjE)
  have "pages' = pages" by (rule pager_pages_det [OF p(1) assms(3)])
  then show ?thesis using p(2) assms(4,5) by auto
qed

section \<open>Nothing bought within the lookback is bought again\<close>

text \<open>
  A reservation that makes a recommendation redundant: live, of the wanted type, not billed to another
  subscription, recent, of the recommendation's type and region, and of at least its count.
\<close>

definition already_bought :: "go_string \<Rightarrow> go_string \<Rightarrow> go_time \<Rightarrow> int \<Rightarrow> reservation_response \<Rightarrow> Recommendation \<Rightarrow> bool" where
  "already_bought sub want now hours x rec = (case rr_Properties x of None \<Rightarrow> False | Some props \<Rightarrow>
     (case rp_ReservedResourceType props of Some t \<Rightarrow> equal_fold t want | None \<Rightarrow> False)
     \<and> applies_here sub (Some x) \<and> \<not> billed_elsewhere sub props \<and> live_reservation props now
     \<and> (case rp_PurchaseDate props of Some d \<Rightarrow> now + i64 (i64 (- hours) * hour_ns) < d + 24 * hour_ns | None \<Rightarrow> False)
     \<and> rr_SKUName x = Some (r_ResourceType rec) \<and> rr_Location x = Some (r_Region rec)
     \<and> (case rp_Quantity props of Some q \<Rightarrow> r_Count rec \<le> q | None \<Rightarrow> False))"

lemma strict_inventory_suppresses:
  assumes inv: "strict_loop finish sub svc want labels now rs = Inr cs"
    and fin: "\<And>c. finish c = c\<lparr>c_Engine := engine (c_Engine c)\<rparr>"
    and x: "Some x \<in> set rs" and b: "already_bought sub want now hours x rec"
    and r: "r_Provider rec = ''azure''" "0 < r_Count rec"
      "NormalizeEngineName (EngineFromDetails (r_Details rec)) = NormalizeEngineName (engine [])"
      "NormalizeDeploymentName (DeploymentFromDetails (r_Details rec)) = NormalizeDeploymentName []"
  shows "AdjustRecommendationsForExisting hours now (plain_client (Inr cs)) [rec] = ([], [rec], None)"
proof -
  obtain props t d q where p: "rr_Properties x = Some props" "rp_ReservedResourceType props = Some t" "equal_fold t want"
    "\<not> billed_elsewhere sub props" "live_reservation props now" "rp_PurchaseDate props = Some d"
    "now + i64 (i64 (- hours) * hour_ns) < d + 24 * hour_ns" "rr_SKUName x = Some (r_ResourceType rec)"
    "rr_Location x = Some (r_Region rec)" "rp_Quantity props = Some q" "r_Count rec \<le> q"
    using b by (auto simp: already_bought_def split: option.splits)
  obtain c where c: "CommitmentFromReservation (Some x) sub svc want now = Some c" "finish c \<in> set cs"
    using strict_inventory_holds [OF inv x p(1-4)] by blast
  note f = converted_fields [OF c(1) p(1)]
  let ?recent = "filterRecentCommitments hours now cs"
  have "\<not> isTerminalCommitmentState (c_State c)" using p(5) f(4) by (simp add: live_reservation_def)
  then have "c_State c \<notin> set ended_states"
    using f(4) by (auto simp: isTerminalCommitmentState_def ended_states_def commitmentStateFromProvisioning_def split: option.splits if_splits)
  then have in_recent: "finish c \<in> set ?recent"
    using c(2) f(8) [OF p(6)] p(7) by (simp add: filterRecentCommitments_def isRecentActiveCommitment_def fin Let_def)
  have counts: "\<forall>y \<in> set ?recent. c_Provider y = ''azure'' \<and> 0 \<le> c_Count y"
  proof
    fix y assume "y \<in> set ?recent"
    then have y: "y \<in> set cs" "\<not> isTerminalCommitmentState (c_State y)"
      by (auto simp: filterRecentCommitments_def Let_def dest: recent_not_terminal)
    from strict_loop_members [OF inv y(1)] obtain r0 c0 where
      "StrictCommitment r0 sub svc want labels now = Inr (Some c0)" "y = finish c0" by blast
    with strict_live_counts [OF this(1)] y(2) show "c_Provider y = ''azure'' \<and> 0 \<le> c_Count y" by (simp add: fin)
  qed
  have "same_budget (finish c) rec" using f(1,2,3) f(5) [OF p(8)] f(6) [OF p(9)] r by (simp add: same_budget_def fin)
  from covered_rec_filtered [OF counts in_recent this r(2)] f(7) [OF p(10)] p(11) obtain m d where
    "adjustRecommendationsAgainstExisting [rec] (buildExistingCommitmentsMap ?recent) (newEC2Dedupe ?recent) = Inr (([], [rec]), m, d)"
    by (auto simp: fin)
  moreover have "?recent \<noteq> []" using in_recent by auto
  ultimately show ?thesis by (simp add: AdjustRecommendationsForExisting_def commitmentsForDedupe_def plain_client_def)
qed

text \<open>C5. A VM reservation that is live, that the applied list of the subscription names, and that was bought
  within the lookback is not bought again: when the inventory of compute succeeds at all, the duplicate check
  filters a recommendation of the same size, region and no larger count. No page, row or order between the
  listing and the budget loses it.\<close>

theorem compute_not_bought_twice:
  assumes "compute_GetExistingCommitments sub (Inr (Inr (Some (link, vals)))) ctx_err new_pager pgr now = Inr cs"
    and "orderID \<in> set (order_ids [] vals)" and "pager_pages pgr (new_pager orderID) pages" and "Some x \<in> set (concat pages)"
    and "already_bought sub ''VirtualMachines'' now hours x rec"
    and "r_Provider rec = ''azure''" and "0 < r_Count rec"
    and "EngineFromDetails (r_Details rec) = []" and "DeploymentFromDetails (r_Details rec) = []"
  shows "AdjustRecommendationsForExisting hours now
     (plain_client (compute_GetExistingCommitments sub (Inr (Inr (Some (link, vals)))) ctx_err new_pager pgr now)) [rec] = ([], [rec], None)"
proof -
  from assms(1) obtain rs where
    l: "ListAppliedReservations sub (Inr (Inr (Some (link, vals)))) ctx_err new_pager pgr maxReservationsPages = Inr rs"
    and s: "strict_loop id sub ServiceCompute ''VirtualMachines'' \<lparr>sl_Service = ''compute'', sl_Resource = ''VM''\<rparr> now rs = Inr cs"
    by (auto simp: compute_GetExistingCommitments_def split: sum.splits)
  have "applies_here sub (Some x)" using assms(5) by (auto simp: already_bought_def split: option.splits)
  from row_in_responses [OF l assms(2-4) this] have "Some x \<in> set rs" .
  from strict_inventory_suppresses [OF s _ this assms(5-7), of "\<lambda>e. e"] assms(1,8,9) show ?thesis by simp
qed

text \<open>The same of a Redis reservation and managedredis, whose inventory names the engine.\<close>

theorem managedredis_not_bought_twice:
  assumes "managedredis_GetExistingCommitments sub (Inr (Inr (Some (link, vals)))) ctx_err new_pager pgr now = Inr cs"
    and "orderID \<in> set (order_ids [] vals)" and "pager_pages pgr (new_pager orderID) pages" and "Some x \<in> set (concat pages)"
    and "already_bought sub ''RedisCache'' now hours x rec"
    and "r_Provider rec = ''azure''" and "0 < r_Count rec"
    and "EngineFromDetails (r_Details rec) = ''redis''" and "DeploymentFromDetails (r_Details rec) = []"
  shows "AdjustRecommendationsForExisting hours now
     (plain_client (managedredis_GetExistingCommitments sub (Inr (Inr (Some (link, vals)))) ctx_err new_pager pgr now)) [rec] = ([], [rec], None)"
proof -
  from assms(1) obtain rs where
    l: "ListAppliedReservations sub (Inr (Inr (Some (link, vals)))) ctx_err new_pager pgr maxReservationsPages = Inr rs"
    and s: "strict_loop (\<lambda>c. c\<lparr>c_Engine := ''redis''\<rparr>) sub ServiceMemoryDB ''RedisCache''
        \<lparr>sl_Service = ''managedredis'', sl_Resource = ''Redis''\<rparr> now rs = Inr cs"
    by (auto simp: managedredis_GetExistingCommitments_def split: sum.splits)
  have "applies_here sub (Some x)" using assms(5) by (auto simp: already_bought_def split: option.splits)
  from row_in_responses [OF l assms(2-4) this] have "Some x \<in> set rs" .
  from strict_inventory_suppresses [OF s _ this assms(5-7), of "\<lambda>_. ''redis''"] assms(1,8,9) show ?thesis by simp
qed

section \<open>An example\<close>

text \<open>Three VMs bought two hours ago, listed by an order of the subscription that pays for them.\<close>

definition demo_now :: go_time where
  "demo_now = 2 ^ 63"

definition demo_reservation :: "go_string \<Rightarrow> reservation_response" where
  "demo_reservation t = \<lparr>rr_ID = Some ''r9'', rr_Location = Some ''westeurope'', rr_SKUName = Some ''D2'',
     rr_Properties = Some \<lparr>rp_ReservedResourceType = Some t, rp_ProvisioningState = Some ''Succeeded'',
       rp_AppliedScopeType = Some ''Shared'', rp_AppliedScopes = [], rp_BillingScopeID = Some ''/subscriptions/s1'',
       rp_Quantity = Some 3, rp_PurchaseDate = Some (demo_now - 2 * hour_ns), rp_ExpiryDate = None\<rparr>\<rparr>"

definition demo_pages :: "(reservation_response option list list, reservation_response option list) sdk_pager" where
  "demo_pages = \<lparr>pgr_more = (\<lambda>p. p \<noteq> []), pgr_next = (\<lambda>p. (Inr (hd p), tl p))\<rparr>"

definition demo_orders :: "go_error + (go_error + applied_list)" where
  "demo_orders = Inr (Inr (Some (None, [Some ''o1''])))"

definition demo_azure_rec :: "ServiceDetails option \<Rightarrow> Recommendation" where
  "demo_azure_rec details = zero_rec\<lparr>r_Provider := ''azure'', r_Region := ''westeurope'', r_ResourceType := ''D2'',
     r_Count := 2, r_Details := details\<rparr>"

lemma demo_no_space: "\<not> has_space ''s1''"
  by code_simp

lemma demo_billing: "billingSubscriptionID (Some ''/subscriptions/s1'') = Some ''s1''"
  using demo_no_space by (simp del: has_space.simps add: billingSubscriptionID_def equal_fold_def ascii_lower_def Let_def)

lemma demo_order_ids: "order_ids [] [Some ''o1''] = [''o1'']"
  by (simp add: trim_suffix_def)

lemma demo_listed: "pager_pages demo_pages [[Some (demo_reservation t)]] [[Some (demo_reservation t)]]"
  by (auto simp: demo_pages_def intro!: more_pages done_pages)

lemma demo_bought:
  "equal_fold t want \<Longrightarrow> already_bought ''s1'' want demo_now 24 (demo_reservation t) (demo_azure_rec details)"
  by (simp add: already_bought_def demo_reservation_def demo_azure_rec_def applies_here_def billed_elsewhere_def demo_billing
      equal_fold_def live_reservation_def commitmentStateFromProvisioning_def isTerminalCommitmentState_def demo_now_def hour_ns_def is_i64_def)

lemma demo_strict:
  assumes "equal_fold t want"
  shows "\<exists>c. StrictCommitment (Some (demo_reservation t)) ''s1'' svc want labels demo_now = Inr (Some c)"
proof -
  have "trim_space ''D2'' = ''D2''" "trim_space ''westeurope'' = ''westeurope''"
    by (rule trim_space_printable; simp add: printable_def)+
  then show ?thesis using assms
    by (simp add: StrictCommitment_def CommitmentFromReservation_def attributeReservation_def reservationOwnedBy_def
        validateReservationExpiry_def validateLiveReservationFields_def missing_fields_def populateCommitmentFields_def
        commitmentStateFromProvisioning_def isTerminalCommitmentState_def demo_reservation_def demo_billing equal_fold_def Let_def)
qed

lemma demo_responses:
  "ListAppliedReservations ''s1'' demo_orders (\<lambda>_ _. None) (\<lambda>_. [[Some (demo_reservation t)]]) demo_pages maxReservationsPages
    = Inr [Some (demo_reservation t)]"
  by (simp add: ListAppliedReservations_def demo_orders_def appliedOrderIDs_def demo_order_ids page_loop.simps demo_pages_def
      maxReservationsPages_def order_page_def demo_reservation_def Let_def del: order_ids.simps)

theorem compute_not_bought_twice_witness:
  "AdjustRecommendationsForExisting 24 demo_now
     (plain_client (compute_GetExistingCommitments ''s1'' demo_orders (\<lambda>_ _. None) (\<lambda>_. [[Some (demo_reservation ''virtualmachines'')]])
        demo_pages demo_now)) [demo_azure_rec None] = ([], [demo_azure_rec None], None)"
proof -
  have t: "equal_fold ''virtualmachines'' ''VirtualMachines''" by code_simp
  from demo_strict [OF t] obtain c where c: "StrictCommitment (Some (demo_reservation ''virtualmachines'')) ''s1'' ServiceCompute
    ''VirtualMachines'' \<lparr>sl_Service = ''compute'', sl_Resource = ''VM''\<rparr> demo_now = Inr (Some c)" by blast
  have "compute_GetExistingCommitments ''s1'' (Inr (Inr (Some (None, [Some ''o1''])))) (\<lambda>_ _. None)
      (\<lambda>_. [[Some (demo_reservation ''virtualmachines'')]]) demo_pages demo_now = Inr [c]"
    using demo_responses [of "''virtualmachines''"] c by (simp add: compute_GetExistingCommitments_def demo_orders_def)
  from compute_not_bought_twice [where orderID = "''o1''" and rec = "demo_azure_rec None", OF this _ demo_listed _ demo_bought [OF t]]
  show ?thesis
    by (simp add: demo_order_ids demo_orders_def demo_azure_rec_def EngineFromDetails_def DeploymentFromDetails_def del: order_ids.simps)
qed

theorem managedredis_not_bought_twice_witness:
  "AdjustRecommendationsForExisting 24 demo_now
     (plain_client (managedredis_GetExistingCommitments ''s1'' demo_orders (\<lambda>_ _. None) (\<lambda>_. [[Some (demo_reservation ''RedisCache'')]])
        demo_pages demo_now)) [demo_azure_rec (Some (CacheD (ByPtr (Some \<lparr>hd_Engine = ''redis'', hd_NodeType = ''D2'', hd_Shards = 0\<rparr>))))]
    = ([], [demo_azure_rec (Some (CacheD (ByPtr (Some \<lparr>hd_Engine = ''redis'', hd_NodeType = ''D2'', hd_Shards = 0\<rparr>))))], None)"
  (is "_ (plain_client ?inv) [?rec] = _")
proof -
  have t: "equal_fold ''RedisCache'' ''RedisCache''" by (simp add: equal_fold_def)
  from demo_strict [OF t] obtain c where c: "StrictCommitment (Some (demo_reservation ''RedisCache'')) ''s1'' ServiceMemoryDB
    ''RedisCache'' \<lparr>sl_Service = ''managedredis'', sl_Resource = ''Redis''\<rparr> demo_now = Inr (Some c)" by blast
  have inv: "managedredis_GetExistingCommitments ''s1'' (Inr (Inr (Some (None, [Some ''o1''])))) (\<lambda>_ _. None)
      (\<lambda>_. [[Some (demo_reservation ''RedisCache'')]]) demo_pages demo_now = Inr [c\<lparr>c_Engine := ''redis''\<rparr>]"
    using demo_responses [of "''RedisCache''"] c by (simp add: managedredis_GetExistingCommitments_def demo_orders_def)
  have "EngineFromDetails (r_Details ?rec) = ''redis''" by code_simp
  then show ?thesis
    using managedredis_not_bought_twice [where orderID = "''o1''" and rec = ?rec, OF inv _ demo_listed _ demo_bought [OF t]]
    by (simp add: demo_order_ids demo_orders_def demo_azure_rec_def DeploymentFromDetails_def del: order_ids.simps)
qed

end
