(* ===== verification/Az_Prices.thy ===== *)
theory Az_Prices
  imports Az_Services
begin

text \<open>
  Retail prices of Azure reservations (\<open>providers/azure/internal/pricing\<close>) and the price lookups of the
  service clients. The HTTP client is the one of \<open>Az_Purchase\<close>; the wait for a request slot and the JSON
  decoder are arguments. A page timeout appears in one message only and is kept as its text.
\<close>

section \<open>Filter literals (odata.go)\<close>

definition odata_char :: "char \<Rightarrow> bool" where
  "odata_char c \<longleftrightarrow> (let n = of_char c :: nat in (48 \<le> n \<and> n \<le> 57) \<or> (65 \<le> n \<and> n \<le> 90) \<or> (97 \<le> n \<and> n \<le> 122)) \<or> c \<in> set ''_.-''"

definition ODataString :: "go_string \<Rightarrow> go_error + go_string" where
  "ODataString v =
    (if v = [] \<or> \<not> list_all odata_char v then
       Inl (errorf ''invalid value %q for Retail Prices filter: must match %s'' [ArgS v, ArgS ''^[A-Za-z0-9_.-]+$''])
     else Inr (CHR 0x27 # concat (map (\<lambda>c. if c = CHR 0x27 then [CHR 0x27, CHR 0x27] else [c]) v) @ [CHR 0x27]))"

section \<open>The catalog (types.go, retail_prices.go)\<close>

record RetailPriceItem =
  ri_CurrencyCode :: go_string
  ri_ArmRegionName :: go_string
  ri_Location :: go_string
  ri_ProductName :: go_string
  ri_ServiceName :: go_string
  ri_ArmSKUName :: go_string
  ri_SKUName :: go_string
  ri_MeterName :: go_string
  ri_UnitOfMeasure :: go_string
  ri_ReservationTerm :: go_string
  ri_Type :: go_string
  ri_RetailPrice :: float64
  ri_UnitPrice :: float64

record price_page =
  pp_NextPageLink :: go_string
  pp_Items :: "RetailPriceItem list"

definition DefaultPageTimeout :: go_string where
  "DefaultPageTimeout = ''10s''"

definition DefaultMaxPages :: int where
  "DefaultMaxPages = 50"

definition ErrFetch :: go_error where
  "ErrFetch = Sentinel ''retail prices fetch failed''"

text \<open>
  \<open>pv_acquire\<close> waits for a slot (\<open>slot.Do\<close>), \<open>pv_decode\<close> is the decoder on the body of a response.
\<close>

record 'w price_env =
  pv_client :: "'w azure_env"
  pv_acquire :: "'w \<Rightarrow> go_error option \<times> 'w"
  pv_decode :: "http_response \<Rightarrow> go_error + price_page"

definition fetchOnePage :: "'w price_env \<Rightarrow> go_string \<Rightarrow> nat \<Rightarrow> go_string \<Rightarrow> 'w az_state \<Rightarrow> (go_error + price_page) \<times> 'w az_state" where
  "fetchOnePage env pageURL pageIdx pageTimeout s = (case az_badURL (pv_client env) pageURL of
     Some e \<Rightarrow> (Inl (wrapf ''failed to create request (page %d): %w'' [ArgI (int pageIdx), ArgS (err_text e)] [e]), s)
   | None \<Rightarrow> (case az_send (pv_client env) (get_request pageURL []) s of
       (Inl e, s') \<Rightarrow> (Inl (wrapf ''failed to call pricing API (page %d, timeout %s): %w''
         [ArgI (int pageIdx), ArgS pageTimeout, ArgS (err_text e)] [e]), s')
     | (Inr resp, s') \<Rightarrow>
         (if rs_StatusCode resp \<noteq> 200 then (case rs_ReadErr resp of
            Some e \<Rightarrow> Inl (wrapf ''pricing API returned status %d (page %d), body unreadable: %w''
              [ArgI (rs_StatusCode resp), ArgI (int pageIdx), ArgS (err_text e)] [e])
          | None \<Rightarrow> Inl (errorf ''pricing API returned status %d (page %d): %s''
              [ArgI (rs_StatusCode resp), ArgI (int pageIdx), ArgS (rs_Body resp)]))
          else (case pv_decode env resp of
            Inl e \<Rightarrow> Inl (wrapf ''failed to decode pricing response (page %d): %w'' [ArgI (int pageIdx), ArgS (err_text e)] [e])
          | Inr page \<Rightarrow> Inr page), s')))"

definition slot_fetch :: "'w price_env \<Rightarrow> go_string \<Rightarrow> nat \<Rightarrow> go_string \<Rightarrow> 'w az_state \<Rightarrow> (go_error + price_page) \<times> 'w az_state" where
  "slot_fetch env pageURL pageIdx pageTimeout s = (case pv_acquire env (az_world s) of
     (Some e, w) \<Rightarrow> (Inl (wrapf ''concurrency acquire failed: %w'' [ArgS (err_text e)] [e]), s\<lparr>az_world := w\<rparr>)
   | (None, w) \<Rightarrow> fetchOnePage env pageURL pageIdx pageTimeout (s\<lparr>az_world := w\<rparr>))"

text \<open>\<open>left\<close> counts the pages the cap still allows.\<close>

fun fetch_loop :: "'w price_env \<Rightarrow> go_string \<Rightarrow> nat \<Rightarrow> nat \<Rightarrow> nat \<Rightarrow> go_string list \<Rightarrow> RetailPriceItem list \<Rightarrow> go_string
    \<Rightarrow> 'w az_state \<Rightarrow> (go_error + RetailPriceItem list) \<times> 'w az_state" where
  "fetch_loop env pageTimeout maxPages 0 pageIdx seen all nextURL s =
    (if nextURL \<noteq> [] then Inl (errorf ''pricing API result exceeds the %d-page cap (%d items read, NextPageLink still set)''
       [ArgI (int maxPages), ArgI (int (length all))]) else Inr all, s)"
| "fetch_loop env pageTimeout maxPages (Suc left) pageIdx seen all nextURL s =
    (if nextURL = [] then (Inr all, s)
     else if nextURL \<in> set seen then
       (Inl (errorf ''pricing API returned a self-referential NextPageLink (page %d)'' [ArgI (int pageIdx)]), s)
     else (case slot_fetch env nextURL pageIdx pageTimeout s of
       (Inl e, s') \<Rightarrow> (Inl e, s')
     | (Inr page, s') \<Rightarrow> fetch_loop env pageTimeout maxPages left (Suc pageIdx) (nextURL # seen)
         (all @ pp_Items page) (pp_NextPageLink page) s'))"

definition fetchAll :: "'w price_env \<Rightarrow> go_string \<Rightarrow> go_string \<Rightarrow> int \<Rightarrow> 'w az_state
    \<Rightarrow> (go_error + RetailPriceItem list) \<times> 'w az_state" where
  "fetchAll env initialURL pageTimeout maxPages s =
    (if maxPages \<le> 0 then (Inl (errorf ''pricing.FetchAll: maxPages must be > 0, got %d'' [ArgI maxPages]), s)
     else fetch_loop env pageTimeout (nat maxPages) (nat maxPages) 0 [] [] initialURL s)"

definition FetchAll :: "'w price_env \<Rightarrow> go_string \<Rightarrow> go_string \<Rightarrow> int \<Rightarrow> 'w az_state
    \<Rightarrow> (go_error + RetailPriceItem list) \<times> 'w az_state" where
  "FetchAll env initialURL pageTimeout maxPages s = (case fetchAll env initialURL pageTimeout maxPages s of
     (Inl e, s') \<Rightarrow> (Inl (wrapf ''%w: %w'' [ArgS (err_text ErrFetch), ArgS (err_text e)] [ErrFetch, e]), s')
   | (Inr all, s') \<Rightarrow> (Inr all, s'))"

section \<open>Choosing a quote (reservation.go)\<close>

definition sameReservation :: "RetailPriceItem \<Rightarrow> RetailPriceItem \<Rightarrow> bool" where
  "sameReservation a b \<longleftrightarrow>
     [ri_ServiceName a, ri_ArmRegionName a, ri_ArmSKUName a, ri_SKUName a, ri_ProductName a,
      ri_MeterName a, ri_Type a, ri_ReservationTerm a, ri_UnitOfMeasure a, ri_CurrencyCode a]
     = [ri_ServiceName b, ri_ArmRegionName b, ri_ArmSKUName b, ri_SKUName b, ri_ProductName b,
      ri_MeterName b, ri_Type b, ri_ReservationTerm b, ri_UnitOfMeasure b, ri_CurrencyCode b]
     \<and> feq (ri_RetailPrice a) (ri_RetailPrice b)"

text \<open>The value a message prints for a price: Go's \<open>%v\<close> of a \<open>float64\<close> is only part of an error text.\<close>

definition normalizeReservation :: "RetailPriceItem \<Rightarrow> go_error + RetailPriceItem" where
  "normalizeReservation item =
    (if ri_UnitOfMeasure item \<notin> {''1 Hour'', ''1/Hour''} then
       Inl (errorf ''unsupported reservation unit %q'' [ArgS (ri_UnitOfMeasure item)])
     else if ri_CurrencyCode item = [] then Inl (errorf ''reservation currency is missing'' [])
     else if ri_RetailPrice item \<le> 0 \<or> is_nan (ri_RetailPrice item) \<or> is_inf (ri_RetailPrice item) then
       Inl (errorf ''invalid reservation retail price %v'' [ArgF (ri_RetailPrice item)])
     else Inr (item\<lparr>ri_UnitOfMeasure := ''1 Hour''\<rparr>))"

definition term_text :: "int \<Rightarrow> go_string" where
  "term_text termYears = (if termYears = 1 then ''1 Year'' else sprintf ''%d Years'' [ArgI termYears])"

fun select_loop :: "go_string \<Rightarrow> (RetailPriceItem \<Rightarrow> bool) \<Rightarrow> RetailPriceItem option \<Rightarrow> RetailPriceItem list
    \<Rightarrow> go_error + RetailPriceItem option" where
  "select_loop t matches selected [] = Inr selected"
| "select_loop t matches selected (item # items) =
    (if ri_Type item \<noteq> ''Reservation'' \<or> ri_ReservationTerm item \<noteq> t \<or> \<not> matches item then select_loop t matches selected items
     else (case normalizeReservation item of
       Inl e \<Rightarrow> Inl e
     | Inr item' \<Rightarrow> (case selected of
         Some old \<Rightarrow> if \<not> sameReservation old item' then Inl (errorf ''ambiguous reservation pricing for %s'' [ArgS t])
           else select_loop t matches (Some item') items
       | None \<Rightarrow> select_loop t matches (Some item') items)))"

definition SelectReservation :: "RetailPriceItem list \<Rightarrow> int \<Rightarrow> (RetailPriceItem \<Rightarrow> bool) \<Rightarrow> go_error + RetailPriceItem" where
  "SelectReservation items termYears matches = (let t = term_text termYears in
     case select_loop t matches None items of
       Inl e \<Rightarrow> Inl e
     | Inr None \<Rightarrow> Inl (errorf ''no reservation pricing found for %s'' [ArgS t])
     | Inr (Some item) \<Rightarrow> Inr item)"

section \<open>Redis identities (redis_sku.go)\<close>

record RedisIdentity =
  id_ArmSKUName :: go_string
  id_SKUName :: go_string
  id_ProductName :: go_string
  id_MeterName :: go_string

text \<open>
  What a SKU name tells of its family: the display name, the product and the suffix of the meter. The rest of the
  display name is a number when trimming its digits leaves nothing, that is when all its bytes are digits.
\<close>

definition redis_family :: "go_string \<Rightarrow> (go_string \<times> go_string \<times> go_string) option" where
  "redis_family arm =
    (let premium = ''Azure_Redis_Cache_Premium_''; flash = ''Azure_Redis_Cache_Enterprise_Flash_F''; enterprise = ''Azure_Redis_Cache_Enterprise_E''
     in if starts_with arm premium then
          (let rest = drop (length premium) arm; display = trim_suffix rest ''_Cache''
           in if display = rest \<or> display \<notin> {''P1'', ''P2'', ''P3'', ''P4'', ''P5''} then None
              else Some (display, ''Azure Redis Cache Premium'', '' Cache Instance''))
        else if starts_with arm flash then Some (''F'' @ drop (length flash) arm, ''Azure Redis Cache Enterprise Flash'', '' Cache'')
        else if starts_with arm enterprise then Some (''E'' @ drop (length enterprise) arm, ''Azure Redis Cache Enterprise'', '' Cache'')
        else None)"

definition ParseRedisIdentity :: "go_string \<Rightarrow> go_error + RedisIdentity" where
  "ParseRedisIdentity sku =
    (let arm = (if starts_with sku ''Premium_'' then ''Azure_Redis_Cache_'' @ sku @ ''_Cache'' else sku);
         unsupported = Inl (errorf ''unsupported Redis reservation SKU: %q'' [ArgS sku])
     in case redis_family arm of
       None \<Rightarrow> unsupported
     | Some (display, product, meterSuffix) \<Rightarrow>
         if length display = 1 \<or> \<not> list_all is_digit (tl display) then unsupported
         else Inr \<lparr>id_ArmSKUName = arm, id_SKUName = display, id_ProductName = product, id_MeterName = display @ meterSuffix\<rparr>)"

definition redis_Matches :: "RedisIdentity \<Rightarrow> go_string \<Rightarrow> RetailPriceItem \<Rightarrow> bool" where
  "redis_Matches i region item \<longleftrightarrow> ri_ServiceName item = ''Redis Cache'' \<and> ri_ArmRegionName item = region
     \<and> ri_ArmSKUName item = id_ArmSKUName i \<and> ri_SKUName item = id_SKUName i
     \<and> ri_ProductName item = id_ProductName i \<and> ri_MeterName item = id_MeterName i"

section \<open>The price lookups of the clients\<close>

definition HoursPerYear :: float64 where
  "HoursPerYear = Fin 8760"

text \<open>\<open>url.Values.Encode\<close> of the two parameters: \<open>url.QueryEscape\<close> of the filter.\<close>

definition query_escape :: "go_string \<Rightarrow> go_string" where
  "query_escape s = concat (map (\<lambda>c. let n = of_char c :: nat in
     if odata_char c \<or> c = CHR ''~'' then [c] else if c = CHR '' '' then ''+''
     else CHR ''%'' # map (\<lambda>d. if d < 10 then digit_char d else char_of (55 + d)) [n div 16, n mod 16]) s)"

definition retail_url :: "go_string \<Rightarrow> go_string" where
  "retail_url flt = ''https://prices.azure.com/api/retail/prices?%24filter='' @ query_escape flt @ ''&api-version=2023-01-01-preview''"

definition fetchAzurePricing :: "'w price_env \<Rightarrow> go_string \<Rightarrow> 'w az_state \<Rightarrow> (go_error + RetailPriceItem list) \<times> 'w az_state" where
  "fetchAzurePricing env flt s = FetchAll env (retail_url flt) DefaultPageTimeout DefaultMaxPages s"

definition quote_price :: "RetailPriceItem \<Rightarrow> int \<Rightarrow> azure_pricing" where
  "quote_price item termYears = \<lparr>ap_Currency = ri_CurrencyCode item,
     ap_HourlyRate = fdiv (ri_RetailPrice item) (HoursPerYear * float_of_int termYears), ap_ReservationPrice = ri_RetailPrice item\<rparr>"

text \<open>
  What the lookups share after their filter is built: \<open>wrap_fetch\<close> and \<open>wrap_select\<close> are what a client does
  with the errors of the two calls, \<open>no_rows\<close> its error for an empty catalog, if it has one.
\<close>

definition lookup_price :: "'w price_env \<Rightarrow> go_string \<Rightarrow> (RetailPriceItem \<Rightarrow> bool) \<Rightarrow> int \<Rightarrow> (go_error \<Rightarrow> go_error) \<Rightarrow> (go_error \<Rightarrow> go_error)
    \<Rightarrow> go_error option \<Rightarrow> 'w az_state \<Rightarrow> (go_error + azure_pricing) \<times> 'w az_state" where
  "lookup_price env flt matches termYears wrap_fetch wrap_select no_rows s = (case fetchAzurePricing env flt s of
     (Inl e, s') \<Rightarrow> (Inl (wrap_fetch e), s')
   | (Inr items, s') \<Rightarrow>
       (case (if items = [] then no_rows else None) of Some e \<Rightarrow> Inl e
        | None \<Rightarrow> (case SelectReservation items termYears matches of
            Inl e \<Rightarrow> Inl (wrap_select e) | Inr item \<Rightarrow> Inr (quote_price item termYears)), s'))"

type_synonym 'w price_lookup = "'w price_env \<Rightarrow> go_string \<Rightarrow> go_string \<Rightarrow> int \<Rightarrow> 'w az_state \<Rightarrow> (go_error + azure_pricing) \<times> 'w az_state"

definition matchesVMReservationProduct :: "RetailPriceItem \<Rightarrow> bool" where
  "matchesVMReservationProduct item \<longleftrightarrow> ri_ProductName item \<noteq> [] \<and> ri_MeterName item \<noteq> [] \<and> ri_SKUName item \<noteq> []
     \<and> \<not> str_contains (ri_ProductName item) ''Windows''
     \<and> \<not> str_contains (ri_MeterName item) ''Spot'' \<and> \<not> str_contains (ri_SKUName item) ''Spot''
     \<and> \<not> str_contains (ri_MeterName item) ''Low Priority'' \<and> \<not> str_contains (ri_SKUName item) ''Low Priority''"

text \<open>The OData filters: conditions \<open>field eq value\<close> joined by \<open>and\<close>, with literals in single quotes.\<close>

definition literal :: "go_string \<Rightarrow> go_string" where
  "literal v = CHR 0x27 # v @ [CHR 0x27]"

definition price_filter :: "(go_string \<times> go_string) list \<Rightarrow> go_string" where
  "price_filter conds = join_with '' and '' (map (\<lambda>(field, v). field @ '' eq '' @ v) (conds @ [(''priceType'', literal ''Reservation'')]))"

definition getVMPricing :: "'w price_lookup" where
  "getVMPricing env vmSize region termYears s = (case ODataString region of Inl e \<Rightarrow> (Inl e, s)
   | Inr qRegion \<Rightarrow> (case ODataString vmSize of Inl e \<Rightarrow> (Inl e, s)
     | Inr qSKU \<Rightarrow> lookup_price env (price_filter [(''serviceName'', literal ''Virtual Machines''), (''armRegionName'', qRegion), (''armSkuName'', qSKU)])
         (\<lambda>item. ri_ServiceName item = ''Virtual Machines'' \<and> ri_ArmRegionName item = region
           \<and> ri_ArmSKUName item = vmSize \<and> matchesVMReservationProduct item) termYears id
         (\<lambda>e. wrapf ''VM size %s in region %s: %w'' [ArgS vmSize, ArgS region, ArgS (err_text e)] [e])
         (Some (errorf ''no pricing data found for VM size %s in region %s'' [ArgS vmSize, ArgS region])) s))"

definition getSQLPricing :: "'w price_lookup" where
  "getSQLPricing env sku region termYears s = (case ODataString region of Inl e \<Rightarrow> (Inl e, s)
   | Inr qRegion \<Rightarrow> (case ODataString sku of Inl e \<Rightarrow> (Inl e, s)
     | Inr qSKU \<Rightarrow> lookup_price env (price_filter [(''serviceName'', literal ''SQL Database''), (''armRegionName'', qRegion), (''armSkuName'', qSKU)])
         (\<lambda>item. ri_ServiceName item = ''SQL Database'' \<and> ri_ArmRegionName item = region \<and> ri_ArmSKUName item = sku) termYears id
         (\<lambda>e. wrapf ''SQL Database SKU %s in region %s: %w'' [ArgS sku, ArgS region, ArgS (err_text e)] [e])
         (Some (errorf ''no pricing data found for SKU %s in region %s'' [ArgS sku, ArgS region])) s))"

definition searchDisplaySKUs :: "(go_string, go_string) go_map" where
  "searchDisplaySKUs = [(''basic'', ''Basic''), (''standard'', ''Standard S1''), (''standard2'', ''Standard S2''), (''standard3'', ''Standard S3''),
     (''storage_optimized_l1'', ''Storage Optimized L1''), (''storage_optimized_l2'', ''Storage Optimized L2'')]"

definition getSearchPricing :: "'w price_lookup" where
  "getSearchPricing env sku region termYears s = (case map_of searchDisplaySKUs sku of
     None \<Rightarrow> (Inl (errorf ''unsupported Azure Search SKU %q'' [ArgS sku]), s)
   | Some displaySKU \<Rightarrow> (case ODataString region of Inl e \<Rightarrow> (Inl e, s)
     | Inr qRegion \<Rightarrow> lookup_price env
         (price_filter [(''serviceName'', literal ''Azure Cognitive Search''), (''armRegionName'', qRegion), (''skuName'', literal displaySKU)])
         (\<lambda>item. ri_ServiceName item = ''Azure Cognitive Search'' \<and> ri_ArmRegionName item = region \<and> ri_SKUName item = displaySKU)
         termYears id
         (\<lambda>e. wrapf ''azure search SKU %s in region %s: %w'' [ArgS sku, ArgS region, ArgS (err_text e)] [e]) None s))"

definition synapse_product :: go_string where
  "synapse_product = ''Azure Synapse Analytics Dedicated SQL Pool''"

definition getSynapsePricing :: "'w price_lookup" where
  "getSynapsePricing env sku region termYears s = (case ODataString region of Inl e \<Rightarrow> (Inl e, s)
   | Inr qRegion \<Rightarrow> (case ODataString sku of Inl e \<Rightarrow> (Inl e, s)
     | Inr qSKU \<Rightarrow> lookup_price env
         (price_filter [(''serviceName'', literal ''Azure Synapse Analytics''), (''productName'', literal synapse_product),
           (''armRegionName'', qRegion), (''skuName'', qSKU)])
         (\<lambda>item. ri_ServiceName item = ''Azure Synapse Analytics'' \<and> ri_ProductName item = synapse_product
           \<and> ri_ArmRegionName item = region \<and> ri_SKUName item = sku) termYears id
         (\<lambda>e. wrapf ''synapse reservation pricing for SKU %s in region %s: %w'' [ArgS sku, ArgS region, ArgS (err_text e)] [e]) None s))"

definition cosmos_sku :: "go_string \<Rightarrow> go_error + go_string" where
  "cosmos_sku sku =
    (if sku \<in> {''100RU'', ''100RUperSecond''} then Inr ''Cosmos_DB_100_RUs''
     else if \<not> starts_with sku ''Cosmos_DB_'' then Inl (errorf ''unsupported Cosmos DB pricing SKU %q'' [ArgS sku])
     else Inr sku)"

definition getCosmosPricing :: "'w price_lookup" where
  "getCosmosPricing env sku0 region termYears s = (case cosmos_sku sku0 of Inl e \<Rightarrow> (Inl e, s)
   | Inr sku \<Rightarrow> (case ODataString sku of Inl e \<Rightarrow> (Inl e, s)
     | Inr qSKU \<Rightarrow> lookup_price env
         (price_filter [(''serviceName'', literal ''Azure Cosmos DB''), (''productName'', literal ''Azure Cosmos DB''),
           (''armRegionName'', literal ''Global''), (''armSkuName'', qSKU)])
         (\<lambda>item. ri_ServiceName item = ''Azure Cosmos DB'' \<and> ri_ProductName item = ''Azure Cosmos DB''
           \<and> ri_ArmRegionName item = ''Global'' \<and> ri_ArmSKUName item = sku) termYears id id
         (Some (errorf ''no pricing data found for Cosmos DB SKU %s in region %s'' [ArgS sku, ArgS region])) s))"

definition redis_pricing :: "(go_error \<Rightarrow> go_error) \<Rightarrow> 'w price_lookup" where
  "redis_pricing wrap_fetch env sku region termYears s = (case ParseRedisIdentity sku of Inl e \<Rightarrow> (Inl e, s)
   | Inr identity \<Rightarrow> (case ODataString region of Inl e \<Rightarrow> (Inl e, s)
     | Inr qRegion \<Rightarrow> (case ODataString (id_ArmSKUName identity) of Inl e \<Rightarrow> (Inl e, s)
       | Inr qSKU \<Rightarrow> lookup_price env (price_filter [(''serviceName'', literal ''Redis Cache''), (''armRegionName'', qRegion), (''armSkuName'', qSKU)])
           (redis_Matches identity region) termYears wrap_fetch id
           (Some (errorf ''no pricing data found for Redis Cache SKU %s in region %s'' [ArgS sku, ArgS region])) s)))"

definition cache_getRedisPricing :: "'w price_lookup" where
  "cache_getRedisPricing = redis_pricing id"

definition managedredis_getRedisPricing :: "'w price_lookup" where
  "managedredis_getRedisPricing = redis_pricing (\<lambda>e. wrapf ''failed to fetch Redis Cache pricing: %w'' [ArgS (err_text e)] [e])"

section \<open>What a quote promises\<close>

definition eligible :: "int \<Rightarrow> (RetailPriceItem \<Rightarrow> bool) \<Rightarrow> RetailPriceItem \<Rightarrow> bool" where
  "eligible y matches i \<longleftrightarrow> ri_Type i = ''Reservation'' \<and> ri_ReservationTerm i = term_text y \<and> matches i"

lemma sameReservation_sym: "sameReservation a b \<Longrightarrow> sameReservation b a"
  by (simp add: sameReservation_def feq_sym)

lemma sameReservation_trans: "sameReservation a b \<Longrightarrow> sameReservation b c \<Longrightarrow> sameReservation a c"
  by (auto simp: sameReservation_def intro: feq_trans)

lemma normalizeReservation_Inr:
  "normalizeReservation i = Inr s \<longleftrightarrow> ri_UnitOfMeasure i \<in> {''1 Hour'', ''1/Hour''} \<and> ri_CurrencyCode i \<noteq> []
     \<and> (\<exists>r. ri_RetailPrice i = Fin r \<and> 0 < r) \<and> s = i\<lparr>ri_UnitOfMeasure := ''1 Hour''\<rparr>"
  by (cases "ri_RetailPrice i") (auto simp: normalizeReservation_def split: if_splits)

lemma normalized_refl: "normalizeReservation i = Inr s \<Longrightarrow> sameReservation s s"
  by (auto simp: normalizeReservation_Inr sameReservation_def)

text \<open>A catalog agrees on a quote when each of its eligible rows normalizes to that quote.\<close>

definition agrees :: "int \<Rightarrow> (RetailPriceItem \<Rightarrow> bool) \<Rightarrow> RetailPriceItem list \<Rightarrow> RetailPriceItem \<Rightarrow> bool" where
  "agrees y matches items s \<longleftrightarrow> (\<forall>i\<in>set items. eligible y matches i \<longrightarrow> (\<exists>i'. normalizeReservation i = Inr i' \<and> sameReservation s i'))"

lemma agrees_simps [simp]:
  "agrees y m [] s"
  "agrees y m (i # is) s \<longleftrightarrow> (eligible y m i \<longrightarrow> (\<exists>i'. normalizeReservation i = Inr i' \<and> sameReservation s i')) \<and> agrees y m is s"
  by (auto simp: agrees_def)

lemma agrees_same: "sameReservation s t \<Longrightarrow> agrees y m is s \<Longrightarrow> agrees y m is t"
  unfolding agrees_def by (blast intro: sameReservation_sym sameReservation_trans)

lemma select_loop_skip: "\<not> eligible y m i \<Longrightarrow> select_loop (term_text y) m o1 (i # is) = select_loop (term_text y) m o1 is"
  by (auto simp: eligible_def)

lemma select_loop_take: "eligible y m i \<Longrightarrow> select_loop (term_text y) m o1 (i # is) = (case normalizeReservation i of
       Inl e \<Rightarrow> Inl e
     | Inr item' \<Rightarrow> (case o1 of
         Some old \<Rightarrow> if \<not> sameReservation old item' then Inl (errorf ''ambiguous reservation pricing for %s'' [ArgS (term_text y)])
           else select_loop (term_text y) m (Some item') is
       | None \<Rightarrow> select_loop (term_text y) m (Some item') is))"
  by (simp add: eligible_def)

lemma select_loop_Some:
  "select_loop (term_text y) m (Some old) is = Inr r \<Longrightarrow> sameReservation old old \<Longrightarrow>
     \<exists>s. r = Some s \<and> sameReservation old s \<and> agrees y m is s
       \<and> (s = old \<or> (\<exists>i\<in>set is. eligible y m i \<and> normalizeReservation i = Inr s))"
proof (induction "is" arbitrary: old)
  case Nil
  then show ?case by simp
next
  case (Cons i "is")
  show ?case
  proof (cases "eligible y m i")
    case False
    with Cons show ?thesis by (auto simp: select_loop_skip simp del: select_loop.simps)
  next
    case True
    from Cons.prems(1) True obtain i' where i': "normalizeReservation i = Inr i'" "sameReservation old i'"
      "select_loop (term_text y) m (Some i') is = Inr r"
      by (auto simp: select_loop_take simp del: select_loop.simps split: sum.splits if_splits)
    from Cons.IH [OF i'(3) normalized_refl [OF i'(1)]] obtain s where s: "r = Some s" "sameReservation i' s" "agrees y m is s"
      "s = i' \<or> (\<exists>i\<in>set is. eligible y m i \<and> normalizeReservation i = Inr s)" by blast
    have "sameReservation old s" using i'(2) s(2) by (rule sameReservation_trans)
    moreover have "agrees y m (i # is) s" using s i'(1) sameReservation_sym by auto
    ultimately show ?thesis using s True i'(1) by auto
  qed
qed

lemma select_loop_total:
  "agrees y m is old \<Longrightarrow> sameReservation old old \<Longrightarrow> \<exists>r. select_loop (term_text y) m (Some old) is = Inr r"
proof (induction "is" arbitrary: old)
  case Nil
  then show ?case by simp
next
  case (Cons i "is")
  show ?case
  proof (cases "eligible y m i")
    case False
    with Cons show ?thesis by (simp add: select_loop_skip del: select_loop.simps)
  next
    case True
    with Cons.prems(1) obtain i' where i': "normalizeReservation i = Inr i'" "sameReservation old i'" by auto
    have "agrees y m is i'" using Cons.prems(1) i'(2) by (auto intro: agrees_same)
    from Cons.IH [OF this normalized_refl [OF i'(1)]] i' True show ?thesis
      by (simp add: select_loop_take del: select_loop.simps)
  qed
qed

lemma select_loop_None:
  "select_loop (term_text y) m None is = Inr (Some s) \<Longrightarrow>
     agrees y m is s \<and> (\<exists>i\<in>set is. eligible y m i \<and> normalizeReservation i = Inr s)"
proof (induction "is")
  case Nil
  then show ?case by simp
next
  case (Cons i "is")
  show ?case
  proof (cases "eligible y m i")
    case False
    with Cons show ?thesis by (auto simp: select_loop_skip simp del: select_loop.simps)
  next
    case True
    from Cons.prems True obtain i' where i': "normalizeReservation i = Inr i'" "select_loop (term_text y) m (Some i') is = Inr (Some s)"
      by (auto simp: select_loop_take simp del: select_loop.simps split: sum.splits)
    from select_loop_Some [OF i'(2) normalized_refl [OF i'(1)]] True i'(1) show ?thesis
      using sameReservation_sym by auto
  qed
qed

lemma select_loop_None_total:
  "agrees y m is s \<Longrightarrow> \<exists>i\<in>set is. eligible y m i \<Longrightarrow> \<exists>t. select_loop (term_text y) m None is = Inr (Some t)"
proof (induction "is")
  case Nil
  then show ?case by simp
next
  case (Cons i "is")
  show ?case
  proof (cases "eligible y m i")
    case False
    with Cons show ?thesis by (simp add: select_loop_skip del: select_loop.simps)
  next
    case True
    with Cons.prems(1) obtain i' where i': "normalizeReservation i = Inr i'" "sameReservation s i'" by auto
    have "agrees y m is i'" using Cons.prems(1) i'(2) by (auto intro: agrees_same)
    from select_loop_total [OF this normalized_refl [OF i'(1)]] obtain r where r: "select_loop (term_text y) m (Some i') is = Inr r" ..
    from select_loop_Some [OF r normalized_refl [OF i'(1)]] obtain t where "r = Some t" by blast
    with r i' True show ?thesis by (simp add: select_loop_take del: select_loop.simps)
  qed
qed

lemma SelectReservation_Inr: "SelectReservation is y m = Inr s \<longleftrightarrow> select_loop (term_text y) m None is = Inr (Some s)"
  by (auto simp: SelectReservation_def Let_def split: sum.splits option.splits)

lemma SelectReservation_ok:
  assumes "SelectReservation is y m = Inr s"
  shows "agrees y m is s" "\<exists>i\<in>set is. eligible y m i \<and> normalizeReservation i = Inr s" "sameReservation s s"
  using select_loop_None [OF assms [unfolded SelectReservation_Inr]] normalized_refl by blast+

lemma quote_exists: "(\<exists>s. SelectReservation items y m = Inr s) \<longleftrightarrow> (\<exists>i\<in>set items. eligible y m i) \<and> (\<exists>s. agrees y m items s)"
  using SelectReservation_ok(1,2) select_loop_None_total unfolding SelectReservation_Inr by metis

lemma quote_is_row:
  "SelectReservation items y m = Inr s \<Longrightarrow> agrees y m items s
      \<and> (\<exists>i\<in>set items. eligible y m i \<and> s = i\<lparr>ri_UnitOfMeasure := ''1 Hour''\<rparr>)
      \<and> ri_CurrencyCode s \<noteq> [] \<and> (\<exists>r. ri_RetailPrice s = Fin r \<and> 0 < r)"
  using SelectReservation_ok(1,2) [of items y m s] by (auto simp: normalizeReservation_Inr)

lemma quote_reorder:
  assumes s: "SelectReservation items y m = Inr s" and p: "mset items' = mset items"
  shows "\<exists>s'. SelectReservation items' y m = Inr s' \<and> sameReservation s s'"
proof -
  from p have set: "set items' = set items" by (rule mset_eq_setD)
  have "agrees y m items' s" using SelectReservation_ok(1) [OF s] by (simp add: agrees_def set)
  moreover have "\<exists>i\<in>set items'. eligible y m i" using SelectReservation_ok(2) [OF s] set by auto
  ultimately obtain s' where s': "SelectReservation items' y m = Inr s'" using quote_exists [of items'] by auto
  from SelectReservation_ok(2) [OF s'] obtain i where i: "i \<in> set items" "eligible y m i" "normalizeReservation i = Inr s'"
    using set by auto
  with SelectReservation_ok(1) [OF s] have "sameReservation s s'" by (auto simp: agrees_def)
  with s' show ?thesis by blast
qed

text \<open>C15. A reservation quote is never a choice between conflicting catalog rows, and the order of the catalog does
  not matter. \<open>SelectReservation\<close> answers with a quote exactly when the catalog has a row of the asked term and every
  such row normalizes to that one quote (same SKU, unit, currency and price); the quote is one of those rows, in hours,
  with a named currency and a positive finite price; and any reordering of the catalog gives the same quote.\<close>

theorem quote_is_unambiguous:
  "((\<exists>s. SelectReservation items y m = Inr s) \<longleftrightarrow> (\<exists>i\<in>set items. eligible y m i) \<and> (\<exists>s. agrees y m items s))
   \<and> (\<forall>s. SelectReservation items y m = Inr s \<longrightarrow> agrees y m items s
        \<and> (\<exists>i\<in>set items. eligible y m i \<and> s = i\<lparr>ri_UnitOfMeasure := ''1 Hour''\<rparr>)
        \<and> ri_CurrencyCode s \<noteq> [] \<and> (\<exists>r. ri_RetailPrice s = Fin r \<and> 0 < r)
        \<and> (\<forall>items'. mset items' = mset items \<longrightarrow> (\<exists>s'. SelectReservation items' y m = Inr s' \<and> sameReservation s s')))"
  using quote_exists [of items y m] quote_is_row [of items y m] quote_reorder [of items y m] by blast

definition sample_row :: "RetailPriceItem" where
  "sample_row = \<lparr>ri_CurrencyCode = ''USD'', ri_ArmRegionName = ''eastus'', ri_Location = ''US East'',
     ri_ProductName = ''Dsv3 Series'', ri_ServiceName = ''Virtual Machines'', ri_ArmSKUName = ''Standard_D2s_v3'',
     ri_SKUName = ''D2s v3'', ri_MeterName = ''D2s v3'', ri_UnitOfMeasure = ''1/Hour'', ri_ReservationTerm = ''1 Year'',
     ri_Type = ''Reservation'', ri_RetailPrice = Fin 500, ri_UnitPrice = Fin 500\<rparr>"

lemma sample_quote: "SelectReservation [sample_row\<lparr>ri_ReservationTerm := ''3 Years''\<rparr>, sample_row] 1 (\<lambda>_. True)
    = Inr (sample_row\<lparr>ri_UnitOfMeasure := ''1 Hour''\<rparr>)"
  by (simp add: SelectReservation_def term_text_def sample_row_def normalizeReservation_def)

theorem quote_is_unambiguous_witness:
  "\<exists>s'. SelectReservation [sample_row, sample_row\<lparr>ri_ReservationTerm := ''3 Years''\<rparr>] 1 (\<lambda>_. True) = Inr s'
     \<and> sameReservation (sample_row\<lparr>ri_UnitOfMeasure := ''1 Hour''\<rparr>) s'"
proof -
  have "mset [sample_row, sample_row\<lparr>ri_ReservationTerm := ''3 Years''\<rparr>] = mset [sample_row\<lparr>ri_ReservationTerm := ''3 Years''\<rparr>, sample_row]"
    by (simp add: add_mset_commute)
  then show ?thesis
    by (rule quote_is_unambiguous [THEN conjunct2, THEN spec, THEN mp, OF sample_quote,
        THEN conjunct2, THEN conjunct2, THEN conjunct2, THEN conjunct2, THEN spec, THEN mp])
qed

section \<open>Reading the whole catalog\<close>

text \<open>\<open>reads env t k url pages s s'\<close>: following the links from \<open>url\<close>, each page fetched, ends at a page without a link.\<close>

inductive reads :: "'w price_env \<Rightarrow> go_string \<Rightarrow> nat \<Rightarrow> go_string \<Rightarrow> (go_string \<times> price_page) list \<Rightarrow> 'w az_state \<Rightarrow> 'w az_state \<Rightarrow> bool"
  for env t where
  reads_end: "reads env t k [] [] s s"
| reads_page: "url \<noteq> [] \<Longrightarrow> slot_fetch env url k t s = (Inr page, s1) \<Longrightarrow> reads env t (Suc k) (pp_NextPageLink page) pages s1 s2
    \<Longrightarrow> reads env t k url ((url, page) # pages) s s2"

inductive_simps reads_simps: "reads env t k [] pages s s'" "reads env t k url [] s s'" "reads env t k url (p # ps) s s'"

lemma fetch_loop_iff:
  "distinct seen \<Longrightarrow> fetch_loop env t n left k seen all url s = (Inr items, s2) \<longleftrightarrow>
     (\<exists>pages. reads env t k url pages s s2 \<and> length pages \<le> left \<and> distinct (map fst pages)
        \<and> set (map fst pages) \<inter> set seen = {} \<and> items = all @ concat (map (pp_Items \<circ> snd) pages))"
proof (induction left arbitrary: k seen all url s)
  case 0
  then show ?case by (auto simp: reads_simps)
next
  case (Suc left)
  show ?case
  proof (cases "url = []")
    case True
    then show ?thesis by (auto simp: reads_simps)
  next
    case False
    show ?thesis
    proof (cases "url \<in> set seen")
      case True
      have "\<not> (\<exists>pages. reads env t k url pages s s2 \<and> set (map fst pages) \<inter> set seen = {})"
      proof
        assume "\<exists>pages. reads env t k url pages s s2 \<and> set (map fst pages) \<inter> set seen = {}"
        then obtain pages where p: "reads env t k url pages s s2" "set (map fst pages) \<inter> set seen = {}" by blast
        from p(1) False obtain page ps where "pages = (url, page) # ps" by (cases rule: reads.cases) auto
        with p(2) True show False by auto
      qed
      with True False show ?thesis by auto
    next
      case fresh: False
      show ?thesis
      proof (cases "slot_fetch env url k t s")
        case (Pair r s1)
        show ?thesis
        proof (cases r)
          case (Inl e)
          with Pair False fresh have "\<nexists>pages. reads env t k url pages s s2" by (auto elim: reads.cases)
          with Inl Pair False fresh show ?thesis by simp
        next
          case (Inr page)
          have IH: "fetch_loop env t n left (Suc k) (url # seen) (all @ pp_Items page) (pp_NextPageLink page) s1 = (Inr items, s2) \<longleftrightarrow>
            (\<exists>pages. reads env t (Suc k) (pp_NextPageLink page) pages s1 s2 \<and> length pages \<le> left \<and> distinct (map fst pages)
              \<and> set (map fst pages) \<inter> set (url # seen) = {} \<and> items = (all @ pp_Items page) @ concat (map (pp_Items \<circ> snd) pages))"
            using Suc.prems fresh by (intro Suc.IH) simp
          have unroll: "reads env t k url pages s s2 \<longleftrightarrow> (\<exists>ps. pages = (url, page) # ps \<and> reads env t (Suc k) (pp_NextPageLink page) ps s1 s2)" for pages
            using False Pair Inr by (auto intro: reads_page elim: reads.cases)
          have shift: "(\<exists>pages. reads env t k url pages s s2 \<and> P pages) \<longleftrightarrow>
            (\<exists>ps. reads env t (Suc k) (pp_NextPageLink page) ps s1 s2 \<and> P ((url, page) # ps))" for P
            by (auto simp: unroll)
          have "fetch_loop env t n (Suc left) k seen all url s
              = fetch_loop env t n left (Suc k) (url # seen) (all @ pp_Items page) (pp_NextPageLink page) s1"
            using False fresh Pair Inr by simp
          then have "fetch_loop env t n (Suc left) k seen all url s = (Inr items, s2) \<longleftrightarrow>
              (\<exists>ps. reads env t (Suc k) (pp_NextPageLink page) ps s1 s2 \<and> length ps \<le> left \<and> distinct (map fst ps)
                \<and> set (map fst ps) \<inter> set (url # seen) = {} \<and> items = (all @ pp_Items page) @ concat (map (pp_Items \<circ> snd) ps))"
            unfolding IH [symmetric] by simp
          also have "\<dots> \<longleftrightarrow> (\<exists>pages. reads env t k url pages s s2 \<and> length pages \<le> Suc left \<and> distinct (map fst pages)
                \<and> set (map fst pages) \<inter> set seen = {} \<and> items = all @ concat (map (pp_Items \<circ> snd) pages))"
            unfolding shift by (rule ex_cong) (use fresh in auto)
          finally show ?thesis .
        qed
      qed
    qed
  qed
qed

lemma fetchAll_iff:
  "fetchAll env url t n s = (Inr items, s2) \<longleftrightarrow>
     0 < n \<and> (\<exists>pages. reads env t 0 url pages s s2 \<and> int (length pages) \<le> n \<and> distinct (map fst pages)
        \<and> items = concat (map (pp_Items \<circ> snd) pages))"
  using fetch_loop_iff [of "[]" env t "nat n" "nat n" 0 "[]" url s items s2] by (auto simp: fetchAll_def le_nat_iff)

text \<open>C16. The catalog walk returns the whole catalog or an error, never a part of it. \<open>FetchAll\<close> answers with items exactly
  when following the next-page links from the first URL reaches a page without a link within the page cap, with no URL
  visited twice, and the items are then those of all the pages in order; every other outcome (a failed request, a status
  other than 200, an undecodable page, a cycle, the cap reached with a link pending) is an error that wraps
  \<open>ErrFetch\<close>, so a caller takes it for a failed collection.\<close>

theorem catalog_is_whole_or_error:
  "(FetchAll env url t n s = (Inr items, s2) \<longleftrightarrow>
     0 < n \<and> (\<exists>pages. reads env t 0 url pages s s2 \<and> int (length pages) \<le> n \<and> distinct (map fst pages)
        \<and> items = concat (map (pp_Items \<circ> snd) pages)))
   \<and> (\<forall>e. fst (FetchAll env url t n s) = Inl e \<longrightarrow> err_is ''retail prices fetch failed'' e)"
proof -
  have "FetchAll env url t n s = (Inr items, s2) \<longleftrightarrow> fetchAll env url t n s = (Inr items, s2)"
    by (auto simp: FetchAll_def split: prod.splits sum.splits)
  moreover have "fst (FetchAll env url t n s) = Inl e \<Longrightarrow> err_is ''retail prices fetch failed'' e" for e
    by (auto simp: FetchAll_def ErrFetch_def split: prod.splits sum.splits)
  ultimately show ?thesis using fetchAll_iff by blast
qed

text \<open>A catalog of two pages behind one link, and a wait for a slot that never fails.\<close>

definition two_pages :: "unit price_env" where
  "two_pages = \<lparr>pv_client = \<lparr>hc_Do = (\<lambda>rq w. (Inr \<lparr>rs_StatusCode = 200, rs_Body = rq_URL rq, rs_ReadErr = None\<rparr>, w)),
       az_wait = (\<lambda>w. (None, w)), az_badURL = (\<lambda>_. None), json_price = (\<lambda>_. Inl (errorf ''none'' [])), json_orders = (\<lambda>_. Inl (errorf ''none'' []))\<rparr>,
     pv_acquire = (\<lambda>w. (None, w)),
     pv_decode = (\<lambda>resp. Inr (if rs_Body resp = ''b'' then \<lparr>pp_NextPageLink = [], pp_Items = [sample_row]\<rparr>
       else \<lparr>pp_NextPageLink = ''b'', pp_Items = [sample_row\<lparr>ri_ReservationTerm := ''3 Years''\<rparr>]\<rparr>))\<rparr>"

lemma two_pages_fetch:
  "slot_fetch two_pages u k t s = (Inr (if u = ''b'' then \<lparr>pp_NextPageLink = [], pp_Items = [sample_row]\<rparr>
       else \<lparr>pp_NextPageLink = ''b'', pp_Items = [sample_row\<lparr>ri_ReservationTerm := ''3 Years''\<rparr>]\<rparr>),
     s\<lparr>az_log := az_log s @ [Sent (get_request u []) (Inr \<lparr>rs_StatusCode = 200, rs_Body = u, rs_ReadErr = None\<rparr>)]\<rparr>)"
  by (cases s) (simp add: slot_fetch_def fetchOnePage_def two_pages_def az_send_def get_request_def)

lemma two_pages_items: "fst (FetchAll two_pages ''a'' DefaultPageTimeout 2 s) = Inr [sample_row\<lparr>ri_ReservationTerm := ''3 Years''\<rparr>, sample_row]"
  by (simp add: FetchAll_def fetchAll_def eval_nat_numeral two_pages_fetch)

theorem catalog_is_whole_or_error_witness:
  "err_is ''retail prices fetch failed'' (projl (fst (FetchAll two_pages ''a'' DefaultPageTimeout 1 \<lparr>az_world = (), az_log = []\<rparr>)))
   \<and> (\<exists>pages s2. reads two_pages DefaultPageTimeout 0 ''a'' pages \<lparr>az_world = (), az_log = []\<rparr> s2 \<and> concat (map (pp_Items \<circ> snd) pages)
        = [sample_row\<lparr>ri_ReservationTerm := ''3 Years''\<rparr>, sample_row])"
proof -
  let ?s = "\<lparr>az_world = (), az_log = []\<rparr> :: unit az_state"
  have "\<exists>e. fst (FetchAll two_pages ''a'' DefaultPageTimeout 1 ?s) = Inl e"
    by (simp add: FetchAll_def fetchAll_def eval_nat_numeral two_pages_fetch)
  moreover obtain s2 where "FetchAll two_pages ''a'' DefaultPageTimeout 2 ?s = (Inr [sample_row\<lparr>ri_ReservationTerm := ''3 Years''\<rparr>, sample_row], s2)"
    using two_pages_items [of ?s] by (cases "FetchAll two_pages ''a'' DefaultPageTimeout 2 ?s") auto
  ultimately show ?thesis
    using catalog_is_whole_or_error [of two_pages "''a''" DefaultPageTimeout 1 ?s]
      catalog_is_whole_or_error [of two_pages "''a''" DefaultPageTimeout 2 ?s] by fastforce
qed

section \<open>What a price lookup promises\<close>

text \<open>The rows of the catalog that name the SKU and the region a lookup is asked for.\<close>

definition vm_row :: "go_string \<Rightarrow> go_string \<Rightarrow> RetailPriceItem \<Rightarrow> bool" where
  "vm_row sku region i \<longleftrightarrow> ri_ServiceName i = ''Virtual Machines'' \<and> ri_ArmRegionName i = region \<and> ri_ArmSKUName i = sku
     \<and> matchesVMReservationProduct i"

definition sql_row :: "go_string \<Rightarrow> go_string \<Rightarrow> RetailPriceItem \<Rightarrow> bool" where
  "sql_row sku region i \<longleftrightarrow> ri_ServiceName i = ''SQL Database'' \<and> ri_ArmRegionName i = region \<and> ri_ArmSKUName i = sku"

definition search_row :: "go_string \<Rightarrow> go_string \<Rightarrow> RetailPriceItem \<Rightarrow> bool" where
  "search_row sku region i \<longleftrightarrow> ri_ServiceName i = ''Azure Cognitive Search'' \<and> ri_ArmRegionName i = region
     \<and> map_of searchDisplaySKUs sku = Some (ri_SKUName i)"

definition synapse_row :: "go_string \<Rightarrow> go_string \<Rightarrow> RetailPriceItem \<Rightarrow> bool" where
  "synapse_row sku region i \<longleftrightarrow> ri_ServiceName i = ''Azure Synapse Analytics'' \<and> ri_ProductName i = synapse_product
     \<and> ri_ArmRegionName i = region \<and> ri_SKUName i = sku"

definition cosmos_row :: "go_string \<Rightarrow> go_string \<Rightarrow> RetailPriceItem \<Rightarrow> bool" where
  "cosmos_row sku region i \<longleftrightarrow> ri_ServiceName i = ''Azure Cosmos DB'' \<and> ri_ArmRegionName i = ''Global'' \<and> cosmos_sku sku = Inr (ri_ArmSKUName i)"

definition redis_row :: "go_string \<Rightarrow> go_string \<Rightarrow> RetailPriceItem \<Rightarrow> bool" where
  "redis_row sku region i \<longleftrightarrow> (case ParseRedisIdentity sku of Inl e \<Rightarrow> False | Inr d \<Rightarrow> redis_Matches d region i)"

lemmas row_defs = vm_row_def sql_row_def search_row_def synapse_row_def cosmos_row_def redis_row_def

text \<open>Each lookup with its rows.\<close>

definition price_contracts :: "('w price_lookup \<times> (go_string \<Rightarrow> go_string \<Rightarrow> RetailPriceItem \<Rightarrow> bool)) list" where
  "price_contracts = [(getVMPricing, vm_row), (getSQLPricing, sql_row), (getSearchPricing, search_row), (getSynapsePricing, synapse_row),
     (getCosmosPricing, cosmos_row), (cache_getRedisPricing, redis_row), (managedredis_getRedisPricing, redis_row)]"

definition fetch_failed :: "go_error \<Rightarrow> bool" where
  "fetch_failed = err_is ''retail prices fetch failed''"

lemma fetch_failed_simps [simp]:
  "\<not> fetch_failed (errorf f as)" "fetch_failed (wrapf f as ws) \<longleftrightarrow> (\<exists>w\<in>set ws. fetch_failed w)"
  by (simp_all add: fetch_failed_def)

lemma ODataString_error: "ODataString v = Inl e \<Longrightarrow> \<not> fetch_failed e"
  by (auto simp: ODataString_def split: if_splits)

lemma select_loop_error: "select_loop t m o1 is = Inl e \<Longrightarrow> \<not> fetch_failed e"
  by (induction t m o1 "is" rule: select_loop.induct)
     (auto simp: normalizeReservation_def split: if_splits sum.splits option.splits)

lemma SelectReservation_error: "SelectReservation is y m = Inl e \<Longrightarrow> \<not> fetch_failed e"
  by (auto simp: SelectReservation_def Let_def dest: select_loop_error split: sum.splits option.splits)

lemma FetchAll_error: "fst (FetchAll env url t n s) = Inl e \<Longrightarrow> fetch_failed e"
  by (auto simp: FetchAll_def ErrFetch_def fetch_failed_def split: prod.splits sum.splits)

text \<open>
  The contract of one lookup: a price is that of a row of the whole catalog it names; an error is a fetch failure exactly
  when the walk failed, and not when the SKU was refused before it or no row of the catalog can be quoted.
\<close>

definition honours :: "'w price_env \<Rightarrow> int \<Rightarrow> (RetailPriceItem \<Rightarrow> bool) \<Rightarrow> 'w az_state \<Rightarrow> (go_error + azure_pricing) \<times> 'w az_state \<Rightarrow> bool" where
  "honours env y names s r \<longleftrightarrow> (case r of
     (Inr p, s') \<Rightarrow> (\<exists>url items i. FetchAll env url DefaultPageTimeout DefaultMaxPages s = (Inr items, s') \<and> i \<in> set items \<and> names i
        \<and> ri_Type i = ''Reservation'' \<and> ri_ReservationTerm i = term_text y
        \<and> (\<exists>x. ri_RetailPrice i = Fin x \<and> 0 < x) \<and> ri_CurrencyCode i \<noteq> [] \<and> p = quote_price i y)
   | (Inl e, s') \<Rightarrow> (s' = s \<and> \<not> fetch_failed e)
        \<or> (\<exists>url e'. FetchAll env url DefaultPageTimeout DefaultMaxPages s = (Inl e', s') \<and> fetch_failed e)
        \<or> (\<exists>url items. FetchAll env url DefaultPageTimeout DefaultMaxPages s = (Inr items, s') \<and> \<not> fetch_failed e))"

lemma honours_early: "\<not> fetch_failed e \<Longrightarrow> honours env y names s (Inl e, s)"
  by (simp add: honours_def)

lemma quote_price_hour: "quote_price (i\<lparr>ri_UnitOfMeasure := u\<rparr>) y = quote_price i y"
  by (simp add: quote_price_def)

lemma lookup_honours:
  assumes names: "\<And>i. m i \<Longrightarrow> names i" and wfetch: "\<And>e. fetch_failed e \<Longrightarrow> fetch_failed (wrap_f e)"
    and wsel: "\<And>e. \<not> fetch_failed e \<Longrightarrow> \<not> fetch_failed (wrap_s e)" and nr: "\<And>e. nr = Some e \<Longrightarrow> \<not> fetch_failed e"
  shows "honours env y names s (lookup_price env flt m y wrap_f wrap_s nr s)"
proof (cases "FetchAll env (retail_url flt) DefaultPageTimeout DefaultMaxPages s")
  case (Pair r s')
  show ?thesis
  proof (cases r)
    case (Inl e)
    with Pair have "fetch_failed e" using FetchAll_error [of env "retail_url flt" DefaultPageTimeout DefaultMaxPages s e] by simp
    then show ?thesis using Inl Pair wfetch by (auto simp: honours_def lookup_price_def fetchAzurePricing_def)
  next
    case (Inr items)
    show ?thesis
    proof (cases "if items = [] then nr else None")
      case (Some e)
      with Inr Pair nr [of e] show ?thesis
        by (auto simp: honours_def lookup_price_def fetchAzurePricing_def split: if_splits)
    next
      case None
      show ?thesis
      proof (cases "SelectReservation items y m")
        case (Inl e)
        then have "\<not> fetch_failed (wrap_s e)" by (intro wsel SelectReservation_error)
        with Inl None Inr Pair show ?thesis by (auto simp: honours_def lookup_price_def fetchAzurePricing_def)
      next
        case q: (Inr q)
        from quote_is_row [OF q] obtain i where "i \<in> set items" "eligible y m i" "q = i\<lparr>ri_UnitOfMeasure := ''1 Hour''\<rparr>"
          "ri_CurrencyCode q \<noteq> []" "\<exists>x. ri_RetailPrice q = Fin x \<and> 0 < x" by blast
        then have "i \<in> set items \<and> names i \<and> ri_Type i = ''Reservation'' \<and> ri_ReservationTerm i = term_text y
            \<and> (\<exists>x. ri_RetailPrice i = Fin x \<and> 0 < x) \<and> ri_CurrencyCode i \<noteq> [] \<and> quote_price q y = quote_price i y"
          using names by (auto simp: eligible_def quote_price_hour)
        with q None Inr Pair show ?thesis
          unfolding honours_def lookup_price_def fetchAzurePricing_def by (simp, blast)
      qed
    qed
  qed
qed

lemma odata_honours: "(\<And>q. ODataString v = Inr q \<Longrightarrow> honours env y names s (f q)) \<Longrightarrow>
    honours env y names s (case ODataString v of Inl e \<Rightarrow> (Inl e, s) | Inr q \<Rightarrow> f q)"
  by (auto intro: honours_early dest: ODataString_error split: sum.splits)

lemma cosmos_sku_error: "cosmos_sku sku = Inl e \<Longrightarrow> \<not> fetch_failed e"
  by (auto simp: cosmos_sku_def split: if_splits)

lemma ParseRedisIdentity_error: "ParseRedisIdentity sku = Inl e \<Longrightarrow> \<not> fetch_failed e"
  by (auto simp: ParseRedisIdentity_def Let_def split: if_splits option.splits prod.splits)

lemma redis_honours:
  assumes "\<And>e. fetch_failed e \<Longrightarrow> fetch_failed (wrap_f e)"
  shows "honours env y (redis_row sku region) s (redis_pricing wrap_f env sku region y s)"
proof (cases "ParseRedisIdentity sku")
  case (Inl e)
  then show ?thesis by (simp add: redis_pricing_def honours_early ParseRedisIdentity_error)
next
  case (Inr d)
  show ?thesis unfolding redis_pricing_def Inr sum.case
    by (intro odata_honours lookup_honours) (auto simp: assms redis_row_def Inr)
qed

lemma vm_honours: "honours env y (vm_row sku region) s (getVMPricing env sku region y s)"
  unfolding getVMPricing_def by (intro odata_honours lookup_honours) (auto simp: vm_row_def)

lemma sql_honours: "honours env y (sql_row sku region) s (getSQLPricing env sku region y s)"
  unfolding getSQLPricing_def by (intro odata_honours lookup_honours) (auto simp: sql_row_def)

lemma search_honours: "honours env y (search_row sku region) s (getSearchPricing env sku region y s)"
proof (cases "map_of searchDisplaySKUs sku")
  case None
  then show ?thesis by (simp add: getSearchPricing_def honours_early)
next
  case (Some d)
  show ?thesis unfolding getSearchPricing_def Some option.case
    by (intro odata_honours lookup_honours) (auto simp: search_row_def Some)
qed

lemma synapse_honours: "honours env y (synapse_row sku region) s (getSynapsePricing env sku region y s)"
  unfolding getSynapsePricing_def by (intro odata_honours lookup_honours) (auto simp: synapse_row_def)

lemma cosmos_honours: "honours env y (cosmos_row sku region) s (getCosmosPricing env sku region y s)"
proof (cases "cosmos_sku sku")
  case (Inl e)
  then show ?thesis by (simp add: getCosmosPricing_def honours_early cosmos_sku_error)
next
  case (Inr d)
  show ?thesis unfolding getCosmosPricing_def Inr sum.case
    by (intro odata_honours lookup_honours) (auto simp: cosmos_row_def Inr)
qed

lemmas lookups_honour = vm_honours sql_honours search_honours synapse_honours cosmos_honours redis_honours

text \<open>Every Azure price comes from the catalog: for each of the seven lookups of the service clients, a price it answers is
  that of a row of the completely read catalog, for the asked SKU, region and term, a reservation row with a named currency
  and a positive finite price, and the hourly rate is that price over the hours of the term; and an error is a fetch failure
  (the collection is unreliable) exactly when the catalog walk failed, never because one SKU has no usable price.\<close>

theorem prices_come_from_the_catalog:
  "list_all (\<lambda>(get, names). honours env y (names sku region) s (get env sku region y s)) price_contracts"
  by (simp add: price_contracts_def cache_getRedisPricing_def managedredis_getRedisPricing_def lookups_honour)

end
