(* ===== verification/Az_Recs.thy ===== *)
theory Az_Recs
  imports Az_Prices
begin

text \<open>
  From Azure's reservation recommendations to priced recommendations
  (\<open>providers/azure/internal/recommendations\<close>): the two shapes of the response, the scaling of their amounts to
  months, the price cache of a collection, the two payment variants, and the log of what was skipped. Pointers
  of the SDK structs are options; warnings are not modelled.
\<close>

section \<open>The response of the Consumption API (converter.go)\<close>

type_synonym sku_property = "(go_string option \<times> go_string option) option"

record amount =
  am_Value :: "float64 option"
  am_Currency :: "go_string option"

text \<open>\<open>RecommendedQuantityNormalized\<close> is a \<open>float32\<close>; its value is exact as a \<open>float64\<close>.\<close>

record legacy_props =
  lp_SKUProperties :: "sku_property list"
  lp_NormalizedSize :: "go_string option"
  lp_RecommendedQuantity :: "float64 option"
  lp_RecommendedQuantityNormalized :: "float64 option"
  lp_Term :: "go_string option"
  lp_Scope :: "go_string option"
  lp_LookBackPeriod :: "go_string option"
  lp_CostWithNoReservedInstances :: "float64 option"
  lp_TotalCostWithReservedInstances :: "float64 option"
  lp_NetSavings :: "float64 option"

record modern_props =
  mp_Location :: "go_string option"
  mp_SKUName :: "go_string option"
  mp_SKUProperties :: "sku_property list"
  mp_NormalizedSize :: "go_string option"
  mp_RecommendedQuantity :: "float64 option"
  mp_RecommendedQuantityNormalized :: "float64 option"
  mp_Term :: "go_string option"
  mp_Scope :: "go_string option"
  mp_LookBackPeriod :: "int option"
  mp_CostWithNoReservedInstances :: "amount option"
  mp_TotalCostWithReservedInstances :: "amount option"
  mp_NetSavings :: "amount option"

text \<open>
  A value of the SDK's interface: a pointer to either struct, each with its location and its properties, or
  some other type; a \<open>nil\<close> interface is the \<open>None\<close> of an option around it.
\<close>

datatype reservation_rec = LegacyRec "(go_string option \<times> legacy_props option) option"
  | ModernRec "(go_string option \<times> modern_props option) option" | OtherRec

record ExtractedFields =
  xf_RecurringMonthlyCost :: "float64 option"
  xf_Region :: go_string
  xf_ResourceType :: go_string
  xf_Term :: go_string
  xf_Scope :: go_string
  xf_Count :: int
  xf_OnDemandCost :: float64
  xf_CommitmentCost :: float64
  xf_EstimatedSavings :: float64
  xf_LookBackDays :: int

fun strDeref :: "go_string option \<Rightarrow> go_string" where
  "strDeref None = []"
| "strDeref (Some s) = s"

definition or_zero :: "float64 option \<Rightarrow> float64" where
  "or_zero v = (case v of None \<Rightarrow> 0 | Some x \<Rightarrow> x)"

definition deriveCoveredMonthlyCost :: "float64 option \<Rightarrow> float64 option \<Rightarrow> float64 option \<Rightarrow> float64 option" where
  "deriveCoveredMonthlyCost totalWithRI onDemand netSavings = (case totalWithRI of
     Some t \<Rightarrow> Some t
   | None \<Rightarrow> (case (onDemand, netSavings) of (Some d, Some n) \<Rightarrow> Some (d - n) | _ \<Rightarrow> None))"

fun named_sku :: "sku_property list \<Rightarrow> go_string option" where
  "named_sku [] = None"
| "named_sku (None # skus) = named_sku skus"
| "named_sku (Some (name, v) # skus) =
    (if strDeref name \<in> {''SKUName'', ''skuName''} \<and> strDeref v \<noteq> [] then Some (strDeref v) else named_sku skus)"

fun first_sku_value :: "sku_property list \<Rightarrow> go_string" where
  "first_sku_value [] = []"
| "first_sku_value (None # skus) = first_sku_value skus"
| "first_sku_value (Some (name, v) # skus) = (if strDeref v \<noteq> [] then strDeref v else first_sku_value skus)"

definition resourceTypeFromSKUProperties :: "sku_property list \<Rightarrow> go_string" where
  "resourceTypeFromSKUProperties skus = (case named_sku skus of Some s \<Rightarrow> s | None \<Rightarrow> first_sku_value skus)"

definition resolveLegacySKUAndQuantity :: "legacy_props \<Rightarrow> go_string \<times> float64 option" where
  "resolveLegacySKUAndQuantity props =
    (let s = resourceTypeFromSKUProperties (lp_SKUProperties props); normalized = strDeref (lp_NormalizedSize props)
     in if s \<noteq> [] then (s, lp_RecommendedQuantity props)
        else if normalized \<noteq> [] then (normalized, lp_RecommendedQuantityNormalized props)
        else ([], lp_RecommendedQuantity props))"

definition resolveModernSKUAndQuantity :: "modern_props \<Rightarrow> go_string \<times> float64 option" where
  "resolveModernSKUAndQuantity props =
    (let s = strDeref (mp_SKUName props); normalized = strDeref (mp_NormalizedSize props)
     in if s \<noteq> [] then (s, mp_RecommendedQuantity props)
        else if normalized \<noteq> [] then (normalized, mp_RecommendedQuantityNormalized props)
        else (resourceTypeFromSKUProperties (mp_SKUProperties props), mp_RecommendedQuantity props))"

definition normaliseTerm :: "go_string option \<Rightarrow> go_string" where
  "normaliseTerm t = (case t of None \<Rightarrow> ''1yr'' | Some s \<Rightarrow>
     if s = [] then ''1yr'' else if s = ''P1Y'' then ''1yr'' else if s = ''P3Y'' then ''3yr'' else s)"

definition amountValuePtr :: "amount option \<Rightarrow> float64 option" where
  "amountValuePtr a = (case a of None \<Rightarrow> None | Some am \<Rightarrow> am_Value am)"

text \<open>\<open>ovf\<close> is the machine's answer to the conversion of a quantity that does not fit in an \<open>int\<close>.\<close>

definition extractLegacy :: "int \<Rightarrow> (go_string option \<times> legacy_props option) option \<Rightarrow> ExtractedFields option" where
  "extractLegacy ovf rec = (case rec of None \<Rightarrow> None | Some (location, None) \<Rightarrow> None
   | Some (location, Some props) \<Rightarrow> (case resolveLegacySKUAndQuantity props of (resourceType, quantity) \<Rightarrow>
       Some \<lparr>xf_RecurringMonthlyCost = deriveCoveredMonthlyCost (lp_TotalCostWithReservedInstances props)
               (lp_CostWithNoReservedInstances props) (lp_NetSavings props),
         xf_Region = strDeref location, xf_ResourceType = resourceType, xf_Term = normaliseTerm (lp_Term props),
         xf_Scope = strDeref (lp_Scope props), xf_Count = (case quantity of None \<Rightarrow> 0 | Some q \<Rightarrow> to_i64 ovf q),
         xf_OnDemandCost = or_zero (lp_CostWithNoReservedInstances props),
         xf_CommitmentCost = or_zero (lp_TotalCostWithReservedInstances props),
         xf_EstimatedSavings = or_zero (lp_NetSavings props), xf_LookBackDays = 0\<rparr>))"

definition extractModern :: "int \<Rightarrow> (go_string option \<times> modern_props option) option \<Rightarrow> ExtractedFields option" where
  "extractModern ovf rec = (case rec of None \<Rightarrow> None | Some (location, None) \<Rightarrow> None
   | Some (location, Some props) \<Rightarrow> (case resolveModernSKUAndQuantity props of (resourceType, quantity) \<Rightarrow>
       let region = (if strDeref location = [] then strDeref (mp_Location props) else strDeref location);
           onDemand = amountValuePtr (mp_CostWithNoReservedInstances props);
           total = amountValuePtr (mp_TotalCostWithReservedInstances props);
           netSavings = amountValuePtr (mp_NetSavings props)
       in Some \<lparr>xf_RecurringMonthlyCost = deriveCoveredMonthlyCost total onDemand netSavings,
         xf_Region = region, xf_ResourceType = resourceType, xf_Term = normaliseTerm (mp_Term props),
         xf_Scope = strDeref (mp_Scope props), xf_Count = (case quantity of None \<Rightarrow> 0 | Some q \<Rightarrow> to_i64 ovf q),
         xf_OnDemandCost = or_zero onDemand, xf_CommitmentCost = or_zero total,
         xf_EstimatedSavings = or_zero netSavings, xf_LookBackDays = 0\<rparr>))"

fun Extract :: "int \<Rightarrow> reservation_rec option \<Rightarrow> ExtractedFields option" where
  "Extract ovf None = None"
| "Extract ovf (Some (LegacyRec v)) = extractLegacy ovf v"
| "Extract ovf (Some (ModernRec v)) = extractModern ovf v"
| "Extract ovf (Some OtherRec) = None"

definition ExpandPaymentVariants :: "Recommendation \<Rightarrow> Recommendation list" where
  "ExpandPaymentVariants base =
    (let totalReservation = r_CommitmentCost base; totalOnDemand = r_OnDemandCost base;
         savings = (if \<not> feq totalOnDemand 0 \<and> \<not> feq totalReservation 0 then totalOnDemand - totalReservation
           else r_EstimatedSavings base);
         savingsPct = (if \<not> feq totalOnDemand 0 then fdiv savings totalOnDemand * Fin 100 else 0);
         variant = (\<lambda>payment recurring. base\<lparr>r_PaymentOption := payment, r_EstimatedSavings := savings,
           r_SavingsPercentage := savingsPct, r_RecurringMonthlyCost := recurring\<rparr>)
     in [variant ''upfront'' (map_option (\<lambda>_. 0) (r_RecurringMonthlyCost base)),
         variant ''monthly'' (r_RecurringMonthlyCost base)])"

section \<open>Scaling to months (consumption.go)\<close>

definition DaysPerMonth :: float64 where
  "DaysPerMonth = Fin (487 / 16)"

definition consumptionLookBack :: go_string where
  "consumptionLookBack = ''Last7Days''"

definition currencyUSD :: go_string where
  "currencyUSD = ''USD''"

definition ErrNotUSD :: go_error where
  "ErrNotUSD = Sentinel ''recommendation amounts are not denominated in USD''"

definition RequireUSDCode :: "go_string \<Rightarrow> go_error option" where
  "RequireUSDCode code =
    (if \<not> equal_fold code currencyUSD then Some (wrapf ''%w: currencyCode %q'' [ArgS (err_text ErrNotUSD), ArgS code] [ErrNotUSD]) else None)"

definition ConsumptionFilter :: "go_string \<Rightarrow> go_string" where
  "ConsumptionFilter resourceType = concat [''properties/scope eq '', literal ''Shared'', '' and properties/resourceType eq '',
     literal resourceType, '' and properties/lookBackPeriod eq '', literal consumptionLookBack]"

definition requireUSDAmount :: "go_string \<Rightarrow> amount option \<Rightarrow> go_error option" where
  "requireUSDAmount name a =
    (if amountValuePtr a = None then Some (errorf ''missing %s'' [ArgS name])
     else case a of None \<Rightarrow> None | Some am \<Rightarrow> (case am_Currency am of
         Some c \<Rightarrow> if equal_fold c currencyUSD then None
           else Some (errorf ''%s currency %q is not %s'' [ArgS name, ArgS c, ArgS currencyUSD])
       | None \<Rightarrow> Some (errorf ''%s currency %q is not %s'' [ArgS name, ArgS [], ArgS currencyUSD])))"

definition parseLegacyLookBack :: "go_string option \<Rightarrow> go_error + int" where
  "parseLegacyLookBack s = (if strDeref s = [] then Inl (errorf ''missing lookBackPeriod'' [])
     else if strDeref s = ''Last7Days'' then Inr 7
     else if strDeref s = ''Last30Days'' then Inr 30
     else if strDeref s = ''Last60Days'' then Inr 60
     else Inl (errorf ''unknown lookBackPeriod %q'' [ArgS (strDeref s)]))"

definition checkLookBackDays :: "int option \<Rightarrow> go_error + int" where
  "checkLookBackDays d = (case d of None \<Rightarrow> Inl (errorf ''missing lookBackPeriod'' [])
   | Some n \<Rightarrow> if n \<in> {7, 30, 60} then Inr n else Inl (errorf ''unknown lookBackPeriod %d'' [ArgI n]))"

text \<open>The metadata: the look-back days and whether a term was present.\<close>

definition legacyMeta :: "legacy_props \<Rightarrow> go_error + int \<times> bool" where
  "legacyMeta props =
    (if lp_CostWithNoReservedInstances props = None \<or> lp_TotalCostWithReservedInstances props = None then
       Inl (errorf ''missing CostWithNoReservedInstances or TotalCostWithReservedInstances'' [])
     else map_sum id (\<lambda>days. (days, strDeref (lp_Term props) \<noteq> [])) (parseLegacyLookBack (lp_LookBackPeriod props)))"

definition modernMeta :: "modern_props \<Rightarrow> go_error + int \<times> bool" where
  "modernMeta props = (case requireUSDAmount ''CostWithNoReservedInstances'' (mp_CostWithNoReservedInstances props) of
     Some e \<Rightarrow> Inl e
   | None \<Rightarrow> (case requireUSDAmount ''TotalCostWithReservedInstances'' (mp_TotalCostWithReservedInstances props) of
       Some e \<Rightarrow> Inl e
     | None \<Rightarrow> map_sum id (\<lambda>days. (days, strDeref (mp_Term props) \<noteq> [])) (checkLookBackDays (mp_LookBackPeriod props))))"

text \<open>Called when \<open>Extract\<close> has succeeded, so the properties are there.\<close>

fun consumptionMeta :: "reservation_rec option \<Rightarrow> go_error + int \<times> bool" where
  "consumptionMeta (Some (LegacyRec (Some (location, Some props)))) = legacyMeta props"
| "consumptionMeta (Some (ModernRec (Some (location, Some props)))) = modernMeta props"
| "consumptionMeta rec = Inl (errorf ''unsupported recommendation type'' [])"

definition TermYears :: "go_string \<Rightarrow> go_error + int" where
  "TermYears t = (if t = ''1yr'' then Inr 1 else if t = ''3yr'' then Inr 3 else Inl (errorf ''unrecognized term %q'' [ArgS t]))"

definition ExtractConsumption :: "int \<Rightarrow> reservation_rec option \<Rightarrow> go_error + ExtractedFields option" where
  "ExtractConsumption ovf rec = (case Extract ovf rec of None \<Rightarrow> Inr None
   | Some f \<Rightarrow>
       let about = (\<lambda>e. wrapf ''recommendation for %q in %q: %w'' [ArgS (xf_ResourceType f), ArgS (xf_Region f), ArgS (err_text e)] [e])
       in (case consumptionMeta rec of Inl e \<Rightarrow> Inl (about e)
       | Inr (lookBackDays, termPresent) \<Rightarrow> (case TermYears (xf_Term f) of Inl e \<Rightarrow> Inl (about e)
         | Inr _ \<Rightarrow>
             if \<not> termPresent then Inl (errorf ''recommendation for %q in %q: missing term'' [ArgS (xf_ResourceType f), ArgS (xf_Region f)])
             else let scale = fdiv DaysPerMonth (float_of_int lookBackDays);
                      rawOnDemand = xf_OnDemandCost f; rawTotal = xf_CommitmentCost f
                  in Inr (Some (f\<lparr>xf_OnDemandCost := rawOnDemand * scale, xf_EstimatedSavings := (rawOnDemand - rawTotal) * scale,
                       xf_CommitmentCost := 0, xf_RecurringMonthlyCost := None, xf_LookBackDays := lookBackDays\<rparr>)))))"

section \<open>The price cache of a collection\<close>

record ReservationPrice =
  vp_Currency :: go_string
  vp_Total :: float64

record priceKey =
  pk_resourceType :: go_string
  pk_region :: go_string
  pk_termYears :: int

type_synonym 's PriceFunc = "go_string \<Rightarrow> go_string \<Rightarrow> int \<Rightarrow> 's \<Rightarrow> (go_error + ReservationPrice) \<times> 's"
type_synonym priceResult = "go_error + float64"

text \<open>
  The state of a collection: the world its lookups and catalogs live in, the cache of its \<open>Pricer\<close>, and the
  \<open>SkipLog\<close> of its context (reasons with their kinds), if the context carries one.
\<close>

type_synonym skip = "go_string \<times> go_string"

record 's collection =
  co_world :: 's
  co_cache :: "priceKey \<rightharpoonup> priceResult"
  co_skips :: "skip list option"

record 's Pricer =
  pc_service :: go_string
  pc_lookup :: "'s PriceFunc"

definition context_Canceled :: go_error where
  "context_Canceled = Sentinel ''context canceled''"

definition context_DeadlineExceeded :: go_error where
  "context_DeadlineExceeded = Sentinel ''context deadline exceeded''"

definition IsCollectionFailure :: "go_error \<Rightarrow> bool" where
  "IsCollectionFailure e \<longleftrightarrow> err_is ''retail prices fetch failed'' e \<or> err_is ''context canceled'' e \<or> err_is ''context deadline exceeded'' e"

definition key_args :: "go_string \<Rightarrow> priceKey \<Rightarrow> fmt_arg list" where
  "key_args service key = [ArgS service, ArgS (pk_resourceType key), ArgS (pk_region key), ArgI (pk_termYears key)]"

definition resolve_price :: "'s Pricer \<Rightarrow> priceKey \<Rightarrow> 's \<Rightarrow> priceResult \<times> 's" where
  "resolve_price p key s = (case pc_lookup p (pk_resourceType key) (pk_region key) (pk_termYears key) s of
     (Inl e, s') \<Rightarrow> (Inl (wrapf ''%s reservation price for %q in %q (%dy): %w'' (key_args (pc_service p) key @ [ArgS (err_text e)]) [e]), s')
   | (Inr rp, s') \<Rightarrow>
       (if \<not> equal_fold (vp_Currency rp) currencyUSD then
          Inl (errorf ''%s reservation price for %q in %q (%dy) is in %q, not %s''
            (key_args (pc_service p) key @ [ArgS (vp_Currency rp), ArgS currencyUSD]))
        else if vp_Total rp \<le> 0 then
          Inl (errorf ''%s reservation price for %q in %q (%dy) is not positive: %v'' (key_args (pc_service p) key @ [ArgF (vp_Total rp)]))
        else Inr (vp_Total rp), s'))"

definition collection_failed :: "priceResult \<Rightarrow> bool" where
  "collection_failed r \<longleftrightarrow> (case r of Inl e \<Rightarrow> IsCollectionFailure e | Inr _ \<Rightarrow> False)"

definition UnitPrice :: "'s Pricer \<Rightarrow> go_string \<Rightarrow> go_string \<Rightarrow> int \<Rightarrow> 's collection \<Rightarrow> priceResult \<times> 's collection" where
  "UnitPrice p resourceType region termYears s =
    (let key = \<lparr>pk_resourceType = resourceType, pk_region = region, pk_termYears = termYears\<rparr> in
     case co_cache s key of Some r \<Rightarrow> (r, s)
     | None \<Rightarrow> (case resolve_price p key (co_world s) of (r, w) \<Rightarrow>
         (r, s\<lparr>co_world := w, co_cache := (if collection_failed r then co_cache s else (co_cache s)(key \<mapsto> r))\<rparr>)))"

section \<open>Payment variants\<close>

definition consumption_variants :: "Recommendation \<Rightarrow> int \<Rightarrow> float64 \<Rightarrow> Recommendation list" where
  "consumption_variants base years unit =
    (let total = float_of_int (r_Count base) * unit;
         savingsPct = (if \<not> feq (r_OnDemandCost base) 0 then fdiv (r_EstimatedSavings base) (r_OnDemandCost base) * Fin 100 else 0);
         usd = base\<lparr>r_CommitmentCurrency := currencyUSD\<rparr>
     in [usd\<lparr>r_PaymentOption := ''upfront'', r_CommitmentCost := total, r_RecurringMonthlyCost := Some 0, r_SavingsPercentage := savingsPct\<rparr>,
         usd\<lparr>r_PaymentOption := ''monthly'', r_CommitmentCost := 0,
           r_RecurringMonthlyCost := Some (fdiv total (float_of_int (years * 12))), r_SavingsPercentage := savingsPct\<rparr>])"

definition ExpandConsumptionVariants :: "Recommendation \<Rightarrow> 's Pricer \<Rightarrow> 's collection \<Rightarrow> (go_error + Recommendation list) \<times> 's collection" where
  "ExpandConsumptionVariants base p s = (case TermYears (r_Term base) of
     Inl e \<Rightarrow> (Inl e, s)
   | Inr years \<Rightarrow>
       if r_Count base \<le> 0 then
         (Inl (errorf ''recommendation for %q in %q has non-positive count %d''
            [ArgS (r_ResourceType base), ArgS (r_Region base), ArgI (r_Count base)]), s)
       else (case UnitPrice p (r_ResourceType base) (r_Region base) years s of
         (Inl e, s') \<Rightarrow> (Inl e, s')
       | (Inr unit, s') \<Rightarrow> (Inr (consumption_variants base years unit), s')))"

section \<open>What was skipped\<close>

definition SkipUnpriceable :: go_string where
  "SkipUnpriceable = ''unpriceable''"

definition SkipPriceLookupUnavailable :: go_string where
  "SkipPriceLookupUnavailable = ''price_lookup_unavailable''"

definition SkipSourceIncomplete :: go_string where
  "SkipSourceIncomplete = ''source_incomplete''"

definition RecordSkipKind :: "go_string \<Rightarrow> go_string \<Rightarrow> go_error \<Rightarrow> 's collection \<Rightarrow> 's collection" where
  "RecordSkipKind service kind e s = s\<lparr>co_skips := map_option (\<lambda>l. l @ [(sprintf ''%s: %v'' [ArgS service, ArgS (err_text e)], kind)]) (co_skips s)\<rparr>"

definition RecordSkip :: "go_string \<Rightarrow> go_error \<Rightarrow> 's collection \<Rightarrow> 's collection" where
  "RecordSkip service e s = RecordSkipKind service (if IsCollectionFailure e then SkipPriceLookupUnavailable else SkipUnpriceable) e s"

record PartialResultError =
  pe_Skipped :: "go_string list"
  pe_Kinds :: "go_string list"

definition SkipKinds :: "PartialResultError \<Rightarrow> go_string list" where
  "SkipKinds e = map (\<lambda>i. if i < length (pe_Kinds e) \<and> pe_Kinds e ! i \<noteq> [] then pe_Kinds e ! i else SkipUnpriceable) [0 ..< length (pe_Skipped e)]"

definition PartialResultError_Error :: "PartialResultError \<Rightarrow> go_string" where
  "PartialResultError_Error e = sprintf ''azure recommendations: %d recommendation(s) skipped: %s''
     [ArgI (int (length (pe_Skipped e))), ArgS (join_with ''; '' (pe_Skipped e))]"

definition ExtractConsumptionOrSkip :: "int \<Rightarrow> go_string \<Rightarrow> reservation_rec option \<Rightarrow> 's collection \<Rightarrow> ExtractedFields option \<times> 's collection" where
  "ExtractConsumptionOrSkip ovf service rec s = (case ExtractConsumption ovf rec of
     Inl e \<Rightarrow> (None, RecordSkip service e s)
   | Inr f \<Rightarrow> (f, s))"

definition AppendConsumptionVariants :: "go_string \<Rightarrow> Recommendation list \<Rightarrow> Recommendation \<Rightarrow> 's Pricer \<Rightarrow> 's collection
    \<Rightarrow> (Recommendation list \<times> go_error option) \<times> 's collection" where
  "AppendConsumptionVariants service recs base p s = (case ExpandConsumptionVariants base p s of
     (Inl e, s') \<Rightarrow>
       if IsCollectionFailure e then ((recs, Some (wrapf ''azure %s: %w'' [ArgS service, ArgS (err_text e)] [e])), s')
       else ((recs, None), RecordSkip service e s')
   | (Inr variants, s') \<Rightarrow> ((recs @ variants, None), s'))"

section \<open>What an extracted recommendation says\<close>

definition usd_amount :: "amount option \<Rightarrow> bool" where
  "usd_amount a \<longleftrightarrow> (case a of None \<Rightarrow> False | Some am \<Rightarrow> am_Value am \<noteq> None
     \<and> (case am_Currency am of None \<Rightarrow> False | Some c \<Rightarrow> equal_fold c ''USD''))"

text \<open>
  What a row says, by its shape: its on-demand cost and its total with the reservation over the window (a modern row in USD),
  the days of its window, and its term.
\<close>

fun row_amounts :: "reservation_rec option \<Rightarrow> (float64 \<times> float64) option" where
  "row_amounts (Some (LegacyRec (Some (location, Some props)))) =
     (case (lp_CostWithNoReservedInstances props, lp_TotalCostWithReservedInstances props) of (Some od, Some tot) \<Rightarrow> Some (od, tot) | _ \<Rightarrow> None)"
| "row_amounts (Some (ModernRec (Some (location, Some props)))) =
     (case (mp_CostWithNoReservedInstances props, mp_TotalCostWithReservedInstances props) of (Some a, Some b) \<Rightarrow>
        if usd_amount (Some a) \<and> usd_amount (Some b) then Some (the (am_Value a), the (am_Value b)) else None
      | _ \<Rightarrow> None)"
| "row_amounts rec = None"

fun row_window :: "reservation_rec option \<Rightarrow> int option" where
  "row_window (Some (LegacyRec (Some (location, Some props)))) =
     (case lp_LookBackPeriod props of None \<Rightarrow> None | Some p \<Rightarrow> map_of [(''Last7Days'', 7), (''Last30Days'', 30), (''Last60Days'', 60)] p)"
| "row_window (Some (ModernRec (Some (location, Some props)))) = mp_LookBackPeriod props"
| "row_window rec = None"

fun row_term :: "reservation_rec option \<Rightarrow> go_string option" where
  "row_term (Some (LegacyRec (Some (location, Some props)))) = lp_Term props"
| "row_term (Some (ModernRec (Some (location, Some props)))) = mp_Term props"
| "row_term rec = None"

lemma requireUSDAmount_None: "requireUSDAmount name a = None \<longleftrightarrow> usd_amount a"
  by (auto simp: requireUSDAmount_def usd_amount_def amountValuePtr_def currencyUSD_def split: option.splits)

lemma legacyMeta_Inr: "legacyMeta props = Inr (d, tp) \<longleftrightarrow>
    row_amounts (Some (LegacyRec (Some (location, Some props)))) \<noteq> None \<and> row_window (Some (LegacyRec (Some (location, Some props)))) = Some d
    \<and> tp = (strDeref (lp_Term props) \<noteq> [])"
  by (cases "lp_LookBackPeriod props") (auto simp: legacyMeta_def parseLegacyLookBack_def split: option.splits)

lemma modernMeta_Inr: "modernMeta props = Inr (d, tp) \<longleftrightarrow>
    row_amounts (Some (ModernRec (Some (location, Some props)))) \<noteq> None \<and> row_window (Some (ModernRec (Some (location, Some props)))) = Some d
    \<and> d \<in> {7, 30, 60} \<and> tp = (strDeref (mp_Term props) \<noteq> [])"
proof (cases "usd_amount (mp_CostWithNoReservedInstances props) \<and> usd_amount (mp_TotalCostWithReservedInstances props)")
  case True
  then obtain a b where "mp_CostWithNoReservedInstances props = Some a" "mp_TotalCostWithReservedInstances props = Some b"
    by (auto simp: usd_amount_def split: option.splits)
  with True show ?thesis
    by (cases "mp_LookBackPeriod props") (auto simp: modernMeta_def requireUSDAmount_None [THEN iffD2] checkLookBackDays_def)
next
  case False
  then show ?thesis by (auto simp: modernMeta_def requireUSDAmount_None split: option.splits)
qed

lemma consumptionMeta_Inr: "consumptionMeta rec = Inr (d, tp) \<longleftrightarrow>
    row_amounts rec \<noteq> None \<and> row_window rec = Some d \<and> d \<in> {7, 30, 60} \<and> tp = (strDeref (row_term rec) \<noteq> [])"
proof (cases rec rule: consumptionMeta.cases)
  case (1 location props)
  then show ?thesis using legacyMeta_Inr [of props d tp location]
    by (auto split: option.splits if_splits dest!: map_of_SomeD)
next
  case (2 location props)
  then show ?thesis using modernMeta_Inr [of props d tp location] by auto
qed auto

lemma Extract_row:
  assumes "Extract ovf rec = Some raw"
  shows "xf_Term raw = normaliseTerm (row_term rec)
     \<and> (\<forall>od tot. row_amounts rec = Some (od, tot) \<longrightarrow> xf_OnDemandCost raw = od \<and> xf_CommitmentCost raw = tot)"
  using assms
  by (cases rec rule: row_amounts.cases)
    (auto simp: extractLegacy_def extractModern_def Let_def or_zero_def amountValuePtr_def usd_amount_def split: prod.splits option.splits if_splits)

lemma TermYears_present:
  assumes "strDeref t \<noteq> []"
  shows "(\<exists>y. TermYears (normaliseTerm t) = Inr y) \<longleftrightarrow>
     (\<exists>s. t = Some s \<and> (s, normaliseTerm t) \<in> {(''P1Y'', ''1yr''), (''1yr'', ''1yr''), (''P3Y'', ''3yr''), (''3yr'', ''3yr'')})"
  using assms by (cases t) (auto simp: TermYears_def normaliseTerm_def)

lemma consumption_iff:
  "ExtractConsumption ovf rec = Inr (Some f) \<longleftrightarrow> (\<exists>raw d. Extract ovf rec = Some raw \<and> consumptionMeta rec = Inr (d, True)
     \<and> (\<exists>y. TermYears (xf_Term raw) = Inr y)
     \<and> f = raw\<lparr>xf_OnDemandCost := xf_OnDemandCost raw * fdiv DaysPerMonth (float_of_int d),
         xf_EstimatedSavings := (xf_OnDemandCost raw - xf_CommitmentCost raw) * fdiv DaysPerMonth (float_of_int d),
         xf_CommitmentCost := 0, xf_RecurringMonthlyCost := None, xf_LookBackDays := d\<rparr>)"
  by (auto simp: ExtractConsumption_def Let_def split: option.splits sum.splits prod.splits if_splits)

text \<open>C18. A recommendation enters a collection exactly when its amounts are known and in USD, over a known window. \<open>ExtractConsumption\<close>
  returns fields exactly for a row that \<open>Extract\<close> reads, that carries both costs (a modern row in USD), whose own look-back is 7, 30
  or 60 days, and whose term is present and one or three years. The fields are then those \<open>Extract\<close> read, except that the
  look-back is the row's, the on-demand cost and the savings are the row's window amounts and their difference scaled by the
  average month over that window, and the commitment is 0 and the recurring cost absent (both come from the retail price). A row
  that \<open>Extract\<close> does not read gives nothing; every other row is refused with an error.\<close>

theorem consumption_amounts_known:
  "(ExtractConsumption ovf rec = Inr (Some f) \<longleftrightarrow> (\<exists>raw od tot d t. Extract ovf rec = Some raw \<and> row_amounts rec = Some (od, tot)
     \<and> row_window rec = Some d \<and> d \<in> {7, 30, 60} \<and> row_term rec = Some t
     \<and> (t, xf_Term raw) \<in> {(''P1Y'', ''1yr''), (''1yr'', ''1yr''), (''P3Y'', ''3yr''), (''3yr'', ''3yr'')}
     \<and> f = raw\<lparr>xf_OnDemandCost := od * fdiv DaysPerMonth (float_of_int d), xf_EstimatedSavings := (od - tot) * fdiv DaysPerMonth (float_of_int d),
         xf_CommitmentCost := 0, xf_RecurringMonthlyCost := None, xf_LookBackDays := d\<rparr>))
   \<and> (ExtractConsumption ovf rec = Inr None \<longleftrightarrow> Extract ovf rec = None)"
proof -
  have none: "ExtractConsumption ovf rec = Inr None \<longleftrightarrow> Extract ovf rec = None"
    by (auto simp: ExtractConsumption_def Let_def split: option.splits sum.splits prod.splits)
  show ?thesis
  proof (cases "Extract ovf rec")
    case None
    then show ?thesis using none by (simp add: consumption_iff)
  next
    case (Some raw)
    note row = Extract_row [OF Some]
    show ?thesis
    proof (cases "strDeref (row_term rec) = []")
      case True
      then show ?thesis using none Some by (auto simp: consumption_iff consumptionMeta_Inr)
    next
      case False
      with row TermYears_present [OF False] none Some show ?thesis
        unfolding consumption_iff consumptionMeta_Inr by (auto simp: Some)
    qed
  qed
qed

lemma usd_fold: "equal_fold ''usd'' ''USD''" "equal_fold ''USD'' ''USD''"
  by code_simp+

definition sample_modern :: modern_props where
  "sample_modern = \<lparr>mp_Location = None, mp_SKUName = Some ''Standard_D2s_v3'', mp_SKUProperties = [], mp_NormalizedSize = None,
     mp_RecommendedQuantity = Some (Fin 4), mp_RecommendedQuantityNormalized = None, mp_Term = Some ''P3Y'', mp_Scope = Some ''Shared'',
     mp_LookBackPeriod = Some 7, mp_CostWithNoReservedInstances = Some \<lparr>am_Value = Some (Fin 70), am_Currency = Some ''usd''\<rparr>,
     mp_TotalCostWithReservedInstances = Some \<lparr>am_Value = Some (Fin 42), am_Currency = Some ''USD''\<rparr>, mp_NetSavings = None\<rparr>"

theorem consumption_amounts_known_witness:
  "\<exists>f. ExtractConsumption 0 (Some (ModernRec (Some (Some ''eastus'', Some sample_modern)))) = Inr (Some f)
     \<and> xf_ResourceType f = ''Standard_D2s_v3'' \<and> xf_LookBackDays f = 7 \<and> xf_Term f = ''3yr''
     \<and> xf_OnDemandCost f = Fin 70 * fdiv DaysPerMonth (float_of_int 7)"
proof -
  let ?r = "Some (ModernRec (Some (Some ''eastus'', Some sample_modern)))"
  obtain raw where raw: "Extract 0 ?r = Some raw" "xf_Term raw = ''3yr''" "xf_ResourceType raw = ''Standard_D2s_v3''"
    by (simp add: extractModern_def resolveModernSKUAndQuantity_def sample_modern_def normaliseTerm_def Let_def)
  have a: "row_amounts ?r = Some (Fin 70, Fin 42)" and w: "row_window ?r = Some 7" and t: "row_term ?r = Some ''P3Y''"
    by (simp_all add: sample_modern_def usd_amount_def usd_fold)
  let ?f = "raw\<lparr>xf_OnDemandCost := Fin 70 * fdiv DaysPerMonth (float_of_int 7), xf_EstimatedSavings := (Fin 70 - Fin 42) * fdiv DaysPerMonth (float_of_int 7),
      xf_CommitmentCost := 0, xf_RecurringMonthlyCost := None, xf_LookBackDays := 7\<rparr>"
  have "ExtractConsumption 0 ?r = Inr (Some ?f)"
    by (rule consumption_amounts_known [THEN conjunct1, THEN iffD2])
      (rule exI [of _ raw], rule exI [of _ "Fin 70"], rule exI [of _ "Fin 42"], rule exI [of _ 7], rule exI [of _ "''P3Y''"], simp only: raw a w t, simp)
  with raw show ?thesis by (intro exI [of _ ?f]) simp
qed

section \<open>What the price cache promises\<close>

fun price_run :: "'s Pricer \<Rightarrow> priceKey list \<Rightarrow> 's collection \<Rightarrow> priceResult list \<times> 's collection" where
  "price_run p [] s = ([], s)"
| "price_run p (k # ks) s = (case UnitPrice p (pk_resourceType k) (pk_region k) (pk_termYears k) s of
     (r, s1) \<Rightarrow> (case price_run p ks s1 of (rs, s2) \<Rightarrow> (r # rs, s2)))"

text \<open>The keys that reach the catalog: those not seen before, and those whose lookup failed to complete.\<close>

fun looked_up :: "(priceKey \<Rightarrow> priceResult) \<Rightarrow> priceKey set \<Rightarrow> priceKey list \<Rightarrow> priceKey list" where
  "looked_up cat S [] = []"
| "looked_up cat S (k # ks) = (if k \<in> S then looked_up cat S ks
     else k # looked_up cat (if collection_failed (cat k) then S else insert k S) ks)"

definition valid_cache :: "(priceKey \<Rightarrow> priceResult) \<Rightarrow> priceKey set \<Rightarrow> 's collection \<Rightarrow> bool" where
  "valid_cache cat S s \<longleftrightarrow> (\<forall>k. co_cache s k = (if k \<in> S then Some (cat k) else None)) \<and> (\<forall>k\<in>S. \<not> collection_failed (cat k))"

lemma UnitPrice_valid:
  assumes cat: "\<And>w. fst (resolve_price p k w) = cat k" and v: "valid_cache cat S s"
  shows "UnitPrice p (pk_resourceType k) (pk_region k) (pk_termYears k) s = (cat k,
     if k \<in> S then s else s\<lparr>co_world := snd (resolve_price p k (co_world s)),
       co_cache := (if collection_failed (cat k) then co_cache s else (co_cache s)(k \<mapsto> cat k))\<rparr>)"
proof -
  have key: "\<lparr>pk_resourceType = pk_resourceType k, pk_region = pk_region k, pk_termYears = pk_termYears k\<rparr> = k" by simp
  show ?thesis unfolding UnitPrice_def key Let_def
    using v cat [of "co_world s"] by (cases "resolve_price p k (co_world s)") (simp add: valid_cache_def)
qed

lemma price_run_valid:
  assumes cat: "\<And>k w. fst (resolve_price p k w) = cat k"
  shows "valid_cache cat S s \<Longrightarrow> price_run p ks s = (rs, s2) \<Longrightarrow>
     rs = map cat ks \<and> co_world s2 = fold (\<lambda>k w. snd (resolve_price p k w)) (looked_up cat S ks) (co_world s)"
proof (induction ks arbitrary: S s rs)
  case Nil
  then show ?case by simp
next
  case (Cons k ks)
  let ?s1 = "if k \<in> S then s else s\<lparr>co_world := snd (resolve_price p k (co_world s)),
       co_cache := (if collection_failed (cat k) then co_cache s else (co_cache s)(k \<mapsto> cat k))\<rparr>"
  let ?S1 = "if k \<in> S \<or> collection_failed (cat k) then S else insert k S"
  have v1: "valid_cache cat ?S1 ?s1" using Cons.prems(1) by (auto simp: valid_cache_def)
  from Cons.prems(2) obtain rs' where rs: "price_run p ks ?s1 = (rs', s2)" "rs = cat k # rs'"
    by (auto simp: UnitPrice_valid [OF cat Cons.prems(1)] split: prod.splits)
  from Cons.IH [OF v1 rs(1)] rs(2) show ?case by (auto split: if_splits)
qed

lemma looked_up_once: "distinct (filter (\<lambda>k. \<not> collection_failed (cat k)) (looked_up cat S ks))
    \<and> (\<forall>k \<in> set (looked_up cat S ks). k \<notin> S)"
proof (induction cat S ks rule: looked_up.induct)
  case (2 cat S k ks)
  then show ?case by (cases "k \<in> S"; cases "collection_failed (cat k)") auto
qed simp

text \<open>C17. The price cache of a collection changes nothing but the number of lookups. When the catalog answers a SKU, region and term
  the same way each time, a collection that starts with an empty cache and asks for any sequence of prices gets the catalog's
  answer to every request, in order; only the keys of \<open>looked_up\<close> reach the catalog, and among them each key whose lookup completed,
  priced or not, occurs once, while a lookup that failed to complete is never remembered and is tried again.\<close>

theorem price_cache_transparent:
  assumes "\<And>k w. fst (resolve_price p k w) = cat k" and "co_cache s = Map.empty" and "price_run p ks s = (rs, s2)"
  shows "rs = map cat ks \<and> co_world s2 = fold (\<lambda>k w. snd (resolve_price p k w)) (looked_up cat {} ks) (co_world s)
    \<and> distinct (filter (\<lambda>k. \<not> collection_failed (cat k)) (looked_up cat {} ks))"
proof -
  have "valid_cache cat {} s" using assms(2) by (simp add: valid_cache_def)
  from price_run_valid [OF assms(1) this assms(3)] looked_up_once [of cat "{}" ks] show ?thesis by blast
qed

text \<open>A catalog of one price that counts its lookups; the lookup of the SKU \<open>down\<close> never completes.\<close>

definition counting_pricer :: "nat Pricer" where
  "counting_pricer = \<lparr>pc_service = ''compute'', pc_lookup = (\<lambda>sku region years n.
     (if sku = ''down'' then Inl ErrFetch else Inr \<lparr>vp_Currency = ''USD'', vp_Total = Fin 500\<rparr>, Suc n))\<rparr>"

definition counted :: "go_string \<Rightarrow> priceKey" where
  "counted sku = \<lparr>pk_resourceType = sku, pk_region = ''eastus'', pk_termYears = 1\<rparr>"

lemma counting_cat: "fst (resolve_price counting_pricer k w) = fst (resolve_price counting_pricer k 0)"
  "snd (resolve_price counting_pricer k w) = Suc w"
  by (simp_all add: resolve_price_def counting_pricer_def split: prod.splits sum.splits)

lemma counting_failed: "collection_failed (fst (resolve_price counting_pricer k 0)) \<longleftrightarrow> pk_resourceType k = ''down''"
  by (simp add: resolve_price_def counting_pricer_def collection_failed_def IsCollectionFailure_def ErrFetch_def
      currencyUSD_def usd_fold)

theorem price_cache_transparent_witness:
  "co_world (snd (price_run counting_pricer [counted ''a'', counted ''down'', counted ''a'', counted ''down'', counted ''b'']
     \<lparr>co_world = 0, co_cache = Map.empty, co_skips = None\<rparr>)) = 4"
proof -
  let ?ks = "[counted ''a'', counted ''down'', counted ''a'', counted ''down'', counted ''b'']"
  let ?s = "\<lparr>co_world = 0, co_cache = Map.empty, co_skips = None\<rparr> :: nat collection"
  obtain rs s2 where run: "price_run counting_pricer ?ks ?s = (rs, s2)" by force
  have "looked_up (\<lambda>k. fst (resolve_price counting_pricer k 0)) {} ?ks = [counted ''a'', counted ''down'', counted ''down'', counted ''b'']"
    by (simp add: counting_failed) (simp add: counted_def)
  with price_cache_transparent [OF counting_cat(1) _ run] run show ?thesis by (simp add: counting_cat(2))
qed

end
