(* ===== verification/Az_Catalog.thy ===== *)
theory Az_Catalog
  imports Az_Recs Az_Inventory
begin

text \<open>
  What the Azure clients look up to fill in and to check a recommendation: the VM SKU catalog, the SQL engine
  versions, the server and managed-instance survey, the Cosmos API type, and the lists of valid resource types.
  A pager is the one of \<open>Az_Inventory\<close>; a loop over its pages is \<open>page_walk\<close>, which the functions here read
  in the way each of them ends. A Go \<open>nil\<close> dereference is the outcome \<open>None\<close> of a function that can panic.
  The iteration order of a Go map is the argument \<open>iter\<close>.
\<close>

section \<open>Walking pages\<close>

datatype walk_end = WalkDone | WalkStopped | WalkCancelled go_error | WalkCapped | WalkFailed go_error

text \<open>
  The pages read, the index of the page the loop was at, and how it ended. \<open>ctx_err i\<close> is \<open>ctx.Err()\<close> before page \<open>i\<close>;
  \<open>stop\<close> is the page after which the loop returns.
\<close>

function page_walk :: "nat \<Rightarrow> (nat \<Rightarrow> go_error option) \<Rightarrow> ('p, 'a) sdk_pager \<Rightarrow> ('a \<Rightarrow> bool) \<Rightarrow> nat \<Rightarrow> 'p \<Rightarrow> 'a list \<times> nat \<times> walk_end" where
  "page_walk cap ctx_err pgr stop pageIdx p =
    (if \<not> pgr_more pgr p then ([], pageIdx, WalkDone)
     else case ctx_err pageIdx of Some e \<Rightarrow> ([], pageIdx, WalkCancelled e)
     | None \<Rightarrow>
         if pageIdx \<ge> cap then ([], pageIdx, WalkCapped)
         else (case pgr_next pgr p of
           (Inl e, p') \<Rightarrow> ([], pageIdx, WalkFailed e)
         | (Inr page, p') \<Rightarrow>
             if stop page then ([page], pageIdx, WalkStopped)
             else (case page_walk cap ctx_err pgr stop (Suc pageIdx) p' of (pages, i, e) \<Rightarrow> (page # pages, i, e))))"
  by pat_completeness auto
termination
  by (relation "measure (\<lambda>(cap, ctx_err, pgr, stop, pageIdx, p). cap - pageIdx)") auto

declare page_walk.simps [simp del]

abbreviation never :: "'a \<Rightarrow> bool" where
  "never \<equiv> (\<lambda>_. False)"

section \<open>Numbers in SKU capabilities\<close>

text \<open>\<open>strconv.Atoi\<close>.\<close>

definition atoi :: "go_string \<Rightarrow> int option" where
  "atoi s = (case scan_sign s of (neg, ds) \<Rightarrow>
     let n = int (foldl (\<lambda>v c. v * 10 + digit_val c) 0 ds); v = (if neg then - n else n)
     in if ds = [] \<or> \<not> list_all is_digit ds \<or> \<not> is_i64 v then None else Some v)"

text \<open>
  \<open>strconv.ParseFloat\<close> for the finite numbers: a decimal or hexadecimal mantissa (the hexadecimal one with its binary
  exponent), rounded once; the names of infinities and NaN, and numbers out of range, are \<open>None\<close>: the callers here refuse
  them like a syntax error.
\<close>

definition float_exponent :: "go_string \<Rightarrow> (char option \<times> int) option" where
  "float_exponent s = (case s of [] \<Rightarrow> Some (None, 0)
   | c # cs \<Rightarrow> (case scan_sign cs of (neg, ds) \<Rightarrow> (case scan_exp_digits (scan_init 0 False) ds of (st, rest) \<Rightarrow>
       if sc_count st = 0 \<or> sc_bad st \<or> sc_sep st \<or> rest \<noteq> [] then None
       else Some (Some (ascii_lower c), if neg then - int (sc_value st) else int (sc_value st)))))"

definition parse_float :: "go_string \<Rightarrow> float64 option" where
  "parse_float s = (case scan_sign s of (neg, ds) \<Rightarrow> (case nat_scan True ds of None \<Rightarrow> None
   | Some (v, b, fc, rest) \<Rightarrow> (case float_exponent rest of None \<Rightarrow> None
     | Some (mark, ex) \<Rightarrow>
         let m = (if neg then - of_nat v else of_nat v) * of_nat b powi (min fc 0);
             x = (if b = 10 \<and> mark \<in> {None, Some CHR ''e''} then Some (rnd (m * 10 powi ex))
               else if b = 16 \<and> mark = Some CHR ''p'' then Some (rnd (m * 2 powi ex)) else None)
         in (case x of Some y \<Rightarrow> if is_inf y then None else Some y | None \<Rightarrow> None))))"

definition parseSKUVCPUs :: "go_string \<Rightarrow> go_error + int" where
  "parseSKUVCPUs raw = (case atoi raw of
     Some v \<Rightarrow> if v < 0 then Inl (errorf ''capability vCPUs %q is not a non-negative integer'' [ArgS raw]) else Inr v
   | None \<Rightarrow> Inl (errorf ''capability vCPUs %q is not a non-negative integer'' [ArgS raw]))"

definition parseSKUMemoryGB :: "go_string \<Rightarrow> go_error + float64" where
  "parseSKUMemoryGB raw = (case parse_float raw of
     Some v \<Rightarrow> if is_nan v \<or> is_inf v \<or> v < 0 then Inl (errorf ''capability MemoryGB %q is not a finite non-negative number'' [ArgS raw]) else Inr v
   | None \<Rightarrow> Inl (errorf ''capability MemoryGB %q is not a finite non-negative number'' [ArgS raw]))"

section \<open>The VM catalog (compute/client.go)\<close>

type_synonym capability = "(go_string option \<times> go_string option) option"

record resource_sku =
  ks_Name :: "go_string option"
  ks_ResourceType :: "go_string option"
  ks_Locations :: "go_string option list"
  ks_Capabilities :: "capability list"

record vmSKUEntry =
  ve_vCPUs :: int
  ve_memoryGB :: float64

definition maxSKUPages :: nat where
  "maxSKUPages = 20"

definition isAvailableInRegion :: "resource_sku \<Rightarrow> go_string \<Rightarrow> bool" where
  "isAvailableInRegion sku region \<longleftrightarrow> list_ex (\<lambda>l. case l of None \<Rightarrow> False | Some location \<Rightarrow> equal_fold location region) (ks_Locations sku)"

definition extractVMSizeIfValid :: "go_string \<Rightarrow> resource_sku \<Rightarrow> go_string" where
  "extractVMSizeIfValid region sku = (case ks_Name sku of None \<Rightarrow> [] | Some name \<Rightarrow>
     if ks_ResourceType sku \<noteq> Some ''virtualMachines'' then []
     else if \<not> isAvailableInRegion sku region then [] else name)"

text \<open>A \<open>nil\<close> entry of the page is dereferenced.\<close>

fun vm_sizes :: "go_string \<Rightarrow> resource_sku option list \<Rightarrow> go_string list option" where
  "vm_sizes region [] = Some []"
| "vm_sizes region (None # skus) = None"
| "vm_sizes region (Some sku # skus) = map_option (\<lambda>sizes. let vmSize = extractVMSizeIfValid region sku in
     if vmSize \<noteq> [] then vmSize # sizes else sizes) (vm_sizes region skus)"

definition collectVMSizesFromSKUs :: "go_string \<Rightarrow> (nat \<Rightarrow> go_error option) \<Rightarrow> ('p, resource_sku option list) sdk_pager \<Rightarrow> 'p
    \<Rightarrow> (go_error + go_string list) option" where
  "collectVMSizesFromSKUs region ctx_err pgr p = (case page_walk maxSKUPages ctx_err pgr never 0 p of (pages, i, stopped) \<Rightarrow>
     map_option (\<lambda>sizes. case stopped of
       WalkCancelled e \<Rightarrow> Inl (wrapf ''context canceled during pagination: %w'' [ArgS (err_text e)] [e])
     | WalkCapped \<Rightarrow> Inl (errorf ''compute: GetValidResourceTypes pagination cap (%d pages) reached'' [ArgI (int maxSKUPages)])
     | WalkFailed e \<Rightarrow> Inl (wrapf ''failed to list VM sizes: %w'' [ArgS (err_text e)] [e])
     | _ \<Rightarrow> Inr sizes) (vm_sizes region (concat pages)))"

definition compute_GetValidResourceTypes :: "azure_client \<Rightarrow> (nat \<Rightarrow> go_error option) \<Rightarrow> ('p, resource_sku option list) sdk_pager
    \<Rightarrow> go_error + 'p \<Rightarrow> (go_error + go_string list) option" where
  "compute_GetValidResourceTypes c ctx_err pgr pager = (case pager of
     Inl e \<Rightarrow> Some (Inl e)
   | Inr p \<Rightarrow> map_option (\<lambda>r. case r of Inl e \<Rightarrow> Inl e
       | Inr vmSizes \<Rightarrow> if vmSizes = [] then Inl (errorf ''no VM sizes found for region %s'' [ArgS (ac_region c)]) else Inr vmSizes)
     (collectVMSizesFromSKUs (ac_region c) ctx_err pgr p))"

fun sku_capabilities :: "capability list \<Rightarrow> int \<Rightarrow> float64 \<Rightarrow> go_error + int \<times> float64" where
  "sku_capabilities [] vCPUs memoryGB = Inr (vCPUs, memoryGB)"
| "sku_capabilities (Some (Some name, Some raw) # cbs) vCPUs memoryGB =
    (if name = ''vCPUs'' then (case parseSKUVCPUs raw of Inl e \<Rightarrow> Inl e | Inr v \<Rightarrow> sku_capabilities cbs v memoryGB)
     else if name = ''MemoryGB'' then (case parseSKUMemoryGB raw of Inl e \<Rightarrow> Inl e | Inr v \<Rightarrow> sku_capabilities cbs vCPUs v)
     else sku_capabilities cbs vCPUs memoryGB)"
| "sku_capabilities (_ # cbs) vCPUs memoryGB = sku_capabilities cbs vCPUs memoryGB"

definition extractVMSKUCapabilities :: "resource_sku \<Rightarrow> go_error + int \<times> float64" where
  "extractVMSKUCapabilities sku = sku_capabilities (ks_Capabilities sku) 0 0"

text \<open>The name and the entry of a SKU that belongs in the catalog of the region.\<close>

definition catalog_entry :: "go_string \<Rightarrow> resource_sku option \<Rightarrow> (go_string \<times> vmSKUEntry) option" where
  "catalog_entry region sku = (case sku of None \<Rightarrow> None | Some k \<Rightarrow> (case ks_Name k of None \<Rightarrow> None
   | Some name \<Rightarrow>
       if ks_ResourceType k \<noteq> Some ''virtualMachines'' \<or> \<not> isAvailableInRegion k region then None
       else (case extractVMSKUCapabilities k of Inl e \<Rightarrow> None
         | Inr (vCPUs, memoryGB) \<Rightarrow> Some (name, \<lparr>ve_vCPUs = vCPUs, ve_memoryGB = memoryGB\<rparr>))))"

fun populateVMSKUMapFromPage :: "go_string \<Rightarrow> (go_string, vmSKUEntry) go_map \<Rightarrow> resource_sku option list \<Rightarrow> (go_string, vmSKUEntry) go_map" where
  "populateVMSKUMapFromPage region out [] = out"
| "populateVMSKUMapFromPage region out (sku # skus) = populateVMSKUMapFromPage region
     (case catalog_entry region sku of Some (name, entry) \<Rightarrow> if map_of out name = None then out @ [(name, entry)] else out
      | None \<Rightarrow> out) skus"

definition compute_fetchSKUCatalogue :: "azure_client \<Rightarrow> (nat \<Rightarrow> go_error option) \<Rightarrow> ('p, resource_sku option list) sdk_pager
    \<Rightarrow> go_error + 'p \<Rightarrow> (go_string, vmSKUEntry) go_map option" where
  "compute_fetchSKUCatalogue c ctx_err pgr pager = (case pager of Inl e \<Rightarrow> None
   | Inr p \<Rightarrow> (case page_walk maxSKUPages ctx_err pgr never 0 p of (pages, i, stopped) \<Rightarrow>
       if stopped = WalkDone \<or> stopped = WalkCapped then Some (fold (\<lambda>page out. populateVMSKUMapFromPage (ac_region c) out page) pages [])
       else None))"

text \<open>The lookup in the catalog, which \<open>sync.Once\<close> fetches once per client; \<open>None\<close> when the fetch failed.\<close>

definition cachedSKULookup :: "(go_string, 'e) go_map option \<Rightarrow> go_string \<Rightarrow> 'e option" where
  "cachedSKULookup skuCacheMap skuName = (case skuCacheMap of None \<Rightarrow> None | Some m \<Rightarrow> map_of m skuName)"

section \<open>SQL capabilities (database/client.go)\<close>

text \<open>A service level objective is the name of its SKU, a \<open>nil\<close> SKU being \<open>None\<close>.\<close>

record edition_capability =
  ec_Name :: "go_string option"
  ec_SLOs :: "go_string option option option list"

record server_version =
  sv_Name :: "go_string option"
  sv_Editions :: "edition_capability option list"

record location_capabilities =
  lc_ServerVersions :: "server_version option list"
  lc_ManagedInstanceVersions :: "server_version option list"

fun slo_names :: "go_string option option option list \<Rightarrow> go_string list option" where
  "slo_names [] = Some []"
| "slo_names (None # slos) = None"
| "slo_names (Some (Some (Some name)) # slos) = map_option (\<lambda>ns. name # ns) (slo_names slos)"
| "slo_names (Some _ # slos) = slo_names slos"

text \<open>Collecting over pointers that the loops dereference.\<close>

fun collect_some :: "('a \<Rightarrow> 'b list option) \<Rightarrow> 'a option list \<Rightarrow> 'b list option" where
  "collect_some f [] = Some []"
| "collect_some f (None # xs) = None"
| "collect_some f (Some x # xs) = (case f x of None \<Rightarrow> None | Some ys \<Rightarrow> map_option (\<lambda>zs. ys @ zs) (collect_some f xs))"

definition extractServerSKUs :: "location_capabilities \<Rightarrow> go_string list option" where
  "extractServerSKUs caps = collect_some (\<lambda>version. collect_some (\<lambda>edition. slo_names (ec_SLOs edition)) (sv_Editions version))
     (lc_ServerVersions caps)"

definition extractManagedInstanceSKUs :: "location_capabilities \<Rightarrow> go_string list option" where
  "extractManagedInstanceSKUs caps = collect_some (\<lambda>version. collect_some (\<lambda>edition.
     Some (case ec_Name edition of None \<Rightarrow> [] | Some n \<Rightarrow> [n])) (sv_Editions version)) (lc_ManagedInstanceVersions caps)"

definition database_GetValidResourceTypes :: "azure_client \<Rightarrow> (go_string list \<Rightarrow> go_string list) \<Rightarrow> go_error + (go_error + location_capabilities)
    \<Rightarrow> (go_error + go_string list) option" where
  "database_GetValidResourceTypes c iter capClient = (case capClient of
     Inl e \<Rightarrow> Some (Inl e)
   | Inr (Inl e) \<Rightarrow> Some (Inl (wrapf ''failed to list SQL capabilities: %w'' [ArgS (err_text e)] [e]))
   | Inr (Inr caps) \<Rightarrow> (case (extractServerSKUs caps, extractManagedInstanceSKUs caps) of
       (Some xs, Some ys) \<Rightarrow> Some (let skus = iter (remdups (xs @ ys)) in
         if skus = [] then Inl (errorf ''no SQL Database SKUs found for region %s'' [ArgS (ac_region c)]) else Inr skus)
     | _ \<Rightarrow> None))"

definition version_slos :: "edition_capability option list \<Rightarrow> go_string list" where
  "version_slos editions = concat (map (\<lambda>edition. case edition of None \<Rightarrow> []
     | Some ed \<Rightarrow> concat (map (\<lambda>slo. case slo of Some (Some (Some name)) \<Rightarrow> [name] | _ \<Rightarrow> []) (ec_SLOs ed))) editions)"

fun put_first :: "go_string \<Rightarrow> (go_string, go_string) go_map \<Rightarrow> go_string list \<Rightarrow> (go_string, go_string) go_map" where
  "put_first v out [] = out"
| "put_first v out (k # ks) = put_first v (if map_of out k = None then out @ [(k, v)] else out) ks"

definition populateSQLSKUMapFromVersion :: "(go_string, go_string) go_map \<Rightarrow> go_string \<Rightarrow> edition_capability option list \<Rightarrow> (go_string, go_string) go_map" where
  "populateSQLSKUMapFromVersion out engineVersion editions = put_first engineVersion out (version_slos editions)"

definition database_fetchSKUCatalogue :: "go_error + (go_error + location_capabilities) \<Rightarrow> (go_string, go_string) go_map option" where
  "database_fetchSKUCatalogue capClient = (case capClient of
     Inl e \<Rightarrow> None | Inr (Inl e) \<Rightarrow> None
   | Inr (Inr caps) \<Rightarrow> Some (fold (\<lambda>version out. case version of None \<Rightarrow> out
       | Some v \<Rightarrow> (case sv_Name v of None \<Rightarrow> out | Some name \<Rightarrow> populateSQLSKUMapFromVersion out name (sv_Editions v))) (lc_ServerVersions caps) []))"

definition detailsFromSQLSKU :: "go_string \<Rightarrow> DatabaseDetails" where
  "detailsFromSQLSKU sku = \<lparr>dd_Engine = ''sqlserver'', dd_EngineVersion = [], dd_AZConfig = [], dd_InstanceClass = sku, dd_Deployment = []\<rparr>"

section \<open>The survey of SQL servers\<close>

text \<open>A managed instance: its properties and their \<open>ZoneRedundant\<close>.\<close>

type_synonym managed_instance = "bool option option option"

definition maxSQLListPages :: nat where
  "maxSQLListPages = 20"

definition tallyManagedInstances :: "managed_instance list \<Rightarrow> nat \<times> nat \<times> nat" where
  "tallyManagedInstances instances = (length (filter (\<lambda>m. m = Some (Some (Some True))) instances),
     length (filter (\<lambda>m. m = Some (Some (Some False))) instances), length instances)"

text \<open>The outcome of a walk that must be complete: \<open>None\<close> when it ended early.\<close>

definition walkManagedInstances :: "(nat \<Rightarrow> go_error option) \<Rightarrow> ('p, managed_instance list) sdk_pager \<Rightarrow> go_error + 'p \<Rightarrow> (nat \<times> nat \<times> nat) option" where
  "walkManagedInstances ctx_err pgr pager = (case pager of Inl e \<Rightarrow> None
   | Inr p \<Rightarrow> (case page_walk maxSQLListPages ctx_err pgr never 0 p of (pages, i, stopped) \<Rightarrow>
       if stopped = WalkDone then Some (tallyManagedInstances (concat pages)) else None))"

definition hasRegularServers :: "(nat \<Rightarrow> go_error option) \<Rightarrow> ('p, 'v list) sdk_pager \<Rightarrow> go_error + 'p \<Rightarrow> bool option" where
  "hasRegularServers ctx_err pgr pager = (case pager of Inl e \<Rightarrow> None
   | Inr p \<Rightarrow> (case page_walk maxSQLListPages ctx_err pgr (\<lambda>page. page \<noteq> []) 0 p of (pages, i, stopped) \<Rightarrow>
       if stopped = WalkStopped then Some True else if stopped = WalkDone then Some False else None))"

definition server_signals :: "nat \<times> nat \<times> nat \<Rightarrow> bool \<Rightarrow> go_string \<times> go_string" where
  "server_signals counts hasServers = (case counts of (zoneRedundant, nonZoneRedundant, managed) \<Rightarrow>
     let total = zoneRedundant + nonZoneRedundant; hasManaged = 0 < managed
     in (if total = 0 then [] else if zoneRedundant = total then ''zoneRedundant'' else if nonZoneRedundant = total then ''none'' else [],
         if hasManaged \<and> \<not> hasServers then ''managed'' else if hasServers \<and> \<not> hasManaged then ''single'' else []))"

record ('p, 'v) survey =
  su_ctx_managed :: "nat \<Rightarrow> go_error option"
  su_ctx_servers :: "nat \<Rightarrow> go_error option"
  su_managed :: "go_error + 'p"
  su_managed_pgr :: "('p, managed_instance list) sdk_pager"
  su_servers :: "go_error + 'p"
  su_servers_pgr :: "('p, 'v list) sdk_pager"

definition fetchServerInfo :: "('p, 'v) survey \<Rightarrow> (go_string \<times> go_string) option" where
  "fetchServerInfo v = (case walkManagedInstances (su_ctx_managed v) (su_managed_pgr v) (su_managed v) of None \<Rightarrow> None
   | Some counts \<Rightarrow> map_option (server_signals counts) (hasRegularServers (su_ctx_servers v) (su_servers_pgr v) (su_servers v)))"

record server_cache =
  sc_info :: "(go_string \<times> go_string) option"
  sc_retryAfter :: go_time
  sc_retryDelay :: int

definition serverInfoRetryDelayDefault :: int where
  "serverInfoRetryDelayDefault = 30 * 1000000000"

text \<open>
  \<open>walk\<close> is \<open>fetchServerInfo\<close> on the pagers of the moment, with the world after it; \<open>clock\<close> and \<open>cancelled\<close> read the world.
  \<open>sc_info\<close> holds the cached pair once \<open>serverInfoLoaded\<close> is set.
\<close>

definition serverInfo :: "('s \<Rightarrow> go_time) \<Rightarrow> ('s \<Rightarrow> bool) \<Rightarrow> ('s \<Rightarrow> (go_string \<times> go_string) option \<times> 's) \<Rightarrow> server_cache \<times> 's
    \<Rightarrow> (go_string \<times> go_string) \<times> (server_cache \<times> 's)" where
  "serverInfo clock cancelled walk st = (case st of (c, s) \<Rightarrow> (case sc_info c of
     Some info \<Rightarrow> (info, (c, s))
   | None \<Rightarrow>
       if clock s < sc_retryAfter c then (([], []), (c, s))
       else (case walk s of
         (Some info, s') \<Rightarrow> (info, (c\<lparr>sc_info := Some info\<rparr>, s'))
       | (None, s') \<Rightarrow>
           (([], []), (if cancelled s' then c
             else c\<lparr>sc_retryAfter := clock s' + (if sc_retryDelay c = 0 then serverInfoRetryDelayDefault else sc_retryDelay c)\<rparr>, s')))))"

section \<open>The Cosmos API type (cosmosdb/client.go)\<close>

record cosmos_account =
  co_Kind :: "go_string option"
  co_Properties :: "go_string option option list option"

definition maxAccountsPages :: nat where
  "maxAccountsPages = 20"

fun api_of_capabilities :: "go_string option option list \<Rightarrow> go_string" where
  "api_of_capabilities [] = ''sql''"
| "api_of_capabilities (Some (Some name) # caps) =
    (if name = ''EnableCassandra'' then ''cassandra'' else if name = ''EnableGremlin'' then ''gremlin''
     else if name = ''EnableTable'' then ''table'' else api_of_capabilities caps)"
| "api_of_capabilities (_ # caps) = api_of_capabilities caps"

definition apiTypeFromGlobalDocumentDB :: "go_string option option list option \<Rightarrow> go_string" where
  "apiTypeFromGlobalDocumentDB props = (case props of None \<Rightarrow> ''sql'' | Some caps \<Rightarrow> api_of_capabilities caps)"

definition apiTypeFromAccount :: "cosmos_account option \<Rightarrow> go_string" where
  "apiTypeFromAccount account = (case account of None \<Rightarrow> [] | Some a \<Rightarrow> (case co_Kind a of None \<Rightarrow> []
   | Some kind \<Rightarrow> if kind = ''MongoDB'' then ''mongodb'' else if kind = ''Parse'' then []
       else if kind = ''GlobalDocumentDB'' then apiTypeFromGlobalDocumentDB (co_Properties a) else []))"

definition fetchDominantAPIType :: "(nat \<Rightarrow> go_error option) \<Rightarrow> ('p, cosmos_account option list) sdk_pager \<Rightarrow> go_error + 'p \<Rightarrow> go_string" where
  "fetchDominantAPIType ctx_err pgr pager = (case pager of Inl e \<Rightarrow> []
   | Inr p \<Rightarrow> (case page_walk maxAccountsPages ctx_err pgr never 0 p of (pages, i, stopped) \<Rightarrow>
       if stopped \<noteq> WalkDone then []
       else (case remdups (filter (\<lambda>api. api \<noteq> []) (map apiTypeFromAccount (concat pages))) of [api] \<Rightarrow> api | _ \<Rightarrow> [])))"

definition detailsFromCosmosSKU :: "go_string \<Rightarrow> NoSQLDetails" where
  "detailsFromCosmosSKU sku = \<lparr>nd_Engine = ''cosmos'', nd_APIType = [],
     nd_ThroughputUnits = (case atoi (takeWhile is_digit sku) of Some n \<Rightarrow> n | None \<Rightarrow> 0)\<rparr>"

fun account_capabilities :: "go_string option option list \<Rightarrow> go_string list option" where
  "account_capabilities [] = Some []"
| "account_capabilities (None # caps) = None"
| "account_capabilities (Some name # caps) = map_option (\<lambda>ns. (case name of None \<Rightarrow> ns | Some n \<Rightarrow> n # ns)) (account_capabilities caps)"

definition extractCapabilitiesFromAccount :: "cosmos_account \<Rightarrow> go_string list option" where
  "extractCapabilitiesFromAccount account = (case co_Properties account of None \<Rightarrow> Some [] | Some caps \<Rightarrow> account_capabilities caps)"

definition cosmosdb_getCommonSKUs :: "go_string list" where
  "cosmosdb_getCommonSKUs = [''EnableCassandra'', ''EnableMongo'', ''EnableGremlin'', ''EnableTable'', ''EnableServerless'']"

text \<open>
  The loops that keep what they have when a page fails: an error only for a cancelled context (and, for the caches, the cap).
  \<open>names\<close> are the entries collected from the pages read, or a panic.
\<close>

definition kept_or_error :: "go_error option \<Rightarrow> (nat \<Rightarrow> go_error \<Rightarrow> go_error) \<Rightarrow> walk_end \<Rightarrow> nat \<Rightarrow> 'a \<Rightarrow> go_error + 'a" where
  "kept_or_error on_cap cancelled stopped i names = (case stopped of
     WalkCancelled e \<Rightarrow> Inl (cancelled i e)
   | WalkCapped \<Rightarrow> (case on_cap of Some e \<Rightarrow> Inl e | None \<Rightarrow> Inr names)
   | _ \<Rightarrow> Inr names)"

definition found_or_common :: "(go_string list \<Rightarrow> go_string list) \<Rightarrow> go_string list \<Rightarrow> go_string list \<Rightarrow> go_string list" where
  "found_or_common iter common names = (if names \<noteq> [] then iter (remdups names) else common)"

definition collectCapabilitiesFromAccounts :: "(nat \<Rightarrow> go_error option) \<Rightarrow> ('p, cosmos_account option list) sdk_pager \<Rightarrow> 'p
    \<Rightarrow> (go_error + go_string list) option" where
  "collectCapabilitiesFromAccounts ctx_err pgr p = (case page_walk maxAccountsPages ctx_err pgr never 0 p of (pages, i, stopped) \<Rightarrow>
     map_option (kept_or_error None (\<lambda>i e. wrapf ''cosmosdb: GetValidResourceTypes context canceled after %d pages: %w''
       [ArgI (int i), ArgS (err_text e)] [e]) stopped i) (collect_some extractCapabilitiesFromAccount (concat pages)))"

definition cosmosdb_GetValidResourceTypes :: "(go_string list \<Rightarrow> go_string list) \<Rightarrow> (nat \<Rightarrow> go_error option)
    \<Rightarrow> ('p, cosmos_account option list) sdk_pager \<Rightarrow> go_error + 'p \<Rightarrow> (go_error + go_string list) option" where
  "cosmosdb_GetValidResourceTypes iter ctx_err pgr pager = (case pager of
     Inl e \<Rightarrow> Some (Inr cosmosdb_getCommonSKUs)
   | Inr p \<Rightarrow> map_option (map_sum id (found_or_common iter cosmosdb_getCommonSKUs)) (collectCapabilitiesFromAccounts ctx_err pgr p))"

section \<open>Valid resource types of the other clients\<close>

definition maxServicesPages :: nat where
  "maxServicesPages = 20"

definition maxCachesPages :: nat where
  "maxCachesPages = 20"

definition search_getCommonSKUs :: "go_string list" where
  "search_getCommonSKUs = [''basic'', ''standard'', ''standard2'', ''standard3'', ''storage_optimized_l1'', ''storage_optimized_l2'']"

text \<open>A search service: its SKU and the name of it.\<close>

definition search_collectSKUsFromPager :: "(nat \<Rightarrow> go_error option) \<Rightarrow> ('p, go_string option option option list) sdk_pager \<Rightarrow> 'p
    \<Rightarrow> (go_error + go_string list) option" where
  "search_collectSKUsFromPager ctx_err pgr p = (case page_walk maxServicesPages ctx_err pgr never 0 p of (pages, i, stopped) \<Rightarrow>
     map_option (kept_or_error None (\<lambda>i e. wrapf ''search: GetValidResourceTypes context canceled after %d pages: %w''
       [ArgI (int i), ArgS (err_text e)] [e]) stopped i)
       (collect_some (\<lambda>service. Some (case service of Some (Some name) \<Rightarrow> [name] | _ \<Rightarrow> [])) (concat pages)))"

definition search_GetValidResourceTypes :: "(go_string list \<Rightarrow> go_string list) \<Rightarrow> (nat \<Rightarrow> go_error option)
    \<Rightarrow> ('p, go_string option option option list) sdk_pager \<Rightarrow> 'p option \<Rightarrow> (go_error + go_string list) option" where
  "search_GetValidResourceTypes iter ctx_err pgr pager = (case pager of
     None \<Rightarrow> Some (Inr search_getCommonSKUs)
   | Some p \<Rightarrow> map_option (map_sum id (found_or_common iter search_getCommonSKUs)) (search_collectSKUsFromPager ctx_err pgr p))"

record redis_sku =
  rk_Name :: "go_string option"
  rk_Family :: "go_string option"
  rk_Capacity :: "int option"

text \<open>A cache resource: its properties and their SKU.\<close>

type_synonym redis_cache = "redis_sku option option"

definition full_sku :: "redis_sku option \<Rightarrow> go_string" where
  "full_sku sku = (case sku of None \<Rightarrow> [] | Some k \<Rightarrow> (case (rk_Name k, rk_Family k, rk_Capacity k) of
     (Some name, Some family, Some capacity) \<Rightarrow> sprintf ''%s_%s%d'' [ArgS name, ArgS family, ArgI capacity]
   | _ \<Rightarrow> []))"

definition extractSKUFromCache :: "redis_cache \<Rightarrow> go_string" where
  "extractSKUFromCache cache = (case cache of None \<Rightarrow> [] | Some sku \<Rightarrow> full_sku sku)"

definition extractSKUName :: "redis_cache option \<Rightarrow> go_string" where
  "extractSKUName cache = (case cache of None \<Rightarrow> [] | Some c \<Rightarrow> (case c of None \<Rightarrow> [] | Some sku \<Rightarrow> full_sku sku))"

definition redis_commonSKUs :: "go_string list" where
  "redis_commonSKUs = [''Basic_C0'', ''Basic_C1'', ''Basic_C2'', ''Basic_C3'', ''Basic_C4'', ''Basic_C5'', ''Basic_C6'',
     ''Standard_C0'', ''Standard_C1'', ''Standard_C2'', ''Standard_C3'', ''Standard_C4'', ''Standard_C5'', ''Standard_C6'',
     ''Premium_P1'', ''Premium_P2'', ''Premium_P3'', ''Premium_P4'', ''Premium_P5'']"

definition collectSKUsFromCaches :: "(nat \<Rightarrow> go_error option) \<Rightarrow> ('p, redis_cache option list) sdk_pager \<Rightarrow> 'p \<Rightarrow> (go_error + go_string list) option" where
  "collectSKUsFromCaches ctx_err pgr p = (case page_walk maxCachesPages ctx_err pgr never 0 p of (pages, i, stopped) \<Rightarrow>
     map_option (kept_or_error (Some (errorf ''cache: GetValidResourceTypes pagination cap (%d pages) reached'' [ArgI (int maxCachesPages)]))
       (\<lambda>i e. wrapf ''cache: GetValidResourceTypes context canceled after %d pages: %w'' [ArgI (int i), ArgS (err_text e)] [e]) stopped i)
       (collect_some (\<lambda>cache. Some (let fullSKU = extractSKUFromCache cache in if fullSKU \<noteq> [] then [fullSKU] else [])) (concat pages)))"

definition cache_GetValidResourceTypes :: "(go_string list \<Rightarrow> go_string list) \<Rightarrow> (nat \<Rightarrow> go_error option)
    \<Rightarrow> ('p, redis_cache option list) sdk_pager \<Rightarrow> go_error + 'p \<Rightarrow> (go_error + go_string list) option" where
  "cache_GetValidResourceTypes iter ctx_err pgr pager = (case pager of
     Inl e \<Rightarrow> Some (Inr redis_commonSKUs)
   | Inr p \<Rightarrow> map_option (map_sum id (found_or_common iter redis_commonSKUs)) (collectSKUsFromCaches ctx_err pgr p))"

definition managedredis_collectSKUsFromPager :: "(nat \<Rightarrow> go_error option) \<Rightarrow> ('p, redis_cache option list) sdk_pager \<Rightarrow> 'p \<Rightarrow> go_error + go_string list" where
  "managedredis_collectSKUsFromPager ctx_err pgr p = (case page_walk maxCachesPages ctx_err pgr never 0 p of (pages, i, stopped) \<Rightarrow>
     (case stopped of
       WalkCancelled e \<Rightarrow> Inl (wrapf ''managedredis: list caches: context canceled during pagination: %w'' [ArgS (err_text e)] [e])
     | WalkCapped \<Rightarrow> Inl (errorf ''managedredis: list caches: pagination cap (%d pages) reached'' [ArgI (int maxCachesPages)])
     | WalkFailed e \<Rightarrow> Inl e
     | _ \<Rightarrow> Inr (filter (\<lambda>name. name \<noteq> []) (map extractSKUName (concat pages)))))"

definition managedredis_GetValidResourceTypes :: "(go_string list \<Rightarrow> go_string list) \<Rightarrow> (nat \<Rightarrow> go_error option)
    \<Rightarrow> ('p, redis_cache option list) sdk_pager \<Rightarrow> go_error + 'p \<Rightarrow> go_error + go_string list" where
  "managedredis_GetValidResourceTypes iter ctx_err pgr pager = (case pager of
     Inl e \<Rightarrow> Inr redis_commonSKUs
   | Inr p \<Rightarrow> (case managedredis_collectSKUsFromPager ctx_err pgr p of
       Inl e \<Rightarrow> Inr redis_commonSKUs
     | Inr names \<Rightarrow> Inr (found_or_common iter redis_commonSKUs names)))"

definition synapse_GetValidResourceTypes :: "go_string list" where
  "synapse_GetValidResourceTypes = [''DW100c'', ''DW200c'', ''DW300c'', ''DW400c'', ''DW500c'', ''DW1000c'', ''DW1500c'', ''DW2000c'',
     ''DW2500c'', ''DW3000c'', ''DW5000c'', ''DW6000c'', ''DW7500c'', ''DW10000c'', ''DW15000c'', ''DW30000c'']"

section \<open>A walk that was done read the whole listing\<close>

inductive listing :: "('p, 'a) sdk_pager \<Rightarrow> 'p \<Rightarrow> 'a list \<Rightarrow> bool" for pgr where
  listing_end: "\<not> pgr_more pgr p \<Longrightarrow> listing pgr p []"
| listing_page: "pgr_more pgr p \<Longrightarrow> pgr_next pgr p = (Inr page, p') \<Longrightarrow> listing pgr p' pages \<Longrightarrow> listing pgr p (page # pages)"

inductive_cases listing_Nil: "listing pgr p []"
inductive_cases listing_Cons: "listing pgr p (page # pages)"

lemma listing_unique: "listing pgr p xs \<Longrightarrow> listing pgr p ys \<Longrightarrow> xs = ys"
proof (induction arbitrary: ys rule: listing.induct)
  case (listing_end p)
  then show ?case by (auto elim: listing.cases)
next
  case (listing_page p page p' pages)
  from listing_page.prems listing_page.hyps(1,2) obtain zs where "ys = page # zs" "listing pgr p' zs" by (auto elim: listing.cases)
  with listing_page.IH show ?case by simp
qed

lemma page_walk_listing:
  "page_walk cap ctx_err pgr stop k p = (pages, i, WalkDone) \<Longrightarrow> listing pgr p pages \<and> list_all (\<lambda>page. \<not> stop page) pages"
proof (induction cap ctx_err pgr stop k p arbitrary: pages i rule: page_walk.induct)
  case (1 cap ctx_err pgr stop k p)
  show ?case
  proof (cases "pgr_more pgr p")
    case False
    with 1(2) show ?thesis by (auto simp: page_walk.simps [of cap ctx_err pgr stop k p] intro: listing_end)
  next
    case True
    from 1(2) True have c: "ctx_err k = None" "\<not> k \<ge> cap"
      by (auto simp: page_walk.simps [of cap ctx_err pgr stop k p] split: option.splits if_splits)
    obtain r p' where n: "pgr_next pgr p = (r, p')" by force
    from 1(2) True c n obtain page where r: "r = Inr page" "\<not> stop page"
      by (auto simp: page_walk.simps [of cap ctx_err pgr stop k p] split: sum.splits if_splits)
    obtain ps j e where w: "page_walk cap ctx_err pgr stop (Suc k) p' = (ps, j, e)" by (metis prod_cases3)
    with 1(2) True c n r have pages: "pages = page # ps" "e = WalkDone"
      by (auto simp: page_walk.simps [of cap ctx_err pgr stop k p])
    have "listing pgr p' ps \<and> list_all (\<lambda>page. \<not> stop page) ps"
      by (rule 1(1) [OF _ c _ r]) (use True n r w pages in simp_all)
    with True n r pages show ?thesis by (auto intro: listing_page)
  qed
qed

lemma page_walk_stopped:
  "page_walk cap ctx_err pgr stop k p = (pages, i, WalkStopped) \<Longrightarrow> pages \<noteq> [] \<and> stop (last pages)"
proof (induction cap ctx_err pgr stop k p arbitrary: pages i rule: page_walk.induct)
  case (1 cap ctx_err pgr stop k p)
  from 1(2) have c: "pgr_more pgr p" "ctx_err k = None" "\<not> k \<ge> cap"
    by (auto simp: page_walk.simps [of cap ctx_err pgr stop k p] split: option.splits if_splits)
  obtain r p' where n: "pgr_next pgr p = (r, p')" by force
  from 1(2) c n obtain page where r: "r = Inr page"
    by (auto simp: page_walk.simps [of cap ctx_err pgr stop k p] split: sum.splits if_splits)
  show ?case
  proof (cases "stop page")
    case True
    with 1(2) c n r show ?thesis by (auto simp: page_walk.simps [of cap ctx_err pgr stop k p])
  next
    case False
    obtain ps j e where w: "page_walk cap ctx_err pgr stop (Suc k) p' = (ps, j, e)" by (metis prod_cases3)
    with 1(2) c n r False have pages: "pages = page # ps" "e = WalkStopped"
      by (auto simp: page_walk.simps [of cap ctx_err pgr stop k p])
    have "ps \<noteq> [] \<and> stop (last ps)"
      by (rule 1(1) [OF _ c(2,3) _ r False]) (use c n r w pages in simp_all)
    with pages show ?thesis by simp
  qed
qed

text \<open>A pager over given answers, for the examples.\<close>

definition answers_pager :: "((go_error + 'a) list, 'a) sdk_pager" where
  "answers_pager = \<lparr>pgr_more = (\<lambda>p. p \<noteq> []), pgr_next = (\<lambda>p. (hd p, tl p))\<rparr>"

lemma answers_pager_simps [simp]: "pgr_more answers_pager p \<longleftrightarrow> p \<noteq> []" "pgr_next answers_pager p = (hd p, tl p)"
  by (simp_all add: answers_pager_def)

lemma answers_walk [simp]:
  "page_walk cap ctx_err answers_pager stop k [] = ([], k, WalkDone)"
  "ctx_err k = None \<Longrightarrow> k < cap \<Longrightarrow> page_walk cap ctx_err answers_pager stop k (Inl e # p) = ([], k, WalkFailed e)"
  "ctx_err k = None \<Longrightarrow> k < cap \<Longrightarrow> page_walk cap ctx_err answers_pager stop k (Inr page # p) =
     (if stop page then ([page], k, WalkStopped)
      else (case page_walk cap ctx_err answers_pager stop (Suc k) p of (pages, i, e) \<Rightarrow> (page # pages, i, e)))"
  by (simp_all add: page_walk.simps [of cap ctx_err answers_pager stop k])

section \<open>What the lookups promise\<close>

lemma walkManagedInstances_Some:
  "walkManagedInstances ctx_err pgr pager = Some n \<Longrightarrow> \<exists>p pages. pager = Inr p \<and> listing pgr p pages \<and> n = tallyManagedInstances (concat pages)"
  by (auto simp: walkManagedInstances_def dest: page_walk_listing split: sum.splits prod.splits if_splits)

lemma hasRegularServers_False:
  "hasRegularServers ctx_err pgr pager = Some False \<Longrightarrow> \<exists>p pages. pager = Inr p \<and> listing pgr p pages \<and> concat pages = []"
  by (fastforce simp: hasRegularServers_def list_all_iff dest: page_walk_listing split: sum.splits prod.splits if_splits)

lemma server_signals_sound:
  assumes "server_signals (a, b, m) has = (az, dep)"
  shows "az = ''zoneRedundant'' \<Longrightarrow> 0 < a \<and> b = 0" "az = ''none'' \<Longrightarrow> 0 < b \<and> a = 0"
    "dep = ''managed'' \<Longrightarrow> 0 < m \<and> \<not> has" "dep = ''single'' \<Longrightarrow> m = 0 \<and> has"
  using assms by (auto simp: server_signals_def Let_def split: if_splits)

lemma filter_count: "length (filter (\<lambda>m. m = x) xs) = 0 \<longleftrightarrow> x \<notin> set xs" "0 < length (filter (\<lambda>m. m = x) xs) \<longleftrightarrow> x \<in> set xs"
  by (auto simp: filter_empty_conv)

text \<open>The survey of SQL servers never guesses. When \<open>fetchServerInfo\<close> answers, the list of managed instances was read to its end;
  it says zone redundant (or not) only when some instance says so and none says otherwise, ``managed'' only when there is an instance
  and the list of servers, read to its end, is empty, and ``single'' only when there are servers and no instance.\<close>

theorem survey_never_guesses:
  "fetchServerInfo v = Some (az, dep) \<Longrightarrow> \<exists>p pages. su_managed v = Inr p \<and> listing (su_managed_pgr v) p pages
     \<and> (az = ''zoneRedundant'' \<longrightarrow> Some (Some (Some True)) \<in> set (concat pages) \<and> Some (Some (Some False)) \<notin> set (concat pages))
     \<and> (az = ''none'' \<longrightarrow> Some (Some (Some False)) \<in> set (concat pages) \<and> Some (Some (Some True)) \<notin> set (concat pages))
     \<and> (dep = ''managed'' \<longrightarrow> concat pages \<noteq> [] \<and> (\<exists>q spages. su_servers v = Inr q \<and> listing (su_servers_pgr v) q spages \<and> concat spages = []))
     \<and> (dep = ''single'' \<longrightarrow> concat pages = [] \<and> hasRegularServers (su_ctx_servers v) (su_servers_pgr v) (su_servers v) = Some True)"
proof -
  assume "fetchServerInfo v = Some (az, dep)"
  then obtain n has where n: "walkManagedInstances (su_ctx_managed v) (su_managed_pgr v) (su_managed v) = Some n"
    "hasRegularServers (su_ctx_servers v) (su_servers_pgr v) (su_servers v) = Some has" "server_signals n has = (az, dep)"
    by (auto simp: fetchServerInfo_def split: option.splits)
  from walkManagedInstances_Some [OF n(1)] obtain p pages where p: "su_managed v = Inr p" "listing (su_managed_pgr v) p pages"
    "n = tallyManagedInstances (concat pages)" by blast
  let ?i = "concat pages"
  note sig = server_signals_sound [OF n(3) [unfolded p(3) tallyManagedInstances_def], unfolded filter_count]
  have "\<exists>q spages. su_servers v = Inr q \<and> listing (su_servers_pgr v) q spages \<and> concat spages = []" if "\<not> has"
    using hasRegularServers_False n(2) that by simp
  with p sig n(2) show ?thesis by (intro exI [of _ p] exI [of _ pages]) simp
qed

definition demo_survey :: "((go_error + managed_instance list) list, unit) survey" where
  "demo_survey = \<lparr>su_ctx_managed = (\<lambda>_. None), su_ctx_servers = (\<lambda>_. None),
     su_managed = Inr [Inr [Some (Some (Some True)), Some None], Inr [Some (Some (Some True))]], su_managed_pgr = answers_pager,
     su_servers = Inr [], su_servers_pgr = \<lparr>pgr_more = (\<lambda>p. p \<noteq> []), pgr_next = (\<lambda>p. (Inr [], tl p))\<rparr>\<rparr>"

theorem survey_never_guesses_witness:
  "\<exists>p pages. su_managed demo_survey = Inr p \<and> listing (su_managed_pgr demo_survey) p pages \<and> Some (Some (Some False)) \<notin> set (concat pages)"
proof -
  have "fetchServerInfo demo_survey = Some (''zoneRedundant'', ''managed'')"
    by (simp add: fetchServerInfo_def demo_survey_def walkManagedInstances_def maxSQLListPages_def hasRegularServers_def
        page_walk.simps [where p = "[]"] tallyManagedInstances_def server_signals_def)
  from survey_never_guesses [OF this] show ?thesis by blast
qed

text \<open>An incomplete survey is never remembered, and a complete one is never repeated. A call that answers something has
  remembered it, and every later call gives the same answer without a walk; what is remembered is the answer of a complete walk;
  and after a walk that ended early, unless the caller had cancelled it, calls before the retry time answer ``unknown'' without a walk.\<close>

theorem survey_cached_when_complete:
  "serverInfo clock cancelled walk (c, s) = (info, (c', s')) \<Longrightarrow>
     (info \<noteq> ([], []) \<longrightarrow> sc_info c' = Some info)
     \<and> (\<forall>i t. sc_info c' = Some i \<longrightarrow> serverInfo clock cancelled walk (c', t) = (i, (c', t)))
     \<and> (sc_info c' \<noteq> sc_info c \<longrightarrow> sc_info c = None \<and> fst (walk s) = sc_info c')
     \<and> (\<forall>t. sc_info c' = None \<and> clock t < sc_retryAfter c' \<longrightarrow> serverInfo clock cancelled walk (c', t) = (([], []), (c', t)))
     \<and> (sc_info c' = None \<and> \<not> clock s < sc_retryAfter c \<and> \<not> cancelled s' \<longrightarrow>
          sc_retryAfter c' = clock s' + (if sc_retryDelay c = 0 then 30 * 1000000000 else sc_retryDelay c))"
  by (auto simp: serverInfo_def serverInfoRetryDelayDefault_def split: option.splits prod.splits if_splits)

text \<open>A clock that is its world; walks before the time 10 fail.\<close>

definition demo_walk :: "int \<Rightarrow> (go_string \<times> go_string) option \<times> int" where
  "demo_walk t = (if t < 10 then None else Some (''none'', ''single''), t + 1)"

theorem survey_cached_when_complete_witness:
  "serverInfo id (\<lambda>_. False) demo_walk (\<lparr>sc_info = Some (''none'', ''single''), sc_retryAfter = 0, sc_retryDelay = 5\<rparr>, 99)
     = ((''none'', ''single''), (\<lparr>sc_info = Some (''none'', ''single''), sc_retryAfter = 0, sc_retryDelay = 5\<rparr>, 99))
   \<and> serverInfo id (\<lambda>_. False) demo_walk (\<lparr>sc_info = None, sc_retryAfter = 7, sc_retryDelay = 5\<rparr>, 6)
     = (([], []), (\<lparr>sc_info = None, sc_retryAfter = 7, sc_retryDelay = 5\<rparr>, 6))"
proof -
  have a: "serverInfo id (\<lambda>_. False) demo_walk (\<lparr>sc_info = None, sc_retryAfter = 0, sc_retryDelay = 5\<rparr>, 20)
     = ((''none'', ''single''), (\<lparr>sc_info = Some (''none'', ''single''), sc_retryAfter = 0, sc_retryDelay = 5\<rparr>, 21))"
    and b: "serverInfo id (\<lambda>_. False) demo_walk (\<lparr>sc_info = None, sc_retryAfter = 0, sc_retryDelay = 5\<rparr>, 1)
     = (([], []), (\<lparr>sc_info = None, sc_retryAfter = 7, sc_retryDelay = 5\<rparr>, 2))"
    by (simp_all add: serverInfo_def demo_walk_def)
  show ?thesis using survey_cached_when_complete [OF a] survey_cached_when_complete [OF b] by simp
qed

lemma single_remdups: "remdups (filter P xs) = [x] \<Longrightarrow> x \<in> set xs \<and> (\<forall>y \<in> set xs. P y \<longrightarrow> y = x)"
proof -
  assume r: "remdups (filter P xs) = [x]"
  then have "set (filter P xs) = {x}" by (metis list.set(1,2) set_remdups)
  then show ?thesis by auto
qed

text \<open>The Cosmos API type is never guessed: \<open>fetchDominantAPIType\<close> names a type only when the list of accounts was read to its
  end, some account has that type, and every other account has the same type or none.\<close>

theorem api_type_never_guessed:
  "fetchDominantAPIType ctx_err pgr pager = api \<Longrightarrow> api \<noteq> [] \<Longrightarrow> \<exists>p pages. pager = Inr p \<and> listing pgr p pages
     \<and> api \<in> apiTypeFromAccount ` set (concat pages) \<and> apiTypeFromAccount ` set (concat pages) \<subseteq> {[], api}"
proof -
  assume a: "fetchDominantAPIType ctx_err pgr pager = api" "api \<noteq> []"
  then obtain p pages i where p: "pager = Inr p" "page_walk maxAccountsPages ctx_err pgr never 0 p = (pages, i, WalkDone)"
    "remdups (filter (\<lambda>api. api \<noteq> []) (map apiTypeFromAccount (concat pages))) = [api]"
    by (auto simp: fetchDominantAPIType_def split: sum.splits prod.splits if_splits list.splits)
  from single_remdups [OF p(3)] page_walk_listing [OF p(2)] p(1) show ?thesis by auto
qed

theorem api_type_never_guessed_witness:
  "\<exists>p pages. (Inr [Inr [Some \<lparr>co_Kind = Some ''MongoDB'', co_Properties = None\<rparr>]] :: go_error + _) = Inr p
     \<and> listing answers_pager p pages \<and> ''mongodb'' \<in> apiTypeFromAccount ` set (concat pages)"
proof -
  have "fetchDominantAPIType (\<lambda>_. None) answers_pager (Inr [Inr [Some \<lparr>co_Kind = Some ''MongoDB'', co_Properties = None\<rparr>]]) = ''mongodb''"
    by (simp add: fetchDominantAPIType_def maxAccountsPages_def apiTypeFromAccount_def)
  from api_type_never_guessed [OF this] show ?thesis by auto
qed

lemma show_int_one: "show_int 1 = ''1''"
  by code_simp

text \<open>
  The cache client answers with the SKUs of the pages it read when a later page fails, where its comment says it falls back to
  the known families; the managed Redis client discards them.
\<close>

lemma cache_types_partial:
  "cache_GetValidResourceTypes id (\<lambda>_. None) answers_pager
     (Inr [Inr [Some (Some (Some \<lparr>rk_Name = Some ''Premium'', rk_Family = Some ''P'', rk_Capacity = Some 1\<rparr>))], Inl e]) = Some (Inr [''Premium_P1''])"
  "managedredis_GetValidResourceTypes id (\<lambda>_. None) answers_pager
     (Inr [Inr [Some (Some (Some \<lparr>rk_Name = Some ''Premium'', rk_Family = Some ''P'', rk_Capacity = Some 1\<rparr>))], Inl e]) = Inr redis_commonSKUs"
  by (simp_all add: cache_GetValidResourceTypes_def collectSKUsFromCaches_def maxCachesPages_def kept_or_error_def found_or_common_def
      extractSKUFromCache_def full_sku_def managedredis_GetValidResourceTypes_def managedredis_collectSKUsFromPager_def show_int_one)

end
