(* ===== verification/Az_Collect.thy ===== *)
theory Az_Collect
  imports Az_Catalog
begin

text \<open>
  The \<open>GetRecommendations\<close> of the Azure clients: page by page, each row of the response is converted, priced and
  expanded into its two payment variants. \<open>consumption_client\<close> is the contract of a client's converter; under it
  every row of a collection is accounted for.
\<close>

section \<open>Collecting\<close>

definition maxRecsPages :: nat where
  "maxRecsPages = 10"

text \<open>
  What the clients differ in: the label of the service, the conversion of a row, the region filter (\<open>synapse\<close> only), the
  prices, and the messages for a failed page.
\<close>

record 's rec_client =
  rc_name :: go_string
  rc_convert :: "reservation_rec option \<Rightarrow> 's collection \<Rightarrow> Recommendation option \<times> 's collection"
  rc_keep :: "Recommendation \<Rightarrow> bool"
  rc_pricer :: "'s Pricer"
  rc_failed :: go_string

fun appendPage :: "'s rec_client \<Rightarrow> Recommendation list \<Rightarrow> reservation_rec option list \<Rightarrow> 's collection
    \<Rightarrow> (Recommendation list \<times> go_error option) \<times> 's collection" where
  "appendPage c recs [] s = ((recs, None), s)"
| "appendPage c recs (rec # page) s = (case rc_convert c rec s of
     (None, s1) \<Rightarrow> appendPage c recs page s1
   | (Some converted, s1) \<Rightarrow>
       if \<not> rc_keep c converted then appendPage c recs page s1
       else (case AppendConsumptionVariants (rc_name c) recs converted (rc_pricer c) s1 of
         ((recs', Some e), s2) \<Rightarrow> ((recs', Some e), s2)
       | ((recs', None), s2) \<Rightarrow> appendPage c recs' page s2))"

function recommendations_loop :: "nat \<Rightarrow> (nat \<Rightarrow> go_error option) \<Rightarrow> ('p, reservation_rec option list) sdk_pager \<Rightarrow> 's rec_client
    \<Rightarrow> nat \<Rightarrow> 'p \<Rightarrow> Recommendation list \<Rightarrow> 's collection \<Rightarrow> (Recommendation list \<times> go_error option) \<times> 's collection" where
  "recommendations_loop cap ctx_err pgr c pageIdx p recs s =
    (if \<not> pgr_more pgr p then ((recs, None), s)
     else case ctx_err pageIdx of
       Some e \<Rightarrow> (([], Some (wrapf ''context canceled during pagination: %w'' [ArgS (err_text e)] [e])), s)
     | None \<Rightarrow>
         if pageIdx \<ge> cap then (([], Some (errorf (rc_name c @ '': GetRecommendations pagination cap (%d pages) reached'') [ArgI (int cap)])), s)
         else (case pgr_next pgr p of
           (Inl e, p') \<Rightarrow> (([], Some (wrapf (''failed to get '' @ rc_failed c @ '' recommendations: %w'') [ArgS (err_text e)] [e])), s)
         | (Inr page, p') \<Rightarrow> (case appendPage c recs page s of
             ((recs', Some e), s') \<Rightarrow> ((recs', Some e), s')
           | ((recs', None), s') \<Rightarrow> recommendations_loop cap ctx_err pgr c (Suc pageIdx) p' recs' s')))"
  by pat_completeness auto
termination
  by (relation "measure (\<lambda>(cap, ctx_err, pgr, c, pageIdx, p, recs, s). cap - pageIdx)") auto

declare recommendations_loop.simps [simp del]

text \<open>
  \<open>pager\<close>: the error of the SDK's constructor, or the injected or created pager's state. The \<open>Pricer\<close> is new: its
  cache starts empty.
\<close>

definition collect_recommendations :: "'s rec_client \<Rightarrow> (nat \<Rightarrow> go_error option) \<Rightarrow> ('p, reservation_rec option list) sdk_pager
    \<Rightarrow> go_error + 'p \<Rightarrow> 's collection \<Rightarrow> (Recommendation list \<times> go_error option) \<times> 's collection" where
  "collect_recommendations c ctx_err pgr pager s = (case pager of
     Inl e \<Rightarrow> (([], Some (wrapf ''failed to create consumption client: %w'' [ArgS (err_text e)] [e])), s)
   | Inr p \<Rightarrow> recommendations_loop maxRecsPages ctx_err pgr c 0 p [] (s\<lparr>co_cache := Map.empty\<rparr>))"

section \<open>The clients\<close>

definition unit_price :: "'w price_lookup \<Rightarrow> 'w price_env \<Rightarrow> 'w az_state PriceFunc" where
  "unit_price get env sku region termYears s = (case get env sku region termYears s of
     (Inl e, s') \<Rightarrow> (Inl e, s')
   | (Inr p, s') \<Rightarrow> (Inr \<lparr>vp_Currency = ap_Currency p, vp_Total = ap_ReservationPrice p\<rparr>, s'))"

definition consumption_rec :: "azure_client \<Rightarrow> go_string \<Rightarrow> ServiceDetails \<Rightarrow> go_time \<Rightarrow> ExtractedFields \<Rightarrow> Recommendation" where
  "consumption_rec c service details now f = zero_rec\<lparr>r_Provider := ''azure'', r_Service := service, r_Account := ac_subscriptionID c,
     r_Region := xf_Region f, r_ResourceType := xf_ResourceType f, r_Count := xf_Count f, r_OnDemandCost := xf_OnDemandCost f,
     r_CommitmentCost := xf_CommitmentCost f, r_EstimatedSavings := xf_EstimatedSavings f,
     r_RecurringMonthlyCost := xf_RecurringMonthlyCost f, r_CommitmentType := CommitmentReservedInstance, r_Term := xf_Term f,
     r_PaymentOption := ''upfront'', r_Timestamp := now, r_Details := Some details\<rparr>"

text \<open>
  The converters: \<open>enrich\<close> gives the details and may use the world (the catalogs and the survey the client caches there).
\<close>

definition convert_row :: "int \<Rightarrow> go_string \<Rightarrow> (ExtractedFields \<Rightarrow> 's \<Rightarrow> Recommendation \<times> 's) \<Rightarrow> reservation_rec option \<Rightarrow> 's collection
    \<Rightarrow> Recommendation option \<times> 's collection" where
  "convert_row ovf name build rec s = (case ExtractConsumptionOrSkip ovf name rec s of
     (None, s') \<Rightarrow> (None, s')
   | (Some f, s') \<Rightarrow> (case build f (co_world s') of (r, w) \<Rightarrow> (Some r, s'\<lparr>co_world := w\<rparr>)))"

definition vm_details :: "(go_string, vmSKUEntry) go_map option \<Rightarrow> go_string \<Rightarrow> ComputeDetails" where
  "vm_details catalog sku = (let d = \<lparr>cd_InstanceType = sku, cd_Platform = [], cd_Tenancy = [], cd_Scope = [], cd_AvailabilityZone = [],
       cd_GCPCommitmentType = [], cd_VCPU = 0, cd_MemoryGB = 0\<rparr>
     in case cachedSKULookup catalog sku of None \<Rightarrow> d
     | Some entry \<Rightarrow> d\<lparr>cd_VCPU := (if ve_vCPUs entry > 0 then ve_vCPUs entry else 0),
         cd_MemoryGB := (if ve_memoryGB entry > 0 then ve_memoryGB entry else 0)\<rparr>)"

definition convertAzureVMRecommendation :: "int \<Rightarrow> azure_client \<Rightarrow> (go_string, vmSKUEntry) go_map option \<Rightarrow> ('s \<Rightarrow> go_time)
    \<Rightarrow> reservation_rec option \<Rightarrow> 's collection \<Rightarrow> Recommendation option \<times> 's collection" where
  "convertAzureVMRecommendation ovf c catalog clock = convert_row ovf ''compute''
     (\<lambda>f w. (consumption_rec c ServiceCompute (ComputeD (ByVal (vm_details catalog (xf_ResourceType f)))) (clock w) f, w))"

text \<open>The database client's world holds its cached survey beside the rest; \<open>walk\<close> runs a survey.\<close>

definition sql_details :: "(go_string, go_string) go_map option \<Rightarrow> go_string \<Rightarrow> go_string \<Rightarrow> go_string \<Rightarrow> DatabaseDetails" where
  "sql_details catalog az dep sku = (let d = detailsFromSQLSKU sku
     in d\<lparr>dd_EngineVersion := (case cachedSKULookup catalog sku of Some v \<Rightarrow> v | None \<Rightarrow> []), dd_AZConfig := az, dd_Deployment := dep\<rparr>)"

definition convertAzureSQLRecommendation :: "int \<Rightarrow> azure_client \<Rightarrow> (go_string, go_string) go_map option \<Rightarrow> ('w \<Rightarrow> go_time) \<Rightarrow> ('w \<Rightarrow> bool)
    \<Rightarrow> ('w \<Rightarrow> (go_string \<times> go_string) option \<times> 'w) \<Rightarrow> reservation_rec option \<Rightarrow> (server_cache \<times> 'w) collection
    \<Rightarrow> Recommendation option \<times> (server_cache \<times> 'w) collection" where
  "convertAzureSQLRecommendation ovf c catalog clock cancelled walk = convert_row ovf ''database'' (\<lambda>f w.
     (case serverInfo clock cancelled walk w of ((az, _), w1) \<Rightarrow> (case serverInfo clock cancelled walk w1 of ((_, dep), w2) \<Rightarrow>
       (consumption_rec c ServiceRelationalDB (DatabaseD (ByPtr (Some (sql_details catalog az dep (xf_ResourceType f))))) (clock (snd w2)) f, w2))))"

definition convertAzureCosmosRecommendation :: "int \<Rightarrow> azure_client \<Rightarrow> go_string \<Rightarrow> ('s \<Rightarrow> go_time)
    \<Rightarrow> reservation_rec option \<Rightarrow> 's collection \<Rightarrow> Recommendation option \<times> 's collection" where
  "convertAzureCosmosRecommendation ovf c apiType clock = convert_row ovf ''cosmosdb'' (\<lambda>f w.
     (consumption_rec c ServiceNoSQL (NoSQLD (ByVal ((detailsFromCosmosSKU (xf_ResourceType f))\<lparr>nd_APIType := apiType\<rparr>))) (clock w) f, w))"

definition convertSynapseRecommendation :: "int \<Rightarrow> azure_client \<Rightarrow> ('s \<Rightarrow> go_time)
    \<Rightarrow> reservation_rec option \<Rightarrow> 's collection \<Rightarrow> Recommendation option \<times> 's collection" where
  "convertSynapseRecommendation ovf c clock = convert_row ovf ''synapse'' (\<lambda>f w.
     (consumption_rec c ServiceDataWarehouse (DataWarehouseD (ByVal \<lparr>wd_NodeType = xf_ResourceType f, wd_ClusterType = ''dedicated-sql-pool'',
        wd_NumberOfNodes = 0\<rparr>)) (clock w) f, w))"

definition redis_Details :: "go_string \<Rightarrow> CacheDetails" where
  "redis_Details resourceType = \<lparr>hd_Engine = ''redis'', hd_NodeType = resourceType, hd_Shards = 0\<rparr>"

definition redis_convertRecommendation :: "int \<Rightarrow> azure_client \<Rightarrow> ('s \<Rightarrow> go_time)
    \<Rightarrow> reservation_rec option \<Rightarrow> 's collection \<Rightarrow> Recommendation option \<times> 's collection" where
  "redis_convertRecommendation ovf c clock = convert_row ovf ''managedredis'' (\<lambda>f w.
     (consumption_rec c ServiceMemoryDB (CacheD (ByPtr (Some (redis_Details (xf_ResourceType f))))) (clock w) f, w))"

definition convertAzureSearchRecommendation :: "int \<Rightarrow> azure_client \<Rightarrow> ('s \<Rightarrow> go_time)
    \<Rightarrow> reservation_rec option \<Rightarrow> 's collection \<Rightarrow> Recommendation option \<times> 's collection" where
  "convertAzureSearchRecommendation ovf c clock = convert_row ovf ''search'' (\<lambda>f w.
     (let r = zero_rec\<lparr>r_Provider := ''azure'', r_Service := ServiceSearch, r_Account := ac_subscriptionID c,
        r_CommitmentType := CommitmentReservedInstance, r_Timestamp := clock w, r_Region := xf_Region f, r_ResourceType := xf_ResourceType f,
        r_Count := xf_Count f, r_OnDemandCost := xf_OnDemandCost f, r_CommitmentCost := xf_CommitmentCost f,
        r_EstimatedSavings := xf_EstimatedSavings f, r_Term := xf_Term f, r_RecurringMonthlyCost := xf_RecurringMonthlyCost f,
        r_PaymentOption := ''upfront''\<rparr>
      in if r_Region r = [] then r\<lparr>r_Region := ac_region c\<rparr> else r, w))"

definition compute_recs :: "int \<Rightarrow> azure_client \<Rightarrow> (go_string, vmSKUEntry) go_map option \<Rightarrow> ('w az_state \<Rightarrow> go_time) \<Rightarrow> 'w price_env
    \<Rightarrow> 'w az_state rec_client" where
  "compute_recs ovf c catalog clock env = \<lparr>rc_name = ''compute'', rc_convert = convertAzureVMRecommendation ovf c catalog clock,
     rc_keep = (\<lambda>_. True), rc_pricer = \<lparr>pc_service = ''compute'', pc_lookup = unit_price getVMPricing env\<rparr>, rc_failed = ''VM''\<rparr>"

definition lift_price :: "'w PriceFunc \<Rightarrow> ('a \<times> 'w) PriceFunc" where
  "lift_price f sku region y s = (case f sku region y (snd s) of (r, w) \<Rightarrow> (r, (fst s, w)))"

definition database_recs :: "int \<Rightarrow> azure_client \<Rightarrow> (go_string, go_string) go_map option \<Rightarrow> ('w az_state \<Rightarrow> go_time) \<Rightarrow> ('w az_state \<Rightarrow> bool)
    \<Rightarrow> ('w az_state \<Rightarrow> (go_string \<times> go_string) option \<times> 'w az_state) \<Rightarrow> 'w price_env \<Rightarrow> (server_cache \<times> 'w az_state) rec_client" where
  "database_recs ovf c catalog clock cancelled walk env = \<lparr>rc_name = ''database'',
     rc_convert = convertAzureSQLRecommendation ovf c catalog clock cancelled walk, rc_keep = (\<lambda>_. True),
     rc_pricer = \<lparr>pc_service = ''database'', pc_lookup = lift_price (unit_price getSQLPricing env)\<rparr>, rc_failed = ''SQL''\<rparr>"

definition cosmosdb_recs :: "int \<Rightarrow> azure_client \<Rightarrow> go_string \<Rightarrow> ('w az_state \<Rightarrow> go_time) \<Rightarrow> 'w price_env \<Rightarrow> 'w az_state rec_client" where
  "cosmosdb_recs ovf c apiType clock env = \<lparr>rc_name = ''cosmosdb'', rc_convert = convertAzureCosmosRecommendation ovf c apiType clock,
     rc_keep = (\<lambda>_. True), rc_pricer = \<lparr>pc_service = ''cosmosdb'', pc_lookup = unit_price getCosmosPricing env\<rparr>, rc_failed = ''Cosmos DB''\<rparr>"

definition synapse_recs :: "int \<Rightarrow> azure_client \<Rightarrow> ('w az_state \<Rightarrow> go_time) \<Rightarrow> 'w price_env \<Rightarrow> 'w az_state rec_client" where
  "synapse_recs ovf c clock env = \<lparr>rc_name = ''synapse'', rc_convert = convertSynapseRecommendation ovf c clock,
     rc_keep = (\<lambda>r. ac_region c = [] \<or> equal_fold (r_Region r) (ac_region c)),
     rc_pricer = \<lparr>pc_service = ''synapse'', pc_lookup = unit_price getSynapsePricing env\<rparr>, rc_failed = ''Synapse''\<rparr>"

definition managedredis_recs :: "int \<Rightarrow> azure_client \<Rightarrow> ('w az_state \<Rightarrow> go_time) \<Rightarrow> 'w price_env \<Rightarrow> 'w az_state rec_client" where
  "managedredis_recs ovf c clock env = \<lparr>rc_name = ''managedredis'', rc_convert = redis_convertRecommendation ovf c clock,
     rc_keep = (\<lambda>_. True), rc_pricer = \<lparr>pc_service = ''managedredis'', pc_lookup = unit_price managedredis_getRedisPricing env\<rparr>,
     rc_failed = ''Redis Cache''\<rparr>"

definition search_GetRecommendations :: "Recommendation list \<times> go_error option" where
  "search_GetRecommendations = ([], None)"

definition cache_GetRecommendations :: "Recommendation list \<times> go_error option" where
  "cache_GetRecommendations = ([], None)"

section \<open>The contract of a converter\<close>

text \<open>What a converted recommendation takes from the fields of its row.\<close>

definition describes :: "Recommendation \<Rightarrow> ExtractedFields \<Rightarrow> bool" where
  "describes r f \<longleftrightarrow> (r_ResourceType r, r_Region r, r_Term r, r_Count r, r_OnDemandCost r, r_EstimatedSavings r)
     = (xf_ResourceType f, xf_Region f, xf_Term f, xf_Count f, xf_OnDemandCost f, xf_EstimatedSavings f)"

datatype row_fate = Unusable | OtherRegion | Skipped skip | Priced "Recommendation list"

definition skip_entry :: "go_string \<Rightarrow> go_error \<Rightarrow> skip" where
  "skip_entry name e = (sprintf ''%s: %v'' [ArgS name, ArgS (err_text e)],
     if IsCollectionFailure e then SkipPriceLookupUnavailable else SkipUnpriceable)"

lemma RecordSkip_entry: "RecordSkip name e s = s\<lparr>co_skips := map_option (\<lambda>l. l @ [skip_entry name e]) (co_skips s)\<rparr>"
  by (simp add: RecordSkip_def RecordSkipKind_def skip_entry_def)

definition price_key :: "ExtractedFields \<Rightarrow> int \<Rightarrow> priceKey" where
  "price_key f years = \<lparr>pk_resourceType = xf_ResourceType f, pk_region = xf_Region f, pk_termYears = years\<rparr>"

text \<open>A price that some lookup of this key answered.\<close>

definition catalog_price :: "'s Pricer \<Rightarrow> priceKey \<Rightarrow> priceResult \<Rightarrow> bool" where
  "catalog_price p k r \<longleftrightarrow> (\<exists>w. fst (resolve_price p k w) = r)"

text \<open>The fates a row may have.\<close>

fun fate_fits :: "int \<Rightarrow> 's rec_client \<Rightarrow> reservation_rec option \<Rightarrow> row_fate \<Rightarrow> bool" where
  "fate_fits ovf c row Unusable \<longleftrightarrow> ExtractConsumption ovf row = Inr None"
| "fate_fits ovf c row OtherRegion \<longleftrightarrow> (\<exists>f r. ExtractConsumption ovf row = Inr (Some f) \<and> describes r f \<and> \<not> rc_keep c r)"
| "fate_fits ovf c row (Skipped sk) \<longleftrightarrow> (\<exists>e. ExtractConsumption ovf row = Inl e \<and> sk = skip_entry (rc_name c) e)
     \<or> (\<exists>f e. ExtractConsumption ovf row = Inr (Some f) \<and> \<not> IsCollectionFailure e \<and> sk = skip_entry (rc_name c) e)"
| "fate_fits ovf c row (Priced vs) \<longleftrightarrow> (\<exists>f r years unit. ExtractConsumption ovf row = Inr (Some f) \<and> describes r f \<and> rc_keep c r
     \<and> TermYears (xf_Term f) = Inr years \<and> 0 < xf_Count f \<and> catalog_price (rc_pricer c) (price_key f years) (Inr unit)
     \<and> vs = consumption_variants r years unit)"

fun priced_of :: "row_fate \<Rightarrow> Recommendation list" where
  "priced_of (Priced vs) = vs"
| "priced_of _ = []"

fun skips_of :: "row_fate \<Rightarrow> skip list" where
  "skips_of (Skipped sk) = [sk]"
| "skips_of _ = []"

text \<open>The rows of a collection, each with one fate: what it added and what it skipped.\<close>

definition accounts :: "int \<Rightarrow> 's rec_client \<Rightarrow> reservation_rec option list \<Rightarrow> Recommendation list \<Rightarrow> skip list \<Rightarrow> bool" where
  "accounts ovf c rows recs skips \<longleftrightarrow> (\<exists>fates. list_all2 (fate_fits ovf c) rows fates
     \<and> recs = concat (map priced_of fates) \<and> skips = concat (map skips_of fates))"

definition cache_sound :: "'s Pricer \<Rightarrow> 's collection \<Rightarrow> bool" where
  "cache_sound p s \<longleftrightarrow> (\<forall>k r. co_cache s k = Some r \<longrightarrow> catalog_price p k r \<and> \<not> collection_failed r)"

lemma cache_sound_UnitPrice:
  assumes "cache_sound p s" and u: "UnitPrice p t reg y s = (r, s')"
  shows "catalog_price p \<lparr>pk_resourceType = t, pk_region = reg, pk_termYears = y\<rparr> r \<and> cache_sound p s' \<and> co_skips s' = co_skips s"
proof -
  let ?k = "\<lparr>pk_resourceType = t, pk_region = reg, pk_termYears = y\<rparr>"
  show ?thesis
  proof (cases "co_cache s ?k")
    case (Some q)
    with assms show ?thesis by (auto simp: UnitPrice_def Let_def cache_sound_def)
  next
    case None
    obtain q w where q: "resolve_price p ?k (co_world s) = (q, w)" by force
    then have "catalog_price p ?k q" unfolding catalog_price_def by (metis fst_conv)
    with assms None q show ?thesis by (auto simp: UnitPrice_def Let_def cache_sound_def split: if_splits)
  qed
qed

lemma cache_sound_more [simp]: "cache_sound p (s\<lparr>co_world := w\<rparr>) \<longleftrightarrow> cache_sound p s" "cache_sound p (RecordSkip name e s) \<longleftrightarrow> cache_sound p s"
  by (simp_all add: cache_sound_def RecordSkip_entry)

lemma TermYears_error: "TermYears t = Inl e \<Longrightarrow> \<not> IsCollectionFailure e"
  by (auto simp: TermYears_def IsCollectionFailure_def split: if_splits)

text \<open>One converted row: its variants, or one skip, or the failure of the collection.\<close>

lemma append_variants_fate:
  assumes cs: "cache_sound p s" and ex: "ExtractConsumption ovf row = Inr (Some f)" and d: "describes r f" and k: "rc_keep c r"
    and p: "p = rc_pricer c" and a: "AppendConsumptionVariants (rc_name c) recs r p s = ((recs', err), s')"
  shows "cache_sound p s' \<and> (case err of
      Some e \<Rightarrow> IsCollectionFailure e \<and> recs' = recs \<and> co_skips s' = co_skips s
    | None \<Rightarrow> \<exists>fate. fate_fits ovf c row fate \<and> recs' = recs @ priced_of fate \<and> co_skips s' = map_option (\<lambda>l. l @ skips_of fate) (co_skips s))"
proof -
  have skip: "?thesis" if e: "\<not> IsCollectionFailure e" "ExpandConsumptionVariants r p s = (Inl e, s1)" "cache_sound p s1" "co_skips s1 = co_skips s" for e s1
  proof -
    from a e have "recs' = recs" "err = None" "s' = RecordSkip (rc_name c) e s1" by (auto simp: AppendConsumptionVariants_def)
    with e ex show ?thesis
      by (auto simp: RecordSkip_entry cache_sound_def intro!: exI [of _ "Skipped (skip_entry (rc_name c) e)"])
  qed
  show ?thesis
  proof (cases "TermYears (r_Term r)")
    case (Inl e)
    with TermYears_error [OF Inl] cs show ?thesis by (intro skip) (simp_all add: ExpandConsumptionVariants_def)
  next
    case (Inr years)
    show ?thesis
    proof (cases "r_Count r \<le> 0")
      case True
      with Inr cs show ?thesis by (intro skip) (simp_all add: ExpandConsumptionVariants_def IsCollectionFailure_def)
    next
      case False
      obtain q s1 where q: "UnitPrice p (r_ResourceType r) (r_Region r) years s = (q, s1)" by force
      from cache_sound_UnitPrice [OF cs q] have cq: "catalog_price p (price_key f years) q" "cache_sound p s1" "co_skips s1 = co_skips s"
        using d by (simp_all add: price_key_def describes_def)
      show ?thesis
      proof (cases q)
        case (Inl e)
        with Inr False q have x: "ExpandConsumptionVariants r p s = (Inl e, s1)" by (simp add: ExpandConsumptionVariants_def)
        show ?thesis
        proof (cases "IsCollectionFailure e")
          case True
          with a x cq show ?thesis by (auto simp: AppendConsumptionVariants_def IsCollectionFailure_def)
        next
          case False
          from skip [OF False x cq(2,3)] show ?thesis .
        qed
      next
        case u: (Inr unit)
        with Inr False q a have r: "recs' = recs @ consumption_variants r years unit" "err = None" "s' = s1"
          by (auto simp: ExpandConsumptionVariants_def AppendConsumptionVariants_def)
        have "fate_fits ovf c row (Priced (consumption_variants r years unit))"
          using ex d k cq(1) Inr False u p by (auto simp: describes_def intro!: exI [of _ f] exI [of _ r] exI [of _ years] exI [of _ unit])
        moreover have "recs' = recs @ priced_of (Priced (consumption_variants r years unit))"
          "co_skips s' = map_option (\<lambda>l. l @ skips_of (Priced (consumption_variants r years unit))) (co_skips s)"
          using r cq by (simp_all add: option.map_ident)
        ultimately have "\<exists>fate. fate_fits ovf c row fate \<and> recs' = recs @ priced_of fate \<and> co_skips s' = map_option (\<lambda>l. l @ skips_of fate) (co_skips s)"
          by (intro exI conjI)
        then show ?thesis unfolding r(2) option.case using cq(2) r(3) by blast
      qed
    qed
  qed
qed

lemma accounts_Nil: "accounts ovf c [] [] []"
  by (simp add: accounts_def)

lemma accounts_Cons: "fate_fits ovf c row fate \<Longrightarrow> accounts ovf c rows recs skips \<Longrightarrow>
    accounts ovf c (row # rows) (priced_of fate @ recs) (skips_of fate @ skips)"
  unfolding accounts_def by (metis concat.simps(2) list.simps(9) list_all2_Cons)

lemma accounts_append: "accounts ovf c xs recs skips \<Longrightarrow> accounts ovf c ys recs2 skips2 \<Longrightarrow>
    accounts ovf c (xs @ ys) (recs @ recs2) (skips @ skips2)"
  unfolding accounts_def by (metis concat_append list_all2_appendI map_append)

text \<open>\<open>extends\<close>: the state after rows were processed with success, from the state before.\<close>

definition extends :: "'s Pricer \<Rightarrow> skip list \<Rightarrow> 's collection \<Rightarrow> 's collection \<Rightarrow> bool" where
  "extends p skips s s' \<longleftrightarrow> cache_sound p s' \<and> co_skips s' = map_option (\<lambda>l. l @ skips) (co_skips s)"

lemma extends_refl: "cache_sound p s \<Longrightarrow> extends p [] s s"
  by (simp add: extends_def option.map_ident)

lemma extends_trans: "extends p xs s s1 \<Longrightarrow> extends p ys s1 s2 \<Longrightarrow> extends p (xs @ ys) s s2"
  by (simp add: extends_def option.map_comp comp_def)

locale consumption_client =
  fixes ovf :: int and c :: "'s rec_client"
  assumes unusable: "ExtractConsumption ovf row = Inr None \<Longrightarrow> rc_convert c row s = (None, s)"
    and refused: "ExtractConsumption ovf row = Inl e \<Longrightarrow> rc_convert c row s = (None, RecordSkip (rc_name c) e s)"
    and converted: "ExtractConsumption ovf row = Inr (Some f) \<Longrightarrow> \<exists>r w. rc_convert c row s = (Some r, s\<lparr>co_world := w\<rparr>) \<and> describes r f"
begin

lemma appendPage_accounts:
  "cache_sound (rc_pricer c) s \<Longrightarrow> appendPage c recs page s = ((recs', err), s') \<Longrightarrow>
     (case err of Some e \<Rightarrow> IsCollectionFailure e
      | None \<Rightarrow> \<exists>added skips. accounts ovf c page added skips \<and> recs' = recs @ added \<and> extends (rc_pricer c) skips s s')"
proof (induction page arbitrary: recs s)
  case Nil
  then show ?case using accounts_Nil extends_refl by fastforce
next
  case (Cons row page)
  have step: ?case if fit: "fate_fits ovf c row fate" and ext: "extends (rc_pricer c) (skips_of fate) s s1"
    and rest: "appendPage c (recs @ priced_of fate) page s1 = ((recs', err), s')" for fate s1
  proof -
    from ext have "cache_sound (rc_pricer c) s1" by (simp add: extends_def)
    from Cons.IH [OF this rest] show ?thesis
      using accounts_Cons [OF fit] extends_trans [OF ext] by (cases err) (simp_all, metis append.assoc)
  qed
  show ?case
  proof (cases "ExtractConsumption ovf row")
    case (Inl e)
    show ?thesis
      by (rule step [of "Skipped (skip_entry (rc_name c) e)" "RecordSkip (rc_name c) e s"])
        (use Inl Cons.prems refused [OF Inl, of s] in \<open>auto simp: extends_def RecordSkip_entry cache_sound_def\<close>)
  next
    case (Inr v)
    show ?thesis
    proof (cases v)
      case None
      show ?thesis
        by (rule step [of Unusable s]) (use Inr None Cons.prems unusable [of row s] extends_refl in auto)
    next
      case (Some f)
      with Inr have ex: "ExtractConsumption ovf row = Inr (Some f)" by simp
      from converted [OF ex, of s] obtain r w where r: "rc_convert c row s = (Some r, s\<lparr>co_world := w\<rparr>)" "describes r f" by blast
      let ?s1 = "s\<lparr>co_world := w\<rparr>"
      have cs1: "cache_sound (rc_pricer c) ?s1" using Cons.prems(1) by simp
      show ?thesis
      proof (cases "rc_keep c r")
        case False
        show ?thesis
          by (rule step [of OtherRegion ?s1]) (use False ex r Cons.prems in \<open>auto simp: extends_def option.map_ident\<close>)
      next
        case True
        obtain recs1 err1 s2 where a: "AppendConsumptionVariants (rc_name c) recs r (rc_pricer c) ?s1 = ((recs1, err1), s2)"
          by (metis surj_pair)
        note fate = append_variants_fate [OF cs1 ex r(2) True refl a]
        show ?thesis
        proof (cases err1)
          case (Some e)
          with fate a r True Cons.prems(2) show ?thesis by auto
        next
          case None
          with fate obtain fate where f: "fate_fits ovf c row fate" "recs1 = recs @ priced_of fate"
            "co_skips s2 = map_option (\<lambda>l. l @ skips_of fate) (co_skips s)" "cache_sound (rc_pricer c) s2" by auto
          show ?thesis
            by (rule step [OF f(1), of s2]) (use f None a r True Cons.prems(2) in \<open>auto simp: extends_def\<close>)
        qed
      qed
    qed
  qed
qed

lemma loop_accounts:
  "cache_sound (rc_pricer c) s \<Longrightarrow> recommendations_loop cap ctx_err pgr c k p recs s = ((recs', None), s') \<Longrightarrow>
     \<exists>pages added skips. listing pgr p pages \<and> accounts ovf c (concat pages) added skips \<and> recs' = recs @ added
       \<and> extends (rc_pricer c) skips s s'"
proof (induction "cap - k" arbitrary: k p recs s rule: less_induct)
  case less
  note unfold = recommendations_loop.simps [of cap ctx_err pgr c k p recs s]
  show ?case
  proof (cases "pgr_more pgr p")
    case False
    with less.prems(2) have "recs' = recs" "s' = s" by (auto simp: unfold)
    with False less.prems(1) show ?thesis
      by (intro exI [of _ "[]"]) (simp add: listing_end accounts_Nil extends_refl)
  next
    case True
    from less.prems(2) True have ck: "ctx_err k = None" "\<not> k \<ge> cap" by (auto simp: unfold split: option.splits if_splits)
    obtain q p' where q: "pgr_next pgr p = (q, p')" by force
    with less.prems(2) True ck obtain page where page: "q = Inr page" by (auto simp: unfold split: sum.splits)
    obtain recs1 err1 s1 where a: "appendPage c recs page s = ((recs1, err1), s1)" by (metis surj_pair)
    with less.prems(2) True ck q page have err: "err1 = None"
      and rest: "recommendations_loop cap ctx_err pgr c (Suc k) p' recs1 s1 = ((recs', None), s')"
      by (auto simp: unfold split: option.splits)
    from appendPage_accounts [OF less.prems(1) a] err obtain added skips where
      first: "accounts ovf c page added skips" "recs1 = recs @ added" "extends (rc_pricer c) skips s s1" by auto
    have m: "cap - Suc k < cap - k" using ck(2) by simp
    from less.hyps [OF m _ rest] first(3) obtain pages added2 skips2 where
      then2: "listing pgr p' pages" "accounts ovf c (concat pages) added2 skips2" "recs' = recs1 @ added2" "extends (rc_pricer c) skips2 s1 s'"
      by (auto simp: extends_def)
    have "listing pgr p (page # pages)" using True q page then2(1) by (auto intro: listing_page)
    moreover have "accounts ovf c (concat (page # pages)) (added @ added2) (skips @ skips2)"
      using accounts_append [OF first(1) then2(2)] by simp
    ultimately show ?thesis using first(2) then2(3) extends_trans [OF first(3) then2(4)] by (metis append.assoc)
  qed
qed

lemma collection_accounts:
  "collect_recommendations c ctx_err pgr pager s = ((recs, None), s') \<Longrightarrow>
     \<exists>p pages skips. pager = Inr p \<and> listing pgr p pages \<and> accounts ovf c (concat pages) recs skips
       \<and> co_skips s' = map_option (\<lambda>l. l @ skips) (co_skips s)"
proof -
  assume a: "collect_recommendations c ctx_err pgr pager s = ((recs, None), s')"
  then obtain p where p: "pager = Inr p" "recommendations_loop maxRecsPages ctx_err pgr c 0 p [] (s\<lparr>co_cache := Map.empty\<rparr>) = ((recs, None), s')"
    by (auto simp: collect_recommendations_def split: sum.splits)
  have "cache_sound (rc_pricer c) (s\<lparr>co_cache := Map.empty\<rparr>)" by (simp add: cache_sound_def)
  from loop_accounts [OF this p(2)] p(1) show ?thesis by (auto simp: extends_def)
qed

end

section \<open>The five clients\<close>

lemma convert_row_client:
  assumes "rc_convert c = convert_row ovf (rc_name c) build" and "\<And>f w. describes (fst (build f w)) f"
  shows "consumption_client ovf c"
proof
  show "ExtractConsumption ovf row = Inr None \<Longrightarrow> rc_convert c row s = (None, s)" for row and s :: "'a collection"
    by (simp add: assms(1) convert_row_def ExtractConsumptionOrSkip_def)
  show "ExtractConsumption ovf row = Inl e \<Longrightarrow> rc_convert c row s = (None, RecordSkip (rc_name c) e s)" for row e and s :: "'a collection"
    by (simp add: assms(1) convert_row_def ExtractConsumptionOrSkip_def)
  show "ExtractConsumption ovf row = Inr (Some f) \<Longrightarrow> \<exists>r w. rc_convert c row s = (Some r, s\<lparr>co_world := w\<rparr>) \<and> describes r f"
    for row f and s :: "'a collection"
    using assms(2) [of f "co_world s"]
    by (cases "build f (co_world s)") (auto simp: assms(1) convert_row_def ExtractConsumptionOrSkip_def)
qed

lemma describes_consumption_rec [simp]: "describes (consumption_rec c service details now f) f"
  by (simp add: describes_def consumption_rec_def)

interpretation vm_client: consumption_client ovf "compute_recs ovf c catalog clock env" for ovf c catalog clock env
  by (rule convert_row_client) (auto simp: compute_recs_def convertAzureVMRecommendation_def intro!: ext)

interpretation sql_client: consumption_client ovf "database_recs ovf c catalog clock cancelled walk env" for ovf c catalog clock cancelled walk env
  by (rule convert_row_client) (auto simp: database_recs_def convertAzureSQLRecommendation_def split: prod.splits)

interpretation cosmos_client: consumption_client ovf "cosmosdb_recs ovf c apiType clock env" for ovf c apiType clock env
  by (rule convert_row_client) (auto simp: cosmosdb_recs_def convertAzureCosmosRecommendation_def)

interpretation synapse_client: consumption_client ovf "synapse_recs ovf c clock env" for ovf c clock env
  by (rule convert_row_client) (auto simp: synapse_recs_def convertSynapseRecommendation_def)

interpretation redis_client: consumption_client ovf "managedredis_recs ovf c clock env" for ovf c clock env
  by (rule convert_row_client) (auto simp: managedredis_recs_def redis_convertRecommendation_def)

text \<open>A successful collection read the whole listing and accounts for each of its rows.\<close>

definition accounted_for :: "int \<Rightarrow> 's rec_client \<Rightarrow> (nat \<Rightarrow> go_error option) \<Rightarrow> ('p, reservation_rec option list) sdk_pager
    \<Rightarrow> go_error + 'p \<Rightarrow> 's collection \<Rightarrow> bool" where
  "accounted_for ovf c ctx_err pgr pager s \<longleftrightarrow> (\<forall>recs s'. collect_recommendations c ctx_err pgr pager s = ((recs, None), s') \<longrightarrow>
     (\<exists>p pages skips. pager = Inr p \<and> listing pgr p pages \<and> accounts ovf c (concat pages) recs skips
       \<and> co_skips s' = map_option (\<lambda>l. l @ skips) (co_skips s)))"

text \<open>C14. No recommendation of Azure is lost in a collection. For each of the five clients, when \<open>GetRecommendations\<close> returns without an
  error, the listing was read to its end and every one of its rows has exactly one fate, in order: it is a payload \<open>Extract\<close> refuses,
  it belongs to another region (Synapse), it added its two payment variants, priced by an answer of the catalog, or it added one
  entry to the skip log with its reason and kind; nothing else is returned or logged.\<close>

theorem every_row_has_one_fate:
  "accounted_for ovf (compute_recs ovf c catalog clock env) ctx_err pgr pager s
   \<and> accounted_for ovf (database_recs ovf c sql_catalog clock cancelled walk env) ctx_err pgr pager s2
   \<and> accounted_for ovf (cosmosdb_recs ovf c apiType clock env) ctx_err pgr pager s
   \<and> accounted_for ovf (synapse_recs ovf c clock env) ctx_err pgr pager s
   \<and> accounted_for ovf (managedredis_recs ovf c clock env) ctx_err pgr pager s"
  unfolding accounted_for_def
  using vm_client.collection_accounts sql_client.collection_accounts cosmos_client.collection_accounts
    synapse_client.collection_accounts redis_client.collection_accounts
  by (intro conjI allI impI) blast+

section \<open>Every price is a catalog price\<close>

text \<open>A log only grows: the calls made so far stay, in order.\<close>

definition grown :: "'a list \<Rightarrow> 'a list \<Rightarrow> bool" where
  "grown before after \<longleftrightarrow> (\<exists>evs. after = before @ evs)"

lemma grown_simps [simp]: "grown l l" "grown l (l @ evs)"
  by (simp_all add: grown_def)

lemma grown_trans: "grown a b \<Longrightarrow> grown b c \<Longrightarrow> grown a c"
  by (auto simp: grown_def)

lemma slot_fetch_grows: "slot_fetch env url k t s = (r, s1) \<Longrightarrow> grown (az_log s) (az_log s1)"
  by (auto simp: slot_fetch_def fetchOnePage_def az_send_def split: prod.splits option.splits sum.splits if_splits)

lemma fetch_loop_grows: "fetch_loop env t n left k seen all url s = (r, s1) \<Longrightarrow> grown (az_log s) (az_log s1)"
proof (induction left arbitrary: k seen all url s)
  case 0
  then show ?case by simp
next
  case (Suc left)
  obtain a s2 where a: "slot_fetch env url k t s = (a, s2)" by force
  from slot_fetch_grows [OF a] Suc.IH Suc.prems show ?case
    by (cases a) (auto simp: a split: if_splits intro: grown_trans)
qed

lemma FetchAll_grows: "FetchAll env url t n s = (r, s1) \<Longrightarrow> grown (az_log s) (az_log s1)"
  using fetch_loop_grows by (fastforce simp: FetchAll_def fetchAll_def split: prod.splits sum.splits if_splits)

lemma honours_grows: "honours env y names s (r, s1) \<Longrightarrow> grown (az_log s) (az_log s1)"
  by (auto simp: honours_def dest: FetchAll_grows split: sum.splits)

text \<open>
  What a priced recommendation quotes: a reservation row that names its SKU, region and term, in USD, for its whole count, among
  the items of a walk of the catalog that was made between the logs \<open>before\<close> and \<open>after\<close> and read all its pages.
\<close>

definition quotes_row :: "'w price_env \<Rightarrow> (go_string \<Rightarrow> go_string \<Rightarrow> RetailPriceItem \<Rightarrow> bool) \<Rightarrow> az_event list \<Rightarrow> az_event list
    \<Rightarrow> Recommendation \<Rightarrow> bool" where
  "quotes_row env names before after r \<longleftrightarrow> (\<exists>w w' url items i y x. grown before (az_log w) \<and> grown (az_log w') after
     \<and> FetchAll env url DefaultPageTimeout DefaultMaxPages w = (Inr items, w') \<and> i \<in> set items
     \<and> names (r_ResourceType r) (r_Region r) i \<and> ri_Type i = ''Reservation'' \<and> TermYears (r_Term r) = Inr y
     \<and> ri_ReservationTerm i = term_text y \<and> equal_fold (ri_CurrencyCode i) ''USD'' \<and> r_CommitmentCurrency r = ''USD''
     \<and> ri_RetailPrice i = Fin x \<and> 0 < x \<and> 0 < r_Count r
     \<and> (let total = float_of_int (r_Count r) * Fin x in
         (r_PaymentOption r, r_CommitmentCost r, r_RecurringMonthlyCost r)
           \<in> {(''upfront'', total, Some 0), (''monthly'', 0, Some (fdiv total (float_of_int (y * 12))))}))"

text \<open>A price that was looked up, and a recommendation that was priced, between two logs.\<close>

definition looked_up_in :: "('s \<Rightarrow> az_event list) \<Rightarrow> 's Pricer \<Rightarrow> az_event list \<Rightarrow> az_event list \<Rightarrow> priceKey \<Rightarrow> priceResult \<Rightarrow> bool" where
  "looked_up_in log_of p before after k r \<longleftrightarrow>
     (\<exists>u u'. resolve_price p k u = (r, u') \<and> grown before (log_of u) \<and> grown (log_of u') after)"

definition priced_in :: "('s \<Rightarrow> az_event list) \<Rightarrow> 's Pricer \<Rightarrow> az_event list \<Rightarrow> az_event list \<Rightarrow> Recommendation \<Rightarrow> bool" where
  "priced_in log_of p before after r \<longleftrightarrow> (\<exists>q years unit. r \<in> set (consumption_variants q years unit)
     \<and> TermYears (r_Term q) = Inr years \<and> 0 < r_Count q
     \<and> looked_up_in log_of p before after \<lparr>pk_resourceType = r_ResourceType q, pk_region = r_Region q, pk_termYears = years\<rparr> (Inr unit))"

lemma looked_up_later: "looked_up_in log_of p b a k r \<Longrightarrow> grown a a' \<Longrightarrow> looked_up_in log_of p b a' k r"
  unfolding looked_up_in_def by (blast intro: grown_trans)

lemma priced_later: "priced_in log_of p b a r \<Longrightarrow> grown a a' \<Longrightarrow> priced_in log_of p b a' r"
  unfolding priced_in_def by (blast intro: looked_up_later)

text \<open>The invariant of a collection: all it returns and all it has cached was looked up since the log \<open>before\<close>.\<close>

definition trail :: "('s \<Rightarrow> az_event list) \<Rightarrow> 's Pricer \<Rightarrow> az_event list \<Rightarrow> Recommendation list \<Rightarrow> 's collection \<Rightarrow> bool" where
  "trail log_of p before recs s \<longleftrightarrow> grown before (log_of (co_world s))
     \<and> (\<forall>k r. co_cache s k = Some r \<longrightarrow> looked_up_in log_of p before (log_of (co_world s)) k r)
     \<and> (\<forall>r \<in> set recs. priced_in log_of p before (log_of (co_world s)) r)"

lemma trail_later:
  "trail log_of p b recs s \<Longrightarrow> grown (log_of (co_world s)) (log_of (co_world s1)) \<Longrightarrow> co_cache s1 = co_cache s \<Longrightarrow> trail log_of p b recs s1"
  unfolding trail_def by (metis grown_trans looked_up_later priced_later)

text \<open>The interface: a converter and a lookup that never rewrite the log.\<close>

locale price_trail =
  fixes c :: "'s rec_client" and log_of :: "'s \<Rightarrow> az_event list"
  assumes convert_grows: "rc_convert c row s = (r, s1) \<Longrightarrow> grown (log_of (co_world s)) (log_of (co_world s1)) \<and> co_cache s1 = co_cache s"
    and lookup_grows: "resolve_price (rc_pricer c) k w = (q, w1) \<Longrightarrow> grown (log_of w) (log_of w1)"
begin

lemma UnitPrice_trail:
  assumes t: "trail log_of (rc_pricer c) b recs s" and u: "UnitPrice (rc_pricer c) sku reg y s = (r, s1)"
  shows "trail log_of (rc_pricer c) b recs s1
     \<and> looked_up_in log_of (rc_pricer c) b (log_of (co_world s1)) \<lparr>pk_resourceType = sku, pk_region = reg, pk_termYears = y\<rparr> r"
proof -
  define k where "k = \<lparr>pk_resourceType = sku, pk_region = reg, pk_termYears = y\<rparr>"
  have "trail log_of (rc_pricer c) b recs s1 \<and> looked_up_in log_of (rc_pricer c) b (log_of (co_world s1)) k r"
  proof (cases "co_cache s k")
    case (Some q)
    with u have "r = q" "s1 = s" by (auto simp: UnitPrice_def Let_def k_def)
    with t Some show ?thesis by (simp add: trail_def)
  next
    case None
    obtain q w where q: "resolve_price (rc_pricer c) k (co_world s) = (q, w)" by force
    have l: "looked_up_in log_of (rc_pricer c) b (log_of w) k q"
      using q t unfolding looked_up_in_def trail_def by (metis grown_simps(1))
    have "trail log_of (rc_pricer c) b recs (s\<lparr>co_world := w\<rparr>)" by (rule trail_later [OF t]) (simp_all add: lookup_grows [OF q])
    moreover have "r = q" "s1 = s\<lparr>co_world := w, co_cache := (if collection_failed q then co_cache s else (co_cache s)(k \<mapsto> q))\<rparr>"
      using u None unfolding k_def [symmetric] UnitPrice_def Let_def by (auto simp: q)
    ultimately show ?thesis using l by (simp add: trail_def)
  qed
  then show ?thesis by (simp add: k_def)
qed

lemma append_trail:
  assumes t: "trail log_of (rc_pricer c) b recs s" and a: "AppendConsumptionVariants name recs base (rc_pricer c) s = ((recs1, err), s1)"
  shows "trail log_of (rc_pricer c) b recs1 s1"
proof -
  have same: "trail log_of (rc_pricer c) b recs1 s1"
    if "ExpandConsumptionVariants base (rc_pricer c) s = (Inl e, s2)" "trail log_of (rc_pricer c) b recs s2" for e s2
  proof -
    from that(1) a have "recs1 = recs" "s1 = s2 \<or> s1 = RecordSkip name e s2" by (auto simp: AppendConsumptionVariants_def split: if_splits)
    then show ?thesis using that(2) by (auto simp: RecordSkip_entry trail_def)
  qed
  show ?thesis
  proof (cases "TermYears (r_Term base)")
    case (Inl e)
    with same [of e s] t show ?thesis by (simp add: ExpandConsumptionVariants_def)
  next
    case (Inr years)
    show ?thesis
    proof (cases "r_Count base \<le> 0")
      case True
      with Inr t show ?thesis by (intro same [of _ s]) (simp_all add: ExpandConsumptionVariants_def)
    next
      case False
      obtain q s2 where q: "UnitPrice (rc_pricer c) (r_ResourceType base) (r_Region base) years s = (q, s2)" by force
      from UnitPrice_trail [OF t q] have s2: "trail log_of (rc_pricer c) b recs s2"
        "looked_up_in log_of (rc_pricer c) b (log_of (co_world s2))
           \<lparr>pk_resourceType = r_ResourceType base, pk_region = r_Region base, pk_termYears = years\<rparr> q" by auto
      show ?thesis
      proof (cases q)
        case e: (Inl e)
        with Inr False q s2(1) show ?thesis by (intro same [of e s2]) (simp_all add: ExpandConsumptionVariants_def)
      next
        case u: (Inr unit)
        with Inr False q a have r: "recs1 = recs @ consumption_variants base years unit" "s1 = s2"
          by (auto simp: ExpandConsumptionVariants_def AppendConsumptionVariants_def)
        have "priced_in log_of (rc_pricer c) b (log_of (co_world s2)) r" if "r \<in> set (consumption_variants base years unit)" for r
          unfolding priced_in_def using that Inr False s2(2) u by (intro exI [of _ base] exI [of _ years] exI [of _ unit]) simp
        with s2(1) r show ?thesis by (auto simp: trail_def)
      qed
    qed
  qed
qed

lemma page_trail:
  "trail log_of (rc_pricer c) b recs s \<Longrightarrow> appendPage c recs page s = ((recs1, err), s1) \<Longrightarrow> trail log_of (rc_pricer c) b recs1 s1"
proof (induction page arbitrary: recs s)
  case Nil
  then show ?case by simp
next
  case (Cons row page)
  obtain o1 s2 where o: "rc_convert c row s = (o1, s2)" by force
  have t2: "trail log_of (rc_pricer c) b recs s2" using convert_grows [OF o] trail_later [OF Cons.prems(1)] by blast
  show ?case
  proof (cases "\<exists>q. o1 = Some q \<and> rc_keep c q")
    case False
    with Cons.prems(2) o have "appendPage c recs page s2 = ((recs1, err), s1)" by (auto split: option.splits)
    from Cons.IH [OF t2 this] show ?thesis .
  next
    case True
    then obtain q where q: "o1 = Some q" "rc_keep c q" by blast
    obtain recs3 err3 s3 where a: "AppendConsumptionVariants (rc_name c) recs q (rc_pricer c) s2 = ((recs3, err3), s3)" by (metis surj_pair)
    from append_trail [OF t2 a] Cons.IH [of recs3 s3] Cons.prems(2) q o a show ?thesis by (cases err3) auto
  qed
qed

lemma loop_trail:
  "trail log_of (rc_pricer c) b recs s \<Longrightarrow> recommendations_loop cap ctx_err pgr c k p recs s = ((recs1, err), s1)
     \<Longrightarrow> trail log_of (rc_pricer c) b recs1 s1"
proof (induction "cap - k" arbitrary: k p recs s rule: less_induct)
  case less
  note unfold = recommendations_loop.simps [of cap ctx_err pgr c k p recs s]
  have nil: "trail log_of (rc_pricer c) b [] s" using less.prems(1) by (simp add: trail_def)
  show ?case
  proof (cases "pgr_more pgr p \<and> ctx_err k = None \<and> k < cap \<and> (\<exists>page. fst (pgr_next pgr p) = Inr page)")
    case False
    with less.prems(2) have "s1 = s \<and> (recs1 = recs \<or> recs1 = [])"
      by (auto simp: unfold split: option.splits if_splits prod.splits sum.splits)
    with less.prems(1) nil show ?thesis by auto
  next
    case True
    then obtain page p' where page: "pgr_next pgr p = (Inr page, p')" by (metis prod.collapse)
    obtain recs2 err2 s2 where a: "appendPage c recs page s = ((recs2, err2), s2)" by (metis surj_pair)
    note t2 = page_trail [OF less.prems(1) a]
    show ?thesis
    proof (cases err2)
      case (Some e)
      with less.prems(2) True page a t2 show ?thesis by (auto simp: unfold split: if_splits)
    next
      case None
      with less.prems(2) True page a have "recommendations_loop cap ctx_err pgr c (Suc k) p' recs2 s2 = ((recs1, err), s1)"
        by (auto simp: unfold split: if_splits)
      moreover from True have "cap - Suc k < cap - k" by (meson diff_less_mono2 lessI)
      ultimately show ?thesis using less.hyps [of "Suc k"] t2 by blast
    qed
  qed
qed

lemma collection_trail:
  assumes "collect_recommendations c ctx_err pgr pager s = ((recs, err), s1)"
  shows "\<forall>r \<in> set recs. priced_in log_of (rc_pricer c) (log_of (co_world s)) (log_of (co_world s1)) r"
proof (cases pager)
  case (Inl e)
  with assms show ?thesis by (auto simp: collect_recommendations_def)
next
  case (Inr p)
  have "trail log_of (rc_pricer c) (log_of (co_world s)) [] (s\<lparr>co_cache := Map.empty\<rparr>)" by (simp add: trail_def)
  from loop_trail [OF this, of maxRecsPages ctx_err pgr 0 p] assms Inr have "trail log_of (rc_pricer c) (log_of (co_world s)) recs s1"
    by (simp add: collect_recommendations_def)
  then show ?thesis by (simp add: trail_def)
qed

end

lemma unit_price_row:
  assumes "\<And>sku region y s. honours env y (names sku region) s (get env sku region y s)"
    and "resolve_price \<lparr>pc_service = svc, pc_lookup = unit_price get env\<rparr> k w = (r, w')"
  shows "grown (az_log w) (az_log w') \<and> (\<forall>unit. r = Inr unit \<longrightarrow> (\<exists>url items i x.
     FetchAll env url DefaultPageTimeout DefaultMaxPages w = (Inr items, w') \<and> i \<in> set items
     \<and> names (pk_resourceType k) (pk_region k) i \<and> ri_Type i = ''Reservation'' \<and> ri_ReservationTerm i = term_text (pk_termYears k)
     \<and> equal_fold (ri_CurrencyCode i) ''USD'' \<and> ri_RetailPrice i = Fin x \<and> 0 < x \<and> unit = Fin x))"
proof -
  obtain q w1 where q: "get env (pk_resourceType k) (pk_region k) (pk_termYears k) w = (q, w1)" by force
  note h = assms(1) [of "pk_termYears k" "pk_resourceType k" "pk_region k" w, unfolded q]
  from assms(2) q have w1: "w' = w1" by (auto simp: resolve_price_def unit_price_def split: sum.splits if_splits)
  have "\<exists>p. q = Inr p \<and> equal_fold (ap_Currency p) ''USD'' \<and> unit = ap_ReservationPrice p" if "r = Inr unit" for unit
    using assms(2) q that by (auto simp: resolve_price_def unit_price_def currencyUSD_def split: sum.splits if_splits)
  with h honours_grows [OF h] show ?thesis unfolding w1 by (fastforce simp: honours_def quote_price_def)
qed

lemma priced_quotes:
  assumes "priced_in log_of p before after r"
    and rows: "\<And>k w unit w'. resolve_price p k w = (Inr unit, w') \<Longrightarrow> \<exists>v v' url items i x. az_log v = log_of w \<and> az_log v' = log_of w'
       \<and> FetchAll env url DefaultPageTimeout DefaultMaxPages v = (Inr items, v') \<and> i \<in> set items \<and> names (pk_resourceType k) (pk_region k) i
       \<and> ri_Type i = ''Reservation'' \<and> ri_ReservationTerm i = term_text (pk_termYears k)
       \<and> equal_fold (ri_CurrencyCode i) ''USD'' \<and> ri_RetailPrice i = Fin x \<and> 0 < x \<and> unit = Fin x"
  shows "quotes_row env names before after r"
proof -
  from assms(1) obtain q years unit u u' where q: "r \<in> set (consumption_variants q years unit)" "TermYears (r_Term q) = Inr years" "0 < r_Count q"
    and u: "resolve_price p \<lparr>pk_resourceType = r_ResourceType q, pk_region = r_Region q, pk_termYears = years\<rparr> u = (Inr unit, u')"
      "grown before (log_of u)" "grown (log_of u') after" by (auto simp: priced_in_def looked_up_in_def)
  from rows [OF u(1)] obtain v v' url items i x where v: "az_log v = log_of u" "az_log v' = log_of u'"
    "FetchAll env url DefaultPageTimeout DefaultMaxPages v = (Inr items, v')" "i \<in> set items" "names (r_ResourceType q) (r_Region q) i"
    "ri_Type i = ''Reservation''" "ri_ReservationTerm i = term_text years" "equal_fold (ri_CurrencyCode i) ''USD''"
    "ri_RetailPrice i = Fin x" "0 < x" "unit = Fin x" by auto
  show ?thesis unfolding quotes_row_def
    by (intro exI [of _ v] exI [of _ v'] exI [of _ url] exI [of _ items] exI [of _ i] exI [of _ years] exI [of _ x])
      (use v u q in \<open>auto simp: consumption_variants_def currencyUSD_def Let_def\<close>)
qed

lemma convert_row_grows:
  assumes "\<And>f w. grown (log_of w) (log_of (snd (build f w)))" and "convert_row ovf name build row s = (r, s1)"
  shows "grown (log_of (co_world s)) (log_of (co_world s1)) \<and> co_cache s1 = co_cache s"
proof (cases "ExtractConsumption ovf row")
  case (Inl e)
  with assms(2) show ?thesis by (auto simp: convert_row_def ExtractConsumptionOrSkip_def RecordSkip_entry)
next
  case (Inr v)
  show ?thesis
  proof (cases v)
    case None
    with Inr assms(2) show ?thesis by (auto simp: convert_row_def ExtractConsumptionOrSkip_def)
  next
    case (Some f)
    obtain q w where "build f (co_world s) = (q, w)" by force
    with Inr Some assms(2) assms(1) [of "co_world s" f] show ?thesis by (auto simp: convert_row_def ExtractConsumptionOrSkip_def)
  qed
qed

lemma unit_price_trail:
  assumes "\<And>sku region y s. honours env y (names sku region) s (get env sku region y s)"
    and "rc_pricer c = \<lparr>pc_service = svc, pc_lookup = unit_price get env\<rparr>"
    and "rc_convert c = convert_row ovf name (\<lambda>f w. (build f w, w))"
  shows "price_trail c az_log"
proof
  show "resolve_price (rc_pricer c) k w = (q, w1) \<Longrightarrow> grown (az_log w) (az_log w1)" for k w q w1
    unfolding assms(2) by (rule unit_price_row [where names = names and get = get and env = env, OF assms(1), THEN conjunct1])
  show "rc_convert c row s = (r, s1) \<Longrightarrow> grown (az_log (co_world s)) (az_log (co_world s1)) \<and> co_cache s1 = co_cache s" for row s r s1
    unfolding assms(3) by (rule convert_row_grows) simp_all
qed

interpretation vm_trail: price_trail "compute_recs ovf c catalog clock env" az_log for ovf c catalog clock env
  by (rule unit_price_trail [where get = getVMPricing and names = vm_row and env = env, OF vm_honours])
    (simp_all add: compute_recs_def convertAzureVMRecommendation_def)

interpretation cosmos_trail: price_trail "cosmosdb_recs ovf c apiType clock env" az_log for ovf c apiType clock env
  by (rule unit_price_trail [where get = getCosmosPricing and names = cosmos_row and env = env, OF cosmos_honours])
    (simp_all add: cosmosdb_recs_def convertAzureCosmosRecommendation_def)

interpretation synapse_trail: price_trail "synapse_recs ovf c clock env" az_log for ovf c clock env
  by (rule unit_price_trail [where get = getSynapsePricing and names = synapse_row and env = env, OF synapse_honours])
    (simp_all add: synapse_recs_def convertSynapseRecommendation_def)

lemma managedredis_honours: "honours env y (redis_row sku region) s (managedredis_getRedisPricing env sku region y s)"
  unfolding managedredis_getRedisPricing_def by (rule redis_honours) simp

interpretation redis_trail: price_trail "managedredis_recs ovf c clock env" az_log for ovf c clock env
  by (rule unit_price_trail [where get = managedredis_getRedisPricing and names = redis_row and env = env, OF managedredis_honours])
    (simp_all add: managedredis_recs_def redis_convertRecommendation_def)

lemma lift_price_row:
  "resolve_price \<lparr>pc_service = svc, pc_lookup = lift_price f\<rparr> k w = (r, w') \<Longrightarrow>
     resolve_price \<lparr>pc_service = svc, pc_lookup = f\<rparr> k (snd w) = (r, snd w')"
  by (auto simp: resolve_price_def lift_price_def key_args_def split: prod.splits sum.splits if_splits)

text \<open>The database client also surveys its servers while it converts; the survey reads other services and leaves this log alone.\<close>

definition survey_keeps_log :: "('w az_state \<Rightarrow> (go_string \<times> go_string) option \<times> 'w az_state) \<Rightarrow> bool" where
  "survey_keeps_log walk \<longleftrightarrow> (\<forall>w. az_log (snd (walk w)) = az_log w)"

lemma serverInfo_log: "survey_keeps_log walk \<Longrightarrow> serverInfo clock cancelled walk st = (info, st1) \<Longrightarrow> az_log (snd st1) = az_log (snd st)"
  by (auto simp: serverInfo_def survey_keeps_log_def split: prod.splits option.splits if_splits) (metis snd_conv)+

lemma sql_trail:
  assumes "survey_keeps_log walk"
  shows "price_trail (database_recs ovf c catalog clock cancelled walk env) (\<lambda>w. az_log (snd w))"
proof
  fix k w q w1 assume "resolve_price (rc_pricer (database_recs ovf c catalog clock cancelled walk env)) k w = (q, w1)"
  then have "resolve_price \<lparr>pc_service = ''database'', pc_lookup = unit_price getSQLPricing env\<rparr> k (snd w) = (q, snd w1)"
    by (intro lift_price_row) (simp add: database_recs_def)
  then show "grown (az_log (snd w)) (az_log (snd w1))"
    by (rule unit_price_row [where names = sql_row and get = getSQLPricing and env = env, OF sql_honours, THEN conjunct1])
next
  fix row s r s1 assume a: "rc_convert (database_recs ovf c catalog clock cancelled walk env) row s = (r, s1)"
  show "grown (az_log (snd (co_world s))) (az_log (snd (co_world s1))) \<and> co_cache s1 = co_cache s"
    by (rule convert_row_grows [where log_of = "\<lambda>w. az_log (snd w)", OF _ a [unfolded database_recs_def rec_client.simps convertAzureSQLRecommendation_def]])
      (auto dest!: serverInfo_log [OF assms] split: prod.splits)
qed

interpretation still_survey_trail: price_trail "database_recs ovf c catalog clock cancelled (\<lambda>w. (info, w)) env" "\<lambda>w. az_log (snd w)"
  for ovf c catalog clock cancelled info env
  by (rule sql_trail) (simp add: survey_keeps_log_def)

text \<open>\<open>log_of\<close> reads the log of the HTTP calls in the client's world; \<open>s\<close> is the state the collection starts from.\<close>

definition all_quote :: "'w price_env \<Rightarrow> ('s \<Rightarrow> az_event list) \<Rightarrow> (go_string \<Rightarrow> go_string \<Rightarrow> RetailPriceItem \<Rightarrow> bool) \<Rightarrow> 's collection
    \<Rightarrow> (Recommendation list \<times> go_error option) \<times> 's collection \<Rightarrow> bool" where
  "all_quote env log_of names s r \<longleftrightarrow> (case r of
     ((recs, None), s') \<Rightarrow> list_all (quotes_row env names (log_of (co_world s)) (log_of (co_world s'))) recs
   | ((recs, Some e), s') \<Rightarrow> True)"

lemma unit_price_quotes:
  assumes "price_trail c az_log" and "\<And>sku region y s. honours env y (names sku region) s (get env sku region y s)"
    and "rc_pricer c = \<lparr>pc_service = svc, pc_lookup = unit_price get env\<rparr>"
  shows "all_quote env az_log names s (collect_recommendations c ctx_err pgr pager s)"
proof -
  obtain recs err s1 where r: "collect_recommendations c ctx_err pgr pager s = ((recs, err), s1)" by (metis surj_pair)
  have "quotes_row env names (az_log (co_world s)) (az_log (co_world s1)) r" if "r \<in> set recs" for r
  proof (rule priced_quotes)
    show "priced_in az_log (rc_pricer c) (az_log (co_world s)) (az_log (co_world s1)) r"
      using price_trail.collection_trail [OF assms(1) r] that by blast
  next
    fix k w unit w' assume u: "resolve_price (rc_pricer c) k w = (Inr unit, w')"
    from unit_price_row [where names = names and get = get and env = env, OF assms(2) u [unfolded assms(3)]]
    show "\<exists>v v' url items i x. az_log v = az_log w \<and> az_log v' = az_log w'
       \<and> FetchAll env url DefaultPageTimeout DefaultMaxPages v = (Inr items, v') \<and> i \<in> set items \<and> names (pk_resourceType k) (pk_region k) i
       \<and> ri_Type i = ''Reservation'' \<and> ri_ReservationTerm i = term_text (pk_termYears k)
       \<and> equal_fold (ri_CurrencyCode i) ''USD'' \<and> ri_RetailPrice i = Fin x \<and> 0 < x \<and> unit = Fin x" by blast
  qed
  then show ?thesis unfolding r by (cases err) (simp_all add: all_quote_def list_all_iff)
qed

lemma sql_quotes:
  assumes "survey_keeps_log walk"
  shows "all_quote env (\<lambda>w. az_log (snd w)) sql_row s (collect_recommendations (database_recs ovf c catalog clock cancelled walk env) ctx_err pgr pager s)"
proof -
  let ?c = "database_recs ovf c catalog clock cancelled walk env"
  obtain recs err s1 where r: "collect_recommendations ?c ctx_err pgr pager s = ((recs, err), s1)" by (metis surj_pair)
  have "quotes_row env sql_row (az_log (snd (co_world s))) (az_log (snd (co_world s1))) r" if "r \<in> set recs" for r
  proof (rule priced_quotes)
    show "priced_in (\<lambda>w. az_log (snd w)) (rc_pricer ?c) (az_log (snd (co_world s))) (az_log (snd (co_world s1))) r"
      using price_trail.collection_trail [OF sql_trail [OF assms] r] that by blast
  next
    fix k w unit w' assume "resolve_price (rc_pricer ?c) k w = (Inr unit, w')"
    then have "resolve_price \<lparr>pc_service = ''database'', pc_lookup = unit_price getSQLPricing env\<rparr> k (snd w) = (Inr unit, snd w')"
      by (intro lift_price_row) (simp add: database_recs_def)
    from unit_price_row [where names = sql_row and get = getSQLPricing and env = env, OF sql_honours this]
    show "\<exists>v v' url items i x. az_log v = az_log (snd w) \<and> az_log v' = az_log (snd w')
       \<and> FetchAll env url DefaultPageTimeout DefaultMaxPages v = (Inr items, v') \<and> i \<in> set items \<and> sql_row (pk_resourceType k) (pk_region k) i
       \<and> ri_Type i = ''Reservation'' \<and> ri_ReservationTerm i = term_text (pk_termYears k)
       \<and> equal_fold (ri_CurrencyCode i) ''USD'' \<and> ri_RetailPrice i = Fin x \<and> 0 < x \<and> unit = Fin x" by blast
  qed
  then show ?thesis unfolding r by (cases err) (simp_all add: all_quote_def list_all_iff)
qed

text \<open>C13. Every price a collection shows was read from the catalog in that collection. In an error-free result of each client, every
  recommendation has a positive count and quotes a reservation row that names its SKU, its region and its term, in USD and with a
  positive finite price; the row is among the items of a walk of the catalog that was logged between the start and the end of the
  collection and read every page; the upfront variant commits the count times that price and recurs at 0, the monthly variant
  commits 0 and recurs at that total over the months of the term. This composes the catalog walk, the choice of a quote, the price
  cache and the payment variants. The survey of the database client is assumed to leave the log of the price calls alone.\<close>

theorem every_price_is_quoted:
  assumes "survey_keeps_log walk"
  shows "all_quote env az_log vm_row s (collect_recommendations (compute_recs ovf c catalog clock env) ctx_err pgr pager s)
   \<and> all_quote env (\<lambda>w. az_log (snd w)) sql_row s2 (collect_recommendations (database_recs ovf c sql_catalog clock cancelled walk env) ctx_err pgr pager s2)
   \<and> all_quote env az_log cosmos_row s (collect_recommendations (cosmosdb_recs ovf c apiType clock env) ctx_err pgr pager s)
   \<and> all_quote env az_log synapse_row s (collect_recommendations (synapse_recs ovf c clock env) ctx_err pgr pager s)
   \<and> all_quote env az_log redis_row s (collect_recommendations (managedredis_recs ovf c clock env) ctx_err pgr pager s)"
proof (intro conjI)
  show "all_quote env az_log vm_row s (collect_recommendations (compute_recs ovf c catalog clock env) ctx_err pgr pager s)"
    by (rule unit_price_quotes [where get = getVMPricing, OF vm_trail.price_trail_axioms vm_honours]) (simp add: compute_recs_def)
  show "all_quote env (\<lambda>w. az_log (snd w)) sql_row s2
      (collect_recommendations (database_recs ovf c sql_catalog clock cancelled walk env) ctx_err pgr pager s2)"
    by (rule sql_quotes [OF assms])
  show "all_quote env az_log cosmos_row s (collect_recommendations (cosmosdb_recs ovf c apiType clock env) ctx_err pgr pager s)"
    by (rule unit_price_quotes [where get = getCosmosPricing, OF cosmos_trail.price_trail_axioms cosmos_honours]) (simp add: cosmosdb_recs_def)
  show "all_quote env az_log synapse_row s (collect_recommendations (synapse_recs ovf c clock env) ctx_err pgr pager s)"
    by (rule unit_price_quotes [where get = getSynapsePricing, OF synapse_trail.price_trail_axioms synapse_honours]) (simp add: synapse_recs_def)
  show "all_quote env az_log redis_row s (collect_recommendations (managedredis_recs ovf c clock env) ctx_err pgr pager s)"
    by (rule unit_price_quotes [where get = managedredis_getRedisPricing, OF redis_trail.price_trail_axioms managedredis_honours])
      (simp add: managedredis_recs_def)
qed

section \<open>A collection that succeeds\<close>

lemma two_pages_whole:
  "u \<noteq> ''b'' \<Longrightarrow> u \<noteq> [] \<Longrightarrow> \<exists>s'. FetchAll two_pages u DefaultPageTimeout DefaultMaxPages s
     = (Inr [sample_row\<lparr>ri_ReservationTerm := ''3 Years''\<rparr>, sample_row], s')"
  by (simp add: FetchAll_def fetchAll_def DefaultMaxPages_def eval_nat_numeral two_pages_fetch)

lemma two_pages_vm_price:
  "\<exists>s'. getVMPricing two_pages ''Standard_D2s_v3'' ''eastus'' 1 s = (Inr (quote_price sample_row 1), s')"
proof -
  have o: "\<exists>q. ODataString ''eastus'' = Inr q" "\<exists>q. ODataString ''Standard_D2s_v3'' = Inr q"
    by (simp_all add: ODataString_def odata_char_def Let_def)
  then obtain q q' where q: "ODataString ''eastus'' = Inr q" "ODataString ''Standard_D2s_v3'' = Inr q'" by blast
  have url: "retail_url flt \<noteq> ''b''" "retail_url flt \<noteq> []" for flt by (simp_all add: retail_url_def)
  have sel: "SelectReservation [sample_row\<lparr>ri_ReservationTerm := ''3 Years''\<rparr>, sample_row] 1
      (\<lambda>item. ri_ServiceName item = ''Virtual Machines'' \<and> ri_ArmRegionName item = ''eastus'' \<and> ri_ArmSKUName item = ''Standard_D2s_v3''
         \<and> matchesVMReservationProduct item) = Inr (sample_row\<lparr>ri_UnitOfMeasure := ''1 Hour''\<rparr>)"
    by (simp add: SelectReservation_def term_text_def sample_row_def normalizeReservation_def matchesVMReservationProduct_def starts_with_def)
  have "\<exists>s'. lookup_price two_pages flt
      (\<lambda>item. ri_ServiceName item = ''Virtual Machines'' \<and> ri_ArmRegionName item = ''eastus'' \<and> ri_ArmSKUName item = ''Standard_D2s_v3''
         \<and> matchesVMReservationProduct item) 1 wrap_f wrap_s nr s = (Inr (quote_price sample_row 1), s')" for flt wrap_f wrap_s nr
    using two_pages_whole [OF url, of flt s] by (auto simp: lookup_price_def fetchAzurePricing_def sel quote_price_hour)
  then show ?thesis unfolding getVMPricing_def q sum.case .
qed

text \<open>One modern row for four VMs over a year.\<close>

definition demo_row :: "reservation_rec option" where
  "demo_row = Some (ModernRec (Some (Some ''eastus'', Some (sample_modern\<lparr>mp_Term := Some ''P1Y''\<rparr>))))"

definition demo_vm_client :: "unit az_state rec_client" where
  "demo_vm_client = compute_recs 0 \<lparr>ac_region = ''eastus'', ac_subscriptionID = ''s1''\<rparr> None (\<lambda>_. 0) two_pages"

lemma demo_row_extracts: "\<exists>f. ExtractConsumption 0 demo_row = Inr (Some f) \<and> xf_ResourceType f = ''Standard_D2s_v3''
    \<and> xf_Region f = ''eastus'' \<and> xf_Term f = ''1yr'' \<and> xf_Count f = 4"
proof -
  have "usd_amount (mp_CostWithNoReservedInstances sample_modern)" "usd_amount (mp_TotalCostWithReservedInstances sample_modern)"
    by (simp_all add: sample_modern_def usd_amount_def usd_fold)
  then have "consumptionMeta demo_row = Inr (7, True)"
    by (simp add: demo_row_def modernMeta_def requireUSDAmount_None [THEN iffD2] checkLookBackDays_def)
      (simp add: sample_modern_def)
  moreover obtain raw where "Extract 0 demo_row = Some raw" "xf_Term raw = ''1yr''" "xf_ResourceType raw = ''Standard_D2s_v3''"
    "xf_Region raw = ''eastus''" "xf_Count raw = 4"
    by (simp add: demo_row_def extractModern_def resolveModernSKUAndQuantity_def sample_modern_def normaliseTerm_def is_i64_def trunc_rat_def Let_def)
  ultimately show ?thesis by (simp add: ExtractConsumption_def TermYears_def Let_def)
qed

lemma demo_collection:
  "\<exists>r1 r2 s'. collect_recommendations demo_vm_client (\<lambda>_. None) answers_pager (Inr [Inr [demo_row]]) s = (([r1, r2], None), s')"
proof -
  from demo_row_extracts obtain f where f: "ExtractConsumption 0 demo_row = Inr (Some f)" "xf_ResourceType f = ''Standard_D2s_v3''"
    "xf_Region f = ''eastus''" "xf_Term f = ''1yr''" "xf_Count f = 4" by blast
  let ?s = "s\<lparr>co_cache := Map.empty\<rparr>"
  obtain r where r: "rc_convert demo_vm_client demo_row ?s = (Some r, ?s)" "describes r f"
    using f(1) by (simp add: demo_vm_client_def compute_recs_def convertAzureVMRecommendation_def convert_row_def ExtractConsumptionOrSkip_def)
  obtain w where w: "getVMPricing two_pages ''Standard_D2s_v3'' ''eastus'' 1 (co_world s) = (Inr (quote_price sample_row 1), w)"
    using two_pages_vm_price by blast
  have "\<exists>s1. UnitPrice (rc_pricer demo_vm_client) ''Standard_D2s_v3'' ''eastus'' 1 ?s = (Inr (Fin 500), s1)"
    by (simp add: UnitPrice_def Let_def demo_vm_client_def compute_recs_def resolve_price_def unit_price_def w quote_price_def sample_row_def
        usd_fold currencyUSD_def)
  then obtain s1 where u: "UnitPrice (rc_pricer demo_vm_client) ''Standard_D2s_v3'' ''eastus'' 1 ?s = (Inr (Fin 500), s1)" ..
  have "AppendConsumptionVariants (rc_name demo_vm_client) [] r (rc_pricer demo_vm_client) ?s
      = ((consumption_variants r 1 (Fin 500), None), s1)"
    using r(2) f u by (simp add: AppendConsumptionVariants_def ExpandConsumptionVariants_def describes_def TermYears_def)
  with r have "appendPage demo_vm_client [] [demo_row] ?s = ((consumption_variants r 1 (Fin 500), None), s1)"
    by (simp add: demo_vm_client_def compute_recs_def)
  then have "collect_recommendations demo_vm_client (\<lambda>_. None) answers_pager (Inr [Inr [demo_row]]) s
      = ((consumption_variants r 1 (Fin 500), None), s1)"
    by (simp add: collect_recommendations_def recommendations_loop.simps maxRecsPages_def)
  then show ?thesis by (auto simp: consumption_variants_def Let_def)
qed

theorem every_row_has_one_fate_witness:
  "\<exists>recs skips. length recs = 2 \<and> accounts 0 demo_vm_client [demo_row] recs skips"
proof -
  let ?s = "\<lparr>co_world = \<lparr>az_world = (), az_log = []\<rparr>, co_cache = Map.empty, co_skips = None\<rparr> :: unit az_state collection"
  obtain r1 r2 s' where d: "collect_recommendations demo_vm_client (\<lambda>_. None) answers_pager (Inr [Inr [demo_row]]) ?s = (([r1, r2], None), s')"
    using demo_collection by blast
  have "accounted_for 0 demo_vm_client (\<lambda>_. None) answers_pager (Inr [Inr [demo_row]]) ?s"
    unfolding demo_vm_client_def using every_row_has_one_fate by blast
  with d obtain pages skips where "listing answers_pager [Inr [demo_row]] pages" "accounts 0 demo_vm_client (concat pages) [r1, r2] skips"
    unfolding accounted_for_def by blast
  moreover have "listing answers_pager [Inr [demo_row]] [[demo_row]]" by (auto intro!: listing.intros)
  ultimately have "accounts 0 demo_vm_client [demo_row] [r1, r2] skips" using listing_unique by fastforce
  then show ?thesis by (intro exI [of _ "[r1, r2]"]) auto
qed

theorem every_price_is_quoted_witness:
  "\<exists>r1 r2 s'. collect_recommendations demo_vm_client (\<lambda>_. None) answers_pager (Inr [Inr [demo_row]])
         \<lparr>co_world = \<lparr>az_world = (), az_log = []\<rparr>, co_cache = Map.empty, co_skips = None\<rparr> = (([r1, r2], None), s')
     \<and> quotes_row two_pages vm_row [] (az_log (co_world s')) r1 \<and> quotes_row two_pages vm_row [] (az_log (co_world s')) r2"
proof -
  let ?s = "\<lparr>co_world = \<lparr>az_world = (), az_log = []\<rparr>, co_cache = Map.empty, co_skips = None\<rparr> :: unit az_state collection"
  obtain r1 r2 s' where d: "collect_recommendations demo_vm_client (\<lambda>_. None) answers_pager (Inr [Inr [demo_row]]) ?s = (([r1, r2], None), s')"
    using demo_collection by blast
  have "survey_keeps_log (\<lambda>w :: unit az_state. (None, w))" by (simp add: survey_keeps_log_def)
  then have "all_quote two_pages az_log vm_row ?s (collect_recommendations demo_vm_client (\<lambda>_. None) answers_pager (Inr [Inr [demo_row]]) ?s)"
    unfolding demo_vm_client_def by (rule every_price_is_quoted [THEN conjunct1])
  with d show ?thesis by (auto simp: all_quote_def)
qed

end
