(* ===== verification/Aws_Common.thy ===== *)
theory Aws_Common
  imports Az_Services Exchange_Quote
begin

text \<open>
  The helpers every AWS client shares (\<open>providers/aws/internal\<close>): the purchase configuration
  (\<open>purchasecfg\<close>: terms, the classification of a purchase error, the rule that decides a reconciliation),
  the prices of an offering and the approved-upfront check (\<open>offeringprice\<close>), the re-drive guard
  (\<open>purchaseguard\<close>), the states of a reservation and the tags of a purchase. The throttle codes of the SDK
  (\<open>retry.DefaultThrottleErrorCodes\<close>) are the parameter \<open>throttled\<close>.
\<close>

section \<open>Terms (purchasecfg/terms.go)\<close>

definition OneYearSeconds :: int where "OneYearSeconds = 31536000"
definition ThreeYearSeconds :: int where "ThreeYearSeconds = 94608000"

definition ParseTermMonths :: "go_string \<Rightarrow> go_string \<Rightarrow> go_error + int" where
  "ParseTermMonths term service =
    (if term \<in> {''3yr'', ''3''} then Inr 36
     else if term \<in> {''1yr'', ''1''} then Inr 12
     else Inl (errorf ''unsupported %s reservation term %q: must be one of 1yr, 1, 3yr, 3'' [ArgS service, ArgS term]))"

definition DurationSeconds :: "go_string \<Rightarrow> go_string \<Rightarrow> go_error + int" where
  "DurationSeconds term service = (case ParseTermMonths term service of
     Inl e \<Rightarrow> Inl e
   | Inr months \<Rightarrow> Inr (if months = 36 then ThreeYearSeconds else OneYearSeconds))"

definition DurationSecondsString :: "go_string \<Rightarrow> go_string \<Rightarrow> go_error + go_string" where
  "DurationSecondsString term service = (case DurationSeconds term service of
     Inl e \<Rightarrow> Inl e | Inr seconds \<Rightarrow> Inr (sprintf ''%d'' [ArgI seconds]))"

definition DurationYearString :: "go_string \<Rightarrow> go_string \<Rightarrow> go_error + go_string" where
  "DurationYearString term service = (case ParseTermMonths term service of
     Inl e \<Rightarrow> Inl e | Inr months \<Rightarrow> Inr (sprintf ''%dyr'' [ArgI (go_quo months 12)]))"

section \<open>The outcome of a purchase call (purchasecfg/outcome.go, tokenless.go, config.go)\<close>

definition httpStatus :: "go_error \<Rightarrow> int" where
  "httpStatus e = (case err_http_status e of None \<Rightarrow> 0 | Some n \<Rightarrow> n)"

definition may_have_been_sent :: "go_error \<Rightarrow> go_error" where
  "may_have_been_sent e =
     wrapf ''%w: the request may have been sent and the commitment may exist; reconcile before retrying: %w''
       [ArgS (err_text ErrOutcomeUnknown), ArgS (err_text e)] [ErrOutcomeUnknown, e]"

definition ClassifyPurchaseError :: "(go_string \<Rightarrow> bool) \<Rightarrow> go_error \<Rightarrow> go_error" where
  "ClassifyPurchaseError throttled e =
    (if outcome_unknown e then e
     else (case err_api_code e of
       None \<Rightarrow> may_have_been_sent e
     | Some code \<Rightarrow>
         if throttled code then e
         else if 400 \<le> httpStatus e \<and> httpStatus e < 500 then e
         else may_have_been_sent e))"

definition SingleAttemptIf :: "go_string \<Rightarrow> 'o \<Rightarrow> 'o list" where
  "SingleAttemptIf token optfn = (if token \<noteq> [] then [] else [optfn])"

definition ClassifyUnlessToken :: "(go_string \<Rightarrow> bool) \<Rightarrow> go_string \<Rightarrow> go_error \<Rightarrow> go_error" where
  "ClassifyUnlessToken throttled token e = (if token \<noteq> [] then e else ClassifyPurchaseError throttled e)"

definition UnknownUnlessToken :: "go_string \<Rightarrow> go_error \<Rightarrow> go_error" where
  "UnknownUnlessToken token e = (if token \<noteq> [] then e
     else wrapf ''%w: %w'' [ArgS (err_text ErrOutcomeUnknown), ArgS (err_text e)] [ErrOutcomeUnknown, e])"

definition ResolveTag :: "go_string \<Rightarrow> go_string" where
  "ResolveTag execID = (if execID = [] then ''no-exec'' else execID)"

section \<open>Reconciling an unknown outcome (purchasecfg/reconcile.go, pkg/common/reconcile.go)\<close>

record ReconcileResult =
  rr_Verdict :: go_string
  rr_CommitmentID :: go_string
  rr_Reason :: go_string
  rr_Criteria :: "go_string list"
  rr_CandidateIDs :: "go_string list"
  rr_Tagged :: bool

definition ReconcileUnknown :: go_string where "ReconcileUnknown = ''unknown''"
definition ReconcileFound :: go_string where "ReconcileFound = ''found''"

definition IsFound :: "ReconcileResult \<Rightarrow> bool" where
  "IsFound r \<longleftrightarrow> rr_Verdict r = ReconcileFound \<and> rr_CommitmentID r \<noteq> []"

definition ClockSkew :: int where "ClockSkew = 5 * 60 * 1000000000"

definition ReconcileWindow :: "go_time \<Rightarrow> go_time \<Rightarrow> (go_time \<times> go_time) option" where
  "ReconcileWindow start end_time =
    (if is_zero_time start \<or> is_zero_time end_time \<or> end_time < start then None
     else Some (start - ClockSkew, end_time + ClockSkew))"

definition InWindow :: "go_time \<Rightarrow> go_time \<Rightarrow> go_time \<Rightarrow> bool" where
  "InWindow t lo hi \<longleftrightarrow> \<not> t < lo \<and> \<not> hi < t"

definition UnknownResult :: "go_string \<Rightarrow> ReconcileResult" where
  "UnknownResult reason = \<lparr>rr_Verdict = ReconcileUnknown, rr_CommitmentID = [], rr_Reason = reason, rr_Criteria = [],
     rr_CandidateIDs = [], rr_Tagged = False\<rparr>"

definition Decide :: "go_string list \<Rightarrow> go_string list \<Rightarrow> go_string list \<Rightarrow> bool \<Rightarrow> ReconcileResult" where
  "Decide matches uncertain criteria tagged =
    (let ids = filter (\<lambda>i. i \<noteq> []) (matches @ uncertain); blank = ([] \<in> set (matches @ uncertain)) in
     if blank \<or> uncertain \<noteq> [] then (UnknownResult ''uncertain-candidate'')\<lparr>rr_CandidateIDs := ids\<rparr>
     else (case matches of
       [] \<Rightarrow> UnknownResult ''no-candidate''
     | [i] \<Rightarrow> \<lparr>rr_Verdict = ReconcileFound, rr_CommitmentID = i, rr_Reason = [], rr_Criteria = criteria,
         rr_CandidateIDs = [], rr_Tagged = tagged\<rparr>
     | _ \<Rightarrow> (UnknownResult ''ambiguous'')\<lparr>rr_CandidateIDs := matches\<rparr>))"

section \<open>Prices of an offering (offeringprice/offeringprice.go)\<close>

definition ErrPurchaseCountOutOfRange :: go_error where
  "ErrPurchaseCountOutOfRange = Sentinel ''purchase count out of range''"

definition MaxInt32 :: int where "MaxInt32 = 2 ^ 31 - 1"

definition PurchaseCount :: "int \<Rightarrow> go_error + int" where
  "PurchaseCount n =
    (if n < 1 \<or> n > MaxInt32 then
       Inl (wrapf ''%w: purchase count %d is out of valid range [1, %d]''
         [ArgS (err_text ErrPurchaseCountOutOfRange), ArgI n, ArgI MaxInt32] [ErrPurchaseCountOutOfRange])
     else Inr n)"

record Charge =
  ch_Frequency :: go_string
  ch_Amount :: float64

record PriceInput =
  pi_Service :: go_string
  pi_Term :: go_string
  pi_Charges :: "Charge list"
  pi_FixedPrice :: float64
  pi_UsagePrice :: float64
  pi_DurationSeconds :: int

record Pricing =
  pg_Upfront :: float64
  pg_Hourly :: float64
  pg_Total :: float64
  pg_EffectiveHourly :: float64

definition checkAmount :: "go_string \<Rightarrow> float64 \<Rightarrow> go_error option" where
  "checkAmount field v = (if is_nan v \<or> is_inf v \<or> v < 0 then Some (errorf ''invalid %s %v'' [ArgS field, ArgF v]) else None)"

fun charges_loop :: "go_string \<Rightarrow> float64 \<Rightarrow> Charge list \<Rightarrow> go_error + float64" where
  "charges_loop service acc [] = Inr acc"
| "charges_loop service acc (c # cs) =
    (if ch_Frequency c \<noteq> ''Hourly'' then
       Inl (errorf ''%s offering has a %q recurring charge; only %q is supported'' [ArgS service, ArgS (ch_Frequency c), ArgS ''Hourly''])
     else (case checkAmount ''RecurringChargeAmount'' (ch_Amount c) of
       Some e \<Rightarrow> Inl e
     | None \<Rightarrow> charges_loop service (acc + ch_Amount c) cs))"

definition hourlyRate :: "PriceInput \<Rightarrow> go_error + float64" where
  "hourlyRate i = (case checkAmount ''UsagePrice'' (pi_UsagePrice i) of
     Some e \<Rightarrow> Inl e
   | None \<Rightarrow> (case charges_loop (pi_Service i) 0 (pi_Charges i) of
       Inl e \<Rightarrow> Inl e
     | Inr amount \<Rightarrow>
         if \<not> feq amount 0 \<and> \<not> feq (pi_UsagePrice i) 0 then
           Inl (errorf ''%s offering has both a recurring charge (%g) and a UsagePrice (%g); refusing to guess''
             [ArgS (pi_Service i), ArgF amount, ArgF (pi_UsagePrice i)])
         else if \<not> feq amount 0 then Inr amount
         else Inr (pi_UsagePrice i)))"

definition Price :: "PriceInput \<Rightarrow> go_error + Pricing" where
  "Price i =
    (if pi_DurationSeconds i \<le> 0 then Inl (errorf ''%s offering has no duration; cannot price it'' [ArgS (pi_Service i)])
     else (case DurationSeconds (pi_Term i) (pi_Service i) of
       Inl e \<Rightarrow> Inl e
     | Inr want \<Rightarrow>
         if want \<noteq> pi_DurationSeconds i then
           Inl (errorf ''%s offering duration %ds does not match requested term %q (%ds)''
             [ArgS (pi_Service i), ArgI (pi_DurationSeconds i), ArgS (pi_Term i), ArgI want])
         else (case checkAmount ''FixedPrice'' (pi_FixedPrice i) of
           Some e \<Rightarrow> Inl e
         | None \<Rightarrow> (case hourlyRate i of
             Inl e \<Rightarrow> Inl e
           | Inr hourly \<Rightarrow>
               let hours = fdiv (float_of_int (pi_DurationSeconds i)) (Fin 3600);
                   amount = pi_FixedPrice i + hourly * hours
               in Inr \<lparr>pg_Upfront = pi_FixedPrice i, pg_Hourly = hourly, pg_Total = amount, pg_EffectiveHourly = fdiv amount hours\<rparr>))))"

definition Currency :: "go_string \<Rightarrow> go_string \<Rightarrow> go_error + go_string" where
  "Currency service code = (if code = [] then Inl (errorf ''%s offering reports no currency code'' [ArgS service]) else Inr code)"

definition IsChinaRegion :: "go_string \<Rightarrow> bool" where
  "IsChinaRegion region = starts_with region ''cn-''"

definition AssumedUSD :: "go_string \<Rightarrow> go_string \<Rightarrow> go_error + go_string" where
  "AssumedUSD service region =
    (if IsChinaRegion region then
       Inl (errorf ''%s offerings carry no currency code and region %q is not billed in USD'' [ArgS service, ArgS region])
     else Inr ''USD'')"

text \<open>\<open>approved * (1 + UpfrontTolerance)\<close>: Go folds the constant exactly and rounds it once.\<close>

definition UpfrontCeiling :: "float64 \<Rightarrow> float64" where
  "UpfrontCeiling approved = approved * rnd (105 / 100)"

definition NoUpfrontApproved :: "float64 \<Rightarrow> bool" where
  "NoUpfrontApproved approved \<longleftrightarrow> approved \<le> 0 \<and> approved \<noteq> NInf"

text \<open>\<open>math.Round\<close>: to the nearest integer, halves away from zero.\<close>

fun go_round :: "float64 \<Rightarrow> float64" where
  "go_round (Fin r) = Fin (of_int (if r < 0 then - \<lfloor>1 / 2 - r\<rfloor> else \<lfloor>r + 1 / 2\<rfloor>))"
| "go_round x = x"

definition CheckUpfront :: "go_string \<Rightarrow> float64 \<Rightarrow> float64 \<Rightarrow> go_error option" where
  "CheckUpfront service offeredTotal approved =
    (if is_nan approved \<or> is_inf approved then
       Some (errorf ''%s approved upfront %v is not a finite amount; refusing to purchase'' [ArgS service, ArgF approved])
     else if go_round (UpfrontCeiling approved * Fin 100) < go_round (offeredTotal * Fin 100) then
       Some (errorf ''%s offering upfront %.2f exceeds the approved upfront %.2f by more than %.0f%%; refusing to purchase (re-approve at the current price)''
         [ArgS service, ArgF offeredTotal, ArgF approved, ArgF (Fin 5)])
     else None)"

section \<open>The re-drive guard (purchaseguard/guard.go)\<close>

type_synonym 'w finder = "'w \<Rightarrow> (go_error + go_string option) \<times> 'w"

definition Guard :: "go_string \<Rightarrow> go_string \<Rightarrow> 'w finder \<Rightarrow> 'w \<Rightarrow> (go_error + go_string option) \<times> 'w" where
  "Guard token label locate w =
    (if token = [] then (Inr None, w)
     else (case locate w of
       (Inl e, w') \<Rightarrow> (Inl (wrapf ''idempotency lookup failed before %s purchase (refusing to purchase to avoid a possible double-buy): %w''
           [ArgS label, ArgS (err_text e)] [e]), w')
     | (Inr r, w') \<Rightarrow> (Inr r, w')))"

text \<open>\<open>already\<close> is \<open>errors.As\<close> for the service's AlreadyExists fault.\<close>

definition Recover :: "(go_error \<Rightarrow> bool) \<Rightarrow> go_string \<Rightarrow> go_error \<Rightarrow> 'w finder \<Rightarrow> 'w \<Rightarrow> go_string option \<times> 'w" where
  "Recover already token purchaseErr locate w =
    (if token = [] then (None, w)
     else if \<not> already purchaseErr then (None, w)
     else (case locate w of (Inr (Some i), w') \<Rightarrow> (Some i, w') | (_, w') \<Rightarrow> (None, w')))"

section \<open>States, expiry and tags (reservationstate, reservationexpiry, tagging)\<close>

definition IsOwned :: "go_string \<Rightarrow> bool" where
  "IsOwned state \<longleftrightarrow> state \<notin> {''retired'', ''pending-return'', ''expired'', ''canceled'', ''failed'', ''payment-failed''}"

definition EndDate :: "go_time \<Rightarrow> int \<Rightarrow> go_time" where
  "EndDate start seconds = (if is_zero_time start \<or> seconds \<le> 0 then 0 else start + seconds * 1000000000)"

definition PurchasePairs :: "go_time \<Rightarrow> Recommendation \<Rightarrow> go_string \<Rightarrow> go_string \<Rightarrow> go_string \<Rightarrow> (go_string \<times> go_string) list" where
  "PurchasePairs now rec purpose resourceKey src =
    [(''Purpose'', purpose), (resourceKey, r_ResourceType rec), (''Region'', r_Region rec), (''PurchaseDate'', format_date now),
     (''Tool'', ''CUDly'')] @ (if src \<noteq> [] then [(PurchaseTagKey, src)] else [])"

section \<open>What the helpers guarantee\<close>

lemma classify_purchase_verdict:
  "outcome_unknown (ClassifyPurchaseError thr e) \<or> ClassifyPurchaseError thr e = e \<and>
     (\<exists>code. err_api_code e = Some code \<and> (thr code \<or> httpStatus e \<in> {400 ..< 500}))"
  by (auto simp: ClassifyPurchaseError_def may_have_been_sent_def outcome_unknown_def ErrOutcomeUnknown_def split: option.splits)

lemma PurchaseCount_Inr: "PurchaseCount n = Inr c \<longleftrightarrow> c = n \<and> 1 \<le> n \<and> n \<le> MaxInt32"
  by (auto simp: PurchaseCount_def)

lemma Decide_Found:
  "IsFound (Decide ms us crit tag) \<longleftrightarrow> us = [] \<and> (\<exists>i. ms = [i] \<and> i \<noteq> [])"
  by (auto simp: Decide_def Let_def IsFound_def UnknownResult_def ReconcileUnknown_def ReconcileFound_def split: list.splits)

lemma Decide_Found_id: "IsFound (Decide ms us crit tag) \<Longrightarrow> ms = [rr_CommitmentID (Decide ms us crit tag)]"
  unfolding Decide_Found by (auto simp: Decide_def Let_def)

lemma finite_amount: "checkAmount f v = None \<longleftrightarrow> (\<exists>r. v = Fin r \<and> 0 \<le> r)"
  by (cases v) (auto simp: checkAmount_def is_nan_def is_inf_def)

end
