(* ===== verification/Aws_Redshift.thy ===== *)
theory Aws_Redshift
  imports Aws_Common Rec_Names
begin

text \<open>
  The Redshift client (\<open>providers/aws/services/redshift\<close>): finding an offering, the double-buy guard with
  its attempt journal, the purchase, the reconciliation and the listings. AWS and the caller's journal are
  parameters over a world of any type: \<open>rs_env\<close> holds the three API calls, \<open>AttemptJournal\<close> the journal.
  Every call is logged with its answer. A call runs under the caller's context or under the detached one
  that \<open>context.WithoutCancel\<close> makes; \<open>e_Err\<close> is \<open>ctx.Err()\<close>. Log lines are left out, and a
  response that is nil without an error, which the SDK does not return, is one without a node.
\<close>

section \<open>AWS, the journal and the calls\<close>

datatype go_ctx = CallerCtx | DetachedCtx

record ReservedNode =
  rn_ReservedNodeId :: "go_string option"
  rn_ReservedNodeOfferingId :: "go_string option"
  rn_NodeType :: "go_string option"
  rn_NodeCount :: "int option"
  rn_State :: "go_string option"
  rn_StartTime :: "go_time option"
  rn_Duration :: "int option"
  rn_FixedPrice :: "float64 option"

record RecurringCharge =
  rcg_Amount :: "float64 option"
  rcg_Frequency :: "go_string option"

record ReservedNodeOffering =
  ro_ReservedNodeOfferingId :: "go_string option"
  ro_NodeType :: "go_string option"
  ro_Duration :: "int option"
  ro_ReservedNodeOfferingType :: go_string
  ro_FixedPrice :: "float64 option"
  ro_UsagePrice :: "float64 option"
  ro_CurrencyCode :: "go_string option"
  ro_RecurringCharges :: "RecurringCharge list"

record offerings_input =
  oi_ReservedNodeOfferingId :: "go_string option"
  oi_MaxRecords :: "int option"
  oi_Marker :: "go_string option"

record offerings_output =
  oo_Marker :: "go_string option"
  oo_ReservedNodeOfferings :: "ReservedNodeOffering list"

record nodes_input =
  ni_MaxRecords :: "int option"
  ni_Marker :: "go_string option"

record nodes_output =
  no_Marker :: "go_string option"
  no_ReservedNodes :: "ReservedNode list"

record purchase_input =
  pin_ReservedNodeOfferingId :: go_string
  pin_NodeCount :: int

record 'w rs_env =
  e_Err :: "go_ctx \<Rightarrow> 'w \<Rightarrow> go_error option"
  e_DescribeReservedNodeOfferings :: "offerings_input \<Rightarrow> 'w \<Rightarrow> (go_error + offerings_output) \<times> 'w"
  e_DescribeReservedNodes :: "go_ctx \<Rightarrow> nodes_input \<Rightarrow> 'w \<Rightarrow> (go_error + nodes_output) \<times> 'w"
  e_PurchaseReservedNodeOffering :: "purchase_input \<Rightarrow> 'w \<Rightarrow> (go_error + ReservedNode option) \<times> 'w"
  e_throttled :: "go_string \<Rightarrow> bool"
  e_region :: go_string

text \<open>The journal, with the optional \<open>ClaimReader\<close> a type assertion may find.\<close>

record 'w AttemptJournal =
  j_PriorAttempts :: "go_string \<Rightarrow> 'w \<Rightarrow> (go_error + AttemptRecord list) \<times> 'w"
  j_RecordAttempt :: "go_ctx \<Rightarrow> AttemptRecord \<Rightarrow> 'w \<Rightarrow> go_error option \<times> 'w"
  j_ClaimedByOthers :: "(go_ctx \<Rightarrow> go_string \<Rightarrow> go_string list \<Rightarrow> 'w \<Rightarrow> (go_error + go_string list) \<times> 'w) option"

record 'w JournaledOptions = PurchaseOptions +
  o_AttemptJournal :: "'w AttemptJournal option"

datatype rs_event =
    Offerings offerings_input "go_error + offerings_output"
  | Nodes go_ctx nodes_input "go_error + nodes_output"
  | Bought purchase_input "go_error + ReservedNode option"
  | Priors go_string "go_error + AttemptRecord list"
  | Recorded go_ctx AttemptRecord "go_error option"
  | Claims go_ctx go_string "go_string list" "go_error + go_string list"

record 'w rs_state =
  rs_world :: 'w
  rs_log :: "rs_event list"

definition logged :: "'w rs_state \<Rightarrow> rs_event \<Rightarrow> 'w \<Rightarrow> 'w rs_state" where
  "logged s ev w = \<lparr>rs_world = w, rs_log = rs_log s @ [ev]\<rparr>"

definition call_offerings :: "'w rs_env \<Rightarrow> offerings_input \<Rightarrow> 'w rs_state \<Rightarrow> (go_error + offerings_output) \<times> 'w rs_state" where
  "call_offerings env i s = (case e_DescribeReservedNodeOfferings env i (rs_world s) of (r, w) \<Rightarrow> (r, logged s (Offerings i r) w))"

definition call_nodes :: "'w rs_env \<Rightarrow> go_ctx \<Rightarrow> nodes_input \<Rightarrow> 'w rs_state \<Rightarrow> (go_error + nodes_output) \<times> 'w rs_state" where
  "call_nodes env ctx i s = (case e_DescribeReservedNodes env ctx i (rs_world s) of (r, w) \<Rightarrow> (r, logged s (Nodes ctx i r) w))"

definition call_purchase :: "'w rs_env \<Rightarrow> purchase_input \<Rightarrow> 'w rs_state \<Rightarrow> (go_error + ReservedNode option) \<times> 'w rs_state" where
  "call_purchase env i s = (case e_PurchaseReservedNodeOffering env i (rs_world s) of (r, w) \<Rightarrow> (r, logged s (Bought i r) w))"

definition call_priors :: "'w AttemptJournal \<Rightarrow> go_string \<Rightarrow> 'w rs_state \<Rightarrow> (go_error + AttemptRecord list) \<times> 'w rs_state" where
  "call_priors j tok s = (case j_PriorAttempts j tok (rs_world s) of (r, w) \<Rightarrow> (r, logged s (Priors tok r) w))"

definition call_record :: "'w AttemptJournal \<Rightarrow> go_ctx \<Rightarrow> AttemptRecord \<Rightarrow> 'w rs_state \<Rightarrow> go_error option \<times> 'w rs_state" where
  "call_record j ctx a s = (case j_RecordAttempt j ctx a (rs_world s) of (r, w) \<Rightarrow> (r, logged s (Recorded ctx a r) w))"

section \<open>Node states (client.go)\<close>

definition ownedNodeState :: "go_string option \<Rightarrow> go_string \<times> bool" where
  "ownedNodeState raw =
    (if ToString raw = ''active'' then (''active'', True)
     else if ToString raw \<in> {''pending-payment'', ''payment-pending''} then (''payment-pending'', True)
     else (ToString raw, IsOwned (ToString raw)))"

section \<open>Finding an offering (client.go)\<close>

definition maxOfferingPages :: nat where "maxOfferingPages = 5"
definition maxListPages :: nat where "maxListPages = 50"

definition requiredMonthsForTerm :: "go_string \<Rightarrow> go_error + int" where
  "requiredMonthsForTerm t = ParseTermMonths t ''Redshift''"

definition matchesDuration :: "int option \<Rightarrow> int \<Rightarrow> bool" where
  "matchesDuration offeringDuration requiredMonths =
    (case offeringDuration of None \<Rightarrow> False | Some d \<Rightarrow> go_quo d 2592000 = requiredMonths)"

definition matchesOfferingType :: "go_string \<Rightarrow> bool" where
  "matchesOfferingType t \<longleftrightarrow> t = ''Regular'' \<or> t = ''Upgradable''"

definition ToFloat64 :: "float64 option \<Rightarrow> float64" where
  "ToFloat64 p = (case p of None \<Rightarrow> 0 | Some x \<Rightarrow> x)"

definition ToInt32 :: "int option \<Rightarrow> int" where
  "ToInt32 p = (case p of None \<Rightarrow> 0 | Some n \<Rightarrow> n)"

fun offering_rate :: "RecurringCharge list \<Rightarrow> float64 option \<Rightarrow> float64" where
  "offering_rate [] usage = ToFloat64 usage"
| "offering_rate (c # cs) usage =
    (case rcg_Amount c of
       Some x \<Rightarrow> if ToString (rcg_Frequency c) = ''Hourly'' then x else offering_rate cs usage
     | None \<Rightarrow> offering_rate cs usage)"

definition offeringRecurringRate :: "ReservedNodeOffering \<Rightarrow> float64" where
  "offeringRecurringRate off = offering_rate (ro_RecurringCharges off) (ro_UsagePrice off)"

definition paymentShapes :: "(go_string \<times> (bool \<Rightarrow> bool \<Rightarrow> bool)) list" where
  "paymentShapes = [(''all-upfront'', \<lambda>u r. u \<and> \<not> r), (''no-upfront'', \<lambda>u r. \<not> u \<and> r), (''partial-upfront'', \<lambda>u r. u \<and> r)]"

definition supportedPaymentOption :: "go_string \<Rightarrow> bool" where
  "supportedPaymentOption p \<longleftrightarrow> map_of paymentShapes p \<noteq> None"

definition matchesPaymentOption :: "ReservedNodeOffering \<Rightarrow> go_string \<Rightarrow> bool" where
  "matchesPaymentOption off paymentOption =
    (let hasUpfront = (0 < ToFloat64 (ro_FixedPrice off)); hasRecurring = (0 < offeringRecurringRate off) in
     case map_of paymentShapes paymentOption of None \<Rightarrow> False | Some shape \<Rightarrow> shape hasUpfront hasRecurring)"

fun scanRedshiftOfferingPage :: "ReservedNodeOffering list \<Rightarrow> Recommendation \<Rightarrow> int \<Rightarrow> go_error + go_string" where
  "scanRedshiftOfferingPage [] rec requiredMonths = Inr []"
| "scanRedshiftOfferingPage (off # offs) rec requiredMonths =
    (if ro_NodeType off \<noteq> Some (r_ResourceType rec) then scanRedshiftOfferingPage offs rec requiredMonths
     else if \<not> matchesDuration (ro_Duration off) requiredMonths then scanRedshiftOfferingPage offs rec requiredMonths
     else if \<not> matchesOfferingType (ro_ReservedNodeOfferingType off) then
       Inl (errorf ''redshift offering %s has unexpected type %q (rec: %s)''
         [ArgS (ToString (ro_ReservedNodeOfferingId off)), ArgS (ro_ReservedNodeOfferingType off), ArgS (r_ResourceType rec)])
     else if \<not> matchesPaymentOption off (r_PaymentOption rec) then scanRedshiftOfferingPage offs rec requiredMonths
     else Inr (ToString (ro_ReservedNodeOfferingId off)))"

text \<open>\<open>fuel\<close> pages are left; \<open>page\<close> have been asked for.\<close>

fun offering_loop :: "'w rs_env \<Rightarrow> Recommendation \<Rightarrow> int \<Rightarrow> nat \<Rightarrow> int \<Rightarrow> go_string option \<Rightarrow> 'w rs_state
    \<Rightarrow> (go_error + go_string) \<times> 'w rs_state" where
  "offering_loop env rec months fuel page marker s = (case e_Err env CallerCtx (rs_world s) of
     Some e \<Rightarrow> (Inl e, s)
   | None \<Rightarrow> (case fuel of
       0 \<Rightarrow> (Inl (errorf ''pagination cap reached after %d pages for Redshift %s (issue #688)''
             [ArgI (int maxOfferingPages), ArgS (r_ResourceType rec)]), s)
     | Suc n \<Rightarrow> (case call_offerings env \<lparr>oi_ReservedNodeOfferingId = None, oi_MaxRecords = Some 100, oi_Marker = marker\<rparr> s of
         (Inl e, s1) \<Rightarrow> (Inl (wrapf ''failed to describe offerings: %w'' [ArgS (err_text e)] [e]), s1)
       | (Inr out, s1) \<Rightarrow> (case scanRedshiftOfferingPage (oo_ReservedNodeOfferings out) rec months of
           Inl e \<Rightarrow> (Inl e, s1)
         | Inr i \<Rightarrow>
             if i \<noteq> [] then (Inr i, s1)
             else if ToString (oo_Marker out) = [] then
               (Inl (errorf ''no offerings found for Redshift %s after %d page(s) (issue #688)''
                 [ArgS (r_ResourceType rec), ArgI (page + 1)]), s1)
             else offering_loop env rec months n (page + 1) (oo_Marker out) s1))))"

declare offering_loop.simps [simp del]

definition findOfferingID :: "'w rs_env \<Rightarrow> Recommendation \<Rightarrow> 'w rs_state \<Rightarrow> (go_error + go_string) \<times> 'w rs_state" where
  "findOfferingID env rec s = (case requiredMonthsForTerm (r_Term rec) of
     Inl e \<Rightarrow> (Inl e, s)
   | Inr months \<Rightarrow> offering_loop env rec months maxOfferingPages 0 None s)"

section \<open>Owned nodes that match a purchase (dedupe.go)\<close>

definition maxReservedNodePages :: nat where "maxReservedNodePages = 10"
definition redshiftClockSkew :: int where "redshiftClockSkew = ClockSkew"

definition errScanCapReached :: go_error where "errScanCapReached = Sentinel ''pagination cap reached''"

definition errRequestedAtRequired :: go_error where
  "errRequestedAtRequired = Sentinel ''RequestedAt is required with an idempotency token: Redshift reserved nodes cannot be tagged, so an earlier purchase is found by start time; refusing to purchase to avoid a possible double-buy''"

fun nodes_loop :: "'w rs_env \<Rightarrow> go_ctx \<Rightarrow> nat \<Rightarrow> go_string option \<Rightarrow> 'w rs_state
    \<Rightarrow> (go_error + ReservedNode list) \<times> 'w rs_state" where
  "nodes_loop env ctx 0 marker s =
    (Inl (wrapf ''%w after %d pages for Redshift reserved-node dedupe lookup''
      [ArgS (err_text errScanCapReached), ArgI (int maxReservedNodePages)] [errScanCapReached]), s)"
| "nodes_loop env ctx (Suc n) marker s = (case e_Err env ctx (rs_world s) of
     Some e \<Rightarrow> (Inl e, s)
   | None \<Rightarrow> (case call_nodes env ctx \<lparr>ni_MaxRecords = Some 100, ni_Marker = marker\<rparr> s of
       (Inl e, s1) \<Rightarrow> (Inl (wrapf ''failed to describe reserved nodes for dedupe: %w'' [ArgS (err_text e)] [e]), s1)
     | (Inr out, s1) \<Rightarrow>
         if ToString (no_Marker out) = [] then (Inr (no_ReservedNodes out), s1)
         else (case nodes_loop env ctx n (no_Marker out) s1 of
           (Inl e, s2) \<Rightarrow> (Inl e, s2)
         | (Inr nodes, s2) \<Rightarrow> (Inr (no_ReservedNodes out @ nodes), s2))))"

definition describeAllNodes :: "'w rs_env \<Rightarrow> go_ctx \<Rightarrow> 'w rs_state \<Rightarrow> (go_error + ReservedNode list) \<times> 'w rs_state" where
  "describeAllNodes env ctx s = nodes_loop env ctx maxReservedNodePages None s"

definition nodeMatches :: "ReservedNode \<Rightarrow> go_string \<Rightarrow> int \<Rightarrow> go_time \<Rightarrow> bool" where
  "nodeMatches node offeringID cnt since =
    (if \<not> snd (ownedNodeState (rn_State node)) then False
     else if rn_ReservedNodeOfferingId node \<notin> {None, Some offeringID} then False
     else if rn_NodeCount node \<notin> {None, Some cnt} then False
     else (case rn_StartTime node of None \<Rightarrow> True | Some t \<Rightarrow> \<not> t < since))"

definition matching_ids :: "ReservedNode list \<Rightarrow> go_string \<Rightarrow> int \<Rightarrow> go_time \<Rightarrow> go_string list" where
  "matching_ids nodes offeringID cnt requestedAt =
     map (\<lambda>n. ToString (rn_ReservedNodeId n))
       (filter (\<lambda>n. nodeMatches n offeringID cnt (requestedAt - redshiftClockSkew)) nodes)"

definition findMatchingNodes :: "'w rs_env \<Rightarrow> go_ctx \<Rightarrow> go_string \<Rightarrow> int \<Rightarrow> go_time \<Rightarrow> 'w rs_state
    \<Rightarrow> (go_error + go_string list) \<times> 'w rs_state" where
  "findMatchingNodes env ctx offeringID cnt requestedAt s = (case describeAllNodes env ctx s of
     (Inl e, s1) \<Rightarrow> (Inl e, s1)
   | (Inr nodes, s1) \<Rightarrow> (Inr (matching_ids nodes offeringID cnt requestedAt), s1))"

text \<open>The result is the kept and the excluded IDs.\<close>

definition unclaimed :: "go_ctx \<Rightarrow> go_string list \<Rightarrow> 'w JournaledOptions \<Rightarrow> 'w rs_state
    \<Rightarrow> (go_error + go_string list \<times> go_string list) \<times> 'w rs_state" where
  "unclaimed ctx ids opts s =
    (if ids = [] then (Inr (ids, []), s)
     else (case o_AttemptJournal opts of
       None \<Rightarrow> (Inr (ids, []), s)
     | Some j \<Rightarrow> (case j_ClaimedByOthers j of
         None \<Rightarrow> (Inr (ids, []), s)
       | Some reader \<Rightarrow> (case reader ctx (o_IdempotencyToken opts) ids (rs_world s) of (r, w) \<Rightarrow>
           let s1 = logged s (Claims ctx (o_IdempotencyToken opts) ids r) w in
           (case r of
             Inl e \<Rightarrow> (Inl (wrapf ''claim lookup for token %s failed: %w''
                 [ArgS (MaskToken (o_IdempotencyToken opts)), ArgS (err_text e)] [e]), s1)
           | Inr claimed \<Rightarrow> (Inr (filter (\<lambda>i. i \<notin> set claimed) ids, filter (\<lambda>i. i \<in> set claimed) ids), s1))))))"

definition rfc3339_utc :: "go_time \<Rightarrow> go_string" where
  "rfc3339_utc t = (let sec = nat (t mod day_ns) div 1000000000 in
     format_date t @ ''T'' @ pad_digits 2 (sec div 3600) @ '':'' @ pad_digits 2 (sec div 60 mod 60) @ '':'' @ pad_digits 2 (sec mod 60) @ ''Z'')"

definition ambiguousNodes :: "go_string list \<Rightarrow> go_string list \<Rightarrow> bool \<Rightarrow> go_string \<Rightarrow> int \<Rightarrow> 'w JournaledOptions \<Rightarrow> go_error" where
  "ambiguousNodes ids excluded noSend offeringID cnt opts =
    (let msg = sprintf ''ambiguous Redshift dedupe: %d reserved nodes (%s) match offering %s, node count %d, started since %s''
           [ArgI (int (length ids)), ArgS (join_with '', '' ids), ArgS offeringID, ArgI cnt,
            ArgS (rfc3339_utc (o_RequestedAt opts - redshiftClockSkew))];
         msg1 = (if excluded \<noteq> [] then msg @ sprintf ''; %s recorded by another purchase and excluded'' [ArgS (join_with '', '' excluded)] else msg);
         msg2 = (if noSend then msg1 @ '', and no earlier attempt of this token shows a send'' else msg1)
     in errorf ''%s; refusing to purchase to avoid a possible double-buy; check the account and, if the commitment is missing, start a new purchase''
          [ArgS msg2])"

definition may_have_sent :: "AttemptRecord \<Rightarrow> bool" where
  "may_have_sent a \<longleftrightarrow> a_State a = ''sending'' \<or> a_State a = ''outcome_unknown''"

definition hasSendEvidence :: "AttemptRecord list \<Rightarrow> go_string \<Rightarrow> bool" where
  "hasSendEvidence priors offeringID \<longleftrightarrow> (\<exists>p \<in> set priors. may_have_sent p \<and> a_OfferingID p = offeringID)"

end
