(* ===== verification/Aws_Redshift_Buy.thy ===== *)
theory Aws_Redshift_Buy
  imports Aws_Redshift
begin

text \<open>
  The Redshift purchase (\<open>dedupe.go\<close>, \<open>client.go\<close>): the guards that run before the one call that buys,
  the journal records around it, and what the result says; then the offering details, the listings and
  the reconciliation of an unknown outcome. A function that fills \<open>*PurchaseResult\<close> returns the new
  result; \<open>done\<close> tells that the purchase must not proceed.
\<close>

section \<open>The guards (dedupe.go)\<close>

definition adopt :: "PurchaseResult \<Rightarrow> go_string \<Rightarrow> PurchaseResult" where
  "adopt res nodeID = res\<lparr>pr_Success := True, pr_ExistingCommitment := True, pr_CommitmentID := nodeID, pr_Error := None\<rparr>"

definition refused :: "PurchaseResult \<Rightarrow> go_string \<Rightarrow> fmt_arg list \<Rightarrow> go_error list \<Rightarrow> PurchaseResult" where
  "refused res fmt args ws = res\<lparr>pr_Error := Some (wrapf (''%w: '' @ fmt)
     (ArgS (err_text ErrRefusedBeforePurchase) # args) (ErrRefusedBeforePurchase # ws))\<rparr>"

definition fail_with :: "PurchaseResult \<Rightarrow> go_error \<Rightarrow> PurchaseResult" where
  "fail_with res e = res\<lparr>pr_Error := Some e\<rparr>"

definition guardAgainstRepurchase :: "'w rs_env \<Rightarrow> PurchaseResult \<Rightarrow> go_string \<Rightarrow> int \<Rightarrow> 'w JournaledOptions \<Rightarrow> AttemptRecord list
    \<Rightarrow> 'w rs_state \<Rightarrow> (PurchaseResult \<times> bool) \<times> 'w rs_state" where
  "guardAgainstRepurchase env res offeringID cnt opts priors s =
    (if is_zero_time (o_RequestedAt opts) then ((fail_with res errRequestedAtRequired, True), s)
     else (case findMatchingNodes env CallerCtx offeringID cnt (o_RequestedAt opts) s of
       (Inl e, s1) \<Rightarrow> ((fail_with res (wrapf ''idempotency lookup failed before Redshift purchase (refusing to purchase to avoid a possible double-buy): %w''
           [ArgS (err_text e)] [e]), True), s1)
     | (Inr raw, s1) \<Rightarrow> (case unclaimed CallerCtx raw opts s1 of
         (Inl e, s2) \<Rightarrow> ((refused res ''claim lookup failed before Redshift purchase (refusing to purchase to avoid a possible double-buy): %w''
             [ArgS (err_text e)] [e], True), s2)
       | (Inr (ids, excluded), s2) \<Rightarrow>
           if length ids > 1 then ((fail_with res (ambiguousNodes ids excluded False offeringID cnt opts), True), s2)
           else if length ids = 1 \<and> length raw > 1 \<and> \<not> hasSendEvidence priors offeringID then
             ((fail_with res (ambiguousNodes ids excluded True offeringID cnt opts), True), s2)
           else if length ids = 1 then ((adopt res (hd ids), True), s2)
           else ((res, False), s2))))"

definition journalActive :: "'w JournaledOptions \<Rightarrow> bool" where
  "journalActive opts \<longleftrightarrow> o_IdempotencyToken opts \<noteq> [] \<and> o_AttemptJournal opts \<noteq> None"

fun recorded_loop :: "go_string list \<Rightarrow> AttemptRecord list \<Rightarrow> go_string list" where
  "recorded_loop ids [] = ids"
| "recorded_loop ids (p # ps) =
    (if a_State p = ''purchased'' \<and> a_ReservationID p \<notin> set ids then recorded_loop (ids @ [a_ReservationID p]) ps
     else recorded_loop ids ps)"

definition recordedReservationIDs :: "AttemptRecord list \<Rightarrow> go_string list" where
  "recordedReservationIDs priors = recorded_loop [] priors"

definition adoptRecordedNode :: "'w rs_env \<Rightarrow> PurchaseResult \<Rightarrow> go_string list \<Rightarrow> go_string \<Rightarrow> int \<Rightarrow> 'w JournaledOptions
    \<Rightarrow> 'w rs_state \<Rightarrow> PurchaseResult \<times> 'w rs_state" where
  "adoptRecordedNode env res ids offeringID cnt opts s =
    (if length ids > 1 then
       (refused res ''attempt journal is inconsistent for token %s: %d distinct reservation IDs recorded as purchased''
         [ArgS (MaskToken (o_IdempotencyToken opts)), ArgI (int (length ids))] [], s)
     else (case findMatchingNodes env CallerCtx offeringID cnt (o_RequestedAt opts) s of
       (Inl e, s1) \<Rightarrow> (refused res ''lookup of recorded reserved node %s failed: %w'' [ArgS (hd ids), ArgS (err_text e)] [e], s1)
     | (Inr matches, s1) \<Rightarrow>
         if hd ids \<notin> set matches then
           (refused res ''reserved node %s recorded for token %s is not among the matching owned nodes; check the account before buying again''
             [ArgS (hd ids), ArgS (MaskToken (o_IdempotencyToken opts))] [], s1)
         else (adopt res (hd ids), s1)))"

fun refuseUnresolvedPriors :: "PurchaseResult \<Rightarrow> AttemptRecord list \<Rightarrow> go_string \<Rightarrow> 'w JournaledOptions \<Rightarrow> PurchaseResult \<times> bool" where
  "refuseUnresolvedPriors res [] offeringID opts = (res, False)"
| "refuseUnresolvedPriors res (p # ps) offeringID opts =
    (if \<not> may_have_sent p then refuseUnresolvedPriors res ps offeringID opts
     else if a_ExecutionID p = o_ExecutionID opts then
       (fail_with res (wrapf ''an earlier attempt of this execution for token %s is %s and no matching node was found: %w; check the account before buying again''
         [ArgS (MaskToken (o_IdempotencyToken opts)), ArgS (a_State p), ArgS (err_text ErrOutcomeUnknown)] [ErrOutcomeUnknown]), True)
     else if a_OfferingID p \<noteq> offeringID then
       (fail_with res (wrapf ''an earlier attempt for token %s under offering %q may have bought a node that the current offering %q cannot match: %w; check the account before buying again''
         [ArgS (MaskToken (o_IdempotencyToken opts)), ArgS (a_OfferingID p), ArgS offeringID, ArgS (err_text ErrOutcomeUnknown)] [ErrOutcomeUnknown]), True)
     else refuseUnresolvedPriors res ps offeringID opts)"

section \<open>Writing the journal (dedupe.go)\<close>

definition attempt_of :: "'w JournaledOptions \<Rightarrow> go_string \<Rightarrow> go_string \<Rightarrow> go_string \<Rightarrow> AttemptRecord" where
  "attempt_of opts state reservationID offeringID = \<lparr>a_IdempotencyToken = o_IdempotencyToken opts,
     a_ExecutionID = o_ExecutionID opts, a_State = state, a_ReservationID = reservationID, a_OfferingID = offeringID\<rparr>"

definition recordSending :: "PurchaseResult \<Rightarrow> go_string \<Rightarrow> 'w JournaledOptions \<Rightarrow> 'w rs_state \<Rightarrow> (PurchaseResult \<times> bool) \<times> 'w rs_state" where
  "recordSending res offeringID opts s =
    (if \<not> journalActive opts then ((res, True), s)
     else (case call_record (the (o_AttemptJournal opts)) CallerCtx (attempt_of opts ''sending'' [] offeringID) s of
       (Some e, s1) \<Rightarrow> ((refused res ''could not record the purchase attempt for token %s: %w''
           [ArgS (MaskToken (o_IdempotencyToken opts)), ArgS (err_text e)] [e], False), s1)
     | (None, s1) \<Rightarrow> ((res, True), s1)))"

definition writeAttempt :: "'w JournaledOptions \<Rightarrow> go_string \<Rightarrow> go_string \<Rightarrow> go_string \<Rightarrow> 'w rs_state \<Rightarrow> go_error option \<times> 'w rs_state" where
  "writeAttempt opts state reservationID offeringID s =
     call_record (the (o_AttemptJournal opts)) DetachedCtx (attempt_of opts state reservationID offeringID) s"

definition recordPurchased :: "PurchaseResult \<Rightarrow> go_string \<Rightarrow> 'w JournaledOptions \<Rightarrow> 'w rs_state \<Rightarrow> PurchaseResult \<times> 'w rs_state" where
  "recordPurchased res offeringID opts s = (case writeAttempt opts ''purchased'' (pr_CommitmentID res) offeringID s of
     (None, s1) \<Rightarrow> (res, s1)
   | (Some e, s1) \<Rightarrow> (res\<lparr>pr_Success := False, pr_ExistingCommitment := False,
       pr_Error := Some (wrapf ''redshift reserved node %s was bought but not recorded: %w: %w''
         [ArgS (pr_CommitmentID res), ArgS (err_text e), ArgS (err_text ErrOutcomeUnknown)] [e, ErrOutcomeUnknown])\<rparr>, s1))"

definition recordUnknown :: "PurchaseResult \<Rightarrow> go_string \<Rightarrow> 'w JournaledOptions \<Rightarrow> 'w rs_state \<Rightarrow> PurchaseResult \<times> 'w rs_state" where
  "recordUnknown res offeringID opts s = (case writeAttempt opts ''outcome_unknown'' [] offeringID s of
     (None, s1) \<Rightarrow> (res, s1)
   | (Some e, s1) \<Rightarrow> (case pr_Error res of
       None \<Rightarrow> (res\<lparr>pr_Error := Some (wrapf ''%w; additionally the outcome_unknown attempt record could not be written: %w''
           [ArgS ''%!w(<nil>)'', ArgS (err_text e)] [e])\<rparr>, s1)
     | Some e0 \<Rightarrow> (res\<lparr>pr_Error := Some (wrapf ''%w; additionally the outcome_unknown attempt record could not be written: %w''
           [ArgS (err_text e0), ArgS (err_text e)] [e0, e])\<rparr>, s1)))"

definition journalPreflight :: "'w rs_env \<Rightarrow> PurchaseResult \<Rightarrow> go_string \<Rightarrow> int \<Rightarrow> 'w JournaledOptions \<Rightarrow> 'w rs_state
    \<Rightarrow> (PurchaseResult \<times> bool) \<times> 'w rs_state" where
  "journalPreflight env res offeringID cnt opts s =
    (if is_zero_time (o_RequestedAt opts) then ((fail_with res errRequestedAtRequired, True), s)
     else if o_ExecutionID opts = [] then ((refused res ''an execution ID is required with an attempt journal'' [] [], True), s)
     else (case call_priors (the (o_AttemptJournal opts)) (o_IdempotencyToken opts) s of
       (Inl e, s1) \<Rightarrow> ((refused res ''attempt journal lookup failed for token %s: %w''
           [ArgS (MaskToken (o_IdempotencyToken opts)), ArgS (err_text e)] [e], True), s1)
     | (Inr priors, s1) \<Rightarrow>
         let ids = recordedReservationIDs priors in
         if ids \<noteq> [] then (case adoptRecordedNode env res ids offeringID cnt opts s1 of (res1, s2) \<Rightarrow> ((res1, True), s2))
         else (case guardAgainstRepurchase env res offeringID cnt opts priors s1 of
           ((res1, True), s2) \<Rightarrow>
             if pr_Success res1 then (case recordPurchased res1 offeringID opts s2 of (res2, s3) \<Rightarrow> ((res2, True), s3))
             else ((res1, True), s2)
         | ((res1, False), s2) \<Rightarrow> (refuseUnresolvedPriors res1 priors offeringID opts, s2))))"

definition guardBeforePurchase :: "'w rs_env \<Rightarrow> PurchaseResult \<Rightarrow> go_string \<Rightarrow> int \<Rightarrow> 'w JournaledOptions \<Rightarrow> 'w rs_state
    \<Rightarrow> (PurchaseResult \<times> bool) \<times> 'w rs_state" where
  "guardBeforePurchase env res offeringID cnt opts s =
    (if journalActive opts then journalPreflight env res offeringID cnt opts s
     else if o_IdempotencyToken opts \<noteq> [] then guardAgainstRepurchase env res offeringID cnt opts [] s
     else ((res, False), s))"

definition adoptAfterUnknownOutcome :: "'w rs_env \<Rightarrow> PurchaseResult \<Rightarrow> go_string \<Rightarrow> int \<Rightarrow> 'w JournaledOptions \<Rightarrow> 'w rs_state
    \<Rightarrow> (PurchaseResult \<times> bool) \<times> 'w rs_state" where
  "adoptAfterUnknownOutcome env res offeringID cnt opts s =
    (if \<not> (case pr_Error res of None \<Rightarrow> False | Some e \<Rightarrow> outcome_unknown e) \<or> o_IdempotencyToken opts = [] \<or> is_zero_time (o_RequestedAt opts)
     then ((res, False), s)
     else (case findMatchingNodes env DetachedCtx offeringID cnt (o_RequestedAt opts) s of
       (Inl e, s1) \<Rightarrow> ((res, False), s1)
     | (Inr raw, s1) \<Rightarrow> (case unclaimed DetachedCtx raw opts s1 of
         (Inl e, s2) \<Rightarrow> ((res, False), s2)
       | (Inr (ids, excluded), s2) \<Rightarrow> (case ids of
           [i] \<Rightarrow> ((adopt res i, True), s2)
         | _ \<Rightarrow> ((res, False), s2)))))"

section \<open>The purchase (client.go)\<close>

definition reservedNodeTotal :: "ReservedNode \<Rightarrow> float64 option" where
  "reservedNodeTotal rn = (case (rn_FixedPrice rn, rn_NodeCount rn) of
     (Some p, Some n) \<Rightarrow> Some (p * float_of_int n) | _ \<Rightarrow> None)"

definition checkApprovedUpfront :: "'w rs_env \<Rightarrow> Recommendation \<Rightarrow> go_string \<Rightarrow> 'w rs_state \<Rightarrow> go_error option \<times> 'w rs_state" where
  "checkApprovedUpfront env rec offeringID s =
    (let approved = r_CommitmentCost rec; cur = r_CommitmentCurrency rec in
     if NoUpfrontApproved approved then (None, s)
     else if cur \<noteq> [] \<and> \<not> equal_fold cur ''USD'' then
       (Some (errorf ''redshift recommendation upfront is in %s; the approved upfront check supports USD only'' [ArgS cur]), s)
     else (case call_offerings env \<lparr>oi_ReservedNodeOfferingId = Some offeringID, oi_MaxRecords = None, oi_Marker = None\<rparr> s of
       (Inl e, s1) \<Rightarrow> (Some (wrapf ''failed to read Redshift offering %s for the approved upfront check: %w'' [ArgS offeringID, ArgS (err_text e)] [e]), s1)
     | (Inr out, s1) \<Rightarrow> (case oo_ReservedNodeOfferings out of
         [off] \<Rightarrow> (case ro_FixedPrice off of
           None \<Rightarrow> (Some (errorf ''redshift offering %s has no FixedPrice; cannot compare it with the approved upfront %.2f''
               [ArgS offeringID, ArgF approved]), s1)
         | Some fixedPrice \<Rightarrow>
             if ToString (ro_CurrencyCode off) \<noteq> [] \<and> \<not> equal_fold (ToString (ro_CurrencyCode off)) ''USD'' then
               (Some (errorf ''redshift offering %s is priced in %s; the approved upfront check supports USD only''
                 [ArgS offeringID, ArgS (ToString (ro_CurrencyCode off))]), s1)
             else (case CheckUpfront ''Redshift'' (fixedPrice * float_of_int (r_Count rec)) approved of
               Some e \<Rightarrow> (Some (wrapf ''redshift offering %s: %w'' [ArgS offeringID, ArgS (err_text e)] [e]), s1)
             | None \<Rightarrow> (None, s1)))
       | offs \<Rightarrow> (Some (errorf ''redshift offering %s: expected 1 offering for the approved upfront check, got %d''
             [ArgS offeringID, ArgI (int (length offs))]), s1))))"

definition readyToSend :: "'w rs_env \<Rightarrow> PurchaseResult \<Rightarrow> Recommendation \<Rightarrow> go_string \<Rightarrow> 'w JournaledOptions \<Rightarrow> 'w rs_state
    \<Rightarrow> (PurchaseResult \<times> bool) \<times> 'w rs_state" where
  "readyToSend env res rec offeringID opts s = (case checkApprovedUpfront env rec offeringID s of
     (Some e, s1) \<Rightarrow> ((fail_with res (wrapf ''%w: %w'' [ArgS (err_text ErrRefusedBeforePurchase), ArgS (err_text e)] [ErrRefusedBeforePurchase, e]), False), s1)
   | (None, s1) \<Rightarrow> recordSending res offeringID opts s1)"

definition failed_purchase :: "'w rs_env \<Rightarrow> go_error \<Rightarrow> go_error" where
  "failed_purchase env sendErr = (let e = ClassifyPurchaseError (e_throttled env) sendErr in
     wrapf ''failed to purchase Redshift Reserved Node: %w'' [ArgS (err_text e)] [e])"

definition empty_response :: go_error where
  "empty_response = wrapf ''purchase response was empty: %w'' [ArgS (err_text ErrOutcomeUnknown)] [ErrOutcomeUnknown]"

definition node_result :: "PurchaseResult \<Rightarrow> ReservedNode \<Rightarrow> PurchaseResult" where
  "node_result res node = res\<lparr>pr_Success := True, pr_CommitmentID := ToString (rn_ReservedNodeId node), pr_Cost := reservedNodeTotal node\<rparr>"

text \<open>The error a send left in the result, when it did not return a node.\<close>

definition send_error :: "'w rs_env \<Rightarrow> go_error + ReservedNode option \<Rightarrow> go_error option" where
  "send_error env response = (case response of
     Inl e \<Rightarrow> Some (failed_purchase env e) | Inr None \<Rightarrow> Some empty_response | Inr (Some node) \<Rightarrow> None)"

definition finishJournaled :: "'w rs_env \<Rightarrow> PurchaseResult \<Rightarrow> go_error + ReservedNode option \<Rightarrow> go_string \<Rightarrow> int \<Rightarrow> 'w JournaledOptions
    \<Rightarrow> 'w rs_state \<Rightarrow> (PurchaseResult \<times> go_error option) \<times> 'w rs_state" where
  "finishJournaled env res response offeringID cnt opts s = (case response of
     Inr (Some node) \<Rightarrow> (case recordPurchased (node_result res node) offeringID opts s of
       (res1, s1) \<Rightarrow> ((res1, pr_Error res1), s1))
   | _ \<Rightarrow> (case adoptAfterUnknownOutcome env (res\<lparr>pr_Error := send_error env response\<rparr>) offeringID cnt opts s of
       ((res1, True), s1) \<Rightarrow> (case recordPurchased res1 offeringID opts s1 of (res2, s2) \<Rightarrow> ((res2, pr_Error res2), s2))
     | ((res1, False), s1) \<Rightarrow> (case recordUnknown res1 offeringID opts s1 of (res2, s2) \<Rightarrow> ((res2, pr_Error res2), s2))))"

definition finish_unjournaled :: "'w rs_env \<Rightarrow> PurchaseResult \<Rightarrow> go_error + ReservedNode option \<Rightarrow> go_string \<Rightarrow> int \<Rightarrow> 'w JournaledOptions
    \<Rightarrow> 'w rs_state \<Rightarrow> (PurchaseResult \<times> go_error option) \<times> 'w rs_state" where
  "finish_unjournaled env res response offeringID cnt opts s = (case response of
     Inr (Some node) \<Rightarrow> ((node_result res node, None), s)
   | _ \<Rightarrow> (case adoptAfterUnknownOutcome env (res\<lparr>pr_Error := send_error env response\<rparr>) offeringID cnt opts s of
       ((res1, True), s1) \<Rightarrow> ((res1, None), s1)
     | ((res1, False), s1) \<Rightarrow> ((res1, pr_Error res1), s1)))"

definition PurchaseCommitment :: "'w rs_env \<Rightarrow> go_time \<Rightarrow> Recommendation \<Rightarrow> 'w JournaledOptions \<Rightarrow> 'w rs_state
    \<Rightarrow> (PurchaseResult \<times> go_error option) \<times> 'w rs_state" where
  "PurchaseCommitment env now rec opts s = (let res = new_result rec now in
     case PurchaseCount (r_Count rec) of
       Inl e \<Rightarrow> (let err = wrapf ''%w: %w'' [ArgS (err_text ErrRefusedBeforePurchase), ArgS (err_text e)] [ErrRefusedBeforePurchase, e]
           in ((fail_with res err, Some err), s))
     | Inr cnt \<Rightarrow> (case findOfferingID env rec s of
         (Inl e, s1) \<Rightarrow> (let err = wrapf ''failed to find offering: %w'' [ArgS (err_text e)] [e] in ((fail_with res err, Some err), s1))
       | (Inr offeringID, s1) \<Rightarrow> (case guardBeforePurchase env res offeringID (r_Count rec) opts s1 of
           ((res1, True), s2) \<Rightarrow> ((res1, pr_Error res1), s2)
         | ((res1, False), s2) \<Rightarrow> (case readyToSend env res1 rec offeringID opts s2 of
             ((res2, False), s3) \<Rightarrow> ((res2, pr_Error res2), s3)
           | ((res2, True), s3) \<Rightarrow> (case call_purchase env \<lparr>pin_ReservedNodeOfferingId = offeringID, pin_NodeCount = cnt\<rparr> s3 of
               (response, s4) \<Rightarrow>
                 if journalActive opts then finishJournaled env res2 response offeringID (r_Count rec) opts s4
                 else finish_unjournaled env res2 response offeringID (r_Count rec) opts s4)))))"

section \<open>Offering details and listings (client.go)\<close>

definition ValidateOffering :: "'w rs_env \<Rightarrow> Recommendation \<Rightarrow> 'w rs_state \<Rightarrow> go_error option \<times> 'w rs_state" where
  "ValidateOffering env rec s = (case findOfferingID env rec s of (Inl e, s1) \<Rightarrow> (Some e, s1) | (Inr i, s1) \<Rightarrow> (None, s1))"

definition derivePaymentOption :: "ReservedNodeOffering \<Rightarrow> go_string" where
  "derivePaymentOption off =
    (let hasUpfront = (0 < ToFloat64 (ro_FixedPrice off)); hasRecurring = (0 < offeringRecurringRate off) in
     if hasUpfront \<and> \<not> hasRecurring then ''all-upfront''
     else if \<not> hasUpfront \<and> hasRecurring then ''no-upfront''
     else if hasUpfront \<and> hasRecurring then ''partial-upfront''
     else ''unknown'')"

definition price_input :: "ReservedNodeOffering \<Rightarrow> go_string \<Rightarrow> PriceInput" where
  "price_input off t = \<lparr>pi_Service = ''Redshift'', pi_Term = t,
     pi_Charges = map (\<lambda>rc. \<lparr>ch_Frequency = ToString (rcg_Frequency rc), ch_Amount = ToFloat64 (rcg_Amount rc)\<rparr>) (ro_RecurringCharges off),
     pi_FixedPrice = ToFloat64 (ro_FixedPrice off), pi_UsagePrice = ToFloat64 (ro_UsagePrice off),
     pi_DurationSeconds = ToInt32 (ro_Duration off)\<rparr>"

definition GetOfferingDetails :: "'w rs_env \<Rightarrow> Recommendation \<Rightarrow> 'w rs_state \<Rightarrow> (go_error + OfferingDetails) \<times> 'w rs_state" where
  "GetOfferingDetails env rec s = (case findOfferingID env rec s of
     (Inl e, s1) \<Rightarrow> (Inl e, s1)
   | (Inr offeringID, s1) \<Rightarrow>
     (case call_offerings env \<lparr>oi_ReservedNodeOfferingId = Some offeringID, oi_MaxRecords = Some 1, oi_Marker = None\<rparr> s1 of
       (Inl e, s2) \<Rightarrow> (Inl (wrapf ''failed to get offering details: %w'' [ArgS (err_text e)] [e]), s2)
     | (Inr out, s2) \<Rightarrow> (case oo_ReservedNodeOfferings out of
         [] \<Rightarrow> (Inl (errorf ''offering not found: %s'' [ArgS offeringID]), s2)
       | off # _ \<Rightarrow> (case Currency ''Redshift'' (ToString (ro_CurrencyCode off)) of
           Inl e \<Rightarrow> (Inl e, s2)
         | Inr currency \<Rightarrow> (case Price (price_input off (r_Term rec)) of
             Inl e \<Rightarrow> (Inl (wrapf ''pricing offering %s: %w'' [ArgS offeringID, ArgS (err_text e)] [e]), s2)
           | Inr priced \<Rightarrow> (Inr \<lparr>od_OfferingID = ToString (ro_ReservedNodeOfferingId off), od_ResourceType = ToString (ro_NodeType off),
               od_Term = sprintf ''%d'' [ArgI (ToInt32 (ro_Duration off))], od_PaymentOption = derivePaymentOption off,
               od_Currency = currency, od_UpfrontCost = pg_Upfront priced, od_RecurringCost = pg_Hourly priced,
               od_TotalCost = pg_Total priced, od_EffectiveHourlyRate = pg_EffectiveHourly priced\<rparr>, s2))))))"

definition node_commitment :: "go_string \<Rightarrow> ReservedNode \<Rightarrow> Commitment option" where
  "node_commitment region node = (case ownedNodeState (rn_State node) of (state, owned) \<Rightarrow>
     if \<not> owned then None
     else Some \<lparr>c_StartDate = (case rn_StartTime node of None \<Rightarrow> 0 | Some t \<Rightarrow> t),
       c_EndDate = EndDate (case rn_StartTime node of None \<Rightarrow> 0 | Some t \<Rightarrow> t) (ToInt32 (rn_Duration node)),
       c_Provider = ''aws'', c_Account = [], c_CommitmentID = ToString (rn_ReservedNodeId node),
       c_CommitmentType = ''reserved-instance'', c_Service = ''data-warehouse'', c_Region = region,
       c_ResourceType = ToString (rn_NodeType node), c_Engine = [], c_Deployment = [], c_State = state, c_Platform = [], c_Tenancy = [],
       c_Scope = [], c_AvailabilityZone = [], c_Count = ToInt32 (rn_NodeCount node), c_Cost = 0, c_CostKnown = False,
       c_StartDateIsDay = False\<rparr>)"

fun commitments_loop :: "'w rs_env \<Rightarrow> nat \<Rightarrow> go_string option \<Rightarrow> 'w rs_state \<Rightarrow> (go_error + Commitment list) \<times> 'w rs_state" where
  "commitments_loop env fuel marker s = (case e_Err env CallerCtx (rs_world s) of
     Some e \<Rightarrow> (Inl e, s)
   | None \<Rightarrow> (case fuel of
       0 \<Rightarrow> (Inl (errorf ''pagination cap reached after %d pages for Redshift reserved nodes (issue #561)'' [ArgI (int maxListPages)]), s)
     | Suc n \<Rightarrow> (case call_nodes env CallerCtx \<lparr>ni_MaxRecords = Some 100, ni_Marker = marker\<rparr> s of
         (Inl e, s1) \<Rightarrow> (Inl (wrapf ''failed to describe reserved nodes: %w'' [ArgS (err_text e)] [e]), s1)
       | (Inr out, s1) \<Rightarrow>
           let here = List.map_filter (node_commitment (e_region env)) (no_ReservedNodes out) in
           if ToString (no_Marker out) = [] then (Inr here, s1)
           else (case commitments_loop env n (no_Marker out) s1 of
             (Inl e, s2) \<Rightarrow> (Inl e, s2) | (Inr others, s2) \<Rightarrow> (Inr (here @ others), s2)))))"

declare commitments_loop.simps [simp del]

definition GetExistingCommitments :: "'w rs_env \<Rightarrow> 'w rs_state \<Rightarrow> (go_error + Commitment list) \<times> 'w rs_state" where
  "GetExistingCommitments env s = commitments_loop env maxListPages None s"

fun types_loop :: "'w rs_env \<Rightarrow> nat \<Rightarrow> go_string option \<Rightarrow> 'w rs_state \<Rightarrow> (go_error + go_string list) \<times> 'w rs_state" where
  "types_loop env fuel marker s = (case e_Err env CallerCtx (rs_world s) of
     Some e \<Rightarrow> (Inl e, s)
   | None \<Rightarrow> (case fuel of
       0 \<Rightarrow> (Inl (errorf ''pagination cap reached after %d pages for Redshift offerings (issue #561)'' [ArgI (int maxListPages)]), s)
     | Suc n \<Rightarrow> (case call_offerings env \<lparr>oi_ReservedNodeOfferingId = None, oi_MaxRecords = Some 100, oi_Marker = marker\<rparr> s of
         (Inl e, s1) \<Rightarrow> (Inl (wrapf ''failed to describe offerings: %w'' [ArgS (err_text e)] [e]), s1)
       | (Inr out, s1) \<Rightarrow>
           let here = List.map_filter ro_NodeType (oo_ReservedNodeOfferings out) in
           if ToString (oo_Marker out) = [] then (Inr here, s1)
           else (case types_loop env n (oo_Marker out) s1 of
             (Inl e, s2) \<Rightarrow> (Inl e, s2) | (Inr others, s2) \<Rightarrow> (Inr (here @ others), s2)))))"

declare types_loop.simps [simp del]

text \<open>The set of names is a map in the code, sorted at the end.\<close>

definition GetValidResourceTypes :: "'w rs_env \<Rightarrow> 'w rs_state \<Rightarrow> (go_error + go_string list) \<times> 'w rs_state" where
  "GetValidResourceTypes env s = (case types_loop env maxListPages None s of
     (Inl e, s1) \<Rightarrow> (Inl e, s1) | (Inr types, s1) \<Rightarrow> (Inr (sort (remdups types)), s1))"

section \<open>Reconciling an unknown outcome (reconcile.go, reconcile_match.go)\<close>

datatype fit = fitNo | fitUncertain | fitMatch

fun fit_rank :: "fit \<Rightarrow> nat" where
  "fit_rank fitNo = 0" | "fit_rank fitUncertain = 1" | "fit_rank fitMatch = 2"

text \<open>\<open>fit\<close> is an \<open>int\<close> in the code, so its constants are ordered as they are declared.\<close>

instantiation fit :: linorder
begin

definition less_eq_fit :: "fit \<Rightarrow> fit \<Rightarrow> bool" where "less_eq_fit a b \<longleftrightarrow> fit_rank a \<le> fit_rank b"
definition less_fit :: "fit \<Rightarrow> fit \<Rightarrow> bool" where "less_fit a b \<longleftrightarrow> fit_rank a < fit_rank b"

instance
proof
  fix a b c :: fit
  show "a < b \<longleftrightarrow> a \<le> b \<and> \<not> b \<le> a" "a \<le> a" "a \<le> b \<or> b \<le> a" by (auto simp: less_eq_fit_def less_fit_def)
  show "a \<le> b \<Longrightarrow> b \<le> c \<Longrightarrow> a \<le> c" by (auto simp: less_eq_fit_def)
  show "a \<le> b \<Longrightarrow> b \<le> a \<Longrightarrow> a = b" by (cases a; cases b) (auto simp: less_eq_fit_def)
qed

end

definition presentFit :: "'a option \<Rightarrow> 'a \<Rightarrow> fit" where
  "presentFit got want = (case got of None \<Rightarrow> fitUncertain | Some x \<Rightarrow> if x = want then fitMatch else fitNo)"

definition nodeCountFit :: "int option \<Rightarrow> int \<Rightarrow> fit" where
  "nodeCountFit got want = (case got of None \<Rightarrow> fitUncertain | Some n \<Rightarrow> presentFit (Some n) want)"

definition durationFit :: "int option \<Rightarrow> int \<Rightarrow> fit" where
  "durationFit got months = (case got of None \<Rightarrow> fitUncertain | Some d \<Rightarrow> presentFit (Some (go_quo d 2592000)) months)"

definition startFit :: "go_time option \<Rightarrow> go_time \<Rightarrow> go_time \<Rightarrow> fit" where
  "startFit got lo hi = (case got of None \<Rightarrow> fitUncertain | Some t \<Rightarrow> if InWindow t lo hi then fitMatch else fitNo)"

definition stateFit :: "go_string option \<Rightarrow> fit" where
  "stateFit state = (if ToString state \<in> {''active'', ''pending-payment'', ''payment-pending''} then fitMatch else fitUncertain)"

definition nodeFit :: "ReservedNode \<Rightarrow> go_string \<Rightarrow> int \<Rightarrow> go_string \<Rightarrow> int \<Rightarrow> go_time \<Rightarrow> go_time \<Rightarrow> fit" where
  "nodeFit node offeringID cnt nodeType months lo hi =
    (let fits = [presentFit (rn_ReservedNodeOfferingId node) offeringID, presentFit (rn_NodeType node) nodeType,
           nodeCountFit (rn_NodeCount node) cnt, durationFit (rn_Duration node) months, startFit (rn_StartTime node) lo hi,
           stateFit (rn_State node)] @ (if ToString (rn_ReservedNodeId node) = [] then [fitUncertain] else [])
     in foldl min fitMatch fits)"

definition classifyNodes :: "ReservedNode list \<Rightarrow> go_string \<Rightarrow> int \<Rightarrow> go_string \<Rightarrow> int \<Rightarrow> go_time \<Rightarrow> go_time
    \<Rightarrow> go_string list \<times> go_string list" where
  "classifyNodes nodes offeringID cnt nodeType months lo hi =
    (let pick = (\<lambda>f. map (\<lambda>n. ToString (rn_ReservedNodeId n)) (filter (\<lambda>n. nodeFit n offeringID cnt nodeType months lo hi = f) nodes))
     in (pick fitMatch, pick fitUncertain))"

record 'w ReconcileRequest =
  rq_AttemptEndedAt :: go_time
  rq_Options :: "'w JournaledOptions"
  rq_Recommendation :: Recommendation

definition reconcileParams :: "'w rs_env \<Rightarrow> 'w ReconcileRequest \<Rightarrow> go_string + int \<times> int \<times> go_time \<times> go_time" where
  "reconcileParams env req =
    (case ReconcileWindow (o_RequestedAt (rq_Options req)) (rq_AttemptEndedAt req) of
       None \<Rightarrow> Inl ''invalid-window''
     | Some (lo, hi) \<Rightarrow> (let rec = rq_Recommendation req in
         case (PurchaseCount (r_Count rec), requiredMonthsForTerm (r_Term rec)) of
           (Inr cnt, Inr months) \<Rightarrow>
             if r_Region rec \<noteq> e_region env \<or> r_ResourceType rec = [] \<or> \<not> supportedPaymentOption (r_PaymentOption rec)
             then Inl ''invalid-request'' else Inr (cnt, months, lo, hi)
         | _ \<Rightarrow> Inl ''invalid-request''))"

definition scanFailure :: "go_error \<Rightarrow> go_string" where
  "scanFailure e = (if err_is (err_text errScanCapReached) e then ''lookup-incomplete'' else ''lookup-failed'')"

definition reconcileClaims :: "'w ReconcileRequest \<Rightarrow> go_string list \<Rightarrow> go_string list \<Rightarrow> 'w rs_state
    \<Rightarrow> (go_string list \<times> go_string list) option \<times> 'w rs_state" where
  "reconcileClaims req matches uncertain s =
    (if o_IdempotencyToken (rq_Options req) = [] then (Some (matches, uncertain), s)
     else (case unclaimed CallerCtx matches (rq_Options req) s of
       (Inl e, s1) \<Rightarrow> (None, s1)
     | (Inr (kept, claimed), s1) \<Rightarrow> (Some (kept, uncertain @ claimed), s1)))"

definition reconcileCriteria :: "go_string list" where
  "reconcileCriteria = [''offering-id'', ''count'', ''node-type'', ''duration'', ''start-window'']"

definition ReconcilePurchase :: "'w rs_env \<Rightarrow> 'w ReconcileRequest \<Rightarrow> 'w rs_state \<Rightarrow> ReconcileResult \<times> 'w rs_state" where
  "ReconcilePurchase env req s = (case reconcileParams env req of
     Inl reason \<Rightarrow> (UnknownResult reason, s)
   | Inr (cnt, months, lo, hi) \<Rightarrow>
       if e_Err env CallerCtx (rs_world s) \<noteq> None then (UnknownResult ''lookup-failed'', s)
       else (let rec = rq_Recommendation req in case findOfferingID env rec s of
         (Inl e, s1) \<Rightarrow> (UnknownResult ''offering-unresolved'', s1)
       | (Inr offeringID, s1) \<Rightarrow>
           if offeringID = [] then (UnknownResult ''offering-unresolved'', s1)
           else (case describeAllNodes env CallerCtx s1 of
             (Inl e, s2) \<Rightarrow> (UnknownResult (scanFailure e), s2)
           | (Inr nodes, s2) \<Rightarrow> (case classifyNodes nodes offeringID cnt (r_ResourceType rec) months lo hi of
               (matches, uncertain) \<Rightarrow> (case reconcileClaims req matches uncertain s2 of
                 (None, s3) \<Rightarrow> (UnknownResult ''claim-lookup-failed'', s3)
               | (Some (m, u), s3) \<Rightarrow> (Decide m u reconcileCriteria False, s3))))))"

end
