(* ===== verification/Aws_Redshift_Run.thy ===== *)
theory Aws_Redshift_Run
  imports Aws_Redshift_Buy
begin

text \<open>
  What a Redshift purchase may do, call by call. \<open>rs_run\<close> is the step relation of the calls and \<open>ran\<close> ties a
  run to the log; \<open>purchase_spec\<close> says which calls one purchase may make, in which order and after which
  answers, and what the result then says. The code does nothing else.
\<close>

section \<open>Runs\<close>

inductive rs_step :: "'w rs_env \<Rightarrow> 'w AttemptJournal option \<Rightarrow> 'w \<Rightarrow> rs_event \<Rightarrow> 'w \<Rightarrow> bool" for env jn where
  step_offerings: "e_DescribeReservedNodeOfferings env i w = (r, w') \<Longrightarrow> rs_step env jn w (Offerings i r) w'"
| step_nodes: "e_DescribeReservedNodes env ctx n w = (q, w') \<Longrightarrow> rs_step env jn w (Nodes ctx n q) w'"
| step_bought: "e_PurchaseReservedNodeOffering env b w = (p, w') \<Longrightarrow> rs_step env jn w (Bought b p) w'"
| step_priors: "jn = Some j \<Longrightarrow> j_PriorAttempts j tok w = (ps, w') \<Longrightarrow> rs_step env jn w (Priors tok ps) w'"
| step_recorded: "jn = Some j \<Longrightarrow> j_RecordAttempt j ctx a w = (e, w') \<Longrightarrow> rs_step env jn w (Recorded ctx a e) w'"
| step_claims: "jn = Some j \<Longrightarrow> j_ClaimedByOthers j = Some reader \<Longrightarrow> reader ctx tok ids w = (c, w') \<Longrightarrow> rs_step env jn w (Claims ctx tok ids c) w'"

inductive rs_run :: "'w rs_env \<Rightarrow> 'w AttemptJournal option \<Rightarrow> 'w \<Rightarrow> rs_event list \<Rightarrow> 'w \<Rightarrow> bool" for env jn where
  run_done: "rs_run env jn w [] w"
| run_step: "rs_step env jn w ev w1 \<Longrightarrow> rs_run env jn w1 evs w2 \<Longrightarrow> rs_run env jn w (ev # evs) w2"

inductive_simps rs_run_simps [simp]: "rs_run env jn w [] w2" "rs_run env jn w (ev # evs) w2"

lemma rs_run_append: "rs_run env jn w (xs @ ys) w2 \<longleftrightarrow> (\<exists>w1. rs_run env jn w xs w1 \<and> rs_run env jn w1 ys w2)"
  by (induction xs arbitrary: w) auto

definition ran :: "'w rs_env \<Rightarrow> 'w AttemptJournal option \<Rightarrow> 'w rs_state \<Rightarrow> rs_event list \<Rightarrow> 'w rs_state \<Rightarrow> bool" where
  "ran env jn s evs s' \<longleftrightarrow> rs_log s' = rs_log s @ evs \<and> rs_run env jn (rs_world s) evs (rs_world s')"

lemma ran_refl [intro, simp]: "ran env jn s [] s" by (simp add: ran_def)

lemma ran_nil: "ran env jn s [] s' \<Longrightarrow> s' = s" by (simp add: ran_def)

lemma ran_trans [trans]: "ran env jn s xs s1 \<Longrightarrow> ran env jn s1 ys s2 \<Longrightarrow> ran env jn s (xs @ ys) s2"
  by (auto simp: ran_def rs_run_append)

lemma ran_logged: "rs_step env jn (rs_world s) ev w \<Longrightarrow> ran env jn s [ev] (logged s ev w)"
  by (simp add: ran_def logged_def)

lemma call_offerings_ran: "call_offerings env i s = (r, s1) \<Longrightarrow> ran env jn s [Offerings i r] s1"
  by (auto simp: call_offerings_def intro!: ran_logged step_offerings split: prod.splits)

lemma call_nodes_ran: "call_nodes env ctx i s = (r, s1) \<Longrightarrow> ran env jn s [Nodes ctx i r] s1"
  by (auto simp: call_nodes_def intro!: ran_logged step_nodes split: prod.splits)

lemma call_purchase_ran: "call_purchase env i s = (r, s1) \<Longrightarrow> ran env jn s [Bought i r] s1"
  by (auto simp: call_purchase_def intro!: ran_logged step_bought split: prod.splits)

lemma call_priors_ran: "call_priors j tok s = (r, s1) \<Longrightarrow> ran env (Some j) s [Priors tok r] s1"
  by (auto simp: call_priors_def intro!: ran_logged step_priors split: prod.splits)

lemma call_record_ran: "call_record j ctx a s = (r, s1) \<Longrightarrow> ran env (Some j) s [Recorded ctx a r] s1"
  by (auto simp: call_record_def intro!: ran_logged step_recorded split: prod.splits)

text \<open>A call that only reads.\<close>

fun is_read :: "rs_event \<Rightarrow> bool" where
  "is_read (Bought i r) = False"
| "is_read (Recorded ctx a e) = False"
| "is_read ev = True"

fun is_send :: "rs_event \<Rightarrow> bool" where
  "is_send (Bought i r) = True"
| "is_send ev = False"

lemma reads_no_send: "list_all is_read evs \<Longrightarrow> ev \<in> set evs \<Longrightarrow> \<not> is_send ev"
  by (cases ev) (auto simp: list_all_iff)

section \<open>The offering\<close>

text \<open>An offering on the terms of the recommendation.\<close>

definition on_terms :: "Recommendation \<Rightarrow> ReservedNodeOffering \<Rightarrow> bool" where
  "on_terms rec off \<longleftrightarrow> ro_NodeType off = Some (r_ResourceType rec)
     \<and> (\<exists>d months. ro_Duration off = Some d \<and> requiredMonthsForTerm (r_Term rec) = Inr months \<and> go_quo d 2592000 = months)
     \<and> matchesOfferingType (ro_ReservedNodeOfferingType off) \<and> derivePaymentOption off = r_PaymentOption rec \<and> r_PaymentOption rec \<noteq> ''unknown''"

definition offered :: "rs_event list \<Rightarrow> ReservedNodeOffering set" where
  "offered evs = {off. \<exists>i out. Offerings i (Inr out) \<in> set evs \<and> off \<in> set (oo_ReservedNodeOfferings out)}"

lemma offered_append [simp]: "offered (xs @ ys) = offered xs \<union> offered ys"
  by (auto simp: offered_def)

lemma offered_Cons [simp]: "offered (Offerings i (Inr out) # evs) = set (oo_ReservedNodeOfferings out) \<union> offered evs"
  by (auto simp: offered_def)

lemma payment_shape: "matchesPaymentOption off p \<longleftrightarrow> derivePaymentOption off = p \<and> p \<noteq> ''unknown''"
  by (auto simp: matchesPaymentOption_def derivePaymentOption_def paymentShapes_def Let_def)

lemma scan_page_sound:
  assumes "requiredMonthsForTerm (r_Term rec) = Inr months"
  shows "scanRedshiftOfferingPage offs rec months = Inr i \<Longrightarrow> i \<noteq> [] \<Longrightarrow> \<exists>off \<in> set offs. on_terms rec off \<and> ro_ReservedNodeOfferingId off = Some i"
proof (induction offs)
  case (Cons off offs)
  then show ?case using assms
    by (cases "ro_ReservedNodeOfferingId off")
      (auto simp: on_terms_def matchesDuration_def payment_shape ToString_def split: if_splits option.splits)
qed simp

lemma offering_loop_ran:
  assumes "requiredMonthsForTerm (r_Term rec) = Inr months"
  shows "offering_loop env rec months fuel page marker s = (r, s') \<Longrightarrow>
    \<exists>evs. ran env jn s evs s' \<and> list_all is_read evs \<and> length evs \<le> fuel
      \<and> (\<forall>i. r = Inr i \<longrightarrow> (\<exists>off \<in> offered evs. on_terms rec off \<and> ro_ReservedNodeOfferingId off = Some i))"
proof (induction fuel arbitrary: page marker s)
  case 0
  then show ?case by (subst (asm) offering_loop.simps) (auto split: option.splits)
next
  case (Suc n)
  let ?in = "\<lparr>oi_ReservedNodeOfferingId = None, oi_MaxRecords = Some 100, oi_Marker = marker\<rparr>"
  obtain a s1 where c: "call_offerings env ?in s = (a, s1)" by (cases "call_offerings env ?in s")
  note run = call_offerings_ran [OF c, of jn]
  show ?case
  proof (cases "e_Err env CallerCtx (rs_world s)")
    case (Some e)
    with Suc.prems show ?thesis by (subst (asm) offering_loop.simps) (auto intro!: exI [of _ "[]"])
  next
    case None
    show ?thesis
    proof (cases a)
      case (Inl e)
      with Suc.prems None c run show ?thesis
        by (subst (asm) offering_loop.simps) (auto intro!: exI [of _ "[Offerings ?in a]"])
    next
      case (Inr out)
      show ?thesis
      proof (cases "\<exists>i. scanRedshiftOfferingPage (oo_ReservedNodeOfferings out) rec months = Inr i \<and> i = [] \<and> ToString (oo_Marker out) \<noteq> []")
        case True
        with Suc.prems None c Inr have "offering_loop env rec months n (page + 1) (oo_Marker out) s1 = (r, s')"
          by (subst (asm) offering_loop.simps) auto
        from Suc.IH [OF this] obtain evs where evs: "ran env jn s1 evs s'" "list_all is_read evs" "length evs \<le> n"
            "\<forall>i. r = Inr i \<longrightarrow> (\<exists>off \<in> offered evs. on_terms rec off \<and> ro_ReservedNodeOfferingId off = Some i)" by blast
        from ran_trans [OF run evs(1)] evs Inr show ?thesis by (intro exI [of _ "Offerings ?in a # evs"]) auto
      next
        case False
        with Suc.prems None c Inr have "s' = s1" and "r = Inr i \<Longrightarrow> i \<noteq> [] \<and> scanRedshiftOfferingPage (oo_ReservedNodeOfferings out) rec months = Inr i" for i
          by (subst (asm) offering_loop.simps; auto split: sum.splits if_splits)+
        with scan_page_sound [OF assms] run Inr show ?thesis
          by (intro exI [of _ "[Offerings ?in a]"]) fastforce
      qed
    qed
  qed
qed

lemma findOfferingID_ran:
  assumes "findOfferingID env rec s = (r, s')"
  shows "\<exists>evs. ran env jn s evs s' \<and> list_all is_read evs \<and> length evs \<le> maxOfferingPages
    \<and> (\<forall>i. r = Inr i \<longrightarrow> (\<exists>off \<in> offered evs. on_terms rec off \<and> ro_ReservedNodeOfferingId off = Some i))"
proof (cases "requiredMonthsForTerm (r_Term rec)")
  case (Inl e)
  with assms show ?thesis by (auto simp: findOfferingID_def intro!: exI [of _ "[]"])
next
  case (Inr months)
  with assms have "offering_loop env rec months maxOfferingPages 0 None s = (r, s')" by (simp add: findOfferingID_def)
  from offering_loop_ran [OF Inr this] show ?thesis .
qed

section \<open>The listing of the nodes\<close>

text \<open>The nodes of a listing read page by page to its end, under one context.\<close>

fun listing_of :: "go_ctx \<Rightarrow> go_string option \<Rightarrow> rs_event list \<Rightarrow> ReservedNode list option" where
  "listing_of ctx marker (Nodes c i (Inr out) # evs) =
    (if c \<noteq> ctx \<or> i \<noteq> \<lparr>ni_MaxRecords = Some 100, ni_Marker = marker\<rparr> then None
     else if ToString (no_Marker out) = [] then (if evs = [] then Some (no_ReservedNodes out) else None)
     else map_option ((@) (no_ReservedNodes out)) (listing_of ctx (no_Marker out) evs))"
| "listing_of ctx marker evs = None"

lemma nodes_loop_ran:
  "nodes_loop env ctx fuel marker s = (r, s') \<Longrightarrow>
    \<exists>evs. ran env jn s evs s' \<and> list_all is_read evs \<and> (\<forall>nodes. r = Inr nodes \<longrightarrow> listing_of ctx marker evs = Some nodes)"
proof (induction fuel arbitrary: marker s r s')
  case 0
  then show ?case by auto
next
  case (Suc n)
  let ?in = "\<lparr>ni_MaxRecords = Some 100, ni_Marker = marker\<rparr>"
  obtain a s1 where c: "call_nodes env ctx ?in s = (a, s1)" by (cases "call_nodes env ctx ?in s")
  note run = call_nodes_ran [OF c, of jn]
  show ?case
  proof (cases "e_Err env ctx (rs_world s)")
    case (Some e)
    with Suc.prems show ?thesis by (auto intro!: exI [of _ "[]"])
  next
    case None
    show ?thesis
    proof (cases a)
      case (Inl e)
      with Suc.prems None c run show ?thesis by (auto intro!: exI [of _ "[Nodes ctx ?in a]"])
    next
      case (Inr out)
      show ?thesis
      proof (cases "ToString (no_Marker out) = []")
        case True
        with Suc.prems None c Inr run show ?thesis by (auto intro!: exI [of _ "[Nodes ctx ?in a]"])
      next
        case False
        obtain r2 s2 where l: "nodes_loop env ctx n (no_Marker out) s1 = (r2, s2)" by (cases "nodes_loop env ctx n (no_Marker out) s1")
        with Suc.prems None c Inr False have r: "s' = s2" "\<And>nodes. r = Inr nodes \<Longrightarrow> \<exists>rest. r2 = Inr rest \<and> nodes = no_ReservedNodes out @ rest"
          by (auto split: sum.splits)
        from Suc.IH [OF l] obtain evs where evs: "ran env jn s1 evs s2" "list_all is_read evs"
            "\<forall>nodes. r2 = Inr nodes \<longrightarrow> listing_of ctx (no_Marker out) evs = Some nodes" by blast
        from ran_trans [OF run evs(1)] evs r Inr False show ?thesis by (intro exI [of _ "Nodes ctx ?in a # evs"]) fastforce
      qed
    qed
  qed
qed

lemma findMatchingNodes_ran:
  assumes "findMatchingNodes env ctx offeringID cnt req s = (r, s')"
  shows "\<exists>evs. ran env jn s evs s' \<and> list_all is_read evs
    \<and> (\<forall>raw. r = Inr raw \<longrightarrow> (\<exists>nodes. listing_of ctx None evs = Some nodes \<and> raw = matching_ids nodes offeringID cnt req))"
proof -
  obtain r1 s1 where d: "nodes_loop env ctx maxReservedNodePages None s = (r1, s1)" by (cases "nodes_loop env ctx maxReservedNodePages None s")
  with assms have "s' = s1" "\<And>raw. r = Inr raw \<Longrightarrow> \<exists>nodes. r1 = Inr nodes \<and> raw = matching_ids nodes offeringID cnt req"
    by (auto simp: findMatchingNodes_def describeAllNodes_def split: sum.splits)
  with nodes_loop_ran [OF d, of jn] show ?thesis by blast
qed

text \<open>The claims the journal reported for some IDs of a token.\<close>

definition claimed_in :: "go_ctx \<Rightarrow> go_string \<Rightarrow> rs_event list \<Rightarrow> go_string set" where
  "claimed_in ctx tok evs = {i. \<exists>ids claimed. evs = [Claims ctx tok ids (Inr claimed)] \<and> i \<in> set claimed}"

lemma unclaimed_ran:
  assumes "unclaimed ctx ids opts s = (r, s')"
  shows "\<exists>evs. ran env (o_AttemptJournal opts) s evs s' \<and> list_all is_read evs
    \<and> (\<forall>kept excluded. r = Inr (kept, excluded) \<longrightarrow>
        kept = filter (\<lambda>i. i \<notin> claimed_in ctx (o_IdempotencyToken opts) evs) ids
      \<and> excluded = filter (\<lambda>i. i \<in> claimed_in ctx (o_IdempotencyToken opts) evs) ids)"
proof (cases "\<exists>j reader. ids \<noteq> [] \<and> o_AttemptJournal opts = Some j \<and> j_ClaimedByOthers j = Some reader")
  case False
  with assms have "s' = s" "\<And>x. r = Inr x \<Longrightarrow> x = (ids, [])"
    by (auto simp: unclaimed_def split: if_splits option.splits)
  then show ?thesis by (auto simp: claimed_in_def intro!: exI [of _ "[]"])
next
  case True
  then obtain j reader where j: "ids \<noteq> []" "o_AttemptJournal opts = Some j" "j_ClaimedByOthers j = Some reader" by blast
  obtain c w where c: "reader ctx (o_IdempotencyToken opts) ids (rs_world s) = (c, w)"
    by (cases "reader ctx (o_IdempotencyToken opts) ids (rs_world s)")
  let ?ev = "Claims ctx (o_IdempotencyToken opts) ids c"
  from assms j c have s': "s' = logged s ?ev w"
    by (auto simp: unclaimed_def Let_def split: sum.splits)
  moreover have "ran env (o_AttemptJournal opts) s [?ev] (logged s ?ev w)"
    by (rule ran_logged) (rule step_claims [OF j(2,3) c])
  moreover have "kept = filter (\<lambda>i. i \<notin> claimed_in ctx (o_IdempotencyToken opts) [?ev]) ids
      \<and> excluded = filter (\<lambda>i. i \<in> claimed_in ctx (o_IdempotencyToken opts) [?ev]) ids" if "r = Inr (kept, excluded)" for kept excluded
    using assms that j c by (auto simp: unclaimed_def Let_def claimed_in_def split: sum.splits)
  ultimately show ?thesis by (auto intro!: exI [of _ "[?ev]"])
qed

section \<open>The guards\<close>

lemma adopt_simps [simp]: "pr_Success (adopt res i)" "pr_ExistingCommitment (adopt res i)" "pr_CommitmentID (adopt res i) = i"
    "pr_Error (adopt res i) = None"
  by (simp_all add: adopt_def)

text \<open>
  The listing shows no node that could be this purchase: it was read to its end, and every node that
  matches is one the journal says another token bought.
\<close>

definition nothing_listed :: "go_ctx \<Rightarrow> 'w JournaledOptions \<Rightarrow> go_string \<Rightarrow> int \<Rightarrow> rs_event list \<Rightarrow> bool" where
  "nothing_listed ctx opts offeringID cnt evs \<longleftrightarrow>
    list_all is_read evs \<and> (\<exists>lst cl nodes. evs = lst @ cl \<and> listing_of ctx None lst = Some nodes
       \<and> set (matching_ids nodes offeringID cnt (o_RequestedAt opts)) \<subseteq> claimed_in ctx (o_IdempotencyToken opts) cl)"

text \<open>The listing shows exactly one such node.\<close>

definition one_listed :: "go_ctx \<Rightarrow> 'w JournaledOptions \<Rightarrow> go_string \<Rightarrow> int \<Rightarrow> go_string \<Rightarrow> rs_event list \<Rightarrow> bool" where
  "one_listed ctx opts offeringID cnt i evs \<longleftrightarrow>
    list_all is_read evs \<and> (\<exists>lst cl nodes. evs = lst @ cl \<and> listing_of ctx None lst = Some nodes
       \<and> filter (\<lambda>n. n \<notin> claimed_in ctx (o_IdempotencyToken opts) cl) (matching_ids nodes offeringID cnt (o_RequestedAt opts)) = [i])"

text \<open>What a guard may answer: proceed with nothing listed, adopt the one listed node, or refuse.\<close>

definition guard_answer :: "PurchaseResult \<Rightarrow> bool \<Rightarrow> (rs_event list \<Rightarrow> bool) \<Rightarrow> (go_string \<Rightarrow> rs_event list \<Rightarrow> bool) \<Rightarrow> PurchaseResult \<Rightarrow> rs_event list \<Rightarrow> bool" where
  "guard_answer res stop nothing one res1 evs \<longleftrightarrow>
    (\<not> stop \<and> res1 = res \<and> nothing evs) \<or> (stop \<and> (\<exists>i. res1 = adopt res i \<and> one i evs))
    \<or> (stop \<and> \<not> pr_Success res1 \<and> pr_Error res1 \<noteq> None)"

lemma guardAgainstRepurchase_ran:
  assumes "guardAgainstRepurchase env res offeringID cnt opts priors s = ((res1, stop), s')" and failed: "\<not> pr_Success res"
  shows "\<exists>evs. ran env (o_AttemptJournal opts) s evs s' \<and> list_all is_read evs
    \<and> guard_answer res stop (nothing_listed CallerCtx opts offeringID cnt) (one_listed CallerCtx opts offeringID cnt) res1 evs"
proof (cases "is_zero_time (o_RequestedAt opts)")
  case True
  with assms show ?thesis by (auto simp: guardAgainstRepurchase_def guard_answer_def fail_with_def intro!: exI [of _ "[]"])
next
  case False
  obtain r s1 where f: "findMatchingNodes env CallerCtx offeringID cnt (o_RequestedAt opts) s = (r, s1)"
    by (cases "findMatchingNodes env CallerCtx offeringID cnt (o_RequestedAt opts) s")
  from findMatchingNodes_ran [OF f, of "o_AttemptJournal opts"] obtain lst where lst: "ran env (o_AttemptJournal opts) s lst s1" "list_all is_read lst"
      "\<And>raw. r = Inr raw \<Longrightarrow> \<exists>nodes. listing_of CallerCtx None lst = Some nodes \<and> raw = matching_ids nodes offeringID cnt (o_RequestedAt opts)" by blast
  show ?thesis
  proof (cases r)
    case (Inl e)
    with assms False f lst(1,2) show ?thesis by (auto simp: guardAgainstRepurchase_def guard_answer_def fail_with_def intro!: exI [of _ lst])
  next
    case (Inr raw)
    obtain c s2 where u: "unclaimed CallerCtx raw opts s1 = (c, s2)" by (cases "unclaimed CallerCtx raw opts s1")
    from unclaimed_ran [OF u, of env] obtain cl where cl: "ran env (o_AttemptJournal opts) s1 cl s2" "list_all is_read cl"
        "\<And>kept ex. c = Inr (kept, ex) \<Longrightarrow> kept = filter (\<lambda>i. i \<notin> claimed_in CallerCtx (o_IdempotencyToken opts) cl) raw" by blast
    from lst(3) [OF Inr] obtain nodes where nodes: "listing_of CallerCtx None lst = Some nodes" "raw = matching_ids nodes offeringID cnt (o_RequestedAt opts)" by blast
    have run: "ran env (o_AttemptJournal opts) s (lst @ cl) s2" using ran_trans [OF lst(1) cl(1)] .
    show ?thesis
    proof (cases c)
      case (Inl e)
      with assms False f Inr u have "s' = s2" "stop" "\<not> pr_Success res1 \<and> pr_Error res1 \<noteq> None" by (auto simp: guardAgainstRepurchase_def refused_def fail_with_def)
      with run lst(2) cl(2) show ?thesis by (auto simp: guard_answer_def intro!: exI [of _ "lst @ cl"])
    next
      case (Inr ke)
      obtain kept ex where ke: "ke = (kept, ex)" by (cases ke)
      with Inr cl(3) have kept: "kept = filter (\<lambda>i. i \<notin> claimed_in CallerCtx (o_IdempotencyToken opts) cl) raw" by simp
      have "nothing_listed CallerCtx opts offeringID cnt (lst @ cl)" if "kept = []"
        using that kept nodes lst(2) cl(2) unfolding nothing_listed_def by (auto simp: filter_empty_conv)
      moreover have "one_listed CallerCtx opts offeringID cnt (hd kept) (lst @ cl)" if "length kept = 1"
        proof -
        have "kept = [hd kept]" using that by (cases kept) auto
        then have "filter (\<lambda>n. n \<notin> claimed_in CallerCtx (o_IdempotencyToken opts) cl) (matching_ids nodes offeringID cnt (o_RequestedAt opts)) = [hd kept]"
          using kept nodes(2) by simp
        with nodes(1) lst(2) cl(2) show ?thesis unfolding one_listed_def by (metis list_all_append)
      qed
      moreover have sz: "length kept \<noteq> 1 \<Longrightarrow> \<not> length kept > 1 \<Longrightarrow> kept = []" by (cases kept) auto
      then have "s' = s2" "kept \<noteq> [] \<longrightarrow> stop" "kept = [] \<longrightarrow> \<not> stop \<and> res1 = res"
          "stop \<longrightarrow> length kept = 1 \<and> res1 = adopt res (hd kept) \<or> \<not> pr_Success res1 \<and> pr_Error res1 \<noteq> None"
        using assms False f \<open>r = Inr raw\<close> u Inr ke sz by (auto simp: guardAgainstRepurchase_def fail_with_def split: if_splits)
      ultimately have "guard_answer res stop (nothing_listed CallerCtx opts offeringID cnt) (one_listed CallerCtx opts offeringID cnt) res1 (lst @ cl)"
        unfolding guard_answer_def by (cases "kept = []") auto
      with run lst(2) cl(2) \<open>s' = s2\<close> show ?thesis by (intro exI [of _ "lst @ cl"]) simp
    qed
  qed
qed

section \<open>The journal before the send\<close>

text \<open>No attempt of the token is known to have bought, and none that may have is out of the listing's sight.\<close>

definition cleared :: "'w JournaledOptions \<Rightarrow> go_string \<Rightarrow> int \<Rightarrow> rs_event list \<Rightarrow> bool" where
  "cleared opts offeringID cnt evs \<longleftrightarrow>
    (\<exists>priors ls. evs = Priors (o_IdempotencyToken opts) (Inr priors) # ls
       \<and> (\<forall>p \<in> set priors. a_State p \<noteq> ''purchased'')
       \<and> (\<forall>p \<in> set priors. may_have_sent p \<longrightarrow> a_ExecutionID p \<noteq> o_ExecutionID opts \<and> a_OfferingID p = offeringID)
       \<and> nothing_listed CallerCtx opts offeringID cnt ls)"

text \<open>
  A node that is adopted is on record: an earlier attempt recorded it and the account still lists it, or it
  is the one listed node and has just been recorded.
\<close>

definition vouched :: "'w JournaledOptions \<Rightarrow> go_string \<Rightarrow> int \<Rightarrow> go_string \<Rightarrow> rs_event list \<Rightarrow> bool" where
  "vouched opts offeringID cnt i evs \<longleftrightarrow>
    (\<exists>priors ls. evs = Priors (o_IdempotencyToken opts) (Inr priors) # ls
       \<and> (\<exists>p \<in> set priors. a_State p = ''purchased'' \<and> a_ReservationID p = i)
       \<and> (\<exists>nodes. listing_of CallerCtx None ls = Some nodes \<and> i \<in> set (matching_ids nodes offeringID cnt (o_RequestedAt opts))))
    \<or> (\<exists>pr ls. evs = pr # ls @ [Recorded DetachedCtx (attempt_of opts ''purchased'' i offeringID) None]
       \<and> one_listed CallerCtx opts offeringID cnt i ls)"

lemma recorded_loop_set: "set (recorded_loop ids ps) = set ids \<union> {a_ReservationID p |p. p \<in> set ps \<and> a_State p = ''purchased''}"
  by (induction ids ps rule: recorded_loop.induct) auto

lemma recorded_ids_set: "set (recordedReservationIDs ps) = {a_ReservationID p |p. p \<in> set ps \<and> a_State p = ''purchased''}"
  by (simp add: recordedReservationIDs_def recorded_loop_set)

lemma refuseUnresolvedPriors_cases:
  "refuseUnresolvedPriors res ps offeringID opts = (res1, stop) \<Longrightarrow>
    (\<not> stop \<and> res1 = res \<and> (\<forall>p \<in> set ps. may_have_sent p \<longrightarrow> a_ExecutionID p \<noteq> o_ExecutionID opts \<and> a_OfferingID p = offeringID))
    \<or> (stop \<and> (\<exists>e. res1 = fail_with res e))"
  by (induction ps) (auto split: if_splits)

lemma adoptRecordedNode_ran:
  assumes "adoptRecordedNode env res ids offeringID cnt opts s = (res1, s')" and "ids \<noteq> []" and "\<not> pr_Success res"
  shows "\<exists>evs. ran env jn s evs s' \<and> list_all is_read evs
    \<and> ((\<exists>i nodes. res1 = adopt res i \<and> i \<in> set ids \<and> listing_of CallerCtx None evs = Some nodes
          \<and> i \<in> set (matching_ids nodes offeringID cnt (o_RequestedAt opts)))
       \<or> (\<not> pr_Success res1 \<and> pr_Error res1 \<noteq> None))"
proof (cases "length ids > 1")
  case True
  with assms show ?thesis by (auto simp: adoptRecordedNode_def refused_def intro!: exI [of _ "[]"])
next
  case False
  obtain r s1 where f: "findMatchingNodes env CallerCtx offeringID cnt (o_RequestedAt opts) s = (r, s1)"
    by (cases "findMatchingNodes env CallerCtx offeringID cnt (o_RequestedAt opts) s")
  from findMatchingNodes_ran [OF f, of jn] obtain lst where lst: "ran env jn s lst s1" "list_all is_read lst"
      "\<And>raw. r = Inr raw \<Longrightarrow> \<exists>nodes. listing_of CallerCtx None lst = Some nodes \<and> raw = matching_ids nodes offeringID cnt (o_RequestedAt opts)" by blast
  have "hd ids \<in> set ids" using assms(2) by simp
  with assms False f lst show ?thesis
    by (cases r) (fastforce simp: adoptRecordedNode_def refused_def split: if_splits)+
qed

lemma recordPurchased_ran:
  assumes "recordPurchased res offeringID opts s = (res1, s')" and "o_AttemptJournal opts = Some j"
  obtains e where "ran env (Some j) s [Recorded DetachedCtx (attempt_of opts ''purchased'' (pr_CommitmentID res) offeringID) e] s'"
    and "e = None \<Longrightarrow> res1 = res"
    and "e \<noteq> None \<Longrightarrow> \<not> pr_Success res1 \<and> (\<exists>x. pr_Error res1 = Some x \<and> outcome_unknown x) \<and> pr_CommitmentID res1 = pr_CommitmentID res"
proof -
  let ?a = "attempt_of opts ''purchased'' (pr_CommitmentID res) offeringID"
  obtain e s1 where c: "call_record j DetachedCtx ?a s = (e, s1)" by (cases "call_record j DetachedCtx ?a s")
  with assms have s1: "s' = s1" and n: "e = None \<Longrightarrow> res1 = res"
    and f: "e \<noteq> None \<Longrightarrow> \<not> pr_Success res1 \<and> (\<exists>x. pr_Error res1 = Some x \<and> outcome_unknown x) \<and> pr_CommitmentID res1 = pr_CommitmentID res"
    by (auto simp: recordPurchased_def writeAttempt_def outcome_unknown_def ErrOutcomeUnknown_def split: option.splits)
  show ?thesis using that [OF call_record_ran [OF c, of env, folded s1]] n f by blast
qed

lemma journalPreflight_ran:
  assumes "journalPreflight env res offeringID cnt opts s = ((res1, stop), s')" and j: "o_AttemptJournal opts = Some j"
    and failed: "\<not> pr_Success res"
  shows "\<exists>evs. ran env (Some j) s evs s' \<and> (\<forall>ev \<in> set evs. \<not> is_send ev)
    \<and> guard_answer res stop (cleared opts offeringID cnt) (vouched opts offeringID cnt) res1 evs"
proof (cases "is_zero_time (o_RequestedAt opts) \<or> o_ExecutionID opts = []")
  case True
  with assms have "s' = s" "stop" "\<not> pr_Success res1" "pr_Error res1 \<noteq> None"
    by (auto simp: journalPreflight_def fail_with_def refused_def split: if_splits)
  then show ?thesis by (auto simp: guard_answer_def intro!: exI [of _ "[]"])
next
  case False
  let ?tok = "o_IdempotencyToken opts"
  obtain r s1 where p: "call_priors j ?tok s = (r, s1)" by (cases "call_priors j ?tok s")
  note run1 = call_priors_ran [OF p, of env]
  show ?thesis
  proof (cases r)
    case (Inl e)
    with assms False p run1 show ?thesis
      by (auto simp: journalPreflight_def guard_answer_def refused_def intro!: exI [of _ "[Priors ?tok r]"])
  next
    case (Inr priors)
    show ?thesis
    proof (cases "recordedReservationIDs priors = []")
      case False
      obtain ra sa where a: "adoptRecordedNode env res (recordedReservationIDs priors) offeringID cnt opts s1 = (ra, sa)"
        by (cases "adoptRecordedNode env res (recordedReservationIDs priors) offeringID cnt opts s1")
      from adoptRecordedNode_ran [OF a False failed, of "Some j"] obtain ls where ls: "ran env (Some j) s1 ls sa" "list_all is_read ls"
          "(\<exists>i nodes. ra = adopt res i \<and> i \<in> set (recordedReservationIDs priors) \<and> listing_of CallerCtx None ls = Some nodes
              \<and> i \<in> set (matching_ids nodes offeringID cnt (o_RequestedAt opts)))
           \<or> (\<not> pr_Success ra \<and> pr_Error ra \<noteq> None)" by blast
      have "res1 = ra" "stop" "s' = sa"
        using assms(1) j False \<open>\<not> (is_zero_time (o_RequestedAt opts) \<or> o_ExecutionID opts = [])\<close> p Inr a
        by (auto simp: journalPreflight_def Let_def)
      moreover from ls(3) have "guard_answer res True (cleared opts offeringID cnt) (vouched opts offeringID cnt) ra (Priors ?tok r # ls)"
        unfolding guard_answer_def vouched_def Inr recorded_ids_set by fastforce
      moreover have "\<forall>ev \<in> set (Priors ?tok r # ls). \<not> is_send ev" using reads_no_send [OF ls(2)] by auto
      ultimately show ?thesis using ran_trans [OF run1 ls(1)] by (intro exI [of _ "Priors ?tok r # ls"]) simp
    next
      case True
      obtain rg sg stp where g: "guardAgainstRepurchase env res offeringID cnt opts priors s1 = ((rg, stp), sg)"
        by (cases "guardAgainstRepurchase env res offeringID cnt opts priors s1") auto
      from guardAgainstRepurchase_ran [OF g failed] j obtain ls where ls: "ran env (Some j) s1 ls sg" "list_all is_read ls"
          "guard_answer res stp (nothing_listed CallerCtx opts offeringID cnt) (one_listed CallerCtx opts offeringID cnt) rg ls" by auto
      have quiet: "\<forall>ev \<in> set (Priors ?tok r # ls). \<not> is_send ev" using reads_no_send [OF ls(2)] by auto
      note run2 = ran_trans [OF run1 ls(1), simplified]
      note body = assms(1) j True \<open>\<not> (is_zero_time (o_RequestedAt opts) \<or> o_ExecutionID opts = [])\<close> p Inr g
      from ls(3) consider (go) "\<not> stp" "rg = res" "nothing_listed CallerCtx opts offeringID cnt ls"
        | (ad) i where "stp" "rg = adopt res i" "one_listed CallerCtx opts offeringID cnt i ls"
        | (no) "stp" "\<not> pr_Success rg" "pr_Error rg \<noteq> None"
        unfolding guard_answer_def by blast
      then show ?thesis
      proof cases
        case go
        with body have q: "refuseUnresolvedPriors res priors offeringID opts = (res1, stop)" "s' = sg" by (auto simp: journalPreflight_def)
        from True recorded_ids_set [of priors] have "\<forall>q \<in> set priors. a_State q \<noteq> ''purchased''" by auto
        with refuseUnresolvedPriors_cases [OF q(1)] go(3)
        have "guard_answer res stop (cleared opts offeringID cnt) (vouched opts offeringID cnt) res1 (Priors ?tok r # ls)"
          unfolding guard_answer_def cleared_def Inr using failed by (auto simp: fail_with_def)
        with run2 q(2) quiet show ?thesis by (intro exI [of _ "Priors ?tok r # ls"]) simp
      next
        case ad
        with body have c: "recordPurchased (adopt res i) offeringID opts sg = (res1, s')" "stop"
          by (auto simp: journalPreflight_def split: prod.splits)
        obtain e where
          e: "ran env (Some j) sg [Recorded DetachedCtx (attempt_of opts ''purchased'' i offeringID) e] s'"
            "e = None \<Longrightarrow> res1 = adopt res i" "e \<noteq> None \<Longrightarrow> \<not> pr_Success res1 \<and> pr_Error res1 \<noteq> None"
          by (rule recordPurchased_ran [OF c(1) j, of env]) auto
        let ?evs = "Priors ?tok r # ls @ [Recorded DetachedCtx (attempt_of opts ''purchased'' i offeringID) e]"
        have "guard_answer res stop (cleared opts offeringID cnt) (vouched opts offeringID cnt) res1 ?evs"
          using e(2,3) c(2) ad(3) unfolding guard_answer_def vouched_def by (cases e) auto
        moreover have "\<forall>ev \<in> set ?evs. \<not> is_send ev" using quiet by auto
        ultimately show ?thesis using ran_trans [OF run2 e(1)] by (intro exI [of _ ?evs]) simp
      next
        case no
        with body have "res1 = rg" "stop" "s' = sg" by (auto simp: journalPreflight_def)
        with no run2 quiet show ?thesis unfolding guard_answer_def by (intro exI [of _ "Priors ?tok r # ls"]) simp
      qed
    qed
  qed
qed

section \<open>What a purchase may do\<close>

text \<open>The three guards: with a journal, with a token alone, and without either.\<close>

definition guarded :: "'w JournaledOptions \<Rightarrow> go_string \<Rightarrow> int \<Rightarrow> rs_event list \<Rightarrow> bool" where
  "guarded opts offeringID cnt evs \<longleftrightarrow>
    (if journalActive opts then cleared opts offeringID cnt evs
     else if o_IdempotencyToken opts \<noteq> [] then nothing_listed CallerCtx opts offeringID cnt evs
     else evs = [])"

definition adoptable :: "'w JournaledOptions \<Rightarrow> go_string \<Rightarrow> int \<Rightarrow> go_string \<Rightarrow> rs_event list \<Rightarrow> bool" where
  "adoptable opts offeringID cnt i evs \<longleftrightarrow>
    (if journalActive opts then vouched opts offeringID cnt i evs
     else o_IdempotencyToken opts \<noteq> [] \<and> one_listed CallerCtx opts offeringID cnt i evs)"

text \<open>The price that was read back is within the approved upfront.\<close>

definition approved_price :: "Recommendation \<Rightarrow> go_string \<Rightarrow> rs_event list \<Rightarrow> bool" where
  "approved_price rec offeringID evs \<longleftrightarrow>
    (NoUpfrontApproved (r_CommitmentCost rec) \<and> evs = [])
    \<or> (\<exists>out off price. evs = [Offerings \<lparr>oi_ReservedNodeOfferingId = Some offeringID, oi_MaxRecords = None, oi_Marker = None\<rparr> (Inr out)]
         \<and> oo_ReservedNodeOfferings out = [off] \<and> ro_FixedPrice off = Some price
         \<and> CheckUpfront ''Redshift'' (price * float_of_int (r_Count rec)) (r_CommitmentCost rec) = None)"

text \<open>After the send with a journal, for each answer of AWS.\<close>

definition journaled_end :: "'w rs_env \<Rightarrow> 'w JournaledOptions \<Rightarrow> go_string \<Rightarrow> int \<Rightarrow> go_error + ReservedNode option \<Rightarrow> PurchaseResult \<Rightarrow> rs_event list \<Rightarrow> bool" where
  "journaled_end env opts offeringID cnt answer res evs \<longleftrightarrow>
    (\<exists>i e look. evs = look @ [Recorded DetachedCtx (attempt_of opts ''purchased'' i offeringID) e] \<and> pr_CommitmentID res = i
       \<and> ((\<exists>node. answer = Inr (Some node) \<and> i = ToString (rn_ReservedNodeId node) \<and> look = [])
          \<or> (\<exists>x. send_error env answer = Some x \<and> outcome_unknown x \<and> one_listed DetachedCtx opts offeringID cnt i look))
       \<and> (if e = None then pr_Success res \<and> pr_Error res = None
          else \<not> pr_Success res \<and> (\<exists>x. pr_Error res = Some x \<and> outcome_unknown x)))
    \<or> (\<exists>e x look. evs = look @ [Recorded DetachedCtx (attempt_of opts ''outcome_unknown'' [] offeringID) e]
       \<and> list_all is_read look \<and> send_error env answer = Some x \<and> \<not> pr_Success res
       \<and> (\<exists>y. pr_Error res = Some y \<and> (e = None \<longrightarrow> y = x) \<and> (outcome_unknown x \<longrightarrow> outcome_unknown y)))"

definition unjournaled_end :: "'w rs_env \<Rightarrow> 'w JournaledOptions \<Rightarrow> go_string \<Rightarrow> int \<Rightarrow> go_error + ReservedNode option \<Rightarrow> PurchaseResult \<Rightarrow> rs_event list \<Rightarrow> bool" where
  "unjournaled_end env opts offeringID cnt answer res evs \<longleftrightarrow>
    (\<exists>node. answer = Inr (Some node) \<and> evs = [] \<and> pr_Success res \<and> pr_CommitmentID res = ToString (rn_ReservedNodeId node) \<and> pr_Error res = None)
    \<or> (\<exists>x. send_error env answer = Some x \<and> list_all is_read evs
       \<and> ((outcome_unknown x \<and> pr_Success res \<and> pr_Error res = None \<and> one_listed DetachedCtx opts offeringID cnt (pr_CommitmentID res) evs)
          \<or> (\<not> pr_Success res \<and> pr_Error res = Some x)))"

text \<open>
  A run either buys nothing, and then fails or adopts, or it sends exactly one request, in this order:
  an offering on the recommended terms, the guard, the price, the durable record, the send, the end.
\<close>

definition buys_nothing :: "Recommendation \<Rightarrow> 'w JournaledOptions \<Rightarrow> PurchaseResult \<Rightarrow> rs_event list \<Rightarrow> bool" where
  "buys_nothing rec opts res evs \<longleftrightarrow> (\<forall>ev \<in> set evs. \<not> is_send ev)
     \<and> ((\<not> pr_Success res \<and> pr_Error res \<noteq> None)
        \<or> (\<exists>find guard off. evs = find @ guard \<and> list_all is_read find \<and> (\<exists>o1 \<in> offered find. on_terms rec o1 \<and> ro_ReservedNodeOfferingId o1 = Some off)
             \<and> pr_Success res \<and> pr_ExistingCommitment res \<and> pr_Error res = None \<and> adoptable opts off (r_Count rec) (pr_CommitmentID res) guard))"

definition buys_once :: "'w rs_env \<Rightarrow> Recommendation \<Rightarrow> 'w JournaledOptions \<Rightarrow> PurchaseResult \<Rightarrow> rs_event list \<Rightarrow> bool" where
  "buys_once env rec opts res evs \<longleftrightarrow>
    (\<exists>find guard price rcd off answer end_evs.
       evs = find @ guard @ price @ rcd @ Bought \<lparr>pin_ReservedNodeOfferingId = off, pin_NodeCount = r_Count rec\<rparr> answer # end_evs
     \<and> list_all is_read find \<and> (\<exists>o1 \<in> offered find. on_terms rec o1 \<and> ro_ReservedNodeOfferingId o1 = Some off)
     \<and> 1 \<le> r_Count rec \<and> r_Count rec \<le> MaxInt32
     \<and> guarded opts off (r_Count rec) guard \<and> approved_price rec off price
     \<and> rcd = (if journalActive opts then [Recorded CallerCtx (attempt_of opts ''sending'' [] off) None] else [])
     \<and> (if journalActive opts then journaled_end env opts off (r_Count rec) answer res end_evs
        else unjournaled_end env opts off (r_Count rec) answer res end_evs))"

definition purchase_spec :: "'w rs_env \<Rightarrow> Recommendation \<Rightarrow> 'w JournaledOptions \<Rightarrow> PurchaseResult \<Rightarrow> rs_event list \<Rightarrow> bool" where
  "purchase_spec env rec opts res evs \<longleftrightarrow> buys_nothing rec opts res evs \<or> buys_once env rec opts res evs"

section \<open>The purchase refines it\<close>

lemma journalActive_Some: "journalActive opts \<Longrightarrow> \<exists>j. o_AttemptJournal opts = Some j"
  by (auto simp: journalActive_def)

lemma guardBeforePurchase_ran:
  assumes g: "guardBeforePurchase env res offeringID cnt opts s = ((res1, stop), s')" and failed: "\<not> pr_Success res"
  shows "\<exists>evs. ran env (o_AttemptJournal opts) s evs s' \<and> (\<forall>ev \<in> set evs. \<not> is_send ev)
    \<and> guard_answer res stop (guarded opts offeringID cnt) (adoptable opts offeringID cnt) res1 evs"
proof (cases "journalActive opts")
  case True
  then obtain j where j: "o_AttemptJournal opts = Some j" using journalActive_Some by blast
  have "journalPreflight env res offeringID cnt opts s = ((res1, stop), s')" using g True by (simp add: guardBeforePurchase_def)
  from journalPreflight_ran [OF this j failed] show ?thesis
    unfolding guarded_def adoptable_def guard_answer_def j by (simp add: True)
next
  case False
  show ?thesis
  proof (cases "o_IdempotencyToken opts = []")
    case True
    with g False show ?thesis by (auto simp: guardBeforePurchase_def guard_answer_def guarded_def intro!: exI [of _ "[]"])
  next
    case tok: False
    have "guardAgainstRepurchase env res offeringID cnt opts [] s = ((res1, stop), s')" using g False tok by (simp add: guardBeforePurchase_def)
    from guardAgainstRepurchase_ran [OF this failed] reads_no_send show ?thesis
      unfolding guarded_def adoptable_def guard_answer_def by (simp add: False tok) blast
  qed
qed

lemma checkApprovedUpfront_ran:
  assumes "checkApprovedUpfront env rec offeringID s = (r, s')"
  shows "\<exists>evs. ran env jn s evs s' \<and> list_all is_read evs \<and> (r = None \<longrightarrow> approved_price rec offeringID evs)"
proof (cases "NoUpfrontApproved (r_CommitmentCost rec) \<or> r_CommitmentCurrency rec \<noteq> [] \<and> \<not> equal_fold (r_CommitmentCurrency rec) ''USD''")
  case True
  with assms show ?thesis
    by (auto simp: checkApprovedUpfront_def Let_def approved_price_def intro!: exI [of _ "[]"] split: if_splits)
next
  case False
  let ?in = "\<lparr>oi_ReservedNodeOfferingId = Some offeringID, oi_MaxRecords = None, oi_Marker = None\<rparr>"
  obtain a s1 where c: "call_offerings env ?in s = (a, s1)" by (cases "call_offerings env ?in s")
  have s1: "s' = s1" and ok: "r = None \<Longrightarrow> approved_price rec offeringID [Offerings ?in a]"
    using assms False c by (auto simp: checkApprovedUpfront_def Let_def approved_price_def split: sum.splits list.splits option.splits if_splits)
  from call_offerings_ran [OF c, of jn] ok show ?thesis unfolding s1 by (intro exI [of _ "[Offerings ?in a]"]) simp
qed

lemma readyToSend_ran:
  assumes r: "readyToSend env res rec offeringID opts s = ((res1, go), s')" and failed: "\<not> pr_Success res"
  shows "\<exists>price rcd. ran env (o_AttemptJournal opts) s (price @ rcd) s' \<and> (\<forall>ev \<in> set (price @ rcd). \<not> is_send ev)
    \<and> (if go then res1 = res \<and> approved_price rec offeringID price
         \<and> rcd = (if journalActive opts then [Recorded CallerCtx (attempt_of opts ''sending'' [] offeringID) None] else [])
       else \<not> pr_Success res1 \<and> pr_Error res1 \<noteq> None)"
proof -
  obtain e s1 where c: "checkApprovedUpfront env rec offeringID s = (e, s1)" by (cases "checkApprovedUpfront env rec offeringID s")
  from checkApprovedUpfront_ran [OF c, of "o_AttemptJournal opts"] obtain price where
    price: "ran env (o_AttemptJournal opts) s price s1" "list_all is_read price" "e = None \<Longrightarrow> approved_price rec offeringID price" by blast
  note quiet = reads_no_send [OF price(2)]
  show ?thesis
  proof (cases "e = None \<and> journalActive opts")
    case False
    with r c failed have "s' = s1" "if go then res1 = res \<and> e = None \<and> \<not> journalActive opts else \<not> pr_Success res1 \<and> pr_Error res1 \<noteq> None"
      by (auto simp: readyToSend_def recordSending_def fail_with_def split: option.splits if_splits)
    with price quiet show ?thesis by (intro exI [of _ price] exI [of _ "[]"]) (auto split: if_splits)
  next
    case True
    then obtain j where j: "o_AttemptJournal opts = Some j" using journalActive_Some by blast
    let ?a = "attempt_of opts ''sending'' [] offeringID"
    obtain x s2 where w: "call_record j CallerCtx ?a s1 = (x, s2)" by (cases "call_record j CallerCtx ?a s1")
    with r c True j failed have "s' = s2" "if go then res1 = res \<and> x = None else \<not> pr_Success res1 \<and> pr_Error res1 \<noteq> None"
      by (auto simp: readyToSend_def recordSending_def refused_def split: option.splits)
    with ran_trans [OF price(1) call_record_ran [OF w, of env, folded j]] price(3) quiet True show ?thesis
      by (intro exI [of _ price] exI [of _ "[Recorded CallerCtx ?a x]"]) (auto split: if_splits)
  qed
qed

lemma adoptAfterUnknownOutcome_ran:
  assumes a: "adoptAfterUnknownOutcome env res offeringID cnt opts s = ((res1, found), s')" and x: "pr_Error res = Some x"
  shows "\<exists>evs. ran env (o_AttemptJournal opts) s evs s' \<and> list_all is_read evs
    \<and> (if found then outcome_unknown x \<and> (\<exists>i. res1 = adopt res i \<and> one_listed DetachedCtx opts offeringID cnt i evs) else res1 = res)"
proof (cases "\<not> outcome_unknown x \<or> o_IdempotencyToken opts = [] \<or> is_zero_time (o_RequestedAt opts)")
  case True
  with assms show ?thesis by (auto simp: adoptAfterUnknownOutcome_def intro!: exI [of _ "[]"])
next
  case False
  obtain r s1 where f: "findMatchingNodes env DetachedCtx offeringID cnt (o_RequestedAt opts) s = (r, s1)"
    by (cases "findMatchingNodes env DetachedCtx offeringID cnt (o_RequestedAt opts) s")
  from findMatchingNodes_ran [OF f, of "o_AttemptJournal opts"] obtain lst where lst: "ran env (o_AttemptJournal opts) s lst s1" "list_all is_read lst"
      "\<And>raw. r = Inr raw \<Longrightarrow> \<exists>nodes. listing_of DetachedCtx None lst = Some nodes \<and> raw = matching_ids nodes offeringID cnt (o_RequestedAt opts)" by blast
  show ?thesis
  proof (cases r)
    case (Inl e)
    with assms False f lst(1,2) show ?thesis by (auto simp: adoptAfterUnknownOutcome_def intro!: exI [of _ lst])
  next
    case (Inr raw)
    obtain c s2 where u: "unclaimed DetachedCtx raw opts s1 = (c, s2)" by (cases "unclaimed DetachedCtx raw opts s1")
    from unclaimed_ran [OF u, of env] obtain cl where cl: "ran env (o_AttemptJournal opts) s1 cl s2" "list_all is_read cl"
        "\<And>kept ex. c = Inr (kept, ex) \<Longrightarrow> kept = filter (\<lambda>i. i \<notin> claimed_in DetachedCtx (o_IdempotencyToken opts) cl) raw" by blast
    from lst(3) [OF Inr] obtain nodes where nodes: "listing_of DetachedCtx None lst = Some nodes" "raw = matching_ids nodes offeringID cnt (o_RequestedAt opts)" by blast
    have s2: "s' = s2" using assms False f Inr u by (auto simp: adoptAfterUnknownOutcome_def split: sum.splits list.splits)
    have "if found then \<exists>i ex. c = Inr ([i], ex) \<and> res1 = adopt res i else res1 = res"
      using assms False f Inr u by (auto simp: adoptAfterUnknownOutcome_def split: sum.splits list.splits)
    moreover have "one_listed DetachedCtx opts offeringID cnt i (lst @ cl)" if "c = Inr ([i], ex)" for i ex
      using cl(3) [OF that] nodes lst(2) cl(2) unfolding one_listed_def by (metis list_all_append)
    ultimately have "if found then \<exists>i. res1 = adopt res i \<and> one_listed DetachedCtx opts offeringID cnt i (lst @ cl) else res1 = res"
      by (auto split: if_splits)
    with ran_trans [OF lst(1) cl(1)] lst(2) cl(2) False show ?thesis
      unfolding s2 by (intro exI [of _ "lst @ cl"]) auto
  qed
qed

lemma send_error_cases: "send_error env answer = None \<longleftrightarrow> (\<exists>node. answer = Inr (Some node))"
  by (auto simp: send_error_def split: sum.splits option.splits)

lemma recordUnknown_ran:
  assumes "recordUnknown res offeringID opts s = (res1, s')" and "o_AttemptJournal opts = Some j" and x: "pr_Error res = Some x"
  obtains e where "ran env (Some j) s [Recorded DetachedCtx (attempt_of opts ''outcome_unknown'' [] offeringID) e] s'"
    and "pr_Success res1 = pr_Success res" and "\<exists>y. pr_Error res1 = Some y \<and> (e = None \<longrightarrow> y = x) \<and> (outcome_unknown x \<longrightarrow> outcome_unknown y)"
proof -
  let ?a = "attempt_of opts ''outcome_unknown'' [] offeringID"
  obtain e s1 where c: "call_record j DetachedCtx ?a s = (e, s1)" by (cases "call_record j DetachedCtx ?a s")
  with assms have s1: "s' = s1" and ok: "pr_Success res1 = pr_Success res"
    "\<exists>y. pr_Error res1 = Some y \<and> (e = None \<longrightarrow> y = x) \<and> (outcome_unknown x \<longrightarrow> outcome_unknown y)"
    by (auto simp: recordUnknown_def writeAttempt_def outcome_unknown_def split: option.splits)
  show ?thesis using that [OF call_record_ran [OF c, of env, folded s1] ok] .
qed

lemma finishJournaled_ran:
  assumes f: "finishJournaled env res answer offeringID cnt opts s = ((res1, err), s')" and j: "o_AttemptJournal opts = Some j"
    and failed: "\<not> pr_Success res" and clear: "pr_Error res = None"
  shows "err = pr_Error res1 \<and> (\<exists>evs. ran env (Some j) s evs s' \<and> (\<forall>ev \<in> set evs. \<not> is_send ev) \<and> journaled_end env opts offeringID cnt answer res1 evs)"
proof (cases "send_error env answer")
  case None
  then obtain node where node: "answer = Inr (Some node)" by (auto simp: send_error_cases)
  obtain r1 s1 where p: "recordPurchased (node_result res node) offeringID opts s = (r1, s1)" by force
  obtain e where e: "ran env (Some j) s [Recorded DetachedCtx (attempt_of opts ''purchased'' (pr_CommitmentID (node_result res node)) offeringID) e] s1"
      "e = None \<Longrightarrow> r1 = node_result res node"
      "e \<noteq> None \<Longrightarrow> \<not> pr_Success r1 \<and> (\<exists>x. pr_Error r1 = Some x \<and> outcome_unknown x) \<and> pr_CommitmentID r1 = pr_CommitmentID (node_result res node)"
    using recordPurchased_ran [OF p j, of env] by metis
  have r: "res1 = r1" "s' = s1" "err = pr_Error r1" using f node p by (auto simp: finishJournaled_def)
  have "journaled_end env opts offeringID cnt answer r1
      [Recorded DetachedCtx (attempt_of opts ''purchased'' (pr_CommitmentID (node_result res node)) offeringID) e]"
    unfolding journaled_end_def using node e(2,3) clear
    by (intro disjI1 exI [of _ "pr_CommitmentID (node_result res node)"] exI [of _ e] exI [of _ "[]"]) (auto simp: node_result_def)
  with e(1) r show ?thesis by auto
next
  case (Some x)
  let ?res = "res\<lparr>pr_Error := send_error env answer\<rparr>"
  have nn: "\<And>node. answer \<noteq> Inr (Some node)" using Some send_error_cases [of env answer] by auto
  obtain ra found sa where a: "adoptAfterUnknownOutcome env ?res offeringID cnt opts s = ((ra, found), sa)" by (metis prod.exhaust)
  have x: "pr_Error ?res = Some x" by (simp add: Some)
  from adoptAfterUnknownOutcome_ran [OF a x] j obtain look where look: "ran env (Some j) s look sa" "list_all is_read look"
      "if found then outcome_unknown x \<and> (\<exists>i. ra = adopt ?res i \<and> one_listed DetachedCtx opts offeringID cnt i look) else ra = ?res" by auto
  have quiet: "\<forall>ev \<in> set look. \<not> is_send ev" using reads_no_send [OF look(2)] by blast
  show ?thesis
  proof (cases found)
    case True
    with look(3) obtain i where i: "outcome_unknown x" "ra = adopt ?res i" "one_listed DetachedCtx opts offeringID cnt i look" by auto
    obtain r1 s1 where p: "recordPurchased (adopt ?res i) offeringID opts sa = (r1, s1)" by force
    obtain e where e: "ran env (Some j) sa [Recorded DetachedCtx (attempt_of opts ''purchased'' i offeringID) e] s1" "e = None \<Longrightarrow> r1 = adopt ?res i"
        "e \<noteq> None \<Longrightarrow> \<not> pr_Success r1 \<and> (\<exists>x. pr_Error r1 = Some x \<and> outcome_unknown x) \<and> pr_CommitmentID r1 = i"
      by (rule recordPurchased_ran [OF p j, of env]) auto
    have r: "res1 = r1" "s' = s1" "err = pr_Error r1"
      using f nn a True p i(2) by (auto simp: finishJournaled_def split: sum.splits option.splits)
    have "journaled_end env opts offeringID cnt answer r1 (look @ [Recorded DetachedCtx (attempt_of opts ''purchased'' i offeringID) e])"
      unfolding journaled_end_def using Some i(1,3) e(2,3)
      by (intro disjI1 exI [of _ i] exI [of _ e] exI [of _ look]) (cases e; auto)
    with ran_trans [OF look(1) e(1)] r quiet show ?thesis
      by (intro conjI exI [of _ "look @ [Recorded DetachedCtx (attempt_of opts ''purchased'' i offeringID) e]"]) auto
  next
    case False
    obtain r1 s1 where p: "recordUnknown ?res offeringID opts sa = (r1, s1)" by force
    obtain e where e: "ran env (Some j) sa [Recorded DetachedCtx (attempt_of opts ''outcome_unknown'' [] offeringID) e] s1"
        "pr_Success r1 = pr_Success ?res" "\<exists>y. pr_Error r1 = Some y \<and> (e = None \<longrightarrow> y = x) \<and> (outcome_unknown x \<longrightarrow> outcome_unknown y)"
      by (rule recordUnknown_ran [OF p j x, of env])
    have r: "res1 = r1" "s' = s1" "err = pr_Error r1"
      using f nn a False look(3) p by (auto simp: finishJournaled_def split: sum.splits option.splits)
    have "journaled_end env opts offeringID cnt answer r1 (look @ [Recorded DetachedCtx (attempt_of opts ''outcome_unknown'' [] offeringID) e])"
      unfolding journaled_end_def using Some look(2) e(2,3) failed by fastforce
    with ran_trans [OF look(1) e(1)] r quiet show ?thesis
      by (intro conjI exI [of _ "look @ [Recorded DetachedCtx (attempt_of opts ''outcome_unknown'' [] offeringID) e]"]) auto
  qed
qed

lemma finish_unjournaled_ran:
  assumes f: "finish_unjournaled env res answer offeringID cnt opts s = ((res1, err), s')"
    and failed: "\<not> pr_Success res" and clear: "pr_Error res = None"
  shows "err = pr_Error res1 \<and> (\<exists>evs. ran env (o_AttemptJournal opts) s evs s' \<and> (\<forall>ev \<in> set evs. \<not> is_send ev)
    \<and> unjournaled_end env opts offeringID cnt answer res1 evs)"
proof (cases "send_error env answer")
  case None
  then obtain node where node: "answer = Inr (Some node)" by (auto simp: send_error_cases)
  with f clear show ?thesis by (auto simp: finish_unjournaled_def unjournaled_end_def node_result_def intro!: exI [of _ "[]"])
next
  case (Some x)
  let ?res = "res\<lparr>pr_Error := send_error env answer\<rparr>"
  have nn: "\<And>node. answer \<noteq> Inr (Some node)" using Some send_error_cases [of env answer] by auto
  obtain ra found sa where a: "adoptAfterUnknownOutcome env ?res offeringID cnt opts s = ((ra, found), sa)" by (metis prod.exhaust)
  have x: "pr_Error ?res = Some x" by (simp add: Some)
  from adoptAfterUnknownOutcome_ran [OF a x] obtain look where look: "ran env (o_AttemptJournal opts) s look sa" "list_all is_read look"
      "if found then outcome_unknown x \<and> (\<exists>i. ra = adopt ?res i \<and> one_listed DetachedCtx opts offeringID cnt i look) else ra = ?res" by auto
  have r: "res1 = ra" "s' = sa" "err = (if found then None else pr_Error ra)"
    using f nn a by (auto simp: finish_unjournaled_def split: sum.splits option.splits bool.splits)
  have "unjournaled_end env opts offeringID cnt answer ra look" "err = pr_Error ra"
    unfolding unjournaled_end_def using Some look(2,3) failed r(3) by (auto split: if_splits)
  with look(1,2) r reads_no_send show ?thesis by blast
qed

lemma new_result_simps [simp]: "\<not> pr_Success (new_result rec now)" "pr_Error (new_result rec now) = None"
  by (simp_all add: new_result_def)

lemma purchase_run:
  "\<exists>evs. ran env (o_AttemptJournal opts) s evs (snd (PurchaseCommitment env now rec opts s))
     \<and> snd (fst (PurchaseCommitment env now rec opts s)) = pr_Error (fst (fst (PurchaseCommitment env now rec opts s)))
     \<and> purchase_spec env rec opts (fst (fst (PurchaseCommitment env now rec opts s))) evs"
proof -
  let ?jn = "o_AttemptJournal opts" and ?cnt = "r_Count rec"
  obtain res err s' where P: "PurchaseCommitment env now rec opts s = ((res, err), s')" by (metis prod.exhaust)
  have "\<exists>evs. ran env ?jn s evs s' \<and> err = pr_Error res \<and> purchase_spec env rec opts res evs"
  proof (cases "PurchaseCount ?cnt")
    case (Inl e)
    with P show ?thesis by (auto simp: PurchaseCommitment_def Let_def fail_with_def purchase_spec_def buys_nothing_def intro!: exI [of _ "[]"])
  next
    case c: (Inr n)
    obtain f s1 where f: "findOfferingID env rec s = (f, s1)" by force
    from findOfferingID_ran [OF f, of ?jn] obtain find where find: "ran env ?jn s find s1" "list_all is_read find"
        "\<And>i. f = Inr i \<Longrightarrow> \<exists>off \<in> offered find. on_terms rec off \<and> ro_ReservedNodeOfferingId off = Some i" by blast
    have qf: "\<forall>ev \<in> set find. \<not> is_send ev" using reads_no_send [OF find(2)] by blast
    show ?thesis
    proof (cases f)
      case (Inl e)
      with P c f find(1) qf show ?thesis
        by (auto simp: PurchaseCommitment_def Let_def fail_with_def purchase_spec_def buys_nothing_def intro!: exI [of _ find])
    next
      case off: (Inr off)
      obtain rg stp s2 where g: "guardBeforePurchase env (new_result rec now) off ?cnt opts s1 = ((rg, stp), s2)" by (metis prod.exhaust)
      from guardBeforePurchase_ran [OF g] obtain guard where guard: "ran env ?jn s1 guard s2" "\<forall>ev \<in> set guard. \<not> is_send ev"
          "guard_answer (new_result rec now) stp (guarded opts off ?cnt) (adoptable opts off ?cnt) rg guard" by auto
      note run2 = ran_trans [OF find(1) guard(1)]
      show ?thesis
      proof (cases stp)
        case True
        with P c f off g have r: "res = rg" "s' = s2" "err = pr_Error rg" by (auto simp: PurchaseCommitment_def Let_def)
        have "buys_nothing rec opts rg (find @ guard)"
          using guard(2,3) True qf find(2) find(3) [OF off] unfolding buys_nothing_def guard_answer_def by (auto; blast)
        with run2 r show ?thesis by (auto simp: purchase_spec_def)
      next
        case False
        with guard(3) have rg: "rg = new_result rec now" "guarded opts off ?cnt guard" by (auto simp: guard_answer_def)
        obtain rr go s3 where t: "readyToSend env rg rec off opts s2 = ((rr, go), s3)" by (metis prod.exhaust)
        from readyToSend_ran [OF t] rg(1) obtain price rcd where pr: "ran env ?jn s2 (price @ rcd) s3" "\<forall>ev \<in> set (price @ rcd). \<not> is_send ev"
            "if go then rr = rg \<and> approved_price rec off price
               \<and> rcd = (if journalActive opts then [Recorded CallerCtx (attempt_of opts ''sending'' [] off) None] else [])
             else \<not> pr_Success rr \<and> pr_Error rr \<noteq> None" by auto
        note run3 = ran_trans [OF run2 pr(1)]
        show ?thesis
        proof (cases go)
          case False
          with P c f off g \<open>\<not> stp\<close> t have r: "res = rr" "s' = s3" "err = pr_Error rr" by (auto simp: PurchaseCommitment_def Let_def)
          from pr(3) False have "buys_nothing rec opts rr ((find @ guard) @ price @ rcd)"
            using qf guard(2) pr(2) unfolding buys_nothing_def by auto
          with run3 r show ?thesis by (auto simp: purchase_spec_def)
        next
          case True
          let ?in = "\<lparr>pin_ReservedNodeOfferingId = off, pin_NodeCount = ?cnt\<rparr>"
          have cnt: "n = ?cnt" "1 \<le> ?cnt" "?cnt \<le> MaxInt32" using c by (auto simp: PurchaseCount_Inr)
          obtain answer s4 where b: "call_purchase env ?in s3 = (answer, s4)" by force
          note run4 = ran_trans [OF run3 call_purchase_ran [OF b, of ?jn]]
          from pr(3) True rg(1) have rr: "rr = new_result rec now" by simp
          have "err = pr_Error res \<and> (\<exists>evs. ran env ?jn s4 evs s' \<and> (if journalActive opts then journaled_end env opts off ?cnt answer res evs
              else unjournaled_end env opts off ?cnt answer res evs))"
          proof (cases "journalActive opts")
            case J: True
            then obtain j where j: "?jn = Some j" using journalActive_Some by blast
            from P c f off g \<open>\<not> stp\<close> t True b cnt(1) J have "finishJournaled env rr answer off ?cnt opts s4 = ((res, err), s')"
              by (simp add: PurchaseCommitment_def Let_def)
            from finishJournaled_ran [OF this j] rr J j show ?thesis by auto
          next
            case J: False
            from P c f off g \<open>\<not> stp\<close> t True b cnt(1) J have "finish_unjournaled env rr answer off ?cnt opts s4 = ((res, err), s')"
              by (simp add: PurchaseCommitment_def Let_def)
            from finish_unjournaled_ran [OF this] rr J show ?thesis by auto
          qed
          then obtain end_evs where e: "err = pr_Error res" "ran env ?jn s4 end_evs s'"
            "if journalActive opts then journaled_end env opts off ?cnt answer res end_evs else unjournaled_end env opts off ?cnt answer res end_evs" by blast
          have "buys_once env rec opts res (find @ guard @ price @ rcd @ Bought ?in answer # end_evs)"
            unfolding buys_once_def using find(2) find(3) [OF off] cnt(2,3) rg(2) pr(3) True e(3) by fastforce
          with ran_trans [OF run4 e(2)] e(1) show ?thesis by (auto simp: purchase_spec_def)
        qed
      qed
    qed
  qed
  with P show ?thesis by simp
qed

text \<open>C2. (refinement) Every Redshift purchase is one of two runs. Either nothing is sent, and the result is an error or a
  node that is already owned and was found by the guard. Or exactly one request is sent, for an offering on the recommended terms and
  the approved count, after the guard let it pass, the price was read back and (with a journal) the attempt was recorded durably, in
  this order; and the result says what the answer and the last record prove. The returned error is the one in the result.\<close>

theorem redshift_purchase_refines:
  "\<exists>evs. ran env (o_AttemptJournal opts) s evs (snd (PurchaseCommitment env now rec opts s))
     \<and> snd (fst (PurchaseCommitment env now rec opts s)) = pr_Error (fst (fst (PurchaseCommitment env now rec opts s)))
     \<and> purchase_spec env rec opts (fst (fst (PurchaseCommitment env now rec opts s))) evs"
  by (rule purchase_run)

end
