(* ===== verification/Aws_Redshift_Once.thy ===== *)
theory Aws_Redshift_Once
  imports Aws_Redshift_Run
begin

text \<open>
  What follows from the runs: a token the journal knows is not sent again for the same execution, whatever
  AWS lists; a success is on record, and a purchase that may exist is never reported as a plain failure;
  a reconciliation names a node only when exactly one node fits.
\<close>

section \<open>A token is not bought twice\<close>

lemma guarded_no_send: "guarded opts off cnt evs \<Longrightarrow> ev \<in> set evs \<Longrightarrow> \<not> is_send ev"
  unfolding guarded_def cleared_def nothing_listed_def
  using reads_no_send by (fastforce split: if_splits)

lemma end_no_send:
  "journaled_end env opts off cnt answer res evs \<Longrightarrow> ev \<in> set evs \<Longrightarrow> \<not> is_send ev"
  "unjournaled_end env opts off cnt answer res evs \<Longrightarrow> ev \<in> set evs \<Longrightarrow> \<not> is_send ev"
  unfolding journaled_end_def unjournaled_end_def one_listed_def using reads_no_send by fastforce+

lemma approved_price_no_send: "approved_price rec off evs \<Longrightarrow> ev \<in> set evs \<Longrightarrow> \<not> is_send ev"
  unfolding approved_price_def by auto

lemma filter_sends_empty: "(\<And>ev. ev \<in> set evs \<Longrightarrow> \<not> is_send ev) \<Longrightarrow> filter is_send evs = []"
  by (simp add: filter_empty_conv)

text \<open>The one send of a run, with what stands before it.\<close>

lemma buys_once_send:
  assumes "buys_once env rec opts res evs"
  obtains find guard mid answer post off where
    "evs = find @ guard @ mid @ Bought \<lparr>pin_ReservedNodeOfferingId = off, pin_NodeCount = r_Count rec\<rparr> answer # post"
    and "guarded opts off (r_Count rec) guard"
    and "journalActive opts \<Longrightarrow> Recorded CallerCtx (attempt_of opts ''sending'' [] off) None \<in> set mid"
    and "filter is_send evs = [Bought \<lparr>pin_ReservedNodeOfferingId = off, pin_NodeCount = r_Count rec\<rparr> answer]"
proof -
  from assms obtain find guard price rcd off answer post where
    evs: "evs = find @ guard @ price @ rcd @ Bought \<lparr>pin_ReservedNodeOfferingId = off, pin_NodeCount = r_Count rec\<rparr> answer # post"
    and parts: "list_all is_read find" "guarded opts off (r_Count rec) guard" "approved_price rec off price"
    and rcd: "rcd = (if journalActive opts then [Recorded CallerCtx (attempt_of opts ''sending'' [] off) None] else [])"
    and post: "if journalActive opts then journaled_end env opts off (r_Count rec) answer res post
        else unjournaled_end env opts off (r_Count rec) answer res post"
    unfolding buys_once_def by blast
  have "filter is_send find = []" "filter is_send guard = []" "filter is_send price = []" "filter is_send rcd = []" "filter is_send post = []"
    by (rule filter_sends_empty; use reads_no_send parts guarded_no_send approved_price_no_send rcd post end_no_send in \<open>fastforce split: if_splits\<close>)+
  with evs have "filter is_send evs = [Bought \<lparr>pin_ReservedNodeOfferingId = off, pin_NodeCount = r_Count rec\<rparr> answer]" by simp
  then show ?thesis using that [of find guard "price @ rcd" off answer post] evs parts(2) rcd by simp
qed

text \<open>
  What the caller's journal promises (\<open>attempt_journal.go\<close>): a \<open>sending\<close> record is committed before
  \<open>RecordAttempt\<close> returns, nothing removes an attempt, and \<open>PriorAttempts\<close> returns it in one of its states,
  with the offering it was first recorded under.
\<close>

definition durable :: "'w rs_env \<Rightarrow> 'w AttemptJournal \<Rightarrow> (go_string \<Rightarrow> go_string \<Rightarrow> go_string \<Rightarrow> 'w \<Rightarrow> bool) \<Rightarrow> bool" where
  "durable env j attempted \<longleftrightarrow>
    (\<forall>ctx a w w'. j_RecordAttempt j ctx a w = (None, w') \<and> a_State a = ''sending''
        \<longrightarrow> attempted (a_IdempotencyToken a) (a_ExecutionID a) (a_OfferingID a) w')
  \<and> (\<forall>tok ex off w ev w'. attempted tok ex off w \<and> rs_step env (Some j) w ev w' \<longrightarrow> attempted tok ex off w')
  \<and> (\<forall>tok ex off w w' priors. attempted tok ex off w \<and> j_PriorAttempts j tok w = (Inr priors, w') \<longrightarrow>
        (\<exists>p \<in> set priors. a_ExecutionID p = ex \<and> a_OfferingID p = off \<and> a_State p \<in> {''sending'', ''outcome_unknown'', ''purchased''}))"

lemma attempted_run:
  assumes "durable env j attempted"
  shows "rs_run env (Some j) w evs w' \<Longrightarrow> attempted tok ex off w \<Longrightarrow> attempted tok ex off w'"
  by (induction rule: rs_run.induct) (use assms in \<open>auto simp: durable_def\<close>)

lemma recorded_is_attempted:
  assumes "durable env j attempted"
  shows "rs_run env (Some j) w evs w' \<Longrightarrow> Recorded ctx a None \<in> set evs \<Longrightarrow> a_State a = ''sending''
    \<Longrightarrow> attempted (a_IdempotencyToken a) (a_ExecutionID a) (a_OfferingID a) w'"
proof (induction rule: rs_run.induct)
  case (run_step w ev w1 evs w2)
  show ?case
  proof (cases "Recorded ctx a None \<in> set evs")
    case True
    with run_step show ?thesis by simp
  next
    case False
    with run_step have "rs_step env (Some j) w (Recorded ctx a None) w1" by simp
    then have "j_RecordAttempt j ctx a w = (None, w1)" by cases simp
    with assms run_step.prems have "attempted (a_IdempotencyToken a) (a_ExecutionID a) (a_OfferingID a) w1"
      unfolding durable_def by blast
    with attempted_run [OF assms run_step.hyps(2)] show ?thesis by blast
  qed
qed simp

lemma attempted_in_priors:
  assumes "durable env j attempted"
  shows "rs_run env (Some j) w evs w' \<Longrightarrow> Priors tok (Inr priors) \<in> set evs \<Longrightarrow> attempted tok ex off w
    \<Longrightarrow> \<exists>p \<in> set priors. a_ExecutionID p = ex \<and> a_OfferingID p = off \<and> a_State p \<in> {''sending'', ''outcome_unknown'', ''purchased''}"
proof (induction rule: rs_run.induct)
  case (run_step w ev w1 evs w2)
  show ?case
  proof (cases "Priors tok (Inr priors) \<in> set evs")
    case True
    with run_step attempted_run [OF assms, of w "[ev]" w1] show ?thesis by auto
  next
    case False
    with run_step have "rs_step env (Some j) w (Priors tok (Inr priors)) w1" by simp
    then have "j_PriorAttempts j tok w = (Inr priors, w1)" by cases simp
    with assms run_step.prems(2) show ?thesis unfolding durable_def by blast
  qed
qed simp

lemma resend_needs_listing:
  assumes "durable env j attempted" and "journalActive opts" and "o_AttemptJournal opts = Some j"
    and "attempted (o_IdempotencyToken opts) ex off (rs_world s)"
    and "rs_log (snd (PurchaseCommitment env now rec opts s)) = rs_log s @ evs" and "Bought b answer \<in> set evs"
  shows "o_ExecutionID opts \<noteq> ex \<and> pin_ReservedNodeOfferingId b = off
    \<and> (\<exists>pre listing post. evs = pre @ listing @ post \<and> nothing_listed CallerCtx opts off (r_Count rec) listing \<and> Bought b answer \<in> set post)"
proof -
  from purchase_run [of env opts s now rec] assms(3,5)
  have run: "rs_run env (Some j) (rs_world s) evs (rs_world (snd (PurchaseCommitment env now rec opts s)))"
    and spec: "purchase_spec env rec opts (fst (fst (PurchaseCommitment env now rec opts s))) evs"
    by (auto simp: ran_def)
  from spec assms(6) have "buys_once env rec opts (fst (fst (PurchaseCommitment env now rec opts s))) evs"
    unfolding purchase_spec_def buys_nothing_def by force
  then show ?thesis
  proof (rule buys_once_send)
    fix find guard mid ans post o1
    let ?b = "Bought \<lparr>pin_ReservedNodeOfferingId = o1, pin_NodeCount = r_Count rec\<rparr> ans"
    assume evs: "evs = find @ guard @ mid @ ?b # post" and g: "guarded opts o1 (r_Count rec) guard" and only: "filter is_send evs = [?b]"
    from assms(6) have "Bought b answer \<in> set (filter is_send evs)" by simp
    then have b: "Bought b answer = ?b" unfolding only by simp
    from g assms(2) obtain priors ls where ls: "guard = Priors (o_IdempotencyToken opts) (Inr priors) # ls"
        "\<forall>p \<in> set priors. a_State p \<noteq> ''purchased''"
        "\<forall>p \<in> set priors. may_have_sent p \<longrightarrow> a_ExecutionID p \<noteq> o_ExecutionID opts \<and> a_OfferingID p = o1"
        "nothing_listed CallerCtx opts o1 (r_Count rec) ls"
      unfolding guarded_def cleared_def by auto
    have "Priors (o_IdempotencyToken opts) (Inr priors) \<in> set evs" using evs ls(1) by simp
    from attempted_in_priors [OF assms(1) run this assms(4)] obtain p where p: "p \<in> set priors" "a_ExecutionID p = ex" "a_OfferingID p = off"
        "a_State p \<in> {''sending'', ''outcome_unknown'', ''purchased''}" by blast
    with ls(2) have "may_have_sent p" by (auto simp: may_have_sent_def)
    with ls(3) p have ex: "o_ExecutionID opts \<noteq> ex" "o1 = off" by auto
    have "evs = (find @ [Priors (o_IdempotencyToken opts) (Inr priors)]) @ ls @ (mid @ ?b # post)" using evs ls(1) by simp
    with ls(4) ex b show ?thesis by (metis in_set_conv_decomp purchase_input.select_convs(1) rs_event.inject(3))
  qed
qed

text \<open>C10. (safety) A token the journal knows an attempt of is sent again only by another execution, under the same offering,
  and only after a listing read to its end in which every node that could be the earlier purchase is one the journal says another
  token bought.\<close>

theorem journaled_resend_needs_empty_listing:
  assumes "durable env j attempted" and "journalActive opts" and "o_AttemptJournal opts = Some j"
    and "attempted (o_IdempotencyToken opts) ex off (rs_world s)"
    and "rs_log (snd (PurchaseCommitment env now rec opts s)) = rs_log s @ evs" and "Bought b answer \<in> set evs"
  shows "o_ExecutionID opts \<noteq> ex \<and> pin_ReservedNodeOfferingId b = off
    \<and> (\<exists>pre listing post. evs = pre @ listing @ post \<and> nothing_listed CallerCtx opts off (r_Count rec) listing \<and> Bought b answer \<in> set post)"
  using resend_needs_listing [OF assms] .

text \<open>Driving purchases one after another, while the world changes between them.\<close>

type_synonym 'w attempt = "('w \<Rightarrow> 'w) \<times> go_time \<times> Recommendation \<times> 'w JournaledOptions"

fun redrive :: "'w rs_env \<Rightarrow> 'w attempt list \<Rightarrow> 'w rs_state \<Rightarrow> 'w rs_state" where
  "redrive env [] s = s"
| "redrive env ((change, now, rec, opts) # as) s =
     redrive env as (snd (PurchaseCommitment env now rec opts (s\<lparr>rs_world := change (rs_world s)\<rparr>)))"

definition sends :: "'w rs_state \<Rightarrow> nat" where
  "sends s = length (filter is_send (rs_log s))"

lemma sends_ran: "ran env jn s evs s' \<Longrightarrow> sends s' = sends s + length (filter is_send evs)"
  by (simp add: sends_def ran_def)

lemma sends_change [simp]: "sends (s\<lparr>rs_world := w\<rparr>) = sends s"
  by (simp add: sends_def)

lemma purchase_sends_mono: "sends s \<le> sends (snd (PurchaseCommitment env now rec opts s))"
  using purchase_run [of env opts s now rec] by (auto dest: sends_ran)

lemma redrive_sends_mono: "sends s \<le> sends (redrive env as s)"
proof (induction as arbitrary: s)
  case (Cons a as)
  obtain change now rec opts where a: "a = (change, now, rec, opts)" by (cases a)
  show ?case unfolding a redrive.simps
    using purchase_sends_mono [of "s\<lparr>rs_world := change (rs_world s)\<rparr>" env now rec opts]
      Cons.IH [of "snd (PurchaseCommitment env now rec opts (s\<lparr>rs_world := change (rs_world s)\<rparr>))"]
    by simp
qed simp

definition same_execution :: "(go_string \<Rightarrow> go_string \<Rightarrow> go_string \<Rightarrow> 'w \<Rightarrow> bool) \<Rightarrow> 'w AttemptJournal \<Rightarrow> go_string \<Rightarrow> go_string \<Rightarrow> 'w attempt \<Rightarrow> bool" where
  "same_execution attempted j tok ex a = (case a of (change, now, rec, opts) \<Rightarrow>
     o_AttemptJournal opts = Some j \<and> o_IdempotencyToken opts = tok \<and> tok \<noteq> [] \<and> o_ExecutionID opts = ex
     \<and> (\<forall>off w. attempted tok ex off w \<longrightarrow> attempted tok ex off (change w)))"

lemma purchase_of_execution:
  assumes d: "durable env j attempted" and "o_AttemptJournal opts = Some j" "o_IdempotencyToken opts = tok" "tok \<noteq> []" "o_ExecutionID opts = ex"
    and s': "snd (PurchaseCommitment env now rec opts s) = s'"
  shows "attempted tok ex off (rs_world s) \<Longrightarrow> sends s' = sends s \<and> attempted tok ex off (rs_world s')"
    and "sends s' = sends s \<or> (sends s' = Suc (sends s) \<and> (\<exists>off. attempted tok ex off (rs_world s')))"
proof -
  have J: "journalActive opts" using assms by (simp add: journalActive_def)
  from purchase_run [of env opts s now rec] assms(2) s' obtain evs where
    run: "ran env (Some j) s evs s'" and spec: "purchase_spec env rec opts (fst (fst (PurchaseCommitment env now rec opts s))) evs" by auto
  then have w: "rs_run env (Some j) (rs_world s) evs (rs_world s')" and l: "rs_log s' = rs_log s @ evs" by (simp_all add: ran_def)
  show "attempted tok ex off (rs_world s) \<Longrightarrow> sends s' = sends s \<and> attempted tok ex off (rs_world s')"
  proof -
    assume a: "attempted tok ex off (rs_world s)"
    have "\<not> is_send ev" if "ev \<in> set evs" for ev
    proof (cases ev)
      case (Bought b x)
      have "attempted (o_IdempotencyToken opts) ex off (rs_world s)" using a assms(3) by simp
      from resend_needs_listing [OF d J assms(2) this, of now rec evs b x] l s' that Bought assms(5) show ?thesis by simp
    qed auto
    then show ?thesis using attempted_run [OF d w a] sends_ran [OF run] filter_sends_empty [of evs] by simp
  qed
  show "sends s' = sends s \<or> (sends s' = Suc (sends s) \<and> (\<exists>off. attempted tok ex off (rs_world s')))"
  proof (cases "buys_once env rec opts (fst (fst (PurchaseCommitment env now rec opts s))) evs")
    case True
    then show ?thesis
    proof (rule buys_once_send)
      fix find guard mid answer post off
      assume evs: "evs = find @ guard @ mid @ Bought \<lparr>pin_ReservedNodeOfferingId = off, pin_NodeCount = r_Count rec\<rparr> answer # post"
        and rc: "journalActive opts \<Longrightarrow> Recorded CallerCtx (attempt_of opts ''sending'' [] off) None \<in> set mid"
        and one: "filter is_send evs = [Bought \<lparr>pin_ReservedNodeOfferingId = off, pin_NodeCount = r_Count rec\<rparr> answer]"
      have "Recorded CallerCtx (attempt_of opts ''sending'' [] off) None \<in> set evs" using evs rc [OF J] by simp
      from recorded_is_attempted [OF d w this] assms(3,5) have "attempted tok ex off (rs_world s')" by (simp add: attempt_of_def)
      with sends_ran [OF run] one show ?thesis by auto
    qed
  next
    case False
    with spec have "\<forall>ev \<in> set evs. \<not> is_send ev" by (simp add: purchase_spec_def buys_nothing_def)
    with sends_ran [OF run] filter_sends_empty [of evs] show ?thesis by simp
  qed
qed

text \<open>C1. (safety) With a durable journal, driving one token any number of times for one execution sends at most one purchase, whatever
  AWS lists or answers, and even when other changes of the world come between: the client needs the journal only as a record, not as a lock.\<close>

theorem journaled_token_sends_once:
  assumes "durable env j attempted" and "list_all (same_execution attempted j tok ex) as"
  shows "sends (redrive env as s) \<le> Suc (sends s)"
proof -
  have none: "attempted tok ex off (rs_world s) \<Longrightarrow> list_all (same_execution attempted j tok ex) as \<Longrightarrow> sends (redrive env as s) = sends s" for off as s
  proof (induction as arbitrary: s)
    case (Cons a as)
    obtain change now rec opts where a: "a = (change, now, rec, opts)" by (cases a)
    let ?s = "s\<lparr>rs_world := change (rs_world s)\<rparr>"
    from Cons.prems have here: "same_execution attempted j tok ex a" and rest: "list_all (same_execution attempted j tok ex) as" by simp_all
    from here Cons.prems(1) a have o: "o_AttemptJournal opts = Some j" "o_IdempotencyToken opts = tok" "tok \<noteq> []" "o_ExecutionID opts = ex"
      and c: "attempted tok ex off (rs_world ?s)" by (auto simp: same_execution_def)
    from purchase_of_execution(1) [OF assms(1) o refl c] Cons.IH [OF _ rest] show ?case unfolding a by simp
  qed simp
  show ?thesis using assms(2)
  proof (induction as arbitrary: s)
    case (Cons a as)
    obtain change now rec opts where a: "a = (change, now, rec, opts)" by (cases a)
    let ?s = "s\<lparr>rs_world := change (rs_world s)\<rparr>"
    let ?s1 = "snd (PurchaseCommitment env now rec opts ?s)"
    from Cons.prems have here: "same_execution attempted j tok ex a" and rest: "list_all (same_execution attempted j tok ex) as" by simp_all
    from here a have o: "o_AttemptJournal opts = Some j" "o_IdempotencyToken opts = tok" "tok \<noteq> []" "o_ExecutionID opts = ex"
      by (auto simp: same_execution_def)
    from purchase_of_execution(2) [OF assms(1) o refl, of now rec ?s] consider
      "sends ?s1 = sends s" | off where "sends ?s1 = Suc (sends s)" "attempted tok ex off (rs_world ?s1)" by auto
    then show ?case
    proof cases
      case 1
      with Cons.IH [OF rest, of ?s1] show ?thesis by (simp add: a)
    next
      case 2
      with none [OF _ rest] show ?thesis by (simp add: a)
    qed
  qed simp
qed

section \<open>What the result says\<close>

definition on_record :: "'w JournaledOptions \<Rightarrow> go_string \<Rightarrow> rs_event list \<Rightarrow> bool" where
  "on_record opts i evs \<longleftrightarrow> (\<exists>off. Recorded DetachedCtx (attempt_of opts ''purchased'' i off) None \<in> set evs)
     \<or> (\<exists>priors p. Priors (o_IdempotencyToken opts) (Inr priors) \<in> set evs \<and> p \<in> set priors \<and> a_State p = ''purchased'' \<and> a_ReservationID p = i)"

text \<open>AWS answered with a node, with nothing, or with an error that does not prove a rejection.\<close>

definition may_exist :: "'w rs_env \<Rightarrow> go_error + ReservedNode option \<Rightarrow> bool" where
  "may_exist env answer \<longleftrightarrow> (case send_error env answer of None \<Rightarrow> True | Some x \<Rightarrow> outcome_unknown x)"

lemma vouched_on_record: "vouched opts off cnt i evs \<Longrightarrow> on_record opts i evs"
  unfolding vouched_def on_record_def by fastforce

lemma journaled_end_result:
  assumes "journaled_end env opts off cnt answer res evs"
  shows "pr_Success res \<Longrightarrow> pr_Error res = None \<and> on_record opts (pr_CommitmentID res) evs"
    and "may_exist env answer \<Longrightarrow> pr_Success res \<or> (\<exists>x. pr_Error res = Some x \<and> outcome_unknown x)"
  using assms unfolding journaled_end_def on_record_def may_exist_def by (fastforce split: if_splits)+

lemma unjournaled_end_result:
  assumes "unjournaled_end env opts off cnt answer res evs"
  shows "pr_Success res \<Longrightarrow> pr_Error res = None"
    and "may_exist env answer \<Longrightarrow> pr_Success res \<or> (\<exists>x. pr_Error res = Some x \<and> outcome_unknown x)"
  using assms unfolding unjournaled_end_def may_exist_def by auto

text \<open>C11. (error) A Redshift result is honest. With a journal, a success names a node that is on record as bought under the token;
  and once a request was sent, unless AWS provably rejected it, the result is a success or an error that says the outcome is unknown, so
  no caller takes a purchase that may exist for one that failed.\<close>

theorem redshift_result_is_honest:
  assumes "rs_log (snd (PurchaseCommitment env now rec opts s)) = rs_log s @ evs"
    and res: "res = fst (fst (PurchaseCommitment env now rec opts s))"
  shows "(pr_Success res \<longrightarrow> pr_Error res = None \<and> (journalActive opts \<longrightarrow> on_record opts (pr_CommitmentID res) evs))
    \<and> (\<forall>b answer. Bought b answer \<in> set evs \<and> may_exist env answer \<longrightarrow>
         pr_Success res \<or> (\<exists>x. pr_Error res = Some x \<and> outcome_unknown x))"
proof -
  from purchase_run [of env opts s now rec] assms have "purchase_spec env rec opts res evs" by (auto simp: ran_def)
  then consider (no) "buys_nothing rec opts res evs" | (once) "buys_once env rec opts res evs" unfolding purchase_spec_def by blast
  then show ?thesis
  proof cases
    case no
    have "on_record opts i (xs @ ys)" if "on_record opts i ys" for i xs ys using that unfolding on_record_def by auto
    with no vouched_on_record show ?thesis unfolding buys_nothing_def adoptable_def by fastforce
  next
    case once
    from once obtain pre b0 a0 post off where evs: "evs = pre @ Bought b0 a0 # post" and pre: "\<forall>ev \<in> set (pre @ post). \<not> is_send ev"
      and post: "if journalActive opts then journaled_end env opts off (r_Count rec) a0 res post else unjournaled_end env opts off (r_Count rec) a0 res post"
    proof -
      from once obtain find guard price rcd o1 answer end_evs where
        e: "evs = find @ guard @ price @ rcd @ Bought \<lparr>pin_ReservedNodeOfferingId = o1, pin_NodeCount = r_Count rec\<rparr> answer # end_evs"
        and end_evs: "if journalActive opts then journaled_end env opts o1 (r_Count rec) answer res end_evs else unjournaled_end env opts o1 (r_Count rec) answer res end_evs"
        unfolding buys_once_def by blast
      have e': "evs = (find @ guard @ price @ rcd) @ Bought \<lparr>pin_ReservedNodeOfferingId = o1, pin_NodeCount = r_Count rec\<rparr> answer # end_evs" using e by simp
      obtain g m f p o2 a2 where "evs = f @ g @ m @ Bought \<lparr>pin_ReservedNodeOfferingId = o2, pin_NodeCount = r_Count rec\<rparr> a2 # p"
          "filter is_send evs = [Bought \<lparr>pin_ReservedNodeOfferingId = o2, pin_NodeCount = r_Count rec\<rparr> a2]"
        by (rule buys_once_send [OF once])
      then have "length (filter is_send evs) = 1" by simp
      then have "filter is_send ((find @ guard @ price @ rcd) @ end_evs) = []" unfolding e' by auto
      then have "\<forall>ev \<in> set ((find @ guard @ price @ rcd) @ end_evs). \<not> is_send ev" by (auto simp: filter_empty_conv)
      from that [OF e' this end_evs] show thesis .
    qed
    have "on_record opts i evs" if "on_record opts i post" for i using that unfolding on_record_def evs by auto
    moreover have "answer = a0" if "Bought b answer \<in> set evs" for b answer using that pre unfolding evs by (auto simp: ball_Un)
    ultimately show ?thesis using post journaled_end_result [of env opts off "r_Count rec" a0 res post]
        unjournaled_end_result [of env opts off "r_Count rec" a0 res post] by (auto split: if_splits)
  qed
qed

section \<open>A reconciliation\<close>

text \<open>A node whose every field is there and equal, alive, with an ID.\<close>

definition exact_node :: "ReservedNode \<Rightarrow> go_string \<Rightarrow> int \<Rightarrow> go_string \<Rightarrow> int \<Rightarrow> go_time \<Rightarrow> go_time \<Rightarrow> bool" where
  "exact_node n offeringID cnt nodeType months lo hi \<longleftrightarrow>
     rn_ReservedNodeOfferingId n = Some offeringID \<and> rn_NodeType n = Some nodeType \<and> rn_NodeCount n = Some cnt
   \<and> (\<exists>d. rn_Duration n = Some d \<and> go_quo d 2592000 = months) \<and> (\<exists>t. rn_StartTime n = Some t \<and> lo \<le> t \<and> t \<le> hi)
   \<and> ToString (rn_State n) \<in> {''active'', ''pending-payment'', ''payment-pending''} \<and> ToString (rn_ReservedNodeId n) \<noteq> []"

lemma fit_simps [simp]: "fitNo \<le> f" "f \<le> fitMatch" "fitMatch \<le> f \<longleftrightarrow> f = fitMatch" "f \<le> fitNo \<longleftrightarrow> f = fitNo"
  by (cases f; simp add: less_eq_fit_def)+

lemma min_fitMatch [simp]: "min a b = fitMatch \<longleftrightarrow> a = fitMatch \<and> b = fitMatch"
  by (cases a; cases b) (simp_all add: min_def less_eq_fit_def)

lemma presentFit_match [simp]: "presentFit got want = fitMatch \<longleftrightarrow> got = Some want"
  by (auto simp: presentFit_def split: option.splits)

lemma foldl_min_match: "foldl min f fs = fitMatch \<longleftrightarrow> f = fitMatch \<and> (\<forall>g \<in> set fs. g = fitMatch)"
  by (induction fs arbitrary: f) auto

lemma nodeCountFit_match: "nodeCountFit got want = fitMatch \<longleftrightarrow> got = Some want"
  by (cases got) (simp_all add: nodeCountFit_def)

lemma durationFit_match: "durationFit got months = fitMatch \<longleftrightarrow> (\<exists>d. got = Some d \<and> go_quo d 2592000 = months)"
  by (cases got) (simp_all add: durationFit_def)

lemma startFit_match: "startFit got lo hi = fitMatch \<longleftrightarrow> (\<exists>t. got = Some t \<and> lo \<le> t \<and> t \<le> hi)"
  by (cases got) (auto simp: startFit_def InWindow_def not_less)

lemma stateFit_match: "stateFit st = fitMatch \<longleftrightarrow> ToString st \<in> {''active'', ''pending-payment'', ''payment-pending''}"
  by (simp add: stateFit_def)

lemma nodeFit_match: "nodeFit n offeringID cnt nodeType months lo hi = fitMatch \<longleftrightarrow> exact_node n offeringID cnt nodeType months lo hi"
  by (simp add: nodeFit_def Let_def exact_node_def foldl_min_match nodeCountFit_match durationFit_match startFit_match stateFit_match)

lemma filter_out_nil: "filter P xs = [] \<Longrightarrow> filter (\<lambda>x. \<not> P x) xs = xs"
  by (induction xs) (auto split: if_splits)

text \<open>The claims leave one certain candidate only when there was one, and no other token claims it.\<close>

lemma reconcileClaims_ran:
  assumes "reconcileClaims req matches uncertain s = (Some ([i], []), s')"
  shows "\<exists>cl. ran env (o_AttemptJournal (rq_Options req)) s cl s' \<and> uncertain = [] \<and> matches = [i]
      \<and> (o_IdempotencyToken (rq_Options req) \<noteq> [] \<longrightarrow> i \<notin> claimed_in CallerCtx (o_IdempotencyToken (rq_Options req)) cl)"
proof (cases "o_IdempotencyToken (rq_Options req) = []")
  case True
  with assms show ?thesis by (auto simp: reconcileClaims_def intro!: exI [of _ "[]"])
next
  case False
  let ?claimed = "claimed_in CallerCtx (o_IdempotencyToken (rq_Options req))"
  obtain u su where u: "unclaimed CallerCtx matches (rq_Options req) s = (u, su)" by force
  with assms False have k: "u = Inr ([i], [])" "uncertain = []" "s' = su" by (auto simp: reconcileClaims_def split: sum.splits)
  from unclaimed_ran [OF u, of env] obtain cl where run: "ran env (o_AttemptJournal (rq_Options req)) s cl su"
    and split: "\<forall>kept excluded. u = Inr (kept, excluded) \<longrightarrow> kept = filter (\<lambda>x. x \<notin> ?claimed cl) matches
      \<and> excluded = filter (\<lambda>x. x \<in> ?claimed cl) matches" by (elim exE conjE)
  from split k(1) have kept: "filter (\<lambda>x. x \<notin> ?claimed cl) matches = [i]" and out: "filter (\<lambda>x. x \<in> ?claimed cl) matches = []" by simp_all
  from filter_out_nil [OF out] kept have "matches = [i]" by simp
  moreover from this out have "i \<notin> ?claimed cl" by (simp split: if_splits)
  ultimately show ?thesis using run k(2,3) by (intro exI [of _ cl]) simp
qed

text \<open>C12. (functional) A reconciliation that names a node is certain: the listing was read to its end, exactly one listed node could be
  the purchase, that node has the offering, type, count, term and start time of the request, is alive, and the journal does not say that
  another token bought it. Anything less is an unknown.\<close>

theorem reconcile_found_is_certain:
  assumes "ReconcilePurchase env req s = (res, s')" and "IsFound res"
  shows "\<exists>off cnt months lo hi nodes n find lst cl. reconcileParams env req = Inr (cnt, months, lo, hi)
     \<and> ran env (o_AttemptJournal (rq_Options req)) s (find @ lst @ cl) s'
     \<and> (\<exists>o1 \<in> offered find. on_terms (rq_Recommendation req) o1 \<and> ro_ReservedNodeOfferingId o1 = Some off)
     \<and> listing_of CallerCtx None lst = Some nodes
     \<and> filter (\<lambda>m. nodeFit m off cnt (r_ResourceType (rq_Recommendation req)) months lo hi = fitUncertain) nodes = []
     \<and> filter (\<lambda>m. exact_node m off cnt (r_ResourceType (rq_Recommendation req)) months lo hi) nodes = [n]
     \<and> rn_ReservedNodeId n = Some (rr_CommitmentID res)
     \<and> (o_IdempotencyToken (rq_Options req) \<noteq> [] \<longrightarrow> rr_CommitmentID res \<notin> claimed_in CallerCtx (o_IdempotencyToken (rq_Options req)) cl)"
proof -
  let ?rec = "rq_Recommendation req" and ?opts = "rq_Options req"
  let ?jn = "o_AttemptJournal ?opts"
  have nf: "\<not> IsFound (UnknownResult r)" for r by (simp add: IsFound_def UnknownResult_def ReconcileUnknown_def ReconcileFound_def)
  from assms nf obtain cnt months lo hi where p: "reconcileParams env req = Inr (cnt, months, lo, hi)" and live: "e_Err env CallerCtx (rs_world s) = None"
    by (auto simp: ReconcilePurchase_def Let_def split: sum.splits if_splits)
  obtain f s1 where f: "findOfferingID env ?rec s = (f, s1)" by force
  with assms p live nf obtain off where off: "f = Inr off" "off \<noteq> []"
    by (auto simp: ReconcilePurchase_def Let_def split: sum.splits if_splits)
  from findOfferingID_ran [OF f, of ?jn] off(1) obtain find where find: "ran env ?jn s find s1"
      "\<exists>o1 \<in> offered find. on_terms ?rec o1 \<and> ro_ReservedNodeOfferingId o1 = Some off" by blast
  obtain d s2 where d: "describeAllNodes env CallerCtx s1 = (d, s2)" by force
  with assms p live f off nf obtain nodes where nodes: "d = Inr nodes"
    by (auto simp: ReconcilePurchase_def Let_def split: sum.splits if_splits)
  from nodes_loop_ran [OF d [unfolded describeAllNodes_def], of ?jn] nodes obtain lst where
    lst: "ran env ?jn s1 lst s2" "listing_of CallerCtx None lst = Some nodes" by blast
  let ?fit = "\<lambda>m. nodeFit m off cnt (r_ResourceType ?rec) months lo hi"
  let ?ids = "\<lambda>g. map (\<lambda>m. ToString (rn_ReservedNodeId m)) (filter (\<lambda>m. ?fit m = g) nodes)"
  obtain c s3 where c: "reconcileClaims req (?ids fitMatch) (?ids fitUncertain) s2 = (c, s3)" by force
  from assms p live f off d nodes c nf obtain ms us where ms: "c = Some (ms, us)" "s' = s3" "res = Decide ms us reconcileCriteria False"
    by (auto simp: ReconcilePurchase_def Let_def classifyNodes_def split: option.splits)
  from assms(2) ms(3) have found: "us = []" "ms = [rr_CommitmentID res]" "rr_CommitmentID res \<noteq> []"
    using Decide_Found [of ms us reconcileCriteria False] Decide_Found_id [of ms us reconcileCriteria False] by (simp_all add: IsFound_def)
  from reconcileClaims_ran [OF c [unfolded ms(1) found(1,2)], of env]
  obtain cl where cl: "ran env ?jn s2 cl s3" "?ids fitUncertain = []" "?ids fitMatch = [rr_CommitmentID res]"
      "o_IdempotencyToken ?opts \<noteq> [] \<longrightarrow> rr_CommitmentID res \<notin> claimed_in CallerCtx (o_IdempotencyToken ?opts) cl" by (elim exE conjE)
  from cl(3) obtain n where n: "filter (\<lambda>m. ?fit m = fitMatch) nodes = [n]" "ToString (rn_ReservedNodeId n) = rr_CommitmentID res" by auto
  with found(3) have named: "rn_ReservedNodeId n = Some (rr_CommitmentID res)" by (auto simp: ToString_def split: option.splits)
  have exact: "filter (\<lambda>m. exact_node m off cnt (r_ResourceType ?rec) months lo hi) nodes = [n]" using n(1) by (simp add: nodeFit_match)
  have sure: "filter (\<lambda>m. ?fit m = fitUncertain) nodes = []" using cl(2) by simp
  note run = ran_trans [OF find(1) ran_trans [OF lst(1) cl(1)], folded ms(2)]
  show ?thesis by (intro exI) (rule conjI [OF p conjI [OF run conjI [OF find(2) conjI [OF lst(2) conjI [OF sure conjI [OF exact conjI [OF named cl(4)]]]]]]])
qed

section \<open>A run\<close>

text \<open>A journal that is a list, an account whose listing stays empty, and a purchase call that times out.\<close>

definition list_journal :: "AttemptRecord list AttemptJournal" where
  "list_journal = \<lparr>j_PriorAttempts = \<lambda>tok w. (Inr (filter (\<lambda>a. a_IdempotencyToken a = tok) w), w),
     j_RecordAttempt = \<lambda>ctx a w. (None, w @ [a]), j_ClaimedByOthers = None\<rparr>"

definition journal_has :: "go_string \<Rightarrow> go_string \<Rightarrow> go_string \<Rightarrow> AttemptRecord list \<Rightarrow> bool" where
  "journal_has tok ex off w \<longleftrightarrow> (\<exists>a \<in> set w. a_IdempotencyToken a = tok \<and> a_ExecutionID a = ex \<and> a_OfferingID a = off
     \<and> a_State a \<in> {''sending'', ''outcome_unknown'', ''purchased''})"

definition demo_offering :: ReservedNodeOffering where
  "demo_offering = \<lparr>ro_ReservedNodeOfferingId = Some ''off-1'', ro_NodeType = Some ''dc2.large'', ro_Duration = Some 31536000,
     ro_ReservedNodeOfferingType = ''Regular'', ro_FixedPrice = None, ro_UsagePrice = Some 1, ro_CurrencyCode = Some ''USD'',
     ro_RecurringCharges = []\<rparr>"

definition demo_node :: ReservedNode where
  "demo_node = \<lparr>rn_ReservedNodeId = Some ''node-7'', rn_ReservedNodeOfferingId = Some ''off-1'', rn_NodeType = Some ''dc2.large'',
     rn_NodeCount = Some 2, rn_State = Some ''active'', rn_StartTime = Some (60 * 1000000000), rn_Duration = Some 31536000, rn_FixedPrice = None\<rparr>"

definition demo_redshift :: "ReservedNode list \<Rightarrow> AttemptRecord list rs_env" where
  "demo_redshift nodes = \<lparr>e_Err = \<lambda>ctx w. None,
     e_DescribeReservedNodeOfferings = \<lambda>i w. (Inr \<lparr>oo_Marker = None, oo_ReservedNodeOfferings = [demo_offering]\<rparr>, w),
     e_DescribeReservedNodes = \<lambda>ctx i w. (Inr \<lparr>no_Marker = None, no_ReservedNodes = nodes\<rparr>, w),
     e_PurchaseReservedNodeOffering = \<lambda>i w. (Inl (Sentinel ''timeout''), w),
     e_throttled = \<lambda>code. False, e_region = ''us-east-1''\<rparr>"

definition demo_redshift_rec :: Recommendation where
  "demo_redshift_rec = zero_rec\<lparr>r_Region := ''us-east-1'', r_ResourceType := ''dc2.large'', r_Term := ''1yr'', r_PaymentOption := ''no-upfront'', r_Count := 2\<rparr>"

definition demo_redshift_opts :: "go_string \<Rightarrow> AttemptRecord list JournaledOptions" where
  "demo_redshift_opts ex = \<lparr>o_RequestedAt = 60 * 1000000000, o_Source = [], o_ReservationID = [], o_IdempotencyToken = ''tok-1'',
     o_ExecutionID = ex, o_AttemptJournal = Some list_journal\<rparr>"

lemma list_journal_durable: "durable (demo_redshift nodes) list_journal journal_has"
proof -
  have "journal_has tok ex off w'" if "journal_has tok ex off w" "rs_step (demo_redshift nodes) (Some list_journal) w ev w'" for tok ex off w ev w'
    using that(2,1) by cases (auto simp: demo_redshift_def list_journal_def journal_has_def)
  moreover have "journal_has (a_IdempotencyToken a) (a_ExecutionID a) (a_OfferingID a) w'"
    if "j_RecordAttempt list_journal ctx a w = (None, w')" "a_State a = ''sending''" for ctx a w w'
    using that by (auto simp: list_journal_def journal_has_def)
  moreover have "\<exists>p \<in> set priors. a_ExecutionID p = ex \<and> a_OfferingID p = off \<and> a_State p \<in> {''sending'', ''outcome_unknown'', ''purchased''}"
    if "journal_has tok ex off w" "j_PriorAttempts list_journal tok w = (Inr priors, w')" for tok ex off w w' priors
    using that by (auto simp: list_journal_def journal_has_def)
  ultimately show ?thesis unfolding durable_def by blast
qed

lemma demo_offering_found:
  "findOfferingID (demo_redshift nodes) demo_redshift_rec s
     = (Inr ''off-1'', logged s (Offerings \<lparr>oi_ReservedNodeOfferingId = None, oi_MaxRecords = Some 100, oi_Marker = None\<rparr>
         (Inr \<lparr>oo_Marker = None, oo_ReservedNodeOfferings = [demo_offering]\<rparr>)) (rs_world s))"
  by (simp add: findOfferingID_def requiredMonthsForTerm_def ParseTermMonths_def demo_redshift_rec_def maxOfferingPages_def
      offering_loop.simps [of _ _ _ "Suc _"] eval_nat_numeral call_offerings_def demo_redshift_def demo_offering_def matchesDuration_def go_quo_def
      matchesOfferingType_def payment_shape derivePaymentOption_def offeringRecurringRate_def ToFloat64_def ToString_def zero_float64_def)

lemma demo_list:
  "findMatchingNodes (demo_redshift nodes) ctx off cnt req s
     = (Inr (matching_ids nodes off cnt req), logged s (Nodes ctx \<lparr>ni_MaxRecords = Some 100, ni_Marker = None\<rparr>
         (Inr \<lparr>no_Marker = None, no_ReservedNodes = nodes\<rparr>)) (rs_world s))"
  by (simp add: findMatchingNodes_def describeAllNodes_def maxReservedNodePages_def eval_nat_numeral call_nodes_def demo_redshift_def ToString_def)

lemma resolved_priors:
  "\<forall>p \<in> set ps. may_have_sent p \<longrightarrow> a_ExecutionID p \<noteq> o_ExecutionID opts \<and> a_OfferingID p = off \<Longrightarrow>
   refuseUnresolvedPriors res ps off opts = (res, False)"
  by (induction ps) auto

lemma no_purchased_ids: "\<forall>p \<in> set ps. a_State p \<noteq> ''purchased'' \<Longrightarrow> recordedReservationIDs ps = []"
  by (subst set_empty [symmetric]) (auto simp: recorded_ids_set)

text \<open>Nothing listed and no attempt of this execution: the request is sent.\<close>

lemma demo_buys:
  assumes ex: "ex \<noteq> []" and w: "\<forall>a \<in> set w. a_State a = ''sending'' \<and> a_ExecutionID a \<noteq> ex \<and> a_OfferingID a = ''off-1''"
  shows "\<exists>b x. Bought b x \<in> set (rs_log (snd (PurchaseCommitment (demo_redshift []) 0 demo_redshift_rec (demo_redshift_opts ex) \<lparr>rs_world = w, rs_log = []\<rparr>)))"
proof -
  let ?env = "demo_redshift []" and ?o = "demo_redshift_opts ex" and ?s = "\<lparr>rs_world = w, rs_log = []\<rparr> :: AttemptRecord list rs_state"
  let ?ps = "filter (\<lambda>a. a_IdempotencyToken a = ''tok-1'') w" and ?r = "new_result demo_redshift_rec 0"
  have j: "journalActive ?o" "o_AttemptJournal ?o = Some list_journal" by (simp_all add: journalActive_def demo_redshift_opts_def)
  obtain s1 where s1: "findOfferingID ?env demo_redshift_rec ?s = (Inr ''off-1'', s1)" "rs_world s1 = w" by (simp add: demo_offering_found logged_def)
  have "recordedReservationIDs ?ps = []" using w by (intro no_purchased_ids) auto
  moreover have "refuseUnresolvedPriors ?r ?ps ''off-1'' ?o = (?r, False)" using w by (intro resolved_priors) (auto simp: demo_redshift_opts_def)
  ultimately obtain s2 where s2: "guardBeforePurchase ?env ?r ''off-1'' 2 ?o s1 = ((?r, False), s2)"
    using ex s1(2) j(1) by (simp add: guardBeforePurchase_def journalPreflight_def demo_redshift_opts_def list_journal_def is_zero_time_def call_priors_def
        guardAgainstRepurchase_def demo_list matching_ids_def unclaimed_def logged_def)
  obtain s3 where s3: "readyToSend ?env ?r demo_redshift_rec ''off-1'' ?o s2 = ((?r, True), s3)"
    using j by (simp add: readyToSend_def checkApprovedUpfront_def demo_redshift_rec_def zero_rec_def NoUpfrontApproved_def zero_float64_def Let_def
        recordSending_def call_record_def list_journal_def)
  let ?b = "\<lparr>pin_ReservedNodeOfferingId = ''off-1'', pin_NodeCount = 2\<rparr>"
  obtain s4 where s4: "call_purchase ?env ?b s3 = (Inl (Sentinel ''timeout''), s4)" "Bought ?b (Inl (Sentinel ''timeout'')) \<in> set (rs_log s4)"
    by (simp add: call_purchase_def demo_redshift_def logged_def)
  obtain res err s' where f: "finishJournaled ?env ?r (Inl (Sentinel ''timeout'')) ''off-1'' 2 ?o s4 = ((res, err), s')" by (metis prod.exhaust)
  have "r_Count demo_redshift_rec = 2" "PurchaseCount 2 = Inr 2" by (simp_all add: demo_redshift_rec_def PurchaseCount_def MaxInt32_def)
  with s1 s2 s3 s4(1) f j(1) have "PurchaseCommitment ?env 0 demo_redshift_rec ?o ?s = ((res, err), s')" by (simp add: PurchaseCommitment_def Let_def)
  moreover from finishJournaled_ran [OF f j(2)] obtain evs where "ran ?env (Some list_journal) s4 evs s'" by auto
  ultimately show ?thesis using s4(2) by (auto simp: ran_def)
qed

lemma demo_redshift_twice:
  "list_all (same_execution journal_has list_journal ''tok-1'' ''ex-1'')
     [(id, 0, demo_redshift_rec, demo_redshift_opts ''ex-1''), (id, 0, demo_redshift_rec, demo_redshift_opts ''ex-1'')]"
  by (simp add: same_execution_def demo_redshift_opts_def)

theorem journaled_token_sends_once_witness:
  "sends (redrive (demo_redshift []) [(id, 0, demo_redshift_rec, demo_redshift_opts ''ex-1''), (id, 0, demo_redshift_rec, demo_redshift_opts ''ex-1'')]
     \<lparr>rs_world = [], rs_log = []\<rparr>) = 1"
proof -
  let ?s = "\<lparr>rs_world = [], rs_log = []\<rparr> :: AttemptRecord list rs_state" and ?o = "demo_redshift_opts ''ex-1''"
  let ?s1 = "snd (PurchaseCommitment (demo_redshift []) 0 demo_redshift_rec ?o ?s)"
  obtain b x where "Bought b x \<in> set (rs_log ?s1)" using demo_buys [of "''ex-1''" "[]"] by auto
  then have "Bought b x \<in> set (filter is_send (rs_log ?s1))" by simp
  then have "1 \<le> sends ?s1" unfolding sends_def by (cases "filter is_send (rs_log ?s1)") auto
  moreover have "sends ?s1 \<le> sends (redrive (demo_redshift []) [(id, 0, demo_redshift_rec, ?o)] ?s1)" by (rule redrive_sends_mono)
  ultimately show ?thesis
    using journaled_token_sends_once [OF list_journal_durable demo_redshift_twice, of "[]" ?s] by (simp add: sends_def)
qed

definition demo_attempt :: AttemptRecord where
  "demo_attempt = \<lparr>a_IdempotencyToken = ''tok-1'', a_ExecutionID = ''ex-1'', a_State = ''sending'', a_ReservationID = [], a_OfferingID = ''off-1''\<rparr>"

theorem journaled_resend_needs_empty_listing_witness:
  "\<exists>pre listing post b x. rs_log (snd (PurchaseCommitment (demo_redshift []) 0 demo_redshift_rec (demo_redshift_opts ''ex-2'')
       \<lparr>rs_world = [demo_attempt], rs_log = []\<rparr>)) = pre @ listing @ post
     \<and> nothing_listed CallerCtx (demo_redshift_opts ''ex-2'') ''off-1'' 2 listing \<and> Bought b x \<in> set post"
proof -
  let ?s = "\<lparr>rs_world = [demo_attempt], rs_log = []\<rparr>" and ?o = "demo_redshift_opts ''ex-2''"
  let ?s1 = "snd (PurchaseCommitment (demo_redshift []) 0 demo_redshift_rec ?o ?s)"
  obtain b x where b: "Bought b x \<in> set (rs_log ?s1)" using demo_buys [of "''ex-2''" "[demo_attempt]"] by (auto simp: demo_attempt_def)
  have o: "journalActive ?o" "o_AttemptJournal ?o = Some list_journal" by (simp_all add: journalActive_def demo_redshift_opts_def)
  have a: "journal_has (o_IdempotencyToken ?o) ''ex-1'' ''off-1'' (rs_world ?s)" by (simp add: journal_has_def demo_attempt_def demo_redshift_opts_def)
  have l: "rs_log ?s1 = rs_log ?s @ rs_log ?s1" by simp
  have c: "r_Count demo_redshift_rec = 2" by (simp add: demo_redshift_rec_def)
  from journaled_resend_needs_empty_listing [OF list_journal_durable o a l b] c show ?thesis by (metis (no_types, lifting))
qed

text \<open>A node of this purchase is listed: it is adopted and recorded, and nothing is sent.\<close>

lemma demo_adopts:
  "\<exists>s'. PurchaseCommitment (demo_redshift [demo_node]) 0 demo_redshift_rec (demo_redshift_opts ''ex-1'') \<lparr>rs_world = [], rs_log = []\<rparr>
     = ((adopt (new_result demo_redshift_rec 0) ''node-7'', None), s')"
proof -
  let ?env = "demo_redshift [demo_node]" and ?o = "demo_redshift_opts ''ex-1''" and ?s = "\<lparr>rs_world = [], rs_log = []\<rparr> :: AttemptRecord list rs_state"
  let ?r = "new_result demo_redshift_rec 0"
  have j: "journalActive ?o" by (simp add: journalActive_def demo_redshift_opts_def)
  obtain s1 where s1: "findOfferingID ?env demo_redshift_rec ?s = (Inr ''off-1'', s1)" "rs_world s1 = []" by (simp add: demo_offering_found logged_def)
  have m: "matching_ids [demo_node] ''off-1'' 2 60000000000 = [''node-7'']"
    by (simp add: matching_ids_def nodeMatches_def demo_node_def ownedNodeState_def ToString_def redshiftClockSkew_def ClockSkew_def)
  obtain s2 where s2: "guardBeforePurchase ?env ?r ''off-1'' 2 ?o s1 = ((adopt ?r ''node-7'', True), s2)"
    using s1(2) j by (simp add: guardBeforePurchase_def journalPreflight_def demo_redshift_opts_def list_journal_def is_zero_time_def call_priors_def
        recordedReservationIDs_def guardAgainstRepurchase_def demo_list m unclaimed_def logged_def recordPurchased_def writeAttempt_def call_record_def)
  have "r_Count demo_redshift_rec = 2" "PurchaseCount 2 = Inr 2" by (simp_all add: demo_redshift_rec_def PurchaseCount_def MaxInt32_def)
  with s1 s2 show ?thesis by (simp add: PurchaseCommitment_def Let_def)
qed

theorem redshift_result_is_honest_witness:
  "on_record (demo_redshift_opts ''ex-1'') ''node-7''
     (rs_log (snd (PurchaseCommitment (demo_redshift [demo_node]) 0 demo_redshift_rec (demo_redshift_opts ''ex-1'') \<lparr>rs_world = [], rs_log = []\<rparr>)))"
proof -
  let ?P = "PurchaseCommitment (demo_redshift [demo_node]) 0 demo_redshift_rec (demo_redshift_opts ''ex-1'') \<lparr>rs_world = [], rs_log = []\<rparr>"
  have "journalActive (demo_redshift_opts ''ex-1'')" by (simp add: journalActive_def demo_redshift_opts_def)
  moreover obtain s' where "?P = ((adopt (new_result demo_redshift_rec 0) ''node-7'', None), s')" using demo_adopts by blast
  ultimately show ?thesis using redshift_result_is_honest [OF _ refl, of "demo_redshift [demo_node]" 0 demo_redshift_rec "demo_redshift_opts ''ex-1''"
    "\<lparr>rs_world = [], rs_log = []\<rparr>" "rs_log (snd ?P)"] by simp
qed

definition demo_reconcile :: "AttemptRecord list ReconcileRequest" where
  "demo_reconcile = \<lparr>rq_AttemptEndedAt = 90 * 1000000000, rq_Options = demo_redshift_opts ''ex-1'', rq_Recommendation = demo_redshift_rec\<rparr>"

lemma demo_reconciles:
  "\<exists>s'. ReconcilePurchase (demo_redshift [demo_node]) demo_reconcile \<lparr>rs_world = [], rs_log = []\<rparr>
     = (\<lparr>rr_Verdict = ReconcileFound, rr_CommitmentID = ''node-7'', rr_Reason = [], rr_Criteria = reconcileCriteria, rr_CandidateIDs = [], rr_Tagged = False\<rparr>, s')"
proof -
  let ?lo = "60000000000 - ClockSkew" and ?hi = "90000000000 + ClockSkew"
  have p: "reconcileParams (demo_redshift [demo_node]) demo_reconcile = Inr (2, 12, ?lo, ?hi)"
    by (simp add: reconcileParams_def demo_reconcile_def demo_redshift_opts_def ReconcileWindow_def is_zero_time_def Let_def demo_redshift_rec_def
        demo_redshift_def PurchaseCount_def MaxInt32_def requiredMonthsForTerm_def ParseTermMonths_def supportedPaymentOption_def paymentShapes_def)
  have "exact_node demo_node ''off-1'' 2 ''dc2.large'' 12 ?lo ?hi"
    by (simp add: exact_node_def demo_node_def ToString_def ClockSkew_def go_quo_def)
  then have fit: "nodeFit demo_node ''off-1'' 2 ''dc2.large'' 12 ?lo ?hi = fitMatch" by (simp add: nodeFit_match)
  have demo_id: "ToString (rn_ReservedNodeId demo_node) = ''node-7''" by (simp add: demo_node_def ToString_def)
  have c: "classifyNodes [demo_node] ''off-1'' 2 ''dc2.large'' 12 ?lo ?hi = ([''node-7''], [])"
    unfolding classifyNodes_def Let_def by (simp add: fit demo_id)
  have d: "describeAllNodes (demo_redshift [demo_node]) CallerCtx s = (Inr [demo_node], logged s (Nodes CallerCtx \<lparr>ni_MaxRecords = Some 100, ni_Marker = None\<rparr>
      (Inr \<lparr>no_Marker = None, no_ReservedNodes = [demo_node]\<rparr>)) (rs_world s))" for s
    by (simp add: describeAllNodes_def maxReservedNodePages_def eval_nat_numeral call_nodes_def demo_redshift_def ToString_def)
  have e: "e_Err (demo_redshift [demo_node]) CallerCtx w = None" for w by (simp add: demo_redshift_def)
  have t: "r_ResourceType demo_redshift_rec = ''dc2.large''" by (simp add: demo_redshift_rec_def)
  show ?thesis
    by (simp add: ReconcilePurchase_def p e Let_def) (simp add: demo_reconcile_def demo_offering_found d t c reconcileClaims_def unclaimed_def
        demo_redshift_opts_def list_journal_def Decide_def reconcileCriteria_def)
qed

theorem reconcile_found_is_certain_witness:
  "\<exists>off cnt months lo hi n. exact_node n off cnt ''dc2.large'' months lo hi \<and> rn_ReservedNodeId n = Some ''node-7''
     \<and> reconcileParams (demo_redshift [demo_node]) demo_reconcile = Inr (cnt, months, lo, hi)"
proof -
  obtain s' where r: "ReconcilePurchase (demo_redshift [demo_node]) demo_reconcile \<lparr>rs_world = [], rs_log = []\<rparr>
     = (\<lparr>rr_Verdict = ReconcileFound, rr_CommitmentID = ''node-7'', rr_Reason = [], rr_Criteria = reconcileCriteria, rr_CandidateIDs = [], rr_Tagged = False\<rparr>, s')"
    using demo_reconciles by blast
  have "IsFound \<lparr>rr_Verdict = ReconcileFound, rr_CommitmentID = ''node-7'', rr_Reason = [], rr_Criteria = reconcileCriteria, rr_CandidateIDs = [], rr_Tagged = False\<rparr>"
    by (simp add: IsFound_def)
  from reconcile_found_is_certain [OF r this] obtain off cnt months lo hi nodes n where
    named: "rn_ReservedNodeId n = Some (rr_CommitmentID \<lparr>rr_Verdict = ReconcileFound, rr_CommitmentID = ''node-7'', rr_Reason = [], rr_Criteria = reconcileCriteria, rr_CandidateIDs = [], rr_Tagged = False\<rparr>)"
    and n: "reconcileParams (demo_redshift [demo_node]) demo_reconcile = Inr (cnt, months, lo, hi)"
      "filter (\<lambda>m. exact_node m off cnt (r_ResourceType (rq_Recommendation demo_reconcile)) months lo hi) nodes = [n]" by (elim exE conjE)
  from n(2) have "n \<in> set (filter (\<lambda>m. exact_node m off cnt (r_ResourceType (rq_Recommendation demo_reconcile)) months lo hi) nodes)" by simp
  then have "exact_node n off cnt ''dc2.large'' months lo hi" by (simp add: demo_reconcile_def demo_redshift_rec_def)
  with n(1) named show ?thesis by auto
qed

end
