(* ===== verification/Aws_Keyed.thy ===== *)
theory Aws_Keyed
  imports Aws_Redshift
begin

text \<open>
  The clients whose reservations carry an ID the caller chooses: RDS, ElastiCache and MemoryDB
  (\<open>providers/aws/services\<close>). Their three files repeat one purchase, one lookup and two listings, which are
  written once here and take what differs (\<open>keyed_service\<close>, messages); the search for an offering is each
  client's own. \<open>keyed_env\<close> holds the three API calls, the SDK's fault tests, the clock and the random source.
  A plain field of a MemoryDB type is a \<open>Some\<close>, read with its zero value when absent as the code does.
\<close>

section \<open>The API\<close>

record KeyedOffering =
  ko_OfferingId :: "go_string option"
  ko_Class :: "go_string option"
  ko_Engine :: "go_string option"
  ko_MultiAZ :: "bool option"
  ko_Duration :: "int option"
  ko_OfferingType :: "go_string option"
  ko_FixedPrice :: "float64 option"
  ko_UsagePrice :: "float64 option"
  ko_CurrencyCode :: "go_string option"
  ko_RecurringCharges :: "RecurringCharge list"

record KeyedReservation =
  kr_Id :: "go_string option"
  kr_Class :: "go_string option"
  kr_Engine :: "go_string option"
  kr_MultiAZ :: "bool option"
  kr_Count :: "int option"
  kr_State :: "go_string option"
  kr_StartTime :: "go_time option"
  kr_Duration :: "int option"
  kr_FixedPrice :: "float64 option"

record offerings_query =
  kq_OfferingId :: "go_string option"
  kq_Class :: "go_string option"
  kq_Engine :: "go_string option"
  kq_MultiAZ :: "bool option"
  kq_Duration :: "go_string option"
  kq_OfferingType :: "go_string option"
  kq_Max :: "int option"
  kq_Marker :: "go_string option"

record reservations_query =
  kw_Id :: "go_string option"
  kw_Max :: "int option"
  kw_Marker :: "go_string option"

record keyed_request =
  kp_OfferingId :: go_string
  kp_ReservationId :: go_string
  kp_Count :: int
  kp_Tags :: "(go_string \<times> go_string) list"

record 'a keyed_page =
  pg_Marker :: "go_string option"
  pg_Items :: "'a list"

datatype sdk_option = RetryMaxAttempts nat

record 'w keyed_env =
  ke_Err :: "'w \<Rightarrow> go_error option"
  ke_Offerings :: "offerings_query \<Rightarrow> 'w \<Rightarrow> (go_error + KeyedOffering keyed_page) \<times> 'w"
  ke_Reservations :: "reservations_query \<Rightarrow> 'w \<Rightarrow> (go_error + KeyedReservation keyed_page) \<times> 'w"
  ke_Purchase :: "keyed_request \<Rightarrow> sdk_option list \<Rightarrow> 'w \<Rightarrow> (go_error + KeyedReservation option) \<times> 'w"
  ke_NotFound :: "go_error \<Rightarrow> bool"
  ke_AlreadyExists :: "go_error \<Rightarrow> bool"
  ke_throttled :: "go_string \<Rightarrow> bool"
  ke_region :: go_string
  ke_Now :: go_time
  ke_Unix :: int
  ke_entropy :: "nat list option"

datatype keyed_event =
    KOfferings offerings_query "go_error + KeyedOffering keyed_page"
  | KReservations reservations_query "go_error + KeyedReservation keyed_page"
  | KPurchase keyed_request "sdk_option list" "go_error + KeyedReservation option"

record 'w keyed_state =
  ks_world :: 'w
  ks_log :: "keyed_event list"

definition k_logged :: "'w keyed_state \<Rightarrow> keyed_event \<Rightarrow> 'w \<Rightarrow> 'w keyed_state" where
  "k_logged s ev w = \<lparr>ks_world = w, ks_log = ks_log s @ [ev]\<rparr>"

definition k_offerings :: "'w keyed_env \<Rightarrow> offerings_query \<Rightarrow> 'w keyed_state \<Rightarrow> (go_error + KeyedOffering keyed_page) \<times> 'w keyed_state" where
  "k_offerings env q s = (case ke_Offerings env q (ks_world s) of (r, w) \<Rightarrow> (r, k_logged s (KOfferings q r) w))"

definition k_reservations :: "'w keyed_env \<Rightarrow> reservations_query \<Rightarrow> 'w keyed_state \<Rightarrow> (go_error + KeyedReservation keyed_page) \<times> 'w keyed_state" where
  "k_reservations env q s = (case ke_Reservations env q (ks_world s) of (r, w) \<Rightarrow> (r, k_logged s (KReservations q r) w))"

definition k_purchase :: "'w keyed_env \<Rightarrow> keyed_request \<Rightarrow> sdk_option list \<Rightarrow> 'w keyed_state \<Rightarrow> (go_error + KeyedReservation option) \<times> 'w keyed_state" where
  "k_purchase env p os s = (case ke_Purchase env p os (ks_world s) of (r, w) \<Rightarrow> (r, k_logged s (KPurchase p os r) w))"

definition no_query :: offerings_query where
  "no_query = \<lparr>kq_OfferingId = None, kq_Class = None, kq_Engine = None, kq_MultiAZ = None, kq_Duration = None,
     kq_OfferingType = None, kq_Max = None, kq_Marker = None\<rparr>"

section \<open>Looking a reservation up by its ID\<close>

fun first_owned :: "KeyedReservation list \<Rightarrow> go_string option" where
  "first_owned [] = None"
| "first_owned (r # rs) =
    (if \<not> IsOwned (ToString (kr_State r)) then first_owned rs
     else (case kr_Id r of Some i \<Rightarrow> Some i | None \<Rightarrow> first_owned rs))"

definition findReservationByID :: "go_string \<Rightarrow> 'w keyed_env \<Rightarrow> go_string \<Rightarrow> 'w keyed_state finder" where
  "findReservationByID what env reservationID s =
    (case k_reservations env \<lparr>kw_Id = Some reservationID, kw_Max = None, kw_Marker = None\<rparr> s of
       (Inl e, s1) \<Rightarrow>
         if ke_NotFound env e then (Inr None, s1)
         else (Inl (wrapf ''failed to describe %s for idempotency check: %w'' [ArgS what, ArgS (err_text e)] [e]), s1)
     | (Inr page, s1) \<Rightarrow> (Inr (first_owned (pg_Items page)), s1))"

section \<open>The purchase\<close>

record 'w keyed_service =
  sv_label :: go_string
  sv_failed :: go_string
  sv_what :: go_string
  sv_find :: "'w keyed_env \<Rightarrow> Recommendation \<Rightarrow> 'w keyed_state \<Rightarrow> (go_error + go_string) \<times> 'w keyed_state"
  sv_reservation_id :: "'w keyed_env \<Rightarrow> Recommendation \<Rightarrow> PurchaseOptions \<Rightarrow> go_string"
  sv_check :: "'w keyed_env \<Rightarrow> Recommendation \<Rightarrow> go_string \<Rightarrow> 'w keyed_state \<Rightarrow> go_error option \<times> 'w keyed_state"
  sv_total :: "KeyedReservation \<Rightarrow> float64 option"
  sv_tags :: "'w keyed_env \<Rightarrow> Recommendation \<Rightarrow> go_string \<Rightarrow> (go_string \<times> go_string) list"

definition with_error :: "PurchaseResult \<Rightarrow> go_error \<Rightarrow> PurchaseResult \<times> go_error option" where
  "with_error res e = (res\<lparr>pr_Error := Some e\<rparr>, Some e)"

definition existing :: "PurchaseResult \<Rightarrow> go_string \<Rightarrow> PurchaseResult \<times> go_error option" where
  "existing res i = (res\<lparr>pr_Success := True, pr_ExistingCommitment := True, pr_CommitmentID := i\<rparr>, None)"

definition after_purchase :: "'w keyed_service \<Rightarrow> 'w keyed_env \<Rightarrow> PurchaseResult \<Rightarrow> go_string \<Rightarrow> go_string
    \<Rightarrow> go_error + KeyedReservation option \<Rightarrow> 'w keyed_state \<Rightarrow> (PurchaseResult \<times> go_error option) \<times> 'w keyed_state" where
  "after_purchase sv env res token reservationID response s = (case response of
     Inl e \<Rightarrow> (case Recover (ke_AlreadyExists env) token e (findReservationByID (sv_what sv) env reservationID) s of
         (Some i, s1) \<Rightarrow> (existing res i, s1)
       | (None, s1) \<Rightarrow> (let e1 = ClassifyUnlessToken (ke_throttled env) token e in
           (with_error res (wrapf (''failed to purchase '' @ sv_failed sv @ '': %w'') [ArgS (err_text e1)] [e1]), s1)))
   | Inr (Some r) \<Rightarrow> ((res\<lparr>pr_Success := True, pr_CommitmentID := ToString (kr_Id r), pr_Cost := sv_total sv r\<rparr>, None), s)
   | Inr None \<Rightarrow> (with_error res (UnknownUnlessToken token (errorf ''purchase response was empty'' [])), s))"

definition keyed_purchase :: "'w keyed_service \<Rightarrow> 'w keyed_env \<Rightarrow> Recommendation \<Rightarrow> int \<Rightarrow> PurchaseOptions \<Rightarrow> 'w keyed_state
    \<Rightarrow> (PurchaseResult \<times> go_error option) \<times> 'w keyed_state" where
  "keyed_purchase sv env rec cnt opts s = (let res = new_result rec (ke_Now env); token = o_IdempotencyToken opts in
     case sv_find sv env rec s of
       (Inl e, s1) \<Rightarrow> (with_error res (wrapf ''failed to find offering: %w'' [ArgS (err_text e)] [e]), s1)
     | (Inr offeringID, s1) \<Rightarrow> (let reservationID = sv_reservation_id sv env rec opts in
         case Guard token (sv_label sv) (findReservationByID (sv_what sv) env reservationID) s1 of
           (Inl e, s2) \<Rightarrow> (with_error res e, s2)
         | (Inr (Some i), s2) \<Rightarrow> (existing res i, s2)
         | (Inr None, s2) \<Rightarrow> (case sv_check sv env rec offeringID s2 of
             (Some e, s3) \<Rightarrow> (with_error res (wrapf ''%w: %w'' [ArgS (err_text ErrRefusedBeforePurchase), ArgS (err_text e)] [ErrRefusedBeforePurchase, e]), s3)
           | (None, s3) \<Rightarrow> (case k_purchase env \<lparr>kp_OfferingId = offeringID, kp_ReservationId = reservationID, kp_Count = cnt,
                 kp_Tags = sv_tags sv env rec (o_Source opts)\<rparr> (SingleAttemptIf token (RetryMaxAttempts 1)) s3 of
               (response, s4) \<Rightarrow> after_purchase sv env res token reservationID response s4))))"

definition keyed_PurchaseCommitment :: "'w keyed_service \<Rightarrow> 'w keyed_env \<Rightarrow> Recommendation \<Rightarrow> PurchaseOptions \<Rightarrow> 'w keyed_state
    \<Rightarrow> (PurchaseResult \<times> go_error option) \<times> 'w keyed_state" where
  "keyed_PurchaseCommitment sv env rec opts s = (case PurchaseCount (r_Count rec) of
     Inl e \<Rightarrow> (with_error (new_result rec (ke_Now env)) (wrapf ''%w: %w'' [ArgS (err_text ErrRefusedBeforePurchase), ArgS (err_text e)]
         [ErrRefusedBeforePurchase, e]), s)
   | Inr cnt \<Rightarrow> keyed_purchase sv env rec cnt opts s)"

section \<open>Parts the clients share\<close>

definition convertPaymentOption :: "go_string \<Rightarrow> go_string \<Rightarrow> go_error + go_string" where
  "convertPaymentOption fmt option =
    (if option = ''all-upfront'' then Inr ''All Upfront''
     else if option = ''partial-upfront'' then Inr ''Partial Upfront''
     else if option = ''no-upfront'' then Inr ''No Upfront''
     else Inl (errorf fmt [ArgS option]))"

definition built_name :: "go_string \<Rightarrow> go_string \<Rightarrow> 'w keyed_env \<Rightarrow> Recommendation \<Rightarrow> go_string" where
  "built_name service fallbackPrefix env rec = BuildReservationName (ke_Unix env) (ke_Now env) (ke_entropy env)
     \<lparr>n_Now = ke_Now env, n_Service = service, n_Region = r_Region rec, n_ResourceType = r_ResourceType rec, n_Term = r_Term rec,
      n_Payment = r_PaymentOption rec, n_rand = [], n_Count = r_Count rec\<rparr> fallbackPrefix"

text \<open>The check of \<open>checkApprovedUpfront\<close> around what each client reads of the offering.\<close>

definition upfront_check :: "go_string \<Rightarrow> (KeyedOffering \<Rightarrow> go_error option) \<Rightarrow> 'w keyed_env \<Rightarrow> Recommendation \<Rightarrow> go_string \<Rightarrow> 'w keyed_state
    \<Rightarrow> go_error option \<times> 'w keyed_state" where
  "upfront_check service check env rec offeringID s =
    (let cur = r_CommitmentCurrency rec in
     if NoUpfrontApproved (r_CommitmentCost rec) then (None, s)
     else if cur \<noteq> [] \<and> \<not> equal_fold cur ''USD'' then
       (Some (errorf ''%s recommendation upfront is in %s; the approved upfront check supports USD only'' [ArgS service, ArgS cur]), s)
     else (case k_offerings env (no_query\<lparr>kq_OfferingId := Some offeringID\<rparr>) s of
       (Inl e, s1) \<Rightarrow> (Some (wrapf ''failed to read %s offering %s for the approved upfront check: %w''
           [ArgS service, ArgS offeringID, ArgS (err_text e)] [e]), s1)
     | (Inr page, s1) \<Rightarrow> (case pg_Items page of
         [off] \<Rightarrow> (check off, s1)
       | offs \<Rightarrow> (Some (errorf ''%s offering %s: expected 1 offering for the approved upfront check, got %d''
             [ArgS service, ArgS offeringID, ArgI (int (length offs))]), s1))))"

definition over_ceiling :: "go_string \<Rightarrow> go_string \<Rightarrow> Recommendation \<Rightarrow> float64 \<Rightarrow> go_error option" where
  "over_ceiling service offeringID rec price = (case CheckUpfront service (price * float_of_int (r_Count rec)) (r_CommitmentCost rec) of
     None \<Rightarrow> None
   | Some e \<Rightarrow> Some (wrapf ''%s offering %s: %w'' [ArgS service, ArgS offeringID, ArgS (err_text e)] [e]))"

definition charges_of :: "KeyedOffering \<Rightarrow> Charge list" where
  "charges_of off = map (\<lambda>rc. \<lparr>ch_Frequency = ToString (rcg_Frequency rc), ch_Amount = ToFloat64 (rcg_Amount rc)\<rparr>) (ko_RecurringCharges off)"

definition keyed_details :: "go_string \<Rightarrow> (KeyedOffering \<Rightarrow> go_error + go_string) \<Rightarrow> int option
    \<Rightarrow> ('w keyed_env \<Rightarrow> Recommendation \<Rightarrow> 'w keyed_state \<Rightarrow> (go_error + go_string) \<times> 'w keyed_state)
    \<Rightarrow> 'w keyed_env \<Rightarrow> Recommendation \<Rightarrow> 'w keyed_state \<Rightarrow> (go_error + OfferingDetails) \<times> 'w keyed_state" where
  "keyed_details service currency max_records find_offering env rec s = (case find_offering env rec s of
     (Inl e, s1) \<Rightarrow> (Inl e, s1)
   | (Inr offeringID, s1) \<Rightarrow> (case k_offerings env (no_query\<lparr>kq_OfferingId := Some offeringID, kq_Max := max_records\<rparr>) s1 of
       (Inl e, s2) \<Rightarrow> (Inl (wrapf ''failed to get offering details: %w'' [ArgS (err_text e)] [e]), s2)
     | (Inr page, s2) \<Rightarrow> (case pg_Items page of
         [] \<Rightarrow> (Inl (errorf ''offering not found: %s'' [ArgS offeringID]), s2)
       | off # _ \<Rightarrow> (case currency off of
           Inl e \<Rightarrow> (Inl e, s2)
         | Inr cur \<Rightarrow> (case Price \<lparr>pi_Service = service, pi_Term = r_Term rec, pi_Charges = charges_of off,
               pi_FixedPrice = ToFloat64 (ko_FixedPrice off),
               pi_UsagePrice = (if service = ''MemoryDB'' then 0 else ToFloat64 (ko_UsagePrice off)),
               pi_DurationSeconds = ToInt32 (ko_Duration off)\<rparr> of
             Inl e \<Rightarrow> (Inl (wrapf ''%s offering %s: %w'' [ArgS service, ArgS offeringID, ArgS (err_text e)] [e]), s2)
           | Inr priced \<Rightarrow> (Inr \<lparr>od_OfferingID = ToString (ko_OfferingId off), od_ResourceType = ToString (ko_Class off),
               od_Term = (if service = ''RDS'' \<and> ko_Duration off = None then [] else sprintf ''%d'' [ArgI (ToInt32 (ko_Duration off))]),
               od_PaymentOption = ToString (ko_OfferingType off), od_Currency = cur, od_UpfrontCost = pg_Upfront priced,
               od_RecurringCost = pg_Hourly priced, od_TotalCost = pg_Total priced, od_EffectiveHourlyRate = pg_EffectiveHourly priced\<rparr>, s2))))))"

definition validated :: "(go_error + go_string) \<times> 'w keyed_state \<Rightarrow> go_error option \<times> 'w keyed_state" where
  "validated r = (case r of (Inl e, s) \<Rightarrow> (Some e, s) | (Inr i, s) \<Rightarrow> (None, s))"

section \<open>Listings\<close>

fun keyed_listing :: "go_string \<Rightarrow> go_string \<Rightarrow> (KeyedReservation \<Rightarrow> Commitment option) \<Rightarrow> 'w keyed_env \<Rightarrow> nat \<Rightarrow> go_string option
    \<Rightarrow> 'w keyed_state \<Rightarrow> (go_error + Commitment list) \<times> 'w keyed_state" where
  "keyed_listing label what conv env fuel marker s = (case ke_Err env (ks_world s) of
     Some e \<Rightarrow> (Inl e, s)
   | None \<Rightarrow> (case fuel of
       0 \<Rightarrow> (Inl (errorf ''pagination cap reached after %d pages for %s'' [ArgI (int maxListPages), ArgS label]), s)
     | Suc n \<Rightarrow> (case k_reservations env \<lparr>kw_Id = None, kw_Max = Some 100, kw_Marker = marker\<rparr> s of
         (Inl e, s1) \<Rightarrow> (Inl (wrapf ''failed to describe %s: %w'' [ArgS what, ArgS (err_text e)] [e]), s1)
       | (Inr page, s1) \<Rightarrow>
           let here = List.map_filter conv (pg_Items page) in
           if ToString (pg_Marker page) = [] then (Inr here, s1)
           else (case keyed_listing label what conv env n (pg_Marker page) s1 of
             (Inl e, s2) \<Rightarrow> (Inl e, s2) | (Inr others, s2) \<Rightarrow> (Inr (here @ others), s2)))))"

declare keyed_listing.simps [simp del]

definition keyed_commitment :: "go_string \<Rightarrow> (KeyedReservation \<Rightarrow> go_string) \<Rightarrow> (KeyedReservation \<Rightarrow> go_string) \<Rightarrow> 'w keyed_env
    \<Rightarrow> KeyedReservation \<Rightarrow> Commitment option" where
  "keyed_commitment service engine deployment env r =
    (if \<not> IsOwned (ToString (kr_State r)) then None
     else Some \<lparr>c_StartDate = (case kr_StartTime r of None \<Rightarrow> 0 | Some t \<Rightarrow> t),
       c_EndDate = EndDate (case kr_StartTime r of None \<Rightarrow> 0 | Some t \<Rightarrow> t) (ToInt32 (kr_Duration r)),
       c_Provider = ''aws'', c_Account = [], c_CommitmentID = ToString (kr_Id r), c_CommitmentType = ''reserved-instance'',
       c_Service = service, c_Region = ke_region env, c_ResourceType = ToString (kr_Class r), c_Engine = engine r,
       c_Deployment = deployment r, c_State = ToString (kr_State r), c_Platform = [], c_Tenancy = [], c_Scope = [],
       c_AvailabilityZone = [], c_Count = ToInt32 (kr_Count r), c_Cost = 0, c_CostKnown = False, c_StartDateIsDay = False\<rparr>)"

fun keyed_types :: "go_string \<Rightarrow> go_string \<Rightarrow> 'w keyed_env \<Rightarrow> nat \<Rightarrow> go_string option \<Rightarrow> 'w keyed_state
    \<Rightarrow> (go_error + go_string list) \<times> 'w keyed_state" where
  "keyed_types label service env fuel marker s = (case ke_Err env (ks_world s) of
     Some e \<Rightarrow> (Inl e, s)
   | None \<Rightarrow> (case fuel of
       0 \<Rightarrow> (Inl (errorf ''pagination cap reached after %d pages for %s'' [ArgI (int maxListPages), ArgS label]), s)
     | Suc n \<Rightarrow> (case k_offerings env (no_query\<lparr>kq_Max := Some 100, kq_Marker := marker\<rparr>) s of
         (Inl e, s1) \<Rightarrow> (Inl (wrapf ''failed to describe %s offerings: %w'' [ArgS service, ArgS (err_text e)] [e]), s1)
       | (Inr page, s1) \<Rightarrow>
           let here = List.map_filter ko_Class (pg_Items page) in
           if ToString (pg_Marker page) = [] then (Inr here, s1)
           else (case keyed_types label service env n (pg_Marker page) s1 of
             (Inl e, s2) \<Rightarrow> (Inl e, s2) | (Inr others, s2) \<Rightarrow> (Inr (here @ others), s2)))))"

declare keyed_types.simps [simp del]

definition sorted_types :: "(go_error + go_string list) \<times> 'w keyed_state \<Rightarrow> (go_error + go_string list) \<times> 'w keyed_state" where
  "sorted_types r = (case r of (Inl e, s) \<Rightarrow> (Inl e, s) | (Inr types, s) \<Rightarrow> (Inr (sort (remdups types)), s))"

end
