(* ===== verification/Aws_Rds.thy ===== *)
theory Aws_Rds
  imports Aws_Keyed
begin

text \<open>
  The RDS, ElastiCache and MemoryDB clients (\<open>client.go\<close> of the three services) over the shared parts of
  \<open>Aws_Keyed\<close>: the search for an offering, the ID of a reservation, the price check, details and listings.
\<close>

section \<open>RDS: which offering\<close>

definition normalizeEngineName :: "go_string \<Rightarrow> go_error + go_string" where
  "normalizeEngineName engine = (let e = to_lower engine in
     if str_contains e ''aurora'' then
       (if str_contains e ''mysql'' then Inr ''aurora-mysql''
        else if str_contains e ''postgres'' then Inr ''aurora-postgresql''
        else Inl (errorf ''ambiguous Aurora engine %q: CE must supply the specific variant (aurora-mysql or aurora-postgresql); refusing to guess'' [ArgS engine]))
     else if str_contains e ''mysql'' then Inr ''mysql''
     else if str_contains e ''postgres'' then Inr ''postgresql''
     else if str_contains e ''mariadb'' then Inr ''mariadb''
     else if e = ''oracle'' then
       Inl (errorf ''ambiguous Oracle engine %q: CE must supply the exact edition (e.g. oracle-se2, oracle-ee); refusing to guess'' [ArgS engine])
     else if e = ''sqlserver'' \<or> e = ''sql-server'' then
       Inl (errorf ''ambiguous SQL Server engine %q: CE must supply the exact edition (e.g. sqlserver-se, sqlserver-ee, sqlserver-web, sqlserver-ex); refusing to guess'' [ArgS engine])
     else Inr e)"

definition licensedEnginePrefixes :: "go_string list" where
  "licensedEnginePrefixes = [''oracle'', ''sqlserver'', ''sql-server'', ''sql server'']"

definition isLicensedEngine :: "go_string \<Rightarrow> bool" where
  "isLicensedEngine name \<longleftrightarrow> list_ex (starts_with name) licensedEnginePrefixes"

definition lookupEngineName :: "go_string \<Rightarrow> go_error + go_string" where
  "lookupEngineName engine = (case normalizeEngineName engine of
     Inl e \<Rightarrow> Inl e
   | Inr name \<Rightarrow> if isLicensedEngine name then Inl (errorf ''engine %q: license model is not known; refusing to guess'' [ArgS engine]) else Inr name)"

record rdsOfferingKey =
  rk_class :: go_string
  rk_engine :: go_string
  rk_offeringType :: go_string
  rk_duration :: int
  rk_multiAZ :: bool

definition rds_matches :: "rdsOfferingKey \<Rightarrow> KeyedOffering \<Rightarrow> bool" where
  "rds_matches k off \<longleftrightarrow> ko_Engine off = Some (rk_engine k) \<and> ko_Class off = Some (rk_class k) \<and> ko_MultiAZ off = Some (rk_multiAZ k)
     \<and> ko_Duration off = Some (rk_duration k) \<and> ko_OfferingType off = Some (rk_offeringType k)"

definition show_bool :: "bool \<Rightarrow> go_string" where
  "show_bool b = (if b then ''true'' else ''false'')"

definition pickOfferingID :: "go_string \<Rightarrow> go_string \<Rightarrow> rdsOfferingKey \<Rightarrow> go_error + go_string" where
  "pickOfferingID found i want =
    (if i = [] \<or> i = found then Inr found
     else if found \<noteq> [] then
       Inl (errorf ''ambiguous RDS offering: %q and %q both match %s %s multi-az=%v %s''
         [ArgS found, ArgS i, ArgS (rk_class want), ArgS (rk_engine want), ArgS (show_bool (rk_multiAZ want)), ArgS (rk_offeringType want)])
     else Inr i)"

fun rds_scan :: "go_string \<Rightarrow> KeyedOffering list \<Rightarrow> rdsOfferingKey \<Rightarrow> go_error + go_string" where
  "rds_scan found [] want = Inr found"
| "rds_scan found (off # offs) want =
    (if \<not> rds_matches want off then rds_scan found offs want
     else (case pickOfferingID found (ToString (ko_OfferingId off)) want of
       Inl e \<Rightarrow> Inl e | Inr found' \<Rightarrow> rds_scan found' offs want))"

definition scanRDSOfferingPage :: "KeyedOffering list \<Rightarrow> rdsOfferingKey \<Rightarrow> go_error + go_string" where
  "scanRDSOfferingPage offs want = rds_scan [] offs want"

definition page_cap_error :: "go_string \<Rightarrow> go_string \<Rightarrow> go_error" where
  "page_cap_error desc found =
    (if found \<noteq> [] then errorf ''pagination cap reached after %d pages for RDS %s: offering %q matched but more pages remain, so it cannot be proven unique; refusing to purchase (issue #303)''
       [ArgI (int maxOfferingPages), ArgS desc, ArgS found]
     else errorf ''pagination cap reached after %d pages for RDS %s (issue #688)'' [ArgI (int maxOfferingPages), ArgS desc])"

fun rds_walk :: "'w keyed_env \<Rightarrow> rdsOfferingKey \<Rightarrow> go_string \<Rightarrow> offerings_query \<Rightarrow> nat \<Rightarrow> int \<Rightarrow> go_string \<Rightarrow> go_string option
    \<Rightarrow> 'w keyed_state \<Rightarrow> (go_error + go_string) \<times> 'w keyed_state" where
  "rds_walk env want desc base fuel page found marker s = (case ke_Err env (ks_world s) of
     Some e \<Rightarrow> (Inl e, s)
   | None \<Rightarrow> (case fuel of
       0 \<Rightarrow> (Inl (page_cap_error desc found), s)
     | Suc n \<Rightarrow> (case k_offerings env (base\<lparr>kq_Marker := marker\<rparr>) s of
         (Inl e, s1) \<Rightarrow> (Inl (wrapf ''failed to describe offerings: %w'' [ArgS (err_text e)] [e]), s1)
       | (Inr out, s1) \<Rightarrow> (case scanRDSOfferingPage (pg_Items out) want of
           Inl e \<Rightarrow> (Inl e, s1)
         | Inr i \<Rightarrow> (case pickOfferingID found i want of
             Inl e \<Rightarrow> (Inl e, s1)
           | Inr found' \<Rightarrow>
               if ToString (pg_Marker out) = [] then
                 (if found' \<noteq> [] then (Inr found', s1)
                  else (Inl (errorf ''no offerings found for RDS %s after %d page(s) (issue #688)'' [ArgS desc, ArgI page]), s1))
               else rds_walk env want desc base n (page + 1) found' (pg_Marker out) s1)))))"

declare rds_walk.simps [simp del]

definition offeringDuration :: "go_string \<Rightarrow> go_error + go_string \<times> int" where
  "offeringDuration t = (case (DurationSecondsString t ''RDS'', DurationSeconds t ''RDS'') of
     (Inr duration, Inr seconds) \<Rightarrow> Inr (duration, seconds) | (Inl e, _) \<Rightarrow> Inl e | (_, Inl e) \<Rightarrow> Inl e)"

definition rds_want :: "Recommendation \<Rightarrow> DatabaseDetails \<Rightarrow> go_string \<Rightarrow> go_error + rdsOfferingKey \<times> offerings_query" where
  "rds_want rec details offeringType = (let multiAZ = (dd_AZConfig details = ''multi-az'') in
     case lookupEngineName (dd_Engine details) of
       Inl e \<Rightarrow> Inl (wrapf ''cannot look up RDS offering: %w'' [ArgS (err_text e)] [e])
     | Inr engine \<Rightarrow> (case offeringDuration (r_Term rec) of
         Inl e \<Rightarrow> Inl e
       | Inr (duration, seconds) \<Rightarrow> Inr (\<lparr>rk_class = r_ResourceType rec, rk_engine = engine, rk_offeringType = offeringType,
             rk_duration = seconds, rk_multiAZ = multiAZ\<rparr>,
           no_query\<lparr>kq_Class := Some (r_ResourceType rec), kq_Engine := Some engine, kq_MultiAZ := Some multiAZ, kq_Duration := Some duration,
             kq_OfferingType := Some offeringType, kq_Max := Some 100\<rparr>)))"

definition rds_desc :: "Recommendation \<Rightarrow> DatabaseDetails \<Rightarrow> go_string" where
  "rds_desc rec details = sprintf ''%s %s multi-az=%v %s'' [ArgS (r_ResourceType rec), ArgS (dd_Engine details),
     ArgS (show_bool (dd_AZConfig details = ''multi-az'')), ArgS (r_PaymentOption rec)]"

definition rds_findOfferingID :: "'w keyed_env \<Rightarrow> Recommendation \<Rightarrow> 'w keyed_state \<Rightarrow> (go_error + go_string) \<times> 'w keyed_state" where
  "rds_findOfferingID env rec s = (case r_Details rec of
     Some (DatabaseD (ByPtr (Some details))) \<Rightarrow>
       if dd_AZConfig details = [] then
         (Inl (errorf ''RDS AZConfig is empty: CE recommendation did not include DeploymentOption; refusing to guess single-az vs multi-az (see M4 in 19-hardcoded-fallbacks-aws.md)'' []), s)
       else if dd_AZConfig details \<notin> {''single-az'', ''multi-az''} then
         (Inl (errorf ''invalid RDS AZConfig %q: must be single-az or multi-az'' [ArgS (dd_AZConfig details)]), s)
       else (case convertPaymentOption ''unsupported payment option: %s'' (r_PaymentOption rec) of
         Inl e \<Rightarrow> (Inl (wrapf ''invalid payment option: %w'' [ArgS (err_text e)] [e]), s)
       | Inr offeringType \<Rightarrow> (case rds_want rec details offeringType of
           Inl e \<Rightarrow> (Inl e, s)
         | Inr (want, base) \<Rightarrow> rds_walk env want (rds_desc rec details) base maxOfferingPages 1 [] None s))
   | _ \<Rightarrow> (Inl (errorf ''invalid service details for RDS'' []), s))"

section \<open>RDS: the purchase, details and listings\<close>

definition deriveReservationID :: "'w keyed_env \<Rightarrow> Recommendation \<Rightarrow> PurchaseOptions \<Rightarrow> go_string" where
  "deriveReservationID env rec opts = (let i = IdempotentReservationID (ke_Unix env) ''rds-id-'' (o_IdempotencyToken opts) in
     if i \<noteq> [] then i
     else if o_ReservationID opts \<noteq> [] then SanitizeReservationID (ke_Unix env) (o_ReservationID opts) ''rds-reserved-''
     else built_name ''rds'' ''rds-reserved-'' env rec)"

definition rds_check_offering :: "Recommendation \<Rightarrow> go_string \<Rightarrow> KeyedOffering \<Rightarrow> go_error option" where
  "rds_check_offering rec offeringID off = (case ko_FixedPrice off of
     None \<Rightarrow> Some (errorf ''RDS offering %s has no FixedPrice; cannot compare it with the approved upfront %.2f'' [ArgS offeringID, ArgF (r_CommitmentCost rec)])
   | Some price \<Rightarrow>
       if ToString (ko_CurrencyCode off) \<noteq> [] \<and> \<not> equal_fold (ToString (ko_CurrencyCode off)) ''USD'' then
         Some (errorf ''RDS offering %s is priced in %s; the approved upfront check supports USD only'' [ArgS offeringID, ArgS (ToString (ko_CurrencyCode off))])
       else over_ceiling ''RDS'' offeringID rec price)"

definition rds_checkApprovedUpfront :: "'w keyed_env \<Rightarrow> Recommendation \<Rightarrow> go_string \<Rightarrow> 'w keyed_state \<Rightarrow> go_error option \<times> 'w keyed_state" where
  "rds_checkApprovedUpfront env rec offeringID s = upfront_check ''RDS'' (rds_check_offering rec offeringID) env rec offeringID s"

definition reservation_total :: "KeyedReservation \<Rightarrow> float64 option" where
  "reservation_total r = (case (kr_FixedPrice r, kr_Count r) of (Some p, Some n) \<Rightarrow> Some (p * float_of_int n) | _ \<Rightarrow> None)"

definition rds_service :: "'w keyed_service" where
  "rds_service = \<lparr>sv_label = ''RDS RI'', sv_failed = ''RDS RI'', sv_what = ''reserved DB instances'', sv_find = rds_findOfferingID,
     sv_reservation_id = deriveReservationID, sv_check = rds_checkApprovedUpfront, sv_total = reservation_total,
     sv_tags = (\<lambda>env rec src. PurchasePairs (ke_Now env) rec ''Reserved Instance Purchase'' ''ResourceType'' src)\<rparr>"

definition rds_PurchaseCommitment :: "'w keyed_env \<Rightarrow> Recommendation \<Rightarrow> PurchaseOptions \<Rightarrow> 'w keyed_state
    \<Rightarrow> (PurchaseResult \<times> go_error option) \<times> 'w keyed_state" where
  "rds_PurchaseCommitment = keyed_PurchaseCommitment rds_service"

definition rds_GetOfferingDetails :: "'w keyed_env \<Rightarrow> Recommendation \<Rightarrow> 'w keyed_state \<Rightarrow> (go_error + OfferingDetails) \<times> 'w keyed_state" where
  "rds_GetOfferingDetails = keyed_details ''RDS'' (\<lambda>off. Currency ''RDS'' (ToString (ko_CurrencyCode off))) None rds_findOfferingID"

definition rds_ValidateOffering :: "'w keyed_env \<Rightarrow> Recommendation \<Rightarrow> 'w keyed_state \<Rightarrow> go_error option \<times> 'w keyed_state" where
  "rds_ValidateOffering env rec s = validated (rds_findOfferingID env rec s)"

definition rds_GetExistingCommitments :: "'w keyed_env \<Rightarrow> 'w keyed_state \<Rightarrow> (go_error + Commitment list) \<times> 'w keyed_state" where
  "rds_GetExistingCommitments env = keyed_listing ''RDS reserved instances (issue #561)'' ''reserved DB instances''
     (keyed_commitment ServiceRelationalDB (\<lambda>r. ToString (kr_Engine r)) (\<lambda>r. if kr_MultiAZ r = Some True then ''multi-az'' else ''single-az'') env)
     env maxListPages None"

definition rds_GetValidResourceTypes :: "'w keyed_env \<Rightarrow> 'w keyed_state \<Rightarrow> (go_error + go_string list) \<times> 'w keyed_state" where
  "rds_GetValidResourceTypes env s = sorted_types (keyed_types ''RDS offerings (issue #561)'' ''RDS'' env maxListPages None s)"

section \<open>ElastiCache\<close>

definition scanElastiCacheOfferingPage :: "KeyedOffering list \<Rightarrow> Recommendation \<Rightarrow> go_string \<Rightarrow> go_string \<Rightarrow> int \<Rightarrow> go_error + go_string" where
  "scanElastiCacheOfferingPage offs rec wantType wantEngine wantSeconds = (case offs of
     [] \<Rightarrow> Inr []
   | off # _ \<Rightarrow> (let i = ToString (ko_OfferingId off) in
       if ToString (ko_OfferingType off) \<noteq> wantType then
         Inl (errorf ''ElastiCache offering %s has payment option %q, want %q (rec: %s %s) -- API filter mismatch''
           [ArgS i, ArgS (ToString (ko_OfferingType off)), ArgS wantType, ArgS (r_ResourceType rec), ArgS (r_PaymentOption rec)])
       else if ToString (ko_Class off) \<noteq> r_ResourceType rec then
         Inl (errorf ''ElastiCache offering %s has node type %q, want %q -- API filter mismatch'' [ArgS i, ArgS (ToString (ko_Class off)), ArgS (r_ResourceType rec)])
       else if ToInt32 (ko_Duration off) \<noteq> wantSeconds then
         Inl (errorf ''ElastiCache offering %s has duration %ds, want %ds -- API filter mismatch'' [ArgS i, ArgI (ToInt32 (ko_Duration off)), ArgI wantSeconds])
       else if \<not> equal_fold (ToString (ko_Engine off)) wantEngine then
         Inl (errorf ''ElastiCache offering %s has engine %q, want %q -- API filter mismatch'' [ArgS i, ArgS (ToString (ko_Engine off)), ArgS wantEngine])
       else Inr i))"

text \<open>The page walk of ElastiCache and MemoryDB: the first page with an offering ends it.\<close>

fun first_match_walk :: "'w keyed_env \<Rightarrow> (KeyedOffering list \<Rightarrow> go_error + go_string) \<Rightarrow> go_string \<Rightarrow> offerings_query \<Rightarrow> nat \<Rightarrow> int \<Rightarrow> go_string option
    \<Rightarrow> 'w keyed_state \<Rightarrow> (go_error + go_string) \<times> 'w keyed_state" where
  "first_match_walk env scan desc base fuel page marker s = (case ke_Err env (ks_world s) of
     Some e \<Rightarrow> (Inl e, s)
   | None \<Rightarrow> (case fuel of
       0 \<Rightarrow> (Inl (errorf ''pagination cap reached after %d pages for %s (issue #688)'' [ArgI (int maxOfferingPages), ArgS desc]), s)
     | Suc n \<Rightarrow> (case k_offerings env (base\<lparr>kq_Marker := marker\<rparr>) s of
         (Inl e, s1) \<Rightarrow> (Inl (wrapf ''failed to describe offerings: %w'' [ArgS (err_text e)] [e]), s1)
       | (Inr out, s1) \<Rightarrow> (case scan (pg_Items out) of
           Inl e \<Rightarrow> (Inl e, s1)
         | Inr i \<Rightarrow>
             if i \<noteq> [] then (Inr i, s1)
             else if ToString (pg_Marker out) = [] then
               (Inl (errorf ''no offerings found for %s after %d page(s) (issue #688)'' [ArgS desc, ArgI (page + 1)]), s1)
             else first_match_walk env scan desc base n (page + 1) (pg_Marker out) s1))))"

declare first_match_walk.simps [simp del]

definition elasticache_findOfferingID :: "'w keyed_env \<Rightarrow> Recommendation \<Rightarrow> 'w keyed_state \<Rightarrow> (go_error + go_string) \<times> 'w keyed_state" where
  "elasticache_findOfferingID env rec s = (case r_Details rec of
     Some (CacheD (ByPtr (Some details))) \<Rightarrow>
       (case convertPaymentOption ''unsupported ElastiCache payment option %q (want all-upfront, partial-upfront, or no-upfront)'' (r_PaymentOption rec) of
         Inl e \<Rightarrow> (Inl e, s)
       | Inr offeringType \<Rightarrow> (let engine = to_lower (trim_space (hd_Engine details)) in
           if engine = [] then
             (Inl (errorf ''ElastiCache recommendation for %s has no engine (Cost Explorer omitted ProductDescription); refusing to guess between redis, valkey and memcached''
               [ArgS (r_ResourceType rec)]), s)
           else (case (DurationSecondsString (r_Term rec) ''ElastiCache'', DurationSeconds (r_Term rec) ''ElastiCache'') of
             (Inr duration, Inr wantSeconds) \<Rightarrow>
               first_match_walk env (\<lambda>offs. scanElastiCacheOfferingPage offs rec offeringType engine wantSeconds)
                 (sprintf ''ElastiCache %s %s %s'' [ArgS (r_ResourceType rec), ArgS engine, ArgS (r_PaymentOption rec)])
                 (no_query\<lparr>kq_Class := Some (r_ResourceType rec), kq_Engine := Some engine, kq_Duration := Some duration,
                   kq_OfferingType := Some offeringType, kq_Max := Some 100\<rparr>) maxOfferingPages 0 None s
           | (Inl e, _) \<Rightarrow> (Inl e, s) | (_, Inl e) \<Rightarrow> (Inl e, s))))
   | _ \<Rightarrow> (Inl (errorf ''invalid service details for ElastiCache'' []), s))"

definition token_or_name :: "go_string \<Rightarrow> go_string \<Rightarrow> go_string \<Rightarrow> 'w keyed_env \<Rightarrow> Recommendation \<Rightarrow> PurchaseOptions \<Rightarrow> go_string" where
  "token_or_name prefix service fallbackPrefix env rec opts =
    (let i = IdempotentReservationID (ke_Unix env) prefix (o_IdempotencyToken opts) in
     if i = [] then built_name service fallbackPrefix env rec else i)"

definition elasticache_service :: "'w keyed_service" where
  "elasticache_service = \<lparr>sv_label = ''ElastiCache reservation'', sv_failed = ''Reserved Cache Node'', sv_what = ''reserved cache nodes'',
     sv_find = elasticache_findOfferingID, sv_reservation_id = token_or_name ''elasticache-id-'' ''cache'' ''elasticache-reserved-'',
     sv_check = (\<lambda>env rec off s. (None, s)), sv_total = reservation_total,
     sv_tags = (\<lambda>env rec src. PurchasePairs (ke_Now env) rec ''Reserved Cache Node Purchase'' ''NodeType'' src)\<rparr>"

definition elasticache_PurchaseCommitment :: "'w keyed_env \<Rightarrow> Recommendation \<Rightarrow> PurchaseOptions \<Rightarrow> 'w keyed_state
    \<Rightarrow> (PurchaseResult \<times> go_error option) \<times> 'w keyed_state" where
  "elasticache_PurchaseCommitment = keyed_PurchaseCommitment elasticache_service"

definition elasticache_GetOfferingDetails :: "'w keyed_env \<Rightarrow> Recommendation \<Rightarrow> 'w keyed_state \<Rightarrow> (go_error + OfferingDetails) \<times> 'w keyed_state" where
  "elasticache_GetOfferingDetails env = keyed_details ''ElastiCache'' (\<lambda>off. AssumedUSD ''ElastiCache'' (ke_region env)) None elasticache_findOfferingID env"

definition elasticache_ValidateOffering :: "'w keyed_env \<Rightarrow> Recommendation \<Rightarrow> 'w keyed_state \<Rightarrow> go_error option \<times> 'w keyed_state" where
  "elasticache_ValidateOffering env rec s = validated (elasticache_findOfferingID env rec s)"

definition elasticache_GetExistingCommitments :: "'w keyed_env \<Rightarrow> 'w keyed_state \<Rightarrow> (go_error + Commitment list) \<times> 'w keyed_state" where
  "elasticache_GetExistingCommitments env = keyed_listing ''ElastiCache reserved cache nodes (issue #561)'' ''reserved cache nodes''
     (keyed_commitment ServiceCache (\<lambda>r. ToString (kr_Engine r)) (\<lambda>r. []) env) env maxListPages None"

definition elasticache_GetValidResourceTypes :: "'w keyed_env \<Rightarrow> 'w keyed_state \<Rightarrow> (go_error + go_string list) \<times> 'w keyed_state" where
  "elasticache_GetValidResourceTypes env s = sorted_types (keyed_types ''ElastiCache offerings (issue #561)'' ''ElastiCache'' env maxListPages None s)"

section \<open>MemoryDB\<close>

definition scanMemoryDBOfferingPage :: "KeyedOffering list \<Rightarrow> Recommendation \<Rightarrow> go_string \<Rightarrow> go_error + go_string" where
  "scanMemoryDBOfferingPage offs rec wantOfferingType = (case offs of
     [] \<Rightarrow> Inr []
   | off # _ \<Rightarrow>
       if ToString (ko_OfferingType off) \<noteq> wantOfferingType then
         Inl (errorf ''MemoryDB offering %s has payment option %q, want %q (rec: %s %s) -- API filter mismatch''
           [ArgS (ToString (ko_OfferingId off)), ArgS (ToString (ko_OfferingType off)), ArgS wantOfferingType, ArgS (r_ResourceType rec), ArgS (r_PaymentOption rec)])
       else Inr (ToString (ko_OfferingId off)))"

definition getDurationStringForAPI :: "go_string \<Rightarrow> go_error + go_string" where
  "getDurationStringForAPI t = (let t' = (if t = ''12'' then ''1yr'' else if t = ''36'' then ''3yr'' else t) in
     case DurationYearString t' ''MemoryDB'' of
       Inl e \<Rightarrow> Inl (errorf ''unsupported MemoryDB reservation term %q: must be one of 1yr, 1, 12, 3yr, 3, 36'' [ArgS t'])
     | Inr duration \<Rightarrow> Inr duration)"

definition memorydb_findOfferingID :: "'w keyed_env \<Rightarrow> Recommendation \<Rightarrow> 'w keyed_state \<Rightarrow> (go_error + go_string) \<times> 'w keyed_state" where
  "memorydb_findOfferingID env rec s = (case convertPaymentOption ''unsupported MemoryDB payment option: %s'' (r_PaymentOption rec) of
     Inl e \<Rightarrow> (Inl e, s)
   | Inr wantOfferingType \<Rightarrow> (case getDurationStringForAPI (r_Term rec) of
       Inl e \<Rightarrow> (Inl e, s)
     | Inr duration \<Rightarrow> first_match_walk env (\<lambda>offs. scanMemoryDBOfferingPage offs rec wantOfferingType)
         (sprintf ''MemoryDB %s %s'' [ArgS (r_ResourceType rec), ArgS (r_PaymentOption rec)])
         (no_query\<lparr>kq_Class := Some (r_ResourceType rec), kq_OfferingType := Some wantOfferingType, kq_Duration := Some duration,
           kq_Max := Some 100\<rparr>) maxOfferingPages 0 None s))"

definition checkAssumedUSD :: "'w keyed_env \<Rightarrow> KeyedOffering \<Rightarrow> go_string \<Rightarrow> go_error option" where
  "checkAssumedUSD env off offeringID =
    (if ToString (ko_OfferingType off) = ''No Upfront'' then None
     else (case AssumedUSD ''MemoryDB'' (ke_region env) of
       Inl e \<Rightarrow> Some (wrapf ''MemoryDB offering %s: %w'' [ArgS offeringID, ArgS (err_text e)] [e]) | Inr c \<Rightarrow> None))"

definition memorydb_check_offering :: "'w keyed_env \<Rightarrow> Recommendation \<Rightarrow> go_string \<Rightarrow> KeyedOffering \<Rightarrow> go_error option" where
  "memorydb_check_offering env rec offeringID off = (let price = ToFloat64 (ko_FixedPrice off) in
     if feq price 0 \<and> ToString (ko_OfferingType off) \<noteq> ''No Upfront'' then
       Some (errorf ''MemoryDB offering %s: upfront offering has no FixedPrice; refusing to buy against an approved upfront of %.2f''
         [ArgS offeringID, ArgF (r_CommitmentCost rec)])
     else (case checkAssumedUSD env off offeringID of
       Some e \<Rightarrow> Some e
     | None \<Rightarrow> over_ceiling ''MemoryDB'' offeringID rec price))"

definition memorydb_checkApprovedUpfront :: "'w keyed_env \<Rightarrow> Recommendation \<Rightarrow> go_string \<Rightarrow> 'w keyed_state \<Rightarrow> go_error option \<times> 'w keyed_state" where
  "memorydb_checkApprovedUpfront env rec offeringID s = upfront_check ''MemoryDB'' (memorydb_check_offering env rec offeringID) env rec offeringID s"

definition memorydb_total :: "KeyedReservation \<Rightarrow> float64 option" where
  "memorydb_total r = (if 0 < ToInt32 (kr_Count r) then Some (ToFloat64 (kr_FixedPrice r) * float_of_int (ToInt32 (kr_Count r))) else None)"

definition memorydb_service :: "'w keyed_service" where
  "memorydb_service = \<lparr>sv_label = ''MemoryDB reservation'', sv_failed = ''MemoryDB Reserved Nodes'', sv_what = ''reserved nodes'',
     sv_find = memorydb_findOfferingID, sv_reservation_id = token_or_name ''memorydb-id-'' ''memdb'' ''memorydb-reserved-'',
     sv_check = memorydb_checkApprovedUpfront, sv_total = memorydb_total,
     sv_tags = (\<lambda>env rec src. PurchasePairs (ke_Now env) rec ''Reserved Node Purchase'' ''NodeType'' src)\<rparr>"

definition memorydb_PurchaseCommitment :: "'w keyed_env \<Rightarrow> Recommendation \<Rightarrow> PurchaseOptions \<Rightarrow> 'w keyed_state
    \<Rightarrow> (PurchaseResult \<times> go_error option) \<times> 'w keyed_state" where
  "memorydb_PurchaseCommitment = keyed_PurchaseCommitment memorydb_service"

definition memorydb_GetOfferingDetails :: "'w keyed_env \<Rightarrow> Recommendation \<Rightarrow> 'w keyed_state \<Rightarrow> (go_error + OfferingDetails) \<times> 'w keyed_state" where
  "memorydb_GetOfferingDetails env = keyed_details ''MemoryDB'' (\<lambda>off. AssumedUSD ''MemoryDB'' (ke_region env)) (Some 1) memorydb_findOfferingID env"

definition memorydb_ValidateOffering :: "'w keyed_env \<Rightarrow> Recommendation \<Rightarrow> 'w keyed_state \<Rightarrow> go_error option \<times> 'w keyed_state" where
  "memorydb_ValidateOffering env rec s = validated (memorydb_findOfferingID env rec s)"

definition memorydb_GetExistingCommitments :: "'w keyed_env \<Rightarrow> 'w keyed_state \<Rightarrow> (go_error + Commitment list) \<times> 'w keyed_state" where
  "memorydb_GetExistingCommitments env = keyed_listing ''MemoryDB reserved nodes (issue #556)'' ''reserved nodes''
     (keyed_commitment ServiceMemoryDB (\<lambda>r. ''redis'') (\<lambda>r. []) env) env maxListPages None"

definition memorydb_GetValidResourceTypes :: "'w keyed_env \<Rightarrow> 'w keyed_state \<Rightarrow> (go_error + go_string list) \<times> 'w keyed_state" where
  "memorydb_GetValidResourceTypes env s = sorted_types (keyed_types ''MemoryDB offerings (issue #556)'' ''MemoryDB'' env maxListPages None s)"

end
