(* ===== verification/Aws_Keyed_Run.thy ===== *)
theory Aws_Keyed_Run
  imports Aws_Rds
begin

text \<open>
  What a purchase of a reservation with a chosen ID may do, call by call. \<open>k_run\<close> is the step relation of the
  calls; the locale \<open>keyed_client\<close> is what a client has to provide (its search and its price check only read
  offerings, its reservation ID follows from the token alone) and is interpreted on the three clients.
\<close>

section \<open>Runs\<close>

inductive k_step :: "'w keyed_env \<Rightarrow> 'w \<Rightarrow> keyed_event \<Rightarrow> 'w \<Rightarrow> bool" for env where
  k_step_offerings: "ke_Offerings env q w = (r, w') \<Longrightarrow> k_step env w (KOfferings q r) w'"
| k_step_reservations: "ke_Reservations env v w = (a, w') \<Longrightarrow> k_step env w (KReservations v a) w'"
| k_step_purchase: "ke_Purchase env p os w = (b, w') \<Longrightarrow> k_step env w (KPurchase p os b) w'"

inductive_simps k_step_simps: "k_step env w (KOfferings q r) w'" "k_step env w (KReservations v a) w'" "k_step env w (KPurchase p os b) w'"

inductive k_run :: "'w keyed_env \<Rightarrow> 'w \<Rightarrow> keyed_event list \<Rightarrow> 'w \<Rightarrow> bool" for env where
  k_done: "k_run env w [] w"
| k_more: "k_step env w ev w1 \<Longrightarrow> k_run env w1 evs w2 \<Longrightarrow> k_run env w (ev # evs) w2"

inductive_simps k_run_simps [simp]: "k_run env w [] w2" "k_run env w (ev # evs) w2"

lemma k_run_append: "k_run env w (xs @ ys) w2 \<longleftrightarrow> (\<exists>w1. k_run env w xs w1 \<and> k_run env w1 ys w2)"
  by (induction xs arbitrary: w) auto

definition k_ran :: "'w keyed_env \<Rightarrow> 'w keyed_state \<Rightarrow> keyed_event list \<Rightarrow> 'w keyed_state \<Rightarrow> bool" where
  "k_ran env s evs s' \<longleftrightarrow> ks_log s' = ks_log s @ evs \<and> k_run env (ks_world s) evs (ks_world s')"

lemma k_ran_refl [intro, simp]: "k_ran env s [] s" by (simp add: k_ran_def)

lemma k_ran_trans [trans]: "k_ran env s xs s1 \<Longrightarrow> k_ran env s1 ys s2 \<Longrightarrow> k_ran env s (xs @ ys) s2"
  by (auto simp: k_ran_def k_run_append)

lemma k_logged_ran: "k_step env (ks_world s) ev w \<Longrightarrow> k_ran env s [ev] (k_logged s ev w)"
  by (simp add: k_ran_def k_logged_def)

lemma k_offerings_ran: "k_offerings env q s = (r, s1) \<Longrightarrow> k_ran env s [KOfferings q r] s1"
  by (auto simp: k_offerings_def intro!: k_logged_ran k_step_offerings split: prod.splits)

lemma k_reservations_ran: "k_reservations env q s = (r, s1) \<Longrightarrow> k_ran env s [KReservations q r] s1"
  by (auto simp: k_reservations_def intro!: k_logged_ran k_step_reservations split: prod.splits)

lemma k_purchase_ran: "k_purchase env p os s = (r, s1) \<Longrightarrow> k_ran env s [KPurchase p os r] s1"
  by (auto simp: k_purchase_def intro!: k_logged_ran k_step_purchase split: prod.splits)

fun is_offering :: "keyed_event \<Rightarrow> bool" where
  "is_offering (KOfferings q r) = True"
| "is_offering ev = False"

fun is_purchase :: "keyed_event \<Rightarrow> bool" where
  "is_purchase (KPurchase p os b) = True"
| "is_purchase ev = False"

lemma offerings_no_purchase: "list_all is_offering evs \<Longrightarrow> ev \<in> set evs \<Longrightarrow> \<not> is_purchase ev"
  by (cases ev) (auto simp: list_all_iff)

section \<open>What a client provides\<close>

locale keyed_client =
  fixes sv :: "'w keyed_service" and prefix :: go_string
  assumes find_offers: "\<And>env rec s r s'. sv_find sv env rec s = (r, s') \<Longrightarrow> \<exists>evs. k_ran env s evs s' \<and> list_all is_offering evs"
    and check_offers: "\<And>env rec i s r s'. sv_check sv env rec i s = (r, s') \<Longrightarrow> \<exists>evs. k_ran env s evs s' \<and> list_all is_offering evs"
    and id_of_token: "\<And>env rec opts. o_IdempotencyToken opts \<noteq> [] \<Longrightarrow>
      sv_reservation_id sv env rec opts = IdempotentReservationID 0 prefix (o_IdempotencyToken opts)"

section \<open>What a purchase may do\<close>

definition by_id :: "go_string \<Rightarrow> reservations_query" where
  "by_id i = \<lparr>kw_Id = Some i, kw_Max = None, kw_Marker = None\<rparr>"

definition absent :: "'w keyed_env \<Rightarrow> go_error + KeyedReservation keyed_page \<Rightarrow> bool" where
  "absent env r \<longleftrightarrow> (case r of Inl e \<Rightarrow> ke_NotFound env e | Inr page \<Rightarrow> first_owned (pg_Items page) = None)"

text \<open>\<open>looked_up\<close>: with a token, one lookup of the ID, which found no owned reservation.\<close>

definition looked_up :: "'w keyed_env \<Rightarrow> go_string \<Rightarrow> go_string \<Rightarrow> keyed_event list \<Rightarrow> bool" where
  "looked_up env token i evs \<longleftrightarrow> (if token = [] then evs = [] else (\<exists>r. evs = [KReservations (by_id i) r] \<and> absent env r))"

definition owned_seen :: "go_string \<Rightarrow> go_string \<Rightarrow> keyed_event list \<Rightarrow> bool" where
  "owned_seen i j evs \<longleftrightarrow> (\<exists>page. evs = [KReservations (by_id i) (Inr page)] \<and> first_owned (pg_Items page) = Some j)"

definition answered_result :: "'w keyed_service \<Rightarrow> PurchaseResult \<Rightarrow> KeyedReservation \<Rightarrow> PurchaseResult" where
  "answered_result sv res r = res\<lparr>pr_Success := True, pr_CommitmentID := ToString (kr_Id r), pr_Cost := sv_total sv r\<rparr>"

definition keyed_answer :: "'w keyed_service \<Rightarrow> 'w keyed_env \<Rightarrow> PurchaseResult \<Rightarrow> go_string \<Rightarrow> go_string
    \<Rightarrow> go_error + KeyedReservation option \<Rightarrow> PurchaseResult \<times> go_error option \<Rightarrow> keyed_event list \<Rightarrow> bool" where
  "keyed_answer sv env res token i response out evs \<longleftrightarrow> (case response of
     Inr (Some r) \<Rightarrow> evs = [] \<and> out = (answered_result sv res r, None)
   | Inr None \<Rightarrow> evs = [] \<and> out = with_error res (UnknownUnlessToken token (errorf ''purchase response was empty'' []))
   | Inl e \<Rightarrow> token \<noteq> [] \<and> ke_AlreadyExists env e \<and> (\<exists>j. owned_seen i j evs \<and> out = existing res j)
       \<or> (evs = [] \<or> token \<noteq> [] \<and> ke_AlreadyExists env e \<and> (\<exists>r. evs = [KReservations (by_id i) r]))
         \<and> (let e1 = ClassifyUnlessToken (ke_throttled env) token e in \<exists>f. out = with_error res (wrapf f [ArgS (err_text e1)] [e1])))"

definition keyed_refused :: "'w keyed_env \<Rightarrow> Recommendation \<Rightarrow> PurchaseResult \<times> go_error option \<Rightarrow> keyed_event list \<Rightarrow> bool" where
  "keyed_refused env rec out evs \<longleftrightarrow> (\<exists>e. out = with_error (new_result rec (ke_Now env)) e) \<and> list_all (\<lambda>ev. \<not> is_purchase ev) evs"

definition keyed_found :: "'w keyed_env \<Rightarrow> Recommendation \<Rightarrow> go_string \<Rightarrow> go_string \<Rightarrow> PurchaseResult \<times> go_error option \<Rightarrow> keyed_event list \<Rightarrow> bool" where
  "keyed_found env rec token i out evs \<longleftrightarrow> token \<noteq> [] \<and> (\<exists>fs gs j. evs = fs @ gs \<and> list_all is_offering fs \<and> owned_seen i j gs
     \<and> out = existing (new_result rec (ke_Now env)) j)"

definition keyed_sent :: "'w keyed_service \<Rightarrow> 'w keyed_env \<Rightarrow> Recommendation \<Rightarrow> PurchaseOptions \<Rightarrow> go_string \<Rightarrow> PurchaseResult \<times> go_error option
    \<Rightarrow> keyed_event list \<Rightarrow> bool" where
  "keyed_sent sv env rec opts i out evs \<longleftrightarrow> (\<exists>fs gs cs p response rs. evs = fs @ gs @ cs @ KPurchase p (SingleAttemptIf (o_IdempotencyToken opts) (RetryMaxAttempts 1)) response # rs
     \<and> list_all is_offering fs \<and> looked_up env (o_IdempotencyToken opts) i gs \<and> list_all is_offering cs
     \<and> PurchaseCount (r_Count rec) = Inr (kp_Count p) \<and> kp_ReservationId p = i
     \<and> (\<exists>s s'. sv_find sv env rec s = (Inr (kp_OfferingId p), s') \<and> k_ran env s fs s')
     \<and> (\<exists>s s'. sv_check sv env rec (kp_OfferingId p) s = (None, s') \<and> k_ran env s cs s')
     \<and> keyed_answer sv env (new_result rec (ke_Now env)) (o_IdempotencyToken opts) i response out rs)"

definition keyed_spec :: "'w keyed_service \<Rightarrow> 'w keyed_env \<Rightarrow> Recommendation \<Rightarrow> PurchaseOptions \<Rightarrow> PurchaseResult \<times> go_error option
    \<Rightarrow> keyed_event list \<Rightarrow> bool" where
  "keyed_spec sv env rec opts out evs \<longleftrightarrow> (let i = sv_reservation_id sv env rec opts in
     keyed_refused env rec out evs \<or> keyed_found env rec (o_IdempotencyToken opts) i out evs \<or> keyed_sent sv env rec opts i out evs)"

section \<open>The purchase does no more\<close>

lemma findReservationByID_ran:
  assumes "findReservationByID what env i s = (r, s')"
  shows "\<exists>a. k_ran env s [KReservations (by_id i) a] s'
     \<and> (\<forall>j. r = Inr (Some j) \<longrightarrow> owned_seen i j [KReservations (by_id i) a]) \<and> (r = Inr None \<longrightarrow> absent env a)"
proof -
  obtain a s1 where c: "k_reservations env (by_id i) s = (a, s1)" by (cases "k_reservations env (by_id i) s")
  then have "s' = s1" using assms by (auto simp: findReservationByID_def by_id_def split: sum.splits if_splits)
  moreover have "r = Inr None \<longrightarrow> absent env a" and "\<forall>j. r = Inr (Some j) \<longrightarrow> owned_seen i j [KReservations (by_id i) a]"
    using assms c by (auto simp: findReservationByID_def by_id_def absent_def owned_seen_def split: sum.splits if_splits)
  ultimately show ?thesis using k_reservations_ran [OF c] by blast
qed

lemma Guard_keyed:
  assumes "Guard token label (findReservationByID what env i) s = (r, s')"
  shows "\<exists>gs. k_ran env s gs s' \<and> list_all (\<lambda>ev. \<not> is_purchase ev) gs \<and> (r = Inr None \<longrightarrow> looked_up env token i gs)
     \<and> (\<forall>j. r = Inr (Some j) \<longrightarrow> token \<noteq> [] \<and> owned_seen i j gs)"
proof (cases "token = []")
  case True
  with assms show ?thesis by (auto simp: Guard_def looked_up_def intro!: exI [of _ "[]"])
next
  case False
  obtain r1 s1 where f: "findReservationByID what env i s = (r1, s1)" by (cases "findReservationByID what env i s")
  from findReservationByID_ran [OF this] obtain a where a: "k_ran env s [KReservations (by_id i) a] s1"
      "\<forall>j. r1 = Inr (Some j) \<longrightarrow> owned_seen i j [KReservations (by_id i) a]" "r1 = Inr None \<longrightarrow> absent env a" by blast
  have "s1 = s'" and "r = Inr x \<Longrightarrow> r1 = Inr x" for x using assms False f by (auto simp: Guard_def split: sum.splits)
  with a False show ?thesis by (intro exI [of _ "[KReservations (by_id i) a]"]) (auto simp: looked_up_def)
qed

lemma Recover_keyed:
  assumes "Recover already token e (findReservationByID what env i) s = (r, s')"
  shows "\<exists>rs. k_ran env s rs s' \<and> (\<forall>j. r = Some j \<longrightarrow> token \<noteq> [] \<and> already e \<and> owned_seen i j rs)
     \<and> (rs = [] \<or> token \<noteq> [] \<and> already e \<and> (\<exists>a. rs = [KReservations (by_id i) a]))"
proof (cases "token \<noteq> [] \<and> already e")
  case False
  with assms show ?thesis by (auto simp: Recover_def split: if_splits intro!: exI [of _ "[]"])
next
  case True
  obtain r1 s1 where f: "findReservationByID what env i s = (r1, s1)" by (cases "findReservationByID what env i s")
  from findReservationByID_ran [OF this] obtain a where a: "k_ran env s [KReservations (by_id i) a] s1"
      "\<forall>j. r1 = Inr (Some j) \<longrightarrow> owned_seen i j [KReservations (by_id i) a]" by blast
  have "s1 = s'" and "r = Some j \<Longrightarrow> r1 = Inr (Some j)" for j using assms True f by (auto simp: Recover_def split: sum.splits option.splits)
  with a True show ?thesis by (intro exI [of _ "[KReservations (by_id i) a]"]) auto
qed

lemma after_purchase_ran:
  assumes "after_purchase sv env res token i response s = (out, s')"
  shows "\<exists>rs. k_ran env s rs s' \<and> keyed_answer sv env res token i response out rs"
proof (cases response)
  case (Inl e)
  obtain r s1 where rec: "Recover (ke_AlreadyExists env) token e (findReservationByID (sv_what sv) env i) s = (r, s1)"
    by (cases "Recover (ke_AlreadyExists env) token e (findReservationByID (sv_what sv) env i) s")
  from Recover_keyed [OF this] obtain rs where rs: "k_ran env s rs s1" "\<forall>j. r = Some j \<longrightarrow> token \<noteq> [] \<and> ke_AlreadyExists env e \<and> owned_seen i j rs"
     "rs = [] \<or> token \<noteq> [] \<and> ke_AlreadyExists env e \<and> (\<exists>a. rs = [KReservations (by_id i) a])" by blast
  have "s' = s1" using assms Inl rec by (auto simp: after_purchase_def Let_def split: option.splits)
  moreover have "keyed_answer sv env res token i response out rs"
    using assms Inl rec rs(2,3) by (cases r) (auto simp: after_purchase_def keyed_answer_def Let_def)
  ultimately show ?thesis using rs(1) by blast
next
  case (Inr x)
  with assms show ?thesis
    by (cases x) (auto simp: after_purchase_def keyed_answer_def answered_result_def)
qed

context keyed_client begin

lemma keyed_purchase_run:
  assumes "keyed_purchase sv env rec cnt opts s = (out, s')" and "PurchaseCount (r_Count rec) = Inr cnt"
  shows "\<exists>evs. k_ran env s evs s' \<and> keyed_spec sv env rec opts out evs"
proof -
  let ?i = "sv_reservation_id sv env rec opts" and ?res = "new_result rec (ke_Now env)" and ?tok = "o_IdempotencyToken opts"
  obtain f s1 where f: "sv_find sv env rec s = (f, s1)" by (cases "sv_find sv env rec s")
  obtain fs where fs: "k_ran env s fs s1" "list_all is_offering fs" using find_offers [OF f] by blast
  have quiet: "list_all (\<lambda>ev. \<not> is_purchase ev) fs" using offerings_no_purchase [OF fs(2)] by (simp add: list_all_iff)
  show ?thesis
  proof (cases f)
    case (Inl e)
    with assms f have "s' = s1" "\<exists>e. out = with_error ?res e" by (auto simp: keyed_purchase_def Let_def)
    with fs quiet show ?thesis by (auto simp: keyed_spec_def keyed_refused_def Let_def)
  next
    case (Inr off)
    obtain g s2 where g: "Guard ?tok (sv_label sv) (findReservationByID (sv_what sv) env ?i) s1 = (g, s2)"
      by (cases "Guard ?tok (sv_label sv) (findReservationByID (sv_what sv) env ?i) s1")
    from Guard_keyed [OF this] obtain gs where gs: "k_ran env s1 gs s2" "list_all (\<lambda>ev. \<not> is_purchase ev) gs"
      "g = Inr None \<longrightarrow> looked_up env ?tok ?i gs" "\<forall>j. g = Inr (Some j) \<longrightarrow> ?tok \<noteq> [] \<and> owned_seen ?i j gs" by blast
    note fgs = k_ran_trans [OF fs(1) gs(1)]
    consider (stop) e where "g = Inl e" | (seen) j where "g = Inr (Some j)" | (go) "g = Inr None" by (cases g) auto
    then show ?thesis
    proof cases
      case stop
      with assms f Inr g have "s' = s2" "out = with_error ?res e" by (auto simp: keyed_purchase_def Let_def)
      with fgs quiet gs(2) show ?thesis by (auto simp: keyed_spec_def keyed_refused_def Let_def)
    next
      case seen
      with assms f Inr g have "s' = s2" "out = existing ?res j" by (auto simp: keyed_purchase_def Let_def)
      with fgs fs(2) gs(4) seen show ?thesis unfolding keyed_spec_def keyed_found_def Let_def by blast
    next
      case go
      obtain c s3 where c: "sv_check sv env rec off s2 = (c, s3)" by (cases "sv_check sv env rec off s2")
      obtain cs where cs: "k_ran env s2 cs s3" "list_all is_offering cs" using check_offers [OF c] by blast
      note fcs = k_ran_trans [OF fgs cs(1)]
      have cquiet: "list_all (\<lambda>ev. \<not> is_purchase ev) cs" using offerings_no_purchase [OF cs(2)] by (simp add: list_all_iff)
      show ?thesis
      proof (cases c)
        case (Some e)
        with assms f Inr g go c have "s' = s3" "\<exists>e. out = with_error ?res e" by (auto simp: keyed_purchase_def Let_def)
        with fcs quiet gs(2) cquiet show ?thesis by (intro exI [of _ "(fs @ gs) @ cs"]) (auto simp: keyed_spec_def keyed_refused_def Let_def)
      next
        case None
        define p where "p = \<lparr>kp_OfferingId = off, kp_ReservationId = ?i, kp_Count = cnt, kp_Tags = sv_tags sv env rec (o_Source opts)\<rparr>"
        let ?os = "SingleAttemptIf ?tok (RetryMaxAttempts 1)"
        obtain b s4 where b: "k_purchase env p ?os s3 = (b, s4)" by (cases "k_purchase env p ?os s3")
        have "after_purchase sv env ?res ?tok ?i b s4 = (out, s')"
          using assms(1) f Inr g go c None b by (simp add: keyed_purchase_def Let_def p_def)
        from after_purchase_ran [OF this] obtain rs where rs: "k_ran env s4 rs s'" "keyed_answer sv env ?res ?tok ?i b out rs" by blast
        from k_ran_trans [OF k_ran_trans [OF fcs k_purchase_ran [OF b]] rs(1)]
        have "k_ran env s (fs @ gs @ cs @ KPurchase p ?os b # rs) s'" by simp
        moreover have "keyed_sent sv env rec opts ?i out (fs @ gs @ cs @ KPurchase p ?os b # rs)"
          unfolding keyed_sent_def
          by (intro exI [of _ fs] exI [of _ gs] exI [of _ cs] exI [of _ p] exI [of _ b] exI [of _ rs])
            (use fs gs(3) go cs rs(2) assms(2) f Inr c None in \<open>auto simp: p_def\<close>)
        ultimately show ?thesis unfolding keyed_spec_def Let_def by blast
      qed
    qed
  qed
qed

lemma commitment_run:
  assumes "keyed_PurchaseCommitment sv env rec opts s = (out, s')"
  shows "\<exists>evs. k_ran env s evs s' \<and> keyed_spec sv env rec opts out evs"
proof (cases "PurchaseCount (r_Count rec)")
  case (Inl e)
  with assms have "s' = s" "keyed_refused env rec out []" by (auto simp: keyed_PurchaseCommitment_def keyed_refused_def)
  then show ?thesis by (intro exI [of _ "[]"]) (simp add: keyed_spec_def Let_def)
next
  case (Inr cnt)
  with assms show ?thesis using keyed_purchase_run [of env rec cnt opts s out s'] by (simp add: keyed_PurchaseCommitment_def)
qed

end

end
