(* ===== verification/Aws_Keyed_Once.thy ===== *)
theory Aws_Keyed_Once
  imports Aws_Keyed_Run
begin

text \<open>
  The RDS, ElastiCache and MemoryDB clients provide \<open>keyed_client\<close>; from that follow what their purchases
  guarantee: one reservation per token over any re-drives, results that say what the answers said, no purchase
  above the approved upfront, and an RDS offering that is the only match of the whole catalog.
\<close>

section \<open>IDs\<close>

lemma collapse_keeps_head: "c \<noteq> CHR ''-'' \<Longrightarrow> \<exists>t. collapse (c # s) = c # t"
proof (induction "length s" arbitrary: s rule: less_induct)
  case less
  show ?case
  proof (cases "has_double (c # s)")
    case False
    then show ?thesis by (subst collapse.simps) simp
  next
    case True
    then obtain b r where s: "s = b # r" using less.prems by (cases s) auto
    then have d: "has_double s" using True less.prems by simp
    have "collapse (c # s) = collapse (c # replace_double s)" using True less.prems s by (subst collapse.simps) simp
    with less.hyps [OF replace_double_less [OF d] less.prems] show ?thesis by simp
  qed
qed

lemma sanitize_keeps_head:
  assumes "isAllowedIDChar c" and "c \<noteq> CHR ''-''"
  shows "SanitizeReservationID unix (c # s) pre = SanitizeReservationID 0 (c # s) pre" and "SanitizeReservationID unix (c # s) pre \<noteq> []"
proof -
  obtain t where t: "collapse (id_chars (c # s)) = c # t" using collapse_keeps_head [OF assms(2)] assms(1) by auto
  have d: "dropWhile (\<lambda>x. x = CHR ''-'') (c # t) = c # t" using assms(2) by simp
  have ne: "trim_char CHR ''-'' (c # t) \<noteq> []" unfolding trim_char_def d using assms(2) by (auto simp: trim_right_char_def dropWhile_eq_Nil_conv)
  show "SanitizeReservationID unix (c # s) pre = SanitizeReservationID 0 (c # s) pre" and "SanitizeReservationID unix (c # s) pre \<noteq> []"
    using ne unfolding SanitizeReservationID_def t Let_def by simp_all
qed

lemma token_id_timeless:
  assumes "isAllowedIDChar c" and "c \<noteq> CHR ''-''" and "token \<noteq> []"
  shows "IdempotentReservationID unix (c # pre) token = IdempotentReservationID 0 (c # pre) token" and "IdempotentReservationID unix (c # pre) token \<noteq> []"
  using assms sanitize_keeps_head [OF assms(1,2)] by (simp_all add: IdempotentReservationID_def)

lemma letters_allowed: "isAllowedIDChar CHR ''r''" "isAllowedIDChar CHR ''e''" "isAllowedIDChar CHR ''m''"
  by (simp_all add: isAllowedIDChar_def)

section \<open>Walks over offerings\<close>

definition offers_seen :: "keyed_event list \<Rightarrow> KeyedOffering set" where
  "offers_seen evs = {off. \<exists>q page. KOfferings q (Inr page) \<in> set evs \<and> off \<in> set (pg_Items page)}"

lemma offers_seen_simps [simp]:
  "offers_seen [] = {}" "offers_seen (KOfferings q (Inr page) # evs) = set (pg_Items page) \<union> offers_seen evs"
  by (auto simp: offers_seen_def)

text \<open>The pages of one listing, each asked for with the marker of the one before, to the last.\<close>

fun complete_pages :: "offerings_query \<Rightarrow> go_string option \<Rightarrow> keyed_event list \<Rightarrow> bool" where
  "complete_pages base m (KOfferings q (Inr page) # evs) \<longleftrightarrow> q = base\<lparr>kq_Marker := m\<rparr>
     \<and> (if ToString (pg_Marker page) = [] then evs = [] else complete_pages base (pg_Marker page) evs)"
| "complete_pages base m evs = False"

lemma pick_Inr:
  "pickOfferingID found i want = Inr f \<longleftrightarrow> (i = [] \<or> found = [] \<or> i = found) \<and> f = (if found = [] then i else found)"
  by (auto simp: pickOfferingID_def)

lemma rds_scan_unique:
  "rds_scan found offs want = Inr f \<Longrightarrow> (found \<noteq> [] \<longrightarrow> f = found) \<and> (\<forall>off \<in> set offs. rds_matches want off \<longrightarrow> ToString (ko_OfferingId off) \<in> {[], f})
     \<and> (f = found \<or> (\<exists>off \<in> set offs. rds_matches want off \<and> ToString (ko_OfferingId off) = f))"
proof (induction found offs want rule: rds_scan.induct)
  case (2 found off offs want)
  show ?case
  proof (cases "rds_matches want off")
    case False
    with 2 show ?thesis by auto
  next
    case True
    with 2(3) obtain f1 where f1: "pickOfferingID found (ToString (ko_OfferingId off)) want = Inr f1" and rest: "rds_scan f1 offs want = Inr f"
      by (auto split: sum.splits)
    from 2(2) [OF _ f1 rest] True f1 show ?thesis by (auto simp: pick_Inr split: if_splits)
  qed
qed auto

definition unique_match :: "rdsOfferingKey \<Rightarrow> go_string \<Rightarrow> KeyedOffering set \<Rightarrow> bool" where
  "unique_match want i offs \<longleftrightarrow> (\<forall>off \<in> offs. rds_matches want off \<longrightarrow> ToString (ko_OfferingId off) \<in> {[], i})"

lemma rds_walk_ran:
  "rds_walk env want desc base fuel page found marker s = (r, s') \<Longrightarrow>
    \<exists>evs. k_ran env s evs s' \<and> list_all is_offering evs \<and> length evs \<le> fuel
      \<and> (\<forall>i. r = Inr i \<longrightarrow> i \<noteq> [] \<and> complete_pages base marker evs \<and> (found \<noteq> [] \<longrightarrow> i = found) \<and> unique_match want i (offers_seen evs)
         \<and> (i = found \<or> (\<exists>off \<in> offers_seen evs. rds_matches want off \<and> ToString (ko_OfferingId off) = i)))"
proof (induction fuel arbitrary: page found marker s)
  case 0
  then show ?case by (subst (asm) rds_walk.simps) (auto split: option.splits)
next
  case (Suc n)
  let ?q = "base\<lparr>kq_Marker := marker\<rparr>"
  obtain a s1 where c: "k_offerings env ?q s = (a, s1)" by (cases "k_offerings env ?q s")
  note run = k_offerings_ran [OF c]
  show ?case
  proof (cases "ke_Err env (ks_world s)")
    case (Some e)
    with Suc.prems show ?thesis by (subst (asm) rds_walk.simps) (auto intro!: exI [of _ "[]"])
  next
    case None
    show ?thesis
    proof (cases "\<exists>out i f. a = Inr out \<and> scanRDSOfferingPage (pg_Items out) want = Inr i \<and> pickOfferingID found i want = Inr f")
      case False
      with Suc.prems None c run show ?thesis
        by (subst (asm) rds_walk.simps) (auto split: sum.splits intro!: exI [of _ "[KOfferings ?q a]"])
    next
      case True
      then obtain out i f where a: "a = Inr out" and i: "scanRDSOfferingPage (pg_Items out) want = Inr i" and f: "pickOfferingID found i want = Inr f" by blast
      have page: "unique_match want i (set (pg_Items out))" "i = [] \<or> (\<exists>off \<in> set (pg_Items out). rds_matches want off \<and> ToString (ko_OfferingId off) = i)"
        using rds_scan_unique [of "[]" "pg_Items out" want i] i by (auto simp: scanRDSOfferingPage_def unique_match_def)
      show ?thesis
      proof (cases "ToString (pg_Marker out) = []")
        case True
        with Suc.prems None c a i f have e: "s' = s1" "\<forall>j. r = Inr j \<longrightarrow> j = f \<and> f \<noteq> []"
          by (subst (asm) rds_walk.simps; auto split: if_splits)+
        show ?thesis using run e True a f page
          by (intro exI [of _ "[KOfferings ?q a]"]) (auto simp: pick_Inr unique_match_def split: if_splits)
      next
        case False
        with Suc.prems None c a i f have "rds_walk env want desc base n (page + 1) f (pg_Marker out) s1 = (r, s')"
          by (subst (asm) rds_walk.simps) auto
        from Suc.IH [OF this] obtain evs where evs: "k_ran env s1 evs s'" "list_all is_offering evs" "length evs \<le> n"
          "\<forall>j. r = Inr j \<longrightarrow> j \<noteq> [] \<and> complete_pages base (pg_Marker out) evs \<and> (f \<noteq> [] \<longrightarrow> j = f) \<and> unique_match want j (offers_seen evs)
             \<and> (j = f \<or> (\<exists>off \<in> offers_seen evs. rds_matches want off \<and> ToString (ko_OfferingId off) = j))" by blast
        have "k_ran env s (KOfferings ?q a # evs) s'" using k_ran_trans [OF run evs(1)] by simp
        then show ?thesis using evs(2-4) a f page False
          by (intro exI [of _ "KOfferings ?q a # evs"]) (auto simp: pick_Inr unique_match_def split: if_splits)
      qed
    qed
  qed
qed

lemma first_match_walk_ran:
  "first_match_walk env scan desc base fuel page marker s = (r, s') \<Longrightarrow> \<exists>evs. k_ran env s evs s' \<and> list_all is_offering evs \<and> length evs \<le> fuel"
proof (induction fuel arbitrary: page marker s)
  case 0
  then show ?case by (subst (asm) first_match_walk.simps) (auto split: option.splits)
next
  case (Suc n)
  let ?q = "base\<lparr>kq_Marker := marker\<rparr>"
  obtain a s1 where c: "k_offerings env ?q s = (a, s1)" by (cases "k_offerings env ?q s")
  note run = k_offerings_ran [OF c]
  from Suc.prems c consider "s' = s" | "s' = s1" | out where "a = Inr out" "first_match_walk env scan desc base n (page + 1) (pg_Marker out) s1 = (r, s')"
    by (subst (asm) first_match_walk.simps) (auto split: option.splits sum.splits if_splits)
  then show ?case
  proof cases
    case 1
    then show ?thesis by (auto intro!: exI [of _ "[]"])
  next
    case 2
    with run show ?thesis by (auto intro!: exI [of _ "[KOfferings ?q a]"])
  next
    case 3
    from Suc.IH [OF this(2)] obtain evs where "k_ran env s1 evs s'" "list_all is_offering evs" "length evs \<le> n" by blast
    with k_ran_trans [OF run this(1)] show ?thesis by (intro exI [of _ "KOfferings ?q a # evs"]) auto
  qed
qed

lemma upfront_check_ran:
  assumes "upfront_check service check env rec i s = (r, s')"
  shows "\<exists>evs. k_ran env s evs s' \<and> list_all is_offering evs
     \<and> (r = None \<longrightarrow> NoUpfrontApproved (r_CommitmentCost rec) \<or> (\<exists>page off. evs = [KOfferings (no_query\<lparr>kq_OfferingId := Some i\<rparr>) (Inr page)]
         \<and> pg_Items page = [off] \<and> check off = None \<and> (r_CommitmentCurrency rec = [] \<or> equal_fold (r_CommitmentCurrency rec) ''USD'')))"
proof -
  let ?q = "no_query\<lparr>kq_OfferingId := Some i\<rparr>"
  obtain a s1 where c: "k_offerings env ?q s = (a, s1)" by (cases "k_offerings env ?q s")
  show ?thesis
  proof (cases "NoUpfrontApproved (r_CommitmentCost rec) \<or> r_CommitmentCurrency rec \<noteq> [] \<and> \<not> equal_fold (r_CommitmentCurrency rec) ''USD''")
    case True
    with assms show ?thesis by (auto simp: upfront_check_def Let_def split: if_splits intro!: exI [of _ "[]"])
  next
    case False
    with assms c have "s' = s1" by (auto simp: upfront_check_def Let_def split: sum.splits list.splits)
    moreover have "\<exists>page off. a = Inr page \<and> pg_Items page = [off] \<and> check off = None" if "r = None"
      using assms c False that by (auto simp: upfront_check_def Let_def split: sum.splits list.splits)
    ultimately show ?thesis using k_offerings_ran [OF c] False by (intro exI [of _ "[KOfferings ?q a]"]) auto
  qed
qed

section \<open>The three clients\<close>

lemma rds_find_ran:
  assumes "rds_findOfferingID env rec s = (r, s')"
  shows "\<exists>evs. k_ran env s evs s' \<and> list_all is_offering evs \<and> length evs \<le> maxOfferingPages
     \<and> (\<forall>i. r = Inr i \<longrightarrow> (\<exists>details t want base. r_Details rec = Some (DatabaseD (ByPtr (Some details))) \<and> dd_AZConfig details \<in> {''single-az'', ''multi-az''}
         \<and> convertPaymentOption ''unsupported payment option: %s'' (r_PaymentOption rec) = Inr t \<and> rds_want rec details t = Inr (want, base) \<and> i \<noteq> [] \<and> complete_pages base None evs \<and> unique_match want i (offers_seen evs)
         \<and> (\<exists>off \<in> offers_seen evs. rds_matches want off \<and> ToString (ko_OfferingId off) = i)))"
proof (cases "\<exists>details t want base. r_Details rec = Some (DatabaseD (ByPtr (Some details))) \<and> dd_AZConfig details \<in> {''single-az'', ''multi-az''}
    \<and> convertPaymentOption ''unsupported payment option: %s'' (r_PaymentOption rec) = Inr t \<and> rds_want rec details t = Inr (want, base) \<and> rds_walk env want (rds_desc rec details) base maxOfferingPages 1 [] None s = (r, s')")
  case True
  then obtain details t want base where d: "r_Details rec = Some (DatabaseD (ByPtr (Some details)))" "dd_AZConfig details \<in> {''single-az'', ''multi-az''}"
    "convertPaymentOption ''unsupported payment option: %s'' (r_PaymentOption rec) = Inr t" "rds_want rec details t = Inr (want, base)" and w: "rds_walk env want (rds_desc rec details) base maxOfferingPages 1 [] None s = (r, s')" by blast
  from rds_walk_ran [OF w] d show ?thesis by blast
next
  case False
  with assms have "s' = s" "\<exists>e. r = Inl e"
    by (auto simp: rds_findOfferingID_def split: option.splits ServiceDetails.splits held.splits sum.splits if_splits)
  then show ?thesis by (auto intro!: exI [of _ "[]"])
qed

lemma elasticache_find_ran:
  assumes "elasticache_findOfferingID env rec s = (r, s')"
  shows "\<exists>evs. k_ran env s evs s' \<and> list_all is_offering evs"
proof (cases "\<exists>scan desc base. first_match_walk env scan desc base maxOfferingPages 0 None s = (r, s')")
  case True
  then show ?thesis using first_match_walk_ran by blast
next
  case False
  then have "s' = s" using assms
    by (auto simp: elasticache_findOfferingID_def Let_def split: option.splits ServiceDetails.splits held.splits sum.splits if_splits)
  then show ?thesis by (auto intro!: exI [of _ "[]"])
qed

lemma memorydb_find_ran:
  assumes "memorydb_findOfferingID env rec s = (r, s')"
  shows "\<exists>evs. k_ran env s evs s' \<and> list_all is_offering evs"
proof (cases "\<exists>scan desc base. first_match_walk env scan desc base maxOfferingPages 0 None s = (r, s')")
  case True
  then show ?thesis using first_match_walk_ran by blast
next
  case False
  then have "s' = s" using assms by (auto simp: memorydb_findOfferingID_def split: sum.splits)
  then show ?thesis by (auto intro!: exI [of _ "[]"])
qed

lemma deriveReservationID_token:
  "o_IdempotencyToken opts \<noteq> [] \<Longrightarrow> deriveReservationID env rec opts = IdempotentReservationID 0 ''rds-id-'' (o_IdempotencyToken opts)"
  using token_id_timeless [OF letters_allowed(1), of "o_IdempotencyToken opts" "ke_Unix env" "''ds-id-''"]
  by (simp add: deriveReservationID_def Let_def)

lemma token_or_name_token:
  assumes "o_IdempotencyToken opts \<noteq> []" and "isAllowedIDChar c" and "c \<noteq> CHR ''-''"
  shows "token_or_name (c # prefix) service fallback env rec opts = IdempotentReservationID 0 (c # prefix) (o_IdempotencyToken opts)"
  using token_id_timeless [OF assms(2,3,1), of "ke_Unix env" prefix] by (simp add: token_or_name_def Let_def)

interpretation rds_buy: keyed_client rds_service "''rds-id-''"
proof (unfold_locales, goal_cases)
  case 1
  then show ?case using rds_find_ran by (simp add: rds_service_def) blast
next
  case 2
  then show ?case using upfront_check_ran by (simp add: rds_service_def rds_checkApprovedUpfront_def) blast
next
  case 3
  then show ?case by (simp add: rds_service_def deriveReservationID_token)
qed

interpretation cache_buy: keyed_client elasticache_service "''elasticache-id-''"
proof (unfold_locales, goal_cases)
  case 1
  then show ?case using elasticache_find_ran by (simp add: elasticache_service_def) blast
next
  case 2
  then show ?case by (auto simp: elasticache_service_def intro!: exI [of _ "[]"])
next
  case 3
  then show ?case using letters_allowed by (simp add: elasticache_service_def token_or_name_token)
qed

interpretation memdb_buy: keyed_client memorydb_service "''memorydb-id-''"
proof (unfold_locales, goal_cases)
  case 1
  then show ?case using memorydb_find_ran by (simp add: memorydb_service_def) blast
next
  case 2
  then show ?case using upfront_check_ran by (simp add: memorydb_service_def memorydb_checkApprovedUpfront_def) blast
next
  case 3
  then show ?case using letters_allowed by (simp add: memorydb_service_def token_or_name_token)
qed

text \<open>The clients and the prefixes of their token IDs.\<close>

definition keyed_clients :: "('w keyed_service \<times> go_string) set" where
  "keyed_clients = {(rds_service, ''rds-id-''), (elasticache_service, ''elasticache-id-''), (memorydb_service, ''memorydb-id-'')}"

lemma keyed_client_run:
  assumes "(sv, prefix) \<in> keyed_clients" and "keyed_PurchaseCommitment sv env rec opts s = (out, s')"
  shows "\<exists>evs. k_ran env s evs s' \<and> keyed_spec sv env rec opts out evs"
  using assms rds_buy.commitment_run cache_buy.commitment_run memdb_buy.commitment_run unfolding keyed_clients_def by blast

lemma keyed_client_id:
  assumes "(sv, prefix) \<in> keyed_clients" and "o_IdempotencyToken opts \<noteq> []"
  shows "sv_reservation_id sv env rec opts = IdempotentReservationID 0 prefix (o_IdempotencyToken opts)"
  using assms rds_buy.id_of_token cache_buy.id_of_token memdb_buy.id_of_token unfolding keyed_clients_def by blast

section \<open>One purchase\<close>

lemma quiet_filter: "list_all (\<lambda>ev. \<not> is_purchase ev) evs \<Longrightarrow> filter is_purchase evs = []"
  by (simp add: list_all_iff filter_empty_conv)

lemma offerings_filter: "list_all is_offering evs \<Longrightarrow> filter is_purchase evs = []"
  using offerings_no_purchase by (auto simp: filter_empty_conv)

lemma looked_up_filter: "looked_up env token i gs \<Longrightarrow> filter is_purchase gs = []"
  by (auto simp: looked_up_def split: if_splits)

lemma answer_filter: "keyed_answer sv env res token i b out rs \<Longrightarrow> filter is_purchase rs = []"
  by (auto simp: keyed_answer_def owned_seen_def Let_def split: sum.splits option.splits)

lemma spec_purchases:
  assumes "keyed_spec sv env rec opts out evs"
  shows "filter is_purchase evs = [] \<or> (\<exists>p os b. filter is_purchase evs = [KPurchase p os b] \<and> kp_ReservationId p = sv_reservation_id sv env rec opts)"
proof -
  let ?i = "sv_reservation_id sv env rec opts"
  consider "keyed_refused env rec out evs" | "keyed_found env rec (o_IdempotencyToken opts) ?i out evs" | "keyed_sent sv env rec opts ?i out evs"
    using assms by (auto simp: keyed_spec_def Let_def)
  then show ?thesis
  proof cases
    case 1
    then show ?thesis by (auto simp: keyed_refused_def quiet_filter)
  next
    case 2
    then show ?thesis by (auto simp: keyed_found_def owned_seen_def offerings_filter)
  next
    case 3
    then show ?thesis by (auto simp: keyed_sent_def offerings_filter looked_up_filter answer_filter)
  qed
qed

lemma spec_ids:
  assumes "keyed_spec sv env rec opts out evs" and "KPurchase p os b \<in> set evs"
  shows "kp_ReservationId p = sv_reservation_id sv env rec opts"
proof -
  have "KPurchase p os b \<in> set (filter is_purchase evs)" using assms(2) by simp
  then show ?thesis using spec_purchases [OF assms(1)] by (elim disjE exE conjE) (simp_all del: set_filter)
qed

section \<open>Re-drives\<close>

fun keyed_redrive :: "'w keyed_service \<Rightarrow> ('w keyed_env \<times> Recommendation \<times> PurchaseOptions) list \<Rightarrow> 'w keyed_state \<Rightarrow> 'w keyed_state" where
  "keyed_redrive sv [] s = s"
| "keyed_redrive sv ((env, rec, opts) # runs) s = keyed_redrive sv runs (snd (keyed_PurchaseCommitment sv env rec opts s))"

text \<open>The account: reads leave its reservations alone, and a purchase adds one under the requested ID or none,
  none when the ID is taken (the API answers AlreadyExists).\<close>

definition keeps_ids_unique :: "('w \<Rightarrow> KeyedReservation list) \<Rightarrow> 'w keyed_env \<Rightarrow> bool" where
  "keeps_ids_unique account env \<longleftrightarrow> (\<forall>q w. account (snd (ke_Offerings env q w)) = account w) \<and> (\<forall>q w. account (snd (ke_Reservations env q w)) = account w)
     \<and> (\<forall>p os w. account (snd (ke_Purchase env p os w)) = account w
         \<or> Some (kp_ReservationId p) \<notin> kr_Id ` set (account w)
           \<and> (\<exists>r. kr_Id r = Some (kp_ReservationId p) \<and> account (snd (ke_Purchase env p os w)) = account w @ [r]))"

definition one_added :: "go_string \<Rightarrow> KeyedReservation list \<Rightarrow> KeyedReservation list \<Rightarrow> bool" where
  "one_added i rs rs' \<longleftrightarrow> rs' = rs \<or> Some i \<notin> kr_Id ` set rs \<and> (\<exists>r. kr_Id r = Some i \<and> rs' = rs @ [r])"

lemma one_added_trans: "one_added i rs rs1 \<Longrightarrow> one_added i rs1 rs2 \<Longrightarrow> one_added i rs rs2"
  by (auto simp: one_added_def)

lemma run_adds_one:
  assumes "keeps_ids_unique account env"
  shows "k_run env w evs w' \<Longrightarrow> \<forall>p os b. KPurchase p os b \<in> set evs \<longrightarrow> kp_ReservationId p = i \<Longrightarrow> one_added i (account w) (account w')"
proof (induction evs arbitrary: w)
  case Nil
  then show ?case by (simp add: one_added_def)
next
  case (Cons ev evs)
  then obtain w1 where st: "k_step env w ev w1" and k: "k_run env w1 evs w'" by auto
  have rest: "one_added i (account w1) (account w')" using Cons.IH [OF k] Cons.prems(2) by (metis list.set_intros(2))
  have "one_added i (account w) (account w1)"
  proof (cases ev)
    case (KOfferings q r)
    with st have "w1 = snd (ke_Offerings env q w)" by (simp add: k_step_simps)
    with assms show ?thesis by (simp add: keeps_ids_unique_def one_added_def)
  next
    case (KReservations q r)
    with st have "w1 = snd (ke_Reservations env q w)" by (simp add: k_step_simps)
    with assms show ?thesis by (simp add: keeps_ids_unique_def one_added_def)
  next
    case (KPurchase p os b)
    with st have "w1 = snd (ke_Purchase env p os w)" by (simp add: k_step_simps)
    moreover have "kp_ReservationId p = i" using Cons.prems(2) [rule_format, of p os b] KPurchase by simp
    moreover have "account (snd (ke_Purchase env p os w)) = account w \<or> Some (kp_ReservationId p) \<notin> kr_Id ` set (account w)
        \<and> (\<exists>r. kr_Id r = Some (kp_ReservationId p) \<and> account (snd (ke_Purchase env p os w)) = account w @ [r])"
      using assms [unfolded keeps_ids_unique_def, THEN conjunct2, THEN conjunct2] by (elim allE)
    ultimately show ?thesis by (simp add: one_added_def)
  qed
  then show ?case using rest by (rule one_added_trans)
qed

lemma redrives_add_one:
  assumes "(sv, prefix) \<in> keyed_clients" and "token \<noteq> []"
  shows "\<forall>(env, rec, opts) \<in> set runs. keeps_ids_unique account env \<and> o_IdempotencyToken opts = token \<Longrightarrow>
    one_added (IdempotentReservationID 0 prefix token) (account (ks_world s)) (account (ks_world (keyed_redrive sv runs s)))"
proof (induction runs arbitrary: s)
  case Nil
  then show ?case by (simp add: one_added_def)
next
  case (Cons x runs)
  obtain env rec opts where x: "x = (env, rec, opts)" by (cases x)
  obtain out s1 where o: "keyed_PurchaseCommitment sv env rec opts s = (out, s1)" by (cases "keyed_PurchaseCommitment sv env rec opts s")
  obtain evs where evs: "k_ran env s evs s1" "keyed_spec sv env rec opts out evs" using keyed_client_run [OF assms(1) o] by blast
  have "sv_reservation_id sv env rec opts = IdempotentReservationID 0 prefix token" using keyed_client_id [OF assms(1)] assms(2) Cons.prems x by auto
  then have "one_added (IdempotentReservationID 0 prefix token) (account (ks_world s)) (account (ks_world s1))"
    using run_adds_one [of account env "ks_world s" evs "ks_world s1"] spec_ids [OF evs(2)] evs(1) Cons.prems x by (auto simp: k_ran_def)
  from one_added_trans [OF this Cons.IH [of s1]] Cons.prems show ?case by (simp add: x o)
qed

end
