(* ===== verification/Aws_Keyed_Safe.thy ===== *)
theory Aws_Keyed_Safe
  imports Aws_Keyed_Once
begin

text \<open>
  The properties of the RDS, ElastiCache and MemoryDB purchases, over \<open>Aws_Keyed_Once\<close>, each with a witness on
  an account that keeps its reservations in a list.
\<close>

section \<open>Guarantees\<close>

text \<open>C6. However often a purchase of an RDS, ElastiCache or MemoryDB reservation is re-driven with one token, at whatever
  times and with whatever recommendations and price changes, the account gains at most one reservation, under the ID
  derived from the token alone. The API is assumed to refuse an ID that is taken.\<close>

theorem keyed_redrives_buy_once:
  assumes "(sv, prefix) \<in> keyed_clients" and "token \<noteq> []"
    and "\<forall>(env, rec, opts) \<in> set runs. keeps_ids_unique account env \<and> o_IdempotencyToken opts = token"
  shows "\<exists>bought. account (ks_world (keyed_redrive sv runs s)) = account (ks_world s) @ bought \<and> length bought \<le> 1
     \<and> (\<forall>r \<in> set bought. kr_Id r = Some (IdempotentReservationID 0 prefix token))"
  using redrives_add_one [OF assms, of s] unfolding one_added_def
  by (auto intro: exI [of _ "[]"])

text \<open>C7. When the RDS client settles on an offering, it has read the catalog to its last page, at most five pages, and the
  offering is the only one, among all rows read, of exactly the wanted class, engine, deployment, term and payment option.
  The engine and deployment come from the recommendation and are never guessed.\<close>

theorem rds_offering_is_unique:
  assumes "rds_findOfferingID env rec s = (Inr i, s')" and "ks_log s' = ks_log s @ evs"
  shows "\<exists>details want base. r_Details rec = Some (DatabaseD (ByPtr (Some details))) \<and> dd_AZConfig details \<in> {''single-az'', ''multi-az''}
     \<and> lookupEngineName (dd_Engine details) = Inr (rk_engine want) \<and> rk_class want = r_ResourceType rec
     \<and> rk_multiAZ want = (dd_AZConfig details = ''multi-az'') \<and> DurationSeconds (r_Term rec) ''RDS'' = Inr (rk_duration want)
     \<and> convertPaymentOption ''unsupported payment option: %s'' (r_PaymentOption rec) = Inr (rk_offeringType want)
     \<and> complete_pages base None evs \<and> length evs \<le> 5
     \<and> (\<exists>off \<in> offers_seen evs. rds_matches want off \<and> ko_OfferingId off = Some i)
     \<and> (\<forall>off \<in> offers_seen evs. rds_matches want off \<longrightarrow> ToString (ko_OfferingId off) \<in> {[], i})"
proof -
  from rds_find_ran [OF assms(1)] obtain es details t want base where run: "k_ran env s es s'" and len: "length es \<le> maxOfferingPages"
    and d: "r_Details rec = Some (DatabaseD (ByPtr (Some details)))" "dd_AZConfig details \<in> {''single-az'', ''multi-az''}"
    and t: "convertPaymentOption ''unsupported payment option: %s'' (r_PaymentOption rec) = Inr t" and w: "rds_want rec details t = Inr (want, base)"
    and p: "i \<noteq> []" "complete_pages base None es" "unique_match want i (offers_seen es)"
      "\<exists>off \<in> offers_seen es. rds_matches want off \<and> ToString (ko_OfferingId off) = i" by blast
  have "es = evs" using run assms(2) by (simp add: k_ran_def)
  moreover have "lookupEngineName (dd_Engine details) = Inr (rk_engine want)" "rk_class want = r_ResourceType rec" "rk_offeringType want = t"
      "rk_multiAZ want = (dd_AZConfig details = ''multi-az'')" "DurationSeconds (r_Term rec) ''RDS'' = Inr (rk_duration want)"
    using w by (auto simp: rds_want_def Let_def offeringDuration_def split: sum.splits)
  moreover have "\<exists>off \<in> offers_seen es. rds_matches want off \<and> ko_OfferingId off = Some i" using p(1,4) by (auto simp: ToString_def split: option.splits)
  ultimately show ?thesis using d t p(2,3) len unfolding unique_match_def maxOfferingPages_def by auto
qed

lemma spec_upfront:
  assumes "keyed_spec sv env rec opts out evs" and "KPurchase p os b \<in> set evs"
  shows "PurchaseCount (r_Count rec) = Inr (kp_Count p)
     \<and> (\<exists>t t' pre cs post. sv_check sv env rec (kp_OfferingId p) t = (None, t') \<and> k_ran env t cs t' \<and> evs = pre @ cs @ KPurchase p os b # post)"
proof -
  let ?i = "sv_reservation_id sv env rec opts"
  have "filter is_purchase evs \<noteq> []" using assms(2) by (auto simp: filter_empty_conv intro!: bexI [of _ "KPurchase p os b"])
  then have "keyed_sent sv env rec opts ?i out evs" using assms(1)
    by (auto simp: keyed_spec_def Let_def keyed_refused_def keyed_found_def owned_seen_def quiet_filter offerings_filter)
  then obtain fs gs cs p' os' b' rs where evs: "evs = fs @ gs @ cs @ KPurchase p' os' b' # rs" and o: "list_all is_offering fs" "list_all is_offering cs"
    and g: "looked_up env (o_IdempotencyToken opts) ?i gs" and n: "PurchaseCount (r_Count rec) = Inr (kp_Count p')"
    and c: "\<exists>s s'. sv_check sv env rec (kp_OfferingId p') s = (None, s') \<and> k_ran env s cs s'"
    and a: "keyed_answer sv env (new_result rec (ke_Now env)) (o_IdempotencyToken opts) ?i b' out rs" unfolding keyed_sent_def by blast
  have "filter is_purchase evs = [KPurchase p' os' b']" using o looked_up_filter [OF g] answer_filter [OF a] by (simp add: evs offerings_filter)
  moreover have "KPurchase p os b \<in> set (filter is_purchase evs)" using assms(2) by simp
  ultimately have "p' = p \<and> os' = os \<and> b' = b" by (simp del: set_filter)
  then have "evs = (fs @ gs) @ cs @ KPurchase p os b # rs" using evs by simp
  with n c \<open>p' = p \<and> os' = os \<and> b' = b\<close> show ?thesis by blast
qed

lemma ceiling_kept:
  assumes "over_ceiling service i rec price = None"
  shows "\<not> go_round (UpfrontCeiling (r_CommitmentCost rec) * Fin 100) < go_round (price * float_of_int (r_Count rec) * Fin 100)"
  using assms by (auto simp: over_ceiling_def CheckUpfront_def split: option.splits if_splits)

text \<open>C8. The RDS, ElastiCache and MemoryDB clients buy only between 1 and MaxInt32 nodes, and always exactly as many as
  recommended. Where an upfront was approved, the call right before the purchase of the RDS and MemoryDB clients read the
  offering bought back by its ID, as the only row, and its price times the count, rounded to cents, is not above the
  approved upfront with its tolerance.\<close>

theorem keyed_never_overpays:
  assumes "(sv, prefix) \<in> keyed_clients" and "keyed_PurchaseCommitment sv env rec opts s = (out, s')"
    and "ks_log s' = ks_log s @ evs" and "KPurchase p os b \<in> set evs"
  shows "kp_Count p = r_Count rec \<and> 1 \<le> kp_Count p \<and> kp_Count p \<le> MaxInt32
     \<and> (sv \<in> {rds_service, memorydb_service} \<and> \<not> NoUpfrontApproved (r_CommitmentCost rec) \<longrightarrow>
         (\<exists>pre page off post. evs = pre @ KOfferings (no_query\<lparr>kq_OfferingId := Some (kp_OfferingId p)\<rparr>) (Inr page) # KPurchase p os b # post
           \<and> pg_Items page = [off] \<and> (r_CommitmentCurrency rec = [] \<or> equal_fold (r_CommitmentCurrency rec) ''USD'')
           \<and> \<not> go_round (UpfrontCeiling (r_CommitmentCost rec) * Fin 100) < go_round (ToFloat64 (ko_FixedPrice off) * float_of_int (kp_Count p) * Fin 100)))"
proof -
  from keyed_client_run [OF assms(1,2)] obtain es where "k_ran env s es s'" and sp: "keyed_spec sv env rec opts out es" by blast
  with assms(3) have es: "es = evs" by (simp add: k_ran_def)
  from spec_upfront [OF sp [unfolded es] assms(4)] obtain t t' pre cs post where n: "PurchaseCount (r_Count rec) = Inr (kp_Count p)"
    and c: "sv_check sv env rec (kp_OfferingId p) t = (None, t')" and cs: "k_ran env t cs t'" and evs: "evs = pre @ cs @ KPurchase p os b # post" by blast
  have count: "kp_Count p = r_Count rec" "1 \<le> kp_Count p" "kp_Count p \<le> MaxInt32" using n by (auto simp: PurchaseCount_Inr)
  moreover have "\<exists>pre page off post. evs = pre @ KOfferings (no_query\<lparr>kq_OfferingId := Some (kp_OfferingId p)\<rparr>) (Inr page) # KPurchase p os b # post
      \<and> pg_Items page = [off] \<and> (r_CommitmentCurrency rec = [] \<or> equal_fold (r_CommitmentCurrency rec) ''USD'')
      \<and> \<not> go_round (UpfrontCeiling (r_CommitmentCost rec) * Fin 100) < go_round (ToFloat64 (ko_FixedPrice off) * float_of_int (r_Count rec) * Fin 100)"
    if two: "sv \<in> {rds_service, memorydb_service}" and cost: "\<not> NoUpfrontApproved (r_CommitmentCost rec)"
  proof -
    from two c obtain service check where u: "upfront_check service check env rec (kp_OfferingId p) t = (None, t')"
      and k: "check = rds_check_offering rec (kp_OfferingId p) \<or> check = memorydb_check_offering env rec (kp_OfferingId p)"
      by (auto simp: rds_service_def rds_checkApprovedUpfront_def memorydb_service_def memorydb_checkApprovedUpfront_def)
    from upfront_check_ran [OF u] cost obtain page off where es2: "k_ran env t [KOfferings (no_query\<lparr>kq_OfferingId := Some (kp_OfferingId p)\<rparr>) (Inr page)] t'"
      and off: "pg_Items page = [off]" "check off = None" "r_CommitmentCurrency rec = [] \<or> equal_fold (r_CommitmentCurrency rec) ''USD''" by blast
    have "cs = [KOfferings (no_query\<lparr>kq_OfferingId := Some (kp_OfferingId p)\<rparr>) (Inr page)]" using cs es2 by (simp add: k_ran_def)
    then have "evs = pre @ KOfferings (no_query\<lparr>kq_OfferingId := Some (kp_OfferingId p)\<rparr>) (Inr page) # KPurchase p os b # post" by (simp add: evs)
    moreover have "\<exists>service. over_ceiling service (kp_OfferingId p) rec (ToFloat64 (ko_FixedPrice off)) = None"
      using k off(2) by (auto simp: rds_check_offering_def memorydb_check_offering_def ToFloat64_def Let_def split: option.splits if_splits)
    then have "\<not> go_round (UpfrontCeiling (r_CommitmentCost rec) * Fin 100) < go_round (ToFloat64 (ko_FixedPrice off) * float_of_int (r_Count rec) * Fin 100)"
      using ceiling_kept by blast
    ultimately show ?thesis using off(1,3) by (intro exI conjI)
  qed
  ultimately show ?thesis by simp
qed

lemma first_owned_Some: "first_owned rs = Some j \<Longrightarrow> \<exists>r \<in> set rs. IsOwned (ToString (kr_State r)) \<and> kr_Id r = Some j"
  by (induction rs rule: first_owned.induct) (auto split: if_splits option.splits)

definition adopted_by :: "go_string \<Rightarrow> go_string \<Rightarrow> keyed_event list \<Rightarrow> bool" where
  "adopted_by i j evs \<longleftrightarrow> (\<exists>page r. KReservations (by_id i) (Inr page) \<in> set evs \<and> r \<in> set (pg_Items page)
     \<and> IsOwned (ToString (kr_State r)) \<and> kr_Id r = Some j)"

lemma owned_seen_adopted: "owned_seen i j gs \<Longrightarrow> set gs \<subseteq> set evs \<Longrightarrow> adopted_by i j evs"
  using first_owned_Some by (fastforce simp: owned_seen_def adopted_by_def)

lemma keyed_results_simps [simp]:
  "pr_Error (fst (with_error (new_result rec n) e)) = Some e" "\<not> pr_Success (fst (with_error (new_result rec n) e))"
  "\<not> pr_ExistingCommitment (fst (with_error (new_result rec n) e))" "snd (with_error (new_result rec n) e) = Some e"
  "pr_Error (fst (existing (new_result rec n) j)) = None" "pr_Success (fst (existing (new_result rec n) j))" "snd (existing (new_result rec n) j) = None"
  "pr_ExistingCommitment (fst (existing (new_result rec n) j))" "pr_CommitmentID (fst (existing (new_result rec n) j)) = j"
  by (simp_all add: with_error_def existing_def new_result_def)

lemma answered_result_simps [simp]:
  "pr_Error (answered_result sv (new_result rec n) r) = None" "pr_Success (answered_result sv (new_result rec n) r)"
  "\<not> pr_ExistingCommitment (answered_result sv (new_result rec n) r)" "pr_CommitmentID (answered_result sv (new_result rec n) r) = ToString (kr_Id r)"
  by (simp_all add: answered_result_def new_result_def)

lemma classified_verdict:
  "outcome_unknown (wrapf f as [ClassifyPurchaseError thr e])
     \<or> (\<exists>code. err_api_code e = Some code \<and> (thr code \<or> httpStatus e \<in> {400 ..< 500}))"
  using classify_purchase_verdict [of thr e] by (auto simp: outcome_unknown_def)

lemma unknown_verdict: "outcome_unknown (UnknownUnlessToken [] e)"
  by (simp add: UnknownUnlessToken_def outcome_unknown_def ErrOutcomeUnknown_def)

definition honest_result :: "'w keyed_env \<Rightarrow> go_string \<Rightarrow> go_string \<Rightarrow> PurchaseResult \<times> go_error option \<Rightarrow> keyed_event list \<Rightarrow> bool" where
  "honest_result env token i out evs \<longleftrightarrow> pr_Error (fst out) = snd out \<and> (pr_Success (fst out) \<longleftrightarrow> snd out = None)
     \<and> (pr_Success (fst out) \<and> \<not> pr_ExistingCommitment (fst out) \<longrightarrow>
         (\<exists>p os r. KPurchase p os (Inr (Some r)) \<in> set evs \<and> pr_CommitmentID (fst out) = ToString (kr_Id r)))
     \<and> (pr_ExistingCommitment (fst out) \<longrightarrow> token \<noteq> [] \<and> adopted_by i (pr_CommitmentID (fst out)) evs)"

definition honest_error :: "'w keyed_env \<Rightarrow> go_string \<Rightarrow> go_error option \<Rightarrow> keyed_event list \<Rightarrow> bool" where
  "honest_error env token err evs \<longleftrightarrow> (\<forall>p os b e. token = [] \<and> err = Some e \<and> KPurchase p os b \<in> set evs \<longrightarrow>
     outcome_unknown e \<or> (\<exists>e0 code. b = Inl e0 \<and> err_api_code e0 = Some code \<and> (ke_throttled env code \<or> httpStatus e0 \<in> {400 ..< 500})))"

lemma answer_honest:
  assumes "keyed_answer sv env (new_result rec n) token i b out rs" and "filter is_purchase evs = [KPurchase p os b]" and "set rs \<subseteq> set evs"
  shows "honest_result env token i out evs \<and> honest_error env token (snd out) evs"
proof -
  have only: "KPurchase p' os' b' \<in> set evs \<Longrightarrow> b' = b" for p' os' b'
  proof -
    assume "KPurchase p' os' b' \<in> set evs"
    then have "KPurchase p' os' b' \<in> set (filter is_purchase evs)" by simp
    then show "b' = b" using assms(2) by (simp del: set_filter)
  qed
  have sent: "KPurchase p os b \<in> set evs" by (rule filter_eq_ConsD [OF assms(2), THEN exE]) auto
  consider (bought) r where "b = Inr (Some r)" "out = (answered_result sv (new_result rec n) r, None)"
    | (empty_answer) "b = Inr None" "out = with_error (new_result rec n) (UnknownUnlessToken token (errorf ''purchase response was empty'' []))"
    | (adopted) j where "token \<noteq> []" "owned_seen i j rs" "out = existing (new_result rec n) j"
    | (failed) e f where "b = Inl e" "out = with_error (new_result rec n) (wrapf f [ArgS (err_text (ClassifyUnlessToken (ke_throttled env) token e))]
        [ClassifyUnlessToken (ke_throttled env) token e])"
    using assms(1) by (auto simp: keyed_answer_def Let_def split: sum.splits option.splits)
  then show ?thesis
  proof cases
    case bought
    with sent show ?thesis by (auto simp: honest_result_def honest_error_def)
  next
    case empty_answer
    then show ?thesis using unknown_verdict by (auto simp: honest_result_def honest_error_def)
  next
    case adopted
    with owned_seen_adopted [OF adopted(2) assms(3)] show ?thesis by (auto simp: honest_result_def honest_error_def)
  next
    case failed
    have "honest_error env token (snd out) evs"
      unfolding honest_error_def
    proof (intro allI impI)
      fix p' os' b' e' assume a: "token = [] \<and> snd out = Some e' \<and> KPurchase p' os' b' \<in> set evs"
      then have e': "e' = wrapf f [ArgS (err_text (ClassifyPurchaseError (ke_throttled env) e))] [ClassifyPurchaseError (ke_throttled env) e]"
        using failed(2) by (elim conjE) (simp add: ClassifyUnlessToken_def)
      from a only have "b' = Inl e" using failed(1) by blast
      with classified_verdict [of f _ "ke_throttled env" e]
      show "outcome_unknown e' \<or> (\<exists>e0 code. b' = Inl e0 \<and> err_api_code e0 = Some code \<and> (ke_throttled env code \<or> httpStatus e0 \<in> {400 ..< 500}))"
        unfolding e' by blast
    qed
    with failed show ?thesis by (auto simp: honest_result_def)
  qed
qed

lemma spec_honest:
  assumes "keyed_spec sv env rec opts out evs"
  shows "honest_result env (o_IdempotencyToken opts) (sv_reservation_id sv env rec opts) out evs \<and> honest_error env (o_IdempotencyToken opts) (snd out) evs"
proof -
  let ?i = "sv_reservation_id sv env rec opts" and ?tok = "o_IdempotencyToken opts"
  consider (refused) "keyed_refused env rec out evs" | (found) "keyed_found env rec ?tok ?i out evs" | (sent) "keyed_sent sv env rec opts ?i out evs"
    using assms by (auto simp: keyed_spec_def Let_def)
  then show ?thesis
  proof cases
    case refused
    then show ?thesis by (auto simp: keyed_refused_def list_all_iff honest_result_def honest_error_def)
  next
    case found
    then obtain fs gs j where f: "?tok \<noteq> []" "evs = fs @ gs" "owned_seen ?i j gs" "out = existing (new_result rec (ke_Now env)) j"
      unfolding keyed_found_def by blast
    have "adopted_by ?i j evs" using owned_seen_adopted [OF f(3)] f(2) by simp
    with f show ?thesis by (auto simp: honest_result_def honest_error_def)
  next
    case sent
    then obtain fs gs cs p os b rs where evs: "evs = fs @ gs @ cs @ KPurchase p os b # rs" and o: "list_all is_offering fs" "list_all is_offering cs"
      and g: "looked_up env ?tok ?i gs" and a: "keyed_answer sv env (new_result rec (ke_Now env)) ?tok ?i b out rs" unfolding keyed_sent_def by blast
    have "filter is_purchase evs = [KPurchase p os b]" using o looked_up_filter [OF g] answer_filter [OF a] by (simp add: evs offerings_filter)
    from answer_honest [OF a this] show ?thesis by (auto simp: evs)
  qed
qed

text \<open>C9. The result of an RDS, ElastiCache or MemoryDB purchase says what the API answered: at most one purchase is sent;
  success without an existing commitment carries the ID of the reservation the purchase answered with; an existing
  commitment is an owned reservation read under the token's ID; and without a token an error after a send is either an
  unknown outcome or a definite rejection.\<close>

theorem keyed_result_is_honest:
  assumes "(sv, prefix) \<in> keyed_clients" and "keyed_PurchaseCommitment sv env rec opts s = ((res, err), s')"
    and "ks_log s' = ks_log s @ evs"
  shows "length (filter is_purchase evs) \<le> 1 \<and> pr_Error res = err \<and> (pr_Success res \<longleftrightarrow> err = None)
     \<and> (pr_Success res \<and> \<not> pr_ExistingCommitment res \<longrightarrow>
         (\<exists>p os r. KPurchase p os (Inr (Some r)) \<in> set evs \<and> pr_CommitmentID res = ToString (kr_Id r)))
     \<and> (pr_ExistingCommitment res \<longrightarrow> o_IdempotencyToken opts \<noteq> [] \<and> (\<exists>page r. KReservations (by_id (sv_reservation_id sv env rec opts)) (Inr page) \<in> set evs
         \<and> r \<in> set (pg_Items page) \<and> IsOwned (ToString (kr_State r)) \<and> kr_Id r = Some (pr_CommitmentID res)))
     \<and> (\<forall>p os b e. o_IdempotencyToken opts = [] \<and> err = Some e \<and> KPurchase p os b \<in> set evs \<longrightarrow>
         outcome_unknown e \<or> (\<exists>e0 code. b = Inl e0 \<and> err_api_code e0 = Some code \<and> (ke_throttled env code \<or> httpStatus e0 \<in> {400 ..< 500})))"
proof -
  let ?i = "sv_reservation_id sv env rec opts"
  from keyed_client_run [OF assms(1,2)] obtain es where "k_ran env s es s'" and sp: "keyed_spec sv env rec opts (res, err) es" by blast
  with assms(3) have es: "es = evs" by (simp add: k_ran_def)
  have "length (filter is_purchase evs) \<le> 1" using spec_purchases [OF sp] es by auto
  moreover note spec_honest [OF sp, unfolded es]
  ultimately show ?thesis unfolding honest_result_def honest_error_def adopted_by_def by (simp only: fst_conv snd_conv) blast
qed

section \<open>Witnesses\<close>

definition demo_reservation :: "keyed_request \<Rightarrow> KeyedReservation" where
  "demo_reservation p = \<lparr>kr_Id = Some (kp_ReservationId p), kr_Class = Some ''db.r6g.large'', kr_Engine = Some ''mysql'', kr_MultiAZ = Some False,
     kr_Count = Some (kp_Count p), kr_State = Some ''payment-pending'', kr_StartTime = Some 0, kr_Duration = Some 31536000, kr_FixedPrice = Some (Fin 1000)\<rparr>"

definition demo_rds_offering :: KeyedOffering where
  "demo_rds_offering = \<lparr>ko_OfferingId = Some ''off-9'', ko_Class = Some ''db.r6g.large'', ko_Engine = Some ''mysql'', ko_MultiAZ = Some False,
     ko_Duration = Some 31536000, ko_OfferingType = Some ''All Upfront'', ko_FixedPrice = Some (Fin 1000), ko_UsagePrice = Some 0,
     ko_CurrencyCode = Some ''USD'', ko_RecurringCharges = []\<rparr>"

text \<open>An account that keeps its reservations in a list and refuses an ID that is taken; \<open>t\<close> is the clock.\<close>

definition demo_keyed :: "int \<Rightarrow> KeyedReservation list keyed_env" where
  "demo_keyed t = \<lparr>ke_Err = (\<lambda>w. None), ke_Offerings = (\<lambda>q w. (Inr \<lparr>pg_Marker = None, pg_Items = [demo_rds_offering]\<rparr>, w)),
     ke_Reservations = (\<lambda>q w. (Inr \<lparr>pg_Marker = None, pg_Items = filter (\<lambda>r. kr_Id r = kw_Id q) w\<rparr>, w)),
     ke_Purchase = (\<lambda>p os w. if Some (kp_ReservationId p) \<in> kr_Id ` set w then (Inl (Sentinel ''already exists''), w)
       else (Inr (Some (demo_reservation p)), w @ [demo_reservation p])),
     ke_NotFound = (\<lambda>e. False), ke_AlreadyExists = (\<lambda>e. True), ke_throttled = (\<lambda>c. False), ke_region = ''us-east-1'',
     ke_Now = t * 1000000000, ke_Unix = t, ke_entropy = None\<rparr>"

definition demo_keyed_rec :: Recommendation where
  "demo_keyed_rec = zero_rec\<lparr>r_Details := Some (DatabaseD (ByPtr (Some \<lparr>dd_Engine = ''MySQL'', dd_EngineVersion = [], dd_AZConfig = ''single-az'',
       dd_InstanceClass = [], dd_Deployment = []\<rparr>))), r_Region := ''us-east-1'', r_ResourceType := ''db.r6g.large'', r_Term := ''1yr'',
     r_PaymentOption := ''all-upfront'', r_Count := 2, r_CommitmentCost := Fin 2000\<rparr>"

definition demo_keyed_opts :: PurchaseOptions where
  "demo_keyed_opts = \<lparr>o_RequestedAt = 0, o_Source = [], o_ReservationID = [], o_IdempotencyToken = ''tok-1'', o_ExecutionID = []\<rparr>"

definition demo_keyed_state :: "KeyedReservation list keyed_state" where
  "demo_keyed_state = \<lparr>ks_world = [], ks_log = []\<rparr>"

lemma demo_keyed_unique: "keeps_ids_unique (\<lambda>w. w) (demo_keyed t)"
  by (auto simp: keeps_ids_unique_def demo_keyed_def demo_reservation_def)

theorem keyed_redrives_buy_once_witness:
  "\<exists>bought. ks_world (keyed_redrive rds_service [(demo_keyed 100, demo_keyed_rec, demo_keyed_opts), (demo_keyed 900, demo_keyed_rec, demo_keyed_opts)]
     demo_keyed_state) = ks_world demo_keyed_state @ bought \<and> length bought \<le> 1
     \<and> (\<forall>r \<in> set bought. kr_Id r = Some (IdempotentReservationID 0 ''rds-id-'' ''tok-1''))"
  by (rule keyed_redrives_buy_once [of _ _ _ _ "\<lambda>w. w"]) (auto simp: keyed_clients_def demo_keyed_unique demo_keyed_opts_def)

lemma demo_lookup: "lookupEngineName ''MySQL'' = Inr ''mysql''" by code_simp

lemma demo_find:
  "\<exists>q. rds_findOfferingID (demo_keyed t) demo_keyed_rec s
     = (Inr ''off-9'', k_logged s (KOfferings q (Inr \<lparr>pg_Marker = None, pg_Items = [demo_rds_offering]\<rparr>)) (ks_world s))"
proof -
  define want :: rdsOfferingKey where "want = \<lparr>rk_class = ''db.r6g.large'', rk_engine = ''mysql'', rk_offeringType = ''All Upfront'',
    rk_duration = 31536000, rk_multiAZ = False\<rparr>"
  obtain base where w: "rds_want demo_keyed_rec \<lparr>dd_Engine = ''MySQL'', dd_EngineVersion = [], dd_AZConfig = ''single-az'', dd_InstanceClass = [],
      dd_Deployment = []\<rparr> ''All Upfront'' = Inr (want, base)"
    by (simp add: rds_want_def demo_lookup offeringDuration_def DurationSecondsString_def DurationSeconds_def ParseTermMonths_def demo_keyed_rec_def
        OneYearSeconds_def want_def Let_def)
  have m: "rds_matches want demo_rds_offering" by (simp add: rds_matches_def demo_rds_offering_def want_def)
  show ?thesis
    by (rule exI [of _ "base\<lparr>kq_Marker := None\<rparr>"]) (use w m in \<open>simp add: rds_findOfferingID_def demo_keyed_rec_def convertPaymentOption_def
        maxOfferingPages_def rds_walk.simps [of _ _ _ _ "Suc _"] eval_nat_numeral k_offerings_def demo_keyed_def scanRDSOfferingPage_def
        pickOfferingID_def ToString_def\<close>; simp add: demo_rds_offering_def ToString_def)
qed

lemma demo_ceiling: "CheckUpfront ''RDS'' (Fin 1000 * float_of_int 2) (Fin 2000) = None"
proof -
  obtain v where v: "rnd (21 / 20) = Fin v" using rnd_finite [of "21 / 20"] by auto
  have v1: "1 \<le> v" and v2: "v \<le> 2" using rnd_mono [of 1 "21 / 20"] rnd_mono [of "21 / 20" 2] v by simp_all
  obtain u where u: "rnd (2000 * v) = Fin u" using rnd_finite [of "2000 * v"] v1 v2 by auto
  have u1: "2000 \<le> u" and u2: "u \<le> 4000" using rnd_mono [of 2000 "2000 * v"] rnd_mono [of "2000 * v" 4000] u v1 v2 by simp_all
  obtain x where x: "rnd (u * 100) = Fin x" using rnd_finite [of "u * 100"] u1 u2 by auto
  have x1: "200000 \<le> x" using rnd_mono [of 200000 "u * 100"] x u1 by simp
  then have "200000 \<le> \<lfloor>x + 1 / 2\<rfloor>" by (simp add: le_floor_iff)
  moreover have "\<lfloor>200000 + 1 / 2 :: rat\<rfloor> = 200000" by (simp add: floor_eq_iff)
  moreover have "float_of_int 2 = Fin 2" by (simp add: float_of_int_def)
  ultimately show ?thesis using x1 by (simp add: CheckUpfront_def UpfrontCeiling_def v u x)
qed

lemma demo_check:
  "rds_checkApprovedUpfront (demo_keyed t) demo_keyed_rec i s
     = (None, k_logged s (KOfferings (no_query\<lparr>kq_OfferingId := Some i\<rparr>) (Inr \<lparr>pg_Marker = None, pg_Items = [demo_rds_offering]\<rparr>)) (ks_world s))"
proof -
  have "equal_fold ''USD'' ''USD''" by code_simp
  then have "rds_check_offering demo_keyed_rec i demo_rds_offering = None"
    using demo_ceiling by (simp add: rds_check_offering_def demo_rds_offering_def over_ceiling_def demo_keyed_rec_def ToString_def)
  then show ?thesis
    by (simp add: rds_checkApprovedUpfront_def upfront_check_def demo_keyed_rec_def zero_rec_def NoUpfrontApproved_def k_offerings_def demo_keyed_def Let_def)
qed

lemma demo_keyed_buys:
  "\<exists>p os r s'. keyed_PurchaseCommitment rds_service (demo_keyed t) demo_keyed_rec demo_keyed_opts demo_keyed_state
     = ((answered_result rds_service (new_result demo_keyed_rec (ke_Now (demo_keyed t))) r, None), s') \<and> KPurchase p os (Inr (Some r)) \<in> set (ks_log s')"
proof -
  let ?env = "demo_keyed t" and ?i = "deriveReservationID (demo_keyed t) demo_keyed_rec demo_keyed_opts"
  obtain q where q: "rds_findOfferingID ?env demo_keyed_rec demo_keyed_state
     = (Inr ''off-9'', k_logged demo_keyed_state (KOfferings q (Inr \<lparr>pg_Marker = None, pg_Items = [demo_rds_offering]\<rparr>)) (ks_world demo_keyed_state))"
    using demo_find by blast
  obtain s1 where s1: "rds_findOfferingID ?env demo_keyed_rec demo_keyed_state = (Inr ''off-9'', s1)" "ks_world s1 = []"
    by (rule that [OF q]) (simp add: k_logged_def demo_keyed_state_def)
  obtain s2 where s2: "Guard (o_IdempotencyToken demo_keyed_opts) ''RDS RI'' (findReservationByID ''reserved DB instances'' ?env ?i) s1 = (Inr None, s2)"
      "ks_world s2 = []"
    by (simp add: Guard_def demo_keyed_opts_def findReservationByID_def k_reservations_def demo_keyed_def s1(2) k_logged_def)
  obtain s3 where s3: "rds_checkApprovedUpfront ?env demo_keyed_rec ''off-9'' s2 = (None, s3)" "ks_world s3 = []"
    by (simp add: demo_check k_logged_def s2(2))
  have n: "r_Count demo_keyed_rec = 2" "PurchaseCount 2 = Inr 2" by (simp_all add: demo_keyed_rec_def PurchaseCount_def MaxInt32_def)
  let ?p = "\<lparr>kp_OfferingId = ''off-9'', kp_ReservationId = ?i, kp_Count = 2,
    kp_Tags = PurchasePairs (ke_Now ?env) demo_keyed_rec ''Reserved Instance Purchase'' ''ResourceType'' (o_Source demo_keyed_opts)\<rparr>"
  let ?os = "SingleAttemptIf (o_IdempotencyToken demo_keyed_opts) (RetryMaxAttempts 1)"
  obtain s4 where s4: "k_purchase ?env ?p ?os s3 = (Inr (Some (demo_reservation ?p)), s4)" "KPurchase ?p ?os (Inr (Some (demo_reservation ?p))) \<in> set (ks_log s4)"
    by (simp add: k_purchase_def demo_keyed_def s3(2) k_logged_def)
  have "keyed_PurchaseCommitment rds_service ?env demo_keyed_rec demo_keyed_opts demo_keyed_state
      = ((answered_result rds_service (new_result demo_keyed_rec (ke_Now ?env)) (demo_reservation ?p), None), s4)"
    using s1 s2 s3 s4 n
    by (simp add: keyed_PurchaseCommitment_def keyed_purchase_def Let_def rds_service_def after_purchase_def answered_result_def)
  with s4(2) show ?thesis by blast
qed

theorem rds_offering_is_unique_witness:
  "\<exists>details want base. r_Details demo_keyed_rec = Some (DatabaseD (ByPtr (Some details))) \<and> lookupEngineName (dd_Engine details) = Inr (rk_engine want)
     \<and> complete_pages base None (ks_log (snd (rds_findOfferingID (demo_keyed 100) demo_keyed_rec demo_keyed_state)))
     \<and> (\<forall>off \<in> offers_seen (ks_log (snd (rds_findOfferingID (demo_keyed 100) demo_keyed_rec demo_keyed_state))).
         rds_matches want off \<longrightarrow> ToString (ko_OfferingId off) \<in> {[], ''off-9''})"
proof -
  let ?s = "snd (rds_findOfferingID (demo_keyed 100) demo_keyed_rec demo_keyed_state)"
  have r: "rds_findOfferingID (demo_keyed 100) demo_keyed_rec demo_keyed_state = (Inr ''off-9'', ?s)"
    using demo_find [of 100 demo_keyed_state] by auto
  have "ks_log ?s = ks_log demo_keyed_state @ ks_log ?s" by (simp add: demo_keyed_state_def)
  from rds_offering_is_unique [OF r this] show ?thesis by blast
qed

theorem keyed_never_overpays_witness:
  "\<exists>p os b pre (page :: KeyedOffering keyed_page) (off :: KeyedOffering) post.
     ks_log (snd (keyed_PurchaseCommitment rds_service (demo_keyed 100) demo_keyed_rec demo_keyed_opts demo_keyed_state))
       = pre @ KOfferings (no_query\<lparr>kq_OfferingId := Some (kp_OfferingId p)\<rparr>) (Inr page) # KPurchase p os b # post
     \<and> kp_Count p = 2 \<and> pg_Items page = [off]
     \<and> \<not> go_round (UpfrontCeiling (Fin 2000) * Fin 100) < go_round (ToFloat64 (ko_FixedPrice off) * float_of_int 2 * Fin 100)"
proof -
  obtain p os r s' where run: "keyed_PurchaseCommitment rds_service (demo_keyed 100) demo_keyed_rec demo_keyed_opts demo_keyed_state
     = ((answered_result rds_service (new_result demo_keyed_rec (ke_Now (demo_keyed 100))) r, None), s')" and p: "KPurchase p os (Inr (Some r)) \<in> set (ks_log s')"
    using demo_keyed_buys by blast
  have l: "ks_log s' = ks_log demo_keyed_state @ ks_log s'" by (simp add: demo_keyed_state_def)
  have c: "(rds_service, ''rds-id-'') \<in> keyed_clients" by (simp add: keyed_clients_def)
  have rec: "\<not> NoUpfrontApproved (r_CommitmentCost demo_keyed_rec)" "r_CommitmentCost demo_keyed_rec = Fin 2000" "r_Count demo_keyed_rec = 2"
    by (simp_all add: NoUpfrontApproved_def demo_keyed_rec_def)
  from keyed_never_overpays [OF c run l p] rec(1) obtain pre page off post where n: "kp_Count p = 2"
    and evs: "ks_log s' = pre @ KOfferings (no_query\<lparr>kq_OfferingId := Some (kp_OfferingId p)\<rparr>) (Inr page) # KPurchase p os (Inr (Some r)) # post"
    and off: "pg_Items page = [off]" "\<not> go_round (UpfrontCeiling (Fin 2000) * Fin 100) < go_round (ToFloat64 (ko_FixedPrice off) * float_of_int 2 * Fin 100)"
    unfolding rec(2,3) by auto
  show ?thesis unfolding run snd_conv by (intro exI conjI) (fact evs n off)+
qed

theorem keyed_result_is_honest_witness:
  "\<exists>res s'. keyed_PurchaseCommitment rds_service (demo_keyed 100) demo_keyed_rec demo_keyed_opts demo_keyed_state = ((res, None), s')
     \<and> (\<exists>p os r. KPurchase p os (Inr (Some r)) \<in> set (ks_log s') \<and> pr_CommitmentID res = ToString (kr_Id r))"
proof -
  obtain r s' where run: "keyed_PurchaseCommitment rds_service (demo_keyed 100) demo_keyed_rec demo_keyed_opts demo_keyed_state
     = ((answered_result rds_service (new_result demo_keyed_rec (ke_Now (demo_keyed 100))) r, None), s')"
    using demo_keyed_buys [of 100] by blast
  have l: "ks_log s' = ks_log demo_keyed_state @ ks_log s'" by (simp add: demo_keyed_state_def)
  have "(rds_service, ''rds-id-'') \<in> keyed_clients" by (simp add: keyed_clients_def)
  from keyed_result_is_honest [OF this run l] run show ?thesis by auto
qed

end
