(* ===== verification/Spec2Isabelle.thy ===== *)
theory Spec2Isabelle
  imports Ladder_Tranches Exchange_Run Retry Rec_Dedupe Rec_Sizing Rec_Names Rec_Tokens Rec_Score Az_Guard Az_Once Az_Covered Az_Collect Aws_Redshift_Once Aws_Keyed_Safe
begin

text \<open>
  A model of the shared Go libraries for cloud commitments: the parts under \<open>src/pkg\<close> that decide
  what is bought, exchanged or skipped, the Azure reservation clients under \<open>src/providers/azure\<close> and the
  Redshift, RDS, ElastiCache and MemoryDB clients under \<open>src/providers/aws\<close> that buy it, and the theorems that make those decisions correct.

  \<^bold>\<open>The program.\<close> A caller (CLI, server, platform) fetches usage and recommendations from a cloud and
  runs them through filters, sizing and a duplicate check (\<open>pkg/recfilter\<close>), or lets the ladder engine
  plan purchases from a usage baseline (\<open>pkg/ladder\<close>), whose plan is cut into dated tranches. The
  exchange package (\<open>pkg/exchange\<close>) finds under-used Convertible RIs, quotes and executes their
  exchange, and keeps a ledger of what it spent. All of them share the vocabulary of \<open>pkg/common\<close>;
  calls that may fail go through \<open>pkg/retry\<close>; purchases carry names and order IDs derived in
  \<open>pkg/common\<close>. An Azure client buys in two requests, calculatePrice and purchase, guarded by a lookup of
  the orders that carry the purchase's idempotency token, and lists what the subscription already holds for
  the duplicate check; and it turns Azure's reservation recommendations into priced ones, with prices from the
  public retail catalog. Redshift's API has no client token and its nodes no tags, so its client recognises an
  earlier purchase by listing the nodes and, when the caller keeps an attempt journal, by its records. RDS,
  ElastiCache and MemoryDB let the caller name the reservation: their clients derive the name from the token.

  \<^bold>\<open>Theories.\<close>
  \<^item> \<open>Prelude\<close>: early returns, result sums, Go maps and slices, the stable sort and its interface
    \<open>sort_order\<close>, the interface \<open>audited_stage\<close> of a planning stage that loses nothing.
  \<^item> \<open>Go_Float\<close>, \<open>Go_Fmt\<close>, \<open>Go_Text\<close>, \<open>Go_Lib\<close>: what the code uses of Go and its library: \<open>float64\<close>
    with round to nearest even, \<open>big.Rat\<close> text, \<open>fmt\<close>, \<open>strings\<close>, \<open>errors\<close>, \<open>int64\<close> and durations.
  \<^item> \<open>Ladder_Types\<close>, \<open>Ladder_Plan\<close>, \<open>Ladder_Store\<close>, \<open>Ladder_Input\<close>, \<open>Ladder_Units\<close>, \<open>Ladder_Split\<close>,
    \<open>Ladder_Guards\<close>, \<open>Ladder_Allocate\<close>, \<open>Ladder_Shares\<close>, \<open>Ladder_Run\<close>, \<open>Ladder_Tranches\<close>: \<open>pkg/ladder\<close> (types.go, plan.go,
    store.go, allocate.go and its two companions, ladder.go). \<open>Allocate\<close> is the composition of its
    stages; \<open>Ladder_Shares\<close> writes the figures of a run down from its input alone (open gap, due shares,
    reason to stop) and shows that the stages compute them; \<open>Ladder_Run\<close> proves what a run guarantees, \<open>Ladder_Tranches\<close> that its tranches add up.
  \<^item> \<open>Common_Sizes\<close>: \<open>pkg/common/ec2_size.go\<close> and \<open>rds_size.go\<close>.
  \<^item> \<open>Exchange_Quote\<close> (exchange.go, outcome.go), \<open>Exchange_Reshape\<close> (reshape.go), \<open>Exchange_Auto\<close> and
    \<open>Exchange_Run\<close> (auto.go): the guarded exchange, the choice of targets, and the automated run,
    refined to an automaton of its calls. The calls of a run are an event trace; store, client, lookup
    and clock answer from it.
  \<^item> \<open>Rec_Common\<close> (types.go, engine.go, deployment.go, resize.go, drop_summary.go), \<open>Rec_EC2\<close>
    (dedupe_ec2.go, dedupe_ec2_flex.go), \<open>Rec_Charges\<close> (the ledger of what EC2 commitments are charged),
    \<open>Rec_Dedupe\<close> (dedupe.go, dedupe_rds.go), \<open>Rec_Sizing\<close>
    (filters.go, sizing.go), \<open>Rec_Names\<close> (identifiers.go, reservation_name.go, attempt_journal.go and the
    order IDs of tokens.go), \<open>Rec_Tokens\<close> (the tokens derived in tokens.go, over \<open>Go_Sha\<close>: SHA-256 and
    HMAC on 32-bit words), \<open>Rec_Score\<close> (\<open>pkg/scorer\<close> over its sort interface \<open>go_sort\<close>): recommendations from
    the filters to the names of purchases.
  \<^item> \<open>Az_Names\<close> (displayname.go, idempotencymarker.go), \<open>Az_Purchase\<close> (purchase.go, purchasecommitment.go,
    term.go), \<open>Az_Guard\<close> (the purchase refines the runs \<open>purchase_run\<close>), \<open>Az_Once\<close> (what re-drives, errors and
    lookups guarantee), \<open>Az_Services\<close> (PurchaseCommitment, GetOfferingDetails, ValidateOffering of the seven
    clients), \<open>Az_Inventory\<close> (inventory.go, strict.go and the inventories of compute and managedredis),
    \<open>Az_Rows\<close> (dedupe.go and the five inventories of usage rows), \<open>Az_Covered\<close> (inventory and duplicate
    check together): \<open>providers/azure/services\<close>. Requests and waits are appended to the log of the state.
  \<^item> \<open>Az_Prices\<close> (\<open>providers/azure/internal/pricing\<close> and the price lookups of the clients), \<open>Az_Recs\<close>
    (\<open>providers/azure/internal/recommendations\<close>: extraction, scaling, price cache, variants, skips), \<open>Az_Catalog\<close>
    (SKU catalogs, the SQL server survey, the Cosmos API type, valid resource types; every page loop is
    \<open>page_walk\<close>), \<open>Az_Collect\<close> (GetRecommendations of the clients; \<open>consumption_client\<close> is the interface of their
    converters, interpreted on all five; \<open>price_trail\<close> that of their price lookups, whose catalog walks are
    logged): from Azure's rows to priced recommendations.
  \<^item> \<open>Aws_Common\<close> (\<open>providers/aws/internal\<close>: terms, error classes, prices, guards, \<open>pkg/common/reconcile.go\<close>),
    \<open>Aws_Redshift\<close> and \<open>Aws_Redshift_Buy\<close> (client.go, dedupe.go, reconcile.go, reconcile_match.go of
    \<open>services/redshift\<close>: definitions), \<open>Aws_Redshift_Run\<close> (a purchase refines \<open>purchase_spec\<close>), \<open>Aws_Redshift_Once\<close>
    (what tokens, results and reconciliations guarantee).
  \<^item> \<open>Aws_Keyed\<close> (the purchase, lookup, details and listings that \<open>services/rds\<close>, \<open>elasticache\<close> and \<open>memorydb\<close>
    repeat), \<open>Aws_Rds\<close> (what is each client's own), \<open>Aws_Keyed_Run\<close> (the calls of a purchase; \<open>keyed_client\<close> is the
    interface of a client), \<open>Aws_Keyed_Once\<close> (its three interpretations), \<open>Aws_Keyed_Safe\<close> (the guarantees).
    Every call to AWS and to the journal is an event of the log.
  \<^item> \<open>Retry\<close>: exponential.go.

  \<^bold>\<open>How state is modelled.\<close> A struct is a record, an enum a string with its known values, a nil-able
  pointer an option, an error the sentinel, SDK or formatted error of \<open>Go_Text\<close> (or the ladder's own
  error type), a panic or early return a branch. The EC2 entries of the duplicate check are reachable
  through two maps, so they live in a heap and the maps hold addresses. Maps that are read and written
  by key are functions with the zero value as default; maps that are iterated are association lists in
  an unspecified order.

  \<^bold>\<open>What the lemmas show.\<close> Ladder: no run plans more than the target share of the floor net of what is
  owned and in flight, caps and action limits hold, every share of the open gap is bought or held, an early stop names
  its reason, exactly the sound inputs are accepted, and tranches sum to their allocation. Exchange: the irreversible call is made only under two valid USD
  quotes of the same request within the cap, outcomes are classified on the safe side, the float size
  search equals the exact one, and the automated run never executes without a reservation nor goes on
  with unknown books. Recommendations: every element a stage drops is counted (\<open>counted_stage\<close>, one
  interpretation per stage); the duplicate check keeps a ledger: nodes given up are charged to
  commitments that cover them and hold the units, in quarter units for size-flexible ones; sizing keeps to the
  target, exactly or up to the rounding of its \<open>float64\<close> figures. Retry:
  bounded attempts and delays. Names: length, alphabet, suffix and round trip. Azure: a re-driven
  purchase commits at most one order, the lookup never reports a truncated listing as not found, an
  error is marked as an unknown outcome exactly after a retried attempt, a strict inventory loses no live reservation, so nothing bought within the lookback
  is bought again by compute and managedredis; the inventories of usage rows carry no dates and never
  suppress anything. Azure prices: the catalog is read whole or not at all, conflicting rows are never chosen
  between, the price cache is invisible, every row of a collection is priced, skipped with a reason or
  refused, and every price shown is one that a complete walk of that collection read for that SKU, region and term. Redshift: with a durable
  journal an execution sends at most one request per token whatever AWS lists, another execution only after an
  empty listing; a success is on record, a purchase that may exist is reported as unknown, a reconciliation is
  certain. RDS, ElastiCache and MemoryDB: a token yields at most one reservation over any re-drives, exactly the
  recommended count is bought, RDS and MemoryDB purchases are not above the approved upfront, an RDS offering is the only match of the catalog. Scoring: every
  recommendation passes or is filtered once, under the first condition it fails, and the passed ones are ranked.

  \<^bold>\<open>Bounds.\<close> Go's \<open>int\<close> counts are unbounded integers where the code only adds and compares counts of
  instances (products with at most 3584 quarter units fit \<open>int64\<close> for counts below \<open>2 ^ 51\<close>); durations
  and the conversions between \<open>float64\<close> and integers wrap or overflow as written (\<open>i64\<close>, \<open>to_i64\<close>,
  \<open>to_int32\<close>), with the machine-dependent result of an out-of-range conversion as the parameter \<open>ovf\<close>.
  The float size search of the reshape analysis is exact for counts up to \<open>2 ^ 28\<close>. No definition uses
  fuel: the doubling loop recurses on its iteration count, the retry loop on the attempts left, the
  ledger writes on \<open>maxLedgerAttempts = 3\<close>, the purchase loop on \<open>purchaseMaxAttempts = 3\<close>, listings on
  their page caps (5, 10 and 50). Floating-point expressions are evaluated without fused
  multiply-add.

  \<^bold>\<open>Parameters.\<close> EC2 and STS answers, the SDK configuration and throttle table, the exchange store, the
  offering lookup, the ID generator, clocks, random bytes, the operation and context of a retry, and the
  commitment client, the HTTP client of Azure with its JSON decoders, URL check and waits, the SDK's pagers
  the credential, the Redshift, RDS, ElastiCache and MemoryDB APIs, the contexts and the attempt journal are arguments of the definitions that use them.

  \<^bold>\<open>Not modelled.\<close> Log lines; the Explain text and capability interface of the ladder; the JSON codec, audit log and attempt journal storage of
  \<open>pkg/common\<close>; \<open>pkg/insurance\<close>, \<open>pkg/provider\<close>, \<open>pkg/concurrency\<close>, \<open>pkg/httpclient\<close>,
  \<open>pkg/logging\<close>, \<open>pkg/reporter\<close>, \<open>pkg/reccontract\<close>; under \<open>providers\<close> the AWS module but for these four clients and their helpers, the GCP module, and Azure's
  Advisor recommendations, savings plans and exchanges; the diagnostic programs under \<open>ci_cd_sanity_tests\<close>. \<open>strings.ToLower\<close> is exact on ASCII text only, and
  years in formatted times have four digits.

  \<^bold>\<open>Plan.\<close> Left to do: the EC2, OpenSearch and Savings Plans clients of \<open>providers/aws\<close>; coverage and family sizing in
  \<open>providers/aws/recommendations\<close>; SKU matching of \<open>providers/gcp\<close>.
\<close>

end
